(* ===== verification/Prelude.thy ===== *)
theory Prelude
  imports Complex_Main "HOL-Library.Char_ord" "HOL-Library.List_Lexorder" "HOL-Library.AList"
begin

text \<open>
  The vocabulary the components share: Python strings and dicts, results that carry an
  exception, the generic notion of a reachable state, and the interface locales
  (invariants, life cycles, attenuation) that several components interpret.

  \<^item> A Python \<open>str\<close> is a \<open>string\<close>, a list of code points up to 255: \<open>py_space\<close> is
    \<open>str.isspace\<close> on that range, so \<open>blank s\<close> is the \<open>not s.strip()\<close> of the sources.
  \<^item> A Python \<open>dict\<close> is an association list in insertion order. \<open>AList.update\<close> keeps the
    position of a key that is already there and appends a new one, as \<open>d[k] = v\<close> does;
    \<open>map_of\<close> is the lookup, \<open>None\<close> standing for the missing key.
  \<^item> An operation that can raise returns \<open>'e + 'a\<close>, with \<open>Inl\<close> for the exception.
\<close>

named_theorems res_simps \<open>equations of the result monad\<close>
named_theorems dict_simps \<open>lookup, keys and distinctness of insertion-ordered dicts\<close>

section \<open>Strings\<close>

definition py_space :: "char \<Rightarrow> bool" where
  "py_space c = ((of_char c :: nat) \<in> set [9, 10, 11, 12, 13, 28, 29, 30, 31, 32, 133, 160])"

definition py_strip :: "string \<Rightarrow> string" where
  "py_strip s = rev (dropWhile py_space (rev (dropWhile py_space s)))"

definition blank :: "string \<Rightarrow> bool" where
  "blank s = (py_strip s = [])"

lemma blank_iff: "blank s \<longleftrightarrow> (\<forall>c \<in> set s. py_space c)"
proof -
  have "set s = set (takeWhile py_space s) \<union> set (dropWhile py_space s)"
    by (metis set_append takeWhile_dropWhile_id)
  then show ?thesis
    by (auto simp: blank_def py_strip_def dropWhile_eq_Nil_conv dest: set_takeWhileD)
qed

lemma blank_Nil [simp]: "blank []"
  by (simp add: blank_iff)

text \<open>\<open>len(s.encode("utf-8"))\<close>: one byte below 128, two bytes up to 255.\<close>

definition utf8_len :: "string \<Rightarrow> nat" where
  "utf8_len s = sum_list (map (\<lambda>c. if (of_char c :: nat) < 128 then 1 else 2) s)"

lemma utf8_len_bounds: "length s \<le> utf8_len s \<and> utf8_len s \<le> 2 * length s"
  by (induction s) (auto simp: utf8_len_def)

text \<open>\<open>xs[:n]\<close> of a Python sequence: a negative bound counts from the end.\<close>

definition py_take :: "int \<Rightarrow> 'a list \<Rightarrow> 'a list" where
  "py_take n xs = (if n < 0 then take (nat (int (length xs) + n)) xs else take (nat n) xs)"

lemma set_py_take: "set (py_take n xs) \<subseteq> set xs"
  by (simp add: py_take_def set_take_subset)

text \<open>\<open>sep.join(xs)\<close>.\<close>

fun py_join :: "string \<Rightarrow> string list \<Rightarrow> string" where
  "py_join sep [] = []"
| "py_join sep [x] = x"
| "py_join sep (x # xs) = x @ sep @ py_join sep xs"

section \<open>Results\<close>

fun bind_res :: "'e + 'a \<Rightarrow> ('a \<Rightarrow> 'e + 'b) \<Rightarrow> 'e + 'b" where
  "bind_res (Inl e) f = Inl e"
| "bind_res (Inr x) f = f x"

lemma bind_res_cong [fundef_cong]:
  "r = r' \<Longrightarrow> (\<And>x. r' = Inr x \<Longrightarrow> f x = f' x) \<Longrightarrow> bind_res r f = bind_res r' f'"
  by (cases r') auto

text \<open>The rule that keeps the simplifier out of a continuation until its argument is known.\<close>

lemma bind_res_weak_cong: "r = r' \<Longrightarrow> bind_res r f = bind_res r' f"
  by simp

definition require :: "bool \<Rightarrow> 'e \<Rightarrow> 'e + unit" where
  "require b e = (if b then Inr () else Inl e)"

fun map_res :: "('a \<Rightarrow> 'e + 'b) \<Rightarrow> 'a list \<Rightarrow> 'e + 'b list" where
  "map_res f [] = Inr []"
| "map_res f (x # xs) = bind_res (f x) (\<lambda>y. bind_res (map_res f xs) (\<lambda>ys. Inr (y # ys)))"

lemma bind_res_Inr_iff [res_simps]:
  "bind_res r f = Inr y \<longleftrightarrow> (\<exists>x. r = Inr x \<and> f x = Inr y)"
  by (cases r) auto

lemma bind_res_Inl_iff [res_simps]:
  "bind_res r f = Inl e \<longleftrightarrow> r = Inl e \<or> (\<exists>x. r = Inr x \<and> f x = Inl e)"
  by (cases r) auto

lemma require_Inr_iff [res_simps]: "require b e = Inr u \<longleftrightarrow> b"
  by (simp add: require_def)

lemma require_Inl_iff [res_simps]: "require b e = Inl e' \<longleftrightarrow> \<not> b \<and> e' = e"
  by (auto simp: require_def)

lemma require_True [simp]: "require True e = Inr ()"
  by (simp add: require_def)

lemma require_False [simp]: "require False e = Inl e"
  by (simp add: require_def)

lemma bind_require_eq [res_simps]:
  "bind_res (require b e) f = (if b then f () else Inl e)"
  by (simp add: require_def)

lemma map_res_Inr_iff:
  "map_res f xs = Inr ys \<longleftrightarrow> list_all2 (\<lambda>x y. f x = Inr y) xs ys"
  by (induction xs arbitrary: ys) (auto simp: res_simps list_all2_Cons1)

lemma map_res_roundtrip:
  assumes "\<And>x. x \<in> set xs \<Longrightarrow> f (g x) = Inr x"
  shows "map_res f (map g xs) = Inr xs"
  using assms by (induction xs) auto

section \<open>Dicts\<close>

type_synonym ('k, 'v) dict = "('k \<times> 'v) list"

abbreviation dict_keys :: "('k, 'v) dict \<Rightarrow> 'k list" where
  "dict_keys d \<equiv> map fst d"

abbreviation dict_values :: "('k, 'v) dict \<Rightarrow> 'v list" where
  "dict_values d \<equiv> map snd d"

abbreviation dict_set :: "'k \<Rightarrow> 'v \<Rightarrow> ('k, 'v) dict \<Rightarrow> ('k, 'v) dict" where
  "dict_set k v d \<equiv> AList.update k v d"

lemma dict_get_set [dict_simps]: "map_of (dict_set k v d) = (map_of d)(k \<mapsto> v)"
  by (rule update_conv')

lemma dict_keys_set [dict_simps]:
  "dict_keys (dict_set k v d) = (if k \<in> set (dict_keys d) then dict_keys d else dict_keys d @ [k])"
  by (rule update_keys)

lemma dict_set_in [dict_simps]:
  "(k', v') \<in> set (dict_set k v d) \<Longrightarrow> (k' = k \<and> v' = v) \<or> (k', v') \<in> set d"
  by (induction d) (auto split: if_splits)

lemma dict_set_fresh: "k \<notin> set (dict_keys d) \<Longrightarrow> dict_set k v d = d @ [(k, v)]"
  by (induction d) auto

lemma map_of_distinct_iff:
  "distinct (dict_keys d) \<Longrightarrow> map_of d k = Some v \<longleftrightarrow> (k, v) \<in> set d"
  by (auto intro: map_of_is_SomeI dest: map_of_SomeD)

lemma map_of_in_keys: "map_of d k = Some v \<Longrightarrow> k \<in> fst ` set d"
  by (auto dest: map_of_SomeD intro: image_eqI [where x = "(k, v)"])

lemma in_keys_map_of: "k \<in> fst ` set d \<Longrightarrow> \<exists>v. map_of d k = Some v"
  by (metis map_of_eq_None_iff not_None_eq)

section \<open>Reachable states\<close>

inductive reach :: "('s \<Rightarrow> bool) \<Rightarrow> ('s \<Rightarrow> 's \<Rightarrow> bool) \<Rightarrow> 's \<Rightarrow> bool"
  for init :: "'s \<Rightarrow> bool" and step :: "'s \<Rightarrow> 's \<Rightarrow> bool" where
  reach_init: "init s \<Longrightarrow> reach init step s"
| reach_step: "reach init step s \<Longrightarrow> step s t \<Longrightarrow> reach init step t"

text \<open>
  The interface of a component whose operations keep an invariant: the provider discharges
  \<open>inv_init\<close> and \<open>inv_step\<close> for its own states and steps, its clients use \<open>reach_inv\<close> and
  the rule for a further property that holds on top of the invariant.
\<close>

locale invariant_system =
  fixes init :: "'s \<Rightarrow> bool" and step :: "'s \<Rightarrow> 's \<Rightarrow> bool" and inv :: "'s \<Rightarrow> bool"
  assumes inv_init: "init s \<Longrightarrow> inv s"
    and inv_step: "inv s \<Longrightarrow> step s t \<Longrightarrow> inv t"
begin

lemma reach_inv: "reach init step s \<Longrightarrow> inv s"
  by (induction rule: reach.induct) (auto intro: inv_init inv_step)

lemma steps_inv: "step\<^sup>*\<^sup>* s t \<Longrightarrow> inv s \<Longrightarrow> inv t"
  by (induction rule: rtranclp_induct) (auto intro: inv_step)

lemma steps_mono:
  assumes path: "step\<^sup>*\<^sup>* s t" and s: "inv s"
    and refl: "\<And>a. R a a"
    and trans: "\<And>a b c. R a b \<Longrightarrow> R b c \<Longrightarrow> R a c"
    and one: "\<And>a b. inv a \<Longrightarrow> step a b \<Longrightarrow> R a b"
  shows "R s t"
  using path
proof (induction rule: rtranclp_induct)
  case base
  show ?case by (rule refl)
next
  case (step y z)
  then have "inv y" using s steps_inv by blast
  with step show ?case by (blast intro: trans one)
qed

end

section \<open>Life cycles\<close>

text \<open>
  A status machine: \<open>moves a b\<close> says that one operation may take a record from status \<open>a\<close>
  to status \<open>b\<close>, \<open>final a\<close> that \<open>a\<close> is settled. A settled status leads to settled statuses
  only, along any run.
\<close>

locale life_cycle =
  fixes moves :: "'a \<Rightarrow> 'a \<Rightarrow> bool" and final :: "'a \<Rightarrow> bool"
  assumes final_moves: "final a \<Longrightarrow> moves a b \<Longrightarrow> final b"
begin

lemma final_steps: "moves\<^sup>*\<^sup>* a b \<Longrightarrow> final a \<Longrightarrow> final b"
  by (induction rule: rtranclp_induct) (auto intro: final_moves)

lemma open_origin: "moves\<^sup>*\<^sup>* a b \<Longrightarrow> \<not> final b \<Longrightarrow> \<not> final a"
  using final_steps by blast

end

text \<open>A life cycle whose settled statuses are absorbing: nothing follows them at all.\<close>

locale absorbing_life_cycle = life_cycle +
  assumes final_stuck: "final a \<Longrightarrow> \<not> moves a b"
begin

lemma final_unchanged: "moves\<^sup>*\<^sup>* a b \<Longrightarrow> final a \<Longrightarrow> b = a"
  by (induction rule: converse_rtranclp_induct) (auto simp: final_stuck)

end

section \<open>Attenuation\<close>

text \<open>
  A preorder of grants, \<open>inside child parent\<close>. Along a chain of delegations in which each
  link is within the one before, the last is within the first.
\<close>

locale attenuation =
  fixes inside :: "'a \<Rightarrow> 'a \<Rightarrow> bool"
  assumes inside_refl: "inside a a"
    and inside_trans: "inside a b \<Longrightarrow> inside b c \<Longrightarrow> inside a c"
begin

fun narrowing :: "'a \<Rightarrow> 'a list \<Rightarrow> bool" where
  "narrowing top_grant [] = True"
| "narrowing top_grant (c # cs) = (inside c top_grant \<and> narrowing c cs)"

lemma narrowing_last: "narrowing top_grant cs \<Longrightarrow> inside (last (top_grant # cs)) top_grant"
proof (induction cs arbitrary: top_grant)
  case Nil
  show ?case by (simp add: inside_refl)
next
  case (Cons c cs)
  then have "inside (last (c # cs)) c" and "inside c top_grant" by auto
  then show ?case by (auto intro: inside_trans)
qed

lemma narrowing_all: "narrowing top_grant cs \<Longrightarrow> c \<in> set cs \<Longrightarrow> inside c top_grant"
  by (induction cs arbitrary: top_grant) (auto intro: inside_trans)

end

end
