(* ===== verification/Json.thy ===== *)
theory Json
  imports Prelude
begin

text \<open>
  The values that cross the program's \<open>to_dict\<close> / \<open>from_dict\<close> boundary: JSON documents as
  Python holds them (objects are insertion-ordered dicts, finite floats are the rational
  they denote), with the accesses and conversions the decoders apply.

  The decoders call \<open>str\<close>, \<open>int\<close>, \<open>float\<close> and \<open>dict\<close> on whatever the document holds. On a
  value that already has the type the call returns it; what the built-in does on a value of
  another type (the \<open>repr\<close> of a container, the parsing of a numeral) is the record
  \<open>py_conv\<close>, an argument of every decoder, about which nothing is assumed.
\<close>

datatype json = JNull | JBool bool | JInt int | JFloat rat | JStr string
  | JArr "json list" | JObj "(string \<times> json) list"

datatype py_error = KeyError string | TypeError | AttributeError | ValueError string

record py_conv =
  conv_str :: "json \<Rightarrow> string"
  conv_int :: "json \<Rightarrow> py_error + int"
  conv_float :: "json \<Rightarrow> py_error + rat"
  conv_dict :: "json \<Rightarrow> py_error + (string, json) dict"

text \<open>\<open>value[k]\<close>, \<open>value.get(k)\<close> and \<open>value.get(k, d)\<close>.\<close>

fun item :: "json \<Rightarrow> string \<Rightarrow> py_error + json" where
  "item (JObj d) k = (case map_of d k of None \<Rightarrow> Inl (KeyError k) | Some v \<Rightarrow> Inr v)"
| "item v k = Inl TypeError"

fun item_or :: "json \<Rightarrow> string \<Rightarrow> json \<Rightarrow> py_error + json" where
  "item_or (JObj d) k v = Inr (case map_of d k of None \<Rightarrow> v | Some w \<Rightarrow> w)"
| "item_or w k v = Inl AttributeError"

text \<open>Iteration over a value: list elements, the characters of a string, the keys of an object.\<close>

fun iterate :: "json \<Rightarrow> py_error + json list" where
  "iterate (JArr xs) = Inr xs"
| "iterate (JStr s) = Inr (map (\<lambda>c. JStr [c]) s)"
| "iterate (JObj d) = Inr (map (JStr \<circ> fst) d)"
| "iterate v = Inl TypeError"

text \<open>\<open>bool(v)\<close>.\<close>

fun truthy :: "json \<Rightarrow> bool" where
  "truthy JNull = False"
| "truthy (JBool b) = b"
| "truthy (JInt n) = (n \<noteq> 0)"
| "truthy (JFloat r) = (r \<noteq> 0)"
| "truthy (JStr s) = (s \<noteq> [])"
| "truthy (JArr xs) = (xs \<noteq> [])"
| "truthy (JObj d) = (d \<noteq> [])"

definition to_str :: "py_conv \<Rightarrow> json \<Rightarrow> string" where
  "to_str c v = (case v of JStr s \<Rightarrow> s | _ \<Rightarrow> conv_str c v)"

definition to_int :: "py_conv \<Rightarrow> json \<Rightarrow> py_error + int" where
  "to_int c v = (case v of JInt n \<Rightarrow> Inr n | _ \<Rightarrow> conv_int c v)"

definition to_float :: "py_conv \<Rightarrow> json \<Rightarrow> py_error + rat" where
  "to_float c v = (case v of JFloat r \<Rightarrow> Inr r | _ \<Rightarrow> conv_float c v)"

definition to_obj :: "py_conv \<Rightarrow> json \<Rightarrow> py_error + (string, json) dict" where
  "to_obj c v = (case v of JObj d \<Rightarrow> Inr d | _ \<Rightarrow> conv_dict c v)"

text \<open>\<open>tuple(str(x) for x in v)\<close>.\<close>

definition str_tuple :: "py_conv \<Rightarrow> json \<Rightarrow> py_error + string list" where
  "str_tuple c v = bind_res (iterate v) (\<lambda>xs. Inr (map (to_str c) xs))"

abbreviation jstrs :: "string list \<Rightarrow> json" where
  "jstrs xs \<equiv> JArr (map JStr xs)"

text \<open>A field that is \<open>None\<close> or a value.\<close>

definition jopt :: "('a \<Rightarrow> json) \<Rightarrow> 'a option \<Rightarrow> json" where
  "jopt f x = (case x of None \<Rightarrow> JNull | Some y \<Rightarrow> f y)"

lemma conv_simps [simp]:
  "to_str c (JStr s) = s" "to_int c (JInt n) = Inr n" "to_float c (JFloat r) = Inr r"
  "to_obj c (JObj d) = Inr d"
  by (simp_all add: to_str_def to_int_def to_float_def to_obj_def)

lemma str_tuple_jstrs [simp]: "str_tuple c (jstrs xs) = Inr xs"
  by (simp add: str_tuple_def comp_def)

lemma jopt_simps [simp]: "jopt f None = JNull" "jopt f (Some y) = f y"
  by (simp_all add: jopt_def)

text \<open>
  Parsing the value of a string enumeration, \<open>E(str(v))\<close>: the member whose value it is.
\<close>

definition enum_of :: "('e \<Rightarrow> string) \<Rightarrow> 'e list \<Rightarrow> string \<Rightarrow> py_error + 'e" where
  "enum_of val members s =
     (case filter (\<lambda>m. val m = s) members of [] \<Rightarrow> Inl (ValueError s) | m # _ \<Rightarrow> Inr m)"

text \<open>
  An enumeration's members and values, the contract each of the sources' \<open>(str, Enum)\<close>
  classes meets: every member is listed and no two share a value.
\<close>

locale str_enum =
  fixes val :: "'e \<Rightarrow> string" and members :: "'e list"
  assumes all_members: "m \<in> set members"
    and val_inj: "val m = val m' \<Longrightarrow> m = m'"
begin

lemma filter_val: "filter (\<lambda>m'. val m' = val m) ms = filter (\<lambda>m'. m' = m) ms"
  by (rule filter_cong) (auto dest: val_inj)

lemma parse_val [simp]: "enum_of val members (val m) = Inr m"
proof -
  have "m \<in> set (filter (\<lambda>m'. m' = m) members)" using all_members by simp
  then obtain r rs where rs: "filter (\<lambda>m'. m' = m) members = r # rs"
    by (cases "filter (\<lambda>m'. m' = m) members") auto
  then have "r = m" by (metis (mono_tags) filter_eq_Cons_iff)
  with rs show ?thesis by (simp add: enum_of_def filter_val)
qed

lemma parse_sound: "enum_of val members s = Inr m \<Longrightarrow> val m = s"
  by (auto simp: enum_of_def filter_eq_Cons_iff split: list.splits)

lemma parse_iff: "enum_of val members s = Inr m \<longleftrightarrow> val m = s"
  using parse_val parse_sound by blast

end

end
