(* ===== verification/Protocol.thy ===== *)
theory Protocol
  imports Json
begin

text \<open>
  The coordination messages of \<open>protocol.py\<close>: the enumerations, the frozen dataclasses with
  their \<open>__post_init__\<close> checks (\<open>check_...\<close>, which returns the record or the raised error),
  and the JSON codecs \<open>to_dict\<close> / \<open>from_dict\<close>. A field the decoder copies from the document
  without a conversion (declared \<open>str | None\<close>, never checked) keeps its JSON value.
\<close>

section \<open>Enumerations\<close>

datatype actor_kind = AK_HUMAN | AK_AGENT | AK_SYSTEM | AK_TOOL

fun actor_kind_value :: "actor_kind \<Rightarrow> string" where
  "actor_kind_value AK_HUMAN = ''human''"
| "actor_kind_value AK_AGENT = ''agent''"
| "actor_kind_value AK_SYSTEM = ''system''"
| "actor_kind_value AK_TOOL = ''tool''"

definition actor_kinds :: "actor_kind list" where
  "actor_kinds = [AK_HUMAN, AK_AGENT, AK_SYSTEM, AK_TOOL]"

datatype envelope_kind = EK_CHAT | EK_TASK_ASSIGN | EK_TASK_PROGRESS | EK_TASK_RESULT
  | EK_HANDOFF | EK_APPROVAL_REQUEST | EK_APPROVAL_DECISION | EK_CONTROL | EK_ERROR

fun envelope_kind_value :: "envelope_kind \<Rightarrow> string" where
  "envelope_kind_value EK_CHAT = ''chat''"
| "envelope_kind_value EK_TASK_ASSIGN = ''task.assign''"
| "envelope_kind_value EK_TASK_PROGRESS = ''task.progress''"
| "envelope_kind_value EK_TASK_RESULT = ''task.result''"
| "envelope_kind_value EK_HANDOFF = ''handoff''"
| "envelope_kind_value EK_APPROVAL_REQUEST = ''approval.request''"
| "envelope_kind_value EK_APPROVAL_DECISION = ''approval.decision''"
| "envelope_kind_value EK_CONTROL = ''control''"
| "envelope_kind_value EK_ERROR = ''error''"

definition envelope_kinds :: "envelope_kind list" where
  "envelope_kinds = [EK_CHAT, EK_TASK_ASSIGN, EK_TASK_PROGRESS, EK_TASK_RESULT, EK_HANDOFF,
     EK_APPROVAL_REQUEST, EK_APPROVAL_DECISION, EK_CONTROL, EK_ERROR]"

datatype task_status = TS_PENDING | TS_READY | TS_RUNNING | TS_WAITING_INPUT
  | TS_WAITING_APPROVAL | TS_COMPLETED | TS_FAILED | TS_BLOCKED | TS_CANCELED | TS_SUPERSEDED

fun task_status_value :: "task_status \<Rightarrow> string" where
  "task_status_value TS_PENDING = ''pending''"
| "task_status_value TS_READY = ''ready''"
| "task_status_value TS_RUNNING = ''running''"
| "task_status_value TS_WAITING_INPUT = ''waiting_input''"
| "task_status_value TS_WAITING_APPROVAL = ''waiting_approval''"
| "task_status_value TS_COMPLETED = ''completed''"
| "task_status_value TS_FAILED = ''failed''"
| "task_status_value TS_BLOCKED = ''blocked''"
| "task_status_value TS_CANCELED = ''canceled''"
| "task_status_value TS_SUPERSEDED = ''superseded''"

definition task_statuses :: "task_status list" where
  "task_statuses = [TS_PENDING, TS_READY, TS_RUNNING, TS_WAITING_INPUT, TS_WAITING_APPROVAL,
     TS_COMPLETED, TS_FAILED, TS_BLOCKED, TS_CANCELED, TS_SUPERSEDED]"

datatype risk_level = RL_NONE | RL_LOW | RL_MEDIUM | RL_HIGH | RL_CRITICAL

fun risk_level_value :: "risk_level \<Rightarrow> string" where
  "risk_level_value RL_NONE = ''none''"
| "risk_level_value RL_LOW = ''low''"
| "risk_level_value RL_MEDIUM = ''medium''"
| "risk_level_value RL_HIGH = ''high''"
| "risk_level_value RL_CRITICAL = ''critical''"

definition risk_levels :: "risk_level list" where
  "risk_levels = [RL_NONE, RL_LOW, RL_MEDIUM, RL_HIGH, RL_CRITICAL]"

fun rank :: "risk_level \<Rightarrow> int" where
  "rank RL_NONE = 0"
| "rank RL_LOW = 1"
| "rank RL_MEDIUM = 2"
| "rank RL_HIGH = 3"
| "rank RL_CRITICAL = 4"

text \<open>The ranks order the risk levels linearly, so the library's order automation applies.\<close>

instantiation risk_level :: linorder
begin

definition less_eq_risk_level :: "risk_level \<Rightarrow> risk_level \<Rightarrow> bool" where
  "less_eq_risk_level a b = (rank a \<le> rank b)"

definition less_risk_level :: "risk_level \<Rightarrow> risk_level \<Rightarrow> bool" where
  "less_risk_level a b = (rank a < rank b)"

instance
proof
  fix a b :: risk_level
  show "a \<le> b \<Longrightarrow> b \<le> a \<Longrightarrow> a = b"
    by (cases a; cases b) (simp_all add: less_eq_risk_level_def)
qed (auto simp: less_eq_risk_level_def less_risk_level_def)

end

datatype approval_decision = AD_APPROVE | AD_REJECT | AD_REVISE

fun approval_decision_value :: "approval_decision \<Rightarrow> string" where
  "approval_decision_value AD_APPROVE = ''approve''"
| "approval_decision_value AD_REJECT = ''reject''"
| "approval_decision_value AD_REVISE = ''revise''"

definition approval_decisions :: "approval_decision list" where
  "approval_decisions = [AD_APPROVE, AD_REJECT, AD_REVISE]"

interpretation actor_kind_enum: str_enum actor_kind_value actor_kinds
proof
  show "m \<in> set actor_kinds" for m by (cases m) (simp_all add: actor_kinds_def)
  show "actor_kind_value m = actor_kind_value m' \<Longrightarrow> m = m'" for m m'
    by (cases m; cases m') simp_all
qed

interpretation envelope_kind_enum: str_enum envelope_kind_value envelope_kinds
proof
  show "m \<in> set envelope_kinds" for m by (cases m) (simp_all add: envelope_kinds_def)
  show "envelope_kind_value m = envelope_kind_value m' \<Longrightarrow> m = m'" for m m'
    by (cases m; cases m') simp_all
qed

interpretation task_status_enum: str_enum task_status_value task_statuses
proof
  show "m \<in> set task_statuses" for m by (cases m) (simp_all add: task_statuses_def)
  show "task_status_value m = task_status_value m' \<Longrightarrow> m = m'" for m m'
    by (cases m; cases m') simp_all
qed

interpretation risk_level_enum: str_enum risk_level_value risk_levels
proof
  show "m \<in> set risk_levels" for m by (cases m) (simp_all add: risk_levels_def)
  show "risk_level_value m = risk_level_value m' \<Longrightarrow> m = m'" for m m'
    by (cases m; cases m') simp_all
qed

interpretation approval_decision_enum: str_enum approval_decision_value approval_decisions
proof
  show "m \<in> set approval_decisions" for m by (cases m) (simp_all add: approval_decisions_def)
  show "approval_decision_value m = approval_decision_value m' \<Longrightarrow> m = m'" for m m'
    by (cases m; cases m') simp_all
qed

section \<open>Actors, authority, action intents\<close>

record actor_ref =
  ar_actor_id :: string
  ar_name :: string
  ar_kind :: actor_kind
  ar_role :: json

definition check_actor_ref :: "actor_ref \<Rightarrow> py_error + actor_ref" where
  "check_actor_ref a =
     (if blank (ar_actor_id a) \<or> blank (ar_name a)
      then Inl (ValueError ''actor_id and name are required'') else Inr a)"

definition actor_ref_to_dict :: "actor_ref \<Rightarrow> json" where
  "actor_ref_to_dict a = JObj
     [(''actorId'', JStr (ar_actor_id a)), (''name'', JStr (ar_name a)),
      (''kind'', JStr (actor_kind_value (ar_kind a))), (''role'', ar_role a)]"

definition actor_ref_from_dict :: "py_conv \<Rightarrow> json \<Rightarrow> py_error + actor_ref" where
  "actor_ref_from_dict c v =
     bind_res (item v ''actorId'') (\<lambda>i.
     bind_res (item v ''name'') (\<lambda>n.
     bind_res (item v ''kind'') (\<lambda>k.
     bind_res (enum_of actor_kind_value actor_kinds (to_str c k)) (\<lambda>kind.
     bind_res (item_or v ''role'' JNull) (\<lambda>r.
     check_actor_ref \<lparr>ar_actor_id = to_str c i, ar_name = to_str c n, ar_kind = kind,
                      ar_role = r\<rparr>)))))"

lemma actor_ref_roundtrip [simp]:
  "actor_ref_from_dict c (actor_ref_to_dict a) = check_actor_ref a"
  by (cases a) (simp add: actor_ref_from_dict_def actor_ref_to_dict_def)

record authority =
  au_allowed_actions :: "string list"
  au_data_scopes :: "string list"
  au_max_risk :: risk_level
  au_external_side_effects :: bool

definition default_authority :: authority where
  "default_authority = \<lparr>au_allowed_actions = [], au_data_scopes = [], au_max_risk = RL_LOW,
     au_external_side_effects = False\<rparr>"

definition permits :: "authority \<Rightarrow> string \<Rightarrow> risk_level \<Rightarrow> bool \<Rightarrow> bool" where
  "permits au action risk external =
     ((''*'' \<in> set (au_allowed_actions au) \<or> action \<in> set (au_allowed_actions au))
      \<and> rank risk \<le> rank (au_max_risk au)
      \<and> (\<not> external \<or> au_external_side_effects au))"

definition authority_to_dict :: "authority \<Rightarrow> json" where
  "authority_to_dict au = JObj
     [(''allowedActions'', jstrs (au_allowed_actions au)),
      (''dataScopes'', jstrs (au_data_scopes au)),
      (''maxRisk'', JStr (risk_level_value (au_max_risk au))),
      (''externalSideEffects'', JBool (au_external_side_effects au))]"

definition authority_from_dict :: "py_conv \<Rightarrow> json \<Rightarrow> py_error + authority" where
  "authority_from_dict c v =
     bind_res (bind_res (item_or v ''allowedActions'' (JArr [])) (str_tuple c)) (\<lambda>acts.
     bind_res (bind_res (item_or v ''dataScopes'' (JArr [])) (str_tuple c)) (\<lambda>scopes.
     bind_res (item_or v ''maxRisk'' (JStr (risk_level_value RL_LOW))) (\<lambda>r.
     bind_res (enum_of risk_level_value risk_levels (to_str c r)) (\<lambda>risk.
     bind_res (item_or v ''externalSideEffects'' (JBool False)) (\<lambda>e.
     Inr \<lparr>au_allowed_actions = acts, au_data_scopes = scopes, au_max_risk = risk,
          au_external_side_effects = truthy e\<rparr>)))))"

lemma authority_roundtrip [simp]: "authority_from_dict c (authority_to_dict a) = Inr a"
  by (simp add: authority_from_dict_def authority_to_dict_def)

record action_intent =
  ai_action :: string
  ai_target :: string
  ai_risk :: risk_level
  ai_external_side_effect :: bool
  ai_irreversible :: bool
  ai_data_classes :: "string list"

definition action_intent_to_dict :: "action_intent \<Rightarrow> json" where
  "action_intent_to_dict a = JObj
     [(''action'', JStr (ai_action a)), (''target'', JStr (ai_target a)),
      (''risk'', JStr (risk_level_value (ai_risk a))),
      (''externalSideEffect'', JBool (ai_external_side_effect a)),
      (''irreversible'', JBool (ai_irreversible a)),
      (''dataClasses'', jstrs (ai_data_classes a))]"

definition action_intent_from_dict :: "py_conv \<Rightarrow> json \<Rightarrow> py_error + action_intent" where
  "action_intent_from_dict c v =
     bind_res (item v ''action'') (\<lambda>a.
     bind_res (item v ''target'') (\<lambda>t.
     bind_res (item_or v ''risk'' (JStr (risk_level_value RL_LOW))) (\<lambda>r.
     bind_res (enum_of risk_level_value risk_levels (to_str c r)) (\<lambda>risk.
     bind_res (item_or v ''externalSideEffect'' (JBool False)) (\<lambda>e.
     bind_res (item_or v ''irreversible'' (JBool False)) (\<lambda>i.
     bind_res (bind_res (item_or v ''dataClasses'' (JArr [])) (str_tuple c)) (\<lambda>ds.
     Inr \<lparr>ai_action = to_str c a, ai_target = to_str c t, ai_risk = risk,
          ai_external_side_effect = truthy e, ai_irreversible = truthy i,
          ai_data_classes = ds\<rparr>)))))))"

lemma action_intent_roundtrip [simp]:
  "action_intent_from_dict c (action_intent_to_dict a) = Inr a"
  by (simp add: action_intent_from_dict_def action_intent_to_dict_def)

section \<open>Artifact and context references\<close>

record artifact_ref =
  af_artifact_id :: string
  af_name :: string
  af_version :: int
  af_media_type :: string
  af_uri :: string
  af_digest :: string
  af_created_by :: string
  af_task_id :: string
  af_parent_version :: "int option"

definition artifact_ref_to_dict :: "artifact_ref \<Rightarrow> json" where
  "artifact_ref_to_dict a = JObj
     [(''artifactId'', JStr (af_artifact_id a)), (''name'', JStr (af_name a)),
      (''version'', JInt (af_version a)), (''mediaType'', JStr (af_media_type a)),
      (''uri'', JStr (af_uri a)), (''digest'', JStr (af_digest a)),
      (''createdBy'', JStr (af_created_by a)), (''taskId'', JStr (af_task_id a)),
      (''parentVersion'', jopt JInt (af_parent_version a))]"

definition artifact_ref_from_dict :: "py_conv \<Rightarrow> json \<Rightarrow> py_error + artifact_ref" where
  "artifact_ref_from_dict c v =
     bind_res (item v ''artifactId'') (\<lambda>i.
     bind_res (item v ''name'') (\<lambda>n.
     bind_res (bind_res (item v ''version'') (to_int c)) (\<lambda>ver.
     bind_res (item v ''mediaType'') (\<lambda>m.
     bind_res (item v ''uri'') (\<lambda>u.
     bind_res (item v ''digest'') (\<lambda>d.
     bind_res (item v ''createdBy'') (\<lambda>b.
     bind_res (item v ''taskId'') (\<lambda>t.
     bind_res (item_or v ''parentVersion'' JNull) (\<lambda>p.
     bind_res (if p = JNull then Inr None
               else bind_res (to_int c p) (\<lambda>k. Inr (Some k))) (\<lambda>parent.
     Inr \<lparr>af_artifact_id = to_str c i, af_name = to_str c n, af_version = ver,
          af_media_type = to_str c m, af_uri = to_str c u, af_digest = to_str c d,
          af_created_by = to_str c b, af_task_id = to_str c t,
          af_parent_version = parent\<rparr>))))))))))"

lemma artifact_ref_roundtrip [simp]:
  "artifact_ref_from_dict c (artifact_ref_to_dict a) = Inr a"
  by (cases a; cases "af_parent_version a")
    (simp_all add: artifact_ref_from_dict_def artifact_ref_to_dict_def)

record context_ref =
  cr_ref_id :: string
  cr_category :: string
  cr_version :: string
  cr_digest :: string
  cr_required :: bool
  cr_relevance :: rat
  cr_provenance :: json

definition check_context_ref :: "context_ref \<Rightarrow> py_error + context_ref" where
  "check_context_ref r =
     (if 0 \<le> cr_relevance r \<and> cr_relevance r \<le> 1 then Inr r
      else Inl (ValueError ''relevance must be between 0 and 1''))"

definition context_ref_to_dict :: "context_ref \<Rightarrow> json" where
  "context_ref_to_dict r = JObj
     [(''refId'', JStr (cr_ref_id r)), (''category'', JStr (cr_category r)),
      (''version'', JStr (cr_version r)), (''digest'', JStr (cr_digest r)),
      (''required'', JBool (cr_required r)), (''relevance'', JFloat (cr_relevance r)),
      (''provenance'', cr_provenance r)]"

definition context_ref_from_dict :: "py_conv \<Rightarrow> json \<Rightarrow> py_error + context_ref" where
  "context_ref_from_dict c v =
     bind_res (item v ''refId'') (\<lambda>i.
     bind_res (item v ''category'') (\<lambda>k.
     bind_res (item v ''version'') (\<lambda>ver.
     bind_res (item v ''digest'') (\<lambda>d.
     bind_res (item_or v ''required'' (JBool False)) (\<lambda>req.
     bind_res (bind_res (item_or v ''relevance'' (JFloat (1/2))) (to_float c)) (\<lambda>rel.
     bind_res (item_or v ''provenance'' JNull) (\<lambda>p.
     check_context_ref \<lparr>cr_ref_id = to_str c i, cr_category = to_str c k,
       cr_version = to_str c ver, cr_digest = to_str c d, cr_required = truthy req,
       cr_relevance = rel, cr_provenance = p\<rparr>)))))))"

lemma context_ref_roundtrip [simp]:
  "context_ref_from_dict c (context_ref_to_dict r) = check_context_ref r"
  by (cases r) (simp add: context_ref_from_dict_def context_ref_to_dict_def)

section \<open>Handoff contracts\<close>

record handoff_contract =
  hc_goal :: string
  hc_acceptance_criteria :: "string list"
  hc_deliverables :: "string list"
  hc_inputs :: "artifact_ref list"
  hc_context_refs :: "context_ref list"
  hc_constraints :: "string list"
  hc_authority :: authority
  hc_parent_task_id :: json
  hc_token_budget :: "int option"
  hc_cost_budget :: "rat option"
  hc_deadline :: json

definition check_handoff :: "handoff_contract \<Rightarrow> py_error + handoff_contract" where
  "check_handoff h =
     (if blank (hc_goal h) then Inl (ValueError ''handoff goal is required'')
      else if hc_acceptance_criteria h = []
        then Inl (ValueError ''at least one acceptance criterion is required'')
      else if hc_deliverables h = []
        then Inl (ValueError ''at least one deliverable is required'')
      else if (case hc_token_budget h of None \<Rightarrow> False | Some n \<Rightarrow> n \<le> 0)
        then Inl (ValueError ''token_budget must be positive'')
      else if (case hc_cost_budget h of None \<Rightarrow> False | Some r \<Rightarrow> r < 0)
        then Inl (ValueError ''cost_budget cannot be negative'')
      else Inr h)"

definition handoff_to_dict :: "handoff_contract \<Rightarrow> json" where
  "handoff_to_dict h = JObj
     [(''goal'', JStr (hc_goal h)),
      (''acceptanceCriteria'', jstrs (hc_acceptance_criteria h)),
      (''deliverables'', jstrs (hc_deliverables h)),
      (''inputs'', JArr (map artifact_ref_to_dict (hc_inputs h))),
      (''contextRefs'', JArr (map context_ref_to_dict (hc_context_refs h))),
      (''constraints'', jstrs (hc_constraints h)),
      (''authority'', authority_to_dict (hc_authority h)),
      (''parentTaskId'', hc_parent_task_id h),
      (''tokenBudget'', jopt JInt (hc_token_budget h)),
      (''costBudget'', jopt JFloat (hc_cost_budget h)),
      (''deadline'', hc_deadline h)]"

definition handoff_from_dict :: "py_conv \<Rightarrow> json \<Rightarrow> py_error + handoff_contract" where
  "handoff_from_dict c v =
     bind_res (item v ''goal'') (\<lambda>g.
     bind_res (bind_res (item v ''acceptanceCriteria'') (str_tuple c)) (\<lambda>acc.
     bind_res (bind_res (item v ''deliverables'') (str_tuple c)) (\<lambda>del.
     bind_res (bind_res (bind_res (item_or v ''inputs'' (JArr [])) iterate)
                 (map_res (artifact_ref_from_dict c))) (\<lambda>ins.
     bind_res (bind_res (bind_res (item_or v ''contextRefs'' (JArr [])) iterate)
                 (map_res (context_ref_from_dict c))) (\<lambda>refs.
     bind_res (bind_res (item_or v ''constraints'' (JArr [])) (str_tuple c)) (\<lambda>cons.
     bind_res (bind_res (item_or v ''authority'' (JObj [])) (authority_from_dict c)) (\<lambda>au.
     bind_res (item_or v ''parentTaskId'' JNull) (\<lambda>parent.
     bind_res (item_or v ''tokenBudget'' JNull) (\<lambda>tb.
     bind_res (if truthy tb then bind_res (to_int c tb) (\<lambda>k. Inr (Some k))
               else Inr None) (\<lambda>tokens.
     bind_res (item_or v ''costBudget'' JNull) (\<lambda>cb.
     bind_res (if cb \<noteq> JNull then bind_res (to_float c cb) (\<lambda>k. Inr (Some k))
               else Inr None) (\<lambda>cost.
     bind_res (item_or v ''deadline'' JNull) (\<lambda>dl.
     check_handoff \<lparr>hc_goal = to_str c g, hc_acceptance_criteria = acc, hc_deliverables = del,
       hc_inputs = ins, hc_context_refs = refs, hc_constraints = cons, hc_authority = au,
       hc_parent_task_id = parent, hc_token_budget = tokens, hc_cost_budget = cost,
       hc_deadline = dl\<rparr>)))))))))))))"

text \<open>
  A contract the program can hold: its own checks passed, and those of the context
  references inside it.
\<close>

definition valid_handoff :: "handoff_contract \<Rightarrow> bool" where
  "valid_handoff h = (check_handoff h = Inr h
     \<and> list_all (\<lambda>r. check_context_ref r = Inr r) (hc_context_refs h))"

lemma opt_roundtrips:
  "n \<noteq> Some 0 \<Longrightarrow> (if truthy (jopt JInt n)
     then bind_res (to_int c (jopt JInt n)) (\<lambda>k. Inr (Some k)) else Inr None) = Inr n"
  "(if jopt JFloat r \<noteq> JNull
     then bind_res (to_float c (jopt JFloat r)) (\<lambda>k. Inr (Some k)) else Inr None) = Inr r"
  by (cases n; simp) (cases r; simp)

lemma handoff_roundtrip [simp]:
  assumes "valid_handoff h"
  shows "handoff_from_dict c (handoff_to_dict h) = Inr h"
proof -
  have refs: "map_res (context_ref_from_dict c) (map context_ref_to_dict (hc_context_refs h))
      = Inr (hc_context_refs h)"
    using assms by (intro map_res_roundtrip) (simp add: valid_handoff_def list_all_iff)
  have ins: "map_res (artifact_ref_from_dict c) (map artifact_ref_to_dict (hc_inputs h))
      = Inr (hc_inputs h)"
    by (intro map_res_roundtrip) simp
  have chk: "check_handoff h = Inr h" using assms by (simp add: valid_handoff_def)
  then have "hc_token_budget h \<noteq> Some 0" by (auto simp: check_handoff_def split: if_splits)
  with chk ins refs show ?thesis
    by (cases h) (simp add: handoff_from_dict_def handoff_to_dict_def opt_roundtrips)
qed

section \<open>Envelopes\<close>

record envelope =
  en_schema_version :: string
  en_message_id :: string
  en_session_id :: string
  en_thread_id :: string
  en_sender :: actor_ref
  en_recipients :: "actor_ref list"
  en_kind :: envelope_kind
  en_payload :: "(string, json) dict"
  en_timestamp :: string
  en_correlation_id :: string
  en_causation_id :: json
  en_idempotency_key :: string
  en_traceparent :: json
  en_reply_to :: json
  en_ttl_seconds :: "int option"
  en_priority :: int
  en_authority :: authority

definition current_schema :: string where
  "current_schema = ''qe.agent-envelope/0.1''"

definition check_envelope :: "envelope \<Rightarrow> py_error + envelope" where
  "check_envelope e =
     (if en_schema_version e \<noteq> current_schema
        then Inl (ValueError (''unsupported envelope schema: '' @ en_schema_version e))
      else if blank (en_message_id e) then Inl (ValueError ''message_id is required'')
      else if blank (en_session_id e) then Inl (ValueError ''session_id is required'')
      else if blank (en_thread_id e) then Inl (ValueError ''thread_id is required'')
      else if blank (en_idempotency_key e) then Inl (ValueError ''idempotency_key is required'')
      else if \<not> (0 \<le> en_priority e \<and> en_priority e \<le> 100)
        then Inl (ValueError ''priority must be between 0 and 100'')
      else if (case en_ttl_seconds e of None \<Rightarrow> False | Some t \<Rightarrow> t \<le> 0)
        then Inl (ValueError ''ttl_seconds must be positive'')
      else Inr e)"

text \<open>
  \<open>create\<close> without further keyword arguments; the fresh message id and the current time are
  arguments. \<open>x or y\<close> takes \<open>y\<close> also where \<open>x\<close> is the empty string.
\<close>

definition or_str :: "string option \<Rightarrow> string \<Rightarrow> string" where
  "or_str x y = (case x of None \<Rightarrow> y | Some s \<Rightarrow> if s = [] then y else s)"

definition create_envelope ::
  "string \<Rightarrow> string \<Rightarrow> string \<Rightarrow> string \<Rightarrow> actor_ref \<Rightarrow> actor_ref list \<Rightarrow> envelope_kind
   \<Rightarrow> (string, json) dict \<Rightarrow> string option \<Rightarrow> json \<Rightarrow> string option \<Rightarrow> authority option
   \<Rightarrow> py_error + envelope" where
  "create_envelope message_id now session_id thread_id sender recipients kind payload
     correlation_id causation_id idempotency_key auth =
     check_envelope
       \<lparr>en_schema_version = current_schema, en_message_id = message_id,
        en_session_id = session_id, en_thread_id = thread_id, en_sender = sender,
        en_recipients = recipients, en_kind = kind, en_payload = payload, en_timestamp = now,
        en_correlation_id = or_str correlation_id message_id, en_causation_id = causation_id,
        en_idempotency_key = or_str idempotency_key message_id, en_traceparent = JNull,
        en_reply_to = JNull, en_ttl_seconds = None, en_priority = 50,
        en_authority = (case auth of None \<Rightarrow> default_authority | Some a \<Rightarrow> a)\<rparr>"

definition envelope_to_dict :: "envelope \<Rightarrow> json" where
  "envelope_to_dict e = JObj
     [(''schemaVersion'', JStr (en_schema_version e)), (''messageId'', JStr (en_message_id e)),
      (''sessionId'', JStr (en_session_id e)), (''threadId'', JStr (en_thread_id e)),
      (''sender'', actor_ref_to_dict (en_sender e)),
      (''recipients'', JArr (map actor_ref_to_dict (en_recipients e))),
      (''kind'', JStr (envelope_kind_value (en_kind e))), (''payload'', JObj (en_payload e)),
      (''timestamp'', JStr (en_timestamp e)), (''correlationId'', JStr (en_correlation_id e)),
      (''causationId'', en_causation_id e), (''idempotencyKey'', JStr (en_idempotency_key e)),
      (''traceparent'', en_traceparent e), (''replyTo'', en_reply_to e),
      (''ttlSeconds'', jopt JInt (en_ttl_seconds e)), (''priority'', JInt (en_priority e)),
      (''authority'', authority_to_dict (en_authority e))]"

definition envelope_from_dict :: "py_conv \<Rightarrow> json \<Rightarrow> py_error + envelope" where
  "envelope_from_dict c v =
     bind_res (item v ''schemaVersion'') (\<lambda>sv.
     bind_res (item v ''messageId'') (\<lambda>mid.
     bind_res (item v ''sessionId'') (\<lambda>sid.
     bind_res (item v ''threadId'') (\<lambda>tid.
     bind_res (bind_res (item v ''sender'') (actor_ref_from_dict c)) (\<lambda>snd.
     bind_res (bind_res (bind_res (item_or v ''recipients'' (JArr [])) iterate)
                 (map_res (actor_ref_from_dict c))) (\<lambda>rcp.
     bind_res (item v ''kind'') (\<lambda>k.
     bind_res (enum_of envelope_kind_value envelope_kinds (to_str c k)) (\<lambda>kind.
     bind_res (bind_res (item_or v ''payload'' (JObj [])) (to_obj c)) (\<lambda>pl.
     bind_res (item v ''timestamp'') (\<lambda>ts.
     bind_res (item v ''correlationId'') (\<lambda>cor.
     bind_res (item_or v ''causationId'' JNull) (\<lambda>cau.
     bind_res (item v ''idempotencyKey'') (\<lambda>ik.
     bind_res (item_or v ''traceparent'' JNull) (\<lambda>tp.
     bind_res (item_or v ''replyTo'' JNull) (\<lambda>rt.
     bind_res (item_or v ''ttlSeconds'' JNull) (\<lambda>tt.
     bind_res (if truthy tt then bind_res (to_int c tt) (\<lambda>k. Inr (Some k))
               else Inr None) (\<lambda>ttl.
     bind_res (bind_res (item_or v ''priority'' (JInt 50)) (to_int c)) (\<lambda>prio.
     bind_res (bind_res (item_or v ''authority'' (JObj [])) (authority_from_dict c)) (\<lambda>au.
     check_envelope \<lparr>en_schema_version = to_str c sv, en_message_id = to_str c mid,
       en_session_id = to_str c sid, en_thread_id = to_str c tid, en_sender = snd,
       en_recipients = rcp, en_kind = kind, en_payload = pl, en_timestamp = to_str c ts,
       en_correlation_id = to_str c cor, en_causation_id = cau,
       en_idempotency_key = to_str c ik, en_traceparent = tp, en_reply_to = rt,
       en_ttl_seconds = ttl, en_priority = prio, en_authority = au\<rparr>)))))))))))))))))))"

definition valid_envelope :: "envelope \<Rightarrow> bool" where
  "valid_envelope e = (check_envelope e = Inr e \<and> check_actor_ref (en_sender e) = Inr (en_sender e)
     \<and> list_all (\<lambda>a. check_actor_ref a = Inr a) (en_recipients e))"

lemma envelope_roundtrip:
  assumes "valid_envelope e"
  shows "envelope_from_dict c (envelope_to_dict e) = Inr e"
proof -
  have rcp: "map_res (actor_ref_from_dict c) (map actor_ref_to_dict (en_recipients e))
      = Inr (en_recipients e)"
    using assms by (intro map_res_roundtrip) (simp add: valid_envelope_def list_all_iff)
  have chk: "check_envelope e = Inr e" "check_actor_ref (en_sender e) = Inr (en_sender e)"
    using assms by (simp_all add: valid_envelope_def)
  then have "en_ttl_seconds e \<noteq> Some 0" by (auto simp: check_envelope_def split: if_splits)
  with chk rcp show ?thesis
    by (cases e) (simp add: envelope_from_dict_def envelope_to_dict_def opt_roundtrips)
qed

end
