(* ===== verification/Policy.thy ===== *)
theory Policy
  imports Protocol
begin

text \<open>
  \<open>policy.py\<close>: the policy engine and the human \<open>Needs You\<close> inbox. The inbox's dict of
  requests is an insertion-ordered dict; its operations return the new dict beside the
  detached request the method returns (\<open>_clone_request\<close> is the codec round trip of the intent
  and a copy of every other field). The lock serialises the operations, so each is one step.
\<close>

section \<open>The policy engine\<close>

datatype policy_outcome = PO_ALLOW | PO_NEEDS_APPROVAL | PO_DENY

record policy_decision =
  pd_outcome :: policy_outcome
  pd_reason :: string

definition safe_read_actions :: "string list" where
  "safe_read_actions =
     [''read'', ''search'', ''list'', ''summarize'', ''analyze'', ''draft'']"

definition evaluate :: "string list \<Rightarrow> action_intent \<Rightarrow> authority \<Rightarrow> policy_decision" where
  "evaluate forbidden i au =
     (if ai_action i \<in> set forbidden
        then \<lparr>pd_outcome = PO_DENY, pd_reason = ''action is forbidden by workspace policy''\<rparr>
      else if ai_action i \<in> set safe_read_actions \<and> \<not> ai_external_side_effect i
           \<and> \<not> ai_irreversible i \<and> rank (ai_risk i) \<le> rank RL_LOW
        then \<lparr>pd_outcome = PO_ALLOW, pd_reason = ''read-only or draft action''\<rparr>
      else if ai_irreversible i \<or> ai_risk i \<in> {RL_HIGH, RL_CRITICAL}
        then \<lparr>pd_outcome = PO_NEEDS_APPROVAL, pd_reason = ''high-impact action needs a human''\<rparr>
      else if permits au (ai_action i) (ai_risk i) (ai_external_side_effect i)
        then \<lparr>pd_outcome = PO_ALLOW, pd_reason = ''covered by explicit delegated authority''\<rparr>
      else \<lparr>pd_outcome = PO_NEEDS_APPROVAL, pd_reason =
        ''action exceeds delegated authority or creates an external side effect''\<rparr>)"

text \<open>
  What the engine promises, stated without its branches: an action runs without a human
  only if it is not forbidden, reversible, at most medium risk, and either a harmless
  read or covered by the delegated authority.
\<close>

definition may_run_unattended :: "string list \<Rightarrow> action_intent \<Rightarrow> authority \<Rightarrow> bool" where
  "may_run_unattended forbidden i au =
     (ai_action i \<notin> set forbidden \<and> \<not> ai_irreversible i \<and> ai_risk i \<le> RL_MEDIUM
      \<and> ((ai_action i \<in> set safe_read_actions \<and> \<not> ai_external_side_effect i
            \<and> ai_risk i \<le> RL_LOW)
         \<or> permits au (ai_action i) (ai_risk i) (ai_external_side_effect i)))"

lemma high_risk_iff: "ai_risk i \<in> {RL_HIGH, RL_CRITICAL} \<longleftrightarrow> \<not> ai_risk i \<le> RL_MEDIUM"
  by (cases "ai_risk i") (simp_all add: less_eq_risk_level_def)

lemma low_le_medium: "(r :: risk_level) \<le> RL_LOW \<Longrightarrow> r \<le> RL_MEDIUM"
  by (cases r) (simp_all add: less_eq_risk_level_def)

lemma evaluate_deny_iff: "pd_outcome (evaluate f i au) = PO_DENY \<longleftrightarrow> ai_action i \<in> set f"
  by (simp add: evaluate_def)

text \<open>
  The policy engine lets an action run without a human exactly when the action is not
  forbidden, is reversible, is of at most medium risk, and is either a harmless read of at
  most low risk or covered by the delegated authority; it denies exactly the forbidden ones.
\<close>

theorem evaluate_allow_iff:
  "(pd_outcome (evaluate forbidden i au) = PO_ALLOW \<longleftrightarrow> may_run_unattended forbidden i au)
   \<and> (pd_outcome (evaluate forbidden i au) = PO_DENY \<longleftrightarrow> ai_action i \<in> set forbidden)"
  using high_risk_iff [of i] low_le_medium [of "ai_risk i"]
  by (auto simp: evaluate_def may_run_unattended_def less_eq_risk_level_def)

section \<open>Approval requests\<close>

record approval_request =
  rq_session_id :: string
  rq_task_id :: string
  rq_intent :: action_intent
  rq_reason :: string
  rq_request_id :: string
  rq_created_at :: string
  rq_decision :: "approval_decision option"
  rq_decided_by :: "string option"
  rq_comment :: "string option"

definition rq_pending :: "approval_request \<Rightarrow> bool" where
  "rq_pending r = (rq_decision r = None)"

definition approval_to_dict :: "approval_request \<Rightarrow> json" where
  "approval_to_dict r = JObj
     [(''requestId'', JStr (rq_request_id r)), (''sessionId'', JStr (rq_session_id r)),
      (''taskId'', JStr (rq_task_id r)), (''intent'', action_intent_to_dict (rq_intent r)),
      (''reason'', JStr (rq_reason r)), (''createdAt'', JStr (rq_created_at r)),
      (''decision'', jopt (JStr \<circ> approval_decision_value) (rq_decision r)),
      (''decidedBy'', jopt JStr (rq_decided_by r)), (''comment'', jopt JStr (rq_comment r))]"

definition approval_from_dict :: "py_conv \<Rightarrow> json \<Rightarrow> py_error + approval_request" where
  "approval_from_dict c v =
     bind_res (item_or v ''decision'' JNull) (\<lambda>raw.
     bind_res (item v ''sessionId'') (\<lambda>s.
     bind_res (item v ''taskId'') (\<lambda>t.
     bind_res (bind_res (item v ''intent'') (action_intent_from_dict c)) (\<lambda>i.
     bind_res (item v ''reason'') (\<lambda>r.
     bind_res (item v ''requestId'') (\<lambda>q.
     bind_res (item v ''createdAt'') (\<lambda>a.
     bind_res (if truthy raw then
                 bind_res (enum_of approval_decision_value approval_decisions (to_str c raw))
                   (\<lambda>d. Inr (Some d))
               else Inr None) (\<lambda>dec.
     bind_res (item_or v ''decidedBy'' JNull) (\<lambda>by.
     bind_res (item_or v ''comment'' JNull) (\<lambda>cm.
     Inr \<lparr>rq_session_id = to_str c s, rq_task_id = to_str c t, rq_intent = i,
          rq_reason = to_str c r, rq_request_id = to_str c q, rq_created_at = to_str c a,
          rq_decision = dec,
          rq_decided_by = (if truthy by then Some (to_str c by) else None),
          rq_comment = (if truthy cm then Some (to_str c cm) else None)\<rparr>))))))))))"

text \<open>The codec reads an empty actor or comment back as \<open>None\<close>; every other request survives.\<close>

definition drop_empty :: "string option \<Rightarrow> string option" where
  "drop_empty x = (if x = Some [] then None else x)"

lemma approval_decision_value_nonempty [simp]: "approval_decision_value d \<noteq> []"
  by (cases d) simp_all

lemma approval_roundtrip:
  "approval_from_dict c (approval_to_dict r) =
     Inr (r\<lparr>rq_decided_by := drop_empty (rq_decided_by r), rq_comment := drop_empty (rq_comment r)\<rparr>)"
  by (cases r; cases "rq_decision r"; cases "rq_decided_by r"; cases "rq_comment r")
    (simp_all add: approval_from_dict_def approval_to_dict_def drop_empty_def)

section \<open>The inbox\<close>

type_synonym inbox = "(string, approval_request) dict"

datatype inbox_error = UnknownRequest string | AlreadyDecided string

definition same_task :: "approval_request \<Rightarrow> approval_request \<Rightarrow> bool" where
  "same_task r r' = (rq_session_id r = rq_session_id r' \<and> rq_task_id r = rq_task_id r')"

definition inbox_create :: "inbox \<Rightarrow> approval_request \<Rightarrow> approval_request \<times> inbox" where
  "inbox_create q r =
     (case filter (\<lambda>x. same_task x r \<and> rq_pending x) (dict_values q) of
        x # _ \<Rightarrow> (x, q)
      | [] \<Rightarrow> (r, dict_set (rq_request_id r) r q))"

definition inbox_restore :: "inbox \<Rightarrow> approval_request \<Rightarrow> approval_request \<times> inbox" where
  "inbox_restore q r = (r, dict_set (rq_request_id r) r q)"

definition inbox_get :: "inbox \<Rightarrow> string \<Rightarrow> inbox_error + approval_request" where
  "inbox_get q k = (case map_of q k of None \<Rightarrow> Inl (UnknownRequest k) | Some r \<Rightarrow> Inr r)"

definition inbox_pending :: "inbox \<Rightarrow> string option \<Rightarrow> approval_request list" where
  "inbox_pending q s =
     filter (\<lambda>x. rq_pending x \<and> (case s of None \<Rightarrow> True | Some i \<Rightarrow> rq_session_id x = i))
       (dict_values q)"

definition inbox_decide ::
  "inbox \<Rightarrow> string \<Rightarrow> approval_decision \<Rightarrow> string \<Rightarrow> string option
   \<Rightarrow> inbox_error + (approval_request \<times> inbox)" where
  "inbox_decide q k d actor comment =
     (case map_of q k of
        None \<Rightarrow> Inl (UnknownRequest k)
      | Some r \<Rightarrow>
          if \<not> rq_pending r then
            (if rq_decision r = Some d \<and> rq_decided_by r = Some actor then Inr (r, q)
             else Inl (AlreadyDecided k))
          else
            (let r' = r\<lparr>rq_decision := Some d, rq_decided_by := Some actor, rq_comment := comment\<rparr>
             in Inr (r', dict_set k r' q)))"

text \<open>
  The inbox is keyed by request id, and holds at most one open request per task of a
  session.
\<close>

definition inbox_keyed :: "inbox \<Rightarrow> bool" where
  "inbox_keyed q = (distinct (dict_keys q) \<and> (\<forall>(k, r) \<in> set q. rq_request_id r = k))"

definition one_pending :: "inbox \<Rightarrow> bool" where
  "one_pending q = (\<forall>(k, r) \<in> set q. \<forall>(k', r') \<in> set q.
     rq_pending r \<longrightarrow> rq_pending r' \<longrightarrow> same_task r r' \<longrightarrow> k = k')"

definition inbox_inv :: "inbox \<Rightarrow> bool" where
  "inbox_inv q = (inbox_keyed q \<and> one_pending q)"

lemma inbox_keyed_set: "inbox_keyed q \<Longrightarrow> inbox_keyed (dict_set (rq_request_id r) r q)"
  by (auto simp: inbox_keyed_def distinct_update dest: dict_simps(3))

text \<open>Live operations of a running session: requests are created and decided.\<close>

inductive inbox_step :: "inbox \<Rightarrow> inbox \<Rightarrow> bool" where
  create: "inbox_create q r = (x, q') \<Longrightarrow> inbox_step q q'"
| decide: "inbox_decide q k d a c = Inr (x, q') \<Longrightarrow> inbox_step q q'"

inductive_cases inbox_stepE: "inbox_step q q'"

lemma one_pending_set:
  assumes q: "one_pending q"
    and r: "rq_pending r \<Longrightarrow> (\<forall>(k', r') \<in> set q. rq_pending r' \<longrightarrow> same_task r' r \<longrightarrow> k' = k)"
  shows "one_pending (dict_set k r q)"
proof -
  have sym: "same_task a b \<longleftrightarrow> same_task b a" for a b by (auto simp: same_task_def)
  show ?thesis
    unfolding one_pending_def
    using q r by (fastforce simp: one_pending_def sym dest!: dict_simps(3))
qed

lemma inbox_create_inv:
  assumes "inbox_inv q" and "inbox_create q r = (x, q')"
  shows "inbox_inv q'"
proof (cases "filter (\<lambda>x. same_task x r \<and> rq_pending x) (dict_values q)")
  case Nil
  then have none: "\<forall>(k', r') \<in> set q. \<not> (same_task r' r \<and> rq_pending r')"
    by (force simp: filter_empty_conv)
  then have "one_pending (dict_set (rq_request_id r) r q)"
    using assms(1) by (intro one_pending_set) (auto simp: inbox_inv_def)
  then show ?thesis
    using assms Nil by (auto simp: inbox_inv_def inbox_create_def inbox_keyed_set)
next
  case (Cons y ys)
  then show ?thesis using assms by (auto simp: inbox_create_def)
qed

lemma inbox_decide_inv:
  assumes "inbox_inv q" and "inbox_decide q k d a c = Inr (x, q')"
  shows "inbox_inv q'"
proof -
  obtain r where r: "map_of q k = Some r"
    using assms(2) by (auto simp: inbox_decide_def split: option.splits)
  then have key: "rq_request_id r = k"
    using assms(1) by (auto simp: inbox_inv_def inbox_keyed_def dest: map_of_SomeD)
  show ?thesis
  proof (cases "rq_pending r")
    case False
    with assms r show ?thesis by (auto simp: inbox_decide_def split: if_splits)
  next
    case True
    define r' where "r' = r\<lparr>rq_decision := Some d, rq_decided_by := Some a, rq_comment := c\<rparr>"
    have q': "q' = dict_set k r' q"
      using assms(2) r True by (auto simp: inbox_decide_def r'_def Let_def)
    have r'_simps: "rq_request_id r' = k" "\<not> rq_pending r'"
      by (simp_all add: r'_def key rq_pending_def)
    then have "inbox_keyed q'"
      using assms(1) inbox_keyed_set [of q r'] by (simp add: inbox_inv_def q')
    moreover have "one_pending q'"
      unfolding q' using assms(1) r'_simps by (intro one_pending_set) (auto simp: inbox_inv_def)
    ultimately show ?thesis by (simp add: inbox_inv_def)
  qed
qed

interpretation inbox_sys: invariant_system "\<lambda>q. q = []" inbox_step inbox_inv
proof
  show "q = [] \<Longrightarrow> inbox_inv q" for q :: inbox
    by (simp add: inbox_inv_def inbox_keyed_def one_pending_def)
  show "inbox_inv q \<Longrightarrow> inbox_step q q' \<Longrightarrow> inbox_inv q'" for q q'
    by (auto elim!: inbox_stepE intro: inbox_create_inv inbox_decide_inv)
qed

text \<open>
  However requests are created and decided, the inbox never holds two open requests for
  one task of a session: a human is asked once.
\<close>

theorem inbox_one_open_request:
  assumes "reach (\<lambda>q. q = []) inbox_step q"
    and "map_of q k = Some r" and "map_of q k' = Some r'"
    and "rq_pending r" and "rq_pending r'" and "same_task r r'"
  shows "k = k' \<and> r = r'"
proof -
  have "one_pending q" using inbox_sys.reach_inv [OF assms(1)] by (simp add: inbox_inv_def)
  then have "k = k'" using assms(2-) by (fastforce simp: one_pending_def dest: map_of_SomeD)
  with assms show ?thesis by simp
qed

text \<open>
  Request ids come from \<open>new_id\<close>; with the ids of new requests unused, a decision is never
  lost or changed.
\<close>

inductive inbox_fresh_step :: "inbox \<Rightarrow> inbox \<Rightarrow> bool" where
  fresh_create: "rq_request_id r \<notin> set (dict_keys q) \<Longrightarrow> inbox_create q r = (x, q')
    \<Longrightarrow> inbox_fresh_step q q'"
| fresh_decide: "inbox_decide q k d a c = Inr (x, q') \<Longrightarrow> inbox_fresh_step q q'"

inductive_cases inbox_fresh_stepE: "inbox_fresh_step q q'"

lemma inbox_fresh_is_step: "inbox_fresh_step q q' \<Longrightarrow> inbox_step q q'"
  by (auto elim!: inbox_fresh_stepE intro: inbox_step.intros)

interpretation fresh_inbox_sys: invariant_system "\<lambda>q. q = []" inbox_fresh_step inbox_inv
  by unfold_locales (auto intro: inbox_sys.inv_init inbox_sys.inv_step inbox_fresh_is_step)

definition keeps_decisions :: "inbox \<Rightarrow> inbox \<Rightarrow> bool" where
  "keeps_decisions q q' = (\<forall>k r. map_of q k = Some r \<longrightarrow> \<not> rq_pending r \<longrightarrow> map_of q' k = Some r)"

lemma fresh_step_keeps: "inbox_fresh_step q q' \<Longrightarrow> keeps_decisions q q'"
  by (erule inbox_fresh_stepE)
    (auto simp: keeps_decisions_def inbox_create_def inbox_decide_def dict_simps Let_def
      dest: map_of_in_keys split: list.splits option.splits if_splits)

text \<open>
  Once a request is decided, no later creation of a request with an unused id and no later
  decision, of this request or another, changes the request: who decided what is settled.
\<close>

theorem inbox_decision_final:
  assumes "inbox_inv q" and "inbox_fresh_step\<^sup>*\<^sup>* q q'"
    and "map_of q k = Some r" and "\<not> rq_pending r"
  shows "map_of q' k = Some r"
proof -
  have "keeps_decisions q q'"
    by (rule fresh_inbox_sys.steps_mono [OF assms(2,1)])
      (simp_all add: fresh_step_keeps, auto simp: keeps_decisions_def)
  with assms(3,4) show ?thesis by (simp add: keeps_decisions_def)
qed

text \<open>
  Deciding again: the same decision by the same actor is answered with the stored request, any
  other is an error; a request that does not exist is an error.
\<close>

lemma inbox_decide_again:
  assumes "inbox_decide q k d a c = Inr (x, q')"
  shows "inbox_decide q' k d' a' c' =
    (if d' = d \<and> a' = a then Inr (x, q') else Inl (AlreadyDecided k))"
  using assms
  by (auto simp: inbox_decide_def rq_pending_def dict_simps Let_def
      split: option.splits if_splits)

text \<open>A stored id that is reused by a new request loses its decision: \<open>create\<close> overwrites it.\<close>

definition sample_intent :: action_intent where
  "sample_intent = \<lparr>ai_action = ''send'', ai_target = ''x'', ai_risk = RL_MEDIUM,
     ai_external_side_effect = True, ai_irreversible = False, ai_data_classes = []\<rparr>"

definition sample_request :: "string \<Rightarrow> string \<Rightarrow> approval_request" where
  "sample_request k t = \<lparr>rq_session_id = ''s'', rq_task_id = t, rq_intent = sample_intent,
     rq_reason = ''r'', rq_request_id = k, rq_created_at = ''2026-01-01'', rq_decision = None,
     rq_decided_by = None, rq_comment = None\<rparr>"

definition sample_inbox :: inbox where
  "sample_inbox = [(''a1'', (sample_request ''a1'' ''t1'')
     \<lparr>rq_decision := Some AD_REJECT, rq_decided_by := Some ''h''\<rparr>)]"

lemma inbox_reused_id_reopens:
  "map_of (snd (inbox_create sample_inbox (sample_request ''a1'' ''t1''))) ''a1''
     = Some (sample_request ''a1'' ''t1'')"
  by (simp add: sample_inbox_def inbox_create_def rq_pending_def sample_request_def)

lemma sample_inbox_reach:
  "reach (\<lambda>q. q = []) inbox_step [(''a1'', sample_request ''a1'' ''t1'')]"
  by (rule reach_step [OF reach_init], simp,
      rule inbox_step.create [where r = "sample_request ''a1'' ''t1''"])
    (simp add: inbox_create_def sample_request_def)

theorem inbox_one_open_request_witness:
  "same_task (sample_request ''a1'' ''t1'') (sample_request ''a1'' ''t1'')
   \<and> ''a1'' = ''a1'' \<and> sample_request ''a1'' ''t1'' = sample_request ''a1'' ''t1''"
  using inbox_one_open_request [OF sample_inbox_reach, of "''a1''" "sample_request ''a1'' ''t1''"
      "''a1''" "sample_request ''a1'' ''t1''"]
  by (simp add: same_task_def rq_pending_def sample_request_def)

theorem inbox_decision_final_witness:
  "map_of (snd (inbox_create sample_inbox (sample_request ''a2'' ''t1''))) ''a1''
     = Some ((sample_request ''a1'' ''t1'')\<lparr>rq_decision := Some AD_REJECT, rq_decided_by := Some ''h''\<rparr>)"
proof (rule inbox_decision_final [of sample_inbox])
  show "inbox_inv sample_inbox"
    by (simp add: inbox_inv_def inbox_keyed_def one_pending_def sample_inbox_def
        sample_request_def)
  show "inbox_fresh_step\<^sup>*\<^sup>* sample_inbox
      (snd (inbox_create sample_inbox (sample_request ''a2'' ''t1'')))"
    by (rule r_into_rtranclp, rule inbox_fresh_step.fresh_create
          [where r = "sample_request ''a2'' ''t1''"])
      (simp add: sample_inbox_def sample_request_def, rule prod.collapse [symmetric])
qed (simp_all add: sample_inbox_def rq_pending_def)

end
