(* ===== verification/Scheduler.thy ===== *)
theory Scheduler
  imports Protocol "HOL-Library.Product_Lexorder"
begin

text \<open>
  \<open>scheduler.py\<close>: task specifications, the task graph with its status transitions, and the
  workflow plan. \<open>TaskGraph\<close> is the record \<open>task_graph\<close> of its four dicts; a method that
  mutates the graph returns the new graph, a raise is a \<open>graph_error\<close>. \<open>_validate_acyclic\<close>
  is the depth-first search \<open>visit\<close> over the same two sets (\<open>visiting\<close>, and \<open>visited\<close> as
  the list of its members, latest first).
\<close>

section \<open>Task specifications\<close>

record task_spec =
  tk_title :: string
  tk_agent_id :: string
  tk_handoff :: handoff_contract
  tk_task_id :: string
  tk_depends_on :: "string list"
  tk_input_artifacts :: "string list"
  tk_action :: action_intent
  tk_priority :: int
  tk_metadata :: "(string, json) dict"

definition check_task_spec :: "task_spec \<Rightarrow> py_error + task_spec" where
  "check_task_spec t =
     (if blank (tk_title t) \<or> blank (tk_agent_id t)
        then Inl (ValueError ''task title and agent_id are required'')
      else if \<not> (0 \<le> tk_priority t \<and> tk_priority t \<le> 100)
        then Inl (ValueError ''task priority must be between 0 and 100'')
      else if tk_task_id t \<in> set (tk_depends_on t)
        then Inl (ValueError ''task cannot depend on itself'')
      else Inr t)"

definition task_spec_to_dict :: "task_spec \<Rightarrow> json" where
  "task_spec_to_dict t = JObj
     [(''taskId'', JStr (tk_task_id t)), (''title'', JStr (tk_title t)),
      (''agentId'', JStr (tk_agent_id t)), (''handoff'', handoff_to_dict (tk_handoff t)),
      (''dependsOn'', jstrs (tk_depends_on t)),
      (''inputArtifacts'', jstrs (tk_input_artifacts t)),
      (''action'', action_intent_to_dict (tk_action t)), (''priority'', JInt (tk_priority t)),
      (''metadata'', JObj (tk_metadata t))]"

definition task_spec_from_dict :: "py_conv \<Rightarrow> json \<Rightarrow> py_error + task_spec" where
  "task_spec_from_dict c v =
     bind_res (item v ''title'') (\<lambda>ti.
     bind_res (item v ''agentId'') (\<lambda>ag.
     bind_res (bind_res (item v ''handoff'') (handoff_from_dict c)) (\<lambda>h.
     bind_res (item v ''taskId'') (\<lambda>i.
     bind_res (bind_res (item_or v ''dependsOn'' (JArr [])) (str_tuple c)) (\<lambda>deps.
     bind_res (bind_res (item_or v ''inputArtifacts'' (JArr [])) (str_tuple c)) (\<lambda>ins.
     bind_res (bind_res (item_or v ''action''
                 (JObj [(''action'', JStr ''analyze''), (''target'', JStr ''workspace'')]))
                 (action_intent_from_dict c)) (\<lambda>a.
     bind_res (bind_res (item_or v ''priority'' (JInt 50)) (to_int c)) (\<lambda>p.
     bind_res (bind_res (item_or v ''metadata'' (JObj [])) (to_obj c)) (\<lambda>m.
     check_task_spec \<lparr>tk_title = to_str c ti, tk_agent_id = to_str c ag, tk_handoff = h,
       tk_task_id = to_str c i, tk_depends_on = deps, tk_input_artifacts = ins,
       tk_action = a, tk_priority = p, tk_metadata = m\<rparr>)))))))))"

definition valid_task_spec :: "task_spec \<Rightarrow> bool" where
  "valid_task_spec t = (check_task_spec t = Inr t \<and> valid_handoff (tk_handoff t))"

lemma task_spec_roundtrip [simp]:
  "valid_task_spec t \<Longrightarrow> task_spec_from_dict c (task_spec_to_dict t) = Inr t"
  by (cases t) (simp add: task_spec_from_dict_def task_spec_to_dict_def valid_task_spec_def)

section \<open>Workflow plans\<close>

record workflow_plan =
  wp_session_id :: string
  wp_goal :: string
  wp_initiated_by :: string
  wp_tasks :: "task_spec list"
  wp_plan_id :: string
  wp_correlation_id :: "string option"

definition check_plan :: "workflow_plan \<Rightarrow> py_error + workflow_plan" where
  "check_plan p =
     (if blank (wp_session_id p) \<or> blank (wp_goal p) \<or> blank (wp_initiated_by p)
        then Inl (ValueError ''session_id, goal, and initiated_by are required'')
      else if wp_tasks p = [] then Inl (ValueError ''workflow plan needs tasks'')
      else Inr p)"

definition plan_to_dict :: "workflow_plan \<Rightarrow> json" where
  "plan_to_dict p = JObj
     [(''planId'', JStr (wp_plan_id p)), (''sessionId'', JStr (wp_session_id p)),
      (''goal'', JStr (wp_goal p)), (''initiatedBy'', JStr (wp_initiated_by p)),
      (''correlationId'', jopt JStr (wp_correlation_id p)),
      (''tasks'', JArr (map task_spec_to_dict (wp_tasks p)))]"

definition plan_from_dict :: "py_conv \<Rightarrow> json \<Rightarrow> py_error + workflow_plan" where
  "plan_from_dict c v =
     bind_res (item v ''sessionId'') (\<lambda>s.
     bind_res (item v ''goal'') (\<lambda>g.
     bind_res (item v ''initiatedBy'') (\<lambda>b.
     bind_res (bind_res (bind_res (item v ''tasks'') iterate)
                 (map_res (task_spec_from_dict c))) (\<lambda>ts.
     bind_res (item v ''planId'') (\<lambda>i.
     bind_res (item_or v ''correlationId'' JNull) (\<lambda>cor.
     check_plan \<lparr>wp_session_id = to_str c s, wp_goal = to_str c g,
       wp_initiated_by = to_str c b, wp_tasks = ts, wp_plan_id = to_str c i,
       wp_correlation_id = (if truthy cor then Some (to_str c cor) else None)\<rparr>))))))"

definition valid_plan :: "workflow_plan \<Rightarrow> bool" where
  "valid_plan p = (check_plan p = Inr p \<and> list_all valid_task_spec (wp_tasks p)
     \<and> wp_correlation_id p \<noteq> Some [])"

lemma opt_str_roundtrip:
  "s \<noteq> Some [] \<Longrightarrow> (if truthy (jopt JStr s) then Some (to_str c (jopt JStr s)) else None) = s"
  by (cases s) auto

lemma plan_tasks_roundtrip:
  "list_all valid_task_spec ts \<Longrightarrow>
   map_res (task_spec_from_dict c) (map task_spec_to_dict ts) = Inr ts"
  by (intro map_res_roundtrip) (simp add: list_all_iff)

text \<open>
  A stored workflow plan reads back as the plan: encoding then decoding is the identity on
  every plan the program can hold, tasks, contracts, references and budgets included, whatever
  the conversions of ill-typed values do.
\<close>

theorem plan_roundtrip:
  assumes "valid_plan p"
  shows "plan_from_dict c (plan_to_dict p) = Inr p"
  using assms plan_tasks_roundtrip [of "wp_tasks p" c]
  by (cases p) (simp add: plan_from_dict_def plan_to_dict_def valid_plan_def opt_str_roundtrip)

section \<open>The task graph\<close>

definition done_statuses :: "task_status list" where
  "done_statuses = [TS_COMPLETED, TS_SUPERSEDED]"

definition failed_statuses :: "task_status list" where
  "failed_statuses = [TS_FAILED, TS_BLOCKED, TS_CANCELED]"

definition terminal_statuses :: "task_status list" where
  "terminal_statuses = done_statuses @ failed_statuses"

lemmas status_sets = done_statuses_def failed_statuses_def terminal_statuses_def

fun allowed :: "task_status \<Rightarrow> task_status list" where
  "allowed TS_PENDING = [TS_READY, TS_BLOCKED, TS_CANCELED]"
| "allowed TS_READY = [TS_RUNNING, TS_BLOCKED, TS_CANCELED]"
| "allowed TS_RUNNING =
     [TS_COMPLETED, TS_FAILED, TS_WAITING_INPUT, TS_WAITING_APPROVAL, TS_CANCELED]"
| "allowed TS_WAITING_APPROVAL = [TS_READY, TS_CANCELED, TS_WAITING_INPUT]"
| "allowed TS_WAITING_INPUT = [TS_READY, TS_CANCELED]"
| "allowed TS_COMPLETED = [TS_SUPERSEDED]"
| "allowed TS_FAILED = []"
| "allowed TS_BLOCKED = []"
| "allowed TS_CANCELED = []"
| "allowed TS_SUPERSEDED = []"

record task_transition =
  tt_task_id :: string
  tt_previous :: task_status
  tt_current :: task_status
  tt_reason :: "string option"
  tt_revision :: int

record task_graph =
  tg_tasks :: "(string, task_spec) dict"
  tg_statuses :: "(string, task_status) dict"
  tg_reasons :: "(string, string) dict"
  tg_revisions :: "(string, int) dict"

datatype graph_error = EmptyWorkflow | DuplicateTask string
  | MissingDependencies string "string list" | CycleAt string | MissingTask string
  | InvalidTransition task_status task_status | NegativeRevision | RefreshChanged

subsection \<open>Construction\<close>

fun add_tasks :: "(string, task_spec) dict \<Rightarrow> task_spec list \<Rightarrow> graph_error + (string, task_spec) dict"
where
  "add_tasks d [] = Inr d"
| "add_tasks d (t # ts) =
     (if tk_task_id t \<in> set (dict_keys d) then Inl (DuplicateTask (tk_task_id t))
      else add_tasks (dict_set (tk_task_id t) t d) ts)"

fun validate_deps :: "string list \<Rightarrow> task_spec list \<Rightarrow> graph_error + unit" where
  "validate_deps known [] = Inr ()"
| "validate_deps known (t # ts) =
     (let missing = filter (\<lambda>d. d \<notin> set known) (tk_depends_on t)
      in if missing \<noteq> [] then Inl (MissingDependencies (tk_task_id t) (sort (remdups missing)))
         else validate_deps known ts)"

function visit :: "(string, task_spec) dict \<Rightarrow> string set \<Rightarrow> string list \<Rightarrow> string
    \<Rightarrow> graph_error + string list"
  and visit_all :: "(string, task_spec) dict \<Rightarrow> string set \<Rightarrow> string list \<Rightarrow> string list
    \<Rightarrow> graph_error + string list" where
  "visit tasks visiting visited t =
     (if t \<in> visiting then Inl (CycleAt t)
      else if t \<in> set visited then Inr visited
      else (case map_of tasks t of
              None \<Rightarrow> Inl (MissingTask t)
            | Some task \<Rightarrow>
                bind_res (visit_all tasks (insert t visiting) visited (tk_depends_on task))
                  (\<lambda>visited'. Inr (t # visited'))))"
| "visit_all tasks visiting visited [] = Inr visited"
| "visit_all tasks visiting visited (d # ds) =
     bind_res (visit tasks visiting visited d) (\<lambda>visited'. visit_all tasks visiting visited' ds)"
  by pat_completeness auto
termination
proof (relation "measures [\<lambda>p. case p of
      Inl (tasks, visiting, visited, t) \<Rightarrow> card (fst ` set tasks - visiting)
    | Inr (tasks, visiting, visited, ds) \<Rightarrow> card (fst ` set tasks - visiting),
    \<lambda>p. case p of Inl _ \<Rightarrow> 0 | Inr (tasks, visiting, visited, ds) \<Rightarrow> Suc (length ds)]")
  fix tasks :: "(string, task_spec) dict" and visiting visited t task
  assume "t \<notin> visiting" "map_of tasks t = Some task"
  then have "card (fst ` set tasks - insert t visiting) < card (fst ` set tasks - visiting)"
    by (intro psubset_card_mono) (auto dest: map_of_in_keys)
  then show "(Inr (tasks, insert t visiting, visited, tk_depends_on task),
      Inl (tasks, visiting, visited, t)) \<in> measures [\<lambda>p. case p of
      Inl (tasks, visiting, visited, t) \<Rightarrow> card (fst ` set tasks - visiting)
    | Inr (tasks, visiting, visited, ds) \<Rightarrow> card (fst ` set tasks - visiting),
    \<lambda>p. case p of Inl _ \<Rightarrow> 0 | Inr (tasks, visiting, visited, ds) \<Rightarrow> Suc (length ds)]"
    by simp
qed auto

declare visit.simps [simp del]

definition validate_acyclic :: "(string, task_spec) dict \<Rightarrow> graph_error + string list" where
  "validate_acyclic tasks = visit_all tasks {} [] (dict_keys tasks)"

definition graph_init :: "task_spec list \<Rightarrow> graph_error + task_graph" where
  "graph_init ts =
     (if ts = [] then Inl EmptyWorkflow
      else bind_res (add_tasks [] ts) (\<lambda>tasks.
        bind_res (validate_deps (dict_keys tasks) (dict_values tasks)) (\<lambda>_.
        bind_res (validate_acyclic tasks) (\<lambda>_.
        Inr \<lparr>tg_tasks = tasks, tg_statuses = map (\<lambda>k. (k, TS_PENDING)) (dict_keys tasks),
             tg_reasons = [], tg_revisions = map (\<lambda>k. (k, 0)) (dict_keys tasks)\<rparr>))))"

subsection \<open>Transitions\<close>

definition preview_transition ::
  "task_graph \<Rightarrow> string \<Rightarrow> task_status \<Rightarrow> string option \<Rightarrow> graph_error + task_transition" where
  "preview_transition g t target reason =
     (case map_of (tg_statuses g) t of
        None \<Rightarrow> Inl (MissingTask t)
      | Some previous \<Rightarrow>
          if target \<noteq> previous \<and> target \<notin> set (allowed previous)
          then Inl (InvalidTransition previous target)
          else (case map_of (tg_revisions g) t of
                  None \<Rightarrow> Inl (MissingTask t)
                | Some n \<Rightarrow> Inr \<lparr>tt_task_id = t, tt_previous = previous, tt_current = target,
                    tt_reason = reason,
                    tt_revision = (if target = previous then n else n + 1)\<rparr>))"

definition set_reason :: "string \<Rightarrow> string option \<Rightarrow> (string, string) dict \<Rightarrow> (string, string) dict"
where
  "set_reason t reason d =
     (case reason of None \<Rightarrow> d | Some r \<Rightarrow> if r = [] then d else dict_set t r d)"

definition transition ::
  "task_graph \<Rightarrow> string \<Rightarrow> task_status \<Rightarrow> string option
   \<Rightarrow> graph_error + (task_transition \<times> task_graph)" where
  "transition g t target reason =
     bind_res (preview_transition g t target reason) (\<lambda>planned.
       if target = tt_previous planned then Inr (planned, g)
       else Inr (planned, g\<lparr>tg_statuses := dict_set t target (tg_statuses g),
              tg_revisions := dict_set t (tt_revision planned) (tg_revisions g),
              tg_reasons := set_reason t reason (tg_reasons g)\<rparr>))"

text \<open>
  \<open>restore_status\<close> writes the status before it checks the revision: the raise leaves the new
  status behind, so the result is the graph with the error, if any.
\<close>

definition restore_status ::
  "task_graph \<Rightarrow> string \<Rightarrow> task_status \<Rightarrow> string option \<Rightarrow> int option
   \<Rightarrow> task_graph \<times> graph_error option" where
  "restore_status g t status reason revision =
     (if t \<notin> set (dict_keys (tg_tasks g)) then (g, Some (MissingTask t))
      else let g1 = g\<lparr>tg_statuses := dict_set t status (tg_statuses g)\<rparr>
        in case revision of
             None \<Rightarrow> (g1\<lparr>tg_reasons := set_reason t reason (tg_reasons g1)\<rparr>, None)
           | Some n \<Rightarrow>
               if n < 0 then (g1, Some NegativeRevision)
               else (g1\<lparr>tg_revisions := dict_set t n (tg_revisions g1),
                        tg_reasons := set_reason t reason (tg_reasons g1)\<rparr>, None))"

subsection \<open>Refresh\<close>

fun lookup_all :: "('k, 'v) dict \<Rightarrow> 'k list \<Rightarrow> 'k + 'v list" where
  "lookup_all d [] = Inr []"
| "lookup_all d (k # ks) =
     (case map_of d k of None \<Rightarrow> Inl k
      | Some v \<Rightarrow> bind_res (lookup_all d ks) (\<lambda>vs. Inr (v # vs)))"

definition plan_one :: "task_graph \<Rightarrow> string \<Rightarrow> task_spec \<Rightarrow> graph_error + task_transition option" where
  "plan_one g t task =
     (case map_of (tg_statuses g) t of
        None \<Rightarrow> Inl (MissingTask t)
      | Some s \<Rightarrow>
          if s \<noteq> TS_PENDING then Inr None
          else (case lookup_all (tg_statuses g) (tk_depends_on task) of
                  Inl k \<Rightarrow> Inl (MissingTask k)
                | Inr states \<Rightarrow>
                    let failed = map fst (filter (\<lambda>(d, st). st \<in> set failed_statuses)
                                   (zip (tk_depends_on task) states))
                    in if failed \<noteq> [] then
                         bind_res (preview_transition g t TS_BLOCKED
                             (Some (''dependencies failed: '' @ py_join '', '' failed)))
                           (\<lambda>p. Inr (Some p))
                       else if (\<forall>st \<in> set states. st \<in> set done_statuses) then
                         bind_res (preview_transition g t TS_READY None) (\<lambda>p. Inr (Some p))
                       else Inr None))"

fun plan_refresh :: "task_graph \<Rightarrow> (string, task_spec) dict \<Rightarrow> graph_error + task_transition list" where
  "plan_refresh g [] = Inr []"
| "plan_refresh g ((t, task) # rest) =
     bind_res (plan_one g t task) (\<lambda>p.
     bind_res (plan_refresh g rest) (\<lambda>ps.
     Inr (case p of None \<Rightarrow> ps | Some x \<Rightarrow> x # ps)))"

definition preview_refresh :: "task_graph \<Rightarrow> graph_error + task_transition list" where
  "preview_refresh g = plan_refresh g (tg_tasks g)"

fun apply_planned :: "task_graph \<Rightarrow> task_transition list \<Rightarrow> graph_error + task_graph" where
  "apply_planned g [] = Inr g"
| "apply_planned g (p # ps) =
     bind_res (transition g (tt_task_id p) (tt_current p) (tt_reason p)) (\<lambda>(applied, g').
       if applied \<noteq> p then Inl RefreshChanged else apply_planned g' ps)"

definition refresh :: "task_graph \<Rightarrow> graph_error + (task_transition list \<times> task_graph)" where
  "refresh g =
     bind_res (preview_refresh g) (\<lambda>ps. bind_res (apply_planned g ps) (\<lambda>g'. Inr (ps, g')))"

subsection \<open>Queries\<close>

definition ready :: "task_graph \<Rightarrow> int option \<Rightarrow> graph_error + task_spec list" where
  "ready g limit =
     (case lookup_all (tg_statuses g) (dict_keys (tg_tasks g)) of
        Inl k \<Rightarrow> Inl (MissingTask k)
      | Inr _ \<Rightarrow>
          let candidates = map snd (filter (\<lambda>(k, task). map_of (tg_statuses g) k = Some TS_READY)
                             (tg_tasks g));
              ordered = sort_key (\<lambda>t. (- tk_priority t, tk_task_id t)) candidates
          in Inr (case limit of None \<Rightarrow> ordered | Some n \<Rightarrow> py_take n ordered))"

definition is_terminal :: "task_graph \<Rightarrow> bool" where
  "is_terminal g = (\<forall>s \<in> set (dict_values (tg_statuses g)). s \<in> set terminal_statuses)"

end
