(* ===== verification/Scheduler_Acyclic.thy ===== *)
theory Scheduler_Acyclic
  imports Scheduler
begin

text \<open>
  The construction of a task graph: the depth-first search terminates (its definition), its
  answer is exact (it succeeds on the acyclic graphs and names a cycle on the others), and
  \<open>graph_init\<close> accepts exactly the well-formed workflows.
\<close>

definition dep_rel :: "(string, task_spec) dict \<Rightarrow> (string \<times> string) set" where
  "dep_rel tasks = {(d, t). \<exists>task. map_of tasks t = Some task \<and> d \<in> set (tk_depends_on task)}"

definition deps_known :: "(string, task_spec) dict \<Rightarrow> bool" where
  "deps_known tasks = (\<forall>(t, task) \<in> set tasks. set (tk_depends_on task) \<subseteq> fst ` set tasks)"

text \<open>The visited list is a topological order: what a task depends on comes later in it.\<close>

fun topological :: "(string, task_spec) dict \<Rightarrow> string list \<Rightarrow> bool" where
  "topological tasks [] = True"
| "topological tasks (t # vs) =
     (t \<notin> set vs \<and> (\<forall>d. (d, t) \<in> dep_rel tasks \<longrightarrow> d \<in> set vs) \<and> topological tasks vs)"

lemma visit_topological:
  "visit tasks P V t = Inr V' \<Longrightarrow> topological tasks V \<Longrightarrow>
     topological tasks V' \<and> insert t (set V) \<subseteq> set V' \<and> set V' \<inter> P \<subseteq> set V"
  "visit_all tasks P V ts = Inr V' \<Longrightarrow> topological tasks V \<Longrightarrow>
     topological tasks V' \<and> set ts \<union> set V \<subseteq> set V' \<and> set V' \<inter> P \<subseteq> set V"
proof (induction tasks P V t and tasks P V ts arbitrary: V' and V' rule: visit_visit_all.induct)
  case (1 tasks P V t)
  show ?case
  proof (cases "t \<in> P \<or> t \<in> set V")
    case True
    with "1.prems" show ?thesis by (auto simp: visit.simps [of tasks P V t] split: if_splits)
  next
    case False
    with "1.prems" obtain task W where task: "map_of tasks t = Some task"
      and W: "visit_all tasks (insert t P) V (tk_depends_on task) = Inr W" and V': "V' = t # W"
      by (auto simp: visit.simps [of tasks P V t] res_simps split: option.splits)
    from "1.IH" [OF _ _ task W] False "1.prems"
    have IH: "topological tasks W" "set (tk_depends_on task) \<union> set V \<subseteq> set W"
      "set W \<inter> insert t P \<subseteq> set V" by auto
    with False task show ?thesis by (auto simp: V' dep_rel_def)
  qed
next
  case (3 tasks P V d ds)
  from "3.prems"(1) obtain W where W: "visit tasks P V d = Inr W" "visit_all tasks P W ds = Inr V'"
    by (auto simp: res_simps)
  from "3.IH"(1) [OF W(1) "3.prems"(2)]
  have 1: "topological tasks W" "insert d (set V) \<subseteq> set W" "set W \<inter> P \<subseteq> set V" by auto
  from "3.IH"(2) [OF W 1(1)] 1(2,3) show ?case by auto
qed auto

lemma topological_no_step_back:
  assumes "topological tasks vs" "vs = us @ t # ws" "(d, t) \<in> (dep_rel tasks)\<^sup>+"
  shows "d \<in> set ws"
  using assms(3,1,2)
proof (induction arbitrary: us ws rule: trancl_induct)
  case (base t)
  then show ?case by (induction us arbitrary: vs) auto
next
  case (step y z)
  from step.prems have "topological tasks (z # ws)" by (induction us arbitrary: vs) auto
  with step.hyps(2) have "y \<in> set ws" by auto
  then obtain us' ws' where ws: "ws = us' @ y # ws'" by (auto simp: in_set_conv_decomp)
  with step.IH [of "us @ z # us'" ws'] step.prems show ?case by auto
qed

lemma topological_distinct: "topological tasks vs \<Longrightarrow> distinct vs"
  by (induction vs) auto

lemma topological_acyclic:
  assumes "topological tasks vs" and "fst ` set tasks \<subseteq> set vs"
  shows "acyclic (dep_rel tasks)"
proof (rule acyclicI, safe)
  fix t
  assume c: "(t, t) \<in> (dep_rel tasks)\<^sup>+"
  then have "t \<in> Range (dep_rel tasks)" by (metis Range.intros tranclD2)
  then have "t \<in> set vs" using assms(2) by (auto simp: dep_rel_def dest!: map_of_in_keys)
  then obtain us ws where vs: "vs = us @ t # ws" by (auto simp: in_set_conv_decomp)
  with topological_no_step_back [OF assms(1) vs c] topological_distinct [OF assms(1)]
  show False by auto
qed

text \<open>An error of the search is a real cycle, or a dependency outside the graph.\<close>

lemma visit_error:
  "visit tasks P V t = Inl e \<Longrightarrow> (\<forall>p \<in> P. (t, p) \<in> (dep_rel tasks)\<^sup>+) \<Longrightarrow>
     (\<exists>c. e = CycleAt c \<and> (c, c) \<in> (dep_rel tasks)\<^sup>+)
     \<or> (\<exists>c. e = MissingTask c \<and> c \<notin> fst ` set tasks \<and> (c = t \<or> c \<in> Domain (dep_rel tasks)))"
  "visit_all tasks P V ts = Inl e \<Longrightarrow> (\<forall>t \<in> set ts. \<forall>p \<in> P. (t, p) \<in> (dep_rel tasks)\<^sup>+) \<Longrightarrow>
     (\<exists>c. e = CycleAt c \<and> (c, c) \<in> (dep_rel tasks)\<^sup>+)
     \<or> (\<exists>c. e = MissingTask c \<and> c \<notin> fst ` set tasks \<and> (c \<in> set ts \<or> c \<in> Domain (dep_rel tasks)))"
proof (induction tasks P V t and tasks P V ts arbitrary: e and e rule: visit_visit_all.induct)
  case (1 tasks P V t)
  show ?case
  proof (cases "t \<in> P")
    case True
    with "1.prems" show ?thesis by (auto simp: visit.simps [of tasks P V t])
  next
    case tP: False
    with "1.prems" have tV: "t \<notin> set V" by (auto simp: visit.simps [of tasks P V t])
    show ?thesis
    proof (cases "map_of tasks t")
      case None
      with tP tV "1.prems" show ?thesis
        by (auto simp: visit.simps [of tasks P V t] map_of_eq_None_iff)
    next
      case (Some task)
      with tP tV "1.prems"
      have e: "visit_all tasks (insert t P) V (tk_depends_on task) = Inl e"
        by (auto simp: visit.simps [of tasks P V t] res_simps)
      have dep: "(d, t) \<in> dep_rel tasks" if "d \<in> set (tk_depends_on task)" for d
        using that Some by (auto simp: dep_rel_def)
      then have "\<forall>d \<in> set (tk_depends_on task). \<forall>p \<in> insert t P. (d, p) \<in> (dep_rel tasks)\<^sup>+"
        using "1.prems"(2) by (auto intro: trancl_into_trancl2)
      from "1.IH" [OF tP tV Some e this] dep show ?thesis by blast
    qed
  qed
next
  case (3 tasks P V d ds)
  from "3.prems"(1) consider "visit tasks P V d = Inl e"
    | W where "visit tasks P V d = Inr W" "visit_all tasks P W ds = Inl e"
    by (auto simp: res_simps)
  then show ?case
  proof cases
    case 1
    from "3.IH"(1) [OF 1] "3.prems"(2) show ?thesis by auto
  next
    case 2
    from "3.IH"(2) [OF 2] "3.prems"(2) show ?thesis by auto
  qed
qed auto

lemma dep_rel_known:
  "deps_known tasks \<Longrightarrow> Domain (dep_rel tasks) \<subseteq> fst ` set tasks"
  by (fastforce simp: dep_rel_def deps_known_def dest: map_of_SomeD)

lemma validate_acyclic_iff:
  assumes "deps_known tasks"
  shows "(\<exists>V. validate_acyclic tasks = Inr V) \<longleftrightarrow> acyclic (dep_rel tasks)"
proof
  assume "\<exists>V. validate_acyclic tasks = Inr V"
  then obtain V where "visit_all tasks {} [] (dict_keys tasks) = Inr V"
    by (auto simp: validate_acyclic_def)
  from visit_topological(2) [OF this] show "acyclic (dep_rel tasks)"
    by (intro topological_acyclic [of tasks V]) auto
next
  assume ac: "acyclic (dep_rel tasks)"
  show "\<exists>V. validate_acyclic tasks = Inr V"
  proof (cases "validate_acyclic tasks")
    case (Inl e)
    from visit_error(2) [OF Inl [unfolded validate_acyclic_def]] dep_rel_known [OF assms] ac
    have False by (auto simp: acyclic_def)
    then show ?thesis ..
  qed auto
qed

section \<open>Accepted workflows\<close>

lemma add_tasks_Inr:
  "add_tasks d ts = Inr d' \<longleftrightarrow>
     distinct (map tk_task_id ts) \<and> set (map tk_task_id ts) \<inter> set (dict_keys d) = {}
     \<and> d' = d @ map (\<lambda>t. (tk_task_id t, t)) ts"
proof (induction ts arbitrary: d)
  case (Cons t ts)
  have "dict_set k v d = d @ [(k, v)]" if "k \<notin> fst ` set d" for k and v :: task_spec
    using that by (induction d) auto
  with Cons show ?case by auto
qed auto

lemma validate_deps_Inr:
  "validate_deps known ts = Inr () \<longleftrightarrow> (\<forall>t \<in> set ts. set (tk_depends_on t) \<subseteq> set known)"
  by (induction ts) (auto simp: Let_def filter_empty_conv)

definition tasks_of :: "task_spec list \<Rightarrow> (string, task_spec) dict" where
  "tasks_of ts = map (\<lambda>t. (tk_task_id t, t)) ts"

definition well_formed_workflow :: "task_spec list \<Rightarrow> bool" where
  "well_formed_workflow ts =
     (ts \<noteq> [] \<and> distinct (map tk_task_id ts)
      \<and> (\<forall>t \<in> set ts. set (tk_depends_on t) \<subseteq> tk_task_id ` set ts)
      \<and> acyclic (dep_rel (tasks_of ts)))"

lemma graph_init_Inr:
  "graph_init ts = Inr g \<longleftrightarrow> well_formed_workflow ts
     \<and> g = \<lparr>tg_tasks = tasks_of ts, tg_statuses = map (\<lambda>t. (tk_task_id t, TS_PENDING)) ts,
            tg_reasons = [], tg_revisions = map (\<lambda>t. (tk_task_id t, 0)) ts\<rparr>"
proof -
  have known: "deps_known (tasks_of ts)"
    if "\<forall>t \<in> set ts. set (tk_depends_on t) \<subseteq> tk_task_id ` set ts"
    using that by (auto simp: deps_known_def tasks_of_def image_image)
  let ?ok = "ts \<noteq> [] \<and> distinct (map tk_task_id ts)
    \<and> (\<forall>t \<in> set ts. set (tk_depends_on t) \<subseteq> tk_task_id ` set ts)"
  show ?thesis
  proof (cases ?ok)
    case True
    then have add: "add_tasks [] ts = Inr (tasks_of ts)"
      by (simp add: add_tasks_Inr tasks_of_def)
    have deps: "validate_deps (dict_keys (tasks_of ts)) (dict_values (tasks_of ts)) = Inr ()"
      using True by (simp add: validate_deps_Inr tasks_of_def comp_def)
    have "(\<exists>V. validate_acyclic (tasks_of ts) = Inr V) \<longleftrightarrow> acyclic (dep_rel (tasks_of ts))"
      using True by (intro validate_acyclic_iff known) simp
    then have wf: "well_formed_workflow ts \<longleftrightarrow> (\<exists>V. validate_acyclic (tasks_of ts) = Inr V)"
      using True by (simp add: well_formed_workflow_def)
    have "graph_init ts = bind_res (validate_acyclic (tasks_of ts)) (\<lambda>_.
        Inr \<lparr>tg_tasks = tasks_of ts, tg_statuses = map (\<lambda>t. (tk_task_id t, TS_PENDING)) ts,
            tg_reasons = [], tg_revisions = map (\<lambda>t. (tk_task_id t, 0)) ts\<rparr>)"
      using True deps by (simp add: graph_init_def add) (simp add: tasks_of_def comp_def)
    then show ?thesis
      unfolding wf by (cases "validate_acyclic (tasks_of ts)") auto
  next
    case False
    then have "\<not> well_formed_workflow ts" by (auto simp: well_formed_workflow_def)
    moreover have "graph_init ts \<noteq> Inr g"
      using False by (auto simp: graph_init_def res_simps add_tasks_Inr validate_deps_Inr comp_def
          image_image)
    ultimately show ?thesis by simp
  qed
qed

text \<open>
  C34. A task graph is built exactly for the workflows with at least one task, unique task
  ids, dependencies inside the workflow and no dependency cycle: the depth-first search
  rejects every cycle and nothing but cycles.
\<close>

theorem graph_init_accepts_iff:
  "(\<exists>g. graph_init ts = Inr g) \<longleftrightarrow> well_formed_workflow ts"
  by (auto simp: graph_init_Inr)

end
