(* ===== verification/Scheduler_Run.thy ===== *)
theory Scheduler_Run
  imports Scheduler_Acyclic "HOL-Library.Multiset"
begin

text \<open>
  Runs of a task graph: the invariant its operations keep, what \<open>refresh\<close> computes, the safety
  of dispatch (a task leaves the pending state for work only when its dependencies are done,
  and they stay done) and the absence of deadlock.
\<close>

section \<open>The life cycle of a task\<close>

definition moves_task :: "task_status \<Rightarrow> task_status \<Rightarrow> bool" where
  "moves_task a b = (b \<in> set (allowed a))"

interpretation task_cycle: life_cycle moves_task "\<lambda>s. s \<in> set terminal_statuses"
proof
  show "a \<in> set terminal_statuses \<Longrightarrow> moves_task a b \<Longrightarrow> b \<in> set terminal_statuses" for a b
    by (cases a) (auto simp: moves_task_def status_sets)
qed

interpretation failed_cycle: absorbing_life_cycle moves_task "\<lambda>s. s \<in> set failed_statuses"
proof
  show "a \<in> set failed_statuses \<Longrightarrow> moves_task a b \<Longrightarrow> b \<in> set failed_statuses" for a b
    by (cases a) (auto simp: moves_task_def status_sets)
  show "a \<in> set failed_statuses \<Longrightarrow> \<not> moves_task a b" for a b
    by (cases a) (auto simp: moves_task_def status_sets)
qed

interpretation done_cycle: life_cycle moves_task "\<lambda>s. s \<in> set done_statuses"
proof
  show "a \<in> set done_statuses \<Longrightarrow> moves_task a b \<Longrightarrow> b \<in> set done_statuses" for a b
    by (cases a) (auto simp: moves_task_def status_sets)
qed

section \<open>The invariant\<close>

definition graph_inv :: "task_graph \<Rightarrow> bool" where
  "graph_inv g = (distinct (dict_keys (tg_tasks g))
     \<and> dict_keys (tg_statuses g) = dict_keys (tg_tasks g)
     \<and> dict_keys (tg_revisions g) = dict_keys (tg_tasks g)
     \<and> deps_known (tg_tasks g) \<and> acyclic (dep_rel (tg_tasks g)))"

lemma graph_init_inv: "graph_init ts = Inr g \<Longrightarrow> graph_inv g"
  by (auto simp: graph_init_Inr graph_inv_def well_formed_workflow_def tasks_of_def comp_def
      deps_known_def image_image)

lemma status_total:
  "graph_inv g \<Longrightarrow> t \<in> fst ` set (tg_tasks g) \<Longrightarrow> \<exists>s. map_of (tg_statuses g) t = Some s"
  by (metis graph_inv_def in_keys_map_of set_map)

lemma revision_total:
  "graph_inv g \<Longrightarrow> t \<in> fst ` set (tg_tasks g) \<Longrightarrow> \<exists>n. map_of (tg_revisions g) t = Some n"
  by (metis graph_inv_def in_keys_map_of set_map)

lemma status_known:
  "graph_inv g \<Longrightarrow> map_of (tg_statuses g) t = Some s \<Longrightarrow> t \<in> fst ` set (tg_tasks g)"
  by (metis graph_inv_def map_of_in_keys set_map)

text \<open>What a successful transition does, and what it needs.\<close>

lemma preview_transition_Inr:
  "preview_transition g t target reason = Inr p \<longleftrightarrow>
     (\<exists>previous n. map_of (tg_statuses g) t = Some previous \<and> map_of (tg_revisions g) t = Some n
        \<and> (target = previous \<or> moves_task previous target)
        \<and> p = \<lparr>tt_task_id = t, tt_previous = previous, tt_current = target, tt_reason = reason,
               tt_revision = (if target = previous then n else n + 1)\<rparr>)"
  by (auto simp: preview_transition_def moves_task_def split: option.splits)

lemma transition_Inr:
  "transition g t target reason = Inr (p, g') \<longleftrightarrow>
     preview_transition g t target reason = Inr p
     \<and> g' = (if target = tt_previous p then g
             else g\<lparr>tg_statuses := dict_set t target (tg_statuses g),
                    tg_revisions := dict_set t (tt_revision p) (tg_revisions g),
                    tg_reasons := set_reason t reason (tg_reasons g)\<rparr>)"
  by (auto simp: transition_def res_simps)

lemma transition_status:
  assumes "transition g t target reason = Inr (p, g')"
  shows "map_of (tg_statuses g') = (map_of (tg_statuses g))(t \<mapsto> target)"
    and "tg_tasks g' = tg_tasks g"
    and "map_of (tg_revisions g') = (map_of (tg_revisions g))(t \<mapsto> tt_revision p)"
proof -
  from assms obtain previous n where
    p: "p = \<lparr>tt_task_id = t, tt_previous = previous, tt_current = target, tt_reason = reason,
        tt_revision = (if target = previous then n else n + 1)\<rparr>"
    and at: "map_of (tg_statuses g) t = Some previous" "map_of (tg_revisions g) t = Some n"
    by (auto simp: transition_Inr preview_transition_Inr)
  with assms show "map_of (tg_statuses g') = (map_of (tg_statuses g))(t \<mapsto> target)"
    and "tg_tasks g' = tg_tasks g"
    and "map_of (tg_revisions g') = (map_of (tg_revisions g))(t \<mapsto> tt_revision p)"
    by (simp_all add: transition_Inr dict_simps map_upd_triv)
qed

lemma transition_inv:
  assumes "graph_inv g" "transition g t target reason = Inr (p, g')"
  shows "graph_inv g'"
proof -
  have "t \<in> set (dict_keys (tg_statuses g))" "t \<in> set (dict_keys (tg_revisions g))"
    using assms(2) by (auto simp: transition_Inr preview_transition_Inr dest: map_of_in_keys)
  with assms show ?thesis
    by (simp add: transition_Inr graph_inv_def dict_simps)
qed

section \<open>Refresh\<close>

definition task_at :: "task_graph \<Rightarrow> string \<Rightarrow> task_spec" where
  "task_at g t = the (map_of (tg_tasks g) t)"

definition dep_in :: "task_graph \<Rightarrow> task_status list \<Rightarrow> string \<Rightarrow> bool" where
  "dep_in g ss d = (\<exists>s. map_of (tg_statuses g) d = Some s \<and> s \<in> set ss)"

text \<open>The move the dependencies of a pending task call for, if any.\<close>

definition due :: "task_graph \<Rightarrow> string \<Rightarrow> task_status option" where
  "due g t =
     (if map_of (tg_statuses g) t \<noteq> Some TS_PENDING then None
      else if \<exists>d \<in> set (tk_depends_on (task_at g t)). dep_in g failed_statuses d
        then Some TS_BLOCKED
      else if \<forall>d \<in> set (tk_depends_on (task_at g t)). dep_in g done_statuses d
        then Some TS_READY
      else None)"

lemma lookup_all_total:
  "set ks \<subseteq> dom (map_of d) \<Longrightarrow> lookup_all d ks = Inr (map (\<lambda>k. the (map_of d k)) ks)"
  by (induction ks) auto

lemma zip_map_self: "zip xs (map f xs) = map (\<lambda>x. (x, f x)) xs"
  by (induction xs) auto

lemma deps_dom:
  assumes "graph_inv g" "map_of (tg_tasks g) t = Some task"
  shows "set (tk_depends_on task) \<subseteq> dom (map_of (tg_statuses g))"
proof
  fix d assume "d \<in> set (tk_depends_on task)"
  then have "d \<in> fst ` set (tg_tasks g)"
    using assms by (auto simp: graph_inv_def deps_known_def dest!: map_of_SomeD)
  then show "d \<in> dom (map_of (tg_statuses g))"
    using status_total [OF assms(1)] by auto
qed

lemma dep_in_the:
  "d \<in> dom (map_of (tg_statuses g)) \<Longrightarrow> dep_in g ss d \<longleftrightarrow> the (map_of (tg_statuses g) d) \<in> set ss"
  by (auto simp: dep_in_def)

lemma plan_one_total:
  assumes g: "graph_inv g" and task: "map_of (tg_tasks g) t = Some task"
  shows "\<exists>reason n. map_of (tg_revisions g) t = Some n \<and>
    plan_one g t task = Inr (map_option (\<lambda>s. \<lparr>tt_task_id = t, tt_previous = TS_PENDING,
      tt_current = s, tt_reason = reason, tt_revision = n + 1\<rparr>) (due g t))"
proof -
  have t: "t \<in> fst ` set (tg_tasks g)" using task by (rule map_of_in_keys)
  obtain s n where s: "map_of (tg_statuses g) t = Some s" and n: "map_of (tg_revisions g) t = Some n"
    using status_total [OF g t] revision_total [OF g t] by blast
  let ?st = "\<lambda>d. the (map_of (tg_statuses g) d)"
  note dom = deps_dom [OF g task]
  have at: "task_at g t = task" using task by (simp add: task_at_def)
  have failed: "(\<exists>d \<in> set (tk_depends_on task). dep_in g failed_statuses d)
      \<longleftrightarrow> filter (\<lambda>d. ?st d \<in> set failed_statuses) (tk_depends_on task) \<noteq> []"
    using dom by (auto simp: filter_empty_conv dep_in_the subset_iff)
  have finished: "(\<forall>d \<in> set (tk_depends_on task). dep_in g done_statuses d)
      \<longleftrightarrow> (\<forall>d \<in> set (tk_depends_on task). ?st d \<in> set done_statuses)"
    using dom by (auto simp: dep_in_the subset_iff)
  show ?thesis
    using s n
    by (simp add: plan_one_def due_def at failed finished lookup_all_total [OF dom] zip_map_self
        filter_map comp_def preview_transition_def Let_def)
qed

text \<open>A list of planned moves that fits the graph: one per task, each due.\<close>

definition fits :: "task_graph \<Rightarrow> task_transition list \<Rightarrow> bool" where
  "fits g ps = (distinct (map tt_task_id ps) \<and>
     (\<forall>p \<in> set ps. map_of (tg_statuses g) (tt_task_id p) = Some TS_PENDING
        \<and> tt_previous p = TS_PENDING \<and> tt_current p \<in> {TS_READY, TS_BLOCKED}
        \<and> map_of (tg_revisions g) (tt_task_id p) = Some (tt_revision p - 1)))"

definition planned :: "task_transition list \<Rightarrow> string \<Rightarrow> task_status option" where
  "planned ps = map_of (map (\<lambda>p. (tt_task_id p, tt_current p)) ps)"

lemma due_cases: "due g t = Some s \<Longrightarrow> map_of (tg_statuses g) t = Some TS_PENDING \<and> s \<in> {TS_READY, TS_BLOCKED}"
  by (auto simp: due_def split: if_splits)

lemma plan_refresh_total:
  assumes g: "graph_inv g" and "distinct (dict_keys items)" and "set items \<subseteq> set (tg_tasks g)"
  shows "\<exists>ps. plan_refresh g items = Inr ps \<and> fits g ps \<and> tt_task_id ` set ps \<subseteq> fst ` set items
    \<and> (\<forall>t \<in> fst ` set items. planned ps t = due g t)"
  using assms(2,3)
proof (induction items)
  case Nil
  show ?case by (simp add: fits_def)
next
  case (Cons x items)
  obtain t task where x: "x = (t, task)" by (cases x)
  have task: "map_of (tg_tasks g) t = Some task"
    using Cons.prems(2) g by (simp add: x graph_inv_def)
  from plan_one_total [OF g this] obtain reason n where n: "map_of (tg_revisions g) t = Some n"
    and one: "plan_one g t task = Inr (map_option (\<lambda>s. \<lparr>tt_task_id = t, tt_previous = TS_PENDING,
      tt_current = s, tt_reason = reason, tt_revision = n + 1\<rparr>) (due g t))" by blast
  from Cons obtain ps where ps: "plan_refresh g items = Inr ps" "fits g ps"
    "tt_task_id ` set ps \<subseteq> fst ` set items" "\<forall>t \<in> fst ` set items. planned ps t = due g t" by auto
  have t: "t \<notin> fst ` set items" using Cons.prems(1) by (simp add: x)
  then have notin: "t \<notin> tt_task_id ` set ps" using ps(3) by blast
  then have none: "planned ps t = None"
    by (auto simp: planned_def map_of_eq_None_iff image_image)
  show ?case
  proof (cases "due g t")
    case None
    with ps one none show ?thesis by (auto simp: x)
  next
    case (Some s)
    let ?p = "\<lparr>tt_task_id = t, tt_previous = TS_PENDING, tt_current = s, tt_reason = reason,
       tt_revision = n + 1\<rparr>"
    have "fits g (?p # ps)"
      using ps(2) n notin due_cases [OF Some] by (auto simp: fits_def)
    moreover have "\<forall>u \<in> fst ` set (x # items). planned (?p # ps) u = due g u"
      using ps(4) t Some by (auto simp: planned_def x)
    ultimately show ?thesis using ps(1,3) one Some by (auto simp: x)
  qed
qed

lemma apply_planned_total:
  "fits g ps \<Longrightarrow> \<exists>g'. apply_planned g ps = Inr g' \<and> tg_tasks g' = tg_tasks g
     \<and> map_of (tg_statuses g') = map_of (tg_statuses g) ++ planned ps
     \<and> (graph_inv g \<longrightarrow> graph_inv g')"
proof (induction ps arbitrary: g)
  case Nil
  show ?case by (simp add: planned_def)
next
  case (Cons p ps)
  have p: "map_of (tg_statuses g) (tt_task_id p) = Some TS_PENDING" "tt_previous p = TS_PENDING"
    "tt_current p \<in> {TS_READY, TS_BLOCKED}"
    "map_of (tg_revisions g) (tt_task_id p) = Some (tt_revision p - 1)"
    "tt_task_id p \<notin> tt_task_id ` set ps"
    using Cons.prems by (auto simp: fits_def)
  have "preview_transition g (tt_task_id p) (tt_current p) (tt_reason p) = Inr p"
    using p by (cases p) (auto simp: preview_transition_Inr moves_task_def)
  then obtain g1 where g1: "transition g (tt_task_id p) (tt_current p) (tt_reason p) = Inr (p, g1)"
    by (simp add: transition_Inr)
  note g1_st = transition_status [OF g1]
  have "tt_task_id q \<noteq> tt_task_id p" if "q \<in> set ps" for q
    using p(5) that by (metis image_eqI)
  then have "fits g1 ps" using Cons.prems by (simp add: fits_def g1_st)
  from Cons.IH [OF this] obtain g' where g': "apply_planned g1 ps = Inr g'"
    "tg_tasks g' = tg_tasks g1" "map_of (tg_statuses g') = map_of (tg_statuses g1) ++ planned ps"
    "graph_inv g1 \<longrightarrow> graph_inv g'" by blast
  have "planned ps (tt_task_id p) = None"
    using p(5) by (auto simp: planned_def map_of_eq_None_iff image_image)
  then have "(map_of (tg_statuses g))(tt_task_id p \<mapsto> tt_current p) ++ planned ps
      = map_of (tg_statuses g) ++ planned (p # ps)"
    by (auto simp: planned_def map_add_def fun_eq_iff split: option.splits)
  with g' g1 g1_st transition_inv [OF _ g1] show ?case by auto
qed

lemma refresh_total:
  assumes "graph_inv g"
  shows "\<exists>ps g'. refresh g = Inr (ps, g') \<and> graph_inv g' \<and> tg_tasks g' = tg_tasks g
    \<and> (\<forall>t. planned ps t = due g t) \<and> preview_refresh g = Inr ps
    \<and> (\<forall>t. map_of (tg_statuses g') t =
            (case due g t of None \<Rightarrow> map_of (tg_statuses g) t | Some s \<Rightarrow> Some s))"
proof -
  have "distinct (dict_keys (tg_tasks g))" using assms by (simp add: graph_inv_def)
  from plan_refresh_total [OF assms this order_refl] obtain ps where
    ps: "preview_refresh g = Inr ps" "fits g ps" "tt_task_id ` set ps \<subseteq> fst ` set (tg_tasks g)"
    "\<forall>t \<in> fst ` set (tg_tasks g). planned ps t = due g t" by (auto simp: preview_refresh_def)
  have out: "planned ps t = None \<and> due g t = None" if "t \<notin> fst ` set (tg_tasks g)" for t
    using that ps(3) status_known [OF assms] due_cases [of g t]
    by (auto simp: planned_def map_of_eq_None_iff image_image) (metis not_None_eq)
  have pl: "\<forall>t. planned ps t = due g t" using ps(4) out by metis
  from apply_planned_total [OF ps(2)] obtain g' where g': "apply_planned g ps = Inr g'"
    "tg_tasks g' = tg_tasks g" "map_of (tg_statuses g') = map_of (tg_statuses g) ++ planned ps"
    "graph_inv g'" using assms by blast
  with ps(1) pl show ?thesis
    by (auto simp: refresh_def map_add_def split: option.splits)
qed

section \<open>Runs\<close>

inductive graph_step :: "task_graph \<Rightarrow> task_graph \<Rightarrow> bool" where
  refreshed: "refresh g = Inr (ps, g') \<Longrightarrow> graph_step g g'"
| moved: "transition g t target reason = Inr (p, g') \<Longrightarrow> graph_step g g'"

inductive_cases graph_stepE: "graph_step g g'"

definition fresh_graph :: "task_graph \<Rightarrow> bool" where
  "fresh_graph g = (\<exists>ts. graph_init ts = Inr g)"

interpretation graph_sys: invariant_system fresh_graph graph_step graph_inv
proof
  show "fresh_graph g \<Longrightarrow> graph_inv g" for g
    by (auto simp: fresh_graph_def intro: graph_init_inv)
  show "graph_inv g \<Longrightarrow> graph_step g g' \<Longrightarrow> graph_inv g'" for g g'
    using refresh_total [of g] by (fastforce elim!: graph_stepE intro: transition_inv)
qed

text \<open>Every step is made of single transitions, so facts about transitions carry over.\<close>

definition one_move :: "task_graph \<Rightarrow> task_graph \<Rightarrow> bool" where
  "one_move g g' = (\<exists>t target reason p. transition g t target reason = Inr (p, g'))"

lemma one_moveI: "transition g t target reason = Inr (p, g') \<Longrightarrow> one_move g g'"
  by (auto simp: one_move_def)

lemma apply_planned_moves: "apply_planned g ps = Inr g' \<Longrightarrow> one_move\<^sup>*\<^sup>* g g'"
proof (induction ps arbitrary: g)
  case (Cons p ps)
  then obtain g1 where "transition g (tt_task_id p) (tt_current p) (tt_reason p) = Inr (p, g1)"
    and "apply_planned g1 ps = Inr g'"
    by (auto simp: res_simps split: if_splits prod.splits)
  then show ?case
    by (intro converse_rtranclp_into_rtranclp [of one_move g g1 g'] one_moveI Cons.IH)
qed simp

lemma graph_step_moves: "graph_step g g' \<Longrightarrow> one_move\<^sup>*\<^sup>* g g'"
  by (erule graph_stepE)
    (auto simp: refresh_def res_simps dest: apply_planned_moves intro: one_moveI r_into_rtranclp)

lemma graph_steps_moves: "graph_step\<^sup>*\<^sup>* g g' \<Longrightarrow> one_move\<^sup>*\<^sup>* g g'"
  by (induction rule: rtranclp_induct) (auto dest: graph_step_moves)

lemma one_move_status:
  assumes "one_move g g'" "map_of (tg_statuses g) t = Some a"
  shows "\<exists>b. map_of (tg_statuses g') t = Some b \<and> (b = a \<or> moves_task a b)"
  using assms
  by (auto simp: one_move_def transition_Inr preview_transition_Inr dict_simps split: if_splits)

lemma moves_status:
  "one_move\<^sup>*\<^sup>* g g' \<Longrightarrow> map_of (tg_statuses g) t = Some a \<Longrightarrow>
     \<exists>b. map_of (tg_statuses g') t = Some b \<and> moves_task\<^sup>*\<^sup>* a b"
proof (induction rule: rtranclp_induct)
  case (step y z)
  then obtain b where b: "map_of (tg_statuses y) t = Some b" "moves_task\<^sup>*\<^sup>* a b" by blast
  from one_move_status [OF step.hyps(2) b(1)] obtain c where
    "map_of (tg_statuses z) t = Some c" "c = b \<or> moves_task b c" by blast
  with b(2) show ?case by (auto intro: rtranclp.rtrancl_into_rtrancl)
qed auto

text \<open>
  C33. A refresh of a reachable graph always succeeds (the internal invariant error cannot
  happen) and is exact: a pending task with a failed dependency becomes blocked, else one whose
  dependencies are all done becomes ready, and every other status is unchanged; the transitions
  it reports are those moves.
\<close>

theorem refresh_exact:
  assumes "reach fresh_graph graph_step g"
  shows "\<exists>ps g'. refresh g = Inr (ps, g') \<and> preview_refresh g = Inr ps
    \<and> (\<forall>t. planned ps t = due g t)
    \<and> (\<forall>t. map_of (tg_statuses g') t =
            (case due g t of None \<Rightarrow> map_of (tg_statuses g) t | Some s \<Rightarrow> Some s))"
  using refresh_total [OF graph_sys.reach_inv [OF assms]] by blast

text \<open>
  A settled task stays settled: along any run of refreshes and transitions a task that
  failed, was blocked or was canceled keeps that status, and a completed task is at most
  superseded.
\<close>

theorem settled_task_stays:
  assumes "graph_step\<^sup>*\<^sup>* g g'" and "map_of (tg_statuses g) t = Some s"
    and "s \<in> set terminal_statuses"
  shows "\<exists>s'. map_of (tg_statuses g') t = Some s'
    \<and> (if s \<in> set failed_statuses then s' = s else s' \<in> set done_statuses)"
proof -
  obtain s' where s': "map_of (tg_statuses g') t = Some s'" "moves_task\<^sup>*\<^sup>* s s'"
    using moves_status [OF graph_steps_moves [OF assms(1)] assms(2)] by blast
  have "s \<in> set failed_statuses \<or> s \<in> set done_statuses"
    using assms(3) by (auto simp: status_sets)
  with s' failed_cycle.final_unchanged [OF s'(2)] done_cycle.final_steps [OF s'(2)]
  show ?thesis by auto
qed

section \<open>Revisions\<close>

definition revision_le :: "task_graph \<Rightarrow> task_graph \<Rightarrow> bool" where
  "revision_le g g' = (\<forall>t n. map_of (tg_revisions g) t = Some n \<longrightarrow>
     (\<exists>n'. map_of (tg_revisions g') t = Some n' \<and> n \<le> n'
        \<and> (n = n' \<longrightarrow> map_of (tg_statuses g') t = map_of (tg_statuses g) t)))"

lemma revision_le_refl: "revision_le g g"
  by (simp add: revision_le_def)

lemma revision_le_trans: "revision_le a b \<Longrightarrow> revision_le b c \<Longrightarrow> revision_le a c"
  unfolding revision_le_def by (metis order_antisym order_trans)

lemma one_move_revision:
  assumes "one_move g g'"
  shows "revision_le g g'"
proof -
  obtain t target reason p where tr: "transition g t target reason = Inr (p, g')"
    using assms by (auto simp: one_move_def)
  then obtain previous n where "map_of (tg_statuses g) t = Some previous"
    "map_of (tg_revisions g) t = Some n" "tt_revision p = (if target = previous then n else n + 1)"
    by (auto simp: transition_Inr preview_transition_Inr)
  then show ?thesis
    unfolding revision_le_def transition_status(1,3) [OF tr] by (simp split: if_splits)
qed

text \<open>
  The revision of a task is a faithful change counter: along any run it never decreases,
  and where it is unchanged the status is unchanged, so a reader that compares revisions
  misses no status change.
\<close>

theorem revision_detects_change:
  assumes "graph_step\<^sup>*\<^sup>* g g'"
    and "map_of (tg_revisions g) t = Some n" and "map_of (tg_revisions g') t = Some n'"
  shows "n \<le> n' \<and> (n = n' \<longrightarrow> map_of (tg_statuses g') t = map_of (tg_statuses g) t)"
proof -
  have "revision_le g g'"
    using graph_steps_moves [OF assms(1)]
    by (induction rule: rtranclp_induct)
      (auto intro: revision_le_refl revision_le_trans one_move_revision)
  with assms(2,3) show ?thesis by (fastforce simp: revision_le_def)
qed

section \<open>Dispatch safety\<close>

text \<open>
  The steps of a run in which only \<open>refresh\<close> makes a pending task ready, as in the
  orchestrator.
\<close>

inductive dispatch_step :: "task_graph \<Rightarrow> task_graph \<Rightarrow> bool" where
  d_refresh: "refresh g = Inr (ps, g') \<Longrightarrow> dispatch_step g g'"
| d_move: "transition g t target reason = Inr (p, g') \<Longrightarrow>
    \<not> (map_of (tg_statuses g) t = Some TS_PENDING \<and> target = TS_READY) \<Longrightarrow> dispatch_step g g'"

inductive_cases dispatch_stepE: "dispatch_step g g'"

definition unstarted :: "task_status list" where
  "unstarted = [TS_PENDING, TS_BLOCKED, TS_CANCELED]"

definition started_after_deps :: "task_graph \<Rightarrow> bool" where
  "started_after_deps g = (\<forall>t s. map_of (tg_statuses g) t = Some s \<longrightarrow> s \<notin> set unstarted \<longrightarrow>
     (\<forall>d \<in> set (tk_depends_on (task_at g t)). dep_in g done_statuses d))"

definition dispatch_inv :: "task_graph \<Rightarrow> bool" where
  "dispatch_inv g = (graph_inv g \<and> started_after_deps g)"

lemma dep_done_moves:
  assumes "one_move\<^sup>*\<^sup>* g g'" "dep_in g done_statuses d"
  shows "dep_in g' done_statuses d"
  using assms moves_status [OF assms(1)] done_cycle.final_steps by (fastforce simp: dep_in_def)

lemma refresh_started:
  assumes "dispatch_inv g" "refresh g = Inr (ps, g')"
  shows "dispatch_inv g'"
proof -
  have g: "graph_inv g" using assms(1) by (simp add: dispatch_inv_def)
  from refresh_total [OF g] assms(2) have g': "graph_inv g'" "tg_tasks g' = tg_tasks g"
    and st: "\<And>t. map_of (tg_statuses g') t =
      (case due g t of None \<Rightarrow> map_of (tg_statuses g) t | Some s \<Rightarrow> Some s)" by auto
  have moves: "one_move\<^sup>*\<^sup>* g g'"
    using assms(2) by (intro graph_step_moves) (rule graph_step.refreshed)
  have "dep_in g done_statuses d"
    if "map_of (tg_statuses g') t = Some s" "s \<notin> set unstarted" "d \<in> set (tk_depends_on (task_at g t))"
    for t s d
  proof (cases "due g t")
    case None
    with that st assms(1) show ?thesis
      by (auto simp: dispatch_inv_def started_after_deps_def)
  next
    case (Some s')
    with that st have "due g t = Some TS_READY"
      using due_cases [of g t s'] by (auto simp: unstarted_def)
    with that(3) show ?thesis by (auto simp: due_def split: if_splits)
  qed
  with g' show ?thesis
    by (auto simp: dispatch_inv_def started_after_deps_def task_at_def intro: dep_done_moves [OF moves])
qed

lemma move_started:
  assumes "dispatch_inv g" "transition g t target reason = Inr (p, g')"
    and guard: "\<not> (map_of (tg_statuses g) t = Some TS_PENDING \<and> target = TS_READY)"
  shows "dispatch_inv g'"
proof -
  have g: "graph_inv g" and st: "started_after_deps g" using assms(1) by (simp_all add: dispatch_inv_def)
  have moves: "one_move\<^sup>*\<^sup>* g g'" using assms(2) by (intro r_into_rtranclp one_moveI)
  obtain a where a: "map_of (tg_statuses g) t = Some a" "target = a \<or> moves_task a target"
    using assms(2) by (auto simp: transition_Inr preview_transition_Inr)
  have "a \<notin> set unstarted" if "target \<notin> set unstarted"
    using that a guard by (cases a) (auto simp: moves_task_def unstarted_def)
  then have "dep_in g done_statuses d"
    if "map_of (tg_statuses g') u = Some s" "s \<notin> set unstarted" "d \<in> set (tk_depends_on (task_at g u))"
    for u s d
    using that st a(1) transition_status(1) [OF assms(2)]
    by (auto simp: started_after_deps_def split: if_splits)
  with transition_inv [OF g assms(2)] transition_status(2) [OF assms(2)] show ?thesis
    by (auto simp: dispatch_inv_def started_after_deps_def task_at_def intro: dep_done_moves [OF moves])
qed

interpretation dispatch_sys: invariant_system fresh_graph dispatch_step dispatch_inv
proof
  show "dispatch_inv g" if fresh: "fresh_graph g" for g
  proof -
    obtain ts where ts: "graph_init ts = Inr g" using fresh by (auto simp: fresh_graph_def)
    have "s = TS_PENDING" if "map_of (tg_statuses g) t = Some s" for t s
      using that ts by (auto simp: graph_init_Inr dest!: map_of_SomeD)
    with graph_init_inv [OF ts] show ?thesis
      by (auto simp: dispatch_inv_def started_after_deps_def unstarted_def)
  qed
  show "dispatch_inv g \<Longrightarrow> dispatch_step g g' \<Longrightarrow> dispatch_inv g'" for g g'
    by (auto elim!: dispatch_stepE intro: refresh_started move_started)
qed

text \<open>
  C36. Dispatch is safe: in every run in which only a refresh promotes a pending task, a task
  that is ready, running, waiting, finished or failed has all its dependencies completed (or
  superseded), then and at every later moment.
\<close>

theorem started_task_has_done_dependencies:
  assumes "reach fresh_graph dispatch_step g" and "map_of (tg_statuses g) t = Some s"
    and "s \<notin> set unstarted" and "map_of (tg_tasks g) t = Some task"
    and "d \<in> set (tk_depends_on task)"
  shows "\<exists>s'. map_of (tg_statuses g) d = Some s' \<and> s' \<in> set done_statuses"
  using dispatch_sys.reach_inv [OF assms(1)] assms(2-)
  by (auto simp: dispatch_inv_def started_after_deps_def task_at_def dep_in_def)

section \<open>Progress\<close>

definition active_statuses :: "task_status list" where
  "active_statuses = [TS_READY, TS_RUNNING, TS_WAITING_INPUT, TS_WAITING_APPROVAL]"

lemma pending_due:
  assumes g: "graph_inv g" and t: "map_of (tg_statuses g) t = Some TS_PENDING"
    and idle: "\<forall>u s. map_of (tg_statuses g) u = Some s \<longrightarrow> s \<notin> set active_statuses"
  shows "\<exists>u s. due g u = Some s"
proof -
  let ?P = "{u. map_of (tg_statuses g) u = Some TS_PENDING}"
  have "finite (dep_rel (tg_tasks g))"
  proof (rule finite_subset)
    have "Domain (dep_rel (tg_tasks g)) \<subseteq> fst ` set (tg_tasks g)"
      using g by (intro dep_rel_known) (simp add: graph_inv_def)
    moreover have "Range (dep_rel (tg_tasks g)) \<subseteq> fst ` set (tg_tasks g)"
      by (auto simp: dep_rel_def dest: map_of_in_keys)
    ultimately show "dep_rel (tg_tasks g) \<subseteq> fst ` set (tg_tasks g) \<times> fst ` set (tg_tasks g)"
      by (auto simp: subset_iff)
  qed simp
  then have "wf (dep_rel (tg_tasks g))"
    using g by (intro finite_acyclic_wf) (auto simp: graph_inv_def)
  moreover have "t \<in> ?P" using t by simp
  ultimately obtain u where "u \<in> ?P" and "\<And>d. (d, u) \<in> dep_rel (tg_tasks g) \<Longrightarrow> d \<notin> ?P"
    by (rule wfE_min) blast
  then have u: "map_of (tg_statuses g) u = Some TS_PENDING"
    and minimal: "\<And>d. (d, u) \<in> dep_rel (tg_tasks g) \<Longrightarrow> map_of (tg_statuses g) d \<noteq> Some TS_PENDING"
    by auto
  obtain task where task: "map_of (tg_tasks g) u = Some task"
    using status_known [OF g u] in_keys_map_of by metis
  have settled: "dep_in g failed_statuses d \<or> dep_in g done_statuses d"
    if dep: "d \<in> set (tk_depends_on task)" for d
  proof -
    obtain s where s: "map_of (tg_statuses g) d = Some s"
      using dep deps_dom [OF g task] by auto
    have "s \<noteq> TS_PENDING" using minimal dep task s by (auto simp: dep_rel_def)
    moreover have "s \<notin> set active_statuses" using idle s by blast
    ultimately show ?thesis
      using s by (cases s) (auto simp: dep_in_def status_sets active_statuses_def)
  qed
  have "due g u \<noteq> None"
    using u settled by (auto simp: due_def task_at_def task)
  then show ?thesis by auto
qed

text \<open>
  No workflow gets stuck: in every reachable graph either all tasks are settled, or some
  task is ready, running or waiting, or the next refresh moves a task.
\<close>

theorem graph_progress:
  assumes "reach fresh_graph graph_step g"
  shows "is_terminal g \<or> (\<exists>t s. map_of (tg_statuses g) t = Some s \<and> s \<in> set active_statuses)
    \<or> (\<exists>p ps g'. refresh g = Inr (p # ps, g'))"
proof (rule ccontr)
  assume stuck: "\<not> ?thesis"
  have g: "graph_inv g" by (rule graph_sys.reach_inv [OF assms])
  then have dist: "distinct (dict_keys (tg_statuses g))" by (simp add: graph_inv_def)
  from stuck obtain t s where t: "(t, s) \<in> set (tg_statuses g)" "s \<notin> set terminal_statuses"
    by (auto simp: is_terminal_def)
  then have ts: "map_of (tg_statuses g) t = Some s" using dist by simp
  moreover have "s \<notin> set active_statuses" using stuck ts by blast
  ultimately have "map_of (tg_statuses g) t = Some TS_PENDING"
    using t(2) by (cases s) (auto simp: status_sets active_statuses_def)
  from pending_due [OF g this] stuck obtain u s' where u: "due g u = Some s'" by blast
  from refresh_total [OF g] obtain ps g' where "refresh g = Inr (ps, g')" "planned ps u = due g u"
    by blast
  with u stuck show False by (cases ps) (auto simp: planned_def)
qed

section \<open>The ready queue\<close>

definition ready_key :: "task_spec \<Rightarrow> int \<times> string" where
  "ready_key t = (- tk_priority t, tk_task_id t)"

definition ready_tasks :: "task_graph \<Rightarrow> task_spec list" where
  "ready_tasks g = map snd (filter (\<lambda>(k, task). map_of (tg_statuses g) k = Some TS_READY) (tg_tasks g))"

text \<open>
  The ready queue of a reachable graph lists each ready task once, by falling priority and
  then by task id, and a limit of n takes the first n of that list.
\<close>

theorem ready_queue_ordered:
  assumes "reach fresh_graph graph_step g"
  shows "\<exists>ts. ready g None = Inr ts \<and> mset ts = mset (ready_tasks g)
    \<and> sorted (map ready_key ts)
    \<and> ready g (Some (int n)) = Inr (take n ts)"
proof -
  have "dict_keys (tg_statuses g) = dict_keys (tg_tasks g)"
    using graph_sys.reach_inv [OF assms] by (simp add: graph_inv_def)
  then have "set (dict_keys (tg_tasks g)) \<subseteq> dom (map_of (tg_statuses g))"
    by (metis dom_map_of_conv_image_fst order_refl set_map)
  from lookup_all_total [OF this] show ?thesis
    by (auto simp: ready_def Let_def ready_tasks_def ready_key_def [abs_def] py_take_def)
qed

text \<open>
  A workflow of two tasks, \<open>b\<close> after \<open>a\<close>, run through the model: the instances at which the
  theorems of \<open>Scheduler_Run\<close> apply.
\<close>

definition sample_handoff :: handoff_contract where
  "sample_handoff = \<lparr>hc_goal = ''g'', hc_acceptance_criteria = [''c''], hc_deliverables = [''d''],
     hc_inputs = [], hc_context_refs = [], hc_constraints = [], hc_authority = default_authority,
     hc_parent_task_id = JNull, hc_token_budget = None, hc_cost_budget = None,
     hc_deadline = JNull\<rparr>"

definition sample_task :: "string \<Rightarrow> string list \<Rightarrow> task_spec" where
  "sample_task k deps = \<lparr>tk_title = ''t'', tk_agent_id = ''x'', tk_handoff = sample_handoff,
     tk_task_id = k, tk_depends_on = deps, tk_input_artifacts = [],
     tk_action = \<lparr>ai_action = ''analyze'', ai_target = ''workspace'', ai_risk = RL_LOW,
       ai_external_side_effect = False, ai_irreversible = False, ai_data_classes = []\<rparr>,
     tk_priority = 50, tk_metadata = []\<rparr>"

definition sample_tasks :: "task_spec list" where
  "sample_tasks = [sample_task ''b'' [''a''], sample_task ''a'' []]"

text \<open>The graph of the two tasks with given statuses and revisions.\<close>

definition sample_at :: "task_status \<Rightarrow> int \<Rightarrow> task_status \<Rightarrow> int \<Rightarrow> task_graph" where
  "sample_at sa ra sb rb = \<lparr>tg_tasks = [(''b'', sample_task ''b'' [''a'']), (''a'', sample_task ''a'' [])],
     tg_statuses = [(''b'', sb), (''a'', sa)], tg_reasons = [],
     tg_revisions = [(''b'', rb), (''a'', ra)]\<rparr>"

lemmas sample_defs = sample_at_def sample_task_def sample_tasks_def

lemma sample_init: "graph_init sample_tasks = Inr (sample_at TS_PENDING 0 TS_PENDING 0)"
  by (simp add: graph_init_def validate_acyclic_def visit.simps sample_defs)

lemma sample_fresh: "fresh_graph (sample_at TS_PENDING 0 TS_PENDING 0)"
  using sample_init by (auto simp: fresh_graph_def)

lemmas refresh_eval = refresh_def preview_refresh_def plan_one_def preview_transition_def
  transition_def set_reason_def Let_def status_sets sample_defs

lemma sample_refresh_1:
  "\<exists>ps. refresh (sample_at TS_PENDING 0 TS_PENDING 0) = Inr (ps, sample_at TS_READY 1 TS_PENDING 0)"
  by (simp add: refresh_eval)

lemma sample_refresh_2:
  "\<exists>ps. refresh (sample_at TS_COMPLETED 3 TS_PENDING 0) = Inr (ps, sample_at TS_COMPLETED 3 TS_READY 1)"
  by (simp add: refresh_eval)

lemma sample_move:
  "target \<noteq> sa \<Longrightarrow> target \<in> set (allowed sa) \<Longrightarrow>
   \<exists>p. transition (sample_at sa ra sb rb) ''a'' target None
     = Inr (p, sample_at target (ra + 1) sb rb)"
  by (simp add: transition_def preview_transition_def set_reason_def sample_at_def)

lemma sample_dispatch_run:
  "reach fresh_graph dispatch_step (sample_at TS_COMPLETED 3 TS_READY 1)"
proof -
  let ?R = "reach fresh_graph dispatch_step"
  obtain ps1 ps2 where r1: "refresh (sample_at TS_PENDING 0 TS_PENDING 0) = Inr (ps1, sample_at TS_READY 1 TS_PENDING 0)"
    and r2: "refresh (sample_at TS_COMPLETED 3 TS_PENDING 0) = Inr (ps2, sample_at TS_COMPLETED 3 TS_READY 1)"
    using sample_refresh_1 sample_refresh_2 by blast
  obtain p2 p3 where t2: "transition (sample_at TS_READY 1 TS_PENDING 0) ''a'' TS_RUNNING None
      = Inr (p2, sample_at TS_RUNNING 2 TS_PENDING 0)"
    and t3: "transition (sample_at TS_RUNNING 2 TS_PENDING 0) ''a'' TS_COMPLETED None
      = Inr (p3, sample_at TS_COMPLETED 3 TS_PENDING 0)"
    using sample_move [of TS_RUNNING TS_READY 1] sample_move [of TS_COMPLETED TS_RUNNING 2]
    by fastforce
  have "?R (sample_at TS_READY 1 TS_PENDING 0)"
    by (rule reach_step [OF reach_init [of fresh_graph]]) (rule sample_fresh, rule d_refresh [OF r1])
  then have "?R (sample_at TS_RUNNING 2 TS_PENDING 0)"
    by (rule reach_step) (rule d_move [OF t2], simp)
  then have "?R (sample_at TS_COMPLETED 3 TS_PENDING 0)"
    by (rule reach_step) (rule d_move [OF t3], simp)
  then show ?thesis by (rule reach_step) (rule d_refresh [OF r2])
qed

lemma sample_reach: "reach fresh_graph graph_step (sample_at TS_PENDING 0 TS_PENDING 0)"
  by (rule reach_init) (rule sample_fresh)

lemma sample_cancel_step:
  "graph_step\<^sup>*\<^sup>* (sample_at TS_RUNNING 2 TS_PENDING 0) (sample_at TS_CANCELED 3 TS_PENDING 0)"
  using sample_move [of TS_CANCELED TS_RUNNING 2 TS_PENDING 0]
  by (auto intro!: r_into_rtranclp intro: graph_step.moved)

lemma sample_supersede_step:
  "graph_step\<^sup>*\<^sup>* (sample_at TS_COMPLETED 3 TS_PENDING 0) (sample_at TS_SUPERSEDED 4 TS_PENDING 0)"
  using sample_move [of TS_SUPERSEDED TS_COMPLETED 3 TS_PENDING 0]
  by (auto intro!: r_into_rtranclp intro: graph_step.moved)

theorem refresh_exact_witness:
  "\<exists>ps g'. refresh (sample_at TS_PENDING 0 TS_PENDING 0) = Inr (ps, g')
     \<and> map_of (tg_statuses g') ''a'' = Some TS_READY \<and> map_of (tg_statuses g') ''b'' = Some TS_PENDING"
proof -
  have "due (sample_at TS_PENDING 0 TS_PENDING 0) ''a'' = Some TS_READY"
    "due (sample_at TS_PENDING 0 TS_PENDING 0) ''b'' = None"
    by (simp_all add: due_def task_at_def dep_in_def status_sets sample_defs)
  with refresh_exact [OF sample_reach] show ?thesis
    by (fastforce simp: sample_at_def)
qed

theorem settled_task_stays_witness:
  "\<exists>s'. map_of (tg_statuses (sample_at TS_SUPERSEDED 4 TS_PENDING 0)) ''a'' = Some s'
     \<and> s' \<in> set done_statuses"
  using settled_task_stays [OF sample_supersede_step, of "''a''" TS_COMPLETED]
  by (simp add: sample_at_def status_sets)

theorem revision_detects_change_witness:
  "(2::int) \<le> 3 \<and> map_of (tg_revisions (sample_at TS_CANCELED 3 TS_PENDING 0)) ''a'' = Some 3"
  using revision_detects_change [OF sample_cancel_step, of "''a''" 2 3]
  by (simp add: sample_at_def)

theorem started_task_has_done_dependencies_witness:
  "\<exists>s'. map_of (tg_statuses (sample_at TS_COMPLETED 3 TS_READY 1)) ''a'' = Some s'
     \<and> s' \<in> set done_statuses"
  by (rule started_task_has_done_dependencies [OF sample_dispatch_run, of "''b''" TS_READY
        "sample_task ''b'' [''a'']"]) (simp_all add: sample_defs unstarted_def)

theorem graph_progress_witness:
  "\<exists>p ps g'. refresh (sample_at TS_PENDING 0 TS_PENDING 0) = Inr (p # ps, g')"
proof -
  let ?g = "sample_at TS_PENDING 0 TS_PENDING 0"
  have "\<not> is_terminal ?g" by (simp add: is_terminal_def status_sets sample_at_def)
  moreover have "\<not> (\<exists>t s. map_of (tg_statuses ?g) t = Some s \<and> s \<in> set active_statuses)"
    by (auto simp: active_statuses_def sample_at_def split: if_splits)
  ultimately show ?thesis using graph_progress [OF sample_reach] by blast
qed

theorem ready_queue_ordered_witness:
  "\<exists>ts. ready (sample_at TS_PENDING 0 TS_PENDING 0) None = Inr ts \<and> ts = []"
  using ready_queue_ordered [OF sample_reach, of 0]
  by (auto simp: ready_tasks_def sample_at_def)

definition sample_plan :: workflow_plan where
  "sample_plan = \<lparr>wp_session_id = ''s'', wp_goal = ''g'', wp_initiated_by = ''u'',
     wp_tasks = sample_tasks, wp_plan_id = ''p'', wp_correlation_id = None\<rparr>"

definition no_conv :: py_conv where
  "no_conv = \<lparr>conv_str = (\<lambda>_. []), conv_int = (\<lambda>_. Inl TypeError),
     conv_float = (\<lambda>_. Inl TypeError), conv_dict = (\<lambda>_. Inl TypeError)\<rparr>"

lemma not_blank: "\<not> blank ''t''" "\<not> blank ''x''" "\<not> blank ''g''" "\<not> blank ''s''" "\<not> blank ''u''"
  by (simp_all add: blank_iff py_space_def)

theorem plan_roundtrip_witness:
  "plan_from_dict no_conv (plan_to_dict sample_plan) = Inr sample_plan"
  by (rule plan_roundtrip)
    (simp add: valid_plan_def check_plan_def valid_task_spec_def check_task_spec_def
      valid_handoff_def check_handoff_def sample_plan_def sample_handoff_def sample_defs not_blank)

end
