(* ===== verification/Context_Compiler.thy ===== *)
theory Context_Compiler
  imports Json "HOL-Library.Product_Lexorder" "HOL-Library.Multiset"
begin

text \<open>
  \<open>context.py\<close>: the budgeted context compiler. \<open>compile\<close> orders the candidates by the
  source's key and selects greedily; the digest of the selected items is \<open>digest_of\<close>, the
  SHA-256 of their canonical JSON, an argument of the model.
\<close>

record context_item =
  ci_item_id :: string
  ci_category :: string
  ci_content :: string
  ci_required :: bool
  ci_relevance :: rat
  ci_provenance :: string
  ci_metadata :: "(string, json) dict"

definition check_context_item :: "context_item \<Rightarrow> py_error + context_item" where
  "check_context_item i =
     (if blank (ci_item_id i) \<or> blank (ci_category i)
        then Inl (ValueError ''context item_id and category are required'')
      else if \<not> (0 \<le> ci_relevance i \<and> ci_relevance i \<le> 1)
        then Inl (ValueError ''context relevance must be between 0 and 1'')
      else Inr i)"

definition estimated_tokens :: "context_item \<Rightarrow> int" where
  "estimated_tokens i = max 1 ((int (utf8_len (ci_content i)) + 3) div 4)"

definition context_item_to_dict :: "context_item \<Rightarrow> json" where
  "context_item_to_dict i = JObj
     [(''itemId'', JStr (ci_item_id i)), (''category'', JStr (ci_category i)),
      (''content'', JStr (ci_content i)), (''required'', JBool (ci_required i)),
      (''relevance'', JFloat (ci_relevance i)), (''provenance'', JStr (ci_provenance i)),
      (''estimatedTokens'', JInt (estimated_tokens i)), (''metadata'', JObj (ci_metadata i))]"

record context_bundle =
  cb_items :: "context_item list"
  cb_omitted_item_ids :: "string list"
  cb_token_budget :: int
  cb_estimated_tokens :: int
  cb_digest :: string

definition context_bundle_to_dict :: "context_bundle \<Rightarrow> json" where
  "context_bundle_to_dict b = JObj
     [(''items'', JArr (map context_item_to_dict (cb_items b))),
      (''omittedItemIds'', jstrs (cb_omitted_item_ids b)),
      (''tokenBudget'', JInt (cb_token_budget b)),
      (''estimatedTokens'', JInt (cb_estimated_tokens b)), (''digest'', JStr (cb_digest b))]"

definition newline :: string where
  "newline = [CHR 0x0A]"

definition render :: "context_bundle \<Rightarrow> string" where
  "render b = py_join (newline @ newline)
     (map (\<lambda>i. ''## '' @ ci_category i @ '' ['' @ ci_item_id i @ '']'' @ newline @ ci_content i)
        (cb_items b)
      @ (if cb_omitted_item_ids b = [] then []
         else [''## omitted'' @ newline @ py_join '', '' (cb_omitted_item_ids b)]))"

section \<open>Selection\<close>

definition category_weight :: "string \<Rightarrow> int" where
  "category_weight c =
     (case map_of [(''policy'', 100), (''goal'', 95), (''handoff'', 90), (''artifact'', 80),
                   (''decision'', 75), (''memory'', 60), (''chat'', 50), (''tool'', 40)] c of
        None \<Rightarrow> 0 | Some w \<Rightarrow> w)"

definition item_key :: "context_item \<Rightarrow> bool \<times> int \<times> rat \<times> string" where
  "item_key i = (\<not> ci_required i, - category_weight (ci_category i), - ci_relevance i, ci_item_id i)"

fun select :: "int \<Rightarrow> int \<Rightarrow> context_item list \<Rightarrow> context_item list \<times> string list \<times> int" where
  "select budget used [] = ([], [], used)"
| "select budget used (i # is) =
     (if used + estimated_tokens i \<le> budget then
        let (sel, om, u) = select budget (used + estimated_tokens i) is in (i # sel, om, u)
      else let (sel, om, u) = select budget used is in (sel, ci_item_id i # om, u))"

datatype context_error = BudgetNotPositive | RequiredTooLarge int int

definition compile ::
  "(json \<Rightarrow> string) \<Rightarrow> context_item list \<Rightarrow> int \<Rightarrow> context_error + context_bundle" where
  "compile digest_of candidates budget =
     (if budget \<le> 0 then Inl BudgetNotPositive
      else let required = sum_list (map estimated_tokens (filter ci_required candidates))
      in if required > budget then Inl (RequiredTooLarge required budget)
      else let ordered = sort_key item_key candidates;
               (selected, omitted, used) = select budget 0 ordered
      in Inr \<lparr>cb_items = selected, cb_omitted_item_ids = omitted, cb_token_budget = budget,
              cb_estimated_tokens = used,
              cb_digest = ''sha256:'' @ digest_of (JArr (map context_item_to_dict selected))\<rparr>)"

section \<open>Correctness\<close>

lemma estimated_tokens_pos: "1 \<le> estimated_tokens i"
  by (simp add: estimated_tokens_def)

abbreviation tokens :: "context_item list \<Rightarrow> int" where
  "tokens is \<equiv> sum_list (map estimated_tokens is)"

lemma tokens_nonneg: "0 \<le> tokens is"
  using estimated_tokens_pos by (intro sum_list_nonneg) (force simp: order_trans [OF zero_le_one])

lemma select_budget:
  "select budget used is = (sel, om, u) \<Longrightarrow> used \<le> budget \<Longrightarrow>
     u = used + tokens sel \<and> u \<le> budget"
  by (induction budget used "is" arbitrary: sel om u rule: select.induct)
    (auto split: if_splits prod.splits)

text \<open>The omitted ids are those of the items that were not selected, and none of them fits.\<close>

lemma select_partition:
  "select budget used is = (sel, om, u) \<Longrightarrow>
     \<exists>rest. mset is = mset sel + mset rest \<and> om = map ci_item_id rest
       \<and> (\<forall>i \<in> set rest. budget < u + estimated_tokens i) \<and> used \<le> u"
proof (induction budget used "is" arbitrary: sel om u rule: select.induct)
  case (1 budget used)
  then show ?case by simp
next
  case (2 budget used i "is")
  show ?case
  proof (cases "used + estimated_tokens i \<le> budget")
    case True
    with "2.prems" obtain sel' where sel: "sel = i # sel'"
      and rec: "select budget (used + estimated_tokens i) is = (sel', om, u)"
      by (auto split: prod.splits)
    from "2.IH"(1) [OF True rec] estimated_tokens_pos [of i] show ?thesis
      unfolding sel by fastforce
  next
    case False
    with "2.prems" obtain om' where om: "om = ci_item_id i # om'"
      and rec: "select budget used is = (sel, om', u)"
      by (auto split: prod.splits)
    from "2.IH"(2) [OF False rec] obtain rest where
      rest: "mset is = mset sel + mset rest" "om' = map ci_item_id rest"
      "\<forall>i \<in> set rest. budget < u + estimated_tokens i" "used \<le> u" by blast
    then have "mset (i # is) = mset sel + mset (i # rest)" "om = map ci_item_id (i # rest)"
      "\<forall>j \<in> set (i # rest). budget < u + estimated_tokens j"
      using False by (auto simp: om)
    with rest(4) show ?thesis by blast
  qed
qed

lemma select_sublist:
  "select budget used is = (sel, om, u) \<Longrightarrow> set sel \<subseteq> set is \<and>
     (sorted (map item_key is) \<longrightarrow> sorted (map item_key sel))"
  by (induction budget used "is" arbitrary: sel om u rule: select.induct)
    (fastforce split: if_splits prod.splits)+

lemma select_prefix:
  "used + tokens xs \<le> budget \<Longrightarrow> select budget used (xs @ ys) =
     (let (sel, om, u) = select budget (used + tokens xs) ys in (xs @ sel, om, u))"
proof (induction xs arbitrary: used)
  case (Cons x xs)
  then have "used + estimated_tokens x \<le> budget" using tokens_nonneg [of xs] by simp
  with Cons show ?case by (simp add: add.assoc split: prod.splits)
qed simp

text \<open>The key puts the required items first.\<close>

lemma required_first:
  "sorted (map item_key is) \<Longrightarrow> is = filter ci_required is @ filter (\<lambda>i. \<not> ci_required i) is"
proof (induction "is")
  case (Cons i "is")
  show ?case
  proof (cases "ci_required i")
    case True
    with Cons show ?thesis by simp
  next
    case False
    have "\<forall>j \<in> set is. \<not> ci_required j"
      using Cons.prems False by (auto simp: item_key_def less_eq_prod_def)
    with False show ?thesis by (simp add: filter_empty_conv)
  qed
qed simp

lemma tokens_mset: "mset xs = mset ys \<Longrightarrow> tokens xs = tokens ys"
  by (metis mset_map sum_mset_sum_list)

text \<open>
  A compiled context fits its budget and loses nothing required: the items selected use at
  most the budget and the reported number of tokens, every required item is among them, they
  stand in the order of the source's key, the ids omitted are exactly those of the remaining
  items, and not one omitted item would still have fitted.
\<close>

theorem compile_sound:
  assumes "compile digest_of candidates budget = Inr b"
  shows "cb_estimated_tokens b = tokens (cb_items b) \<and> cb_estimated_tokens b \<le> budget
    \<and> filter ci_required (sort_key item_key candidates) = filter ci_required (cb_items b)
    \<and> sorted (map item_key (cb_items b))
    \<and> (\<exists>rest. mset candidates = mset (cb_items b) + mset rest
         \<and> cb_omitted_item_ids b = map ci_item_id rest
         \<and> list_all (\<lambda>i. budget < cb_estimated_tokens b + estimated_tokens i) rest)"
proof -
  let ?ord = "sort_key item_key candidates"
  obtain sel om u where sel: "select budget 0 ?ord = (sel, om, u)" by (metis prod_cases3)
  from assms have pos: "0 < budget" and req: "tokens (filter ci_required candidates) \<le> budget"
    by (auto simp: compile_def Let_def split: if_splits)
  then have b: "cb_items b = sel" "cb_omitted_item_ids b = om" "cb_estimated_tokens b = u"
    using assms by (auto simp: compile_def sel)
  have "tokens (filter ci_required ?ord) = tokens (filter ci_required candidates)"
    by (rule tokens_mset) simp
  then have fit: "0 + tokens (filter ci_required ?ord) \<le> budget" using req by simp
  have ord: "?ord = filter ci_required ?ord @ filter (\<lambda>i. \<not> ci_required i) ?ord"
    by (rule required_first) simp
  obtain sel' om' u' where rec: "select budget (0 + tokens (filter ci_required ?ord))
      (filter (\<lambda>i. \<not> ci_required i) ?ord) = (sel', om', u')" by (metis prod_cases3)
  have "select budget 0 ?ord = (filter ci_required ?ord @ sel', om', u')"
    using select_prefix [OF fit, of "filter (\<lambda>i. \<not> ci_required i) ?ord"]
    unfolding ord [symmetric] rec by simp
  then have "sel = filter ci_required ?ord @ sel'" using sel by simp
  moreover have "set sel' \<subseteq> {i. \<not> ci_required i}" using select_sublist [OF rec] by auto
  ultimately have "filter ci_required ?ord = filter ci_required sel"
    by (auto simp: filter_empty_conv simp del: filter_sort)
  moreover have "u = tokens sel" "u \<le> budget" using select_budget [OF sel] pos by auto
  moreover have "sorted (map item_key sel)" using select_sublist [OF sel] by simp
  ultimately show ?thesis
    using select_partition [OF sel] by (auto simp: b list_all_iff simp del: filter_sort)
qed

lemma compile_total:
  "(\<exists>b. compile digest_of candidates budget = Inr b)
    \<longleftrightarrow> 0 < budget \<and> tokens (filter ci_required candidates) \<le> budget"
  by (auto simp: compile_def Let_def split: prod.splits)

definition sample_item :: "string \<Rightarrow> bool \<Rightarrow> context_item" where
  "sample_item k r = \<lparr>ci_item_id = k, ci_category = ''chat'', ci_content = ''hello'',
     ci_required = r, ci_relevance = 1/2, ci_provenance = ''runtime'', ci_metadata = []\<rparr>"

lemma sample_item_tokens: "estimated_tokens (sample_item k r) = 2"
  by (simp add: estimated_tokens_def sample_item_def utf8_len_def)

lemma sample_item_required [simp]: "ci_required (sample_item k r) = r"
  by (simp add: sample_item_def)

theorem compile_sound_witness:
  "\<exists>b. compile (\<lambda>_. ''00'') [sample_item ''a'' False, sample_item ''b'' True] 3 = Inr b
     \<and> cb_estimated_tokens b \<le> 3 \<and> filter ci_required (cb_items b) \<noteq> []"
proof -
  let ?c = "[sample_item ''a'' False, sample_item ''b'' True]"
  obtain b where b: "compile (\<lambda>_. ''00'') ?c 3 = Inr b"
    using compile_total [of "\<lambda>_. ''00''" ?c 3] by (auto simp: sample_item_tokens)
  have "sample_item ''b'' True \<in> set (filter ci_required (sort_key item_key ?c))"
    by simp
  then have "filter ci_required (sort_key item_key ?c) \<noteq> []" by auto
  with compile_sound [OF b] b show ?thesis by auto
qed

end
