(* ===== verification/Tenancy_Grants.thy ===== *)
theory Tenancy_Grants
  imports Json "HOL-Library.Sublist"
begin

text \<open>
  The grant vocabulary of \<open>tenancy.py\<close>: identifiers, dotted actions with a trailing wildcard,
  concrete resources and resource scopes. The regular expressions are the character-class
  predicates below. The lemmas give each grant its meaning, the set of requests it covers, and
  show that the syntactic comparisons of the code decide inclusion of those sets.
\<close>

section \<open>Identifiers and text\<close>

definition code_in :: "nat \<Rightarrow> nat \<Rightarrow> char \<Rightarrow> bool" where
  "code_in a b c = (a \<le> of_char c \<and> of_char c \<le> b)"

definition is_lower :: "char \<Rightarrow> bool" where
  "is_lower c = code_in 97 122 c"

definition is_digit :: "char \<Rightarrow> bool" where
  "is_digit c = code_in 48 57 c"

definition is_alnum :: "char \<Rightarrow> bool" where
  "is_alnum c = (is_lower c \<or> code_in 65 90 c \<or> is_digit c)"

definition opaque_id :: "string \<Rightarrow> bool" where
  "opaque_id s = (s \<noteq> [] \<and> is_alnum (hd s) \<and> length s \<le> 128
     \<and> list_all (\<lambda>c. is_alnum c \<or> c \<in> set ''._:-'') (tl s))"

definition require_text :: "string \<Rightarrow> nat \<Rightarrow> bool" where
  "require_text s maximum = (\<not> blank s \<and> s = py_strip s \<and> length s \<le> maximum)"

definition is_hex :: "char \<Rightarrow> bool" where
  "is_hex c = (is_digit c \<or> code_in 97 102 c)"

definition sha256_text :: "string \<Rightarrow> bool" where
  "sha256_text s = (length s = 64 \<and> list_all is_hex s)"

definition nonce_text :: "string \<Rightarrow> bool" where
  "nonce_text s = (32 \<le> length s \<and> length s \<le> 128 \<and> list_all is_hex s \<and> even (length s))"

section \<open>Actions\<close>

definition action_char :: "char \<Rightarrow> bool" where
  "action_char c = (is_lower c \<or> is_digit c \<or> c \<in> set ''_-'')"

fun split_on :: "char \<Rightarrow> string \<Rightarrow> string list" where
  "split_on d [] = [[]]"
| "split_on d (c # cs) =
     (if c = d then [] # split_on d cs
      else (c # hd (split_on d cs)) # tl (split_on d cs))"

text \<open>\<open>_ACTION\<close>: a star, or dotted segments of which the last may be a star.\<close>

definition valid_action :: "string \<Rightarrow> bool" where
  "valid_action s = (s = ''*'' \<or>
     (let segs = split_on CHR ''.'' s;
          body = (if last segs = ''*'' then butlast segs else segs)
      in body \<noteq> [] \<and> hd body \<noteq> [] \<and> is_lower (hd (hd body)) \<and> list_all action_char (tl (hd body))
         \<and> list_all (\<lambda>x. x \<noteq> [] \<and> list_all action_char x) (tl body)))"

definition wildcard :: "string \<Rightarrow> bool" where
  "wildcard s = suffix ''.*'' s"

definition valid_request :: "string \<Rightarrow> bool" where
  "valid_request s = (valid_action s \<and> s \<noteq> ''*'' \<and> \<not> wildcard s)"

definition action_covers :: "string \<Rightarrow> string \<Rightarrow> py_error + bool" where
  "action_covers granted requested =
     (if \<not> valid_action granted then Inl (ValueError ''granted action'')
      else if \<not> valid_action requested then Inl (ValueError ''requested action'')
      else if requested = ''*'' \<or> wildcard requested
        then Inl (ValueError ''an access request cannot contain an action wildcard'')
      else if granted = ''*'' \<or> granted = requested then Inr True
      else if wildcard granted then Inr (prefix (butlast granted) requested)
      else Inr False)"

definition action_is_subset :: "string \<Rightarrow> string \<Rightarrow> py_error + bool" where
  "action_is_subset parent child =
     (if \<not> valid_action parent then Inl (ValueError ''parent action'')
      else if \<not> valid_action child then Inl (ValueError ''child action'')
      else if parent = ''*'' then Inr True
      else if child = ''*'' then Inr False
      else if parent = child then Inr True
      else if \<not> wildcard parent then Inr False
      else let parent_prefix = butlast (butlast parent) in
        if wildcard child then
          let child_prefix = butlast (butlast child)
          in Inr (child_prefix = parent_prefix \<or> prefix (parent_prefix @ ''.'') child_prefix)
        else Inr (prefix (parent_prefix @ ''.'') child))"

text \<open>The requests an action stands for.\<close>

definition covered :: "string \<Rightarrow> string set" where
  "covered granted = {r. action_covers granted r = Inr True}"

subsection \<open>Segments\<close>

lemma split_on_nonempty [simp]: "split_on d s \<noteq> []"
  by (induction s) auto

lemma split_on_append: "split_on d (p @ d # q) = split_on d p @ split_on d q"
proof (induction p)
  case (Cons c p)
  then show ?case by (auto simp: hd_append tl_append split: list.splits)
qed simp

lemma split_on_single: "d \<notin> set s \<Longrightarrow> split_on d s = [s]"
  by (induction s) auto

lemma wildcard_iff: "wildcard s \<longleftrightarrow> (\<exists>p. s = p @ ''.*'')"
  by (auto simp: wildcard_def suffix_def)

lemma wildcard_butlast [simp]:
  "butlast (p @ ''.*'') = p @ ''.''" "wildcard (p @ ''.*'')"
  by (simp_all add: butlast_append wildcard_iff)

lemma not_wildcard_segment: "x \<noteq> CHR ''*'' \<Longrightarrow> \<not> wildcard (p @ [x])"
  by (auto simp: wildcard_iff append_eq_append_conv2 append_eq_Cons_conv)

lemma valid_action_extend:
  assumes "valid_action (p @ ''.*'')" and "action_char x" and "x \<noteq> CHR ''.''" "x \<noteq> CHR ''*''"
  shows "valid_request (p @ [CHR ''.'', x])"
proof -
  have star: "split_on CHR ''.'' (p @ ''.*'') = split_on CHR ''.'' p @ [''*'']"
    using split_on_append [of "CHR ''.''" p "''*''"] by simp
  have ext: "split_on CHR ''.'' (p @ [CHR ''.'', x]) = split_on CHR ''.'' p @ [[x]]"
    using split_on_append [of "CHR ''.''" p "[x]"] assms(3) by simp
  have "p @ ''.*'' \<noteq> ''*''" by (simp add: append_eq_Cons_conv)
  with assms(1) have "let body = split_on CHR ''.'' p in hd body \<noteq> [] \<and> is_lower (hd (hd body))
      \<and> list_all action_char (tl (hd body))
      \<and> list_all (\<lambda>x. x \<noteq> [] \<and> list_all action_char x) (tl body)"
    by (simp add: valid_action_def star Let_def)
  moreover have "tl (split_on CHR ''.'' p @ [[x]]) = tl (split_on CHR ''.'' p) @ [[x]]"
    by (simp add: tl_append split: list.split)
  ultimately have "valid_action (p @ [CHR ''.'', x])"
    using assms(2,4) by (simp add: valid_action_def ext Let_def hd_append)
  moreover have "\<not> wildcard (p @ [CHR ''.'', x])"
    using not_wildcard_segment [OF assms(4), of "p @ ''.''"] by (simp del: wildcard_butlast)
  moreover have "p @ [CHR ''.'', x] \<noteq> ''*''" by (simp add: append_eq_Cons_conv)
  ultimately show ?thesis by (simp add: valid_request_def)
qed

subsection \<open>Inclusion of actions\<close>

lemma covered_iff:
  "r \<in> covered g \<longleftrightarrow> valid_action g \<and> valid_request r
     \<and> (g = ''*'' \<or> g = r \<or> (\<exists>p. g = p @ ''.*'' \<and> prefix (p @ ''.'') r))"
  by (auto simp: covered_def action_covers_def valid_request_def wildcard_iff)

lemma prefix_dot_trans:
  "prefix (p @ ''.'') (q @ ''.'') \<Longrightarrow> p = q \<or> prefix (p @ ''.'') q"
  using prefix_snoc [of "p @ ''.''" q "CHR ''.''"] by auto

lemma prefix_dot_segment:
  "x \<noteq> CHR ''.'' \<Longrightarrow> prefix (p @ ''.'') (q @ [CHR ''.'', x]) \<longleftrightarrow> prefix (p @ ''.'') (q @ ''.'')"
  using prefix_snoc [of "p @ ''.''" "q @ ''.''" x] by auto

lemma subset_sound:
  assumes "action_is_subset parent child = Inr True"
  shows "covered child \<subseteq> covered parent"
proof
  fix r assume r: "r \<in> covered child"
  have v: "valid_action parent" using assms by (auto simp: action_is_subset_def split: if_splits)
  show "r \<in> covered parent"
  proof (cases "parent = ''*'' \<or> parent = child")
    case True
    with r v show ?thesis by (auto simp: covered_iff)
  next
    case False
    with assms v obtain p where p: "parent = p @ ''.*''"
      by (auto simp: action_is_subset_def wildcard_iff split: if_splits)
    have star: "child \<noteq> ''*''" using assms False v by (auto simp: action_is_subset_def split: if_splits)
    show ?thesis
    proof (cases "wildcard child")
      case True
      then obtain c where c: "child = c @ ''.*''" by (auto simp: wildcard_iff)
      have "c = p \<or> prefix (p @ ''.'') c"
        using assms False v star by (auto simp: action_is_subset_def p c Let_def split: if_splits)
      then have "prefix (p @ ''.'') (c @ ''.'')" by auto
      moreover have "prefix (c @ ''.'') r"
        using r unfolding c by (auto simp: covered_iff valid_request_def append_eq_Cons_conv)
      ultimately have "prefix (p @ ''.'') r" by (rule prefix_order.trans)
      then show ?thesis using r v by (auto simp: covered_iff p)
    next
      case child: False
      then have "prefix (p @ ''.'') child"
        using assms False v star by (auto simp: action_is_subset_def p Let_def split: if_splits)
      moreover have "r = child" using r star child by (auto simp: covered_iff wildcard_iff)
      ultimately show ?thesis using r v by (auto simp: covered_iff p)
    qed
  qed
qed

lemma single_letter_request: "valid_request ''a''" "valid_request ''b''"
  by (simp_all add: valid_request_def valid_action_def is_lower_def code_in_def wildcard_def
      suffix_def append_eq_Cons_conv)

lemma subset_complete:
  assumes v: "valid_action parent" "valid_action child" and no: "action_is_subset parent child = Inr False"
  shows "\<not> covered child \<subseteq> covered parent"
proof -
  have np: "parent \<noteq> ''*''" "parent \<noteq> child"
    using v no by (auto simp: action_is_subset_def split: if_splits)
  consider (star) "child = ''*''" | (wild) c where "child = c @ ''.*''"
    | (exact) "child \<noteq> ''*''" "\<not> wildcard child" by (auto simp: wildcard_iff)
  then show ?thesis
  proof cases
    case star
    then have "''a'' \<in> covered child" "''b'' \<in> covered child"
      using v single_letter_request by (auto simp: covered_iff)
    moreover have "\<not> (''a'' \<in> covered parent \<and> ''b'' \<in> covered parent)"
      using np by (auto simp: covered_iff prefix_def append_eq_Cons_conv Cons_eq_append_conv)
    ultimately show ?thesis by blast
  next
    case wild
    let ?r = "\<lambda>x. c @ [CHR ''.'', x]"
    have req: "valid_request (?r CHR ''a'')" "valid_request (?r CHR ''b'')"
      using v(2) unfolding wild
      by (auto intro!: valid_action_extend simp: action_char_def is_lower_def code_in_def)
    then have in_child: "?r CHR ''a'' \<in> covered child" "?r CHR ''b'' \<in> covered child"
      using v(2) unfolding wild by (auto simp: covered_iff)
    have "\<not> (?r CHR ''a'' \<in> covered parent \<and> ?r CHR ''b'' \<in> covered parent)"
    proof (cases "wildcard parent")
      case False
      with np show ?thesis by (auto simp: covered_iff wildcard_iff)
    next
      case True
      then obtain p where p: "parent = p @ ''.*''" by (auto simp: wildcard_iff)
      have out: "c \<noteq> p" "\<not> prefix (p @ ''.'') c"
        using no np v by (auto simp: action_is_subset_def p wild Let_def split: if_splits)
      have "\<not> prefix (p @ ''.'') (c @ ''.'')"
      proof
        assume "prefix (p @ ''.'') (c @ ''.'')"
        from prefix_dot_trans [OF this] out show False by simp
      qed
      then have "\<not> prefix (p @ ''.'') (?r CHR ''a'')" by (simp add: prefix_dot_segment)
      moreover have "parent \<noteq> ?r CHR ''a''" using req(1) True by (auto simp: valid_request_def)
      ultimately show ?thesis using np by (auto simp: covered_iff p)
    qed
    with in_child show ?thesis by blast
  next
    case exact
    then have "child \<in> covered child" using v(2) by (simp add: covered_iff valid_request_def)
    moreover have "child \<notin> covered parent"
      using no np exact v
      by (auto simp: covered_iff action_is_subset_def wildcard_iff Let_def split: if_splits)
    ultimately show ?thesis by blast
  qed
qed

text \<open>
  The subset test on actions is exact: on well-formed actions it answers without an error,
  and answers yes precisely when every request the child action covers is covered by the parent
  action, so a delegated action can neither widen its parent nor be refused when it narrows it.
\<close>

theorem action_is_subset_exact:
  assumes "valid_action parent" and "valid_action child"
  shows "action_is_subset parent child = Inr (covered child \<subseteq> covered parent)"
proof -
  obtain b where b: "action_is_subset parent child = Inr b"
    using assms by (cases "action_is_subset parent child")
      (auto simp: action_is_subset_def Let_def split: if_splits)
  with subset_sound [of parent child] subset_complete [OF assms] show ?thesis by (cases b) auto
qed

theorem action_is_subset_exact_witness:
  "action_is_subset ''artifact.*'' ''artifact.read'' = Inr True
   \<and> covered ''artifact.read'' \<subseteq> covered ''artifact.*''"
proof -
  have v: "valid_action ''artifact.*''" "valid_action ''artifact.read''"
    by (simp_all add: valid_action_def is_lower_def action_char_def code_in_def)
  have "action_is_subset ''artifact.*'' ''artifact.read'' = Inr True"
    by (simp add: action_is_subset_def v wildcard_def suffix_to_prefix)
  with action_is_subset_exact [OF v] show ?thesis by simp
qed

end
