(* ===== verification/Canonical.thy ===== *)
theory Canonical
  imports Json
begin

text \<open>
  The byte-level encodings of \<open>tenancy.py\<close>: canonical JSON (\<open>json.dumps\<close> with sorted keys,
  compact separators and \<open>ensure_ascii=False\<close>, then UTF-8) and unpadded base64url. What the
  platform computes is the record \<open>platform\<close>: the hex SHA-256 and the HMAC-SHA256 of bytes,
  the text of a float and the RFC 3339 text of an instant (microseconds since the epoch).
  Bytes are characters, as everywhere.
\<close>

record platform =
  pf_sha256 :: "string \<Rightarrow> string"
  pf_hmac :: "string \<Rightarrow> string \<Rightarrow> string"
  pf_float_text :: "rat \<Rightarrow> string"
  pf_time_text :: "int \<Rightarrow> string"

section \<open>Canonical JSON\<close>

definition hex_digit :: "nat \<Rightarrow> char" where
  "hex_digit n = ''0123456789abcdef'' ! n"

definition utf8_char :: "char \<Rightarrow> string" where
  "utf8_char c = (let n = (of_char c :: nat) in
     if n < 128 then [c] else [char_of (192 + n div 64), char_of (128 + n mod 64)])"

definition json_char :: "char \<Rightarrow> string" where
  "json_char c = (let n = (of_char c :: nat) in
     if c = CHR 0x22 then [CHR 0x5C, CHR 0x22]
     else if c = CHR 0x5C then [CHR 0x5C, CHR 0x5C]
     else if n = 10 then [CHR 0x5C, CHR ''n'']
     else if n = 13 then [CHR 0x5C, CHR ''r'']
     else if n = 9 then [CHR 0x5C, CHR ''t'']
     else if n = 12 then [CHR 0x5C, CHR ''f'']
     else if n = 8 then [CHR 0x5C, CHR ''b'']
     else if n < 32 then [CHR 0x5C] @ ''u00'' @ [hex_digit (n div 16), hex_digit (n mod 16)]
     else utf8_char c)"

definition json_string :: "string \<Rightarrow> string" where
  "json_string s = [CHR 0x22] @ concat (map json_char s) @ [CHR 0x22]"

fun digits :: "nat \<Rightarrow> string" where
  "digits n = (if n < 10 then [char_of (48 + n)] else digits (n div 10) @ [char_of (48 + n mod 10)])"

declare digits.simps [simp del]

definition int_text :: "int \<Rightarrow> string" where
  "int_text i = (if i < 0 then ''-'' @ digits (nat (- i)) else digits (nat i))"

fun canonical_bytes :: "platform \<Rightarrow> json \<Rightarrow> string" where
  "canonical_bytes pf JNull = ''null''"
| "canonical_bytes pf (JBool b) = (if b then ''true'' else ''false'')"
| "canonical_bytes pf (JInt i) = int_text i"
| "canonical_bytes pf (JFloat r) = pf_float_text pf r"
| "canonical_bytes pf (JStr s) = json_string s"
| "canonical_bytes pf (JArr xs) = ''['' @ py_join '','' (map (canonical_bytes pf) xs) @ '']''"
| "canonical_bytes pf (JObj d) = [CHR 0x7B] @ py_join '',''
     (map (\<lambda>(k, t). json_string k @ '':'' @ t)
       (sort_key fst (map (\<lambda>(k, v). (k, canonical_bytes pf v)) d))) @ [CHR 0x7D]"

definition canonical_digest :: "platform \<Rightarrow> json \<Rightarrow> string" where
  "canonical_digest pf v = pf_sha256 pf (canonical_bytes pf v)"

section \<open>Unpadded base64url\<close>

definition b64_alphabet :: string where
  "b64_alphabet = ''ABCDEFGHIJKLMNOPQRSTUVWXYZabcdefghijklmnopqrstuvwxyz0123456789-_''"

text \<open>Bytes to sextets and back; \<open>None\<close> is the length the decoder rejects.\<close>

fun to_sextets :: "nat list \<Rightarrow> nat list" where
  "to_sextets [] = []"
| "to_sextets [a] = [a div 4, (a mod 4) * 16]"
| "to_sextets [a, b] = [a div 4, (a mod 4) * 16 + b div 16, (b mod 16) * 4]"
| "to_sextets (a # b # c # r) =
     [a div 4, (a mod 4) * 16 + b div 16, (b mod 16) * 4 + c div 64, c mod 64] @ to_sextets r"

fun of_sextets :: "nat list \<Rightarrow> nat list option" where
  "of_sextets [] = Some []"
| "of_sextets [s] = None"
| "of_sextets [s, t] = Some [s * 4 + t div 16]"
| "of_sextets [s, t, u] = Some [s * 4 + t div 16, (t mod 16) * 16 + u div 4]"
| "of_sextets (s # t # u # v # r) =
     map_option (\<lambda>bs. [s * 4 + t div 16, (t mod 16) * 16 + u div 4, (u mod 4) * 64 + v] @ bs)
       (of_sextets r)"

fun index_of :: "'a \<Rightarrow> 'a list \<Rightarrow> nat" where
  "index_of x [] = 0"
| "index_of x (y # ys) = (if x = y then 0 else Suc (index_of x ys))"

definition encode_signature :: "string \<Rightarrow> string" where
  "encode_signature bs = map (\<lambda>n. b64_alphabet ! n) (to_sextets (map of_char bs))"

definition decode_signature :: "string \<Rightarrow> string option" where
  "decode_signature s =
     (if \<not> (16 \<le> length s \<and> length s \<le> 2048 \<and> set s \<subseteq> set b64_alphabet) then None
      else case of_sextets (map (\<lambda>c. index_of c b64_alphabet) s) of
             None \<Rightarrow> None
           | Some ns \<Rightarrow> let decoded = map char_of ns in
               if encode_signature decoded = s then Some decoded else None)"

lemma index_of_nth: "distinct xs \<Longrightarrow> n < length xs \<Longrightarrow> index_of (xs ! n) xs = n"
  by (induction xs arbitrary: n) (auto simp: nth_Cons' split: if_splits)

lemma b64_alphabet_props: "length b64_alphabet = 64" "distinct b64_alphabet"
  by (simp_all add: b64_alphabet_def)

lemma to_sextets_bound: "\<forall>b \<in> set bs. b < 256 \<Longrightarrow> \<forall>s \<in> set (to_sextets bs). s < 64"
  by (induction bs rule: to_sextets.induct) auto

lemma of_to_sextets: "\<forall>b \<in> set bs. b < 256 \<Longrightarrow> of_sextets (to_sextets bs) = Some bs"
proof (induction bs rule: to_sextets.induct)
  case (4 a b c r)
  have 1: "a div 4 * 4 + (a mod 4 * 16 + b div 16) div 16 = a"
    and 2: "(a mod 4 * 16 + b div 16) mod 16 * 16 + (b mod 16 * 4 + c div 64) div 4 = b"
    and 3: "(b mod 16 * 4 + c div 64) mod 4 * 64 + c mod 64 = c"
    using "4.prems" by auto
  with 4 show ?case by simp
qed auto

lemma length_to_sextets: "length (to_sextets bs) = (4 * length bs + 2) div 3"
  by (induction bs rule: to_sextets.induct) auto

lemma decode_encode:
  assumes "12 \<le> length bs" "length bs \<le> 1536"
  shows "decode_signature (encode_signature bs) = Some bs"
proof -
  let ?ns = "to_sextets (map of_char bs) :: nat list"
  have bytes: "\<forall>b \<in> set (map of_char bs). (b :: nat) < 256" by auto
  have small: "\<forall>s \<in> set ?ns. s < length b64_alphabet"
    using to_sextets_bound [OF bytes] by (simp add: b64_alphabet_props)
  then have "map (\<lambda>c. index_of c b64_alphabet) (encode_signature bs) = ?ns"
    by (auto simp: encode_signature_def comp_def index_of_nth b64_alphabet_props intro: map_idI)
  moreover have "set (encode_signature bs) \<subseteq> set b64_alphabet"
    using small by (auto simp: encode_signature_def)
  moreover have "16 \<le> length (encode_signature bs)" "length (encode_signature bs) \<le> 2048"
    using assms by (simp_all add: encode_signature_def length_to_sextets)
  ultimately show ?thesis
    by (simp add: decode_signature_def of_to_sextets [OF bytes] comp_def)
qed

text \<open>A signature that decodes is the only text of its bytes: the code accepts no second spelling.\<close>

lemma decode_canonical: "decode_signature s = Some bs \<Longrightarrow> encode_signature bs = s"
  by (auto simp: decode_signature_def Let_def split: if_splits option.splits)

end
