(* ===== verification/Tenancy_Scope.thy ===== *)
theory Tenancy_Scope
  imports Tenancy_Grants Canonical
begin

text \<open>
  Resources, resource scopes, roles and members of \<open>tenancy.py\<close>. \<open>TenantId\<close>, \<open>WorkspaceId\<close> and
  \<open>CapabilityNonce\<close> are frozen one-field classes: each is its string, checked by its
  constructor's condition inside the \<open>valid_...\<close> predicate of the record that holds it.
\<close>

record resource_ref =
  rr_tenant_id :: string
  rr_resource_type :: string
  rr_resource_id :: string
  rr_workspace_id :: "string option"

definition valid_resource_ref :: "resource_ref \<Rightarrow> bool" where
  "valid_resource_ref r =
     (opaque_id (rr_tenant_id r) \<and> pred_option opaque_id (rr_workspace_id r)
      \<and> opaque_id (rr_resource_type r) \<and> require_text (rr_resource_id r) 512
      \<and> rr_resource_id r \<noteq> ''*'')"

definition resource_ref_to_dict :: "resource_ref \<Rightarrow> json" where
  "resource_ref_to_dict r = JObj
     [(''tenantId'', JStr (rr_tenant_id r)), (''workspaceId'', jopt JStr (rr_workspace_id r)),
      (''resourceType'', JStr (rr_resource_type r)), (''resourceId'', JStr (rr_resource_id r))]"

record resource_scope =
  rs_tenant_id :: string
  rs_workspace_id :: "string option"
  rs_resource_type :: string
  rs_resource_id :: string

definition valid_resource_scope :: "resource_scope \<Rightarrow> bool" where
  "valid_resource_scope s =
     (opaque_id (rs_tenant_id s) \<and> pred_option opaque_id (rs_workspace_id s)
      \<and> (rs_resource_type s \<noteq> ''*'' \<longrightarrow> opaque_id (rs_resource_type s))
      \<and> require_text (rs_resource_id s) 512
      \<and> \<not> (rs_resource_type s = ''*'' \<and> rs_resource_id s \<noteq> ''*''))"

definition resource_scope_to_dict :: "resource_scope \<Rightarrow> json" where
  "resource_scope_to_dict s = JObj
     [(''tenantId'', JStr (rs_tenant_id s)), (''workspaceId'', jopt JStr (rs_workspace_id s)),
      (''resourceType'', JStr (rs_resource_type s)), (''resourceId'', JStr (rs_resource_id s))]"

text \<open>\<open>contains\<close> reads the same four fields of a scope and of a concrete resource.\<close>

definition contains_fields ::
  "resource_scope \<Rightarrow> string \<Rightarrow> string option \<Rightarrow> string \<Rightarrow> string \<Rightarrow> bool" where
  "contains_fields s tenant workspace rtype rid =
     (if rs_tenant_id s \<noteq> tenant then False
      else if rs_workspace_id s \<noteq> None \<and> rs_workspace_id s \<noteq> workspace then False
      else if rs_resource_type s \<noteq> ''*'' \<and> rs_resource_type s \<noteq> rtype then False
      else if rs_resource_id s \<noteq> ''*'' \<and> rs_resource_id s \<noteq> rid then False
      else True)"

definition contains_ref :: "resource_scope \<Rightarrow> resource_ref \<Rightarrow> bool" where
  "contains_ref s r = contains_fields s (rr_tenant_id r) (rr_workspace_id r)
     (rr_resource_type r) (rr_resource_id r)"

definition contains_scope :: "resource_scope \<Rightarrow> resource_scope \<Rightarrow> bool" where
  "contains_scope s c = contains_fields s (rs_tenant_id c) (rs_workspace_id c)
     (rs_resource_type c) (rs_resource_id c)"

definition resources_in :: "resource_scope \<Rightarrow> resource_ref set" where
  "resources_in s = {r. valid_resource_ref r \<and> contains_ref s r}"

lemma contains_fields_iff:
  "contains_fields s t w k i \<longleftrightarrow> rs_tenant_id s = t
     \<and> (rs_workspace_id s = None \<or> rs_workspace_id s = w)
     \<and> (rs_resource_type s = ''*'' \<or> rs_resource_type s = k)
     \<and> (rs_resource_id s = ''*'' \<or> rs_resource_id s = i)"
  by (simp add: contains_fields_def)

lemma contains_fields_trans:
  "contains_scope s c \<Longrightarrow> contains_fields c t w k i \<Longrightarrow> contains_fields s t w k i"
  unfolding contains_scope_def contains_fields_iff by metis

lemma contains_scope_sound: "contains_scope s c \<Longrightarrow> resources_in c \<subseteq> resources_in s"
  by (auto simp: resources_in_def contains_ref_def intro: contains_fields_trans)

lemma contains_scope_refl: "contains_scope s s"
  by (simp add: contains_scope_def contains_fields_def)

lemma contains_scope_trans: "contains_scope a b \<Longrightarrow> contains_scope b c \<Longrightarrow> contains_scope a c"
  using contains_fields_trans [of a b] by (simp add: contains_scope_def [of b c] contains_scope_def [of a c])

lemma sample_texts: "opaque_id ''a''" "opaque_id ''b''" "\<not> opaque_id ''*''"
  "require_text ''a'' 512" "require_text ''b'' 512"
  by (simp_all add: opaque_id_def is_alnum_def is_lower_def is_digit_def code_in_def
      require_text_def blank_iff py_strip_def py_space_def)

text \<open>
  Completeness: a scope that is not contained covers a concrete resource the other does not.
  The field in which the containment fails gives the resource.
\<close>

definition pick :: "string \<Rightarrow> string \<Rightarrow> string" where
  "pick own other = (if own = ''*'' then (if other = ''a'' then ''b'' else ''a'') else own)"

definition ref_outside :: "resource_scope \<Rightarrow> resource_scope \<Rightarrow> resource_ref" where
  "ref_outside s c = \<lparr>rr_tenant_id = rs_tenant_id c,
     rr_resource_type = pick (rs_resource_type c) (rs_resource_type s),
     rr_resource_id = pick (rs_resource_id c) (rs_resource_id s),
     rr_workspace_id = rs_workspace_id c\<rparr>"

lemma ref_outside_in:
  assumes "valid_resource_scope c"
  shows "ref_outside s c \<in> resources_in c"
proof -
  have t: "opaque_id (pick (rs_resource_type c) x)" for x
    using assms sample_texts by (simp add: valid_resource_scope_def pick_def)
  have i: "require_text (pick (rs_resource_id c) x) 512" "pick (rs_resource_id c) x \<noteq> ''*''" for x
    using assms sample_texts by (simp_all add: valid_resource_scope_def pick_def)
  have "valid_resource_ref (ref_outside s c)"
    using assms t i by (simp add: valid_resource_ref_def valid_resource_scope_def ref_outside_def)
  moreover have "contains_ref c (ref_outside s c)"
    by (simp add: contains_ref_def contains_fields_iff ref_outside_def pick_def)
  ultimately show ?thesis by (simp add: resources_in_def)
qed

lemma pick_other: "own \<noteq> other \<Longrightarrow> other \<noteq> ''*'' \<Longrightarrow> pick own other \<noteq> other"
  by (simp add: pick_def)

lemma ref_outside_out: "\<not> contains_scope s c \<Longrightarrow> \<not> contains_ref s (ref_outside s c)"
  unfolding contains_scope_def contains_ref_def contains_fields_iff ref_outside_def
  by (simp, metis pick_other)

text \<open>
  Scope containment is exact: a scope contains a well-formed scope precisely when every
  concrete resource of the second lies in the first, across tenants, tenant-wide and
  workspace-bound scopes and type and id wildcards.
\<close>

theorem contains_scope_exact:
  assumes "valid_resource_scope c"
  shows "contains_scope s c \<longleftrightarrow> resources_in c \<subseteq> resources_in s"
proof
  assume "resources_in c \<subseteq> resources_in s"
  then have "ref_outside s c \<in> resources_in s" using ref_outside_in [OF assms] by blast
  then have "contains_ref s (ref_outside s c)" by (simp add: resources_in_def)
  then show "contains_scope s c" using ref_outside_out by blast
qed (rule contains_scope_sound)

definition sample_scope :: "string option \<Rightarrow> resource_scope" where
  "sample_scope w = \<lparr>rs_tenant_id = ''a'', rs_workspace_id = w, rs_resource_type = ''*'',
     rs_resource_id = ''*''\<rparr>"

theorem contains_scope_exact_witness:
  "resources_in (sample_scope (Some ''b'')) \<subseteq> resources_in (sample_scope None)
   \<and> \<not> resources_in (sample_scope None) \<subseteq> resources_in (sample_scope (Some ''b''))"
proof -
  have v: "valid_resource_scope (sample_scope w)" if "pred_option opaque_id w" for w
    using that sample_texts
    by (simp add: valid_resource_scope_def sample_scope_def require_text_def blank_iff
        py_strip_def py_space_def)
  have "contains_scope (sample_scope None) (sample_scope (Some ''b''))"
    "\<not> contains_scope (sample_scope (Some ''b'')) (sample_scope None)"
    by (simp_all add: contains_scope_def contains_fields_def sample_scope_def)
  with contains_scope_exact [OF v] sample_texts show ?thesis by auto
qed

section \<open>Roles and members\<close>

datatype role = ROLE_OWNER | ROLE_ADMIN | ROLE_EDITOR | ROLE_VIEWER | ROLE_AGENT

fun role_value :: "role \<Rightarrow> string" where
  "role_value ROLE_OWNER = ''owner''"
| "role_value ROLE_ADMIN = ''admin''"
| "role_value ROLE_EDITOR = ''editor''"
| "role_value ROLE_VIEWER = ''viewer''"
| "role_value ROLE_AGENT = ''agent''"

definition default_role_actions :: "(role, string list) dict" where
  "default_role_actions =
     [(ROLE_OWNER, [''*'']),
      (ROLE_ADMIN, [''approval.*'', ''artifact.*'', ''capability.delegate'', ''member.*'',
         ''resource.*'', ''workflow.*'']),
      (ROLE_EDITOR, [''artifact.*'', ''resource.create'', ''resource.read'', ''resource.update'',
         ''workflow.read'', ''workflow.run'']),
      (ROLE_VIEWER, [''artifact.read'', ''resource.read'', ''workflow.read'']),
      (ROLE_AGENT, [''artifact.create'', ''artifact.read'', ''artifact.update'',
         ''resource.read'', ''tool.execute'', ''workflow.read'', ''workflow.run''])]"

record role_binding =
  rb_role :: role
  rb_scope :: resource_scope

definition role_binding_to_dict :: "role_binding \<Rightarrow> json" where
  "role_binding_to_dict b = JObj
     [(''role'', JStr (role_value (rb_role b))), (''scope'', resource_scope_to_dict (rb_scope b))]"

definition audit_ref :: "platform \<Rightarrow> role_binding \<Rightarrow> string" where
  "audit_ref pf b = canonical_digest pf (role_binding_to_dict b)"

datatype member_status = MS_ACTIVE | MS_SUSPENDED | MS_REMOVED

record member =
  mb_member_id :: string
  mb_tenant_id :: string
  mb_role_bindings :: "role_binding list"
  mb_status :: member_status

definition valid_member :: "member \<Rightarrow> bool" where
  "valid_member m =
     (opaque_id (mb_member_id m) \<and> opaque_id (mb_tenant_id m)
      \<and> length (mb_role_bindings m) \<le> 256
      \<and> list_all (\<lambda>b. valid_resource_scope (rb_scope b)
           \<and> rs_tenant_id (rb_scope b) = mb_tenant_id m) (mb_role_bindings m))"

end
