(* ===== verification/Tenancy_Capability.thy ===== *)
theory Tenancy_Capability
  imports Tenancy_Scope
begin

text \<open>
  Capabilities of \<open>tenancy.py\<close>: claims, delegation, signed envelopes and their verification in
  one trust domain. Datetimes are instants in microseconds since the epoch (the constructor's
  \<open>_as_utc\<close> normalisation is the identity on them). The proof verifier, an object the service
  supplies, is the record \<open>proof_verifier\<close> of its three methods; an exception one of them
  raises is \<open>None\<close>. \<open>Tenancy_Keys\<close> instantiates it with the key ring of the sources.
\<close>

section \<open>Claims\<close>

record claims =
  cl_issuer_id :: string
  cl_subject_id :: string
  cl_action :: string
  cl_resource :: resource_scope
  cl_issued_at :: int
  cl_not_before :: int
  cl_expires_at :: int
  cl_audience :: string
  cl_nonce :: string
  cl_parent_fingerprint :: "string option"

datatype cap_error = CapType string | CapValue string | DelegationError string
  | VerificationError string

definition check_claims :: "claims \<Rightarrow> cap_error + claims" where
  "check_claims c =
     (if \<not> opaque_id (cl_issuer_id c) then Inl (CapValue ''issuer_id'')
      else if \<not> opaque_id (cl_subject_id c) then Inl (CapValue ''subject_id'')
      else if \<not> valid_action (cl_action c) then Inl (CapValue ''action'')
      else if cl_not_before c < cl_issued_at c
        then Inl (CapValue ''not_before cannot precede issued_at'')
      else if cl_expires_at c \<le> cl_not_before c
        then Inl (CapValue ''expires_at must be later than not_before'')
      else if \<not> require_text (cl_audience c) 256 then Inl (CapValue ''audience'')
      else if \<not> pred_option sha256_text (cl_parent_fingerprint c)
        then Inl (CapValue ''parent_fingerprint must be a lower-case SHA-256 digest'')
      else Inr c)"

text \<open>Claims the program can hold: their own check, their scope's and their nonce's.\<close>

definition valid_claims :: "claims \<Rightarrow> bool" where
  "valid_claims c = (check_claims c = Inr c \<and> valid_resource_scope (cl_resource c)
     \<and> nonce_text (cl_nonce c))"

definition cl_tenant_id :: "claims \<Rightarrow> string" where
  "cl_tenant_id c = rs_tenant_id (cl_resource c)"

type_synonym rev_id = "string \<times> string \<times> string"

definition revocation_id :: "claims \<Rightarrow> rev_id" where
  "revocation_id c = (cl_tenant_id c, cl_issuer_id c, cl_nonce c)"

definition claim_fields :: "platform \<Rightarrow> claims \<Rightarrow> (string, json) dict" where
  "claim_fields pf c =
     [(''issuerId'', JStr (cl_issuer_id c)), (''subjectId'', JStr (cl_subject_id c)),
      (''action'', JStr (cl_action c)), (''resource'', resource_scope_to_dict (cl_resource c)),
      (''issuedAt'', JStr (pf_time_text pf (cl_issued_at c))),
      (''notBefore'', JStr (pf_time_text pf (cl_not_before c))),
      (''expiresAt'', JStr (pf_time_text pf (cl_expires_at c))),
      (''audience'', JStr (cl_audience c)), (''nonce'', JStr (cl_nonce c)),
      (''parentFingerprint'', jopt JStr (cl_parent_fingerprint c))]"

definition fingerprint :: "platform \<Rightarrow> claims \<Rightarrow> string" where
  "fingerprint pf c = canonical_digest pf (JObj (claim_fields pf c))"

definition claims_to_dict :: "platform \<Rightarrow> claims \<Rightarrow> json" where
  "claims_to_dict pf c =
     JObj (dict_set ''fingerprint'' (JStr (fingerprint pf c)) (claim_fields pf c))"

definition validate_delegation :: "platform \<Rightarrow> claims \<Rightarrow> claims \<Rightarrow> cap_error + unit" where
  "validate_delegation pf parent child =
     (if cl_parent_fingerprint child \<noteq> Some (fingerprint pf parent)
        then Inl (DelegationError ''child does not reference the supplied parent'')
      else if cl_issuer_id child \<noteq> cl_subject_id parent
        then Inl (DelegationError ''only the parent subject may delegate'')
      else if cl_audience child \<noteq> cl_audience parent
        then Inl (DelegationError ''delegation cannot change audience'')
      else (case action_is_subset (cl_action parent) (cl_action child) of
          Inl e \<Rightarrow> Inl (CapValue ''action'')
        | Inr b \<Rightarrow>
            if \<not> b then Inl (DelegationError ''delegation cannot add actions'')
            else if \<not> contains_scope (cl_resource parent) (cl_resource child)
              then Inl (DelegationError ''delegation cannot widen or cross resource scope'')
            else if cl_issued_at child < cl_issued_at parent
              then Inl (DelegationError ''delegation cannot be issued before its parent'')
            else if cl_not_before child < cl_not_before parent
              then Inl (DelegationError ''delegation cannot activate before its parent'')
            else if cl_expires_at child > cl_expires_at parent
              then Inl (DelegationError ''delegation cannot outlive its parent'')
            else if revocation_id child = revocation_id parent
              then Inl (DelegationError
                ''delegation must have a unique nonce in its issuer/tenant domain'')
            else Inr ()))"

definition delegate ::
  "platform \<Rightarrow> claims \<Rightarrow> string \<Rightarrow> string \<Rightarrow> resource_scope \<Rightarrow> int \<Rightarrow> int \<Rightarrow> int \<Rightarrow> string
   \<Rightarrow> cap_error + claims" where
  "delegate pf parent subject action resource issued_at not_before expires_at nonce =
     bind_res (check_claims \<lparr>cl_issuer_id = cl_subject_id parent, cl_subject_id = subject,
         cl_action = action, cl_resource = resource, cl_issued_at = issued_at,
         cl_not_before = not_before, cl_expires_at = expires_at,
         cl_audience = cl_audience parent, cl_nonce = nonce,
         cl_parent_fingerprint = Some (fingerprint pf parent)\<rparr>) (\<lambda>child.
     bind_res (validate_delegation pf parent child) (\<lambda>_. Inr child))"

subsection \<open>Attenuation\<close>

text \<open>
  What a claim grants: the requests, the resources and the instants. One claim lies inside
  another when all three shrink and the audience is the same.
\<close>

definition inside_claims :: "claims \<Rightarrow> claims \<Rightarrow> bool" where
  "inside_claims child parent =
     (covered (cl_action child) \<subseteq> covered (cl_action parent)
      \<and> contains_scope (cl_resource parent) (cl_resource child)
      \<and> cl_issued_at parent \<le> cl_issued_at child
      \<and> cl_not_before parent \<le> cl_not_before child
      \<and> cl_expires_at child \<le> cl_expires_at parent
      \<and> cl_audience child = cl_audience parent)"

interpretation claim_chain: attenuation inside_claims
  by unfold_locales
    (auto simp: inside_claims_def intro: contains_scope_refl contains_scope_trans)

lemma validate_delegation_inside:
  assumes "validate_delegation pf parent child = Inr ()"
  shows "inside_claims child parent \<and> cl_issuer_id child = cl_subject_id parent
    \<and> cl_parent_fingerprint child = Some (fingerprint pf parent)
    \<and> revocation_id child \<noteq> revocation_id parent"
  using assms subset_sound [of "cl_action parent" "cl_action child"]
  by (auto simp: validate_delegation_def inside_claims_def split: if_splits sum.splits)

lemma inside_same_tenant: "inside_claims child parent \<Longrightarrow> cl_tenant_id child = cl_tenant_id parent"
  by (auto simp: inside_claims_def contains_scope_def contains_fields_iff cl_tenant_id_def)

section \<open>Proofs and envelopes\<close>

record cap_proof =
  pr_kid :: string
  pr_algorithm :: string
  pr_signature :: string

definition algorithm_text :: "string \<Rightarrow> bool" where
  "algorithm_text s = (2 \<le> length s \<and> length s \<le> 32 \<and> code_in 65 90 (hd s)
     \<and> list_all (\<lambda>c. code_in 65 90 c \<or> is_digit c \<or> c \<in> set ''_-'') (tl s))"

definition valid_proof :: "cap_proof \<Rightarrow> bool" where
  "valid_proof p = (opaque_id (pr_kid p) \<and> algorithm_text (pr_algorithm p)
     \<and> decode_signature (pr_signature p) \<noteq> None)"

definition proof_to_dict :: "cap_proof \<Rightarrow> json" where
  "proof_to_dict p = JObj [(''kid'', JStr (pr_kid p)), (''alg'', JStr (pr_algorithm p)),
     (''signature'', JStr (pr_signature p))]"

definition capability_protocol_version :: string where
  "capability_protocol_version = ''qe-capability/1''"

record cap_envelope =
  ce_protocol_version :: string
  ce_trust_domain :: string
  ce_policy_version :: string
  ce_claims :: "claims list"
  ce_root_proof :: cap_proof
  ce_delegation_proofs :: "cap_proof list"

definition valid_cap_envelope :: "cap_envelope \<Rightarrow> bool" where
  "valid_cap_envelope e =
     (require_text (ce_protocol_version e) 64 \<and> require_text (ce_trust_domain e) 256
      \<and> require_text (ce_policy_version e) 128
      \<and> ce_claims e \<noteq> [] \<and> length (ce_claims e) \<le> 64 \<and> list_all valid_claims (ce_claims e)
      \<and> valid_proof (ce_root_proof e)
      \<and> length (ce_delegation_proofs e) \<le> 63 \<and> list_all valid_proof (ce_delegation_proofs e)
      \<and> Suc (length (ce_delegation_proofs e)) = length (ce_claims e))"

definition cap_envelope_to_dict :: "platform \<Rightarrow> cap_envelope \<Rightarrow> json" where
  "cap_envelope_to_dict pf e = JObj
     [(''protocolVersion'', JStr (ce_protocol_version e)),
      (''trustDomain'', JStr (ce_trust_domain e)),
      (''policyVersion'', JStr (ce_policy_version e)),
      (''claims'', JArr (map (claims_to_dict pf) (ce_claims e))),
      (''rootProof'', proof_to_dict (ce_root_proof e)),
      (''delegationProofs'', JArr (map proof_to_dict (ce_delegation_proofs e)))]"

definition envelope_id :: "platform \<Rightarrow> cap_envelope \<Rightarrow> string" where
  "envelope_id pf e = canonical_digest pf (cap_envelope_to_dict pf e)"

text \<open>
  The signed payloads, as the documents whose canonical bytes are signed.
\<close>

definition root_payload :: "platform \<Rightarrow> string \<Rightarrow> string \<Rightarrow> string \<Rightarrow> claims \<Rightarrow> json" where
  "root_payload pf protocol trust policy c = JObj
     [(''protocolVersion'', JStr protocol), (''trustDomain'', JStr trust),
      (''policyVersion'', JStr policy), (''proofType'', JStr ''root''),
      (''claims'', claims_to_dict pf c)]"

definition delegation_payload ::
  "platform \<Rightarrow> string \<Rightarrow> string \<Rightarrow> string \<Rightarrow> claims \<Rightarrow> claims \<Rightarrow> json" where
  "delegation_payload pf protocol trust policy parent child = JObj
     [(''protocolVersion'', JStr protocol), (''trustDomain'', JStr trust),
      (''policyVersion'', JStr policy), (''proofType'', JStr ''delegation''),
      (''parentFingerprint'', JStr (fingerprint pf parent)),
      (''claims'', claims_to_dict pf child)]"

section \<open>Verification\<close>

record proof_verifier =
  pv_trust_domain :: string
  pv_policy_version :: string
  pv_verify :: "cap_proof \<Rightarrow> string \<Rightarrow> json \<Rightarrow> int \<Rightarrow> bool option"
  pv_authorize_root :: "cap_proof \<Rightarrow> claims \<Rightarrow> int \<Rightarrow> bool option"
  pv_authorize_delegation :: "cap_proof \<Rightarrow> claims \<Rightarrow> claims \<Rightarrow> int \<Rightarrow> bool option"

record verifier =
  vf_proof_verifier :: proof_verifier
  vf_trust_domain :: string
  vf_policy_version :: string
  vf_audience :: string
  vf_max_ttl :: int
  vf_max_clock_skew :: int
  vf_max_chain_depth :: int

definition check_verifier :: "verifier \<Rightarrow> cap_error + verifier" where
  "check_verifier v =
     (if \<not> require_text (vf_trust_domain v) 256 then Inl (CapValue ''trust_domain'')
      else if \<not> require_text (vf_policy_version v) 128 then Inl (CapValue ''policy_version'')
      else if pv_trust_domain (vf_proof_verifier v) \<noteq> vf_trust_domain v
        then Inl (CapValue ''proof verifier trust domain does not match verifier policy'')
      else if pv_policy_version (vf_proof_verifier v) \<noteq> vf_policy_version v
        then Inl (CapValue ''proof verifier policy version does not match verifier policy'')
      else if \<not> require_text (vf_audience v) 256 then Inl (CapValue ''audience'')
      else if vf_max_ttl v \<le> 0 then Inl (CapValue ''max_ttl'')
      else if vf_max_clock_skew v \<le> 0 then Inl (CapValue ''max_clock_skew'')
      else if \<not> (1 \<le> vf_max_chain_depth v \<and> vf_max_chain_depth v \<le> 64)
        then Inl (CapValue ''max_chain_depth must be between 1 and 64'')
      else Inr v)"

text \<open>
  One pass over the chain, with the claims before and the revocation ids seen so far; a
  delegation error is re-raised as a verification error, any other error passes through.
\<close>

fun validate_links ::
  "platform \<Rightarrow> verifier \<Rightarrow> int \<Rightarrow> claims option \<Rightarrow> rev_id list \<Rightarrow> claims list
   \<Rightarrow> cap_error + unit" where
  "validate_links pf v now prev seen [] = Inr ()"
| "validate_links pf v now prev seen (c # cs) =
     (if cl_audience c \<noteq> vf_audience v
        then Inl (VerificationError ''capability audience does not match this service'')
      else if cl_expires_at c - cl_issued_at c > vf_max_ttl v
        then Inl (VerificationError ''capability exceeds maximum TTL'')
      else if cl_issued_at c > now + vf_max_clock_skew v
        then Inl (VerificationError ''capability issued_at is in the future'')
      else if revocation_id c \<in> set seen
        then Inl (VerificationError ''capability nonce repeats in issuer/tenant domain'')
      else (case prev of
          None \<Rightarrow>
            if cl_parent_fingerprint c \<noteq> None
            then Inl (VerificationError ''root capability cannot reference a parent'')
            else validate_links pf v now (Some c) (revocation_id c # seen) cs
        | Some p \<Rightarrow>
            (case validate_delegation pf p c of
               Inl (DelegationError m) \<Rightarrow> Inl (VerificationError m)
             | Inl e \<Rightarrow> Inl e
             | Inr _ \<Rightarrow> validate_links pf v now (Some c) (revocation_id c # seen) cs)))"

definition validate_chain_structure ::
  "platform \<Rightarrow> verifier \<Rightarrow> int \<Rightarrow> claims list \<Rightarrow> cap_error + unit" where
  "validate_chain_structure pf v now chain =
     (if chain = [] then Inl (VerificationError ''capability chain cannot be empty'')
      else if int (length chain) > vf_max_chain_depth v
        then Inl (VerificationError ''capability chain exceeds maximum depth'')
      else validate_links pf v now None [] chain)"

text \<open>\<open>x is not True\<close>, and the exception of the check, both fail closed.\<close>

definition trusted :: "bool option \<Rightarrow> string \<Rightarrow> string \<Rightarrow> cap_error + unit" where
  "trusted answer failed refused =
     (case answer of
        None \<Rightarrow> Inl (VerificationError failed)
      | Some b \<Rightarrow> if b then Inr () else Inl (VerificationError refused))"

fun verify_edges ::
  "platform \<Rightarrow> verifier \<Rightarrow> int \<Rightarrow> cap_envelope \<Rightarrow> cap_proof list \<Rightarrow> claims \<Rightarrow> claims list
   \<Rightarrow> cap_error + unit" where
  "verify_edges pf v now e (p # ps) parent (child # cs) =
     bind_res (trusted (pv_verify (vf_proof_verifier v) p (cl_issuer_id child)
           (delegation_payload pf (ce_protocol_version e) (ce_trust_domain e)
              (ce_policy_version e) parent child) now)
         ''delegation proof verifier failed closed'' ''delegation proof is not trusted'') (\<lambda>_.
     bind_res (trusted (pv_authorize_delegation (vf_proof_verifier v) p parent child now)
         ''delegation signer authority check failed closed''
         ''delegation signer is not authorized for delegation proofs'') (\<lambda>_.
     verify_edges pf v now e ps child cs))"
| "verify_edges pf v now e ps parent cs = Inr ()"

record verified =
  vc_envelope :: cap_envelope
  vc_trust_domain :: string
  vc_policy_version :: string
  vc_verified_at :: int

definition verify ::
  "platform \<Rightarrow> verifier \<Rightarrow> cap_envelope \<Rightarrow> int \<Rightarrow> bool \<Rightarrow> cap_error + verified" where
  "verify pf v e now allow_expired =
     (if Suc (length (ce_delegation_proofs e)) \<noteq> length (ce_claims e)
        then Inl (VerificationError
          ''capability envelope requires exactly one proof per delegation edge'')
      else if \<not> valid_cap_envelope e
        then Inl (VerificationError ''capability envelope is not a canonical immutable snapshot'')
      else if ce_protocol_version e \<noteq> capability_protocol_version
        then Inl (VerificationError ''capability protocol version is not supported'')
      else if ce_trust_domain e \<noteq> vf_trust_domain v
        then Inl (VerificationError ''capability trust domain is not accepted'')
      else if ce_policy_version e \<noteq> vf_policy_version v
        then Inl (VerificationError ''capability policy version is not accepted'')
      else bind_res (validate_chain_structure pf v now (ce_claims e)) (\<lambda>_.
        if \<not> allow_expired \<and> now \<ge> cl_expires_at (last (ce_claims e))
        then Inl (VerificationError ''cannot verify an expired capability'')
        else let root = hd (ce_claims e) in
          bind_res (trusted (pv_verify (vf_proof_verifier v) (ce_root_proof e)
                (cl_issuer_id root)
                (root_payload pf (ce_protocol_version e) (ce_trust_domain e)
                   (ce_policy_version e) root) now)
              ''root proof verifier failed closed''
              ''root capability proof is not trusted'') (\<lambda>_.
          bind_res (trusted (pv_authorize_root (vf_proof_verifier v) (ce_root_proof e) root now)
              ''root capability authority check failed closed''
              ''root signer is not authorized for the capability tenant'') (\<lambda>_.
          bind_res (verify_edges pf v now e (ce_delegation_proofs e) root (tl (ce_claims e)))
            (\<lambda>_. Inr \<lparr>vc_envelope = e, vc_trust_domain = vf_trust_domain v,
                       vc_policy_version = vf_policy_version v, vc_verified_at = now\<rparr>)))))"

section \<open>What verification establishes\<close>

text \<open>A chain whose links delegate one to the next, and whose edges carry accepted proofs.\<close>

fun linked :: "platform \<Rightarrow> claims \<Rightarrow> claims list \<Rightarrow> bool" where
  "linked pf p [] = True"
| "linked pf p (c # cs) = (validate_delegation pf p c = Inr () \<and> linked pf c cs)"

lemma linked_narrowing: "linked pf p cs \<Longrightarrow> claim_chain.narrowing p cs"
  by (induction pf p cs rule: linked.induct) (auto dest: validate_delegation_inside)

lemma validate_links_sound:
  "validate_links pf v now prev seen cs = Inr () \<Longrightarrow>
     distinct (map revocation_id cs) \<and> set (map revocation_id cs) \<inter> set seen = {}
     \<and> (\<forall>c \<in> set cs. cl_audience c = vf_audience v
          \<and> cl_expires_at c - cl_issued_at c \<le> vf_max_ttl v
          \<and> cl_issued_at c \<le> now + vf_max_clock_skew v)
     \<and> (case prev of
          None \<Rightarrow> (case cs of [] \<Rightarrow> True
                    | r # rs \<Rightarrow> cl_parent_fingerprint r = None \<and> linked pf r rs)
        | Some p \<Rightarrow> linked pf p cs)"
proof (induction pf v now prev seen cs rule: validate_links.induct)
  case (2 pf v now prev seen c cs)
  from \<open>validate_links pf v now prev seen (c # cs) = Inr ()\<close>
  have guards: "cl_audience c = vf_audience v" "cl_expires_at c - cl_issued_at c \<le> vf_max_ttl v"
      "cl_issued_at c \<le> now + vf_max_clock_skew v" "revocation_id c \<notin> set seen"
    by (simp_all split: if_splits)
  show ?case
  proof (cases prev)
    case None
    then have tail: "cl_parent_fingerprint c = None"
        "validate_links pf v now (Some c) (revocation_id c # seen) cs = Inr ()"
      using 2(3) guards by (simp_all split: if_splits)
    show ?thesis using 2(1) [OF _ _ _ _ None] tail guards None by simp
  next
    case (Some p)
    then have tail: "validate_delegation pf p c = Inr ()"
        "validate_links pf v now (Some c) (revocation_id c # seen) cs = Inr ()"
      using 2(3) guards by (simp_all split: sum.splits cap_error.splits)
    show ?thesis using 2(2) [OF _ _ _ _ Some] tail guards Some by simp
  qed
qed (simp split: option.splits)

lemma trusted_Inr: "trusted a f r = Inr () \<longleftrightarrow> a = Some True"
  by (auto simp: trusted_def split: option.splits)

lemma verify_edges_sound:
  "verify_edges pf v now e ps p cs = Inr () \<Longrightarrow> length ps = length cs \<Longrightarrow> i < length cs \<Longrightarrow>
     pv_verify (vf_proof_verifier v) (ps ! i) (cl_issuer_id (cs ! i))
       (delegation_payload pf (ce_protocol_version e) (ce_trust_domain e) (ce_policy_version e)
          ((p # cs) ! i) (cs ! i)) now = Some True
     \<and> pv_authorize_delegation (vf_proof_verifier v) (ps ! i) ((p # cs) ! i) (cs ! i) now = Some True"
proof (induction pf v now e ps p cs arbitrary: i rule: verify_edges.induct)
  case (1 pf v now e q ps parent child cs)
  then show ?case by (cases i) (auto simp: res_simps trusted_Inr)
qed auto

text \<open>The verified chain: root first, every link inside it, every edge signed and authorised.\<close>

definition sound_chain :: "platform \<Rightarrow> verifier \<Rightarrow> int \<Rightarrow> cap_envelope \<Rightarrow> bool" where
  "sound_chain pf v now e =
     (\<exists>root rest. ce_claims e = root # rest \<and> cl_parent_fingerprint root = None
        \<and> linked pf root rest
        \<and> distinct (map revocation_id (ce_claims e))
        \<and> list_all (\<lambda>c. cl_audience c = vf_audience v
             \<and> cl_issued_at c \<le> now + vf_max_clock_skew v
             \<and> cl_expires_at c - cl_issued_at c \<le> vf_max_ttl v) (ce_claims e)
        \<and> pv_verify (vf_proof_verifier v) (ce_root_proof e) (cl_issuer_id root)
            (root_payload pf (ce_protocol_version e) (ce_trust_domain e) (ce_policy_version e)
               root) now = Some True
        \<and> pv_authorize_root (vf_proof_verifier v) (ce_root_proof e) root now = Some True)"

lemma verify_sound_chain:
  assumes "verify pf v e now allow = Inr vc"
  shows "vc_envelope vc = e \<and> valid_cap_envelope e \<and> sound_chain pf v now e
    \<and> ce_trust_domain e = vf_trust_domain v \<and> ce_policy_version e = vf_policy_version v
    \<and> verify_edges pf v now e (ce_delegation_proofs e) (hd (ce_claims e)) (tl (ce_claims e)) = Inr ()"
proof -
  from assms have v: "valid_cap_envelope e"
    and links: "validate_links pf v now None [] (ce_claims e) = Inr ()"
    and rest: "vc_envelope vc = e" "ce_trust_domain e = vf_trust_domain v"
      "ce_policy_version e = vf_policy_version v"
      "pv_verify (vf_proof_verifier v) (ce_root_proof e) (cl_issuer_id (hd (ce_claims e)))
          (root_payload pf (ce_protocol_version e) (ce_trust_domain e) (ce_policy_version e)
            (hd (ce_claims e))) now = Some True"
      "pv_authorize_root (vf_proof_verifier v) (ce_root_proof e) (hd (ce_claims e)) now = Some True"
      "verify_edges pf v now e (ce_delegation_proofs e) (hd (ce_claims e)) (tl (ce_claims e)) = Inr ()"
    by (auto simp: verify_def validate_chain_structure_def res_simps Let_def trusted_Inr
        split: if_splits)
  obtain root others where cs: "ce_claims e = root # others"
    using v by (cases "ce_claims e") (auto simp: valid_cap_envelope_def)
  from validate_links_sound [OF links] have "sound_chain pf v now e"
    using rest(4,5) by (auto simp: sound_chain_def cs list_all_iff)
  with v rest show ?thesis by blast
qed

text \<open>
  C27. Delegation only narrows. In a capability envelope that verification accepts, every claim
  of the chain, however deep, grants no request, no resource and no instant the root claim does
  not grant, in the same tenant and audience; the chain starts at a parentless root and no two
  of its claims share a revocation id.
\<close>

theorem verified_chain_attenuates:
  assumes "verify pf v e now allow = Inr vc" and "c \<in> set (ce_claims e)"
  shows "\<exists>root rest. ce_claims e = root # rest \<and> cl_parent_fingerprint root = None
    \<and> covered (cl_action c) \<subseteq> covered (cl_action root)
    \<and> resources_in (cl_resource c) \<subseteq> resources_in (cl_resource root)
    \<and> cl_not_before root \<le> cl_not_before c \<and> cl_expires_at c \<le> cl_expires_at root
    \<and> cl_tenant_id c = cl_tenant_id root \<and> cl_audience c = vf_audience v
    \<and> distinct (map revocation_id (ce_claims e))"
proof -
  from verify_sound_chain [OF assms(1)] obtain root rest where
    cs: "ce_claims e = root # rest" "cl_parent_fingerprint root = None" "linked pf root rest"
    and more: "distinct (map revocation_id (ce_claims e))" "cl_audience c = vf_audience v"
    using assms(2) by (auto simp: sound_chain_def list_all_iff)
  have "inside_claims c root"
    using assms(2) cs claim_chain.narrowing_all [OF linked_narrowing [OF cs(3)]]
    by (auto intro: claim_chain.inside_refl)
  then show ?thesis
    using cs(1,2) more inside_same_tenant contains_scope_sound by (auto simp: inside_claims_def)
qed

text \<open>
  Every edge of an accepted chain is signed: the proof at each position was accepted for
  the issuer of the child, who is the subject of the parent, over the payload that names this
  parent and this child, and that signer was authorised to delegate.
\<close>

theorem verified_edges_signed:
  assumes "verify pf v e now allow = Inr vc" and "Suc i < length (ce_claims e)"
  shows "cl_issuer_id (ce_claims e ! Suc i) = cl_subject_id (ce_claims e ! i)
    \<and> pv_verify (vf_proof_verifier v) (ce_delegation_proofs e ! i)
        (cl_subject_id (ce_claims e ! i))
        (delegation_payload pf (ce_protocol_version e) (vf_trust_domain v) (vf_policy_version v)
           (ce_claims e ! i) (ce_claims e ! Suc i)) now = Some True
    \<and> pv_authorize_delegation (vf_proof_verifier v) (ce_delegation_proofs e ! i)
        (ce_claims e ! i) (ce_claims e ! Suc i) now = Some True"
proof -
  note ok = verify_sound_chain [OF assms(1)]
  then obtain root rest where cs: "ce_claims e = root # rest" "linked pf root rest"
    by (auto simp: sound_chain_def)
  have len: "length (ce_delegation_proofs e) = length rest"
    using ok cs by (simp add: valid_cap_envelope_def)
  have i: "i < length rest" using assms(2) cs by simp
  have "validate_delegation pf ((p # xs) ! j) (xs ! j) = Inr ()" if "linked pf p xs" "j < length xs"
    for p xs j
    using that by (induction xs arbitrary: p j) (auto simp: nth_Cons split: nat.splits)
  then have "cl_issuer_id (rest ! i) = cl_subject_id ((root # rest) ! i)"
    using cs(2) i validate_delegation_inside by blast
  with verify_edges_sound [of pf v now e "ce_delegation_proofs e" root rest i] ok cs len i
  show ?thesis by simp
qed

section \<open>A concrete chain\<close>

definition sample_platform :: platform where
  "sample_platform = \<lparr>pf_sha256 = \<lambda>_. replicate 64 (CHR ''0''),
     pf_hmac = \<lambda>_ _. replicate 32 (CHR ''A''), pf_float_text = \<lambda>_. ''0'', pf_time_text = \<lambda>_. ''t''\<rparr>"

definition sample_root :: claims where
  "sample_root = \<lparr>cl_issuer_id = ''a'', cl_subject_id = ''b'', cl_action = ''read'',
     cl_resource = sample_scope None, cl_issued_at = 0, cl_not_before = 0, cl_expires_at = 100,
     cl_audience = ''a'', cl_nonce = replicate 32 (CHR ''a''), cl_parent_fingerprint = None\<rparr>"

definition sample_child :: claims where
  "sample_child = \<lparr>cl_issuer_id = ''b'', cl_subject_id = ''a'', cl_action = ''read'',
     cl_resource = sample_scope (Some ''b''), cl_issued_at = 0, cl_not_before = 1,
     cl_expires_at = 50, cl_audience = ''a'', cl_nonce = replicate 32 (CHR ''a''),
     cl_parent_fingerprint = Some (replicate 64 (CHR ''0''))\<rparr>"

definition sample_proof :: cap_proof where
  "sample_proof = \<lparr>pr_kid = ''a'', pr_algorithm = ''HS'',
     pr_signature = encode_signature (replicate 12 (CHR ''A''))\<rparr>"

definition sample_envelope :: cap_envelope where
  "sample_envelope = \<lparr>ce_protocol_version = ''qe-capability/1'', ce_trust_domain = ''a'',
     ce_policy_version = ''b'', ce_claims = [sample_root, sample_child],
     ce_root_proof = sample_proof, ce_delegation_proofs = [sample_proof]\<rparr>"

definition sample_verifier :: verifier where
  "sample_verifier = \<lparr>vf_proof_verifier = \<lparr>pv_trust_domain = ''a'', pv_policy_version = ''b'',
       pv_verify = \<lambda>_ _ _ _. Some True, pv_authorize_root = \<lambda>_ _ _. Some True,
       pv_authorize_delegation = \<lambda>_ _ _ _. Some True\<rparr>,
     vf_trust_domain = ''a'', vf_policy_version = ''b'', vf_audience = ''a'',
     vf_max_ttl = 1000, vf_max_clock_skew = 10, vf_max_chain_depth = 16\<rparr>"

lemmas sample_defs = sample_platform_def sample_root_def sample_child_def sample_proof_def
  sample_envelope_def sample_verifier_def


lemma read_action: "valid_action ''read''"
  by (simp add: valid_action_def Let_def is_lower_def code_in_def action_char_def is_digit_def)

lemma sample_link: "validate_delegation sample_platform sample_root sample_child = Inr ()"
  by (simp add: validate_delegation_def fingerprint_def canonical_digest_def sample_root_def
      sample_child_def sample_platform_def revocation_id_def cl_tenant_id_def sample_scope_def
      contains_scope_def contains_fields_def action_is_subset_def read_action)

lemma sample_scope_valid: "pred_option opaque_id w \<Longrightarrow> valid_resource_scope (sample_scope w)"
  by (simp add: sample_texts valid_resource_scope_def sample_scope_def require_text_def blank_iff
        py_strip_def py_space_def)

lemma sample_claims_valid: "valid_claims sample_root" "valid_claims sample_child"
  using sample_texts
  by (simp_all add: valid_claims_def check_claims_def sample_root_def sample_child_def read_action
      sample_scope_valid nonce_text_def is_hex_def is_digit_def code_in_def sha256_text_def
      require_text_def list_all_iff)

lemma sample_proof_valid: "valid_proof sample_proof"
  using sample_texts by (simp add: valid_proof_def sample_proof_def decode_encode algorithm_text_def
      code_in_def)

lemma sample_envelope_valid: "valid_cap_envelope sample_envelope"
  by (simp add: valid_cap_envelope_def sample_envelope_def sample_claims_valid sample_proof_valid
      require_text_def blank_iff py_strip_def py_space_def)

lemma sample_chain:
  assumes "vf_audience v = ''a''" "vf_max_ttl v = 1000" "vf_max_clock_skew v = 10"
    "vf_max_chain_depth v = 16"
  shows "validate_chain_structure sample_platform v 10 [sample_root, sample_child] = Inr ()"
proof -
  have "revocation_id sample_child \<noteq> revocation_id sample_root"
    by (simp add: revocation_id_def sample_child_def sample_root_def)
  then show ?thesis
    using sample_link assms by (simp add: validate_chain_structure_def)
      (simp add: sample_root_def sample_child_def)
qed

lemma sample_verified:
  "\<exists>vc. verify sample_platform sample_verifier sample_envelope 10 allow = Inr vc"
proof -
  have "validate_chain_structure sample_platform sample_verifier 10 [sample_root, sample_child] = Inr ()"
    by (rule sample_chain) (simp_all add: sample_verifier_def)
  then show ?thesis using sample_envelope_valid
    by (simp add: verify_def) (simp add: sample_envelope_def sample_verifier_def trusted_def
      capability_protocol_version_def sample_child_def)
qed

theorem verified_chain_attenuates_witness:
  "resources_in (cl_resource sample_child) \<subseteq> resources_in (cl_resource sample_root)
   \<and> cl_expires_at sample_child \<le> cl_expires_at sample_root"
proof -
  obtain vc where "verify sample_platform sample_verifier sample_envelope 10 False = Inr vc"
    using sample_verified by blast
  from verified_chain_attenuates [OF this, of sample_child]
  show ?thesis by (simp add: sample_envelope_def)
qed

theorem verified_edges_signed_witness:
  "cl_issuer_id sample_child = cl_subject_id sample_root
   \<and> pv_verify (vf_proof_verifier sample_verifier) sample_proof ''b''
        (delegation_payload sample_platform ''qe-capability/1'' ''a'' ''b'' sample_root sample_child)
        10 = Some True"
proof -
  obtain vc where "verify sample_platform sample_verifier sample_envelope 10 False = Inr vc"
    using sample_verified by blast
  from verified_edges_signed [OF this, of 0]
  show ?thesis by (simp add: sample_envelope_def) (simp add: sample_verifier_def sample_root_def)
qed

end
