(* ===== verification/Tenancy_Keys.thy ===== *)
theory Tenancy_Keys
  imports Tenancy_Capability
begin

text \<open>
  The rotating HMAC key ring of \<open>tenancy.py\<close>. Frozen sets (usages, tenants, retired key ids)
  are lists read as sets; dicts are association lists. A payload is the JSON document whose
  canonical bytes the code signs and parses back. The ring's lock makes each operation one step.
\<close>

section \<open>Keys\<close>

datatype key_status = KS_ACTIVE | KS_VERIFY_ONLY | KS_REVOKED

fun status_order :: "key_status \<Rightarrow> nat" where
  "status_order KS_ACTIVE = 0"
| "status_order KS_VERIFY_ONLY = 1"
| "status_order KS_REVOKED = 2"

datatype key_usage = KU_ROOT | KU_DELEGATION

fun key_usage_value :: "key_usage \<Rightarrow> string" where
  "key_usage_value KU_ROOT = ''root''"
| "key_usage_value KU_DELEGATION = ''delegation''"

record signing_key =
  sk_kid :: string
  sk_principal_id :: string
  sk_secret :: string
  sk_not_before :: int
  sk_expires_at :: int
  sk_status :: key_status
  sk_usages :: "key_usage list"
  sk_root_tenants :: "string list"
  sk_algorithm :: string

definition check_key :: "signing_key \<Rightarrow> cap_error + signing_key" where
  "check_key k =
     (if \<not> opaque_id (sk_kid k)
        then Inl (CapValue ''kid must be a canonical opaque key identifier'')
      else if \<not> opaque_id (sk_principal_id k) then Inl (CapValue ''principal_id'')
      else if length (sk_secret k) < 32
        then Inl (CapValue ''HS256 key material must contain at least 32 bytes'')
      else if sk_expires_at k \<le> sk_not_before k
        then Inl (CapValue ''key expires_at must follow not_before'')
      else if length (sk_usages k) > 2 then Inl (CapValue ''key.usages'')
      else if sk_usages k = []
        then Inl (CapType ''key.usages must contain KeyUsage values'')
      else if length (sk_root_tenants k) > 4096 then Inl (CapValue ''key.root_tenants'')
      else if \<not> list_all opaque_id (sk_root_tenants k)
        then Inl (CapType ''key.root_tenants must contain TenantId values'')
      else if KU_ROOT \<in> set (sk_usages k) \<and> sk_root_tenants k = []
        then Inl (CapValue ''a root signing key requires at least one tenant authority'')
      else if KU_ROOT \<notin> set (sk_usages k) \<and> sk_root_tenants k \<noteq> []
        then Inl (CapValue ''a delegation-only key cannot carry root tenant authority'')
      else if sk_algorithm k \<noteq> ''HS256''
        then Inl (CapValue ''the built-in key ring supports only HS256'')
      else Inr k)"

lemma check_key_Inr: "check_key k = Inr k' \<Longrightarrow> k' = k"
  by (auto simp: check_key_def split: if_splits)

definition key_identity :: "platform \<Rightarrow> signing_key \<Rightarrow> string" where
  "key_identity pf k = canonical_digest pf (JObj
     [(''kid'', JStr (sk_kid k)), (''principalId'', JStr (sk_principal_id k)),
      (''secretSha256'', JStr (pf_sha256 pf (sk_secret k))),
      (''notBefore'', JStr (pf_time_text pf (sk_not_before k))),
      (''expiresAt'', JStr (pf_time_text pf (sk_expires_at k))),
      (''usages'', jstrs (sort (remdups (map key_usage_value (sk_usages k))))),
      (''rootTenants'', jstrs (sort (remdups (sk_root_tenants k)))),
      (''algorithm'', JStr (sk_algorithm k))])"

section \<open>The ring and its rotation\<close>

record key_ring =
  kr_trust_domain :: string
  kr_policy_version :: string
  kr_keys :: "(string, signing_key) dict"
  kr_identities :: "(string, string) dict"
  kr_high_water :: "(string, key_status) dict"
  kr_retired :: "string list"

text \<open>The snapshot of the given keys: each is rebuilt, and no key id may occur twice.\<close>

fun normalize :: "signing_key list \<Rightarrow> (string, signing_key) dict
    \<Rightarrow> cap_error + (string, signing_key) dict" where
  "normalize [] d = Inr d"
| "normalize (k # ks) d =
     bind_res (check_key k) (\<lambda>s.
       if map_of d (sk_kid s) \<noteq> None then Inl (CapValue ''duplicate capability signing kid'')
       else normalize ks (dict_set (sk_kid s) s d))"

text \<open>One pass over the new keys, updating the identities and the status high-water marks.\<close>

fun install ::
  "platform \<Rightarrow> string list \<Rightarrow> (string, signing_key) dict
   \<Rightarrow> (string, string) dict \<Rightarrow> (string, key_status) dict
   \<Rightarrow> cap_error + (string, string) dict \<times> (string, key_status) dict" where
  "install pf retired [] ids hw = Inr (ids, hw)"
| "install pf retired ((kid, k) # ks) ids hw =
     (if kid \<in> set retired
        then Inl (CapValue ''a removed capability signing kid cannot be reused'')
      else if map_of ids kid \<noteq> None \<and> map_of ids kid \<noteq> Some (key_identity pf k)
        then Inl (CapValue ''capability signing kid identity is immutable'')
      else if (case map_of hw kid of None \<Rightarrow> False
               | Some s \<Rightarrow> status_order (sk_status k) < status_order s)
        then Inl (CapValue ''capability signing key status cannot move backwards'')
      else install pf retired ks (dict_set kid (key_identity pf k) ids)
             (dict_set kid (sk_status k) hw))"

definition replace_keys :: "platform \<Rightarrow> signing_key list \<Rightarrow> key_ring \<Rightarrow> cap_error + key_ring" where
  "replace_keys pf keys r =
     (if length keys > 4096 then Inl (CapValue ''capability signing keys'')
      else bind_res (normalize keys []) (\<lambda>d.
        let retired = kr_retired r @
              filter (\<lambda>kid. kid \<notin> set (dict_keys d)) (dict_keys (kr_keys r))
        in bind_res (install pf retired d (kr_identities r) (kr_high_water r)) (\<lambda>(ids, hw).
          Inr (r\<lparr>kr_keys := d, kr_identities := ids, kr_high_water := hw,
                 kr_retired := retired\<rparr>))))"

definition new_ring :: "platform \<Rightarrow> string \<Rightarrow> string \<Rightarrow> signing_key list \<Rightarrow> cap_error + key_ring" where
  "new_ring pf trust_domain policy_version keys =
     (if \<not> require_text trust_domain 256 then Inl (CapValue ''trust_domain'')
      else if \<not> require_text policy_version 128 then Inl (CapValue ''policy_version'')
      else replace_keys pf keys \<lparr>kr_trust_domain = trust_domain,
        kr_policy_version = policy_version, kr_keys = [], kr_identities = [],
        kr_high_water = [], kr_retired = []\<rparr>)"

section \<open>Proofs\<close>

text \<open>\<open>_strict_object\<close>: an object with all required keys and none beside the optional ones.\<close>

definition strict_object :: "string list \<Rightarrow> string list \<Rightarrow> json \<Rightarrow> bool" where
  "strict_object required optional v =
     (case v of
        JObj d \<Rightarrow> set required \<subseteq> set (dict_keys d)
          \<and> set (dict_keys d) \<subseteq> set required \<union> set optional
      | _ \<Rightarrow> False)"

fun str_field :: "json \<Rightarrow> string \<Rightarrow> string option" where
  "str_field (JObj d) k = (case map_of d k of Some (JStr s) \<Rightarrow> Some s | _ \<Rightarrow> None)"
| "str_field v k = None"

fun obj_field :: "json \<Rightarrow> string \<Rightarrow> json option" where
  "obj_field (JObj d) k = (case map_of d k of Some (JObj e) \<Rightarrow> Some (JObj e) | _ \<Rightarrow> None)"
| "obj_field v k = None"

definition payload_usage_allowed :: "signing_key \<Rightarrow> json \<Rightarrow> bool" where
  "payload_usage_allowed k payload =
     (if \<not> strict_object [''protocolVersion'', ''trustDomain'', ''policyVersion'', ''proofType'',
             ''claims''] [''parentFingerprint''] payload then False
      else case str_field payload ''proofType'' of None \<Rightarrow> False | Some proof_type \<Rightarrow>
        (case obj_field payload ''claims'' of None \<Rightarrow> False | Some cs \<Rightarrow>
        (case obj_field cs ''resource'' of None \<Rightarrow> False | Some resource \<Rightarrow>
        (case str_field resource ''tenantId'' of None \<Rightarrow> False | Some tenant \<Rightarrow>
          if \<not> opaque_id tenant then False
          else if proof_type = ''root''
            then KU_ROOT \<in> set (sk_usages k) \<and> tenant \<in> set (sk_root_tenants k)
          else if proof_type = ''delegation'' then KU_DELEGATION \<in> set (sk_usages k)
          else False))))"

definition proof_message :: "platform \<Rightarrow> string \<Rightarrow> string \<Rightarrow> json \<Rightarrow> string" where
  "proof_message pf kid algorithm payload = canonical_bytes pf (JObj
     [(''kid'', JStr kid), (''alg'', JStr algorithm),
      (''payloadSha256'', JStr (canonical_digest pf payload))])"

definition in_window :: "signing_key \<Rightarrow> int \<Rightarrow> bool" where
  "in_window k now = (sk_not_before k \<le> now \<and> now < sk_expires_at k)"

definition ring_sign ::
  "platform \<Rightarrow> key_ring \<Rightarrow> string \<Rightarrow> string \<Rightarrow> json \<Rightarrow> int \<Rightarrow> cap_error + cap_proof" where
  "ring_sign pf r kid signer payload now =
     (case map_of (kr_keys r) kid of
        None \<Rightarrow> Inl (VerificationError ''signing kid is not trusted'')
      | Some k \<Rightarrow>
          if sk_status k \<noteq> KS_ACTIVE
            then Inl (VerificationError ''signing key is not active'')
          else if sk_principal_id k \<noteq> signer
            then Inl (VerificationError ''signing key principal does not match issuer'')
          else if \<not> in_window k now
            then Inl (VerificationError ''signing key is outside its validity interval'')
          else if \<not> payload_usage_allowed k payload
            then Inl (VerificationError ''signing key is not authorized for this proof usage'')
          else let p = \<lparr>pr_kid = sk_kid k, pr_algorithm = sk_algorithm k,
                 pr_signature = encode_signature (pf_hmac pf (sk_secret k)
                   (proof_message pf (sk_kid k) (sk_algorithm k) payload))\<rparr>
            in if valid_proof p then Inr p else Inl (CapValue ''signature''))"

definition usable :: "signing_key \<Rightarrow> bool" where
  "usable k = (sk_status k \<in> {KS_ACTIVE, KS_VERIFY_ONLY})"

definition ring_verify :: "platform \<Rightarrow> key_ring \<Rightarrow> cap_proof \<Rightarrow> string \<Rightarrow> json \<Rightarrow> int \<Rightarrow> bool" where
  "ring_verify pf r p signer payload now =
     (case decode_signature (pr_signature p) of
        None \<Rightarrow> False
      | Some supplied \<Rightarrow>
          (case map_of (kr_keys r) (pr_kid p) of
             None \<Rightarrow> False
           | Some k \<Rightarrow>
               if \<not> usable k then False
               else if sk_algorithm k \<noteq> pr_algorithm p \<or> sk_principal_id k \<noteq> signer then False
               else if \<not> in_window k now then False
               else if \<not> payload_usage_allowed k payload then False
               else pf_hmac pf (sk_secret k)
                      (proof_message pf (pr_kid p) (pr_algorithm p) payload) = supplied))"

definition ring_authorize_root :: "key_ring \<Rightarrow> cap_proof \<Rightarrow> claims \<Rightarrow> int \<Rightarrow> bool" where
  "ring_authorize_root r p c now =
     (case map_of (kr_keys r) (pr_kid p) of
        None \<Rightarrow> False
      | Some k \<Rightarrow> usable k \<and> sk_principal_id k = cl_issuer_id c
          \<and> sk_algorithm k = pr_algorithm p \<and> in_window k now
          \<and> KU_ROOT \<in> set (sk_usages k) \<and> cl_tenant_id c \<in> set (sk_root_tenants k))"

definition ring_authorize_delegation ::
  "key_ring \<Rightarrow> cap_proof \<Rightarrow> claims \<Rightarrow> claims \<Rightarrow> int \<Rightarrow> bool" where
  "ring_authorize_delegation r p parent child now =
     (case map_of (kr_keys r) (pr_kid p) of
        None \<Rightarrow> False
      | Some k \<Rightarrow> usable k \<and> sk_principal_id k = cl_issuer_id child
          \<and> sk_algorithm k = pr_algorithm p \<and> in_window k now
          \<and> KU_DELEGATION \<in> set (sk_usages k) \<and> cl_tenant_id parent = cl_tenant_id child)"

section \<open>The life of a key\<close>

text \<open>
  Every key of the ring is valid and filed under its id, with its identity and its status
  recorded; no key of the ring is retired.
\<close>

definition ring_inv :: "platform \<Rightarrow> key_ring \<Rightarrow> bool" where
  "ring_inv pf r =
     (\<forall>kid k. map_of (kr_keys r) kid = Some k \<longrightarrow>
        sk_kid k = kid \<and> check_key k = Inr k \<and> kid \<notin> set (kr_retired r)
        \<and> map_of (kr_identities r) kid = Some (key_identity pf k)
        \<and> map_of (kr_high_water r) kid = Some (sk_status k))"

inductive rotates :: "platform \<Rightarrow> key_ring \<Rightarrow> key_ring \<Rightarrow> bool" for pf where
  rotate: "replace_keys pf keys r = Inr r' \<Longrightarrow> rotates pf r r'"

inductive_cases rotatesE: "rotates pf r r'"

definition built_ring :: "platform \<Rightarrow> key_ring \<Rightarrow> bool" where
  "built_ring pf r = (\<exists>td pv keys. new_ring pf td pv keys = Inr r)"

definition keys_filed :: "(string, signing_key) dict \<Rightarrow> bool" where
  "keys_filed d = (distinct (dict_keys d)
     \<and> (\<forall>kid k. map_of d kid = Some k \<longrightarrow> sk_kid k = kid \<and> check_key k = Inr k))"

lemma normalize_filed: "normalize ks d = Inr d' \<Longrightarrow> keys_filed d \<Longrightarrow> keys_filed d'"
proof (induction ks d rule: normalize.induct)
  case (2 k ks d)
  then have k: "check_key k = Inr k" "sk_kid k \<notin> set (dict_keys d)"
      "normalize ks (dict_set (sk_kid k) k d) = Inr d'"
    by (auto simp: res_simps map_of_eq_None_iff dest: check_key_Inr split: if_splits)
  have "keys_filed (dict_set (sk_kid k) k d)"
    using 2(3) k(1,2) by (auto simp: keys_filed_def dict_simps split: if_splits)
  with 2(1) [OF k(1)] k show ?case by (simp add: map_of_eq_None_iff)
qed simp

text \<open>What one successful pass over distinct keys does to the record of one key id.\<close>

definition installed ::
  "platform \<Rightarrow> string list \<Rightarrow> (string, signing_key) dict
   \<Rightarrow> (string, string) dict \<Rightarrow> (string, key_status) dict
   \<Rightarrow> (string, string) dict \<Rightarrow> (string, key_status) dict \<Rightarrow> string \<Rightarrow> bool" where
  "installed pf retired d ids hw ids' hw' kid =
     (case map_of d kid of
        None \<Rightarrow> map_of ids' kid = map_of ids kid \<and> map_of hw' kid = map_of hw kid
      | Some k \<Rightarrow> kid \<notin> set retired \<and> map_of ids' kid = Some (key_identity pf k)
          \<and> map_of hw' kid = Some (sk_status k)
          \<and> map_of ids kid \<in> {None, Some (key_identity pf k)}
          \<and> (\<forall>s. map_of hw kid = Some s \<longrightarrow> status_order s \<le> status_order (sk_status k)))"

lemma install_result:
  "install pf retired d ids hw = Inr (ids', hw') \<Longrightarrow> distinct (dict_keys d) \<Longrightarrow>
     installed pf retired d ids hw ids' hw' kid'"
proof (induction pf retired d ids hw rule: install.induct)
  case (2 pf retired kid k ks ids hw)
  then have g: "kid \<notin> set retired"
      "map_of ids kid \<in> {None, Some (key_identity pf k)}"
      "\<forall>s. map_of hw kid = Some s \<longrightarrow> status_order s \<le> status_order (sk_status k)"
      "install pf retired ks (dict_set kid (key_identity pf k) ids)
         (dict_set kid (sk_status k) hw) = Inr (ids', hw')"
    by (auto simp: not_less split: if_splits option.splits)
  have "\<not> (case map_of hw kid of None \<Rightarrow> False
      | Some s \<Rightarrow> status_order (sk_status k) < status_order s)"
    using g(3) by (auto simp: not_less split: option.splits)
  then have rest: "installed pf retired ks (dict_set kid (key_identity pf k) ids)
      (dict_set kid (sk_status k) hw) ids' hw' kid'"
    using 2(1,3) g by auto
  have fresh: "map_of ks kid = None" using 2(3) by (simp add: map_of_eq_None_iff)
  show ?case
  proof (cases "kid' = kid")
    case True
    with rest fresh g(1-3) show ?thesis by (simp add: installed_def dict_simps)
  next
    case False
    with rest show ?thesis
      by (cases "map_of ks kid'") (simp_all add: installed_def dict_simps)
  qed
qed (simp add: installed_def)

lemma replace_keys_Inr:
  assumes "replace_keys pf keys r = Inr r'"
  obtains d ids hw where "keys_filed d" "kr_keys r' = d" "kr_identities r' = ids"
    "kr_high_water r' = hw"
    "kr_retired r' = kr_retired r @
       filter (\<lambda>kid. kid \<notin> set (dict_keys d)) (dict_keys (kr_keys r))"
    "install pf (kr_retired r') d (kr_identities r) (kr_high_water r) = Inr (ids, hw)"
    "kr_trust_domain r' = kr_trust_domain r" "kr_policy_version r' = kr_policy_version r"
proof -
  from assms obtain d where d: "normalize keys [] = Inr d"
    by (auto simp: replace_keys_def res_simps split: if_splits)
  moreover have "keys_filed d" using normalize_filed [OF d] by (simp add: keys_filed_def)
  ultimately show ?thesis using assms that
    by (auto simp: replace_keys_def res_simps Let_def split: if_splits)
qed

lemma replace_keys_inv:
  assumes "replace_keys pf keys r = Inr r'"
  shows "ring_inv pf r'"
  using assms
proof (rule replace_keys_Inr)
  fix d ids hw
  assume d: "keys_filed d" "kr_keys r' = d" "kr_identities r' = ids" "kr_high_water r' = hw"
    "install pf (kr_retired r') d (kr_identities r) (kr_high_water r) = Inr (ids, hw)"
  have "installed pf (kr_retired r') d (kr_identities r) (kr_high_water r) ids hw kid" for kid
    using install_result [OF d(5)] d(1) by (simp add: keys_filed_def)
  then show ?thesis using d(1)
    by (fastforce simp: ring_inv_def keys_filed_def d(2-4) installed_def split: option.splits)
qed

lemma built_ring_inv: "built_ring pf r \<Longrightarrow> ring_inv pf r"
  by (auto simp: built_ring_def new_ring_def intro: replace_keys_inv split: if_splits)

interpretation ring_sys: invariant_system "built_ring pf" "rotates pf" "ring_inv pf" for pf
  by unfold_locales (auto intro: built_ring_inv replace_keys_inv elim: rotatesE)

text \<open>
  How the record of one key id may develop: unknown ids may appear, the identity of a known id
  is fixed, its status only rises, and a retired id stays retired.
\<close>

definition key_history :: "key_ring \<Rightarrow> key_ring \<Rightarrow> bool" where
  "key_history r r' =
     (\<forall>kid. (map_of (kr_identities r) kid \<noteq> None \<longrightarrow>
               map_of (kr_identities r') kid = map_of (kr_identities r) kid)
        \<and> (\<forall>s. map_of (kr_high_water r) kid = Some s \<longrightarrow>
             (\<exists>s'. map_of (kr_high_water r') kid = Some s' \<and> status_order s \<le> status_order s'))
        \<and> (kid \<in> set (kr_retired r) \<longrightarrow> kid \<in> set (kr_retired r'))
        \<and> (map_of (kr_keys r) kid \<noteq> None \<longrightarrow>
             map_of (kr_keys r') kid \<noteq> None \<or> kid \<in> set (kr_retired r')))"

lemma replace_keys_history:
  assumes "replace_keys pf keys r = Inr r'"
  shows "key_history r r'"
  using assms
proof (rule replace_keys_Inr)
  fix d ids hw
  assume d: "keys_filed d" "kr_keys r' = d" "kr_identities r' = ids" "kr_high_water r' = hw"
    and ret: "kr_retired r' = kr_retired r @
       filter (\<lambda>kid. kid \<notin> set (dict_keys d)) (dict_keys (kr_keys r))"
    and inst: "install pf (kr_retired r') d (kr_identities r) (kr_high_water r) = Inr (ids, hw)"
  have res: "installed pf (kr_retired r') d (kr_identities r) (kr_high_water r) ids hw kid" for kid
    using install_result [OF inst] d(1) by (simp add: keys_filed_def)
  show ?thesis unfolding key_history_def d(2-4)
  proof (intro allI)
    fix kid
    show "(map_of (kr_identities r) kid \<noteq> None \<longrightarrow> map_of ids kid = map_of (kr_identities r) kid)
      \<and> (\<forall>s. map_of (kr_high_water r) kid = Some s \<longrightarrow>
           (\<exists>s'. map_of hw kid = Some s' \<and> status_order s \<le> status_order s'))
      \<and> (kid \<in> set (kr_retired r) \<longrightarrow> kid \<in> set (kr_retired r'))
      \<and> (map_of (kr_keys r) kid \<noteq> None \<longrightarrow> map_of d kid \<noteq> None \<or> kid \<in> set (kr_retired r'))"
      using res [of kid] ret map_of_in_keys [of "kr_keys r" kid]
      by (cases "map_of d kid") (auto simp: installed_def map_of_eq_None_iff)
  qed
qed

lemma key_history_refl: "key_history r r"
  by (auto simp: key_history_def)

lemma key_history_trans:
  assumes ab: "key_history a b" and bc: "key_history b c"
  shows "key_history a c"
  unfolding key_history_def
proof (intro allI conjI impI)
  fix kid
  show "map_of (kr_identities c) kid = map_of (kr_identities a) kid"
    if "map_of (kr_identities a) kid \<noteq> None"
    using that ab bc by (simp add: key_history_def)
  show "\<exists>s'. map_of (kr_high_water c) kid = Some s' \<and> status_order s \<le> status_order s'"
    if "map_of (kr_high_water a) kid = Some s" for s
  proof -
    from that ab obtain t where t: "map_of (kr_high_water b) kid = Some t"
      "status_order s \<le> status_order t" unfolding key_history_def by blast
    moreover from t bc obtain u where "map_of (kr_high_water c) kid = Some u"
      "status_order t \<le> status_order u" unfolding key_history_def by blast
    ultimately show ?thesis using le_trans by blast
  qed
  show "kid \<in> set (kr_retired c)" if "kid \<in> set (kr_retired a)"
    using that ab bc by (simp add: key_history_def)
  show "map_of (kr_keys c) kid \<noteq> None \<or> kid \<in> set (kr_retired c)"
    if "map_of (kr_keys a) kid \<noteq> None"
    using that ab bc unfolding key_history_def by blast
qed

lemma rotations_history:
  assumes "(rotates pf)\<^sup>*\<^sup>* r r'"
  shows "key_history r r'"
  using assms
  by (induction rule: rtranclp_induct)
    (auto intro: key_history_refl key_history_trans replace_keys_history elim: rotatesE)

text \<open>
  A key never rolls back. Along any sequence of rotations of a ring, a key id that is still
  served names the same principal, secret, validity, usages and tenants (its identity digest is
  unchanged), and its status has only moved on from active to verify-only to revoked.
\<close>

theorem key_never_rolls_back:
  assumes "reach (built_ring pf) (rotates pf) r" and "(rotates pf)\<^sup>*\<^sup>* r r'"
    and "map_of (kr_keys r) kid = Some k" and "map_of (kr_keys r') kid = Some k'"
  shows "key_identity pf k' = key_identity pf k
    \<and> status_order (sk_status k) \<le> status_order (sk_status k')"
proof -
  have "ring_inv pf r" "ring_inv pf r'"
    using assms(1,2) ring_sys.reach_inv ring_sys.steps_inv by blast+
  with rotations_history [OF assms(2)] assms(3,4) show ?thesis
    by (force simp: ring_inv_def key_history_def)
qed

lemma dead_stays_dead:
  assumes "ring_inv pf r" "ring_inv pf r'" "key_history r r'"
    and "kid \<in> set (kr_retired r) \<or> map_of (kr_high_water r) kid = Some KS_REVOKED"
    and "map_of (kr_keys r') kid = Some k"
  shows "sk_status k = KS_REVOKED"
proof -
  have "kid \<notin> set (kr_retired r')" "map_of (kr_high_water r') kid = Some (sk_status k)"
    using assms(2,5) by (auto simp: ring_inv_def)
  with assms(3,4) have "2 \<le> status_order (sk_status k)"
    by (fastforce simp: key_history_def)
  then show ?thesis by (cases "sk_status k") auto
qed

text \<open>
  Revocation and removal are final. Once a key of the ring is revoked, or a rotation has
  dropped it, no later rotation brings it back: nothing signed under that key id verifies, it
  signs nothing, and it authorises neither roots nor delegations.
\<close>

theorem revoked_key_is_dead:
  assumes "reach (built_ring pf) (rotates pf) r" and "(rotates pf)\<^sup>*\<^sup>* r r1"
    and "map_of (kr_keys r) kid = Some k"
    and "case map_of (kr_keys r1) kid of None \<Rightarrow> True | Some k1 \<Rightarrow> sk_status k1 = KS_REVOKED"
    and "(rotates pf)\<^sup>*\<^sup>* r1 r2" and "pr_kid p = kid"
  shows "\<not> ring_verify pf r2 p signer payload now
    \<and> (\<exists>e. ring_sign pf r2 kid signer payload now = Inl e)
    \<and> \<not> ring_authorize_root r2 p c now \<and> \<not> ring_authorize_delegation r2 p c c' now"
proof -
  have inv: "ring_inv pf r" "ring_inv pf r1" "ring_inv pf r2"
    using assms(1,2,5) ring_sys.reach_inv ring_sys.steps_inv by blast+
  have "kid \<in> set (kr_retired r1) \<or> map_of (kr_high_water r1) kid = Some KS_REVOKED"
  proof (cases "map_of (kr_keys r1) kid")
    case None
    with rotations_history [OF assms(2)] assms(3) show ?thesis by (auto simp: key_history_def)
  next
    case (Some k1)
    with inv(2) assms(4) show ?thesis by (auto simp: ring_inv_def)
  qed
  then have "sk_status k2 = KS_REVOKED" if "map_of (kr_keys r2) kid = Some k2" for k2
    using dead_stays_dead [OF inv(2,3) rotations_history [OF assms(5)]] that by blast
  then show ?thesis
    by (cases "map_of (kr_keys r2) kid")
      (auto simp: ring_verify_def ring_sign_def ring_authorize_root_def
        ring_authorize_delegation_def usable_def assms(6) split: option.splits)
qed

end
