(* ===== verification/Tenancy_Signing.thy ===== *)
theory Tenancy_Signing
  imports Tenancy_Keys
begin

text \<open>
  Signed envelopes: \<open>CapabilityEnvelope.signed\<close> over any proof signer, the contract between
  signing and verifying (locale \<open>proof_service\<close>, which the key ring meets), and the end-to-end
  property that what the service signs, the service accepts.
\<close>

record proof_signer =
  ps_trust_domain :: string
  ps_policy_version :: string
  ps_sign :: "string \<Rightarrow> string \<Rightarrow> json \<Rightarrow> int \<Rightarrow> cap_error + cap_proof"

text \<open>One proof per edge: the key ids, the parent and the remaining claims in step.\<close>

fun sign_edges ::
  "platform \<Rightarrow> proof_signer \<Rightarrow> string \<Rightarrow> int \<Rightarrow> string list \<Rightarrow> claims \<Rightarrow> claims list
   \<Rightarrow> cap_error + cap_proof list" where
  "sign_edges pf sg protocol now (kid # kids) parent (child # cs) =
     bind_res (ps_sign sg kid (cl_issuer_id child)
         (delegation_payload pf protocol (ps_trust_domain sg) (ps_policy_version sg) parent child)
         now) (\<lambda>p.
     bind_res (sign_edges pf sg protocol now kids child cs) (\<lambda>ps. Inr (p # ps)))"
| "sign_edges pf sg protocol now kids parent cs = Inr []"

definition signed ::
  "platform \<Rightarrow> proof_signer \<Rightarrow> claims list \<Rightarrow> string \<Rightarrow> string list \<Rightarrow> int \<Rightarrow> string
   \<Rightarrow> cap_error + cap_envelope" where
  "signed pf sg cs root_kid kids now protocol =
     (if length cs > 64 then Inl (CapValue ''capability claims'')
      else if cs = [] then Inl (CapType ''claims must contain CapabilityClaims'')
      else if length kids > 63 then Inl (CapValue ''delegation_kids'')
      else if Suc (length kids) \<noteq> length cs
        then Inl (CapValue ''delegation_kids must match delegation edge count'')
      else if \<not> require_text (ps_trust_domain sg) 512 then Inl (CapValue ''signer.trust_domain'')
      else if \<not> require_text (ps_policy_version sg) 512
        then Inl (CapValue ''signer.policy_version'')
      else bind_res (ps_sign sg root_kid (cl_issuer_id (hd cs))
             (root_payload pf protocol (ps_trust_domain sg) (ps_policy_version sg) (hd cs)) now)
        (\<lambda>root_proof.
      bind_res (sign_edges pf sg protocol now kids (hd cs) (tl cs)) (\<lambda>edges.
        let e = \<lparr>ce_protocol_version = protocol, ce_trust_domain = ps_trust_domain sg,
              ce_policy_version = ps_policy_version sg, ce_claims = cs,
              ce_root_proof = root_proof, ce_delegation_proofs = edges\<rparr>
        in if valid_cap_envelope e then Inr e else Inl (CapValue ''capability envelope''))))"

lemma signed_Inr:
  assumes "signed pf sg cs root_kid kids now protocol = Inr e"
  shows "\<exists>p ps. ps_sign sg root_kid (cl_issuer_id (hd cs)) (root_payload pf protocol
        (ps_trust_domain sg) (ps_policy_version sg) (hd cs)) now = Inr p
    \<and> sign_edges pf sg protocol now kids (hd cs) (tl cs) = Inr ps
    \<and> e = \<lparr>ce_protocol_version = protocol, ce_trust_domain = ps_trust_domain sg,
              ce_policy_version = ps_policy_version sg, ce_claims = cs,
              ce_root_proof = p, ce_delegation_proofs = ps\<rparr>
    \<and> valid_cap_envelope e"
proof (cases "ps_sign sg root_kid (cl_issuer_id (hd cs)) (root_payload pf protocol
        (ps_trust_domain sg) (ps_policy_version sg) (hd cs)) now")
  case (Inl x)
  with assms show ?thesis by (simp add: signed_def split: if_splits)
next
  case (Inr p)
  with assms show ?thesis
    by (cases "sign_edges pf sg protocol now kids (hd cs) (tl cs)")
      (simp_all add: signed_def Let_def split: if_splits)
qed

lemma chain_linked:
  assumes "validate_chain_structure pf v now cs = Inr ()"
  shows "linked pf (hd cs) (tl cs)"
proof (cases cs)
  case (Cons c rest)
  with assms have "validate_links pf v now None [] (c # rest) = Inr ()"
    by (simp add: validate_chain_structure_def split: if_splits)
  from validate_links_sound [OF this] Cons show ?thesis by simp
qed (use assms in \<open>simp add: validate_chain_structure_def\<close>)

section \<open>The contract of signing and verifying\<close>

text \<open>What the standard library guarantees of HMAC-SHA256: a 32-byte tag.\<close>

definition hmac_sized :: "platform \<Rightarrow> bool" where
  "hmac_sized pf = (\<forall>key message. length (pf_hmac pf key message) = 32)"

locale proof_service =
  fixes signer :: "platform \<Rightarrow> 'r \<Rightarrow> proof_signer"
    and checker :: "platform \<Rightarrow> 'r \<Rightarrow> proof_verifier"
    and good :: "platform \<Rightarrow> 'r \<Rightarrow> bool"
  assumes same_domain: "ps_trust_domain (signer pf r) = pv_trust_domain (checker pf r)"
    and same_policy: "ps_policy_version (signer pf r) = pv_policy_version (checker pf r)"
    and sign_verify: "hmac_sized pf \<Longrightarrow> good pf r \<Longrightarrow> ps_sign (signer pf r) kid s doc t = Inr p \<Longrightarrow>
      pv_verify (checker pf r) p s doc t = Some True"
    and sign_root: "good pf r \<Longrightarrow> ps_sign (signer pf r) kid (cl_issuer_id c) (root_payload pf v d pol c) t = Inr p
      \<Longrightarrow> pv_authorize_root (checker pf r) p c t = Some True"
    and sign_delegation: "good pf r \<Longrightarrow> ps_sign (signer pf r) kid (cl_issuer_id c)
        (delegation_payload pf v d pol parent c) t = Inr p \<Longrightarrow>
      cl_tenant_id parent = cl_tenant_id c \<Longrightarrow>
      pv_authorize_delegation (checker pf r) p parent c t = Some True"
begin

lemma signed_edges_verify:
  "sign_edges pf (signer pf r) (ce_protocol_version e) now kids parent cs = Inr ps \<Longrightarrow>
   hmac_sized pf \<Longrightarrow> good pf r \<Longrightarrow> vf_proof_verifier v = checker pf r \<Longrightarrow> linked pf parent cs \<Longrightarrow>
   ce_trust_domain e = ps_trust_domain (signer pf r) \<Longrightarrow>
   ce_policy_version e = ps_policy_version (signer pf r) \<Longrightarrow>
   verify_edges pf v now e ps parent cs = Inr ()"
proof (induction pf "signer pf r" "ce_protocol_version e" now kids parent cs
    arbitrary: ps rule: sign_edges.induct)
  case (1 pf now kid kids parent child cs)
  from "1.prems"(5) have "cl_tenant_id parent = cl_tenant_id child"
    using validate_delegation_inside [of pf parent child] inside_same_tenant [of child parent]
    by simp
  with 1 show ?case
    by (auto simp: res_simps trusted_Inr intro: sign_verify sign_delegation)
qed simp_all

lemma sign_then_verify:
  assumes sgn: "signed pf (signer pf r) cs root_kid kids now capability_protocol_version = Inr e"
    and pf: "hmac_sized pf" "good pf r"
    and v: "vf_proof_verifier v = checker pf r" "check_verifier v = Inr v"
    and chain: "validate_chain_structure pf v now cs = Inr ()"
    and live: "now < cl_expires_at (last cs)"
  shows "\<exists>vc. verify pf v e now allow = Inr vc \<and> vc_envelope vc = e"
proof -
  have linked: "linked pf (hd cs) (tl cs)"
    using chain by (rule chain_linked)
  from sgn obtain p ps where
    p: "ps_sign (signer pf r) root_kid (cl_issuer_id (hd cs)) (root_payload pf
        capability_protocol_version (ps_trust_domain (signer pf r))
        (ps_policy_version (signer pf r)) (hd cs)) now = Inr p"
    and ps: "sign_edges pf (signer pf r) capability_protocol_version now kids (hd cs) (tl cs) = Inr ps"
    and e: "ce_protocol_version e = capability_protocol_version"
      "ce_trust_domain e = ps_trust_domain (signer pf r)"
      "ce_policy_version e = ps_policy_version (signer pf r)"
      "ce_claims e = cs" "ce_root_proof e = p" "ce_delegation_proofs e = ps"
    and valid: "valid_cap_envelope e"
    using signed_Inr [OF sgn] by auto
  have dom: "ps_trust_domain (signer pf r) = vf_trust_domain v"
    "ps_policy_version (signer pf r) = vf_policy_version v"
    using v by (auto simp: check_verifier_def same_domain same_policy split: if_splits)
  have edges: "verify_edges pf v now e ps (hd cs) (tl cs) = Inr ()"
    using signed_edges_verify [of pf r e now kids "hd cs" "tl cs" ps v] ps pf v(1) linked e
    by simp
  have "Suc (length ps) = length cs" using valid e by (simp add: valid_cap_envelope_def)
  then show ?thesis
    using valid chain live edges sign_verify [OF pf p] sign_root [OF pf(2) p] e
    by (simp add: verify_def dom v(1) Let_def trusted_def)
qed

end

section \<open>The key ring as a proof service\<close>

definition ring_signer :: "platform \<Rightarrow> key_ring \<Rightarrow> proof_signer" where
  "ring_signer pf r = \<lparr>ps_trust_domain = kr_trust_domain r,
     ps_policy_version = kr_policy_version r, ps_sign = ring_sign pf r\<rparr>"

definition ring_checker :: "platform \<Rightarrow> key_ring \<Rightarrow> proof_verifier" where
  "ring_checker pf r = \<lparr>pv_trust_domain = kr_trust_domain r,
     pv_policy_version = kr_policy_version r,
     pv_verify = \<lambda>p s doc t. Some (ring_verify pf r p s doc t),
     pv_authorize_root = \<lambda>p c t. Some (ring_authorize_root r p c t),
     pv_authorize_delegation = \<lambda>p c d t. Some (ring_authorize_delegation r p c d t)\<rparr>"

text \<open>Keys are filed under their own id; this holds of every ring the code can build.\<close>

lemma tenant_in_payload:
  "obj_field (claims_to_dict pf c) ''resource'' = Some (resource_scope_to_dict (cl_resource c))"
  "str_field (resource_scope_to_dict s) ''tenantId'' = Some (rs_tenant_id s)"
  by (simp_all add: claims_to_dict_def claim_fields_def resource_scope_to_dict_def)

lemma root_usage:
  "payload_usage_allowed k (root_payload pf v d pol c) \<Longrightarrow>
     KU_ROOT \<in> set (sk_usages k) \<and> cl_tenant_id c \<in> set (sk_root_tenants k)"
  using tenant_in_payload(1) [of pf c]
  by (auto simp: payload_usage_allowed_def root_payload_def tenant_in_payload(2) cl_tenant_id_def
      claims_to_dict_def split: option.splits if_splits)

lemma delegation_usage:
  "payload_usage_allowed k (delegation_payload pf v d pol parent c) \<Longrightarrow>
     KU_DELEGATION \<in> set (sk_usages k)"
  by (auto simp: payload_usage_allowed_def delegation_payload_def
      split: option.splits if_splits)

lemma ring_sign_Inr:
  assumes "ring_sign pf r kid s doc t = Inr p"
  obtains k where "map_of (kr_keys r) kid = Some k" "sk_status k = KS_ACTIVE"
    "sk_principal_id k = s" "in_window k t" "payload_usage_allowed k doc"
    "pr_kid p = sk_kid k" "pr_algorithm p = sk_algorithm k"
    "pr_signature p = encode_signature (pf_hmac pf (sk_secret k)
       (proof_message pf (sk_kid k) (sk_algorithm k) doc))"
  using assms by (auto simp: ring_sign_def Let_def split: option.splits if_splits)

lemma ring_sign_verifies:
  assumes "hmac_sized pf" "ring_inv pf r" "ring_sign pf r kid s doc t = Inr p"
  shows "ring_verify pf r p s doc t"
proof -
  from ring_sign_Inr [OF assms(3)] obtain k where
    k: "map_of (kr_keys r) kid = Some k" "sk_status k = KS_ACTIVE" "sk_principal_id k = s"
      "in_window k t" "payload_usage_allowed k doc" "pr_kid p = sk_kid k"
      "pr_algorithm p = sk_algorithm k"
      "pr_signature p = encode_signature (pf_hmac pf (sk_secret k)
         (proof_message pf (sk_kid k) (sk_algorithm k) doc))" by metis
  have "sk_kid k = kid" using assms(2) k(1) by (simp add: ring_inv_def)
  moreover have "decode_signature (pr_signature p) = Some (pf_hmac pf (sk_secret k)
         (proof_message pf (sk_kid k) (sk_algorithm k) doc))"
    using assms(1) by (simp add: k(8) decode_encode hmac_sized_def)
  ultimately show ?thesis using k by (simp add: ring_verify_def usable_def)
qed

interpretation ring_service: proof_service ring_signer ring_checker ring_inv
proof
  show "pv_authorize_root (ring_checker pf r) p c t = Some True"
    if "ring_inv pf r" "ps_sign (ring_signer pf r) kid (cl_issuer_id c)
       (root_payload pf v d pol c) t = Inr p" for pf r kid c v d pol t p
  proof -
    have "ring_sign pf r kid (cl_issuer_id c) (root_payload pf v d pol c) t = Inr p"
      using that(2) by (simp add: ring_signer_def)
    from ring_sign_Inr [OF this] obtain k where k: "map_of (kr_keys r) kid = Some k"
      "sk_status k = KS_ACTIVE" "sk_principal_id k = cl_issuer_id c" "in_window k t"
      "payload_usage_allowed k (root_payload pf v d pol c)" "pr_kid p = sk_kid k"
      "pr_algorithm p = sk_algorithm k" by metis
    moreover have "sk_kid k = kid" using that(1) k(1) by (simp add: ring_inv_def)
    ultimately show ?thesis using root_usage [OF k(5)]
      by (simp add: ring_checker_def ring_authorize_root_def usable_def)
  qed
  show "pv_authorize_delegation (ring_checker pf r) p parent c t = Some True"
    if "ring_inv pf r" "ps_sign (ring_signer pf r) kid (cl_issuer_id c)
       (delegation_payload pf v d pol parent c) t = Inr p"
      "cl_tenant_id parent = cl_tenant_id c" for pf r kid c v d pol t p parent
  proof -
    have "ring_sign pf r kid (cl_issuer_id c) (delegation_payload pf v d pol parent c) t = Inr p"
      using that(2) by (simp add: ring_signer_def)
    from ring_sign_Inr [OF this] obtain k where k: "map_of (kr_keys r) kid = Some k"
      "sk_status k = KS_ACTIVE" "sk_principal_id k = cl_issuer_id c" "in_window k t"
      "payload_usage_allowed k (delegation_payload pf v d pol parent c)" "pr_kid p = sk_kid k"
      "pr_algorithm p = sk_algorithm k" by metis
    moreover have "sk_kid k = kid" using that(1) k(1) by (simp add: ring_inv_def)
    ultimately show ?thesis using delegation_usage [OF k(5)] that(3)
      by (simp add: ring_checker_def ring_authorize_delegation_def usable_def)
  qed
qed (auto simp: ring_signer_def ring_checker_def intro: ring_sign_verifies)

text \<open>
  C39. What the service signs, the service accepts: an envelope that the key ring signs over a
  structurally valid, unexpired chain is verified by every verifier of the same trust domain
  and policy that uses the ring, at the same instant.
\<close>

theorem signed_envelope_verifies:
  assumes "signed pf (ring_signer pf r) cs root_kid kids now capability_protocol_version = Inr e"
    and "hmac_sized pf" and "reach (built_ring pf) (rotates pf) r"
    and "vf_proof_verifier v = ring_checker pf r" and "check_verifier v = Inr v"
    and "validate_chain_structure pf v now cs = Inr ()" and "now < cl_expires_at (last cs)"
  shows "\<exists>vc. verify pf v e now allow = Inr vc \<and> vc_envelope vc = e"
  by (rule ring_service.sign_then_verify
      [OF assms(1,2) ring_sys.reach_inv [OF assms(3)] assms(4-7)])

section \<open>A concrete ring\<close>

definition sample_key :: "string \<Rightarrow> key_status \<Rightarrow> key_usage list \<Rightarrow> string list \<Rightarrow> signing_key" where
  "sample_key kid st us ts = \<lparr>sk_kid = kid, sk_principal_id = kid,
     sk_secret = replicate 32 (CHR ''s''), sk_not_before = 0, sk_expires_at = 1000,
     sk_status = st, sk_usages = us, sk_root_tenants = ts, sk_algorithm = ''HS256''\<rparr>"

definition sample_keys :: "key_status \<Rightarrow> signing_key list" where
  "sample_keys st = [sample_key ''a'' st [KU_ROOT, KU_DELEGATION] [''a''],
     sample_key ''b'' st [KU_DELEGATION] []]"

definition sample_ring :: "key_status \<Rightarrow> key_ring" where
  "sample_ring st = \<lparr>kr_trust_domain = ''a'', kr_policy_version = ''b'',
     kr_keys = map (\<lambda>k. (sk_kid k, k)) (sample_keys st),
     kr_identities = [(''a'', replicate 64 (CHR ''0'')), (''b'', replicate 64 (CHR ''0''))],
     kr_high_water = [(''a'', st), (''b'', st)], kr_retired = []\<rparr>"

lemma sample_keys_normalize:
  "normalize (sample_keys st) [] = Inr (map (\<lambda>k. (sk_kid k, k)) (sample_keys st))"
  by (simp add: sample_keys_def check_key_def sample_key_def sample_texts)

lemma sample_identity: "key_identity sample_platform k = replicate 64 (CHR ''0'')"
  by (simp add: key_identity_def canonical_digest_def sample_platform_def)

lemma sample_ring_built: "reach (built_ring sample_platform) (rotates sample_platform) (sample_ring st)"
proof (rule reach_init)
  have "new_ring sample_platform ''a'' ''b'' (sample_keys st) = Inr (sample_ring st)"
    using sample_keys_normalize [of st]
    by (simp add: new_ring_def replace_keys_def sample_ring_def sample_identity require_text_def
        blank_iff py_strip_def py_space_def) (simp add: sample_keys_def sample_key_def sample_identity)
  then show "built_ring sample_platform (sample_ring st)" unfolding built_ring_def by blast
qed

lemma sample_ring_rotates:
  assumes "status_order st \<le> status_order st'"
  shows "(rotates sample_platform)\<^sup>*\<^sup>* (sample_ring st) (sample_ring st')"
proof -
  have "replace_keys sample_platform (sample_keys st') (sample_ring st) = Inr (sample_ring st')"
    using assms sample_keys_normalize [of st']
    by (simp add: replace_keys_def sample_identity)
      (simp add: sample_ring_def sample_keys_def sample_key_def sample_identity)
  then show ?thesis by (blast intro: rotate)
qed

lemma sample_ring_key: "map_of (kr_keys (sample_ring st)) ''b'' = Some (sample_key ''b'' st [KU_DELEGATION] [])"
  by (simp add: sample_ring_def sample_keys_def sample_key_def)

theorem key_never_rolls_back_witness:
  "key_identity sample_platform (sample_key ''b'' KS_VERIFY_ONLY [KU_DELEGATION] [])
     = key_identity sample_platform (sample_key ''b'' KS_ACTIVE [KU_DELEGATION] [])
   \<and> status_order KS_ACTIVE \<le> status_order KS_VERIFY_ONLY"
  using key_never_rolls_back [OF sample_ring_built sample_ring_rotates sample_ring_key
      sample_ring_key, of KS_ACTIVE KS_VERIFY_ONLY]
  by (simp add: sample_key_def)

theorem revoked_key_is_dead_witness:
  "\<not> ring_verify sample_platform (sample_ring KS_REVOKED)
     \<lparr>pr_kid = ''b'', pr_algorithm = ''HS256'', pr_signature = []\<rparr> ''b'' JNull 5"
  using revoked_key_is_dead [OF sample_ring_built sample_ring_rotates sample_ring_key _
      rtranclp.rtrancl_refl, of KS_ACTIVE KS_REVOKED
      "\<lparr>pr_kid = ''b'', pr_algorithm = ''HS256'', pr_signature = []\<rparr>"]
  by (simp add: sample_ring_key sample_key_def)

definition sample_ring_verifier :: verifier where
  "sample_ring_verifier =
     sample_verifier\<lparr>vf_proof_verifier := ring_checker sample_platform (sample_ring KS_ACTIVE)\<rparr>"

lemma sample_usage:
  "payload_usage_allowed (sample_key ''a'' st [KU_ROOT, KU_DELEGATION] [''a''])
     (root_payload sample_platform v d pol sample_root)"
  "payload_usage_allowed (sample_key ''b'' st [KU_DELEGATION] [])
     (delegation_payload sample_platform v d pol parent sample_child)"
  by (simp_all add: payload_usage_allowed_def root_payload_def delegation_payload_def
      strict_object_def claims_to_dict_def claim_fields_def resource_scope_to_dict_def
      sample_key_def sample_root_def sample_child_def sample_scope_def sample_texts)

lemma sample_hmac: "hmac_sized sample_platform"
  by (simp add: hmac_sized_def sample_platform_def)

lemma sample_sign:
  assumes "map_of (kr_keys (sample_ring KS_ACTIVE)) kid = Some (sample_key kid KS_ACTIVE us ts)"
    and "opaque_id kid" and "payload_usage_allowed (sample_key kid KS_ACTIVE us ts) doc"
  shows "ring_sign sample_platform (sample_ring KS_ACTIVE) kid kid doc 10 =
    Inr \<lparr>pr_kid = kid, pr_algorithm = ''HS256'',
          pr_signature = encode_signature (replicate 32 (CHR ''A''))\<rparr>"
  using assms
  by (simp add: ring_sign_def in_window_def Let_def valid_proof_def decode_encode
      algorithm_text_def code_in_def is_digit_def sample_key_def sample_platform_def)

lemma sample_signed:
  "\<exists>e. signed sample_platform (ring_signer sample_platform (sample_ring KS_ACTIVE))
     [sample_root, sample_child] ''a'' [''b''] 10 capability_protocol_version = Inr e"
proof -
  have a: "map_of (kr_keys (sample_ring KS_ACTIVE)) ''a'' =
      Some (sample_key ''a'' KS_ACTIVE [KU_ROOT, KU_DELEGATION] [''a''])"
    by (simp add: sample_ring_def sample_keys_def sample_key_def)
  have ids: "cl_issuer_id sample_root = ''a''" "cl_issuer_id sample_child = ''b''"
    by (simp_all add: sample_root_def sample_child_def)
  have p: "valid_proof \<lparr>pr_kid = x, pr_algorithm = ''HS256'',
          pr_signature = encode_signature (replicate 32 (CHR ''A''))\<rparr>" if "opaque_id x" for x
    using that by (simp add: valid_proof_def decode_encode algorithm_text_def code_in_def is_digit_def)
  show ?thesis
    using sample_sign [OF a sample_texts(1) sample_usage(1)]
      sample_sign [OF sample_ring_key sample_texts(2) sample_usage(2)]
    by (simp add: signed_def ring_signer_def ids require_text_def blank_iff py_strip_def
        py_space_def valid_cap_envelope_def sample_claims_valid p sample_texts
        capability_protocol_version_def sample_ring_def)
qed

theorem signed_envelope_verifies_witness:
  "\<exists>e vc. verify sample_platform sample_ring_verifier e 10 False = Inr vc"
proof -
  obtain e where e: "signed sample_platform
      (ring_signer sample_platform (sample_ring KS_ACTIVE))
      [sample_root, sample_child] ''a'' [''b''] 10 capability_protocol_version = Inr e"
    using sample_signed by blast
  have "check_verifier sample_ring_verifier = Inr sample_ring_verifier"
    by (simp add: sample_ring_verifier_def sample_verifier_def check_verifier_def ring_checker_def
        sample_ring_def require_text_def blank_iff py_strip_def py_space_def)
  moreover have "validate_chain_structure sample_platform sample_ring_verifier 10
      [sample_root, sample_child] = Inr ()"
    by (rule sample_chain) (simp_all add: sample_ring_verifier_def sample_verifier_def)
  moreover have "vf_proof_verifier sample_ring_verifier =
      ring_checker sample_platform (sample_ring KS_ACTIVE)" "10 < cl_expires_at sample_child"
    by (simp_all add: sample_ring_verifier_def sample_child_def)
  ultimately show ?thesis
    using signed_envelope_verifies [OF e sample_hmac sample_ring_built, of sample_ring_verifier False]
    by auto
qed

end
