(* ===== verification/Tenancy_Revocation.thy ===== *)
theory Tenancy_Revocation
  imports Tenancy_Capability
begin

text \<open>
  Revocation snapshots and the two revision guards of \<open>tenancy.py\<close>, the in-memory one and the
  SQLite one, with the contract both meet (locale \<open>revision_guard\<close>). A frozen set of revocation
  ids is a list read as a set. The rows of the guard's table are a dict by its primary key; a
  transaction that raises leaves the table as it was.
\<close>

section \<open>Snapshots\<close>

record rev_snapshot =
  sn_tenant_id :: string
  sn_revision :: int
  sn_captured_at :: int
  sn_revoked_ids :: "rev_id list"

definition valid_rev_snapshot :: "rev_snapshot \<Rightarrow> bool" where
  "valid_rev_snapshot s =
     (opaque_id (sn_tenant_id s) \<and> 0 \<le> sn_revision s
      \<and> length (remdups (sn_revoked_ids s)) \<le> 10000
      \<and> list_all (\<lambda>(t, i, n). opaque_id i \<and> nonce_text n \<and> t = sn_tenant_id s)
          (sn_revoked_ids s))"

definition empty_snapshot :: "string \<Rightarrow> int \<Rightarrow> int \<Rightarrow> rev_snapshot" where
  "empty_snapshot tenant captured_at revision = \<lparr>sn_tenant_id = tenant, sn_revision = revision,
     sn_captured_at = captured_at, sn_revoked_ids = []\<rparr>"

definition snapshot_contains :: "rev_snapshot \<Rightarrow> rev_id \<Rightarrow> bool" where
  "snapshot_contains s r = (r \<in> set (sn_revoked_ids s))"

fun revocation_id_to_dict :: "rev_id \<Rightarrow> json" where
  "revocation_id_to_dict (t, i, n) =
     JObj [(''tenantId'', JStr t), (''issuerId'', JStr i), (''nonce'', JStr n)]"

definition sorted_revoked_ids :: "rev_snapshot \<Rightarrow> rev_id list" where
  "sorted_revoked_ids s = sort_key (\<lambda>(t, i, n). [t, i, n]) (remdups (sn_revoked_ids s))"

definition state_digest :: "platform \<Rightarrow> rev_snapshot \<Rightarrow> string" where
  "state_digest pf s = canonical_digest pf (JObj
     [(''tenantId'', JStr (sn_tenant_id s)), (''revision'', JInt (sn_revision s)),
      (''revokedIds'', JArr (map revocation_id_to_dict (sorted_revoked_ids s)))])"

definition rev_snapshot_to_dict :: "platform \<Rightarrow> rev_snapshot \<Rightarrow> json" where
  "rev_snapshot_to_dict pf s = JObj
     [(''tenantId'', JStr (sn_tenant_id s)), (''revision'', JInt (sn_revision s)),
      (''capturedAt'', JStr (pf_time_text pf (sn_captured_at s))),
      (''revokedIds'', JArr (map revocation_id_to_dict (sorted_revoked_ids s)))]"

section \<open>Guards\<close>

datatype guard_error = GuardValue string | GuardIntegrity string | GuardOverflow

type_synonym high_water = "(string, int \<times> string) dict"

definition mem_check ::
  "high_water \<Rightarrow> string \<Rightarrow> int \<Rightarrow> string \<Rightarrow> (guard_error + bool) \<times> high_water" where
  "mem_check hw t n d =
     (if n < 0 then (Inl (GuardValue ''revision cannot be negative''), hw)
      else if \<not> sha256_text d
        then (Inl (GuardValue ''state_digest must be a lower-case SHA-256 digest''), hw)
      else (case map_of hw t of
          None \<Rightarrow> (Inr True, dict_set t (n, d) hw)
        | Some (m, e) \<Rightarrow>
            if n < m then (Inr False, hw)
            else if n = m then (Inr (d = e), hw)
            else (Inr True, dict_set t (n, d) hw)))"

record sqlite_guard =
  sg_schema :: bool
  sg_rows :: high_water

definition valid_row :: "string \<Rightarrow> int \<times> string \<Rightarrow> bool" where
  "valid_row t r = (opaque_id t \<and> 0 \<le> fst r \<and> sha256_text (snd r))"

text \<open>
  Opening the database: a missing table is created, then the schema and every row are checked.
  The argument is what the file holds: no table, or a table that has or has not the owned
  definition, with its rows.
\<close>

definition sqlite_open :: "sqlite_guard option \<Rightarrow> guard_error + sqlite_guard" where
  "sqlite_open stored =
     (let g = (case stored of None \<Rightarrow> \<lparr>sg_schema = True, sg_rows = []\<rparr> | Some g \<Rightarrow> g) in
      if \<not> sg_schema g
        then Inl (GuardIntegrity ''schema does not match the owned definition'')
      else if \<not> list_all (\<lambda>(t, r). valid_row t r) (sg_rows g)
        then Inl (GuardIntegrity ''invalid row'')
      else Inr g)"

text \<open>The SQLite INTEGER is 64 bits wide: binding a larger Python integer raises.\<close>

definition sqlite_max :: int where
  "sqlite_max = 2 ^ 63 - 1"

definition persisted :: "high_water \<Rightarrow> string \<Rightarrow> int \<Rightarrow> string \<Rightarrow> bool" where
  "persisted rows t n d =
     (case map_of rows t of None \<Rightarrow> False | Some r \<Rightarrow> valid_row t r \<and> r = (n, d))"

text \<open>\<open>UPDATE ... WHERE tenant_id = ? AND revision = ? AND state_digest = ?\<close> and its row count.\<close>

definition matching :: "string \<Rightarrow> int \<times> string \<Rightarrow> string \<times> int \<times> string \<Rightarrow> bool" where
  "matching t old row = (fst row = t \<and> snd row = old)"

definition update_rows ::
  "high_water \<Rightarrow> string \<Rightarrow> int \<times> string \<Rightarrow> int \<times> string \<Rightarrow> nat \<times> high_water" where
  "update_rows rows t old new =
     (length (filter (matching t old) rows),
      map (\<lambda>row. if matching t old row then (t, new) else row) rows)"

definition sqlite_check ::
  "sqlite_guard \<Rightarrow> string \<Rightarrow> int \<Rightarrow> string \<Rightarrow> (guard_error + bool) \<times> sqlite_guard" where
  "sqlite_check g t n d =
     (if n < 0 then (Inl (GuardValue ''revision cannot be negative''), g)
      else if \<not> sha256_text d
        then (Inl (GuardValue ''state_digest must be a lower-case SHA-256 digest''), g)
      else if \<not> sg_schema g
        then (Inl (GuardIntegrity ''schema does not match the owned definition''), g)
      else (case map_of (sg_rows g) t of
          None \<Rightarrow>
            if n > sqlite_max then (Inl GuardOverflow, g)
            else let rows = sg_rows g @ [(t, n, d)] in
              if persisted rows t n d then (Inr True, g\<lparr>sg_rows := rows\<rparr>)
              else (Inl (GuardIntegrity ''write failed its persisted postcondition''), g)
        | Some (m, e) \<Rightarrow>
            if \<not> valid_row t (m, e) then (Inl (GuardIntegrity ''invalid row''), g)
            else if n < m then (Inr False, g)
            else if n = m then (Inr (d = e), g)
            else if n > sqlite_max then (Inl GuardOverflow, g)
            else (case update_rows (sg_rows g) t (m, e) (n, d) of (count, rows) \<Rightarrow>
              if count \<noteq> 1
                then (Inl (GuardIntegrity ''compare-and-set lost its locked row''), g)
              else if persisted rows t n d then (Inr True, g\<lparr>sg_rows := rows\<rparr>)
              else (Inl (GuardIntegrity ''write failed its persisted postcondition''), g))))"

section \<open>The contract of a guard\<close>

text \<open>
  What \<open>evaluate\<close> relies on: an accepted observation is not older than the recorded one of its
  tenant, agrees with it when the revision is the same, and becomes the recorded one; anything
  else leaves the record.
\<close>

definition no_rollback :: "int \<times> string \<Rightarrow> int \<times> string \<Rightarrow> bool" where
  "no_rollback old new = (fst old \<le> fst new \<and> (fst old = fst new \<longrightarrow> snd old = snd new))"

lemma no_rollback_trans: "no_rollback a b \<Longrightarrow> no_rollback b c \<Longrightarrow> no_rollback a c"
  by (auto simp: no_rollback_def)

type_synonym observation = "string \<times> int \<times> string"

text \<open>The observations a guard accepts when asked about a list of them, in order.\<close>

fun accepted_run ::
  "('g \<Rightarrow> string \<Rightarrow> int \<Rightarrow> string \<Rightarrow> (guard_error + bool) \<times> 'g) \<Rightarrow> 'g \<Rightarrow> observation list
   \<Rightarrow> observation list" where
  "accepted_run check g [] = []"
| "accepted_run check g ((t, n, d) # obs) =
     (if fst (check g t n d) = Inr True then [(t, n, d)] else [])
       @ accepted_run check (snd (check g t n d)) obs"

definition ordered_observation :: "observation \<Rightarrow> observation \<Rightarrow> bool" where
  "ordered_observation a b = (fst a = fst b \<longrightarrow> no_rollback (snd a) (snd b))"

locale revision_guard =
  fixes check :: "'g \<Rightarrow> string \<Rightarrow> int \<Rightarrow> string \<Rightarrow> (guard_error + bool) \<times> 'g"
    and view :: "'g \<Rightarrow> string \<Rightarrow> (int \<times> string) option"
    and sound :: "'g \<Rightarrow> bool"
  assumes check_sound: "sound g \<Longrightarrow> opaque_id t \<Longrightarrow> check g t n d = (r, g') \<Longrightarrow> sound g'"
    and accepted: "sound g \<Longrightarrow> opaque_id t \<Longrightarrow> check g t n d = (Inr True, g') \<Longrightarrow>
      view g' = (view g)(t \<mapsto> (n, d)) \<and> (\<forall>old. view g t = Some old \<longrightarrow> no_rollback old (n, d))"
    and refused: "sound g \<Longrightarrow> opaque_id t \<Longrightarrow> check g t n d = (r, g') \<Longrightarrow> r \<noteq> Inr True \<Longrightarrow>
      view g' = view g"
begin

lemma accepted_view:
  "sound g \<Longrightarrow> opaque_id t \<Longrightarrow> check g t n d = (Inr True, g') \<Longrightarrow> view g' = (view g)(t \<mapsto> (n, d))"
  using accepted by blast

lemma accepted_newer:
  "sound g \<Longrightarrow> opaque_id t \<Longrightarrow> check g t n d = (Inr True, g') \<Longrightarrow> view g t = Some old \<Longrightarrow>
     no_rollback old (n, d)"
  using accepted by blast

lemma view_mono:
  assumes "sound g" "opaque_id t" "check g t n d = (r, g')" "view g u = Some old"
  shows "\<exists>new. view g' u = Some new \<and> no_rollback old new"
proof (cases "r = Inr True")
  case True
  with accepted_view [OF assms(1,2)] accepted_newer [OF assms(1,2)] assms(3,4) show ?thesis
    by (cases "u = t") (auto simp: no_rollback_def)
next
  case False
  with refused assms show ?thesis by (auto simp: no_rollback_def)
qed

lemma accepted_after:
  "sound g \<Longrightarrow> \<forall>(t, n, d) \<in> set obs. opaque_id t \<Longrightarrow> view g u = Some old \<Longrightarrow>
   (u, n', d') \<in> set (accepted_run check g obs) \<Longrightarrow> no_rollback old (n', d')"
proof (induction obs arbitrary: g old)
  case (Cons ob obs)
  obtain t n d where ob: "ob = (t, n, d)" by (cases ob)
  obtain r g' where step: "check g t n d = (r, g')" by fastforce
  have t: "opaque_id t" and obs: "\<forall>(t, n, d) \<in> set obs. opaque_id t"
    using Cons.prems(2) by (auto simp: ob)
  note g' = check_sound [OF Cons.prems(1) t step]
  obtain mid where mid: "view g' u = Some mid" "no_rollback old mid"
    using view_mono [OF Cons.prems(1) t step Cons.prems(3)] by blast
  from Cons.prems(4) consider "r = Inr True" "u = t" "n' = n" "d' = d"
    | "(u, n', d') \<in> set (accepted_run check g' obs)"
    by (auto simp: ob step split: if_splits)
  then show ?case
  proof cases
    case 1
    with accepted_newer [OF Cons.prems(1) t] step Cons.prems(3) show ?thesis by blast
  next
    case 2
    then have "no_rollback mid (n', d')" using Cons.IH g' obs mid(1) by blast
    with mid(2) show ?thesis by (rule no_rollback_trans)
  qed
qed simp

lemma accepted_ordered:
  "sound g \<Longrightarrow> \<forall>(t, n, d) \<in> set obs. opaque_id t \<Longrightarrow>
   sorted_wrt ordered_observation (accepted_run check g obs)"
proof (induction obs arbitrary: g)
  case (Cons ob obs)
  obtain t n d where ob: "ob = (t, n, d)" by (cases ob)
  obtain r g' where step: "check g t n d = (r, g')" by fastforce
  have t: "opaque_id t" and obs: "\<forall>(t, n, d) \<in> set obs. opaque_id t"
    using Cons.prems(2) by (auto simp: ob)
  note g' = check_sound [OF Cons.prems(1) t step]
  have "ordered_observation (t, n, d) b"
    if "r = Inr True" "b \<in> set (accepted_run check g' obs)" for b
  proof -
    have "view g' t = Some (n, d)" using accepted_view [OF Cons.prems(1) t] step that(1) by simp
    with accepted_after [OF g' obs] that(2) show ?thesis
      by (cases b) (auto simp: ordered_observation_def)
  qed
  moreover have "sorted_wrt ordered_observation (accepted_run check g' obs)"
    using Cons.IH g' obs by blast
  ultimately show ?case by (simp add: ob step)
qed simp

end

lemma mem_check_cases:
  "mem_check hw t n d = (r, hw') \<Longrightarrow>
     (r = Inr True \<and> (hw' = dict_set t (n, d) hw \<or> hw' = hw \<and> map_of hw t = Some (n, d))
        \<and> (\<forall>old. map_of hw t = Some old \<longrightarrow> no_rollback old (n, d)))
     \<or> (r \<noteq> Inr True \<and> hw' = hw)"
  by (auto simp: mem_check_def no_rollback_def split: if_splits option.splits)

interpretation mem_guard: revision_guard mem_check map_of "\<lambda>_. True"
proof
  show "map_of g' = (map_of g)(t \<mapsto> (n, d))
      \<and> (\<forall>old. map_of g t = Some old \<longrightarrow> no_rollback old (n, d))"
    if "mem_check g t n d = (Inr True, g')" for g t n d g'
    using mem_check_cases [OF that] by (auto simp: dict_simps)
  show "map_of g' = map_of g" if "mem_check g t n d = (r, g')" "r \<noteq> Inr True" for g t n d r g'
    using mem_check_cases [OF that(1)] that(2) by auto
qed simp

definition sqlite_sound :: "sqlite_guard \<Rightarrow> bool" where
  "sqlite_sound g = (sg_schema g \<and> distinct (dict_keys (sg_rows g))
     \<and> list_all (\<lambda>(t, r). valid_row t r) (sg_rows g))"

lemma update_rows_dict:
  assumes "distinct (dict_keys rows)" "map_of rows t = Some old"
  shows "update_rows rows t old new = (1, dict_set t new rows)"
  using assms
proof (induction rows)
    case (Cons row rows)
    obtain k v where row: "row = (k, v)" by (cases row)
    show ?case
    proof (cases "k = t")
      case True
      then have "\<forall>r \<in> set rows. \<not> matching t old r"
        using Cons.prems(1) row by (force simp: matching_def)
      then have "filter (matching t old) rows = []"
        "map (\<lambda>r. if matching t old r then (t, new) else r) rows = rows"
        by (simp_all add: filter_empty_conv map_idI)
      with True Cons.prems row show ?thesis by (simp add: update_rows_def matching_def)
    next
      case False
      with Cons row show ?thesis by (auto simp: update_rows_def matching_def)
    qed
qed simp

text \<open>On a sound table within the column's range the durable guard is the in-memory one.\<close>

lemma sqlite_check_mem:
  assumes "sqlite_sound g" "opaque_id t" "n \<le> sqlite_max"
  shows "sqlite_check g t n d =
    (fst (mem_check (sg_rows g) t n d), g\<lparr>sg_rows := snd (mem_check (sg_rows g) t n d)\<rparr>)"
proof (cases "map_of (sg_rows g) t")
  case None
  then have "dict_set t (n, d) (sg_rows g) = sg_rows g @ [(t, n, d)]"
    by (intro dict_set_fresh) (simp add: map_of_eq_None_iff)
  with assms None show ?thesis
    by (simp add: sqlite_check_def mem_check_def sqlite_sound_def persisted_def valid_row_def
        map_add_def)
next
  case (Some r)
  moreover have "valid_row t r"
    using assms(1) map_of_SomeD [OF Some] by (auto simp: sqlite_sound_def list_all_iff)
  ultimately show ?thesis
    using assms update_rows_dict [of "sg_rows g" t r "(n, d)"]
    by (cases r) (simp add: sqlite_check_def mem_check_def sqlite_sound_def persisted_def
        valid_row_def dict_simps)
qed


lemma sqlite_check_overflow:
  assumes "sqlite_sound g" "sqlite_max < n"
  shows "sqlite_check g t n d = (r, g') \<Longrightarrow> g' = g \<and> (r = Inr True \<longrightarrow> map_of (sg_rows g) t = Some (n, d))"
  using assms(2) by (auto simp: sqlite_check_def sqlite_max_def split: if_splits option.splits)

lemma mem_check_sound:
  assumes "sqlite_sound g" "opaque_id t"
  shows "sqlite_sound (g\<lparr>sg_rows := snd (mem_check (sg_rows g) t n d)\<rparr>)"
proof -
  have upd: "list_all (\<lambda>(t, r). valid_row t r) (dict_set t (n, d) rows)"
    if "list_all (\<lambda>(t, r). valid_row t r) rows" "0 \<le> n" "sha256_text d" for rows
    using that assms(2) by (induction rows) (auto simp: valid_row_def)
  then show ?thesis
    using assms(1) distinct_update [of "sg_rows g" t "(n, d)"]
    by (auto simp: mem_check_def sqlite_sound_def split: if_splits option.splits)
qed

lemma sqlite_check_step:
  assumes g: "sqlite_sound g" and t: "opaque_id t" and step: "sqlite_check g t n d = (r, g')"
  shows "sqlite_sound g' \<and> (r \<noteq> Inr True \<longrightarrow> map_of (sg_rows g') = map_of (sg_rows g))
    \<and> (r = Inr True \<longrightarrow> map_of (sg_rows g') = (map_of (sg_rows g))(t \<mapsto> (n, d))
         \<and> (\<forall>old. map_of (sg_rows g) t = Some old \<longrightarrow> no_rollback old (n, d)))"
proof (cases "n \<le> sqlite_max")
  case True
  with sqlite_check_mem [OF g t] step have
    r: "mem_check (sg_rows g) t n d = (r, sg_rows g')" "g' = g\<lparr>sg_rows := sg_rows g'\<rparr>" by auto
  have "sqlite_sound g'" using mem_check_sound [OF g t, of n d] r by simp
  with mem_check_cases [OF r(1)] show ?thesis by (auto simp: dict_simps)
next
  case False
  with sqlite_check_overflow [OF g _ step] g show ?thesis by (auto simp: no_rollback_def)
qed

interpretation sqlite_revision_guard: revision_guard sqlite_check "\<lambda>g. map_of (sg_rows g)" sqlite_sound
  by unfold_locales (use sqlite_check_step in blast)+

lemma sqlite_open_sound:
  "sqlite_open stored = Inr g \<Longrightarrow> (\<forall>h. stored = Some h \<longrightarrow> distinct (dict_keys (sg_rows h))) \<Longrightarrow>
     sqlite_sound g"
  by (auto simp: sqlite_open_def sqlite_sound_def Let_def split: if_splits option.splits)

text \<open>
  A tenant's revocation state never rolls back: whatever sequence of revisions the durable
  guard is asked about, from a table that passed the checks of opening it, the revisions it
  accepts for one tenant never decrease, and the same revision is accepted only with the same
  state digest.
\<close>

theorem revocation_never_rolls_back:
  assumes "sqlite_open stored = Inr g"
    and "\<And>h. stored = Some h \<Longrightarrow> distinct (dict_keys (sg_rows h))"
    and "\<forall>(t, n, d) \<in> set obs. opaque_id t"
  shows "sorted_wrt ordered_observation (accepted_run sqlite_check g obs)"
  using sqlite_revision_guard.accepted_ordered [OF sqlite_open_sound [OF assms(1)] assms(3)] assms(2)
  by blast

text \<open>
  C40. The durable guard implements the reference guard: on a sound table and for revisions
  the column can hold, it returns what the in-memory guard returns on the same high-water marks
  and leaves the marks that guard leaves.
\<close>

theorem sqlite_guard_refines:
  assumes "sqlite_sound g" and "opaque_id t" and "n \<le> sqlite_max"
  shows "fst (sqlite_check g t n d) = fst (mem_check (sg_rows g) t n d)
    \<and> sg_rows (snd (sqlite_check g t n d)) = snd (mem_check (sg_rows g) t n d)"
  by (simp add: sqlite_check_mem [OF assms])

definition sample_digest :: "char \<Rightarrow> string" where
  "sample_digest c = replicate 64 c"

lemma sample_digests: "sha256_text (sample_digest (CHR ''a''))" "sha256_text (sample_digest (CHR ''b''))"
  by (simp_all add: sha256_text_def sample_digest_def is_hex_def is_digit_def code_in_def list_all_iff)

theorem revocation_never_rolls_back_witness:
  "sorted_wrt ordered_observation (accepted_run sqlite_check \<lparr>sg_schema = True, sg_rows = []\<rparr>
     [(''a'', 2, sample_digest (CHR ''a'')), (''a'', 2, sample_digest (CHR ''b'')),
      (''a'', 1, sample_digest (CHR ''a'')), (''a'', 3, sample_digest (CHR ''b''))])
   \<and> length (accepted_run sqlite_check \<lparr>sg_schema = True, sg_rows = []\<rparr>
     [(''a'', 2, sample_digest (CHR ''a'')), (''a'', 2, sample_digest (CHR ''b'')),
      (''a'', 1, sample_digest (CHR ''a'')), (''a'', 3, sample_digest (CHR ''b''))]) = 2"
proof (rule conjI)
  show "sorted_wrt ordered_observation (accepted_run sqlite_check \<lparr>sg_schema = True, sg_rows = []\<rparr>
     [(''a'', 2, sample_digest (CHR ''a'')), (''a'', 2, sample_digest (CHR ''b'')),
      (''a'', 1, sample_digest (CHR ''a'')), (''a'', 3, sample_digest (CHR ''b''))])"
    by (rule revocation_never_rolls_back [of None]) (simp_all add: sqlite_open_def sample_texts)
  have s: "sqlite_sound \<lparr>sg_schema = True, sg_rows = rows\<rparr>" if "distinct (dict_keys rows)"
    "list_all (\<lambda>(t, r). valid_row t r) rows" for rows
    using that by (simp add: sqlite_sound_def)
  have ne: "sample_digest (CHR ''a'') \<noteq> sample_digest (CHR ''b'')"
    by (simp add: sample_digest_def)
  show "length (accepted_run sqlite_check \<lparr>sg_schema = True, sg_rows = []\<rparr>
     [(''a'', 2, sample_digest (CHR ''a'')), (''a'', 2, sample_digest (CHR ''b'')),
      (''a'', 1, sample_digest (CHR ''a'')), (''a'', 3, sample_digest (CHR ''b''))]) = 2"
    using ne by (simp add: sqlite_check_mem s sample_texts mem_check_def sample_digests valid_row_def
        sqlite_max_def)
qed

theorem sqlite_guard_refines_witness:
  "fst (sqlite_check \<lparr>sg_schema = True, sg_rows = []\<rparr> ''a'' 5 (sample_digest (CHR ''a''))) = Inr True"
  using sqlite_guard_refines [of "\<lparr>sg_schema = True, sg_rows = []\<rparr>" "''a''" 5]
  by (simp add: sqlite_sound_def sample_texts sqlite_max_def mem_check_def sample_digests)

end
