(* ===== verification/Tenancy_Authorizer.thy ===== *)
theory Tenancy_Authorizer
  imports Tenancy_Revocation "HOL-Library.Product_Lexorder"
begin

text \<open>
  Access requests, decisions and the authorizer of \<open>tenancy.py\<close>. The service clock's instant
  is an argument; the revision guard is the pair of its operation and its state, the operation
  a parameter as in the code. A frozen set is a list read as a set.
\<close>

section \<open>Requests and decisions\<close>

record access_request =
  aq_request_id :: string
  aq_subject_id :: string
  aq_tenant_id :: string
  aq_action :: string
  aq_resource :: resource_ref

definition valid_access_request :: "access_request \<Rightarrow> bool" where
  "valid_access_request q =
     (opaque_id (aq_request_id q) \<and> opaque_id (aq_subject_id q) \<and> opaque_id (aq_tenant_id q)
      \<and> valid_request (aq_action q) \<and> valid_resource_ref (aq_resource q))"

definition access_request_to_dict :: "access_request \<Rightarrow> json" where
  "access_request_to_dict q = JObj
     [(''requestId'', JStr (aq_request_id q)), (''subjectId'', JStr (aq_subject_id q)),
      (''tenantId'', JStr (aq_tenant_id q)), (''action'', JStr (aq_action q)),
      (''resource'', resource_ref_to_dict (aq_resource q))]"

datatype auth_outcome = AO_ALLOW | AO_DENY

fun auth_outcome_value :: "auth_outcome \<Rightarrow> string" where
  "auth_outcome_value AO_ALLOW = ''allow''"
| "auth_outcome_value AO_DENY = ''deny''"

datatype decision_code = DC_ALLOW_RBAC | DC_ALLOW_CAPABILITY | DC_CROSS_TENANT
  | DC_SUBJECT_MISMATCH | DC_NOT_A_MEMBER | DC_MEMBER_INACTIVE | DC_CAPABILITY_REVOKED
  | DC_CAPABILITY_EXPIRED | DC_CAPABILITY_NOT_YET_VALID | DC_CAPABILITY_INVALID
  | DC_REVOCATION_STATE_INVALID | DC_REVOCATION_STATE_STALE | DC_REVOCATION_REVISION_ROLLBACK
  | DC_OUTSIDE_SCOPE | DC_DEFAULT_DENY

fun decision_code_value :: "decision_code \<Rightarrow> string" where
  "decision_code_value DC_ALLOW_RBAC = ''allow_rbac''"
| "decision_code_value DC_ALLOW_CAPABILITY = ''allow_capability''"
| "decision_code_value DC_CROSS_TENANT = ''cross_tenant''"
| "decision_code_value DC_SUBJECT_MISMATCH = ''subject_mismatch''"
| "decision_code_value DC_NOT_A_MEMBER = ''not_a_member''"
| "decision_code_value DC_MEMBER_INACTIVE = ''member_inactive''"
| "decision_code_value DC_CAPABILITY_REVOKED = ''capability_revoked''"
| "decision_code_value DC_CAPABILITY_EXPIRED = ''capability_expired''"
| "decision_code_value DC_CAPABILITY_NOT_YET_VALID = ''capability_not_yet_valid''"
| "decision_code_value DC_CAPABILITY_INVALID = ''capability_invalid''"
| "decision_code_value DC_REVOCATION_STATE_INVALID = ''revocation_state_invalid''"
| "decision_code_value DC_REVOCATION_STATE_STALE = ''revocation_state_stale''"
| "decision_code_value DC_REVOCATION_REVISION_ROLLBACK = ''revocation_revision_rollback''"
| "decision_code_value DC_OUTSIDE_SCOPE = ''outside_scope''"
| "decision_code_value DC_DEFAULT_DENY = ''default_deny''"

record auth_decision =
  dn_outcome :: auth_outcome
  dn_code :: decision_code
  dn_reason :: string
  dn_request :: access_request
  dn_evaluated_at :: int
  dn_evidence :: "string list"
  dn_revision :: "int option"

text \<open>The constructor sorts and deduplicates the evidence.\<close>

definition make_decision ::
  "auth_outcome \<Rightarrow> decision_code \<Rightarrow> string \<Rightarrow> access_request \<Rightarrow> int \<Rightarrow> string list \<Rightarrow> int option
   \<Rightarrow> cap_error + auth_decision" where
  "make_decision outcome code reason q now evidence revision =
     (if (outcome = AO_ALLOW) \<noteq> (code \<in> {DC_ALLOW_RBAC, DC_ALLOW_CAPABILITY})
        then Inl (CapValue ''authorization outcome and decision code are inconsistent'')
      else if \<not> require_text reason 512 then Inl (CapValue ''reason'')
      else if length evidence > 256 then Inl (CapValue ''evidence'')
      else if (case revision of None \<Rightarrow> False | Some n \<Rightarrow> n < 0)
        then Inl (CapValue ''revocation_revision cannot be negative'')
      else Inr \<lparr>dn_outcome = outcome, dn_code = code, dn_reason = reason, dn_request = q,
                dn_evaluated_at = now, dn_evidence = sort (remdups evidence),
                dn_revision = revision\<rparr>)"

definition audit_payload :: "platform \<Rightarrow> auth_decision \<Rightarrow> (string, json) dict" where
  "audit_payload pf d =
     [(''outcome'', JStr (auth_outcome_value (dn_outcome d))),
      (''code'', JStr (decision_code_value (dn_code d))), (''reason'', JStr (dn_reason d)),
      (''request'', access_request_to_dict (dn_request d)),
      (''evaluatedAt'', JStr (pf_time_text pf (dn_evaluated_at d))),
      (''evidence'', jstrs (dn_evidence d)),
      (''revocationRevision'', jopt JInt (dn_revision d))]"

definition decision_id :: "platform \<Rightarrow> auth_decision \<Rightarrow> string" where
  "decision_id pf d = canonical_digest pf (JObj (audit_payload pf d))"

definition auth_decision_to_dict :: "platform \<Rightarrow> auth_decision \<Rightarrow> json" where
  "auth_decision_to_dict pf d =
     JObj (dict_set ''decisionId'' (JStr (decision_id pf d)) (audit_payload pf d))"

definition deny ::
  "access_request \<Rightarrow> int \<Rightarrow> decision_code \<Rightarrow> string \<Rightarrow> string list \<Rightarrow> int option
   \<Rightarrow> cap_error + auth_decision" where
  "deny q now code reason evidence revision =
     make_decision AO_DENY code reason q now evidence revision"

section \<open>The authorizer\<close>

record authorizer =
  az_verifier :: verifier
  az_trust_domain :: string
  az_policy_version :: string
  az_audience :: string
  az_role_actions :: "(role, string list) dict"
  az_max_clock_skew :: int
  az_max_revocation_age :: int

text \<open>The constructor; it keeps the grants of a role sorted and without duplicates.\<close>

definition normal_grants :: "(role, string list) dict \<Rightarrow> (role, string list) dict" where
  "normal_grants d = map (\<lambda>(r, gs). (r, sort (remdups gs))) d"

definition new_authorizer :: "authorizer \<Rightarrow> cap_error + authorizer" where
  "new_authorizer a =
     (if \<not> require_text (az_trust_domain a) 256 then Inl (CapValue ''trust_domain'')
      else if \<not> require_text (az_policy_version a) 128 then Inl (CapValue ''policy_version'')
      else if \<not> require_text (az_audience a) 256 then Inl (CapValue ''audience'')
      else if vf_trust_domain (az_verifier a) \<noteq> az_trust_domain a
        then Inl (CapValue ''authorizer trust domain does not match capability verifier'')
      else if vf_policy_version (az_verifier a) \<noteq> az_policy_version a
        then Inl (CapValue ''authorizer policy version does not match capability verifier'')
      else if vf_audience (az_verifier a) \<noteq> az_audience a
        then Inl (CapValue ''authorizer audience does not match capability verifier'')
      else if az_max_clock_skew a \<le> 0 then Inl (CapValue ''max_clock_skew'')
      else if az_max_revocation_age a \<le> 0 then Inl (CapValue ''max_revocation_age'')
      else if \<not> list_all (\<lambda>(r, gs). length gs \<le> 256 \<and> list_all valid_action gs) (az_role_actions a)
        then Inl (CapValue ''role grant'')
      else Inr (a\<lparr>az_role_actions := normal_grants (az_role_actions a)\<rparr>))"

text \<open>\<open>any(action_covers(grant, action) for grant in grants)\<close>.\<close>

fun any_covers :: "string list \<Rightarrow> string \<Rightarrow> py_error + bool" where
  "any_covers [] action = Inr False"
| "any_covers (g # gs) action =
     bind_res (action_covers g action) (\<lambda>b. if b then Inr True else any_covers gs action)"

definition role_grants :: "authorizer \<Rightarrow> role \<Rightarrow> string list" where
  "role_grants a r = (case map_of (az_role_actions a) r of None \<Rightarrow> [] | Some gs \<Rightarrow> gs)"

text \<open>The pass over the bindings: the evidence, and whether a granted action is out of scope.\<close>

fun role_pass ::
  "platform \<Rightarrow> authorizer \<Rightarrow> access_request \<Rightarrow> role_binding list
   \<Rightarrow> py_error + string list \<times> bool" where
  "role_pass pf a q [] = Inr ([], False)"
| "role_pass pf a q (b # bs) =
     bind_res (any_covers (role_grants a (rb_role b)) (aq_action q)) (\<lambda>granted.
     bind_res (role_pass pf a q bs) (\<lambda>(evidence, outside).
       if granted \<and> contains_ref (rb_scope b) (aq_resource q)
         then Inr ((''role:'' @ role_value (rb_role b) @ '':'' @ audit_ref pf b) # evidence, outside)
       else Inr (evidence, granted \<or> outside)))"

definition validate_snapshot ::
  "authorizer \<Rightarrow> rev_snapshot \<Rightarrow> access_request \<Rightarrow> int \<Rightarrow> (decision_code \<times> string) option" where
  "validate_snapshot a s q now =
     (if sn_tenant_id s \<noteq> aq_tenant_id q
        then Some (DC_REVOCATION_STATE_INVALID,
               ''revocation snapshot belongs to a different tenant'')
      else if sn_captured_at s > now + az_max_clock_skew a
        then Some (DC_REVOCATION_STATE_INVALID, ''revocation snapshot timestamp is in the future'')
      else if now - sn_captured_at s > az_max_revocation_age a
        then Some (DC_REVOCATION_STATE_STALE,
               ''revocation snapshot is too old for capability authorization'')
      else None)"

type_synonym failure = "decision_code \<times> string \<times> string"

definition reverify ::
  "platform \<Rightarrow> authorizer \<Rightarrow> cap_envelope \<Rightarrow> int \<Rightarrow> failure + verified" where
  "reverify pf a e now =
     (let failed = (DC_CAPABILITY_INVALID,
            ''capability envelope failed authorizer-owned proof verification'',
            ''capability:invalid'') in
      case verify pf (az_verifier a) e now True of
        Inl _ \<Rightarrow> Inl failed
      | Inr vc \<Rightarrow>
          if vc_trust_domain vc \<noteq> az_trust_domain a then Inl failed
          else if vc_policy_version vc \<noteq> az_policy_version a then Inl failed
          else Inr vc)"

definition chain_evidence :: "platform \<Rightarrow> cap_envelope \<Rightarrow> string" where
  "chain_evidence pf e = ''capability:'' @ envelope_id pf e"

text \<open>The pass over one chain, root first: the first claim that fails decides.\<close>

fun chain_failure ::
  "rev_snapshot \<Rightarrow> int \<Rightarrow> string \<Rightarrow> claims list \<Rightarrow> failure option" where
  "chain_failure s now evidence [] = None"
| "chain_failure s now evidence (c # cs) =
     (if snapshot_contains s (revocation_id c)
        then Some (DC_CAPABILITY_REVOKED, ''capability '' @ (if cs = [] then ''leaf'' else ''ancestor'')
               @ '' has been revoked'', evidence)
      else if now < cl_not_before c
        then Some (DC_CAPABILITY_NOT_YET_VALID, ''capability chain is not active yet'', evidence)
      else if now \<ge> cl_expires_at c
        then Some (DC_CAPABILITY_EXPIRED, ''capability chain has expired'', evidence)
      else chain_failure s now evidence cs)"

definition validate_for_authorization ::
  "platform \<Rightarrow> cap_envelope \<Rightarrow> access_request \<Rightarrow> rev_snapshot \<Rightarrow> int
   \<Rightarrow> py_error + failure option" where
  "validate_for_authorization pf e q s now =
     (let evidence = chain_evidence pf e; leaf = last (ce_claims e) in
      bind_res (action_covers (cl_action leaf) (aq_action q)) (\<lambda>covers.
        if \<not> covers
          then Inr (Some (DC_DEFAULT_DENY,
                 ''verified capability does not grant the requested action'', evidence))
        else if \<not> contains_ref (cl_resource leaf) (aq_resource q)
          then Inr (Some (DC_OUTSIDE_SCOPE,
                 ''capability action does not cover the requested resource scope'', evidence))
        else Inr (chain_failure s now evidence (ce_claims e))))"

text \<open>The pass over the presented capabilities: the evidence and the failures.\<close>

fun capability_pass ::
  "platform \<Rightarrow> authorizer \<Rightarrow> access_request \<Rightarrow> rev_snapshot \<Rightarrow> int \<Rightarrow> cap_envelope list
   \<Rightarrow> py_error + string list \<times> failure list" where
  "capability_pass pf a q s now [] = Inr ([], [])"
| "capability_pass pf a q s now (e # es) =
     (case reverify pf a e now of
        Inl f \<Rightarrow> bind_res (capability_pass pf a q s now es) (\<lambda>(ev, fs). Inr (ev, f # fs))
      | Inr vc \<Rightarrow>
          let t = vc_envelope vc; leaf = last (ce_claims t) in
          if cl_subject_id leaf \<noteq> aq_subject_id q \<or> cl_tenant_id leaf \<noteq> aq_tenant_id q
          then capability_pass pf a q s now es
          else bind_res (validate_for_authorization pf t q s now) (\<lambda>failure.
               bind_res (capability_pass pf a q s now es) (\<lambda>(ev, fs).
                 case failure of
                   None \<Rightarrow> Inr (chain_evidence pf t # ev, fs)
                 | Some f \<Rightarrow> Inr (ev, f # fs))))"

fun error_precedence :: "decision_code \<Rightarrow> nat" where
  "error_precedence DC_CAPABILITY_INVALID = 0"
| "error_precedence DC_CAPABILITY_REVOKED = 1"
| "error_precedence DC_CAPABILITY_EXPIRED = 2"
| "error_precedence DC_CAPABILITY_NOT_YET_VALID = 3"
| "error_precedence DC_OUTSIDE_SCOPE = 4"
| "error_precedence DC_DEFAULT_DENY = 5"
| "error_precedence _ = 6"

text \<open>\<open>min\<close> returns the first of the least items; the sort is stable.\<close>

definition first_failure :: "failure list \<Rightarrow> failure" where
  "first_failure fs = hd (sort_key (\<lambda>(code, reason, ev). (error_precedence code, ev)) fs)"

text \<open>The guards before the revision guard is asked: the code and reason of a denial.\<close>

definition precheck ::
  "authorizer \<Rightarrow> access_request \<Rightarrow> member option \<Rightarrow> rev_snapshot \<Rightarrow> int
   \<Rightarrow> (decision_code \<times> string) + member" where
  "precheck a q member s now =
     (if rr_tenant_id (aq_resource q) \<noteq> aq_tenant_id q
        then Inl (DC_CROSS_TENANT, ''request tenant and resource tenant do not match'')
      else (case member of
          None \<Rightarrow> Inl (DC_NOT_A_MEMBER, ''subject is not a tenant member'')
        | Some m \<Rightarrow>
            if mb_member_id m \<noteq> aq_subject_id q
              then Inl (DC_SUBJECT_MISMATCH,
                     ''loaded membership does not belong to the request subject'')
            else if mb_tenant_id m \<noteq> aq_tenant_id q
              then Inl (DC_CROSS_TENANT, ''member and request belong to different tenants'')
            else if mb_status m \<noteq> MS_ACTIVE then Inl (DC_MEMBER_INACTIVE, ''member is not active'')
            else if sn_tenant_id s \<noteq> aq_tenant_id q
              then Inl (DC_REVOCATION_STATE_INVALID,
                     ''revocation snapshot belongs to a different tenant'')
            else (case validate_snapshot a s q now of
                Some failure \<Rightarrow> Inl failure
              | None \<Rightarrow> Inr m)))"

text \<open>After the guard has accepted the snapshot: roles first, then capabilities.\<close>

definition decide_grants ::
  "platform \<Rightarrow> authorizer \<Rightarrow> access_request \<Rightarrow> member \<Rightarrow> rev_snapshot \<Rightarrow> cap_envelope list \<Rightarrow> int
   \<Rightarrow> cap_error + auth_decision" where
  "decide_grants pf a q m s caps now =
     (let revision = Some (sn_revision s) in
      case role_pass pf a q (mb_role_bindings m) of
        Inl _ \<Rightarrow> Inl (CapValue ''action'')
      | Inr (role_evidence, outside) \<Rightarrow>
          if role_evidence \<noteq> []
            then make_decision AO_ALLOW DC_ALLOW_RBAC
                   ''request is covered by a scoped role binding'' q now role_evidence revision
          else if caps = []
            then (if outside
              then deny q now DC_OUTSIDE_SCOPE
                     ''action grant does not cover the requested resource scope'' [] revision
              else deny q now DC_DEFAULT_DENY
                     ''no scoped role or verified capability grants the requested action'' []
                     revision)
          else (case capability_pass pf a q s now caps of
              Inl _ \<Rightarrow> Inl (CapValue ''action'')
            | Inr (evidence, failures) \<Rightarrow>
                if evidence \<noteq> []
                  then make_decision AO_ALLOW DC_ALLOW_CAPABILITY
                    ''request is covered by a fully verified capability chain'' q now evidence
                    revision
                else if failures \<noteq> []
                  then (case first_failure failures of (code, reason, _) \<Rightarrow>
                    deny q now code reason
                      (map (\<lambda>(_, _, ev). ev) (filter (\<lambda>(c, _, _). c = code) failures)) revision)
                else if outside
                  then deny q now DC_OUTSIDE_SCOPE
                     ''action grant does not cover the requested resource scope'' [] revision
                else deny q now DC_DEFAULT_DENY
                     ''no scoped role or verified capability grants the requested action'' []
                     revision))"

text \<open>The whole of \<open>evaluate\<close>: the answer and the guard's state after it.\<close>

definition evaluate_access ::
  "platform \<Rightarrow> authorizer \<Rightarrow> ('g \<Rightarrow> string \<Rightarrow> int \<Rightarrow> string \<Rightarrow> (guard_error + bool) \<times> 'g) \<Rightarrow> 'g
   \<Rightarrow> access_request \<Rightarrow> member option \<Rightarrow> rev_snapshot \<Rightarrow> cap_envelope list \<Rightarrow> int
   \<Rightarrow> (cap_error + auth_decision) \<times> 'g" where
  "evaluate_access pf a check g q member s caps now =
     (if \<not> valid_access_request q
        then (Inl (CapType ''request must be a canonical AccessRequest''), g)
      else if \<not> valid_rev_snapshot s
        then (Inl (CapType ''revocations must be a canonical RevocationSnapshot''), g)
      else if \<not> pred_option valid_member member
        then (Inl (CapType ''member must be a canonical Member''), g)
      else if length caps > 64 then (Inl (CapValue ''verified_capabilities''), g)
      else let revision = (if sn_tenant_id s = aq_tenant_id q then Some (sn_revision s) else None) in
        case precheck a q member s now of
          Inl (code, reason) \<Rightarrow> (deny q now code reason [] revision, g)
        | Inr m \<Rightarrow>
            (case check g (aq_tenant_id q) (sn_revision s) (state_digest pf s) of
               (Inl _, g') \<Rightarrow> (deny q now DC_REVOCATION_STATE_INVALID
                  ''revocation revision guard failed closed'' [] revision, g')
             | (Inr accepted, g') \<Rightarrow>
                 if \<not> accepted
                 then (deny q now DC_REVOCATION_REVISION_ROLLBACK
                    (''revocation snapshot revision or same-revision state conflicts with the ''
                     @ ''tenant high-water mark'') [] revision, g')
                 else (decide_grants pf a q m s caps now, g')))"

section \<open>Who is allowed\<close>

definition built_authorizer :: "authorizer \<Rightarrow> bool" where
  "built_authorizer a = (\<exists>raw. new_authorizer raw = Inr a)"

lemma built_grants:
  assumes "built_authorizer a"
  shows "list_all valid_action (role_grants a r) \<and> az_trust_domain a = vf_trust_domain (az_verifier a)
    \<and> az_policy_version a = vf_policy_version (az_verifier a)"
proof -
  have sorted: "list_all valid_action gs"
    if "list_all (\<lambda>(r, gs). length gs \<le> 256 \<and> list_all valid_action gs) d"
      "map_of (normal_grants d) r = Some gs" for d gs
    using that(1) map_of_SomeD [OF that(2)] by (auto simp: normal_grants_def list_all_iff)
  then show ?thesis using assms
    by (auto simp: built_authorizer_def new_authorizer_def role_grants_def
        split: if_splits option.splits)
qed

lemma any_covers_iff:
  "list_all valid_action gs \<Longrightarrow> valid_request action \<Longrightarrow>
     any_covers gs action = Inr (\<exists>g \<in> set gs. action \<in> covered g)"
  by (induction gs) (auto simp: action_covers_def covered_def valid_request_def)

text \<open>A binding allows a request: its role grants the action and its scope holds the resource.\<close>

definition binding_allows :: "authorizer \<Rightarrow> access_request \<Rightarrow> role_binding \<Rightarrow> bool" where
  "binding_allows a q b = ((\<exists>g \<in> set (role_grants a (rb_role b)). aq_action q \<in> covered g)
     \<and> contains_ref (rb_scope b) (aq_resource q))"

lemma role_pass_result:
  assumes "built_authorizer a" "valid_request (aq_action q)"
  shows "\<exists>ev outside. role_pass pf a q bs = Inr (ev, outside) \<and> length ev \<le> length bs
    \<and> (ev \<noteq> [] \<longleftrightarrow> (\<exists>b \<in> set bs. binding_allows a q b))"
proof (induction bs)
  case (Cons b bs)
  have step: "any_covers (role_grants a (rb_role b)) (aq_action q) =
      Inr (\<exists>g \<in> set (role_grants a (rb_role b)). aq_action q \<in> covered g)"
    using any_covers_iff assms built_grants by blast
  obtain ev outside where bs: "role_pass pf a q bs = Inr (ev, outside)"
    "length ev \<le> length bs" "ev \<noteq> [] \<longleftrightarrow> (\<exists>b \<in> set bs. binding_allows a q b)"
    using Cons by blast
  show ?case
  proof (cases "binding_allows a q b")
    case True
    with bs step show ?thesis by (simp add: binding_allows_def)
  next
    case False
    with bs step have "role_pass pf a q (b # bs) = Inr (ev,
        (\<exists>g \<in> set (role_grants a (rb_role b)). aq_action q \<in> covered g) \<or> outside)"
      by (simp add: binding_allows_def)
    with bs(2,3) False show ?thesis by simp
  qed
qed auto

text \<open>
  A capability allows a request: its chain verifies, its leaf is the requester's, in the
  request's tenant, grants the action and holds the resource, and no claim of the chain is
  revoked or outside its validity interval.
\<close>

definition capability_allows ::
  "platform \<Rightarrow> authorizer \<Rightarrow> access_request \<Rightarrow> rev_snapshot \<Rightarrow> int \<Rightarrow> cap_envelope \<Rightarrow> bool" where
  "capability_allows pf a q s now e =
     ((\<exists>vc. verify pf (az_verifier a) e now True = Inr vc)
      \<and> cl_subject_id (last (ce_claims e)) = aq_subject_id q
      \<and> cl_tenant_id (last (ce_claims e)) = aq_tenant_id q
      \<and> aq_action q \<in> covered (cl_action (last (ce_claims e)))
      \<and> contains_ref (cl_resource (last (ce_claims e))) (aq_resource q)
      \<and> (\<forall>c \<in> set (ce_claims e). \<not> snapshot_contains s (revocation_id c)
           \<and> cl_not_before c \<le> now \<and> now < cl_expires_at c))"

lemma chain_failure_None:
  "chain_failure s now ev cs = None \<longleftrightarrow> (\<forall>c \<in> set cs. \<not> snapshot_contains s (revocation_id c)
     \<and> cl_not_before c \<le> now \<and> now < cl_expires_at c)"
  by (induction cs) auto

definition reportable :: "failure \<Rightarrow> bool" where
  "reportable f = (fst f \<notin> {DC_ALLOW_RBAC, DC_ALLOW_CAPABILITY} \<and> require_text (fst (snd f)) 512)"

lemma reasons:
  "require_text ''capability envelope failed authorizer-owned proof verification'' 512"
  "require_text ''verified capability does not grant the requested action'' 512"
  "require_text ''capability action does not cover the requested resource scope'' 512"
  "require_text ''capability leaf has been revoked'' 512"
  "require_text ''capability ancestor has been revoked'' 512"
  "require_text ''capability chain is not active yet'' 512"
  "require_text ''capability chain has expired'' 512"
  "require_text ''request is covered by a scoped role binding'' 512"
  "require_text ''request is covered by a fully verified capability chain'' 512"
  "require_text ''action grant does not cover the requested resource scope'' 512"
  "require_text ''no scoped role or verified capability grants the requested action'' 512"
  "require_text ''request tenant and resource tenant do not match'' 512"
  "require_text ''subject is not a tenant member'' 512"
  "require_text ''loaded membership does not belong to the request subject'' 512"
  "require_text ''member and request belong to different tenants'' 512"
  "require_text ''member is not active'' 512"
  "require_text ''revocation snapshot belongs to a different tenant'' 512"
  "require_text ''revocation snapshot timestamp is in the future'' 512"
  "require_text ''revocation snapshot is too old for capability authorization'' 512"
  "require_text ''revocation revision guard failed closed'' 512"
  "require_text (''revocation snapshot revision or same-revision state conflicts with the ''
     @ ''tenant high-water mark'') 512"
  by (simp_all add: require_text_def blank_iff py_strip_def py_space_def)

lemma chain_failure_reportable: "chain_failure s now ev cs = Some f \<Longrightarrow> reportable f"
  using reasons(4-7) by (induction cs) (auto simp: reportable_def split: if_splits)

lemma reverify_result:
  assumes "built_authorizer a"
  shows "case reverify pf a e now of
      Inl f \<Rightarrow> reportable f \<and> (\<nexists>vc. verify pf (az_verifier a) e now True = Inr vc)
    | Inr vc \<Rightarrow> verify pf (az_verifier a) e now True = Inr vc \<and> vc_envelope vc = e
        \<and> ce_claims e \<noteq> [] \<and> list_all valid_claims (ce_claims e)"
proof (cases "verify pf (az_verifier a) e now True")
  case (Inl x)
  then show ?thesis using reasons(1) by (simp add: reverify_def reportable_def)
next
  case (Inr vc)
  then have "vc_trust_domain vc = vf_trust_domain (az_verifier a)"
    "vc_policy_version vc = vf_policy_version (az_verifier a)"
    by (auto simp: verify_def res_simps Let_def split: if_splits)
  then show ?thesis using Inr verify_sound_chain [OF Inr] built_grants [OF assms]
    by (simp add: reverify_def valid_cap_envelope_def)
qed

lemma validate_for_authorization_result:
  assumes "valid_request (aq_action q)" "ce_claims e \<noteq> []" "list_all valid_claims (ce_claims e)"
  shows "\<exists>failure. validate_for_authorization pf e q s now = Inr failure
    \<and> (\<forall>f. failure = Some f \<longrightarrow> reportable f)
    \<and> (failure = None \<longleftrightarrow> aq_action q \<in> covered (cl_action (last (ce_claims e)))
         \<and> contains_ref (cl_resource (last (ce_claims e))) (aq_resource q)
         \<and> (\<forall>c \<in> set (ce_claims e). \<not> snapshot_contains s (revocation_id c)
              \<and> cl_not_before c \<le> now \<and> now < cl_expires_at c))"
proof -
  let ?act = "cl_action (last (ce_claims e))"
  have "valid_action ?act"
    using assms(2,3) by (auto simp: list_all_iff valid_claims_def check_claims_def split: if_splits)
  then have cover: "action_covers ?act (aq_action q) = Inr (aq_action q \<in> covered ?act)"
    using assms(1) by (auto simp: action_covers_def covered_def valid_request_def)
  have "reportable (DC_DEFAULT_DENY, ''verified capability does not grant the requested action'', ev)"
    "reportable (DC_OUTSIDE_SCOPE,
       ''capability action does not cover the requested resource scope'', ev)" for ev
    using reasons(2,3) by (simp_all add: reportable_def)
  with chain_failure_reportable [of s now "chain_evidence pf e" "ce_claims e"] show ?thesis
    by (auto simp: validate_for_authorization_def Let_def cover
        chain_failure_None [of s now "chain_evidence pf e", symmetric])
qed

lemma capability_pass_result:
  assumes "built_authorizer a" "valid_request (aq_action q)"
  shows "\<exists>ev fs. capability_pass pf a q s now es = Inr (ev, fs) \<and> length ev + length fs \<le> length es
    \<and> (ev \<noteq> [] \<longleftrightarrow> (\<exists>e \<in> set es. capability_allows pf a q s now e)) \<and> list_all reportable fs"
proof (induction es)
  case (Cons e es)
  then obtain ev fs where es: "capability_pass pf a q s now es = Inr (ev, fs)"
    "length ev + length fs \<le> length es" "list_all reportable fs"
    "ev \<noteq> [] \<longleftrightarrow> (\<exists>e \<in> set es. capability_allows pf a q s now e)" by blast
  note re = reverify_result [OF assms(1), of pf e now]
  show ?case
  proof (cases "reverify pf a e now")
    case (Inl f)
    with re have f: "reportable f" "\<not> capability_allows pf a q s now e"
      by (auto simp: capability_allows_def)
    have "capability_pass pf a q s now (e # es) = Inr (ev, f # fs)" using Inl es(1) by simp
    with f es(2-4) show ?thesis by simp
  next
    case (Inr vc)
    with re have e: "verify pf (az_verifier a) e now True = Inr vc" "vc_envelope vc = e"
      "ce_claims e \<noteq> []" "list_all valid_claims (ce_claims e)" by simp_all
    from validate_for_authorization_result [OF assms(2) e(3,4), of pf s now] obtain failure where
      vf: "validate_for_authorization pf e q s now = Inr failure"
        "\<forall>f. failure = Some f \<longrightarrow> reportable f" and
      none: "failure = None \<longleftrightarrow> aq_action q \<in> covered (cl_action (last (ce_claims e)))
         \<and> contains_ref (cl_resource (last (ce_claims e))) (aq_resource q)
         \<and> (\<forall>c \<in> set (ce_claims e). \<not> snapshot_contains s (revocation_id c)
              \<and> cl_not_before c \<le> now \<and> now < cl_expires_at c)" by blast
    let ?mine = "cl_subject_id (last (ce_claims e)) = aq_subject_id q
      \<and> cl_tenant_id (last (ce_claims e)) = aq_tenant_id q"
    have allows: "capability_allows pf a q s now e \<longleftrightarrow> ?mine \<and> failure = None"
      using e(1) none by (auto simp: capability_allows_def)
    consider "\<not> ?mine" | "?mine" "failure = None" | f where "?mine" "failure = Some f"
      by (cases failure) auto
    then show ?thesis
    proof cases
      case 1
      then have "capability_pass pf a q s now (e # es) = Inr (ev, fs)"
        using Inr es(1) e(2) by (auto simp: Let_def)
      with 1 allows es(2-4) show ?thesis by auto
    next
      case 2
      then have "capability_pass pf a q s now (e # es) =
          Inr (chain_evidence pf e # ev, fs)"
        using Inr es(1) e(2) vf(1) by (simp add: Let_def)
      with 2 allows es(2-4) show ?thesis by auto
    next
      case 3
      then have "capability_pass pf a q s now (e # es) = Inr (ev, f # fs)"
        using Inr es(1) e(2) vf(1) by (simp add: Let_def)
      with 3 allows es(2-4) vf(2) show ?thesis by auto
    qed
  qed
qed simp

lemma first_failure_in: "fs \<noteq> [] \<Longrightarrow> first_failure fs \<in> set fs"
proof -
  let ?k = "\<lambda>(code, reason :: string, ev). (error_precedence code, ev :: string)"
  assume "fs \<noteq> []"
  then have "sort_key ?k fs \<noteq> []" using length_sort [of ?k fs] by (auto simp del: length_sort)
  then have "hd (sort_key ?k fs) \<in> set (sort_key ?k fs)" by (rule hd_in_set)
  then show ?thesis by (simp add: first_failure_def)
qed

lemma deny_ok:
  assumes "code \<notin> {DC_ALLOW_RBAC, DC_ALLOW_CAPABILITY}" "require_text reason 512"
    "length ev \<le> 256" "\<forall>n. revision = Some n \<longrightarrow> 0 \<le> n"
  shows "\<exists>d. deny q now code reason ev revision = Inr d \<and> dn_outcome d = AO_DENY \<and> dn_code d = code"
  using assms by (auto simp: deny_def make_decision_def split: option.splits)

lemma allow_ok:
  assumes "code \<in> {DC_ALLOW_RBAC, DC_ALLOW_CAPABILITY}" "require_text reason 512"
    "length ev \<le> 256" "0 \<le> n"
  shows "\<exists>d. make_decision AO_ALLOW code reason q now ev (Some n) = Inr d
    \<and> dn_outcome d = AO_ALLOW \<and> dn_code d = code"
  using assms by (auto simp: make_decision_def)

lemma failures_denied:
  assumes "fs \<noteq> []" "list_all reportable fs" "length fs \<le> 256" "0 \<le> n"
  shows "\<exists>d. (case first_failure fs of (code, reason, _) \<Rightarrow>
      deny q now code reason (map (\<lambda>(_, _, ev). ev) (filter (\<lambda>(c, _, _). c = code) fs)) (Some n))
        = Inr d \<and> dn_outcome d = AO_DENY \<and> dn_code d \<notin> {DC_ALLOW_RBAC, DC_ALLOW_CAPABILITY}"
proof -
  obtain code reason ev where f: "first_failure fs = (code, reason, ev)" by (cases "first_failure fs")
  have "reportable (code, reason, ev)"
    using first_failure_in [OF assms(1)] assms(2) f by (simp add: list_all_iff)
  moreover have "length (map (\<lambda>(_, _, ev). ev) (filter (\<lambda>(c, _, _). c = code) fs)) \<le> 256"
    using assms(3) le_trans [OF length_filter_le] by auto
  ultimately show ?thesis
    using deny_ok [of code reason _ "Some n" q now] assms(4) by (fastforce simp: f reportable_def)
qed

lemma decide_grants_result:
  assumes "built_authorizer a" "valid_request (aq_action q)" "valid_member m"
    "0 \<le> sn_revision s" "length caps \<le> 64"
  shows "\<exists>d. decide_grants pf a q m s caps now = Inr d
    \<and> (dn_outcome d = AO_ALLOW \<longleftrightarrow> (\<exists>b \<in> set (mb_role_bindings m). binding_allows a q b)
         \<or> (\<exists>e \<in> set caps. capability_allows pf a q s now e))
    \<and> (dn_code d = DC_ALLOW_CAPABILITY \<longrightarrow> (\<exists>e \<in> set caps. capability_allows pf a q s now e))"
proof -
  from role_pass_result [OF assms(1,2)] obtain rev outside where
    r: "role_pass pf a q (mb_role_bindings m) = Inr (rev, outside)"
      "length rev \<le> length (mb_role_bindings m)"
      "rev \<noteq> [] \<longleftrightarrow> (\<exists>b \<in> set (mb_role_bindings m). binding_allows a q b)" by blast
  from capability_pass_result [OF assms(1,2)] obtain ev fs where
    c: "capability_pass pf a q s now caps = Inr (ev, fs)" "length ev + length fs \<le> length caps"
      "ev \<noteq> [] \<longleftrightarrow> (\<exists>e \<in> set caps. capability_allows pf a q s now e)" "list_all reportable fs"
    by blast
  have out: "\<exists>d. deny q now DC_OUTSIDE_SCOPE
      ''action grant does not cover the requested resource scope'' [] (Some (sn_revision s)) = Inr d
      \<and> dn_outcome d = AO_DENY \<and> dn_code d = DC_OUTSIDE_SCOPE"
    by (rule deny_ok) (use assms(4) reasons(10) in auto)
  have default_deny: "\<exists>d. deny q now DC_DEFAULT_DENY
      ''no scoped role or verified capability grants the requested action'' []
      (Some (sn_revision s)) = Inr d \<and> dn_outcome d = AO_DENY \<and> dn_code d = DC_DEFAULT_DENY"
    by (rule deny_ok) (use assms(4) reasons(11) in auto)
  consider "rev \<noteq> []" | "rev = []" "caps = []" | "rev = []" "caps \<noteq> []" "ev \<noteq> []"
    | "rev = []" "caps \<noteq> []" "ev = []" "fs \<noteq> []" | "rev = []" "caps \<noteq> []" "ev = []" "fs = []"
    by blast
  then show ?thesis
  proof cases
    case 1
    have "length rev \<le> 256" using r(2) assms(3) by (simp add: valid_member_def)
    with allow_ok [of DC_ALLOW_RBAC, OF _ reasons(8) _ assms(4), of rev q now] obtain d where
      "make_decision AO_ALLOW DC_ALLOW_RBAC ''request is covered by a scoped role binding'' q now
         rev (Some (sn_revision s)) = Inr d" "dn_outcome d = AO_ALLOW" "dn_code d = DC_ALLOW_RBAC"
      by blast
    with 1 r show ?thesis by (simp add: decide_grants_def)
  next
    case 2
    with r c out default_deny show ?thesis by (cases outside) (auto simp: decide_grants_def)
  next
    case 3
    have "length ev \<le> 256" using c(2) assms(5) by simp
    with allow_ok [of DC_ALLOW_CAPABILITY, OF _ reasons(9) _ assms(4), of ev q now] obtain d where
      "make_decision AO_ALLOW DC_ALLOW_CAPABILITY
         ''request is covered by a fully verified capability chain'' q now ev
         (Some (sn_revision s)) = Inr d" "dn_outcome d = AO_ALLOW" "dn_code d = DC_ALLOW_CAPABILITY"
      by blast
    with 3 r c show ?thesis by (simp add: decide_grants_def)
  next
    case 4
    with failures_denied [OF _ c(4) _ assms(4), of q now] c(2) assms(5) obtain d where
      "(case first_failure fs of (code, reason, _) \<Rightarrow>
        deny q now code reason (map (\<lambda>(_, _, ev). ev) (filter (\<lambda>(c, _, _). c = code) fs))
          (Some (sn_revision s))) = Inr d" "dn_outcome d = AO_DENY"
      "dn_code d \<notin> {DC_ALLOW_RBAC, DC_ALLOW_CAPABILITY}" by auto
    with 4 r c show ?thesis by (simp add: decide_grants_def)
  next
    case 5
    with r c out default_deny show ?thesis by (cases outside) (auto simp: decide_grants_def)
  qed
qed

text \<open>
  The requester is admitted: an active member of the one tenant that the request, the resource
  and the fresh revocation snapshot name.
\<close>

definition admitted ::
  "authorizer \<Rightarrow> access_request \<Rightarrow> member option \<Rightarrow> rev_snapshot \<Rightarrow> int \<Rightarrow> bool" where
  "admitted a q member s now =
     (rr_tenant_id (aq_resource q) = aq_tenant_id q
      \<and> (\<exists>m. member = Some m \<and> mb_member_id m = aq_subject_id q
           \<and> mb_tenant_id m = aq_tenant_id q \<and> mb_status m = MS_ACTIVE)
      \<and> sn_tenant_id s = aq_tenant_id q
      \<and> sn_captured_at s \<le> now + az_max_clock_skew a
      \<and> now - sn_captured_at s \<le> az_max_revocation_age a)"

lemma precheck_result:
  "case precheck a q member s now of
     Inl (code, reason) \<Rightarrow> \<not> admitted a q member s now \<and> reportable (code, reason, ev)
   | Inr m \<Rightarrow> admitted a q member s now \<and> member = Some m"
  using reasons(12-19)
  by (auto simp: precheck_def admitted_def validate_snapshot_def reportable_def
      split: option.splits)

lemma precheck_admitted:
  "admitted a q member s now \<Longrightarrow> \<exists>m. precheck a q member s now = Inr m \<and> member = Some m"
  using precheck_result [of a q member s now undefined]
  by (auto split: sum.splits prod.splits)

lemma precheck_refused:
  assumes "\<not> admitted a q member s now"
  shows "\<exists>code reason. precheck a q member s now = Inl (code, reason)
    \<and> reportable (code, reason, [])"
  using precheck_result [of a q member s now "[]"] assms
  by (cases "precheck a q member s now") auto

text \<open>The inputs of one decision, as their constructors and the code's limits allow them.\<close>

definition decision_inputs ::
  "access_request \<Rightarrow> member option \<Rightarrow> rev_snapshot \<Rightarrow> cap_envelope list \<Rightarrow> bool" where
  "decision_inputs q member s caps =
     (valid_access_request q \<and> valid_rev_snapshot s \<and> pred_option valid_member member
      \<and> length caps \<le> 64)"

lemma evaluate_cases:
  assumes "built_authorizer a" "decision_inputs q member s caps"
  shows "case evaluate_access pf a check g q member s caps now of (r, g') \<Rightarrow>
    \<exists>d. r = Inr d \<and> (dn_outcome d = AO_ALLOW \<longrightarrow> dn_revision d = Some (sn_revision s))
    \<and> (dn_code d = DC_ALLOW_CAPABILITY \<longrightarrow> (\<exists>e \<in> set caps. capability_allows pf a q s now e))
    \<and> (if \<not> admitted a q member s now then g' = g \<and> dn_outcome d = AO_DENY
       else g' = snd (check g (aq_tenant_id q) (sn_revision s) (state_digest pf s))
         \<and> (dn_outcome d = AO_ALLOW \<longleftrightarrow>
              fst (check g (aq_tenant_id q) (sn_revision s) (state_digest pf s)) = Inr True
              \<and> ((\<exists>m b. member = Some m \<and> b \<in> set (mb_role_bindings m) \<and> binding_allows a q b)
                 \<or> (\<exists>e \<in> set caps. capability_allows pf a q s now e))))"
proof -
  let ?rev = "if sn_tenant_id s = aq_tenant_id q then Some (sn_revision s) else None"
  have ok: "valid_request (aq_action q)" "0 \<le> sn_revision s" "length caps \<le> 64"
    "valid_access_request q" "valid_rev_snapshot s" "pred_option valid_member member"
    "\<forall>n. ?rev = Some n \<longrightarrow> 0 \<le> n"
    using assms(2) by (auto simp: decision_inputs_def valid_access_request_def valid_rev_snapshot_def)
  have denied: "\<exists>d. deny q now code reason [] ?rev = Inr d \<and> dn_outcome d = AO_DENY
      \<and> dn_code d = code" if "reportable (code, reason, [])" for code reason
    using deny_ok [of code reason "[]" ?rev q now] that ok(7) by (simp add: reportable_def)
  show ?thesis
  proof (cases "admitted a q member s now")
    case False
    then obtain code reason where p: "precheck a q member s now = Inl (code, reason)"
      "reportable (code, reason, [])" using precheck_refused by blast
    from denied [OF p(2)] p ok(3-6) False show ?thesis
      by (auto simp: evaluate_access_def reportable_def)
  next
    case True
    then obtain m where m: "precheck a q member s now = Inr m" "member = Some m"
      using precheck_admitted by blast
    have vm: "valid_member m" using ok(6) m(2) by simp
    obtain r g' where step: "check g (aq_tenant_id q) (sn_revision s) (state_digest pf s) = (r, g')"
      by fastforce
    consider x where "r = Inl x" | "r = Inr False" | "r = Inr True"
      by (cases r) auto
    then show ?thesis
    proof cases
      case 1
      have "reportable (DC_REVOCATION_STATE_INVALID, ''revocation revision guard failed closed'', [])"
        using reasons(20) by (simp add: reportable_def)
      from denied [OF this] 1 m step ok(3-6) True show ?thesis
        by (auto simp: evaluate_access_def)
    next
      case 2
      have "reportable (DC_REVOCATION_REVISION_ROLLBACK, ''revocation snapshot revision or same-revision state conflicts with the ''
                     @ ''tenant high-water mark'', [])"
        using reasons(21) by (simp add: reportable_def)
      from denied [OF this] 2 m step ok(3-6) True show ?thesis
        by (auto simp: evaluate_access_def)
    next
      case 3
      from decide_grants_result [OF assms(1) ok(1) vm ok(2,3), of pf now] obtain d where
        d: "decide_grants pf a q m s caps now = Inr d"
          "dn_outcome d = AO_ALLOW \<longleftrightarrow> (\<exists>b \<in> set (mb_role_bindings m). binding_allows a q b)
             \<or> (\<exists>e \<in> set caps. capability_allows pf a q s now e)"
          "dn_code d = DC_ALLOW_CAPABILITY \<longrightarrow> (\<exists>e \<in> set caps. capability_allows pf a q s now e)"
        by blast
      have "dn_outcome d = AO_ALLOW \<longrightarrow> dn_revision d = Some (sn_revision s)"
        using d(1) by (auto simp: decide_grants_def deny_def make_decision_def Let_def
            split: if_splits sum.splits prod.splits)
      with d 3 m step ok(3-6) True show ?thesis by (auto simp: evaluate_access_def)
    qed
  qed
qed

text \<open>
  C4. Authorization is default-deny and exact. For well-formed inputs the authorizer always
  answers, and it allows precisely when the requester is an active member of the one tenant of
  the request, the resource and a fresh revocation snapshot, the revision guard accepts that
  snapshot, and a role binding of the member or one presented capability allows the request.
\<close>

theorem access_decision_exact:
  assumes "built_authorizer a" and "decision_inputs q member s caps"
  shows "\<exists>d g'. evaluate_access pf a check g q member s caps now = (Inr d, g')
    \<and> (dn_outcome d = AO_ALLOW \<longleftrightarrow> admitted a q member s now
         \<and> fst (check g (aq_tenant_id q) (sn_revision s) (state_digest pf s)) = Inr True
         \<and> ((\<exists>m b. member = Some m \<and> b \<in> set (mb_role_bindings m) \<and> binding_allows a q b)
            \<or> (\<exists>e \<in> set caps. capability_allows pf a q s now e)))"
proof -
  obtain r g' where ev: "evaluate_access pf a check g q member s caps now = (r, g')" by fastforce
  with evaluate_cases [OF assms, where pf = pf and check = check and g = g and now = now] show ?thesis
    by (auto split: if_splits)
qed

lemma allows_rooted:
  assumes "capability_allows pf a q s now e" "valid_access_request q"
  shows "\<exists>root rest. ce_claims e = root # rest
    \<and> aq_action q \<in> covered (cl_action root) \<and> aq_resource q \<in> resources_in (cl_resource root)
    \<and> cl_tenant_id root = aq_tenant_id q
    \<and> pv_verify (vf_proof_verifier (az_verifier a)) (ce_root_proof e) (cl_issuer_id root)
        (root_payload pf (ce_protocol_version e) (ce_trust_domain e) (ce_policy_version e) root)
        now = Some True
    \<and> pv_authorize_root (vf_proof_verifier (az_verifier a)) (ce_root_proof e) root now = Some True"
proof -
  let ?leaf = "last (ce_claims e)"
  from assms(1) obtain vc where "verify pf (az_verifier a) e now True = Inr vc"
    by (auto simp: capability_allows_def)
  from verify_sound_chain [OF this] obtain root rest where
    cs: "ce_claims e = root # rest" "linked pf root rest"
    and signed: "pv_verify (vf_proof_verifier (az_verifier a)) (ce_root_proof e) (cl_issuer_id root)
        (root_payload pf (ce_protocol_version e) (ce_trust_domain e) (ce_policy_version e) root)
        now = Some True"
      "pv_authorize_root (vf_proof_verifier (az_verifier a)) (ce_root_proof e) root now = Some True"
    by (auto simp: sound_chain_def)
  have inside: "inside_claims ?leaf root"
    using claim_chain.narrowing_last [OF linked_narrowing [OF cs(2)]] cs(1) by simp
  have "aq_resource q \<in> resources_in (cl_resource ?leaf)"
    using assms by (auto simp: capability_allows_def resources_in_def valid_access_request_def)
  then show ?thesis
    using inside signed cs(1) assms(1) contains_scope_sound inside_same_tenant [OF inside]
    by (auto simp: inside_claims_def capability_allows_def)
qed

text \<open>
  C5. Every capability decision rests on a signed root. When the authorizer allows a request
  by capability, some presented chain starts at a root claim of the request's tenant whose proof
  the trust domain's verifier accepts and authorises at this instant, that root already grants
  the action and holds the resource, and no claim of the chain is revoked, premature or expired.
\<close>

theorem capability_access_is_rooted:
  assumes "built_authorizer a" and "decision_inputs q member s caps"
    and "evaluate_access pf a check g q member s caps now = (Inr d, g')"
    and "dn_code d = DC_ALLOW_CAPABILITY"
  shows "\<exists>e \<in> set caps. \<exists>root rest. ce_claims e = root # rest
    \<and> aq_action q \<in> covered (cl_action root) \<and> aq_resource q \<in> resources_in (cl_resource root)
    \<and> cl_tenant_id root = aq_tenant_id q
    \<and> pv_verify (vf_proof_verifier (az_verifier a)) (ce_root_proof e) (cl_issuer_id root)
        (root_payload pf (ce_protocol_version e) (ce_trust_domain e) (ce_policy_version e) root)
        now = Some True
    \<and> pv_authorize_root (vf_proof_verifier (az_verifier a)) (ce_root_proof e) root now = Some True
    \<and> (\<forall>c \<in> set (ce_claims e). \<not> snapshot_contains s (revocation_id c)
         \<and> cl_not_before c \<le> now \<and> now < cl_expires_at c)"
proof -
  have "\<exists>e \<in> set caps. capability_allows pf a q s now e"
    using evaluate_cases [OF assms(1,2), where pf = pf and check = check and g = g and now = now] assms(3,4) by simp
  then obtain e where e: "e \<in> set caps" "capability_allows pf a q s now e" ..
  have q: "valid_access_request q" using assms(2) by (simp add: decision_inputs_def)
  from allows_rooted [OF e(2) q] e(2) have "\<exists>root rest. ce_claims e = root # rest
    \<and> aq_action q \<in> covered (cl_action root) \<and> aq_resource q \<in> resources_in (cl_resource root)
    \<and> cl_tenant_id root = aq_tenant_id q
    \<and> pv_verify (vf_proof_verifier (az_verifier a)) (ce_root_proof e) (cl_issuer_id root)
        (root_payload pf (ce_protocol_version e) (ce_trust_domain e) (ce_policy_version e) root)
        now = Some True
    \<and> pv_authorize_root (vf_proof_verifier (az_verifier a)) (ce_root_proof e) root now = Some True
    \<and> (\<forall>c \<in> set (ce_claims e). \<not> snapshot_contains s (revocation_id c)
         \<and> cl_not_before c \<le> now \<and> now < cl_expires_at c)"
    unfolding capability_allows_def by blast
  with e(1) show ?thesis by (rule rev_bexI)
qed

section \<open>Replayed revocation state\<close>

definition asks ::
  "platform \<Rightarrow> authorizer \<Rightarrow> ('g \<Rightarrow> string \<Rightarrow> int \<Rightarrow> string \<Rightarrow> (guard_error + bool) \<times> 'g)
   \<Rightarrow> 'g \<Rightarrow> 'g \<Rightarrow> bool" where
  "asks pf a check g g' =
     (\<exists>q member s caps now. g' = snd (evaluate_access pf a check g q member s caps now))"

lemma evaluate_guard:
  "snd (evaluate_access pf a check g q member s caps now) = g
   \<or> (opaque_id (aq_tenant_id q) \<and> snd (evaluate_access pf a check g q member s caps now) =
        snd (check g (aq_tenant_id q) (sn_revision s) (state_digest pf s)))"
  by (auto simp: evaluate_access_def valid_access_request_def Let_def split: sum.splits prod.splits)

context revision_guard begin

lemma asks_view:
  assumes "(asks pf a check)\<^sup>*\<^sup>* g g'" "sound g"
  shows "sound g' \<and> (\<forall>u old. view g u = Some old \<longrightarrow>
    (\<exists>new. view g' u = Some new \<and> no_rollback old new))"
  using assms
proof (induction rule: rtranclp_induct)
  case base
  then show ?case by (auto simp: no_rollback_def)
next
  case (step x y)
  then obtain q member s caps now where y: "y = snd (evaluate_access pf a check x q member s caps now)"
    by (auto simp: asks_def)
  from evaluate_guard [of pf a check x q member s caps now] y
  have "y = x \<or> (\<exists>t n d. opaque_id t \<and> y = snd (check x t n d))" by blast
  then show ?case
  proof
    assume "y = x"
    with step show ?thesis by simp
  next
    assume "\<exists>t n d. opaque_id t \<and> y = snd (check x t n d)"
    then obtain t n d r where c: "opaque_id t" "check x t n d = (r, y)" by (metis prod.collapse)
    have x: "sound x" and old: "\<And>u old. view g u = Some old \<Longrightarrow>
        \<exists>new. view x u = Some new \<and> no_rollback old new"
      using step by auto
    show ?thesis
    proof (intro conjI allI impI)
      show "sound y" using check_sound [OF x c] .
      fix u v
      assume "view g u = Some v"
      with old obtain w where w: "view x u = Some w" "no_rollback v w" by blast
      with view_mono [OF x c w(1)] show "\<exists>new. view y u = Some new \<and> no_rollback v new"
        by (blast intro: no_rollback_trans)
    qed
  qed
qed

lemma replay_refused:
  assumes "built_authorizer a" "sound g"
    and "decision_inputs q m s caps" "evaluate_access pf a check g q m s caps now = (Inr d, g1)"
      "dn_outcome d = AO_ALLOW"
    and "(asks pf a check)\<^sup>*\<^sup>* g1 g2"
    and "decision_inputs q' m' s' caps'"
      "evaluate_access pf a check g2 q' m' s' caps' now' = (Inr d', g3)" "dn_outcome d' = AO_ALLOW"
    and "aq_tenant_id q' = aq_tenant_id q"
  shows "no_rollback (sn_revision s, state_digest pf s) (sn_revision s', state_digest pf s')"
proof -
  let ?t = "aq_tenant_id q"
  have t: "opaque_id ?t" using assms(3) by (simp add: decision_inputs_def valid_access_request_def)
  from evaluate_cases [OF assms(1,3), where pf = pf and check = check and g = g and now = now] assms(4,5)
  have one: "check g ?t (sn_revision s) (state_digest pf s) = (Inr True, g1)"
    by (auto split: if_splits intro: prod_eqI)
  from evaluate_cases [OF assms(1,7), where pf = pf and check = check and g = g2 and now = now']
    assms(8,9,10)
  have two: "check g2 ?t (sn_revision s') (state_digest pf s') = (Inr True, g3)"
    by (auto split: if_splits intro: prod_eqI)
  have g1: "sound g1" using check_sound assms(2) t one by blast
  have "view g1 ?t = Some (sn_revision s, state_digest pf s)"
    using accepted_view [OF assms(2) t one] by simp
  then obtain mid where mid: "view g2 ?t = Some mid"
    "no_rollback (sn_revision s, state_digest pf s) mid" and g2: "sound g2"
    using asks_view [OF assms(6) g1] by blast
  from accepted_newer [OF g2 t two mid(1)] mid(2) show ?thesis by (blast intro: no_rollback_trans)
qed

end

text \<open>
  A revocation cannot be undone by replaying an older snapshot. With the durable guard,
  once a request of a tenant was allowed on a revocation snapshot, no later decision, after any
  decisions in between, allows a request of that tenant on a snapshot with a smaller revision,
  or with the same revision and another set of revoked ids (its digest differs).
\<close>

theorem replayed_snapshot_refused:
  assumes "built_authorizer a" and "sqlite_sound g"
    and "decision_inputs q m s caps"
    and "evaluate_access pf a sqlite_check g q m s caps now = (Inr d, g1)"
    and "dn_outcome d = AO_ALLOW"
    and "(asks pf a sqlite_check)\<^sup>*\<^sup>* g1 g2"
    and "decision_inputs q' m' s' caps'"
    and "evaluate_access pf a sqlite_check g2 q' m' s' caps' now' = (Inr d', g3)"
    and "aq_tenant_id q' = aq_tenant_id q"
    and "sn_revision s' < sn_revision s
         \<or> sn_revision s' = sn_revision s \<and> state_digest pf s' \<noteq> state_digest pf s"
  shows "dn_outcome d' = AO_DENY"
proof (cases "dn_outcome d'")
  case AO_ALLOW
  from sqlite_revision_guard.replay_refused [OF assms(1-8) AO_ALLOW assms(9)] assms(10)
  show ?thesis by (auto simp: no_rollback_def)
qed

end
