(* ===== verification/Tenancy_Examples.thy ===== *)
theory Tenancy_Examples
  imports Tenancy_Authorizer
begin

text \<open>
  Concrete decisions of the authorizer: a role binding that allows, a capability chain that
  allows, and a replayed snapshot that is refused.
\<close>

definition sample_authorizer :: authorizer where
  "sample_authorizer = \<lparr>az_verifier = sample_verifier, az_trust_domain = ''a'',
     az_policy_version = ''b'', az_audience = ''a'', az_role_actions = [(ROLE_VIEWER, [''read''])],
     az_max_clock_skew = 30, az_max_revocation_age = 300\<rparr>"

definition sample_access :: access_request where
  "sample_access = \<lparr>aq_request_id = ''a'', aq_subject_id = ''a'', aq_tenant_id = ''a'',
     aq_action = ''read'', aq_resource = \<lparr>rr_tenant_id = ''a'', rr_resource_type = ''b'',
       rr_resource_id = ''b'', rr_workspace_id = Some ''b''\<rparr>\<rparr>"

definition sample_member :: "role_binding list \<Rightarrow> member" where
  "sample_member bs = \<lparr>mb_member_id = ''a'', mb_tenant_id = ''a'', mb_role_bindings = bs,
     mb_status = MS_ACTIVE\<rparr>"

definition sample_binding :: role_binding where
  "sample_binding = \<lparr>rb_role = ROLE_VIEWER, rb_scope = sample_scope None\<rparr>"

definition sample_snapshot :: "int \<Rightarrow> rev_snapshot" where
  "sample_snapshot n = empty_snapshot ''a'' 10 n"

lemma sample_authorizer_built: "built_authorizer sample_authorizer"
proof -
  have "new_authorizer sample_authorizer = Inr sample_authorizer"
    by (simp add: new_authorizer_def sample_authorizer_def sample_verifier_def read_action
        normal_grants_def require_text_def blank_iff py_strip_def py_space_def)
  then show ?thesis unfolding built_authorizer_def by blast
qed

lemma sample_inputs:
  assumes "bs = [] \<or> bs = [sample_binding]" "0 \<le> n" "length caps \<le> 64"
  shows "decision_inputs sample_access (Some (sample_member bs)) (sample_snapshot n) caps"
proof -
  have "valid_request ''read''" using read_action
    by (simp add: valid_request_def wildcard_def suffix_def)
  then show ?thesis
    using assms sample_texts sample_scope_valid [of None]
    by (auto simp: decision_inputs_def valid_access_request_def sample_access_def sample_member_def
        valid_rev_snapshot_def sample_snapshot_def empty_snapshot_def valid_resource_ref_def
        valid_member_def sample_binding_def sample_scope_def require_text_def)
qed

lemma sample_admitted:
  "admitted sample_authorizer sample_access (Some (sample_member bs)) (sample_snapshot n) 10"
  by (simp add: admitted_def sample_authorizer_def sample_access_def sample_member_def
      sample_snapshot_def empty_snapshot_def)

lemma sample_state_digest: "state_digest sample_platform s = sample_digest (CHR ''0'')"
  by (simp add: state_digest_def canonical_digest_def sample_platform_def sample_digest_def)

lemma sample_digest_valid: "sha256_text (sample_digest (CHR ''0''))"
  by (simp add: sha256_text_def sample_digest_def is_hex_def is_digit_def code_in_def list_all_iff)

lemma sample_binding_allows: "binding_allows sample_authorizer sample_access sample_binding"
  using read_action
  by (simp add: binding_allows_def sample_authorizer_def sample_access_def sample_binding_def
      role_grants_def covered_def action_covers_def contains_ref_def contains_fields_def
      sample_scope_def wildcard_def suffix_def)

theorem access_decision_exact_witness:
  "\<exists>d g'. evaluate_access sample_platform sample_authorizer mem_check [] sample_access
     (Some (sample_member [sample_binding])) (sample_snapshot 1) [] 10 = (Inr d, g')
   \<and> dn_outcome d = AO_ALLOW"
proof -
  have "fst (mem_check [] (aq_tenant_id sample_access) (sn_revision (sample_snapshot 1))
      (state_digest sample_platform (sample_snapshot 1))) = Inr True"
    by (simp add: mem_check_def sample_state_digest sample_digest_valid sample_snapshot_def
        empty_snapshot_def)
  moreover have "\<exists>m b. Some (sample_member [sample_binding]) = Some m
      \<and> b \<in> set (mb_role_bindings m) \<and> binding_allows sample_authorizer sample_access b"
    using sample_binding_allows by (simp add: sample_member_def)
  ultimately show ?thesis
    using access_decision_exact [OF sample_authorizer_built sample_inputs [of "[sample_binding]" 1 "[]"],
        where pf = sample_platform and check = mem_check and g = "[]" and now = 10] sample_admitted
    by auto
qed

lemma sample_capability_allows:
  "capability_allows sample_platform sample_authorizer sample_access (sample_snapshot n) 10 sample_envelope"
  using sample_verified [of True] read_action
  by (simp add: capability_allows_def sample_authorizer_def sample_envelope_def sample_access_def
      snapshot_contains_def sample_snapshot_def empty_snapshot_def)
    (simp add: sample_child_def sample_root_def cl_tenant_id_def sample_scope_def covered_def
      action_covers_def contains_ref_def contains_fields_def wildcard_def suffix_def)

text \<open>The capability decision with the durable guard, from an empty table.\<close>

definition sample_table :: sqlite_guard where
  "sample_table = \<lparr>sg_schema = True, sg_rows = []\<rparr>"

lemma sample_table_sound: "sqlite_sound sample_table"
  by (simp add: sqlite_sound_def sample_table_def)

lemma sample_table_check:
  "sqlite_check sample_table ''a'' 1 (sample_digest (CHR ''0'')) =
     (Inr True, \<lparr>sg_schema = True, sg_rows = [(''a'', 1, sample_digest (CHR ''0''))]\<rparr>)"
  using sample_digest_valid sample_texts
  by (simp add: sample_table_def sqlite_check_def sqlite_max_def persisted_def valid_row_def)

lemma sample_capability_decision:
  "\<exists>d g'. evaluate_access sample_platform sample_authorizer sqlite_check sample_table sample_access
     (Some (sample_member [])) (sample_snapshot 1) [sample_envelope] 10 = (Inr d, g')
   \<and> dn_outcome d = AO_ALLOW \<and> dn_code d = DC_ALLOW_CAPABILITY"
proof -
  have v: "valid_access_request sample_access" "valid_rev_snapshot (sample_snapshot 1)"
    "pred_option valid_member (Some (sample_member []))"
    using sample_inputs [of "[]" 1 "[]"] by (simp_all add: decision_inputs_def)
  obtain m where "precheck sample_authorizer sample_access (Some (sample_member [])) (sample_snapshot 1) 10
      = Inr m" "Some (sample_member []) = Some m"
    using precheck_admitted [OF sample_admitted] by blast
  then have m: "precheck sample_authorizer sample_access (Some (sample_member [])) (sample_snapshot 1) 10
      = Inr (sample_member [])" by simp
  have rev: "aq_tenant_id sample_access = ''a''" "sn_revision (sample_snapshot 1) = 1"
    by (simp_all add: sample_access_def sample_snapshot_def empty_snapshot_def)
  from capability_pass_result [OF sample_authorizer_built, of sample_access sample_platform
      "sample_snapshot 1" 10 "[sample_envelope]"] v(1) sample_capability_allows
  obtain ev fs where pass: "capability_pass sample_platform sample_authorizer sample_access
      (sample_snapshot 1) 10 [sample_envelope] = Inr (ev, fs)" "ev \<noteq> []" "length ev \<le> 1"
    by (auto simp: valid_access_request_def)
  from allow_ok [of DC_ALLOW_CAPABILITY, OF _ reasons(9), of ev 1 sample_access 10] pass(3)
  obtain d where d: "make_decision AO_ALLOW DC_ALLOW_CAPABILITY
      ''request is covered by a fully verified capability chain'' sample_access 10 ev (Some 1) = Inr d"
    "dn_outcome d = AO_ALLOW" "dn_code d = DC_ALLOW_CAPABILITY" by auto
  have "decide_grants sample_platform sample_authorizer sample_access (sample_member [])
      (sample_snapshot 1) [sample_envelope] 10 = Inr d"
    using pass(1,2) d(1) by (simp add: decide_grants_def sample_member_def rev del: capability_pass.simps)
  with v m d(2,3) show ?thesis
    by (simp add: evaluate_access_def rev sample_state_digest sample_table_check)
qed

theorem capability_access_is_rooted_witness:
  "aq_action sample_access \<in> covered (cl_action sample_root)
   \<and> aq_resource sample_access \<in> resources_in (cl_resource sample_root)"
proof -
  obtain d g' where "evaluate_access sample_platform sample_authorizer sqlite_check sample_table
      sample_access (Some (sample_member [])) (sample_snapshot 1) [sample_envelope] 10 = (Inr d, g')"
    "dn_code d = DC_ALLOW_CAPABILITY"
    using sample_capability_decision by blast
  from capability_access_is_rooted [OF sample_authorizer_built sample_inputs this]
  show ?thesis by (simp add: sample_envelope_def)
qed

theorem replayed_snapshot_refused_witness:
  "\<exists>g d'. fst (evaluate_access sample_platform sample_authorizer sqlite_check g sample_access
     (Some (sample_member [])) (sample_snapshot 0) [sample_envelope] 10) = Inr d'
   \<and> dn_outcome d' = AO_DENY"
proof -
  let ?ev = "\<lambda>g n. evaluate_access sample_platform sample_authorizer sqlite_check g sample_access
     (Some (sample_member [])) (sample_snapshot n) [sample_envelope] 10"
  note inputs = sample_inputs [of "[]" _ "[sample_envelope]"]
  obtain d g' where one: "?ev sample_table 1 = (Inr d, g')" "dn_outcome d = AO_ALLOW"
    using sample_capability_decision by blast
  obtain d' g'' where two: "?ev g' 0 = (Inr d', g'')"
    using access_decision_exact [OF sample_authorizer_built inputs] by fastforce
  have "dn_outcome d' = AO_DENY"
    by (rule replayed_snapshot_refused [OF sample_authorizer_built sample_table_sound inputs one(1,2)
          rtranclp.rtrancl_refl inputs two refl])
      (simp_all add: sample_snapshot_def empty_snapshot_def)
  then show ?thesis by (intro exI [of _ g'] exI [of _ d'] conjI) (simp_all only: two fst_conv)
qed

end
