(* ===== verification/Tables.thy ===== *)
theory Tables
  imports Prelude "HOL-Library.Product_Lexorder"
begin

text \<open>
  Tables of the SQLite stores: a table is the list of its rows, an \<open>UPDATE ... WHERE\<close> returns
  its row count and the new rows, an \<open>ORDER BY\<close> is a stable sort. A key that no two rows share
  turns an update of one row into the replacement of that row.
\<close>

definition update_where :: "('r \<Rightarrow> bool) \<Rightarrow> ('r \<Rightarrow> 'r) \<Rightarrow> 'r list \<Rightarrow> nat \<times> 'r list" where
  "update_where P f rows = (length (filter P rows), map (\<lambda>r. if P r then f r else r) rows)"

definition replace_row :: "('r \<Rightarrow> 'k) \<Rightarrow> 'k \<Rightarrow> 'r \<Rightarrow> 'r list \<Rightarrow> 'r list" where
  "replace_row key k new rows = map (\<lambda>r. if key r = k then new else r) rows"

definition first_by :: "('r \<Rightarrow> 'k :: linorder) \<Rightarrow> 'r list \<Rightarrow> 'r option" where
  "first_by key rows = (case sort_key key rows of [] \<Rightarrow> None | r # _ \<Rightarrow> Some r)"

definition row_of :: "('r \<Rightarrow> 'k) \<Rightarrow> 'k \<Rightarrow> 'r list \<Rightarrow> 'r option" where
  "row_of key k rows = (case filter (\<lambda>r. key r = k) rows of [] \<Rightarrow> None | r # _ \<Rightarrow> Some r)"

named_theorems table_simps

lemma pred_option_code [code]: "pred_option P None = True" "pred_option P (Some x) = P x"
  by simp_all

lemma filter_key:
  assumes "distinct (map key rows)" "r \<in> set rows" "P r" "\<forall>x. P x \<longrightarrow> key x = key r"
  shows "filter P rows = [r]"
proof -
  from assms(2) obtain a b where rows: "rows = a @ r # b" by (meson split_list)
  have "\<forall>x \<in> set a \<union> set b. key x \<noteq> key r"
    using assms(1) by (auto simp: rows image_iff)
  then have "filter P a = []" "filter P b = []"
    using assms(4) by (auto simp: filter_empty_conv)
  with assms(3) show ?thesis by (simp add: rows)
qed

lemma key_inj: "distinct (map key rows) \<Longrightarrow> x \<in> set rows \<Longrightarrow> y \<in> set rows \<Longrightarrow> key x = key y \<Longrightarrow> x = y"
  by (meson distinct_map inj_onD)

lemma update_where_key:
  assumes "distinct (map key rows)" "r \<in> set rows" "P r" "\<forall>x. P x \<longrightarrow> key x = key r"
  shows "update_where P f rows = (1, replace_row key (key r) (f r) rows)"
proof -
  have "(if P x then f x else x) = (if key x = key r then f r else x)" if "x \<in> set rows" for x
  proof (cases "x = r")
    case False
    then have "key x \<noteq> key r" using key_inj assms(1,2) that by metis
    with assms(4) show ?thesis by auto
  qed (simp add: assms(3))
  then show ?thesis by (simp add: update_where_def replace_row_def filter_key [OF assms])
qed

lemma replace_row_keys [table_simps]:
  "key new = k \<Longrightarrow> map key (replace_row key k new rows) = map key rows"
  by (auto simp: replace_row_def)

lemma replace_row_other_keys [table_simps]:
  assumes "distinct (map key rows)" "r \<in> set rows" "other new = other r"
  shows "map other (replace_row key (key r) new rows) = map other rows"
proof -
  have "other (if key x = key r then new else x) = other x" if "x \<in> set rows" for x
    using key_inj [OF assms(1) that assms(2)] assms(3) by auto
  then show ?thesis by (simp add: replace_row_def)
qed

lemma in_replace_row:
  "x \<in> set (replace_row key k new rows) \<Longrightarrow> x = new \<or> (x \<in> set rows \<and> key x \<noteq> k)"
  by (auto simp: replace_row_def)

lemma in_replace_row_iff:
  assumes "r \<in> set rows" "key r = k"
  shows "x \<in> set (replace_row key k new rows) \<longleftrightarrow> x = new \<or> (x \<in> set rows \<and> key x \<noteq> k)"
  using assms by (auto simp: replace_row_def)

lemma row_of_Some: "row_of key k rows = Some r \<Longrightarrow> r \<in> set rows \<and> key r = k"
  by (induction rows) (auto simp: row_of_def split: if_splits)

lemma row_of_None: "row_of key k rows = None \<longleftrightarrow> k \<notin> key ` set rows"
  by (induction rows) (auto simp: row_of_def)

lemma row_of_in:
  assumes "distinct (map key rows)" "r \<in> set rows"
  shows "row_of key (key r) rows = Some r"
  using filter_key [OF assms, of "\<lambda>x. key x = key r"] by (simp add: row_of_def)

lemma row_of_replace [table_simps]:
  assumes "key new = k" "k \<in> key ` set rows"
  shows "row_of key k' (replace_row key k new rows) = (if k' = k then Some new else row_of key k' rows)"
proof -
  have "row_of key k' (replace_row key k new rs) =
      (if k' = k \<and> k \<in> key ` set rs then Some new else row_of key k' rs)" for rs
    by (induction rs) (auto simp: replace_row_def row_of_def assms(1))
  with assms(2) show ?thesis by simp
qed

lemma row_of_append [table_simps]:
  "row_of key k (rows @ [r]) = (case row_of key k rows of None \<Rightarrow> if key r = k then Some r else None
     | Some x \<Rightarrow> Some x)"
  by (auto simp: row_of_def split: list.splits)

lemma first_by_Some:
  assumes "first_by key rows = Some r"
  shows "r \<in> set rows"
proof -
  from assms obtain rs where "sort_key key rows = r # rs"
    by (cases "sort_key key rows") (simp_all add: first_by_def)
  then have "r \<in> set (sort_key key rows)" by simp
  then show ?thesis by simp
qed

lemma first_by_None: "first_by key rows = None \<longleftrightarrow> rows = []"
proof -
  have "sort_key key rows = [] \<longleftrightarrow> rows = []" by (metis length_0_conv length_sort)
  then show ?thesis by (cases "sort_key key rows") (simp_all add: first_by_def)
qed

lemma first_by_least:
  assumes "first_by key rows = Some r" "x \<in> set rows"
  shows "key r \<le> key x"
proof -
  from assms(1) obtain rs where rs: "sort_key key rows = r # rs"
    by (cases "sort_key key rows") (simp_all add: first_by_def)
  have "sorted (map key (sort_key key rows))" "x \<in> set (sort_key key rows)"
    using assms(2) by simp_all
  then show ?thesis by (auto simp: rs)
qed

end
