(* ===== verification/Attempts.thy ===== *)
theory Attempts
  imports Tables Tenancy_Grants
begin

text \<open>
  The durable invocation queue of \<open>attempts.py\<close>: its two tables, the row validators and every
  operation that runs inside one transaction. A timestamp (canonical UTC text with
  microseconds, whose order is the order of the instants) is an \<open>int\<close>, microseconds since the
  epoch. A transaction that raises is rolled back: an operation returns the error, or its
  answer with the new tables. The store's clock, the fresh attempt id and the fresh lease token
  are arguments, SHA-256 is the parameter \<open>sha\<close>. What the wrapper around a transaction does
  when a commit fails or a signal arrives is not modelled.
\<close>

datatype store_error = StoreConflict string | StoreIntegrity string | StoreClock string
  | StoreRuntime string | StoreValue string | StoreUnique string

definition max_sqlite_integer :: int where
  "max_sqlite_integer = 2 ^ 63 - 1"

definition required_text :: "string \<Rightarrow> nat \<Rightarrow> bool" where
  "required_text s maximum_bytes =
     (\<not> blank s \<and> utf8_len s \<le> maximum_bytes
      \<and> list_all (\<lambda>c. (32 :: nat) \<le> of_char c \<and> (of_char c :: nat) \<noteq> 127) s)"

abbreviation identity_text :: "string \<Rightarrow> bool" where
  "identity_text s \<equiv> required_text s 4096"

text \<open>
  The last instant a Python datetime can hold, and the deadline of a lease. The length of the
  lease is the number of microseconds that \<open>timedelta(seconds=...)\<close> rounds it to.
\<close>

definition max_instant :: int where
  "max_instant = 253402300799999999"

definition lease_deadline :: "int \<Rightarrow> int \<Rightarrow> store_error + int" where
  "lease_deadline now lease =
     (if lease \<le> 0
        then Inl (StoreValue ''lease_seconds is below the durable timestamp precision'')
      else if now + lease > max_instant
        then Inl (StoreValue ''lease_seconds exceeds the supported datetime range'')
      else Inr (now + lease))"

definition stored_error :: "string \<Rightarrow> store_error + string" where
  "stored_error e =
     (if \<not> required_text e 16384 then Inl (StoreValue ''error'')
      else Inr (take 4096 (py_strip e)))"

definition clock_behind :: "int \<Rightarrow> int list \<Rightarrow> bool" where
  "clock_behind now durable = list_ex (\<lambda>t. now < t) durable"

section \<open>Rows\<close>

datatype invocation_status = IS_QUEUED | IS_RUNNING | IS_SUCCEEDED | IS_FAILED | IS_CANCELED

datatype attempt_status = AT_RUNNING | AT_SUCCEEDED | AT_FAILED | AT_EXPIRED | AT_CANCELED

record job_spec =
  sp_session_id :: string
  sp_plan_id :: string
  sp_task_id :: string
  sp_agent_id :: string
  sp_idempotency_key :: string
  sp_payload_digest :: string
  sp_invocation_id :: string
  sp_priority :: int
  sp_max_attempts :: int
  sp_available_at :: "int option"

definition check_job_spec :: "job_spec \<Rightarrow> store_error + job_spec" where
  "check_job_spec s =
     (if \<not> (identity_text (sp_session_id s) \<and> identity_text (sp_plan_id s)
           \<and> identity_text (sp_task_id s) \<and> identity_text (sp_agent_id s)
           \<and> identity_text (sp_idempotency_key s) \<and> identity_text (sp_invocation_id s))
        then Inl (StoreValue ''identity'')
      else if \<not> sha256_text (sp_payload_digest s)
        then Inl (StoreValue ''payload_digest must be a lowercase SHA-256 hex digest'')
      else if \<not> (0 \<le> sp_priority s \<and> sp_priority s \<le> 100)
        then Inl (StoreValue ''priority must be between 0 and 100'')
      else if \<not> (1 \<le> sp_max_attempts s \<and> sp_max_attempts s \<le> max_sqlite_integer)
        then Inl (StoreValue ''max_attempts must fit a positive SQLite integer'')
      else Inr s)"

record job =
  jb_invocation_id :: string
  jb_session_id :: string
  jb_plan_id :: string
  jb_task_id :: string
  jb_agent_id :: string
  jb_idempotency_key :: string
  jb_payload_digest :: string
  jb_priority :: int
  jb_status :: invocation_status
  jb_max_attempts :: int
  jb_attempts_started :: int
  jb_lease_epoch :: int
  jb_requested_available_at :: "int option"
  jb_available_at :: int
  jb_created_at :: int
  jb_updated_at :: int
  jb_lease_owner :: "string option"
  jb_lease_token_digest :: "string option"
  jb_lease_expires_at :: "int option"
  jb_heartbeat_at :: "int option"
  jb_result_ref :: "string option"
  jb_last_error :: "string option"
  jb_finished_at :: "int option"

record attempt =
  at_attempt_id :: string
  at_invocation_id :: string
  at_attempt_number :: int
  at_lease_epoch :: int
  at_worker_id :: string
  at_lease_token_digest :: string
  at_status :: attempt_status
  at_started_at :: int
  at_heartbeat_at :: int
  at_lease_expires_at :: int
  at_finished_at :: "int option"
  at_error :: "string option"
  at_result_ref :: "string option"

record lease =
  ls_invocation_id :: string
  ls_session_id :: string
  ls_plan_id :: string
  ls_task_id :: string
  ls_agent_id :: string
  ls_idempotency_key :: string
  ls_payload_digest :: string
  ls_attempt_id :: string
  ls_attempt_number :: int
  ls_max_attempts :: int
  ls_lease_epoch :: int
  ls_worker_id :: string
  ls_lease_token :: string
  ls_claimed_at :: int
  ls_lease_expires_at :: int

text \<open>The integer and text ranges of a job row, then the conditions that relate its fields.\<close>

definition job_fields_ok :: "job \<Rightarrow> bool" where
  "job_fields_ok j =
     (identity_text (jb_invocation_id j) \<and> identity_text (jb_session_id j)
      \<and> identity_text (jb_plan_id j) \<and> identity_text (jb_task_id j) \<and> identity_text (jb_agent_id j)
      \<and> identity_text (jb_idempotency_key j) \<and> sha256_text (jb_payload_digest j)
      \<and> 0 \<le> jb_priority j \<and> jb_priority j \<le> 100
      \<and> 1 \<le> jb_max_attempts j \<and> jb_max_attempts j \<le> max_sqlite_integer
      \<and> 0 \<le> jb_attempts_started j \<and> jb_attempts_started j \<le> jb_max_attempts j
      \<and> 0 \<le> jb_lease_epoch j \<and> jb_lease_epoch j \<le> max_sqlite_integer
      \<and> pred_option identity_text (jb_lease_owner j)
      \<and> pred_option sha256_text (jb_lease_token_digest j)
      \<and> pred_option (\<lambda>e. required_text e 16384 \<and> length e \<le> 4096) (jb_last_error j)
      \<and> pred_option (\<lambda>r. required_text r 16384) (jb_result_ref j))"

definition lease_shape_ok :: "job \<Rightarrow> bool" where
  "lease_shape_ok j =
     (if jb_status j = IS_RUNNING
      then jb_lease_owner j \<noteq> None \<and> jb_lease_token_digest j \<noteq> None
        \<and> jb_lease_expires_at j \<noteq> None \<and> jb_heartbeat_at j \<noteq> None
      else jb_lease_owner j = None \<and> jb_lease_token_digest j = None
        \<and> jb_lease_expires_at j = None \<and> jb_heartbeat_at j = None)"

definition terminal_job :: "job \<Rightarrow> bool" where
  "terminal_job j = (jb_status j \<in> {IS_SUCCEEDED, IS_FAILED, IS_CANCELED})"

definition job_times_ok :: "job \<Rightarrow> bool" where
  "job_times_ok j =
     (jb_created_at j \<le> jb_updated_at j
      \<and> pred_option (\<lambda>f. jb_created_at j \<le> f \<and> f \<le> jb_updated_at j) (jb_finished_at j)
      \<and> (jb_status j = IS_RUNNING \<longrightarrow>
           (\<exists>h \<in> set_option (jb_heartbeat_at j). \<exists>x \<in> set_option (jb_lease_expires_at j).
              jb_created_at j \<le> h \<and> h \<le> jb_updated_at j \<and> h < x \<and> jb_updated_at j < x)))"

definition job_ok :: "job \<Rightarrow> bool" where
  "job_ok j =
     (job_fields_ok j
      \<and> jb_attempts_started j \<le> jb_lease_epoch j
      \<and> (jb_attempts_started j = 0 \<longrightarrow> jb_lease_epoch j = 0)
      \<and> (jb_status j = IS_FAILED \<longrightarrow> jb_attempts_started j = jb_max_attempts j)
      \<and> (jb_status j = IS_QUEUED \<and> 0 < jb_attempts_started j \<longrightarrow>
           jb_attempts_started j < jb_max_attempts j)
      \<and> lease_shape_ok j
      \<and> (jb_status j = IS_RUNNING \<longrightarrow> jb_attempts_started j \<noteq> 0)
      \<and> (terminal_job j \<longleftrightarrow> jb_finished_at j \<noteq> None)
      \<and> (jb_status j \<in> {IS_SUCCEEDED, IS_FAILED} \<longrightarrow> jb_attempts_started j \<noteq> 0)
      \<and> (jb_attempts_started j = 0 \<longrightarrow> jb_last_error j = None)
      \<and> (jb_status j = IS_FAILED \<or> jb_status j = IS_QUEUED \<and> 0 < jb_attempts_started j \<longrightarrow>
           jb_last_error j \<noteq> None)
      \<and> job_times_ok j
      \<and> (jb_result_ref j \<noteq> None \<longrightarrow> jb_status j = IS_SUCCEEDED))"

definition row_to_job :: "job \<Rightarrow> store_error + job" where
  "row_to_job j =
     (if job_ok j then Inr j else Inl (StoreIntegrity ''persisted invocation job is malformed''))"

definition attempt_ok :: "attempt \<Rightarrow> bool" where
  "attempt_ok a =
     (identity_text (at_attempt_id a) \<and> identity_text (at_invocation_id a)
      \<and> identity_text (at_worker_id a) \<and> sha256_text (at_lease_token_digest a)
      \<and> 1 \<le> at_attempt_number a \<and> at_attempt_number a \<le> max_sqlite_integer
      \<and> 1 \<le> at_lease_epoch a \<and> at_lease_epoch a \<le> max_sqlite_integer
      \<and> at_attempt_number a \<le> at_lease_epoch a
      \<and> (at_status a = AT_RUNNING \<longleftrightarrow> at_finished_at a = None)
      \<and> pred_option (\<lambda>e. required_text e 16384 \<and> length e \<le> 4096) (at_error a)
      \<and> (at_status a \<in> {AT_RUNNING, AT_SUCCEEDED} \<longrightarrow> at_error a = None)
      \<and> (at_status a \<in> {AT_FAILED, AT_EXPIRED} \<longrightarrow> at_error a \<noteq> None)
      \<and> at_started_at a \<le> at_heartbeat_at a \<and> at_heartbeat_at a < at_lease_expires_at a
      \<and> pred_option (\<lambda>f. at_started_at a \<le> f \<and> at_heartbeat_at a \<le> f
           \<and> (at_status a \<in> {AT_SUCCEEDED, AT_FAILED} \<longrightarrow> f < at_lease_expires_at a)
           \<and> (at_status a = AT_EXPIRED \<longrightarrow> at_lease_expires_at a \<le> f)) (at_finished_at a)
      \<and> pred_option (\<lambda>r. required_text r 16384) (at_result_ref a)
      \<and> (at_result_ref a \<noteq> None \<longrightarrow> at_status a = AT_SUCCEEDED))"

definition row_to_attempt :: "attempt \<Rightarrow> store_error + attempt" where
  "row_to_attempt a =
     (if attempt_ok a then Inr a
      else Inl (StoreIntegrity ''persisted invocation attempt is malformed''))"

record job_store =
  js_jobs :: "job list"
  js_attempts :: "attempt list"

section \<open>Enqueue\<close>

definition existing_matches :: "job \<Rightarrow> job_spec \<Rightarrow> store_error + bool" where
  "existing_matches row s = bind_res (row_to_job row) (\<lambda>j. Inr
     (jb_session_id j = sp_session_id s \<and> jb_plan_id j = sp_plan_id s
      \<and> jb_task_id j = sp_task_id s \<and> jb_agent_id j = sp_agent_id s
      \<and> jb_idempotency_key j = sp_idempotency_key s \<and> jb_payload_digest j = sp_payload_digest s
      \<and> jb_priority j = sp_priority s \<and> jb_max_attempts j = sp_max_attempts s
      \<and> jb_requested_available_at j = sp_available_at s))"

definition same_identity :: "job_spec \<Rightarrow> job \<Rightarrow> bool" where
  "same_identity s j =
     (jb_invocation_id j = sp_invocation_id s
      \<or> (jb_session_id j = sp_session_id s \<and> jb_task_id j = sp_task_id s)
      \<or> (jb_session_id j = sp_session_id s \<and> jb_idempotency_key j = sp_idempotency_key s))"

definition new_job :: "job_spec \<Rightarrow> int \<Rightarrow> job" where
  "new_job s now = \<lparr>jb_invocation_id = sp_invocation_id s, jb_session_id = sp_session_id s,
     jb_plan_id = sp_plan_id s, jb_task_id = sp_task_id s, jb_agent_id = sp_agent_id s,
     jb_idempotency_key = sp_idempotency_key s, jb_payload_digest = sp_payload_digest s,
     jb_priority = sp_priority s, jb_status = IS_QUEUED, jb_max_attempts = sp_max_attempts s,
     jb_attempts_started = 0, jb_lease_epoch = 0, jb_requested_available_at = sp_available_at s,
     jb_available_at = (case sp_available_at s of None \<Rightarrow> now | Some t \<Rightarrow> t),
     jb_created_at = now, jb_updated_at = now, jb_lease_owner = None,
     jb_lease_token_digest = None, jb_lease_expires_at = None, jb_heartbeat_at = None,
     jb_result_ref = None, jb_last_error = None, jb_finished_at = None\<rparr>"

definition enqueue :: "job_spec \<Rightarrow> int \<Rightarrow> job_store \<Rightarrow> store_error + job \<times> job_store" where
  "enqueue s now st =
     (case filter (same_identity s) (js_jobs st) of
        row # rows \<Rightarrow>
          (if rows \<noteq> [] then Inl (StoreConflict ''already bound to different work'')
           else bind_res (existing_matches row s) (\<lambda>same.
             if \<not> same then Inl (StoreConflict ''already bound to different work'')
             else bind_res (row_to_job row) (\<lambda>j. Inr (j, st))))
      | [] \<Rightarrow> bind_res (row_to_job (new_job s now)) (\<lambda>j.
          Inr (j, st\<lparr>js_jobs := js_jobs st @ [new_job s now]\<rparr>)))"

section \<open>Reads\<close>

definition get_job :: "string \<Rightarrow> job_store \<Rightarrow> store_error + job option" where
  "get_job invocation_id st =
     (if \<not> identity_text invocation_id then Inl (StoreValue ''invocation_id'')
      else case row_of jb_invocation_id invocation_id (js_jobs st) of
        None \<Rightarrow> Inr None
      | Some row \<Rightarrow> bind_res (row_to_job row) (\<lambda>j. Inr (Some j)))"

definition get_for_task :: "string \<Rightarrow> string \<Rightarrow> job_store \<Rightarrow> store_error + job option" where
  "get_for_task session task st =
     (if \<not> identity_text session then Inl (StoreValue ''session_id'')
      else if \<not> identity_text task then Inl (StoreValue ''task_id'')
      else case filter (\<lambda>j. jb_session_id j = session \<and> jb_task_id j = task) (js_jobs st) of
        [] \<Rightarrow> Inr None
      | row # _ \<Rightarrow> bind_res (row_to_job row) (\<lambda>j. Inr (Some j)))"

definition attempts_of :: "string \<Rightarrow> job_store \<Rightarrow> attempt list" where
  "attempts_of invocation_id st =
     sort_key at_attempt_number (filter (\<lambda>a. at_invocation_id a = invocation_id) (js_attempts st))"

definition list_attempts :: "string \<Rightarrow> job_store \<Rightarrow> store_error + attempt list" where
  "list_attempts invocation_id st =
     (if \<not> identity_text invocation_id then Inl (StoreValue ''invocation_id'')
      else map_res row_to_attempt (attempts_of invocation_id st))"

definition attempts_page ::
  "string \<Rightarrow> int \<Rightarrow> int \<Rightarrow> job_store \<Rightarrow> store_error + attempt list" where
  "attempts_page invocation_id after limit st =
     (if \<not> identity_text invocation_id then Inl (StoreValue ''invocation_id'')
      else if \<not> (0 \<le> after \<and> after \<le> max_sqlite_integer) then Inl (StoreValue ''after_attempt_number'')
      else if \<not> (1 \<le> limit \<and> limit \<le> 1000) then Inl (StoreValue ''limit must be between 1 and 1000'')
      else map_res row_to_attempt
        (take (nat limit) (filter (\<lambda>a. after < at_attempt_number a) (attempts_of invocation_id st))))"

end
