(* ===== verification/Attempt_Leases.thy ===== *)
theory Attempt_Leases
  imports Attempts
begin

text \<open>
  The leases of \<open>attempts.py\<close>: claiming, heartbeat, completion, failure and the recovery of
  expired leases, each the body of one transaction on the two tables.
\<close>

section \<open>Ownership\<close>

definition load_running_attempt ::
  "job_store \<Rightarrow> string \<Rightarrow> int \<Rightarrow> int \<Rightarrow> string option \<Rightarrow> store_error + attempt" where
  "load_running_attempt st invocation number epoch attempt_id =
     (case filter (\<lambda>a. at_invocation_id a = invocation \<and> at_attempt_number a = number
              \<and> at_lease_epoch a = epoch \<and> at_status a = AT_RUNNING
              \<and> (attempt_id = None \<or> attempt_id = Some (at_attempt_id a))) (js_attempts st) of
        [a] \<Rightarrow> row_to_attempt a
      | _ \<Rightarrow> Inl (StoreIntegrity
          ''running invocation does not have exactly one owned attempt''))"

definition owner_matches ::
  "attempt \<Rightarrow> string \<Rightarrow> int \<Rightarrow> int \<Rightarrow> string \<Rightarrow> string \<Rightarrow> int \<Rightarrow> int \<Rightarrow> string option \<Rightarrow> bool" where
  "owner_matches a invocation number epoch worker digest heartbeat expires attempt_id =
     (at_invocation_id a = invocation \<and> at_attempt_number a = number \<and> at_lease_epoch a = epoch
      \<and> at_worker_id a = worker \<and> at_lease_token_digest a = digest
      \<and> at_heartbeat_at a = heartbeat \<and> at_lease_expires_at a = expires
      \<and> (attempt_id = None \<or> attempt_id = Some (at_attempt_id a)))"

definition check_lease :: "lease \<Rightarrow> store_error + lease" where
  "check_lease l =
     (if \<not> (identity_text (ls_invocation_id l) \<and> identity_text (ls_session_id l)
           \<and> identity_text (ls_plan_id l) \<and> identity_text (ls_task_id l)
           \<and> identity_text (ls_agent_id l) \<and> identity_text (ls_idempotency_key l)
           \<and> identity_text (ls_attempt_id l) \<and> identity_text (ls_worker_id l))
        then Inl (StoreValue ''lease identity'')
      else if \<not> sha256_text (ls_payload_digest l)
        then Inl (StoreValue ''lease payload_digest must be canonical SHA-256'')
      else if \<not> (list_all (\<lambda>n. 1 \<le> n \<and> n \<le> max_sqlite_integer)
             [ls_attempt_number l, ls_max_attempts l, ls_lease_epoch l])
        then Inl (StoreValue ''lease number is outside its supported range'')
      else if \<not> identity_text (ls_lease_token l) then Inl (StoreValue ''lease_token'')
      else if ls_lease_expires_at l \<le> ls_claimed_at l
        then Inl (StoreValue ''lease expiry must follow its claim'')
      else Inr l)"

definition lease_binds :: "lease \<Rightarrow> job \<Rightarrow> attempt \<Rightarrow> bool" where
  "lease_binds l j a =
     (ls_invocation_id l = jb_invocation_id j \<and> ls_session_id l = jb_session_id j
      \<and> ls_plan_id l = jb_plan_id j \<and> ls_task_id l = jb_task_id j \<and> ls_agent_id l = jb_agent_id j
      \<and> ls_idempotency_key l = jb_idempotency_key j \<and> ls_payload_digest l = jb_payload_digest j
      \<and> ls_attempt_id l = at_attempt_id a \<and> ls_attempt_number l = jb_attempts_started j
      \<and> ls_attempt_number l = at_attempt_number a \<and> ls_max_attempts l = jb_max_attempts j
      \<and> ls_lease_epoch l = jb_lease_epoch j \<and> ls_lease_epoch l = at_lease_epoch a
      \<and> ls_worker_id l = at_worker_id a \<and> ls_claimed_at l = at_started_at a)"

text \<open>The \<open>WHERE\<close> of an owner: the running row, still leased to this owner at this instant.\<close>

definition owned_where :: "(string \<Rightarrow> string) \<Rightarrow> lease \<Rightarrow> int \<Rightarrow> job \<Rightarrow> bool" where
  "owned_where sha l now j =
     (jb_invocation_id j = ls_invocation_id l \<and> jb_status j = IS_RUNNING
      \<and> jb_lease_owner j = Some (ls_worker_id l)
      \<and> jb_lease_token_digest j = Some (sha (ls_lease_token l))
      \<and> jb_lease_epoch j = ls_lease_epoch l
      \<and> (case jb_lease_expires_at j of None \<Rightarrow> False | Some x \<Rightarrow> now < x))"

definition active_owned_row ::
  "(string \<Rightarrow> string) \<Rightarrow> lease \<Rightarrow> int \<Rightarrow> job_store \<Rightarrow> store_error + job option" where
  "active_owned_row sha l now st =
     (case filter (owned_where sha l now) (js_jobs st) of
        [] \<Rightarrow> Inr None
      | row # _ \<Rightarrow> bind_res (row_to_job row) (\<lambda>j. Inr (Some j)))"

text \<open>The checks heartbeat, completion and failure share, on the row the lease owns.\<close>

definition owned_attempt ::
  "(string \<Rightarrow> string) \<Rightarrow> lease \<Rightarrow> int \<Rightarrow> job_store \<Rightarrow> job \<Rightarrow> store_error + attempt" where
  "owned_attempt sha l now st j =
     (case (jb_heartbeat_at j, jb_lease_expires_at j) of
        (Some hb, Some expires) \<Rightarrow>
          bind_res (load_running_attempt st (ls_invocation_id l) (jb_attempts_started j)
              (ls_lease_epoch l) (Some (ls_attempt_id l))) (\<lambda>a.
            if \<not> owner_matches a (ls_invocation_id l) (jb_attempts_started j) (ls_lease_epoch l)
                 (ls_worker_id l) (sha (ls_lease_token l)) hb expires (Some (ls_attempt_id l))
              then Inl (StoreIntegrity ''running invocation and attempt ownership records disagree'')
            else if \<not> lease_binds l j a
              then Inl (StoreIntegrity ''invocation lease binding differs from durable ownership'')
            else if clock_behind now [jb_updated_at j, at_started_at a, at_heartbeat_at a]
              then Inl (StoreClock
                ''invocation store clock precedes durable invocation activity'')
            else Inr a)
      | _ \<Rightarrow> Inl (StoreIntegrity ''running invocation has no lease deadline''))"

text \<open>The attempt's \<open>UPDATE\<close> of an owner.\<close>

definition attempt_where :: "lease \<Rightarrow> attempt \<Rightarrow> bool" where
  "attempt_where l a =
     (at_attempt_id a = ls_attempt_id l \<and> at_invocation_id a = ls_invocation_id l
      \<and> at_lease_epoch a = ls_lease_epoch l \<and> at_status a = AT_RUNNING)"

definition clear_lease :: "job \<Rightarrow> job" where
  "clear_lease j = j\<lparr>jb_lease_owner := None, jb_lease_token_digest := None,
     jb_lease_expires_at := None, jb_heartbeat_at := None\<rparr>"

section \<open>Heartbeat, completion, failure\<close>

definition beat_job :: "int \<Rightarrow> int \<Rightarrow> job \<Rightarrow> job" where
  "beat_job now deadline j = j\<lparr>jb_heartbeat_at := Some now, jb_lease_expires_at := Some deadline,
     jb_updated_at := now\<rparr>"

definition beat_attempt :: "int \<Rightarrow> int \<Rightarrow> attempt \<Rightarrow> attempt" where
  "beat_attempt now deadline a = a\<lparr>at_heartbeat_at := now, at_lease_expires_at := deadline\<rparr>"

definition heartbeat ::
  "(string \<Rightarrow> string) \<Rightarrow> lease \<Rightarrow> int \<Rightarrow> int \<Rightarrow> job_store \<Rightarrow> store_error + bool \<times> job_store" where
  "heartbeat sha l now seconds st =
     bind_res (check_lease l) (\<lambda>_.
     bind_res (lease_deadline now seconds) (\<lambda>proposed.
     bind_res (active_owned_row sha l now st) (\<lambda>row.
       case row of None \<Rightarrow> Inr (False, st) | Some j \<Rightarrow>
       bind_res (owned_attempt sha l now st j) (\<lambda>a.
         let deadline = (case jb_lease_expires_at j of None \<Rightarrow> proposed | Some x \<Rightarrow> max x proposed);
             (count, jobs) = update_where (owned_where sha l now) (beat_job now deadline) (js_jobs st)
         in if count \<noteq> 1 then Inr (False, st\<lparr>js_jobs := jobs\<rparr>)
            else let (hits, attempts) = update_where (attempt_where l) (beat_attempt now deadline)
                       (js_attempts st)
              in if hits \<noteq> 1
                 then Inl (StoreRuntime ''owned invocation has no matching running attempt'')
                 else Inr (True, st\<lparr>js_jobs := jobs, js_attempts := attempts\<rparr>)))))"

definition done_job :: "int \<Rightarrow> string option \<Rightarrow> job \<Rightarrow> job" where
  "done_job now result_ref j = clear_lease (j\<lparr>jb_status := IS_SUCCEEDED, jb_result_ref := result_ref,
     jb_updated_at := now, jb_finished_at := Some now\<rparr>)"

definition done_attempt :: "int \<Rightarrow> string option \<Rightarrow> attempt \<Rightarrow> attempt" where
  "done_attempt now result_ref a = a\<lparr>at_status := AT_SUCCEEDED, at_finished_at := Some now,
     at_result_ref := result_ref\<rparr>"

definition complete ::
  "(string \<Rightarrow> string) \<Rightarrow> lease \<Rightarrow> int \<Rightarrow> string option \<Rightarrow> job_store
   \<Rightarrow> store_error + bool \<times> job_store" where
  "complete sha l now result_ref st =
     bind_res (check_lease l) (\<lambda>_.
     bind_res (require (pred_option (\<lambda>r. required_text r 16384) result_ref)
       (StoreValue ''result_ref'')) (\<lambda>_.
     bind_res (active_owned_row sha l now st) (\<lambda>row.
       case row of None \<Rightarrow> Inr (False, st) | Some j \<Rightarrow>
       bind_res (owned_attempt sha l now st j) (\<lambda>a.
         let (count, jobs) = update_where (owned_where sha l now) (done_job now result_ref) (js_jobs st)
         in if count \<noteq> 1 then Inr (False, st\<lparr>js_jobs := jobs\<rparr>)
            else let (hits, attempts) = update_where (attempt_where l) (done_attempt now result_ref)
                       (js_attempts st)
              in if hits \<noteq> 1
                 then Inl (StoreRuntime ''owned invocation has no matching running attempt'')
                 else Inr (True, st\<lparr>js_jobs := jobs, js_attempts := attempts\<rparr>)))))"

definition failed_attempt :: "attempt_status \<Rightarrow> int \<Rightarrow> string \<Rightarrow> attempt \<Rightarrow> attempt" where
  "failed_attempt status now reason a =
     a\<lparr>at_status := status, at_finished_at := Some now, at_error := Some reason\<rparr>"

definition exhausted_job :: "int \<Rightarrow> string \<Rightarrow> job \<Rightarrow> job" where
  "exhausted_job now reason j = clear_lease (j\<lparr>jb_status := IS_FAILED, jb_last_error := Some reason,
     jb_updated_at := now, jb_finished_at := Some now\<rparr>)"

definition requeued_job :: "int \<Rightarrow> int \<Rightarrow> string \<Rightarrow> job \<Rightarrow> job" where
  "requeued_job now available reason j = clear_lease (j\<lparr>jb_status := IS_QUEUED,
     jb_available_at := available, jb_last_error := Some reason, jb_updated_at := now\<rparr>)"

definition fail_job ::
  "(string \<Rightarrow> string) \<Rightarrow> lease \<Rightarrow> int \<Rightarrow> string \<Rightarrow> int option \<Rightarrow> job_store
   \<Rightarrow> store_error + bool \<times> job_store" where
  "fail_job sha l now error_text retry_at st =
     bind_res (check_lease l) (\<lambda>_.
     bind_res (stored_error error_text) (\<lambda>reason.
     let retry = max now (case retry_at of None \<Rightarrow> now | Some t \<Rightarrow> t) in
     bind_res (active_owned_row sha l now st) (\<lambda>row.
       case row of None \<Rightarrow> Inr (False, st) | Some j \<Rightarrow>
       bind_res (owned_attempt sha l now st j) (\<lambda>a.
         let (hits, attempts) = update_where (attempt_where l) (failed_attempt AT_FAILED now reason)
               (js_attempts st)
         in if hits \<noteq> 1
            then Inl (StoreRuntime ''owned invocation has no matching running attempt'')
            else let (count, jobs) = update_where (owned_where sha l now)
                   (if jb_max_attempts j \<le> jb_attempts_started j then exhausted_job now reason
                    else requeued_job now retry reason) (js_jobs st)
              in if count \<noteq> 1
                 then Inl (StoreRuntime ''invocation lease changed during failure CAS'')
                 else Inr (True, st\<lparr>js_jobs := jobs, js_attempts := attempts\<rparr>)))))"

section \<open>Recovery of expired leases\<close>

definition expired_reason :: string where
  "expired_reason = ''lease expired before terminal acknowledgement''"

text \<open>One expired row: its attempt expires, the job is requeued or, its budget spent, fails.\<close>

definition recover_row :: "int \<Rightarrow> job \<Rightarrow> job_store \<Rightarrow> store_error + bool \<times> job_store" where
  "recover_row now row st =
     bind_res (row_to_job row) (\<lambda>j.
       case (jb_lease_owner j, jb_lease_token_digest j, jb_heartbeat_at j, jb_lease_expires_at j) of
         (Some owner, Some digest, Some hb, Some expires) \<Rightarrow>
           bind_res (load_running_attempt st (jb_invocation_id j) (jb_attempts_started j)
               (jb_lease_epoch j) None) (\<lambda>a.
             if \<not> owner_matches a (jb_invocation_id j) (jb_attempts_started j) (jb_lease_epoch j)
                  owner digest hb expires None
               then Inl (StoreIntegrity
                 ''running invocation and attempt ownership records disagree'')
             else let (hits, attempts) = update_where
                   (\<lambda>x. at_invocation_id x = jb_invocation_id j
                      \<and> at_attempt_number x = jb_attempts_started j
                      \<and> at_lease_epoch x = jb_lease_epoch j \<and> at_status x = AT_RUNNING)
                   (failed_attempt AT_EXPIRED now expired_reason) (js_attempts st)
               in if hits \<noteq> 1
                  then Inl (StoreRuntime ''running invocation has no matching running attempt'')
                  else let spent = jb_max_attempts j \<le> jb_attempts_started j;
                           (count, jobs) = update_where
                             (\<lambda>x. jb_invocation_id x = jb_invocation_id j
                                \<and> jb_status x = IS_RUNNING \<and> jb_lease_epoch x = jb_lease_epoch j)
                             (if spent then exhausted_job now expired_reason
                              else requeued_job now now expired_reason) (js_jobs st)
                    in if count \<noteq> 1
                       then Inl (StoreRuntime
                         ''invocation lease changed during expiration recovery'')
                       else Inr (spent, st\<lparr>js_jobs := jobs, js_attempts := attempts\<rparr>))
       | _ \<Rightarrow> Inl (StoreIntegrity ''running invocation has incomplete lease ownership''))"

record recovery_summary =
  sm_requeued :: "string list"
  sm_exhausted :: "string list"

fun recover_rows ::
  "int \<Rightarrow> job list \<Rightarrow> recovery_summary \<Rightarrow> job_store
   \<Rightarrow> store_error + recovery_summary \<times> job_store" where
  "recover_rows now [] acc st = Inr (acc, st)"
| "recover_rows now (row # rows) acc st =
     bind_res (recover_row now row st) (\<lambda>(spent, st').
       recover_rows now rows
         (if spent then acc\<lparr>sm_exhausted := sm_exhausted acc @ [jb_invocation_id row]\<rparr>
          else acc\<lparr>sm_requeued := sm_requeued acc @ [jb_invocation_id row]\<rparr>) st')"

definition expired_job :: "int \<Rightarrow> job \<Rightarrow> bool" where
  "expired_job now j = (jb_status j = IS_RUNNING
     \<and> (case jb_lease_expires_at j of None \<Rightarrow> False | Some x \<Rightarrow> x \<le> now))"

definition expiry :: "job \<Rightarrow> int" where
  "expiry j = (case jb_lease_expires_at j of None \<Rightarrow> 0 | Some x \<Rightarrow> x)"

definition expired_rows ::
  "int \<Rightarrow> string option \<Rightarrow> nat option \<Rightarrow> job_store \<Rightarrow> job list" where
  "expired_rows now invocation limit st =
     (let rows = sort_key (\<lambda>j. (expiry j, jb_invocation_id j))
            (filter (\<lambda>j. expired_job now j \<and> (invocation = None \<or> invocation = Some (jb_invocation_id j)))
              (js_jobs st))
      in case limit of None \<Rightarrow> rows | Some n \<Rightarrow> take n rows)"

definition recover_expired_tx ::
  "int \<Rightarrow> string option \<Rightarrow> nat option \<Rightarrow> job_store
   \<Rightarrow> store_error + recovery_summary \<times> job_store" where
  "recover_expired_tx now invocation limit st =
     recover_rows now (expired_rows now invocation limit st) \<lparr>sm_requeued = [], sm_exhausted = []\<rparr> st"

definition recover_expired ::
  "int \<Rightarrow> int \<Rightarrow> job_store \<Rightarrow> store_error + recovery_summary \<times> job_store" where
  "recover_expired now limit st =
     (if \<not> (1 \<le> limit \<and> limit \<le> 1000)
        then Inl (StoreValue ''limit must be between 1 and 1000'')
      else recover_expired_tx now None (Some (nat limit)) st)"

section \<open>Claims\<close>

definition claimable :: "int \<Rightarrow> string option \<Rightarrow> job \<Rightarrow> bool" where
  "claimable now invocation j =
     (jb_status j = IS_QUEUED \<and> jb_attempts_started j = 0 \<and> jb_available_at j \<le> now
      \<and> (invocation = None \<or> invocation = Some (jb_invocation_id j)))"

definition claim_order :: "job \<Rightarrow> int \<times> int \<times> int \<times> string" where
  "claim_order j = (- jb_priority j, jb_available_at j, jb_created_at j, jb_invocation_id j)"

definition fresh_columns :: "job \<Rightarrow> bool" where
  "fresh_columns j = (jb_lease_epoch j = 0 \<and> jb_result_ref j = None \<and> jb_last_error j = None)"

definition select_candidate ::
  "int \<Rightarrow> string option \<Rightarrow> job_store \<Rightarrow> store_error + job option" where
  "select_candidate now invocation st =
     (case first_by claim_order (filter (claimable now invocation) (js_jobs st)) of
        None \<Rightarrow> Inr None
      | Some candidate_row \<Rightarrow> bind_res (row_to_job candidate_row) (\<lambda>candidate.
          if list_ex (\<lambda>a. at_invocation_id a = jb_invocation_id candidate) (js_attempts st)
            then Inl (StoreIntegrity ''first-claim candidate has attempt history'')
          else (case first_by claim_order
                  (filter (\<lambda>j. claimable now invocation j \<and> fresh_columns j) (js_jobs st)) of
              None \<Rightarrow> Inl (StoreIntegrity ''first-claim candidate changed after validation'')
            | Some row \<Rightarrow> bind_res (row_to_job row) (\<lambda>j.
                if j \<noteq> candidate
                  then Inl (StoreIntegrity ''first-claim candidate changed after validation'')
                else if clock_behind now [jb_created_at j, jb_updated_at j]
                  then Inl (StoreClock
                    ''invocation store clock precedes durable invocation activity'')
                else if jb_attempts_started j + 1 > jb_max_attempts j
                  then Inl (StoreRuntime ''queued invocation exceeded max_attempts invariant'')
                else if jb_lease_epoch j \<ge> max_sqlite_integer
                  then Inl (StoreIntegrity ''invocation lease epoch is exhausted'')
                else Inr (Some j)))))"

definition claimed_job :: "string \<Rightarrow> string \<Rightarrow> int \<Rightarrow> int \<Rightarrow> job \<Rightarrow> job" where
  "claimed_job worker digest now deadline j = j\<lparr>jb_status := IS_RUNNING,
     jb_attempts_started := jb_attempts_started j + 1, jb_lease_epoch := jb_lease_epoch j + 1,
     jb_lease_owner := Some worker, jb_lease_token_digest := Some digest,
     jb_lease_expires_at := Some deadline, jb_heartbeat_at := Some now, jb_updated_at := now,
     jb_finished_at := None\<rparr>"

definition new_attempt :: "string \<Rightarrow> string \<Rightarrow> string \<Rightarrow> int \<Rightarrow> int \<Rightarrow> job \<Rightarrow> attempt" where
  "new_attempt attempt_id worker digest now deadline j = \<lparr>at_attempt_id = attempt_id,
     at_invocation_id = jb_invocation_id j, at_attempt_number = jb_attempts_started j + 1,
     at_lease_epoch = jb_lease_epoch j + 1, at_worker_id = worker,
     at_lease_token_digest = digest, at_status = AT_RUNNING, at_started_at = now,
     at_heartbeat_at = now, at_lease_expires_at = deadline, at_finished_at = None,
     at_error = None, at_result_ref = None\<rparr>"

definition new_lease :: "string \<Rightarrow> string \<Rightarrow> string \<Rightarrow> int \<Rightarrow> int \<Rightarrow> job \<Rightarrow> lease" where
  "new_lease attempt_id worker token now deadline j = \<lparr>ls_invocation_id = jb_invocation_id j,
     ls_session_id = jb_session_id j, ls_plan_id = jb_plan_id j, ls_task_id = jb_task_id j,
     ls_agent_id = jb_agent_id j, ls_idempotency_key = jb_idempotency_key j,
     ls_payload_digest = jb_payload_digest j, ls_attempt_id = attempt_id,
     ls_attempt_number = jb_attempts_started j + 1, ls_max_attempts = jb_max_attempts j,
     ls_lease_epoch = jb_lease_epoch j + 1, ls_worker_id = worker, ls_lease_token = token,
     ls_claimed_at = now, ls_lease_expires_at = deadline\<rparr>"

text \<open>
  The compare-and-set of the first claim, with the unique constraints of the two tables: the
  digest of a lease token, the id of an attempt, the number and epoch of an invocation's attempts.
\<close>

definition claim_first ::
  "(string \<Rightarrow> string) \<Rightarrow> string \<Rightarrow> string option \<Rightarrow> int \<Rightarrow> int \<Rightarrow> string \<Rightarrow> string \<Rightarrow> job_store
   \<Rightarrow> store_error + lease option \<times> job_store" where
  "claim_first sha worker invocation now deadline attempt_id token st =
     (if \<not> identity_text worker then Inl (StoreValue ''worker_id'')
      else if deadline \<le> now then Inl (StoreValue ''lease deadline must be later than now'')
      else if \<not> identity_text attempt_id then Inl (StoreValue ''attempt_id'')
      else if \<not> identity_text token then Inl (StoreValue ''lease_token'')
      else bind_res (select_candidate now invocation st) (\<lambda>candidate.
        case candidate of None \<Rightarrow> Inr (None, st) | Some j \<Rightarrow>
          let digest = sha token;
              (count, jobs) = update_where (\<lambda>x. jb_invocation_id x = jb_invocation_id j
                \<and> jb_status x = IS_QUEUED \<and> jb_attempts_started x = 0 \<and> fresh_columns x
                \<and> \<not> list_ex (\<lambda>a. at_invocation_id a = jb_invocation_id x) (js_attempts st))
                (claimed_job worker digest now deadline) (js_jobs st);
              a = new_attempt attempt_id worker digest now deadline j
          in if count = 1 \<and> Some digest \<in> jb_lease_token_digest ` set (js_jobs st)
               then Inl (StoreUnique ''invocation_jobs.lease_token_digest'')
             else if count \<noteq> 1
               then Inl (StoreIntegrity ''first-claim CAS rejected contradictory state'')
             else if attempt_id \<in> at_attempt_id ` set (js_attempts st)
                  \<or> list_ex (\<lambda>x. at_invocation_id x = at_invocation_id a
                       \<and> (at_attempt_number x = at_attempt_number a
                          \<or> at_lease_epoch x = at_lease_epoch a)) (js_attempts st)
               then Inl (StoreUnique ''invocation_attempts'')
             else Inr (Some (new_lease attempt_id worker token now deadline j),
                    st\<lparr>js_jobs := jobs, js_attempts := js_attempts st @ [a]\<rparr>)))"

definition lease_of_candidate :: "lease \<Rightarrow> job \<Rightarrow> bool" where
  "lease_of_candidate l j =
     (ls_invocation_id l = jb_invocation_id j \<and> ls_session_id l = jb_session_id j
      \<and> ls_plan_id l = jb_plan_id j \<and> ls_task_id l = jb_task_id j \<and> ls_agent_id l = jb_agent_id j
      \<and> ls_idempotency_key l = jb_idempotency_key j \<and> ls_payload_digest l = jb_payload_digest j
      \<and> ls_max_attempts l = jb_max_attempts j)"

text \<open>
  One claim: recover what has expired (all of the one invocation, or at most 1,000 jobs), choose
  the candidate, then claim it. \<open>claim_next\<close> passes no invocation.
\<close>

definition claim ::
  "(string \<Rightarrow> string) \<Rightarrow> string \<Rightarrow> string option \<Rightarrow> int \<Rightarrow> int \<Rightarrow> string \<Rightarrow> string \<Rightarrow> job_store
   \<Rightarrow> store_error + lease option \<times> job_store" where
  "claim sha worker invocation now seconds attempt_id token st =
     (if \<not> identity_text worker then Inl (StoreValue ''worker_id'')
      else if \<not> pred_option identity_text invocation then Inl (StoreValue ''invocation_id'')
      else bind_res (lease_deadline now seconds) (\<lambda>deadline.
           bind_res (recover_expired_tx now invocation
               (if invocation = None then Some 1000 else None) st) (\<lambda>(_, st1).
           bind_res (select_candidate now invocation st1) (\<lambda>candidate.
             case candidate of None \<Rightarrow> Inr (None, st1) | Some j \<Rightarrow>
             bind_res (claim_first sha worker (Some (jb_invocation_id j)) now deadline attempt_id
                 token st1) (\<lambda>(claimed, st2).
               case claimed of
                 None \<Rightarrow> Inl (StoreIntegrity
                   ''first-claim candidate changed after identifier allocation'')
               | Some l \<Rightarrow>
                   if lease_of_candidate l j then Inr (Some l, st2)
                   else Inl (StoreIntegrity
                     ''first-claim candidate changed after identifier allocation''))))))"

section \<open>The recovery snapshot\<close>

definition recovery_pair_ok :: "job \<Rightarrow> attempt option \<Rightarrow> int \<Rightarrow> bool" where
  "recovery_pair_ok j current count =
     (count = jb_attempts_started j
      \<and> (if count = 0 then jb_lease_epoch j = 0 \<and> current = None
         else (case current of None \<Rightarrow> False | Some a \<Rightarrow>
           at_invocation_id a = jb_invocation_id j \<and> at_attempt_number a = jb_attempts_started j
           \<and> at_lease_epoch a = jb_lease_epoch j
           \<and> jb_created_at j \<le> at_started_at a
           \<and> pred_option (\<lambda>f. f \<le> jb_updated_at j) (at_finished_at a)
           \<and> (jb_finished_at j \<noteq> None \<longrightarrow> jb_finished_at j = at_finished_at a)
           \<and> (case jb_status j of
                IS_RUNNING \<Rightarrow> at_status a = AT_RUNNING
                  \<and> Some (at_worker_id a) = jb_lease_owner j
                  \<and> Some (at_lease_token_digest a) = jb_lease_token_digest j
                  \<and> Some (at_heartbeat_at a) = jb_heartbeat_at j
                  \<and> Some (at_lease_expires_at a) = jb_lease_expires_at j
              | IS_SUCCEEDED \<Rightarrow> at_status a = AT_SUCCEEDED \<and> at_result_ref a = jb_result_ref j
              | IS_FAILED \<Rightarrow> at_status a \<in> {AT_FAILED, AT_EXPIRED} \<and> at_error a = jb_last_error j
              | IS_QUEUED \<Rightarrow> at_status a \<in> {AT_FAILED, AT_EXPIRED} \<and> at_error a = jb_last_error j
              | IS_CANCELED \<Rightarrow> at_status a = AT_CANCELED))))"

text \<open>
  The pass over an invocation's attempts: numbers contiguous from one, epochs increasing, times
  not moving backwards, all but the last safely terminal. It returns the last attempt.
\<close>

fun scan_attempts ::
  "job \<Rightarrow> int \<Rightarrow> int \<Rightarrow> int option \<Rightarrow> attempt option \<Rightarrow> attempt list
   \<Rightarrow> store_error + attempt option \<times> int" where
  "scan_attempts j count epoch finished current [] = Inr (current, count)"
| "scan_attempts j count epoch finished current (row # rows) =
     (if count + 1 > 1000
        then Inl (StoreIntegrity ''invocation attempt history exceeds the recovery limit'')
      else bind_res (row_to_attempt row) (\<lambda>a.
        if at_invocation_id a \<noteq> jb_invocation_id j
          then Inl (StoreIntegrity ''invocation attempt crosses its job boundary'')
        else if at_started_at a < jb_created_at j
          then Inl (StoreIntegrity ''invocation attempt starts before its job'')
        else if at_attempt_number a \<noteq> count + 1
          then Inl (StoreIntegrity ''invocation attempt history is not contiguous'')
        else if at_lease_epoch a \<le> epoch
          then Inl (StoreIntegrity
            ''invocation attempt lease epochs are not strictly increasing'')
        else if (case finished of None \<Rightarrow> False | Some f \<Rightarrow> at_started_at a < f)
          then Inl (StoreIntegrity ''invocation attempt history moves backward in time'')
        else if at_attempt_number a < jb_attempts_started j
          then (if at_status a \<notin> {AT_FAILED, AT_EXPIRED}
            then Inl (StoreIntegrity ''historical invocation attempt is not safely terminal'')
            else scan_attempts j (count + 1) (at_lease_epoch a) (at_finished_at a) current rows)
        else if at_attempt_number a = jb_attempts_started j
          then scan_attempts j (count + 1) (at_lease_epoch a) (at_finished_at a) (Some a) rows
        else Inl (StoreIntegrity ''invocation attempt history exceeds attempts_started'')))"

definition recovery_snapshot ::
  "string \<Rightarrow> string \<Rightarrow> job_store \<Rightarrow> store_error + (job option \<times> attempt option \<times> int)" where
  "recovery_snapshot session task st =
     (if \<not> identity_text session then Inl (StoreValue ''session_id'')
      else if \<not> identity_text task then Inl (StoreValue ''task_id'')
      else (case filter (\<lambda>j. jb_session_id j = session \<and> jb_task_id j = task) (js_jobs st) of
          [] \<Rightarrow> Inr (None, None, 0)
        | row # rows \<Rightarrow>
            if rows \<noteq> [] then Inl (StoreIntegrity ''task has multiple invocation jobs'')
            else bind_res (row_to_job row) (\<lambda>j.
              bind_res (scan_attempts j 0 0 None None
                  (take 1001 (attempts_of (jb_invocation_id j) st))) (\<lambda>(current, count).
                if recovery_pair_ok j current count then Inr (Some j, current, count)
                else Inl (StoreIntegrity ''invocation and attempt records disagree'')))))"

end
