(* ===== verification/Attempts_Inv.thy ===== *)
theory Attempts_Inv
  imports Attempt_Leases
begin

text \<open>
  The invariant of the invocation store, kept by every operation: unique keys, well-formed rows,
  and at most one attempt per invocation, which agrees with its job.
\<close>

section \<open>The invariant\<close>

definition paired :: "job \<Rightarrow> attempt \<Rightarrow> bool" where
  "paired j a = (attempt_ok a \<and> recovery_pair_ok j (Some a) 1)"

definition job_state_ok :: "attempt list \<Rightarrow> job \<Rightarrow> bool" where
  "job_state_ok attempts j =
     (job_ok j \<and> (case row_of at_invocation_id (jb_invocation_id j) attempts of
        None \<Rightarrow> jb_attempts_started j = 0 \<and> jb_status j = IS_QUEUED
      | Some a \<Rightarrow> paired j a))"

definition store_inv :: "job_store \<Rightarrow> bool" where
  "store_inv st =
     (distinct (map jb_invocation_id (js_jobs st))
      \<and> distinct (map (\<lambda>j. (jb_session_id j, jb_task_id j)) (js_jobs st))
      \<and> distinct (map (\<lambda>j. (jb_session_id j, jb_idempotency_key j)) (js_jobs st))
      \<and> distinct (map at_attempt_id (js_attempts st))
      \<and> distinct (map at_invocation_id (js_attempts st))
      \<and> (\<forall>j \<in> set (js_jobs st). job_state_ok (js_attempts st) j)
      \<and> at_invocation_id ` set (js_attempts st) \<subseteq> jb_invocation_id ` set (js_jobs st))"

lemma inv_job: "store_inv st \<Longrightarrow> j \<in> set (js_jobs st) \<Longrightarrow> job_state_ok (js_attempts st) j"
  by (simp add: store_inv_def)

lemma inv_keys:
  assumes "store_inv st"
  shows "distinct (map jb_invocation_id (js_jobs st))" "distinct (map at_invocation_id (js_attempts st))"
  using assms by (simp_all add: store_inv_def)

text \<open>Replacing a job and its one attempt by rows of the same identity.\<close>

definition set_pair :: "job \<Rightarrow> attempt \<Rightarrow> job_store \<Rightarrow> job_store" where
  "set_pair j a st = st
     \<lparr>js_jobs := replace_row jb_invocation_id (jb_invocation_id j) j (js_jobs st),
      js_attempts := replace_row at_invocation_id (jb_invocation_id j) a (js_attempts st)\<rparr>"

definition same_key :: "job \<Rightarrow> job \<Rightarrow> bool" where
  "same_key j' j = (jb_invocation_id j' = jb_invocation_id j \<and> jb_session_id j' = jb_session_id j
     \<and> jb_task_id j' = jb_task_id j \<and> jb_idempotency_key j' = jb_idempotency_key j)"

lemma set_pair_inv:
  assumes inv: "store_inv st" and j: "j \<in> set (js_jobs st)"
    and a: "row_of at_invocation_id (jb_invocation_id j) (js_attempts st) = Some a"
    and key: "same_key j' j" and "at_attempt_id a' = at_attempt_id a"
    and "job_ok j'" "paired j' a'"
  shows "store_inv (set_pair j' a' st)"
proof -
  note keys = inv_keys [OF inv]
  have a_in: "a \<in> set (js_attempts st)" "at_invocation_id a = jb_invocation_id j"
    using row_of_Some [OF a] by auto
  have id': "jb_invocation_id j' = jb_invocation_id j" "at_invocation_id a' = jb_invocation_id j"
    using key assms(7) by (auto simp: same_key_def paired_def recovery_pair_ok_def)
  let ?st = "set_pair j' a' st"
  have jobs: "js_jobs ?st = replace_row jb_invocation_id (jb_invocation_id j) j' (js_jobs st)"
    and atts: "js_attempts ?st = replace_row at_invocation_id (at_invocation_id a) a' (js_attempts st)"
    by (simp_all add: set_pair_def id' a_in)
  have maps: "map jb_invocation_id (js_jobs ?st) = map jb_invocation_id (js_jobs st)"
    "map (\<lambda>j. (jb_session_id j, jb_task_id j)) (js_jobs ?st)
       = map (\<lambda>j. (jb_session_id j, jb_task_id j)) (js_jobs st)"
    "map (\<lambda>j. (jb_session_id j, jb_idempotency_key j)) (js_jobs ?st)
       = map (\<lambda>j. (jb_session_id j, jb_idempotency_key j)) (js_jobs st)"
    unfolding jobs using key by (auto intro!: replace_row_other_keys keys j simp: same_key_def)
  have att_maps: "map at_attempt_id (js_attempts ?st) = map at_attempt_id (js_attempts st)"
    "map at_invocation_id (js_attempts ?st) = map at_invocation_id (js_attempts st)"
    unfolding atts
    by (rule replace_row_other_keys [OF keys(2) a_in(1)], simp add: assms(5) id' a_in)+
  have "job_state_ok (js_attempts ?st) x" if "x \<in> set (js_jobs ?st)" for x
  proof -
    have rows: "row_of at_invocation_id k (js_attempts ?st) =
        (if k = jb_invocation_id j then Some a' else row_of at_invocation_id k (js_attempts st))" for k
    proof -
      have "at_invocation_id a \<in> at_invocation_id ` set (js_attempts st)" using a_in(1) by (rule imageI)
      from row_of_replace [OF _ this, of a' k] show ?thesis unfolding atts using id'(2) a_in(2) by simp
    qed
    from that consider "x = j'" | "x \<in> set (js_jobs st)" "jb_invocation_id x \<noteq> jb_invocation_id j"
      unfolding jobs by (auto dest: in_replace_row)
    then show ?thesis
    proof cases
      case 1
      then show ?thesis using assms(6,7) id' by (simp add: job_state_ok_def rows)
    next
      case 2
      then show ?thesis using inv_job [OF inv] by (simp add: job_state_ok_def rows)
    qed
  qed
  moreover have "at_invocation_id ` set (js_attempts ?st) \<subseteq> jb_invocation_id ` set (js_jobs ?st)"
    using inv maps(1) att_maps(2) unfolding store_inv_def by (metis set_map)
  ultimately show ?thesis
    using inv unfolding store_inv_def maps att_maps by blast
qed

section \<open>The owned row\<close>

text \<open>The job and the attempt a lease owns at an instant.\<close>

definition owned :: "(string \<Rightarrow> string) \<Rightarrow> lease \<Rightarrow> int \<Rightarrow> job_store \<Rightarrow> job \<Rightarrow> attempt \<Rightarrow> bool" where
  "owned sha l now st j a =
     (j \<in> set (js_jobs st) \<and> owned_where sha l now j
      \<and> row_of at_invocation_id (jb_invocation_id j) (js_attempts st) = Some a
      \<and> lease_binds l j a \<and> at_status a = AT_RUNNING
      \<and> \<not> clock_behind now [jb_updated_at j, at_started_at a, at_heartbeat_at a])"

lemma active_owned_row_result:
  assumes "store_inv st"
  shows "(\<exists>j \<in> set (js_jobs st). owned_where sha l now j \<and> active_owned_row sha l now st = Inr (Some j))
    \<or> ((\<forall>j \<in> set (js_jobs st). \<not> owned_where sha l now j) \<and> active_owned_row sha l now st = Inr None)"
proof (cases "\<exists>j \<in> set (js_jobs st). owned_where sha l now j")
  case True
  then obtain j where j: "j \<in> set (js_jobs st)" "owned_where sha l now j" by blast
  have "filter (owned_where sha l now) (js_jobs st) = [j]"
    using j(2) by (intro filter_key [where key = jb_invocation_id, OF inv_keys(1) [OF assms] j(1)]) (auto simp: owned_where_def)
  moreover have "row_to_job j = Inr j"
    using inv_job [OF assms j(1)] by (simp add: row_to_job_def job_state_ok_def)
  ultimately show ?thesis using j by (auto simp: active_owned_row_def)
next
  case False
  then have "filter (owned_where sha l now) (js_jobs st) = []" by (simp add: filter_empty_conv)
  with False show ?thesis by (auto simp: active_owned_row_def)
qed

lemma singleton_filter: "(case filter P xs of [x] \<Rightarrow> f x | _ \<Rightarrow> Inl e) = Inr y \<Longrightarrow>
    \<exists>x \<in> set xs. P x \<and> f x = Inr y"
  by (auto split: list.splits dest: filter_eq_ConsD)

lemma owned_attempt_owned:
  assumes inv: "store_inv st" and j: "j \<in> set (js_jobs st)" "owned_where sha l now j"
    and a: "owned_attempt sha l now st j = Inr a"
  shows "owned sha l now st j a"
proof -
  from a obtain hb expires where load: "load_running_attempt st (ls_invocation_id l)
      (jb_attempts_started j) (ls_lease_epoch l) (Some (ls_attempt_id l)) = Inr a"
    and rest: "lease_binds l j a" "\<not> clock_behind now [jb_updated_at j, at_started_at a, at_heartbeat_at a]"
    by (auto simp: owned_attempt_def res_simps split: option.splits if_splits)
  from load have "\<exists>x \<in> set (js_attempts st). (at_invocation_id x = ls_invocation_id l
      \<and> at_attempt_number x = jb_attempts_started j \<and> at_lease_epoch x = ls_lease_epoch l
      \<and> at_status x = AT_RUNNING
      \<and> (Some (ls_attempt_id l) = None \<or> Some (ls_attempt_id l) = Some (at_attempt_id x)))
      \<and> row_to_attempt x = Inr a"
    unfolding load_running_attempt_def by (rule singleton_filter)
  then have "a \<in> set (js_attempts st)" "at_invocation_id a = jb_invocation_id j" "at_status a = AT_RUNNING"
    using j(2) by (auto simp: row_to_attempt_def owned_where_def split: if_splits)
  with row_of_in [OF inv_keys(2) [OF inv]] j rest show ?thesis by (simp add: owned_def) metis
qed

lemma owned_updates:
  assumes inv: "store_inv st" and o: "owned sha l now st j a"
  shows "update_where (owned_where sha l now) f (js_jobs st)
      = (1, replace_row jb_invocation_id (jb_invocation_id j) (f j) (js_jobs st))"
    and "update_where (attempt_where l) g (js_attempts st)
      = (1, replace_row at_invocation_id (jb_invocation_id j) (g a) (js_attempts st))"
proof -
  have a: "a \<in> set (js_attempts st)" "at_invocation_id a = jb_invocation_id j"
    using o row_of_Some [of at_invocation_id "jb_invocation_id j" "js_attempts st" a]
    by (auto simp: owned_def)
  have "\<forall>x. owned_where sha l now x \<longrightarrow> jb_invocation_id x = jb_invocation_id j"
    using o by (auto simp: owned_def owned_where_def)
  with o show "update_where (owned_where sha l now) f (js_jobs st)
      = (1, replace_row jb_invocation_id (jb_invocation_id j) (f j) (js_jobs st))"
    unfolding owned_def by (intro update_where_key [OF inv_keys(1) [OF inv]]) blast+
  from o have ids: "ls_attempt_id l = at_attempt_id a" "ls_invocation_id l = jb_invocation_id j"
    "ls_lease_epoch l = at_lease_epoch a" "at_status a = AT_RUNNING"
    unfolding owned_def lease_binds_def by blast+
  have "attempt_where l a" "\<forall>x. attempt_where l x \<longrightarrow> at_invocation_id x = at_invocation_id a"
    using a(2) by (simp_all add: attempt_where_def ids)
  from update_where_key [OF inv_keys(2) [OF inv] a(1) this] a(2)
  show "update_where (attempt_where l) g (js_attempts st)
      = (1, replace_row at_invocation_id (jb_invocation_id j) (g a) (js_attempts st))" by simp
qed

lemma owned_paired:
  assumes "store_inv st" "owned sha l now st j a"
  shows "paired j a" "job_ok j" "jb_status j = IS_RUNNING"
proof -
  have "job_state_ok (js_attempts st) j"
    "row_of at_invocation_id (jb_invocation_id j) (js_attempts st) = Some a"
    using inv_job [OF assms(1), of j] assms(2) by (simp_all add: owned_def)
  then show "paired j a" "job_ok j" by (simp_all add: job_state_ok_def)
  show "jb_status j = IS_RUNNING" using assms(2) by (simp add: owned_def owned_where_def)
qed

end
