(* ===== verification/Attempts_Steps.thy ===== *)
theory Attempts_Steps
  imports Attempts_Inv
begin

text \<open>
  What each operation of the invocation store does to a store that satisfies the invariant:
  exactly one job and its attempt change, to rows that satisfy it again.
\<close>

section \<open>Texts of errors\<close>

lemma set_py_strip: "set (py_strip s) \<subseteq> set s"
  by (auto simp: py_strip_def dest!: set_dropWhileD)

lemma utf8_len_append: "utf8_len (a @ b) = utf8_len a + utf8_len b"
  by (simp add: utf8_len_def)

lemma utf8_len_take: "utf8_len (take n s) \<le> utf8_len s"
  using utf8_len_append [of "take n s" "drop n s"] by simp

lemma utf8_len_dropWhile: "utf8_len (dropWhile P s) \<le> utf8_len s"
  using utf8_len_append [of "takeWhile P s" "dropWhile P s"] by simp

lemma utf8_len_rev: "utf8_len (rev s) = utf8_len s"
  by (simp add: utf8_len_def rev_map [symmetric] sum_list_rev)

lemma utf8_len_strip: "utf8_len (py_strip s) \<le> utf8_len s"
  using utf8_len_dropWhile [of py_space "rev (dropWhile py_space s)"] utf8_len_dropWhile [of py_space s]
  by (simp add: py_strip_def utf8_len_rev)

lemma strip_head: "py_strip s \<noteq> [] \<Longrightarrow> \<not> py_space (hd (py_strip s))"
proof -
  assume ne: "py_strip s \<noteq> []"
  let ?d = "dropWhile py_space s"
  have "?d \<noteq> []" using ne by (metis dropWhile.simps(1) py_strip_def rev.simps(1))
  then have hd: "\<not> py_space (hd ?d)" by (rule hd_dropWhile)
  obtain b where b: "rev ?d = b @ dropWhile py_space (rev ?d)"
    by (metis takeWhile_dropWhile_id)
  then have "?d = py_strip s @ rev b" by (metis py_strip_def rev_append rev_rev_ident)
  with hd ne show ?thesis by (metis hd_append2)
qed

lemma stored_error_ok:
  assumes "stored_error e = Inr r"
  shows "required_text r 16384 \<and> length r \<le> 4096"
proof -
  have e: "required_text e 16384" and r: "r = take 4096 (py_strip e)"
    using assms by (auto simp: stored_error_def split: if_splits)
  have "py_strip e \<noteq> []" using e by (simp add: required_text_def blank_def)
  then have "hd r = hd (py_strip e)" "r \<noteq> []" by (simp_all add: r hd_take)
  then have "\<not> blank r" using strip_head [of e] \<open>py_strip e \<noteq> []\<close>
    by (auto simp: blank_iff) (metis hd_in_set)
  moreover have "utf8_len r \<le> 16384"
    using utf8_len_take [of 4096 "py_strip e"] utf8_len_strip [of e] e
    by (simp add: r required_text_def)
  moreover have "set r \<subseteq> set e" using set_take_subset [of 4096 "py_strip e"] set_py_strip [of e] r by auto
  then have "list_all (\<lambda>c. (32 :: nat) \<le> of_char c \<and> (of_char c :: nat) \<noteq> 127) r"
    using e by (auto simp: required_text_def list_all_iff)
  ultimately show ?thesis by (simp add: required_text_def r)
qed

lemma expired_reason_ok: "required_text expired_reason 16384 \<and> length expired_reason \<le> 4096"
  by (simp add: required_text_def expired_reason_def blank_iff py_space_def utf8_len_def)

section \<open>Rows after an operation\<close>

lemmas job_defs = job_ok_def job_fields_ok_def lease_shape_ok_def terminal_job_def job_times_ok_def
lemmas pair_defs = paired_def attempt_ok_def recovery_pair_ok_def

definition beating :: "int \<Rightarrow> int \<Rightarrow> job \<Rightarrow> attempt \<Rightarrow> bool" where
  "beating now deadline j a = (jb_updated_at j \<le> now \<and> at_heartbeat_at a \<le> now \<and> now < deadline)"

lemma beat_ok:
  assumes "paired j a" "job_ok j" "jb_status j = IS_RUNNING" "beating now deadline j a"
  shows "job_ok (beat_job now deadline j)" "paired (beat_job now deadline j) (beat_attempt now deadline a)"
  using assms by (auto simp: job_defs pair_defs beat_job_def beat_attempt_def beating_def)

definition within_lease :: "int \<Rightarrow> job \<Rightarrow> bool" where
  "within_lease now j = (\<exists>x. jb_lease_expires_at j = Some x \<and> now < x)"

lemma done_ok:
  assumes "paired j a" "job_ok j" "jb_status j = IS_RUNNING" "jb_updated_at j \<le> now"
    "at_heartbeat_at a \<le> now" "within_lease now j" "pred_option (\<lambda>r. required_text r 16384) result"
  shows "job_ok (done_job now result j)" "paired (done_job now result j) (done_attempt now result a)"
  using assms by (auto simp: job_defs pair_defs done_job_def done_attempt_def clear_lease_def
      within_lease_def)

lemma exhausted_ok:
  assumes "paired j a" "job_ok j" "jb_status j = IS_RUNNING" "jb_updated_at j \<le> now"
    "at_heartbeat_at a \<le> now" "jb_max_attempts j \<le> jb_attempts_started j"
    "required_text reason 16384 \<and> length reason \<le> 4096"
    "st = AT_FAILED \<and> within_lease now j \<or> st = AT_EXPIRED \<and> expired_job now j"
  shows "job_ok (exhausted_job now reason j)"
    "paired (exhausted_job now reason j) (failed_attempt st now reason a)"
  using assms by (auto simp: job_defs pair_defs exhausted_job_def failed_attempt_def clear_lease_def
      within_lease_def expired_job_def split: option.splits)

lemma requeued_ok:
  assumes "paired j a" "job_ok j" "jb_status j = IS_RUNNING" "jb_updated_at j \<le> now"
    "at_heartbeat_at a \<le> now" "\<not> jb_max_attempts j \<le> jb_attempts_started j"
    "required_text reason 16384 \<and> length reason \<le> 4096"
    "st = AT_FAILED \<and> within_lease now j \<or> st = AT_EXPIRED \<and> expired_job now j"
  shows "job_ok (requeued_job now available reason j)"
    "paired (requeued_job now available reason j) (failed_attempt st now reason a)"
  using assms by (auto simp: job_defs pair_defs requeued_job_def failed_attempt_def clear_lease_def
      within_lease_def expired_job_def split: option.splits)

section \<open>Heartbeat, completion and failure\<close>

text \<open>An operation of an owner either finds nothing to own or replaces the owned pair.\<close>

definition refused :: "(string \<Rightarrow> string) \<Rightarrow> lease \<Rightarrow> int \<Rightarrow> job_store \<Rightarrow> bool" where
  "refused sha l now st = (\<forall>j \<in> set (js_jobs st). \<not> owned_where sha l now j)"

lemma owner_cases:
  assumes inv: "store_inv st"
  obtains (refused) "active_owned_row sha l now st = Inr None" "refused sha l now st"
  | (error) j e where "active_owned_row sha l now st = Inr (Some j)"
      "owned_attempt sha l now st j = Inl e"
  | (owned) j a where "active_owned_row sha l now st = Inr (Some j)"
      "owned_attempt sha l now st j = Inr a" "owned sha l now st j a"
proof -
  consider "active_owned_row sha l now st = Inr None" "refused sha l now st"
    | j where "active_owned_row sha l now st = Inr (Some j)" "j \<in> set (js_jobs st)"
        "owned_where sha l now j"
    using active_owned_row_result [OF inv, of sha l now] by (auto simp: refused_def)
  then show ?thesis
  proof cases
    case 1
    then show ?thesis by (rule that(1))
  next
    case 2
    then show ?thesis
      using that(2,3) owned_attempt_owned [OF inv 2(2,3)] by (cases "owned_attempt sha l now st j") blast+
  qed
qed

lemma owned_now:
  assumes "store_inv st" "owned sha l now st j a"
  shows "jb_updated_at j \<le> now" "at_heartbeat_at a \<le> now" "within_lease now j"
  using assms(2) by (auto simp: owned_def owned_where_def clock_behind_def within_lease_def
      split: option.splits)

lemma owned_set_pair:
  assumes "store_inv st" "owned sha l now st j a" "jb_invocation_id j' = jb_invocation_id j"
  shows "st\<lparr>js_jobs := replace_row jb_invocation_id (jb_invocation_id j) j' (js_jobs st),
     js_attempts := replace_row at_invocation_id (jb_invocation_id j) a' (js_attempts st)\<rparr>
     = set_pair j' a' st"
  by (simp add: set_pair_def assms(3))

lemma same_keys:
  "same_key (beat_job now d j) j" "same_key (done_job now r j) j"
  "same_key (exhausted_job now e j) j" "same_key (requeued_job now t e j) j"
  "same_key (claimed_job w g now d j) j"
  by (simp_all add: same_key_def beat_job_def done_job_def exhausted_job_def requeued_job_def
      clear_lease_def claimed_job_def)

lemma same_attempts:
  "at_attempt_id (beat_attempt now d a) = at_attempt_id a"
  "at_attempt_id (done_attempt now r a) = at_attempt_id a"
  "at_attempt_id (failed_attempt st now e a) = at_attempt_id a"
  by (simp_all add: beat_attempt_def done_attempt_def failed_attempt_def)

lemma heartbeat_result:
  assumes inv: "store_inv st" and hb: "heartbeat sha l now seconds st = Inr (b, st')"
  shows "\<not> b \<and> st' = st \<and> refused sha l now st
    \<or> b \<and> (\<exists>j a d. owned sha l now st j a \<and> now < d \<and> at_lease_expires_at a \<le> d
         \<and> st' = set_pair (beat_job now d j) (beat_attempt now d a) st)"
proof -
  from hb have l: "check_lease l = Inr l" by (auto simp: heartbeat_def res_simps check_lease_def split: if_splits)
  from hb obtain p where p: "lease_deadline now seconds = Inr p" by (auto simp: heartbeat_def res_simps l)
  have np: "now < p" using p by (auto simp: lease_deadline_def split: if_splits)
  show ?thesis
  proof (cases rule: owner_cases [OF inv, of sha l now])
    case 1
    then show ?thesis using hb by (simp add: heartbeat_def l p)
  next
    case (2 j e)
    then show ?thesis using hb by (simp add: heartbeat_def l p)
  next
    case (3 j a)
    obtain x where x: "jb_lease_expires_at j = Some x" using owned_now(3) [OF inv 3(3)]
      by (auto simp: within_lease_def)
    have "at_lease_expires_at a = x"
      using owned_paired [OF inv 3(3)] x by (auto simp: pair_defs)
    moreover have "b \<and> st' = set_pair (beat_job now (max x p) j) (beat_attempt now (max x p) a) st"
      using hb 3(1,2) owned_updates [OF inv 3(3)] x
      by (simp add: heartbeat_def l p Let_def set_pair_def beat_job_def)
    moreover have "now < max x p" using np by simp
    ultimately show ?thesis using 3(3) by (metis max.cobounded1)
  qed
qed

lemma complete_result:
  assumes inv: "store_inv st" and c: "complete sha l now r st = Inr (b, st')"
  shows "\<not> b \<and> st' = st \<and> refused sha l now st
    \<or> b \<and> pred_option (\<lambda>r. required_text r 16384) r
      \<and> (\<exists>j a. owned sha l now st j a \<and> st' = set_pair (done_job now r j) (done_attempt now r a) st)"
proof -
  from c have l: "check_lease l = Inr l" by (auto simp: complete_def res_simps check_lease_def split: if_splits)
  from c have r: "pred_option (\<lambda>r. required_text r 16384) r" by (auto simp: complete_def l res_simps split: if_splits)
  show ?thesis
  proof (cases rule: owner_cases [OF inv, of sha l now])
    case 1
    then show ?thesis using c by (simp add: complete_def l r)
  next
    case (2 j e)
    then show ?thesis using c by (simp add: complete_def l r)
  next
    case (3 j a)
    have "b \<and> st' = set_pair (done_job now r j) (done_attempt now r a) st"
      using c 3(1,2) owned_updates [OF inv 3(3)]
      by (simp add: complete_def l r Let_def set_pair_def done_job_def clear_lease_def)
    then show ?thesis using 3(3) r by blast
  qed
qed

lemma fail_result:
  assumes inv: "store_inv st" and f: "fail_job sha l now e retry st = Inr (b, st')"
  shows "\<not> b \<and> st' = st \<and> refused sha l now st
    \<or> b \<and> (\<exists>j a reason t. stored_error e = Inr reason \<and> owned sha l now st j a
      \<and> st' = set_pair (if jb_max_attempts j \<le> jb_attempts_started j then exhausted_job now reason j
                         else requeued_job now t reason j) (failed_attempt AT_FAILED now reason a) st)"
proof -
  from f have l: "check_lease l = Inr l" by (auto simp: fail_job_def res_simps check_lease_def split: if_splits)
  from f obtain reason where r: "stored_error e = Inr reason" by (auto simp: fail_job_def res_simps l)
  show ?thesis
  proof (cases rule: owner_cases [OF inv, of sha l now])
    case 1
    then show ?thesis using f by (simp add: fail_job_def l r)
  next
    case (2 j x)
    then show ?thesis using f by (simp add: fail_job_def l r)
  next
    case (3 j a)
    let ?t = "max now (case retry of None \<Rightarrow> now | Some t \<Rightarrow> t)"
    have "b \<and> st' = set_pair (if jb_max_attempts j \<le> jb_attempts_started j then exhausted_job now reason j
        else requeued_job now ?t reason j) (failed_attempt AT_FAILED now reason a) st"
      using f 3(1,2) owned_updates [OF inv 3(3)]
      by (cases "jb_max_attempts j \<le> jb_attempts_started j")
        (simp_all add: fail_job_def l r Let_def set_pair_def exhausted_job_def requeued_job_def
          clear_lease_def)
    then show ?thesis using 3(3) r by blast
  qed
qed

end
