(* ===== verification/Attempts_Claims.thy ===== *)
theory Attempts_Claims
  imports Attempts_Steps
begin

text \<open>
  Recovery of expired leases, claims and enqueueing on a store that satisfies the invariant, the
  step relation of the store, and the invariant of every reachable store.
\<close>

section \<open>Recovery\<close>

definition recovered :: "int \<Rightarrow> job \<Rightarrow> job" where
  "recovered now j = (if jb_max_attempts j \<le> jb_attempts_started j
     then exhausted_job now expired_reason j else requeued_job now now expired_reason j)"

lemma running_pair:
  assumes "store_inv st" "j \<in> set (js_jobs st)" "jb_status j = IS_RUNNING"
  obtains a where "row_of at_invocation_id (jb_invocation_id j) (js_attempts st) = Some a"
    "a \<in> set (js_attempts st)" "at_invocation_id a = jb_invocation_id j" "paired j a" "job_ok j"
proof -
  have j: "job_state_ok (js_attempts st) j" by (rule inv_job [OF assms(1,2)])
  then have "job_ok j" by (simp add: job_state_ok_def)
  then have "jb_attempts_started j \<noteq> 0" using assms(3) by (simp add: job_ok_def)
  with j obtain a where a: "row_of at_invocation_id (jb_invocation_id j) (js_attempts st) = Some a"
      "paired j a"
    by (auto simp: job_state_ok_def split: option.splits)
  from row_of_Some [OF a(1)] that a \<open>job_ok j\<close> show ?thesis by blast
qed

lemma recover_row_result:
  assumes inv: "store_inv st" and j: "j \<in> set (js_jobs st)" and ex: "expired_job now j"
  shows "\<exists>a. row_of at_invocation_id (jb_invocation_id j) (js_attempts st) = Some a \<and> paired j a
    \<and> job_ok j
    \<and> recover_row now j st = Inr (jb_max_attempts j \<le> jb_attempts_started j,
        set_pair (recovered now j) (failed_attempt AT_EXPIRED now expired_reason a) st)"
proof -
  have run: "jb_status j = IS_RUNNING" using ex by (simp add: expired_job_def)
  obtain a where a: "row_of at_invocation_id (jb_invocation_id j) (js_attempts st) = Some a"
    "a \<in> set (js_attempts st)" "at_invocation_id a = jb_invocation_id j" "paired j a" "job_ok j"
    by (rule running_pair [OF inv j run])
  have fields: "at_attempt_number a = jb_attempts_started j" "at_lease_epoch a = jb_lease_epoch j"
    "at_status a = AT_RUNNING" "jb_lease_owner j = Some (at_worker_id a)"
    "jb_lease_token_digest j = Some (at_lease_token_digest a)"
    "jb_heartbeat_at j = Some (at_heartbeat_at a)"
    "jb_lease_expires_at j = Some (at_lease_expires_at a)" "attempt_ok a"
    using a(4) run by (simp_all add: paired_def recovery_pair_ok_def)
  let ?P = "\<lambda>x. at_invocation_id x = jb_invocation_id j \<and> at_attempt_number x = jb_attempts_started j
    \<and> at_lease_epoch x = jb_lease_epoch j \<and> at_status x = AT_RUNNING"
  have P: "?P a" "\<forall>x. ?P x \<longrightarrow> at_invocation_id x = at_invocation_id a"
    using a(3) fields by simp_all
  have load: "load_running_attempt st (jb_invocation_id j) (jb_attempts_started j) (jb_lease_epoch j) None
      = Inr a"
    using filter_key [OF inv_keys(2) [OF inv] a(2) P] fields(8)
    by (simp add: load_running_attempt_def row_to_attempt_def)
  let ?Q = "\<lambda>x. jb_invocation_id x = jb_invocation_id j \<and> jb_status x = IS_RUNNING
    \<and> jb_lease_epoch x = jb_lease_epoch j"
  have Q: "?Q j" "\<forall>x. ?Q x \<longrightarrow> jb_invocation_id x = jb_invocation_id j" using run by simp_all
  note up = update_where_key [OF inv_keys(2) [OF inv] a(2) P] update_where_key [OF inv_keys(1) [OF inv] j Q]
  have "recover_row now j st = Inr (jb_max_attempts j \<le> jb_attempts_started j,
        set_pair (recovered now j) (failed_attempt AT_EXPIRED now expired_reason a) st)"
    using up a(3,5) fields
    by (simp add: recover_row_def row_to_job_def load owner_matches_def Let_def recovered_def
        set_pair_def exhausted_job_def requeued_job_def clear_lease_def)
  with a show ?thesis by blast
qed

lemma recovered_ok:
  assumes "paired j a" "job_ok j" "expired_job now j"
  shows "job_ok (recovered now j)" "paired (recovered now j) (failed_attempt AT_EXPIRED now expired_reason a)"
    "same_key (recovered now j) j"
proof -
  have run: "jb_status j = IS_RUNNING" using assms(3) by (simp add: expired_job_def)
  obtain x where x: "jb_lease_expires_at j = Some x" "x \<le> now"
    using assms(3) by (auto simp: expired_job_def split: option.splits)
  have t: "jb_updated_at j \<le> now" "at_heartbeat_at a \<le> now"
    using assms(1,2) run x by (auto simp: job_ok_def job_times_ok_def pair_defs)
  show "job_ok (recovered now j)" "paired (recovered now j) (failed_attempt AT_EXPIRED now expired_reason a)"
    using exhausted_ok [OF assms(1,2) run t _ expired_reason_ok, of AT_EXPIRED]
      requeued_ok [OF assms(1,2) run t _ expired_reason_ok, of AT_EXPIRED] assms(3)
    by (auto simp: recovered_def)
  show "same_key (recovered now j) j" by (simp add: recovered_def same_keys)
qed

lemma set_pair_jobs:
  assumes "store_inv st" "j \<in> set (js_jobs st)" "jb_invocation_id j' = jb_invocation_id j"
  shows "js_jobs (set_pair j' a st) = map (\<lambda>x. if x = j then j' else x) (js_jobs st)"
proof -
  have "jb_invocation_id x = jb_invocation_id j \<longleftrightarrow> x = j" if "x \<in> set (js_jobs st)" for x
    using key_inj [OF inv_keys(1) [OF assms(1)] that assms(2)] by blast
  then show ?thesis by (simp add: set_pair_def replace_row_def assms(3))
qed

lemma recover_rows_result:
  assumes "store_inv st" "set rows \<subseteq> set (js_jobs st)" "distinct (map jb_invocation_id rows)"
    "\<forall>j \<in> set rows. expired_job now j"
  shows "\<exists>st'. recover_rows now rows acc st = Inr
      (acc\<lparr>sm_requeued := sm_requeued acc @ map jb_invocation_id
             (filter (\<lambda>j. jb_attempts_started j < jb_max_attempts j) rows),
           sm_exhausted := sm_exhausted acc @ map jb_invocation_id
             (filter (\<lambda>j. jb_max_attempts j \<le> jb_attempts_started j) rows)\<rparr>, st')
    \<and> store_inv st' \<and> js_jobs st' = map (\<lambda>j. if j \<in> set rows then recovered now j else j) (js_jobs st)
    \<and> at_invocation_id ` set (js_attempts st') = at_invocation_id ` set (js_attempts st)"
  using assms
proof (induction rows arbitrary: acc st)
  case Nil
  then show ?case by simp
next
  case (Cons j rows)
  have j: "j \<in> set (js_jobs st)" "expired_job now j" using Cons.prems by auto
  from recover_row_result [OF Cons.prems(1) j] obtain a where
    a: "row_of at_invocation_id (jb_invocation_id j) (js_attempts st) = Some a" "paired j a" "job_ok j"
    and step: "recover_row now j st = Inr (jb_max_attempts j \<le> jb_attempts_started j,
        set_pair (recovered now j) (failed_attempt AT_EXPIRED now expired_reason a) st)" by blast
  let ?st = "set_pair (recovered now j) (failed_attempt AT_EXPIRED now expired_reason a) st"
  note ok = recovered_ok [OF a(2,3) j(2)]
  have id: "jb_invocation_id (recovered now j) = jb_invocation_id j" using ok(3) by (simp add: same_key_def)
  have inv: "store_inv ?st"
    by (rule set_pair_inv [OF Cons.prems(1) j(1) a(1) ok(3) _ ok(1,2)]) (simp add: same_attempts)
  have jobs: "js_jobs ?st = map (\<lambda>x. if x = j then recovered now j else x) (js_jobs st)"
    by (rule set_pair_jobs [OF Cons.prems(1) j(1) id])
  have notin: "j \<notin> set rows" "recovered now j \<notin> set rows"
    using Cons.prems(3) id by (auto, metis image_eqI)
  have sub: "set rows \<subseteq> set (js_jobs ?st)" using Cons.prems(2) notin by (auto simp: jobs)
  have ids: "at_invocation_id ` set (js_attempts ?st) = at_invocation_id ` set (js_attempts st)"
  proof -
    have "at_invocation_id (failed_attempt AT_EXPIRED now expired_reason a) = jb_invocation_id j"
      using row_of_Some [OF a(1)] by (simp add: failed_attempt_def)
    then have "map at_invocation_id (js_attempts ?st) = map at_invocation_id (js_attempts st)"
      by (simp add: set_pair_def id replace_row_keys)
    then show ?thesis by (metis set_map)
  qed
  have eq: "map (\<lambda>x. if x \<in> set rows then recovered now x else x) (js_jobs ?st)
      = map (\<lambda>x. if x \<in> set (j # rows) then recovered now x else x) (js_jobs st)"
    using notin by (simp add: jobs)
  let ?acc = "if jb_max_attempts j \<le> jb_attempts_started j
      then acc\<lparr>sm_exhausted := sm_exhausted acc @ [jb_invocation_id j]\<rparr>
      else acc\<lparr>sm_requeued := sm_requeued acc @ [jb_invocation_id j]\<rparr>"
  obtain st' where st': "recover_rows now rows ?acc ?st = Inr
      (?acc\<lparr>sm_requeued := sm_requeued ?acc @ map jb_invocation_id
             (filter (\<lambda>j. jb_attempts_started j < jb_max_attempts j) rows),
           sm_exhausted := sm_exhausted ?acc @ map jb_invocation_id
             (filter (\<lambda>j. jb_max_attempts j \<le> jb_attempts_started j) rows)\<rparr>, st')"
    "store_inv st'" "js_jobs st' = map (\<lambda>j. if j \<in> set rows then recovered now j else j) (js_jobs ?st)"
    "at_invocation_id ` set (js_attempts st') = at_invocation_id ` set (js_attempts ?st)"
    using Cons.IH [OF inv sub, of ?acc] Cons.prems(3,4) by auto
  show ?case
  proof (intro exI [of _ st'] conjI)
    show "recover_rows now (j # rows) acc st = Inr
      (acc\<lparr>sm_requeued := sm_requeued acc @ map jb_invocation_id
             (filter (\<lambda>j. jb_attempts_started j < jb_max_attempts j) (j # rows)),
           sm_exhausted := sm_exhausted acc @ map jb_invocation_id
             (filter (\<lambda>j. jb_max_attempts j \<le> jb_attempts_started j) (j # rows))\<rparr>, st')"
      using st'(1) by (cases "jb_max_attempts j \<le> jb_attempts_started j") (simp_all add: step not_le)
  qed (use st'(2-4) eq ids in simp_all)
qed

text \<open>The rows a recovery takes: expired, distinct, in the store.\<close>

lemma expired_rows_props:
  assumes "store_inv st"
  shows "set (expired_rows now invocation limit st) \<subseteq> set (js_jobs st)"
    "distinct (map jb_invocation_id (expired_rows now invocation limit st))"
    "\<forall>j \<in> set (expired_rows now invocation limit st). expired_job now j"
proof -
  let ?P = "\<lambda>j. expired_job now j \<and> (invocation = None \<or> invocation = Some (jb_invocation_id j))"
  let ?s = "sort_key (\<lambda>j. (expiry j, jb_invocation_id j)) (filter ?P (js_jobs st))"
  have "distinct (map jb_invocation_id (filter ?P (js_jobs st)))"
    using inv_keys(1) [OF assms] by (rule distinct_map_filter)
  then have dist: "distinct (map jb_invocation_id ?s)"
    by (simp add: distinct_map)
  have all: "set ?s \<subseteq> set (js_jobs st)" "\<forall>j \<in> set ?s. expired_job now j" by auto
  have "\<exists>n. expired_rows now invocation limit st = take n ?s"
    by (cases limit) (auto simp: expired_rows_def intro: exI [of _ "length ?s"])
  then obtain n where n: "expired_rows now invocation limit st = take n ?s" by blast
  have sub: "set (take n ?s) \<subseteq> set ?s" by (rule set_take_subset)
  show "set (expired_rows now invocation limit st) \<subseteq> set (js_jobs st)"
    "\<forall>j \<in> set (expired_rows now invocation limit st). expired_job now j"
    unfolding n using all sub by blast+
  show "distinct (map jb_invocation_id (expired_rows now invocation limit st))"
    unfolding n take_map [symmetric] by (rule distinct_take [OF dist])
qed

lemma recover_tx_result:
  assumes inv: "store_inv st"
  shows "\<exists>sm st'. recover_expired_tx now invocation limit st = Inr (sm, st') \<and> store_inv st'
    \<and> sm_requeued sm = map jb_invocation_id
        (filter (\<lambda>j. jb_attempts_started j < jb_max_attempts j) (expired_rows now invocation limit st))
    \<and> sm_exhausted sm = map jb_invocation_id
        (filter (\<lambda>j. jb_max_attempts j \<le> jb_attempts_started j) (expired_rows now invocation limit st))
    \<and> js_jobs st' = map (\<lambda>j. if j \<in> set (expired_rows now invocation limit st)
         then recovered now j else j) (js_jobs st)
    \<and> at_invocation_id ` set (js_attempts st') = at_invocation_id ` set (js_attempts st)"
  using recover_rows_result [OF inv expired_rows_props [OF inv],
      of now invocation limit "\<lparr>sm_requeued = [], sm_exhausted = []\<rparr>"]
  by (auto simp: recover_expired_tx_def)

section \<open>Claims\<close>

lemma claimable_fresh:
  assumes "store_inv st" "j \<in> set (js_jobs st)" "claimable now invocation j"
  shows "fresh_columns j" "row_to_job j = Inr j"
    "row_of at_invocation_id (jb_invocation_id j) (js_attempts st) = None"
proof -
  have j: "job_state_ok (js_attempts st) j" by (rule inv_job [OF assms(1,2)])
  show "row_of at_invocation_id (jb_invocation_id j) (js_attempts st) = None"
    using j assms(3) by (auto simp: job_state_ok_def claimable_def paired_def recovery_pair_ok_def
        split: option.splits)
  show "fresh_columns j" "row_to_job j = Inr j"
    using j assms(3) by (auto simp: job_state_ok_def claimable_def fresh_columns_def job_ok_def
        row_to_job_def)
qed

lemma select_candidate_result:
  assumes inv: "store_inv st"
  shows "case first_by claim_order (filter (claimable now invocation) (js_jobs st)) of
      None \<Rightarrow> select_candidate now invocation st = Inr None
    | Some j \<Rightarrow> j \<in> set (js_jobs st) \<and> claimable now invocation j
        \<and> (if clock_behind now [jb_created_at j, jb_updated_at j]
           then \<exists>e. select_candidate now invocation st = Inl (StoreClock e)
           else select_candidate now invocation st = Inr (Some j))"
proof (cases "first_by claim_order (filter (claimable now invocation) (js_jobs st))")
  case None
  then show ?thesis by (simp add: select_candidate_def)
next
  case (Some j)
  then have j: "j \<in> set (js_jobs st)" "claimable now invocation j" using first_by_Some by fastforce+
  note fresh = claimable_fresh [OF inv j]
  have same: "filter (\<lambda>x. claimable now invocation x \<and> fresh_columns x) (js_jobs st)
      = filter (claimable now invocation) (js_jobs st)"
    using claimable_fresh(1) [OF inv] by (intro filter_cong) auto
  have "\<not> list_ex (\<lambda>a. at_invocation_id a = jb_invocation_id j) (js_attempts st)"
    using fresh(3) by (auto simp: row_of_None list_ex_iff image_iff)
  moreover have "jb_attempts_started j + 1 \<le> jb_max_attempts j" "jb_lease_epoch j < max_sqlite_integer"
    using j(2) fresh(1,2) by (auto simp: row_to_job_def job_ok_def job_fields_ok_def claimable_def
        fresh_columns_def max_sqlite_integer_def split: if_splits)
  ultimately show ?thesis using Some j fresh(2) by (simp add: select_candidate_def same)
qed

lemma first_by_single: "first_by key [x] = Some x"
  by (simp add: first_by_def)

definition claimed :: "(string \<Rightarrow> string) \<Rightarrow> string \<Rightarrow> int \<Rightarrow> int \<Rightarrow> string \<Rightarrow> string \<Rightarrow> job \<Rightarrow> job_store \<Rightarrow> job_store"
  where "claimed sha worker now deadline attempt_id token j st = st
     \<lparr>js_jobs := replace_row jb_invocation_id (jb_invocation_id j)
        (claimed_job worker (sha token) now deadline j) (js_jobs st),
      js_attempts := js_attempts st @ [new_attempt attempt_id worker (sha token) now deadline j]\<rparr>"

lemma claim_first_result:
  assumes inv: "store_inv st"
    and c: "claim_first sha worker invocation now deadline attempt_id token st = Inr (r, st')"
  shows "(r = None \<and> st' = st) \<or> (\<exists>j. select_candidate now invocation st = Inr (Some j)
      \<and> j \<in> set (js_jobs st) \<and> claimable now invocation j
      \<and> r = Some (new_lease attempt_id worker token now deadline j)
      \<and> st' = claimed sha worker now deadline attempt_id token j st
      \<and> identity_text worker \<and> now < deadline \<and> identity_text attempt_id
      \<and> \<not> clock_behind now [jb_created_at j, jb_updated_at j]
      \<and> attempt_id \<notin> at_attempt_id ` set (js_attempts st))"
proof -
  have pre: "identity_text worker" "now < deadline" "identity_text attempt_id" "identity_text token"
    using c by (auto simp: claim_first_def split: if_splits)
  obtain candidate where sel: "select_candidate now invocation st = Inr candidate"
    using c pre by (auto simp: claim_first_def res_simps)
  show ?thesis
  proof (cases candidate)
    case None
    then show ?thesis using c pre sel by (simp add: claim_first_def)
  next
    case (Some j)
    from select_candidate_result [OF inv, of now invocation] sel Some
    have j: "j \<in> set (js_jobs st)" "claimable now invocation j"
      "\<not> clock_behind now [jb_created_at j, jb_updated_at j]"
      by (auto split: option.splits if_splits)
    note fresh = claimable_fresh [OF inv j(1,2)]
    let ?P = "\<lambda>x. jb_invocation_id x = jb_invocation_id j \<and> jb_status x = IS_QUEUED
      \<and> jb_attempts_started x = 0 \<and> fresh_columns x
      \<and> \<not> list_ex (\<lambda>a. at_invocation_id a = jb_invocation_id x) (js_attempts st)"
    have P: "?P j" "\<forall>x. ?P x \<longrightarrow> jb_invocation_id x = jb_invocation_id j"
      using fresh j(2) by (auto simp: claimable_def row_of_None list_ex_iff image_iff)
    have st': "r = Some (new_lease attempt_id worker token now deadline j)
        \<and> st' = claimed sha worker now deadline attempt_id token j st
        \<and> attempt_id \<notin> at_attempt_id ` set (js_attempts st)"
      using c pre sel Some update_where_key [OF inv_keys(1) [OF inv] j(1) P]
      by (simp add: claim_first_def Let_def claimed_def split: if_splits)
    then show ?thesis using sel Some j pre by blast
  qed
qed

end
