(* ===== verification/Attempts_Reach.thy ===== *)
theory Attempts_Reach
  imports Attempts_Claims
begin

text \<open>
  The step relation of the invocation store: one transaction that commits, of any caller, at any
  clock reading. Every operation keeps the invariant, so every reachable store has it.
\<close>

section \<open>New rows\<close>

lemma claimed_ok:
  assumes "job_ok j" "claimable now invocation j" "fresh_columns j" "identity_text worker" "sha256_text digest"
    "now < deadline" "identity_text attempt_id" "\<not> clock_behind now [jb_created_at j, jb_updated_at j]"
  shows "job_ok (claimed_job worker digest now deadline j)"
    "paired (claimed_job worker digest now deadline j) (new_attempt attempt_id worker digest now deadline j)"
  using assms by (auto simp: job_defs pair_defs claimed_job_def new_attempt_def claimable_def
      fresh_columns_def clock_behind_def max_sqlite_integer_def)

lemma claimed_inv:
  assumes inv: "store_inv st" and j: "j \<in> set (js_jobs st)" and cl: "claimable now invocation j"
    and sha: "sha256_text (sha token)" and dl: "now < deadline" and ids: "identity_text worker" "identity_text attempt_id"
    and clk: "\<not> clock_behind now [jb_created_at j, jb_updated_at j]"
    and new: "attempt_id \<notin> at_attempt_id ` set (js_attempts st)"
  shows "store_inv (claimed sha worker now deadline attempt_id token j st)"
proof -
  note fresh = claimable_fresh [OF inv j cl]
  let ?j = "claimed_job worker (sha token) now deadline j"
  let ?a = "new_attempt attempt_id worker (sha token) now deadline j"
  let ?st = "claimed sha worker now deadline attempt_id token j st"
  have "job_ok j" using inv_job [OF inv j] by (simp add: job_state_ok_def)
  note ok = claimed_ok [OF this cl fresh(1) ids(1) sha dl ids(2) clk]
  have key: "same_key ?j j" by (rule same_keys)
  have a: "at_attempt_id ?a = attempt_id" "at_invocation_id ?a = jb_invocation_id j"
    by (simp_all add: new_attempt_def)
  have none: "jb_invocation_id j \<notin> at_invocation_id ` set (js_attempts st)"
    using fresh(3) by (simp add: row_of_None)
  have jobs: "js_jobs ?st = replace_row jb_invocation_id (jb_invocation_id j) ?j (js_jobs st)"
    and atts: "js_attempts ?st = js_attempts st @ [?a]" by (simp_all add: claimed_def)
  have maps: "map jb_invocation_id (js_jobs ?st) = map jb_invocation_id (js_jobs st)"
    "map (\<lambda>j. (jb_session_id j, jb_task_id j)) (js_jobs ?st)
       = map (\<lambda>j. (jb_session_id j, jb_task_id j)) (js_jobs st)"
    "map (\<lambda>j. (jb_session_id j, jb_idempotency_key j)) (js_jobs ?st)
       = map (\<lambda>j. (jb_session_id j, jb_idempotency_key j)) (js_jobs st)"
    unfolding jobs using key by (auto intro!: replace_row_other_keys inv_keys [OF inv] j simp: same_key_def)
  have dist: "distinct (map at_attempt_id (js_attempts ?st))" "distinct (map at_invocation_id (js_attempts ?st))"
    using inv new none a by (simp_all add: atts store_inv_def)
  have "job_state_ok (js_attempts ?st) x" if "x \<in> set (js_jobs ?st)" for x
  proof -
    have rows: "row_of at_invocation_id k (js_attempts ?st) =
        (if k = jb_invocation_id j then Some ?a else row_of at_invocation_id k (js_attempts st))" for k
      using fresh(3) by (auto simp: atts row_of_append a split: option.splits)
    from that consider "x = ?j" | "x \<in> set (js_jobs st)" "jb_invocation_id x \<noteq> jb_invocation_id j"
      unfolding jobs by (auto dest: in_replace_row)
    then show ?thesis
    proof cases
      case 1
      have "jb_invocation_id ?j = jb_invocation_id j" using key by (simp add: same_key_def)
      with 1 ok show ?thesis by (simp add: job_state_ok_def rows)
    next
      case 2
      then show ?thesis using inv_job [OF inv] by (simp add: job_state_ok_def rows)
    qed
  qed
  moreover have "at_invocation_id ` set (js_attempts ?st) \<subseteq> jb_invocation_id ` set (js_jobs ?st)"
  proof -
    have "jb_invocation_id ` set (js_jobs ?st) = jb_invocation_id ` set (js_jobs st)"
      using maps(1) by (metis set_map)
    then show ?thesis using inv j by (auto simp: atts a store_inv_def)
  qed
  ultimately show ?thesis using inv dist unfolding store_inv_def maps by blast
qed

text \<open>
  What a claim returns: nothing, on the store its recovery left, or the lease of the job that
  comes first, on the recovered store with that job claimed.
\<close>

lemma claim_result:
  assumes inv: "store_inv st"
    and c: "claim sha worker invocation now seconds attempt_id token st = Inr (r, st')"
  obtains sm st1 where "recover_expired_tx now invocation (if invocation = None then Some 1000 else None) st
      = Inr (sm, st1)" "store_inv st1" "r = None" "st' = st1"
      "filter (claimable now invocation) (js_jobs st1) = []"
  | sm st1 j where "recover_expired_tx now invocation (if invocation = None then Some 1000 else None) st
      = Inr (sm, st1)" "store_inv st1"
      "first_by claim_order (filter (claimable now invocation) (js_jobs st1)) = Some j"
      "j \<in> set (js_jobs st1)" "claimable now invocation j"
      "r = Some (new_lease attempt_id worker token now (now + seconds) j)"
      "st' = claimed sha worker now (now + seconds) attempt_id token j st1"
      "identity_text worker" "identity_text attempt_id" "now < now + seconds"
      "\<not> clock_behind now [jb_created_at j, jb_updated_at j]"
      "attempt_id \<notin> at_attempt_id ` set (js_attempts st1)"
proof -
  have worker: "identity_text worker" using c by (auto simp: claim_def split: if_splits)
  have target: "pred_option identity_text invocation" using c by (auto simp: claim_def split: if_splits)
  obtain d where d0: "lease_deadline now seconds = Inr d"
    using c worker target by (auto simp: claim_def res_simps)
  then have d: "d = now + seconds" "lease_deadline now seconds = Inr (now + seconds)"
    by (auto simp: lease_deadline_def split: if_splits)
  obtain sm st1 where rec: "recover_expired_tx now invocation (if invocation = None then Some 1000 else None) st
      = Inr (sm, st1)" and inv1: "store_inv st1"
    using recover_tx_result [OF inv] by blast
  obtain candidate where sel: "select_candidate now invocation st1 = Inr candidate"
    using c worker target d rec by (auto simp: claim_def res_simps)
  show ?thesis
  proof (cases candidate)
    case None
    then have "r = None" "st' = st1" using c worker target d rec sel by (auto simp: claim_def)
    moreover have "filter (claimable now invocation) (js_jobs st1) = []"
      using select_candidate_result [OF inv1, of now invocation] sel None
      by (auto simp: first_by_None split: option.splits if_splits)
    ultimately show ?thesis using that(1) [OF rec inv1] by blast
  next
    case (Some j)
    have first: "first_by claim_order (filter (claimable now invocation) (js_jobs st1)) = Some j"
      "j \<in> set (js_jobs st1)" "claimable now invocation j"
      using select_candidate_result [OF inv1, of now invocation] sel Some
      by (auto split: option.splits if_splits)
    obtain l where l: "claim_first sha worker (Some (jb_invocation_id j)) now (now + seconds) attempt_id
        token st1 = Inr (Some l, st')" "r = Some l"
      using c worker target d rec sel Some by (auto simp: claim_def res_simps split: option.splits if_splits)
    from claim_first_result [OF inv1 l(1)] obtain i where
      i: "select_candidate now (Some (jb_invocation_id j)) st1 = Inr (Some i)" "i \<in> set (js_jobs st1)"
        "claimable now (Some (jb_invocation_id j)) i" "l = new_lease attempt_id worker token now (now + seconds) i"
        "st' = claimed sha worker now (now + seconds) attempt_id token i st1"
        "identity_text worker" "now < now + seconds" "identity_text attempt_id"
        "\<not> clock_behind now [jb_created_at i, jb_updated_at i]"
        "attempt_id \<notin> at_attempt_id ` set (js_attempts st1)"
      by auto
    have "i = j"
      using key_inj [OF inv_keys(1) [OF inv1] i(2) first(2)] i(3) by (simp add: claimable_def)
    then show ?thesis using that(2) [OF rec inv1 first] i l(2) by blast
  qed
qed

section \<open>Every step keeps the invariant\<close>

lemma new_job_inv:
  assumes inv: "store_inv st" and "job_ok (new_job s now)"
    and none: "filter (same_identity s) (js_jobs st) = []"
  shows "store_inv (st\<lparr>js_jobs := js_jobs st @ [new_job s now]\<rparr>)"
proof -
  let ?j = "new_job s now"
  have other: "\<not> same_identity s x" if "x \<in> set (js_jobs st)" for x
    using none that by (auto simp: filter_empty_conv)
  have new: "jb_invocation_id ?j \<notin> jb_invocation_id ` set (js_jobs st)"
    "(jb_session_id ?j, jb_task_id ?j) \<notin> (\<lambda>j. (jb_session_id j, jb_task_id j)) ` set (js_jobs st)"
    "(jb_session_id ?j, jb_idempotency_key ?j)
       \<notin> (\<lambda>j. (jb_session_id j, jb_idempotency_key j)) ` set (js_jobs st)"
    using other by (force simp: same_identity_def new_job_def)+
  then have "jb_invocation_id ?j \<notin> at_invocation_id ` set (js_attempts st)"
    using inv by (auto simp: store_inv_def)
  then have "row_of at_invocation_id (jb_invocation_id ?j) (js_attempts st) = None"
    by (simp add: row_of_None)
  then have "job_state_ok (js_attempts st) ?j"
    using assms(2) by (simp add: job_state_ok_def new_job_def)
  then show ?thesis using inv new by (auto simp: store_inv_def)
qed

lemma enqueue_inv:
  assumes inv: "store_inv st" and e: "enqueue s now st = Inr (j, st')"
  shows "store_inv st'"
proof (cases "filter (same_identity s) (js_jobs st)")
  case Nil
  then have "job_ok (new_job s now)" "st' = st\<lparr>js_jobs := js_jobs st @ [new_job s now]\<rparr>"
    using e by (auto simp: enqueue_def row_to_job_def res_simps split: if_splits)
  with new_job_inv [OF inv _ Nil] show ?thesis by simp
next
  case (Cons row rows)
  then have "st' = st" using e by (auto simp: enqueue_def res_simps split: if_splits)
  with inv show ?thesis by simp
qed

inductive store_step :: "(string \<Rightarrow> string) \<Rightarrow> job_store \<Rightarrow> job_store \<Rightarrow> bool" for sha where
  step_enqueue: "bind_res (check_job_spec s) (\<lambda>s. enqueue s now st) = Inr (j, st') \<Longrightarrow> store_step sha st st'"
| step_claim: "claim sha worker invocation now seconds attempt_id token st = Inr (r, st')
     \<Longrightarrow> store_step sha st st'"
| step_heartbeat: "heartbeat sha l now seconds st = Inr (b, st') \<Longrightarrow> store_step sha st st'"
| step_complete: "complete sha l now result st = Inr (b, st') \<Longrightarrow> store_step sha st st'"
| step_fail: "fail_job sha l now err retry st = Inr (b, st') \<Longrightarrow> store_step sha st st'"
| step_recover: "recover_expired now limit st = Inr (sm, st') \<Longrightarrow> store_step sha st st'"

inductive_cases store_step_E: "store_step sha st st'"

definition sha_ok :: "(string \<Rightarrow> string) \<Rightarrow> bool" where
  "sha_ok sha = (\<forall>s. sha256_text (sha s))"

text \<open>
  The effect of a step, the same for its clients: nothing, a new job, recovered jobs (before a
  claim or alone), a claimed job, or an owned pair replaced by a heartbeat, a completion or a
  failure.
\<close>

lemma owned_set_pair_inv:
  assumes inv: "store_inv st" and o: "owned sha l now st j a" and "same_key j' j"
    "at_attempt_id a' = at_attempt_id a" "job_ok j'" "paired j' a'"
  shows "store_inv (set_pair j' a' st)"
  using o set_pair_inv [OF inv _ _ assms(3-6)] by (simp add: owned_def)

lemma heartbeat_inv:
  assumes inv: "store_inv st" and hb: "heartbeat sha l now seconds st = Inr (b, st')"
  shows "store_inv st'"
proof -
  from heartbeat_result [OF inv hb] consider "st' = st"
    | j a d where "owned sha l now st j a" "now < d"
        "st' = set_pair (beat_job now d j) (beat_attempt now d a) st" by blast
  then show ?thesis
  proof cases
    case 2
    have "beating now d j a" using owned_now [OF inv 2(1)] 2(2) by (simp add: beating_def)
    from beat_ok [OF owned_paired [OF inv 2(1)] this] show ?thesis
      unfolding 2(3) by (intro owned_set_pair_inv [OF inv 2(1)]) (simp_all add: same_keys same_attempts)
  qed (use inv in simp)
qed

lemma complete_inv:
  assumes inv: "store_inv st" and c: "complete sha l now r st = Inr (b, st')"
  shows "store_inv st'"
proof -
  from complete_result [OF inv c] consider "st' = st"
    | j a where "pred_option (\<lambda>r. required_text r 16384) r" "owned sha l now st j a"
        "st' = set_pair (done_job now r j) (done_attempt now r a) st" by blast
  then show ?thesis
  proof cases
    case 2
    from done_ok [OF owned_paired [OF inv 2(2)] owned_now [OF inv 2(2)] 2(1)] show ?thesis
      unfolding 2(3) by (intro owned_set_pair_inv [OF inv 2(2)]) (simp_all add: same_keys same_attempts)
  qed (use inv in simp)
qed

lemma fail_inv:
  assumes inv: "store_inv st" and f: "fail_job sha l now e retry st = Inr (b, st')"
  shows "store_inv st'"
proof -
  from fail_result [OF inv f] consider "st' = st"
    | j a reason t where "stored_error e = Inr reason" "owned sha l now st j a"
        "st' = set_pair (if jb_max_attempts j \<le> jb_attempts_started j then exhausted_job now reason j
                         else requeued_job now t reason j) (failed_attempt AT_FAILED now reason a) st"
    by blast
  then show ?thesis
  proof cases
    case 2
    note own = owned_paired [OF inv 2(2)] owned_now(1,2) [OF inv 2(2)]
    have why: "AT_FAILED = AT_FAILED \<and> within_lease now j \<or> AT_FAILED = AT_EXPIRED \<and> expired_job now j"
      using owned_now(3) [OF inv 2(2)] by simp
    note ex = exhausted_ok [OF own _ stored_error_ok [OF 2(1)] why]
    note rq = requeued_ok [OF own _ stored_error_ok [OF 2(1)] why]
    show ?thesis unfolding 2(3)
      by (rule owned_set_pair_inv [OF inv 2(2)]) (auto simp: same_keys same_attempts intro: ex rq)
  qed (use inv in simp)
qed

lemma recover_expired_inv:
  assumes inv: "store_inv st" and r: "recover_expired now limit st = Inr (sm, st')"
  shows "store_inv st'"
proof -
  have "recover_expired_tx now None (Some (nat limit)) st = Inr (sm, st')"
    using r by (simp add: recover_expired_def split: if_splits)
  with recover_tx_result [OF inv, of now None "Some (nat limit)"] show ?thesis by auto
qed

lemma claim_inv:
  assumes inv: "store_inv st" and "sha_ok sha"
    and c: "claim sha worker invocation now seconds attempt_id token st = Inr (r, st')"
  shows "store_inv st'"
proof -
  have sha: "sha256_text (sha token)" using assms(2) by (simp add: sha_ok_def)
  show ?thesis by (rule claim_result [OF inv c]) (auto intro: claimed_inv sha)
qed

lemma store_step_inv: "store_inv st \<Longrightarrow> sha_ok sha \<Longrightarrow> store_step sha st st' \<Longrightarrow> store_inv st'"
  by (erule store_step_E)
    (auto simp: res_simps intro: enqueue_inv claim_inv heartbeat_inv complete_inv fail_inv recover_expired_inv)

definition empty_store :: "job_store \<Rightarrow> bool" where
  "empty_store st = (js_jobs st = [] \<and> js_attempts st = [])"

lemma empty_store_inv: "empty_store st \<Longrightarrow> store_inv st"
  by (simp add: empty_store_def store_inv_def)

definition queue_step :: "(string \<Rightarrow> string) \<Rightarrow> job_store \<Rightarrow> job_store \<Rightarrow> bool" where
  "queue_step sha st st' = (sha_ok sha \<and> store_step sha st st')"

interpretation queue: invariant_system empty_store "queue_step sha" store_inv for sha
  by unfold_locales (blast intro: empty_store_inv, simp add: queue_step_def, blast intro: store_step_inv)

section \<open>What a job may become\<close>

text \<open>A job keeps its work and its identity, its attempts only grow, and a settled job stays as it is.\<close>

definition same_work :: "job \<Rightarrow> job \<Rightarrow> bool" where
  "same_work j j' = (same_key j' j \<and> jb_plan_id j' = jb_plan_id j \<and> jb_agent_id j' = jb_agent_id j
     \<and> jb_payload_digest j' = jb_payload_digest j \<and> jb_priority j' = jb_priority j
     \<and> jb_max_attempts j' = jb_max_attempts j
     \<and> jb_requested_available_at j' = jb_requested_available_at j
     \<and> jb_created_at j' = jb_created_at j)"

definition evolves :: "job \<Rightarrow> job \<Rightarrow> bool" where
  "evolves j j' = (same_work j j' \<and> jb_attempts_started j \<le> jb_attempts_started j'
     \<and> (terminal_job j \<longrightarrow> j' = j))"

definition jobs_evolve :: "job_store \<Rightarrow> job_store \<Rightarrow> bool" where
  "jobs_evolve st st' = (\<forall>j \<in> set (js_jobs st). \<exists>j' \<in> set (js_jobs st'). evolves j j')"

lemma evolves_refl: "evolves j j"
  by (simp add: evolves_def same_work_def same_key_def)

lemma evolves_trans: "evolves a b \<Longrightarrow> evolves b c \<Longrightarrow> evolves a c"
  by (auto simp: evolves_def same_work_def same_key_def)

lemma jobs_evolve_refl: "jobs_evolve st st"
  by (auto simp: jobs_evolve_def intro: evolves_refl)

lemma jobs_evolve_trans: "jobs_evolve a b \<Longrightarrow> jobs_evolve b c \<Longrightarrow> jobs_evolve a c"
  unfolding jobs_evolve_def by (meson evolves_trans)

lemma evolves_ops:
  assumes "jb_status j = IS_RUNNING"
  shows "evolves j (beat_job now d j)" "evolves j (done_job now r j)"
    "evolves j (exhausted_job now e j)" "evolves j (requeued_job now t e j)"
  using assms by (simp_all add: evolves_def same_work_def same_key_def terminal_job_def beat_job_def
      done_job_def exhausted_job_def requeued_job_def clear_lease_def)

lemma evolves_claimed: "claimable now i j \<Longrightarrow> evolves j (claimed_job w g now d j)"
  by (simp add: claimable_def evolves_def same_work_def same_key_def terminal_job_def claimed_job_def)

lemma jobs_evolve_replace:
  assumes "store_inv st" "j \<in> set (js_jobs st)" "evolves j j'"
    "js_jobs st' = replace_row jb_invocation_id (jb_invocation_id j) j' (js_jobs st)"
  shows "jobs_evolve st st'"
proof -
  have "\<exists>x' \<in> set (js_jobs st'). evolves x x'" if x: "x \<in> set (js_jobs st)" for x
  proof (cases "jb_invocation_id x = jb_invocation_id j")
    case True
    then have "x = j" using key_inj [OF inv_keys(1) [OF assms(1)] x assms(2)] by simp
    then show ?thesis using assms(2-4) in_replace_row_iff [OF assms(2) refl] by auto
  next
    case False
    then have "x \<in> set (js_jobs st')" using x assms(4) in_replace_row_iff [OF assms(2) refl] by auto
    then show ?thesis using evolves_refl by blast
  qed
  then show ?thesis by (simp add: jobs_evolve_def)
qed

lemma jobs_evolve_owned:
  assumes inv: "store_inv st" and o: "owned sha l now st j a" and "evolves j j'"
  shows "jobs_evolve st (set_pair j' a' st)"
proof -
  have id: "jb_invocation_id j' = jb_invocation_id j"
    using assms(3) by (simp add: evolves_def same_work_def same_key_def)
  show ?thesis
    by (rule jobs_evolve_replace [OF inv _ assms(3)]) (use o in \<open>simp_all add: owned_def set_pair_def id\<close>)
qed

lemma jobs_evolve_recovered:
  assumes inv: "store_inv st" and r: "recover_expired_tx now invocation limit st = Inr (sm, st')"
  shows "jobs_evolve st st'"
proof -
  let ?E = "set (expired_rows now invocation limit st)"
  have jobs: "js_jobs st' = map (\<lambda>j. if j \<in> ?E then recovered now j else j) (js_jobs st)"
    using recover_tx_result [OF inv, of now invocation limit] r by auto
  have "evolves j (if j \<in> ?E then recovered now j else j)" for j
  proof (cases "j \<in> ?E")
    case True
    then have "jb_status j = IS_RUNNING"
      using expired_rows_props(3) [OF inv] by (auto simp: expired_job_def)
    from evolves_ops [OF this] True show ?thesis by (simp add: recovered_def)
  qed (simp add: evolves_refl)
  then show ?thesis unfolding jobs_evolve_def jobs set_map by blast
qed

lemma jobs_evolve_claim:
  assumes inv: "store_inv st"
    and c: "claim sha worker invocation now seconds attempt_id token st = Inr (r, st')"
  shows "jobs_evolve st st'"
proof (rule claim_result [OF inv c])
  fix sm st1 j
  assume rec: "recover_expired_tx now invocation (if invocation = None then Some 1000 else None) st = Inr (sm, st1)"
    and inv1: "store_inv st1" and j: "j \<in> set (js_jobs st1)" "claimable now invocation j"
    and st': "st' = claimed sha worker now (now + seconds) attempt_id token j st1"
  have "jobs_evolve st1 st'"
    by (rule jobs_evolve_replace [OF inv1 j(1) evolves_claimed [OF j(2)]]) (simp add: st' claimed_def)
  with jobs_evolve_recovered [OF inv rec] show ?thesis by (rule jobs_evolve_trans)
qed (simp add: jobs_evolve_recovered [OF inv])

lemma jobs_evolve_enqueue:
  assumes "enqueue s now st = Inr (j, st')"
  shows "jobs_evolve st st'"
proof -
  have "set (js_jobs st) \<subseteq> set (js_jobs st')"
    using assms by (cases "filter (same_identity s) (js_jobs st)")
      (auto simp: enqueue_def row_to_job_def res_simps split: if_splits)
  then show ?thesis unfolding jobs_evolve_def using evolves_refl by blast
qed

lemma store_step_evolves:
  assumes inv: "store_inv st" and step: "queue_step sha st st'"
  shows "jobs_evolve st st'"
proof -
  note own = owned_paired(3) [OF inv]
  have "store_step sha st st'" using step by (simp add: queue_step_def)
  then show ?thesis
  proof cases
    case step_enqueue
    then show ?thesis by (auto simp: res_simps intro: jobs_evolve_enqueue)
  next
    case step_claim
    then show ?thesis by (rule jobs_evolve_claim [OF inv])
  next
    case step_heartbeat
    from heartbeat_result [OF inv this] show ?thesis
      by (elim disjE conjE exE) (auto intro: jobs_evolve_refl jobs_evolve_owned [OF inv] evolves_ops(1) own)
  next
    case step_complete
    from complete_result [OF inv this] show ?thesis
      by (elim disjE conjE exE) (auto intro: jobs_evolve_refl jobs_evolve_owned [OF inv] evolves_ops(2) own)
  next
    case step_fail
    from fail_result [OF inv this] show ?thesis
      by (elim disjE conjE exE)
        (auto intro: jobs_evolve_refl jobs_evolve_owned [OF inv] evolves_ops(3,4) own split: if_splits)
  next
    case step_recover
    then show ?thesis
      by (auto simp: recover_expired_def intro: jobs_evolve_recovered [OF inv] split: if_splits)
  qed
qed

lemma steps_evolve:
  assumes "store_inv st" "(queue_step sha)\<^sup>*\<^sup>* st st'"
  shows "jobs_evolve st st'"
  by (rule queue.steps_mono [OF assms(2,1)]) (blast intro: jobs_evolve_refl jobs_evolve_trans store_step_evolves)+

end
