(* ===== verification/Attempts_Props.thy ===== *)
theory Attempts_Props
  imports Attempts_Reach
begin

text \<open>
  What the invocation queue promises, on every store its transactions can reach from the empty
  one, and a run of the queue on which each promise is checked.
\<close>

section \<open>A run\<close>

definition sample_sha :: "string \<Rightarrow> string" where
  "sample_sha s = replicate 64 (CHR ''a'')"

lemma sample_digest: "sha256_text (sample_sha s)"
  unfolding sample_sha_def by code_simp

lemma sample_sha_ok: "sha_ok sample_sha"
  by (simp add: sha_ok_def sample_digest)

definition sample_spec :: job_spec where
  "sample_spec = \<lparr>sp_session_id = ''s'', sp_plan_id = ''p'', sp_task_id = ''t'', sp_agent_id = ''a'',
     sp_idempotency_key = ''k'', sp_payload_digest = sample_sha [], sp_invocation_id = ''i'',
     sp_priority = 50, sp_max_attempts = 1, sp_available_at = None\<rparr>"

definition no_jobs :: job_store where
  "no_jobs = \<lparr>js_jobs = [], js_attempts = []\<rparr>"

definition sample_queued :: job_store where
  "sample_queued = no_jobs\<lparr>js_jobs := [new_job sample_spec 10]\<rparr>"

definition sample_lease :: lease where
  "sample_lease = new_lease ''x'' ''w'' ''tok'' 20 120 (new_job sample_spec 10)"

definition sample_running :: job_store where
  "sample_running = claimed sample_sha ''w'' 20 120 ''x'' ''tok'' (new_job sample_spec 10) sample_queued"

lemmas sample_defs = sample_spec_def no_jobs_def sample_queued_def sample_lease_def sample_running_def
  sample_sha_def

text \<open>The claim of the only job, evaluated call by call.\<close>

abbreviation sample_job :: job where
  "sample_job \<equiv> new_job sample_spec 10"

lemma sample_job_facts:
  "jb_status sample_job = IS_QUEUED" "jb_attempts_started sample_job = 0"
  "jb_lease_token_digest sample_job = None" "jb_invocation_id sample_job = ''i''"
  "jb_created_at sample_job = 10" "jb_updated_at sample_job = 10" "jb_available_at sample_job = 10"
  "jb_max_attempts sample_job = 1" "jb_lease_epoch sample_job = 0" "fresh_columns sample_job"
  "js_jobs sample_queued = [sample_job]" "js_attempts sample_queued = []"
  by (simp_all add: new_job_def fresh_columns_def sample_spec_def sample_queued_def no_jobs_def)

lemma sample_names: "identity_text ''w''" "identity_text ''x''" "identity_text ''tok''"
    "identity_text ''i''" "identity_text ''s''" "identity_text ''t''" "identity_text ''p''"
    "identity_text ''a''" "identity_text ''k''"
  by (simp_all add: required_text_def blank_iff py_space_def utf8_len_def)

lemma sample_row: "row_to_job sample_job = Inr sample_job"
  by (simp add: row_to_job_def job_defs new_job_def sample_spec_def sample_names sample_digest
      max_sqlite_integer_def)

lemma sample_enqueue: "bind_res (check_job_spec sample_spec) (\<lambda>s. enqueue s 10 no_jobs)
    = Inr (sample_job, sample_queued)"
  by (simp add: check_job_spec_def enqueue_def sample_row sample_queued_def no_jobs_def)
    (simp add: sample_spec_def sample_names sample_digest max_sqlite_integer_def)

lemma sample_first: "first_by claim_order [sample_job] = Some sample_job"
  by (rule first_by_single)

lemma sample_select:
  "i \<in> {None, Some ''i''} \<Longrightarrow> select_candidate 20 i sample_queued = Inr (Some sample_job)"
  by (auto simp: select_candidate_def claimable_def sample_job_facts sample_row sample_first
      clock_behind_def max_sqlite_integer_def cong: bind_res_weak_cong)

lemma sample_claim_first:
  "claim_first sample_sha ''w'' (Some ''i'') 20 120 ''x'' ''tok'' sample_queued
     = Inr (Some sample_lease, sample_running)"
  by (simp add: claim_first_def sample_select sample_job_facts sample_names update_where_def Let_def
      claimed_def replace_row_def sample_lease_def sample_running_def cong: bind_res_weak_cong)

lemma sample_claim: "claim sample_sha ''w'' None 20 100 ''x'' ''tok'' sample_queued
    = Inr (Some sample_lease, sample_running)"
proof -
  have "lease_deadline 20 100 = Inr 120" "expired_rows 20 None (Some 1000) sample_queued = []"
    "lease_of_candidate sample_lease sample_job"
    by (simp_all add: lease_deadline_def max_instant_def expired_rows_def expired_job_def
        sample_job_facts lease_of_candidate_def sample_lease_def new_lease_def)
  then show ?thesis
    by (simp add: claim_def recover_expired_tx_def sample_select sample_job_facts sample_names
        sample_claim_first cong: bind_res_weak_cong)
qed

lemma sample_steps:
  "reach empty_store (queue_step sample_sha) no_jobs"
  "reach empty_store (queue_step sample_sha) sample_queued"
  "reach empty_store (queue_step sample_sha) sample_running"
proof -
  show e: "reach empty_store (queue_step sample_sha) no_jobs"
    by (rule reach_init) (simp add: empty_store_def no_jobs_def)
  show q: "reach empty_store (queue_step sample_sha) sample_queued"
    by (rule reach_step [OF e])
      (simp only: queue_step_def sample_sha_ok simp_thms step_enqueue [OF sample_enqueue])
  show "reach empty_store (queue_step sample_sha) sample_running"
    by (rule reach_step [OF q])
      (simp only: queue_step_def sample_sha_ok simp_thms step_claim [OF sample_claim])
qed

abbreviation reachable_store :: "(string \<Rightarrow> string) \<Rightarrow> job_store \<Rightarrow> bool" where
  "reachable_store sha \<equiv> reach empty_store (queue_step sha)"

section \<open>Rows always parse\<close>

lemma attempts_of_cases:
  assumes "store_inv st"
  shows "attempts_of i st = (case row_of at_invocation_id i (js_attempts st) of None \<Rightarrow> [] | Some a \<Rightarrow> [a])"
proof (cases "row_of at_invocation_id i (js_attempts st)")
  case None
  then have "filter (\<lambda>a. at_invocation_id a = i) (js_attempts st) = []"
    by (auto simp: row_of_None filter_empty_conv)
  with None show ?thesis by (simp add: attempts_of_def)
next
  case (Some a)
  from row_of_Some [OF Some] have "filter (\<lambda>a. at_invocation_id a = i) (js_attempts st) = [a]"
    by (intro filter_key [OF inv_keys(2) [OF assms]]) auto
  with Some show ?thesis by (simp add: attempts_of_def)
qed

lemma unique_row:
  assumes "distinct (map key rows)"
  shows "filter (\<lambda>r. key r = k) rows = [] \<or> (\<exists>r \<in> set rows. filter (\<lambda>r. key r = k) rows = [r])"
proof (cases "\<exists>r \<in> set rows. key r = k")
  case True
  then obtain r where "r \<in> set rows" "key r = k" by blast
  then have "filter (\<lambda>r. key r = k) rows = [r]" by (intro filter_key [OF assms]) auto
  with \<open>r \<in> set rows\<close> show ?thesis by blast
qed (simp add: filter_empty_conv)

lemma snapshot_of_job:
  assumes inv: "store_inv st" and j: "j \<in> set (js_jobs st)"
  shows "\<exists>a n. scan_attempts j 0 0 None None (take 1001 (attempts_of (jb_invocation_id j) st)) = Inr (a, n)
    \<and> recovery_pair_ok j a n"
proof -
  have js: "job_state_ok (js_attempts st) j" by (rule inv_job [OF inv j])
  show ?thesis
  proof (cases "row_of at_invocation_id (jb_invocation_id j) (js_attempts st)")
    case None
    then show ?thesis using js
      by (simp add: attempts_of_cases [OF inv] job_state_ok_def recovery_pair_ok_def job_ok_def)
  next
    case (Some a)
    then have "paired j a" using js by (simp add: job_state_ok_def)
    then have "scan_attempts j 0 0 None None [a] = Inr (Some a, 1)" "recovery_pair_ok j (Some a) 1"
      by (auto simp: pair_defs row_to_attempt_def split: if_splits)
    with Some show ?thesis by (simp add: attempts_of_cases [OF inv])
  qed
qed

text \<open>
  C8. On every store the queue's transactions can reach, the recovery snapshot of a task never
  reports an integrity error: each job and its attempts pass every check the snapshot makes.
\<close>

theorem recovery_snapshot_total:
  assumes "reachable_store sha st" and "identity_text session" and "identity_text task"
  shows "\<exists>job current n. recovery_snapshot session task st = Inr (job, current, n)"
proof -
  have inv: "store_inv st" by (rule queue.reach_inv [OF assms(1)])
  have dist: "distinct (map (\<lambda>j. (jb_session_id j, jb_task_id j)) (js_jobs st))"
    using inv by (simp add: store_inv_def)
  let ?rows = "filter (\<lambda>j. jb_session_id j = session \<and> jb_task_id j = task) (js_jobs st)"
  from unique_row [OF dist, of "(session, task)"]
  consider "?rows = []" | j where "j \<in> set (js_jobs st)" "?rows = [j]" by auto
  then show ?thesis
  proof cases
    case (2 j)
    then have "job_ok j" using inv_job [OF inv] by (simp add: job_state_ok_def)
    with 2 snapshot_of_job [OF inv 2(1)] show ?thesis
      by (auto simp: recovery_snapshot_def assms(2,3) row_to_job_def)
  qed (simp add: recovery_snapshot_def assms(2,3))
qed

lemma recovery_snapshot_total_witness:
  "\<exists>job current n. recovery_snapshot ''s'' ''t'' sample_running = Inr (job, current, n)"
  by (rule recovery_snapshot_total [OF sample_steps(3) sample_names(5,6)])

text \<open>
  An invocation is attempted at most once: the attempts listed for it are as many as its
  \<open>attempts_started\<close>, which is at most one and never above its budget.
\<close>

theorem attempts_counted:
  assumes "reachable_store sha st" and "j \<in> set (js_jobs st)"
  shows "int (length (attempts_of (jb_invocation_id j) st)) = jb_attempts_started j
    \<and> jb_attempts_started j \<le> 1 \<and> jb_attempts_started j \<le> jb_max_attempts j"
proof -
  have inv: "store_inv st" by (rule queue.reach_inv [OF assms(1)])
  have "job_state_ok (js_attempts st) j" by (rule inv_job [OF inv assms(2)])
  then show ?thesis unfolding attempts_of_cases [OF inv]
    by (auto simp: job_state_ok_def job_ok_def job_fields_ok_def paired_def recovery_pair_ok_def
        split: option.splits)
qed

lemma attempts_counted_witness:
  "int (length (attempts_of ''i'' sample_running)) = 1"
  using attempts_counted [OF sample_steps(3), of "claimed_job ''w'' (sample_sha ''tok'') 20 120 sample_job"]
  by (simp add: sample_running_def claimed_def replace_row_def sample_job_facts claimed_job_def)

section \<open>Settled jobs\<close>

text \<open>
  A settled job is final: once a job has succeeded or failed, no transaction of the queue
  changes any field of its row.
\<close>

theorem settled_job_frozen:
  assumes "reachable_store sha st" and "(queue_step sha)\<^sup>*\<^sup>* st st'"
    and "j \<in> set (js_jobs st)" and "terminal_job j"
  shows "j \<in> set (js_jobs st')"
  using steps_evolve [OF queue.reach_inv [OF assms(1)] assms(2)] assms(3,4)
  by (auto simp: jobs_evolve_def evolves_def)

lemma settled_refused:
  assumes inv: "store_inv st" and j: "j \<in> set (js_jobs st)" "terminal_job j"
    and id: "jb_invocation_id j = ls_invocation_id l"
  shows "refused sha l now st"
proof -
  have "\<not> owned_where sha l now x" if x: "x \<in> set (js_jobs st)" for x
  proof
    assume o: "owned_where sha l now x"
    then have "x = j" using key_inj [OF inv_keys(1) [OF inv] x j(1)] id by (simp add: owned_where_def)
    with o j(2) show False by (simp add: owned_where_def terminal_job_def)
  qed
  then show ?thesis by (simp add: refused_def)
qed

text \<open>The operations of an owner all answer false and leave the store as it is, whatever they carry.\<close>

definition denied :: "(string \<Rightarrow> string) \<Rightarrow> lease \<Rightarrow> int \<Rightarrow> job_store \<Rightarrow> bool" where
  "denied sha l now st =
     ((\<forall>seconds. seconds \<in> {0 <.. max_instant - now} \<longrightarrow> heartbeat sha l now seconds st = Inr (False, st))
      \<and> (\<forall>r. pred_option (\<lambda>r. required_text r 16384) r \<longrightarrow> complete sha l now r st = Inr (False, st))
      \<and> (\<forall>e retry. required_text e 16384 \<longrightarrow> fail_job sha l now e retry st = Inr (False, st)))"

lemma refused_denied:
  assumes inv: "store_inv st" and r: "refused sha l now st" and l: "check_lease l = Inr l"
  shows "denied sha l now st"
proof -
  have row: "active_owned_row sha l now st = Inr None"
    using active_owned_row_result [OF inv, of sha l now] r by (auto simp: refused_def)
  have "lease_deadline now seconds = Inr (now + seconds)" if "seconds \<in> {0 <.. max_instant - now}" for seconds
    using that by (simp add: lease_deadline_def)
  then show ?thesis
    by (simp add: denied_def heartbeat_def complete_def fail_job_def l row stored_error_def)
qed

lemma done_settled:
  assumes inv: "store_inv st" and c: "complete sha l now result st = Inr (True, st')"
  shows "\<exists>j \<in> set (js_jobs st'). jb_invocation_id j = ls_invocation_id l \<and> jb_status j = IS_SUCCEEDED
    \<and> jb_result_ref j = result"
proof -
  from complete_result [OF inv c] obtain j a where o: "owned sha l now st j a"
    and st': "st' = set_pair (done_job now result j) (done_attempt now result a) st" by blast
  then have j: "j \<in> set (js_jobs st)" "jb_invocation_id j = ls_invocation_id l"
    by (simp_all add: owned_def owned_where_def)
  have id: "jb_invocation_id (done_job now result j) = jb_invocation_id j"
    using same_keys(2) by (simp add: same_key_def)
  have "done_job now result j \<in> set (js_jobs st')"
    using j(1) by (simp add: st' set_pair_jobs [OF inv j(1) id])
  then show ?thesis using j(2) id by (rule_tac bexI) (simp_all add: done_job_def clear_lease_def)
qed

text \<open>
  C25. A completion is acknowledged at most once: after \<open>complete\<close> returned true, every later
  heartbeat, completion or failure for that invocation, with any lease and at any clock reading,
  answers false and changes nothing.
\<close>

theorem completed_once:
  assumes "reachable_store sha st" and "complete sha l now result st = Inr (True, st1)"
    and "(queue_step sha)\<^sup>*\<^sup>* st1 st2" and "check_lease k = Inr k"
    and "ls_invocation_id k = ls_invocation_id l"
  shows "denied sha k t st2"
proof -
  have inv: "store_inv st" by (rule queue.reach_inv [OF assms(1)])
  have inv1: "store_inv st1" by (rule complete_inv [OF inv assms(2)])
  have inv2: "store_inv st2" by (rule queue.steps_inv [OF assms(3) inv1])
  from done_settled [OF inv assms(2)] obtain j where
    j: "j \<in> set (js_jobs st1)" "jb_invocation_id j = ls_invocation_id k" "terminal_job j"
    using assms(5) by (auto simp: terminal_job_def)
  then have "j \<in> set (js_jobs st2)"
    using steps_evolve [OF inv1 assms(3)] by (auto simp: jobs_evolve_def evolves_def)
  then show ?thesis using refused_denied [OF inv2 settled_refused [OF inv2 _ j(3,2)] assms(4)] by blast
qed

text \<open>
  C31. A worker whose lease has run out is fenced: once the clock has reached the expiry of its
  job's row, or the row is not running any more, its heartbeat, completion and failure answer
  false and change nothing.
\<close>

theorem expired_lease_fenced:
  assumes "reachable_store sha st" and "check_lease l = Inr l"
    and "\<forall>j \<in> set (js_jobs st). jb_invocation_id j = ls_invocation_id l \<longrightarrow>
           jb_status j \<noteq> IS_RUNNING \<or> expired_job now j"
  shows "denied sha l now st"
proof -
  have "\<not> owned_where sha l now j" if "j \<in> set (js_jobs st)" for j
    using assms(3) that by (auto simp: owned_where_def expired_job_def split: option.splits)
  then have "refused sha l now st" by (simp add: refused_def)
  with refused_denied [OF queue.reach_inv [OF assms(1)] _ assms(2)] show ?thesis by blast
qed

section \<open>Recovery\<close>

text \<open>
  Recovery is exact: it takes the first \<open>limit\<close> expired jobs in the order of their expiry,
  requeues those with budget left and fails the others, in the summary and in the table, and
  leaves every other row as it is.
\<close>

theorem recover_expired_exact:
  assumes "reachable_store sha st" and "1 \<le> limit" and "limit \<le> 1000"
    and "expired = expired_rows now None (Some (nat limit)) st"
  shows "\<exists>st'. recover_expired now limit st = Inr
      (\<lparr>sm_requeued = map jb_invocation_id (filter (\<lambda>j. jb_attempts_started j < jb_max_attempts j) expired),
        sm_exhausted = map jb_invocation_id (filter (\<lambda>j. jb_max_attempts j \<le> jb_attempts_started j) expired)\<rparr>,
       st')
    \<and> js_jobs st' = map (\<lambda>j. if j \<notin> set expired then j
         else if jb_max_attempts j \<le> jb_attempts_started j then exhausted_job now expired_reason j
         else requeued_job now now expired_reason j) (js_jobs st)"
proof -
  have eq: "(if j \<in> set expired then recovered now j else j) = (if j \<notin> set expired then j
         else if jb_max_attempts j \<le> jb_attempts_started j then exhausted_job now expired_reason j
         else requeued_job now now expired_reason j)" for j by (simp add: recovered_def)
  obtain sm st' where r: "recover_expired_tx now None (Some (nat limit)) st = Inr (sm, st')"
    "sm_requeued sm = map jb_invocation_id (filter (\<lambda>j. jb_attempts_started j < jb_max_attempts j) expired)"
    "sm_exhausted sm = map jb_invocation_id (filter (\<lambda>j. jb_max_attempts j \<le> jb_attempts_started j) expired)"
    "js_jobs st' = map (\<lambda>j. if j \<in> set expired then recovered now j else j) (js_jobs st)"
    using recover_tx_result [OF queue.reach_inv [OF assms(1)], of now None "Some (nat limit)"]
    unfolding assms(4) by blast
  then have "recover_expired now limit st = Inr (sm, st')" using assms(2,3) by (simp add: recover_expired_def)
  with r show ?thesis unfolding eq by (intro exI [of _ st']) simp
qed

lemma recover_expired_exact_witness:
  "\<exists>st'. recover_expired 200 5 sample_running = Inr (\<lparr>sm_requeued = [], sm_exhausted = [''i'']\<rparr>, st')"
proof -
  let ?j = "claimed_job ''w'' (sample_sha ''tok'') 20 120 sample_job"
  have "filter (\<lambda>j. expired_job 200 j) (js_jobs sample_running) = [?j]" "jb_invocation_id ?j = ''i''"
    "jb_attempts_started ?j = 1" "jb_max_attempts ?j = 1"
    by (simp_all add: sample_running_def claimed_def replace_row_def sample_job_facts claimed_job_def
        expired_job_def)
  then show ?thesis
    using recover_expired_exact [OF sample_steps(3) _ _ refl, of 5 200] by (auto simp: expired_rows_def)
qed

section \<open>A live owner\<close>

lemma owned_result:
  assumes inv: "store_inv st" and o: "owned sha l now st j a"
  shows "active_owned_row sha l now st = Inr (Some j)" "owned_attempt sha l now st j = Inr a"
proof -
  have j: "j \<in> set (js_jobs st)" "owned_where sha l now j" using o by (simp_all add: owned_def)
  have "filter (owned_where sha l now) (js_jobs st) = [j]"
    using j(2) by (intro filter_key [where key = jb_invocation_id, OF inv_keys(1) [OF inv] j(1)])
      (auto simp: owned_where_def)
  moreover have "row_to_job j = Inr j"
    using inv_job [OF inv j(1)] by (simp add: row_to_job_def job_state_ok_def)
  ultimately show "active_owned_row sha l now st = Inr (Some j)" by (simp add: active_owned_row_def)
  note own = owned_paired [OF inv o]
  have a: "a \<in> set (js_attempts st)" "at_invocation_id a = jb_invocation_id j"
    using o row_of_Some [of at_invocation_id "jb_invocation_id j" "js_attempts st" a]
    by (auto simp: owned_def)
  have binds: "lease_binds l j a" "at_status a = AT_RUNNING"
    "\<not> clock_behind now [jb_updated_at j, at_started_at a, at_heartbeat_at a]"
    using o by (simp_all add: owned_def)
  have fields: "ls_invocation_id l = jb_invocation_id j" "ls_lease_epoch l = at_lease_epoch a"
    "ls_attempt_id l = at_attempt_id a" "jb_attempts_started j = at_attempt_number a"
    using binds(1) by (auto simp: lease_binds_def)
  let ?P = "\<lambda>x. at_invocation_id x = ls_invocation_id l \<and> at_attempt_number x = jb_attempts_started j
    \<and> at_lease_epoch x = ls_lease_epoch l \<and> at_status x = AT_RUNNING
    \<and> (Some (ls_attempt_id l) = None \<or> Some (ls_attempt_id l) = Some (at_attempt_id x))"
  have "filter ?P (js_attempts st) = [a]"
    using a binds(2) fields by (intro filter_key [OF inv_keys(2) [OF inv] a(1)]) auto
  then have load: "load_running_attempt st (ls_invocation_id l) (jb_attempts_started j) (ls_lease_epoch l)
      (Some (ls_attempt_id l)) = Inr a"
    using own(1) by (simp add: load_running_attempt_def row_to_attempt_def paired_def)
  have "jb_lease_owner j = Some (ls_worker_id l)" "jb_lease_token_digest j = Some (sha (ls_lease_token l))"
    "jb_lease_expires_at j = Some (at_lease_expires_at a)" "jb_heartbeat_at j = Some (at_heartbeat_at a)"
    "at_worker_id a = ls_worker_id l" "at_lease_token_digest a = sha (ls_lease_token l)"
    using own(1,3) j(2) by (auto simp: owned_where_def pair_defs)
  moreover from this have "owner_matches a (ls_invocation_id l) (jb_attempts_started j) (ls_lease_epoch l)
      (ls_worker_id l) (sha (ls_lease_token l)) (at_heartbeat_at a) (at_lease_expires_at a)
      (Some (ls_attempt_id l))"
    using a(2) fields by (simp add: owner_matches_def)
  ultimately show "owned_attempt sha l now st j = Inr a"
    using binds by (simp add: owned_attempt_def load)
qed

lemma owner_completes:
  assumes inv: "store_inv st" and o: "owned sha l now st j a" and l: "check_lease l = Inr l"
    and r: "pred_option (\<lambda>r. required_text r 16384) result"
  shows "complete sha l now result st = Inr (True, set_pair (done_job now result j) (done_attempt now result a) st)"
  using owned_updates [OF inv o]
  by (simp add: complete_def l r owned_result [OF inv o] Let_def set_pair_def done_job_def clear_lease_def)

text \<open>The lease a claim returns owns its job until the deadline.\<close>

lemma claimed_owned:
  assumes inv: "store_inv st" and j: "j \<in> set (js_jobs st)" and cl: "claimable now invocation j"
    and t: "now \<le> t" "t < deadline" and clk: "\<not> clock_behind now [jb_created_at j, jb_updated_at j]"
  shows "owned sha (new_lease attempt_id worker token now deadline j) t
    (claimed sha worker now deadline attempt_id token j st)
    (claimed_job worker (sha token) now deadline j) (new_attempt attempt_id worker (sha token) now deadline j)"
proof -
  have none: "row_of at_invocation_id (jb_invocation_id j) (js_attempts st) = None"
    by (rule claimable_fresh(3) [OF inv j cl])
  have "claimed_job worker (sha token) now deadline j
      \<in> set (js_jobs (claimed sha worker now deadline attempt_id token j st))"
    using j by (auto simp: claimed_def replace_row_def)
  moreover have "lease_binds (new_lease attempt_id worker token now deadline j)
      (claimed_job worker (sha token) now deadline j) (new_attempt attempt_id worker (sha token) now deadline j)"
    by (simp add: lease_binds_def new_lease_def claimed_job_def new_attempt_def)
  ultimately show ?thesis using t none
    by (auto simp: owned_def owned_where_def row_of_append claimed_def clock_behind_def claimed_job_def
        new_attempt_def new_lease_def split: option.splits)
qed

lemma new_lease_ok:
  assumes "job_ok j" "claimable now invocation j" "identity_text worker" "identity_text attempt_id"
    "identity_text token" "now < deadline"
  shows "check_lease (new_lease attempt_id worker token now deadline j)
    = Inr (new_lease attempt_id worker token now deadline j)"
  using assms by (simp add: check_lease_def new_lease_def job_ok_def job_fields_ok_def claimable_def
      max_sqlite_integer_def)

text \<open>
  C38. A claimed lease is good: at any instant before its deadline its owner's completion is
  acknowledged, and leaves the job succeeded with the result reference it carries.
\<close>

theorem live_owner_completes:
  assumes "reachable_store sha st" and "sha_ok sha" and "identity_text token"
    and "claim sha worker invocation now seconds attempt_id token st = Inr (Some l, st1)"
    and "now \<le> t" and "t < now + seconds" and "pred_option (\<lambda>r. required_text r 16384) result"
  shows "\<exists>st2. complete sha l t result st1 = Inr (True, st2)
    \<and> (\<exists>j \<in> set (js_jobs st2). jb_invocation_id j = ls_invocation_id l
         \<and> jb_status j = IS_SUCCEEDED \<and> jb_result_ref j = result)"
proof -
  have inv: "store_inv st" by (rule queue.reach_inv [OF assms(1)])
  have inv1: "store_inv st1" by (rule claim_inv [OF inv assms(2,4)])
  have "\<exists>st2. complete sha l t result st1 = Inr (True, st2)"
  proof (rule claim_result [OF inv assms(4)])
    fix sm st0 j
    assume c: "store_inv st0" "j \<in> set (js_jobs st0)" "claimable now invocation j"
      "Some l = Some (new_lease attempt_id worker token now (now + seconds) j)"
      "st1 = claimed sha worker now (now + seconds) attempt_id token j st0" "identity_text worker"
      "identity_text attempt_id" "now < now + seconds" "\<not> clock_behind now [jb_created_at j, jb_updated_at j]"
    have "job_ok j" using inv_job [OF c(1,2)] by (simp add: job_state_ok_def)
    from new_lease_ok [OF this c(3,6,7) assms(3) c(8)] c(4) have l: "check_lease l = Inr l" by simp
    have "owned sha l t st1 (claimed_job worker (sha token) now (now + seconds) j)
        (new_attempt attempt_id worker (sha token) now (now + seconds) j)"
      using claimed_owned [OF c(1-3) assms(5,6) c(9)] c(4,5) by simp
    from owner_completes [OF inv1 this l assms(7)] show ?thesis by blast
  qed simp
  then show ?thesis using done_settled [OF inv1] by blast
qed

lemma live_owner_completes_witness:
  "\<exists>st2. complete sample_sha sample_lease 30 (Some ''r'') sample_running = Inr (True, st2)"
  using live_owner_completes [OF sample_steps(2) sample_sha_ok sample_names(3) sample_claim,
      of 30 "Some ''r''"] by (auto simp: required_text_def blank_iff py_space_def utf8_len_def)

section \<open>Claims and enqueueing\<close>

text \<open>
  A claim takes the job that comes first: when it hands out a lease, on the store as its
  recovery left it, no claimable job precedes the leased one by priority, then by availability,
  age and id; when it hands out none, no job was claimable.
\<close>

theorem claim_takes_first:
  assumes "reachable_store sha st"
    and "claim sha worker invocation now seconds attempt_id token st = Inr (r, st')"
  shows "\<exists>sm st1. recover_expired_tx now invocation (if invocation = None then Some 1000 else None) st
      = Inr (sm, st1) \<and> (case r of
        None \<Rightarrow> st' = st1 \<and> (\<forall>k \<in> set (js_jobs st1). \<not> claimable now invocation k)
      | Some l \<Rightarrow> \<exists>j \<in> set (js_jobs st1). claimable now invocation j
          \<and> l = new_lease attempt_id worker token now (now + seconds) j
          \<and> (\<forall>k \<in> set (js_jobs st1). claimable now invocation k \<longrightarrow> claim_order j \<le> claim_order k))"
proof (rule claim_result [OF queue.reach_inv [OF assms(1)] assms(2)])
  fix sm st1 j
  assume c: "recover_expired_tx now invocation (if invocation = None then Some 1000 else None) st = Inr (sm, st1)"
    "first_by claim_order (filter (claimable now invocation) (js_jobs st1)) = Some j"
    "j \<in> set (js_jobs st1)" "claimable now invocation j"
    "r = Some (new_lease attempt_id worker token now (now + seconds) j)"
  then have "\<forall>k \<in> set (js_jobs st1). claimable now invocation k \<longrightarrow> claim_order j \<le> claim_order k"
    using first_by_least [OF c(2)] by simp
  with c(3,4) c(5) have "case r of None \<Rightarrow> st' = st1 \<and> (\<forall>k \<in> set (js_jobs st1). \<not> claimable now invocation k)
      | Some l \<Rightarrow> \<exists>j \<in> set (js_jobs st1). claimable now invocation j
          \<and> l = new_lease attempt_id worker token now (now + seconds) j
          \<and> (\<forall>k \<in> set (js_jobs st1). claimable now invocation k \<longrightarrow> claim_order j \<le> claim_order k)"
    unfolding c(5) option.case by blast
  with c(1) show ?thesis by blast
qed (auto simp: filter_empty_conv)

lemma claim_takes_first_witness:
  "\<exists>j \<in> set (js_jobs sample_queued). claimable 20 None j
     \<and> (\<forall>k \<in> set (js_jobs sample_queued). claimable 20 None k \<longrightarrow> claim_order j \<le> claim_order k)"
proof -
  have "expired_rows 20 None (Some 1000) sample_queued = []"
    by (simp add: expired_rows_def expired_job_def sample_job_facts)
  then have "recover_expired_tx 20 None (Some 1000) sample_queued
      = Inr (\<lparr>sm_requeued = [], sm_exhausted = []\<rparr>, sample_queued)"
    by (simp add: recover_expired_tx_def)
  then show ?thesis using claim_takes_first [OF sample_steps(2) sample_claim] by auto
qed

definition spec_of :: "job_spec \<Rightarrow> job \<Rightarrow> bool" where
  "spec_of s j = (jb_session_id j = sp_session_id s \<and> jb_plan_id j = sp_plan_id s
      \<and> jb_task_id j = sp_task_id s \<and> jb_agent_id j = sp_agent_id s
      \<and> jb_idempotency_key j = sp_idempotency_key s \<and> jb_payload_digest j = sp_payload_digest s
      \<and> jb_priority j = sp_priority s \<and> jb_max_attempts j = sp_max_attempts s
      \<and> jb_requested_available_at j = sp_available_at s)"

lemma spec_of_evolves: "spec_of s j \<Longrightarrow> evolves j j' \<Longrightarrow> spec_of s j'"
  by (auto simp: spec_of_def evolves_def same_work_def same_key_def)

lemma enqueue_row:
  assumes inv: "store_inv st" and e: "enqueue s now st = Inr (j, st')"
  shows "j \<in> set (js_jobs st') \<and> spec_of s j"
proof (cases "filter (same_identity s) (js_jobs st)")
  case Nil
  then show ?thesis using e
    by (auto simp: enqueue_def row_to_job_def res_simps spec_of_def new_job_def split: if_splits)
next
  case (Cons row rows)
  then have "row \<in> set (js_jobs st)" by (auto dest: filter_eq_ConsD)
  with Cons show ?thesis using e
    by (auto simp: enqueue_def existing_matches_def row_to_job_def res_simps spec_of_def split: if_splits)
qed

lemma enqueue_known:
  assumes inv: "store_inv st" and j: "j \<in> set (js_jobs st)" "spec_of s j"
    and one: "\<forall>x \<in> set (js_jobs st). jb_invocation_id x = sp_invocation_id s \<longrightarrow> x = j"
  shows "enqueue s now st = Inr (j, st)"
proof -
  have d: "distinct (map (\<lambda>j. (jb_session_id j, jb_task_id j)) (js_jobs st))"
    "distinct (map (\<lambda>j. (jb_session_id j, jb_idempotency_key j)) (js_jobs st))"
    using inv by (simp_all add: store_inv_def)
  have "x = j" if "x \<in> set (js_jobs st)" "same_identity s x" for x
    using that(2) one that(1) key_inj [OF d(1) that(1) j(1)] key_inj [OF d(2) that(1) j(1)] j(2)
    by (auto simp: same_identity_def spec_of_def)
  moreover have "same_identity s j" using j(2) by (simp add: same_identity_def spec_of_def)
  ultimately have "filter (same_identity s) (js_jobs st) = filter (\<lambda>x. x = j) (js_jobs st)"
    by (intro filter_cong) auto
  also have "\<dots> = [j]"
    by (rule filter_key [OF inv_keys(1) [OF inv] j(1)]) simp_all
  finally have rows: "filter (same_identity s) (js_jobs st) = [j]" .
  have "row_to_job j = Inr j" using inv_job [OF inv j(1)] by (simp add: row_to_job_def job_state_ok_def)
  with rows j(2) show ?thesis by (simp add: enqueue_def existing_matches_def spec_of_def)
qed

text \<open>
  Enqueueing is idempotent: once a job with its own invocation id was accepted, submitting the
  same work again, at any later time and whatever happened to the job in between, adds nothing
  and returns that job.
\<close>

theorem enqueue_idempotent:
  assumes "reachable_store sha st" and "enqueue s now st = Inr (j, st1)"
    and "jb_invocation_id j = sp_invocation_id s" and "(queue_step sha)\<^sup>*\<^sup>* st1 st2"
  shows "\<exists>j'. enqueue s later st2 = Inr (j', st2) \<and> evolves j j'"
proof -
  have inv: "store_inv st" by (rule queue.reach_inv [OF assms(1)])
  have inv1: "store_inv st1" by (rule enqueue_inv [OF inv assms(2)])
  have inv2: "store_inv st2" by (rule queue.steps_inv [OF assms(4) inv1])
  from enqueue_row [OF inv assms(2)] have j: "j \<in> set (js_jobs st1)" "spec_of s j" by auto
  then obtain j' where j': "j' \<in> set (js_jobs st2)" "evolves j j'"
    using steps_evolve [OF inv1 assms(4)] by (auto simp: jobs_evolve_def)
  then have id: "jb_invocation_id j' = sp_invocation_id s"
    using assms(3) by (simp add: evolves_def same_work_def same_key_def)
  have "\<forall>x \<in> set (js_jobs st2). jb_invocation_id x = sp_invocation_id s \<longrightarrow> x = j'"
    using key_inj [OF inv_keys(1) [OF inv2] _ j'(1)] id by auto
  then show ?thesis
    using enqueue_known [OF inv2 j'(1) spec_of_evolves [OF j(2) j'(2)]] j'(2) by blast
qed

section \<open>Witnesses on the run\<close>

lemma sample_lease_ok: "check_lease sample_lease = Inr sample_lease"
  by (simp add: check_lease_def sample_lease_def new_lease_def sample_names new_job_def sample_spec_def
      sample_digest max_sqlite_integer_def)

lemma sample_done:
  obtains st where "complete sample_sha sample_lease 30 None sample_running = Inr (True, st)"
    "reachable_store sample_sha st"
proof -
  have "owned sample_sha sample_lease 30 sample_running
      (claimed_job ''w'' (sample_sha ''tok'') 20 120 sample_job)
      (new_attempt ''x'' ''w'' (sample_sha ''tok'') 20 120 sample_job)"
    unfolding sample_lease_def sample_running_def
    by (rule claimed_owned [OF queue.reach_inv [OF sample_steps(2)], of _ _ None])
      (simp_all add: sample_job_facts claimable_def clock_behind_def)
  from owner_completes [OF queue.reach_inv [OF sample_steps(3)] this sample_lease_ok, of None]
  obtain st where c: "complete sample_sha sample_lease 30 None sample_running = Inr (True, st)" by auto
  have "queue_step sample_sha sample_running st"
    using step_complete [OF c] sample_sha_ok by (simp add: queue_step_def)
  with that [OF c] show ?thesis by (rule_tac that [OF c reach_step [OF sample_steps(3)]])
qed

lemma settled_job_frozen_witness:
  "\<exists>st j. reachable_store sample_sha st \<and> terminal_job j \<and> j \<in> set (js_jobs st)"
proof -
  obtain st where st: "complete sample_sha sample_lease 30 None sample_running = Inr (True, st)"
    "reachable_store sample_sha st" by (rule sample_done)
  from done_settled [OF queue.reach_inv [OF sample_steps(3)] st(1)] obtain j where
    j: "j \<in> set (js_jobs st)" "terminal_job j" by (auto simp: terminal_job_def)
  from settled_job_frozen [OF st(2) rtranclp.rtrancl_refl j] j st(2) show ?thesis by blast
qed

lemma completed_once_witness:
  "\<exists>st. complete sample_sha sample_lease 30 None sample_running = Inr (True, st)
     \<and> denied sample_sha sample_lease 40 st"
proof -
  obtain st where st: "complete sample_sha sample_lease 30 None sample_running = Inr (True, st)"
    by (rule sample_done)
  from completed_once [OF sample_steps(3) st rtranclp.rtrancl_refl sample_lease_ok refl] st
  show ?thesis by blast
qed

lemma expired_lease_fenced_witness: "denied sample_sha sample_lease 120 sample_running"
proof (rule expired_lease_fenced [OF sample_steps(3) sample_lease_ok])
  show "\<forall>j \<in> set (js_jobs sample_running). jb_invocation_id j = ls_invocation_id sample_lease \<longrightarrow>
      jb_status j \<noteq> IS_RUNNING \<or> expired_job 120 j"
    by (simp add: sample_running_def claimed_def replace_row_def sample_job_facts claimed_job_def expired_job_def)
qed

lemma enqueue_idempotent_witness:
  "\<exists>j'. enqueue sample_spec 99 sample_queued = Inr (j', sample_queued)"
proof -
  have "enqueue sample_spec 10 no_jobs = Inr (sample_job, sample_queued)"
    using sample_enqueue by (auto simp: res_simps check_job_spec_def split: if_splits)
  moreover have "jb_invocation_id sample_job = sp_invocation_id sample_spec"
    by (simp add: new_job_def)
  ultimately show ?thesis
    using enqueue_idempotent [OF sample_steps(1) _ _ rtranclp.rtrancl_refl, of sample_spec 10] by blast
qed

end
