(* ===== verification/Event_Log.thy ===== *)
theory Event_Log
  imports Tables Canonical
begin

text \<open>
  The event log of \<open>events.py\<close> and \<open>store.py\<close>: domain events, the JSON contract of the store,
  the \<open>events\<close> table and the operations that append to it and read it, each the body of one
  transaction (an error rolls back, so it carries no new state).

  A row keeps the JSON value that its text column denotes: \<open>json.loads\<close> of the \<open>json.dumps\<close> of a
  value with sorted keys is that value with sorted keys (\<open>sort_json\<close>), and the byte limit is the
  length of \<open>canonical_bytes\<close>. Timestamps are texts; what \<open>datetime\<close> and SQLite's \<open>julianday\<close>
  make of a text is the record \<open>calendar\<close>, about which nothing is assumed.
\<close>

record calendar =
  cal_norm :: "string \<Rightarrow> string option"
  cal_julian :: "string \<Rightarrow> rat option"
  cal_add :: "string \<Rightarrow> rat \<Rightarrow> string option"

record event_config =
  cf_platform :: platform
  cf_calendar :: calendar
  cf_max_json_bytes :: nat

datatype event_error = EvConcurrency string | EvIntegrity string | EvJson string | EvValue string
  | EvUnique string | EvRuntime string | EvFull

definition max_row_integer :: int where
  "max_row_integer = 2 ^ 63 - 1"

section \<open>The JSON contract\<close>

text \<open>The traversal of \<open>_copy_json_value\<close>: the depth, and the number of nodes seen so far.\<close>

fun copy_json :: "nat \<Rightarrow> nat \<Rightarrow> json \<Rightarrow> event_error + nat"
  and copy_items :: "nat \<Rightarrow> nat \<Rightarrow> json list \<Rightarrow> event_error + nat"
  and copy_fields :: "nat \<Rightarrow> nat \<Rightarrow> (string \<times> json) list \<Rightarrow> event_error + nat" where
  "copy_json depth nodes v =
     (if depth > 64 then Inl (EvJson ''exceeds 64 levels'')
      else if nodes + 1 > 10000 then Inl (EvJson ''JSON field exceeds 10000 value nodes'')
      else (case v of
          JNull \<Rightarrow> Inr (nodes + 1)
        | JBool b \<Rightarrow> Inr (nodes + 1)
        | JStr s \<Rightarrow> (if length s > 65536 then Inl (EvJson ''exceeds 65536 characters'')
            else Inr (nodes + 1))
        | JInt i \<Rightarrow> (if \<bar>i\<bar> \<ge> 2 ^ 4096 then Inl (EvJson ''exceeds 4096 integer bits'')
            else Inr (nodes + 1))
        | JFloat r \<Rightarrow> Inr (nodes + 1)
        | JObj d \<Rightarrow> copy_fields (depth + 1) (nodes + 1) d
        | JArr xs \<Rightarrow> copy_items (depth + 1) (nodes + 1) xs))"
| "copy_items depth nodes [] = Inr nodes"
| "copy_items depth nodes (x # xs) =
     bind_res (copy_json depth nodes x) (\<lambda>n. copy_items depth n xs)"
| "copy_fields depth nodes [] = Inr nodes"
| "copy_fields depth nodes ((k, x) # xs) =
     (if length k > 512 then Inl (EvJson ''key exceeds 512 characters'')
      else bind_res (copy_json depth nodes x) (\<lambda>n. copy_fields depth n xs))"

declare copy_json.simps [simp del]

fun sort_json :: "json \<Rightarrow> json" where
  "sort_json (JArr xs) = JArr (map sort_json xs)"
| "sort_json (JObj d) = JObj (sort_key fst (map (\<lambda>(k, v). (k, sort_json v)) d))"
| "sort_json v = v"

text \<open>\<open>_encode_json_object\<close> and \<open>_snapshot_json_object\<close>: the checks, then the value as stored.\<close>

definition snapshot_json :: "event_config \<Rightarrow> json \<Rightarrow> event_error + json" where
  "snapshot_json cf v =
     bind_res (copy_json 0 0 v) (\<lambda>_.
       case v of
         JObj d \<Rightarrow>
           if length (canonical_bytes (cf_platform cf) v) > cf_max_json_bytes cf
             then Inl (EvJson ''exceeds the encoded byte limit'')
           else Inr (sort_json v)
       | _ \<Rightarrow> Inl (EvJson ''must be a plain JSON object''))"

definition decode_json :: "event_config \<Rightarrow> json \<Rightarrow> event_error + json" where
  "decode_json cf v =
     (let bad = Inl (EvIntegrity ''persisted field violates its JSON contract'') in
      if length (canonical_bytes (cf_platform cf) v) > cf_max_json_bytes cf then bad
      else case copy_json 0 0 v of
        Inl e \<Rightarrow> bad
      | Inr n \<Rightarrow> (case v of JObj d \<Rightarrow> Inr v | _ \<Rightarrow> bad))"

text \<open>Python's \<open>==\<close> on two decoded values: booleans, integers and floats compare as numbers.\<close>

fun py_value :: "json \<Rightarrow> json" where
  "py_value (JBool b) = JFloat (if b then 1 else 0)"
| "py_value (JInt i) = JFloat (of_int i)"
| "py_value (JArr xs) = JArr (map py_value xs)"
| "py_value (JObj d) = JObj (map (\<lambda>(k, v). (k, py_value v)) d)"
| "py_value v = v"

section \<open>Events and rows\<close>

record domain_event =
  ev_stream_id :: string
  ev_event_type :: string
  ev_payload :: json
  ev_actor_id :: string
  ev_event_id :: string
  ev_timestamp :: string
  ev_correlation_id :: "string option"
  ev_causation_id :: "string option"
  ev_idempotency_key :: "string option"

definition check_event :: "domain_event \<Rightarrow> event_error + domain_event" where
  "check_event e =
     (if blank (ev_stream_id e) \<or> blank (ev_event_type e) \<or> blank (ev_actor_id e)
        then Inl (EvValue ''stream_id, event_type, and actor_id are required'') else Inr e)"

record stored_event =
  se_event :: domain_event
  se_sequence :: int
  se_global_position :: int

definition event_to_dict :: "domain_event \<Rightarrow> (string, json) dict" where
  "event_to_dict e =
     [(''eventId'', JStr (ev_event_id e)), (''streamId'', JStr (ev_stream_id e)),
      (''eventType'', JStr (ev_event_type e)), (''payload'', ev_payload e),
      (''actorId'', JStr (ev_actor_id e)), (''timestamp'', JStr (ev_timestamp e)),
      (''correlationId'', jopt JStr (ev_correlation_id e)),
      (''causationId'', jopt JStr (ev_causation_id e)),
      (''idempotencyKey'', jopt JStr (ev_idempotency_key e))]"

definition stored_to_dict :: "stored_event \<Rightarrow> (string, json) dict" where
  "stored_to_dict s = event_to_dict (se_event s)
     @ [(''sequence'', JInt (se_sequence s)), (''globalPosition'', JInt (se_global_position s))]"

definition snapshot_event :: "event_config \<Rightarrow> domain_event \<Rightarrow> event_error + domain_event" where
  "snapshot_event cf e =
     (if blank (ev_stream_id e) then Inl (EvValue ''event stream_id is required'')
      else if blank (ev_event_type e) then Inl (EvValue ''event event_type is required'')
      else if blank (ev_actor_id e) then Inl (EvValue ''event actor_id is required'')
      else bind_res (snapshot_json cf (ev_payload e)) (\<lambda>p. check_event (e\<lparr>ev_payload := p\<rparr>)))"

text \<open>\<open>_row_to_event\<close>: a row is the stored event it was written from.\<close>

definition row_to_event :: "event_config \<Rightarrow> stored_event \<Rightarrow> event_error + stored_event" where
  "row_to_event cf r =
     (let e = se_event r; bad = Inl (EvIntegrity ''persisted event row is malformed'') in
      if blank (ev_timestamp e) \<or> cal_norm (cf_calendar cf) (ev_timestamp e) = None then bad
      else if blank (ev_stream_id e) \<or> blank (ev_event_type e) then bad
      else bind_res (decode_json cf (ev_payload e)) (\<lambda>p.
        if blank (ev_actor_id e) \<or> blank (ev_event_id e) then bad
        else if \<not> (1 \<le> se_sequence r \<and> se_sequence r \<le> max_row_integer) then bad
        else if \<not> (1 \<le> se_global_position r \<and> se_global_position r \<le> max_row_integer) then bad
        else Inr (r\<lparr>se_event := e\<lparr>ev_payload := p\<rparr>\<rparr>)))"

section \<open>Appending\<close>

definition same_key_event :: "domain_event \<Rightarrow> stored_event \<Rightarrow> bool" where
  "same_key_event e r = (ev_stream_id (se_event r) = ev_stream_id e
     \<and> ev_idempotency_key e \<noteq> None \<and> ev_idempotency_key (se_event r) = ev_idempotency_key e)"

definition in_stream :: "string \<Rightarrow> stored_event \<Rightarrow> bool" where
  "in_stream stream r = (ev_stream_id (se_event r) = stream)"

definition version_of :: "string \<Rightarrow> stored_event list \<Rightarrow> int" where
  "version_of stream rows = fold max (map se_sequence (filter (in_stream stream) rows)) 0"

definition last_position :: "stored_event list \<Rightarrow> int" where
  "last_position rows = fold max (map se_global_position rows) 0"

text \<open>The \<open>INSERT\<close> with the constraints of the table; the position is the \<open>AUTOINCREMENT\<close> key.\<close>

definition insert_event ::
  "domain_event \<Rightarrow> int \<Rightarrow> stored_event list \<Rightarrow> event_error + stored_event" where
  "insert_event e sequence rows =
     (if sequence > max_row_integer \<or> last_position rows \<ge> max_row_integer then Inl EvFull
      else if ev_event_id e \<in> (\<lambda>r. ev_event_id (se_event r)) ` set rows
        then Inl (EvUnique ''events.event_id'')
      else if list_ex (\<lambda>r. in_stream (ev_stream_id e) r \<and> se_sequence r = sequence) rows
        then Inl (EvUnique ''events.stream_id, events.sequence'')
      else if list_ex (same_key_event e) rows
        then Inl (EvUnique ''events.stream_id, events.idempotency_key'')
      else Inr \<lparr>se_event = e, se_sequence = sequence,
                se_global_position = last_position rows + 1\<rparr>)"

definition append_tx ::
  "event_config \<Rightarrow> domain_event \<Rightarrow> int option \<Rightarrow> int option \<Rightarrow> stored_event list
   \<Rightarrow> event_error + (stored_event \<times> bool) \<times> stored_event list" where
  "append_tx cf e expected expected_global rows =
     (case filter (same_key_event e) rows of
        r # _ \<Rightarrow> bind_res (row_to_event cf r) (\<lambda>s. Inr ((s, False), rows))
      | [] \<Rightarrow>
          if \<not> pred_option (\<lambda>g. g = last_position rows) expected_global
            then Inl (EvConcurrency ''global event position changed during admission'')
          else let version = version_of (ev_stream_id e) rows in
            if \<not> pred_option (\<lambda>v. v = version) expected
              then Inl (EvConcurrency ''stream expected version'')
            else bind_res (insert_event e (version + 1) rows) (\<lambda>s. Inr ((s, True), rows @ [s])))"

definition check_row_integer :: "int \<Rightarrow> event_error + int" where
  "check_row_integer n =
     (if - max_row_integer - 1 \<le> n \<and> n \<le> max_row_integer then Inr n
      else Inl (EvValue ''exceeds SQLite integer range''))"

definition check_cursor :: "int \<Rightarrow> event_error + int" where
  "check_cursor n = (if n < 0 then Inl (EvValue ''cannot be negative'') else check_row_integer n)"

definition check_limit :: "int \<Rightarrow> event_error + nat" where
  "check_limit n = (if 1 \<le> n \<and> n \<le> 1000 then Inr (nat n)
     else Inl (EvValue ''limit must be between 1 and 1000''))"

definition check_option :: "('a \<Rightarrow> 'e + 'b) \<Rightarrow> 'a option \<Rightarrow> 'e + 'b option" where
  "check_option f x = (case x of None \<Rightarrow> Inr None | Some a \<Rightarrow> bind_res (f a) (\<lambda>b. Inr (Some b)))"

definition append_event ::
  "event_config \<Rightarrow> domain_event \<Rightarrow> int option \<Rightarrow> int option \<Rightarrow> stored_event list
   \<Rightarrow> event_error + stored_event \<times> stored_event list" where
  "append_event cf e expected expected_global rows =
     bind_res (snapshot_event cf e) (\<lambda>e'.
     bind_res (check_option check_row_integer expected) (\<lambda>v.
     bind_res (check_option check_cursor expected_global) (\<lambda>g.
     bind_res (append_tx cf e' v g rows) (\<lambda>((s, inserted), rows'). Inr (s, rows')))))"

fun insert_batch ::
  "domain_event list \<Rightarrow> int \<Rightarrow> stored_event list \<Rightarrow> event_error + stored_event list \<times> stored_event list"
where
  "insert_batch [] version rows = Inr ([], rows)"
| "insert_batch (e # es) version rows =
     bind_res (insert_event e (version + 1) rows) (\<lambda>s.
     bind_res (insert_batch es (version + 1) (rows @ [s])) (\<lambda>(ss, rows'). Inr (s # ss, rows')))"

definition append_many ::
  "event_config \<Rightarrow> string \<Rightarrow> domain_event list \<Rightarrow> int option \<Rightarrow> stored_event list
   \<Rightarrow> event_error + stored_event list \<times> stored_event list" where
  "append_many cf stream es expected rows =
     bind_res (map_res (snapshot_event cf) es) (\<lambda>batch.
       if \<not> list_all (\<lambda>e. ev_stream_id e = stream) batch
         then Inl (EvValue ''all batch events must use the declared stream_id'')
       else if batch = [] then Inr ([], rows)
       else bind_res (check_option check_row_integer expected) (\<lambda>v.
         if \<not> pred_option (\<lambda>n. n = version_of stream rows) v
           then Inl (EvConcurrency ''stream expected version'')
         else insert_batch batch (version_of stream rows) rows))"

section \<open>Reading\<close>

definition stream_rows :: "string \<Rightarrow> int \<Rightarrow> stored_event list \<Rightarrow> stored_event list" where
  "stream_rows stream after rows =
     sort_key se_sequence (filter (\<lambda>r. in_stream stream r \<and> after < se_sequence r) rows)"

definition read_stream ::
  "event_config \<Rightarrow> string \<Rightarrow> int \<Rightarrow> stored_event list \<Rightarrow> event_error + stored_event list" where
  "read_stream cf stream after rows =
     bind_res (check_row_integer after) (\<lambda>a. map_res (row_to_event cf) (stream_rows stream a rows))"

definition read_stream_page ::
  "event_config \<Rightarrow> string \<Rightarrow> int \<Rightarrow> int \<Rightarrow> stored_event list \<Rightarrow> event_error + stored_event list" where
  "read_stream_page cf stream after limit rows =
     (if blank stream then Inl (EvValue ''stream_id is required'')
      else bind_res (check_cursor after) (\<lambda>a.
           bind_res (check_limit limit) (\<lambda>n.
             map_res (row_to_event cf) (take n (stream_rows stream a rows)))))"

definition get_idempotent_event ::
  "event_config \<Rightarrow> string \<Rightarrow> string \<Rightarrow> stored_event list \<Rightarrow> event_error + stored_event option" where
  "get_idempotent_event cf stream key rows =
     (if blank stream then Inl (EvValue ''stream_id is required'')
      else if blank key then Inl (EvValue ''idempotency_key is required'')
      else case filter (\<lambda>r. in_stream stream r \<and> ev_idempotency_key (se_event r) = Some key) rows of
        [] \<Rightarrow> Inr None
      | r # _ \<Rightarrow> bind_res (row_to_event cf r) (\<lambda>s. Inr (Some s)))"

text \<open>
  The page iterator of \<open>stream_all_page\<close>: each step is a query of its own for the next row past
  the cursor, so the table may grow between two steps.
\<close>

definition next_event :: "event_config \<Rightarrow> int \<Rightarrow> stored_event list \<Rightarrow> event_error + stored_event option"
  where "next_event cf position rows =
     (case first_by se_global_position (filter (\<lambda>r. position < se_global_position r) rows) of
        None \<Rightarrow> Inr None
      | Some r \<Rightarrow> bind_res (row_to_event cf r) (\<lambda>s. Inr (Some s)))"

fun all_page ::
  "event_config \<Rightarrow> int \<Rightarrow> nat \<Rightarrow> stored_event list \<Rightarrow> event_error + stored_event list" where
  "all_page cf position 0 rows = Inr []"
| "all_page cf position (Suc n) rows =
     bind_res (next_event cf position rows) (\<lambda>item.
       case item of None \<Rightarrow> Inr []
       | Some s \<Rightarrow> bind_res (all_page cf (se_global_position s) n rows) (\<lambda>ss. Inr (s # ss)))"

definition read_all ::
  "event_config \<Rightarrow> int \<Rightarrow> int \<Rightarrow> stored_event list \<Rightarrow> event_error + stored_event list" where
  "read_all cf after limit rows =
     bind_res (check_cursor after) (\<lambda>a. bind_res (check_limit limit) (\<lambda>n. all_page cf a n rows))"

end
