(* ===== verification/Event_History.thy ===== *)
theory Event_History
  imports Event_Log "HOL-Library.Sublist" "HOL-Library.Multiset"
begin

text \<open>
  The JSON contract of the event store stated without its traversal, and the round trip of a
  document through the store: what the snapshot of a value wrote, the decoder accepts.
\<close>

section \<open>What is written reads back\<close>

text \<open>The JSON contract without the traversal: the shape of a value and its number of nodes.\<close>

fun json_nodes :: "json \<Rightarrow> nat" where
  "json_nodes (JArr xs) = Suc (sum_list (map json_nodes xs))"
| "json_nodes (JObj d) = Suc (sum_list (map (\<lambda>(k, v). json_nodes v) d))"
| "json_nodes v = 1"

fun json_fits :: "nat \<Rightarrow> json \<Rightarrow> bool" where
  "json_fits depth (JArr xs) = (depth \<le> 64 \<and> list_all (json_fits (depth + 1)) xs)"
| "json_fits depth (JObj d) = (depth \<le> 64
     \<and> list_all (\<lambda>(k, v). length k \<le> 512 \<and> json_fits (depth + 1) v) d)"
| "json_fits depth (JStr s) = (depth \<le> 64 \<and> length s \<le> 65536)"
| "json_fits depth (JInt i) = (depth \<le> 64 \<and> \<bar>i\<bar> < 2 ^ 4096)"
| "json_fits depth v = (depth \<le> 64)"

lemma json_nodes_pos: "0 < json_nodes v"
  by (cases v) simp_all

lemma copy_json_iff:
  "copy_json depth nodes v = Inr n \<longleftrightarrow> json_fits depth v \<and> n = nodes + json_nodes v \<and> n \<le> 10000"
  "copy_items depth nodes xs = Inr n \<longleftrightarrow> list_all (json_fits depth) xs
     \<and> n = nodes + sum_list (map json_nodes xs) \<and> (xs = [] \<or> n \<le> 10000)"
  "copy_fields depth nodes d = Inr n \<longleftrightarrow> list_all (\<lambda>(k, v). length k \<le> 512 \<and> json_fits depth v) d
     \<and> n = nodes + sum_list (map (\<lambda>(k, v). json_nodes v) d) \<and> (d = [] \<or> n \<le> 10000)"
proof (induction depth nodes v and depth nodes xs and depth nodes d arbitrary: n and n and n
    rule: copy_json_copy_items_copy_fields.induct)
  case (1 depth nodes v)
  show ?case
  proof (cases "depth > 64 \<or> nodes + 1 > 10000")
    case True
    then show ?thesis using json_nodes_pos [of v] by (cases v) (auto simp: copy_json.simps)
  next
    case False
    then have ok: "\<not> 64 < depth" "\<not> 10000 < nodes + 1" by simp_all
    show ?thesis
    proof (cases v)
      case (JObj d)
      have "copy_json depth nodes v = copy_fields (depth + 1) (nodes + 1) d"
        using ok by (simp add: copy_json.simps JObj)
      with ok show ?thesis by (simp only: 1(2) [OF ok JObj]) (auto simp: JObj)
    next
      case (JArr xs)
      have "copy_json depth nodes v = copy_items (depth + 1) (nodes + 1) xs"
        using ok by (simp add: copy_json.simps JArr)
      with ok show ?thesis by (simp only: 1(1) [OF ok JArr]) (auto simp: JArr)
    qed (use ok in \<open>auto simp: copy_json.simps\<close>)
  qed
next
  case (3 depth nodes x xs)
  show ?case
  proof (cases "copy_json depth nodes x")
    case (Inl e)
    then show ?thesis using 3(1) [of "nodes + json_nodes x"] by auto
  next
    case (Inr m)
    then show ?thesis using 3(1) [of m] 3(2) [OF Inr, of n] json_nodes_pos [of x] by auto
  qed
next
  case (5 depth nodes k x xs)
  show ?case
  proof (cases "copy_json depth nodes x")
    case (Inl e)
    then show ?thesis using 5(1) [of "nodes + json_nodes x"] by auto
  next
    case (Inr m)
    then show ?thesis using 5(1) [of m] 5(2) [OF _ Inr, of n] json_nodes_pos [of x] by auto
  qed
qed auto

text \<open>Sorting the keys of a document changes neither its bytes nor what it holds.\<close>

lemma sort_key_map_fst:
  assumes "\<And>x. key (f x) = key' x"
  shows "sort_key key (map f xs) = map f (sort_key key' xs)"
proof -
  have "insort_key key (f x) (map f ys) = map f (insort_key key' x ys)" for x ys
    by (induction ys) (simp_all add: assms)
  then show ?thesis by (induction xs) simp_all
qed

lemma sort_key_idem: "sort_key key (sort_key key xs) = sort_key key xs"
  by (rule sort_key_id_if_sorted) simp

lemma canonical_sorted: "canonical_bytes pf (sort_json v) = canonical_bytes pf v"
proof (induction v)
  case (JArr xs)
  then have "map (canonical_bytes pf) (map sort_json xs) = map (canonical_bytes pf) xs" by simp
  then show ?case by (metis canonical_bytes.simps(6) sort_json.simps(1))
next
  case (JObj d)
  let ?t = "\<lambda>(k, v). (k, canonical_bytes pf v)" and ?s = "\<lambda>(k, v). (k, sort_json v)"
  have "map ?t (map ?s d) = map ?t d" using JObj by (auto split: prod.splits)
  moreover have "map ?t (sort_key fst (map ?s d)) = sort_key fst (map ?t (map ?s d))"
    by (rule sort_key_map_fst [symmetric]) (auto split: prod.splits)
  ultimately have "sort_key fst (map ?t (sort_key fst (map ?s d))) = sort_key fst (map ?t d)"
    by (simp only: sort_key_idem)
  then show ?case by (simp only: sort_json.simps canonical_bytes.simps)
qed simp_all

lemma fits_sorted: "json_fits n (sort_json v) = json_fits n v"
proof (induction v arbitrary: n)
  case (JObj d)
  then show ?case by (auto simp: list_all_iff)
qed (auto simp: list_all_iff)

lemma sum_list_sort: "sum_list (map f (sort_key key xs)) = (sum_list (map f xs) :: nat)"
  by (metis mset_map mset_sort sum_mset_sum_list)

lemma nodes_sorted: "json_nodes (sort_json v) = json_nodes v"
proof (induction v)
  case (JArr xs)
  then have "map json_nodes (map sort_json xs) = map json_nodes xs" by simp
  then show ?case by (simp only: json_nodes.simps sort_json.simps)
next
  case (JObj d)
  then have "map (\<lambda>(k, v). json_nodes v) (map (\<lambda>(k, v). (k, sort_json v)) d) = map (\<lambda>(k, v). json_nodes v) d"
    by (auto split: prod.splits)
  then show ?case by (simp only: json_nodes.simps sort_json.simps sum_list_sort)
qed simp_all

lemma snapshot_decodes:
  assumes "snapshot_json cf v = Inr p"
  shows "decode_json cf p = Inr p"
proof -
  obtain n d where n: "copy_json 0 0 v = Inr n" and v: "v = JObj d" and p: "p = sort_json v"
    and len: "length (canonical_bytes (cf_platform cf) v) \<le> cf_max_json_bytes cf"
    using assms by (auto simp: snapshot_json_def res_simps split: json.splits if_splits)
  have "copy_json 0 0 p = Inr n"
    using n by (simp add: copy_json_iff p fits_sorted nodes_sorted)
  moreover have "length (canonical_bytes (cf_platform cf) p) \<le> cf_max_json_bytes cf"
    using len by (simp add: p canonical_sorted)
  ultimately show ?thesis by (simp add: decode_json_def p v)
qed

text \<open>
  The event log as a history: every stream is numbered without gaps, the table only grows, what
  was written reads back, and a retry or a stale writer adds nothing.
\<close>

section \<open>The invariant\<close>

definition stream_of :: "string \<Rightarrow> stored_event list \<Rightarrow> stored_event list" where
  "stream_of stream rows = filter (in_stream stream) rows"

definition numbered :: "stored_event list \<Rightarrow> bool" where
  "numbered rs = (map se_sequence rs = map int [1..<Suc (length rs)])"

definition event_keys :: "stored_event list \<Rightarrow> (string \<times> string) list" where
  "event_keys rows = concat (map (\<lambda>r. case ev_idempotency_key (se_event r) of None \<Rightarrow> []
     | Some k \<Rightarrow> [(ev_stream_id (se_event r), k)]) rows)"

definition log_inv :: "stored_event list \<Rightarrow> bool" where
  "log_inv rows = ((\<forall>s. numbered (stream_of s rows))
     \<and> sorted_wrt (<) (0 # map se_global_position rows)
     \<and> (\<forall>r \<in> set rows. se_global_position r \<le> max_row_integer)
     \<and> distinct (map (\<lambda>r. ev_event_id (se_event r)) rows)
     \<and> distinct (event_keys rows))"

lemma stream_of_append [simp]:
  "stream_of s (rows @ [r]) = (if in_stream s r then stream_of s rows @ [r] else stream_of s rows)"
  by (simp add: stream_of_def)

lemma event_keys_append [simp]: "event_keys (rows @ [r]) = event_keys rows @ event_keys [r]"
  by (simp add: event_keys_def)

lemma in_event_keys: "(s, k) \<in> set (event_keys rows) \<longleftrightarrow>
    (\<exists>r \<in> set rows. in_stream s r \<and> ev_idempotency_key (se_event r) = Some k)"
  by (force simp: event_keys_def in_stream_def split: option.splits)

lemma fold_max: "fold max xs (a :: int) = Max (set (a # xs))"
proof -
  have "fold max xs a = foldr max (rev xs) a" by (simp add: foldr_conv_fold)
  then show ?thesis by (metis Max.set_eq_fold)
qed

lemma version_numbered:
  assumes "numbered (stream_of s rows)"
  shows "version_of s rows = int (length (stream_of s rows))"
proof -
  let ?n = "length (stream_of s rows)"
  have "set (map se_sequence (stream_of s rows)) = int ` {1..<Suc ?n}"
    using assms by (simp only: numbered_def set_map set_upt)
  then have "version_of s rows = Max (insert 0 (int ` {1..<Suc ?n}))"
    by (simp add: version_of_def fold_max stream_of_def)
  also have "\<dots> = int ?n"
  proof (rule Max_eqI)
    have "?n = 0 \<or> ?n \<in> {1..<Suc ?n}" by (cases ?n) simp_all
    then show "int ?n \<in> insert 0 (int ` {1..<Suc ?n})" by (metis image_eqI insertCI of_nat_0)
  qed auto
  finally show ?thesis .
qed

lemma sorted_snoc: "sorted_wrt (<) (xs @ [y]) \<longleftrightarrow> sorted_wrt (<) xs \<and> (\<forall>x \<in> set xs. x < (y :: int))"
  by (simp add: sorted_wrt_append)

lemma last_position_above: "r \<in> set rows \<Longrightarrow> se_global_position r \<le> last_position rows"
  by (simp add: last_position_def fold_max)

lemma last_position_pos: "0 \<le> last_position rows"
  by (simp add: last_position_def fold_max)

lemma insert_event_Inr:
  assumes "insert_event e n rows = Inr s"
  shows "s = \<lparr>se_event = e, se_sequence = n, se_global_position = last_position rows + 1\<rparr>"
    "last_position rows < max_row_integer" "n \<le> max_row_integer"
    "ev_event_id e \<notin> (\<lambda>r. ev_event_id (se_event r)) ` set rows"
    "\<not> list_ex (same_key_event e) rows"
  using assms by (auto simp: insert_event_def split: if_splits)

lemma insert_event_inv:
  assumes inv: "log_inv rows" and ins: "insert_event e (version_of (ev_stream_id e) rows + 1) rows = Inr s"
  shows "log_inv (rows @ [s])"
proof -
  note s = insert_event_Inr [OF ins]
  have ev: "se_event s = e" "se_sequence s = version_of (ev_stream_id e) rows + 1"
    "se_global_position s = last_position rows + 1" using s(1) by simp_all
  have num: "numbered (stream_of t rows)" for t using inv by (simp add: log_inv_def)
  have "numbered (stream_of t (rows @ [s]))" for t
  proof (cases "in_stream t s")
    case True
    then have "t = ev_stream_id e" using ev(1) by (simp add: in_stream_def)
    then show ?thesis using True num [of t] version_numbered [OF num, of t] ev(2)
      by (simp add: numbered_def)
  qed (use num in simp)
  moreover have "sorted_wrt (<) (0 # map se_global_position (rows @ [s]))"
  proof -
    have "\<forall>x \<in> set (0 # map se_global_position rows). x < se_global_position s"
      using last_position_above [of _ rows] last_position_pos [of rows] ev(3) by force
    moreover have "sorted_wrt (<) (0 # map se_global_position rows)" using inv by (simp add: log_inv_def)
    ultimately have "sorted_wrt (<) ((0 # map se_global_position rows) @ [se_global_position s])"
      by (simp only: sorted_snoc)
    then show ?thesis by simp
  qed
  moreover have "\<forall>r \<in> set (rows @ [s]). se_global_position r \<le> max_row_integer"
    using inv s(2) ev(3) by (auto simp: log_inv_def)
  moreover have "distinct (map (\<lambda>r. ev_event_id (se_event r)) (rows @ [s]))"
    using inv s(4) ev(1) by (simp add: log_inv_def)
  moreover have "distinct (event_keys (rows @ [s]))"
  proof -
    have "(ev_stream_id e, k) \<notin> set (event_keys rows)" if "ev_idempotency_key e = Some k" for k
      using s(5) that by (auto simp: in_event_keys list_ex_iff same_key_event_def in_stream_def)
    then show ?thesis using inv ev(1)
      by (auto simp: log_inv_def event_keys_def [of "[s]"] split: option.splits)
  qed
  ultimately show ?thesis by (simp only: log_inv_def) blast
qed

section \<open>Appends\<close>

lemma append_tx_Inr:
  assumes "append_tx cf e v g rows = Inr ((s, inserted), rows')"
  shows "if inserted
    then rows' = rows @ [s] \<and> insert_event e (version_of (ev_stream_id e) rows + 1) rows = Inr s
      \<and> pred_option (\<lambda>n. n = version_of (ev_stream_id e) rows) v \<and> filter (same_key_event e) rows = []
    else rows' = rows \<and> (\<exists>r \<in> set rows. same_key_event e r \<and> row_to_event cf r = Inr s)"
proof (cases "filter (same_key_event e) rows")
  case Nil
  then show ?thesis using assms
    by (auto simp: append_tx_def res_simps Let_def split: if_splits)
next
  case (Cons r rs)
  then have "r \<in> set rows" "same_key_event e r" by (auto dest: filter_eq_ConsD)
  then show ?thesis using assms Cons by (auto simp: append_tx_def res_simps)
qed

lemma append_tx_inv: "log_inv rows \<Longrightarrow> append_tx cf e v g rows = Inr (x, rows') \<Longrightarrow> log_inv rows'"
  using append_tx_Inr [of cf e v g rows "fst x" "snd x" rows'] insert_event_inv [of rows e]
  by (auto split: if_splits)

lemma append_tx_prefix: "append_tx cf e v g rows = Inr (x, rows') \<Longrightarrow> prefix rows rows'"
  using append_tx_Inr [of cf e v g rows "fst x" "snd x" rows'] by (auto split: if_splits)

lemma version_snoc:
  assumes "log_inv rows" "log_inv (rows @ [s])" "ev_stream_id (se_event s) = t"
  shows "version_of t (rows @ [s]) = version_of t rows + 1"
proof -
  have "numbered (stream_of t rows)" "numbered (stream_of t (rows @ [s]))"
    using assms by (simp_all only: log_inv_def)
  from version_numbered [OF this(1)] version_numbered [OF this(2)] show ?thesis
    using assms(3) by (simp add: in_stream_def)
qed

lemma insert_batch_inv:
  assumes "log_inv rows" "\<forall>e \<in> set es. ev_stream_id e = t"
    "insert_batch es (version_of t rows) rows = Inr (ss, rows')"
  shows "log_inv rows' \<and> rows' = rows @ ss"
  using assms
proof (induction es arbitrary: rows ss)
  case (Cons e es)
  then obtain s ss' where s: "insert_event e (version_of t rows + 1) rows = Inr s"
    "insert_batch es (version_of t rows + 1) (rows @ [s]) = Inr (ss', rows')" "ss = s # ss'"
    by (auto simp: res_simps)
  have inv: "log_inv (rows @ [s])" using insert_event_inv [OF Cons.prems(1), of e s] s(1) Cons.prems(2) by simp
  have "ev_stream_id (se_event s) = t" using insert_event_Inr(1) [OF s(1)] Cons.prems(2) by simp
  from version_snoc [OF Cons.prems(1) inv this] s(2)
  have "insert_batch es (version_of t (rows @ [s])) (rows @ [s]) = Inr (ss', rows')" by simp
  from Cons.IH [OF inv _ this] Cons.prems(2) have "log_inv rows'" "rows' = (rows @ [s]) @ ss'" by auto
  with s(3) show ?case by simp
qed simp

lemma snapshot_event_Inr:
  assumes "snapshot_event cf e = Inr e'"
  shows "ev_stream_id e' = ev_stream_id e" "ev_idempotency_key e' = ev_idempotency_key e"
    "ev_event_id e' = ev_event_id e" "ev_timestamp e' = ev_timestamp e"
    "\<not> blank (ev_stream_id e')" "\<not> blank (ev_event_type e')" "\<not> blank (ev_actor_id e')"
    "decode_json cf (ev_payload e') = Inr (ev_payload e')"
    "snapshot_json cf (ev_payload e) = Inr (ev_payload e')"
  using assms by (auto simp: snapshot_event_def check_event_def res_simps snapshot_decodes split: if_splits)

lemma append_many_Inr:
  assumes "log_inv rows" "append_many cf t es v rows = Inr (ss, rows')"
  shows "log_inv rows'" "rows' = rows @ ss"
proof -
  obtain batch where b: "map_res (snapshot_event cf) es = Inr batch" "\<forall>e \<in> set batch. ev_stream_id e = t"
    "batch = [] \<and> ss = [] \<and> rows' = rows \<or> insert_batch batch (version_of t rows) rows = Inr (ss, rows')"
    using assms(2) by (auto simp: append_many_def res_simps list_all_iff split: if_splits)
  then show "log_inv rows'" "rows' = rows @ ss"
    using assms(1) insert_batch_inv [OF assms(1) b(2)] by auto
qed

text \<open>One committed transaction on the log: an append (also as part of a wider one) or a batch.\<close>

inductive log_step :: "event_config \<Rightarrow> stored_event list \<Rightarrow> stored_event list \<Rightarrow> bool" for cf where
  log_append: "append_event cf e v g rows = Inr (s, rows') \<Longrightarrow> log_step cf rows rows'"
| log_tx: "snapshot_event cf e0 = Inr e \<Longrightarrow> append_tx cf e v g rows = Inr (x, rows') \<Longrightarrow> log_step cf rows rows'"
| log_batch: "append_many cf t es v rows = Inr (ss, rows') \<Longrightarrow> log_step cf rows rows'"

inductive_cases log_step_E: "log_step cf rows rows'"

lemma append_event_tx:
  assumes "append_event cf e v g rows = Inr (s, rows')"
  shows "\<exists>e' i. snapshot_event cf e = Inr e' \<and> append_tx cf e' v g rows = Inr ((s, i), rows')"
  using assms by (auto simp: append_event_def res_simps check_option_def check_row_integer_def
      check_cursor_def split: option.splits if_splits)

lemma log_step_inv: "log_inv rows \<Longrightarrow> log_step cf rows rows' \<Longrightarrow> log_inv rows'"
  by (erule log_step_E) (auto dest!: append_event_tx intro: append_tx_inv append_many_Inr(1))

lemma log_step_prefix:
  assumes "log_inv rows" "log_step cf rows rows'"
  shows "prefix rows rows'"
  using assms(2)
proof cases
  case log_batch
  from append_many_Inr(2) [OF assms(1) this] show ?thesis by simp
qed (auto dest!: append_event_tx intro: append_tx_prefix)

lemma log_inv_empty: "log_inv []"
  by (simp add: log_inv_def numbered_def stream_of_def event_keys_def)

interpretation event_log: invariant_system "\<lambda>rows. rows = []" "log_step cf" log_inv for cf
  by unfold_locales (auto intro: log_step_inv log_inv_empty)

lemma log_steps_prefix:
  assumes "(log_step cf)\<^sup>*\<^sup>* rows rows'" "log_inv rows"
  shows "prefix rows rows'"
  by (rule event_log.steps_mono [OF assms]) (auto intro: log_step_prefix prefix_order.trans)

end
