(* ===== verification/Event_Log_Props.thy ===== *)
theory Event_Log_Props
  imports Event_History
begin

text \<open>What the event log promises, and a log on which each promise is checked.\<close>

section \<open>Reads\<close>

lemma row_to_event_id: "row_to_event cf r = Inr s \<Longrightarrow> s = r"
proof -
  have "decode_json cf v = Inr p \<Longrightarrow> p = v" for v p
    by (auto simp: decode_json_def Let_def split: if_splits sum.splits json.splits)
  then show "row_to_event cf r = Inr s \<Longrightarrow> s = r"
    by (auto simp: row_to_event_def Let_def res_simps split: if_splits)
qed

lemma map_res_row_id:
  assumes "map_res (row_to_event cf) rs = Inr ss"
  shows "ss = rs"
proof -
  have "list_all2 (\<lambda>x y. row_to_event cf x = Inr y) rs ss" using assms by (simp add: map_res_Inr_iff)
  then have "list_all2 (=) ss rs" by (induction rs ss rule: list_all2_induct) (auto dest: row_to_event_id)
  then show ?thesis by (simp add: list.rel_eq)
qed

lemma map_res_error: "x \<in> set xs \<Longrightarrow> f x = Inl e \<Longrightarrow> \<exists>e'. map_res f xs = Inl e'"
proof (induction xs)
  case (Cons y ys)
  then show ?case by (cases "f y"; cases "map_res f ys") auto
qed simp

lemma stream_rows_all:
  assumes "log_inv rows"
  shows "stream_rows t 0 rows = stream_of t rows"
proof -
  have num: "map se_sequence (stream_of t rows) = map int [1..<Suc (length (stream_of t rows))]"
    using assms by (simp add: log_inv_def numbered_def)
  have "se_sequence ` set (stream_of t rows) = set (map int [1..<Suc (length (stream_of t rows))])"
    unfolding num [symmetric] by simp
  moreover have "\<forall>n \<in> set (map int [1..<Suc (length (stream_of t rows))]). 0 < n" by auto
  ultimately have "\<forall>n \<in> se_sequence ` set (stream_of t rows). 0 < n" by metis
  then have "\<forall>r \<in> set (stream_of t rows). 0 < se_sequence r" by blast
  then have "filter (\<lambda>r. in_stream t r \<and> 0 < se_sequence r) rows = stream_of t rows"
    unfolding stream_of_def by (intro filter_cong) auto
  moreover have "sorted (map se_sequence (stream_of t rows))"
    unfolding num by (auto simp: sorted_iff_nth_mono simp del: upt_Suc)
  ultimately show ?thesis by (simp add: stream_rows_def sort_key_id_if_sorted)
qed

lemma stream_positions:
  assumes "log_inv rows"
  shows "sorted_wrt (<) (map se_global_position (stream_of t rows))"
proof -
  have "sorted_wrt (\<lambda>a b. se_global_position a < se_global_position b) rows"
    using assms by (simp add: log_inv_def sorted_wrt_map)
  then show ?thesis by (simp add: stream_of_def sorted_wrt_map sorted_wrt_filter)
qed

abbreviation reachable_log :: "event_config \<Rightarrow> stored_event list \<Rightarrow> bool" where
  "reachable_log cf \<equiv> reach (\<lambda>rows. rows = []) (log_step cf)"

text \<open>
  C30. A stream is a gap-free history: whatever was appended, reading a stream from its start
  returns its events numbered 1, 2, 3, ... in the order of their global positions.
\<close>

theorem stream_gap_free:
  assumes "reachable_log cf rows" and "read_stream cf stream 0 rows = Inr es"
  shows "map se_sequence es = map int [1..<Suc (length es)]
    \<and> sorted_wrt (<) (map se_global_position es)
    \<and> es = filter (\<lambda>r. ev_stream_id (se_event r) = stream) rows"
proof -
  have inv: "log_inv rows" by (rule event_log.reach_inv [OF assms(1)])
  have es: "es = stream_of stream rows"
    using assms(2) by (auto simp: read_stream_def check_row_integer_def max_row_integer_def
        stream_rows_all [OF inv] dest: map_res_row_id)
  have "numbered es" using inv by (simp add: log_inv_def es)
  then show ?thesis using stream_positions [OF inv, of stream]
    by (simp add: numbered_def es stream_of_def in_stream_def [abs_def])
qed

text \<open>
  The history is append-only: no operation of the log changes, removes or reorders an event
  that is already there.
\<close>

theorem history_append_only:
  assumes "reachable_log cf rows" and "(log_step cf)\<^sup>*\<^sup>* rows rows'"
  shows "prefix rows rows'"
  by (rule log_steps_prefix [OF assms(2) event_log.reach_inv [OF assms(1)]])

lemma first_sorted:
  assumes "sorted_wrt (<) (map se_global_position (r # rs))"
  shows "first_by se_global_position (r # rs) = Some r"
proof -
  have "sorted (map se_global_position (r # rs))"
    using assms by (rule sorted_wrt_mono_rel [rotated]) simp
  then have "sort_key se_global_position (r # rs) = r # rs" by (rule sort_key_id_if_sorted)
  then show ?thesis by (simp only: first_by_def list.case)
qed

lemma all_page_exact:
  assumes "sorted_wrt (<) (map se_global_position rows)"
  shows "all_page cf p n rows
    = map_res (row_to_event cf) (take n (filter (\<lambda>r. p < se_global_position r) rows))"
proof (induction n arbitrary: p)
  case (Suc n)
  let ?rs = "filter (\<lambda>r. p < se_global_position r) rows"
  have sorted: "sorted_wrt (<) (map se_global_position ?rs)"
    using assms by (simp add: sorted_wrt_map sorted_wrt_filter)
  show ?case
  proof (cases ?rs)
    case Nil
    then show ?thesis by (simp add: next_event_def first_by_def)
  next
    case (Cons r rs)
    have later: "filter (\<lambda>x. se_global_position r < se_global_position x) rows = rs"
    proof -
      have "filter (\<lambda>x. se_global_position r < se_global_position x) rows
          = filter (\<lambda>x. se_global_position r < se_global_position x) ?rs"
        using Cons by (auto simp: filter_eq_Cons_iff intro: filter_cong)
      also have "\<dots> = rs" using sorted unfolding Cons by (auto simp: filter_id_conv)
      finally show ?thesis .
    qed
    have first: "first_by se_global_position (r # rs) = Some r" using first_sorted sorted Cons by simp
    show ?thesis
    proof (cases "row_to_event cf r")
      case (Inl e)
      then show ?thesis by (simp add: next_event_def Cons first)
    next
      case (Inr s)
      then have "s = r" by (rule row_to_event_id)
      then show ?thesis using Inr Suc.IH [of "se_global_position r"]
        by (simp add: next_event_def Cons first later)
    qed
  qed
qed simp

text \<open>
  A page of the whole log, which is fetched row by row with one query each, is what one
  query for the page would return: the events past the cursor, at most the limit, in order.
\<close>

theorem read_all_exact:
  assumes "reachable_log cf rows" and "0 \<le> after" and "after \<le> max_row_integer" and "1 \<le> limit" and "limit \<le> 1000"
  shows "read_all cf after limit rows
    = map_res (row_to_event cf) (take (nat limit) (filter (\<lambda>r. after < se_global_position r) rows))"
proof -
  have "sorted_wrt (<) (map se_global_position rows)"
    using event_log.reach_inv [OF assms(1)] by (simp add: log_inv_def)
  from all_page_exact [OF this] show ?thesis
    using assms(2-5) by (simp add: read_all_def check_cursor_def check_row_integer_def check_limit_def max_row_integer_def)
qed

section \<open>Retries and races\<close>

text \<open>An event that a later read accepts: its id is not blank, its timestamp parses.\<close>

definition readable :: "event_config \<Rightarrow> domain_event \<Rightarrow> bool" where
  "readable cf e = (\<not> blank (ev_event_id e) \<and> \<not> blank (ev_timestamp e)
     \<and> cal_norm (cf_calendar cf) (ev_timestamp e) \<noteq> None)"

lemma numbered_seq:
  assumes "log_inv rows" "r \<in> set rows"
  shows "1 \<le> se_sequence r" "se_sequence r \<le> int (length rows)"
proof -
  let ?s = "stream_of (ev_stream_id (se_event r)) rows"
  have "map se_sequence ?s = map int [1..<Suc (length ?s)]"
    using assms(1) by (simp add: log_inv_def numbered_def)
  then have "se_sequence ` set ?s = int ` {1..<Suc (length ?s)}" by (metis set_map set_upt)
  moreover have "r \<in> set ?s" using assms(2) by (simp add: stream_of_def in_stream_def)
  ultimately have "se_sequence r \<in> int ` {1..<Suc (length ?s)}" by blast
  moreover have "length ?s \<le> length rows" by (simp add: stream_of_def)
  ultimately show "1 \<le> se_sequence r" "se_sequence r \<le> int (length rows)" by auto
qed

lemma written_row:
  assumes "log_inv rows" "snapshot_event cf e0 = Inr e" "readable cf e0"
    "insert_event e (version_of (ev_stream_id e) rows + 1) rows = Inr s"
  shows "row_to_event cf s = Inr s"
proof -
  note sn = snapshot_event_Inr [OF assms(2)] and ins = insert_event_Inr [OF assms(4)]
  have inv: "log_inv (rows @ [s])" by (rule insert_event_inv [OF assms(1,4)])
  have "1 \<le> se_sequence s" using numbered_seq(1) [OF inv, of s] by simp
  moreover have "se_sequence s \<le> max_row_integer" using ins(1,3) by simp
  moreover have "1 \<le> se_global_position s" "se_global_position s \<le> max_row_integer"
    using ins(1,2) last_position_pos [of rows] by simp_all
  moreover have "se_event s = e" using ins(1) by simp
  ultimately show ?thesis using sn assms(3)
    by (auto simp: row_to_event_def readable_def Let_def)
qed

lemma key_lookup:
  assumes "log_inv rows" "r \<in> set rows" "same_key_event e r"
  shows "filter (same_key_event e) rows = [r]"
proof -
  obtain k where k: "ev_idempotency_key e = Some k" using assms(3) by (auto simp: same_key_event_def)
  have "x = r" if x: "x \<in> set rows" "same_key_event e x" for x
  proof -
    obtain a b where ab: "rows = a @ r # b" using assms(2) by (meson split_list)
    have key: "(ev_stream_id e, k) \<in> set (event_keys [r])" "(ev_stream_id e, k) \<in> set (event_keys [x])"
      using assms(3) x(2) k by (auto simp: event_keys_def same_key_event_def)
    have "distinct (event_keys a @ event_keys [r] @ event_keys b)"
      using assms(1) by (simp add: log_inv_def ab event_keys_def)
    then have "(ev_stream_id e, k) \<notin> set (event_keys a) \<union> set (event_keys b)" using key(1) by auto
    moreover have "x \<in> set a \<union> set b \<Longrightarrow> (ev_stream_id e, k) \<in> set (event_keys a) \<union> set (event_keys b)"
      using key(2) by (auto simp: event_keys_def)
    ultimately show ?thesis using x(1) by (auto simp: ab)
  qed
  then have "filter (same_key_event e) rows = filter (\<lambda>x. x = r) rows"
    using assms(3) by (intro filter_cong) auto
  also have "\<dots> = [r]"
    using assms(1,2) by (intro filter_key [where key = "\<lambda>r. ev_event_id (se_event r)"]) (auto simp: log_inv_def)
  finally show ?thesis .
qed

text \<open>
  Appending with an idempotency key is safe to retry: after the event was accepted, the same
  request returns the stored event of the first one and leaves the log as it is, whatever was
  appended in between and whatever version the retry expects.
\<close>

theorem append_retry_idempotent:
  assumes "reachable_log cf rows" and "append_event cf e v g rows = Inr (s, rows1)"
    and "ev_idempotency_key e \<noteq> None" and "readable cf e" and "(log_step cf)\<^sup>*\<^sup>* rows1 rows2"
    and "check_option check_row_integer v' = Inr v'" and "check_option check_cursor g' = Inr g'"
  shows "append_event cf e v' g' rows2 = Inr (s, rows2)"
proof -
  have inv: "log_inv rows" by (rule event_log.reach_inv [OF assms(1)])
  have inv1: "log_inv rows1" by (rule log_step_inv [OF inv log_append [OF assms(2)]])
  have inv2: "log_inv rows2" by (rule event_log.steps_inv [OF assms(5) inv1])
  obtain e' i where e': "snapshot_event cf e = Inr e'" "append_tx cf e' v g rows = Inr ((s, i), rows1)"
    using append_event_tx [OF assms(2)] by blast
  have key: "ev_idempotency_key e' \<noteq> None" using snapshot_event_Inr(2) [OF e'(1)] assms(3) by simp
  have row: "s \<in> set rows1 \<and> same_key_event e' s \<and> row_to_event cf s = Inr s"
  proof (cases i)
    case True
    then have ins: "rows1 = rows @ [s]" "insert_event e' (version_of (ev_stream_id e') rows + 1) rows = Inr s"
      using append_tx_Inr [OF e'(2)] by simp_all
    then show ?thesis
      using written_row [OF inv e'(1) assms(4) ins(2)] insert_event_Inr(1) [OF ins(2)] key
      by (simp add: same_key_event_def)
  next
    case False
    then show ?thesis using append_tx_Inr [OF e'(2)] by (auto dest: row_to_event_id)
  qed
  then have "s \<in> set rows2" using log_steps_prefix [OF assms(5) inv1] by (meson in_mono set_mono_prefix)
  from key_lookup [OF inv2 this] row have "append_tx cf e' v' g' rows2 = Inr ((s, False), rows2)"
    by (simp add: append_tx_def)
  with e'(1) assms(6,7) show ?thesis by (simp add: append_event_def)
qed

text \<open>
  Of two writers that saw the same version of a stream only one appends: once an event was
  added at version \<open>n\<close>, an append that still expects \<open>n\<close> is refused, unless it retries an
  event the stream already holds.
\<close>

theorem stale_writer_refused:
  assumes "reachable_log cf rows" and "append_event cf e (Some n) g rows = Inr (s, rows1)" and "rows1 \<noteq> rows"
    and "(log_step cf)\<^sup>*\<^sup>* rows1 rows2" and "ev_stream_id e2 = ev_stream_id e"
    and "\<forall>r \<in> set rows2. \<not> same_key_event e2 r"
  shows "\<exists>err. append_event cf e2 (Some n) g' rows2 = Inl err"
proof -
  have inv: "log_inv rows" by (rule event_log.reach_inv [OF assms(1)])
  have inv1: "log_inv rows1" by (rule log_step_inv [OF inv log_append [OF assms(2)]])
  have inv2: "log_inv rows2" by (rule event_log.steps_inv [OF assms(4) inv1])
  obtain e' i where e': "snapshot_event cf e = Inr e'" "append_tx cf e' (Some n) g rows = Inr ((s, i), rows1)"
    using append_event_tx [OF assms(2)] by blast
  then have ins: "rows1 = rows @ [s]" "insert_event e' (version_of (ev_stream_id e') rows + 1) rows = Inr s"
    "n = version_of (ev_stream_id e') rows"
    using append_tx_Inr [OF e'(2)] assms(3) by (auto split: if_splits)
  let ?t = "ev_stream_id e"
  have t: "ev_stream_id e' = ?t" by (rule snapshot_event_Inr(1) [OF e'(1)])
  have num: "numbered (stream_of ?t rows)" "numbered (stream_of ?t rows2)"
    using inv inv2 by (simp_all only: log_inv_def)
  have "prefix (stream_of ?t rows1) (stream_of ?t rows2)"
    using log_steps_prefix [OF assms(4) inv1] unfolding stream_of_def by (auto simp: prefix_def)
  then have "length (stream_of ?t rows1) \<le> length (stream_of ?t rows2)" by (rule prefix_length_le)
  moreover have "length (stream_of ?t rows1) = Suc (length (stream_of ?t rows))"
    using ins(1) insert_event_Inr(1) [OF ins(2)] t by (simp add: in_stream_def)
  ultimately have "n < version_of ?t rows2"
    using ins(3) t version_numbered [OF num(1)] version_numbered [OF num(2)] by simp
  then have stale: "version_of (ev_stream_id e2) rows2 \<noteq> n" using assms(5) by simp
  show ?thesis
  proof (cases "append_event cf e2 (Some n) g' rows2")
    case (Inr r)
    obtain s2 rows3 where r: "r = (s2, rows3)" by (cases r)
    from append_event_tx [OF Inr [unfolded r]] obtain e2' j where
      e2': "snapshot_event cf e2 = Inr e2'" "append_tx cf e2' (Some n) g' rows2 = Inr ((s2, j), rows3)"
      by blast
    have "same_key_event e2' = same_key_event e2" "ev_stream_id e2' = ev_stream_id e2"
      using snapshot_event_Inr(1,2) [OF e2'(1)] by (simp_all add: same_key_event_def [abs_def])
    then show ?thesis using append_tx_Inr [OF e2'(2)] stale assms(6) by (auto split: if_splits)
  qed simp
qed

text \<open>
  What is appended can be read back: the stored event carries every field of the request, the
  payload with its keys sorted, and the row it was written to decodes to it.
\<close>

theorem append_reads_back:
  assumes "reachable_log cf rows" and "append_event cf e v g rows = Inr (s, rows')" and "rows' \<noteq> rows"
    and "readable cf e"
  shows "se_event s = e\<lparr>ev_payload := sort_json (ev_payload e)\<rparr> \<and> last rows' = s \<and> row_to_event cf s = Inr s"
proof -
  have inv: "log_inv rows" by (rule event_log.reach_inv [OF assms(1)])
  obtain e' i where e': "snapshot_event cf e = Inr e'" "append_tx cf e' v g rows = Inr ((s, i), rows')"
    using append_event_tx [OF assms(2)] by blast
  then have ins: "rows' = rows @ [s]" "insert_event e' (version_of (ev_stream_id e') rows + 1) rows = Inr s"
    using append_tx_Inr [OF e'(2)] assms(3) by (auto split: if_splits)
  have "e' = e\<lparr>ev_payload := sort_json (ev_payload e)\<rparr>"
    using e'(1) by (auto simp: snapshot_event_def check_event_def snapshot_json_def res_simps
        split: if_splits json.splits)
  then show ?thesis
    using ins(1) insert_event_Inr(1) [OF ins(2)] written_row [OF inv e'(1) assms(4) ins(2)] by simp
qed

text \<open>
  The log accepts events that it cannot read again: an append checks neither the timestamp nor
  that the event id is not blank, and once such an event is in, every read of its stream from
  the start fails, for ever.
\<close>

theorem unreadable_event_poisons_stream:
  assumes "reachable_log cf rows" and "append_event cf e v g rows = Inr (s, rows1)" and "rows1 \<noteq> rows"
    and "\<not> readable cf e" and "(log_step cf)\<^sup>*\<^sup>* rows1 rows2"
  shows "\<exists>err. read_stream cf (ev_stream_id e) 0 rows2 = Inl err"
proof -
  have inv: "log_inv rows" by (rule event_log.reach_inv [OF assms(1)])
  have inv1: "log_inv rows1" by (rule log_step_inv [OF inv log_append [OF assms(2)]])
  have inv2: "log_inv rows2" by (rule event_log.steps_inv [OF assms(5) inv1])
  obtain e' i where e': "snapshot_event cf e = Inr e'" "append_tx cf e' v g rows = Inr ((s, i), rows1)"
    using append_event_tx [OF assms(2)] by blast
  then have ins: "rows1 = rows @ [s]" "insert_event e' (version_of (ev_stream_id e') rows + 1) rows = Inr s"
    using append_tx_Inr [OF e'(2)] assms(3) by (auto split: if_splits)
  have s: "se_event s = e'" using insert_event_Inr(1) [OF ins(2)] by simp
  have "s \<in> set rows2"
    using log_steps_prefix [OF assms(5) inv1] ins(1) by (auto simp: prefix_def)
  then have mem: "s \<in> set (stream_of (ev_stream_id e) rows2)"
    using s snapshot_event_Inr(1) [OF e'(1)] by (simp add: stream_of_def in_stream_def)
  have "\<exists>err. row_to_event cf s = Inl err"
  proof (cases "row_to_event cf s")
    case (Inr x)
    then have False using s snapshot_event_Inr(3,4) [OF e'(1)] assms(4)
      by (auto simp: row_to_event_def readable_def Let_def res_simps split: if_splits)
    then show ?thesis ..
  qed simp
  then show ?thesis using map_res_error [OF mem]
    by (auto simp: read_stream_def check_row_integer_def max_row_integer_def stream_rows_all [OF inv2])
qed

section \<open>A log\<close>

definition sample_calendar :: calendar where
  "sample_calendar = \<lparr>cal_norm = (\<lambda>t. if t = ''bad'' then None else Some t),
     cal_julian = (\<lambda>t. Some (of_nat (length t))), cal_add = (\<lambda>t d. Some (t @ ''+''))\<rparr>"

definition sample_config :: event_config where
  "sample_config = \<lparr>cf_platform = \<lparr>pf_sha256 = (\<lambda>s. replicate 64 (CHR ''a'')), pf_hmac = (\<lambda>k s. s),
       pf_float_text = (\<lambda>r. ''0.5''), pf_time_text = (\<lambda>t. ''t'')\<rparr>,
     cf_calendar = sample_calendar, cf_max_json_bytes = 100\<rparr>"

definition sample_event :: "string \<Rightarrow> string \<Rightarrow> string option \<Rightarrow> domain_event" where
  "sample_event i t k = \<lparr>ev_stream_id = ''s'', ev_event_type = ''t'', ev_payload = JObj [],
     ev_actor_id = ''a'', ev_event_id = i, ev_timestamp = t, ev_correlation_id = None,
     ev_causation_id = None, ev_idempotency_key = k\<rparr>"

definition sample_stored :: "string \<Rightarrow> string option \<Rightarrow> stored_event" where
  "sample_stored t k = \<lparr>se_event = sample_event ''e1'' t k, se_sequence = 1, se_global_position = 1\<rparr>"

lemma sample_json: "snapshot_json sample_config (JObj []) = Inr (JObj [])"
  by (simp add: snapshot_json_def copy_json.simps sample_config_def)

lemma sample_append:
  "append_event sample_config (sample_event ''e1'' t k) None None []
     = Inr (sample_stored t k, [sample_stored t k])"
  "append_event sample_config (sample_event ''e1'' t k) (Some 0) None []
     = Inr (sample_stored t k, [sample_stored t k])"
proof -
  have e: "snapshot_event sample_config (sample_event ''e1'' t k) = Inr (sample_event ''e1'' t k)"
    by (simp add: snapshot_event_def sample_event_def sample_json check_event_def blank_iff py_space_def)
  show "append_event sample_config (sample_event ''e1'' t k) None None []
     = Inr (sample_stored t k, [sample_stored t k])"
    "append_event sample_config (sample_event ''e1'' t k) (Some 0) None []
     = Inr (sample_stored t k, [sample_stored t k])"
    by (simp_all add: append_event_def e check_option_def append_tx_def Let_def version_of_def
        insert_event_def last_position_def max_row_integer_def sample_stored_def check_row_integer_def)
qed

lemma sample_reachable:
  "reachable_log sample_config []" "reachable_log sample_config [sample_stored t k]"
proof -
  show e: "reachable_log sample_config []" by (rule reach_init) simp
  show "reachable_log sample_config [sample_stored t k]"
    by (rule reach_step [OF e log_append [OF sample_append(1)]])
qed

lemma sample_readable: "readable sample_config (sample_event ''e1'' ''now'' k)"
    "\<not> readable sample_config (sample_event ''e1'' ''bad'' k)"
  by (simp_all add: readable_def sample_event_def blank_iff py_space_def sample_config_def sample_calendar_def)

lemma append_reads_back_witness:
  "row_to_event sample_config (sample_stored ''now'' None) = Inr (sample_stored ''now'' None)"
  using append_reads_back [OF sample_reachable(1) sample_append(1) _ sample_readable(1)] by simp

lemma sample_event_row: "row_to_event sample_config (sample_stored ''now'' k) = Inr (sample_stored ''now'' k)"
proof -
  have "decode_json sample_config (JObj []) = Inr (JObj [])" by (rule snapshot_decodes [OF sample_json])
  then show ?thesis
    by (simp add: row_to_event_def Let_def sample_stored_def sample_event_def blank_iff py_space_def
        sample_config_def sample_calendar_def max_row_integer_def)
qed

lemma stream_gap_free_witness:
  "\<exists>es. read_stream sample_config ''s'' 0 [sample_stored ''now'' None] = Inr es
     \<and> map se_sequence es = map int [1..<Suc (length es)]"
proof -
  have "stream_rows ''s'' 0 [sample_stored ''now'' None] = [sample_stored ''now'' None]"
    by (simp add: stream_rows_def in_stream_def sample_stored_def sample_event_def)
  then have "read_stream sample_config ''s'' 0 [sample_stored ''now'' None] = Inr [sample_stored ''now'' None]"
    by (simp add: read_stream_def check_row_integer_def max_row_integer_def sample_event_row)
  with stream_gap_free [OF sample_reachable(2) this] show ?thesis by blast
qed

lemma history_append_only_witness: "prefix [] [sample_stored ''now'' None]"
  by (rule history_append_only [OF sample_reachable(1) r_into_rtranclp [where r = "log_step sample_config",
        OF log_append [OF sample_append(1)]]])

lemma read_all_exact_witness:
  "read_all sample_config 0 10 [sample_stored ''now'' None] = Inr [sample_stored ''now'' None]"
  using read_all_exact [OF sample_reachable(2), of 0 10 "''now''" None]
  by (simp add: max_row_integer_def sample_event_row) (simp add: sample_stored_def)

lemma append_retry_idempotent_witness:
  "append_event sample_config (sample_event ''e1'' ''now'' (Some ''k'')) (Some 7) None
     [sample_stored ''now'' (Some ''k'')]
   = Inr (sample_stored ''now'' (Some ''k''), [sample_stored ''now'' (Some ''k'')])"
  by (rule append_retry_idempotent [OF sample_reachable(1) sample_append(1) _ sample_readable(1) rtranclp.rtrancl_refl])
    (simp_all add: sample_event_def check_option_def check_row_integer_def max_row_integer_def)

lemma stale_writer_refused_witness:
  "\<exists>err. append_event sample_config (sample_event ''e2'' ''now'' None) (Some 0) None [sample_stored ''now'' None] = Inl err"
  by (rule stale_writer_refused [OF sample_reachable(1) sample_append(2) _ rtranclp.rtrancl_refl])
    (simp_all add: sample_event_def same_key_event_def)

lemma unreadable_event_poisons_stream_witness:
  "\<exists>err. read_stream sample_config ''s'' 0 [sample_stored ''bad'' None] = Inl err"
  using unreadable_event_poisons_stream [OF sample_reachable(1) sample_append(1) _ sample_readable(2) rtranclp.rtrancl_refl]
  by (simp add: sample_event_def)

end
