(* ===== verification/Outbox.thy ===== *)
theory Outbox
  imports Event_Log
begin

text \<open>
  Transactional delivery: \<open>delivery.py\<close> and the outbox, ambiguity, inbox and snapshot tables of
  \<open>store.py\<close>. The clock reading and the fresh lease ids are arguments. An \<open>OutboxMessage\<close> is its
  fields after \<open>__post_init__\<close>; its idempotency key may be absent before.
\<close>

section \<open>Records\<close>

datatype outbox_status = OS_PENDING | OS_IN_FLIGHT | OS_PUBLISHED | OS_DEAD_LETTER

record outbox_message =
  om_destination :: string
  om_payload :: json
  om_headers :: json
  om_message_id :: string
  om_idempotency_key :: string
  om_available_at :: string
  om_created_at :: string

definition rfc3339 :: "event_config \<Rightarrow> string \<Rightarrow> bool" where
  "rfc3339 cf t = (cal_norm (cf_calendar cf) t \<noteq> None)"

definition check_message :: "event_config \<Rightarrow> outbox_message \<Rightarrow> event_error + outbox_message" where
  "check_message cf m =
     (if blank (om_destination m) \<or> blank (om_message_id m)
        then Inl (EvValue ''destination and message_id are required'')
      else if blank (om_idempotency_key m) then Inl (EvValue ''idempotency_key cannot be blank'')
      else if \<not> rfc3339 cf (om_available_at m) then Inl (EvValue ''available_at'')
      else if \<not> rfc3339 cf (om_created_at m) then Inl (EvValue ''created_at'')
      else Inr m)"

definition new_message ::
  "event_config \<Rightarrow> outbox_message \<Rightarrow> string option \<Rightarrow> event_error + outbox_message" where
  "new_message cf m key = check_message cf (m\<lparr>om_idempotency_key :=
     (case key of None \<Rightarrow> om_message_id m | Some k \<Rightarrow> k)\<rparr>)"

record stored_outbox =
  so_message :: outbox_message
  so_triggering_event_id :: string
  so_triggering_position :: int
  so_status :: outbox_status
  so_attempt_count :: int
  so_lease_token :: "string option"
  so_lease_expires_at :: "string option"
  so_last_error :: "string option"
  so_published_at :: "string option"

fun outbox_status_text :: "outbox_status \<Rightarrow> string" where
  "outbox_status_text OS_PENDING = ''pending''"
| "outbox_status_text OS_IN_FLIGHT = ''in_flight''"
| "outbox_status_text OS_PUBLISHED = ''published''"
| "outbox_status_text OS_DEAD_LETTER = ''dead_letter''"

text \<open>\<open>StoredOutboxMessage.to_dict\<close>: the lease token stays out of the listing.\<close>

definition outbox_to_dict :: "stored_outbox \<Rightarrow> (string, json) dict" where
  "outbox_to_dict s = (let m = so_message s in
     [(''messageId'', JStr (om_message_id m)), (''destination'', JStr (om_destination m)),
      (''payload'', om_payload m), (''headers'', om_headers m),
      (''idempotencyKey'', JStr (om_idempotency_key m)), (''availableAt'', JStr (om_available_at m)),
      (''createdAt'', JStr (om_created_at m)),
      (''triggeringEventId'', JStr (so_triggering_event_id s)),
      (''triggeringGlobalPosition'', JInt (so_triggering_position s)),
      (''status'', JStr (outbox_status_text (so_status s))),
      (''attemptCount'', JInt (so_attempt_count s)),
      (''leaseExpiresAt'', jopt JStr (so_lease_expires_at s)),
      (''lastError'', jopt JStr (so_last_error s)), (''publishedAt'', jopt JStr (so_published_at s))])"

record outbox_row =
  or_position :: int
  or_stored :: stored_outbox

record ambiguity =
  am_message_id :: string
  am_lease_token_digest :: string
  am_reason_code :: string
  am_attempt_count :: int
  am_marked_at :: string
  am_resolution :: "string option"
  am_resolved_at :: "string option"

record inbox_receipt =
  ir_consumer_id :: string
  ir_message_id :: string
  ir_received_at :: string
  ir_event_id :: string
  ir_event_position :: int
  ir_result :: json

record snapshot_row =
  sr_stream_id :: string
  sr_sequence :: int
  sr_state :: json
  sr_updated_at :: string

record event_store =
  es_events :: "stored_event list"
  es_outbox :: "outbox_row list"
  es_ambiguities :: "ambiguity list"
  es_inbox :: "inbox_receipt list"
  es_snapshots :: "snapshot_row list"

abbreviation row_id :: "outbox_row \<Rightarrow> string" where
  "row_id r \<equiv> om_message_id (so_message (or_stored r))"

section \<open>Row validators\<close>

definition row_to_outbox :: "event_config \<Rightarrow> outbox_row \<Rightarrow> event_error + stored_outbox" where
  "row_to_outbox cf r =
     (let s = or_stored r; m = so_message s;
          bad = Inl (EvIntegrity ''persisted outbox row is malformed'') in
      if blank (om_available_at m) \<or> blank (om_created_at m)
         \<or> \<not> rfc3339 cf (om_available_at m) \<or> \<not> rfc3339 cf (om_created_at m)
         \<or> \<not> pred_option (rfc3339 cf) (so_lease_expires_at s)
         \<or> \<not> pred_option (rfc3339 cf) (so_published_at s)
         \<or> blank (om_destination m) then bad
      else bind_res (decode_json cf (om_payload m)) (\<lambda>p.
           bind_res (decode_json cf (om_headers m)) (\<lambda>h.
        if blank (om_message_id m) \<or> blank (om_idempotency_key m)
           \<or> blank (so_triggering_event_id s)
           \<or> \<not> (1 \<le> so_triggering_position s \<and> so_triggering_position s \<le> max_row_integer)
           \<or> \<not> (0 \<le> so_attempt_count s \<and> so_attempt_count s \<le> max_row_integer) then bad
        else Inr (s\<lparr>so_message := m\<lparr>om_payload := p, om_headers := h\<rparr>\<rparr>))))"

definition row_to_page_item ::
  "event_config \<Rightarrow> outbox_row \<Rightarrow> event_error + int \<times> stored_outbox" where
  "row_to_page_item cf r =
     (if \<not> (1 \<le> or_position r \<and> or_position r \<le> max_row_integer)
        then Inl (EvIntegrity ''persisted outbox cursor is malformed'')
      else bind_res (row_to_outbox cf r) (\<lambda>s. Inr (or_position r, s)))"

definition row_to_inbox :: "event_config \<Rightarrow> inbox_receipt \<Rightarrow> event_error + inbox_receipt" where
  "row_to_inbox cf r =
     (let bad = Inl (EvIntegrity ''persisted inbox row is malformed'') in
      if blank (ir_received_at r) \<or> \<not> rfc3339 cf (ir_received_at r) \<or> blank (ir_consumer_id r)
         \<or> blank (ir_message_id r) \<or> blank (ir_event_id r)
         \<or> \<not> (1 \<le> ir_event_position r \<and> ir_event_position r \<le> max_row_integer) then bad
      else bind_res (decode_json cf (ir_result r)) (\<lambda>v. Inr (r\<lparr>ir_result := v\<rparr>)))"

definition resolutions :: "string list" where
  "resolutions = [''published'', ''retry'', ''dead_letter'']"

definition ambiguity_reasons :: "string list" where
  "ambiguity_reasons = [''callback_timeout'', ''caller_cancelled'', ''ack_failed'',
     ''lease_expired_after_accept'']"

definition hex_digest_text :: "string \<Rightarrow> bool" where
  "hex_digest_text s = (length s = 64 \<and> list_all (\<lambda>c. c \<in> set ''0123456789abcdef'') s)"

definition row_to_ambiguity :: "event_config \<Rightarrow> ambiguity \<Rightarrow> event_error + ambiguity" where
  "row_to_ambiguity cf a =
     (if \<not> blank (am_marked_at a) \<and> rfc3339 cf (am_marked_at a)
         \<and> pred_option (rfc3339 cf) (am_resolved_at a)
         \<and> pred_option (\<lambda>r. r \<in> set resolutions) (am_resolution a)
         \<and> am_reason_code a \<in> set ambiguity_reasons
         \<and> hex_digest_text (am_lease_token_digest a) \<and> \<not> blank (am_message_id a)
         \<and> 1 \<le> am_attempt_count a \<and> am_attempt_count a \<le> max_row_integer
      then Inr a else Inl (EvIntegrity ''persisted outbox ambiguity row is malformed''))"

section \<open>Appending with messages\<close>

definition snapshot_message :: "event_config \<Rightarrow> outbox_message \<Rightarrow> event_error + outbox_message" where
  "snapshot_message cf m =
     (if blank (om_destination m) then Inl (EvValue ''outbox destination is required'')
      else if blank (om_message_id m) then Inl (EvValue ''outbox message_id is required'')
      else if blank (om_idempotency_key m) then Inl (EvValue ''outbox idempotency_key is required'')
      else bind_res (snapshot_json cf (om_payload m)) (\<lambda>p.
           bind_res (snapshot_json cf (om_headers m)) (\<lambda>h.
             check_message cf (m\<lparr>om_payload := p, om_headers := h\<rparr>))))"

definition last_outbox :: "outbox_row list \<Rightarrow> int" where
  "last_outbox rows = fold max (map or_position rows) 0"

definition insert_outbox ::
  "stored_event \<Rightarrow> outbox_message \<Rightarrow> outbox_row list \<Rightarrow> event_error + outbox_row list" where
  "insert_outbox s m rows =
     (if last_outbox rows \<ge> max_row_integer then Inl EvFull
      else if om_message_id m \<in> row_id ` set rows then Inl (EvUnique ''outbox.message_id'')
      else if list_ex (\<lambda>r. om_destination (so_message (or_stored r)) = om_destination m
             \<and> om_idempotency_key (so_message (or_stored r)) = om_idempotency_key m) rows
        then Inl (EvUnique ''outbox.destination, outbox.idempotency_key'')
      else Inr (rows @ [\<lparr>or_position = last_outbox rows + 1,
          or_stored = \<lparr>so_message = m, so_triggering_event_id = ev_event_id (se_event s),
            so_triggering_position = se_global_position s, so_status = OS_PENDING,
            so_attempt_count = 0, so_lease_token = None, so_lease_expires_at = None,
            so_last_error = None, so_published_at = None\<rparr>\<rparr>]))"

fun insert_messages ::
  "stored_event \<Rightarrow> outbox_message list \<Rightarrow> outbox_row list \<Rightarrow> event_error + outbox_row list" where
  "insert_messages s [] rows = Inr rows"
| "insert_messages s (m # ms) rows = bind_res (insert_outbox s m rows) (insert_messages s ms)"

definition triggered_by :: "stored_event \<Rightarrow> outbox_row list \<Rightarrow> outbox_row list" where
  "triggered_by s rows = sort_key or_position
     (filter (\<lambda>r. so_triggering_position (or_stored r) = se_global_position s) rows)"

definition message_identity :: "outbox_message \<Rightarrow> string \<times> string \<times> string \<times> json \<times> json" where
  "message_identity m = (om_message_id m, om_destination m, om_idempotency_key m,
     py_value (om_payload m), py_value (om_headers m))"

definition append_with_outbox ::
  "event_config \<Rightarrow> domain_event \<Rightarrow> outbox_message list \<Rightarrow> int option \<Rightarrow> event_store
   \<Rightarrow> event_error + (stored_event \<times> stored_outbox list) \<times> event_store" where
  "append_with_outbox cf e ms expected st =
     bind_res (snapshot_event cf e) (\<lambda>e'.
     bind_res (map_res (snapshot_message cf) ms) (\<lambda>batch.
     bind_res (check_option check_row_integer expected) (\<lambda>v.
     bind_res (append_tx cf e' v None (es_events st)) (\<lambda>((s, inserted), events).
       if \<not> inserted
       then bind_res (map_res (row_to_outbox cf) (triggered_by s (es_outbox st))) (\<lambda>existing.
         if map message_identity batch \<noteq> map (message_identity \<circ> so_message) existing
           then Inl (EvValue ''idempotent event retry changed its transactional outbox messages'')
         else Inr ((s, existing), st))
       else bind_res (insert_messages s batch (es_outbox st)) (\<lambda>outbox.
         bind_res (map_res (row_to_outbox cf) (triggered_by s outbox)) (\<lambda>written.
           Inr ((s, written), st\<lparr>es_events := events, es_outbox := outbox\<rparr>)))))))"

section \<open>The inbox\<close>

definition receipt_of :: "string \<Rightarrow> string \<Rightarrow> inbox_receipt list \<Rightarrow> inbox_receipt option" where
  "receipt_of consumer message rows =
     row_of (\<lambda>r. (ir_consumer_id r, ir_message_id r)) (consumer, message) rows"

definition append_inbox ::
  "event_config \<Rightarrow> string \<Rightarrow> string \<Rightarrow> domain_event \<Rightarrow> json \<Rightarrow> string \<Rightarrow> int option \<Rightarrow> event_store
   \<Rightarrow> event_error + (stored_event \<times> inbox_receipt \<times> bool) \<times> event_store" where
  "append_inbox cf consumer message e result received_at expected st =
     (if blank consumer then Inl (EvValue ''consumer_id is required'')
      else if blank message then Inl (EvValue ''message_id is required'')
      else bind_res (snapshot_event cf e) (\<lambda>e'.
           bind_res (snapshot_json cf result) (\<lambda>v.
           bind_res (check_option check_row_integer expected) (\<lambda>n.
             case receipt_of consumer message (es_inbox st) of
               Some row \<Rightarrow> bind_res (row_to_inbox cf row) (\<lambda>receipt.
                 case row_of se_global_position (ir_event_position receipt) (es_events st) of
                   None \<Rightarrow> Inl (EvRuntime ''inbox receipt references a missing event'')
                 | Some r \<Rightarrow> bind_res (row_to_event cf r) (\<lambda>s. Inr ((s, receipt, True), st)))
             | None \<Rightarrow> bind_res (append_tx cf e' n None (es_events st)) (\<lambda>((s, inserted), events).
                 let receipt = \<lparr>ir_consumer_id = consumer, ir_message_id = message,
                       ir_received_at = received_at, ir_event_id = ev_event_id (se_event s),
                       ir_event_position = se_global_position s, ir_result = v\<rparr>
                 in Inr ((s, receipt, False),
                      st\<lparr>es_events := events, es_inbox := es_inbox st @ [receipt]\<rparr>))))))"

definition get_inbox_receipt ::
  "event_config \<Rightarrow> string \<Rightarrow> string \<Rightarrow> event_store \<Rightarrow> event_error + inbox_receipt option" where
  "get_inbox_receipt cf consumer message st =
     (case receipt_of consumer message (es_inbox st) of None \<Rightarrow> Inr None
      | Some r \<Rightarrow> bind_res (row_to_inbox cf r) (\<lambda>x. Inr (Some x)))"

end
