(* ===== verification/Outbox_Delivery.thy ===== *)
theory Outbox_Delivery
  imports Outbox
begin

text \<open>
  Delivery from the outbox of \<open>store.py\<close>: leases, acknowledgement, rejection, the quarantine of
  uncertain deliveries and its resolution by an operator, the reads and the snapshots.
\<close>

section \<open>Clock and leases\<close>

text \<open>\<open>julianday(a) <= julianday(b)\<close> in a \<open>WHERE\<close>: a text that SQLite cannot read is NULL, never true.\<close>

definition julian_le :: "event_config \<Rightarrow> string \<Rightarrow> string \<Rightarrow> bool" where
  "julian_le cf a b =
     (case (cal_julian (cf_calendar cf) a, cal_julian (cf_calendar cf) b) of
        (Some x, Some y) \<Rightarrow> x \<le> y | _ \<Rightarrow> False)"

definition julian_less :: "event_config \<Rightarrow> string \<Rightarrow> string \<Rightarrow> bool" where
  "julian_less cf a b =
     (case (cal_julian (cf_calendar cf) a, cal_julian (cf_calendar cf) b) of
        (Some x, Some y) \<Rightarrow> x < y | _ \<Rightarrow> False)"

definition normalize_timestamp :: "event_config \<Rightarrow> string \<Rightarrow> event_error + string" where
  "normalize_timestamp cf t =
     (case cal_norm (cf_calendar cf) t of
        None \<Rightarrow> Inl (EvValue ''must be an RFC 3339 timestamp'') | Some u \<Rightarrow> Inr u)"

definition token_digest :: "event_config \<Rightarrow> string \<Rightarrow> event_error + string" where
  "token_digest cf token =
     (if token = [] then Inl (EvValue ''lease_token is required'')
      else Inr (pf_sha256 (cf_platform cf) (concat (map utf8_char token))))"

definition open_ambiguity :: "string \<Rightarrow> event_store \<Rightarrow> bool" where
  "open_ambiguity message st =
     list_ex (\<lambda>a. am_message_id a = message \<and> am_resolved_at a = None) (es_ambiguities st)"

definition deliverable :: "event_config \<Rightarrow> string \<Rightarrow> event_store \<Rightarrow> outbox_row \<Rightarrow> bool" where
  "deliverable cf now st r =
     (let s = or_stored r in
      ((so_status s = OS_PENDING \<and> julian_le cf (om_available_at (so_message s)) now)
       \<or> (so_status s = OS_IN_FLIGHT
          \<and> (\<exists>x \<in> set_option (so_lease_expires_at s). julian_le cf x now)))
      \<and> \<not> open_ambiguity (row_id r) st)"

definition deliverable_rows :: "event_config \<Rightarrow> string \<Rightarrow> nat \<Rightarrow> event_store \<Rightarrow> outbox_row list" where
  "deliverable_rows cf now limit st =
     take limit (sort_key or_position (filter (deliverable cf now st) (es_outbox st)))"

definition leased :: "string \<Rightarrow> string \<Rightarrow> outbox_row \<Rightarrow> outbox_row" where
  "leased token expires r = r\<lparr>or_stored := (or_stored r)\<lparr>so_status := OS_IN_FLIGHT,
     so_attempt_count := so_attempt_count (or_stored r) + 1,
     so_lease_token := Some token, so_lease_expires_at := Some expires\<rparr>\<rparr>"

definition lease_token_of :: "string \<Rightarrow> string \<Rightarrow> string" where
  "lease_token_of worker lease_id = worker @ '':'' @ lease_id"

fun claim_rows ::
  "event_config \<Rightarrow> string \<Rightarrow> string \<Rightarrow> string list \<Rightarrow> outbox_row list \<Rightarrow> outbox_row list
   \<Rightarrow> event_error + stored_outbox list \<times> outbox_row list" where
  "claim_rows cf worker expires ids [] outbox = Inr ([], outbox)"
| "claim_rows cf worker expires [] (r # rs) outbox = Inl (EvRuntime ''no lease id'')"
| "claim_rows cf worker expires (i # ids) (r # rs) outbox =
     (if blank (row_id r) then Inl (EvValue ''persisted outbox message_id must not be blank'')
      else if blank i then Inl (EvValue ''lease id is required'')
      else let (n, outbox') = update_where (\<lambda>x. row_id x = row_id r)
             (leased (lease_token_of worker i) expires) outbox in
        case row_of row_id (row_id r) outbox' of
          None \<Rightarrow> Inl (EvRuntime ''message row is gone'')
        | Some u \<Rightarrow> bind_res (row_to_outbox cf u) (\<lambda>s.
            bind_res (claim_rows cf worker expires ids rs outbox') (\<lambda>(ss, final).
              Inr (s # ss, final))))"

text \<open>
  \<open>claim_outbox\<close>: \<open>clock\<close> is what the store's clock reads, \<open>ids\<close> the lease ids it draws, one for
  each claimed row.
\<close>

definition claim_outbox ::
  "event_config \<Rightarrow> string \<Rightarrow> int \<Rightarrow> rat \<Rightarrow> string \<Rightarrow> string list \<Rightarrow> event_store
   \<Rightarrow> event_error + stored_outbox list \<times> event_store" where
  "claim_outbox cf worker limit seconds clock ids st =
     (if blank worker then Inl (EvValue ''worker_id is required'')
      else if limit < 1 then Inl (EvValue ''limit must be at least 1'')
      else if limit > max_row_integer then Inl (EvValue ''limit exceeds SQLite integer range'')
      else if seconds \<le> 0 then Inl (EvValue ''lease_seconds must be greater than zero'')
      else bind_res (normalize_timestamp cf clock) (\<lambda>now.
        case cal_add (cf_calendar cf) now seconds of
          None \<Rightarrow> Inl (EvValue ''date value out of range'')
        | Some expires \<Rightarrow>
            bind_res (claim_rows cf worker expires ids (deliverable_rows cf now (nat limit) st)
              (es_outbox st)) (\<lambda>(ss, outbox). Inr (ss, st\<lparr>es_outbox := outbox\<rparr>))))"

section \<open>Acknowledgement and rejection\<close>

text \<open>The compare-and-set of a lease holder: the row is in flight, under this token, not expired.\<close>

definition holds_lease ::
  "event_config \<Rightarrow> string \<Rightarrow> string \<Rightarrow> string \<Rightarrow> event_store \<Rightarrow> outbox_row \<Rightarrow> bool" where
  "holds_lease cf message token now st r =
     (row_id r = message \<and> so_status (or_stored r) = OS_IN_FLIGHT
      \<and> so_lease_token (or_stored r) = Some token
      \<and> (\<exists>x \<in> set_option (so_lease_expires_at (or_stored r)). julian_less cf now x)
      \<and> \<not> open_ambiguity (row_id r) st)"

definition published :: "string \<Rightarrow> outbox_row \<Rightarrow> outbox_row" where
  "published stamp r = r\<lparr>or_stored := (or_stored r)\<lparr>so_status := OS_PUBLISHED, so_lease_token := None,
     so_lease_expires_at := None, so_published_at := Some stamp, so_last_error := None\<rparr>\<rparr>"

definition returned :: "outbox_status \<Rightarrow> string \<Rightarrow> string \<Rightarrow> outbox_row \<Rightarrow> outbox_row" where
  "returned status available reason r = r\<lparr>or_stored := (or_stored r)\<lparr>so_status := status,
     so_message := (so_message (or_stored r))\<lparr>om_available_at := available\<rparr>,
     so_lease_token := None, so_lease_expires_at := None, so_last_error := Some reason\<rparr>\<rparr>"

definition acknowledge_outbox ::
  "event_config \<Rightarrow> string \<Rightarrow> string \<Rightarrow> string option \<Rightarrow> string \<Rightarrow> event_store
   \<Rightarrow> event_error + bool \<times> event_store" where
  "acknowledge_outbox cf message token published_at clock st =
     bind_res (normalize_timestamp cf clock) (\<lambda>now.
     bind_res (normalize_timestamp cf (case published_at of None \<Rightarrow> now | Some p \<Rightarrow> p)) (\<lambda>stamp.
       let (n, outbox) = update_where (holds_lease cf message token now st) (published stamp) (es_outbox st)
       in Inr (n = 1, st\<lparr>es_outbox := outbox\<rparr>)))"

definition reject_outbox ::
  "event_config \<Rightarrow> string \<Rightarrow> string \<Rightarrow> string \<Rightarrow> string option \<Rightarrow> bool \<Rightarrow> string \<Rightarrow> event_store
   \<Rightarrow> event_error + bool \<times> event_store" where
  "reject_outbox cf message token reason retry_at dead_letter clock st =
     bind_res (normalize_timestamp cf clock) (\<lambda>now.
     bind_res (normalize_timestamp cf (case retry_at of None \<Rightarrow> now | Some r \<Rightarrow> r)) (\<lambda>available.
       let (n, outbox) = update_where (holds_lease cf message token now st)
             (returned (if dead_letter then OS_DEAD_LETTER else OS_PENDING) available reason)
             (es_outbox st)
       in Inr (n = 1, st\<lparr>es_outbox := outbox\<rparr>)))"

section \<open>Uncertain deliveries\<close>

definition insert_ambiguity :: "ambiguity \<Rightarrow> event_store \<Rightarrow> event_error + event_store" where
  "insert_ambiguity a st =
     (if list_ex (\<lambda>x. am_message_id x = am_message_id a
          \<and> am_lease_token_digest x = am_lease_token_digest a) (es_ambiguities st) then Inr st
      else if open_ambiguity (am_message_id a) st then Inl (EvUnique ''outbox_ambiguities.message_id'')
      else if am_attempt_count a \<le> 0 \<or> \<not> hex_digest_text (am_lease_token_digest a)
        then Inl (EvUnique ''CHECK constraint'')
      else Inr (st\<lparr>es_ambiguities := es_ambiguities st @ [a]\<rparr>))"

definition mark_outbox_ambiguous ::
  "event_config \<Rightarrow> string \<Rightarrow> string \<Rightarrow> string \<Rightarrow> string \<Rightarrow> event_store
   \<Rightarrow> event_error + bool \<times> event_store" where
  "mark_outbox_ambiguous cf message token reason marked_at st =
     (if reason \<notin> set ambiguity_reasons then Inl (EvValue ''unsupported outbox ambiguity reason'')
      else bind_res (token_digest cf token) (\<lambda>digest.
           bind_res (normalize_timestamp cf marked_at) (\<lambda>stamp.
             case row_of row_id message (es_outbox st) of
               None \<Rightarrow> Inr (False, st)
             | Some r \<Rightarrow>
                 if so_status (or_stored r) \<noteq> OS_IN_FLIGHT \<or> so_lease_token (or_stored r) \<noteq> Some token
                 then Inr (False, st)
                 else if \<not> (0 \<le> so_attempt_count (or_stored r)
                        \<and> so_attempt_count (or_stored r) \<le> max_row_integer)
                 then Inl (EvValue ''persisted outbox attempt_count'')
                 else bind_res (insert_ambiguity
                   \<lparr>am_message_id = message, am_lease_token_digest = digest, am_reason_code = reason,
                    am_attempt_count = so_attempt_count (or_stored r), am_marked_at = stamp,
                    am_resolution = None, am_resolved_at = None\<rparr> st) (\<lambda>st'. Inr (True, st')))))"

definition closed :: "string \<Rightarrow> string \<Rightarrow> ambiguity \<Rightarrow> ambiguity" where
  "closed resolution stamp a = a\<lparr>am_resolution := Some resolution, am_resolved_at := Some stamp\<rparr>"

definition open_case :: "string \<Rightarrow> string \<Rightarrow> ambiguity \<Rightarrow> bool" where
  "open_case message digest a =
     (am_message_id a = message \<and> am_lease_token_digest a = digest \<and> am_resolved_at a = None)"

definition resolve_outbox_ambiguity ::
  "event_config \<Rightarrow> string \<Rightarrow> string \<Rightarrow> string \<Rightarrow> string \<Rightarrow> string option \<Rightarrow> event_store
   \<Rightarrow> event_error + bool \<times> event_store" where
  "resolve_outbox_ambiguity cf message digest resolution resolved_at retry_at st =
     (if resolution \<notin> set resolutions then Inl (EvValue ''unsupported outbox ambiguity resolution'')
      else if \<not> hex_digest_text digest
        then Inl (EvValue ''lease_token_digest must be a lowercase SHA-256 digest'')
      else bind_res (normalize_timestamp cf resolved_at) (\<lambda>decided.
           bind_res (normalize_timestamp cf (case retry_at of None \<Rightarrow> decided | Some r \<Rightarrow> r)) (\<lambda>available.
             if \<not> list_ex (open_case message digest) (es_ambiguities st) then Inr (False, st)
             else case row_of row_id message (es_outbox st) of
               None \<Rightarrow> Inr (False, st)
             | Some r \<Rightarrow>
                 if so_status (or_stored r) \<noteq> OS_IN_FLIGHT then Inr (False, st)
                 else (case so_lease_token (or_stored r) of
                     None \<Rightarrow> Inl (EvValue ''lease_token is required'')
                   | Some token \<Rightarrow> bind_res (token_digest cf token) (\<lambda>held.
                       if held \<noteq> digest then Inr (False, st)
                       else if blank token
                         then Inl (EvValue ''persisted outbox lease_token must not be blank'')
                       else let
                         mine = (\<lambda>x. row_id x = message \<and> so_status (or_stored x) = OS_IN_FLIGHT
                           \<and> so_lease_token (or_stored x) = Some token);
                         (n, outbox) = update_where mine
                           (if resolution = ''published'' then published decided
                            else returned (if resolution = ''retry'' then OS_PENDING
                                           else OS_DEAD_LETTER)
                              available (''operator_reconciled:'' @ resolution)) (es_outbox st);
                         (m, ambiguities) = update_where (open_case message digest)
                           (closed resolution decided) (es_ambiguities st)
                       in Inr (True, st\<lparr>es_outbox := outbox, es_ambiguities := ambiguities\<rparr>))))))"

section \<open>Reads\<close>

definition get_outbox :: "event_config \<Rightarrow> string \<Rightarrow> event_store \<Rightarrow> event_error + stored_outbox option" where
  "get_outbox cf message st =
     (case row_of row_id message (es_outbox st) of None \<Rightarrow> Inr None
      | Some r \<Rightarrow> bind_res (row_to_outbox cf r) (\<lambda>s. Inr (Some s)))"

definition with_status :: "outbox_status option \<Rightarrow> outbox_row \<Rightarrow> bool" where
  "with_status status r = (status = None \<or> status = Some (so_status (or_stored r)))"

definition read_outbox ::
  "event_config \<Rightarrow> outbox_status option \<Rightarrow> event_store \<Rightarrow> event_error + stored_outbox list" where
  "read_outbox cf status st =
     map_res (row_to_outbox cf) (sort_key or_position (filter (with_status status) (es_outbox st)))"

definition read_outbox_page ::
  "event_config \<Rightarrow> int \<Rightarrow> outbox_status option \<Rightarrow> int \<Rightarrow> event_store
   \<Rightarrow> event_error + (int \<times> stored_outbox) list" where
  "read_outbox_page cf after status limit st =
     bind_res (check_cursor after) (\<lambda>a. bind_res (check_limit limit) (\<lambda>n.
       map_res (row_to_page_item cf) (take n (sort_key or_position
         (filter (\<lambda>r. a < or_position r \<and> with_status status r) (es_outbox st))))))"

definition read_ambiguities :: "event_config \<Rightarrow> bool \<Rightarrow> event_store \<Rightarrow> event_error + ambiguity list" where
  "read_ambiguities cf open_only st =
     map_res (row_to_ambiguity cf)
       (filter (\<lambda>a. \<not> open_only \<or> am_resolved_at a = None) (es_ambiguities st))"

text \<open>No ambiguity is ever deleted, so the rowid of a row is its place in the table.\<close>

definition read_ambiguities_page ::
  "event_config \<Rightarrow> int \<Rightarrow> bool \<Rightarrow> int \<Rightarrow> event_store \<Rightarrow> event_error + (int \<times> ambiguity) list" where
  "read_ambiguities_page cf after open_only limit st =
     bind_res (check_cursor after) (\<lambda>c. bind_res (check_limit limit) (\<lambda>n.
       map_res (\<lambda>(i, a). bind_res (row_to_ambiguity cf a) (\<lambda>x. Inr (int i, x)))
         (take n (filter (\<lambda>(i, a). c < int i \<and> (\<not> open_only \<or> am_resolved_at a = None))
           (enumerate 1 (es_ambiguities st))))))"

section \<open>Snapshots\<close>

definition save_snapshot ::
  "event_config \<Rightarrow> string \<Rightarrow> int \<Rightarrow> json \<Rightarrow> string \<Rightarrow> event_store \<Rightarrow> event_error + event_store" where
  "save_snapshot cf stream sequence state stamp st =
     bind_res (check_row_integer sequence) (\<lambda>n.
     bind_res (snapshot_json cf state) (\<lambda>v.
       let new = \<lparr>sr_stream_id = stream, sr_sequence = n, sr_state = v, sr_updated_at = stamp\<rparr> in
       Inr (case row_of sr_stream_id stream (es_snapshots st) of
           None \<Rightarrow> st\<lparr>es_snapshots := es_snapshots st @ [new]\<rparr>
         | Some old \<Rightarrow> if sr_sequence old \<le> n
             then st\<lparr>es_snapshots := replace_row sr_stream_id stream new (es_snapshots st)\<rparr>
             else st)))"

definition load_snapshot ::
  "event_config \<Rightarrow> string \<Rightarrow> event_store \<Rightarrow> event_error + (int \<times> json) option" where
  "load_snapshot cf stream st =
     (case row_of sr_stream_id stream (es_snapshots st) of
        None \<Rightarrow> Inr None
      | Some r \<Rightarrow>
          if \<not> (0 \<le> sr_sequence r \<and> sr_sequence r \<le> max_row_integer)
          then Inl (EvIntegrity ''persisted snapshot row is malformed'')
          else bind_res (decode_json cf (sr_state r)) (\<lambda>v. Inr (Some (sr_sequence r, v))))"

end
