(* ===== verification/Outbox_Inv.thy ===== *)
theory Outbox_Inv
  imports Outbox_Delivery Event_Log_Props
begin

text \<open>
  The invariant of the event store: the log's, unique keys in every table, lease columns that
  agree with the status, messages and receipts that refer to events of the log, and at most one
  open ambiguity for a message, which is then in flight under the very lease that is in doubt.
\<close>

section \<open>Rows of the outbox\<close>

definition row_shape :: "outbox_row \<Rightarrow> bool" where
  "row_shape r = (let s = or_stored r in
     (so_status s = OS_IN_FLIGHT \<longleftrightarrow> so_lease_token s \<noteq> None)
     \<and> (so_lease_token s = None \<longleftrightarrow> so_lease_expires_at s = None)
     \<and> 0 \<le> so_attempt_count s \<and> (so_status s = OS_IN_FLIGHT \<longrightarrow> 1 \<le> so_attempt_count s))"

definition settled_row :: "outbox_row \<Rightarrow> bool" where
  "settled_row r = (so_status (or_stored r) \<in> {OS_PUBLISHED, OS_DEAD_LETTER})"

text \<open>What a delivery never changes in a row: its place, its message and its triggering event.\<close>

definition same_message :: "outbox_message \<Rightarrow> outbox_message \<Rightarrow> bool" where
  "same_message m m' = (om_message_id m' = om_message_id m \<and> om_destination m' = om_destination m
     \<and> om_payload m' = om_payload m \<and> om_headers m' = om_headers m
     \<and> om_idempotency_key m' = om_idempotency_key m \<and> om_created_at m' = om_created_at m)"

definition same_row :: "outbox_row \<Rightarrow> outbox_row \<Rightarrow> bool" where
  "same_row r r' = (or_position r' = or_position r
     \<and> same_message (so_message (or_stored r)) (so_message (or_stored r'))
     \<and> so_triggering_event_id (or_stored r') = so_triggering_event_id (or_stored r)
     \<and> so_triggering_position (or_stored r') = so_triggering_position (or_stored r))"

definition moved :: "outbox_row \<Rightarrow> outbox_row \<Rightarrow> bool" where
  "moved r r' = (r' = r \<or> (\<not> settled_row r \<and> same_row r r' \<and> row_shape r'
     \<and> so_attempt_count (or_stored r) \<le> so_attempt_count (or_stored r')))"

lemma same_row_id: "same_row r r' \<Longrightarrow> row_id r' = row_id r"
  by (simp add: same_row_def same_message_def)

lemma same_row_refl: "same_row r r"
  by (simp add: same_row_def same_message_def)

lemma same_row_trans: "same_row a b \<Longrightarrow> same_row b c \<Longrightarrow> same_row a c"
  by (simp add: same_row_def same_message_def)

lemma moved_refl: "moved r r"
  by (simp add: moved_def)

lemma moved_trans: "moved a b \<Longrightarrow> moved b c \<Longrightarrow> moved a c"
  unfolding moved_def by (meson dual_order.trans same_row_trans)

lemma moved_id: "moved r r' \<Longrightarrow> row_id r' = row_id r"
  by (auto simp: moved_def same_row_id)

lemma moved_same: "moved r r' \<Longrightarrow> same_row r r'"
  by (auto simp: moved_def same_row_refl)

lemma moved_shape: "moved r r' \<Longrightarrow> row_shape r \<Longrightarrow> row_shape r'"
  by (auto simp: moved_def)

lemma moved_ops:
  assumes "row_shape r" "\<not> settled_row r"
  shows "moved r (leased t x r)" "moved r (published at' r)"
    "s \<noteq> OS_IN_FLIGHT \<Longrightarrow> moved r (returned s a e r)"
  using assms by (simp_all add: moved_def same_row_def same_message_def row_shape_def Let_def leased_def published_def returned_def)

section \<open>The invariant\<close>

definition held_by :: "event_config \<Rightarrow> string \<Rightarrow> outbox_row \<Rightarrow> bool" where
  "held_by cf digest r = (so_status (or_stored r) = OS_IN_FLIGHT
     \<and> (\<exists>t. so_lease_token (or_stored r) = Some t \<and> token_digest cf t = Inr digest))"

definition open_ones :: "event_store \<Rightarrow> ambiguity list" where
  "open_ones st = filter (\<lambda>a. am_resolved_at a = None) (es_ambiguities st)"

definition triggers :: "stored_event list \<Rightarrow> outbox_row \<Rightarrow> bool" where
  "triggers events r = (\<exists>e \<in> set events. se_global_position e = so_triggering_position (or_stored r)
     \<and> ev_event_id (se_event e) = so_triggering_event_id (or_stored r))"

definition receipt_for :: "stored_event list \<Rightarrow> inbox_receipt \<Rightarrow> bool" where
  "receipt_for events r = (\<exists>e \<in> set events. se_global_position e = ir_event_position r
     \<and> ev_event_id (se_event e) = ir_event_id r)"

definition tables_inv :: "event_config \<Rightarrow> event_store \<Rightarrow> bool" where
  "tables_inv cf st =
     (distinct (map row_id (es_outbox st))
      \<and> sorted_wrt (<) (0 # map or_position (es_outbox st))
      \<and> (\<forall>r \<in> set (es_outbox st). row_shape r \<and> triggers (es_events st) r)
      \<and> distinct (map am_message_id (open_ones st))
      \<and> (\<forall>a \<in> set (open_ones st). \<exists>r \<in> set (es_outbox st). row_id r = am_message_id a
           \<and> held_by cf (am_lease_token_digest a) r)
      \<and> distinct (map (\<lambda>r. (ir_consumer_id r, ir_message_id r)) (es_inbox st))
      \<and> (\<forall>r \<in> set (es_inbox st). receipt_for (es_events st) r)
      \<and> distinct (map sr_stream_id (es_snapshots st)))"

definition event_inv :: "event_config \<Rightarrow> event_store \<Rightarrow> bool" where
  "event_inv cf st = (log_inv (es_events st) \<and> tables_inv cf st)"

lemma open_ambiguity_iff: "open_ambiguity m st \<longleftrightarrow> m \<in> am_message_id ` set (open_ones st)"
  by (auto simp: open_ambiguity_def open_ones_def list_ex_iff)

lemma inv_rows:
  assumes "event_inv cf st"
  shows "distinct (map row_id (es_outbox st))" "r \<in> set (es_outbox st) \<Longrightarrow> row_shape r"
  using assms by (simp_all add: event_inv_def tables_inv_def)

text \<open>Moving rows that no open ambiguity protects.\<close>

lemma move_rows_inv:
  assumes inv: "event_inv cf st" and rows': "rows' = map g (es_outbox st)"
    and g: "\<And>r. r \<in> set (es_outbox st) \<Longrightarrow> moved r (g r)"
    and held: "\<And>r. r \<in> set (es_outbox st) \<Longrightarrow> open_ambiguity (row_id r) st \<Longrightarrow> g r = r"
  shows "event_inv cf (st\<lparr>es_outbox := rows'\<rparr>)"
proof -
  have t: "tables_inv cf st" using inv by (simp add: event_inv_def)
  have keys: "map row_id rows' = map row_id (es_outbox st)"
    "map or_position rows' = map or_position (es_outbox st)"
    using g moved_id moved_same unfolding rows' by (auto simp: same_row_def)
  have rows: "\<forall>r \<in> set rows'. row_shape r \<and> triggers (es_events st) r"
  proof
    fix r' assume "r' \<in> set rows'"
    then obtain r where r: "r \<in> set (es_outbox st)" "r' = g r" by (auto simp: rows')
    then have "row_shape r" "triggers (es_events st) r" using t by (auto simp: tables_inv_def)
    then show "row_shape r' \<and> triggers (es_events st) r'"
      using moved_shape [OF g [OF r(1)]] moved_same [OF g [OF r(1)]] r(2)
      by (simp add: triggers_def same_row_def)
  qed
  have cases: "\<forall>a \<in> set (open_ones st). \<exists>r \<in> set rows'. row_id r = am_message_id a
      \<and> held_by cf (am_lease_token_digest a) r"
  proof
    fix a assume a: "a \<in> set (open_ones st)"
    obtain r where r: "r \<in> set (es_outbox st)" "row_id r = am_message_id a"
      "held_by cf (am_lease_token_digest a) r" using t a by (auto simp: tables_inv_def)
    then have "g r = r" using held [OF r(1)] a by (auto simp: open_ambiguity_iff)
    then have "r \<in> set rows'" using r(1) by (metis rows' image_eqI set_map)
    with r show "\<exists>r \<in> set rows'. row_id r = am_message_id a \<and> held_by cf (am_lease_token_digest a) r"
      by blast
  qed
  have "open_ones (st\<lparr>es_outbox := rows'\<rparr>) = open_ones st" by (simp add: open_ones_def)
  then have "tables_inv cf (st\<lparr>es_outbox := rows'\<rparr>)"
    using t keys rows cases by (simp add: tables_inv_def)
  then show ?thesis using inv by (simp add: event_inv_def)
qed

section \<open>Claims\<close>

lemma leased_id [simp]: "row_id (leased t x r) = row_id r"
  by (simp add: leased_def)

lemma row_to_outbox_id: "row_to_outbox cf r = Inr s \<Longrightarrow> s = or_stored r"
proof -
  have "decode_json cf v = Inr p \<Longrightarrow> p = v" for v p
    by (auto simp: decode_json_def Let_def split: if_splits sum.splits json.splits)
  then show "row_to_outbox cf r = Inr s \<Longrightarrow> s = or_stored r"
    by (auto simp: row_to_outbox_def Let_def res_simps split: if_splits)
qed

lemma claim_rows_result:
  assumes "claim_rows cf worker expires ids rs outbox = Inr (ss, final)" "distinct (map row_id rs)"
  shows "\<exists>g. final = map g outbox \<and> (\<forall>r. row_id r \<notin> row_id ` set rs \<longrightarrow> g r = r)
    \<and> (\<forall>r. row_id r \<in> row_id ` set rs \<longrightarrow> (\<exists>i \<in> set ids. g r = leased (lease_token_of worker i) expires r))
    \<and> map (\<lambda>s. om_message_id (so_message s)) ss = map row_id rs
    \<and> set ss \<subseteq> or_stored ` set final"
  using assms
proof (induction cf worker expires ids rs outbox arbitrary: ss rule: claim_rows.induct)
  case (1 cf worker expires ids outbox)
  then show ?case by (intro exI [of _ "\<lambda>r. r"]) simp
next
  case (3 cf worker expires i ids r rs outbox)
  let ?t = "lease_token_of worker i"
  define g0 where "g0 x = (if row_id x = row_id r then leased ?t expires x else x)" for x
  define outbox' where "outbox' = map g0 outbox"
  have up: "update_where (\<lambda>x. row_id x = row_id r) (leased ?t expires) outbox
      = (length (filter (\<lambda>x. row_id x = row_id r) outbox), outbox')"
    by (simp add: update_where_def outbox'_def g0_def)
  have g0: "row_id (g0 x) = row_id x" for x by (simp add: g0_def)
  obtain u s ss' where u: "row_of row_id (row_id r) outbox' = Some u" "row_to_outbox cf u = Inr s"
    and rest: "claim_rows cf worker expires ids rs outbox' = Inr (ss', final)" "ss = s # ss'"
    and ok: "\<not> blank (row_id r)" "\<not> blank i"
    using 3(2) by (auto simp: up Let_def res_simps split: if_splits option.splits)
  have dist: "distinct (map row_id rs)" and new: "row_id r \<notin> row_id ` set rs" using 3(3) by auto
  obtain g where g: "final = map g outbox'" "\<forall>x. row_id x \<notin> row_id ` set rs \<longrightarrow> g x = x"
    "\<forall>x. row_id x \<in> row_id ` set rs \<longrightarrow> (\<exists>i \<in> set ids. g x = leased (lease_token_of worker i) expires x)"
    "map (\<lambda>s. om_message_id (so_message s)) ss' = map row_id rs" "set ss' \<subseteq> or_stored ` set final"
    using 3(1) [OF ok refl up [symmetric] u(1) u(2) rest(1) dist] by blast
  have uid: "u \<in> set outbox'" "row_id u = row_id r" using row_of_Some [OF u(1)] by auto
  then have "g u = u" using g(2) new by simp
  then have "u \<in> set final" using uid(1) g(1) by (metis image_eqI set_map)
  then have s: "s \<in> or_stored ` set final" "om_message_id (so_message s) = row_id r"
    using row_to_outbox_id [OF u(2)] uid(2) by auto
  show ?case
  proof (intro exI [of _ "\<lambda>x. g (g0 x)"] conjI allI impI)
    show "final = map (\<lambda>x. g (g0 x)) outbox" using g(1) by (simp add: outbox'_def)
    show "map (\<lambda>s. om_message_id (so_message s)) ss = map row_id (r # rs)"
      using rest(2) g(4) s(2) by simp
    show "set ss \<subseteq> or_stored ` set final" using rest(2) g(5) s(1) by simp
  next
    fix x assume "row_id x \<notin> row_id ` set (r # rs)"
    then show "g (g0 x) = x" using g(2) by (simp add: g0_def)
  next
    fix x assume "row_id x \<in> row_id ` set (r # rs)"
    then consider "row_id x = row_id r" | "row_id x \<noteq> row_id r" "row_id x \<in> row_id ` set rs" by auto
    then show "\<exists>i \<in> set (i # ids). g (g0 x) = leased (lease_token_of worker i) expires x"
    proof cases
      case 1
      then have "g (g0 x) = g0 x" using g(2) new g0 [of x] by simp
      then show ?thesis using 1 by (simp add: g0_def)
    next
      case 2
      then have "g0 x = x" by (simp add: g0_def)
      then show ?thesis using g(3) 2(2) by auto
    qed
  qed
qed simp

end
