(* ===== verification/Outbox_Reach.thy ===== *)
theory Outbox_Reach
  imports Outbox_Inv
begin

text \<open>
  The steps of the event store, each the commit of one of its operations, and the proof that
  every step keeps the invariant and treats the rows of the outbox as it should.
\<close>

section \<open>Delivery\<close>

lemma deliverable_free:
  "deliverable cf now st r \<Longrightarrow> \<not> settled_row r \<and> \<not> open_ambiguity (row_id r) st"
  by (auto simp: deliverable_def settled_row_def Let_def)

lemma claim_outbox_result:
  assumes inv: "event_inv cf st" and c: "claim_outbox cf worker limit seconds clock ids st = Inr (ss, st')"
  shows "\<exists>now expires g. normalize_timestamp cf clock = Inr now
    \<and> cal_add (cf_calendar cf) now seconds = Some expires
    \<and> st' = st\<lparr>es_outbox := map g (es_outbox st)\<rparr>
    \<and> (\<forall>r \<in> set (es_outbox st). if r \<in> set (deliverable_rows cf now (nat limit) st)
         then \<exists>i \<in> set ids. g r = leased (lease_token_of worker i) expires r else g r = r)
    \<and> map (\<lambda>s. om_message_id (so_message s)) ss = map row_id (deliverable_rows cf now (nat limit) st)
    \<and> set ss \<subseteq> or_stored ` set (es_outbox st')"
proof -
  obtain now expires final where n: "normalize_timestamp cf clock = Inr now"
    "cal_add (cf_calendar cf) now seconds = Some expires"
    and r: "claim_rows cf worker expires ids (deliverable_rows cf now (nat limit) st) (es_outbox st)
      = Inr (ss, final)" and st': "st' = st\<lparr>es_outbox := final\<rparr>"
    using c by (auto simp: claim_outbox_def res_simps Let_def split: if_splits option.splits)
  let ?D = "deliverable_rows cf now (nat limit) st"
  have sub: "set ?D \<subseteq> set (es_outbox st)"
    by (auto simp: deliverable_rows_def dest: in_set_takeD)
  have "distinct (map row_id (sort_key or_position (filter (deliverable cf now st) (es_outbox st))))"
    using distinct_map_filter [OF inv_rows(1) [OF inv]] by (simp add: distinct_map)
  then have "distinct (map row_id ?D)" unfolding deliverable_rows_def take_map [symmetric] by (rule distinct_take)
  from claim_rows_result [OF r this] obtain g where g: "final = map g (es_outbox st)"
    "\<forall>r. row_id r \<notin> row_id ` set ?D \<longrightarrow> g r = r"
    "\<forall>r. row_id r \<in> row_id ` set ?D \<longrightarrow> (\<exists>i \<in> set ids. g r = leased (lease_token_of worker i) expires r)"
    "map (\<lambda>s. om_message_id (so_message s)) ss = map row_id ?D" "set ss \<subseteq> or_stored ` set final" by blast
  have "row_id r \<in> row_id ` set ?D \<longleftrightarrow> r \<in> set ?D" if "r \<in> set (es_outbox st)" for r
    using key_inj [OF inv_rows(1) [OF inv] that] sub by blast
  then have "\<forall>r \<in> set (es_outbox st). if r \<in> set ?D
      then \<exists>i \<in> set ids. g r = leased (lease_token_of worker i) expires r else g r = r"
    using g(2,3) by metis
  then show ?thesis using n st' g(1,4,5) by auto
qed

text \<open>A delivery step moves rows, none of them protected by an open ambiguity, and nothing else.\<close>

definition delivers :: "event_store \<Rightarrow> event_store \<Rightarrow> bool" where
  "delivers st st' = (\<exists>g. st' = st\<lparr>es_outbox := map g (es_outbox st)\<rparr>
     \<and> (\<forall>r \<in> set (es_outbox st). moved r (g r) \<and> (open_ambiguity (row_id r) st \<longrightarrow> g r = r)))"

lemma delivers_inv: "event_inv cf st \<Longrightarrow> delivers st st' \<Longrightarrow> event_inv cf st'"
  unfolding delivers_def using move_rows_inv [OF _ refl] by blast

lemma claim_delivers:
  assumes inv: "event_inv cf st" and c: "claim_outbox cf worker limit seconds clock ids st = Inr (ss, st')"
  shows "delivers st st'"
proof -
  obtain now expires g where g: "st' = st\<lparr>es_outbox := map g (es_outbox st)\<rparr>"
    "\<forall>r \<in> set (es_outbox st). if r \<in> set (deliverable_rows cf now (nat limit) st)
         then \<exists>i \<in> set ids. g r = leased (lease_token_of worker i) expires r else g r = r"
    using claim_outbox_result [OF inv c] by blast
  have "moved r (g r) \<and> (open_ambiguity (row_id r) st \<longrightarrow> g r = r)" if r: "r \<in> set (es_outbox st)" for r
  proof (cases "r \<in> set (deliverable_rows cf now (nat limit) st)")
    case True
    then have "deliverable cf now st r" by (auto simp: deliverable_rows_def dest: in_set_takeD)
    note free = deliverable_free [OF this]
    obtain i where "g r = leased (lease_token_of worker i) expires r" using bspec [OF g(2) r] True by auto
    then show ?thesis using moved_ops(1) [OF inv_rows(2) [OF inv r]] free by simp
  next
    case False
    then show ?thesis using bspec [OF g(2) r] moved_refl by auto
  qed
  with g(1) show ?thesis unfolding delivers_def by blast
qed

lemma holds_free:
  "holds_lease cf m t now st r \<Longrightarrow> \<not> settled_row r \<and> \<not> open_ambiguity (row_id r) st"
  by (auto simp: holds_lease_def settled_row_def)

lemma update_delivers:
  assumes inv: "event_inv cf st" and up: "update_where P f (es_outbox st) = (n, outbox)"
    and free: "\<And>r. P r \<Longrightarrow> \<not> settled_row r \<and> \<not> open_ambiguity (row_id r) st"
    and f: "\<And>r. row_shape r \<Longrightarrow> \<not> settled_row r \<Longrightarrow> moved r (f r)"
  shows "delivers st (st\<lparr>es_outbox := outbox\<rparr>)"
proof -
  have "outbox = map (\<lambda>r. if P r then f r else r) (es_outbox st)" using up by (simp add: update_where_def)
  moreover have "moved r (if P r then f r else r) \<and> (open_ambiguity (row_id r) st \<longrightarrow> (if P r then f r else r) = r)"
    if "r \<in> set (es_outbox st)" for r
    using free [of r] f [OF inv_rows(2) [OF inv that]] moved_refl by auto
  ultimately show ?thesis unfolding delivers_def by blast
qed

lemma acknowledge_delivers:
  assumes "event_inv cf st" "acknowledge_outbox cf m t p clock st = Inr (b, st')"
  shows "delivers st st'"
proof -
  obtain now stamp where "normalize_timestamp cf clock = Inr now"
    "st' = st\<lparr>es_outbox := snd (update_where (holds_lease cf m t now st) (published stamp) (es_outbox st))\<rparr>"
    using assms(2) by (auto simp: acknowledge_outbox_def res_simps Let_def split_beta)
  then show ?thesis
    using update_delivers [OF assms(1) prod.collapse [symmetric] holds_free moved_ops(2)] by simp
qed

lemma reject_delivers:
  assumes "event_inv cf st" "reject_outbox cf m t e r dead clock st = Inr (b, st')"
  shows "delivers st st'"
proof -
  obtain now available where "normalize_timestamp cf clock = Inr now"
    "st' = st\<lparr>es_outbox := snd (update_where (holds_lease cf m t now st)
       (returned (if dead then OS_DEAD_LETTER else OS_PENDING) available e) (es_outbox st))\<rparr>"
    using assms(2) by (auto simp: reject_outbox_def res_simps Let_def split_beta)
  moreover have "(if dead then OS_DEAD_LETTER else OS_PENDING) \<noteq> OS_IN_FLIGHT" by simp
  ultimately show ?thesis
    using update_delivers [OF assms(1) prod.collapse [symmetric] holds_free moved_ops(3)] by simp
qed

section \<open>Uncertain deliveries\<close>

lemma row_unique:
  assumes "event_inv cf st" "r \<in> set (es_outbox st)" "row_of row_id m (es_outbox st) = Some x" "row_id r = m"
  shows "r = x"
  using row_of_Some [OF assms(3)] key_inj [OF inv_rows(1) [OF assms(1)] assms(2)] assms(4) by metis

lemma mark_result:
  assumes inv: "event_inv cf st" and m: "mark_outbox_ambiguous cf message token reason t st = Inr (b, st')"
  shows "event_inv cf st' \<and> es_outbox st' = es_outbox st \<and> es_events st' = es_events st
    \<and> es_inbox st' = es_inbox st \<and> es_snapshots st' = es_snapshots st
    \<and> set (open_ones st) \<subseteq> set (open_ones st')"
proof -
  have ok: "reason \<in> set ambiguity_reasons" using m by (auto simp: mark_outbox_ambiguous_def split: if_splits)
  then obtain digest stamp where d: "token_digest cf token = Inr digest" "normalize_timestamp cf t = Inr stamp"
    using m by (auto simp: mark_outbox_ambiguous_def res_simps)
  note m' = m [unfolded mark_outbox_ambiguous_def d bind_res.simps]
  consider "st' = st" | r a where "row_of row_id message (es_outbox st) = Some r"
      "so_status (or_stored r) = OS_IN_FLIGHT" "so_lease_token (or_stored r) = Some token"
      "token_digest cf token = Inr (am_lease_token_digest a)" "am_message_id a = message"
      "am_resolved_at a = None" "\<not> open_ambiguity message st"
      "st' = st\<lparr>es_ambiguities := es_ambiguities st @ [a]\<rparr>"
  proof (cases "row_of row_id message (es_outbox st)")
    case None
    then show ?thesis using m' ok that(1) by simp
  next
    case (Some r)
    show ?thesis
    proof (cases "so_status (or_stored r) = OS_IN_FLIGHT \<and> so_lease_token (or_stored r) = Some token")
      case False
      then show ?thesis using m' ok Some that(1) by auto
    next
      case True
      let ?a = "\<lparr>am_message_id = message, am_lease_token_digest = digest, am_reason_code = reason,
          am_attempt_count = so_attempt_count (or_stored r), am_marked_at = stamp,
          am_resolution = None, am_resolved_at = None\<rparr>"
      have ins: "insert_ambiguity ?a st = Inr st'"
        using m' ok Some True by (auto simp: res_simps split: if_splits)
      then have "st' = st \<or> \<not> open_ambiguity message st \<and> st' = st\<lparr>es_ambiguities := es_ambiguities st @ [?a]\<rparr>"
        by (auto simp: insert_ambiguity_def split: if_splits)
      then show ?thesis using that(1) that(2) [OF Some, of ?a] True d(1) by auto
    qed
  qed
  then show ?thesis
  proof cases
    case 1
    with inv show ?thesis by simp
  next
    case (2 r a)
    have open_new: "open_ones st' = open_ones st @ [a]" using 2(6,8) by (simp add: open_ones_def)
    have r: "r \<in> set (es_outbox st)" "row_id r = message" using row_of_Some [OF 2(1)] by auto
    have "held_by cf (am_lease_token_digest a) r" using 2(2-4) by (simp add: held_by_def)
    then have "tables_inv cf st'"
      using inv r 2(5,7,8) open_new
      by (auto simp: event_inv_def tables_inv_def open_ambiguity_iff)
    then show ?thesis using inv 2(8) open_new by (auto simp: event_inv_def)
  qed
qed

text \<open>A resolution moves the one row in doubt and closes its one open ambiguity.\<close>

lemma resolve_result:
  assumes inv: "event_inv cf st"
    and rs: "resolve_outbox_ambiguity cf message digest resolution t retry st = Inr (b, st')"
  shows "st' = st \<or> (\<exists>r f. r \<in> set (es_outbox st) \<and> row_id r = message \<and> moved r (f r) \<and> \<not> settled_row r
    \<and> so_status (or_stored (f r)) \<noteq> OS_IN_FLIGHT
    \<and> es_outbox st' = map (\<lambda>x. if x = r then f r else x) (es_outbox st)
    \<and> open_ones st' = filter (\<lambda>a. am_message_id a \<noteq> message) (open_ones st)
    \<and> es_events st' = es_events st \<and> es_inbox st' = es_inbox st \<and> es_snapshots st' = es_snapshots st)"
proof -
  consider "st' = st" | r token f decided where "row_of row_id message (es_outbox st) = Some r"
      "so_status (or_stored r) = OS_IN_FLIGHT" "so_lease_token (or_stored r) = Some token"
      "list_ex (open_case message digest) (es_ambiguities st)"
      "token_digest cf token = Inr digest" "f = published decided \<or> (\<exists>s x y. s \<noteq> OS_IN_FLIGHT \<and> f = returned s x y)"
      "st' = st\<lparr>es_outbox := map (\<lambda>x. if row_id x = message \<and> so_status (or_stored x) = OS_IN_FLIGHT
            \<and> so_lease_token (or_stored x) = Some token then f x else x) (es_outbox st),
          es_ambiguities := map (\<lambda>a. if open_case message digest a then closed resolution decided a else a)
            (es_ambiguities st)\<rparr>"
  proof -
    have ok: "resolution \<in> set resolutions" "hex_digest_text digest"
      using rs by (auto simp: resolve_outbox_ambiguity_def split: if_splits)
    then obtain decided available where d: "normalize_timestamp cf t = Inr decided"
      "normalize_timestamp cf (case retry of None \<Rightarrow> decided | Some r \<Rightarrow> r) = Inr available"
      using rs by (auto simp: resolve_outbox_ambiguity_def res_simps)
    note rs' = rs [unfolded resolve_outbox_ambiguity_def d bind_res.simps]
    show thesis
    proof (cases "list_ex (open_case message digest) (es_ambiguities st)")
      case False
      then show ?thesis using rs' ok that(1) by simp
    next
      case opened: True
      show ?thesis
      proof (cases "row_of row_id message (es_outbox st)")
        case None
        then show ?thesis using rs' ok opened that(1) by simp
      next
        case (Some r)
        show ?thesis
        proof (cases "so_status (or_stored r) = OS_IN_FLIGHT")
          case False
          then show ?thesis using rs' ok opened Some that(1) by simp
        next
          case live: True
          show ?thesis
          proof (cases "so_lease_token (or_stored r)")
            case None
            then show ?thesis using rs' ok opened Some live by simp
          next
            case token: (Some token)
            obtain held where held: "token_digest cf token = Inr held"
              using rs' ok opened Some live token by (auto simp: res_simps)
            let ?f = "if resolution = ''published'' then published decided
                else returned (if resolution = ''retry'' then OS_PENDING else OS_DEAD_LETTER)
                       available (''operator_reconciled:'' @ resolution)"
            show ?thesis
            proof (cases "held = digest \<and> \<not> blank token")
              case False
              then show ?thesis using rs' ok opened Some live token held that(1) by (auto split: if_splits)
            next
              case True
              have "?f = published decided \<or> (\<exists>s x y. s \<noteq> OS_IN_FLIGHT \<and> ?f = returned s x y)" by auto
              moreover have "st' = st\<lparr>es_outbox := map (\<lambda>x. if row_id x = message
                  \<and> so_status (or_stored x) = OS_IN_FLIGHT \<and> so_lease_token (or_stored x) = Some token
                  then ?f x else x) (es_outbox st),
                es_ambiguities := map (\<lambda>a. if open_case message digest a then closed resolution decided a else a)
                  (es_ambiguities st)\<rparr>"
                using rs' ok opened Some live token held True by (simp add: Let_def update_where_def)
              ultimately show ?thesis using that(2) [OF Some live token opened] held True by blast
            qed
          qed
        qed
      qed
    qed
  qed
  then show ?thesis
  proof cases
    case (2 r token f decided)
    have r: "r \<in> set (es_outbox st)" "row_id r = message" using row_of_Some [OF 2(1)] by auto
    have live: "\<not> settled_row r" using 2(2) by (simp add: settled_row_def)
    have mv: "moved r (f r)" "so_status (or_stored (f r)) \<noteq> OS_IN_FLIGHT"
      using 2(6) moved_ops(2,3) [OF inv_rows(2) [OF inv r(1)] live]
      by (auto simp: published_def returned_def)
    have rows: "es_outbox st' = map (\<lambda>x. if x = r then f r else x) (es_outbox st)"
    proof -
      have "(row_id x = message \<and> so_status (or_stored x) = OS_IN_FLIGHT
          \<and> so_lease_token (or_stored x) = Some token) = (x = r)" if "x \<in> set (es_outbox st)" for x
        using row_unique [OF inv that 2(1)] r(2) 2(2,3) by blast
      then have "map (\<lambda>x. if row_id x = message \<and> so_status (or_stored x) = OS_IN_FLIGHT
            \<and> so_lease_token (or_stored x) = Some token then f x else x) (es_outbox st)
          = map (\<lambda>x. if x = r then f r else x) (es_outbox st)" by (intro map_cong refl) simp
      then show ?thesis using 2(7) by simp
    qed
    have uniq: "\<forall>a \<in> set (es_ambiguities st). am_message_id a = message \<and> am_resolved_at a = None
        \<longrightarrow> am_lease_token_digest a = digest"
    proof (intro ballI impI)
      fix a assume a: "a \<in> set (es_ambiguities st)" "am_message_id a = message \<and> am_resolved_at a = None"
      then have "a \<in> set (open_ones st)" by (simp add: open_ones_def)
      then obtain x where "x \<in> set (es_outbox st)" "row_id x = message" "held_by cf (am_lease_token_digest a) x"
        using inv a(2) by (auto simp: event_inv_def tables_inv_def)
      then show "am_lease_token_digest a = digest"
        using row_unique [OF inv _ 2(1)] 2(3,5) by (auto simp: held_by_def)
    qed
    have "open_ones st' = filter (\<lambda>a. am_message_id a \<noteq> message) (open_ones st)"
    proof -
      have "filter (\<lambda>a. am_resolved_at a = None)
          (map (\<lambda>a. if open_case message digest a then closed resolution decided a else a) as)
        = filter (\<lambda>a. am_message_id a \<noteq> message) (filter (\<lambda>a. am_resolved_at a = None) as)"
        if "\<forall>a \<in> set as. am_message_id a = message \<and> am_resolved_at a = None \<longrightarrow> am_lease_token_digest a = digest" for as
        using that by (induction as) (auto simp: open_case_def closed_def)
      from this [OF uniq] show ?thesis using 2(7) by (simp add: open_ones_def)
    qed
    then show ?thesis using r mv live rows 2(7) by (intro disjI2 exI [of _ r] exI [of _ f]) simp
  qed simp
qed

lemma resolve_inv:
  assumes inv: "event_inv cf st"
    and rs: "resolve_outbox_ambiguity cf message digest resolution t retry st = Inr (b, st')"
  shows "event_inv cf st'"
  using resolve_result [OF inv rs]
proof (elim disjE exE conjE)
  fix r f
  assume r: "r \<in> set (es_outbox st)" "row_id r = message" "moved r (f r)"
    and rows: "es_outbox st' = map (\<lambda>x. if x = r then f r else x) (es_outbox st)"
    and opens: "open_ones st' = filter (\<lambda>a. am_message_id a \<noteq> message) (open_ones st)"
    and same: "es_events st' = es_events st" "es_inbox st' = es_inbox st" "es_snapshots st' = es_snapshots st"
  have t: "tables_inv cf st" using inv by (simp add: event_inv_def)
  let ?g = "\<lambda>x. if x = r then f r else x"
  have keys: "map row_id (es_outbox st') = map row_id (es_outbox st)"
    "map or_position (es_outbox st') = map or_position (es_outbox st)"
    using moved_id [OF r(3)] moved_same [OF r(3)] unfolding rows by (auto simp: same_row_def)
  have old: "row_shape x \<and> triggers (es_events st) x" if "x \<in> set (es_outbox st)" for x
    using t that by (simp add: tables_inv_def)
  have "row_shape (f r) \<and> triggers (es_events st) (f r)"
    using old [OF r(1)] moved_shape [OF r(3)] moved_same [OF r(3)] by (simp add: triggers_def same_row_def)
  then have shape: "\<forall>x \<in> set (es_outbox st'). row_shape x \<and> triggers (es_events st') x"
    using old unfolding rows same by auto
  have cases: "\<forall>a \<in> set (open_ones st'). \<exists>x \<in> set (es_outbox st'). row_id x = am_message_id a
      \<and> held_by cf (am_lease_token_digest a) x"
  proof
    fix a assume "a \<in> set (open_ones st')"
    then have a: "a \<in> set (open_ones st)" "am_message_id a \<noteq> message" by (auto simp: opens)
    obtain x where x: "x \<in> set (es_outbox st)" "row_id x = am_message_id a"
      "held_by cf (am_lease_token_digest a) x" using t a(1) by (auto simp: tables_inv_def)
    then have "x \<noteq> r" using a(2) r(2) by auto
    then have "x \<in> set (es_outbox st')" unfolding rows set_map by (intro image_eqI [OF _ x(1)]) simp
    with x show "\<exists>x \<in> set (es_outbox st'). row_id x = am_message_id a
      \<and> held_by cf (am_lease_token_digest a) x" by blast
  qed
  have "distinct (map am_message_id (open_ones st'))"
    using t unfolding opens by (simp add: tables_inv_def distinct_map_filter)
  then have "tables_inv cf st'"
    using t shape cases unfolding tables_inv_def keys same by blast
  then show ?thesis using inv same by (simp add: event_inv_def)
qed (use inv in simp)

end
