(* ===== verification/Outbox_Steps.thy ===== *)
theory Outbox_Steps
  imports Outbox_Reach
begin

text \<open>
  The appends that carry messages or receipts, the step relation of the whole event store, its
  invariant on every reachable store, and what a step may do to the log and to the outbox.
\<close>

section \<open>Messages and receipts\<close>

definition pending_row :: "stored_event \<Rightarrow> outbox_message \<Rightarrow> outbox_row \<Rightarrow> bool" where
  "pending_row s m r = (so_message (or_stored r) = m
     \<and> so_triggering_event_id (or_stored r) = ev_event_id (se_event s)
     \<and> so_triggering_position (or_stored r) = se_global_position s
     \<and> so_status (or_stored r) = OS_PENDING \<and> so_attempt_count (or_stored r) = 0 \<and> row_shape r)"

lemma insert_outbox_result:
  assumes "insert_outbox s m rows = Inr rows'"
  shows "\<exists>r. rows' = rows @ [r] \<and> pending_row s m r \<and> or_position r = last_outbox rows + 1
    \<and> om_message_id m \<notin> row_id ` set rows"
  using assms by (auto simp: insert_outbox_def pending_row_def row_shape_def Let_def split: if_splits)

lemma last_outbox_above: "r \<in> set rows \<Longrightarrow> or_position r \<le> last_outbox rows" "0 \<le> last_outbox rows"
  by (simp_all add: last_outbox_def fold_max)

lemma insert_messages_result:
  assumes "insert_messages s ms rows = Inr rows'" "distinct (map row_id rows)"
    "sorted_wrt (<) (0 # map or_position rows)"
  shows "\<exists>new. rows' = rows @ new \<and> list_all2 (pending_row s) ms new
    \<and> distinct (map row_id rows') \<and> sorted_wrt (<) (0 # map or_position rows')"
  using assms
proof (induction ms arbitrary: rows)
  case (Cons m ms)
  then obtain rows1 where ins: "insert_outbox s m rows = Inr rows1" "insert_messages s ms rows1 = Inr rows'"
    by (auto simp: res_simps)
  obtain r where r: "rows1 = rows @ [r]" "pending_row s m r" "or_position r = last_outbox rows + 1"
    "om_message_id m \<notin> row_id ` set rows" using insert_outbox_result [OF ins(1)] by blast
  have "distinct (map row_id rows1)" using Cons.prems(2) r by (simp add: pending_row_def)
  moreover have "sorted_wrt (<) (0 # map or_position rows1)"
  proof -
    have "\<forall>x \<in> set (0 # map or_position rows). x < or_position r"
      using last_outbox_above(1) [of _ rows] last_outbox_above(2) [of rows] r(3) by force
    then have "sorted_wrt (<) ((0 # map or_position rows) @ [or_position r])"
      using Cons.prems(3) by (simp only: sorted_snoc)
    then show ?thesis by (simp add: r(1))
  qed
  ultimately obtain new where new: "rows' = rows1 @ new" "list_all2 (pending_row s) ms new"
    "distinct (map row_id rows')" "sorted_wrt (<) (0 # map or_position rows')"
    using Cons.IH [OF ins(2)] by blast
  have "rows' = rows @ (r # new)" "list_all2 (pending_row s) (m # ms) (r # new)"
    using new r(1,2) by simp_all
  with new(3,4) show ?case by blast
qed simp

lemma refs_mono:
  assumes "prefix events events'"
  shows "triggers events r \<Longrightarrow> triggers events' r" "receipt_for events x \<Longrightarrow> receipt_for events' x"
  using set_mono_prefix [OF assms] by (auto simp: triggers_def receipt_for_def)

lemma grow_log_inv:
  assumes inv: "event_inv cf st" and log: "log_inv events" "prefix (es_events st) events"
  shows "event_inv cf (st\<lparr>es_events := events\<rparr>)"
proof -
  have "tables_inv cf st" using inv by (simp add: event_inv_def)
  then have "tables_inv cf (st\<lparr>es_events := events\<rparr>)"
    using refs_mono [OF log(2)] by (simp add: tables_inv_def open_ones_def)
  with log(1) show ?thesis by (simp add: event_inv_def)
qed

lemma append_with_outbox_result:
  assumes inv: "event_inv cf st" and a: "append_with_outbox cf e ms v st = Inr ((s, written), st')"
  shows "(st' = st \<and> (\<exists>r \<in> set (es_events st). se_event r = se_event s)) \<or> (\<exists>e' batch new.
      snapshot_event cf e = Inr e' \<and> map_res (snapshot_message cf) ms = Inr batch
      \<and> append_tx cf e' v None (es_events st) = Inr ((s, True), es_events st @ [s])
      \<and> st' = st\<lparr>es_events := es_events st @ [s], es_outbox := es_outbox st @ new\<rparr>
      \<and> list_all2 (pending_row s) batch new
      \<and> distinct (map row_id (es_outbox st')) \<and> sorted_wrt (<) (0 # map or_position (es_outbox st')))"
proof -
  obtain e' batch n i events where b: "snapshot_event cf e = Inr e'"
      "map_res (snapshot_message cf) ms = Inr batch" "check_option check_row_integer v = Inr n"
      "append_tx cf e' n None (es_events st) = Inr ((s, i), events)"
    and rest: "if i then \<exists>outbox. insert_messages s batch (es_outbox st) = Inr outbox
        \<and> st' = st\<lparr>es_events := events, es_outbox := outbox\<rparr> else st' = st"
    using a by (auto simp: append_with_outbox_def res_simps split: if_splits)
  have nv: "n = v" using b(3) by (auto simp: check_option_def check_row_integer_def res_simps split: option.splits if_splits)
  show ?thesis
  proof (cases i)
    case False
    then have "\<exists>r \<in> set (es_events st). row_to_event cf r = Inr s"
      using append_tx_Inr [OF b(4)] by auto
    then show ?thesis using rest False by (auto dest: row_to_event_id)
  next
    case True
    then have ev: "events = es_events st @ [s]" using append_tx_Inr [OF b(4)] by simp
    obtain outbox where o: "insert_messages s batch (es_outbox st) = Inr outbox"
      "st' = st\<lparr>es_events := events, es_outbox := outbox\<rparr>" using rest True by auto
    have "sorted_wrt (<) (0 # map or_position (es_outbox st))"
      using inv by (simp add: event_inv_def tables_inv_def)
    from insert_messages_result [OF o(1) inv_rows(1) [OF inv] this] obtain new where
      "outbox = es_outbox st @ new" "list_all2 (pending_row s) batch new"
      "distinct (map row_id outbox)" "sorted_wrt (<) (0 # map or_position outbox)" by blast
    then show ?thesis using b o(2) True ev nv by (intro disjI2 exI [of _ e'] exI [of _ batch] exI [of _ new]) auto
  qed
qed

lemma pending_rows:
  assumes "list_all2 (pending_row s) batch new" "r \<in> set new"
  shows "row_shape r" "s \<in> set events \<Longrightarrow> triggers events r" "so_status (or_stored r) = OS_PENDING"
proof -
  obtain m where "pending_row s m r"
    using assms by (metis in_set_conv_nth list_all2_conv_all_nth)
  then show "row_shape r" "s \<in> set events \<Longrightarrow> triggers events r" "so_status (or_stored r) = OS_PENDING"
    by (auto simp: pending_row_def triggers_def)
qed

lemma append_with_outbox_inv:
  assumes inv: "event_inv cf st" and a: "append_with_outbox cf e ms v st = Inr (x, st')"
  shows "event_inv cf st'"
proof -
  obtain s written where x: "x = (s, written)" by (cases x)
  from append_with_outbox_result [OF inv a [unfolded x]] show ?thesis
  proof (elim disjE exE conjE)
    fix e' batch new
    assume tx: "append_tx cf e' v None (es_events st) = Inr ((s, True), es_events st @ [s])"
      and st': "st' = st\<lparr>es_events := es_events st @ [s], es_outbox := es_outbox st @ new\<rparr>"
      and new: "list_all2 (pending_row s) batch new"
      and keys: "distinct (map row_id (es_outbox st'))" "sorted_wrt (<) (0 # map or_position (es_outbox st'))"
    have log: "log_inv (es_events st')"
      using append_tx_inv [OF _ tx] inv st' by (simp add: event_inv_def)
    have pre: "prefix (es_events st) (es_events st')" by (simp add: st')
    have t: "tables_inv cf st" using inv by (simp add: event_inv_def)
    have rows: "\<forall>r \<in> set (es_outbox st'). row_shape r \<and> triggers (es_events st') r"
      using t refs_mono(1) [OF pre] pending_rows [OF new] by (auto simp: tables_inv_def st')
    have opens: "\<forall>a \<in> set (open_ones st'). \<exists>r \<in> set (es_outbox st'). row_id r = am_message_id a
        \<and> held_by cf (am_lease_token_digest a) r"
      using t by (fastforce simp: tables_inv_def st' open_ones_def)
    have same: "open_ones st' = open_ones st" "es_inbox st' = es_inbox st" "es_snapshots st' = es_snapshots st"
      by (simp_all add: st' open_ones_def)
    have receipts: "\<forall>r \<in> set (es_inbox st). receipt_for (es_events st') r"
      using t refs_mono(2) [OF pre] by (simp add: tables_inv_def)
    have "tables_inv cf st'"
      using t keys rows opens receipts unfolding tables_inv_def same by blast
    then show ?thesis using log by (simp add: event_inv_def)
  qed (use inv in simp)
qed

lemma append_inbox_result:
  assumes a: "append_inbox cf c m e result t v st = Inr ((s, receipt, dup), st')"
  shows "if dup then st' = st \<and> receipt_of c m (es_inbox st) \<noteq> None
    else receipt_of c m (es_inbox st) = None
      \<and> (\<exists>e' i events answer. snapshot_event cf e = Inr e' \<and> snapshot_json cf result = Inr answer
        \<and> append_tx cf e' v None (es_events st) = Inr ((s, i), events)
        \<and> receipt = \<lparr>ir_consumer_id = c, ir_message_id = m, ir_received_at = t,
            ir_event_id = ev_event_id (se_event s), ir_event_position = se_global_position s,
            ir_result = answer\<rparr>
        \<and> st' = st\<lparr>es_events := events, es_inbox := es_inbox st @ [receipt]\<rparr>)"
proof -
  have nv: "n = v" if "check_option check_row_integer v = Inr n" for n
    using that by (auto simp: check_option_def check_row_integer_def res_simps split: option.splits if_splits)
  show ?thesis
  proof (cases "receipt_of c m (es_inbox st)")
    case None
    then show ?thesis using a nv by (auto simp: append_inbox_def res_simps Let_def split: if_splits)
  next
    case (Some r)
    then show ?thesis using a
      by (auto simp: append_inbox_def res_simps split: if_splits option.splits)
  qed
qed

lemma event_of_tx:
  assumes "append_tx cf e v g rows = Inr ((s, i), rows')"
  shows "s \<in> set rows'"
proof (cases i)
  case False
  then have "\<exists>r \<in> set rows. row_to_event cf r = Inr s" "rows' = rows" using append_tx_Inr [OF assms] by auto
  then show ?thesis by (auto dest: row_to_event_id)
qed (use append_tx_Inr [OF assms] in simp)

lemma append_inbox_inv:
  assumes inv: "event_inv cf st" and a: "append_inbox cf c m e result t v st = Inr (x, st')"
  shows "event_inv cf st'"
proof -
  obtain s receipt dup where x: "x = (s, receipt, dup)" by (cases x)
  show ?thesis
  proof (cases dup)
    case True
    then show ?thesis using append_inbox_result [OF a [unfolded x]] inv by simp
  next
    case False
    then obtain e' i events where r: "receipt_of c m (es_inbox st) = None"
        "append_tx cf e' v None (es_events st) = Inr ((s, i), events)"
        "ir_consumer_id receipt = c" "ir_message_id receipt = m"
        "ir_event_id receipt = ev_event_id (se_event s)" "ir_event_position receipt = se_global_position s"
        "st' = st\<lparr>es_events := events, es_inbox := es_inbox st @ [receipt]\<rparr>"
      using append_inbox_result [OF a [unfolded x]] by auto
    have log: "log_inv events" "prefix (es_events st) events"
      using append_tx_inv [OF _ r(2)] append_tx_prefix [OF r(2)] inv by (simp_all add: event_inv_def)
    have grown: "event_inv cf (st\<lparr>es_events := events\<rparr>)" by (rule grow_log_inv [OF inv log])
    have "(c, m) \<notin> (\<lambda>r. (ir_consumer_id r, ir_message_id r)) ` set (es_inbox st)"
      using r(1) by (simp add: receipt_of_def row_of_None)
    moreover have "receipt_for events receipt" using event_of_tx [OF r(2)] r(5,6) by (auto simp: receipt_for_def)
    ultimately have "tables_inv cf st'"
      using grown r(3,4,7) by (auto simp: event_inv_def tables_inv_def open_ones_def)
    then show ?thesis using log(1) r(7) by (simp add: event_inv_def)
  qed
qed

lemma save_snapshot_result:
  assumes "save_snapshot cf stream n state t st = Inr st'"
  shows "\<exists>new. sr_stream_id new = stream \<and> sr_sequence new = n \<and> snapshot_json cf state = Inr (sr_state new)
    \<and> es_events st' = es_events st \<and> es_outbox st' = es_outbox st \<and> es_inbox st' = es_inbox st
    \<and> es_ambiguities st' = es_ambiguities st
    \<and> es_snapshots st' = (case row_of sr_stream_id stream (es_snapshots st) of
        None \<Rightarrow> es_snapshots st @ [new]
      | Some old \<Rightarrow> if sr_sequence old \<le> n then replace_row sr_stream_id stream new (es_snapshots st)
          else es_snapshots st)"
proof -
  obtain v where v: "snapshot_json cf state = Inr v" "check_row_integer n = Inr n"
    using assms by (auto simp: save_snapshot_def check_row_integer_def res_simps split: if_splits)
  let ?new = "\<lparr>sr_stream_id = stream, sr_sequence = n, sr_state = v, sr_updated_at = t\<rparr>"
  have "st' = (case row_of sr_stream_id stream (es_snapshots st) of
      None \<Rightarrow> st\<lparr>es_snapshots := es_snapshots st @ [?new]\<rparr>
    | Some old \<Rightarrow> if sr_sequence old \<le> n
        then st\<lparr>es_snapshots := replace_row sr_stream_id stream ?new (es_snapshots st)\<rparr> else st)"
    using assms v by (simp add: save_snapshot_def Let_def)
  then show ?thesis using v by (intro exI [of _ ?new]) (auto split: option.splits)
qed

lemma save_snapshot_inv:
  assumes inv: "event_inv cf st" and s: "save_snapshot cf stream n state t st = Inr st'"
  shows "event_inv cf st'"
proof -
  obtain new where new: "sr_stream_id new = stream" "es_events st' = es_events st" "es_outbox st' = es_outbox st"
    "es_inbox st' = es_inbox st" "es_ambiguities st' = es_ambiguities st"
    "es_snapshots st' = (case row_of sr_stream_id stream (es_snapshots st) of
        None \<Rightarrow> es_snapshots st @ [new]
      | Some old \<Rightarrow> if sr_sequence old \<le> n then replace_row sr_stream_id stream new (es_snapshots st)
          else es_snapshots st)"
    using save_snapshot_result [OF s] by blast
  have "distinct (map sr_stream_id (es_snapshots st'))"
    using inv new(1,6) row_of_None [of sr_stream_id stream "es_snapshots st"]
    by (auto simp: event_inv_def tables_inv_def replace_row_keys split: option.splits)
  then show ?thesis using inv new(2-5)
    by (simp add: event_inv_def tables_inv_def open_ones_def)
qed

section \<open>Steps of the store\<close>

inductive event_step :: "event_config \<Rightarrow> event_store \<Rightarrow> event_store \<Rightarrow> bool" for cf where
  ev_append: "append_event cf e v g (es_events st) = Inr (s, rows)
     \<Longrightarrow> event_step cf st (st\<lparr>es_events := rows\<rparr>)"
| ev_batch: "append_many cf t es v (es_events st) = Inr (ss, rows)
     \<Longrightarrow> event_step cf st (st\<lparr>es_events := rows\<rparr>)"
| ev_outbox: "append_with_outbox cf e ms v st = Inr (x, st') \<Longrightarrow> event_step cf st st'"
| ev_inbox: "append_inbox cf c m e result t v st = Inr (x, st') \<Longrightarrow> event_step cf st st'"
| ev_claim: "claim_outbox cf worker limit seconds clock ids st = Inr (ss, st') \<Longrightarrow> event_step cf st st'"
| ev_ack: "acknowledge_outbox cf m token p clock st = Inr (b, st') \<Longrightarrow> event_step cf st st'"
| ev_reject: "reject_outbox cf m token err r dead clock st = Inr (b, st') \<Longrightarrow> event_step cf st st'"
| ev_mark: "mark_outbox_ambiguous cf m token reason t st = Inr (b, st') \<Longrightarrow> event_step cf st st'"
| ev_resolve: "resolve_outbox_ambiguity cf m digest resolution t retry st = Inr (b, st')
     \<Longrightarrow> event_step cf st st'"
| ev_snapshot: "save_snapshot cf stream n state t st = Inr st' \<Longrightarrow> event_step cf st st'"

inductive_cases event_step_E: "event_step cf st st'"

definition no_events :: event_store where
  "no_events = \<lparr>es_events = [], es_outbox = [], es_ambiguities = [], es_inbox = [], es_snapshots = []\<rparr>"

lemma no_events_inv: "event_inv cf no_events"
  by (simp add: event_inv_def tables_inv_def no_events_def log_inv_empty open_ones_def)

text \<open>What a step does to the log is a run of the log.\<close>

lemma event_step_log:
  assumes inv: "event_inv cf st" and step: "event_step cf st st'"
  shows "(log_step cf)\<^sup>*\<^sup>* (es_events st) (es_events st')"
  using step
proof cases
  case (ev_append e v g s rows)
  then show ?thesis by (auto intro: log_append)
next
  case (ev_batch t es v ss rows)
  then show ?thesis by (auto intro: log_batch)
next
  case (ev_outbox e ms v x)
  obtain s written where x: "x = (s, written)" by (cases x)
  from append_with_outbox_result [OF inv ev_outbox [unfolded x]] show ?thesis
  proof (elim disjE exE conjE)
    fix e' batch new
    assume "snapshot_event cf e = Inr e'" "append_tx cf e' v None (es_events st) = Inr ((s, True), es_events st @ [s])"
      and st': "st' = st\<lparr>es_events := es_events st @ [s], es_outbox := es_outbox st @ new\<rparr>"
    then have "log_step cf (es_events st) (es_events st @ [s])" by (intro log_tx)
    then show ?thesis using st' by simp
  qed simp
next
  case (ev_inbox c m e result t v x)
  obtain s receipt dup where x: "x = (s, receipt, dup)" by (cases x)
  show ?thesis
  proof (cases dup)
    case False
    then obtain e' i events where "snapshot_event cf e = Inr e'"
      "append_tx cf e' v None (es_events st) = Inr ((s, i), events)" "es_events st' = events"
      using append_inbox_result [OF ev_inbox [unfolded x]] by auto
    then have "log_step cf (es_events st) (es_events st')" by (auto intro: log_tx)
    then show ?thesis by simp
  qed (use append_inbox_result [OF ev_inbox [unfolded x]] in simp)
next
  case (ev_claim worker limit seconds clock ids ss)
  from claim_delivers [OF inv this] show ?thesis by (auto simp: delivers_def)
next
  case (ev_ack m token p clock b)
  from acknowledge_delivers [OF inv this] show ?thesis by (auto simp: delivers_def)
next
  case (ev_reject m token err r dead clock b)
  from reject_delivers [OF inv this] show ?thesis by (auto simp: delivers_def)
next
  case (ev_mark m token reason t b)
  from mark_result [OF inv this] show ?thesis by simp
next
  case (ev_resolve m digest resolution t retry b)
  from resolve_result [OF inv this] show ?thesis by auto
next
  case (ev_snapshot stream n state t)
  from save_snapshot_result [OF this] show ?thesis by auto
qed

lemma event_step_inv:
  assumes inv: "event_inv cf st" and step: "event_step cf st st'"
  shows "event_inv cf st'"
proof -
  have log: "log_inv (es_events st)" using inv by (simp add: event_inv_def)
  from step show ?thesis
  proof cases
    case (ev_append e v g s rows)
    have "log_step cf (es_events st) rows" by (rule log_append [OF ev_append(2)])
    from grow_log_inv [OF inv log_step_inv [OF log this] log_step_prefix [OF log this]] ev_append(1)
    show ?thesis by simp
  next
    case (ev_batch t es v ss rows)
    have "log_step cf (es_events st) rows" by (rule log_batch [OF ev_batch(2)])
    from grow_log_inv [OF inv log_step_inv [OF log this] log_step_prefix [OF log this]] ev_batch(1)
    show ?thesis by simp
  qed (auto intro: append_with_outbox_inv [OF inv] append_inbox_inv [OF inv] resolve_inv [OF inv]
      save_snapshot_inv [OF inv] delivers_inv [OF inv] claim_delivers [OF inv] acknowledge_delivers [OF inv]
      reject_delivers [OF inv] dest: mark_result [OF inv])
qed

interpretation event_store: invariant_system "\<lambda>st. st = no_events" "event_step cf" "event_inv cf" for cf
  by unfold_locales (auto intro: no_events_inv event_step_inv)

text \<open>What a step does to the outbox: rows move or stay, new rows come after them.\<close>

definition outbox_evolves :: "event_store \<Rightarrow> event_store \<Rightarrow> bool" where
  "outbox_evolves st st' = (\<exists>g new. es_outbox st' = map g (es_outbox st) @ new
     \<and> (\<forall>r \<in> set (es_outbox st). moved r (g r)))"

lemma outbox_evolves_refl: "es_outbox st' = es_outbox st \<Longrightarrow> outbox_evolves st st'"
  unfolding outbox_evolves_def by (intro exI [of _ "\<lambda>r. r"] exI [of _ "[]"]) (simp add: moved_refl)

lemma outbox_evolves_trans:
  assumes "outbox_evolves a b" "outbox_evolves b c"
  shows "outbox_evolves a c"
proof -
  from assms(1) obtain g x where g: "es_outbox b = map g (es_outbox a) @ x"
    "\<forall>r \<in> set (es_outbox a). moved r (g r)" unfolding outbox_evolves_def by blast
  from assms(2) obtain h y where h: "es_outbox c = map h (es_outbox b) @ y"
    "\<forall>r \<in> set (es_outbox b). moved r (h r)" unfolding outbox_evolves_def by blast
  have "es_outbox c = map (\<lambda>r. h (g r)) (es_outbox a) @ (map h x @ y)" using g(1) h(1) by simp
  moreover have "moved r (h (g r))" if "r \<in> set (es_outbox a)" for r
  proof -
    have "g r \<in> set (es_outbox b)" using that by (simp add: g(1))
    then show ?thesis using g(2) h(2) that moved_trans by blast
  qed
  ultimately show ?thesis unfolding outbox_evolves_def by blast
qed

lemma delivers_evolves: "delivers st st' \<Longrightarrow> outbox_evolves st st'"
  unfolding delivers_def outbox_evolves_def by (elim exE conjE, intro exI conjI) auto

lemma event_step_outbox:
  assumes inv: "event_inv cf st" and step: "event_step cf st st'"
  shows "outbox_evolves st st'"
  using step
proof cases
  case (ev_outbox e ms v x)
  obtain s written where x: "x = (s, written)" by (cases x)
  from append_with_outbox_result [OF inv ev_outbox [unfolded x]]
  have "\<exists>new. es_outbox st' = es_outbox st @ new" by auto
  then show ?thesis unfolding outbox_evolves_def
    by (elim exE, intro exI [of _ "\<lambda>r. r"]) (auto simp: moved_refl)
next
  case (ev_inbox c m e result t v x)
  obtain s receipt dup where x: "x = (s, receipt, dup)" by (cases x)
  from append_inbox_result [OF ev_inbox [unfolded x]] show ?thesis
    by (auto intro: outbox_evolves_refl split: if_splits)
next
  case (ev_resolve m digest resolution t retry b)
  from resolve_result [OF inv this] show ?thesis
  proof (elim disjE exE conjE)
    fix r f assume "moved r (f r)" "es_outbox st' = map (\<lambda>x. if x = r then f r else x) (es_outbox st)"
    then show ?thesis unfolding outbox_evolves_def
      by (intro exI [of _ "\<lambda>x. if x = r then f r else x"] exI [of _ "[]"]) (simp add: moved_refl)
  qed (simp add: outbox_evolves_refl)
next
  case (ev_mark m token reason t b)
  from mark_result [OF inv this] show ?thesis by (simp add: outbox_evolves_refl)
next
  case (ev_snapshot stream n state t)
  from save_snapshot_result [OF this] show ?thesis by (auto intro: outbox_evolves_refl)
qed (auto intro: outbox_evolves_refl delivers_evolves claim_delivers [OF inv] acknowledge_delivers [OF inv]
    reject_delivers [OF inv])

lemma steps_evolve_outbox:
  assumes "(event_step cf)\<^sup>*\<^sup>* st st'" "event_inv cf st"
  shows "outbox_evolves st st'"
  by (rule event_store.steps_mono [OF assms])
    (auto intro: outbox_evolves_refl outbox_evolves_trans event_step_outbox)

end
