(* ===== verification/Outbox_Props.thy ===== *)
theory Outbox_Props
  imports Outbox_Steps
begin

text \<open>What transactional delivery promises on every store that the operations can reach.\<close>

abbreviation reachable_events :: "event_config \<Rightarrow> event_store \<Rightarrow> bool" where
  "reachable_events cf \<equiv> reach (\<lambda>st. st = no_events) (event_step cf)"

section \<open>Leases\<close>

text \<open>
  C16. A live lease is exclusive: while the lease of a message in flight has not expired, no claim
  hands the message out again or touches its row.
\<close>

theorem live_lease_exclusive:
  assumes "reachable_events cf st" and "claim_outbox cf worker limit seconds clock ids st = Inr (ss, st')"
    and "r \<in> set (es_outbox st)" and "so_status (or_stored r) = OS_IN_FLIGHT"
    and "normalize_timestamp cf clock = Inr now"
    and "so_lease_expires_at (or_stored r) = Some x" and "julian_less cf now x"
  shows "r \<in> set (es_outbox st') \<and> row_id r \<notin> set (map (\<lambda>s. om_message_id (so_message s)) ss)"
proof -
  have inv: "event_inv cf st" by (rule event_store.reach_inv [OF assms(1)])
  from claim_outbox_result [OF inv assms(2)] obtain g where
    g: "st' = st\<lparr>es_outbox := map g (es_outbox st)\<rparr>"
      "\<forall>r \<in> set (es_outbox st). if r \<in> set (deliverable_rows cf now (nat limit) st)
         then \<exists>i \<in> set ids. \<exists>y. g r = leased (lease_token_of worker i) y r else g r = r"
      "map (\<lambda>s. om_message_id (so_message s)) ss = map row_id (deliverable_rows cf now (nat limit) st)"
    using assms(5) by auto metis
  have "\<not> julian_le cf x now"
    using assms(7) by (auto simp: julian_less_def julian_le_def split: option.splits)
  then have "\<not> deliverable cf now st r" using assms(4,6) by (simp add: deliverable_def Let_def)
  then have no: "r \<notin> set (deliverable_rows cf now (nat limit) st)"
    by (auto simp: deliverable_rows_def dest: in_set_takeD)
  have "g r = r" using bspec [OF g(2) assms(3)] no by simp
  then have "r \<in> set (es_outbox st')" using g(1) assms(3) by (auto intro: image_eqI [of _ _ r])
  moreover have "row_id r \<notin> row_id ` set (deliverable_rows cf now (nat limit) st)"
  proof
    assume "row_id r \<in> row_id ` set (deliverable_rows cf now (nat limit) st)"
    then obtain q where q: "q \<in> set (deliverable_rows cf now (nat limit) st)" "row_id q = row_id r" by auto
    then have "q \<in> set (es_outbox st)" by (auto simp: deliverable_rows_def dest: in_set_takeD)
    then show False using key_inj [OF inv_rows(1) [OF inv] _ assms(3) q(2)] q(1) no by blast
  qed
  ultimately show ?thesis unfolding g(3) by simp
qed

text \<open>Whoever acts on a message that is not in flight gets false and changes nothing.\<close>

definition delivery_closed :: "event_config \<Rightarrow> string \<Rightarrow> event_store \<Rightarrow> bool" where
  "delivery_closed cf m st =
     ((\<forall>token p clock b st'. acknowledge_outbox cf m token p clock st = Inr (b, st') \<longrightarrow> \<not> b \<and> st' = st)
      \<and> (\<forall>token e r dead clock b st'. reject_outbox cf m token e r dead clock st = Inr (b, st')
           \<longrightarrow> \<not> b \<and> st' = st))"

lemma update_none: "\<forall>r \<in> set rows. \<not> P r \<Longrightarrow> update_where P f rows = (0, rows)"
  by (simp add: update_where_def filter_empty_conv map_idI)

lemma closed_if:
  assumes "\<forall>token now. \<forall>r \<in> set (es_outbox st). \<not> holds_lease cf m token now st r"
  shows "delivery_closed cf m st"
proof -
  have "update_where (holds_lease cf m token now st) f (es_outbox st) = (0, es_outbox st)" for token now f
    by (rule update_none) (use assms in blast)
  then show ?thesis
    by (auto simp: delivery_closed_def acknowledge_outbox_def reject_outbox_def res_simps)
qed

text \<open>
  A delivery is acknowledged at most once: after an acknowledgement returned true, no later
  acknowledgement or rejection of that message succeeds, under any lease, and its row keeps every
  field for ever.
\<close>

theorem acknowledged_once:
  assumes "reachable_events cf st" and "acknowledge_outbox cf m token p clock st = Inr (True, st1)"
    and "(event_step cf)\<^sup>*\<^sup>* st1 st2"
  shows "delivery_closed cf m st2 \<and> (\<exists>r \<in> set (es_outbox st1). row_id r = m
    \<and> so_status (or_stored r) = OS_PUBLISHED \<and> r \<in> set (es_outbox st2))"
proof -
  have inv: "event_inv cf st" by (rule event_store.reach_inv [OF assms(1)])
  have inv1: "event_inv cf st1" by (rule event_step_inv [OF inv ev_ack [OF assms(2)]])
  have inv2: "event_inv cf st2" by (rule event_store.steps_inv [OF assms(3) inv1])
  obtain now stamp where "fst (update_where (holds_lease cf m token now st) (published stamp) (es_outbox st)) = 1"
    "st1 = st\<lparr>es_outbox := snd (update_where (holds_lease cf m token now st) (published stamp) (es_outbox st))\<rparr>"
    using assms(2) by (auto simp: acknowledge_outbox_def res_simps Let_def split_beta)
  then have a: "update_where (holds_lease cf m token now st) (published stamp) (es_outbox st)
      = (1, es_outbox st1)" by (simp add: prod_eq_iff)
  then have "length (filter (holds_lease cf m token now st) (es_outbox st)) = 1" by (simp add: update_where_def)
  then obtain r where "r \<in> set (filter (holds_lease cf m token now st) (es_outbox st))"
    by (cases "filter (holds_lease cf m token now st) (es_outbox st)") auto
  then have r: "r \<in> set (es_outbox st)" "holds_lease cf m token now st r" by auto
  let ?r = "published stamp r"
  have "es_outbox st1 = map (\<lambda>x. if holds_lease cf m token now st x then published stamp x else x) (es_outbox st)"
    using a by (simp add: update_where_def)
  then have r1: "?r \<in> set (es_outbox st1)" using r by (auto intro: image_eqI [of _ _ r])
  have id: "row_id ?r = m" "so_status (or_stored ?r) = OS_PUBLISHED"
    using r(2) by (simp_all add: published_def holds_lease_def)
  from steps_evolve_outbox [OF assms(3) inv1] obtain g new where
    g: "es_outbox st2 = map g (es_outbox st1) @ new" "\<forall>r \<in> set (es_outbox st1). moved r (g r)"
    unfolding outbox_evolves_def by blast
  then have "g ?r = ?r" using r1 id(2) by (auto simp: moved_def settled_row_def)
  then have r2: "?r \<in> set (es_outbox st2)" using r1 g(1) by (metis Un_iff image_eqI set_append set_map)
  have "\<not> holds_lease cf m t n st2 x" if "x \<in> set (es_outbox st2)" for t n x
    using key_inj [OF inv_rows(1) [OF inv2] that r2] id by (auto simp: holds_lease_def)
  then show ?thesis using closed_if [of st2 cf m] r1 r2 id by blast
qed

section \<open>Uncertain deliveries\<close>

text \<open>
  A delivery in doubt is frozen: while a message has an open ambiguity, no operation changes
  its row and nobody can acknowledge or reject it; only the operator's resolution, which closes
  the ambiguity, moves it.
\<close>

theorem doubt_blocks_delivery:
  assumes "reachable_events cf st" and "open_ambiguity m st" and "r \<in> set (es_outbox st)" and "row_id r = m"
    and "event_step cf st st'"
  shows "delivery_closed cf m st \<and> (r \<in> set (es_outbox st') \<or> \<not> open_ambiguity m st')"
proof -
  have inv: "event_inv cf st" by (rule event_store.reach_inv [OF assms(1)])
  have "\<not> holds_lease cf m t n st x" for t n x using assms(2) by (auto simp: holds_lease_def)
  then have closed: "delivery_closed cf m st" using closed_if by blast
  have deliv: "r \<in> set (es_outbox st')" if d: "delivers st st'"
  proof -
    obtain g where "st' = st\<lparr>es_outbox := map g (es_outbox st)\<rparr>" "g r = r"
      using d assms(2-4) unfolding delivers_def by blast
    then show ?thesis using assms(3) by (auto intro: image_eqI [of _ _ r])
  qed
  have "r \<in> set (es_outbox st') \<or> \<not> open_ambiguity m st'"
    using assms(5)
  proof cases
    case (ev_outbox e ms v x)
    obtain s written where x: "x = (s, written)" by (cases x)
    from append_with_outbox_result [OF inv ev_outbox [unfolded x]] assms(3) show ?thesis by auto
  next
    case (ev_inbox c m e result t v x)
    obtain s receipt dup where x: "x = (s, receipt, dup)" by (cases x)
    from append_inbox_result [OF ev_inbox [unfolded x]] assms(3) show ?thesis by (auto split: if_splits)
  next
    case (ev_mark m token reason t b)
    from mark_result [OF inv this] assms(3) show ?thesis by simp
  next
    case (ev_resolve message digest resolution t retry b)
    from resolve_result [OF inv this] show ?thesis
    proof (elim disjE exE conjE)
      fix q f assume q: "q \<in> set (es_outbox st)" "row_id q = message"
        "es_outbox st' = map (\<lambda>x. if x = q then f q else x) (es_outbox st)"
        "open_ones st' = filter (\<lambda>a. am_message_id a \<noteq> message) (open_ones st)"
      show ?thesis
      proof (cases "m = message")
        case True
        then show ?thesis using q(4) by (auto simp: open_ambiguity_iff)
      next
        case False
        then have "r \<noteq> q" using q(2) assms(4) by auto
        then show ?thesis using q(3) assms(3) by (auto intro: image_eqI [of _ _ r])
      qed
    qed (use assms(3) in simp)
  next
    case (ev_snapshot stream n state t)
    from save_snapshot_result [OF this] assms(3) show ?thesis by auto
  qed (use assms(3) in \<open>auto intro: deliv claim_delivers [OF inv] acknowledge_delivers [OF inv]
      reject_delivers [OF inv]\<close>)
  with closed show ?thesis by blast
qed

section \<open>The transactional outbox\<close>

text \<open>
  C20. An event and its messages are one transaction: when an append with messages adds an event,
  exactly the given messages, in their order, are added as pending rows that name that event;
  when it adds none, the store is as it was.
\<close>

theorem outbox_atomic:
  assumes "reachable_events cf st" and "append_with_outbox cf e ms v st = Inr ((s, written), st')"
  shows "st' = st \<or> (\<exists>batch new. map_res (snapshot_message cf) ms = Inr batch
    \<and> es_events st' = es_events st @ [s] \<and> es_outbox st' = es_outbox st @ new
    \<and> map (\<lambda>r. so_message (or_stored r)) new = batch
    \<and> (\<forall>r \<in> set new. so_status (or_stored r) = OS_PENDING
         \<and> so_triggering_event_id (or_stored r) = ev_event_id (se_event s)
         \<and> so_triggering_position (or_stored r) = se_global_position s))"
  using append_with_outbox_result [OF event_store.reach_inv [OF assms(1)] assms(2)]
proof (elim disjE exE conjE)
  fix e' batch new
  assume b: "map_res (snapshot_message cf) ms = Inr batch"
    "st' = st\<lparr>es_events := es_events st @ [s], es_outbox := es_outbox st @ new\<rparr>"
    "list_all2 (pending_row s) batch new"
  have "map (\<lambda>r. so_message (or_stored r)) new = batch"
    using b(3) by (induction batch new rule: list_all2_induct) (simp_all add: pending_row_def)
  moreover have "\<forall>r \<in> set new. so_status (or_stored r) = OS_PENDING
         \<and> so_triggering_event_id (or_stored r) = ev_event_id (se_event s)
         \<and> so_triggering_position (or_stored r) = se_global_position s"
    using b(3) by (induction batch new rule: list_all2_induct) (auto simp: pending_row_def)
  ultimately show ?thesis using b(1,2) by auto
qed simp

section \<open>The inbox\<close>

lemma event_step_inbox:
  assumes inv: "event_inv cf st" and step: "event_step cf st st'"
  shows "prefix (es_inbox st) (es_inbox st')"
  using step
proof cases
  case (ev_outbox e ms v x)
  obtain s written where x: "x = (s, written)" by (cases x)
  from append_with_outbox_result [OF inv ev_outbox [unfolded x]] show ?thesis by auto
next
  case (ev_inbox c m e result t v x)
  obtain s receipt dup where x: "x = (s, receipt, dup)" by (cases x)
  from append_inbox_result [OF ev_inbox [unfolded x]] show ?thesis by (auto split: if_splits)
next
  case (ev_mark m token reason t b)
  from mark_result [OF inv this] show ?thesis by simp
next
  case (ev_resolve m digest resolution t retry b)
  from resolve_result [OF inv this] show ?thesis by auto
next
  case (ev_snapshot stream n state t)
  from save_snapshot_result [OF this] show ?thesis by auto
qed (auto simp: delivers_def dest!: claim_delivers [OF inv] acknowledge_delivers [OF inv] reject_delivers [OF inv])

lemma steps_grow:
  assumes "(event_step cf)\<^sup>*\<^sup>* st st'" "event_inv cf st"
  shows "prefix (es_inbox st) (es_inbox st')" "prefix (es_events st) (es_events st')"
proof -
  show "prefix (es_inbox st) (es_inbox st')"
    by (rule event_store.steps_mono [OF assms]) (auto intro: event_step_inbox prefix_order.trans)
  have "prefix (es_events a) (es_events b)" if "event_inv cf a" "event_step cf a b" for a b
    using log_steps_prefix [OF event_step_log [OF that]] that(1) by (simp add: event_inv_def)
  then show "prefix (es_events st) (es_events st')"
    by (intro event_store.steps_mono [OF assms, where R = "\<lambda>a b. prefix (es_events a) (es_events b)"])
      (blast intro: prefix_order.trans)+
qed

lemma position_row:
  assumes "log_inv rows" "s \<in> set rows"
  shows "row_of se_global_position (se_global_position s) rows = Some s"
proof -
  have "sorted_wrt (<) (map se_global_position rows)" using assms(1) by (simp add: log_inv_def)
  then have "distinct (map se_global_position rows)" by (simp add: strict_sorted_iff)
  then show ?thesis using assms(2) by (rule row_of_in)
qed

lemma readable_tx:
  assumes "log_inv rows" "snapshot_event cf e0 = Inr e" "readable cf e0"
    "append_tx cf e v g rows = Inr ((s, i), rows')"
  shows "row_to_event cf s = Inr s"
proof (cases i)
  case True
  then show ?thesis using append_tx_Inr [OF assms(4)] written_row [OF assms(1-3)] by simp
next
  case False
  then show ?thesis using append_tx_Inr [OF assms(4)] by (auto dest: row_to_event_id)
qed

text \<open>The receipt and the event of an admission stay where the retry looks for them.\<close>

lemma admission_stays:
  assumes "reachable_events cf st" and "append_inbox cf c m e result t v st = Inr ((s, receipt, False), st1)"
    and "(event_step cf)\<^sup>*\<^sup>* st1 st2"
  shows "receipt_of c m (es_inbox st2) = Some receipt"
    "row_of se_global_position (ir_event_position receipt) (es_events st2) = Some s"
    "row_to_inbox cf receipt = Inr r \<Longrightarrow> r = receipt"
    "readable cf e \<Longrightarrow> \<not> blank t \<Longrightarrow> rfc3339 cf t \<Longrightarrow> row_to_event cf s = Inr s \<and> row_to_inbox cf receipt = Inr receipt"
proof -
  have inv: "event_inv cf st" by (rule event_store.reach_inv [OF assms(1)])
  have inv1: "event_inv cf st1" by (rule event_step_inv [OF inv ev_inbox [OF assms(2)]])
  have inv2: "event_inv cf st2" by (rule event_store.steps_inv [OF assms(3) inv1])
  have names: "\<not> blank c" "\<not> blank m" using assms(2) by (auto simp: append_inbox_def split: if_splits)
  obtain e' i events answer where r: "snapshot_event cf e = Inr e'" "snapshot_json cf result = Inr answer"
      "append_tx cf e' v None (es_events st) = Inr ((s, i), events)"
      "receipt = \<lparr>ir_consumer_id = c, ir_message_id = m, ir_received_at = t,
         ir_event_id = ev_event_id (se_event s), ir_event_position = se_global_position s, ir_result = answer\<rparr>"
      "st1 = st\<lparr>es_events := events, es_inbox := es_inbox st @ [receipt]\<rparr>"
    using append_inbox_result [OF assms(2)] by auto
  have log: "log_inv (es_events st)" "log_inv (es_events st2)" using inv inv2 by (simp_all add: event_inv_def)
  have grow: "receipt \<in> set (es_inbox st2)" "s \<in> set (es_events st2)"
    using steps_grow [OF assms(3) inv1] event_of_tx [OF r(3)] r(5) by (auto simp: prefix_def)
  have "distinct (map (\<lambda>r. (ir_consumer_id r, ir_message_id r)) (es_inbox st2))"
    using inv2 by (simp add: event_inv_def tables_inv_def)
  from row_of_in [OF this grow(1)] show "receipt_of c m (es_inbox st2) = Some receipt"
    by (simp add: receipt_of_def r(4))
  show "row_of se_global_position (ir_event_position receipt) (es_events st2) = Some s"
    using position_row [OF log(2) grow(2)] by (simp add: r(4))
  have decoded: "decode_json cf (ir_result receipt) = Inr (ir_result receipt)"
    using snapshot_decodes [OF r(2)] by (simp add: r(4))
  then show "row_to_inbox cf receipt = Inr r \<Longrightarrow> r = receipt" for r
    by (auto simp: row_to_inbox_def Let_def split: if_splits)
  assume "readable cf e" and t: "\<not> blank t" "rfc3339 cf t"
  then have row: "row_to_event cf s = Inr s" by (intro readable_tx [OF log(1) r(1) _ r(3)])
  then have "\<not> blank (ev_event_id (se_event s))" "1 \<le> se_global_position s" "se_global_position s \<le> max_row_integer"
    by (auto simp: row_to_event_def Let_def res_simps split: if_splits)
  then show "row_to_event cf s = Inr s \<and> row_to_inbox cf receipt = Inr receipt"
    using names t row decoded by (simp add: row_to_inbox_def Let_def r(4))
qed

text \<open>
  C24. An external message is admitted exactly once. After it was admitted, delivering it again to the
  same consumer, with whatever event and result and whatever was stored in between, appends nothing:
  the retry returns the event and the receipt of the first time, marked as a duplicate, or it raises.
  It does not raise if its own event, result and expected version are well-formed, and the first
  admission had a readable event (a non-blank id, a valid time) and an RFC 3339 time of receipt, neither
  of which \<open>append_inbox\<close> checks.
\<close>

theorem inbox_exactly_once:
  assumes "reachable_events cf st" and "append_inbox cf c m e result t v st = Inr ((s, receipt, False), st1)"
    and "(event_step cf)\<^sup>*\<^sup>* st1 st2"
  shows "case append_inbox cf c m e2 result2 t2 v2 st2 of
      Inr answer \<Rightarrow> answer = ((s, receipt, True), st2)
    | Inl error \<Rightarrow> snapshot_event cf e2 = Inl error \<or> snapshot_json cf result2 = Inl error
        \<or> check_option check_row_integer v2 = Inl error
        \<or> \<not> (readable cf e \<and> \<not> blank t \<and> rfc3339 cf t)"
proof -
  note stays = admission_stays [OF assms]
  have names: "\<not> blank c" "\<not> blank m" using assms(2) by (auto simp: append_inbox_def split: if_splits)
  consider x where "snapshot_event cf e2 = Inl x"
    | e' x where "snapshot_event cf e2 = Inr e'" "snapshot_json cf result2 = Inl x"
    | e' p x where "snapshot_event cf e2 = Inr e'" "snapshot_json cf result2 = Inr p"
        "check_option check_row_integer v2 = Inl x"
    | e' p w where "snapshot_event cf e2 = Inr e'" "snapshot_json cf result2 = Inr p"
        "check_option check_row_integer v2 = Inr w"
    by (meson sum.exhaust)
  then show ?thesis
  proof cases
    case 4
    then have run: "append_inbox cf c m e2 result2 t2 v2 st2 = bind_res (row_to_inbox cf receipt) (\<lambda>receipt.
        case row_of se_global_position (ir_event_position receipt) (es_events st2) of
          None \<Rightarrow> Inl (EvRuntime ''inbox receipt references a missing event'')
        | Some r \<Rightarrow> bind_res (row_to_event cf r) (\<lambda>s. Inr ((s, receipt, True), st2)))"
      using names stays(1) by (simp add: append_inbox_def)
    show ?thesis
    proof (cases "row_to_inbox cf receipt")
      case (Inl x)
      then show ?thesis using stays(4) by (auto simp: run)
    next
      case (Inr r)
      with stays(3) have "r = receipt" by blast
      then show ?thesis using Inr stays(2,4) row_to_event_id [of cf s]
        by (cases "row_to_event cf s") (auto simp: run)
    qed
  qed (use names in \<open>simp_all add: append_inbox_def\<close>)
qed

section \<open>Snapshots\<close>

lemma event_step_snapshots:
  assumes inv: "event_inv cf st" and step: "event_step cf st st'"
    and old: "row_of sr_stream_id stream (es_snapshots st) = Some r"
  shows "\<exists>r'. row_of sr_stream_id stream (es_snapshots st') = Some r' \<and> sr_sequence r \<le> sr_sequence r'"
  using step
proof cases
  case (ev_outbox e ms v x)
  obtain s written where x: "x = (s, written)" by (cases x)
  from append_with_outbox_result [OF inv ev_outbox [unfolded x]] old show ?thesis by auto
next
  case (ev_inbox c m e result t v x)
  obtain s receipt dup where x: "x = (s, receipt, dup)" by (cases x)
  from append_inbox_result [OF ev_inbox [unfolded x]] old show ?thesis by (auto split: if_splits)
next
  case (ev_mark m token reason t b)
  from mark_result [OF inv this] old show ?thesis by simp
next
  case (ev_resolve m digest resolution t retry b)
  from resolve_result [OF inv this] old show ?thesis by auto
next
  case (ev_snapshot s n state t)
  obtain new where new: "sr_stream_id new = s" "sr_sequence new = n"
    "es_snapshots st' = (case row_of sr_stream_id s (es_snapshots st) of
        None \<Rightarrow> es_snapshots st @ [new]
      | Some old \<Rightarrow> if sr_sequence old \<le> n then replace_row sr_stream_id s new (es_snapshots st)
          else es_snapshots st)"
    using save_snapshot_result [OF ev_snapshot] by blast
  show ?thesis
  proof (cases "row_of sr_stream_id s (es_snapshots st)")
    case None
    then show ?thesis using new(3) old by (simp add: row_of_append)
  next
    case (Some q)
    have "s \<in> sr_stream_id ` set (es_snapshots st)" using row_of_Some [OF Some] by auto
    from row_of_replace [of sr_stream_id new s, OF new(1) this, of stream] show ?thesis
      using new(2,3) old Some by (cases "stream = s") auto
  qed
qed (use old in \<open>auto simp: delivers_def dest!: claim_delivers [OF inv] acknowledge_delivers [OF inv]
    reject_delivers [OF inv]\<close>)

text \<open>
  A saved snapshot never goes back: whatever the operations that follow, the snapshot kept for
  a stream has a sequence at least as large.
\<close>

theorem snapshot_never_rolls_back:
  assumes "reachable_events cf st" and "(event_step cf)\<^sup>*\<^sup>* st st'"
    and "row_of sr_stream_id stream (es_snapshots st) = Some r"
  shows "\<exists>r'. row_of sr_stream_id stream (es_snapshots st') = Some r' \<and> sr_sequence r \<le> sr_sequence r'"
  using assms(2)
proof (induction rule: rtranclp_induct)
  case base
  then show ?case using assms(3) by blast
next
  case (step a b)
  have "event_inv cf a" by (rule event_store.steps_inv [OF step(1) event_store.reach_inv [OF assms(1)]])
  with step.IH event_step_snapshots [OF _ step(2)] show ?case by (meson order.trans)
qed

text \<open>A run of the event store on which the promises of transactional delivery are checked.\<close>

section \<open>A run\<close>

definition sample_message :: outbox_message where
  "sample_message = \<lparr>om_destination = ''d'', om_payload = JObj [], om_headers = JObj [],
     om_message_id = ''m'', om_idempotency_key = ''m'', om_available_at = ''now'', om_created_at = ''now''\<rparr>"

definition sample_outbox :: outbox_row where
  "sample_outbox = \<lparr>or_position = 1, or_stored = \<lparr>so_message = sample_message,
     so_triggering_event_id = ''e1'', so_triggering_position = 1, so_status = OS_PENDING,
     so_attempt_count = 0, so_lease_token = None, so_lease_expires_at = None, so_last_error = None,
     so_published_at = None\<rparr>\<rparr>"

definition store_with :: "outbox_row \<Rightarrow> event_store" where
  "store_with r = no_events\<lparr>es_events := [sample_stored ''now'' None], es_outbox := [r]\<rparr>"

definition sample_leased :: outbox_row where
  "sample_leased = leased (lease_token_of ''w'' ''l'') ''now+'' sample_outbox"

lemma sample_tx:
  "append_tx sample_config (sample_event ''e1'' ''now'' None) None None []
     = Inr ((sample_stored ''now'' None, True), [sample_stored ''now'' None])"
  by (simp add: append_tx_def Let_def version_of_def insert_event_def last_position_def max_row_integer_def
      sample_stored_def)

lemma outbox_sample_snapshot: "snapshot_event sample_config (sample_event ''e1'' t k) = Inr (sample_event ''e1'' t k)"
  by (simp add: snapshot_event_def sample_event_def sample_json check_event_def blank_iff py_space_def)

lemma sample_decode: "decode_json sample_config (JObj []) = Inr (JObj [])"
  by (rule snapshot_decodes [OF sample_json])

lemma sample_times: "rfc3339 sample_config ''now''" "rfc3339 sample_config ''now+''"
  by (simp_all add: rfc3339_def sample_config_def sample_calendar_def)

lemma outbox_sample_names: "\<not> blank ''now''" "\<not> blank ''d''" "\<not> blank ''m''" "\<not> blank ''e1''" "\<not> blank ''l''"
    "\<not> blank ''w''" "\<not> blank ''s''" "\<not> blank ''c''"
  by (simp_all add: blank_iff py_space_def)

lemma sample_row_ok:
  "row_to_outbox sample_config sample_outbox = Inr (or_stored sample_outbox)"
  "row_to_outbox sample_config sample_leased = Inr (or_stored sample_leased)"
  by (simp_all add: row_to_outbox_def Let_def sample_leased_def sample_outbox_def sample_message_def leased_def
      sample_decode sample_times outbox_sample_names max_row_integer_def)

lemma sample_with_outbox:
  "append_with_outbox sample_config (sample_event ''e1'' ''now'' None) [sample_message] None no_events
     = Inr ((sample_stored ''now'' None, [or_stored sample_outbox]), store_with sample_outbox)"
proof -
  have m: "snapshot_message sample_config sample_message = Inr sample_message"
    by (simp add: snapshot_message_def check_message_def sample_message_def sample_json outbox_sample_names sample_times)
  have i: "insert_messages (sample_stored ''now'' None) [sample_message] [] = Inr [sample_outbox]"
    by (simp add: insert_outbox_def last_outbox_def max_row_integer_def sample_outbox_def sample_message_def
        sample_stored_def sample_event_def)
  have t: "triggered_by (sample_stored ''now'' None) [sample_outbox] = [sample_outbox]"
    by (simp add: triggered_by_def sample_outbox_def sample_stored_def)
  have tx: "append_tx sample_config (sample_event ''e1'' ''now'' None) None None (es_events no_events)
      = Inr ((sample_stored ''now'' None, True), [sample_stored ''now'' None])"
    using sample_tx by (simp add: no_events_def)
  have o: "es_outbox no_events = []" by (simp add: no_events_def)
  show ?thesis
    by (simp add: append_with_outbox_def outbox_sample_snapshot m check_option_def tx o i [simplified] t sample_row_ok
        store_with_def cong: bind_res_weak_cong)
qed

lemma sample_claim_outbox:
  "claim_outbox sample_config ''w'' 1 30 ''now'' [''l''] (store_with sample_outbox)
     = Inr ([or_stored sample_leased], store_with sample_leased)"
proof -
  have "open_ambiguity m (store_with r) = False" for m r
    by (simp add: open_ambiguity_def store_with_def no_events_def)
  then have "deliverable sample_config ''now'' (store_with sample_outbox) sample_outbox"
    by (simp add: deliverable_def sample_outbox_def sample_message_def julian_le_def sample_config_def
        sample_calendar_def)
  then have d: "deliverable_rows sample_config ''now'' (Suc 0) (store_with sample_outbox) = [sample_outbox]"
    by (simp add: deliverable_rows_def store_with_def)
  have n: "normalize_timestamp sample_config ''now'' = Inr ''now''"
    "cal_add (cf_calendar sample_config) ''now'' 30 = Some ''now+''"
    by (simp_all add: normalize_timestamp_def sample_config_def sample_calendar_def)
  have i: "row_id sample_outbox = ''m''" by (simp add: sample_outbox_def sample_message_def)
  have l: "row_of row_id ''m'' [sample_leased] = Some sample_leased"
    by (simp add: row_of_def sample_leased_def leased_def i)
  have "claim_rows sample_config ''w'' ''now+'' [''l''] [sample_outbox] [sample_outbox]
      = Inr ([or_stored sample_leased], [sample_leased])"
    using l by (simp add: i update_where_def outbox_sample_names sample_row_ok sample_leased_def [symmetric])
  moreover have "es_outbox (store_with sample_outbox) = [sample_outbox]"
    "store_with sample_outbox\<lparr>es_outbox := [sample_leased]\<rparr> = store_with sample_leased"
    by (simp_all add: store_with_def)
  ultimately show ?thesis
    by (simp add: claim_outbox_def outbox_sample_names max_row_integer_def n d del: claim_rows.simps)
qed

lemma sample_store_reach:
  "reachable_events sample_config no_events"
  "reachable_events sample_config (store_with sample_outbox)"
  "reachable_events sample_config (store_with sample_leased)"
proof -
  show a: "reachable_events sample_config no_events" by (rule reach_init) simp
  show b: "reachable_events sample_config (store_with sample_outbox)"
    by (rule reach_step [OF a ev_outbox [OF sample_with_outbox]])
  show "reachable_events sample_config (store_with sample_leased)"
    by (rule reach_step [OF b ev_claim [OF sample_claim_outbox]])
qed

lemma sample_leased_facts:
  "row_id sample_leased = ''m''" "so_status (or_stored sample_leased) = OS_IN_FLIGHT"
  "so_lease_token (or_stored sample_leased) = Some ''w:l''"
  "so_lease_expires_at (or_stored sample_leased) = Some ''now+''"
  "so_attempt_count (or_stored sample_leased) = 1"
  "es_outbox (store_with sample_leased) = [sample_leased]"
  "es_ambiguities (store_with sample_leased) = []"
  by (simp_all add: sample_leased_def leased_def sample_outbox_def sample_message_def lease_token_of_def
      store_with_def no_events_def)

lemma sample_now: "normalize_timestamp sample_config ''now'' = Inr ''now''" "julian_less sample_config ''now'' ''now+''"
  by (simp_all add: normalize_timestamp_def julian_less_def sample_config_def sample_calendar_def)

section \<open>Witnesses\<close>

lemma outbox_atomic_witness:
  "es_events (store_with sample_outbox) = es_events no_events @ [sample_stored ''now'' None]"
  using outbox_atomic [OF sample_store_reach(1) sample_with_outbox]
  by (auto simp: store_with_def no_events_def)

lemma live_lease_exclusive_witness:
  "\<exists>ss st'. claim_outbox sample_config ''v'' 1 30 ''now'' [] (store_with sample_leased) = Inr (ss, st')
     \<and> sample_leased \<in> set (es_outbox st')"
proof -
  have "\<not> deliverable sample_config ''now'' (store_with sample_leased) sample_leased"
    by (simp add: deliverable_def sample_leased_facts julian_le_def sample_config_def sample_calendar_def)
  then have "deliverable_rows sample_config ''now'' 1 (store_with sample_leased) = []"
    by (simp add: deliverable_rows_def sample_leased_facts)
  moreover have "cal_add (cf_calendar sample_config) ''now'' 30 = Some ''now+''"
    by (simp add: sample_config_def sample_calendar_def)
  ultimately have "claim_outbox sample_config ''v'' 1 30 ''now'' [] (store_with sample_leased)
      = Inr ([], store_with sample_leased)"
    by (simp add: claim_outbox_def blank_iff py_space_def max_row_integer_def sample_now store_with_def)
  from live_lease_exclusive [OF sample_store_reach(3) this _ sample_leased_facts(2) sample_now(1)
      sample_leased_facts(4) sample_now(2)] this
  show ?thesis by (auto simp: sample_leased_facts)
qed

lemma sample_ack: "acknowledge_outbox sample_config ''m'' ''w:l'' None ''now'' (store_with sample_leased)
    = Inr (True, store_with (published ''now'' sample_leased))"
proof -
  have "holds_lease sample_config ''m'' ''w:l'' ''now'' (store_with sample_leased) sample_leased"
    by (simp add: holds_lease_def sample_leased_facts sample_now open_ambiguity_def)
  then show ?thesis
    by (simp add: acknowledge_outbox_def sample_now sample_leased_facts update_where_def store_with_def)
qed

lemma acknowledged_once_witness:
  "delivery_closed sample_config ''m'' (store_with (published ''now'' sample_leased))"
  using acknowledged_once [OF sample_store_reach(3) sample_ack rtranclp.rtrancl_refl] by blast

definition sample_token_digest :: string where
  "sample_token_digest = replicate 64 (CHR ''a'')"

definition sample_doubt :: ambiguity where
  "sample_doubt = \<lparr>am_message_id = ''m'', am_lease_token_digest = sample_token_digest,
     am_reason_code = ''ack_failed'', am_attempt_count = 1, am_marked_at = ''now'',
     am_resolution = None, am_resolved_at = None\<rparr>"

lemma sample_mark: "mark_outbox_ambiguous sample_config ''m'' ''w:l'' ''ack_failed'' ''now'' (store_with sample_leased)
    = Inr (True, store_with sample_leased\<lparr>es_ambiguities := [sample_doubt]\<rparr>)"
proof -
  have d: "token_digest sample_config ''w:l'' = Inr sample_token_digest"
    unfolding sample_token_digest_def by (simp add: token_digest_def sample_config_def blank_iff py_space_def)
  have h: "hex_digest_text sample_token_digest"
    by (simp add: hex_digest_text_def sample_token_digest_def list_all_iff del: replicate.simps)
  have r: "row_of row_id ''m'' [sample_leased] = Some sample_leased"
    by (simp add: row_of_def sample_leased_facts)
  show ?thesis
    by (simp add: mark_outbox_ambiguous_def ambiguity_reasons_def d sample_now r sample_leased_facts
        max_row_integer_def insert_ambiguity_def open_ambiguity_def h sample_doubt_def)
qed

lemma doubt_blocks_delivery_witness:
  "delivery_closed sample_config ''m'' (store_with sample_leased\<lparr>es_ambiguities := [sample_doubt]\<rparr>)"
proof -
  let ?st = "store_with sample_leased\<lparr>es_ambiguities := [sample_doubt]\<rparr>"
  have reach: "reachable_events sample_config ?st"
    by (rule reach_step [OF sample_store_reach(3) ev_mark [OF sample_mark]])
  have "save_snapshot sample_config ''s'' 1 (JObj []) ''now'' ?st = Inr (?st\<lparr>es_snapshots :=
      [\<lparr>sr_stream_id = ''s'', sr_sequence = 1, sr_state = JObj [], sr_updated_at = ''now''\<rparr>]\<rparr>)"
    by (simp add: save_snapshot_def check_row_integer_def max_row_integer_def sample_json store_with_def
        no_events_def row_of_def)
  from doubt_blocks_delivery [OF reach _ _ sample_leased_facts(1) ev_snapshot [OF this]]
  show ?thesis by (simp add: open_ambiguity_def sample_doubt_def sample_leased_facts)
qed

lemma inbox_exactly_once_witness:
  "\<exists>receipt st. append_inbox sample_config ''c'' ''m'' (sample_event ''e1'' ''now'' None) (JObj []) ''now'' None no_events
       = Inr ((sample_stored ''now'' None, receipt, False), st)
     \<and> append_inbox sample_config ''c'' ''m'' (sample_event ''e1'' ''bad'' None) (JObj []) ''now'' None st
       = Inr ((sample_stored ''now'' None, receipt, True), st)"
proof -
  have tx: "append_tx sample_config (sample_event ''e1'' ''now'' None) None None (es_events no_events)
      = Inr ((sample_stored ''now'' None, True), [sample_stored ''now'' None])"
    using sample_tx by (simp add: no_events_def)
  have "receipt_of ''c'' ''m'' (es_inbox no_events) = None" by (simp add: receipt_of_def row_of_def no_events_def)
  then obtain receipt st where a: "append_inbox sample_config ''c'' ''m'' (sample_event ''e1'' ''now'' None)
      (JObj []) ''now'' None no_events = Inr ((sample_stored ''now'' None, receipt, False), st)"
    by (simp add: append_inbox_def outbox_sample_names outbox_sample_snapshot sample_json check_option_def tx Let_def
        cong: bind_res_weak_cong)
  have v: "check_option check_row_integer None = Inr None" by (simp add: check_option_def)
  let ?again = "append_inbox sample_config ''c'' ''m'' (sample_event ''e1'' ''bad'' None) (JObj []) ''now'' None st"
  have "?again = Inr ((sample_stored ''now'' None, receipt, True), st)"
    using inbox_exactly_once [OF sample_store_reach(1) a rtranclp.rtrancl_refl,
        where ?e2.0 = "sample_event ''e1'' ''bad'' None" and ?result2.0 = "JObj []" and ?t2.0 = "''now''" and ?v2.0 = None]
      sample_readable(1) outbox_sample_names(1) sample_times(1) outbox_sample_snapshot sample_json v
    by (cases ?again) auto
  with a show ?thesis by blast
qed

definition sample_snapshots :: event_store where
  "sample_snapshots = no_events\<lparr>es_snapshots :=
     [\<lparr>sr_stream_id = ''s'', sr_sequence = 1, sr_state = JObj [], sr_updated_at = ''now''\<rparr>]\<rparr>"

lemma sample_save: "save_snapshot sample_config ''s'' 1 (JObj []) ''now'' no_events = Inr sample_snapshots"
  by (simp add: save_snapshot_def check_row_integer_def max_row_integer_def sample_json no_events_def row_of_def
      sample_snapshots_def)

lemma sample_snapshot_row: "row_of sr_stream_id ''s'' (es_snapshots sample_snapshots)
    = Some \<lparr>sr_stream_id = ''s'', sr_sequence = 1, sr_state = JObj [], sr_updated_at = ''now''\<rparr>"
  by (simp add: row_of_def sample_snapshots_def)

lemma snapshot_never_rolls_back_witness:
  "\<exists>r. row_of sr_stream_id ''s'' (es_snapshots sample_snapshots) = Some r \<and> 1 \<le> sr_sequence r"
  using snapshot_never_rolls_back [OF reach_step [OF sample_store_reach(1) ev_snapshot [OF sample_save]]
      rtranclp.rtrancl_refl sample_snapshot_row] by simp

end
