(* ===== verification/Projection_Schema.thy ===== *)
theory Projection_Schema
  imports Event_Log
begin

text \<open>
  The schema registry of \<open>projections.py\<close>: event types with their current version, a decoder each
  and one upcaster per version step, the seal that checks the chains, and the normalisation of a
  stored event before a projection sees it.

  A decoder or an upcaster is caller code: a function from the payload that it gets to the value
  it returns, or to the text of the exception it raises. Values are JSON documents, so a payload
  never has a cycle; the read-only copies of the source are the value itself.
\<close>

datatype projection_error = PjValue string | PjIntegrity string | PjSource string | PjLeaseConflict
  | PjLeaseLost | PjOffsetConflict string | PjReceiptConflict string | PjOffset string
  | PjRaised string | PjLog event_error
  | EsUnknownType string | EsInvalidVersion | EsInvalidPayload | EsFuture int | EsMissingUpcaster string int
  | EsInvalidUpcast int | EsInvalidDecoder | EsDecoder string | EsSealed | EsUnsealed

type_synonym schema_code = "json \<Rightarrow> string + json"

record registry =
  rg_versions :: "(string, int) dict"
  rg_decoders :: "(string, schema_code) dict"
  rg_upcasters :: "(string \<times> int, schema_code) dict"
  rg_sealed :: bool

definition new_registry :: registry where
  "new_registry = \<lparr>rg_versions = [], rg_decoders = [], rg_upcasters = [], rg_sealed = False\<rparr>"

section \<open>Registration\<close>

definition register_event_type ::
  "string \<Rightarrow> int \<Rightarrow> schema_code \<Rightarrow> registry \<Rightarrow> projection_error + registry" where
  "register_event_type t version decoder r =
     (if rg_sealed r then Inl EsSealed
      else if blank t then Inl (PjValue ''event_type is required'')
      else if version < 1 then Inl (PjValue ''current_version must be a positive integer'')
      else if map_of (rg_versions r) t \<noteq> None then Inl (PjValue ''event type is already registered'')
      else Inr (r\<lparr>rg_versions := dict_set t version (rg_versions r),
                  rg_decoders := dict_set t decoder (rg_decoders r)\<rparr>))"

definition register_upcaster ::
  "string \<Rightarrow> int \<Rightarrow> schema_code \<Rightarrow> registry \<Rightarrow> projection_error + registry" where
  "register_upcaster t from_version upcaster r =
     (if rg_sealed r then Inl EsSealed
      else if blank t then Inl (PjValue ''event_type is required'')
      else if from_version < 1 then Inl (PjValue ''from_version must be a positive integer'')
      else case map_of (rg_versions r) t of
        None \<Rightarrow> Inl (EsUnknownType t)
      | Some current \<Rightarrow>
          if from_version \<ge> current
            then Inl (PjValue ''from_version must be lower than the current version'')
          else if map_of (rg_upcasters r) (t, from_version) \<noteq> None
            then Inl (PjValue ''upcaster is already registered'')
          else Inr (r\<lparr>rg_upcasters := dict_set (t, from_version) upcaster (rg_upcasters r)\<rparr>))"

text \<open>\<open>seal\<close> visits the types and, for each, the versions below the current one.\<close>

definition missing_upcasters :: "registry \<Rightarrow> (string \<times> int) list" where
  "missing_upcasters r = filter (\<lambda>k. map_of (rg_upcasters r) k = None)
     (concat (map (\<lambda>(t, current). map (\<lambda>v. (t, v)) [1..current - 1]) (rg_versions r)))"

definition seal :: "registry \<Rightarrow> projection_error + registry" where
  "seal r =
     (if rg_sealed r then Inr r
      else case missing_upcasters r of
        (t, v) # _ \<Rightarrow> Inl (EsMissingUpcaster t v)
      | [] \<Rightarrow> Inr (r\<lparr>rg_sealed := True\<rparr>))"

definition require_sealed :: "registry \<Rightarrow> projection_error + unit" where
  "require_sealed r = require (rg_sealed r) EsUnsealed"

section \<open>Payloads\<close>

text \<open>The traversal of \<open>_copy_payload_value\<close>: the depth, and the number of values seen so far.\<close>

fun copy_payload :: "nat \<Rightarrow> nat \<Rightarrow> json \<Rightarrow> unit + nat"
  and copy_payload_items :: "nat \<Rightarrow> nat \<Rightarrow> json list \<Rightarrow> unit + nat" where
  "copy_payload depth nodes v =
     (if depth > 64 then Inl ()
      else if nodes + 1 > 10000 then Inl ()
      else (case v of
          JObj d \<Rightarrow> copy_payload_items (depth + 1) (nodes + 1) (map snd d)
        | JArr xs \<Rightarrow> copy_payload_items (depth + 1) (nodes + 1) xs
        | _ \<Rightarrow> Inr (nodes + 1)))"
| "copy_payload_items depth nodes [] = Inr nodes"
| "copy_payload_items depth nodes (x # xs) =
     bind_res (copy_payload depth nodes x) (\<lambda>n. copy_payload_items depth n xs)"

declare copy_payload.simps [simp del]

text \<open>\<open>_copy_payload_mapping\<close>: the copy is the value, when it is a mapping within the bounds.\<close>

definition payload_mapping :: "json \<Rightarrow> (string, json) dict option" where
  "payload_mapping v = (case copy_payload 0 0 v of Inl _ \<Rightarrow> None
     | Inr _ \<Rightarrow> (case v of JObj d \<Rightarrow> Some d | _ \<Rightarrow> None))"

definition schema_version_field :: string where
  "schema_version_field = ''_schemaVersion''"

definition extract_payload :: "json \<Rightarrow> projection_error + (string, json) dict \<times> int" where
  "extract_payload p = (case payload_mapping p of
     None \<Rightarrow> Inl EsInvalidPayload
   | Some d \<Rightarrow> (let rest = filter (\<lambda>(k, v). k \<noteq> schema_version_field) d in
       case map_of d schema_version_field of
         None \<Rightarrow> Inr (rest, 1)
       | Some (JInt n) \<Rightarrow> if n < 1 then Inl EsInvalidVersion else Inr (rest, n)
       | Some v \<Rightarrow> Inl EsInvalidVersion))"

section \<open>Upcasting\<close>

text \<open>The loop of \<open>upcast\<close>, one version at a time.\<close>

function upcast_from ::
  "registry \<Rightarrow> string \<Rightarrow> int \<Rightarrow> int \<Rightarrow> (string, json) dict \<Rightarrow> projection_error + (string, json) dict"
where
  "upcast_from r t current version payload =
     (if current \<le> version then Inr payload
      else case map_of (rg_upcasters r) (t, version) of
        None \<Rightarrow> Inl (EsMissingUpcaster t version)
      | Some upcaster \<Rightarrow>
          (case payload_mapping (JObj payload) of
            None \<Rightarrow> Inl EsInvalidPayload
          | Some given \<Rightarrow>
              (case upcaster (JObj given) of
                Inl x \<Rightarrow> Inl (PjRaised x)
              | Inr candidate \<Rightarrow>
                  (case payload_mapping candidate of
                    None \<Rightarrow> Inl (EsInvalidUpcast version)
                  | Some d \<Rightarrow>
                      if schema_version_field \<in> set (dict_keys d) then Inl (EsInvalidUpcast version)
                      else upcast_from r t current (version + 1) d))))"
  by pat_completeness auto
termination
  by (relation "measure (\<lambda>(r, t, current, version, payload). nat (current - version))") auto

declare upcast_from.simps [simp del]

definition decode_current ::
  "schema_code \<Rightarrow> (string, json) dict \<Rightarrow> projection_error + (string, json) dict" where
  "decode_current decoder payload = (case payload_mapping (JObj payload) of
     None \<Rightarrow> Inl EsInvalidPayload
   | Some given \<Rightarrow>
       (case decoder (JObj given) of
         Inl x \<Rightarrow> Inl (EsDecoder x)
       | Inr candidate \<Rightarrow>
           (case payload_mapping candidate of
             None \<Rightarrow> Inl EsInvalidDecoder
           | Some d \<Rightarrow>
               if schema_version_field \<in> set (dict_keys d) then Inl EsInvalidDecoder else Inr d)))"

record upcasted_event =
  up_stored :: stored_event
  up_payload :: "(string, json) dict"
  up_source_version :: int
  up_version :: int

definition upcast :: "registry \<Rightarrow> stored_event \<Rightarrow> projection_error + upcasted_event" where
  "upcast r s = (let t = ev_event_type (se_event s) in
     bind_res (require_sealed r) (\<lambda>_.
       case map_of (rg_versions r) t of
         None \<Rightarrow> Inl (EsUnknownType t)
       | Some current \<Rightarrow>
           (case map_of (rg_decoders r) t of
             None \<Rightarrow> Inl (PjRaised ''KeyError'')
           | Some decoder \<Rightarrow>
               bind_res (extract_payload (ev_payload (se_event s))) (\<lambda>(payload, source).
                 if source > current then Inl (EsFuture source)
                 else bind_res (upcast_from r t current source payload) (\<lambda>latest.
                      bind_res (decode_current decoder latest) (\<lambda>decoded.
                        Inr \<lparr>up_stored = s, up_payload = decoded, up_source_version = source,
                             up_version = current\<rparr>))))))"

end
