(* ===== verification/Projection_Store.thy ===== *)
theory Projection_Store
  imports Projection_Schema
begin

text \<open>
  \<open>SQLiteProjectionOffsetStore\<close> of \<open>projections.py\<close>: one row per projection with its checkpoint
  and its leased, epoch-fenced owner, one receipt per applied event, and the tables of the read
  model, of which the store knows nothing (\<open>pd_model\<close>). Each operation is the body of one
  \<open>BEGIN IMMEDIATE\<close> transaction: an error rolls back, so it carries no new state.

  The store's clock is the text it would return (the argument \<open>clock\<close>). What \<open>datetime\<close> makes of
  a text is the record \<open>codec\<close>: the instant of a text with a time zone (\<open>None\<close> where
  \<open>fromisoformat\<close> raises or the zone is missing), the canonical UTC text of an instant, the last
  instant of \<open>datetime\<close>, and the microseconds of a \<open>timedelta\<close>.
\<close>

record codec =
  pc_parse :: "string \<Rightarrow> int option"
  pc_text :: "int \<Rightarrow> string"
  pc_last :: int
  pc_micros :: "rat \<Rightarrow> int"

section \<open>Rows\<close>

record offset_row =
  ow_projection :: string
  ow_last :: int
  ow_owner :: string
  ow_epoch :: int
  ow_deadline :: string
  ow_updated :: string

record projection_receipt =
  pr_projection :: string
  pr_event_id :: string
  pr_position :: int
  pr_applied :: string

record 'm projection_db =
  pd_offsets :: "offset_row list"
  pd_receipts :: "projection_receipt list"
  pd_model :: 'm

record projection_lease =
  pl_projection :: string
  pl_owner :: string
  pl_epoch :: int
  pl_deadline :: string

record projection_offset =
  po_projection :: string
  po_last :: int
  po_owner :: "string option"
  po_epoch :: int
  po_deadline :: "string option"
  po_updated :: "string option"

section \<open>Checks\<close>

definition valid_name :: "string \<Rightarrow> bool" where
  "valid_name s = (s \<noteq> [] \<and> py_strip s = s \<and> length s \<le> 255)"

definition check_name :: "string \<Rightarrow> projection_error + unit" where
  "check_name s = require (valid_name s) (PjValue ''must be non-empty text without edge whitespace'')"

definition check_position :: "int \<Rightarrow> projection_error + unit" where
  "check_position n = require (0 \<le> n \<and> n \<le> max_row_integer) (PjValue ''must be a non-negative 64-bit integer'')"

definition check_seconds :: "rat \<Rightarrow> projection_error + unit" where
  "check_seconds s = require (0 < s \<and> s \<le> 86400) (PjValue ''lease_seconds'')"

definition normalize_instant :: "codec \<Rightarrow> string \<Rightarrow> projection_error + string" where
  "normalize_instant c t = (case pc_parse c t of
     None \<Rightarrow> Inl (PjValue ''must be an RFC 3339 timestamp'') | Some i \<Rightarrow> Inr (pc_text c i))"

definition check_projection_lease :: "codec \<Rightarrow> projection_lease \<Rightarrow> projection_error + unit" where
  "check_projection_lease c l =
     bind_res (check_name (pl_projection l)) (\<lambda>_.
     bind_res (check_name (pl_owner l)) (\<lambda>_.
       if \<not> (1 \<le> pl_epoch l \<and> pl_epoch l \<le> max_row_integer)
         then Inl (PjValue ''lease owner_epoch must be a positive 64-bit integer'')
       else bind_res (normalize_instant c (pl_deadline l)) (\<lambda>t.
         require (t = pl_deadline l) (PjValue ''lease lease_expires_at must be canonical UTC''))))"

text \<open>\<open>_lease_deadline\<close>: a positive duration below the resolution counts as one microsecond.\<close>

definition projection_deadline :: "codec \<Rightarrow> string \<Rightarrow> rat \<Rightarrow> projection_error + string" where
  "projection_deadline c now seconds =
     bind_res (check_seconds seconds) (\<lambda>_.
       case pc_parse c now of
         None \<Rightarrow> Inl (PjRaised ''ValueError'')
       | Some i \<Rightarrow>
           (let deadline = i + (if pc_micros c seconds \<le> 0 then 1 else pc_micros c seconds) in
            if deadline > pc_last c
              then Inl (PjValue ''lease deadline exceeds the supported datetime range'')
            else Inr (pc_text c deadline)))"

definition is_after :: "codec \<Rightarrow> string \<Rightarrow> string \<Rightarrow> bool" where
  "is_after c left right = (case (pc_parse c left, pc_parse c right) of
     (Some a, Some b) \<Rightarrow> a > b | _ \<Rightarrow> False)"

section \<open>Persisted rows\<close>

definition persisted_name :: "string \<Rightarrow> projection_error + unit" where
  "persisted_name s = require (valid_name s) (PjIntegrity ''persisted identifier'')"

definition persisted_integer :: "int \<Rightarrow> int \<Rightarrow> projection_error + unit" where
  "persisted_integer least n = require (least \<le> n \<and> n \<le> max_row_integer) (PjIntegrity ''persisted integer'')"

definition persisted_time :: "codec \<Rightarrow> string \<Rightarrow> projection_error + unit" where
  "persisted_time c t = require (t \<noteq> [] \<and> py_strip t = t \<and> length t \<le> 32 \<and> normalize_instant c t = Inr t)
     (PjIntegrity ''persisted timestamp must be a canonical UTC timestamp'')"

definition row_to_offset :: "codec \<Rightarrow> offset_row \<Rightarrow> projection_error + projection_offset" where
  "row_to_offset c r =
     bind_res (persisted_name (ow_projection r)) (\<lambda>_.
     bind_res (persisted_integer 0 (ow_last r)) (\<lambda>_.
     bind_res (persisted_name (ow_owner r)) (\<lambda>_.
     bind_res (persisted_integer 1 (ow_epoch r)) (\<lambda>_.
     bind_res (persisted_time c (ow_deadline r)) (\<lambda>_.
     bind_res (persisted_time c (ow_updated r)) (\<lambda>_.
       Inr \<lparr>po_projection = ow_projection r, po_last = ow_last r, po_owner = Some (ow_owner r),
            po_epoch = ow_epoch r, po_deadline = Some (ow_deadline r),
            po_updated = Some (ow_updated r)\<rparr>))))))"

definition row_to_receipt :: "codec \<Rightarrow> projection_receipt \<Rightarrow> projection_error + projection_receipt" where
  "row_to_receipt c r =
     bind_res (persisted_name (pr_projection r)) (\<lambda>_.
     bind_res (persisted_name (pr_event_id r)) (\<lambda>_.
     bind_res (persisted_integer 1 (pr_position r)) (\<lambda>_.
     bind_res (persisted_time c (pr_applied r)) (\<lambda>_. Inr r))))"

definition offset_for :: "codec \<Rightarrow> string \<Rightarrow> offset_row \<Rightarrow> projection_error + projection_offset" where
  "offset_for c name r =
     bind_res (row_to_offset c r) (\<lambda>off.
       if po_projection off \<noteq> name
         then Inl (PjIntegrity ''persisted projection offset identity contradicts its lookup'')
       else Inr off)"

section \<open>Operations\<close>

definition load_offset :: "codec \<Rightarrow> string \<Rightarrow> 'm projection_db \<Rightarrow> projection_error + projection_offset" where
  "load_offset c name st =
     bind_res (check_name name) (\<lambda>_.
       case row_of ow_projection name (pd_offsets st) of
         None \<Rightarrow> Inr \<lparr>po_projection = name, po_last = 0, po_owner = None, po_epoch = 0,
                     po_deadline = None, po_updated = None\<rparr>
       | Some r \<Rightarrow> offset_for c name r)"

definition claim_projection ::
  "codec \<Rightarrow> string \<Rightarrow> string \<Rightarrow> rat \<Rightarrow> string \<Rightarrow> 'm projection_db
   \<Rightarrow> projection_error + projection_lease \<times> 'm projection_db" where
  "claim_projection c name owner seconds clock st =
     bind_res (check_name name) (\<lambda>_.
     bind_res (check_name owner) (\<lambda>_.
     bind_res (check_seconds seconds) (\<lambda>_.
     bind_res (normalize_instant c clock) (\<lambda>now.
     bind_res (projection_deadline c now seconds) (\<lambda>deadline.
       case row_of ow_projection name (pd_offsets st) of
         None \<Rightarrow> Inr (\<lparr>pl_projection = name, pl_owner = owner, pl_epoch = 1, pl_deadline = deadline\<rparr>,
             st\<lparr>pd_offsets := pd_offsets st @ [\<lparr>ow_projection = name, ow_last = 0, ow_owner = owner,
               ow_epoch = 1, ow_deadline = deadline, ow_updated = now\<rparr>]\<rparr>)
       | Some r \<Rightarrow> bind_res (offset_for c name r) (\<lambda>off.
           case (po_owner off, po_deadline off) of
             (Some holder, Some held) \<Rightarrow>
               if is_after c held now \<and> holder \<noteq> owner then Inl PjLeaseConflict
               else if po_epoch off \<ge> max_row_integer
                 then Inl (PjOffset ''projection owner epoch is exhausted'')
               else Inr (\<lparr>pl_projection = name, pl_owner = owner, pl_epoch = po_epoch off + 1,
                   pl_deadline = deadline\<rparr>,
                 st\<lparr>pd_offsets := snd (update_where (\<lambda>r. ow_projection r = name)
                   (\<lambda>r. r\<lparr>ow_owner := owner, ow_epoch := po_epoch off + 1, ow_deadline := deadline,
                        ow_updated := now\<rparr>) (pd_offsets st))\<rparr>)
           | _ \<Rightarrow> Inl (PjIntegrity ''persisted projection lease metadata is incomplete'')))))))"

text \<open>The check that a lease is the live one, and the \<open>WHERE\<close> of the owner's updates.\<close>

definition live_lease :: "codec \<Rightarrow> projection_lease \<Rightarrow> string \<Rightarrow> projection_offset \<Rightarrow> bool" where
  "live_lease c l now off = (po_owner off = Some (pl_owner l) \<and> po_epoch off = pl_epoch l
     \<and> (case po_deadline off of None \<Rightarrow> False | Some held \<Rightarrow> is_after c held now))"

definition owned_offset ::
  "codec \<Rightarrow> projection_lease \<Rightarrow> string \<Rightarrow> 'm projection_db \<Rightarrow> projection_error + projection_offset" where
  "owned_offset c l now st = (case row_of ow_projection (pl_projection l) (pd_offsets st) of
     None \<Rightarrow> Inl PjLeaseLost
   | Some r \<Rightarrow> bind_res (offset_for c (pl_projection l) r) (\<lambda>off.
       if live_lease c l now off then Inr off else Inl PjLeaseLost))"

definition lease_row :: "projection_lease \<Rightarrow> offset_row \<Rightarrow> bool" where
  "lease_row l r = (ow_projection r = pl_projection l \<and> ow_owner r = pl_owner l \<and> ow_epoch r = pl_epoch l)"

definition set_deadline ::
  "projection_lease \<Rightarrow> projection_offset \<Rightarrow> string \<Rightarrow> string \<Rightarrow> 'm projection_db
   \<Rightarrow> projection_error + 'm projection_db" where
  "set_deadline l off deadline now st =
     (let (n, rows) = update_where (\<lambda>r. lease_row l r \<and> Some (ow_deadline r) = po_deadline off)
            (\<lambda>r. r\<lparr>ow_deadline := deadline, ow_updated := now\<rparr>) (pd_offsets st) in
      if n \<noteq> 1 then Inl PjLeaseLost else Inr (st\<lparr>pd_offsets := rows\<rparr>))"

definition renew_projection ::
  "codec \<Rightarrow> projection_lease \<Rightarrow> rat \<Rightarrow> string \<Rightarrow> 'm projection_db
   \<Rightarrow> projection_error + projection_lease \<times> 'm projection_db" where
  "renew_projection c l seconds clock st =
     bind_res (check_seconds seconds) (\<lambda>_.
     bind_res (check_projection_lease c l) (\<lambda>_.
     bind_res (normalize_instant c clock) (\<lambda>now.
     bind_res (projection_deadline c now seconds) (\<lambda>deadline.
     bind_res (owned_offset c l now st) (\<lambda>off.
     bind_res (set_deadline l off deadline now st) (\<lambda>st'.
       Inr (l\<lparr>pl_deadline := deadline\<rparr>, st')))))))"

definition release_projection ::
  "codec \<Rightarrow> projection_lease \<Rightarrow> string \<Rightarrow> 'm projection_db \<Rightarrow> projection_error + 'm projection_db" where
  "release_projection c l clock st =
     bind_res (check_projection_lease c l) (\<lambda>_.
     bind_res (normalize_instant c clock) (\<lambda>now.
     bind_res (owned_offset c l now st) (\<lambda>off. set_deadline l off now now st)))"

text \<open>The checkpoint update of \<open>advance\<close> and \<open>apply_event\<close>, with its row count.\<close>

definition move_offset ::
  "projection_lease \<Rightarrow> int \<Rightarrow> int \<Rightarrow> string \<Rightarrow> offset_row list \<Rightarrow> nat \<times> offset_row list" where
  "move_offset l expected new now rows =
     update_where (\<lambda>r. lease_row l r \<and> ow_last r = expected)
       (\<lambda>r. r\<lparr>ow_last := new, ow_updated := now\<rparr>) rows"

definition reread ::
  "codec \<Rightarrow> string \<Rightarrow> offset_row list \<Rightarrow> projection_error + projection_offset" where
  "reread c name rows = (case row_of ow_projection name rows of
     None \<Rightarrow> Inl (PjOffset ''projection offset disappeared'') | Some r \<Rightarrow> offset_for c name r)"

definition advance_projection ::
  "codec \<Rightarrow> projection_lease \<Rightarrow> int \<Rightarrow> int \<Rightarrow> string \<Rightarrow> 'm projection_db
   \<Rightarrow> projection_error + projection_offset \<times> 'm projection_db" where
  "advance_projection c l expected new clock st =
     bind_res (check_projection_lease c l) (\<lambda>_.
     bind_res (check_position expected) (\<lambda>_.
     bind_res (check_position new) (\<lambda>_.
       if new \<le> expected then Inl (PjValue ''new_position must be greater than expected_position'')
       else bind_res (normalize_instant c clock) (\<lambda>now.
            bind_res (owned_offset c l now st) (\<lambda>off.
              if po_last off \<noteq> expected
                then Inl (PjOffsetConflict ''compare-and-swap conflict'')
              else let rows = snd (move_offset l expected new now (pd_offsets st)) in
                bind_res (reread c (pl_projection l) rows) (\<lambda>off'. Inr (off', st\<lparr>pd_offsets := rows\<rparr>)))))))"

section \<open>Applying an event\<close>

text \<open>
  The handler gets the read model and the normalised event, and returns the new read model or
  raises. It runs inside the transaction, so it cannot touch the two tables of the store.
\<close>

type_synonym 'm handler = "'m \<Rightarrow> upcasted_event \<Rightarrow> string + 'm"

definition find_receipt :: "string \<Rightarrow> string \<Rightarrow> projection_receipt list \<Rightarrow> projection_receipt option" where
  "find_receipt name event_id rows = row_of (\<lambda>r. (pr_projection r, pr_event_id r)) (name, event_id) rows"

definition insert_receipt ::
  "projection_receipt \<Rightarrow> projection_receipt list \<Rightarrow> projection_error + projection_receipt list" where
  "insert_receipt r rows =
     (if list_ex (\<lambda>x. pr_projection x = pr_projection r
           \<and> (pr_event_id x = pr_event_id r \<or> pr_position x = pr_position r)) rows
        then Inl (PjReceiptConflict ''event id or global position has a conflicting receipt'')
      else Inr (rows @ [r]))"

definition apply_fresh ::
  "codec \<Rightarrow> projection_lease \<Rightarrow> int \<Rightarrow> upcasted_event \<Rightarrow> 'm handler \<Rightarrow> string \<Rightarrow> 'm projection_db
   \<Rightarrow> projection_error + (bool \<times> projection_offset) \<times> 'm projection_db" where
  "apply_fresh c l expected e handler now st =
     (let position = se_global_position (up_stored e);
          event_id = ev_event_id (se_event (up_stored e)) in
      case handler (pd_model st) e of
        Inl x \<Rightarrow> Inl (PjRaised x)
      | Inr model \<Rightarrow>
          bind_res (insert_receipt \<lparr>pr_projection = pl_projection l, pr_event_id = event_id,
              pr_position = position, pr_applied = now\<rparr> (pd_receipts st)) (\<lambda>receipts.
            let (n, rows) = move_offset l expected position now (pd_offsets st) in
            if n \<noteq> 1 then Inl (PjOffsetConflict ''compare-and-swap conflict'')
            else bind_res (reread c (pl_projection l) rows) (\<lambda>off'.
              Inr ((True, off'), \<lparr>pd_offsets = rows, pd_receipts = receipts, pd_model = model\<rparr>))))"

definition apply_event ::
  "codec \<Rightarrow> projection_lease \<Rightarrow> int \<Rightarrow> upcasted_event \<Rightarrow> 'm handler \<Rightarrow> string \<Rightarrow> 'm projection_db
   \<Rightarrow> projection_error + (bool \<times> projection_offset) \<times> 'm projection_db" where
  "apply_event c l expected e handler clock st =
     (let position = se_global_position (up_stored e);
          event_id = ev_event_id (se_event (up_stored e)) in
      bind_res (check_projection_lease c l) (\<lambda>_.
      bind_res (check_position expected) (\<lambda>_.
        if \<not> (1 \<le> position \<and> position \<le> max_row_integer)
          then Inl (PjValue ''event global_position must be a positive 64-bit integer'')
        else bind_res (check_name event_id) (\<lambda>_.
             bind_res (normalize_instant c clock) (\<lambda>now.
             bind_res (owned_offset c l now st) (\<lambda>off.
               case find_receipt (pl_projection l) event_id (pd_receipts st) of
                 Some r \<Rightarrow> bind_res (row_to_receipt c r) (\<lambda>x.
                   if pr_projection x \<noteq> pl_projection l \<or> pr_event_id x \<noteq> event_id
                     then Inl (PjIntegrity ''persisted projection receipt identity'')
                   else if pr_position x \<noteq> position \<or> po_last off < position
                     then Inl (PjReceiptConflict ''receipt contradicts the event log or checkpoint'')
                   else Inr ((False, off), st))
               | None \<Rightarrow>
                   if po_last off \<noteq> expected
                     then Inl (PjOffsetConflict ''compare-and-swap conflict'')
                   else if position \<le> expected
                     then Inl (PjOffsetConflict ''unreceipted event does not advance the offset'')
                   else apply_fresh c l expected e handler now st))))))"

end
