(* ===== verification/Projector.thy ===== *)
theory Projector
  imports Projection_Store
begin

text \<open>
  \<open>DurableProjector\<close> of \<open>projections.py\<close>: one bounded run claims the projection, reads a batch
  after the checkpoint, renews and applies event by event, and releases.

  A run is a sequence of transactions on a store that others use too. What they commit before the
  \<open>k\<close>-th transaction of the run is \<open>world k\<close>, the clock the store reads in it is \<open>tick k\<close>; with the
  identity for \<open>world\<close> the worker is alone.
\<close>

record 'm projector =
  pj_name :: string
  pj_owner :: string
  pj_source :: "int \<Rightarrow> int \<Rightarrow> projection_error + stored_event list"
  pj_registry :: registry
  pj_handler :: "'m handler"
  pj_seconds :: rat

record run_result =
  rr_scanned :: nat
  rr_applied :: nat
  rr_deduplicated :: nat
  rr_last :: int

definition new_projector :: "'m projector \<Rightarrow> projection_error + 'm projector" where
  "new_projector p =
     bind_res (check_seconds (pj_seconds p)) (\<lambda>_.
     bind_res (check_name (pj_name p)) (\<lambda>_.
     bind_res (check_name (pj_owner p)) (\<lambda>_.
     bind_res (require_sealed (pj_registry p)) (\<lambda>_. Inr p))))"

fun contiguous :: "int \<Rightarrow> stored_event list \<Rightarrow> bool" where
  "contiguous expected [] = True"
| "contiguous expected (e # es) =
     (1 \<le> se_global_position e \<and> se_global_position e \<le> max_row_integer
      \<and> se_global_position e = expected \<and> contiguous (expected + 1) es)"

definition check_batch :: "int \<Rightarrow> int \<Rightarrow> stored_event list \<Rightarrow> projection_error + stored_event list" where
  "check_batch after limit es =
     (if int (length es) > limit then Inl (PjSource ''event source batch exceeds the requested limit'')
      else if \<not> contiguous (after + 1) es
        then Inl (PjSource ''event source item is not globally contiguous'')
      else Inr es)"

text \<open>
  The loop of \<open>run_once\<close>: the outcome so far, the lease to release, the number of transactions
  that ran, and the store.
\<close>

fun project_events ::
  "codec \<Rightarrow> 'm projector \<Rightarrow> (nat \<Rightarrow> string) \<Rightarrow> (nat \<Rightarrow> 'm projection_db \<Rightarrow> 'm projection_db)
   \<Rightarrow> stored_event list \<Rightarrow> projection_lease \<Rightarrow> run_result \<Rightarrow> nat \<Rightarrow> 'm projection_db
   \<Rightarrow> (projection_error + run_result) \<times> projection_lease \<times> nat \<times> 'm projection_db" where
  "project_events c p tick world [] l done k st = (Inr done, l, k, st)"
| "project_events c p tick world (e # es) l done k st =
     (let st1 = world k st in
      case renew_projection c l (pj_seconds p) (tick k) st1 of
        Inl x \<Rightarrow> (Inl x, l, Suc k, st1)
      | Inr (l', st2) \<Rightarrow>
          (case upcast (pj_registry p) e of
             Inl x \<Rightarrow> (Inl x, l', Suc k, st2)
           | Inr u \<Rightarrow>
               (let st3 = world (Suc k) st2 in
                case apply_event c l' (rr_last done) u (pj_handler p) (tick (Suc k)) st3 of
                  Inl x \<Rightarrow> (Inl x, l', Suc (Suc k), st3)
                | Inr ((applied, off), st4) \<Rightarrow>
                    project_events c p tick world es l'
                      \<lparr>rr_scanned = rr_scanned done + 1,
                       rr_applied = rr_applied done + (if applied then 1 else 0),
                       rr_deduplicated = rr_deduplicated done + (if applied then 0 else 1),
                       rr_last = po_last off\<rparr>
                      (Suc (Suc k)) st4)))"

text \<open>The body of the \<open>try\<close>: the checkpoint, the batch and the loop.\<close>

definition project_batch ::
  "codec \<Rightarrow> 'm projector \<Rightarrow> (nat \<Rightarrow> string) \<Rightarrow> (nat \<Rightarrow> 'm projection_db \<Rightarrow> 'm projection_db)
   \<Rightarrow> int \<Rightarrow> projection_lease \<Rightarrow> 'm projection_db
   \<Rightarrow> (projection_error + run_result) \<times> projection_lease \<times> nat \<times> 'm projection_db" where
  "project_batch c p tick world limit l st =
     (let st1 = world 1 st in
      case bind_res (load_offset c (pj_name p) st1) (\<lambda>off.
             bind_res (pj_source p (po_last off) limit) (\<lambda>es.
             bind_res (check_batch (po_last off) limit es) (\<lambda>batch. Inr (po_last off, batch)))) of
        Inl x \<Rightarrow> (Inl x, l, 2, st1)
      | Inr (start, batch) \<Rightarrow> project_events c p tick world batch l
          \<lparr>rr_scanned = 0, rr_applied = 0, rr_deduplicated = 0, rr_last = start\<rparr> 2 st1)"

definition run_once ::
  "codec \<Rightarrow> 'm projector \<Rightarrow> (nat \<Rightarrow> string) \<Rightarrow> (nat \<Rightarrow> 'm projection_db \<Rightarrow> 'm projection_db)
   \<Rightarrow> int \<Rightarrow> 'm projection_db \<Rightarrow> (projection_error + run_result) \<times> 'm projection_db" where
  "run_once c p tick world limit st =
     (if \<not> (1 \<le> limit \<and> limit \<le> 1000) then (Inl (PjValue ''limit must be between 1 and 1000''), st)
      else let st0 = world 0 st in
        case claim_projection c (pj_name p) (pj_owner p) (pj_seconds p) (tick 0) st0 of
          Inl x \<Rightarrow> (Inl x, st0)
        | Inr (l, st1) \<Rightarrow>
            (let (result, l', k, st2) = project_batch c p tick world limit l st1; st3 = world k st2 in
             case release_projection c l' (tick k) st3 of
               Inr st4 \<Rightarrow> (result, st4)
             | Inl PjLeaseLost \<Rightarrow> (result, st3)
             | Inl x \<Rightarrow> ((case result of Inl y \<Rightarrow> Inl y | Inr _ \<Rightarrow> Inl x), st3)))"

end
