(* ===== verification/Projection_Run.thy ===== *)
theory Projection_Run
  imports Projector Event_Log_Props
begin

text \<open>
  What one transaction of the projection store does to its rows, the invariant that ties the
  checkpoint, the receipts and the read model of a projection to the event log, and a run of the
  projector as a sequence of such transactions.
\<close>

section \<open>Rows\<close>

named_theorems projection_checks \<open>the checks of the store, in order\<close>

lemmas [projection_checks] = check_name_def check_position_def check_seconds_def persisted_name_def
  persisted_integer_def persisted_time_def

definition offset_view :: "offset_row \<Rightarrow> projection_offset" where
  "offset_view r = \<lparr>po_projection = ow_projection r, po_last = ow_last r, po_owner = Some (ow_owner r),
     po_epoch = ow_epoch r, po_deadline = Some (ow_deadline r), po_updated = Some (ow_updated r)\<rparr>"

lemma offset_view_sel [simp]:
  "po_projection (offset_view r) = ow_projection r" "po_last (offset_view r) = ow_last r"
  "po_owner (offset_view r) = Some (ow_owner r)" "po_epoch (offset_view r) = ow_epoch r"
  "po_deadline (offset_view r) = Some (ow_deadline r)"
  by (simp_all add: offset_view_def)

definition offset_ok :: "codec \<Rightarrow> offset_row \<Rightarrow> bool" where
  "offset_ok c r = (valid_name (ow_projection r) \<and> 0 \<le> ow_last r \<and> ow_last r \<le> max_row_integer
     \<and> valid_name (ow_owner r) \<and> 1 \<le> ow_epoch r \<and> ow_epoch r \<le> max_row_integer
     \<and> persisted_time c (ow_deadline r) = Inr () \<and> persisted_time c (ow_updated r) = Inr ())"

lemma offset_for_iff: "offset_for c name r = Inr off \<longleftrightarrow>
    offset_ok c r \<and> ow_projection r = name \<and> off = offset_view r"
  by (auto simp: offset_for_def row_to_offset_def offset_view_def offset_ok_def res_simps projection_checks)

lemma owned_offset_Inr:
  assumes "owned_offset c l now st = Inr off"
  shows "\<exists>r \<in> set (pd_offsets st). row_of ow_projection (pl_projection l) (pd_offsets st) = Some r
    \<and> offset_ok c r \<and> off = offset_view r \<and> lease_row l r \<and> is_after c (ow_deadline r) now"
  using assms row_of_Some [of ow_projection "pl_projection l" "pd_offsets st"]
  by (auto simp: owned_offset_def offset_for_iff res_simps live_lease_def lease_row_def
      split: option.splits if_splits)

text \<open>With one row per projection an update of the owner's row replaces that row.\<close>

lemma update_owned:
  assumes "distinct (map ow_projection rows)" "r \<in> set rows" "lease_row l r" "P r"
  shows "update_where (\<lambda>x. lease_row l x \<and> P x) f rows = (1, replace_row ow_projection (ow_projection r) (f r) rows)"
  using assms by (intro update_where_key) (auto simp: lease_row_def)

definition row_advances :: "offset_row \<Rightarrow> offset_row \<Rightarrow> bool" where
  "row_advances r r' = (ow_projection r' = ow_projection r \<and> ow_last r \<le> ow_last r'
     \<and> (ow_epoch r < ow_epoch r' \<or> ow_epoch r' = ow_epoch r \<and> ow_owner r' = ow_owner r))"

lemma row_advances_refl: "row_advances r r"
  by (simp add: row_advances_def)

lemma row_advances_trans: "row_advances a b \<Longrightarrow> row_advances b c \<Longrightarrow> row_advances a c"
  by (auto simp: row_advances_def)

section \<open>Transactions\<close>

lemma set_deadline_Inr:
  assumes "distinct (map ow_projection (pd_offsets st))" "r \<in> set (pd_offsets st)" "lease_row l r"
    and "set_deadline l (offset_view r) deadline now st = Inr st'"
  shows "st' = st\<lparr>pd_offsets := replace_row ow_projection (ow_projection r)
    (r\<lparr>ow_deadline := deadline, ow_updated := now\<rparr>) (pd_offsets st)\<rparr>"
  using assms(4) update_owned [OF assms(1-3), of "\<lambda>x. Some (ow_deadline x) = Some (ow_deadline r)"]
  by (simp add: set_deadline_def)

lemma set_deadline_ok:
  assumes "distinct (map ow_projection (pd_offsets st))" "r \<in> set (pd_offsets st)" "lease_row l r"
  shows "set_deadline l (offset_view r) deadline now st = Inr (st\<lparr>pd_offsets :=
    replace_row ow_projection (ow_projection r) (r\<lparr>ow_deadline := deadline, ow_updated := now\<rparr>) (pd_offsets st)\<rparr>)"
  using update_owned [OF assms, of "\<lambda>x. Some (ow_deadline x) = Some (ow_deadline r)"]
  by (simp add: set_deadline_def)

lemma claim_Inr:
  assumes "distinct (map ow_projection (pd_offsets st))"
    and "claim_projection c name owner seconds clock st = Inr (l, st')"
  obtains (fresh) r where "name \<notin> ow_projection ` set (pd_offsets st)" "ow_projection r = name" "ow_last r = 0"
      "ow_epoch r = 1" "ow_owner r = owner" "lease_row l r" "pl_deadline l = ow_deadline r"
      "st' = st\<lparr>pd_offsets := pd_offsets st @ [r]\<rparr>"
  | (taken) r r' where "r \<in> set (pd_offsets st)" "ow_projection r = name" "row_advances r r'"
      "ow_epoch r < ow_epoch r'" "ow_last r' = ow_last r" "ow_owner r' = owner" "lease_row l r'"
      "pl_deadline l = ow_deadline r'"
      "st' = st\<lparr>pd_offsets := replace_row ow_projection (ow_projection r) r' (pd_offsets st)\<rparr>"
proof -
  obtain now deadline where t: "normalize_instant c clock = Inr now" "projection_deadline c now seconds = Inr deadline"
    using assms(2) by (auto simp: claim_projection_def res_simps)
  show thesis
  proof (cases "row_of ow_projection name (pd_offsets st)")
    case None
    show ?thesis
      by (rule fresh [of "\<lparr>ow_projection = name, ow_last = 0, ow_owner = owner, ow_epoch = 1,
            ow_deadline = deadline, ow_updated = now\<rparr>"])
        (use assms(2) t None in \<open>auto simp: claim_projection_def res_simps row_of_None lease_row_def\<close>)
  next
    case (Some r)
    then have r: "r \<in> set (pd_offsets st)" "ow_projection r = name" using row_of_Some by metis+
    let ?f = "\<lambda>x. x\<lparr>ow_owner := owner, ow_epoch := ow_epoch r + 1, ow_deadline := deadline, ow_updated := now\<rparr>"
    have "update_where (\<lambda>x. ow_projection x = name) ?f (pd_offsets st)
        = (1, replace_row ow_projection (ow_projection r) (?f r) (pd_offsets st))"
      using r by (intro update_where_key [OF assms(1)]) auto
    moreover have "st' = st\<lparr>pd_offsets := snd (update_where (\<lambda>x. ow_projection x = name) ?f (pd_offsets st))\<rparr>"
        "l = \<lparr>pl_projection = name, pl_owner = owner, pl_epoch = ow_epoch r + 1, pl_deadline = deadline\<rparr>"
      using assms(2) t Some by (auto simp: claim_projection_def res_simps offset_for_iff split: if_splits)
    ultimately show ?thesis using r by (intro taken [of r "?f r"]) (auto simp: row_advances_def lease_row_def)
  qed
qed

lemma renew_Inr:
  assumes "distinct (map ow_projection (pd_offsets st))"
    and "renew_projection c l seconds clock st = Inr (l', st')"
  obtains r r' where "r \<in> set (pd_offsets st)" "lease_row l r" "lease_row l' r'" "row_advances r r'"
    "ow_last r' = ow_last r" "st' = st\<lparr>pd_offsets := replace_row ow_projection (ow_projection r) r' (pd_offsets st)\<rparr>"
    "pl_projection l' = pl_projection l" "pl_deadline l' = ow_deadline r'"
proof -
  obtain now deadline off where o: "owned_offset c l now st = Inr off" "set_deadline l off deadline now st = Inr st'"
      "l' = l\<lparr>pl_deadline := deadline\<rparr>"
    using assms(2) by (auto simp: renew_projection_def res_simps)
  obtain r where r: "r \<in> set (pd_offsets st)" "off = offset_view r" "lease_row l r"
    using owned_offset_Inr [OF o(1)] by blast
  show thesis
    by (rule that [OF r(1,3), of "r\<lparr>ow_deadline := deadline, ow_updated := now\<rparr>"])
      (use o r set_deadline_Inr [OF assms(1) r(1,3)] in \<open>auto simp: lease_row_def row_advances_def\<close>)
qed

lemma release_Inr:
  assumes "distinct (map ow_projection (pd_offsets st))" and "release_projection c l clock st = Inr st'"
  obtains r r' where "r \<in> set (pd_offsets st)" "lease_row l r" "row_advances r r'" "ow_last r' = ow_last r"
    "st' = st\<lparr>pd_offsets := replace_row ow_projection (ow_projection r) r' (pd_offsets st)\<rparr>"
proof -
  obtain now off where o: "owned_offset c l now st = Inr off" "set_deadline l off now now st = Inr st'"
    using assms(2) by (auto simp: release_projection_def res_simps)
  obtain r where r: "r \<in> set (pd_offsets st)" "off = offset_view r" "lease_row l r"
    using owned_offset_Inr [OF o(1)] by blast
  show thesis
    by (rule that [OF r(1,3), of "r\<lparr>ow_deadline := now, ow_updated := now\<rparr>"])
      (use o r set_deadline_Inr [OF assms(1) r(1,3)] in \<open>auto simp: row_advances_def\<close>)
qed

lemma move_offset_owned:
  assumes "distinct (map ow_projection rows)" "r \<in> set rows" "lease_row l r" "ow_last r = expected"
  shows "move_offset l expected new now rows
    = (1, replace_row ow_projection (ow_projection r) (r\<lparr>ow_last := new, ow_updated := now\<rparr>) rows)"
  using update_owned [OF assms(1-3), of "\<lambda>x. ow_last x = expected"] assms(4) by (simp add: move_offset_def)

lemma advance_Inr:
  assumes "distinct (map ow_projection (pd_offsets st))"
    and "advance_projection c l expected new clock st = Inr (off', st')"
  obtains r r' where "r \<in> set (pd_offsets st)" "lease_row l r" "row_advances r r'"
    "st' = st\<lparr>pd_offsets := replace_row ow_projection (ow_projection r) r' (pd_offsets st)\<rparr>"
proof -
  obtain now off where o: "owned_offset c l now st = Inr off" "po_last off = expected" "expected < new"
      "st' = st\<lparr>pd_offsets := snd (move_offset l expected new now (pd_offsets st))\<rparr>"
    using assms(2) by (auto simp: advance_projection_def res_simps Let_def split: if_splits)
  obtain r where r: "r \<in> set (pd_offsets st)" "off = offset_view r" "lease_row l r"
    using owned_offset_Inr [OF o(1)] by blast
  show thesis
    by (rule that [OF r(1,3), of "r\<lparr>ow_last := new, ow_updated := now\<rparr>"])
      (use o r move_offset_owned [OF assms(1) r(1,3), of expected] in \<open>auto simp: row_advances_def\<close>)
qed

text \<open>An application either finds the receipt and changes nothing, or moves everything at once.\<close>

lemma apply_Inr:
  assumes "distinct (map ow_projection (pd_offsets st))"
    and "apply_event c l expected e handler clock st = Inr ((applied, off), st')"
  obtains (seen) r x where "r \<in> set (pd_offsets st)" "lease_row l r" "off = offset_view r"
      "\<not> applied" "st' = st" "se_global_position (up_stored e) \<le> ow_last r"
      "find_receipt (pl_projection l) (ev_event_id (se_event (up_stored e))) (pd_receipts st) = Some x"
  | (fresh) r m now where "r \<in> set (pd_offsets st)" "lease_row l r" "applied" "ow_last r = expected"
      "expected < se_global_position (up_stored e)" "handler (pd_model st) e = Inr m"
      "find_receipt (pl_projection l) (ev_event_id (se_event (up_stored e))) (pd_receipts st) = None"
      "off = offset_view (r\<lparr>ow_last := se_global_position (up_stored e), ow_updated := now\<rparr>)"
      "st' = \<lparr>pd_offsets = replace_row ow_projection (ow_projection r)
          (r\<lparr>ow_last := se_global_position (up_stored e), ow_updated := now\<rparr>) (pd_offsets st),
         pd_receipts = pd_receipts st @ [\<lparr>pr_projection = pl_projection l,
           pr_event_id = ev_event_id (se_event (up_stored e)), pr_position = se_global_position (up_stored e),
           pr_applied = now\<rparr>], pd_model = m\<rparr>"
proof -
  let ?id = "ev_event_id (se_event (up_stored e))" and ?pos = "se_global_position (up_stored e)"
  obtain now off0 where o: "owned_offset c l now st = Inr off0"
      "case find_receipt (pl_projection l) ?id (pd_receipts st) of
         Some r \<Rightarrow> bind_res (row_to_receipt c r) (\<lambda>x.
           if pr_projection x \<noteq> pl_projection l \<or> pr_event_id x \<noteq> ?id
             then Inl (PjIntegrity ''persisted projection receipt identity'')
           else if pr_position x \<noteq> ?pos \<or> po_last off0 < ?pos
             then Inl (PjReceiptConflict ''receipt contradicts the event log or checkpoint'')
           else Inr ((False, off0), st)) = Inr ((applied, off), st')
       | None \<Rightarrow> po_last off0 = expected \<and> expected < ?pos
           \<and> apply_fresh c l expected e handler now st = Inr ((applied, off), st')"
    using assms(2) by (auto simp: apply_event_def Let_def res_simps split: option.splits if_splits)
  obtain r where r: "r \<in> set (pd_offsets st)" "off0 = offset_view r" "lease_row l r"
    using owned_offset_Inr [OF o(1)] by blast
  show thesis
  proof (cases "find_receipt (pl_projection l) ?id (pd_receipts st)")
    case (Some x)
    with o(2) r(2) show ?thesis by (intro seen [OF r(1,3)]) (auto simp: res_simps split: if_splits)
  next
    case None
    with o(2) r(2) have f: "apply_fresh c l expected e handler now st = Inr ((applied, off), st')"
        "ow_last r = expected" "expected < ?pos" by simp_all
    let ?new = "r\<lparr>ow_last := ?pos, ow_updated := now\<rparr>"
    note mv = move_offset_owned [OF assms(1) r(1,3) f(2), of ?pos now]
    have "row_of ow_projection (pl_projection l) (replace_row ow_projection (ow_projection r) ?new (pd_offsets st))
        = Some ?new"
      using row_of_replace [of ow_projection ?new "ow_projection r" "pd_offsets st" "pl_projection l"] r(1,3)
      by (simp add: lease_row_def)
    with f mv obtain m where "applied" "handler (pd_model st) e = Inr m" "off = offset_view ?new"
        "st' = \<lparr>pd_offsets = replace_row ow_projection (ow_projection r) ?new (pd_offsets st),
           pd_receipts = pd_receipts st @ [\<lparr>pr_projection = pl_projection l, pr_event_id = ?id,
             pr_position = ?pos, pr_applied = now\<rparr>], pd_model = m\<rparr>"
      by (auto simp: apply_fresh_def Let_def res_simps insert_receipt_def reread_def offset_for_iff
          split: sum.splits if_splits)
    with f r None show ?thesis by (intro fresh [OF r(1,3)])
  qed
qed

end
