(* ===== verification/Projection_History.thy ===== *)
theory Projection_History
  imports Projection_Run
begin

text \<open>
  The invariant of a projection that only projectors feed: its receipts are exactly the events up
  to its checkpoint, in order, and its read model is the fold of its handler over them. A run of
  the projector, whatever other connections commit in between, consists of steps that keep it.
\<close>

section \<open>Positions of the log\<close>

definition positioned :: "stored_event list \<Rightarrow> bool" where
  "positioned rows = (map se_global_position rows = map int [1..<Suc (length rows)])"

lemma positioned_nth: "positioned rows \<Longrightarrow> i < length rows \<Longrightarrow> se_global_position (rows ! i) = int i + 1"
  unfolding positioned_def by (drule arg_cong [where f = "\<lambda>xs. xs ! i"]) (simp del: upt_Suc)

lemma positionedI:
  assumes "\<And>i. i < length rows \<Longrightarrow> se_global_position (rows ! i) = int i + 1"
  shows "positioned rows"
  unfolding positioned_def by (rule nth_equalityI) (simp_all add: assms del: upt_Suc)

lemma positioned_last:
  assumes "positioned rows"
  shows "last_position rows = int (length rows)"
proof -
  have "set (map se_global_position rows) = int ` {1..<Suc (length rows)}"
    using assms by (simp only: positioned_def set_map set_upt)
  then have "last_position rows = Max (insert 0 (int ` {1..<Suc (length rows)}))"
    by (simp add: last_position_def fold_max)
  also have "\<dots> = int (length rows)"
  proof (rule Max_eqI)
    have "length rows = 0 \<or> length rows \<in> {1..<Suc (length rows)}" by (cases rows) simp_all
    then show "int (length rows) \<in> insert 0 (int ` {1..<Suc (length rows)})" by (metis image_eqI insertCI of_nat_0)
  qed auto
  finally show ?thesis .
qed

lemma insert_positioned: "positioned rows \<Longrightarrow> insert_event e n rows = Inr s \<Longrightarrow> positioned (rows @ [s])"
  using insert_event_Inr(1) [of e n rows s] positioned_last [of rows] by (simp add: positioned_def)

lemma insert_batch_positioned:
  "positioned rows \<Longrightarrow> insert_batch es v rows = Inr (ss, rows') \<Longrightarrow> positioned rows'"
proof (induction es arbitrary: v rows ss)
  case (Cons e es)
  from Cons.prems(2) obtain s ss' where s: "insert_event e (v + 1) rows = Inr s"
      "insert_batch es (v + 1) (rows @ [s]) = Inr (ss', rows')"
    by (auto simp: res_simps)
  from Cons.IH [OF insert_positioned [OF Cons.prems(1) s(1)] s(2)] show ?case .
qed simp

lemma append_tx_positioned:
  assumes "positioned rows" "append_tx cf e v g rows = Inr ((s, i), rows')"
  shows "positioned rows'"
  using append_tx_Inr [OF assms(2)] assms(1) insert_positioned by (auto split: if_splits)

lemma log_step_positioned:
  assumes "positioned rows" "log_step cf rows rows'"
  shows "positioned rows'"
  using assms(2)
proof cases
  case (log_append e v g s)
  then obtain e' i where "append_tx cf e' v g rows = Inr ((s, i), rows')"
    using append_event_tx [OF log_append] by blast
  then show ?thesis by (rule append_tx_positioned [OF assms(1)])
next
  case (log_tx e0 e v g x)
  then show ?thesis using append_tx_positioned [OF assms(1), of cf e v g "fst x" "snd x"] by simp
next
  case (log_batch t es v ss)
  then show ?thesis using insert_batch_positioned [OF assms(1)] assms(1)
    by (auto simp: append_many_def res_simps split: if_splits)
qed

section \<open>The read model as a fold\<close>

fun project_all :: "registry \<Rightarrow> 'm handler \<Rightarrow> 'm \<Rightarrow> stored_event list \<Rightarrow> projection_error + 'm" where
  "project_all reg h m [] = Inr m"
| "project_all reg h m (e # es) = bind_res (upcast reg e) (\<lambda>u.
     case h m u of Inl x \<Rightarrow> Inl (PjRaised x) | Inr m' \<Rightarrow> project_all reg h m' es)"

lemma project_all_append:
  "project_all reg h m (es @ fs) = bind_res (project_all reg h m es) (\<lambda>m'. project_all reg h m' fs)"
proof (induction es arbitrary: m)
  case (Cons e es)
  then show ?case by (cases "upcast reg e") (auto split: sum.splits)
qed simp

definition checkpoint :: "string \<Rightarrow> 'm projection_db \<Rightarrow> int" where
  "checkpoint name st = (case row_of ow_projection name (pd_offsets st) of None \<Rightarrow> 0 | Some r \<Rightarrow> ow_last r)"

definition receipts_of :: "string \<Rightarrow> 'm projection_db \<Rightarrow> projection_receipt list" where
  "receipts_of name st = filter (\<lambda>r. pr_projection r = name) (pd_receipts st)"

lemma row_of_distinct: "distinct (map key rows) \<Longrightarrow> r \<in> set rows \<Longrightarrow> key r = k \<Longrightarrow> row_of key k rows = Some r"
  using row_of_in by metis

lemma checkpoint_absent: "name \<notin> ow_projection ` set (pd_offsets st) \<Longrightarrow> checkpoint name st = 0"
  using row_of_None [of ow_projection name "pd_offsets st"] by (simp add: checkpoint_def)

lemma checkpoint_append:
  "checkpoint name (st\<lparr>pd_offsets := pd_offsets st @ [r]\<rparr>)
    = (if name \<notin> ow_projection ` set (pd_offsets st) \<and> ow_projection r = name then ow_last r else checkpoint name st)"
  using row_of_None [of ow_projection name "pd_offsets st"]
  by (auto simp: checkpoint_def row_of_append split: option.splits)

lemma checkpoint_replace:
  assumes "distinct (map ow_projection (pd_offsets st))" "r \<in> set (pd_offsets st)" "ow_projection r' = ow_projection r"
  shows "checkpoint name (st\<lparr>pd_offsets := replace_row ow_projection (ow_projection r) r' (pd_offsets st)\<rparr>)
    = (if name = ow_projection r then ow_last r' else checkpoint name st)"
  using assms by (simp add: checkpoint_def row_of_replace)

section \<open>Steps\<close>

text \<open>
  The steps of a store on which one projection is fed: the log grows, anybody claims, renews or
  releases any projection, and somebody with whatever lease applies an event of the log that is at
  most one past the position that he expects.
\<close>

type_synonym 'm world = "stored_event list \<times> 'm projection_db"

inductive project_step ::
  "codec \<Rightarrow> event_config \<Rightarrow> registry \<Rightarrow> 'm handler \<Rightarrow> string \<Rightarrow> 'm world \<Rightarrow> 'm world \<Rightarrow> bool"
  for c cf reg h name where
  step_log: "log_step cf rows rows' \<Longrightarrow> project_step c cf reg h name (rows, st) (rows', st)"
| step_claim: "claim_projection c n owner seconds clock st = Inr (l, st')
     \<Longrightarrow> project_step c cf reg h name (rows, st) (rows, st')"
| step_renew: "renew_projection c l seconds clock st = Inr (l', st')
     \<Longrightarrow> project_step c cf reg h name (rows, st) (rows, st')"
| step_release: "release_projection c l clock st = Inr st'
     \<Longrightarrow> project_step c cf reg h name (rows, st) (rows, st')"
| step_apply: "e \<in> set rows \<Longrightarrow> se_global_position e \<le> expected + 1 \<Longrightarrow> upcast reg e = Inr u
     \<Longrightarrow> pl_projection l = name \<Longrightarrow> apply_event c l expected u h clock st = Inr (x, st')
     \<Longrightarrow> project_step c cf reg h name (rows, st) (rows, st')"

inductive_cases project_step_E: "project_step c cf reg h name w w'"

definition project_inv :: "registry \<Rightarrow> 'm handler \<Rightarrow> string \<Rightarrow> 'm \<Rightarrow> 'm world \<Rightarrow> bool" where
  "project_inv reg h name m0 w = (case w of (rows, st) \<Rightarrow>
     log_inv rows \<and> positioned rows \<and> distinct (map ow_projection (pd_offsets st))
     \<and> 0 \<le> checkpoint name st \<and> checkpoint name st \<le> int (length rows)
     \<and> map (\<lambda>r. (pr_event_id r, pr_position r)) (receipts_of name st)
         = map (\<lambda>e. (ev_event_id (se_event e), se_global_position e)) (take (nat (checkpoint name st)) rows)
     \<and> project_all reg h m0 (take (nat (checkpoint name st)) rows) = Inr (pd_model st))"

definition new_world :: "'m \<Rightarrow> 'm world" where
  "new_world m0 = ([], \<lparr>pd_offsets = [], pd_receipts = [], pd_model = m0\<rparr>)"

lemma new_world_inv: "project_inv reg h name m0 (new_world m0)"
  by (simp add: project_inv_def new_world_def log_inv_empty positioned_def checkpoint_def receipts_of_def row_of_def)

text \<open>A transaction that leaves the checkpoint, the receipts and the read model alone.\<close>

lemma project_inv_offsets:
  assumes "project_inv reg h name m0 (rows, st)" "distinct (map ow_projection offsets)"
    and "checkpoint name (st\<lparr>pd_offsets := offsets\<rparr>) = checkpoint name st"
  shows "project_inv reg h name m0 (rows, st\<lparr>pd_offsets := offsets\<rparr>)"
  using assms by (simp add: project_inv_def receipts_of_def)

lemma project_inv_replace:
  assumes inv: "project_inv reg h name m0 (rows, st)" and r: "r \<in> set (pd_offsets st)"
    and adv: "row_advances r r'" "ow_last r' = ow_last r"
  shows "project_inv reg h name m0
    (rows, st\<lparr>pd_offsets := replace_row ow_projection (ow_projection r) r' (pd_offsets st)\<rparr>)"
proof (rule project_inv_offsets [OF inv])
  have d: "distinct (map ow_projection (pd_offsets st))" using inv by (simp add: project_inv_def)
  have k: "ow_projection r' = ow_projection r" using adv(1) by (simp add: row_advances_def)
  show "distinct (map ow_projection (replace_row ow_projection (ow_projection r) r' (pd_offsets st)))"
    using d replace_row_keys [of ow_projection r' "ow_projection r" "pd_offsets st"] k by simp
  show "checkpoint name (st\<lparr>pd_offsets := replace_row ow_projection (ow_projection r) r' (pd_offsets st)\<rparr>)
      = checkpoint name st"
    using checkpoint_replace [OF d r k, of name] row_of_distinct [OF d r] adv(2) by (simp add: checkpoint_def)
qed

lemma project_inv_claim:
  assumes inv: "project_inv reg h name m0 (rows, st)" and cl: "claim_projection c n owner secs clock st = Inr (l, st')"
  shows "project_inv reg h name m0 (rows, st')"
proof -
  have d: "distinct (map ow_projection (pd_offsets st))" using inv by (simp add: project_inv_def)
  from d cl show ?thesis
  proof (cases rule: claim_Inr)
    case (fresh r)
    have "checkpoint name (st\<lparr>pd_offsets := pd_offsets st @ [r]\<rparr>) = checkpoint name st"
      using fresh(3) checkpoint_absent [of name st] unfolding checkpoint_append by simp
    moreover have "distinct (map ow_projection (pd_offsets st @ [r]))" using d fresh(1,2) by auto
    ultimately show ?thesis unfolding fresh(8) by (intro project_inv_offsets [OF inv])
  next
    case (taken r r')
    show ?thesis unfolding taken(9) by (rule project_inv_replace [OF inv taken(1,3,5)])
  qed
qed

lemma take_Suc_at: "i < length xs \<Longrightarrow> take (Suc i) xs = take i xs @ [xs ! i]"
  by (rule take_Suc_conv_app_nth)

lemma project_inv_apply:
  assumes inv: "project_inv reg h name m0 (rows, st)" and e: "e \<in> set rows" "se_global_position e \<le> expected + 1"
    and u: "upcast reg e = Inr u" and l: "pl_projection l = name"
    and ap: "apply_event c l expected u h clock st = Inr ((applied, off), st')"
  shows "project_inv reg h name m0 (rows, st')"
proof -
  have d: "distinct (map ow_projection (pd_offsets st))" using inv by (simp add: project_inv_def)
  have up: "up_stored u = e" using u by (auto simp: upcast_def Let_def res_simps split: option.splits if_splits)
  from d ap show ?thesis
  proof (cases rule: apply_Inr)
    case (seen r x)
    then show ?thesis using inv by simp
  next
    case (fresh r m now)
    let ?r = "r\<lparr>ow_last := se_global_position e, ow_updated := now\<rparr>"
    have name: "ow_projection r = name" using fresh(2) l by (simp add: lease_row_def)
    have k: "checkpoint name st = expected"
      using row_of_distinct [OF d fresh(1) name] fresh(4) by (simp add: checkpoint_def)
    have pos: "se_global_position e = expected + 1" using fresh(5) e(2) up by simp
    obtain i where i: "i < length rows" "e = rows ! i" using e(1) by (auto simp: in_set_conv_nth)
    have "positioned rows" using inv by (simp add: project_inv_def)
    from positioned_nth [OF this i(1)] have ex: "expected = int i" using pos i(2) by simp
    have st': "st' = \<lparr>pd_offsets = replace_row ow_projection (ow_projection r) ?r (pd_offsets st),
        pd_receipts = pd_receipts st @ [\<lparr>pr_projection = name, pr_event_id = ev_event_id (se_event e),
          pr_position = se_global_position e, pr_applied = now\<rparr>], pd_model = m\<rparr>"
      using fresh(9) up l by simp
    have k': "checkpoint name st' = int i + 1"
      using checkpoint_replace [OF d fresh(1), of ?r name] name pos ex by (simp add: st' checkpoint_def)
    have "take (nat (checkpoint name st')) rows = take (nat (checkpoint name st)) rows @ [e]"
      using take_Suc_at [OF i(1)] k k' ex i(2) by (simp add: nat_add_distrib)
    moreover have "receipts_of name st' = receipts_of name st @ [\<lparr>pr_projection = name,
        pr_event_id = ev_event_id (se_event e), pr_position = se_global_position e, pr_applied = now\<rparr>]"
      by (simp add: receipts_of_def st')
    moreover have "distinct (map ow_projection (pd_offsets st'))"
      using d replace_row_keys [of ow_projection ?r "ow_projection r" "pd_offsets st"] by (simp add: st')
    moreover have "h (pd_model st) u = Inr (pd_model st')" using fresh(6) by (simp add: st')
    ultimately show ?thesis using inv k' i(1) u
      by (simp add: project_inv_def project_all_append)
  qed
qed

lemma project_step_inv:
  assumes inv: "project_inv reg h name m0 w" and step: "project_step c cf reg h name w w'"
  shows "project_inv reg h name m0 w'"
  using step
proof cases
  case (step_log rows rows' st)
  have pre: "prefix rows rows'" "positioned rows'" "log_inv rows'"
    using inv step_log log_step_prefix log_step_positioned log_step_inv by (auto simp: project_inv_def)
  then have "take (nat (checkpoint name st)) rows' = take (nat (checkpoint name st)) rows"
    using inv step_log by (auto simp: project_inv_def prefix_def)
  then show ?thesis using inv step_log pre by (auto simp: project_inv_def prefix_def)
next
  case (step_claim n owner seconds clock st l st' rows)
  have "project_inv reg h name m0 (rows, st)" using inv step_claim(1) by simp
  from project_inv_claim [OF this step_claim(3)] show ?thesis using step_claim(2) by simp
next
  case (step_renew l seconds clock st l' st' rows)
  have d: "distinct (map ow_projection (pd_offsets st))" using inv step_renew by (simp add: project_inv_def)
  obtain r r' where r: "r \<in> set (pd_offsets st)" "row_advances r r'" "ow_last r' = ow_last r"
      "st' = st\<lparr>pd_offsets := replace_row ow_projection (ow_projection r) r' (pd_offsets st)\<rparr>"
    by (rule renew_Inr [OF d step_renew(3)])
  have "project_inv reg h name m0 (rows, st)" using inv step_renew(1) by simp
  from project_inv_replace [OF this r(1-3)] show ?thesis using step_renew(2) r(4) by simp
next
  case (step_release l clock st st' rows)
  have d: "distinct (map ow_projection (pd_offsets st))" using inv step_release by (simp add: project_inv_def)
  obtain r r' where r: "r \<in> set (pd_offsets st)" "row_advances r r'" "ow_last r' = ow_last r"
      "st' = st\<lparr>pd_offsets := replace_row ow_projection (ow_projection r) r' (pd_offsets st)\<rparr>"
    by (rule release_Inr [OF d step_release(3)])
  have "project_inv reg h name m0 (rows, st)" using inv step_release(1) by simp
  from project_inv_replace [OF this r(1-3)] show ?thesis using step_release(2) r(4) by simp
next
  case (step_apply e rows expected u l clock st x st')
  then show ?thesis using inv project_inv_apply [of reg h name m0 rows st e expected u l c clock "fst x" "snd x" st']
    by simp
qed

interpretation projection: invariant_system "\<lambda>w. w = new_world m0" "project_step c cf reg h name"
    "project_inv reg h name m0" for c cf reg h name m0
  by unfold_locales (auto intro: project_step_inv new_world_inv)

end
