(* ===== verification/Projection_Fencing.thy ===== *)
theory Projection_Fencing
  imports Projection_History
begin

text \<open>
  All transactions of the projection store, by whoever holds whatever lease: checkpoints and owner
  epochs only grow, so an owner that was replaced is shut out for ever. On top of it, the run of a
  projector as steps that keep the invariant of its projection.
\<close>

section \<open>Any transaction of the store\<close>

inductive projection_step :: "codec \<Rightarrow> 'm projection_db \<Rightarrow> 'm projection_db \<Rightarrow> bool" for c where
  ps_claim: "claim_projection c n owner seconds clock st = Inr (l, st') \<Longrightarrow> projection_step c st st'"
| ps_renew: "renew_projection c l seconds clock st = Inr (l', st') \<Longrightarrow> projection_step c st st'"
| ps_release: "release_projection c l clock st = Inr st' \<Longrightarrow> projection_step c st st'"
| ps_advance: "advance_projection c l expected new clock st = Inr (off, st') \<Longrightarrow> projection_step c st st'"
| ps_apply: "apply_event c l expected u h clock st = Inr (x, st') \<Longrightarrow> projection_step c st st'"

definition keyed_offsets :: "'m projection_db \<Rightarrow> bool" where
  "keyed_offsets st = distinct (map ow_projection (pd_offsets st))"

text \<open>How the rows of a transaction relate: one row is new, or one row advances.\<close>

definition rows_advance :: "offset_row list \<Rightarrow> offset_row list \<Rightarrow> bool" where
  "rows_advance rows rows' = (\<forall>r \<in> set rows. \<exists>r' \<in> set rows'. row_advances r r')"

lemma rows_advance_refl: "rows_advance rows rows"
  using row_advances_refl by (auto simp: rows_advance_def)

lemma rows_advance_trans: "rows_advance a b \<Longrightarrow> rows_advance b c \<Longrightarrow> rows_advance a c"
  unfolding rows_advance_def by (meson row_advances_trans)

lemma rows_advance_replace:
  assumes "row_advances r r'" and that: "distinct (map ow_projection rows)" "r \<in> set rows"
  shows "rows_advance rows (replace_row ow_projection (ow_projection r) r' rows)"
  unfolding rows_advance_def
proof
  fix x assume x: "x \<in> set rows"
  show "\<exists>y \<in> set (replace_row ow_projection (ow_projection r) r' rows). row_advances x y"
  proof (cases "ow_projection x = ow_projection r")
    case True
    with key_inj [OF that(1) x that(2)] have "x = r" by simp
    then show ?thesis using assms(1) in_replace_row_iff [OF that(2) refl] by blast
  next
    case False
    then show ?thesis using x row_advances_refl in_replace_row_iff [OF that(2) refl] by blast
  qed
qed

lemma keyed_replace:
  "row_advances r r' \<Longrightarrow> distinct (map ow_projection rows)
    \<Longrightarrow> distinct (map ow_projection (replace_row ow_projection (ow_projection r) r' rows))"
  using replace_row_keys [of ow_projection r' "ow_projection r" rows] by (simp add: row_advances_def)

lemma projection_step_effect:
  assumes "keyed_offsets st" "projection_step c st st'"
  shows "(\<exists>r. ow_projection r \<notin> ow_projection ` set (pd_offsets st) \<and> pd_offsets st' = pd_offsets st @ [r])
    \<or> (\<exists>r r'. r \<in> set (pd_offsets st) \<and> row_advances r r'
        \<and> pd_offsets st' = replace_row ow_projection (ow_projection r) r' (pd_offsets st))
    \<or> pd_offsets st' = pd_offsets st"
proof -
  have d: "distinct (map ow_projection (pd_offsets st))" using assms(1) by (simp add: keyed_offsets_def)
  show ?thesis
    using assms(2)
  proof cases
    case (ps_claim n owner seconds clock l)
    from d ps_claim show ?thesis by (cases rule: claim_Inr) auto
  next
    case (ps_renew l seconds clock l')
    from d ps_renew show ?thesis by (cases rule: renew_Inr) auto
  next
    case (ps_release l clock)
    from d ps_release show ?thesis by (cases rule: release_Inr) auto
  next
    case (ps_advance l expected new clock off)
    from d ps_advance show ?thesis by (cases rule: advance_Inr) auto
  next
    case (ps_apply l expected u h clock x)
    obtain applied off where x: "x = (applied, off)" by (cases x)
    from d ps_apply [unfolded x] show ?thesis
    proof (cases rule: apply_Inr)
      case (fresh r m now)
      then have "row_advances r (r\<lparr>ow_last := se_global_position (up_stored u), ow_updated := now\<rparr>)"
        by (simp add: row_advances_def)
      with fresh show ?thesis by auto
    qed simp
  qed
qed

lemma projection_step_keeps:
  assumes "keyed_offsets st" "projection_step c st st'"
  shows "keyed_offsets st'" "rows_advance (pd_offsets st) (pd_offsets st')"
proof -
  have d: "distinct (map ow_projection (pd_offsets st))" using assms(1) by (simp add: keyed_offsets_def)
  from projection_step_effect [OF assms]
  have "keyed_offsets st' \<and> rows_advance (pd_offsets st) (pd_offsets st')"
  proof (elim disjE exE conjE)
    fix r assume "ow_projection r \<notin> ow_projection ` set (pd_offsets st)" "pd_offsets st' = pd_offsets st @ [r]"
    then show ?thesis using d row_advances_refl by (auto simp: keyed_offsets_def rows_advance_def)
  next
    fix r r' assume "r \<in> set (pd_offsets st)" "row_advances r r'"
      "pd_offsets st' = replace_row ow_projection (ow_projection r) r' (pd_offsets st)"
    then show ?thesis using d keyed_replace rows_advance_replace by (simp add: keyed_offsets_def)
  qed (use assms(1) rows_advance_refl in \<open>simp add: keyed_offsets_def\<close>)
  then show "keyed_offsets st'" "rows_advance (pd_offsets st) (pd_offsets st')" by blast+
qed

lemma keyed_none: "pd_offsets st = [] \<Longrightarrow> keyed_offsets st"
  by (simp add: keyed_offsets_def)

interpretation projection_store: invariant_system "\<lambda>st. pd_offsets st = []" "projection_step c" keyed_offsets for c
  by unfold_locales (auto intro: projection_step_keeps(1) keyed_none)

abbreviation reachable_projections :: "codec \<Rightarrow> 'm projection_db \<Rightarrow> bool" where
  "reachable_projections c \<equiv> reach (\<lambda>st. pd_offsets st = []) (projection_step c)"

lemma projection_steps_advance:
  assumes "(projection_step c)\<^sup>*\<^sup>* st st'" "keyed_offsets st"
  shows "rows_advance (pd_offsets st) (pd_offsets st')"
  by (rule projection_store.steps_mono [where R = "\<lambda>a b. rows_advance (pd_offsets a) (pd_offsets b)", OF assms])
    (auto intro: rows_advance_refl projection_step_keeps(2) elim: rows_advance_trans)

section \<open>Fencing\<close>

definition shut_out :: "codec \<Rightarrow> projection_lease \<Rightarrow> 'm projection_db \<Rightarrow> bool" where
  "shut_out c l st = ((\<forall>s t x. renew_projection c l s t st \<noteq> Inr x) \<and> (\<forall>t x. release_projection c l t st \<noteq> Inr x)
     \<and> (\<forall>n m t x. advance_projection c l n m t st \<noteq> Inr x)
     \<and> (\<forall>n u (h :: 'm handler) t x. apply_event c l n u h t st \<noteq> Inr x))"

lemma shut_outI:
  assumes "\<And>now off. owned_offset c l now st \<noteq> Inr off"
  shows "shut_out c l st"
  using assms by (auto simp: shut_out_def renew_projection_def release_projection_def advance_projection_def
      apply_event_def res_simps Let_def split: if_splits)

lemma stale_epoch_shut_out:
  assumes "keyed_offsets st" "r \<in> set (pd_offsets st)" "ow_projection r = pl_projection l" "pl_epoch l < ow_epoch r"
  shows "shut_out c l st"
proof (rule shut_outI)
  fix now off
  show "owned_offset c l now st \<noteq> Inr off"
  proof
    assume "owned_offset c l now st = Inr off"
    from owned_offset_Inr [OF this] obtain r' where "r' \<in> set (pd_offsets st)" "lease_row l r'" by blast
    moreover from this have "r' = r"
      using assms(1-3) key_inj [of ow_projection "pd_offsets st" r' r] by (simp add: keyed_offsets_def lease_row_def)
    ultimately show False using assms(4) by (simp add: lease_row_def)
  qed
qed

lemma claim_epoch:
  assumes "keyed_offsets st" "claim_projection c name owner seconds clock st = Inr (l, st')"
  shows "\<exists>r \<in> set (pd_offsets st'). lease_row l r" "pl_projection l = name"
    "\<forall>r \<in> set (pd_offsets st). ow_projection r = name \<longrightarrow> ow_epoch r < pl_epoch l"
proof -
  have d: "distinct (map ow_projection (pd_offsets st))" using assms(1) by (simp add: keyed_offsets_def)
  have "(\<exists>r \<in> set (pd_offsets st'). lease_row l r) \<and> pl_projection l = name
    \<and> (\<forall>r \<in> set (pd_offsets st). ow_projection r = name \<longrightarrow> ow_epoch r < pl_epoch l)"
    using d assms(2)
  proof (cases rule: claim_Inr)
    case (fresh r)
    then show ?thesis by (auto simp: lease_row_def image_iff)
  next
    case (taken r r')
    have l: "pl_projection l = name" "pl_epoch l = ow_epoch r'"
      using taken(2,3,7) by (simp_all add: lease_row_def row_advances_def)
    have "ow_epoch x < pl_epoch l" if x: "x \<in> set (pd_offsets st)" "ow_projection x = name" for x
    proof -
      have "ow_projection x = ow_projection r" using x(2) taken(2) by simp
      with key_inj [OF d x(1) taken(1)] have "x = r" .
      then show ?thesis using taken(4) l(2) by simp
    qed
    moreover have "r' \<in> set (pd_offsets st')"
      using in_replace_row_iff [OF taken(1), of ow_projection "ow_projection r" r' r'] taken(9) by simp
    ultimately show ?thesis using l(1) taken(7) by blast
  qed
  then show "\<exists>r \<in> set (pd_offsets st'). lease_row l r" "pl_projection l = name"
    "\<forall>r \<in> set (pd_offsets st). ow_projection r = name \<longrightarrow> ow_epoch r < pl_epoch l" by blast+
qed

text \<open>
  C21. Taking a projection over fences the previous owner for ever: once somebody has claimed it
  again, the lease of the earlier claim, renewed or not, is refused by every operation in every
  later state of the store, whatever the clocks say.
\<close>

theorem takeover_fences_owner:
  assumes "reachable_projections c st" and "claim_projection c name owner s t st = Inr (l1, st1)"
    and "(projection_step c)\<^sup>*\<^sup>* st1 st2" and "claim_projection c name owner' s' t' st2 = Inr (l2, st3)"
    and "(projection_step c)\<^sup>*\<^sup>* st3 st4" and "pl_projection l = name" and "pl_epoch l = pl_epoch l1"
  shows "shut_out c l st4"
proof -
  have k: "keyed_offsets st" by (rule projection_store.reach_inv [OF assms(1)])
  have k1: "keyed_offsets st1" by (rule projection_step_keeps(1) [OF k ps_claim [OF assms(2)]])
  have k2: "keyed_offsets st2" by (rule projection_store.steps_inv [OF assms(3) k1])
  have k3: "keyed_offsets st3" by (rule projection_step_keeps(1) [OF k2 ps_claim [OF assms(4)]])
  have k4: "keyed_offsets st4" by (rule projection_store.steps_inv [OF assms(5) k3])
  obtain r1 where r1: "r1 \<in> set (pd_offsets st1)" "lease_row l1 r1" using claim_epoch(1) [OF k assms(2)] by blast
  then obtain r2 where r2: "r2 \<in> set (pd_offsets st2)" "row_advances r1 r2"
    using projection_steps_advance [OF assms(3) k1] by (auto simp: rows_advance_def)
  have "ow_projection r2 = name" "pl_epoch l1 \<le> ow_epoch r2"
    using r1(2) r2(2) claim_epoch(2) [OF k assms(2)] by (auto simp: lease_row_def row_advances_def)
  then have less: "pl_epoch l1 < pl_epoch l2" using claim_epoch(3) [OF k2 assms(4)] r2(1) by auto
  obtain r3 where r3: "r3 \<in> set (pd_offsets st3)" "lease_row l2 r3" using claim_epoch(1) [OF k2 assms(4)] by blast
  then obtain r4 where r4: "r4 \<in> set (pd_offsets st4)" "row_advances r3 r4"
    using projection_steps_advance [OF assms(5) k3] by (auto simp: rows_advance_def)
  have "ow_projection r4 = name" "pl_epoch l2 \<le> ow_epoch r4"
    using r3(2) r4(2) claim_epoch(2) [OF k2 assms(4)] by (auto simp: lease_row_def row_advances_def)
  then show ?thesis using stale_epoch_shut_out [OF k4 r4(1)] less assms(6,7) by simp
qed

section \<open>A run of the projector\<close>

definition log_source :: "event_config \<Rightarrow> stored_event list \<Rightarrow> int \<Rightarrow> int \<Rightarrow> projection_error + stored_event list" where
  "log_source cf rows after limit = (case read_all cf after limit rows of Inl x \<Rightarrow> Inl (PjLog x) | Inr es \<Rightarrow> Inr es)"

text \<open>The steps of the projection of \<open>p\<close>, and connections that only take such steps.\<close>

abbreviation run_step :: "codec \<Rightarrow> event_config \<Rightarrow> 'm projector \<Rightarrow> 'm world \<Rightarrow> 'm world \<Rightarrow> bool" where
  "run_step c cf p \<equiv> project_step c cf (pj_registry p) (pj_handler p) (pj_name p)"

definition well_behaved ::
  "codec \<Rightarrow> event_config \<Rightarrow> 'm projector \<Rightarrow> stored_event list
   \<Rightarrow> (nat \<Rightarrow> 'm projection_db \<Rightarrow> 'm projection_db) \<Rightarrow> bool" where
  "well_behaved c cf p rows world = (\<forall>k st. (run_step c cf p)\<^sup>*\<^sup>* (rows, st) (rows, world k st))"

lemma renew_same: "renew_projection c l s t st = Inr (l', st') \<Longrightarrow> pl_projection l' = pl_projection l"
  by (auto simp: renew_projection_def res_simps)

lemma apply_covers:
  assumes "keyed_offsets st" "apply_event c l n u h t st = Inr ((applied, off), st')"
  shows "se_global_position (up_stored u) \<le> po_last off"
proof -
  have "distinct (map ow_projection (pd_offsets st))" using assms(1) by (simp add: keyed_offsets_def)
  from this assms(2) show ?thesis by (cases rule: apply_Inr) simp_all
qed

lemma upcast_stored: "upcast reg e = Inr u \<Longrightarrow> up_stored u = e"
  by (auto simp: upcast_def Let_def res_simps split: option.splits if_splits)

lemma project_inv_keyed: "project_inv reg h name m0 (rows, st) \<Longrightarrow> keyed_offsets st"
  by (simp add: project_inv_def keyed_offsets_def)

lemma project_events_steps:
  assumes "project_inv (pj_registry p) (pj_handler p) (pj_name p) m0 (rows, st)" and "well_behaved c cf p rows world"
    and "set es \<subseteq> set rows" and "contiguous q es" and "q \<le> rr_last done + 1" and "pl_projection l = pj_name p"
    and "project_events c p tick world es l done k st = (result, l', k', st')"
  shows "(run_step c cf p)\<^sup>*\<^sup>* (rows, st) (rows, st') \<and> pl_projection l' = pj_name p"
  using assms(1,3-)
proof (induction es arbitrary: q l "done" k st)
  case (Cons e es)
  let ?step = "run_step c cf p" and ?inv = "project_inv (pj_registry p) (pj_handler p) (pj_name p) m0"
  define st1 where "st1 = world k st"
  have s1: "?step\<^sup>*\<^sup>* (rows, st) (rows, st1)" using assms(2) by (simp add: well_behaved_def st1_def)
  show ?case
  proof (cases "renew_projection c l (pj_seconds p) (tick k) st1")
    case (Inl x)
    then show ?thesis using Cons.prems s1 by (simp add: st1_def)
  next
    case (Inr r)
    obtain l1 st2 where r: "r = (l1, st2)" by (cases r)
    have s2: "?step\<^sup>*\<^sup>* (rows, st) (rows, st2)" using s1 step_renew [OF Inr [unfolded r]] by (simp add: rtranclp.rtrancl_into_rtrancl)
    have l1: "pl_projection l1 = pj_name p" using renew_same [OF Inr [unfolded r]] Cons.prems(5) by simp
    show ?thesis
    proof (cases "upcast (pj_registry p) e")
      case (Inl x)
      then show ?thesis using Cons.prems Inr s2 l1 by (simp add: r st1_def)
    next
      case u: (Inr u)
      define st3 where "st3 = world (Suc k) st2"
      have s3: "?step\<^sup>*\<^sup>* (rows, st) (rows, st3)"
        using s2 assms(2) by (auto simp: well_behaved_def st3_def intro: rtranclp_trans)
      have inv3: "?inv (rows, st3)" by (rule projection.steps_inv [OF s3 Cons.prems(1)])
      show ?thesis
      proof (cases "apply_event c l1 (rr_last done) u (pj_handler p) (tick (Suc k)) st3")
        case (Inl x)
        then show ?thesis using Cons.prems Inr u s3 l1 by (simp add: r st1_def st3_def)
      next
        case a: (Inr y)
        obtain applied off st4 where y: "y = ((applied, off), st4)" by (cases y; cases "fst y") auto
        have pos: "se_global_position e = q" "contiguous (q + 1) es" using Cons.prems(3) by simp_all
        have "?step (rows, st3) (rows, st4)"
          using step_apply [of e rows "rr_last done" "pj_registry p" u l1 "pj_name p"] a y u l1 pos Cons.prems(2,4)
          by simp
        then have s4: "?step\<^sup>*\<^sup>* (rows, st) (rows, st4)" using s3 by (simp add: rtranclp.rtrancl_into_rtrancl)
        have inv4: "?inv (rows, st4)" by (rule projection.steps_inv [OF s4 Cons.prems(1)])
        have "q \<le> po_last off"
          using apply_covers [OF project_inv_keyed [OF inv3] a [unfolded y]] upcast_stored [OF u] pos(1) by simp
        then have "?step\<^sup>*\<^sup>* (rows, st4) (rows, st') \<and> pl_projection l' = pj_name p"
          using Cons.prems(2,6) Inr u a pos(2) l1
          by (intro Cons.IH [OF inv4, where q = "q + 1"]) (auto simp: r y st1_def st3_def)
        then show ?thesis using s4 by (auto intro: rtranclp_trans)
      qed
    qed
  qed
qed simp

end
