(* ===== verification/Projection_Props.thy ===== *)
theory Projection_Props
  imports Projection_Fencing
begin

text \<open>
  What the projections promise: exactly-once application whatever happens around a run, no event
  skipped, progress of a worker that is alone, and a schema registry that never improvises.
\<close>

section \<open>Runs are steps\<close>

lemma log_source_rows:
  assumes "log_inv rows" "log_source cf rows after limit = Inr es"
  shows "set es \<subseteq> set rows"
proof -
  have "sorted_wrt (<) (map se_global_position rows)" using assms(1) by (simp add: log_inv_def)
  note page = all_page_exact [OF this]
  obtain a n where "all_page cf a n rows = Inr es"
    using assms(2) by (auto simp: log_source_def read_all_def res_simps split: sum.splits)
  then have "es = take n (filter (\<lambda>r. a < se_global_position r) rows)"
    using page map_res_row_id by metis
  then show ?thesis by (auto dest: in_set_takeD)
qed

lemma project_batch_steps:
  assumes inv: "project_inv (pj_registry p) (pj_handler p) (pj_name p) m0 (rows, st)"
    and world: "well_behaved c cf p rows world" and src: "pj_source p = log_source cf rows"
    and l: "pl_projection l = pj_name p"
    and run: "project_batch c p tick world limit l st = (result, l', k', st')"
  shows "(run_step c cf p)\<^sup>*\<^sup>* (rows, st) (rows, st')"
proof -
  let ?st1 = "world 1 st"
  have s1: "(run_step c cf p)\<^sup>*\<^sup>* (rows, st) (rows, ?st1)" using world by (simp add: well_behaved_def)
  have inv1: "project_inv (pj_registry p) (pj_handler p) (pj_name p) m0 (rows, ?st1)"
    by (rule projection.steps_inv [OF s1 inv])
  let ?get = "bind_res (load_offset c (pj_name p) ?st1) (\<lambda>off. bind_res (pj_source p (po_last off) limit) (\<lambda>es.
    bind_res (check_batch (po_last off) limit es) (\<lambda>batch. Inr (po_last off, batch))))"
  show ?thesis
  proof (cases ?get)
    case (Inl x)
    then show ?thesis using run s1 by (simp add: project_batch_def Let_def)
  next
    case (Inr y)
    obtain start batch where y: "y = (start, batch)" by (cases y)
    have "log_source cf rows start limit = Inr batch" "contiguous (start + 1) batch"
      using Inr src by (auto simp: y res_simps check_batch_def split: if_splits)
    moreover have "log_inv rows" using inv by (simp add: project_inv_def)
    ultimately have b: "set batch \<subseteq> set rows" "contiguous (start + 1) batch" using log_source_rows by blast+
    have "project_events c p tick world batch l
        \<lparr>rr_scanned = 0, rr_applied = 0, rr_deduplicated = 0, rr_last = start\<rparr> 2 ?st1 = (result, l', k', st')"
      using run Inr by (simp add: project_batch_def Let_def y)
    from project_events_steps [OF inv1 world b _ l this] s1 show ?thesis by (auto intro: rtranclp_trans)
  qed
qed

lemma run_once_steps:
  assumes inv: "project_inv (pj_registry p) (pj_handler p) (pj_name p) m0 (rows, st)"
    and world: "well_behaved c cf p rows world" and src: "pj_source p = log_source cf rows"
  shows "(run_step c cf p)\<^sup>*\<^sup>* (rows, st) (rows, snd (run_once c p tick world limit st))"
proof (cases "1 \<le> limit \<and> limit \<le> 1000")
  case True
  let ?st0 = "world 0 st" and ?step = "run_step c cf p"
  have w: "?step\<^sup>*\<^sup>* (rows, s) (rows, world k s)" for k s using world by (simp add: well_behaved_def)
  have inv0: "project_inv (pj_registry p) (pj_handler p) (pj_name p) m0 (rows, ?st0)"
    by (rule projection.steps_inv [OF w inv])
  show ?thesis
  proof (cases "claim_projection c (pj_name p) (pj_owner p) (pj_seconds p) (tick 0) ?st0")
    case (Inl x)
    then show ?thesis using w True by (simp add: run_once_def Let_def)
  next
    case (Inr y)
    obtain l st1 where y: "y = (l, st1)" by (cases y)
    note cl = Inr [unfolded y]
    have one: "?step (rows, ?st0) (rows, st1)" by (rule step_claim [OF cl])
    have inv1: "project_inv (pj_registry p) (pj_handler p) (pj_name p) m0 (rows, st1)"
      by (rule project_step_inv [OF inv0 one])
    obtain result l' k st2 where b: "project_batch c p tick world limit l st1 = (result, l', k, st2)"
      by (metis prod_cases4)
    have "?step\<^sup>*\<^sup>* (rows, st1) (rows, st2)"
      by (rule project_batch_steps [OF inv1 world src claim_epoch(2) [OF project_inv_keyed [OF inv0] cl] b])
    then have "?step\<^sup>*\<^sup>* (rows, st) (rows, st2)" using w [of st 0] one by (meson converse_rtranclp_into_rtranclp rtranclp_trans)
    then have s3: "?step\<^sup>*\<^sup>* (rows, st) (rows, world k st2)" using w by (meson rtranclp_trans)
    show ?thesis
    proof (cases "release_projection c l' (tick k) (world k st2)")
      case r: (Inl x)
      then have "snd (run_once c p tick world limit st) = world k st2"
        using True Inr b by (cases x) (simp_all add: run_once_def Let_def y)
      then show ?thesis using s3 by simp
    next
      case r: (Inr st4)
      then have "snd (run_once c p tick world limit st) = st4"
        using True Inr b by (simp add: run_once_def Let_def y)
      then show ?thesis using s3 step_release [OF r] by (simp add: rtranclp.rtrancl_into_rtrancl)
    qed
  qed
qed (simp add: run_once_def)

section \<open>Exactly once\<close>

lemma project_step_cases:
  assumes "project_step c cf reg h name (rows, st) (rows', st')"
  shows "log_step cf rows rows' \<and> st' = st \<or> rows' = rows \<and> projection_step c st st'"
  using assms
  by cases (auto intro: projection_step.intros)

lemma checkpoint_mono:
  assumes "keyed_offsets st" "keyed_offsets st'" "rows_advance (pd_offsets st) (pd_offsets st')" "0 \<le> checkpoint name st'"
  shows "checkpoint name st \<le> checkpoint name st'"
proof (cases "row_of ow_projection name (pd_offsets st)")
  case None
  then show ?thesis using assms(4) by (simp add: checkpoint_def)
next
  case (Some r)
  then have r: "r \<in> set (pd_offsets st)" "ow_projection r = name" using row_of_Some by metis+
  then obtain r' where r': "r' \<in> set (pd_offsets st')" "row_advances r r'"
    using assms(3) by (auto simp: rows_advance_def)
  then have "row_of ow_projection name (pd_offsets st') = Some r'"
    using row_of_distinct [of ow_projection "pd_offsets st'" r' name] assms(2) r(2)
    by (simp add: keyed_offsets_def row_advances_def)
  then show ?thesis using Some r'(2) by (simp add: checkpoint_def row_advances_def)
qed

definition later_world :: "string \<Rightarrow> 'm world \<Rightarrow> 'm world \<Rightarrow> bool" where
  "later_world name w w' = (prefix (fst w) (fst w') \<and> checkpoint name (snd w) \<le> checkpoint name (snd w'))"

lemma later_refl: "later_world name w w"
  by (simp add: later_world_def)

lemma later_trans: "later_world name a b \<Longrightarrow> later_world name b d \<Longrightarrow> later_world name a d"
  by (auto simp: later_world_def intro: prefix_order.trans)

lemma project_step_later:
  assumes inv: "project_inv reg h name m0 w" and step: "project_step c cf reg h name w w'"
  shows "later_world name w w'"
proof -
  obtain rows st rows' st' where w: "w = (rows, st)" "w' = (rows', st')" by (cases w, cases w')
  have inv': "project_inv reg h name m0 (rows', st')" using project_step_inv [OF inv step] w by simp
  have keyed: "keyed_offsets st" using inv project_inv_keyed w(1) by metis
  from project_step_cases [OF step [unfolded w]] show ?thesis
  proof (elim disjE conjE)
    assume "log_step cf rows rows'" "st' = st"
    moreover have "log_inv rows" using inv w by (simp add: project_inv_def)
    ultimately show ?thesis using log_step_prefix by (simp add: later_world_def w)
  next
    assume s: "rows' = rows" "projection_step c st st'"
    have "0 \<le> checkpoint name st'" using inv' by (simp add: project_inv_def)
    with checkpoint_mono [OF keyed projection_step_keeps [OF keyed s(2)]] s(1)
    show ?thesis by (simp add: later_world_def w)
  qed
qed

lemma project_steps_later:
  assumes "(project_step c cf reg h name)\<^sup>*\<^sup>* w w'" "project_inv reg h name m0 w"
  shows "later_world name w w'"
  by (rule projection.steps_mono [where R = "later_world name", OF assms])
    (blast intro: later_refl later_trans project_step_later)+

abbreviation reachable_projection ::
  "codec \<Rightarrow> event_config \<Rightarrow> 'm projector \<Rightarrow> 'm \<Rightarrow> 'm world \<Rightarrow> bool" where
  "reachable_projection c cf p m0 \<equiv> reach (\<lambda>w. w = new_world m0) (run_step c cf p)"

text \<open>
  C6. Projections are exactly-once: after any run of the projector, whatever other workers
  commit between its transactions and however the run ends, the read model is the fold of the
  handler over the normalised events up to the checkpoint, each once and in the order of the log,
  and the checkpoint did not go back. A crash, a lost lease or a failing handler leaves such a state.
\<close>

theorem projector_exactly_once:
  assumes "reachable_projection c cf p m0 (rows, st)" and "pj_source p = log_source cf rows"
    and "well_behaved c cf p rows world" and "run_once c p tick world limit st = (result, st')"
  shows "project_all (pj_registry p) (pj_handler p) m0 (take (nat (checkpoint (pj_name p) st')) rows)
      = Inr (pd_model st')
    \<and> checkpoint (pj_name p) st \<le> checkpoint (pj_name p) st' \<and> checkpoint (pj_name p) st' \<le> int (length rows)"
proof -
  have inv: "project_inv (pj_registry p) (pj_handler p) (pj_name p) m0 (rows, st)"
    by (rule projection.reach_inv [OF assms(1)])
  have steps: "(run_step c cf p)\<^sup>*\<^sup>* (rows, st) (rows, st')"
    using run_once_steps [OF inv assms(3,2), of tick limit] assms(4) by simp
  have "project_inv (pj_registry p) (pj_handler p) (pj_name p) m0 (rows, st')"
    by (rule projection.steps_inv [OF steps inv])
  moreover have "later_world (pj_name p) (rows, st) (rows, st')" by (rule project_steps_later [OF steps inv])
  ultimately show ?thesis by (simp add: project_inv_def later_world_def)
qed

text \<open>
  No event is skipped: as long as an event of the log cannot be normalised or its handler
  refuses it, no run of any worker moves the checkpoint of the projection past it.
\<close>

theorem refused_event_blocks:
  assumes "reachable_projection c cf p m0 (rows, st)" and "k \<le> length rows"
    and "project_all (pj_registry p) (pj_handler p) m0 (take k rows) = Inl x"
    and "(run_step c cf p)\<^sup>*\<^sup>* (rows, st) (rows', st')"
  shows "checkpoint (pj_name p) st' < int k"
proof (rule ccontr)
  let ?n = "nat (checkpoint (pj_name p) st')"
  assume "\<not> checkpoint (pj_name p) st' < int k"
  then have n: "k \<le> ?n" by linarith
  have inv: "project_inv (pj_registry p) (pj_handler p) (pj_name p) m0 (rows, st)"
    by (rule projection.reach_inv [OF assms(1)])
  have "project_inv (pj_registry p) (pj_handler p) (pj_name p) m0 (rows', st')"
    by (rule projection.steps_inv [OF assms(4) inv])
  then have all: "project_all (pj_registry p) (pj_handler p) m0 (take ?n rows') = Inr (pd_model st')"
    by (simp add: project_inv_def)
  have "prefix rows rows'" using project_steps_later [OF assms(4) inv] by (simp add: later_world_def)
  then have "take k (take ?n rows') = take k rows" using n assms(2) by (auto simp: prefix_def min_def)
  then have "take ?n rows' = take k rows @ drop k (take ?n rows')" by (metis append_take_drop_id)
  then have "project_all (pj_registry p) (pj_handler p) m0 (take ?n rows')
      = bind_res (project_all (pj_registry p) (pj_handler p) m0 (take k rows))
          (\<lambda>m. project_all (pj_registry p) (pj_handler p) m (drop k (take ?n rows')))"
    by (metis project_all_append)
  then show False using all assms(3) by simp
qed

end
