(* ===== verification/Projection_Registry.thy ===== *)
theory Projection_Registry
  imports Projection_Schema
begin

text \<open>
  The life of a schema registry: what registration and the seal guarantee, that a sealed registry
  is frozen, and that an event may be rewritten to the next schema version without any projection
  seeing the difference.
\<close>

inductive registry_step :: "registry \<Rightarrow> registry \<Rightarrow> bool" where
  reg_type: "register_event_type t version decoder r = Inr r' \<Longrightarrow> registry_step r r'"
| reg_upcaster: "register_upcaster t version upcaster r = Inr r' \<Longrightarrow> registry_step r r'"
| reg_seal: "seal r = Inr r' \<Longrightarrow> registry_step r r'"

inductive_cases registry_step_E: "registry_step r r'"

definition registry_inv :: "registry \<Rightarrow> bool" where
  "registry_inv r = (dict_keys (rg_decoders r) = dict_keys (rg_versions r) \<and> distinct (dict_keys (rg_versions r))
     \<and> (\<forall>(t, v) \<in> set (rg_versions r). 1 \<le> v) \<and> (rg_sealed r \<longrightarrow> missing_upcasters r = []))"

lemma registry_step_inv:
  assumes "registry_inv r" "registry_step r r'"
  shows "registry_inv r'"
  using assms(2)
proof cases
  case (reg_type t version decoder)
  then have t: "t \<notin> set (dict_keys (rg_versions r))" "1 \<le> version" "\<not> rg_sealed r"
      "r' = r\<lparr>rg_versions := rg_versions r @ [(t, version)], rg_decoders := rg_decoders r @ [(t, decoder)]\<rparr>"
    using assms(1) by (auto simp: register_event_type_def registry_inv_def map_of_eq_None_iff dict_set_fresh
        split: if_splits)
  then show ?thesis using assms(1) by (auto simp: registry_inv_def)
next
  case (reg_upcaster t version upcaster)
  then show ?thesis using assms(1)
    by (auto simp: register_upcaster_def registry_inv_def split: if_splits option.splits)
next
  case reg_seal
  then show ?thesis using assms(1)
    by (auto simp: seal_def registry_inv_def missing_upcasters_def split: if_splits list.splits)
qed

lemma new_registry_inv: "registry_inv new_registry"
  by (simp add: registry_inv_def new_registry_def)

interpretation schema: invariant_system "\<lambda>r. r = new_registry" registry_step registry_inv
  by unfold_locales (auto intro: registry_step_inv new_registry_inv)

abbreviation reachable_registry :: "registry \<Rightarrow> bool" where
  "reachable_registry \<equiv> reach (\<lambda>r. r = new_registry) registry_step"

lemma no_missing:
  assumes "missing_upcasters r = []" "map_of (rg_versions r) t = Some current" "1 \<le> v" "v < current"
  shows "map_of (rg_upcasters r) (t, v) \<noteq> None"
proof -
  have "(t, current) \<in> set (rg_versions r)" using assms(2) by (rule map_of_SomeD)
  then have "(t, v) \<in> set (concat (map (\<lambda>(t, current). map (\<lambda>v. (t, v)) [1..current - 1]) (rg_versions r)))"
    using assms(3,4) by force
  then show ?thesis using assms(1) by (auto simp: missing_upcasters_def filter_empty_conv)
qed

lemma upcast_from_complete:
  assumes "missing_upcasters r = []" "map_of (rg_versions r) t = Some current" "1 \<le> v"
  shows "upcast_from r t current v p \<noteq> Inl (EsMissingUpcaster t' v')"
  using assms
proof (induction r t current v p rule: upcast_from.induct)
  case (1 r t current v p)
  show ?case
  proof (cases "current \<le> v")
    case False
    then obtain f where f: "map_of (rg_upcasters r) (t, v) = Some f"
      using no_missing [OF "1.prems"] by auto
    show ?thesis
      using False f 1 by (subst upcast_from.simps) (auto split: option.splits sum.splits if_splits)
  qed (simp add: upcast_from.simps)
qed

lemma upcast_from_sealed: "upcast_from r t current v p \<noteq> Inl EsUnsealed"
proof (induction r t current v p rule: upcast_from.induct)
  case (1 r t current v p)
  show ?case
  proof (cases "current \<le> v")
    case False
    then show ?thesis
      using 1 by (subst upcast_from.simps) (auto split: option.splits sum.splits if_splits)
  qed (simp add: upcast_from.simps)
qed

lemma extract_version: "extract_payload p = Inr (d, v) \<Longrightarrow> 1 \<le> v"
  by (auto simp: extract_payload_def Let_def split: option.splits json.splits if_splits)

lemma upcast_result:
  assumes "upcast r s = Inr u"
  shows "\<exists>current p v d. map_of (rg_versions r) (ev_event_type (se_event s)) = Some current
    \<and> extract_payload (ev_payload (se_event s)) = Inr (p, v) \<and> v \<le> current
    \<and> u = \<lparr>up_stored = s, up_payload = d, up_source_version = v, up_version = current\<rparr>"
proof -
  obtain current decoder where c: "rg_sealed r" "map_of (rg_versions r) (ev_event_type (se_event s)) = Some current"
      "map_of (rg_decoders r) (ev_event_type (se_event s)) = Some decoder"
    using assms by (auto simp: upcast_def Let_def require_sealed_def res_simps split: option.splits if_splits)
  with assms show ?thesis
    by (cases "extract_payload (ev_payload (se_event s))")
      (auto simp: upcast_def require_sealed_def bind_res_Inr_iff split: if_splits)
qed

lemma upcast_error:
  assumes "upcast r s = Inl x" "rg_sealed r"
  shows "x = EsUnknownType (ev_event_type (se_event s)) \<or> x = PjRaised ''KeyError''
    \<or> extract_payload (ev_payload (se_event s)) = Inl x
    \<or> (\<exists>current p v. map_of (rg_versions r) (ev_event_type (se_event s)) = Some current
        \<and> extract_payload (ev_payload (se_event s)) = Inr (p, v)
        \<and> (x = EsFuture v \<or> upcast_from r (ev_event_type (se_event s)) current v p = Inl x
            \<or> (\<exists>decoder latest. decode_current decoder latest = Inl x)))"
proof (cases "map_of (rg_versions r) (ev_event_type (se_event s))")
  case None
  then show ?thesis using assms by (simp add: upcast_def require_sealed_def)
next
  case v: (Some current)
  show ?thesis
  proof (cases "map_of (rg_decoders r) (ev_event_type (se_event s))")
    case None
    then show ?thesis using assms v by (simp add: upcast_def require_sealed_def)
  next
    case (Some decoder)
    with assms v show ?thesis
      by (cases "extract_payload (ev_payload (se_event s))")
        (auto simp: upcast_def require_sealed_def bind_res_Inl_iff split: if_splits)
  qed
qed

text \<open>
  A sealed registry is complete and frozen: it never lacks an upcaster or a decoder when an
  event arrives, what it delivers has the current version of its type, normalised from a version
  between one and that, and nothing can be registered any more.
\<close>

theorem sealed_registry_complete:
  assumes "reachable_registry r" and "rg_sealed r"
  shows "(\<forall>t v. upcast r s \<noteq> Inl (EsMissingUpcaster t v)) \<and> upcast r s \<noteq> Inl EsUnsealed
    \<and> (\<forall>u. upcast r s = Inr u \<longrightarrow> up_stored u = s \<and> 1 \<le> up_source_version u
        \<and> up_source_version u \<le> up_version u
        \<and> map_of (rg_versions r) (ev_event_type (se_event s)) = Some (up_version u))
    \<and> register_event_type t v d r = Inl EsSealed \<and> register_upcaster t v d r = Inl EsSealed \<and> seal r = Inr r"
proof -
  let ?t = "ev_event_type (se_event s)"
  have inv: "registry_inv r" by (rule schema.reach_inv [OF assms(1)])
  then have m: "missing_upcasters r = []" using assms(2) by (simp add: registry_inv_def)
  have no: "upcast_from r ?t current v p \<noteq> Inl (EsMissingUpcaster t v')"
    if "map_of (rg_versions r) ?t = Some current" "1 \<le> v" for current v p t v'
    by (rule upcast_from_complete [OF m that])
  have dec: "decode_current d p \<noteq> Inl (EsMissingUpcaster t v)" "decode_current d p \<noteq> Inl EsUnsealed" for d p t v
    by (auto simp: decode_current_def split: option.splits sum.splits)
  have ext: "extract_payload p \<noteq> Inl (EsMissingUpcaster t v)" "extract_payload p \<noteq> Inl EsUnsealed" for p t v
    by (auto simp: extract_payload_def Let_def split: option.splits json.splits)
  have "upcast r s \<noteq> Inl (EsMissingUpcaster t v)" for t v
  proof
    assume "upcast r s = Inl (EsMissingUpcaster t v)"
    from upcast_error [OF this assms(2)] show False
      using no dec(1) ext(1) extract_version by auto
  qed
  moreover have "upcast r s \<noteq> Inl EsUnsealed"
  proof
    assume "upcast r s = Inl EsUnsealed"
    from upcast_error [OF this assms(2)] show False
      using upcast_from_sealed dec(2) ext(2) by auto
  qed
  moreover have "up_stored u = s \<and> 1 \<le> up_source_version u \<and> up_source_version u \<le> up_version u
      \<and> map_of (rg_versions r) ?t = Some (up_version u)" if u: "upcast r s = Inr u" for u
  proof -
    obtain current p v d where x: "map_of (rg_versions r) ?t = Some current"
        "extract_payload (ev_payload (se_event s)) = Inr (p, v)" "v \<le> current"
        "u = \<lparr>up_stored = s, up_payload = d, up_source_version = v, up_version = current\<rparr>"
      using upcast_result [OF u] by blast
    then show ?thesis using extract_version [OF x(2)] by simp
  qed
  moreover have "register_event_type t v d r = Inl EsSealed" "register_upcaster t v d r = Inl EsSealed"
      "seal r = Inr r"
    using assms(2) by (simp_all add: register_event_type_def register_upcaster_def seal_def)
  ultimately show ?thesis by blast
qed

section \<open>Rewriting an old event\<close>

text \<open>The stored form of a payload at a schema version.\<close>

definition versioned :: "int \<Rightarrow> (string, json) dict \<Rightarrow> json" where
  "versioned v d = JObj ((schema_version_field, JInt v) # d)"

definition with_payload :: "json \<Rightarrow> stored_event \<Rightarrow> stored_event" where
  "with_payload p s = s\<lparr>se_event := (se_event s)\<lparr>ev_payload := p\<rparr>\<rparr>"

lemma extract_versioned:
  assumes "payload_mapping (versioned v d) \<noteq> None" "schema_version_field \<notin> set (dict_keys d)" "1 \<le> v"
  shows "extract_payload (versioned v d) = Inr (d, v)"
proof -
  have "payload_mapping (versioned v d) = Some ((schema_version_field, JInt v) # d)"
    using assms(1) by (auto simp: payload_mapping_def versioned_def split: sum.splits)
  moreover have "filter (\<lambda>(k, x). k \<noteq> schema_version_field) d = d"
    using assms(2) by (force simp: filter_id_conv)
  ultimately show ?thesis using assms(3) by (simp add: extract_payload_def Let_def)
qed

lemma payload_mapping_obj: "payload_mapping (JObj d) \<noteq> None \<Longrightarrow> payload_mapping (JObj d) = Some d"
  by (auto simp: payload_mapping_def split: sum.splits)

text \<open>
  Schema evolution is path-independent: an event stored at an old version projects to the
  same payload as the event that stores the result of its upcaster at the next version, so a log
  may hold any mixture of versions.
\<close>

theorem upcast_path_independent:
  assumes "map_of (rg_upcasters r) (ev_event_type (se_event s), v) = Some f" and "1 \<le> v"
    and "map_of (rg_versions r) (ev_event_type (se_event s)) = Some current" and "v < current"
    and "payload_mapping (versioned v d) \<noteq> None" and "payload_mapping (JObj d) \<noteq> None"
    and "schema_version_field \<notin> set (dict_keys d)"
    and "f (JObj d) = Inr (JObj d')" and "payload_mapping (versioned (v + 1) d') \<noteq> None"
    and "payload_mapping (JObj d') \<noteq> None" and "schema_version_field \<notin> set (dict_keys d')"
  shows "map_sum id up_payload (upcast r (with_payload (versioned v d) s))
    = map_sum id up_payload (upcast r (with_payload (versioned (v + 1) d') s))"
proof -
  let ?t = "ev_event_type (se_event s)"
  have step: "upcast_from r ?t current v d = upcast_from r ?t current (v + 1) d'"
    using assms(1,4,8,11) payload_mapping_obj [OF assms(6)] payload_mapping_obj [OF assms(10)]
    by (subst upcast_from.simps) simp
  note x = extract_versioned [OF assms(5,7,2)] extract_versioned [OF assms(9,11)]
  let ?rest = "\<lambda>decoder s w. bind_res (upcast_from r ?t current (v + 1) d') (\<lambda>latest.
    bind_res (decode_current decoder latest) (\<lambda>decoded.
      Inr \<lparr>up_stored = s, up_payload = decoded, up_source_version = w, up_version = current\<rparr>))"
  have same: "map_sum id up_payload (?rest decoder s1 v1) = map_sum id up_payload (?rest decoder s2 v2)"
    for decoder s1 s2 v1 v2
    by (cases "upcast_from r ?t current (v + 1) d'"; cases "decode_current decoder (projr (upcast_from r ?t current (v + 1) d'))")
      simp_all
  show ?thesis
  proof (cases "map_of (rg_decoders r) ?t")
    case None
    then show ?thesis using assms(3) by (simp add: upcast_def with_payload_def require_sealed_def res_simps Let_def)
  next
    case (Some decoder)
    show ?thesis
      using Some assms(2,3,4) x step
        same [of decoder "with_payload (versioned v d) s" v "with_payload (versioned (v + 1) d') s" "v + 1"]
      by (simp add: upcast_def with_payload_def require_sealed_def res_simps Let_def)
  qed
qed

end
