(* ===== verification/Projection_Progress.thy ===== *)
theory Projection_Progress
  imports Projection_Props Projection_Registry
begin

text \<open>
  Progress of the projections: a worker that obtains the lease and whose clock keeps it alive
  projects the next batch of the log completely, in one run.
\<close>

section \<open>Times\<close>

definition canonical_time :: "codec \<Rightarrow> int \<Rightarrow> bool" where
  "canonical_time c i = (pc_parse c (pc_text c i) = Some i \<and> pc_text c i \<noteq> []
     \<and> py_strip (pc_text c i) = pc_text c i \<and> length (pc_text c i) \<le> 32)"

text \<open>
  What the code relies on of \<open>datetime\<close>: from any instant that a text denotes to the last one, the
  canonical text of an instant denotes it, has no edge white space and at most 32 characters.
\<close>

definition codec_ok :: "codec \<Rightarrow> bool" where
  "codec_ok c = (\<forall>t i. pc_parse c t = Some i \<longrightarrow> i \<le> pc_last c
     \<and> (\<forall>j. i \<le> j \<and> j \<le> pc_last c \<longrightarrow> canonical_time c j))"

lemma canonical_normal: "canonical_time c i \<Longrightarrow> normalize_instant c (pc_text c i) = Inr (pc_text c i)"
  by (simp add: canonical_time_def normalize_instant_def)

lemma canonical_persisted: "canonical_time c i \<Longrightarrow> persisted_time c (pc_text c i) = Inr ()"
  using canonical_normal [of c i] by (simp add: persisted_time_def canonical_time_def)

lemma canonical_parse: "canonical_time c i \<Longrightarrow> pc_parse c (pc_text c i) = Some i"
  by (simp add: canonical_time_def)

definition lease_micros :: "codec \<Rightarrow> rat \<Rightarrow> int" where
  "lease_micros c s = (if pc_micros c s \<le> 0 then 1 else pc_micros c s)"

lemma lease_micros_pos: "0 < lease_micros c s"
  by (simp add: lease_micros_def)

lemma clock_reading:
  assumes "codec_ok c" "pc_parse c t = Some i"
  shows "normalize_instant c t = Inr (pc_text c i)" "canonical_time c i"
  using assms by (auto simp: codec_ok_def normalize_instant_def)

lemma deadline_reading:
  assumes "codec_ok c" "pc_parse c t = Some i" "check_seconds s = Inr ()" "i + lease_micros c s \<le> pc_last c"
  shows "projection_deadline c (pc_text c i) s = Inr (pc_text c (i + lease_micros c s))"
    "canonical_time c (i + lease_micros c s)"
proof -
  show "canonical_time c (i + lease_micros c s)"
    using assms(1,2,4) lease_micros_pos [of c s] by (auto simp: codec_ok_def)
  show "projection_deadline c (pc_text c i) s = Inr (pc_text c (i + lease_micros c s))"
    using clock_reading(2) [OF assms(1,2)] assms(3,4)
    by (simp add: projection_deadline_def canonical_parse lease_micros_def Let_def)
qed

section \<open>Holding the lease\<close>

text \<open>The row of a worker whose lease \<open>l\<close> lasts until \<open>j\<close>, at checkpoint \<open>q\<close>.\<close>

definition holds_row :: "codec \<Rightarrow> projection_lease \<Rightarrow> int \<Rightarrow> int \<Rightarrow> 'm projection_db \<Rightarrow> offset_row \<Rightarrow> bool" where
  "holds_row c l j q st r = (keyed_offsets st \<and> r \<in> set (pd_offsets st) \<and> lease_row l r \<and> offset_ok c r
     \<and> ow_deadline r = pc_text c j \<and> canonical_time c j \<and> pl_deadline l = pc_text c j \<and> ow_last r = q)"

lemma holds_row_of: "holds_row c l j q st r \<Longrightarrow> row_of ow_projection (pl_projection l) (pd_offsets st) = Some r"
  using row_of_distinct by (fastforce simp: holds_row_def keyed_offsets_def lease_row_def)

lemma held_lease_checks: "holds_row c l j q st r \<Longrightarrow> check_projection_lease c l = Inr ()"
  by (auto simp: holds_row_def check_projection_lease_def check_name_def lease_row_def offset_ok_def canonical_normal)

lemma holds_owned:
  assumes "holds_row c l j q st r" "canonical_time c i" "i < j"
  shows "owned_offset c l (pc_text c i) st = Inr (offset_view r)"
proof -
  have "offset_for c (pl_projection l) r = Inr (offset_view r)"
    using assms(1) by (simp add: offset_for_iff holds_row_def lease_row_def)
  moreover have "live_lease c l (pc_text c i) (offset_view r)"
    using assms by (simp add: live_lease_def holds_row_def lease_row_def is_after_def canonical_parse)
  ultimately show ?thesis using holds_row_of [OF assms(1)] by (simp add: owned_offset_def)
qed

lemma holds_replace:
  assumes "holds_row c l j q st r" "row_advances r r'" "lease_row l' r'" "offset_ok c r'"
    "ow_deadline r' = pc_text c j'" "canonical_time c j'" "pl_deadline l' = pc_text c j'"
    "pd_offsets st' = replace_row ow_projection (ow_projection r) r' (pd_offsets st)"
  shows "holds_row c l' j' (ow_last r') st' r'"
  using assms keyed_replace [OF assms(2), of "pd_offsets st"]
    in_replace_row_iff [of r "pd_offsets st" ow_projection "ow_projection r" r' r']
  by (simp add: holds_row_def keyed_offsets_def)

lemma renew_ok:
  assumes c: "codec_ok c" "pc_parse c t = Some i" "check_seconds s = Inr ()" "i + lease_micros c s \<le> pc_last c"
    and h: "holds_row c l j q st r" "i < j"
  shows "\<exists>l' st' r'. renew_projection c l s t st = Inr (l', st') \<and> holds_row c l' (i + lease_micros c s) q st' r'
    \<and> pl_projection l' = pl_projection l \<and> pd_receipts st' = pd_receipts st \<and> pd_model st' = pd_model st"
proof -
  let ?j = "i + lease_micros c s"
  let ?r = "r\<lparr>ow_deadline := pc_text c ?j, ow_updated := pc_text c i\<rparr>" and ?l = "l\<lparr>pl_deadline := pc_text c ?j\<rparr>"
  let ?st = "st\<lparr>pd_offsets := replace_row ow_projection (ow_projection r) ?r (pd_offsets st)\<rparr>"
  note now = clock_reading [OF c(1,2)] and dl = deadline_reading [OF c]
  have "set_deadline l (offset_view r) (pc_text c ?j) (pc_text c i) st = Inr ?st"
    using h(1) set_deadline_ok by (auto simp: holds_row_def keyed_offsets_def)
  then have "renew_projection c l s t st = Inr (?l, ?st)"
    using c(3) held_lease_checks [OF h(1)] now dl holds_owned [OF h(1) now(2) h(2)] by (simp add: renew_projection_def)
  moreover have "holds_row c ?l ?j (ow_last ?r) ?st ?r"
  proof (rule holds_replace [OF h(1)])
    show "offset_ok c ?r" using h(1) canonical_persisted [OF dl(2)] canonical_persisted [OF now(2)]
      by (simp add: holds_row_def offset_ok_def)
  qed (use h(1) dl in \<open>simp_all add: holds_row_def row_advances_def lease_row_def\<close>)
  ultimately show ?thesis using h(1) by (intro exI [of _ ?l] exI [of _ ?st] exI [of _ ?r]) (simp add: holds_row_def)
qed

lemma release_ok:
  assumes c: "codec_ok c" "pc_parse c t = Some i" and h: "holds_row c l j q st r" "i < j"
  shows "\<exists>st'. release_projection c l t st = Inr st' \<and> pd_model st' = pd_model st
    \<and> checkpoint (pl_projection l) st' = q"
proof -
  let ?r = "r\<lparr>ow_deadline := pc_text c i, ow_updated := pc_text c i\<rparr>"
  let ?st = "st\<lparr>pd_offsets := replace_row ow_projection (ow_projection r) ?r (pd_offsets st)\<rparr>"
  note now = clock_reading [OF c]
  have r: "distinct (map ow_projection (pd_offsets st))" "r \<in> set (pd_offsets st)" "lease_row l r" "ow_last r = q"
    using h(1) by (simp_all add: holds_row_def keyed_offsets_def)
  have "set_deadline l (offset_view r) (pc_text c i) (pc_text c i) st = Inr ?st"
    by (rule set_deadline_ok [OF r(1-3)])
  then have "release_projection c l t st = Inr ?st"
    using held_lease_checks [OF h(1)] now holds_owned [OF h(1) now(2) h(2)] by (simp add: release_projection_def)
  moreover have "checkpoint (pl_projection l) ?st = q"
    using checkpoint_replace [OF r(1,2), of ?r "pl_projection l"] r(3,4) by (simp add: lease_row_def)
  ultimately show ?thesis by simp
qed

text \<open>What the invariant says of the next event: nobody has a receipt of it.\<close>

lemma next_unreceipted:
  assumes inv: "project_inv reg h name m0 (rows, st)" and i: "i < length rows" "checkpoint name st = int i"
  shows "find_receipt name (ev_event_id (se_event (rows ! i))) (pd_receipts st) = None"
    "\<not> list_ex (\<lambda>x. pr_projection x = name \<and> (pr_event_id x = ev_event_id (se_event (rows ! i))
       \<or> pr_position x = se_global_position (rows ! i))) (pd_receipts st)"
proof -
  have pos: "positioned rows" and ids: "distinct (map (\<lambda>r. ev_event_id (se_event r)) rows)"
    using inv by (simp_all add: project_inv_def log_inv_def)
  have rec: "map (\<lambda>r. (pr_event_id r, pr_position r)) (receipts_of name st)
      = map (\<lambda>e. (ev_event_id (se_event e), se_global_position e)) (take i rows)"
    using inv i(2) by (simp add: project_inv_def)
  have no: "pr_event_id x \<noteq> ev_event_id (se_event (rows ! i)) \<and> pr_position x \<noteq> se_global_position (rows ! i)"
    if "x \<in> set (pd_receipts st)" "pr_projection x = name" for x
  proof -
    have "(pr_event_id x, pr_position x) \<in> set (map (\<lambda>r. (pr_event_id r, pr_position r)) (receipts_of name st))"
      using that by (auto simp: receipts_of_def)
    then obtain e where e: "e \<in> set (take i rows)" "pr_event_id x = ev_event_id (se_event e)"
        "pr_position x = se_global_position e"
      unfolding rec by auto
    then obtain k where k: "k < i" "e = rows ! k" using i(1) by (auto simp: in_set_conv_nth)
    have "ev_event_id (se_event (rows ! k)) \<noteq> ev_event_id (se_event (rows ! i))"
      using ids k(1) i(1) by (auto simp: distinct_conv_nth)
    moreover have "se_global_position (rows ! k) \<noteq> se_global_position (rows ! i)"
      using positioned_nth [OF pos] k(1) i(1) by simp
    ultimately show ?thesis using e(2,3) k(2) by simp
  qed
  show "find_receipt name (ev_event_id (se_event (rows ! i))) (pd_receipts st) = None"
    unfolding find_receipt_def row_of_None
  proof
    assume "(name, ev_event_id (se_event (rows ! i)))
      \<in> (\<lambda>r. (pr_projection r, pr_event_id r)) ` set (pd_receipts st)"
    then obtain x where "x \<in> set (pd_receipts st)" "pr_projection x = name"
        "pr_event_id x = ev_event_id (se_event (rows ! i))" by auto
    with no show False by blast
  qed
  show "\<not> list_ex (\<lambda>x. pr_projection x = name \<and> (pr_event_id x = ev_event_id (se_event (rows ! i))
       \<or> pr_position x = se_global_position (rows ! i))) (pd_receipts st)"
    using no by (auto simp: list_ex_iff)
qed

lemma apply_ok:
  assumes inv: "project_inv reg h name m0 (rows, st)" and q: "n < length rows" "q = int n"
    and c: "codec_ok c" "pc_parse c t = Some i" and hd: "holds_row c l j q st r" "i < j" "pl_projection l = name"
    and id: "valid_name (ev_event_id (se_event (rows ! n)))"
    and u: "upcast reg (rows ! n) = Inr u" "h (pd_model st) u = Inr m"
  shows "\<exists>st' off r'. apply_event c l q u h t st = Inr ((True, off), st') \<and> po_last off = q + 1
    \<and> holds_row c l j (q + 1) st' r' \<and> pd_model st' = m"
proof -
  let ?e = "rows ! n" and ?now = "pc_text c i"
  note now = clock_reading [OF c]
  have up: "up_stored u = ?e" by (rule upcast_stored [OF u(1)])
  have r: "distinct (map ow_projection (pd_offsets st))" "r \<in> set (pd_offsets st)" "lease_row l r" "ow_last r = q"
      "offset_ok c r" using hd(1) by (simp_all add: holds_row_def keyed_offsets_def)
  have name: "ow_projection r = name" using r(3) hd(3) by (simp add: lease_row_def)
  have rows: "positioned rows" "\<forall>x \<in> set rows. se_global_position x \<le> max_row_integer"
    using inv by (simp_all add: project_inv_def log_inv_def)
  have pos: "se_global_position ?e = q + 1" "se_global_position ?e \<le> max_row_integer"
    using positioned_nth [OF rows(1) q(1)] rows(2) nth_mem [OF q(1)] q(2) by (simp, blast)
  have cp: "checkpoint name st = int n" using row_of_distinct [OF r(1,2) name] r(4) q(2) by (simp add: checkpoint_def)
  note un = next_unreceipted [OF inv q(1) cp]
  let ?r = "r\<lparr>ow_last := q + 1, ow_updated := ?now\<rparr>"
  let ?rows = "replace_row ow_projection name ?r (pd_offsets st)"
  let ?rec = "\<lparr>pr_projection = name, pr_event_id = ev_event_id (se_event ?e), pr_position = q + 1, pr_applied = ?now\<rparr>"
  let ?st = "\<lparr>pd_offsets = ?rows, pd_receipts = pd_receipts st @ [?rec], pd_model = m\<rparr>"
  have ok: "offset_ok c ?r" using r(5) pos q(2) canonical_persisted [OF now(2)] by (simp add: offset_ok_def)
  have ins: "insert_receipt ?rec (pd_receipts st) = Inr (pd_receipts st @ [?rec])"
    using un(2) pos(1) by (simp add: insert_receipt_def)
  have mv: "move_offset l q (q + 1) ?now (pd_offsets st) = (1, ?rows)"
    using move_offset_owned [OF r(1-4)] name by simp
  have "row_of ow_projection name ?rows = Some ?r"
    using row_of_replace [of ow_projection ?r name "pd_offsets st" name] name r(2) by auto
  then have re: "reread c name ?rows = Inr (offset_view ?r)"
    using ok name by (simp add: reread_def offset_for_iff)
  have "apply_fresh c l q u h ?now st = Inr ((True, offset_view ?r), ?st)"
    using u(2) up pos(1) hd(3) ins mv re by (simp add: apply_fresh_def Let_def)
  moreover have "0 \<le> q \<and> q \<le> max_row_integer" using r(4,5) by (simp add: offset_ok_def)
  ultimately have "apply_event c l q u h t st = Inr ((True, offset_view ?r), ?st)"
    using up pos q(2) id now held_lease_checks [OF hd(1)] holds_owned [OF hd(1) now(2) hd(2)] un(1) hd(3) r(4)
    by (simp add: apply_event_def Let_def check_position_def check_name_def)
  moreover have "holds_row c l j (ow_last ?r) ?st ?r"
    by (rule holds_replace [OF hd(1)])
      (use hd(1) ok name in \<open>simp_all add: holds_row_def row_advances_def lease_row_def\<close>)
  ultimately show ?thesis by (intro exI [of _ ?st] exI [of _ "offset_view ?r"] exI [of _ ?r]) simp
qed

section \<open>A whole run\<close>

text \<open>A clock that keeps the lease alive: three consecutive readings stay within one lease.\<close>

definition lively :: "codec \<Rightarrow> rat \<Rightarrow> (nat \<Rightarrow> string) \<Rightarrow> (nat \<Rightarrow> int) \<Rightarrow> bool" where
  "lively c s tick now = (\<forall>k. pc_parse c (tick k) = Some (now k) \<and> now k \<le> now (Suc k)
     \<and> now (Suc (Suc k)) < now k + lease_micros c s \<and> now k + lease_micros c s \<le> pc_last c)"

lemma project_all_Cons_Inr:
  assumes "project_all reg h m (e # es) = Inr x"
  shows "\<exists>u m'. upcast reg e = Inr u \<and> h m u = Inr m' \<and> project_all reg h m' es = Inr x"
proof (cases "upcast reg e")
  case (Inr u)
  then show ?thesis using assms by (cases "h m u") simp_all
qed (use assms in simp)

lemma take_drop_Cons:
  assumes "e # es = take b (drop n rows)"
  shows "n < length rows \<and> e = rows ! n \<and> es = take (b - 1) (drop (Suc n) rows)"
proof -
  have n: "n < length rows" using assms by (metis drop_all list.distinct(1) not_le take_Nil)
  obtain b' where b: "b = Suc b'" using assms by (cases b) auto
  have "drop n rows = rows ! n # drop (Suc n) rows" using n by (simp add: Cons_nth_drop_Suc)
  then show ?thesis using assms n b by simp
qed

lemma project_events_alone:
  assumes c: "codec_ok c" "check_seconds (pj_seconds p) = Inr ()" "lively c (pj_seconds p) tick now"
    and inv: "project_inv (pj_registry p) (pj_handler p) (pj_name p) m0 (rows, st)"
    and hd: "holds_row c l j (int n) st r" "now k < j" "pl_projection l = pj_name p"
    and es: "es = take b (drop n rows)" "list_all (\<lambda>e. valid_name (ev_event_id (se_event e))) es"
    and all: "project_all (pj_registry p) (pj_handler p) (pd_model st) es = Inr m"
    and last: "rr_last done = int n"
  shows "\<exists>l' j' st' r'. project_events c p tick (\<lambda>_ st. st) es l done k st
      = (Inr \<lparr>rr_scanned = rr_scanned done + length es, rr_applied = rr_applied done + length es,
           rr_deduplicated = rr_deduplicated done, rr_last = int (n + length es)\<rparr>, l', k + 2 * length es, st')
    \<and> holds_row c l' j' (int (n + length es)) st' r' \<and> now (k + 2 * length es) < j'
    \<and> pl_projection l' = pj_name p \<and> pd_model st' = m"
  using inv hd es all last
proof (induction es arbitrary: st l j n k r b "done")
  case Nil
  then show ?case by (cases "done") auto
next
  case (Cons e es)
  let ?reg = "pj_registry p" and ?h = "pj_handler p" and ?name = "pj_name p" and ?s = "pj_seconds p"
  have tick: "pc_parse c (tick i) = Some (now i)" "now i \<le> now (Suc i)"
      "now (Suc (Suc i)) < now i + lease_micros c ?s" "now i + lease_micros c ?s \<le> pc_last c" for i
    using c(3) by (simp_all add: lively_def)
  have n: "n < length rows" "e = rows ! n" "es = take (b - 1) (drop (Suc n) rows)"
    using take_drop_Cons [OF Cons.prems(5)] by blast+
  obtain l1 st1 r1 where rn: "renew_projection c l ?s (tick k) st = Inr (l1, st1)"
      "holds_row c l1 (now k + lease_micros c ?s) (int n) st1 r1" "pl_projection l1 = ?name"
      "pd_receipts st1 = pd_receipts st" "pd_model st1 = pd_model st"
    using renew_ok [OF c(1) tick(1) c(2) tick(4) Cons.prems(2,3)] Cons.prems(4) by auto
  have inv1: "project_inv ?reg ?h ?name m0 (rows, st1)"
    by (rule project_step_inv [OF Cons.prems(1) step_renew [OF rn(1)]])
  obtain u m1 where u: "upcast ?reg e = Inr u" "?h (pd_model st) u = Inr m1"
      "project_all ?reg ?h m1 es = Inr m"
    using project_all_Cons_Inr [OF Cons.prems(7)] by blast
  have next_event: "valid_name (ev_event_id (se_event (rows ! n)))" "upcast ?reg (rows ! n) = Inr u"
      "?h (pd_model st1) u = Inr m1"
    using Cons.prems(6) u n(2) rn(5) by simp_all
  have "now (Suc k) < now k + lease_micros c ?s" using tick(2) [of "Suc k"] tick(3) [of k] by linarith
  then obtain st2 off r2 where ap: "apply_event c l1 (int n) u ?h (tick (Suc k)) st1 = Inr ((True, off), st2)"
      "po_last off = int n + 1" "holds_row c l1 (now k + lease_micros c ?s) (int n + 1) st2 r2" "pd_model st2 = m1"
    using apply_ok [OF inv1 n(1) refl c(1) tick(1) rn(2) _ rn(3) next_event] by blast
  have inv2: "project_inv ?reg ?h ?name m0 (rows, st2)"
    using project_inv_apply [OF inv1 _ _ u(1) rn(3) ap(1)] n inv1 positioned_nth [of rows n]
    by (simp add: project_inv_def)
  let ?done = "\<lparr>rr_scanned = rr_scanned done + 1, rr_applied = rr_applied done + 1,
    rr_deduplicated = rr_deduplicated done, rr_last = int (Suc n)\<rparr>"
  have run: "project_events c p tick (\<lambda>_ st. st) (e # es) l done k st
      = project_events c p tick (\<lambda>_ st. st) es l1 ?done (Suc (Suc k)) st2"
    using rn(1) u(1) ap(1,2) Cons.prems(8) by (simp add: Let_def add.commute)
  have hd2: "holds_row c l1 (now k + lease_micros c ?s) (int (Suc n)) st2 r2" using ap(3) by (simp add: add.commute)
  have "\<exists>l' j' st' r'. project_events c p tick (\<lambda>_ st. st) es l1 ?done (Suc (Suc k)) st2
      = (Inr \<lparr>rr_scanned = rr_scanned ?done + length es, rr_applied = rr_applied ?done + length es,
           rr_deduplicated = rr_deduplicated ?done, rr_last = int (Suc n + length es)\<rparr>, l',
           Suc (Suc k) + 2 * length es, st')
    \<and> holds_row c l' j' (int (Suc n + length es)) st' r' \<and> now (Suc (Suc k) + 2 * length es) < j'
    \<and> pl_projection l' = ?name \<and> pd_model st' = m"
    using Cons.prems(6) u(3) ap(4)
    by (intro Cons.IH [OF inv2 hd2 tick(3) rn(3) n(3)]) simp_all
  then show ?case unfolding run by simp
qed

lemma log_inv_limits: "log_inv rows \<Longrightarrow> \<forall>r \<in> set rows. se_global_position r \<le> max_row_integer"
  by (simp add: log_inv_def)

lemma contiguousI:
  assumes "\<And>i. i < length es \<Longrightarrow> se_global_position (es ! i) = q + int i"
    and "1 \<le> q" "\<forall>e \<in> set es. se_global_position e \<le> max_row_integer"
  shows "contiguous q es"
  using assms
proof (induction es arbitrary: q)
  case (Cons e es)
  have "se_global_position e = q" using Cons.prems(1) [of 0] by simp
  moreover have "contiguous (q + 1) es"
  proof (rule Cons.IH)
    fix i assume "i < length es"
    then show "se_global_position (es ! i) = q + 1 + int i" using Cons.prems(1) [of "Suc i"] by simp
  qed (use Cons.prems in auto)
  ultimately show ?case using Cons.prems(2,3) by simp
qed simp

lemma contiguous_drop:
  assumes "positioned rows" "log_inv rows \<Longrightarrow> \<forall>r \<in> set rows. se_global_position r \<le> max_row_integer" "log_inv rows"
  shows "contiguous (int n + 1) (take b (drop n rows))"
proof (rule contiguousI)
  fix i assume "i < length (take b (drop n rows))"
  then have "n \<le> length rows" "n + i < length rows" "i < b" by auto
  then show "se_global_position (take b (drop n rows) ! i) = int n + 1 + int i"
    using positioned_nth [OF assms(1), of "n + i"] by simp
qed (use assms(2,3) in \<open>auto dest!: in_set_takeD in_set_dropD\<close>)

lemma positioned_filter:
  assumes "positioned rows"
  shows "filter (\<lambda>r. int n < se_global_position r) rows = drop n rows"
proof -
  have "filter (\<lambda>r. int n < se_global_position r) (take n rows) = []"
    using positioned_nth [OF assms] by (auto simp: filter_empty_conv in_set_conv_nth)
  moreover have "filter (\<lambda>r. int n < se_global_position r) (drop n rows) = drop n rows"
    using positioned_nth [OF assms] by (auto simp: filter_id_conv in_set_conv_nth)
  ultimately show ?thesis by (metis append_Nil append_take_drop_id filter_append)
qed

lemma log_source_batch:
  assumes "sorted_wrt (<) (map se_global_position rows)" "positioned rows"
    and "log_source cf rows (int n) limit = Inr es" "n \<le> length rows"
  shows "es = take (nat limit) (drop n rows)"
proof -
  have "all_page cf (int n) (nat limit) rows = Inr es"
    using assms(3) by (auto simp: log_source_def read_all_def res_simps check_cursor_def check_row_integer_def
        check_limit_def split: sum.splits if_splits)
  then have "map_res (row_to_event cf) (take (nat limit) (drop n rows)) = Inr es"
    using all_page_exact [OF assms(1), of cf "int n" "nat limit"] positioned_filter [OF assms(2)] by simp
  then show ?thesis by (rule map_res_row_id)
qed

lemma claim_holds:
  assumes c: "codec_ok c" "check_seconds s = Inr ()" "pc_parse c t = Some i" "i + lease_micros c s \<le> pc_last c"
    and k: "keyed_offsets st" and cl: "claim_projection c name owner s t st = Inr (l, st')"
  shows "\<exists>r. holds_row c l (i + lease_micros c s) (checkpoint name st) st' r \<and> pl_projection l = name
    \<and> pd_model st' = pd_model st"
proof -
  have d: "distinct (map ow_projection (pd_offsets st))" using k by (simp add: keyed_offsets_def)
  let ?j = "i + lease_micros c s"
  note now = clock_reading [OF c(1,3)] and dl = deadline_reading [OF c(1,3,2,4)]
  have names: "valid_name name" "valid_name owner"
    using cl by (auto simp: claim_projection_def res_simps check_name_def split: if_splits)
  show ?thesis
  proof (cases "row_of ow_projection name (pd_offsets st)")
    case None
    let ?r = "\<lparr>ow_projection = name, ow_last = 0, ow_owner = owner, ow_epoch = 1,
      ow_deadline = pc_text c ?j, ow_updated = pc_text c i\<rparr>"
    have new: "st' = st\<lparr>pd_offsets := pd_offsets st @ [?r]\<rparr>"
        "l = \<lparr>pl_projection = name, pl_owner = owner, pl_epoch = 1, pl_deadline = pc_text c ?j\<rparr>"
      using cl None names c(2) now dl by (auto simp: claim_projection_def check_name_def)
    have "name \<notin> ow_projection ` set (pd_offsets st)" using None by (simp add: row_of_None)
    then have "holds_row c l ?j (checkpoint name st) st' ?r"
      using k names dl(2) None canonical_persisted [OF dl(2)] canonical_persisted [OF now(2)]
      by (simp add: holds_row_def keyed_offsets_def new lease_row_def offset_ok_def checkpoint_def max_row_integer_def)
    then show ?thesis by (intro exI [of _ ?r]) (simp add: new)
  next
    case (Some r)
    then have r: "r \<in> set (pd_offsets st)" "ow_projection r = name" using row_of_Some by metis+
    let ?f = "\<lambda>x. x\<lparr>ow_owner := owner, ow_epoch := ow_epoch r + 1, ow_deadline := pc_text c ?j, ow_updated := pc_text c i\<rparr>"
    have upd: "update_where (\<lambda>x. ow_projection x = name) ?f (pd_offsets st)
        = (1, replace_row ow_projection (ow_projection r) (?f r) (pd_offsets st))"
      using r by (intro update_where_key [OF d]) auto
    have new: "offset_ok c r" "ow_epoch r < max_row_integer"
        "l = \<lparr>pl_projection = name, pl_owner = owner, pl_epoch = ow_epoch r + 1, pl_deadline = pc_text c ?j\<rparr>"
        "st' = st\<lparr>pd_offsets := snd (update_where (\<lambda>x. ow_projection x = name) ?f (pd_offsets st))\<rparr>"
      using cl Some names c(2) now dl
      by (auto simp: claim_projection_def check_name_def res_simps offset_for_iff split: if_splits)
    let ?r = "?f r"
    have st': "st' = st\<lparr>pd_offsets := replace_row ow_projection (ow_projection r) ?r (pd_offsets st)\<rparr>"
      unfolding new(4) upd by simp
    have "keyed_offsets st'" using d st' keyed_replace [of r ?r "pd_offsets st"]
      by (simp add: keyed_offsets_def row_advances_def)
    moreover have "?r \<in> set (pd_offsets st')"
      using in_replace_row_iff [OF r(1), of ow_projection "ow_projection r" ?r ?r] st' by simp
    moreover have "offset_ok c ?r"
      using new(1,2) names canonical_persisted [OF dl(2)] canonical_persisted [OF now(2)]
      by (simp add: offset_ok_def)
    ultimately have "holds_row c l ?j (checkpoint name st) st' ?r"
      using r(2) Some dl(2) by (simp add: holds_row_def lease_row_def new(3) checkpoint_def)
    then show ?thesis by (intro exI [of _ ?r]) (simp add: new(3) st')
  qed
qed

text \<open>
  C32. A worker that runs alone makes progress. Let a projector read a log at a reachable state of its
  store, with a limit from 1 to 1000, and let no other worker commit to the store during the run. If its
  clock keeps the lease alive, it gets the lease, the next events can be read and are normalised and
  handled without an error, and each of their ids has at most 255 characters and no white space at its
  ends (\<open>apply_event\<close> refuses any other id, though the log holds such events), then one run applies all
  the events that are there, at most the limit, counts them, and leaves the checkpoint after the last
  one.
\<close>

theorem projector_progress:
  assumes "codec_ok c" and "reachable_projection c cf p m0 (rows, st)" and "new_projector p = Inr p"
    and "pj_source p = log_source cf rows" and "1 \<le> limit" and "limit \<le> 1000"
    and "lively c (pj_seconds p) tick now"
    and "claim_projection c (pj_name p) (pj_owner p) (pj_seconds p) (tick 0) st = Inr (l, st1)"
    and "log_source cf rows (checkpoint (pj_name p) st) limit = Inr es"
    and "list_all (\<lambda>e. valid_name (ev_event_id (se_event e))) es"
    and "project_all (pj_registry p) (pj_handler p) (pd_model st) es = Inr m"
  shows "\<exists>st'. run_once c p tick (\<lambda>_ st. st) limit st
      = (Inr \<lparr>rr_scanned = length es, rr_applied = length es, rr_deduplicated = 0,
           rr_last = checkpoint (pj_name p) st + int (length es)\<rparr>, st')
    \<and> pd_model st' = m \<and> checkpoint (pj_name p) st' = checkpoint (pj_name p) st + int (length es)
    \<and> length es = min (nat limit) (length rows - nat (checkpoint (pj_name p) st))"
proof -
  let ?name = "pj_name p" and ?s = "pj_seconds p"
  define n where "n = nat (checkpoint ?name st)"
  have inv: "project_inv (pj_registry p) (pj_handler p) ?name m0 (rows, st)"
    by (rule projection.reach_inv [OF assms(2)])
  then have n: "checkpoint ?name st = int n" "n \<le> length rows" and pos: "positioned rows"
      and log: "sorted_wrt (<) (map se_global_position rows)"
    by (auto simp: project_inv_def n_def log_inv_def)
  have secs: "check_seconds ?s = Inr ()" and names: "valid_name ?name" "valid_name (pj_owner p)"
    using assms(3) by (auto simp: new_projector_def res_simps check_name_def split: if_splits)
  have inv1: "project_inv (pj_registry p) (pj_handler p) ?name m0 (rows, st1)"
    by (rule project_inv_claim [OF inv assms(8)])
  have es: "es = take (nat limit) (drop n rows)"
    using log_source_batch [OF log pos assms(9) [unfolded n(1)] n(2)] by simp
  have t: "pc_parse c (tick k) = Some (now k)" "now k + lease_micros c ?s \<le> pc_last c" for k
    using assms(7) by (simp_all add: lively_def)
  obtain r where r: "holds_row c l (now 0 + lease_micros c ?s) (int n) st1 r" "pl_projection l = ?name"
      "pd_model st1 = pd_model st"
    using claim_holds [OF assms(1) secs t(1,2) project_inv_keyed [OF inv] assms(8)] n(1) by auto
  have off: "load_offset c ?name st1 = Inr (offset_view r)" "po_last (offset_view r) = int n"
    using holds_row_of [OF r(1)] r names
    by (auto simp: load_offset_def check_name_def offset_for_iff holds_row_def lease_row_def)
  have batch: "check_batch (int n) limit es = Inr es"
    using contiguous_drop [OF pos log_inv_limits, of n "nat limit"] es assms(5) inv n(2)
    by (auto simp: check_batch_def project_inv_def)
  have later: "now 2 < now 0 + lease_micros c ?s"
    using assms(7) by (simp add: lively_def numeral_2_eq_2)
  let ?done = "\<lparr>rr_scanned = 0, rr_applied = 0, rr_deduplicated = 0, rr_last = int n\<rparr>"
  obtain l' j' st' r' where run: "project_events c p tick (\<lambda>_ st. st) es l ?done 2 st1
        = (Inr \<lparr>rr_scanned = length es, rr_applied = length es, rr_deduplicated = 0,
             rr_last = int (n + length es)\<rparr>, l', 2 + 2 * length es, st')"
      "holds_row c l' j' (int (n + length es)) st' r'" "now (2 + 2 * length es) < j'"
      "pl_projection l' = ?name" "pd_model st' = m"
    using project_events_alone [OF assms(1) secs assms(7) inv1 r(1) later r(2) es assms(10), where m = m and ?done = ?done]
      assms(11) r(3) by auto
  obtain st'' where rel: "release_projection c l' (tick (2 + 2 * length es)) st' = Inr st''"
      "pd_model st'' = m" "checkpoint ?name st'' = int (n + length es)"
    using release_ok [OF assms(1) t(1) run(2,3)] run(4,5) by auto
  have "project_batch c p tick (\<lambda>_ st. st) limit l st1
      = (Inr \<lparr>rr_scanned = length es, rr_applied = length es, rr_deduplicated = 0,
           rr_last = int (n + length es)\<rparr>, l', 2 + 2 * length es, st')"
    using off assms(4,9) n(1) batch run(1) by (simp add: project_batch_def Let_def)
  then have "run_once c p tick (\<lambda>_ st. st) limit st
      = (Inr \<lparr>rr_scanned = length es, rr_applied = length es, rr_deduplicated = 0,
           rr_last = int (n + length es)\<rparr>, st'')"
    using assms(5,6,8) rel(1) by (simp add: run_once_def Let_def)
  moreover have "length es = min (nat limit) (length rows - n)" by (simp add: es)
  ultimately show ?thesis using rel n(1) by simp
qed

text \<open>A log, a registry and a projector on which the promises of the projections are checked.\<close>

section \<open>Times and schemas\<close>

text \<open>A calendar of twenty instants, written in unary.\<close>

definition sample_codec :: codec where
  "sample_codec = \<lparr>pc_parse = (\<lambda>t. if t \<noteq> [] \<and> length t \<le> 20 \<and> list_all (\<lambda>x. x = CHR ''x'') t
       then Some (int (length t)) else None),
     pc_text = (\<lambda>i. replicate (nat i) (CHR ''x'')), pc_last = 20, pc_micros = (\<lambda>s. 5)\<rparr>"

lemma strip_replicate: "py_strip (replicate n (CHR ''x'')) = replicate n (CHR ''x'')"
proof -
  have "dropWhile py_space (replicate n (CHR ''x'')) = replicate n (CHR ''x'')"
    by (cases n) (simp_all add: py_space_def)
  then show ?thesis by (simp add: py_strip_def)
qed

lemma sample_canonical:
  assumes "1 \<le> j" "j \<le> 20"
  shows "canonical_time sample_codec j"
proof -
  have "0 < nat j" "nat j \<le> 20" "int (nat j) = j" using assms by simp_all
  then show ?thesis by (simp add: canonical_time_def sample_codec_def strip_replicate list_all_iff)
qed

lemma sample_codec_ok: "codec_ok sample_codec"
  unfolding codec_ok_def
proof (intro allI impI conjI)
  fix t i assume "pc_parse sample_codec t = Some i"
  then have i: "1 \<le> i" "i \<le> 20"
    by (cases t; auto simp: sample_codec_def split: if_splits)+
  then show "i \<le> pc_last sample_codec" by (simp add: sample_codec_def)
  fix j assume "i \<le> j \<and> j \<le> pc_last sample_codec"
  then show "canonical_time sample_codec j" using i by (intro sample_canonical) (auto simp: sample_codec_def)
qed

lemma sample_clock:
  "pc_parse sample_codec ''x'' = Some 1" "pc_text sample_codec 1 = ''x''"
  "pc_parse sample_codec ''xxxxxx'' = Some 6" "pc_text sample_codec 6 = ''xxxxxx''"
  by (simp_all add: sample_codec_def eval_nat_numeral)

lemma sample_lively: "lively sample_codec 30 (\<lambda>k. ''x'') (\<lambda>k. 1)"
  by (simp add: lively_def sample_clock lease_micros_def) (simp add: sample_codec_def)

definition keep_payload :: schema_code where
  "keep_payload p = Inr p"

definition sample_registry :: registry where
  "sample_registry = \<lparr>rg_versions = [(''t'', 2)], rg_decoders = [(''t'', keep_payload)],
     rg_upcasters = [((''t'', 1), keep_payload)], rg_sealed = True\<rparr>"

lemma sample_registry_reach: "reachable_registry sample_registry"
proof -
  let ?r1 = "\<lparr>rg_versions = [(''t'', 2)], rg_decoders = [(''t'', keep_payload)], rg_upcasters = [], rg_sealed = False\<rparr>"
  let ?r2 = "?r1\<lparr>rg_upcasters := [((''t'', 1), keep_payload)]\<rparr>"
  have b: "\<not> blank ''t''" by (simp add: blank_iff py_space_def)
  have "register_event_type ''t'' 2 keep_payload new_registry = Inr ?r1"
    by (simp add: register_event_type_def new_registry_def b)
  then have "registry_step new_registry ?r1" by (rule reg_type)
  moreover have "reachable_registry new_registry" by (rule reach_init) simp
  ultimately have 1: "reachable_registry ?r1" by (rule reach_step [rotated])
  have "register_upcaster ''t'' 1 keep_payload ?r1 = Inr ?r2" by (simp add: register_upcaster_def b)
  then have 2: "reachable_registry ?r2" by (intro reach_step [OF 1 reg_upcaster])
  have "seal ?r2 = Inr sample_registry" by (simp add: seal_def missing_upcasters_def sample_registry_def upto.simps)
  then show ?thesis by (rule reach_step [OF 2 reg_seal])
qed

lemma sample_payload: "payload_mapping (JObj []) = Some []"
  by (simp add: payload_mapping_def copy_payload.simps)

definition sample_upcasted :: upcasted_event where
  "sample_upcasted = \<lparr>up_stored = sample_stored ''now'' None, up_payload = [], up_source_version = 1, up_version = 2\<rparr>"

lemma sample_upcast: "upcast sample_registry (sample_stored ''now'' None) = Inr sample_upcasted"
  by (simp add: upcast_def require_sealed_def sample_registry_def sample_stored_def sample_event_def
      extract_payload_def sample_payload upcast_from.simps decode_current_def keep_payload_def sample_upcasted_def)

lemma sealed_registry_complete_witness:
  "upcast sample_registry (sample_stored ''now'' None) \<noteq> Inl EsUnsealed
     \<and> register_event_type ''u'' 1 keep_payload sample_registry = Inl EsSealed"
  using sealed_registry_complete [OF sample_registry_reach] by (simp add: sample_registry_def)

lemma upcast_path_independent_witness:
  "map_sum id up_payload (upcast sample_registry (with_payload (versioned 1 []) (sample_stored ''now'' None)))
    = map_sum id up_payload (upcast sample_registry (with_payload (versioned 2 []) (sample_stored ''now'' None)))"
  using upcast_path_independent [of sample_registry "sample_stored ''now'' None" 1 keep_payload 2 "[]" "[]"]
  by (simp add: sample_registry_def sample_stored_def sample_event_def sample_payload keep_payload_def
      payload_mapping_def versioned_def copy_payload.simps)

section \<open>A projector\<close>

definition sample_rows :: "stored_event list" where
  "sample_rows = [sample_stored ''now'' None]"

definition counting :: "nat handler" where
  "counting n u = Inr (n + 1)"

definition refusing :: "nat handler" where
  "refusing n u = Inl ''ValueError''"

definition sample_projector :: "nat handler \<Rightarrow> nat projector" where
  "sample_projector h = \<lparr>pj_name = ''p'', pj_owner = ''w'', pj_source = log_source sample_config sample_rows,
     pj_registry = sample_registry, pj_handler = h, pj_seconds = 30\<rparr>"

definition empty_db :: "nat projection_db" where
  "empty_db = \<lparr>pd_offsets = [], pd_receipts = [], pd_model = 0\<rparr>"

lemma sample_projector_sel [simp]:
  "pj_name (sample_projector h) = ''p''" "pj_owner (sample_projector h) = ''w''"
  "pj_source (sample_projector h) = log_source sample_config sample_rows"
  "pj_registry (sample_projector h) = sample_registry" "pj_handler (sample_projector h) = h"
  "pj_seconds (sample_projector h) = 30"
  by (simp_all add: sample_projector_def)

lemma sample_projection_reach: "reachable_projection sample_codec sample_config (sample_projector h) 0 (sample_rows, empty_db)"
proof -
  have "reachable_projection sample_codec sample_config (sample_projector h) 0 ([], empty_db)"
    by (rule reach_init) (simp add: new_world_def empty_db_def)
  moreover have "run_step sample_codec sample_config (sample_projector h) ([], empty_db) (sample_rows, empty_db)"
    by (rule step_log, unfold sample_rows_def, rule log_append, rule sample_append(1))
  ultimately show ?thesis by (rule reach_step)
qed

lemma sample_valid: "valid_name ''p''" "valid_name ''w''" "valid_name ''e1''"
  by (simp_all add: valid_name_def py_strip_def py_space_def)

lemma sample_new_projector: "new_projector (sample_projector h) = Inr (sample_projector h)"
  by (simp add: new_projector_def check_seconds_def check_name_def sample_valid require_sealed_def)
    (simp add: sample_registry_def)

lemma sample_source: "log_source sample_config sample_rows 0 10 = Inr sample_rows"
proof -
  have "all_page sample_config 0 10 sample_rows = Inr sample_rows"
    by (subst all_page_exact) (simp_all add: sample_rows_def sample_event_row, simp add: sample_stored_def sample_event_row)
  then show ?thesis
    by (simp add: log_source_def read_all_def check_cursor_def check_row_integer_def check_limit_def max_row_integer_def)
qed

definition lease_one :: projection_lease where
  "lease_one = \<lparr>pl_projection = ''p'', pl_owner = ''w'', pl_epoch = 1, pl_deadline = ''xxxxxx''\<rparr>"

definition db_one :: "nat projection_db" where
  "db_one = empty_db\<lparr>pd_offsets := [\<lparr>ow_projection = ''p'', ow_last = 0, ow_owner = ''w'', ow_epoch = 1,
     ow_deadline = ''xxxxxx'', ow_updated = ''x''\<rparr>]\<rparr>"

lemma sample_deadline: "normalize_instant sample_codec ''x'' = Inr ''x''"
    "projection_deadline sample_codec ''x'' 30 = Inr ''xxxxxx''" "check_seconds 30 = Inr ()"
proof -
  show s: "check_seconds 30 = Inr ()" by (simp add: check_seconds_def)
  show "normalize_instant sample_codec ''x'' = Inr ''x''" by (simp add: normalize_instant_def sample_clock)
  have "pc_micros sample_codec 30 = 5" "pc_last sample_codec = 20" by (simp_all add: sample_codec_def)
  then show "projection_deadline sample_codec ''x'' 30 = Inr ''xxxxxx''"
    by (simp add: projection_deadline_def s sample_clock)
qed

lemma sample_projection_claim: "claim_projection sample_codec ''p'' ''w'' 30 ''x'' empty_db = Inr (lease_one, db_one)"
  by (simp add: claim_projection_def check_name_def sample_valid sample_deadline)
    (simp add: empty_db_def row_of_def lease_one_def db_one_def)

lemma projector_progress_witness:
  "\<exists>st'. run_once sample_codec (sample_projector counting) (\<lambda>k. ''x'') (\<lambda>_ st. st) 10 empty_db
      = (Inr \<lparr>rr_scanned = 1, rr_applied = 1, rr_deduplicated = 0, rr_last = 1\<rparr>, st')
    \<and> pd_model st' = 1 \<and> checkpoint ''p'' st' = 1"
proof -
  have cp: "checkpoint ''p'' empty_db = 0" by (simp add: checkpoint_def empty_db_def row_of_def)
  have all: "project_all sample_registry counting (pd_model empty_db) sample_rows = Inr 1"
    by (simp add: sample_rows_def sample_upcast counting_def empty_db_def)
  have len: "length sample_rows = 1" and ids: "list_all (\<lambda>e. valid_name (ev_event_id (se_event e))) sample_rows"
    by (simp_all add: sample_rows_def sample_stored_def sample_event_def sample_valid)
  show ?thesis
    using projector_progress [OF sample_codec_ok sample_projection_reach [of counting] sample_new_projector _ _ _ _ _ _ ids,
        where limit = 10 and tick = "\<lambda>k. ''x''" and now = "\<lambda>k. 1" and l = lease_one and ?st1.0 = db_one and m = 1]
    by (simp add: sample_lively sample_projection_claim cp sample_source all len)
qed

lemma projector_exactly_once_witness:
  "project_all sample_registry counting 0 (take (nat (checkpoint ''p'' (snd (run_once sample_codec
       (sample_projector counting) (\<lambda>k. ''x'') (\<lambda>_ st. st) 10 empty_db)))) sample_rows)
    = Inr (pd_model (snd (run_once sample_codec (sample_projector counting) (\<lambda>k. ''x'') (\<lambda>_ st. st) 10 empty_db)))"
  using projector_exactly_once [OF sample_projection_reach [of counting] _ _ prod.collapse [symmetric],
      where world = "\<lambda>_ st. st"] by (simp add: well_behaved_def)

lemma refused_event_blocks_witness: "checkpoint ''p'' empty_db < 1"
  using refused_event_blocks [OF sample_projection_reach [of refusing] _ _ rtranclp.rtrancl_refl, of 1]
  by (simp add: sample_rows_def sample_upcast refusing_def)

lemma takeover_fences_owner_witness: "\<exists>l st. claim_projection sample_codec ''p'' ''w'' 30 ''x'' db_one = Inr (l, st)
    \<and> shut_out sample_codec lease_one st"
proof -
  have t: "persisted_time sample_codec ''x'' = Inr ()" "persisted_time sample_codec ''xxxxxx'' = Inr ()"
    using canonical_persisted [of sample_codec 1] canonical_persisted [of sample_codec 6]
    by (simp_all add: persisted_time_def normalize_instant_def sample_clock py_strip_def py_space_def)
  obtain l st where c: "claim_projection sample_codec ''p'' ''w'' 30 ''x'' db_one = Inr (l, st)"
    using t by (simp add: claim_projection_def check_name_def sample_valid sample_deadline db_one_def row_of_def
        offset_for_iff offset_for_def row_to_offset_def persisted_name_def persisted_integer_def max_row_integer_def)
  have "reachable_projections sample_codec empty_db" by (rule reach_init) (simp add: empty_db_def)
  from takeover_fences_owner [OF this sample_projection_claim rtranclp.rtrancl_refl c rtranclp.rtrancl_refl] c show ?thesis
    by (auto simp: lease_one_def)
qed

end
