(* ===== verification/Artifact_Codec.thy ===== *)
theory Artifact_Codec
  imports Event_History Protocol
begin

text \<open>
  The record format of the artifact ledger in \<open>artifacts.py\<close>: the checks of its fields, the
  bounded validation of metadata, digests and canonical URIs, and the decoder of the payload of an
  \<open>artifact.versioned\<close> event.

  An exception that the decoder or the recorder wraps into its own error is \<open>ArInvalid\<close>. Metadata
  is a JSON document, so it has no cycle: the frames of \<open>_validate_metadata_json\<close> that only
  maintain the set of open containers are left out. The frozen form of metadata (mapping proxies
  and tuples) and its thawed copy are the document itself.
\<close>

datatype artifact_error = ArReplay string | ArRecord string | ArInvalid string | ArKey string
  | ArStore event_error

section \<open>Fields\<close>

definition forbidden_control :: "char \<Rightarrow> bool" where
  "forbidden_control c = ((of_char c :: nat) \<in> {0, 10, 13})"

definition ledger_text :: "nat \<Rightarrow> json \<Rightarrow> artifact_error + string" where
  "ledger_text most v = (case v of
     JStr s \<Rightarrow> if blank s then Inl (ArInvalid ''must not be blank'')
       else if length s > most then Inl (ArInvalid ''exceeds its length limit'')
       else if list_ex forbidden_control s then Inl (ArInvalid ''contains a forbidden control character'')
       else Inr s
   | _ \<Rightarrow> Inl (ArInvalid ''must be text''))"

definition ledger_name :: "json \<Rightarrow> artifact_error + string" where
  "ledger_name v = ledger_text 512 v"

definition positive_integer :: "json \<Rightarrow> artifact_error + int" where
  "positive_integer v = (case v of
     JInt n \<Rightarrow> if 1 \<le> n \<and> n \<le> max_row_integer then Inr n else Inl (ArInvalid ''is outside its supported range'')
   | _ \<Rightarrow> Inl (ArInvalid ''must be an integer''))"

definition ledger_content :: "json \<Rightarrow> artifact_error + string" where
  "ledger_content v = (case v of
     JStr s \<Rightarrow> if utf8_len s > 16 * 1024 * 1024 then Inl (ArInvalid ''content exceeds its byte limit'') else Inr s
   | _ \<Rightarrow> Inl (ArInvalid ''content must be text''))"

text \<open>The pattern \<open>^\d{4}-\d{2}-\d{2}T\d{2}:\d{2}:\d{2}(?:\.\d{6})?Z$\<close>; \<open>d\<close> stands for a digit.\<close>

fun matches_shape :: "string \<Rightarrow> string \<Rightarrow> bool" where
  "matches_shape [] [] = True"
| "matches_shape (p # ps) (x # xs) =
     ((if p = CHR ''d'' then x \<in> set ''0123456789'' else x = p) \<and> matches_shape ps xs)"
| "matches_shape _ _ = False"

definition utc_shape :: "string \<Rightarrow> bool" where
  "utc_shape s = (matches_shape ''dddd-dd-ddTdd:dd:ddZ'' s \<or> matches_shape ''dddd-dd-ddTdd:dd:dd.ddddddZ'' s)"

definition canonical_utc :: "calendar \<Rightarrow> json \<Rightarrow> artifact_error + string" where
  "canonical_utc cal v = (case v of
     JStr s \<Rightarrow> if utc_shape s \<and> cal_norm cal s = Some s then Inr s else Inl (ArInvalid ''must be canonical UTC'')
   | _ \<Rightarrow> Inl (ArInvalid ''must be canonical UTC''))"

definition object_shape :: "string list \<Rightarrow> string list \<Rightarrow> json \<Rightarrow> artifact_error + (string, json) dict" where
  "object_shape required optional v = (case v of
     JObj d \<Rightarrow> if set required \<subseteq> set (dict_keys d) \<and> set (dict_keys d) \<subseteq> set required \<union> set optional
       then Inr d else Inl (ArInvalid ''keys do not match its contract'')
   | _ \<Rightarrow> Inl (ArInvalid ''must be a plain object''))"

text \<open>\<open>d[k]\<close> and \<open>d.get(k, x)\<close> of a plain object.\<close>

definition get_field :: "(string, json) dict \<Rightarrow> string \<Rightarrow> artifact_error + json" where
  "get_field d k = (case map_of d k of None \<Rightarrow> Inl (ArInvalid k) | Some v \<Rightarrow> Inr v)"

definition get_or :: "(string, json) dict \<Rightarrow> string \<Rightarrow> json \<Rightarrow> json" where
  "get_or d k v = (case map_of d k of None \<Rightarrow> v | Some w \<Rightarrow> w)"

section \<open>Metadata\<close>

lemma sizes_of_children [simp]:
  "map (json_nodes \<circ> fst) (map (\<lambda>x. (x, n)) xs) = map json_nodes xs"
  "map (json_nodes \<circ> fst) (map (\<lambda>(k, x). (x, n)) d) = map (\<lambda>(k, v). json_nodes v) d"
  by auto

text \<open>
  The loop of \<open>_validate_metadata_json\<close>: the number of nodes so far and the stack of values still
  to visit, each with the depth of its parent. It ends because the values on the stack shrink.
\<close>

function metadata_loop :: "nat \<Rightarrow> (json \<times> nat) list \<Rightarrow> artifact_error + nat" where
  "metadata_loop nodes [] = Inr nodes"
| "metadata_loop nodes ((v, parent_depth) # stack) =
     (if nodes + 1 > 10000 then Inl (ArInvalid ''metadata exceeds its JSON node limit'')
      else case v of
        JStr s \<Rightarrow> if length s > 65536 then Inl (ArInvalid ''metadata string exceeds its length limit'')
          else metadata_loop (nodes + 1) stack
      | JInt i \<Rightarrow> if \<bar>i\<bar> \<ge> 2 ^ 4096 then Inl (ArInvalid ''metadata integer exceeds its bit limit'')
          else metadata_loop (nodes + 1) stack
      | JArr xs \<Rightarrow>
          if parent_depth + 1 > 64 then Inl (ArInvalid ''metadata exceeds its nesting limit'')
          else if length xs > 10000 - (nodes + 1) then Inl (ArInvalid ''metadata exceeds its JSON node limit'')
          else metadata_loop (nodes + 1) (map (\<lambda>x. (x, parent_depth + 1)) xs @ stack)
      | JObj d \<Rightarrow>
          if parent_depth + 1 > 64 then Inl (ArInvalid ''metadata exceeds its nesting limit'')
          else if length d > (10000 - (nodes + 1)) div 2 then Inl (ArInvalid ''metadata exceeds its JSON node limit'')
          else if list_ex (\<lambda>(k, x). length k > 512) d then Inl (ArInvalid ''metadata key exceeds its length limit'')
          else metadata_loop (nodes + 1 + length d) (map (\<lambda>(k, x). (x, parent_depth + 1)) d @ stack)
      | _ \<Rightarrow> metadata_loop (nodes + 1) stack)"
  by pat_completeness auto
termination
  by (relation "measure (\<lambda>(nodes, stack). sum_list (map (json_nodes \<circ> fst) stack))")
    (auto simp del: map_map)

declare metadata_loop.simps [simp del]

definition validate_metadata :: "json \<Rightarrow> artifact_error + nat" where
  "validate_metadata v = metadata_loop 0 [(v, 0)]"

text \<open>The canonical encoding of metadata, and the decoded copy with its byte and node counts.\<close>

definition decode_metadata :: "platform \<Rightarrow> json \<Rightarrow> artifact_error + json \<times> nat \<times> nat" where
  "decode_metadata pf v = (case v of
     JObj d \<Rightarrow> bind_res (validate_metadata v) (\<lambda>nodes.
       let size = length (canonical_bytes pf v) in
       if size > 1024 * 1024 then Inl (ArInvalid ''metadata exceeds its encoded byte limit'')
       else Inr (sort_json v, size, nodes))
   | _ \<Rightarrow> Inl (ArInvalid ''metadata must be a plain JSON object''))"

section \<open>Digests and URIs\<close>

definition utf8_text :: "string \<Rightarrow> string" where
  "utf8_text s = concat (map utf8_char s)"

definition content_digest :: "platform \<Rightarrow> string \<Rightarrow> string" where
  "content_digest pf content = ''sha256:'' @ pf_sha256 pf (utf8_text content)"

definition sha256_digest_shape :: "string \<Rightarrow> bool" where
  "sha256_digest_shape s = (take 7 s = ''sha256:'' \<and> length s = 71
     \<and> list_all (\<lambda>c. c \<in> set ''0123456789abcdef'') (drop 7 s))"

text \<open>\<open>urllib.parse.quote\<close>: the UTF-8 bytes, those outside the safe set as \<open>%XX\<close>.\<close>

definition always_safe :: string where
  "always_safe = ''ABCDEFGHIJKLMNOPQRSTUVWXYZabcdefghijklmnopqrstuvwxyz0123456789_.-~''"

definition percent_byte :: "char \<Rightarrow> string" where
  "percent_byte b = (let n = (of_char b :: nat) in
     [CHR ''%'', ''0123456789ABCDEF'' ! (n div 16), ''0123456789ABCDEF'' ! (n mod 16)])"

definition quote_text :: "string \<Rightarrow> string \<Rightarrow> string" where
  "quote_text safe s =
     concat (map (\<lambda>b. if b \<in> set always_safe \<or> b \<in> set safe then [b] else percent_byte b) (utf8_text s))"

definition artifact_uri :: "string \<Rightarrow> string \<Rightarrow> int \<Rightarrow> string" where
  "artifact_uri session name version =
     ''artifact://'' @ quote_text '''' session @ ''/'' @ quote_text ''/'' name @ ''/v'' @ int_text version"

section \<open>Versions\<close>

record artifact_version =
  av_ref :: artifact_ref
  av_content :: string
  av_metadata :: json
  av_created_at :: string
  av_trigger :: string

record decoded_version =
  dv_key :: "string \<times> string"
  dv_item :: artifact_version
  dv_content_bytes :: nat
  dv_metadata_bytes :: nat
  dv_metadata_nodes :: nat
  dv_state_bytes :: nat

definition payload_required :: "string list" where
  "payload_required = [''sessionId'', ''taskId'', ''ref'', ''content'', ''createdAt'']"

definition payload_optional :: "string list" where
  "payload_optional = [''metadata'', ''trigger'']"

definition ref_required :: "string list" where
  "ref_required = [''artifactId'', ''name'', ''version'', ''mediaType'', ''uri'', ''digest'', ''createdBy'', ''taskId'']"

definition ref_optional :: "string list" where
  "ref_optional = [''parentVersion'']"

text \<open>The \<open>ref\<close> object of a payload, field by field.\<close>

definition decode_ref :: "json \<Rightarrow> artifact_error + artifact_ref" where
  "decode_ref v =
     bind_res (object_shape ref_required ref_optional v) (\<lambda>d.
     bind_res (bind_res (get_field d ''artifactId'') ledger_name) (\<lambda>artifact_id.
     bind_res (bind_res (get_field d ''name'') ledger_name) (\<lambda>name.
     bind_res (bind_res (get_field d ''version'') positive_integer) (\<lambda>version.
     bind_res (bind_res (get_field d ''mediaType'') (ledger_text 255)) (\<lambda>media_type.
     bind_res (bind_res (get_field d ''uri'') (ledger_text 4096)) (\<lambda>uri.
     bind_res (bind_res (get_field d ''digest'') (ledger_text 71)) (\<lambda>digest.
     bind_res (bind_res (get_field d ''createdBy'') ledger_name) (\<lambda>created_by.
     bind_res (bind_res (get_field d ''taskId'') ledger_name) (\<lambda>task_id.
     bind_res (let p = get_or d ''parentVersion'' JNull in
               if p = JNull then Inr None else bind_res (positive_integer p) (\<lambda>n. Inr (Some n))) (\<lambda>parent.
       Inr \<lparr>af_artifact_id = artifact_id, af_name = name, af_version = version, af_media_type = media_type,
            af_uri = uri, af_digest = digest, af_created_by = created_by, af_task_id = task_id,
            af_parent_version = parent\<rparr>))))))))))"

definition check_ref :: "platform \<Rightarrow> string \<Rightarrow> string \<Rightarrow> string \<Rightarrow> artifact_ref \<Rightarrow> artifact_error + unit" where
  "check_ref pf session task content r =
     (if af_parent_version r \<noteq> (if af_version r > 1 then Some (af_version r - 1) else None)
        then Inl (ArInvalid ''ref.parentVersion does not match ref.version'')
      else if af_task_id r \<noteq> task then Inl (ArInvalid ''payload taskId does not match ref.taskId'')
      else if \<not> sha256_digest_shape (af_digest r) then Inl (ArInvalid ''ref.digest is not canonical SHA-256'')
      else if af_digest r \<noteq> content_digest pf content
        then Inl (ArInvalid ''ref.digest does not match artifact content'')
      else if af_uri r \<noteq> artifact_uri session (af_name r) (af_version r)
        then Inl (ArInvalid ''ref.uri is not the canonical artifact URI'')
      else Inr ())"

definition descriptor_bytes :: "string \<Rightarrow> artifact_ref \<Rightarrow> string \<Rightarrow> string \<Rightarrow> nat" where
  "descriptor_bytes session r created_at trigger = sum_list (map utf8_len
     [session, af_artifact_id r, af_name r, af_media_type r, af_uri r, af_digest r, af_created_by r,
      af_task_id r, created_at, trigger])"

definition decode_version_raw :: "event_config \<Rightarrow> json \<Rightarrow> artifact_error + decoded_version" where
  "decode_version_raw cf v = (let pf = cf_platform cf in
     bind_res (object_shape payload_required payload_optional v) (\<lambda>d.
     bind_res (bind_res (get_field d ''sessionId'') ledger_name) (\<lambda>session.
     bind_res (bind_res (get_field d ''taskId'') ledger_name) (\<lambda>task.
     bind_res (bind_res (get_field d ''content'') ledger_content) (\<lambda>content.
     bind_res (bind_res (get_field d ''createdAt'') (canonical_utc (cf_calendar cf))) (\<lambda>created_at.
     bind_res (ledger_name (get_or d ''trigger'' (JStr ''create''))) (\<lambda>trigger.
     bind_res (decode_metadata pf (get_or d ''metadata'' (JObj []))) (\<lambda>(metadata, metadata_bytes, nodes).
     bind_res (bind_res (get_field d ''ref'') decode_ref) (\<lambda>r.
     bind_res (check_ref pf session task content r) (\<lambda>_.
       Inr \<lparr>dv_key = (session, af_name r),
            dv_item = \<lparr>av_ref = r, av_content = content, av_metadata = metadata,
              av_created_at = created_at, av_trigger = trigger\<rparr>,
            dv_content_bytes = utf8_len content, dv_metadata_bytes = metadata_bytes,
            dv_metadata_nodes = nodes,
            dv_state_bytes = descriptor_bytes session r created_at trigger + utf8_len content
              + metadata_bytes\<rparr>))))))))))"

text \<open>\<open>_decode_persisted_version_with_usage\<close>: whatever goes wrong is one replay error.\<close>

definition decode_version :: "event_config \<Rightarrow> json \<Rightarrow> artifact_error + decoded_version" where
  "decode_version cf v = (case decode_version_raw cf v of
     Inl (ArReplay m) \<Rightarrow> Inl (ArReplay m)
   | Inl _ \<Rightarrow> Inl (ArReplay ''persisted artifact.versioned payload violates its contract'')
   | Inr x \<Rightarrow> Inr x)"

end
