(* ===== verification/Artifact_Ledger.thy ===== *)
theory Artifact_Ledger
  imports Artifact_Codec
begin

text \<open>
  \<open>ArtifactLedger\<close> of \<open>artifacts.py\<close>: the replay of the event log in pages, and the admission of a
  new version, which reads its own replayed state, appends at the position it has seen, and
  reconciles, rebuilds and retries when others were faster.

  The ledger shares the log with other connections and with a COMMIT that may not be acknowledged:
  \<open>lw_rows a k\<close> is what others append before the \<open>k\<close>-th access of attempt \<open>a\<close>, and \<open>lw_ack a\<close>
  says that the append of the attempt, if it commits, also returns.
\<close>

section \<open>State\<close>

record ledger_usage =
  lu_versions :: nat
  lu_content :: nat
  lu_metadata :: nat
  lu_nodes :: nat
  lu_state :: nat

definition no_usage :: ledger_usage where
  "no_usage = \<lparr>lu_versions = 0, lu_content = 0, lu_metadata = 0, lu_nodes = 0, lu_state = 0\<rparr>"

definition include_usage :: "ledger_usage \<Rightarrow> decoded_version \<Rightarrow> ledger_usage" where
  "include_usage u d = \<lparr>lu_versions = lu_versions u + 1, lu_content = lu_content u + dv_content_bytes d,
     lu_metadata = lu_metadata u + dv_metadata_bytes d, lu_nodes = lu_nodes u + dv_metadata_nodes d,
     lu_state = lu_state u + dv_state_bytes d\<rparr>"

definition check_usage :: "ledger_usage \<Rightarrow> artifact_error + unit" where
  "check_usage u =
     (if lu_versions u > 100000 then Inl (ArReplay ''artifact-version count safety limit'')
      else if lu_content u > 256 * 1024 * 1024 then Inl (ArReplay ''content-byte count safety limit'')
      else if lu_metadata u > 64 * 1024 * 1024 then Inl (ArReplay ''metadata-byte count safety limit'')
      else if lu_nodes u > 1000000 then Inl (ArReplay ''metadata-node count safety limit'')
      else if lu_state u > 384 * 1024 * 1024 then Inl (ArReplay ''state-data byte count safety limit'')
      else Inr ())"

type_synonym version_table = "(string \<times> string, artifact_version list) dict"

record ledger =
  lg_versions :: version_table
  lg_usage :: ledger_usage
  lg_position :: int

definition versions_at :: "string \<times> string \<Rightarrow> version_table \<Rightarrow> artifact_version list" where
  "versions_at key t = (case map_of t key of None \<Rightarrow> [] | Some h \<Rightarrow> h)"

section \<open>Replay\<close>

definition artifact_event_type :: string where
  "artifact_event_type = ''artifact.versioned''"

record replay =
  rp_position :: int
  rp_versions :: version_table
  rp_ids :: "string list"
  rp_usage :: ledger_usage

definition new_replay :: replay where
  "new_replay = \<lparr>rp_position = 0, rp_versions = [], rp_ids = [], rp_usage = no_usage\<rparr>"

definition replay_position :: "stored_event \<Rightarrow> int \<Rightarrow> artifact_error + int" where
  "replay_position s after =
     (if se_global_position s \<le> after then Inl (ArReplay ''global positions are not strictly increasing'')
      else Inr (se_global_position s))"

text \<open>The body of the loop over a page.\<close>

definition replay_event :: "event_config \<Rightarrow> stored_event \<Rightarrow> replay \<Rightarrow> artifact_error + replay" where
  "replay_event cf s r =
     bind_res (replay_position s (rp_position r)) (\<lambda>position.
       if ev_event_type (se_event s) \<noteq> artifact_event_type then Inr (r\<lparr>rp_position := position\<rparr>)
       else bind_res (decode_version cf (ev_payload (se_event s))) (\<lambda>d.
         let history = versions_at (dv_key d) (rp_versions r); ref = av_ref (dv_item d) in
         if af_version ref \<noteq> int (length history) + 1
           then Inl (ArReplay ''version chain must start at version 1 and increase by one'')
         else if af_artifact_id ref \<in> set (rp_ids r) then Inl (ArReplay ''duplicate artifact id'')
         else let usage = include_usage (rp_usage r) d in
           bind_res (check_usage usage) (\<lambda>_.
             Inr \<lparr>rp_position = position,
                  rp_versions = dict_set (dv_key d) (history @ [dv_item d]) (rp_versions r),
                  rp_ids = rp_ids r @ [af_artifact_id ref], rp_usage = usage\<rparr>)))"

definition from_store :: "event_error + 'a \<Rightarrow> artifact_error + 'a" where
  "from_store x = (case x of Inl e \<Rightarrow> Inl (ArStore e) | Inr y \<Rightarrow> Inr y)"

text \<open>A page, row by row: the number of rows it had, and the replay after them.\<close>

fun replay_page ::
  "event_config \<Rightarrow> nat \<Rightarrow> replay \<Rightarrow> stored_event list \<Rightarrow> artifact_error + nat \<times> replay" where
  "replay_page cf 0 r rows = Inr (0, r)"
| "replay_page cf (Suc n) r rows =
     bind_res (from_store (next_event cf (rp_position r) rows)) (\<lambda>found.
       case found of None \<Rightarrow> Inr (0, r)
       | Some s \<Rightarrow> bind_res (replay_event cf s r) (\<lambda>r'.
           bind_res (replay_page cf n r' rows) (\<lambda>(count, r''). Inr (Suc count, r''))))"

definition max_replay_events :: nat where
  "max_replay_events = 1000000"

text \<open>The loop over the pages; each page that does not end it replays at least one event.\<close>

function rebuild_loop ::
  "event_config \<Rightarrow> nat \<Rightarrow> replay \<Rightarrow> stored_event list \<Rightarrow> artifact_error + replay" where
  "rebuild_loop cf replayed r rows =
     (if replayed < max_replay_events then
        let page_limit = min 1000 (max_replay_events - replayed) in
        bind_res (replay_page cf page_limit r rows) (\<lambda>(count, r').
          if count = 0 \<or> count < page_limit then Inr r'
          else rebuild_loop cf (replayed + count) r' rows)
      else bind_res (from_store (next_event cf (rp_position r) rows)) (\<lambda>found.
        case found of None \<Rightarrow> Inr r
        | Some s \<Rightarrow> bind_res (replay_position s (rp_position r)) (\<lambda>_.
            Inl (ArReplay ''artifact replay exceeds the event safety limit''))))"
  by pat_completeness auto
termination
  by (relation "measure (\<lambda>(cf, replayed, r, rows). max_replay_events - replayed)") auto

declare rebuild_loop.simps [simp del]

definition ledger_of :: "replay \<Rightarrow> ledger" where
  "ledger_of r = \<lparr>lg_versions = rp_versions r, lg_usage = rp_usage r, lg_position = rp_position r\<rparr>"

definition rebuild :: "event_config \<Rightarrow> stored_event list \<Rightarrow> artifact_error + ledger" where
  "rebuild cf rows = bind_res (rebuild_loop cf 0 new_replay rows) (\<lambda>r. Inr (ledger_of r))"

section \<open>Recording a version\<close>

record artifact_output =
  ao_name :: string
  ao_content :: string
  ao_media_type :: string
  ao_metadata :: json

record record_request =
  rq_session :: string
  rq_task :: string
  rq_agent :: string
  rq_name :: string
  rq_content :: string
  rq_media_type :: string
  rq_metadata :: json
  rq_correlation :: "string option"
  rq_causation :: "string option"
  rq_trigger :: "string option"

record fresh_values =
  fv_artifact_id :: string
  fv_created_at :: string
  fv_event_id :: string
  fv_timestamp :: string

record ledger_world =
  lw_rows :: "nat \<Rightarrow> nat \<Rightarrow> stored_event list \<Rightarrow> stored_event list"
  lw_ack :: "nat \<Rightarrow> bool"
  lw_fresh :: "nat \<Rightarrow> fresh_values"

text \<open>An error of the checks becomes the recorder's error.\<close>

definition as_record :: "string \<Rightarrow> artifact_error + 'a \<Rightarrow> artifact_error + 'a" where
  "as_record m x = (case x of Inl _ \<Rightarrow> Inl (ArRecord m) | Inr y \<Rightarrow> Inr y)"

definition optional_text :: "string option \<Rightarrow> artifact_error + string option" where
  "optional_text t = (case t of None \<Rightarrow> Inr None | Some s \<Rightarrow> bind_res (ledger_name (JStr s)) (\<lambda>x. Inr (Some x)))"

definition capture_request ::
  "event_config \<Rightarrow> string \<Rightarrow> string \<Rightarrow> string \<Rightarrow> artifact_output \<Rightarrow> string option \<Rightarrow> string option
   \<Rightarrow> string option \<Rightarrow> artifact_error + record_request" where
  "capture_request cf session task agent out correlation causation trigger =
     as_record ''artifact record input violates its contract''
      (bind_res (ledger_name (JStr session)) (\<lambda>s.
       bind_res (ledger_name (JStr task)) (\<lambda>t.
       bind_res (ledger_name (JStr agent)) (\<lambda>a.
       bind_res (optional_text correlation) (\<lambda>co.
       bind_res (optional_text causation) (\<lambda>ca.
       bind_res (ledger_name (JStr (ao_name out))) (\<lambda>n.
       bind_res (ledger_content (JStr (ao_content out))) (\<lambda>x.
       bind_res (ledger_text 255 (JStr (ao_media_type out))) (\<lambda>m.
       bind_res (decode_metadata (cf_platform cf) (ao_metadata out)) (\<lambda>(md, size, nodes).
       bind_res (optional_text trigger) (\<lambda>tr.
         Inr \<lparr>rq_session = s, rq_task = t, rq_agent = a, rq_name = n, rq_content = x, rq_media_type = m,
              rq_metadata = md, rq_correlation = co, rq_causation = ca, rq_trigger = tr\<rparr>)))))))))))"

definition request_key :: "record_request \<Rightarrow> string \<times> string" where
  "request_key rq = (rq_session rq, rq_name rq)"

definition request_stream :: "record_request \<Rightarrow> string" where
  "request_stream rq = ''session:'' @ rq_session rq"

definition request_idempotency_key :: "event_config \<Rightarrow> record_request \<Rightarrow> string" where
  "request_idempotency_key cf rq = ''artifact:'' @ rq_task rq @ '':'' @ rq_name rq @ '':''
     @ content_digest (cf_platform cf) (rq_content rq)"

definition version_trigger :: "string option \<Rightarrow> int \<Rightarrow> string" where
  "version_trigger t version = (case t of Some x \<Rightarrow> x
     | None \<Rightarrow> if version = 1 then ''create'' else ''revise'')"

definition request_payload :: "event_config \<Rightarrow> record_request \<Rightarrow> fresh_values \<Rightarrow> int \<Rightarrow> json" where
  "request_payload cf rq f version = JObj
     [(''sessionId'', JStr (rq_session rq)), (''taskId'', JStr (rq_task rq)),
      (''ref'', artifact_ref_to_dict \<lparr>af_artifact_id = fv_artifact_id f, af_name = rq_name rq,
         af_version = version, af_media_type = rq_media_type rq,
         af_uri = artifact_uri (rq_session rq) (rq_name rq) version,
         af_digest = content_digest (cf_platform cf) (rq_content rq), af_created_by = rq_agent rq,
         af_task_id = rq_task rq, af_parent_version = (if version > 1 then Some (version - 1) else None)\<rparr>),
      (''content'', JStr (rq_content rq)), (''metadata'', rq_metadata rq),
      (''createdAt'', JStr (fv_created_at f)), (''trigger'', JStr (version_trigger (rq_trigger rq) version))]"

text \<open>The payload of the next version, checked by the decoder that will replay it.\<close>

definition prepare_version ::
  "event_config \<Rightarrow> record_request \<Rightarrow> fresh_values \<Rightarrow> int \<Rightarrow> artifact_error + json \<times> decoded_version" where
  "prepare_version cf rq f version =
     as_record ''artifact record input violates its contract''
      (bind_res (canonical_utc (cf_calendar cf) (JStr (fv_created_at f))) (\<lambda>_.
         let payload = request_payload cf rq f version in
         bind_res (decode_version cf payload) (\<lambda>d.
           if dv_key d \<noteq> request_key rq then Inl (ArInvalid ''artifact record key changed during validation'')
           else Inr (payload, d))))"

definition artifact_event :: "event_config \<Rightarrow> record_request \<Rightarrow> fresh_values \<Rightarrow> json \<Rightarrow> domain_event" where
  "artifact_event cf rq f payload = \<lparr>ev_stream_id = request_stream rq, ev_event_type = artifact_event_type,
     ev_payload = payload, ev_actor_id = rq_agent rq, ev_event_id = fv_event_id f,
     ev_timestamp = fv_timestamp f, ev_correlation_id = rq_correlation rq,
     ev_causation_id = rq_causation rq, ev_idempotency_key = Some (request_idempotency_key cf rq)\<rparr>"

text \<open>\<open>to_dict\<close> of two events compared: dicts compare without regard to the order of their keys.\<close>

definition same_event :: "domain_event \<Rightarrow> domain_event \<Rightarrow> bool" where
  "same_event a b = (a\<lparr>ev_payload := JNull\<rparr> = b\<lparr>ev_payload := JNull\<rparr>
     \<and> py_value (sort_json (ev_payload a)) = py_value (sort_json (ev_payload b)))"

definition reconcile_committed ::
  "event_config \<Rightarrow> domain_event \<Rightarrow> int \<Rightarrow> stored_event list \<Rightarrow> stored_event option" where
  "reconcile_committed cf e expected rows =
     (case get_idempotent_event cf (ev_stream_id e)
        (case ev_idempotency_key e of None \<Rightarrow> '''' | Some k \<Rightarrow> k) rows of
        Inr (Some s) \<Rightarrow> if se_global_position s \<noteq> expected + 1 \<or> \<not> same_event (se_event s) e then None else Some s
      | _ \<Rightarrow> None)"

definition same_request :: "event_config \<Rightarrow> record_request \<Rightarrow> domain_event \<Rightarrow> artifact_version \<Rightarrow> bool" where
  "same_request cf rq e ver = (let ref = av_ref ver in
     ev_actor_id e = rq_agent rq \<and> ev_correlation_id e = rq_correlation rq \<and> ev_causation_id e = rq_causation rq
     \<and> af_task_id ref = rq_task rq \<and> af_created_by ref = rq_agent rq \<and> af_name ref = rq_name rq
     \<and> af_media_type ref = rq_media_type rq \<and> av_content ver = rq_content rq
     \<and> canonical_bytes (cf_platform cf) (av_metadata ver) = canonical_bytes (cf_platform cf) (rq_metadata rq)
     \<and> av_trigger ver = version_trigger (rq_trigger rq) (af_version ref))"

definition find_version :: "string \<Rightarrow> artifact_version list \<Rightarrow> artifact_version option" where
  "find_version artifact_id h = find (\<lambda>v. af_artifact_id (av_ref v) = artifact_id) h"

definition resolve_idempotent ::
  "event_config \<Rightarrow> record_request \<Rightarrow> stored_event \<Rightarrow> ledger \<Rightarrow> stored_event list
   \<Rightarrow> (artifact_error + artifact_version) \<times> ledger" where
  "resolve_idempotent cf rq s lg rows =
     (if ev_event_type (se_event s) \<noteq> artifact_event_type
        then (Inl (ArReplay ''idempotent artifact key belongs to another event type''), lg)
      else case decode_version cf (ev_payload (se_event s)) of
        Inl x \<Rightarrow> (Inl x, lg)
      | Inr d \<Rightarrow>
          if dv_key d \<noteq> request_key rq
            then (Inl (ArReplay ''idempotent artifact event does not match the requested key''), lg)
          else if \<not> same_request cf rq (se_event s) (dv_item d)
            then (Inl (ArRecord ''idempotent artifact retry changed its request''), lg)
          else let i = af_artifact_id (av_ref (dv_item d)) in
            (case find_version i (versions_at (request_key rq) (lg_versions lg)) of
               Some v \<Rightarrow> (Inr v, lg)
             | None \<Rightarrow>
                 (case rebuild cf rows of
                    Inl x \<Rightarrow> (Inl x, lg)
                  | Inr lg' \<Rightarrow>
                      (case find_version i (versions_at (request_key rq) (lg_versions lg')) of
                         Some v \<Rightarrow> (Inr v, lg')
                       | None \<Rightarrow> (Inl (ArReplay ''idempotent artifact event is missing after replay''), lg')))))"

text \<open>The append of one attempt, with its acknowledgement.\<close>

definition attempt_append ::
  "event_config \<Rightarrow> domain_event \<Rightarrow> int \<Rightarrow> bool \<Rightarrow> stored_event list
   \<Rightarrow> (event_error + stored_event) \<times> stored_event list" where
  "attempt_append cf e expected ack rows =
     (case append_event cf e None (Some expected) rows of
        Inl x \<Rightarrow> (Inl x, rows)
      | Inr (s, rows') \<Rightarrow> (if ack then Inr s else Inl (EvRuntime ''commit was not acknowledged''), rows'))"

definition admit_version ::
  "event_config \<Rightarrow> record_request \<Rightarrow> domain_event \<Rightarrow> decoded_version \<Rightarrow> ledger_usage \<Rightarrow> stored_event
   \<Rightarrow> ledger \<Rightarrow> stored_event list \<Rightarrow> (artifact_error + artifact_version) \<times> ledger" where
  "admit_version cf rq e d usage s lg rows =
     (if ev_event_id (se_event s) \<noteq> ev_event_id e then resolve_idempotent cf rq s lg rows
      else (Inr (dv_item d),
        \<lparr>lg_versions = dict_set (request_key rq)
           (versions_at (request_key rq) (lg_versions lg) @ [dv_item d]) (lg_versions lg),
         lg_usage = usage, lg_position = se_global_position s\<rparr>))"

text \<open>
  The admission loop: \<open>a\<close> is the number of the attempt, \<open>n\<close> how many are left. Returned are the
  outcome, the state of the ledger and the log.
\<close>

fun record_loop ::
  "event_config \<Rightarrow> ledger_world \<Rightarrow> record_request \<Rightarrow> nat \<Rightarrow> nat \<Rightarrow> ledger \<Rightarrow> stored_event list
   \<Rightarrow> (artifact_error + artifact_version) \<times> ledger \<times> stored_event list" where
  "record_loop cf w rq 0 a lg rows = (Inl (ArRecord ''artifact admission loop exhausted without a result''), lg, rows)"
| "record_loop cf w rq (Suc n) a lg rows =
     (let history = versions_at (request_key rq) (lg_versions lg); rows1 = lw_rows w a 0 rows in
      case get_idempotent_event cf (request_stream rq) (request_idempotency_key cf rq) rows1 of
        Inl x \<Rightarrow> (Inl (ArStore x), lg, rows1)
      | Inr (Some s) \<Rightarrow> (let (out, lg') = resolve_idempotent cf rq s lg rows1 in (out, lg', rows1))
      | Inr None \<Rightarrow>
          (case prepare_version cf rq (lw_fresh w a) (int (length history) + 1) of
             Inl x \<Rightarrow> (Inl x, lg, rows1)
           | Inr (payload, d) \<Rightarrow>
               (let usage = include_usage (lg_usage lg) d in
                case as_record ''artifact record would exceed ledger safety limits'' (check_usage usage) of
                  Inl x \<Rightarrow> (Inl x, lg, rows1)
                | Inr _ \<Rightarrow>
                    (let e = artifact_event cf rq (lw_fresh w a) payload; rows2 = lw_rows w a 1 rows1;
                         (out, rows3) = attempt_append cf e (lg_position lg) (lw_ack w a) rows2 in
                     case out of
                       Inr s \<Rightarrow> (let (out, lg') = admit_version cf rq e d usage s lg rows3 in (out, lg', rows3))
                     | Inl x \<Rightarrow>
                         (let rows4 = lw_rows w a 2 rows3 in
                          case reconcile_committed cf e (lg_position lg) rows4 of
                            Some s \<Rightarrow> (let (out, lg') = admit_version cf rq e d usage s lg rows4 in (out, lg', rows4))
                          | None \<Rightarrow>
                              (case x of
                                 EvConcurrency _ \<Rightarrow>
                                   if n = 0 then (Inl (ArRecord ''artifact record admission did not stabilize''), lg, rows4)
                                   else (let rows5 = lw_rows w a 3 rows4 in
                                     case rebuild cf rows5 of
                                       Inl y \<Rightarrow> (Inl y, lg, rows5)
                                     | Inr lg' \<Rightarrow> record_loop cf w rq n (Suc a) lg' rows5)
                               | _ \<Rightarrow> (Inl (ArStore x), lg, rows4)))))))"

definition record_version ::
  "event_config \<Rightarrow> ledger_world \<Rightarrow> string \<Rightarrow> string \<Rightarrow> string \<Rightarrow> artifact_output \<Rightarrow> string option
   \<Rightarrow> string option \<Rightarrow> string option \<Rightarrow> ledger \<Rightarrow> stored_event list
   \<Rightarrow> (artifact_error + artifact_version) \<times> ledger \<times> stored_event list" where
  "record_version cf w session task agent out correlation causation trigger lg rows =
     (case capture_request cf session task agent out correlation causation trigger of
        Inl x \<Rightarrow> (Inl x, lg, rows)
      | Inr rq \<Rightarrow> record_loop cf w rq 8 0 lg rows)"

section \<open>Reads\<close>

definition current_version :: "ledger \<Rightarrow> string \<Rightarrow> string \<Rightarrow> artifact_version option" where
  "current_version lg session name = (case versions_at (session, name) (lg_versions lg) of
     [] \<Rightarrow> None | h \<Rightarrow> Some (last h))"

definition version_history :: "ledger \<Rightarrow> string \<Rightarrow> string \<Rightarrow> artifact_version list" where
  "version_history lg session name = versions_at (session, name) (lg_versions lg)"

definition current_all :: "ledger \<Rightarrow> string \<Rightarrow> artifact_version list" where
  "current_all lg session = map (\<lambda>(k, h). last h)
     (filter (\<lambda>((s, n), h). s = session \<and> h \<noteq> []) (sort_key fst (lg_versions lg)))"

definition by_task :: "ledger \<Rightarrow> string \<Rightarrow> string \<Rightarrow> artifact_version list" where
  "by_task lg session task = sort_key (\<lambda>v. (af_name (av_ref v), af_version (av_ref v)))
     (filter (\<lambda>v. af_task_id (av_ref v) = task)
       (concat (map snd (filter (\<lambda>((s, n), h). s = session) (lg_versions lg)))))"

definition restore_version ::
  "event_config \<Rightarrow> ledger_world \<Rightarrow> string \<Rightarrow> string \<Rightarrow> int \<Rightarrow> string \<Rightarrow> string \<Rightarrow> ledger
   \<Rightarrow> stored_event list \<Rightarrow> (artifact_error + artifact_version) \<times> ledger \<times> stored_event list" where
  "restore_version cf w session name target task actor lg rows =
     (let history = version_history lg session name in
      if target \<le> 0 \<or> target > int (length history) then (Inl (ArKey ''artifact version not found''), lg, rows)
      else let source = history ! nat (target - 1) in
        record_version cf w session task actor \<lparr>ao_name = name, ao_content = av_content source,
            ao_media_type = af_media_type (av_ref source),
            ao_metadata = JObj [(''restoredFrom'', JInt target)]\<rparr>
          None None (Some ''rollback'') lg rows)"

end
