(* ===== verification/Artifact_Replay.thy ===== *)
theory Artifact_Replay
  imports Artifact_Ledger Event_Log_Props
begin

text \<open>
  The replay of the artifact ledger: what the bounded metadata traversal accepts, that the stored
  form of a payload decodes like the payload, that the pages of a replay are one pass over the
  log, and the invariant of the replayed tables.
\<close>

section \<open>Metadata\<close>

text \<open>The contract of metadata without its traversal: every value and every key is a node.\<close>

fun meta_nodes :: "json \<Rightarrow> nat" where
  "meta_nodes (JArr xs) = Suc (sum_list (map meta_nodes xs))"
| "meta_nodes (JObj d) = Suc (sum_list (map (\<lambda>(k, v). Suc (meta_nodes v)) d))"
| "meta_nodes v = 1"

fun meta_fits :: "nat \<Rightarrow> json \<Rightarrow> bool" where
  "meta_fits depth (JArr xs) = (depth < 64 \<and> list_all (meta_fits (depth + 1)) xs)"
| "meta_fits depth (JObj d) = (depth < 64 \<and> list_all (\<lambda>(k, v). length k \<le> 512 \<and> meta_fits (depth + 1) v) d)"
| "meta_fits depth (JStr s) = (length s \<le> 65536)"
| "meta_fits depth (JInt i) = (\<bar>i\<bar> < 2 ^ 4096)"
| "meta_fits depth v = True"

definition stack_nodes :: "(json \<times> nat) list \<Rightarrow> nat" where
  "stack_nodes st = sum_list (map (meta_nodes \<circ> fst) st)"

definition stack_fits :: "(json \<times> nat) list \<Rightarrow> bool" where
  "stack_fits st = list_all (\<lambda>(v, p). meta_fits p v) st"

lemma stack_simps [simp]:
  "stack_nodes [] = 0" "stack_nodes ((v, p) # st) = meta_nodes v + stack_nodes st"
  "stack_nodes (xs @ ys) = stack_nodes xs + stack_nodes ys"
  "stack_fits []" "stack_fits ((v, p) # st) \<longleftrightarrow> meta_fits p v \<and> stack_fits st"
  "stack_fits (xs @ ys) \<longleftrightarrow> stack_fits xs \<and> stack_fits ys"
  by (simp_all add: stack_nodes_def stack_fits_def)

lemma stack_children [simp]:
  "stack_nodes (map (\<lambda>x. (x, p)) xs) = sum_list (map meta_nodes xs)"
  "stack_fits (map (\<lambda>x. (x, p)) xs) = list_all (meta_fits p) xs"
  "stack_nodes (map (\<lambda>(k, x). (x, p)) d) = sum_list (map (\<lambda>(k, x). meta_nodes x) d)"
  "stack_fits (map (\<lambda>(k, x). (x, p)) d) = list_all (\<lambda>(k, x). meta_fits p x) d"
  by (auto simp: stack_nodes_def stack_fits_def comp_def list_all_iff split_def)

lemma meta_nodes_pos: "Suc 0 \<le> meta_nodes v"
  by (cases v) simp_all

lemma entry_fits: "list_all (\<lambda>(k, v). length k \<le> 512 \<and> P v) d
    \<longleftrightarrow> \<not> list_ex (\<lambda>(k, v). 512 < length k) d \<and> list_all (\<lambda>(k, v). P v) d"
  by (induction d) auto

lemma entry_nodes: "sum_list (map (\<lambda>(k, v). Suc (meta_nodes v)) d) = length d + sum_list (map (\<lambda>(k, x). meta_nodes x) d)"
  by (induction d) auto

lemma children_nodes: "length xs \<le> sum_list (map meta_nodes xs)"
  "length d \<le> sum_list (map (\<lambda>(k, x). meta_nodes x) d)"
  using sum_list_mono [of xs "\<lambda>_. 1" meta_nodes] sum_list_mono [of d "\<lambda>_. 1" "\<lambda>(k, x). meta_nodes x"]
  by (force simp: sum_list_triv meta_nodes_pos)+

lemma metadata_loop_iff:
  "metadata_loop nodes st = Inr n \<longleftrightarrow>
     stack_fits st \<and> n = nodes + stack_nodes st \<and> (st = [] \<or> n \<le> 10000)"
proof (induction nodes st arbitrary: n rule: metadata_loop.induct)
  case (2 nodes v p st)
  show ?case
  proof (cases "10000 < nodes + 1")
    case True
    then show ?thesis using meta_nodes_pos [of v] by (auto simp: metadata_loop.simps)
  next
    case few: False
    show ?thesis
    proof (cases v)
      case (JInt i)
      then show ?thesis using few 2(3) [OF few JInt, of n]
        by (cases "2 ^ 4096 \<le> \<bar>i\<bar>") (auto simp: metadata_loop.simps simp del: power_numeral)
    next
      case (JStr s)
      then show ?thesis using few 2(5) [OF few JStr, of n] by (auto simp: metadata_loop.simps)
    next
      case (JArr xs)
      show ?thesis
      proof (cases "64 < p + 1 \<or> 10000 - (nodes + 1) < length xs")
        case True
        then show ?thesis using few children_nodes(1) [of xs] by (auto simp: metadata_loop.simps JArr)
      next
        case fine: False
        then show ?thesis using 2(6) [OF few JArr, of n] few children_nodes(1) [of xs]
          by (auto simp: metadata_loop.simps JArr)
      qed
    next
      case (JObj d)
      show ?thesis
      proof (cases "64 < p + 1 \<or> (10000 - (nodes + 1)) div 2 < length d \<or> list_ex (\<lambda>(k, x). 512 < length k) d")
        case True
        then show ?thesis using few children_nodes(2) [of d] entry_nodes [of d]
          by (auto simp: metadata_loop.simps JObj entry_fits)
      next
        case fine: False
        then show ?thesis using 2(7) [OF few JObj, of n] few children_nodes(2) [of d] entry_nodes [of d]
          by (auto simp: metadata_loop.simps JObj entry_fits)
      qed
    next
      case JNull
      then show ?thesis using few 2(1) [OF few JNull, of n] by (auto simp: metadata_loop.simps)
    next
      case (JBool b)
      then show ?thesis using few 2(2) [OF few JBool, of n] by (auto simp: metadata_loop.simps)
    next
      case (JFloat r)
      then show ?thesis using few 2(4) [OF few JFloat, of n] by (auto simp: metadata_loop.simps)
    qed
  qed
qed (auto simp: metadata_loop.simps)

section \<open>Pages\<close>

text \<open>One pass over the rows of the log, with nothing about pages, queries or limits.\<close>

fun replay_rows :: "event_config \<Rightarrow> stored_event list \<Rightarrow> replay \<Rightarrow> artifact_error + replay" where
  "replay_rows cf [] r = Inr r"
| "replay_rows cf (x # xs) r =
     bind_res (from_store (row_to_event cf x)) (\<lambda>s. bind_res (replay_event cf s r) (replay_rows cf xs))"

lemma replay_rows_append:
  "replay_rows cf (xs @ ys) r = bind_res (replay_rows cf xs r) (replay_rows cf ys)"
proof (induction xs arbitrary: r)
  case (Cons x xs)
  show ?case
  proof (cases "from_store (row_to_event cf x)")
    case (Inr s)
    then show ?thesis by (cases "replay_event cf s r") (simp_all add: Cons)
  qed simp
qed simp

lemma from_store_iff [simp]: "from_store x = Inr y \<longleftrightarrow> x = Inr y"
  by (cases x) (simp_all add: from_store_def)

lemma replay_event_position:
  "replay_event cf s r = Inr r' \<Longrightarrow> rp_position r < se_global_position s \<and> rp_position r' = se_global_position s"
  by (auto simp: replay_event_def replay_position_def Let_def res_simps split: if_splits)

lemma replay_rows_position:
  assumes "replay_rows cf xs r = Inr r'"
  shows "rp_position r' = (if xs = [] then rp_position r else se_global_position (last xs))"
  using assms
proof (induction xs arbitrary: r)
  case (Cons x xs)
  then obtain s r1 where "row_to_event cf x = Inr s" "replay_event cf s r = Inr r1" "replay_rows cf xs r1 = Inr r'"
    by (auto simp: res_simps)
  then show ?case using Cons.IH [of r1] replay_event_position [of cf s r r1] row_to_event_id [of cf x s] by simp
qed simp

definition pending :: "int \<Rightarrow> stored_event list \<Rightarrow> stored_event list" where
  "pending p rows = filter (\<lambda>x. p < se_global_position x) rows"

definition by_position :: "stored_event list \<Rightarrow> bool" where
  "by_position rows = sorted_wrt (<) (map se_global_position rows)"

lemma pending_sorted: "by_position rows \<Longrightarrow> by_position (pending p rows)"
  by (simp add: by_position_def pending_def sorted_wrt_map sorted_wrt_filter)

lemma pending_after:
  assumes "by_position rows" "pending p rows = xs @ ys" "xs \<noteq> []"
  shows "pending (se_global_position (last xs)) rows = ys"
proof -
  let ?l = "se_global_position (last xs)"
  have parts: "xs @ ys = butlast xs @ last xs # ys"
    using assms(3) by (metis append_butlast_last_id append.assoc append_Cons append_Nil)
  have "last xs \<in> set (pending p rows)" using assms(2,3) by simp
  then have "p < ?l" by (simp add: pending_def)
  then have "pending ?l rows = filter (\<lambda>x. ?l < se_global_position x) (pending p rows)"
    by (auto simp: pending_def intro: filter_cong)
  moreover have "by_position (butlast xs @ last xs # ys)"
    using pending_sorted [OF assms(1), of p] by (simp only: assms(2) parts)
  then have "(\<forall>x \<in> set (butlast xs). se_global_position x < ?l) \<and> (\<forall>y \<in> set ys. ?l < se_global_position y)"
    by (auto simp: by_position_def sorted_wrt_append)
  then have "filter (\<lambda>x. ?l < se_global_position x) (butlast xs @ last xs # ys) = ys"
    by (auto simp: filter_empty_conv filter_id_conv)
  ultimately show ?thesis by (simp only: assms(2) parts)
qed

lemma next_event_pending:
  assumes "by_position rows"
  shows "next_event cf p rows = (case pending p rows of [] \<Rightarrow> Inr None
    | x # xs \<Rightarrow> bind_res (row_to_event cf x) (\<lambda>s. Inr (Some s)))"
proof (cases "pending p rows")
  case Nil
  then show ?thesis by (simp add: next_event_def first_by_def pending_def)
next
  case (Cons x xs)
  then have "first_by se_global_position (x # xs) = Some x"
    using pending_sorted [OF assms, of p] by (intro first_sorted) (simp add: by_position_def)
  then show ?thesis using Cons by (simp add: next_event_def pending_def)
qed

lemma replay_page_exact:
  assumes "by_position rows"
  shows "replay_page cf n r rows = (let page = take n (pending (rp_position r) rows) in
    bind_res (replay_rows cf page r) (\<lambda>r'. Inr (length page, r')))"
proof (induction n arbitrary: r)
  case (Suc n)
  show ?case
  proof (cases "pending (rp_position r) rows")
    case (Cons x xs)
    have next_page: "pending (se_global_position x) rows = xs"
      using pending_after [OF assms, of "rp_position r" "[x]" xs] Cons by simp
    show ?thesis
    proof (cases "row_to_event cf x")
      case (Inr s)
      then have "s = x" by (rule row_to_event_id)
      then show ?thesis using Inr Cons next_page Suc.IH replay_event_position [of cf x r]
        by (cases "replay_event cf x r"; cases "replay_rows cf (take n xs) (projr (replay_event cf x r))")
          (simp_all add: next_event_pending [OF assms] from_store_def Let_def)
    qed (use Cons in \<open>simp add: next_event_pending [OF assms] from_store_def\<close>)
  qed (simp add: next_event_pending [OF assms] from_store_def)
qed simp

text \<open>The end of a replay that has stopped at its limit.\<close>

definition replay_end ::
  "event_config \<Rightarrow> stored_event list \<Rightarrow> replay \<Rightarrow> artifact_error + replay" where
  "replay_end cf beyond r = (case beyond of [] \<Rightarrow> Inr r
     | x # _ \<Rightarrow> bind_res (from_store (row_to_event cf x)) (\<lambda>_.
         Inl (ArReplay ''artifact replay exceeds the event safety limit'')))"

lemma rebuild_loop_exact:
  assumes "by_position rows" "replayed \<le> max_replay_events"
  shows "rebuild_loop cf replayed r rows =
    (let ahead = pending (rp_position r) rows; n = max_replay_events - replayed in
     bind_res (replay_rows cf (take n ahead) r) (replay_end cf (drop n ahead)))"
  using assms
proof (induction cf replayed r rows rule: rebuild_loop.induct)
  case (1 cf replayed r rows)
  let ?ahead = "pending (rp_position r) rows" and ?n = "max_replay_events - replayed"
  note unfold = rebuild_loop.simps [of cf replayed r rows]
  show ?case
  proof (cases "replayed < max_replay_events")
    case False
    then have n: "?n = 0" by simp
    show ?thesis
    proof (cases ?ahead)
      case (Cons x xs)
      then have "x \<in> set ?ahead" by simp
      then have "rp_position r < se_global_position x" by (simp add: pending_def)
      then show ?thesis using False n Cons row_to_event_id [of cf x]
        by (cases "row_to_event cf x")
          (auto simp: unfold next_event_pending [OF 1(2)] replay_end_def replay_position_def from_store_def)
    qed (use False n in \<open>simp add: unfold next_event_pending [OF 1(2)] replay_end_def from_store_def\<close>)
  next
    case True
    define p where "p = min 1000 ?n"
    define page where "page = take p ?ahead"
    have p: "0 < p" "p \<le> ?n" using True by (simp_all add: p_def)
    have read: "replay_page cf p r rows = bind_res (replay_rows cf page r) (\<lambda>r'. Inr (length page, r'))"
      unfolding page_def Let_def replay_page_exact [OF 1(2)] ..
    have cut: "take ?n ?ahead = page @ take (?n - p) (drop p ?ahead)"
      "drop ?n ?ahead = drop (?n - p) (drop p ?ahead)"
      unfolding page_def using p(2) by (metis le_add_diff_inverse take_add, metis drop_drop le_add_diff_inverse2)
    have body: "rebuild_loop cf replayed r rows = bind_res (replay_rows cf page r) (\<lambda>r'.
        if length page < p then Inr r' else rebuild_loop cf (replayed + length page) r' rows)"
      using True p(1) by (cases "replay_rows cf page r") (auto simp: unfold Let_def read simp flip: p_def)
    show ?thesis
    proof (cases "replay_rows cf page r")
      case (Inl e)
      then show ?thesis by (simp add: body cut Let_def replay_rows_append)
    next
      case (Inr r')
      show ?thesis
      proof (cases "length page < p")
        case True
        then have "drop p ?ahead = []" by (simp add: page_def)
        then show ?thesis using True Inr by (simp add: body cut Let_def replay_end_def)
      next
        case False
        then have len: "length page = p" by (simp add: page_def)
        then have "page \<noteq> []" using p(1) by auto
        then have "pending (rp_position r') rows = drop p ?ahead"
          using pending_after [OF 1(2), of "rp_position r" page "drop p ?ahead"] replay_rows_position [OF Inr]
          by (simp add: page_def)
        moreover have "rebuild_loop cf (replayed + p) r' rows =
            (let ahead = pending (rp_position r') rows; n = max_replay_events - (replayed + p) in
             bind_res (replay_rows cf (take n ahead) r') (replay_end cf (drop n ahead)))"
          using 1(1) [OF True p_def, of "(p, r')" p r'] Inr len p 1(2,3)
          by (simp add: read)
        ultimately show ?thesis using Inr len by (simp add: body cut Let_def replay_rows_append)
      qed
    qed
  qed
qed

section \<open>The stored form of a payload\<close>

lemma map_of_first: "map_of xs k = (case filter (\<lambda>p. fst p = k) xs of [] \<Rightarrow> None | p # _ \<Rightarrow> Some (snd p))"
  by (induction xs) auto

lemma map_of_sort_key: "map_of (sort_key fst xs) k = map_of xs k"
  by (simp only: map_of_first sort_key_stable)

lemma map_of_sorted:
  "map_of (sort_key fst (map (\<lambda>(k, v). (k, sort_json v)) d)) k = map_option sort_json (map_of d k)"
  by (simp add: map_of_sort_key map_of_map)

lemma sort_json_idem: "sort_json (sort_json v) = sort_json v"
proof (induction v)
  case (JObj d)
  let ?s = "\<lambda>(k, v). (k, sort_json v)"
  have "map ?s (sort_key fst (map ?s d)) = sort_key fst (map ?s (map ?s d))"
    by (rule sort_key_map_fst [symmetric]) (auto split: prod.splits)
  moreover have "map ?s (map ?s d) = map ?s d" using JObj by (auto split: prod.splits)
  ultimately show ?case by (simp only: sort_json.simps sort_key_idem)
qed simp_all

lemma leaf_sorted [simp]:
  "sort_json v = JNull \<longleftrightarrow> v = JNull" "sort_json v = JStr s \<longleftrightarrow> v = JStr s" "sort_json v = JInt i \<longleftrightarrow> v = JInt i"
  by (cases v; simp)+

lemma field_sorted [simp]:
  "ledger_text n (sort_json v) = ledger_text n v" "ledger_name (sort_json v) = ledger_name v"
  "positive_integer (sort_json v) = positive_integer v" "ledger_content (sort_json v) = ledger_content v"
  "canonical_utc cal (sort_json v) = canonical_utc cal v"
  by (cases v; simp add: ledger_text_def ledger_name_def positive_integer_def ledger_content_def canonical_utc_def)+

definition sorted_fields :: "(string, json) dict \<Rightarrow> (string, json) dict" where
  "sorted_fields d = sort_key fst (map (\<lambda>(k, v). (k, sort_json v)) d)"

lemma shape_sorted: "object_shape rq op (sort_json v)
    = (case object_shape rq op v of Inl e \<Rightarrow> Inl e | Inr d \<Rightarrow> Inr (sorted_fields d))"
proof (cases v)
  case (JObj d)
  have "fst ` set (sorted_fields d) = fst ` set d" by (force simp: sorted_fields_def)
  then show ?thesis by (simp add: object_shape_def JObj sorted_fields_def)
qed (simp_all add: object_shape_def)

lemma get_sorted [simp]:
  "get_or (sorted_fields d) k (sort_json v) = sort_json (get_or d k v)"
  "bind_res (get_field (sorted_fields d) k) f = bind_res (get_field d k) (\<lambda>v. f (sort_json v))"
  by (simp_all add: get_or_def get_field_def sorted_fields_def map_of_sorted split: option.splits)

lemma get_or_sorted [simp]:
  "get_or (sorted_fields d) k JNull = sort_json (get_or d k JNull)"
  "get_or (sorted_fields d) k (JStr s) = sort_json (get_or d k (JStr s))"
  "get_or (sorted_fields d) k (JObj []) = sort_json (get_or d k (JObj []))"
  using get_sorted(1) [of d k JNull] get_sorted(1) [of d k "JStr s"] get_sorted(1) [of d k "JObj []"] by simp_all

lemma decode_ref_sorted [simp]: "decode_ref (sort_json v) = decode_ref v"
  by (cases "object_shape ref_required ref_optional v") (simp_all add: decode_ref_def shape_sorted Let_def)

lemma meta_nodes_sorted: "meta_nodes (sort_json v) = meta_nodes v"
proof (induction v)
  case (JArr xs)
  then have "map meta_nodes (map sort_json xs) = map meta_nodes xs" by simp
  then show ?case by (simp only: meta_nodes.simps sort_json.simps)
next
  case (JObj d)
  then have "map (\<lambda>(k, v). Suc (meta_nodes v)) (map (\<lambda>(k, v). (k, sort_json v)) d) = map (\<lambda>(k, v). Suc (meta_nodes v)) d"
    by (auto split: prod.splits)
  then show ?case by (simp only: meta_nodes.simps sort_json.simps sum_list_sort)
qed simp_all

lemma meta_fits_sorted: "meta_fits n (sort_json v) = meta_fits n v"
proof (induction v arbitrary: n)
  case (JObj d)
  then show ?case by (auto simp: list_all_iff)
qed (auto simp: list_all_iff)

lemma validate_metadata_iff:
  "validate_metadata v = Inr n \<longleftrightarrow> meta_fits 0 v \<and> n = meta_nodes v \<and> n \<le> 10000"
  by (auto simp: validate_metadata_def metadata_loop_iff)

lemma decode_metadata_iff:
  "decode_metadata pf v = Inr x \<longleftrightarrow> (\<exists>d. v = JObj d) \<and> meta_fits 0 v \<and> meta_nodes v \<le> 10000
     \<and> length (canonical_bytes pf v) \<le> 1024 * 1024
     \<and> x = (sort_json v, length (canonical_bytes pf v), meta_nodes v)"
  by (cases v) (auto simp: decode_metadata_def validate_metadata_iff res_simps Let_def)

lemma decode_metadata_sorted:
  "decode_metadata pf (sort_json v) = Inr x \<longleftrightarrow> decode_metadata pf v = Inr x"
proof -
  have "(\<exists>d. sort_json v = JObj d) = (\<exists>d. v = JObj d)" by (cases v) simp_all
  then show ?thesis
    by (simp only: decode_metadata_iff canonical_sorted meta_nodes_sorted meta_fits_sorted sort_json_idem)
qed

text \<open>What the recorder checked is what the replay decodes.\<close>

lemma decode_raw_sorted:
  "decode_version_raw cf (sort_json v) = Inr d \<longleftrightarrow> decode_version_raw cf v = Inr d"
proof (cases "object_shape payload_required payload_optional v")
  case (Inr fs)
  then show ?thesis
    by (simp add: decode_version_raw_def shape_sorted Let_def bind_res_Inr_iff decode_metadata_sorted)
qed (simp add: decode_version_raw_def shape_sorted)

lemma decode_version_iff: "decode_version cf v = Inr d \<longleftrightarrow> decode_version_raw cf v = Inr d"
  by (auto simp: decode_version_def split: sum.splits artifact_error.splits)

lemma decode_version_sorted: "decode_version cf (sort_json v) = Inr d \<longleftrightarrow> decode_version cf v = Inr d"
  by (simp only: decode_version_iff decode_raw_sorted)

section \<open>The invariant of the tables\<close>

text \<open>A version at its place in the chain of \<open>(session, name)\<close>.\<close>

definition version_ok :: "event_config \<Rightarrow> string \<times> string \<Rightarrow> int \<Rightarrow> artifact_version \<Rightarrow> bool" where
  "version_ok cf key i v = (let r = av_ref v in
     af_version r = i \<and> af_parent_version r = (if i > 1 then Some (i - 1) else None)
     \<and> af_name r = snd key \<and> af_digest r = content_digest (cf_platform cf) (av_content v)
     \<and> af_uri r = artifact_uri (fst key) (snd key) i)"

definition chain_ok :: "event_config \<Rightarrow> string \<times> string \<Rightarrow> artifact_version list \<Rightarrow> bool" where
  "chain_ok cf key h = (\<forall>i < length h. version_ok cf key (int i + 1) (h ! i))"

text \<open>What a version counts for in the five usage counters.\<close>

definition measured :: "event_config \<Rightarrow> string \<times> string \<Rightarrow> artifact_version \<Rightarrow> decoded_version" where
  "measured cf key v = (let m = length (canonical_bytes (cf_platform cf) (av_metadata v)) in
     \<lparr>dv_key = key, dv_item = v, dv_content_bytes = utf8_len (av_content v), dv_metadata_bytes = m,
      dv_metadata_nodes = meta_nodes (av_metadata v),
      dv_state_bytes = descriptor_bytes (fst key) (av_ref v) (av_created_at v) (av_trigger v)
        + utf8_len (av_content v) + m\<rparr>)"

text \<open>A weight summed over all versions of a table.\<close>

definition weigh :: "(string \<times> string \<Rightarrow> artifact_version \<Rightarrow> 'a :: comm_monoid_add) \<Rightarrow> version_table \<Rightarrow> 'a" where
  "weigh f t = sum_list (map (\<lambda>(k, h). sum_list (map (f k) h)) t)"

definition usage_of :: "event_config \<Rightarrow> version_table \<Rightarrow> ledger_usage" where
  "usage_of cf t = \<lparr>lu_versions = weigh (\<lambda>k v. 1) t,
     lu_content = weigh (\<lambda>k v. dv_content_bytes (measured cf k v)) t,
     lu_metadata = weigh (\<lambda>k v. dv_metadata_bytes (measured cf k v)) t,
     lu_nodes = weigh (\<lambda>k v. dv_metadata_nodes (measured cf k v)) t,
     lu_state = weigh (\<lambda>k v. dv_state_bytes (measured cf k v)) t\<rparr>"

definition artifact_ids :: "version_table \<Rightarrow> string multiset" where
  "artifact_ids t = weigh (\<lambda>k v. {#af_artifact_id (av_ref v)#}) t"

definition tables_ok :: "event_config \<Rightarrow> version_table \<Rightarrow> ledger_usage \<Rightarrow> bool" where
  "tables_ok cf t u = (distinct (dict_keys t) \<and> (\<forall>(key, h) \<in> set t. h \<noteq> [] \<and> chain_ok cf key h)
     \<and> u = usage_of cf t \<and> (\<exists>u'. check_usage u = Inr u'))"

definition replay_inv :: "event_config \<Rightarrow> replay \<Rightarrow> bool" where
  "replay_inv cf r = (tables_ok cf (rp_versions r) (rp_usage r)
     \<and> artifact_ids (rp_versions r) = mset (rp_ids r) \<and> distinct (rp_ids r))"

lemma weigh_add:
  assumes "distinct (dict_keys t)"
  shows "weigh f (dict_set key (versions_at key t @ [v]) t) = weigh f t + f key v"
  using assms
proof (induction t)
  case (Cons p t)
  obtain k h where p: "p = (k, h)" by (cases p)
  show ?case
  proof (cases "k = key")
    case False
    then have "versions_at key (p # t) = versions_at key t" by (simp add: versions_at_def p)
    then show ?thesis using Cons False by (simp add: weigh_def p add.assoc)
  qed (simp add: weigh_def p versions_at_def ac_simps)
qed (simp add: weigh_def versions_at_def)

lemma usage_add:
  assumes "distinct (dict_keys t)"
  shows "usage_of cf (dict_set key (versions_at key t @ [v]) t) = include_usage (usage_of cf t) (measured cf key v)"
  by (simp add: usage_of_def include_usage_def weigh_add [OF assms])

lemma ids_add:
  assumes "distinct (dict_keys t)"
  shows "artifact_ids (dict_set key (versions_at key t @ [v]) t) = add_mset (af_artifact_id (av_ref v)) (artifact_ids t)"
  by (simp add: artifact_ids_def weigh_add [OF assms])

lemma versions_at_set [simp]:
  "versions_at key' (dict_set key h t) = (if key' = key then h else versions_at key' t)"
  by (simp add: versions_at_def dict_simps)

lemma versions_at_in: "versions_at key t \<noteq> [] \<Longrightarrow> (key, versions_at key t) \<in> set t"
  by (auto simp: versions_at_def dest: map_of_SomeD split: option.splits)

lemma chain_at: "tables_ok cf t u \<Longrightarrow> chain_ok cf key (versions_at key t)"
  using versions_at_in [of key t]
  by (cases "versions_at key t = []") (auto simp: tables_ok_def chain_ok_def [of cf key "[]"])

lemma chain_snoc:
  "chain_ok cf key h \<Longrightarrow> version_ok cf key (int (length h) + 1) v \<Longrightarrow> chain_ok cf key (h @ [v])"
  by (auto simp: chain_ok_def nth_append less_Suc_eq)

lemma positive_integer_iff: "positive_integer v = Inr n \<longleftrightarrow> v = JInt n \<and> 1 \<le> n \<and> n \<le> max_row_integer"
  by (cases v) (auto simp: positive_integer_def)

lemma decode_ref_version: "decode_ref v = Inr r \<Longrightarrow> 1 \<le> af_version r"
  by (auto simp: decode_ref_def res_simps positive_integer_iff)

lemma decode_version_Inr:
  assumes "decode_version cf p = Inr d"
  shows "version_ok cf (dv_key d) (af_version (av_ref (dv_item d))) (dv_item d)"
    "d = measured cf (dv_key d) (dv_item d)" "1 \<le> af_version (av_ref (dv_item d))"
proof -
  obtain m d0 r where m: "decode_metadata (cf_platform cf) m = Inr (av_metadata (dv_item d), dv_metadata_bytes d, dv_metadata_nodes d)"
    and ref: "decode_ref r = Inr (av_ref (dv_item d))"
    and check: "check_ref (cf_platform cf) (fst (dv_key d)) (af_task_id (av_ref (dv_item d)))
        (av_content (dv_item d)) (av_ref (dv_item d)) = Inr ()"
    and name: "snd (dv_key d) = af_name (av_ref (dv_item d))"
    and rest: "dv_content_bytes d = utf8_len (av_content (dv_item d))"
      "dv_state_bytes d = descriptor_bytes (fst (dv_key d)) (av_ref (dv_item d)) (av_created_at (dv_item d))
         (av_trigger (dv_item d)) + utf8_len (av_content (dv_item d)) + dv_metadata_bytes d"
    using assms by (auto simp: decode_version_iff decode_version_raw_def Let_def res_simps check_ref_def split: if_splits)
  show "version_ok cf (dv_key d) (af_version (av_ref (dv_item d))) (dv_item d)"
    using check name by (auto simp: version_ok_def check_ref_def Let_def split: if_splits)
  show "1 \<le> af_version (av_ref (dv_item d))"
    by (rule decode_ref_version [OF ref])
  show "d = measured cf (dv_key d) (dv_item d)"
    using m rest by (intro decoded_version.equality)
      (auto simp: measured_def Let_def decode_metadata_iff canonical_sorted meta_nodes_sorted)
qed

lemma replay_event_inv:
  assumes "replay_event cf s r = Inr r'" "replay_inv cf r"
  shows "replay_inv cf r'"
proof (cases "ev_event_type (se_event s) = artifact_event_type")
  case False
  then have "rp_versions r' = rp_versions r" "rp_usage r' = rp_usage r" "rp_ids r' = rp_ids r"
    using assms(1) by (auto simp: replay_event_def res_simps)
  then show ?thesis using assms(2) by (simp add: replay_inv_def)
next
  case True
  then obtain d u where d: "decode_version cf (ev_payload (se_event s)) = Inr d"
    and new: "af_version (av_ref (dv_item d)) = int (length (versions_at (dv_key d) (rp_versions r))) + 1"
      "af_artifact_id (av_ref (dv_item d)) \<notin> set (rp_ids r)"
      "check_usage (include_usage (rp_usage r) d) = Inr u"
    and r': "rp_versions r' = dict_set (dv_key d) (versions_at (dv_key d) (rp_versions r) @ [dv_item d]) (rp_versions r)"
      "rp_ids r' = rp_ids r @ [af_artifact_id (av_ref (dv_item d))]"
      "rp_usage r' = include_usage (rp_usage r) d"
    using assms(1) by (auto simp: replay_event_def res_simps Let_def split: if_splits)
  have ok: "tables_ok cf (rp_versions r) (rp_usage r)" using assms(2) by (simp add: replay_inv_def)
  then have dist: "distinct (dict_keys (rp_versions r))" by (simp add: tables_ok_def)
  note dec = decode_version_Inr [OF d]
  have "chain_ok cf (dv_key d) (versions_at (dv_key d) (rp_versions r) @ [dv_item d])"
    using dec(1) new(1) by (intro chain_snoc chain_at [OF ok]) simp
  then have "\<forall>(key, h) \<in> set (rp_versions r'). h \<noteq> [] \<and> chain_ok cf key h"
    using ok by (auto simp: tables_ok_def r' dest!: dict_set_in)
  moreover have "rp_usage r' = usage_of cf (rp_versions r')"
    using ok usage_add [OF dist, of cf "dv_key d" "dv_item d"] dec(2) by (simp add: r' tables_ok_def)
  ultimately have "tables_ok cf (rp_versions r') (rp_usage r')"
    using new(3) dist r'(3) by (simp add: tables_ok_def r' distinct_update)
  then show ?thesis using assms(2) new(2) by (simp add: replay_inv_def r' ids_add [OF dist])
qed

lemma new_replay_inv: "replay_inv cf new_replay"
  by (simp add: replay_inv_def new_replay_def tables_ok_def usage_of_def weigh_def artifact_ids_def
      no_usage_def check_usage_def)

lemma replay_rows_inv: "replay_rows cf rows r = Inr r' \<Longrightarrow> replay_inv cf r \<Longrightarrow> replay_inv cf r'"
  by (induction rows arbitrary: r) (auto simp: res_simps dest: replay_event_inv)

end
