(* ===== verification/Artifact_Coherence.thy ===== *)
theory Artifact_Coherence
  imports Artifact_Replay
begin

text \<open>
  The cached state of a ledger against the log: what a ledger holds is the replay of the log up to
  the position of the ledger, also when other connections append and a COMMIT is not acknowledged.
\<close>

section \<open>A ledger and its log\<close>

definition seen :: "int \<Rightarrow> stored_event list \<Rightarrow> stored_event list" where
  "seen p rows = filter (\<lambda>s. se_global_position s \<le> p) rows"

definition coherent :: "event_config \<Rightarrow> ledger \<Rightarrow> stored_event list \<Rightarrow> bool" where
  "coherent cf lg rows = (case replay_rows cf (seen (lg_position lg) rows) new_replay of
     Inl e \<Rightarrow> False | Inr r \<Rightarrow> ledger_of r = lg)"

lemma coherentE:
  assumes "coherent cf lg rows"
  obtains r where "replay_rows cf (seen (lg_position lg) rows) new_replay = Inr r" "lg = ledger_of r" "replay_inv cf r"
  using assms by (auto simp: coherent_def split: sum.splits intro: replay_rows_inv new_replay_inv)

lemma coherentI: "replay_rows cf (seen (rp_position r) rows) new_replay = Inr r \<Longrightarrow> coherent cf (ledger_of r) rows"
  by (simp add: coherent_def ledger_of_def)

lemma log_positions: "log_inv rows \<Longrightarrow> by_position rows"
  "log_inv rows \<Longrightarrow> r \<in> set rows \<Longrightarrow> 0 < se_global_position r"
  by (auto simp: log_inv_def by_position_def)

lemma pending_all: "log_inv rows \<Longrightarrow> pending 0 rows = rows"
  by (auto simp: pending_def filter_id_conv dest: log_positions)

lemma seen_position:
  assumes "replay_rows cf (seen p rows) new_replay = Inr r" "rp_position r = p"
  shows "p = 0 \<or> p \<in> se_global_position ` set rows"
proof (cases "seen p rows = []")
  case False
  then have "last (seen p rows) \<in> set (seen p rows)" by simp
  then have "last (seen p rows) \<in> set rows" by (simp add: seen_def)
  then show ?thesis using replay_rows_position [OF assms(1)] False assms(2) by auto
qed (use replay_rows_position [OF assms(1)] assms(2) in \<open>simp add: new_replay_def\<close>)

lemma coherent_extend:
  assumes "coherent cf lg rows" "log_inv rows'" "prefix rows rows'"
  shows "coherent cf lg rows'"
proof -
  obtain r where r: "replay_rows cf (seen (lg_position lg) rows) new_replay = Inr r" "lg = ledger_of r"
    using assms(1) by (rule coherentE)
  obtain more where more: "rows' = rows @ more" using assms(3) by (auto simp: prefix_def)
  have p: "lg_position lg = 0 \<or> lg_position lg \<in> se_global_position ` set rows"
    using seen_position [OF r(1)] r(2) by (simp add: ledger_of_def)
  have "lg_position lg < se_global_position x" if x: "x \<in> set more" for x
    using p log_positions(2) [OF assms(2), of x] log_positions(1) [OF assms(2)] x
    by (auto simp: more by_position_def sorted_wrt_append)
  then have "seen (lg_position lg) rows' = seen (lg_position lg) rows"
    by (fastforce simp: seen_def more filter_empty_conv)
  then show ?thesis using assms(1) by (simp add: coherent_def)
qed

lemma rebuild_exact:
  assumes "log_inv rows"
  shows "rebuild cf rows = bind_res (bind_res (replay_rows cf (take max_replay_events rows) new_replay)
    (replay_end cf (drop max_replay_events rows))) (\<lambda>r. Inr (ledger_of r))"
proof -
  have "rp_position new_replay = 0" by (simp add: new_replay_def)
  then show ?thesis
    by (simp add: rebuild_def rebuild_loop_exact [OF log_positions(1) [OF assms]] pending_all [OF assms] Let_def)
qed

lemma rebuild_Inr:
  assumes "log_inv rows" "rebuild cf rows = Inr lg"
  shows "\<exists>r. replay_rows cf rows new_replay = Inr r \<and> lg = ledger_of r"
proof -
  obtain r where r: "replay_rows cf (take max_replay_events rows) new_replay = Inr r"
    "replay_end cf (drop max_replay_events rows) r = Inr r" "lg = ledger_of r"
    using assms(2) by (auto simp: rebuild_exact [OF assms(1)] res_simps)
       (auto simp: replay_end_def res_simps split: list.splits)
  then have "drop max_replay_events rows = []"
    by (auto simp: replay_end_def res_simps split: list.splits)
  then show ?thesis using r by auto
qed

lemma seen_all:
  assumes "log_inv rows" "replay_rows cf rows new_replay = Inr r"
  shows "seen (rp_position r) rows = rows"
proof (cases rows rule: rev_cases)
  case (snoc xs x)
  then have "\<forall>y \<in> set rows. se_global_position y \<le> se_global_position x"
    using log_positions(1) [OF assms(1)] by (auto simp: by_position_def sorted_wrt_append intro: less_imp_le)
  then show ?thesis using replay_rows_position [OF assms(2)] snoc by (simp add: seen_def filter_id_conv)
qed (simp add: seen_def)

lemma coherent_rebuild:
  assumes "log_inv rows" "rebuild cf rows = Inr lg"
  shows "coherent cf lg rows"
  using rebuild_Inr [OF assms] seen_all [OF assms(1)] by (auto intro!: coherentI)

lemma coherent_add:
  assumes "log_inv rows" "s \<in> set rows" "row_to_event cf s = Inr s"
    and "replay_rows cf (seen (rp_position r) rows) new_replay = Inr r"
    and "se_global_position s = rp_position r + 1" "replay_event cf s r = Inr r'"
  shows "coherent cf (ledger_of r') rows"
proof -
  obtain a b where ab: "rows = a @ s # b" using assms(2) by (meson split_list)
  have around: "(\<forall>x \<in> set a. se_global_position x < se_global_position s) \<and> (\<forall>x \<in> set b. se_global_position s < se_global_position x)"
    using log_positions(1) [OF assms(1)] by (auto simp: ab by_position_def sorted_wrt_append)
  then have "filter (\<lambda>x. se_global_position x \<le> p) a = a \<and> filter (\<lambda>x. se_global_position x \<le> p) b = []"
    if "p = rp_position r \<or> p = se_global_position s" for p
    using assms(5) that by (force simp: filter_empty_conv filter_id_conv)
  then have "seen (rp_position r) rows = a" "seen (se_global_position s) rows = a @ [s]"
    using assms(5) by (simp_all add: seen_def ab)
  then show ?thesis
    using assms(3,4,6) replay_event_position [OF assms(6)]
    by (intro coherentI) (simp add: replay_rows_append from_store_def)
qed

section \<open>The world of a ledger\<close>

text \<open>An id that no event of the log has taken.\<close>

definition unused :: "event_config \<Rightarrow> fresh_values \<Rightarrow> stored_event list \<Rightarrow> bool" where
  "unused cf f rows = list_all (\<lambda>r. ev_event_id (se_event r) \<noteq> fv_event_id f
     \<and> (case decode_version cf (ev_payload (se_event r)) of Inl e \<Rightarrow> True
        | Inr d \<Rightarrow> af_artifact_id (av_ref (dv_item d)) \<noteq> fv_artifact_id f)) rows"

definition fresh_readable :: "event_config \<Rightarrow> fresh_values \<Rightarrow> bool" where
  "fresh_readable cf f = (\<not> blank (fv_event_id f) \<and> \<not> blank (fv_timestamp f)
     \<and> cal_norm (cf_calendar cf) (fv_timestamp f) \<noteq> None)"

text \<open>
  Other connections only append, and neither they nor this ledger draw an id twice: the generator
  of ids is \<open>uuid4\<close>, and the clock writes times that parse.
\<close>

definition steady :: "event_config \<Rightarrow> ledger_world \<Rightarrow> bool" where
  "steady cf w = ((\<forall>a k rows. (log_step cf)\<^sup>*\<^sup>* rows (lw_rows w a k rows))
     \<and> (\<forall>a. fresh_readable cf (lw_fresh w a))
     \<and> (\<forall>a b k rows. unused cf (lw_fresh w b) rows \<longrightarrow> unused cf (lw_fresh w b) (lw_rows w a k rows)))"

section \<open>What a request becomes\<close>

lemma snapshot_event_eq: "snapshot_event cf e = Inr e' \<Longrightarrow> e' = e\<lparr>ev_payload := sort_json (ev_payload e)\<rparr>"
  by (auto simp: snapshot_event_def check_event_def snapshot_json_def res_simps split: if_splits json.splits)

lemma as_record_Inr [simp]: "as_record m x = Inr y \<longleftrightarrow> x = Inr y"
  by (cases x) (simp_all add: as_record_def)

definition answers :: "event_config \<Rightarrow> record_request \<Rightarrow> artifact_version \<Rightarrow> bool" where
  "answers cf rq v = (let ref = av_ref v in
     af_task_id ref = rq_task rq \<and> af_created_by ref = rq_agent rq \<and> af_name ref = rq_name rq
     \<and> af_media_type ref = rq_media_type rq \<and> av_content v = rq_content rq
     \<and> canonical_bytes (cf_platform cf) (av_metadata v) = canonical_bytes (cf_platform cf) (rq_metadata rq)
     \<and> av_trigger v = version_trigger (rq_trigger rq) (af_version ref))"

lemma same_request_iff: "same_request cf rq e v \<longleftrightarrow> ev_actor_id e = rq_agent rq
    \<and> ev_correlation_id e = rq_correlation rq \<and> ev_causation_id e = rq_causation rq \<and> answers cf rq v"
  by (auto simp: same_request_def answers_def Let_def)

lemma text_Inr [simp]:
  "ledger_text n (JStr s) = Inr x \<longleftrightarrow> x = s \<and> \<not> blank s \<and> length s \<le> n \<and> \<not> list_ex forbidden_control s"
  "ledger_name v = ledger_text 512 v"
  "ledger_content (JStr s) = Inr x \<longleftrightarrow> x = s \<and> utf8_len s \<le> 16 * 1024 * 1024"
  "canonical_utc cal (JStr s) = Inr x \<longleftrightarrow> x = s \<and> utc_shape s \<and> cal_norm cal s = Some s"
  by (auto simp: ledger_text_def ledger_name_def ledger_content_def canonical_utc_def)

lemma fields_at [simp]:
  "get_field ((k, v) # d) k' = (if k' = k then Inr v else get_field d k')"
  "get_or ((k, v) # d) k' w = (if k' = k then v else get_or d k' w)"
  by (simp_all add: get_field_def get_or_def)

lemma object_shape_Inr: "object_shape rq op v = Inr d \<Longrightarrow> v = JObj d"
  by (auto simp: object_shape_def split: json.splits if_splits)

lemma decode_own_ref:
  assumes "decode_ref (artifact_ref_to_dict r) = Inr r'"
  shows "r' = r"
proof -
  obtain d where d: "object_shape ref_required ref_optional (artifact_ref_to_dict r) = Inr d"
    using assms by (cases "object_shape ref_required ref_optional (artifact_ref_to_dict r)") (simp_all add: decode_ref_def)
  have fields: "d = [(''artifactId'', JStr (af_artifact_id r)), (''name'', JStr (af_name r)),
      (''version'', JInt (af_version r)), (''mediaType'', JStr (af_media_type r)),
      (''uri'', JStr (af_uri r)), (''digest'', JStr (af_digest r)),
      (''createdBy'', JStr (af_created_by r)), (''taskId'', JStr (af_task_id r)),
      (''parentVersion'', jopt JInt (af_parent_version r))]"
    using object_shape_Inr [OF d] by (simp add: artifact_ref_to_dict_def)
  show ?thesis using assms unfolding decode_ref_def d bind_res.simps fields
    by (cases "af_parent_version r")
      (simp_all add: bind_res_Inr_iff positive_integer_iff jopt_def Let_def,
        (elim conjE, hypsubst, simp)+)
qed

lemma prepare_Inr:
  assumes "prepare_version cf rq f n = Inr (payload, d)"
  shows "payload = request_payload cf rq f n" "decode_version cf payload = Inr d" "dv_key d = request_key rq"
    "af_artifact_id (av_ref (dv_item d)) = fv_artifact_id f" "af_version (av_ref (dv_item d)) = n"
    "answers cf rq (dv_item d)"
proof -
  show p: "payload = request_payload cf rq f n" and d: "decode_version cf payload = Inr d"
    and "dv_key d = request_key rq"
    using assms by (auto simp: prepare_version_def res_simps Let_def split: if_splits)
  define ref where "ref = \<lparr>af_artifact_id = fv_artifact_id f, af_name = rq_name rq,
         af_version = n, af_media_type = rq_media_type rq,
         af_uri = artifact_uri (rq_session rq) (rq_name rq) n,
         af_digest = content_digest (cf_platform cf) (rq_content rq), af_created_by = rq_agent rq,
         af_task_id = rq_task rq, af_parent_version = (if n > 1 then Some (n - 1) else None)\<rparr>"
  obtain m where item: "decode_ref (artifact_ref_to_dict ref) = Inr (av_ref (dv_item d))"
    "av_content (dv_item d) = rq_content rq" "av_trigger (dv_item d) = version_trigger (rq_trigger rq) n"
    "decode_metadata (cf_platform cf) (rq_metadata rq) = Inr (av_metadata (dv_item d), m)"
    using d by (auto simp: p request_payload_def decode_version_iff decode_version_raw_def Let_def res_simps
        object_shape_def payload_required_def payload_optional_def simp flip: ref_def)
  have r: "av_ref (dv_item d) = ref" by (rule decode_own_ref [OF item(1)])
  then show "af_artifact_id (av_ref (dv_item d)) = fv_artifact_id f" "af_version (av_ref (dv_item d)) = n"
    by (simp_all add: ref_def)
  have "canonical_bytes (cf_platform cf) (av_metadata (dv_item d)) = canonical_bytes (cf_platform cf) (rq_metadata rq)"
    using item(4) by (auto simp: decode_metadata_iff canonical_sorted)
  then show "answers cf rq (dv_item d)" by (simp add: answers_def Let_def r item(2,3)) (simp add: ref_def)
qed

section \<open>Admitting a version\<close>

lemma replay_ids:
  assumes "replay_rows cf rows r = Inr r'" "i \<in> set (rp_ids r')"
  shows "i \<in> set (rp_ids r) \<or> (\<exists>x \<in> set rows. \<exists>d. decode_version cf (ev_payload (se_event x)) = Inr d
    \<and> i = af_artifact_id (av_ref (dv_item d)))"
  using assms
proof (induction rows arbitrary: r)
  case (Cons x xs)
  then obtain r1 where x: "replay_event cf x r = Inr r1" "replay_rows cf xs r1 = Inr r'"
    by (auto simp: res_simps dest!: row_to_event_id)
  have "set (rp_ids r1) \<subseteq> set (rp_ids r) \<union> {i. \<exists>d. decode_version cf (ev_payload (se_event x)) = Inr d
      \<and> i = af_artifact_id (av_ref (dv_item d))}"
    using x(1) by (auto simp: replay_event_def Let_def res_simps split: if_splits)
  then show ?case using Cons.IH [OF x(2) Cons.prems(2)] by auto
qed simp

lemma unused_seen:
  assumes "replay_rows cf (seen p rows) new_replay = Inr r" "unused cf f rows"
  shows "fv_artifact_id f \<notin> set (rp_ids r)"
  using replay_ids [OF assms(1)] assms(2)
  by (fastforce simp: unused_def list_all_iff seen_def new_replay_def split: sum.splits)

text \<open>A row of the log that records what was requested, as the version \<open>v\<close>.\<close>

definition records :: "event_config \<Rightarrow> record_request \<Rightarrow> artifact_version \<Rightarrow> stored_event \<Rightarrow> bool" where
  "records cf rq v s = (in_stream (request_stream rq) s
     \<and> ev_idempotency_key (se_event s) = Some (request_idempotency_key cf rq) \<and> row_to_event cf s = Inr s
     \<and> ev_event_type (se_event s) = artifact_event_type
     \<and> (case decode_version cf (ev_payload (se_event s)) of Inl e \<Rightarrow> False
        | Inr d \<Rightarrow> dv_key d = request_key rq \<and> same_request cf rq (se_event s) (dv_item d)
            \<and> af_artifact_id (av_ref (dv_item d)) = af_artifact_id (av_ref v)))"

definition recorded :: "event_config \<Rightarrow> record_request \<Rightarrow> artifact_version \<Rightarrow> ledger \<Rightarrow> stored_event list \<Rightarrow> bool" where
  "recorded cf rq v lg rows = (v \<in> set (versions_at (request_key rq) (lg_versions lg)) \<and> list_ex (records cf rq v) rows)"

lemma admit_own:
  assumes "log_inv rows" "coherent cf lg rows" "s \<in> set rows" "row_to_event cf s = Inr s"
    and "se_global_position s = lg_position lg + 1" "se_event s = e\<lparr>ev_payload := sort_json payload\<rparr>"
    and "e = artifact_event cf rq f payload"
    and "prepare_version cf rq f (int (length (versions_at (request_key rq) (lg_versions lg))) + 1) = Inr (payload, d)"
    and "check_usage (include_usage (lg_usage lg) d) = Inr u"
    and "fv_artifact_id f \<notin> set_mset (artifact_ids (lg_versions lg))"
    and "admit_version cf rq e d (include_usage (lg_usage lg) d) s lg rows = (out, lg')"
  shows "out = Inr (dv_item d)" "coherent cf lg' rows" "recorded cf rq (dv_item d) lg' rows"
proof -
  obtain r where r: "replay_rows cf (seen (lg_position lg) rows) new_replay = Inr r" "lg = ledger_of r" "replay_inv cf r"
    using assms(2) by (rule coherentE)
  note prep = prepare_Inr [OF assms(8)]
  have dec: "decode_version cf (ev_payload (se_event s)) = Inr d"
    using prep(2) assms(6) by (simp add: decode_version_sorted)
  have own: "ev_event_id (se_event s) = ev_event_id e" using assms(6) by simp
  have lg': "out = Inr (dv_item d)" "lg' = \<lparr>lg_versions = dict_set (request_key rq)
       (versions_at (request_key rq) (lg_versions lg) @ [dv_item d]) (lg_versions lg),
     lg_usage = include_usage (lg_usage lg) d, lg_position = se_global_position s\<rparr>"
    using assms(11) own by (auto simp: admit_version_def)
  show "out = Inr (dv_item d)" by (rule lg'(1))
  have type: "ev_event_type (se_event s) = artifact_event_type" using assms(6,7) by (simp add: artifact_event_def)
  have new: "fv_artifact_id f \<notin> set (rp_ids r)"
    using assms(10) r(2,3) by (simp add: ledger_of_def replay_inv_def)
  have "replay_event cf s r = Inr \<lparr>rp_position = se_global_position s, rp_versions = lg_versions lg',
      rp_ids = rp_ids r @ [fv_artifact_id f], rp_usage = lg_usage lg'\<rparr>" (is "_ = Inr ?r")
    using type dec prep(3-5) assms(5,9) new r(2)
    by (simp add: replay_event_def replay_position_def ledger_of_def Let_def lg')
  moreover have "replay_rows cf (seen (rp_position r) rows) new_replay = Inr r" using r(1,2) by (simp add: ledger_of_def)
  ultimately have "coherent cf (ledger_of ?r) rows"
    using assms(5) r(2) by (intro coherent_add [OF assms(1,3,4)]) (simp_all add: ledger_of_def)
  then show "coherent cf lg' rows" by (simp add: ledger_of_def lg'(2))
  have "records cf rq (dv_item d) s"
    using dec prep(3,6) type assms(4,6,7)
    by (simp add: records_def in_stream_def artifact_event_def same_request_iff)
  then show "recorded cf rq (dv_item d) lg' rows"
    using assms(3) by (auto simp: recorded_def lg'(2) list_ex_iff)
qed

lemma resolve_recorded:
  assumes "log_inv rows" "coherent cf lg rows" "s \<in> set rows" "row_to_event cf s = Inr s"
    and "in_stream (request_stream rq) s" "ev_idempotency_key (se_event s) = Some (request_idempotency_key cf rq)"
    and "resolve_idempotent cf rq s lg rows = (out, lg')"
  shows "coherent cf lg' rows" "out = Inr v \<Longrightarrow> recorded cf rq v lg' rows"
proof -
  show "coherent cf lg' rows"
    using assms(2,7) coherent_rebuild [OF assms(1)]
    by (auto simp: resolve_idempotent_def Let_def split: if_splits sum.splits option.splits)
  show "recorded cf rq v lg' rows" if won: "out = Inr v"
  proof -
    obtain d where d: "decode_version cf (ev_payload (se_event s)) = Inr d" "dv_key d = request_key rq"
      "same_request cf rq (se_event s) (dv_item d)" "ev_event_type (se_event s) = artifact_event_type"
      "find_version (af_artifact_id (av_ref (dv_item d))) (versions_at (request_key rq) (lg_versions lg')) = Some v"
      using assms(7) won
      by (auto simp: resolve_idempotent_def Let_def split: if_splits sum.splits option.splits)
    then have "v \<in> set (versions_at (request_key rq) (lg_versions lg'))"
      "af_artifact_id (av_ref v) = af_artifact_id (av_ref (dv_item d))"
      by (auto simp: find_version_def find_Some_iff)
    then show ?thesis using d(1-4) assms(3-6) by (auto simp: recorded_def records_def list_ex_iff)
  qed
qed

text \<open>The three ways an append of an attempt can go.\<close>

definition attempt_fails :: "(event_error + stored_event) \<Rightarrow> stored_event list \<Rightarrow> stored_event list \<Rightarrow> bool" where
  "attempt_fails out rows rows' = (rows' = rows \<and> (\<exists>x. out = Inl x))"

definition attempt_finds ::
  "event_config \<Rightarrow> domain_event \<Rightarrow> (event_error + stored_event) \<Rightarrow> stored_event list \<Rightarrow> stored_event list
   \<Rightarrow> stored_event \<Rightarrow> bool" where
  "attempt_finds cf e out rows rows' s = (rows' = rows \<and> out = Inr s \<and> s \<in> set rows \<and> same_key_event e s
     \<and> row_to_event cf s = Inr s)"

definition attempt_adds ::
  "event_config \<Rightarrow> domain_event \<Rightarrow> int \<Rightarrow> (event_error + stored_event) \<Rightarrow> stored_event list \<Rightarrow> stored_event list
   \<Rightarrow> stored_event \<Rightarrow> bool" where
  "attempt_adds cf e expected out rows rows' s = (rows' = rows @ [s] \<and> se_event s = e\<lparr>ev_payload := sort_json (ev_payload e)\<rparr>
     \<and> se_global_position s = expected + 1 \<and> row_to_event cf s = Inr s
     \<and> (out = Inr s \<or> (\<exists>m. out = Inl (EvRuntime m))))"

lemma append_tx_added:
  assumes "append_tx cf e v (Some g) rows = Inr ((s, True), rows')"
  shows "last_position rows = g"
  using assms by (auto simp: append_tx_def res_simps Let_def split: list.splits if_splits)

lemma append_event_global:
  assumes "append_event cf e v (Some g) rows = Inr (s, rows')"
  shows "\<exists>e' i. snapshot_event cf e = Inr e' \<and> append_tx cf e' v (Some g) rows = Inr ((s, i), rows')"
  using append_event_tx [OF assms] by blast

lemma attempt_cases:
  assumes "log_inv rows" "readable cf e" "attempt_append cf e expected ack rows = (out, rows')"
  shows "(log_step cf)\<^sup>*\<^sup>* rows rows'"
    "attempt_fails out rows rows' \<or> (\<exists>s. attempt_finds cf e out rows rows' s)
      \<or> (\<exists>s. attempt_adds cf e expected out rows rows' s)"
proof -
  have "(log_step cf)\<^sup>*\<^sup>* rows rows' \<and> (attempt_fails out rows rows' \<or> (\<exists>s. attempt_finds cf e out rows rows' s)
      \<or> (\<exists>s. attempt_adds cf e expected out rows rows' s))"
  proof (cases "append_event cf e None (Some expected) rows")
    case (Inl x)
    then show ?thesis using assms(3) by (auto simp: attempt_append_def attempt_fails_def)
  next
    case (Inr p)
    obtain s rows1 where p: "p = (s, rows1)" by (cases p)
    have step: "log_step cf rows rows1" using log_append Inr p by blast
    have out: "rows' = rows1" "out = (if ack then Inr s else Inl (EvRuntime ''commit was not acknowledged''))"
      using assms(3) Inr p by (simp_all add: attempt_append_def)
    obtain e' i where e': "snapshot_event cf e = Inr e'" "append_tx cf e' None (Some expected) rows = Inr ((s, i), rows1)"
      using append_event_global Inr p by blast
    have same: "same_key_event e' = same_key_event e"
      using snapshot_event_Inr(1,2) [OF e'(1)] by (simp add: same_key_event_def [abs_def])
    show ?thesis
    proof (cases i)
      case True
      then have ins: "rows1 = rows @ [s]" "insert_event e' (version_of (ev_stream_id e') rows + 1) rows = Inr s"
        using append_tx_Inr [OF e'(2)] by simp_all
      have "last_position rows = expected" using append_tx_added e'(2) True by simp
      then have "attempt_adds cf e expected out rows rows' s"
        using ins out insert_event_Inr(1) [OF ins(2)] written_row [OF assms(1) e'(1) assms(2) ins(2)] snapshot_event_eq [OF e'(1)]
        by (auto simp: attempt_adds_def)
      then show ?thesis using step out(1) by blast
    next
      case False
      then have "rows1 = rows" "s \<in> set rows" "same_key_event e s" "row_to_event cf s = Inr s"
        using append_tx_Inr [OF e'(2)] same by (auto dest: row_to_event_id)
      then have "attempt_fails out rows rows' \<or> attempt_finds cf e out rows rows' s"
        using out by (simp add: attempt_fails_def attempt_finds_def)
      then show ?thesis using step out(1) by blast
    qed
  qed
  then show "(log_step cf)\<^sup>*\<^sup>* rows rows'"
    "attempt_fails out rows rows' \<or> (\<exists>s. attempt_finds cf e out rows rows' s)
      \<or> (\<exists>s. attempt_adds cf e expected out rows rows' s)" by simp_all
qed

lemma idempotent_event_Inr:
  assumes "get_idempotent_event cf t k rows = Inr (Some s)"
  shows "s \<in> set rows" "in_stream t s" "ev_idempotency_key (se_event s) = Some k" "row_to_event cf s = Inr s"
proof -
  let ?rs = "filter (\<lambda>r. in_stream t r \<and> ev_idempotency_key (se_event r) = Some k) rows"
  have "?rs \<noteq> []" using assms by (auto simp: get_idempotent_event_def split: if_splits)
  then obtain r xs where rs: "?rs = r # xs" by (cases ?rs) simp_all
  then have "r \<in> set ?rs" by simp
  moreover have "row_to_event cf r = Inr s"
    using assms unfolding get_idempotent_event_def rs by (auto simp: res_simps split: if_splits)
  ultimately have r: "r \<in> set ?rs" "row_to_event cf r = Inr s" by simp_all
  then have "s = r" by (auto dest: row_to_event_id)
  then show "s \<in> set rows" "in_stream t s" "ev_idempotency_key (se_event s) = Some k" "row_to_event cf s = Inr s"
    using r by simp_all
qed

lemma reconcile_Some:
  assumes "reconcile_committed cf e expected rows = Some s"
  shows "s \<in> set rows" "row_to_event cf s = Inr s" "ev_event_id (se_event s) = ev_event_id e"
proof -
  obtain k where k: "get_idempotent_event cf (ev_stream_id e) k rows = Inr (Some s)" "same_event (se_event s) e"
    using assms by (auto simp: reconcile_committed_def split: sum.splits option.splits if_splits)
  show "s \<in> set rows" "row_to_event cf s = Inr s" using idempotent_event_Inr [OF k(1)] by simp_all
  have "(se_event s)\<lparr>ev_payload := JNull\<rparr> = e\<lparr>ev_payload := JNull\<rparr>" using k(2) by (simp add: same_event_def)
  then have "ev_event_id ((se_event s)\<lparr>ev_payload := JNull\<rparr>) = ev_event_id (e\<lparr>ev_payload := JNull\<rparr>)" by simp
  then show "ev_event_id (se_event s) = ev_event_id e" by simp
qed

lemma same_id_same_row:
  assumes "log_inv rows" "s \<in> set rows" "r \<in> set rows" "ev_event_id (se_event s) = ev_event_id (se_event r)"
  shows "s = r"
  using assms by (auto simp: log_inv_def dest: inj_onD [OF iffD1 [OF distinct_map, THEN conjunct2]])

section \<open>The admission loop\<close>

text \<open>What holds between two accesses of the ledger to the log, in the attempts from \<open>a\<close> on.\<close>

definition waiting :: "event_config \<Rightarrow> ledger_world \<Rightarrow> nat \<Rightarrow> ledger \<Rightarrow> stored_event list \<Rightarrow> bool" where
  "waiting cf w a lg rows = (log_inv rows \<and> coherent cf lg rows \<and> (\<forall>b \<ge> a. unused cf (lw_fresh w b) rows))"

lemma waiting_next: "waiting cf w a lg rows \<Longrightarrow> waiting cf w (Suc a) lg rows"
  by (simp add: waiting_def)

lemma waiting_world:
  assumes "steady cf w" "waiting cf w a lg rows"
  shows "(log_step cf)\<^sup>*\<^sup>* rows (lw_rows w b k rows)" "waiting cf w a lg (lw_rows w b k rows)"
proof -
  show steps: "(log_step cf)\<^sup>*\<^sup>* rows (lw_rows w b k rows)" using assms(1) by (simp add: steady_def)
  have inv: "log_inv rows" using assms(2) by (simp add: waiting_def)
  have "log_inv (lw_rows w b k rows)" by (rule event_log.steps_inv [OF steps inv])
  then show "waiting cf w a lg (lw_rows w b k rows)"
    using assms coherent_extend [of cf lg rows] log_steps_prefix [OF steps inv]
    by (auto simp: waiting_def steady_def)
qed

lemma waiting_rebuild:
  "waiting cf w a lg rows \<Longrightarrow> rebuild cf rows = Inr lg' \<Longrightarrow> waiting cf w a lg' rows"
  by (simp add: waiting_def coherent_rebuild)

lemma unused_artifact:
  assumes "waiting cf w a lg rows"
  shows "fv_artifact_id (lw_fresh w a) \<notin> set_mset (artifact_ids (lg_versions lg))"
proof -
  obtain r where r: "replay_rows cf (seen (lg_position lg) rows) new_replay = Inr r" "lg = ledger_of r" "replay_inv cf r"
    using assms by (auto simp: waiting_def elim: coherentE)
  have "unused cf (lw_fresh w a) rows" using assms by (simp add: waiting_def)
  from unused_seen [OF r(1) this] show ?thesis using r(2,3) by (simp add: replay_inv_def ledger_of_def)
qed

lemma fresh_event_readable:
  "steady cf w \<Longrightarrow> readable cf (artifact_event cf rq (lw_fresh w a) p)"
  by (simp add: steady_def fresh_readable_def readable_def artifact_event_def)

text \<open>The outcome of a record: the log only grew, the ledger is coherent, a version is recorded.\<close>

definition settled ::
  "event_config \<Rightarrow> record_request \<Rightarrow> stored_event list \<Rightarrow> (artifact_error + artifact_version) \<times> ledger \<times> stored_event list
   \<Rightarrow> bool" where
  "settled cf rq rows res = (let (out, lg', rows') = res in (log_step cf)\<^sup>*\<^sup>* rows rows' \<and> coherent cf lg' rows'
     \<and> (case out of Inl e \<Rightarrow> True | Inr v \<Rightarrow> recorded cf rq v lg' rows'))"

lemma settled_error:
  "(log_step cf)\<^sup>*\<^sup>* rows rows' \<Longrightarrow> coherent cf lg rows' \<Longrightarrow> settled cf rq rows (Inl e, lg, rows')"
  by (simp add: settled_def)

lemma waiting_facts: "waiting cf w a lg rows \<Longrightarrow> log_inv rows" "waiting cf w a lg rows \<Longrightarrow> coherent cf lg rows"
  by (simp_all add: waiting_def)

lemma settled_resolve:
  assumes "(log_step cf)\<^sup>*\<^sup>* rows rows'" "waiting cf w a lg rows'" "s \<in> set rows'" "row_to_event cf s = Inr s"
    and "in_stream (request_stream rq) s" "ev_idempotency_key (se_event s) = Some (request_idempotency_key cf rq)"
  shows "settled cf rq rows (let (out, lg') = resolve_idempotent cf rq s lg rows' in (out, lg', rows'))"
proof -
  obtain out lg' where res: "resolve_idempotent cf rq s lg rows' = (out, lg')" by fastforce
  from resolve_recorded [OF _ _ assms(3-6) res] assms(1,2) show ?thesis
    by (auto simp: res settled_def waiting_def split: sum.splits)
qed

text \<open>An attempt whose event is in the log, acknowledged or found again, admits its version.\<close>

lemma settled_admit:
  assumes "steady cf w" "waiting cf w a lg rows2" "(log_step cf)\<^sup>*\<^sup>* rows rows'" "(log_step cf)\<^sup>*\<^sup>* rows2 rows'"
    and "e = artifact_event cf rq (lw_fresh w a) payload"
    and "prepare_version cf rq (lw_fresh w a) (int (length (versions_at (request_key rq) (lg_versions lg))) + 1) = Inr (payload, d)"
    and "check_usage (include_usage (lg_usage lg) d) = Inr u"
    and "attempt_adds cf e (lg_position lg) out rows2 rows3 s" "s \<in> set rows'"
  shows "settled cf rq rows (let (out, lg') = admit_version cf rq e d (include_usage (lg_usage lg) d) s lg rows' in (out, lg', rows'))"
proof -
  obtain o' lg' where res: "admit_version cf rq e d (include_usage (lg_usage lg) d) s lg rows' = (o', lg')" by fastforce
  have inv: "log_inv rows2" "coherent cf lg rows2" using assms(2) by (simp_all add: waiting_def)
  have inv': "log_inv rows'" by (rule event_log.steps_inv [OF assms(4) inv(1)])
  have coh: "coherent cf lg rows'" by (rule coherent_extend [OF inv(2) inv' log_steps_prefix [OF assms(4) inv(1)]])
  have ev: "row_to_event cf s = Inr s" "se_global_position s = lg_position lg + 1"
    "se_event s = e\<lparr>ev_payload := sort_json payload\<rparr>"
    using assms(5,8) by (simp_all add: attempt_adds_def artifact_event_def)
  from admit_own [OF inv' coh assms(9) ev assms(5-7) unused_artifact [OF assms(2)] res] show ?thesis
    using assms(3) by (simp add: res settled_def)
qed

lemma reconcile_own:
  assumes "steady cf w" "waiting cf w a lg rows2" "log_inv rows4" "e = artifact_event cf rq (lw_fresh w a) payload"
    and "reconcile_committed cf e p rows4 = Some s"
  shows "attempt_fails out rows2 rows3 \<Longrightarrow> rows4 = lw_rows w b k rows3 \<Longrightarrow> False"
    and "attempt_adds cf e q out rows2 rows3 r \<Longrightarrow> prefix rows3 rows4 \<Longrightarrow> s = r"
proof -
  note s = reconcile_Some [OF assms(5)]
  show False if "attempt_fails out rows2 rows3" "rows4 = lw_rows w b k rows3"
  proof -
    have "waiting cf w a lg rows4" using that waiting_world(2) [OF assms(1,2)] by (simp add: attempt_fails_def)
    then have "unused cf (lw_fresh w a) rows4" by (simp add: waiting_def)
    then show False using s(1,3) assms(4) by (auto simp: unused_def list_all_iff artifact_event_def)
  qed
  show "s = r" if "attempt_adds cf e q out rows2 rows3 r" "prefix rows3 rows4"
  proof (rule same_id_same_row [OF assms(3) s(1)])
    show "r \<in> set rows4" "ev_event_id (se_event s) = ev_event_id (se_event r)"
      using that s(3) by (auto simp: attempt_adds_def prefix_def)
  qed
qed

text \<open>The part of an attempt after its append.\<close>

definition finish_attempt ::
  "event_config \<Rightarrow> ledger_world \<Rightarrow> record_request \<Rightarrow> nat \<Rightarrow> nat \<Rightarrow> domain_event \<Rightarrow> decoded_version \<Rightarrow> ledger
   \<Rightarrow> (event_error + stored_event) \<Rightarrow> stored_event list \<Rightarrow> (artifact_error + artifact_version) \<times> ledger \<times> stored_event list" where
  "finish_attempt cf w rq n a e d lg out rows3 = (let usage = include_usage (lg_usage lg) d in
     case out of
       Inr s \<Rightarrow> (let (out, lg') = admit_version cf rq e d usage s lg rows3 in (out, lg', rows3))
     | Inl x \<Rightarrow>
         (let rows4 = lw_rows w a 2 rows3 in
          case reconcile_committed cf e (lg_position lg) rows4 of
            Some s \<Rightarrow> (let (out, lg') = admit_version cf rq e d usage s lg rows4 in (out, lg', rows4))
          | None \<Rightarrow>
              (case x of
                 EvConcurrency _ \<Rightarrow>
                   if n = 0 then (Inl (ArRecord ''artifact record admission did not stabilize''), lg, rows4)
                   else (let rows5 = lw_rows w a 3 rows4 in
                     case rebuild cf rows5 of
                       Inl y \<Rightarrow> (Inl y, lg, rows5)
                     | Inr lg' \<Rightarrow> record_loop cf w rq n (Suc a) lg' rows5)
               | _ \<Rightarrow> (Inl (ArStore x), lg, rows4))))"

lemma record_loop_Suc:
  "record_loop cf w rq (Suc n) a lg rows =
     (let rows1 = lw_rows w a 0 rows in
      case get_idempotent_event cf (request_stream rq) (request_idempotency_key cf rq) rows1 of
        Inl x \<Rightarrow> (Inl (ArStore x), lg, rows1)
      | Inr (Some s) \<Rightarrow> (let (out, lg') = resolve_idempotent cf rq s lg rows1 in (out, lg', rows1))
      | Inr None \<Rightarrow>
          (case prepare_version cf rq (lw_fresh w a) (int (length (versions_at (request_key rq) (lg_versions lg))) + 1) of
             Inl x \<Rightarrow> (Inl x, lg, rows1)
           | Inr (payload, d) \<Rightarrow>
               (case as_record ''artifact record would exceed ledger safety limits''
                   (check_usage (include_usage (lg_usage lg) d)) of
                  Inl x \<Rightarrow> (Inl x, lg, rows1)
                | Inr _ \<Rightarrow>
                    (let e = artifact_event cf rq (lw_fresh w a) payload; rows2 = lw_rows w a 1 rows1;
                         (out, rows3) = attempt_append cf e (lg_position lg) (lw_ack w a) rows2 in
                     finish_attempt cf w rq n a e d lg out rows3))))"
  unfolding record_loop.simps finish_attempt_def Let_def by (rule refl)

declare record_loop.simps(2) [simp del]

lemma finish_attempt_settled:
  assumes "steady cf w" "waiting cf w a lg rows2" "(log_step cf)\<^sup>*\<^sup>* rows rows2"
    and "e = artifact_event cf rq (lw_fresh w a) payload"
    and "prepare_version cf rq (lw_fresh w a) (int (length (versions_at (request_key rq) (lg_versions lg))) + 1) = Inr (payload, d)"
    and "check_usage (include_usage (lg_usage lg) d) = Inr u"
    and "attempt_append cf e (lg_position lg) ack rows2 = (out, rows3)"
    and again: "\<And>lg' rows'. waiting cf w (Suc a) lg' rows' \<Longrightarrow> (log_step cf)\<^sup>*\<^sup>* rows rows'
      \<Longrightarrow> settled cf rq rows (record_loop cf w rq n (Suc a) lg' rows')"
  shows "settled cf rq rows (finish_attempt cf w rq n a e d lg out rows3)"
proof -
  note inv = waiting_facts [OF assms(2)]
  have read: "readable cf e" using fresh_event_readable [OF assms(1)] assms(4) by simp
  note cases = attempt_cases [OF inv(1) read assms(7)]
  have to3: "(log_step cf)\<^sup>*\<^sup>* rows rows3" using assms(3) cases(1) by simp
  have inv3: "log_inv rows3" by (rule event_log.steps_inv [OF cases(1) inv(1)])
  have coh3: "coherent cf lg rows3" by (rule coherent_extend [OF inv(2) inv3 log_steps_prefix [OF cases(1) inv(1)]])
  define rows4 where "rows4 = lw_rows w a 2 rows3"
  have step4: "(log_step cf)\<^sup>*\<^sup>* rows3 rows4" using assms(1) by (simp add: steady_def rows4_def)
  then have to4: "(log_step cf)\<^sup>*\<^sup>* rows rows4" "(log_step cf)\<^sup>*\<^sup>* rows2 rows4" using to3 cases(1) by simp_all
  have inv4: "log_inv rows4" by (rule event_log.steps_inv [OF step4 inv3])
  have pre4: "prefix rows3 rows4" by (rule log_steps_prefix [OF step4 inv3])
  have coh4: "coherent cf lg rows4" by (rule coherent_extend [OF coh3 inv4 pre4])
  note own = reconcile_own [OF assms(1,2) inv4 assms(4)]
  from cases(2) consider (fails) "attempt_fails out rows2 rows3" | (finds) s where "attempt_finds cf e out rows2 rows3 s"
    | (adds) s where "attempt_adds cf e (lg_position lg) out rows2 rows3 s" by blast
  then show ?thesis
  proof cases
    case fails
    then obtain x where x: "out = Inl x" "rows3 = rows2" by (auto simp: attempt_fails_def)
    have w4: "waiting cf w a lg rows4" using waiting_world(2) [OF assms(1,2)] x(2) by (simp add: rows4_def)
    have none: "reconcile_committed cf e (lg_position lg) rows4 = None"
      using own(1) [OF _ fails rows4_def] by (cases "reconcile_committed cf e (lg_position lg) rows4") auto
    show ?thesis
    proof (cases "(\<exists>m. x = EvConcurrency m) \<and> n \<noteq> 0")
      case False
      then show ?thesis using settled_error [OF to4(1) coh4]
        by (cases x) (simp_all add: finish_attempt_def x(1) none Let_def flip: rows4_def)
    next
      case True
      define rows5 where "rows5 = lw_rows w a 3 rows4"
      note w5 = waiting_world [OF assms(1) w4, of a 3, folded rows5_def]
      have to5: "(log_step cf)\<^sup>*\<^sup>* rows rows5" using to4(1) w5(1) by simp
      show ?thesis
      proof (cases "rebuild cf rows5")
        case (Inl y)
        then show ?thesis using True settled_error [OF to5 waiting_facts(2) [OF w5(2)]]
          by (auto simp: finish_attempt_def x(1) none Let_def simp flip: rows4_def rows5_def)
      next
        case (Inr lg')
        then show ?thesis using True again [OF waiting_next [OF waiting_rebuild [OF w5(2) Inr]] to5]
          by (auto simp: finish_attempt_def x(1) none Let_def simp flip: rows4_def rows5_def)
      qed
    qed
  next
    case finds
    then have s: "out = Inr s" "rows3 = rows2" "s \<in> set rows2" "same_key_event e s" "row_to_event cf s = Inr s"
      by (auto simp: attempt_finds_def)
    have "unused cf (lw_fresh w a) rows2" using assms(2) by (simp add: waiting_def)
    then have other: "ev_event_id (se_event s) \<noteq> ev_event_id e"
      using s(3) assms(4) by (simp add: unused_def list_all_iff artifact_event_def)
    have "in_stream (request_stream rq) s" "ev_idempotency_key (se_event s) = Some (request_idempotency_key cf rq)"
      using s(4) assms(4) by (simp_all add: same_key_event_def in_stream_def artifact_event_def)
    from settled_resolve [OF assms(3,2) s(3,5) this] show ?thesis
      by (simp add: finish_attempt_def s(1,2) admit_version_def other Let_def)
  next
    case adds
    note admit = settled_admit [OF assms(1,2) _ _ assms(4-6) adds]
    have mem: "s \<in> set rows3" "s \<in> set rows4" using adds pre4 by (auto simp: attempt_adds_def prefix_def)
    show ?thesis
    proof (cases out)
      case (Inr s')
      then have "out = Inr s" using adds by (simp add: attempt_adds_def)
      then show ?thesis using admit [OF to3 cases(1) mem(1)] by (simp add: finish_attempt_def Let_def)
    next
      case (Inl x)
      then obtain m where m: "x = EvRuntime m" using adds by (auto simp: attempt_adds_def)
      show ?thesis
      proof (cases "reconcile_committed cf e (lg_position lg) rows4")
        case None
        then show ?thesis using settled_error [OF to4(1) coh4]
          by (simp add: finish_attempt_def Inl m Let_def flip: rows4_def)
      next
        case (Some r)
        then have "r = s" by (rule own(2) [OF _ adds pre4])
        then show ?thesis using admit [OF to4 mem(2)] Some
          by (simp add: finish_attempt_def Inl Let_def flip: rows4_def)
      qed
    qed
  qed
qed

lemma record_loop_settled:
  assumes "steady cf w" "waiting cf w a lg rows" "(log_step cf)\<^sup>*\<^sup>* rows0 rows"
  shows "settled cf rq rows0 (record_loop cf w rq n a lg rows)"
  using assms(2,3)
proof (induction n arbitrary: a lg rows)
  case 0
  then show ?case by (simp add: settled_error waiting_def)
next
  case (Suc n)
  define rows1 where "rows1 = lw_rows w a 0 rows"
  define rows2 where "rows2 = lw_rows w a 1 rows1"
  note w1 = waiting_world [OF assms(1) Suc.prems(1), of a 0, folded rows1_def]
  note w2 = waiting_world [OF assms(1) w1(2), of a 1, folded rows2_def]
  have to1: "(log_step cf)\<^sup>*\<^sup>* rows0 rows1" using Suc.prems(2) w1(1) by simp
  have to2: "(log_step cf)\<^sup>*\<^sup>* rows0 rows2" using to1 w2(1) by simp
  note err = settled_error [OF to1 waiting_facts(2) [OF w1(2)]]
  let ?get = "get_idempotent_event cf (request_stream rq) (request_idempotency_key cf rq) rows1"
  let ?prep = "prepare_version cf rq (lw_fresh w a) (int (length (versions_at (request_key rq) (lg_versions lg))) + 1)"
  consider (bad) x where "?get = Inl x" | (found) s where "?get = Inr (Some s)" | (new) "?get = Inr None"
    by (metis old.sum.exhaust option.exhaust)
  then show ?case
  proof cases
    case bad
    then show ?thesis using err by (simp add: record_loop_Suc Let_def flip: rows1_def)
  next
    case found
    from settled_resolve [OF to1 w1(2) idempotent_event_Inr(1) [OF found] idempotent_event_Inr(4) [OF found]
        idempotent_event_Inr(2,3) [OF found]]
    show ?thesis by (simp add: record_loop_Suc found Let_def flip: rows1_def)
  next
    case new
    show ?thesis
    proof (cases ?prep)
      case (Inl x)
      then show ?thesis using err new by (simp add: record_loop_Suc Let_def flip: rows1_def)
    next
      case (Inr p)
      obtain payload d where p: "p = (payload, d)" by (cases p)
      obtain out rows3 where app: "attempt_append cf (artifact_event cf rq (lw_fresh w a) payload) (lg_position lg) (lw_ack w a) rows2
          = (out, rows3)" by fastforce
      show ?thesis
      proof (cases "check_usage (include_usage (lg_usage lg) d)")
        case (Inl x)
        then show ?thesis using err new Inr p by (simp add: record_loop_Suc as_record_def Let_def flip: rows1_def)
      next
        case usage: (Inr u)
        show ?thesis
          using finish_attempt_settled [OF assms(1) w2(2) to2 refl Inr [unfolded p] usage app Suc.IH] Inr p usage new app
          by (simp add: record_loop_Suc as_record_def Let_def del: One_nat_def flip: rows1_def rows2_def)
      qed
    qed
  qed
qed

end
