(* ===== verification/Artifact_Props.thy ===== *)
theory Artifact_Props
  imports Artifact_Coherence
begin

text \<open>What the artifact ledger promises to its callers.\<close>

section \<open>Replay\<close>

text \<open>
  Rebuilding a ledger page by page is one pass over the whole log: every event is replayed once,
  in order, none is skipped at a page boundary; a log of more than a million events is refused.
\<close>

theorem rebuild_one_pass:
  assumes "reachable_log cf rows"
  shows "if length rows \<le> max_replay_events
    then rebuild cf rows = bind_res (replay_rows cf rows new_replay) (\<lambda>r. Inr (ledger_of r))
    else \<exists>e. rebuild cf rows = Inl e"
proof -
  have inv: "log_inv rows" by (rule event_log.reach_inv [OF assms])
  show ?thesis
  proof (cases "length rows \<le> max_replay_events")
    case True
    then show ?thesis
      by (cases "replay_rows cf rows new_replay") (simp_all add: rebuild_exact [OF inv] replay_end_def)
  next
    case False
    then obtain x xs where "drop max_replay_events rows = x # xs" by (cases "drop max_replay_events rows") auto
    then have "\<exists>e. replay_end cf (drop max_replay_events rows) r = Inl e" for r
      by (cases "row_to_event cf x") (simp_all add: replay_end_def from_store_def)
    then show ?thesis using False
      by (cases "replay_rows cf (take max_replay_events rows) new_replay")
        (force simp: rebuild_exact [OF inv] res_simps)+
  qed
qed

text \<open>
  The bounded traversal of metadata accepts exactly the documents of at most 10000 nodes, 64
  levels, 512 characters per key, 65536 per text and 4096 bits per integer, and it returns the
  number of nodes, keys included, although it checks its limits before it visits the children.
\<close>

theorem metadata_limits_exact:
  "validate_metadata v = Inr n \<longleftrightarrow> meta_fits 0 v \<and> n = meta_nodes v \<and> n \<le> 10000"
  by (rule validate_metadata_iff)

lemma coherent_tables: "coherent cf lg rows \<Longrightarrow> tables_ok cf (lg_versions lg) (lg_usage lg)"
  by (auto elim!: coherentE simp: replay_inv_def ledger_of_def)

text \<open>
  C35. The history of an artifact is a chain: its versions are numbered 1, 2, 3, ... without a gap, each
  names its predecessor as its parent, and carries the digest of its content and its canonical URI.
\<close>

theorem history_is_chain:
  assumes "coherent cf lg rows" and "i < length (version_history lg session name)"
  shows "let v = version_history lg session name ! i; r = av_ref v in
    af_version r = int i + 1 \<and> af_parent_version r = (if i = 0 then None else Some (int i))
    \<and> af_name r = name \<and> af_digest r = content_digest (cf_platform cf) (av_content v)
    \<and> af_uri r = artifact_uri session name (int i + 1)"
  using chain_at [OF coherent_tables [OF assms(1)], of "(session, name)"] assms(2)
  by (auto simp: chain_ok_def version_ok_def version_history_def Let_def)

text \<open>
  The usage counters of a ledger are exactly what its versions add up to, and they stay within the
  limits: a ledger never holds more than 100000 versions, 256 MiB of content, 64 MiB of metadata
  with a million nodes, or 384 MiB in all.
\<close>

theorem ledger_within_limits:
  assumes "coherent cf lg rows"
  shows "lg_usage lg = usage_of cf (lg_versions lg)
    \<and> sum_list (map (\<lambda>(k, h). length h) (lg_versions lg)) \<le> 100000
    \<and> lu_content (lg_usage lg) \<le> 268435456 \<and> lu_metadata (lg_usage lg) \<le> 67108864
    \<and> lu_nodes (lg_usage lg) \<le> 1000000 \<and> lu_state (lg_usage lg) \<le> 402653184"
proof -
  have t: "lg_usage lg = usage_of cf (lg_versions lg)" "\<exists>u. check_usage (lg_usage lg) = Inr u"
    using coherent_tables [OF assms] by (auto simp: tables_ok_def)
  have "lu_versions (lg_usage lg) = sum_list (map (\<lambda>(k, h). length h) (lg_versions lg))"
    by (simp add: t(1) usage_of_def weigh_def sum_list_triv)
  then show ?thesis using t by (auto simp: check_usage_def split: if_splits)
qed

section \<open>Recording\<close>

lemma record_version_settled:
  assumes "reachable_log cf rows" "coherent cf lg rows" "steady cf w" "\<And>a. unused cf (lw_fresh w a) rows"
  shows "(case capture_request cf session task agent out co ca tr of
      Inl e \<Rightarrow> record_version cf w session task agent out co ca tr lg rows = (Inl e, lg, rows)
    | Inr rq \<Rightarrow> settled cf rq rows (record_version cf w session task agent out co ca tr lg rows))"
proof -
  have "waiting cf w 0 lg rows" using assms event_log.reach_inv by (auto simp: waiting_def)
  then show ?thesis using record_loop_settled [OF assms(3)]
    by (auto simp: record_version_def split: sum.splits)
qed

text \<open>
  C7. The cached state of a ledger is always the replay of the log: whatever a record does (a version
  is admitted, found again, refused), while other connections append at any point and an append may
  commit without an acknowledgement, the ledger afterwards holds exactly what the log says up to
  the position the ledger has seen, and the log only grew.
\<close>

theorem record_keeps_coherent:
  assumes "reachable_log cf rows" and "coherent cf lg rows" and "steady cf w"
    and "\<And>a. unused cf (lw_fresh w a) rows"
    and "record_version cf w session task agent out correlation causation trigger lg rows = (res, lg', rows')"
  shows "coherent cf lg' rows' \<and> (log_step cf)\<^sup>*\<^sup>* rows rows' \<and> prefix rows rows'"
proof -
  have "coherent cf lg' rows' \<and> (log_step cf)\<^sup>*\<^sup>* rows rows'"
    using record_version_settled [OF assms(1-4), of session task agent out correlation causation trigger] assms(2,5)
    by (auto simp: settled_def split: sum.splits)
  then show ?thesis using log_steps_prefix event_log.reach_inv [OF assms(1)] by blast
qed

lemma seen_prefix:
  assumes "log_inv rows"
  shows "prefix (seen p rows) rows"
proof -
  have "sorted_wrt (<) (map se_global_position rows) \<Longrightarrow> prefix (seen p rows) rows" for rows
  proof (induction rows)
    case (Cons x xs)
    show ?case
    proof (cases "se_global_position x \<le> p")
      case False
      then have "seen p xs = []" using Cons.prems by (fastforce simp: seen_def filter_empty_conv)
      then show ?thesis using False by (simp add: seen_def)
    qed (use Cons in \<open>simp add: seen_def\<close>)
  qed (simp add: seen_def)
  then show ?thesis using log_positions(1) [OF assms] by (simp add: by_position_def)
qed

lemma replay_event_grows:
  "replay_event cf s r = Inr r' \<Longrightarrow> set (versions_at k (rp_versions r)) \<subseteq> set (versions_at k (rp_versions r'))"
  by (auto simp: replay_event_def res_simps Let_def split: if_splits)

lemma replay_rows_grows:
  "replay_rows cf xs r = Inr r' \<Longrightarrow> set (versions_at k (rp_versions r)) \<subseteq> set (versions_at k (rp_versions r'))"
proof (induction xs arbitrary: r)
  case (Cons x xs)
  then obtain s r1 where "replay_event cf s r = Inr r1" "replay_rows cf xs r1 = Inr r'" by (auto simp: res_simps)
  then show ?case using Cons.IH [of r1] replay_event_grows [of cf s r r1 k] by blast
qed simp

text \<open>A ledger that is behind holds a part of what a rebuilt one holds.\<close>

lemma behind_rebuilt:
  assumes "log_inv rows" "coherent cf lg rows" "rebuild cf rows = Inr full"
  shows "set (versions_at k (lg_versions lg)) \<subseteq> set (versions_at k (lg_versions full))"
proof -
  obtain r where r: "replay_rows cf (seen (lg_position lg) rows) new_replay = Inr r" "lg = ledger_of r"
    using assms(2) by (rule coherentE)
  obtain f where f: "replay_rows cf rows new_replay = Inr f" "full = ledger_of f"
    using rebuild_Inr [OF assms(1,3)] by blast
  obtain more where "rows = seen (lg_position lg) rows @ more" using seen_prefix [OF assms(1)] by (auto simp: prefix_def)
  then have "replay_rows cf (seen (lg_position lg) rows @ more) new_replay = Inr f" using f(1) by simp
  then have "replay_rows cf more r = Inr f" using r(1) by (simp add: replay_rows_append)
  from replay_rows_grows [OF this] show ?thesis by (simp add: r(2) f(2) ledger_of_def)
qed

lemma replayed_in:
  assumes "replay_rows cf rows r = Inr r'" "s \<in> set rows" "row_to_event cf s = Inr s"
    and "ev_event_type (se_event s) = artifact_event_type" "decode_version cf (ev_payload (se_event s)) = Inr d"
  shows "dv_item d \<in> set (versions_at (dv_key d) (rp_versions r'))"
  using assms(1,2)
proof (induction rows arbitrary: r)
  case (Cons x xs)
  then obtain r1 where r1: "replay_event cf x r = Inr r1" "replay_rows cf xs r1 = Inr r'"
    by (auto simp: res_simps dest!: row_to_event_id)
  show ?case
  proof (cases "s = x")
    case True
    then have "dv_item d \<in> set (versions_at (dv_key d) (rp_versions r1))"
      using r1(1) assms(4,5) by (auto simp: replay_event_def res_simps Let_def split: if_splits)
    then show ?thesis using replay_rows_grows [OF r1(2)] by blast
  qed (use Cons r1 in simp)
qed simp

lemma ids_at: "mset (map (\<lambda>v. af_artifact_id (av_ref v)) (versions_at k t)) \<subseteq># artifact_ids t"
proof -
  have single: "sum_list (map (\<lambda>v. {#af_artifact_id (av_ref v)#}) h) = mset (map (\<lambda>v. af_artifact_id (av_ref v)) h)" for h
    by (induction h) auto
  show ?thesis
    by (induction t) (auto simp: artifact_ids_def weigh_def versions_at_def single intro: subset_mset.add_increasing)
qed

lemma version_unique:
  assumes "replay_inv cf r" "v \<in> set (versions_at k (rp_versions r))" "v' \<in> set (versions_at k (rp_versions r))"
    and "af_artifact_id (av_ref v) = af_artifact_id (av_ref v')"
  shows "v = v'"
proof -
  let ?ids = "map (\<lambda>v. af_artifact_id (av_ref v)) (versions_at k (rp_versions r))"
  have sub: "mset ?ids \<subseteq># mset (rp_ids r)" "distinct (rp_ids r)"
    using ids_at [of k "rp_versions r"] assms(1) by (simp_all add: replay_inv_def)
  have "count (mset ?ids) i \<le> count (mset (rp_ids r)) i" for i
    using sub(1) by (rule mset_subset_eq_count)
  moreover have "count (mset (rp_ids r)) i \<le> 1" for i
    using sub(2) by (simp add: distinct_count_atmost_1)
  ultimately have "count (mset ?ids) i \<le> 1" for i by (meson le_trans)
  moreover have "0 < count (mset ?ids) i" if "i \<in> set ?ids" for i using that by (simp only: count_mset_gt_0 flip: set_mset_mset count_greater_zero_iff)
  ultimately have "count (mset ?ids) i = (if i \<in> set ?ids then 1 else 0)" for i
    by (metis (no_types, lifting) One_nat_def Suc_leI count_mset_0_iff le_antisym)
  then have "distinct ?ids" unfolding distinct_count_atmost_1 by blast
  then show ?thesis using assms(2-4) by (auto simp: distinct_map dest: inj_onD)
qed

lemma full_view:
  assumes "log_inv rows" "rebuild cf rows = Inr full"
  shows "coherent cf full rows" "replay_rows cf rows new_replay \<noteq> Inl e"
    "\<exists>f. replay_rows cf rows new_replay = Inr f \<and> full = ledger_of f \<and> replay_inv cf f"
  using coherent_rebuild [OF assms] rebuild_Inr [OF assms] by (auto intro: replay_rows_inv new_replay_inv)

text \<open>Two versions of one artifact in two views of a log that replays, with the same id.\<close>

lemma same_version:
  assumes "log_inv rows" "rebuild cf rows = Inr full" "coherent cf lg rows" "coherent cf lg' rows"
    and "v \<in> set (versions_at k (lg_versions lg))" "v' \<in> set (versions_at k (lg_versions lg'))"
    and "af_artifact_id (av_ref v) = af_artifact_id (av_ref v')"
  shows "v = v'"
proof -
  obtain f where f: "full = ledger_of f" "replay_inv cf f" using full_view(3) [OF assms(1,2)] by blast
  have "v \<in> set (versions_at k (rp_versions f))" "v' \<in> set (versions_at k (rp_versions f))"
    using behind_rebuilt [OF assms(1,3,2), of k] behind_rebuilt [OF assms(1,4,2), of k] assms(5,6) f(1)
    by (auto simp: ledger_of_def)
  from version_unique [OF f(2) this assms(7)] show ?thesis .
qed

text \<open>The row that records a version, and the version it decodes to.\<close>

lemma recorded_row:
  assumes "log_inv rows" "rebuild cf rows = Inr full" "coherent cf lg rows0" "prefix rows0 rows" "recorded cf rq v lg rows0"
  obtains s d where "s \<in> set rows" "in_stream (request_stream rq) s"
    "ev_idempotency_key (se_event s) = Some (request_idempotency_key cf rq)" "row_to_event cf s = Inr s"
    "ev_event_type (se_event s) = artifact_event_type" "decode_version cf (ev_payload (se_event s)) = Inr d"
    "dv_key d = request_key rq" "same_request cf rq (se_event s) (dv_item d)" "dv_item d = v"
    "v \<in> set (versions_at (request_key rq) (lg_versions full))"
proof -
  obtain s where s: "s \<in> set rows0" "records cf rq v s" "v \<in> set (versions_at (request_key rq) (lg_versions lg))"
    using assms(5) by (auto simp: recorded_def list_ex_iff)
  obtain d where d: "decode_version cf (ev_payload (se_event s)) = Inr d" "dv_key d = request_key rq"
    "same_request cf rq (se_event s) (dv_item d)" "af_artifact_id (av_ref (dv_item d)) = af_artifact_id (av_ref v)"
    using s(2) by (auto simp: records_def split: sum.splits)
  have row: "s \<in> set rows" "row_to_event cf s = Inr s" "ev_event_type (se_event s) = artifact_event_type"
    using s(1,2) assms(4) by (auto simp: records_def prefix_def)
  have lg: "coherent cf lg rows" by (rule coherent_extend [OF assms(3,1,4)])
  obtain f where f: "replay_rows cf rows new_replay = Inr f" "full = ledger_of f" "replay_inv cf f"
    using full_view(3) [OF assms(1,2)] by blast
  have "dv_item d \<in> set (versions_at (request_key rq) (lg_versions full))"
    using replayed_in [OF f(1) row d(1)] d(2) f(2) by (simp add: ledger_of_def)
  from same_version [OF assms(1,2) full_view(1) [OF assms(1,2)] lg this s(3) d(4)]
  have "dv_item d = v" .
  moreover have "v \<in> set (versions_at (request_key rq) (lg_versions full))"
    using behind_rebuilt [OF assms(1) lg assms(2)] s(3) by blast
  ultimately show ?thesis using that [of s d] s(2) row d(1-3) by (simp add: records_def)
qed

lemma request_not_blank: "\<not> blank (request_stream rq)" "\<not> blank (request_idempotency_key cf rq)"
  by (simp_all add: request_stream_def request_idempotency_key_def blank_iff py_space_def)

lemma lookup_recorded:
  assumes "log_inv rows" "s \<in> set rows" "in_stream (request_stream rq) s"
    "ev_idempotency_key (se_event s) = Some (request_idempotency_key cf rq)" "row_to_event cf s = Inr s"
  shows "get_idempotent_event cf (request_stream rq) (request_idempotency_key cf rq) rows = Inr (Some s)"
proof -
  have "filter (same_key_event (se_event s)) rows = [s]"
    using assms(1-4) by (intro key_lookup) (simp_all add: same_key_event_def)
  moreover have "same_key_event (se_event s)
      = (\<lambda>r. in_stream (request_stream rq) r \<and> ev_idempotency_key (se_event r) = Some (request_idempotency_key cf rq))"
    using assms(3,4) by (auto simp: same_key_event_def in_stream_def)
  ultimately show ?thesis using assms(5) request_not_blank by (simp add: get_idempotent_event_def)
qed

text \<open>
  A version that was returned is what was asked for: it carries the content, the media type, the
  author and the task of the request, and it stands in the history of the artifact.
\<close>

theorem record_returns_request:
  assumes "reachable_log cf rows" and "coherent cf lg rows" and "steady cf w"
    and "\<And>a. unused cf (lw_fresh w a) rows"
    and "record_version cf w session task agent out correlation causation trigger lg rows = (Inr v, lg', rows')"
    and "rebuild cf rows' = Inr full"
  shows "v \<in> set (version_history lg' session (ao_name out)) \<and> av_content v = ao_content out
    \<and> af_media_type (av_ref v) = ao_media_type out \<and> af_task_id (av_ref v) = task
    \<and> af_created_by (av_ref v) = agent \<and> af_name (av_ref v) = ao_name out"
proof -
  obtain rq where rq: "capture_request cf session task agent out correlation causation trigger = Inr rq"
    using assms(5) by (auto simp: record_version_def split: sum.splits)
  have fields: "rq_session rq = session" "rq_task rq = task" "rq_agent rq = agent" "rq_name rq = ao_name out"
    "rq_content rq = ao_content out" "rq_media_type rq = ao_media_type out"
    using rq by (auto simp: capture_request_def res_simps)
  have st: "coherent cf lg' rows'" "(log_step cf)\<^sup>*\<^sup>* rows rows'" "recorded cf rq v lg' rows'"
    using record_version_settled [OF assms(1-4), of session task agent out correlation causation trigger] assms(5)
    by (simp_all add: rq settled_def)
  have inv: "log_inv rows'" using event_log.steps_inv [OF st(2)] event_log.reach_inv [OF assms(1)] by blast
  obtain s :: stored_event and d :: decoded_version where "same_request cf rq (se_event s) (dv_item d)" "dv_item d = v"
    by (rule recorded_row [OF inv assms(6) st(1) prefix_order.refl st(3)])
  then have "answers cf rq v" by (simp add: same_request_iff)
  moreover have "v \<in> set (version_history lg' session (ao_name out))"
    using st(3) fields by (simp add: recorded_def version_history_def request_key_def)
  ultimately show ?thesis using fields by (simp add: answers_def Let_def)
qed

text \<open>Two views of one log are nested, whether or not the rest of the log replays.\<close>

lemma view_extends:
  assumes "log_inv rows" "coherent cf lg rows" "coherent cf lg' rows" "lg_position lg \<le> lg_position lg'"
  shows "set (versions_at k (lg_versions lg)) \<subseteq> set (versions_at k (lg_versions lg'))"
proof -
  let ?a = "seen (lg_position lg) rows" and ?b = "seen (lg_position lg') rows"
  obtain r where r: "replay_rows cf ?a new_replay = Inr r" "lg = ledger_of r" using assms(2) by (rule coherentE)
  obtain f where f: "replay_rows cf ?b new_replay = Inr f" "lg' = ledger_of f" using assms(3) by (rule coherentE)
  have "?a = seen (lg_position lg) ?b" using assms(4) by (auto simp: seen_def intro: filter_cong)
  then have "length ?a \<le> length ?b" by (metis length_filter_le seen_def)
  then obtain more where "?b = ?a @ more"
    using prefix_length_prefix [OF seen_prefix [OF assms(1)] seen_prefix [OF assms(1)]] by (auto simp: prefix_def)
  then have "replay_rows cf more r = Inr f" using f(1) r(1) by (simp add: replay_rows_append)
  from replay_rows_grows [OF this] show ?thesis by (simp add: r(2) f(2) ledger_of_def)
qed

lemma same_version_viewed:
  assumes "log_inv rows" "coherent cf lg rows" "coherent cf lg' rows"
    and "v \<in> set (versions_at k (lg_versions lg))" "v' \<in> set (versions_at k (lg_versions lg'))"
    and "af_artifact_id (av_ref v) = af_artifact_id (av_ref v')"
  shows "v = v'"
proof -
  have same: "x = y" if "coherent cf l rows" "x \<in> set (versions_at k (lg_versions l))"
    "y \<in> set (versions_at k (lg_versions l))" "af_artifact_id (av_ref x) = af_artifact_id (av_ref y)" for l x y
    using that(1) by (rule coherentE) (use that(2-4) version_unique in \<open>auto simp: ledger_of_def\<close>)
  consider "lg_position lg \<le> lg_position lg'" | "lg_position lg' \<le> lg_position lg" by linarith
  then show ?thesis
  proof cases
    case 1
    from view_extends [OF assms(1-3) this] assms(4) have "v \<in> set (versions_at k (lg_versions lg'))" by blast
    from same [OF assms(3) this assms(5,6)] show ?thesis .
  next
    case 2
    from view_extends [OF assms(1,3,2) this] assms(5) have "v' \<in> set (versions_at k (lg_versions lg))" by blast
    from same [OF assms(2,4) this assms(6)] show ?thesis .
  qed
qed

text \<open>The event of a recorded version resolves to that version, or the log cannot be replayed.\<close>

lemma retry_resolves:
  assumes inv: "log_inv rows" and lg: "coherent cf lg rows" "v \<in> set (versions_at (request_key rq) (lg_versions lg))"
    and s: "records cf rq v s" and lg2: "coherent cf lg2 rows"
  shows "\<exists>out lg'. resolve_idempotent cf rq s lg2 rows = (out, lg')
    \<and> (case out of Inr v' \<Rightarrow> v' = v | Inl x \<Rightarrow> rebuild cf rows = Inl x)"
proof -
  let ?i = "af_artifact_id (av_ref v)"
  obtain d where d: "ev_event_type (se_event s) = artifact_event_type" "decode_version cf (ev_payload (se_event s)) = Inr d"
    "dv_key d = request_key rq" "same_request cf rq (se_event s) (dv_item d)" "af_artifact_id (av_ref (dv_item d)) = ?i"
    using s by (auto simp: records_def split: sum.splits)
  define held where "held l = versions_at (request_key rq) (lg_versions l)" for l :: ledger
  have found: "v' = v" if "find_version ?i (held l) = Some v'" "coherent cf l rows" for l v'
  proof -
    have "v' \<in> set (held l)" "af_artifact_id (av_ref v') = ?i"
      using that(1) by (auto simp: find_version_def find_Some_iff held_def)
    then show ?thesis using same_version_viewed [OF inv that(2) lg(1)] lg(2) by (auto simp: held_def)
  qed
  note run = resolve_idempotent_def [of cf rq s lg2 rows, unfolded Let_def, folded held_def]
  show ?thesis
  proof (cases "find_version ?i (held lg2)")
    case (Some v')
    with found [OF _ lg2] have "v' = v" by blast
    then show ?thesis using Some d by (simp add: run)
  next
    case None
    show ?thesis
    proof (cases "rebuild cf rows")
      case (Inl x)
      then show ?thesis using None d by (simp add: run)
    next
      case (Inr full)
      have "v \<in> set (held full)" using behind_rebuilt [OF inv lg(1) Inr, of "request_key rq"] lg(2) by (auto simp: held_def)
      then obtain v' where v': "find_version ?i (held full) = Some v'"
        by (cases "find_version ?i (held full)") (auto simp: find_version_def find_None_iff)
      have "v' = v" by (rule found [OF v' full_view(1) [OF inv Inr]])
      then show ?thesis using None d Inr v' by (simp add: run)
    qed
  qed
qed

text \<open>
  C23. Recording is safe to retry. After a request was answered with a version, the same request, made to
  this ledger or to any other one that is a replay of a part of the same log, after whatever other
  connections appended in between and while they append more, never adds to the log. It returns the same
  version, also when the history has moved on, or it raises the error with which a replay of the whole
  log fails (an event of it is not readable or no valid version, or there are more than a million).
  Assumed of the environment are that the others only append and that the ids drawn for the first
  request are fresh.
\<close>

theorem record_retry_returns_same:
  assumes "reachable_log cf rows" and "coherent cf lg rows" and "steady cf w"
    and "\<And>a. unused cf (lw_fresh w a) rows"
    and "record_version cf w session task agent out correlation causation trigger lg rows = (Inr v, lg1, rows1)"
    and "(log_step cf)\<^sup>*\<^sup>* rows1 rows2" and "(log_step cf)\<^sup>*\<^sup>* rows2 (lw_rows w2 0 0 rows2)"
    and "coherent cf lg2 rows2"
  shows "\<exists>res lg'. record_version cf w2 session task agent out correlation causation trigger lg2 rows2
      = (res, lg', lw_rows w2 0 0 rows2)
    \<and> (case res of Inr v' \<Rightarrow> v' = v | Inl x \<Rightarrow> rebuild cf (lw_rows w2 0 0 rows2) = Inl x)"
proof -
  define rows3 where "rows3 = lw_rows w2 0 0 rows2"
  obtain rq where rq: "capture_request cf session task agent out correlation causation trigger = Inr rq"
    using assms(5) by (auto simp: record_version_def split: sum.splits)
  have st: "coherent cf lg1 rows1" "(log_step cf)\<^sup>*\<^sup>* rows rows1" "recorded cf rq v lg1 rows1"
    using record_version_settled [OF assms(1-4), of session task agent out correlation causation trigger] assms(5)
    by (simp_all add: rq settled_def)
  have inv1: "log_inv rows1" using event_log.steps_inv [OF st(2)] event_log.reach_inv [OF assms(1)] by blast
  have inv2: "log_inv rows2" by (rule event_log.steps_inv [OF assms(6) inv1])
  have inv3: "log_inv rows3" unfolding rows3_def by (rule event_log.steps_inv [OF assms(7) inv2])
  have pre: "prefix rows2 rows3" "prefix rows1 rows3"
    using log_steps_prefix [OF assms(7) inv2] log_steps_prefix [OF assms(6) inv1] prefix_order.trans
    by (auto simp: rows3_def)
  obtain s where s: "s \<in> set rows1" "records cf rq v s" "v \<in> set (versions_at (request_key rq) (lg_versions lg1))"
    using st(3) by (auto simp: recorded_def list_ex_iff)
  from pre(2) s(1) have row: "s \<in> set rows3" by (auto simp: prefix_def)
  have look: "get_idempotent_event cf (request_stream rq) (request_idempotency_key cf rq) rows3 = Inr (Some s)"
    using s(2) by (intro lookup_recorded [OF inv3 row]) (simp_all add: records_def)
  from retry_resolves [OF inv3 coherent_extend [OF st(1) inv3 pre(2)] s(3,2) coherent_extend [OF assms(8) inv3 pre(1)]]
  obtain res lg' where res: "resolve_idempotent cf rq s lg2 rows3 = (res, lg')"
    "case res of Inr v' \<Rightarrow> v' = v | Inl x \<Rightarrow> rebuild cf rows3 = Inl x" by blast
  have "record_version cf w2 session task agent out correlation causation trigger lg2 rows2 = (res, lg', rows3)"
    using look res(1) by (simp add: record_version_def rq record_loop_Suc eval_nat_numeral Let_def flip: rows3_def)
  with res(2) show ?thesis unfolding rows3_def by blast
qed

text \<open>
  A version cannot be restored by the task that recorded it: the restore computes the idempotency
  key of the original record (task, name and content), finds the original event, and is refused
  because trigger and metadata differ. The content can only be brought back under another task.
\<close>

theorem restore_by_author_refused:
  assumes "reachable_log cf rows" and "coherent cf lg rows" and "steady cf w"
    and "\<And>a. unused cf (lw_fresh w a) rows"
    and "record_version cf w session task agent out correlation causation trigger lg rows = (Inr v, lg1, rows1)"
    and "trigger \<noteq> Some ''rollback''" and "(log_step cf)\<^sup>*\<^sup>* rows1 rows2" and "lw_rows w2 0 0 rows2 = rows2"
    and "rebuild cf rows2 = Inr full"
    and "0 < target" and "target \<le> int (length (version_history lg2 session (ao_name out)))"
    and "version_history lg2 session (ao_name out) ! nat (target - 1) = v"
  shows "\<exists>m. restore_version cf w2 session (ao_name out) target task actor lg2 rows2 = (Inl (ArRecord m), lg2, rows2)"
proof -
  obtain rq where rq: "capture_request cf session task agent out correlation causation trigger = Inr rq"
    using assms(5) by (auto simp: record_version_def split: sum.splits)
  have fields: "rq_session rq = session" "rq_task rq = task" "rq_name rq = ao_name out" "rq_trigger rq = trigger"
    using rq by (auto simp: capture_request_def optional_text_def res_simps split: option.splits)
  have st: "coherent cf lg1 rows1" "(log_step cf)\<^sup>*\<^sup>* rows rows1" "recorded cf rq v lg1 rows1"
    using record_version_settled [OF assms(1-4), of session task agent out correlation causation trigger] assms(5)
    by (simp_all add: rq settled_def)
  have inv1: "log_inv rows1" using event_log.steps_inv [OF st(2)] event_log.reach_inv [OF assms(1)] by blast
  have inv2: "log_inv rows2" by (rule event_log.steps_inv [OF assms(7) inv1])
  obtain s d where s: "s \<in> set rows2" "in_stream (request_stream rq) s"
    "ev_idempotency_key (se_event s) = Some (request_idempotency_key cf rq)" "row_to_event cf s = Inr s"
    and d: "ev_event_type (se_event s) = artifact_event_type" "decode_version cf (ev_payload (se_event s)) = Inr d"
    "dv_key d = request_key rq" "same_request cf rq (se_event s) (dv_item d)" "dv_item d = v"
    by (rule recorded_row [OF inv2 assms(9) st(1) log_steps_prefix [OF assms(7) inv1] st(3)])
  define source where "source = \<lparr>ao_name = ao_name out, ao_content = av_content v, ao_media_type = af_media_type (av_ref v),
    ao_metadata = JObj [(''restoredFrom'', JInt target)]\<rparr>"
  have restore: "restore_version cf w2 session (ao_name out) target task actor lg2 rows2
      = record_version cf w2 session task actor source None None (Some ''rollback'') lg2 rows2"
    using assms(10-12) by (simp add: restore_version_def source_def Let_def)
  show ?thesis
  proof (cases "capture_request cf session task actor source None None (Some ''rollback'')")
    case (Inl x)
    then have "\<exists>m. x = ArRecord m" by (auto simp: capture_request_def as_record_def split: sum.splits)
    then show ?thesis using Inl by (auto simp: restore record_version_def)
  next
    case (Inr rq2)
    have rq2: "rq_session rq2 = session" "rq_task rq2 = task" "rq_name rq2 = ao_name out"
      "rq_content rq2 = av_content v" "rq_trigger rq2 = Some ''rollback''"
      using Inr by (auto simp: capture_request_def optional_text_def source_def res_simps)
    have v: "answers cf rq v" using d(4,5) by (simp add: same_request_iff)
    then have same: "request_stream rq2 = request_stream rq" "request_idempotency_key cf rq2 = request_idempotency_key cf rq"
      "request_key rq2 = request_key rq"
      using rq2 fields by (simp_all add: answers_def Let_def request_stream_def request_idempotency_key_def request_key_def)
    have "av_trigger v \<noteq> ''rollback''"
      using v fields(4) assms(6) by (auto simp: answers_def Let_def version_trigger_def split: option.splits if_splits)
    then have "\<not> same_request cf rq2 (se_event s) v"
      using rq2(5) by (simp add: same_request_iff answers_def Let_def version_trigger_def)
    then have "resolve_idempotent cf rq2 s lg2 rows2 = (Inl (ArRecord ''idempotent artifact retry changed its request''), lg2)"
      using d same by (simp add: resolve_idempotent_def)
    then show ?thesis using lookup_recorded [OF inv2 s] same assms(8) Inr
      by (simp add: restore record_version_def record_loop_Suc eval_nat_numeral)
  qed
qed

section \<open>The admission loop settles\<close>

text \<open>From attempt \<open>q\<close> on nobody else appends.\<close>

definition quiet_from :: "ledger_world \<Rightarrow> nat \<Rightarrow> bool" where
  "quiet_from w q = (\<forall>a \<ge> q. \<forall>k rows. lw_rows w a k rows = rows)"

text \<open>The two errors of a loop that gives up.\<close>

definition gave_up :: "artifact_error + 'a \<Rightarrow> bool" where
  "gave_up out = (case out of Inl (ArRecord m) \<Rightarrow> m \<in> {''artifact record admission did not stabilize'',
     ''artifact admission loop exhausted without a result''} | _ \<Rightarrow> False)"

lemma rebuilt_position:
  assumes "log_inv rows" "rebuild cf rows = Inr lg"
  shows "lg_position lg = last_position rows"
proof -
  obtain r where r: "replay_rows cf rows new_replay = Inr r" "lg = ledger_of r" using rebuild_Inr [OF assms] by blast
  show ?thesis
  proof (cases rows rule: rev_cases)
    case Nil
    then show ?thesis using r by (auto simp: ledger_of_def new_replay_def last_position_def)
  next
    case (snoc xs x)
    have "\<forall>y \<in> set rows. se_global_position y \<le> se_global_position x \<and> 0 < se_global_position y"
      using log_positions [OF assms(1)] by (auto simp: snoc by_position_def sorted_wrt_append intro: less_imp_le)
    then have "last_position rows = se_global_position x"
      unfolding last_position_def fold_max by (intro Max_eqI) (auto simp: snoc intro: less_imp_le)
    then show ?thesis using replay_rows_position [OF r(1)] r(2) snoc by (simp add: ledger_of_def)
  qed
qed

lemma copy_json_no_concurrency:
  "copy_json depth nodes v \<noteq> Inl (EvConcurrency m)" "copy_items depth nodes xs \<noteq> Inl (EvConcurrency m)"
  "copy_fields depth nodes d \<noteq> Inl (EvConcurrency m)"
proof (induction depth nodes v and depth nodes xs and depth nodes d rule: copy_json_copy_items_copy_fields.induct)
  case (1 depth nodes v)
  then show ?case by (cases v) (auto simp: copy_json.simps)
qed (auto simp: res_simps)

lemma current_no_conflict:
  assumes "attempt_append cf e (last_position rows) ack rows = (Inl x, rows')"
  shows "x \<noteq> EvConcurrency m"
proof
  assume m: "x = EvConcurrency m"
  have "append_event cf e None (Some (last_position rows)) rows \<noteq> Inl (EvConcurrency m)"
  proof (cases "snapshot_event cf e")
    case (Inl y)
    have "y \<noteq> EvConcurrency m"
      using Inl copy_json_no_concurrency(1) [of 0 0 "ev_payload e"]
      by (auto simp: snapshot_event_def check_event_def snapshot_json_def res_simps split: if_splits json.splits)
    then show ?thesis using Inl by (simp add: append_event_def)
  next
    case (Inr e')
    have "append_tx cf e' None (Some (last_position rows)) rows \<noteq> Inl (EvConcurrency m)"
      by (auto simp: append_tx_def insert_event_def row_to_event_def decode_json_def Let_def res_simps
          split: list.splits if_splits sum.splits json.splits)
    then show ?thesis using Inr
      by (auto simp: append_event_def check_option_def check_cursor_def check_row_integer_def res_simps split: if_splits)
  qed
  then show False using assms m by (auto simp: attempt_append_def split: sum.splits if_splits)
qed

text \<open>What a replay raises is never an error of the recorder.\<close>

definition replay_failure :: "artifact_error \<Rightarrow> bool" where
  "replay_failure e = (case e of ArReplay m \<Rightarrow> True | ArStore x \<Rightarrow> True | _ \<Rightarrow> False)"

lemma decode_version_failure: "decode_version cf p = Inl e \<Longrightarrow> replay_failure e"
  by (auto simp: decode_version_def replay_failure_def split: sum.splits artifact_error.splits)

lemma replay_event_failure: "replay_event cf s r = Inl e \<Longrightarrow> replay_failure e"
  using decode_version_failure [of cf "ev_payload (se_event s)" e]
  by (auto simp: replay_event_def replay_position_def check_usage_def res_simps Let_def replay_failure_def
      split: if_splits)

lemma replay_rows_failure: "replay_rows cf rows r = Inl e \<Longrightarrow> replay_failure e"
proof (induction rows arbitrary: r)
  case (Cons x xs)
  then show ?case
    by (auto simp: res_simps from_store_def replay_failure_def dest: replay_event_failure split: sum.splits)
qed simp

lemma replay_end_failure: "replay_end cf xs r = Inl e \<Longrightarrow> replay_failure e"
  by (cases xs; cases "row_to_event cf (hd xs)") (auto simp: replay_end_def from_store_def replay_failure_def)

lemma rebuild_failure: "rebuild cf rows = Inl e \<Longrightarrow> log_inv rows \<Longrightarrow> replay_failure e"
  by (auto simp: rebuild_exact bind_res_Inl_iff dest: replay_rows_failure replay_end_failure)

lemma replay_failure_no: "replay_failure e \<Longrightarrow> \<not> gave_up (Inl e)"
  by (auto simp: replay_failure_def gave_up_def split: artifact_error.splits)

lemma gave_up_simps [simp]: "\<not> gave_up (Inr v)" "\<not> gave_up (Inl (ArStore x))"
  by (simp_all add: gave_up_def)

lemma resolve_not_up: "log_inv rows \<Longrightarrow> \<not> gave_up (fst (resolve_idempotent cf rq s lg rows))"
  by (auto simp: resolve_idempotent_def Let_def gave_up_def replay_failure_def
      dest: decode_version_failure rebuild_failure
      split: sum.splits option.splits if_splits artifact_error.splits)

lemma admit_not_up: "log_inv rows \<Longrightarrow> \<not> gave_up (fst (admit_version cf rq e d u s lg rows))"
  by (simp add: admit_version_def resolve_not_up)

lemma as_record_not_up:
  "as_record m x = Inl e \<Longrightarrow> m \<notin> {''artifact record admission did not stabilize'',
     ''artifact admission loop exhausted without a result''} \<Longrightarrow> \<not> gave_up (Inl e)"
  by (auto simp: as_record_def gave_up_def split: sum.splits)

lemma loop_result: "fst (let (out, lg') = p in (out, lg', rows)) = fst p"
  by (simp add: split_def)

lemma finish_attempt_settles:
  assumes "steady cf w" "waiting cf w a lg rows2" "e = artifact_event cf rq (lw_fresh w a) payload"
    and "attempt_append cf e (lg_position lg) ack rows2 = (out, rows3)"
    and last: "n = 0 \<Longrightarrow> lg_position lg = last_position rows2"
    and again: "\<And>rows5 lg'. n \<noteq> 0 \<Longrightarrow> rebuild cf rows5 = Inr lg' \<Longrightarrow> waiting cf w (Suc a) lg' rows5
      \<Longrightarrow> \<not> gave_up (fst (record_loop cf w rq n (Suc a) lg' rows5))"
  shows "\<not> gave_up (fst (finish_attempt cf w rq n a e d lg out rows3))"
proof -
  note inv = waiting_facts [OF assms(2)]
  have read: "readable cf e" using fresh_event_readable [OF assms(1)] assms(3) by simp
  note cases = attempt_cases [OF inv(1) read assms(4)]
  have inv3: "log_inv rows3" by (rule event_log.steps_inv [OF cases(1) inv(1)])
  define rows4 where "rows4 = lw_rows w a 2 rows3"
  have "(log_step cf)\<^sup>*\<^sup>* rows3 rows4" using assms(1) by (simp add: steady_def rows4_def)
  then have inv4: "log_inv rows4" using inv3 by (rule event_log.steps_inv)
  show ?thesis
  proof (cases out)
    case (Inr s)
    then show ?thesis by (simp add: finish_attempt_def Let_def loop_result [unfolded Let_def] admit_not_up [OF inv3])
  next
    case (Inl x)
    show ?thesis
    proof (cases "reconcile_committed cf e (lg_position lg) rows4")
      case (Some s)
      then show ?thesis
        by (simp add: finish_attempt_def Inl Let_def loop_result [unfolded Let_def] admit_not_up [OF inv4] flip: rows4_def)
    next
      case None
      show ?thesis
      proof (cases "\<exists>m. x = EvConcurrency m")
        case False
        then show ?thesis using None by (cases x) (auto simp: finish_attempt_def Inl Let_def simp flip: rows4_def)
      next
        case True
        then have n: "n \<noteq> 0" using assms(4) Inl last current_no_conflict by metis
        have "rows3 = rows2" using cases(2) Inl True by (auto simp: attempt_fails_def attempt_finds_def attempt_adds_def)
        then have "waiting cf w a lg rows4" using waiting_world(2) [OF assms(1,2)] by (simp add: rows4_def)
        then have w5: "waiting cf w a lg (lw_rows w a 3 rows4)" by (rule waiting_world(2) [OF assms(1)])
        show ?thesis
        proof (cases "rebuild cf (lw_rows w a 3 rows4)")
          case (Inl y)
          then have "\<not> gave_up (Inl y :: artifact_error + artifact_version)"
            by (rule replay_failure_no [OF rebuild_failure [OF _ waiting_facts(1) [OF w5]]])
          then show ?thesis using True n None Inl \<open>out = Inl x\<close>
            by (auto simp: finish_attempt_def Let_def simp flip: rows4_def)
        next
          case (Inr lg')
          from again [OF n Inr waiting_next [OF waiting_rebuild [OF w5 Inr]]] show ?thesis
            using True n None Inr \<open>out = Inl x\<close> by (auto simp: finish_attempt_def Let_def simp flip: rows4_def)
        qed
      qed
    qed
  qed
qed

lemma record_loop_settles:
  assumes "steady cf w" "quiet_from w q"
    and "waiting cf w a lg rows" "0 < n" "q < a + n" "n = 1 \<longrightarrow> lg_position lg = last_position rows"
  shows "\<not> gave_up (fst (record_loop cf w rq n a lg rows))"
  using assms(3-6)
proof (induction n arbitrary: a lg rows)
  case (Suc n)
  define rows1 where "rows1 = lw_rows w a 0 rows"
  define rows2 where "rows2 = lw_rows w a 1 rows1"
  have w1: "waiting cf w a lg rows1" unfolding rows1_def by (rule waiting_world(2) [OF assms(1) Suc.prems(1)])
  have w2: "waiting cf w a lg rows2" unfolding rows2_def by (rule waiting_world(2) [OF assms(1) w1])
  have last: "lg_position lg = last_position rows2" if "n = 0"
    using that Suc.prems(3,4) assms(2) by (simp add: quiet_from_def rows1_def rows2_def)
  have again: "\<not> gave_up (fst (record_loop cf w rq n (Suc a) lg' rows5))"
    if "n \<noteq> 0" "rebuild cf rows5 = Inr lg'" "waiting cf w (Suc a) lg' rows5" for rows5 lg'
    using that Suc.IH [OF that(3)] Suc.prems(3) rebuilt_position [OF waiting_facts(1) [OF that(3)] that(2)] by simp
  let ?get = "get_idempotent_event cf (request_stream rq) (request_idempotency_key cf rq) rows1"
  let ?prep = "prepare_version cf rq (lw_fresh w a) (int (length (versions_at (request_key rq) (lg_versions lg))) + 1)"
  consider (bad) x where "?get = Inl x" | (found) s where "?get = Inr (Some s)" | (new) "?get = Inr None"
    by (metis old.sum.exhaust option.exhaust)
  then show ?case
  proof cases
    case bad
    then show ?thesis by (simp add: record_loop_Suc Let_def flip: rows1_def)
  next
    case found
    then show ?thesis using resolve_not_up [OF waiting_facts(1) [OF w1]]
      by (simp add: record_loop_Suc Let_def loop_result [unfolded Let_def] flip: rows1_def)
  next
    case new
    show ?thesis
    proof (cases ?prep)
      case (Inl x)
      then have "\<not> gave_up (Inl x :: artifact_error + artifact_version)"
        unfolding prepare_version_def by (rule as_record_not_up) simp
      then show ?thesis using Inl new by (simp add: record_loop_Suc Let_def flip: rows1_def)
    next
      case (Inr p)
      obtain payload d where p: "p = (payload, d)" by (cases p)
      obtain out rows3 where app: "attempt_append cf (artifact_event cf rq (lw_fresh w a) payload) (lg_position lg) (lw_ack w a) rows2
          = (out, rows3)" by fastforce
      show ?thesis
      proof (cases "check_usage (include_usage (lg_usage lg) d)")
        case (Inl x)
        then show ?thesis using new Inr p by (simp add: record_loop_Suc as_record_def gave_up_def Let_def flip: rows1_def)
      next
        case usage: (Inr u)
        have "\<not> gave_up (fst (finish_attempt cf w rq n a (artifact_event cf rq (lw_fresh w a) payload) d lg out rows3))"
          by (rule finish_attempt_settles [OF assms(1) w2 refl app]) (fact last, fact again)
        then show ?thesis using Inr p usage new app
          by (simp add: record_loop_Suc as_record_def Let_def del: One_nat_def flip: rows1_def rows2_def)
      qed
    qed
  qed
qed simp

text \<open>
  C29. The admission loop ends with an answer: as soon as the other connections pause before the eighth
  attempt, a record neither runs out of attempts nor reports that its admission did not stabilize;
  a ledger that was behind catches up with one rebuild.
\<close>

theorem admission_settles:
  assumes "reachable_log cf rows" and "coherent cf lg rows" and "steady cf w"
    and "\<And>a. unused cf (lw_fresh w a) rows" and "quiet_from w 7"
  shows "\<not> gave_up (fst (record_version cf w session task agent out correlation causation trigger lg rows))"
proof (cases "capture_request cf session task agent out correlation causation trigger")
  case (Inl x)
  then have "\<not> gave_up (Inl x :: artifact_error + artifact_version)"
    unfolding capture_request_def by (rule as_record_not_up) simp
  then show ?thesis using Inl by (simp add: record_version_def)
next
  case (Inr rq)
  have "waiting cf w 0 lg rows" using assms(1,2,4) event_log.reach_inv by (auto simp: waiting_def)
  from record_loop_settles [OF assms(3,5) this, of 8 rq] show ?thesis by (simp add: record_version_def Inr)
qed

text \<open>A ledger on an empty log, its first record, and the properties of the ledger on it.\<close>

definition ledger_config :: event_config where
  "ledger_config = \<lparr>cf_platform = \<lparr>pf_sha256 = (\<lambda>s. replicate 64 (CHR ''a'')), pf_hmac = (\<lambda>k s. s),
       pf_float_text = (\<lambda>r. ''0.5''), pf_time_text = (\<lambda>t. ''t'')\<rparr>,
     cf_calendar = \<lparr>cal_norm = Some, cal_julian = (\<lambda>t. Some 0), cal_add = (\<lambda>t d. Some t)\<rparr>,
     cf_max_json_bytes = 100000\<rparr>"

definition calm_world :: ledger_world where
  "calm_world = \<lparr>lw_rows = (\<lambda>a k rows. rows), lw_ack = (\<lambda>a. True),
     lw_fresh = (\<lambda>a. \<lparr>fv_artifact_id = ''art'', fv_created_at = ''2026-01-01T00:00:00Z'', fv_event_id = ''e'',
       fv_timestamp = ''2026-01-01T00:00:00Z''\<rparr>)\<rparr>"

text \<open>The same world, in which the COMMIT of the append is never acknowledged.\<close>

definition deaf :: ledger_world where
  "deaf = calm_world\<lparr>lw_ack := \<lambda>a. False\<rparr>"

definition new_ledger :: ledger where
  "new_ledger = ledger_of new_replay"

definition draft :: artifact_output where
  "draft = \<lparr>ao_name = ''n'', ao_content = ''text'', ao_media_type = ''m'', ao_metadata = JObj []\<rparr>"

definition first_request :: record_request where
  "first_request = \<lparr>rq_session = ''s'', rq_task = ''t'', rq_agent = ''a'', rq_name = ''n'', rq_content = ''text'',
     rq_media_type = ''m'', rq_metadata = JObj [], rq_correlation = None, rq_causation = None, rq_trigger = None\<rparr>"

lemma first_captured: "capture_request ledger_config ''s'' ''t'' ''a'' draft None None None = Inr first_request"
  by (simp add: capture_request_def draft_def first_request_def optional_text_def ledger_text_def ledger_content_def
      blank_iff py_space_def forbidden_control_def utf8_len_def decode_metadata_def validate_metadata_def
      metadata_loop.simps as_record_def Let_def)

lemma first_uri: "artifact_uri ''s'' ''n'' 1 = ''artifact://s/n/v1''"
  by code_simp

definition digest_a :: string where
  "digest_a = ''sha256:'' @ replicate 64 (CHR ''a'')"

lemma digest_a: "content_digest (cf_platform ledger_config) x = digest_a" "length digest_a = 71"
  "sha256_digest_shape digest_a" "ledger_text 71 (JStr digest_a) = Inr digest_a"
     apply (simp add: content_digest_def ledger_config_def digest_a_def)
    apply (simp add: digest_a_def)
   apply code_simp
  apply (simp add: digest_a_def ledger_text_def blank_iff py_space_def list_ex_iff forbidden_control_def)
  done

definition first_payload :: json where
  "first_payload = JObj
     [(''sessionId'', JStr ''s''), (''taskId'', JStr ''t''),
      (''ref'', JObj [(''artifactId'', JStr ''art''), (''name'', JStr ''n''), (''version'', JInt 1),
         (''mediaType'', JStr ''m''), (''uri'', JStr ''artifact://s/n/v1''), (''digest'', JStr digest_a),
         (''createdBy'', JStr ''a''), (''taskId'', JStr ''t''), (''parentVersion'', JNull)]),
      (''content'', JStr ''text''), (''metadata'', JObj []),
      (''createdAt'', JStr ''2026-01-01T00:00:00Z''), (''trigger'', JStr ''create'')]"

definition first_fresh :: fresh_values where
  "first_fresh = \<lparr>fv_artifact_id = ''art'', fv_created_at = ''2026-01-01T00:00:00Z'', fv_event_id = ''e'',
       fv_timestamp = ''2026-01-01T00:00:00Z''\<rparr>"

lemma first_payload: "request_payload ledger_config first_request first_fresh 1 = first_payload"
  by (simp add: request_payload_def first_request_def first_fresh_def first_payload_def digest_a first_uri
      artifact_ref_to_dict_def version_trigger_def jopt_def)

definition first_version :: artifact_version where
  "first_version = \<lparr>av_ref = \<lparr>af_artifact_id = ''art'', af_name = ''n'', af_version = 1, af_media_type = ''m'',
       af_uri = ''artifact://s/n/v1'', af_digest = digest_a, af_created_by = ''a'', af_task_id = ''t'',
       af_parent_version = None\<rparr>,
     av_content = ''text'', av_metadata = JObj [], av_created_at = ''2026-01-01T00:00:00Z'', av_trigger = ''create''\<rparr>"

text \<open>A bound on the length of an encoding that does not look at the order of the keys.\<close>

fun json_bulk :: "platform \<Rightarrow> json \<Rightarrow> nat" where
  "json_bulk pf (JStr s) = 6 * length s + 2"
| "json_bulk pf (JArr xs) = 2 + sum_list (map (\<lambda>x. json_bulk pf x + 1) xs)"
| "json_bulk pf (JObj d) = 2 + sum_list (map (\<lambda>(k, v). 6 * length k + json_bulk pf v + 4) d)"
| "json_bulk pf v = length (canonical_bytes pf v)"

lemma json_string_length: "length (json_string s) \<le> 6 * length s + 2"
proof -
  have "length (json_char c) \<le> 6" for c by (simp add: json_char_def utf8_char_def Let_def)
  then have "sum_list (map (\<lambda>c. length (json_char c)) s) \<le> sum_list (map (\<lambda>c. 6) s)" by (rule sum_list_mono)
  then show ?thesis by (simp add: json_string_def length_concat comp_def sum_list_triv)
qed

lemma py_join_length: "length (py_join '','' xs) \<le> sum_list (map (\<lambda>x. length x + 1) xs)"
  by (induction "'',''" xs rule: py_join.induct) auto

lemma json_bulk: "length (canonical_bytes pf v) \<le> json_bulk pf v"
proof (induction v)
  case (JStr s)
  show ?case using json_string_length [of s] by simp
next
  case (JArr xs)
  have "length (py_join '','' (map (canonical_bytes pf) xs)) \<le> sum_list (map (\<lambda>x. length (canonical_bytes pf x) + 1) xs)"
    using py_join_length [of "map (canonical_bytes pf) xs"] by (simp add: comp_def)
  also have "\<dots> \<le> sum_list (map (\<lambda>x. json_bulk pf x + 1) xs)" using JArr by (intro sum_list_mono) simp
  finally show ?case by simp
next
  case (JObj d)
  let ?d = "map (\<lambda>(k, v). (k, canonical_bytes pf v)) d" and ?t = "\<lambda>(k, t). json_string k @ '':'' @ t"
  have "length (py_join '','' (map ?t (sort_key fst ?d))) \<le> sum_list (map (\<lambda>p. length (?t p) + 1) (sort_key fst ?d))"
    using py_join_length [of "map ?t (sort_key fst ?d)"] by (simp add: comp_def)
  also have "\<dots> = sum_list (map (\<lambda>p. length (?t p) + 1) ?d)" by (rule sum_list_sort)
  also have "\<dots> = sum_list (map (\<lambda>(k, v). length (json_string k) + length (canonical_bytes pf v) + 2) d)"
    by (simp add: comp_def split_def)
  also have "\<dots> \<le> sum_list (map (\<lambda>(k, v). 6 * length k + json_bulk pf v + 4) d)"
  proof (rule sum_list_mono, clarify)
    fix k v
    assume "(k, v) \<in> set d"
    then have "length (canonical_bytes pf v) \<le> json_bulk pf v" using JObj by force
    then show "length (json_string k) + length (canonical_bytes pf v) + 2 \<le> 6 * length k + json_bulk pf v + 4"
      using json_string_length [of k] by simp
  qed
  finally show ?case by simp
qed simp_all

lemma first_fits: "length (canonical_bytes (cf_platform ledger_config) first_payload) \<le> 100000"
  by (rule order_trans [OF json_bulk]) (simp add: first_payload_def digest_a int_text_def digits.simps)

definition first_decoded :: decoded_version where
  "first_decoded = measured ledger_config (''s'', ''n'') first_version"

lemma ledger_calendar: "cal_norm (cf_calendar ledger_config) = Some"
  by (simp add: ledger_config_def)

lemma first_decoded: "decode_version ledger_config first_payload = Inr first_decoded"
proof -
  have r: "decode_ref (JObj [(''artifactId'', JStr ''art''), (''name'', JStr ''n''), (''version'', JInt 1),
         (''mediaType'', JStr ''m''), (''uri'', JStr ''artifact://s/n/v1''), (''digest'', JStr digest_a),
         (''createdBy'', JStr ''a''), (''taskId'', JStr ''t''), (''parentVersion'', JNull)]) = Inr (av_ref first_version)"
    unfolding decode_ref_def
    by (simp add: object_shape_def ref_required_def ref_optional_def digest_a positive_integer_def max_row_integer_def
        first_version_def) (simp add: ledger_text_def blank_iff py_space_def forbidden_control_def)
  have "decode_version_raw ledger_config first_payload = Inr first_decoded"
    unfolding decode_version_raw_def first_payload_def
    by (simp add: object_shape_def payload_required_def payload_optional_def r Let_def)
      (simp add: ledger_text_def ledger_content_def blank_iff py_space_def forbidden_control_def canonical_utc_def
        utc_shape_def decode_metadata_def validate_metadata_def metadata_loop.simps check_ref_def digest_a first_uri
        first_version_def first_decoded_def measured_def descriptor_bytes_def ledger_calendar utf8_len_def Let_def)
  then show ?thesis by (simp add: decode_version_iff)
qed

definition first_event :: domain_event where
  "first_event = artifact_event ledger_config first_request first_fresh first_payload"

definition first_stored :: stored_event where
  "first_stored = \<lparr>se_event = first_event\<lparr>ev_payload := sort_json first_payload\<rparr>, se_sequence = 1, se_global_position = 1\<rparr>"

lemma first_snapshot: "snapshot_event ledger_config first_event = Inr (first_event\<lparr>ev_payload := sort_json first_payload\<rparr>)"
proof -
  have "json_fits 0 first_payload" "json_nodes first_payload \<le> 10000"
    by (simp_all add: first_payload_def digest_a)
  then have "copy_json 0 0 first_payload = Inr (json_nodes first_payload)" by (simp add: copy_json_iff)
  then have "snapshot_json ledger_config first_payload = Inr (sort_json first_payload)"
    using first_fits by (simp add: snapshot_json_def) (simp add: first_payload_def ledger_config_def)
  then show ?thesis
    by (simp add: snapshot_event_def check_event_def first_event_def artifact_event_def request_stream_def
        first_request_def artifact_event_type_def blank_iff py_space_def)
qed

lemma first_append:
  "append_event ledger_config first_event None (Some 0) [] = Inr (first_stored, [first_stored])"
proof -
  have "ev_stream_id first_event = ''session:s''"
    by (simp add: first_event_def artifact_event_def request_stream_def first_request_def)
  then show ?thesis
    by (simp add: append_event_def first_snapshot check_option_def check_cursor_def check_row_integer_def max_row_integer_def
        append_tx_def last_position_def version_of_def insert_event_def first_stored_def Let_def)
qed

lemma first_reachable: "reachable_log ledger_config []" "reachable_log ledger_config [first_stored]"
proof -
  show e: "reachable_log ledger_config []" by (rule reach_init) simp
  show "reachable_log ledger_config [first_stored]" by (rule reach_step [OF e log_append [OF first_append]])
qed

lemma first_row: "row_to_event ledger_config first_stored = Inr first_stored"
proof -
  have "readable ledger_config first_event"
    by (simp add: readable_def first_event_def artifact_event_def first_fresh_def blank_iff py_space_def ledger_calendar)
  from append_reads_back [OF first_reachable(1) first_append _ this] show ?thesis by simp
qed

definition first_ledger :: ledger where
  "first_ledger = \<lparr>lg_versions = [((''s'', ''n''), [first_version])], lg_usage = include_usage no_usage first_decoded,
     lg_position = 1\<rparr>"

lemma first_prepared:
  "prepare_version ledger_config first_request first_fresh 1 = Inr (first_payload, first_decoded)"
  by (simp add: prepare_version_def first_payload first_decoded as_record_def canonical_utc_def ledger_calendar Let_def)
    (simp add: first_fresh_def utc_shape_def first_decoded_def measured_def request_key_def first_request_def Let_def)

lemma first_usage: "check_usage (include_usage no_usage first_decoded) = Inr ()"
  by (simp add: check_usage_def include_usage_def no_usage_def first_decoded_def measured_def first_version_def
      utf8_len_def descriptor_bytes_def digest_a_def sum_list_replicate Let_def)

section \<open>The first record\<close>

lemma worlds: "lw_rows calm_world a k rows = rows" "lw_rows deaf a k rows = rows" "lw_fresh calm_world a = first_fresh"
  "lw_fresh deaf a = first_fresh" "lw_ack calm_world a" "\<not> lw_ack deaf a"
  by (simp_all add: calm_world_def deaf_def first_fresh_def)

lemma worlds_steady: "steady ledger_config calm_world" "steady ledger_config deaf"
  by (simp_all add: steady_def worlds fresh_readable_def first_fresh_def blank_iff py_space_def ledger_calendar)

lemma worlds_unused: "unused ledger_config (lw_fresh calm_world a) []" "unused ledger_config (lw_fresh deaf a) []"
  by (simp_all add: unused_def)

lemma new_ledger_coherent: "coherent ledger_config new_ledger []"
  by (simp add: coherent_def new_ledger_def ledger_of_def new_replay_def seen_def)

lemma new_ledger: "versions_at k (lg_versions new_ledger) = []" "lg_usage new_ledger = no_usage" "lg_position new_ledger = 0"
  "lg_versions new_ledger = []"
  by (simp_all add: new_ledger_def ledger_of_def new_replay_def versions_at_def)

lemma first_admitted:
  "admit_version ledger_config first_request first_event first_decoded (include_usage no_usage first_decoded)
     first_stored new_ledger rows = (Inr first_version, first_ledger)"
  by (simp add: admit_version_def first_stored_def new_ledger first_ledger_def first_decoded_def measured_def Let_def
      request_key_def first_request_def versions_at_def)

lemma first_lookup:
  "get_idempotent_event ledger_config (request_stream first_request) (request_idempotency_key ledger_config first_request) [first_stored]
     = Inr (Some first_stored)"
proof (rule lookup_recorded [OF event_log.reach_inv [OF first_reachable(2)]])
  show "in_stream (request_stream first_request) first_stored"
    "ev_idempotency_key (se_event first_stored) = Some (request_idempotency_key ledger_config first_request)"
    by (simp_all add: in_stream_def first_stored_def first_event_def artifact_event_def)
qed (simp_all add: first_row)

lemma first_reconciled: "reconcile_committed ledger_config first_event 0 [first_stored] = Some first_stored"
proof -
  have "get_idempotent_event ledger_config (ev_stream_id first_event)
      (request_idempotency_key ledger_config first_request) [first_stored] = Inr (Some first_stored)"
    using first_lookup by (simp add: first_event_def artifact_event_def)
  moreover have "ev_idempotency_key first_event = Some (request_idempotency_key ledger_config first_request)"
    by (simp add: first_event_def artifact_event_def)
  ultimately show ?thesis
    by (simp add: reconcile_committed_def) (simp add: first_stored_def same_event_def sort_json_idem first_event_def
      artifact_event_def)
qed

lemma first_recorded:
  "record_version ledger_config calm_world ''s'' ''t'' ''a'' draft None None None new_ledger [] = (Inr first_version, first_ledger, [first_stored])"
  "record_version ledger_config deaf ''s'' ''t'' ''a'' draft None None None new_ledger [] = (Inr first_version, first_ledger, [first_stored])"
proof -
  have empty: "get_idempotent_event ledger_config (request_stream first_request) (request_idempotency_key ledger_config first_request) []
      = Inr None" using request_not_blank by (simp add: get_idempotent_event_def)
  have none: "versions_at k [] = []" for k by (simp add: versions_at_def)
  note step = none empty worlds new_ledger first_prepared
    first_usage as_record_def attempt_append_def first_append finish_attempt_def Let_def first_admitted
  have e: "artifact_event ledger_config first_request first_fresh first_payload = first_event" by (simp add: first_event_def)
  have "record_loop ledger_config calm_world first_request (Suc 7) 0 new_ledger [] = (Inr first_version, first_ledger, [first_stored])"
    unfolding record_loop_Suc by (simp add: step e)
  moreover have "record_loop ledger_config deaf first_request (Suc 7) 0 new_ledger [] = (Inr first_version, first_ledger, [first_stored])"
    unfolding record_loop_Suc by (simp add: step e first_reconciled)
  ultimately show
    "record_version ledger_config calm_world ''s'' ''t'' ''a'' draft None None None new_ledger [] = (Inr first_version, first_ledger, [first_stored])"
    "record_version ledger_config deaf ''s'' ''t'' ''a'' draft None None None new_ledger [] = (Inr first_version, first_ledger, [first_stored])"
    by (simp_all add: record_version_def first_captured)
qed

lemma first_coherent: "coherent ledger_config first_ledger [first_stored]"
  using record_keeps_coherent [OF first_reachable(1) new_ledger_coherent worlds_steady(1) _ first_recorded(1)] worlds_unused(1)
  by simp

lemma record_keeps_coherent_witness: "coherent ledger_config first_ledger [first_stored] \<and> prefix [] [first_stored]"
  using record_keeps_coherent [OF first_reachable(1) new_ledger_coherent worlds_steady(2) _ first_recorded(2)] worlds_unused(2)
  by simp

lemma first_replayed: "\<exists>r. replay_rows ledger_config [first_stored] new_replay = Inr r \<and> ledger_of r = first_ledger"
proof -
  have "seen 1 [first_stored] = [first_stored]" by (simp add: seen_def first_stored_def)
  then show ?thesis using first_coherent by (auto simp: coherent_def first_ledger_def split: sum.splits)
qed

lemma first_rebuilt: "rebuild ledger_config [first_stored] = Inr first_ledger"
  using rebuild_exact [OF event_log.reach_inv [OF first_reachable(2)]] first_replayed
  by (auto simp: max_replay_events_def replay_end_def)

lemma rebuild_one_pass_witness:
  "rebuild ledger_config [first_stored] = bind_res (replay_rows ledger_config [first_stored] new_replay) (\<lambda>r. Inr (ledger_of r))"
  using rebuild_one_pass [OF first_reachable(2)] by (simp add: max_replay_events_def)

lemma first_history: "version_history first_ledger ''s'' ''n'' = [first_version]"
  by (simp add: version_history_def versions_at_def first_ledger_def)

lemma history_is_chain_witness: "af_version (av_ref (version_history first_ledger ''s'' ''n'' ! 0)) = 1"
  using history_is_chain [OF first_coherent, of 0 "''s''" "''n''"] by (simp add: first_history Let_def)

lemma ledger_within_limits_witness: "lu_content (lg_usage first_ledger) \<le> 268435456"
  using ledger_within_limits [OF first_coherent] by blast

lemma record_returns_request_witness: "av_content first_version = ''text''"
  using record_returns_request [OF first_reachable(1) new_ledger_coherent worlds_steady(1) _ first_recorded(1) first_rebuilt]
    worlds_unused(1) by (simp add: draft_def)

text \<open>A retry by a ledger that has not replayed the log yet.\<close>

lemma new_ledger_behind: "coherent ledger_config new_ledger [first_stored]"
  by (simp add: coherent_def new_ledger_def ledger_of_def new_replay_def seen_def first_stored_def)

lemma record_retry_returns_same_witness:
  "\<exists>lg'. record_version ledger_config deaf ''s'' ''t'' ''a'' draft None None None new_ledger [first_stored]
     = (Inr first_version, lg', [first_stored])"
proof -
  have steps: "(log_step ledger_config)\<^sup>*\<^sup>* [first_stored] (lw_rows deaf 0 0 [first_stored])" by (simp add: worlds)
  from record_retry_returns_same [OF first_reachable(1) new_ledger_coherent worlds_steady(1) worlds_unused(1)
      first_recorded(1) rtranclp.rtrancl_refl steps new_ledger_behind] obtain res lg' where
    r: "record_version ledger_config deaf ''s'' ''t'' ''a'' draft None None None new_ledger [first_stored]
      = (res, lg', [first_stored])" "case res of Inr v' \<Rightarrow> v' = first_version
        | Inl x \<Rightarrow> rebuild ledger_config [first_stored] = Inl x"
    unfolding worlds by blast
  then have "res = Inr first_version" using first_rebuilt by (cases res) simp_all
  with r(1) show ?thesis by blast
qed

lemma restore_by_author_refused_witness:
  "\<exists>m. restore_version ledger_config calm_world ''s'' ''n'' 1 ''t'' ''b'' first_ledger [first_stored]
     = (Inl (ArRecord m), first_ledger, [first_stored])"
  using restore_by_author_refused [OF first_reachable(1) new_ledger_coherent worlds_steady(1) worlds_unused(1)
        first_recorded(1) _ rtranclp.rtrancl_refl worlds(1) first_rebuilt, of 1 first_ledger "''b''"]
  by (simp add: draft_def first_history)

lemma admission_settles_witness:
  "\<not> gave_up (fst (record_version ledger_config deaf ''s'' ''t'' ''a'' draft None None None new_ledger []))"
  by (rule admission_settles [OF first_reachable(1) new_ledger_coherent worlds_steady(2) worlds_unused(2)])
    (simp add: quiet_from_def worlds)

end
