(* ===== verification/Kernel_Events.thy ===== *)
theory Kernel_Events
  imports Artifact_Ledger Scheduler Policy Context_Compiler
begin

text \<open>
  The durable side of \<open>runtime.py\<close>: the events of the kernel, and the append that accepts a batch
  which was committed although its append failed, if the log proves exactly that batch.

  Between two accesses to the store other connections may append: \<open>ce_before\<close> stands for what
  arrives between reading the version and the append, \<open>ce_after\<close> for what arrives between a failed
  append and its reconciliation, and \<open>ce_ack\<close> says that a committed append also returns.
\<close>

record kernel_config =
  kc_events :: event_config
  kc_conv :: py_conv
  kc_instant :: "string \<Rightarrow> int option option"
  kc_digest :: "json \<Rightarrow> string"
  kc_forbidden :: "string list"
  kc_context_budget :: int

datatype kernel_error = KeRecovery string | KeValue string | KeRuntime string | KeKey string | KeType string
  | KeClosed | KeStore event_error | KeGraph graph_error | KeInbox inbox_error | KePython py_error
  | KeArtifact artifact_error | KeContext context_error | KeHost string

record fresh_event =
  fe_id :: string
  fe_timestamp :: string

record commit_env =
  ce_before :: "stored_event list \<Rightarrow> stored_event list"
  ce_after :: "stored_event list \<Rightarrow> stored_event list"
  ce_ack :: bool
  ce_fresh :: "nat \<Rightarrow> fresh_event"

definition system_actor :: string where
  "system_actor = ''orchestrator''"

definition session_stream :: "string \<Rightarrow> string" where
  "session_stream session = ''session:'' @ session"

section \<open>Events\<close>

definition kernel_event ::
  "string \<Rightarrow> string \<Rightarrow> string \<Rightarrow> string option \<Rightarrow> string option \<Rightarrow> string \<Rightarrow> json \<Rightarrow> fresh_event \<Rightarrow> domain_event" where
  "kernel_event session kind actor correlation causation key payload f =
     \<lparr>ev_stream_id = session_stream session, ev_event_type = kind, ev_payload = payload, ev_actor_id = actor,
      ev_event_id = fe_id f, ev_timestamp = fe_timestamp f, ev_correlation_id = correlation,
      ev_causation_id = causation, ev_idempotency_key = Some key\<rparr>"

definition status_key :: "string \<Rightarrow> int \<Rightarrow> string" where
  "status_key task revision = ''task-status:'' @ task @ '':'' @ int_text revision"

definition transition_payload :: "task_transition \<Rightarrow> json" where
  "transition_payload tr = JObj
     [(''taskId'', JStr (tt_task_id tr)), (''previous'', JStr (task_status_value (tt_previous tr))),
      (''current'', JStr (task_status_value (tt_current tr))), (''reason'', jopt JStr (tt_reason tr)),
      (''revision'', JInt (tt_revision tr))]"

definition transition_event ::
  "string \<Rightarrow> task_transition \<Rightarrow> string option \<Rightarrow> string option \<Rightarrow> fresh_event \<Rightarrow> domain_event" where
  "transition_event session tr correlation causation f =
     kernel_event session ''task.status.changed'' system_actor correlation causation
       (status_key (tt_task_id tr) (tt_revision tr)) (transition_payload tr) f"

fun transition_events ::
  "string \<Rightarrow> string option \<Rightarrow> string option \<Rightarrow> (nat \<Rightarrow> fresh_event) \<Rightarrow> nat \<Rightarrow> task_transition list \<Rightarrow> domain_event list" where
  "transition_events session correlation causation fresh i [] = []"
| "transition_events session correlation causation fresh i (tr # trs) =
     transition_event session tr correlation causation (fresh i)
       # transition_events session correlation causation fresh (Suc i) trs"

text \<open>\<open>plan.correlation_id or plan.plan_id\<close>.\<close>

definition plan_correlation :: "workflow_plan \<Rightarrow> string option" where
  "plan_correlation p = Some (or_str (wp_correlation_id p) (wp_plan_id p))"

definition plan_event :: "workflow_plan \<Rightarrow> fresh_event \<Rightarrow> domain_event" where
  "plan_event p f = kernel_event (wp_session_id p) ''workflow.plan.created'' (wp_initiated_by p) (plan_correlation p)
     None (''plan:'' @ wp_plan_id p) (plan_to_dict p) f"

definition task_event :: "workflow_plan \<Rightarrow> task_spec \<Rightarrow> fresh_event \<Rightarrow> domain_event" where
  "task_event p t f = kernel_event (wp_session_id p) ''task.created'' (wp_initiated_by p) (plan_correlation p)
     None (''task-created:'' @ tk_task_id t) (task_spec_to_dict t) f"

fun task_events :: "workflow_plan \<Rightarrow> (nat \<Rightarrow> fresh_event) \<Rightarrow> nat \<Rightarrow> task_spec list \<Rightarrow> domain_event list" where
  "task_events p fresh i [] = []"
| "task_events p fresh i (t # ts) = task_event p t (fresh i) # task_events p fresh (Suc i) ts"

definition request_event :: "workflow_plan \<Rightarrow> approval_request \<Rightarrow> fresh_event \<Rightarrow> domain_event" where
  "request_event p r f = kernel_event (wp_session_id p) ''approval.requested'' system_actor (plan_correlation p)
     (Some (rq_task_id r)) (''approval-request:'' @ rq_task_id r) (approval_to_dict r) f"

definition decision_event :: "workflow_plan \<Rightarrow> approval_request \<Rightarrow> string \<Rightarrow> fresh_event \<Rightarrow> domain_event" where
  "decision_event p r actor f = kernel_event (rq_session_id r) ''approval.decided'' actor (plan_correlation p)
     (Some (rq_request_id r)) (''approval-decision:'' @ rq_request_id r) (approval_to_dict r) f"

section \<open>Reconciled appends\<close>

definition canonical_event :: "event_config \<Rightarrow> domain_event \<Rightarrow> string" where
  "canonical_event cf e = canonical_bytes (cf_platform cf) (JObj (event_to_dict e))"

fun check_sequence :: "string \<Rightarrow> int \<Rightarrow> stored_event list \<Rightarrow> kernel_error + int" where
  "check_sequence stream expected [] = Inr (expected - 1)"
| "check_sequence stream expected (s # ss) =
     (if ev_stream_id (se_event s) \<noteq> stream then Inl (KeRecovery ''source crossed a stream boundary'')
      else if se_sequence s \<noteq> expected then Inl (KeRecovery ''stream sequence is not contiguous'')
      else check_sequence stream (expected + 1) ss)"

definition check_recovery_page ::
  "string \<Rightarrow> int \<Rightarrow> nat \<Rightarrow> stored_event list \<Rightarrow> kernel_error + int" where
  "check_recovery_page stream after limit page =
     (if length page > limit then Inl (KeRecovery ''source exceeded its requested page limit'')
      else check_sequence stream (after + 1) page)"

definition from_events :: "event_error + 'a \<Rightarrow> kernel_error + 'a" where
  "from_events x = (case x of Inl e \<Rightarrow> Inl (KeStore e) | Inr y \<Rightarrow> Inr y)"

text \<open>The loop of \<open>_reconcile_committed_batch\<close>: \<open>None\<close> is any failure; every round takes a full page.\<close>

function reconcile_loop ::
  "event_config \<Rightarrow> string \<Rightarrow> int \<Rightarrow> domain_event list \<Rightarrow> stored_event list \<Rightarrow> stored_event list option" where
  "reconcile_loop cf stream after events rows =
     (if events = [] then Some []
      else let page_limit = min 1000 (length events) in
        case read_stream_page cf stream after (int page_limit) rows of
          Inl x \<Rightarrow> None
        | Inr page \<Rightarrow>
            if length page \<noteq> page_limit then None
            else (case check_recovery_page stream after page_limit page of
              Inl x \<Rightarrow> None
            | Inr after' \<Rightarrow>
                if map (\<lambda>s. canonical_event cf (se_event s)) page \<noteq> map (canonical_event cf) (take page_limit events)
                  then None
                else map_option (\<lambda>rest. page @ rest)
                       (reconcile_loop cf stream after' (drop page_limit events) rows)))"
  by pat_completeness auto
termination
  by (relation "measure (\<lambda>(cf, stream, after, events, rows). length events)") (auto simp: min_def)

declare reconcile_loop.simps [simp del]

definition reconcile_batch ::
  "event_config \<Rightarrow> string \<Rightarrow> domain_event list \<Rightarrow> int \<Rightarrow> stored_event list \<Rightarrow> stored_event list option" where
  "reconcile_batch cf stream events expected rows =
     (if events = [] then None else reconcile_loop cf stream expected events rows)"

definition append_reconciled ::
  "event_config \<Rightarrow> commit_env \<Rightarrow> string \<Rightarrow> domain_event list \<Rightarrow> int \<Rightarrow> stored_event list
   \<Rightarrow> (kernel_error + stored_event list) \<times> stored_event list" where
  "append_reconciled cf env stream events expected rows =
     (let rows1 = ce_before env rows;
          (out, rows2) = (case append_many cf stream events (Some expected) rows1 of
            Inl x \<Rightarrow> (Inl x, rows1)
          | Inr (ss, rows') \<Rightarrow> (if ce_ack env then Inr ss else Inl (EvRuntime ''commit was not acknowledged''), rows')) in
      case out of
        Inr ss \<Rightarrow> (Inr ss, rows2)
      | Inl x \<Rightarrow>
          (let rows3 = ce_after env rows2 in
           case reconcile_batch cf stream events expected rows3 of
             None \<Rightarrow> (Inl (KeStore x), rows3)
           | Some ss \<Rightarrow> (Inr ss, rows3)))"

text \<open>The constructor checks of the events, then the append at the version that is read first.\<close>

definition commit_events ::
  "kernel_config \<Rightarrow> commit_env \<Rightarrow> string \<Rightarrow> domain_event list \<Rightarrow> stored_event list
   \<Rightarrow> (kernel_error + stored_event list) \<times> stored_event list" where
  "commit_events kc env stream events rows =
     (case map_res check_event events of
        Inl x \<Rightarrow> (Inl (KeStore x), rows)
      | Inr es \<Rightarrow> append_reconciled (kc_events kc) env stream es (version_of stream rows) rows)"

section \<open>Transitions\<close>

text \<open>The committed transitions, applied to the graph in memory one by one.\<close>

fun apply_committed :: "task_graph \<Rightarrow> task_transition list \<Rightarrow> task_graph \<times> kernel_error option" where
  "apply_committed g [] = (g, None)"
| "apply_committed g (p # ps) =
     (case transition g (tt_task_id p) (tt_current p) (tt_reason p) of
        Inl e \<Rightarrow> (g, Some (KeGraph e))
      | Inr (applied, g') \<Rightarrow>
          if applied \<noteq> p then (g', Some (KeRuntime ''persisted task transition differs from memory''))
          else apply_committed g' ps)"

definition commit_planned ::
  "kernel_config \<Rightarrow> commit_env \<Rightarrow> string \<Rightarrow> task_transition list \<Rightarrow> string option \<Rightarrow> string option \<Rightarrow> task_graph
   \<Rightarrow> stored_event list \<Rightarrow> (kernel_error + unit) \<times> task_graph \<times> stored_event list" where
  "commit_planned kc env session trs correlation causation g rows =
     (if trs = [] then (Inr (), g, rows)
      else case commit_events kc env (session_stream session)
          (transition_events session correlation causation (ce_fresh env) 0 trs) rows of
        (Inl e, rows') \<Rightarrow> (Inl e, g, rows')
      | (Inr ss, rows') \<Rightarrow>
          (case apply_committed g trs of
             (g', None) \<Rightarrow> (Inr (), g', rows')
           | (g', Some e) \<Rightarrow> (Inl e, g', rows')))"

definition commit_transition ::
  "kernel_config \<Rightarrow> commit_env \<Rightarrow> string \<Rightarrow> string \<Rightarrow> task_status \<Rightarrow> string option \<Rightarrow> string option \<Rightarrow> task_graph
   \<Rightarrow> stored_event list \<Rightarrow> (kernel_error + unit) \<times> task_graph \<times> stored_event list" where
  "commit_transition kc env session task target correlation reason g rows =
     (case preview_transition g task target reason of
        Inl e \<Rightarrow> (Inl (KeGraph e), g, rows)
      | Inr planned \<Rightarrow> commit_planned kc env session [planned] correlation None g rows)"

end
