(* ===== verification/Kernel_Recovery.thy ===== *)
theory Kernel_Recovery
  imports Kernel_Events Artifact_Replay
begin

text \<open>
  \<open>_recover_session\<close> of \<open>runtime.py\<close>: the replay of the history of a session, page by page and
  within its limits, with every check it makes of the events it finds.

  \<open>kc_instant\<close> is \<open>datetime.fromisoformat\<close>: no instant, an instant without a time zone, or an
  instant. What counts memory in \<open>_measure_recovery_event\<close> is \<open>meta_nodes\<close> of the event.
\<close>

section \<open>Fields\<close>

definition recovery_text :: "json \<Rightarrow> bool" where
  "recovery_text v = (case v of JStr s \<Rightarrow> s \<noteq> [] \<and> length s \<le> 65536 | _ \<Rightarrow> False)"

definition optional_recovery_text :: "json \<Rightarrow> bool" where
  "optional_recovery_text v = (case v of JNull \<Rightarrow> True | JStr s \<Rightarrow> length s \<le> 65536 | _ \<Rightarrow> False)"

definition text_of :: "json \<Rightarrow> string" where
  "text_of v = (case v of JStr s \<Rightarrow> s | _ \<Rightarrow> [])"

definition option_of :: "json \<Rightarrow> string option" where
  "option_of v = (case v of JStr s \<Rightarrow> Some s | _ \<Rightarrow> None)"

text \<open>\<open>payload.get(k)\<close>; the shape of the payload is checked before.\<close>

definition field :: "(string, json) dict \<Rightarrow> string \<Rightarrow> json" where
  "field d k = (case map_of d k of None \<Rightarrow> JNull | Some v \<Rightarrow> v)"

definition task_status_of :: "string \<Rightarrow> task_status option" where
  "task_status_of s = (case enum_of task_status_value task_statuses s of Inl e \<Rightarrow> None | Inr x \<Rightarrow> Some x)"

definition bad :: "string \<Rightarrow> kernel_error + 'a" where
  "bad m = Inl (KeRecovery m)"

definition canonical_json :: "kernel_config \<Rightarrow> json \<Rightarrow> string" where
  "canonical_json kc v = canonical_bytes (cf_platform (kc_events kc)) v"

section \<open>Transitions\<close>

definition transition_fields :: "string list" where
  "transition_fields = [''taskId'', ''previous'', ''current'', ''reason'', ''revision'']"

definition allowed_envelopes ::
  "workflow_plan \<Rightarrow> task_status \<Rightarrow> string option \<Rightarrow> (string option \<times> string option) set" where
  "allowed_envelopes p previous request_id = (case request_id of
     Some r \<Rightarrow> {(plan_correlation p, Some r)}
   | None \<Rightarrow>
       if previous = TS_PENDING then {(wp_correlation_id p, None)}
       else if previous = TS_WAITING_APPROVAL then {(None, None), (plan_correlation p, None)}
       else {(plan_correlation p, None)})"

definition apply_recovered_transition ::
  "task_graph \<Rightarrow> stored_event \<Rightarrow> workflow_plan \<Rightarrow> string option \<Rightarrow> kernel_error + task_transition \<times> task_graph" where
  "apply_recovered_transition g s p request_id = (let e = se_event s in case ev_payload e of
     JObj d \<Rightarrow>
       if set (dict_keys d) \<noteq> set transition_fields then bad ''task transition payload has an invalid shape''
       else if \<not> recovery_text (field d ''taskId'') then bad ''task transition taskId is invalid''
       else (case (field d ''previous'', field d ''current'') of
         (JStr previous_value, JStr current_value) \<Rightarrow>
           if \<not> optional_recovery_text (field d ''reason'') then bad ''task transition reason is invalid''
           else (case field d ''revision'' of
             JInt revision \<Rightarrow>
               if revision < 0 then bad ''task transition revision is invalid''
               else let task = text_of (field d ''taskId''); reason = option_of (field d ''reason'') in
                 (case (task_status_of previous_value, task_status_of current_value,
                     map_of (tg_statuses g) task, map_of (tg_revisions g) task) of
                   (Some previous, Some current, Some actual_previous, Some actual_revision) \<Rightarrow>
                     if previous \<noteq> actual_previous then bad ''task transition previous status does not match history''
                     else if revision \<noteq> (if current = previous then actual_revision else actual_revision + 1)
                       then bad ''task transition revision is not contiguous''
                     else if ev_actor_id e \<noteq> system_actor
                         \<or> (ev_correlation_id e, ev_causation_id e) \<notin> allowed_envelopes p previous request_id
                         \<or> ev_idempotency_key e \<noteq> Some (status_key task revision)
                       then bad ''task transition event envelope is inconsistent''
                     else (case transition g task current reason of
                       Inl x \<Rightarrow> bad ''task transition is not permitted''
                     | Inr (tr, g') \<Rightarrow>
                         if tt_revision tr \<noteq> revision then bad ''task transition revision does not match replay state''
                         else Inr (tr, g'))
                 | _ \<Rightarrow> bad ''task transition references unknown state'')
           | _ \<Rightarrow> bad ''task transition revision is invalid'')
       | _ \<Rightarrow> bad ''task transition status is invalid'')
   | _ \<Rightarrow> bad ''task transition payload has an invalid shape'')"

section \<open>Plans and tasks\<close>

text \<open>
  The exceptions that the decoder wraps; an \<open>AttributeError\<close> of the codec is not among them.
\<close>

definition wrap_python :: "string \<Rightarrow> py_error + 'a \<Rightarrow> kernel_error + 'a" where
  "wrap_python m x = (case x of Inl AttributeError \<Rightarrow> Inl (KePython AttributeError) | Inl e \<Rightarrow> bad m | Inr y \<Rightarrow> Inr y)"

definition decode_recovered_plan :: "kernel_config \<Rightarrow> stored_event \<Rightarrow> kernel_error + workflow_plan" where
  "decode_recovered_plan kc s = (let e = se_event s in case ev_payload e of
     JObj d \<Rightarrow>
       bind_res (wrap_python ''workflow plan payload is invalid'' (plan_from_dict (kc_conv kc) (JObj d))) (\<lambda>p.
         if canonical_json kc (JObj d) \<noteq> canonical_json kc (plan_to_dict p)
           then bad ''workflow plan payload is not canonical''
         else if ev_actor_id e \<noteq> wp_initiated_by p \<or> ev_idempotency_key e \<noteq> Some (''plan:'' @ wp_plan_id p)
             \<or> ev_correlation_id e \<noteq> plan_correlation p \<or> ev_causation_id e \<noteq> None
           then bad ''workflow plan event envelope is inconsistent''
         else Inr p)
   | _ \<Rightarrow> bad ''workflow plan payload must be a plain object'')"

definition decode_recovered_task :: "kernel_config \<Rightarrow> stored_event \<Rightarrow> workflow_plan \<Rightarrow> kernel_error + string" where
  "decode_recovered_task kc s p = (let e = se_event s in case ev_payload e of
     JObj d \<Rightarrow>
       (case field d ''taskId'' of
         JStr task_id \<Rightarrow>
           (case filter (\<lambda>t. tk_task_id t = task_id) (rev (wp_tasks p)) of
             [] \<Rightarrow> bad ''task creation event references an unknown task''
           | task # _ \<Rightarrow>
               if canonical_json kc (JObj d) \<noteq> canonical_json kc (task_spec_to_dict task)
                 then bad ''task creation payload is not canonical''
               else if ev_actor_id e \<noteq> wp_initiated_by p \<or> ev_idempotency_key e \<noteq> Some (''task-created:'' @ task_id)
                   \<or> ev_correlation_id e \<noteq> plan_correlation p \<or> ev_causation_id e \<noteq> None
                 then bad ''task creation event envelope is inconsistent''
               else Inr task_id)
       | _ \<Rightarrow> bad ''task creation payload is invalid'')
   | _ \<Rightarrow> bad ''task creation payload is invalid'')"

section \<open>Approvals\<close>

definition approval_fields :: "string list" where
  "approval_fields = [''requestId'', ''sessionId'', ''taskId'', ''intent'', ''reason'', ''createdAt'',
     ''decision'', ''decidedBy'', ''comment'']"

definition approval_target :: "approval_decision \<Rightarrow> task_status" where
  "approval_target d = (case d of AD_APPROVE \<Rightarrow> TS_READY | AD_REVISE \<Rightarrow> TS_WAITING_INPUT | AD_REJECT \<Rightarrow> TS_CANCELED)"

definition recovered_decision ::
  "bool \<Rightarrow> (string, json) dict \<Rightarrow> kernel_error + approval_decision option" where
  "recovered_decision decided d =
     (if decided then
        (case field d ''decision'' of
          JStr raw \<Rightarrow>
            if \<not> recovery_text (field d ''decidedBy'') then bad ''approval decidedBy is invalid''
            else (case enum_of approval_decision_value approval_decisions raw of
              Inl e \<Rightarrow> bad ''approval decision is invalid'' | Inr x \<Rightarrow> Inr (Some x))
        | _ \<Rightarrow> bad ''approval decision is invalid'')
      else if field d ''decision'' \<noteq> JNull \<or> field d ''decidedBy'' \<noteq> JNull \<or> field d ''comment'' \<noteq> JNull
        then bad ''approval request already contains a decision''
      else Inr None)"

text \<open>\<open>createdAt\<close> is canonical UTC and not after the event.\<close>

definition check_created_at :: "kernel_config \<Rightarrow> string \<Rightarrow> string \<Rightarrow> kernel_error + unit" where
  "check_created_at kc created_at timestamp =
     (if \<not> utc_shape created_at then bad ''approval createdAt is not canonical UTC''
      else case (kc_instant kc created_at, kc_instant kc timestamp) of
        (Some (Some a), Some (Some b)) \<Rightarrow> if a > b then bad ''approval timestamp violates event causality'' else Inr ()
      | (Some _, Some _) \<Rightarrow> bad ''approval timestamp violates event causality''
      | _ \<Rightarrow> bad ''approval timestamp is invalid'')"

definition check_approval ::
  "stored_event \<Rightarrow> workflow_plan \<Rightarrow> task_graph \<Rightarrow> bool \<Rightarrow> approval_request \<Rightarrow> kernel_error + approval_request" where
  "check_approval s p g decided r = (let e = se_event s in case map_of (tg_tasks g) (rq_task_id r) of
     None \<Rightarrow> bad ''approval references an unknown task''
   | Some task \<Rightarrow>
       if rq_session_id r \<noteq> wp_session_id p then bad ''approval crosses the workflow session boundary''
       else if rq_intent r \<noteq> tk_action task then bad ''approval intent differs from the task action''
       else if Some (ev_actor_id e) \<noteq> (if decided then rq_decided_by r else Some system_actor)
           \<or> ev_correlation_id e \<noteq> plan_correlation p
           \<or> ev_causation_id e \<noteq> Some (if decided then rq_request_id r else rq_task_id r)
           \<or> ev_idempotency_key e \<noteq> Some (if decided then ''approval-decision:'' @ rq_request_id r
               else ''approval-request:'' @ rq_task_id r)
         then bad ''approval event envelope is inconsistent''
       else Inr r)"

definition decode_recovered_approval ::
  "kernel_config \<Rightarrow> stored_event \<Rightarrow> workflow_plan \<Rightarrow> task_graph \<Rightarrow> bool \<Rightarrow> kernel_error + approval_request" where
  "decode_recovered_approval kc s p g decided = (let e = se_event s in case ev_payload e of
     JObj d \<Rightarrow>
       if set (dict_keys d) \<noteq> set approval_fields then bad ''approval payload has an invalid shape''
       else if \<not> list_all (\<lambda>k. recovery_text (field d k)) [''requestId'', ''sessionId'', ''taskId'', ''reason'', ''createdAt'']
         then bad ''approval field is invalid''
       else (case field d ''intent'' of
         JObj intent \<Rightarrow>
           if \<not> optional_recovery_text (field d ''comment'') then bad ''approval comment is invalid''
           else bind_res (recovered_decision decided d) (\<lambda>decision.
             bind_res (check_created_at kc (text_of (field d ''createdAt'')) (ev_timestamp e)) (\<lambda>_.
             bind_res (wrap_python ''approval payload is invalid'' (action_intent_from_dict (kc_conv kc) (JObj intent))) (\<lambda>i.
               let r = \<lparr>rq_session_id = text_of (field d ''sessionId''), rq_task_id = text_of (field d ''taskId''),
                   rq_intent = i, rq_reason = text_of (field d ''reason''), rq_request_id = text_of (field d ''requestId''),
                   rq_created_at = text_of (field d ''createdAt''), rq_decision = decision,
                   rq_decided_by = option_of (field d ''decidedBy''), rq_comment = option_of (field d ''comment'')\<rparr> in
               if canonical_json kc (JObj d) \<noteq> canonical_json kc (approval_to_dict r)
                 then bad ''approval payload is not canonical''
               else check_approval s p g decided r)))
       | _ \<Rightarrow> bad ''approval intent is invalid'')
   | _ \<Rightarrow> bad ''approval payload has an invalid shape'')"

definition same_approval :: "approval_request \<Rightarrow> approval_request \<Rightarrow> bool" where
  "same_approval a b = (rq_request_id a = rq_request_id b \<and> rq_session_id a = rq_session_id b
     \<and> rq_task_id a = rq_task_id b \<and> rq_intent a = rq_intent b \<and> rq_reason a = rq_reason b
     \<and> rq_created_at a = rq_created_at b)"

section \<open>The replay\<close>

record recovery =
  rc_created :: bool
  rc_plan :: "workflow_plan option"
  rc_graph :: "task_graph option"
  rc_task_ids :: "string list"
  rc_saw_transition :: bool
  rc_early_state :: bool
  rc_requests :: "(string, approval_request) dict"
  rc_by_task :: "(string, string) dict"
  rc_waiting :: "(string, int) dict"
  rc_decided :: "(string, string \<times> task_status \<times> string option \<times> int) dict"

definition new_recovery :: recovery where
  "new_recovery = \<lparr>rc_created = False, rc_plan = None, rc_graph = None, rc_task_ids = [], rc_saw_transition = False,
     rc_early_state = False, rc_requests = [], rc_by_task = [], rc_waiting = [], rc_decided = []\<rparr>"

text \<open>\<open>to_dict() != to_dict()\<close>: dicts compare without regard to the order of their keys.\<close>

definition same_plan :: "workflow_plan \<Rightarrow> workflow_plan \<Rightarrow> bool" where
  "same_plan p q = (py_value (sort_json (plan_to_dict p)) = py_value (sort_json (plan_to_dict q)))"

definition recover_plan ::
  "kernel_config \<Rightarrow> workflow_plan \<Rightarrow> stored_event \<Rightarrow> recovery \<Rightarrow> kernel_error + recovery" where
  "recover_plan kc requested s rc =
     (if rc_created rc then bad ''session contains multiple workflow plan events''
      else bind_res (decode_recovered_plan kc s) (\<lambda>p.
        if wp_plan_id p \<noteq> wp_plan_id requested then Inl (KeValue ''stored workflow plan does not match requested plan'')
        else if \<not> same_plan p requested then Inl (KeValue ''requested workflow content differs from the stored plan'')
        else if rc_early_state rc then bad ''session state events precede the workflow plan''
        else (case graph_init (wp_tasks p) of
          Inl e \<Rightarrow> Inl (KeGraph e)
        | Inr g \<Rightarrow> Inr (rc\<lparr>rc_created := True, rc_plan := Some p, rc_graph := Some g\<rparr>))))"

definition recover_task :: "kernel_config \<Rightarrow> stored_event \<Rightarrow> recovery \<Rightarrow> kernel_error + recovery" where
  "recover_task kc s rc = (case rc_plan rc of
     None \<Rightarrow> Inr (rc\<lparr>rc_early_state := True\<rparr>)
   | Some p \<Rightarrow> bind_res (decode_recovered_task kc s p) (\<lambda>task_id.
       if rc_saw_transition rc then bad ''task creation events overlap task transition history''
       else Inr (rc\<lparr>rc_task_ids := rc_task_ids rc @ [task_id]\<rparr>)))"

definition plan_task_ids :: "workflow_plan \<Rightarrow> string list" where
  "plan_task_ids p = map tk_task_id (wp_tasks p)"

text \<open>The decision that a transition out of \<open>waiting_approval\<close> must carry out.\<close>

definition pending_decision :: "stored_event \<Rightarrow> recovery \<Rightarrow> string option" where
  "pending_decision s rc = (case ev_payload (se_event s) of
     JObj d \<Rightarrow>
       if field d ''previous'' = JStr (task_status_value TS_WAITING_APPROVAL) then
         (case field d ''taskId'' of JStr t \<Rightarrow> map_option fst (map_of (rc_decided rc) t) | _ \<Rightarrow> None)
       else None
   | _ \<Rightarrow> None)"

definition leave_waiting :: "stored_event \<Rightarrow> task_transition \<Rightarrow> recovery \<Rightarrow> kernel_error + recovery" where
  "leave_waiting s tr rc =
     (if tt_previous tr \<noteq> TS_WAITING_APPROVAL then Inr rc
      else case map_of (rc_decided rc) (tt_task_id tr) of
        None \<Rightarrow> bad ''approval-gated task transitioned without a decision''
      | Some (request_id, status, reason, sequence) \<Rightarrow>
          if (tt_current tr, tt_reason tr) \<noteq> (status, reason) then bad ''approval decision does not match its task transition''
          else if se_sequence s \<noteq> sequence + 1 then bad ''approval decision is not adjacent to its task transition''
          else Inr (rc\<lparr>rc_decided := AList.delete (tt_task_id tr) (rc_decided rc)\<rparr>))"

definition enter_waiting :: "stored_event \<Rightarrow> task_transition \<Rightarrow> recovery \<Rightarrow> kernel_error + recovery" where
  "enter_waiting s tr rc =
     (if tt_current tr \<noteq> TS_WAITING_APPROVAL then Inr rc
      else if tt_previous tr = TS_WAITING_APPROVAL \<or> tt_task_id tr \<in> set (dict_keys (rc_waiting rc))
          \<or> tt_task_id tr \<in> set (dict_keys (rc_by_task rc))
        then bad ''approval-gated task has duplicate waiting history''
      else Inr (rc\<lparr>rc_waiting := dict_set (tt_task_id tr) (se_sequence s) (rc_waiting rc)\<rparr>))"

definition recover_transition ::
  "stored_event \<Rightarrow> workflow_plan \<Rightarrow> task_graph \<Rightarrow> recovery \<Rightarrow> kernel_error + recovery" where
  "recover_transition s p g rc0 = (let rc = rc0\<lparr>rc_saw_transition := True\<rparr> in
     if length (rc_task_ids rc) \<ge> length (plan_task_ids p) \<and> rc_task_ids rc \<noteq> plan_task_ids p
       then bad ''task creation events do not exactly match the plan''
     else bind_res (apply_recovered_transition g s p (pending_decision s rc)) (\<lambda>(tr, g').
       bind_res (leave_waiting s tr (rc\<lparr>rc_graph := Some g'\<rparr>)) (enter_waiting s tr)))"

definition recover_request ::
  "kernel_config \<Rightarrow> stored_event \<Rightarrow> workflow_plan \<Rightarrow> task_graph \<Rightarrow> recovery \<Rightarrow> kernel_error + recovery" where
  "recover_request kc s p g rc =
     bind_res (decode_recovered_approval kc s p g False) (\<lambda>r. let t = rq_task_id r in
       case (map_of (tg_statuses g) t, map_of (rc_waiting rc) t) of
         (Some TS_WAITING_APPROVAL, Some sequence) \<Rightarrow>
           if rq_request_id r \<in> set (dict_keys (rc_requests rc)) \<or> t \<in> set (dict_keys (rc_by_task rc))
             then bad ''approval request is not unique''
           else if map_of (tg_reasons g) t \<noteq> Some (rq_reason r)
             then bad ''approval request reason differs from the waiting transition''
           else if se_sequence s \<noteq> sequence + 1
             then bad ''approval request is not adjacent to its waiting transition''
           else Inr (rc\<lparr>rc_waiting := AList.delete t (rc_waiting rc),
                  rc_requests := dict_set (rq_request_id r) r (rc_requests rc),
                  rc_by_task := dict_set t (rq_request_id r) (rc_by_task rc)\<rparr>)
       | _ \<Rightarrow> bad ''approval request is not caused by a waiting task transition'')"

definition recover_decision ::
  "kernel_config \<Rightarrow> stored_event \<Rightarrow> workflow_plan \<Rightarrow> task_graph \<Rightarrow> recovery \<Rightarrow> kernel_error + recovery" where
  "recover_decision kc s p g rc =
     bind_res (decode_recovered_approval kc s p g True) (\<lambda>r. let t = rq_task_id r in
       case map_of (rc_requests rc) (rq_request_id r) of
         None \<Rightarrow> bad ''approval decision has no prior request''
       | Some requested \<Rightarrow>
           if \<not> rq_pending requested then bad ''approval request has multiple decisions''
           else if \<not> same_approval requested r then bad ''approval decision changes its request identity''
           else if map_of (tg_statuses g) t \<noteq> Some TS_WAITING_APPROVAL
             then bad ''approval decision targets a task that is not waiting''
           else if t \<in> set (dict_keys (rc_decided rc)) then bad ''approval task has an unresolved decision''
           else (case rq_decision r of
             None \<Rightarrow> bad ''approval decision is missing''
           | Some dec \<Rightarrow> Inr (rc\<lparr>rc_requests := dict_set (rq_request_id r) r (rc_requests rc),
               rc_decided := dict_set t (rq_request_id r, approval_target dec, rq_comment r, se_sequence s)
                 (rc_decided rc)\<rparr>)))"

definition recover_event ::
  "kernel_config \<Rightarrow> workflow_plan \<Rightarrow> stored_event \<Rightarrow> recovery \<Rightarrow> kernel_error + recovery" where
  "recover_event kc requested s rc = (let kind = ev_event_type (se_event s) in
     if kind = ''workflow.plan.created'' then recover_plan kc requested s rc
     else if kind = ''task.created'' then recover_task kc s rc
     else if kind \<notin> {''task.status.changed'', ''approval.requested'', ''approval.decided''} then Inr rc
     else case (rc_plan rc, rc_graph rc) of
       (Some p, Some g) \<Rightarrow>
         if kind = ''task.status.changed'' then recover_transition s p g rc
         else if kind = ''approval.requested'' then recover_request kc s p g rc
         else recover_decision kc s p g rc
     | _ \<Rightarrow> Inr (rc\<lparr>rc_early_state := True\<rparr>))"

section \<open>Pages\<close>

definition max_recovery_events :: nat where
  "max_recovery_events = 1000000"

definition measure_event :: "kernel_config \<Rightarrow> stored_event \<Rightarrow> nat \<times> nat" where
  "measure_event kc s = (length (canonical_event (kc_events kc) (se_event s)),
     meta_nodes (JObj (event_to_dict (se_event s))))"

text \<open>The events of a page: each is measured, then replayed.\<close>

fun recover_page ::
  "kernel_config \<Rightarrow> workflow_plan \<Rightarrow> nat \<Rightarrow> nat \<Rightarrow> recovery \<Rightarrow> stored_event list \<Rightarrow> kernel_error + nat \<times> nat \<times> recovery"
where
  "recover_page kc requested bytes nodes rc [] = Inr (bytes, nodes, rc)"
| "recover_page kc requested bytes nodes rc (s # ss) = (let (b, n) = measure_event kc s in
     if b > 256 * 1024 * 1024 - bytes then bad ''session recovery exceeds the byte safety limit''
     else if n > 5000000 - nodes then bad ''session recovery exceeds the JSON-node safety limit''
     else bind_res (recover_event kc requested s rc) (\<lambda>rc'.
       recover_page kc requested (bytes + b) (nodes + n) rc' ss))"

function recover_loop ::
  "kernel_config \<Rightarrow> workflow_plan \<Rightarrow> int \<Rightarrow> nat \<Rightarrow> nat \<Rightarrow> nat \<Rightarrow> recovery \<Rightarrow> stored_event list \<Rightarrow> kernel_error + recovery"
where
  "recover_loop kc requested after replayed bytes nodes rc rows =
     (let stream = session_stream (wp_session_id requested) in
      if replayed < max_recovery_events then
        let page_limit = min 1000 (max_recovery_events - replayed) in
        bind_res (from_events (read_stream_page (kc_events kc) stream after (int page_limit) rows)) (\<lambda>page.
        bind_res (check_recovery_page stream after page_limit page) (\<lambda>after'.
          if page = [] then Inr rc
          else bind_res (recover_page kc requested bytes nodes rc page) (\<lambda>(bytes', nodes', rc').
            if length page < page_limit then Inr rc'
            else recover_loop kc requested after' (replayed + length page) bytes' nodes' rc' rows)))
      else
        bind_res (from_events (read_stream_page (kc_events kc) stream after 1 rows)) (\<lambda>probe.
        bind_res (check_recovery_page stream after 1 probe) (\<lambda>_.
          if probe \<noteq> [] then bad ''session recovery exceeds the event safety limit'' else Inr rc)))"
  by pat_completeness auto
termination
  by (relation "measure (\<lambda>(kc, requested, after, replayed, bytes, nodes, rc, rows). max_recovery_events - replayed)") auto

declare recover_loop.simps [simp del]

section \<open>The end of a recovery\<close>

definition no_running :: "task_graph \<Rightarrow> bool" where
  "no_running g = (TS_RUNNING \<notin> set (dict_values (tg_statuses g)))"

definition finish_recovery :: "recovery \<Rightarrow> kernel_error + (workflow_plan \<times> task_graph) option" where
  "finish_recovery rc =
     (if \<not> rc_created rc then Inr None
      else case (rc_plan rc, rc_graph rc) of
        (Some p, Some g) \<Rightarrow>
          if rc_task_ids rc \<noteq> plan_task_ids p then bad ''task creation events do not exactly match the plan''
          else if rc_waiting rc \<noteq> [] then bad ''approval waiting transition has no request''
          else if rc_decided rc \<noteq> [] then bad ''approval decision has no matching task transition''
          else if list_ex (\<lambda>r. rq_pending r \<and> map_of (tg_statuses g) (rq_task_id r) \<noteq> Some TS_WAITING_APPROVAL)
              (dict_values (rc_requests rc))
            then bad ''pending approval is not attached to a waiting task''
          else if \<not> no_running g then bad ''session contains a durably RUNNING task''
          else Inr (Some (p, g))
      | _ \<Rightarrow> bad ''workflow plan recovery state is incomplete'')"

end
