(* ===== verification/Plugins.thy ===== *)
theory Plugins
  imports Json "HOL-Library.Product_Lexorder" "HOL-Library.Multiset"
begin

text \<open>
  \<open>plugins.py\<close>: the plugin manager of the kernel. A hook changes the context it is given or
  raises; whether it is a coroutine makes no difference, because \<open>emit\<close> waits for it before the
  next one starts. The context is of any type, so a hook can change everything it can reach.
\<close>

datatype hook_point = HP_PLAN_CREATED | HP_BEFORE_DISPATCH | HP_CONTEXT_BUILD | HP_CONTEXT_COMPILED
  | HP_BEFORE_AGENT | HP_AFTER_AGENT | HP_AFTER_DISPATCH | HP_EVENT_APPENDED

record ('c, 'e) plugin =
  pl_name :: string
  pl_hooks :: "hook_point \<Rightarrow> ('c \<Rightarrow> 'e + 'c) option"
  pl_priority :: int

definition check_plugin :: "('c, 'e) plugin \<Rightarrow> py_error + ('c, 'e) plugin" where
  "check_plugin p = (if blank (pl_name p) then Inl (ValueError ''plugin name is required'') else Inr p)"

type_synonym ('c, 'e) plugins = "(string, ('c, 'e) plugin) dict"

definition install_plugin :: "('c, 'e) plugin \<Rightarrow> ('c, 'e) plugins \<Rightarrow> py_error + ('c, 'e) plugins" where
  "install_plugin p ps = (if pl_name p \<in> set (dict_keys ps) then Inl (ValueError ''plugin already installed'')
     else Inr (dict_set (pl_name p) p ps))"

definition uninstall_plugin :: "string \<Rightarrow> ('c, 'e) plugins \<Rightarrow> ('c, 'e) plugin option \<times> ('c, 'e) plugins" where
  "uninstall_plugin n ps = (map_of ps n, AList.delete n ps)"

definition installed_plugins :: "('c, 'e) plugins \<Rightarrow> ('c, 'e) plugin list" where
  "installed_plugins ps = sort_key (\<lambda>p. (pl_priority p, pl_name p)) (dict_values ps)"

fun emit_all :: "hook_point \<Rightarrow> ('c, 'e) plugin list \<Rightarrow> 'c \<Rightarrow> 'e + 'c" where
  "emit_all point [] c = Inr c"
| "emit_all point (p # ps) c = (case pl_hooks p point of
     None \<Rightarrow> emit_all point ps c
   | Some hook \<Rightarrow> bind_res (hook c) (emit_all point ps))"

definition emit :: "hook_point \<Rightarrow> ('c, 'e) plugins \<Rightarrow> 'c \<Rightarrow> 'e + 'c" where
  "emit point ps c = emit_all point (installed_plugins ps) c"

section \<open>Reachable managers\<close>

inductive plugin_step :: "('c, 'e) plugins \<Rightarrow> ('c, 'e) plugins \<Rightarrow> bool" where
  step_install: "install_plugin p ps = Inr ps' \<Longrightarrow> plugin_step ps ps'"
| step_uninstall: "uninstall_plugin n ps = (x, ps') \<Longrightarrow> plugin_step ps ps'"

definition plugins_inv :: "('c, 'e) plugins \<Rightarrow> bool" where
  "plugins_inv ps = (distinct (dict_keys ps) \<and> (\<forall>(n, p) \<in> set ps. pl_name p = n))"

lemma plugin_step_inv: "plugin_step ps ps' \<Longrightarrow> plugins_inv ps \<Longrightarrow> plugins_inv ps'"
proof (induction rule: plugin_step.induct)
  case (step_install p ps ps')
  then show ?case
    by (auto simp: install_plugin_def plugins_inv_def distinct_update dest!: dict_set_in split: if_splits)
next
  case (step_uninstall n ps x ps')
  then have ps': "ps' = AList.delete n ps" "plugins_inv ps" by (simp_all add: uninstall_plugin_def)
  then have "distinct (dict_keys ps')" by (simp add: plugins_inv_def distinct_delete)
  moreover have "set ps' \<subseteq> set ps" using ps'(1) by (auto simp: AList.delete_eq)
  ultimately show ?case using ps'(2) by (auto simp: plugins_inv_def)
qed

interpretation plugin_sys: invariant_system "\<lambda>ps. ps = []" plugin_step plugins_inv
  by unfold_locales (simp add: plugins_inv_def, blast intro: plugin_step_inv)

abbreviation reachable_plugins :: "('c, 'e) plugins \<Rightarrow> bool" where
  "reachable_plugins \<equiv> reach (\<lambda>ps. ps = []) plugin_step"

lemma names_of_values: "plugins_inv ps \<Longrightarrow> map pl_name (dict_values ps) = dict_keys ps"
  by (auto simp: plugins_inv_def)

lemma found_by_name: "plugins_inv ps \<Longrightarrow> p \<in> set (dict_values ps) \<Longrightarrow> map_of ps (pl_name p) = Some p"
  by (auto simp: plugins_inv_def)

text \<open>
  Hooks run in an order that does not depend on the order of installation: two managers that hold
  the same plugins run the same hooks in the same order, by priority and then by name, however
  their plugins were installed and uninstalled.
\<close>

theorem emit_order_independent:
  assumes "reachable_plugins ps" and "reachable_plugins ps'" and "set (dict_values ps) = set (dict_values ps')"
  shows "emit point ps c = emit point ps' c"
proof -
  have inv: "plugins_inv ps" "plugins_inv ps'" using assms(1,2) plugin_sys.reach_inv by blast+
  have "distinct (dict_values ps)" "distinct (dict_values ps')"
    using inv names_of_values [OF inv(1)] names_of_values [OF inv(2)] by (metis distinct_map plugins_inv_def)+
  then have "mset (dict_values ps) = mset (dict_values ps')" using assms(3) by (simp only: set_eq_iff_mset_eq_distinct)
  moreover have "inj_on (\<lambda>p. (pl_priority p, pl_name p)) (set (dict_values ps))"
    using found_by_name [OF inv(1)] by (intro inj_onI) (metis Pair_inject option.inject)
  ultimately have "installed_plugins ps = installed_plugins ps'"
    unfolding installed_plugins_def by (intro sort_key_inj_key_eq) simp_all
  then show ?thesis by (simp add: emit_def)
qed

text \<open>Installing and uninstalling a plugin leaves the manager as it was.\<close>

lemma install_uninstall:
  "install_plugin p ps = Inr ps' \<Longrightarrow> uninstall_plugin (pl_name p) ps' = (Some p, ps)"
proof -
  assume "install_plugin p ps = Inr ps'"
  then have p: "pl_name p \<notin> set (dict_keys ps)" "ps' = dict_set (pl_name p) p ps"
    by (auto simp: install_plugin_def split: if_splits)
  then have "AList.delete (pl_name p) ps' = ps"
    by (force simp: dict_set_fresh AList.delete_eq filter_id_conv)
  then show ?thesis by (simp add: uninstall_plugin_def p(2) dict_simps)
qed

end
