(* ===== verification/Kernel.thy ===== *)
theory Kernel
  imports Kernel_Recovery Plugins
begin

text \<open>
  \<open>OrchestratorKernel\<close> of \<open>runtime.py\<close>: the state in memory and the operations, each commit of
  events followed by its change of the memory, as in the code.

  An operation is given what its environment does as a record: ids, times, what other connections
  append, which hooks raise, what the agent replies. Hooks of \<open>event.appended\<close> and
  \<open>plan.created\<close> run after the commit and their exceptions are swallowed, so they do not occur.
\<close>

section \<open>State\<close>

record kernel =
  kn_plans :: "(string, workflow_plan) dict"
  kn_graphs :: "(string, task_graph) dict"
  kn_task_artifacts :: "(string \<times> string, artifact_ref list) dict"
  kn_approved :: "(string \<times> string) set"
  kn_inbox :: inbox
  kn_ledger :: ledger
  kn_agents :: "(string, actor_ref) dict"
  kn_plugins :: "(context_item list, kernel_error) plugins"
  kn_accepting :: bool
  kn_closing :: bool
  kn_closed :: bool

definition new_kernel :: "ledger \<Rightarrow> (context_item list, kernel_error) plugins \<Rightarrow> kernel" where
  "new_kernel lg ps = \<lparr>kn_plans = [], kn_graphs = [], kn_task_artifacts = [], kn_approved = {}, kn_inbox = [],
     kn_ledger = lg, kn_agents = [], kn_plugins = ps, kn_accepting = True, kn_closing = False, kn_closed = False\<rparr>"

definition set_graph :: "string \<Rightarrow> task_graph \<Rightarrow> kernel \<Rightarrow> kernel" where
  "set_graph session g kn = kn\<lparr>kn_graphs := dict_set session g (kn_graphs kn)\<rparr>"

definition shut :: "kernel \<Rightarrow> bool" where
  "shut kn = (kn_closing kn \<or> kn_closed kn)"

definition register_agent :: "actor_ref \<Rightarrow> kernel \<Rightarrow> kernel_error + kernel" where
  "register_agent a kn =
     (if shut kn \<or> \<not> kn_accepting kn then Inl KeClosed
      else if ar_kind a \<noteq> AK_AGENT then Inl (KeValue ''only agent actors can be registered'')
      else if ar_actor_id a \<in> set (dict_keys (kn_agents kn)) then Inl (KeValue ''agent already registered'')
      else Inr (kn\<lparr>kn_agents := dict_set (ar_actor_id a) a (kn_agents kn)\<rparr>))"

text \<open>Closing: the errors are those of the runtimes' own \<open>close\<close>; a failed close can be retried.\<close>

definition close_kernel :: "kernel_error list \<Rightarrow> kernel \<Rightarrow> (kernel_error + unit) \<times> kernel" where
  "close_kernel errors kn =
     (if kn_closed kn then (Inr (), kn)
      else let kn' = kn\<lparr>kn_closing := True, kn_accepting := False\<rparr> in
        case errors of e # _ \<Rightarrow> (Inl e, kn') | [] \<Rightarrow> (Inr (), kn'\<lparr>kn_closed := True\<rparr>))"

section \<open>Recovery\<close>

definition restore_requests :: "approval_request list \<Rightarrow> inbox \<Rightarrow> inbox" where
  "restore_requests rs q = fold (\<lambda>r q. snd (inbox_restore q r)) rs q"

definition approved_by :: "approval_request list \<Rightarrow> (string \<times> string) set" where
  "approved_by rs = (\<lambda>r. (rq_session_id r, rq_task_id r)) ` set (filter (\<lambda>r. rq_decision r = Some AD_APPROVE) rs)"

definition restore_artifacts ::
  "ledger \<Rightarrow> workflow_plan \<Rightarrow> (string \<times> string, artifact_ref list) dict \<Rightarrow> (string \<times> string, artifact_ref list) dict" where
  "restore_artifacts lg p d = fold (\<lambda>t d. let refs = map av_ref (by_task lg (wp_session_id p) (tk_task_id t)) in
     if refs = [] then d else dict_set (wp_session_id p, tk_task_id t) refs d) (wp_tasks p) d"

definition recover_session ::
  "kernel_config \<Rightarrow> workflow_plan \<Rightarrow> kernel \<Rightarrow> stored_event list \<Rightarrow> kernel_error + kernel" where
  "recover_session kc requested kn rows =
     (if wp_session_id requested \<in> set (dict_keys (kn_plans kn)) then Inr kn
      else bind_res (recover_loop kc requested 0 0 0 0 new_recovery rows) (\<lambda>rc.
        bind_res (finish_recovery rc) (\<lambda>found. case found of
          None \<Rightarrow> Inr kn
        | Some (p, g) \<Rightarrow> let rs = dict_values (rc_requests rc); session = wp_session_id requested in
            Inr (kn\<lparr>kn_plans := dict_set session p (kn_plans kn), kn_graphs := dict_set session g (kn_graphs kn),
                   kn_inbox := restore_requests rs (kn_inbox kn),
                   kn_approved := kn_approved kn \<union> approved_by rs,
                   kn_task_artifacts := restore_artifacts (kn_ledger kn) p (kn_task_artifacts kn)\<rparr>))))"

section \<open>Starting a plan\<close>

definition plan_events :: "workflow_plan \<Rightarrow> task_transition list \<Rightarrow> (nat \<Rightarrow> fresh_event) \<Rightarrow> domain_event list" where
  "plan_events p trs fresh = plan_event p (fresh 0) # task_events p fresh 1 (wp_tasks p)
     @ transition_events (wp_session_id p) (wp_correlation_id p) None fresh (1 + length (wp_tasks p)) trs"

definition initialize_plan ::
  "kernel_config \<Rightarrow> commit_env \<Rightarrow> workflow_plan \<Rightarrow> kernel \<Rightarrow> stored_event list
   \<Rightarrow> (kernel_error + unit) \<times> kernel \<times> stored_event list" where
  "initialize_plan kc env p kn rows = (let session = wp_session_id p in case map_of (kn_plans kn) session of
     Some existing \<Rightarrow>
       if wp_plan_id existing \<noteq> wp_plan_id p then (Inl (KeValue ''one active workflow plan is allowed per session''), kn, rows)
       else if \<not> same_plan existing p
         then (Inl (KeValue ''requested workflow content differs from the active plan''), kn, rows)
       else (Inr (), kn, rows)
   | None \<Rightarrow>
       (case bind_res (graph_init (wp_tasks p)) refresh of
          Inl e \<Rightarrow> (Inl (KeGraph e), kn, rows)
        | Inr (trs, g) \<Rightarrow>
            (case commit_events kc env (session_stream session) (plan_events p trs (ce_fresh env)) rows of
               (Inl e, rows') \<Rightarrow> (Inl e, kn, rows')
             | (Inr ss, rows') \<Rightarrow>
                 (Inr (), kn\<lparr>kn_plans := dict_set session p (kn_plans kn),
                    kn_graphs := dict_set session g (kn_graphs kn)\<rparr>, rows'))))"

text \<open>A round of refreshed transitions, committed and then applied.\<close>

definition commit_refresh ::
  "kernel_config \<Rightarrow> commit_env \<Rightarrow> workflow_plan \<Rightarrow> kernel \<Rightarrow> stored_event list
   \<Rightarrow> (kernel_error + unit) \<times> kernel \<times> stored_event list" where
  "commit_refresh kc env p kn rows = (case map_of (kn_graphs kn) (wp_session_id p) of
     None \<Rightarrow> (Inl (KeKey ''session''), kn, rows)
   | Some g \<Rightarrow>
       (case preview_refresh g of
          Inl e \<Rightarrow> (Inl (KeGraph e), kn, rows)
        | Inr trs \<Rightarrow>
            (let (out, g', rows') = commit_planned kc env (wp_session_id p) trs (wp_correlation_id p) None g rows in
             (out, set_graph (wp_session_id p) g' kn, rows'))))"

section \<open>Dispatch\<close>

definition task_decision :: "kernel_config \<Rightarrow> workflow_plan \<Rightarrow> task_spec \<Rightarrow> kernel \<Rightarrow> policy_decision" where
  "task_decision kc p t kn =
     (let d = evaluate (kc_forbidden kc) (tk_action t) (hc_authority (tk_handoff t)) in
      if (wp_session_id p, tk_task_id t) \<in> kn_approved kn \<and> pd_outcome d = PO_NEEDS_APPROVAL
        then \<lparr>pd_outcome = PO_ALLOW, pd_reason = ''covered by task-scoped human approval''\<rparr> else d)"

definition step_transition :: "string \<Rightarrow> task_status \<Rightarrow> task_status \<Rightarrow> string option \<Rightarrow> int \<Rightarrow> task_transition" where
  "step_transition task previous current reason revision =
     \<lparr>tt_task_id = task, tt_previous = previous, tt_current = current, tt_reason = reason, tt_revision = revision\<rparr>"

text \<open>The denied task: it is started and failed in one commit.\<close>

definition deny_task ::
  "kernel_config \<Rightarrow> commit_env \<Rightarrow> workflow_plan \<Rightarrow> task_spec \<Rightarrow> string \<Rightarrow> task_graph \<Rightarrow> stored_event list
   \<Rightarrow> (kernel_error + unit) \<times> task_graph \<times> stored_event list" where
  "deny_task kc env p t reason g rows = (case preview_transition g (tk_task_id t) TS_RUNNING None of
     Inl e \<Rightarrow> (Inl (KeGraph e), g, rows)
   | Inr running \<Rightarrow> commit_planned kc env (wp_session_id p)
       [running, step_transition (tk_task_id t) TS_RUNNING TS_FAILED (Some reason) (tt_revision running + 1)]
       (plan_correlation p) None g rows)"

definition request_approval ::
  "kernel_config \<Rightarrow> commit_env \<Rightarrow> workflow_plan \<Rightarrow> task_spec \<Rightarrow> string \<Rightarrow> string \<times> string \<Rightarrow> task_graph \<Rightarrow> kernel
   \<Rightarrow> stored_event list \<Rightarrow> (kernel_error + unit) \<times> kernel \<times> stored_event list" where
  "request_approval kc env p t reason ids g kn rows = (let session = wp_session_id p; task = tk_task_id t in
     if list_ex (\<lambda>r. rq_task_id r = task) (inbox_pending (kn_inbox kn) (Some session))
       then (Inl (KeRuntime ''task already has a pending approval request''), kn, rows)
     else case map_of (tg_revisions g) task of
       None \<Rightarrow> (Inl (KeKey task), kn, rows)
     | Some n \<Rightarrow>
         (let running = step_transition task TS_READY TS_RUNNING None (n + 1);
              waiting = step_transition task TS_RUNNING TS_WAITING_APPROVAL (Some reason) (n + 2);
              request = \<lparr>rq_session_id = session, rq_task_id = task, rq_intent = tk_action t, rq_reason = reason,
                rq_request_id = fst ids, rq_created_at = snd ids, rq_decision = None, rq_decided_by = None,
                rq_comment = None\<rparr> in
          case commit_events kc env (session_stream session)
              (transition_events session (plan_correlation p) None (ce_fresh env) 0 [running, waiting]
               @ [request_event p request (ce_fresh env 2)]) rows of
            (Inl e, rows') \<Rightarrow> (Inl e, kn, rows')
          | (Inr ss, rows') \<Rightarrow>
              (case apply_committed g [running, waiting] of
                 (g', Some e) \<Rightarrow> (Inl e, set_graph session g' kn, rows')
               | (g', None) \<Rightarrow>
                   (let (created, q) = inbox_create (kn_inbox kn) request;
                        kn' = (set_graph session g' kn)\<lparr>kn_inbox := q\<rparr> in
                    if approval_to_dict created \<noteq> approval_to_dict request
                      then (Inl (KeRuntime ''persisted approval request differs from memory''), kn', rows')
                    else (Inr (), kn', rows')))))"

text \<open>The part of \<open>_run_task\<close> before the agent: \<open>Inr True\<close> says that the task is now running.\<close>

definition dispatch_task ::
  "kernel_config \<Rightarrow> commit_env \<Rightarrow> string \<times> string \<Rightarrow> workflow_plan \<Rightarrow> task_spec \<Rightarrow> kernel \<Rightarrow> stored_event list
   \<Rightarrow> (kernel_error + bool) \<times> kernel \<times> stored_event list" where
  "dispatch_task kc env ids p t kn rows = (let session = wp_session_id p; d = task_decision kc p t kn in
     case map_of (kn_graphs kn) session of
       None \<Rightarrow> (Inl (KeKey session), kn, rows)
     | Some g \<Rightarrow>
         (case pd_outcome d of
            PO_DENY \<Rightarrow>
              (let (out, g', rows') = deny_task kc env p t (pd_reason d) g rows in
               (map_sum id (\<lambda>_. False) out, set_graph session g' kn, rows'))
          | PO_NEEDS_APPROVAL \<Rightarrow>
              (let (out, kn', rows') = request_approval kc env p t (pd_reason d) ids g kn rows in
               (map_sum id (\<lambda>_. False) out, kn', rows'))
          | PO_ALLOW \<Rightarrow>
              (let (out, g', rows') = commit_transition kc env session (tk_task_id t) TS_RUNNING (plan_correlation p)
                 None g rows in
               (map_sum id (\<lambda>_. True) out, set_graph session g' kn, rows'))))"

text \<open>A later transition of a running task: \<open>failed\<close> or \<open>completed\<close>.\<close>

definition settle_task ::
  "kernel_config \<Rightarrow> commit_env \<Rightarrow> workflow_plan \<Rightarrow> string \<Rightarrow> task_status \<Rightarrow> string option \<Rightarrow> kernel
   \<Rightarrow> stored_event list \<Rightarrow> (kernel_error + unit) \<times> kernel \<times> stored_event list" where
  "settle_task kc env p task target reason kn rows = (let session = wp_session_id p in
     case map_of (kn_graphs kn) session of
       None \<Rightarrow> (Inl (KeKey session), kn, rows)
     | Some g \<Rightarrow>
         (let (out, g', rows') = commit_transition kc env session task target (plan_correlation p) reason g rows in
          (out, set_graph session g' kn, rows')))"

section \<open>Decisions\<close>

definition decide_request ::
  "kernel_config \<Rightarrow> commit_env \<Rightarrow> string \<Rightarrow> approval_decision \<Rightarrow> string \<Rightarrow> string option \<Rightarrow> kernel
   \<Rightarrow> stored_event list \<Rightarrow> (kernel_error + approval_request) \<times> kernel \<times> stored_event list" where
  "decide_request kc env request_id decision actor comment kn rows =
     (if shut kn then (Inl KeClosed, kn, rows)
      else if actor = [] \<or> length actor > 65536 then (Inl (KeValue ''actor_id is invalid''), kn, rows)
      else if \<not> pred_option (\<lambda>c. length c \<le> 65536) comment then (Inl (KeValue ''comment is invalid''), kn, rows)
      else case inbox_get (kn_inbox kn) request_id of
        Inl e \<Rightarrow> (Inl (KeInbox e), kn, rows)
      | Inr r \<Rightarrow>
          if \<not> rq_pending r then
            (case inbox_decide (kn_inbox kn) request_id decision actor comment of
               Inl e \<Rightarrow> (Inl (KeInbox e), kn, rows)
             | Inr (x, q) \<Rightarrow> (Inr x, kn\<lparr>kn_inbox := q\<rparr>, rows))
          else (let session = rq_session_id r; task = rq_task_id r in
            case (map_of (kn_plans kn) session, map_of (kn_graphs kn) session) of
              (Some p, Some g) \<Rightarrow>
                (case (map_of (tg_statuses g) task, map_of (tg_revisions g) task) of
                  (Some status, Some n) \<Rightarrow>
                    if status \<noteq> TS_WAITING_APPROVAL
                      then (Inl (KeRuntime ''approval task is not waiting for a decision''), kn, rows)
                    else
                      (let target = approval_target decision;
                           tr = step_transition task TS_WAITING_APPROVAL target comment (n + 1);
                           decided = r\<lparr>rq_decision := Some decision, rq_decided_by := Some actor, rq_comment := comment\<rparr> in
                       case commit_events kc env (session_stream session)
                           (decision_event p decided actor (ce_fresh env 0)
                            # transition_events session (plan_correlation p) (Some (rq_request_id r)) (ce_fresh env) 1 [tr])
                           rows of
                         (Inl e, rows') \<Rightarrow> (Inl e, kn, rows')
                       | (Inr ss, rows') \<Rightarrow>
                           (case inbox_decide (kn_inbox kn) request_id decision actor comment of
                              Inl e \<Rightarrow> (Inl (KeInbox e), kn, rows')
                            | Inr (x, q) \<Rightarrow>
                                let kn1 = kn\<lparr>kn_inbox := q\<rparr> in
                                if approval_to_dict x \<noteq> approval_to_dict decided
                                  then (Inl (KeRuntime ''persisted approval decision differs from memory''), kn1, rows')
                                else (case apply_committed g [tr] of
                                  (g', Some e) \<Rightarrow> (Inl e, set_graph session g' kn1, rows')
                                | (g', None) \<Rightarrow>
                                    (Inr x, (set_graph session g' kn1)\<lparr>kn_approved :=
                                       (if decision = AD_APPROVE then insert (session, task) (kn_approved kn)
                                        else kn_approved kn - {(session, task)})\<rparr>, rows'))))
                | _ \<Rightarrow> (Inl (KeKey task), kn, rows))
            | _ \<Rightarrow> (Inl (KeKey session), kn, rows)))"

end
