(* ===== verification/Kernel_Run.thy ===== *)
theory Kernel_Run
  imports Kernel
begin

text \<open>
  \<open>run\<close> of \<open>runtime.py\<close>: the context of a task, its dispatch to the agent, the record of what the
  agent returns, and the rounds of refresh and dispatch until no task is ready.

  A hook is given the items of the context, the only part of its argument that the kernel reads
  back. The tasks of a batch run one after the other here; the theory of the reachable sessions
  interleaves their commits.
\<close>

section \<open>Context\<close>

text \<open>\<open>json.dumps(v, ensure_ascii=False, sort_keys=True)\<close>: a text, with blanks after the separators.\<close>

definition text_char :: "char \<Rightarrow> string" where
  "text_char c = (if (of_char c :: nat) < 128 then json_char c else [c])"

definition text_string :: "string \<Rightarrow> string" where
  "text_string s = [CHR 0x22] @ concat (map text_char s) @ [CHR 0x22]"

fun spaced_json :: "platform \<Rightarrow> json \<Rightarrow> string" where
  "spaced_json pf JNull = ''null''"
| "spaced_json pf (JBool b) = (if b then ''true'' else ''false'')"
| "spaced_json pf (JInt i) = int_text i"
| "spaced_json pf (JFloat r) = pf_float_text pf r"
| "spaced_json pf (JStr s) = text_string s"
| "spaced_json pf (JArr xs) = ''['' @ py_join '', '' (map (spaced_json pf) xs) @ '']''"
| "spaced_json pf (JObj d) = [CHR 0x7B] @ py_join '', ''
     (map (\<lambda>(k, t). text_string k @ '': '' @ t)
       (sort_key fst (map (\<lambda>(k, v). (k, spaced_json pf v)) d))) @ [CHR 0x7D]"

definition artifact_item :: "string \<Rightarrow> artifact_version \<Rightarrow> context_item" where
  "artifact_item name v =
     \<lparr>ci_item_id = ''artifact:'' @ name @ '':v'' @ int_text (af_version (av_ref v)), ci_category = ''artifact'',
      ci_content = av_content v, ci_required = True, ci_relevance = 1, ci_provenance = af_uri (av_ref v),
      ci_metadata = [(''ref'', artifact_ref_to_dict (av_ref v))]\<rparr>"

text \<open>Both loops of \<open>_artifact_items\<close>: the names in order, each once, if it has a current version.\<close>

fun collect_items :: "ledger \<Rightarrow> string \<Rightarrow> string list \<Rightarrow> string list \<Rightarrow> context_item list" where
  "collect_items lg session seen [] = []"
| "collect_items lg session seen (n # ns) =
     (if n \<in> set seen then collect_items lg session seen ns
      else case current_version lg session n of
        None \<Rightarrow> collect_items lg session seen ns
      | Some v \<Rightarrow> artifact_item n v # collect_items lg session (n # seen) ns)"

definition task_refs :: "kernel \<Rightarrow> string \<Rightarrow> string \<Rightarrow> artifact_ref list" where
  "task_refs kn session task = (case map_of (kn_task_artifacts kn) (session, task) of None \<Rightarrow> [] | Some rs \<Rightarrow> rs)"

definition artifact_items :: "kernel \<Rightarrow> workflow_plan \<Rightarrow> task_spec \<Rightarrow> context_item list" where
  "artifact_items kn p t = collect_items (kn_ledger kn) (wp_session_id p) []
     (map af_name (concat (map (task_refs kn (wp_session_id p)) (tk_depends_on t))) @ tk_input_artifacts t)"

definition base_item :: "string \<Rightarrow> string \<Rightarrow> string \<Rightarrow> string \<Rightarrow> context_item" where
  "base_item i category content provenance = \<lparr>ci_item_id = i, ci_category = category, ci_content = content,
     ci_required = True, ci_relevance = 1, ci_provenance = provenance, ci_metadata = []\<rparr>"

definition task_items :: "kernel_config \<Rightarrow> kernel \<Rightarrow> workflow_plan \<Rightarrow> task_spec \<Rightarrow> context_item list" where
  "task_items kc kn p t =
     [base_item ''goal'' ''goal'' (wp_goal p) ''user'',
      base_item (''handoff:'' @ tk_task_id t) ''handoff''
        (spaced_json (cf_platform (kc_events kc)) (handoff_to_dict (tk_handoff t))) ''planner'']
     @ artifact_items kn p t"

definition from_python :: "py_error + 'a \<Rightarrow> kernel_error + 'a" where
  "from_python x = (case x of Inl e \<Rightarrow> Inl (KePython e) | Inr y \<Rightarrow> Inr y)"

definition from_context :: "context_error + 'a \<Rightarrow> kernel_error + 'a" where
  "from_context x = (case x of Inl e \<Rightarrow> Inl (KeContext e) | Inr y \<Rightarrow> Inr y)"

definition fire :: "hook_point \<Rightarrow> kernel \<Rightarrow> context_item list \<Rightarrow> kernel_error + context_item list" where
  "fire point kn items = emit point (kn_plugins kn) items"

definition context_budget :: "kernel_config \<Rightarrow> task_spec \<Rightarrow> int" where
  "context_budget kc t = (case hc_token_budget (tk_handoff t) of
     Some n \<Rightarrow> if n = 0 then kc_context_budget kc else n | None \<Rightarrow> kc_context_budget kc)"

definition task_log_event ::
  "workflow_plan \<Rightarrow> task_spec \<Rightarrow> string \<Rightarrow> string \<Rightarrow> string \<Rightarrow> json \<Rightarrow> fresh_event \<Rightarrow> domain_event" where
  "task_log_event p t kind actor key payload f =
     kernel_event (wp_session_id p) kind actor (plan_correlation p) (Some (tk_task_id t)) key payload f"

definition context_event :: "workflow_plan \<Rightarrow> task_spec \<Rightarrow> context_bundle \<Rightarrow> fresh_event \<Rightarrow> domain_event" where
  "context_event p t b f = task_log_event p t ''context.compiled'' system_actor
     (''context:'' @ tk_task_id t @ '':'' @ cb_digest b)
     (JObj [(''taskId'', JStr (tk_task_id t)), (''bundle'', context_bundle_to_dict b)]) f"

definition append_one ::
  "kernel_config \<Rightarrow> commit_env \<Rightarrow> domain_event \<Rightarrow> stored_event list \<Rightarrow> (kernel_error + unit) \<times> stored_event list" where
  "append_one kc env e rows = (let (out, rows') = commit_events kc env (ev_stream_id e) [e] rows in
     (map_sum id (\<lambda>_. ()) out, rows'))"

definition compile_context ::
  "kernel_config \<Rightarrow> commit_env \<Rightarrow> workflow_plan \<Rightarrow> task_spec \<Rightarrow> kernel \<Rightarrow> stored_event list
   \<Rightarrow> (kernel_error + context_bundle) \<times> stored_event list" where
  "compile_context kc env p t kn rows =
     (case bind_res (from_python (map_res check_context_item (task_items kc kn p t))) (\<lambda>items.
           bind_res (fire HP_CONTEXT_BUILD kn items) (\<lambda>items'.
             from_context (compile (kc_digest kc) items' (context_budget kc t)))) of
        Inl e \<Rightarrow> (Inl e, rows)
      | Inr bundle \<Rightarrow>
          (case append_one kc env (context_event p t bundle (ce_fresh env 0)) rows of
             (Inl e, rows') \<Rightarrow> (Inl e, rows')
           | (Inr _, rows') \<Rightarrow> (bind_res (fire HP_CONTEXT_COMPILED kn []) (\<lambda>_. Inr bundle), rows')))"

section \<open>One task\<close>

record agent_result =
  ag_narration :: string
  ag_artifacts :: "artifact_output list"
  ag_metadata :: "(string, json) dict"

text \<open>
  What the environment does while a task runs: \<open>te_commits\<close> for the commits of its dispatch, context,
  invocation, result and end, \<open>te_reply\<close> for the agent, \<open>te_text\<close> for the text of an exception.
\<close>

record task_env =
  te_commits :: "nat \<Rightarrow> commit_env"
  te_request :: "string \<times> string"
  te_message :: "string \<times> string"
  te_reply :: "task_spec \<Rightarrow> envelope \<Rightarrow> context_bundle \<Rightarrow> kernel_error + agent_result"
  te_worlds :: "nat \<Rightarrow> ledger_world"
  te_text :: "kernel_error \<Rightarrow> string"

definition get_agent :: "kernel \<Rightarrow> string \<Rightarrow> kernel_error + actor_ref" where
  "get_agent kn a = (case map_of (kn_agents kn) a of None \<Rightarrow> Inl (KeKey a) | Some r \<Rightarrow> Inr r)"

definition system_ref :: actor_ref where
  "system_ref = \<lparr>ar_actor_id = system_actor, ar_name = ''WanWork Orchestrator'', ar_kind = AK_SYSTEM, ar_role = JNull\<rparr>"

definition assign_envelope ::
  "workflow_plan \<Rightarrow> task_spec \<Rightarrow> actor_ref \<Rightarrow> string \<times> string \<Rightarrow> py_error + envelope" where
  "assign_envelope p t agent ids =
     create_envelope (fst ids) (snd ids) (wp_session_id p) (tk_task_id t) system_ref [agent] EK_TASK_ASSIGN
       [(''task'', task_spec_to_dict t), (''handoff'', handoff_to_dict (tk_handoff t))]
       (plan_correlation p) (JStr (tk_task_id t)) (Some (''invoke:'' @ tk_task_id t)) (Some (hc_authority (tk_handoff t)))"

definition started_event ::
  "workflow_plan \<Rightarrow> task_spec \<Rightarrow> envelope \<Rightarrow> context_bundle \<Rightarrow> fresh_event \<Rightarrow> domain_event" where
  "started_event p t en b f = task_log_event p t ''task.invocation.started'' system_actor
     (''invocation-started:'' @ tk_task_id t)
     (JObj [(''taskId'', JStr (tk_task_id t)), (''agentId'', JStr (tk_agent_id t)),
            (''envelope'', envelope_to_dict en), (''contextDigest'', JStr (cb_digest b))]) f"

text \<open>The \<open>try\<close> block of \<open>_run_task\<close>; the registry looks the agent up once more when it is invoked.\<close>

definition invoke_agent ::
  "kernel_config \<Rightarrow> task_env \<Rightarrow> workflow_plan \<Rightarrow> task_spec \<Rightarrow> kernel \<Rightarrow> stored_event list
   \<Rightarrow> (kernel_error + agent_result) \<times> stored_event list" where
  "invoke_agent kc te p t kn rows = (case compile_context kc (te_commits te 1) p t kn rows of
     (Inl e, rows1) \<Rightarrow> (Inl e, rows1)
   | (Inr bundle, rows1) \<Rightarrow>
       (case bind_res (get_agent kn (tk_agent_id t)) (\<lambda>agent.
             from_python (assign_envelope p t agent (te_message te))) of
          Inl e \<Rightarrow> (Inl e, rows1)
        | Inr en \<Rightarrow>
            (case append_one kc (te_commits te 2) (started_event p t en bundle (ce_fresh (te_commits te 2) 0)) rows1 of
               (Inl e, rows2) \<Rightarrow> (Inl e, rows2)
             | (Inr _, rows2) \<Rightarrow>
                 (bind_res (fire HP_BEFORE_AGENT kn []) (\<lambda>_.
                  bind_res (if kn_accepting kn then get_agent kn (tk_agent_id t) else Inl KeClosed) (\<lambda>_.
                    te_reply te t en bundle)), rows2))))"

text \<open>The outputs of the agent, recorded one by one; an error leaves those before it recorded.\<close>

fun record_outputs ::
  "kernel_config \<Rightarrow> (nat \<Rightarrow> ledger_world) \<Rightarrow> nat \<Rightarrow> workflow_plan \<Rightarrow> task_spec \<Rightarrow> artifact_output list
   \<Rightarrow> ledger \<Rightarrow> stored_event list \<Rightarrow> (kernel_error + artifact_ref list) \<times> ledger \<times> stored_event list" where
  "record_outputs kc w i p t [] lg rows = (Inr [], lg, rows)"
| "record_outputs kc w i p t (out # outs) lg rows =
     (case record_version (kc_events kc) (w i) (wp_session_id p) (tk_task_id t) (tk_agent_id t) out
         (plan_correlation p) (Some (tk_task_id t)) None lg rows of
        (Inl e, lg', rows') \<Rightarrow> (Inl (KeArtifact e), lg', rows')
      | (Inr v, lg', rows') \<Rightarrow>
          (let (rest, lg'', rows'') = record_outputs kc w (Suc i) p t outs lg' rows' in
           (map_sum id (\<lambda>refs. av_ref v # refs) rest, lg'', rows'')))"

definition result_event ::
  "workflow_plan \<Rightarrow> task_spec \<Rightarrow> agent_result \<Rightarrow> artifact_ref list \<Rightarrow> fresh_event \<Rightarrow> domain_event" where
  "result_event p t a refs f = task_log_event p t ''task.result.received'' (tk_agent_id t)
     (''task-result:'' @ tk_task_id t)
     (JObj [(''taskId'', JStr (tk_task_id t)), (''narration'', JStr (ag_narration a)),
            (''artifacts'', JArr (map artifact_ref_to_dict refs)), (''metadata'', JObj (ag_metadata a))]) f"

text \<open>The \<open>else\<close> block: every error escapes and leaves the task running.\<close>

definition publish_result ::
  "kernel_config \<Rightarrow> task_env \<Rightarrow> workflow_plan \<Rightarrow> task_spec \<Rightarrow> agent_result \<Rightarrow> kernel \<Rightarrow> stored_event list
   \<Rightarrow> (kernel_error + unit) \<times> kernel \<times> stored_event list" where
  "publish_result kc te p t a kn rows = (case fire HP_AFTER_AGENT kn [] of
     Inl e \<Rightarrow> (Inl e, kn, rows)
   | Inr _ \<Rightarrow>
       (case record_outputs kc (te_worlds te) 0 p t (ag_artifacts a) (kn_ledger kn) rows of
          (Inl e, lg, rows1) \<Rightarrow> (Inl e, kn\<lparr>kn_ledger := lg\<rparr>, rows1)
        | (Inr refs, lg, rows1) \<Rightarrow>
            (let kn1 = kn\<lparr>kn_ledger := lg\<rparr> in
             case append_one kc (te_commits te 3) (result_event p t a refs (ce_fresh (te_commits te 3) 0)) rows1 of
               (Inl e, rows2) \<Rightarrow> (Inl e, kn1, rows2)
             | (Inr _, rows2) \<Rightarrow>
                 settle_task kc (te_commits te 4) p (tk_task_id t) TS_COMPLETED None
                   (kn1\<lparr>kn_task_artifacts := dict_set (wp_session_id p, tk_task_id t) refs (kn_task_artifacts kn1)\<rparr>)
                   rows2)))"

definition run_task ::
  "kernel_config \<Rightarrow> task_env \<Rightarrow> workflow_plan \<Rightarrow> task_spec \<Rightarrow> kernel \<Rightarrow> stored_event list
   \<Rightarrow> (kernel_error + unit) \<times> kernel \<times> stored_event list" where
  "run_task kc te p t kn rows = (case fire HP_BEFORE_DISPATCH kn [] of
     Inl e \<Rightarrow> (Inl e, kn, rows)
   | Inr _ \<Rightarrow>
       (case dispatch_task kc (te_commits te 0) (te_request te) p t kn rows of
          (Inl e, kn1, rows1) \<Rightarrow> (Inl e, kn1, rows1)
        | (Inr False, kn1, rows1) \<Rightarrow> (Inr (), kn1, rows1)
        | (Inr True, kn1, rows1) \<Rightarrow>
            (let (out, kn2, rows2) = (case invoke_agent kc te p t kn1 rows1 of
                   (Inl e, rows') \<Rightarrow> settle_task kc (te_commits te 4) p (tk_task_id t) TS_FAILED (Some (te_text te e)) kn1 rows'
                 | (Inr a, rows') \<Rightarrow> publish_result kc te p t a kn1 rows') in
             case fire HP_AFTER_DISPATCH kn2 [] of
               Inl e \<Rightarrow> (Inl e, kn2, rows2)
             | Inr _ \<Rightarrow> (out, kn2, rows2))))"

section \<open>The rounds of a run\<close>

text \<open>All tasks of the batch run; the first error, in the order of the batch, is raised at the end.\<close>

fun run_batch ::
  "kernel_config \<Rightarrow> (task_spec \<Rightarrow> task_env) \<Rightarrow> workflow_plan \<Rightarrow> task_spec list \<Rightarrow> kernel \<Rightarrow> stored_event list
   \<Rightarrow> (kernel_error + unit) \<times> kernel \<times> stored_event list" where
  "run_batch kc te p [] kn rows = (Inr (), kn, rows)"
| "run_batch kc te p (t # ts) kn rows =
     (let (out, kn1, rows1) = run_task kc (te t) p t kn rows;
          (rest, kn2, rows2) = run_batch kc te p ts kn1 rows1 in
      (bind_res out (\<lambda>_. rest), kn2, rows2))"

record run_env =
  re_init :: commit_env
  re_refresh :: "nat \<Rightarrow> commit_env"
  re_task :: "nat \<Rightarrow> task_spec \<Rightarrow> task_env"

text \<open>The \<open>while True\<close> loop, by fuel: \<open>None\<close> is a loop that has not ended after \<open>n\<close> rounds.\<close>

fun run_rounds ::
  "nat \<Rightarrow> nat \<Rightarrow> kernel_config \<Rightarrow> run_env \<Rightarrow> workflow_plan \<Rightarrow> kernel \<Rightarrow> stored_event list
   \<Rightarrow> ((kernel_error + unit) \<times> kernel \<times> stored_event list) option" where
  "run_rounds 0 i kc re p kn rows = None"
| "run_rounds (Suc n) i kc re p kn rows =
     (case commit_refresh kc (re_refresh re i) p kn rows of
        (Inl e, kn1, rows1) \<Rightarrow> Some (Inl e, kn1, rows1)
      | (Inr _, kn1, rows1) \<Rightarrow>
          (case map_of (kn_graphs kn1) (wp_session_id p) of
             None \<Rightarrow> Some (Inl (KeKey ''session''), kn1, rows1)
           | Some g \<Rightarrow>
               (case ready g None of
                  Inl e \<Rightarrow> Some (Inl (KeGraph e), kn1, rows1)
                | Inr [] \<Rightarrow> Some (Inr (), kn1, rows1)
                | Inr ts \<Rightarrow>
                    (case run_batch kc (re_task re i) p ts kn1 rows1 of
                       (Inl e, kn2, rows2) \<Rightarrow> Some (Inl e, kn2, rows2)
                     | (Inr _, kn2, rows2) \<Rightarrow> run_rounds n (Suc i) kc re p kn2 rows2))))"

section \<open>Results\<close>

record session_result =
  rr_session_id :: string
  rr_plan_id :: string
  rr_statuses :: "(string, task_status) dict"
  rr_artifacts :: "artifact_ref list"
  rr_needs_you :: "approval_request list"
  rr_errors :: "(string, string) dict"

definition run_completed :: "session_result \<Rightarrow> bool" where
  "run_completed r = (\<forall>s \<in> set (dict_values (rr_statuses r)). s \<in> {TS_COMPLETED, TS_SUPERSEDED})"

definition run_result_to_dict :: "session_result \<Rightarrow> json" where
  "run_result_to_dict r = JObj
     [(''sessionId'', JStr (rr_session_id r)), (''planId'', JStr (rr_plan_id r)),
      (''statuses'', JObj (map (\<lambda>(k, s). (k, JStr (task_status_value s))) (rr_statuses r))),
      (''artifacts'', JArr (map artifact_ref_to_dict (rr_artifacts r))),
      (''needsYou'', JArr (map approval_to_dict (rr_needs_you r))),
      (''errors'', JObj (map (\<lambda>(k, m). (k, JStr m)) (rr_errors r))),
      (''completed'', JBool (run_completed r))]"

definition run_result_of :: "workflow_plan \<Rightarrow> task_graph \<Rightarrow> kernel \<Rightarrow> session_result" where
  "run_result_of p g kn =
     \<lparr>rr_session_id = wp_session_id p, rr_plan_id = wp_plan_id p, rr_statuses = tg_statuses g,
      rr_artifacts = map av_ref (current_all (kn_ledger kn) (wp_session_id p)),
      rr_needs_you = inbox_pending (kn_inbox kn) (Some (wp_session_id p)),
      rr_errors = filter (\<lambda>(t, m). \<exists>s \<in> set failed_statuses. map_of (tg_statuses g) t = Some s) (tg_reasons g)\<rparr>"

text \<open>The part of \<open>run\<close> before its loop: the session is recovered or started.\<close>

definition open_session ::
  "kernel_config \<Rightarrow> commit_env \<Rightarrow> workflow_plan \<Rightarrow> kernel \<Rightarrow> stored_event list
   \<Rightarrow> (kernel_error + workflow_plan) \<times> kernel \<times> stored_event list" where
  "open_session kc env p kn rows = (case recover_session kc p kn rows of
     Inl e \<Rightarrow> (Inl e, kn, rows)
   | Inr kn1 \<Rightarrow>
       if \<not> pred_option no_running (map_of (kn_graphs kn1) (wp_session_id p))
         then (Inl (KeRecovery ''session contains a durably RUNNING task''), kn1, rows)
       else (case initialize_plan kc env p kn1 rows of
         (Inl e, kn2, rows2) \<Rightarrow> (Inl e, kn2, rows2)
       | (Inr _, kn2, rows2) \<Rightarrow>
           (case map_of (kn_plans kn2) (wp_session_id p) of
              None \<Rightarrow> (Inl (KeKey ''session''), kn2, rows2)
            | Some active \<Rightarrow> (Inr active, kn2, rows2))))"

definition run_plan ::
  "nat \<Rightarrow> kernel_config \<Rightarrow> run_env \<Rightarrow> workflow_plan \<Rightarrow> kernel \<Rightarrow> stored_event list
   \<Rightarrow> ((kernel_error + session_result) \<times> kernel \<times> stored_event list) option" where
  "run_plan fuel kc re p kn rows =
     (if shut kn then Some (Inl KeClosed, kn, rows)
      else case open_session kc (re_init re) p kn rows of
        (Inl e, kn1, rows1) \<Rightarrow> Some (Inl e, kn1, rows1)
      | (Inr active, kn1, rows1) \<Rightarrow>
          map_option (\<lambda>(out, kn2, rows2).
            (bind_res out (\<lambda>_. case map_of (kn_graphs kn2) (wp_session_id active) of
               None \<Rightarrow> Inl (KeKey ''session'') | Some g \<Rightarrow> Inr (run_result_of active g kn2)), kn2, rows2))
            (run_rounds fuel 0 kc re active kn1 rows1))"

end
