(* ===== verification/Kernel_Commit.thy ===== *)
theory Kernel_Commit
  imports Kernel_Run Artifact_Coherence
begin

text \<open>
  What a commit of the kernel leaves in the log: all of its events, next to each other, or none,
  also when the append is not acknowledged. The reconciliation identifies an event by its canonical
  JSON, so the first section shows that this text determines the id of the event.
\<close>

section \<open>Canonical JSON determines the id\<close>

definition hex_value :: "char \<Rightarrow> nat" where
  "hex_value c = index_of c ''0123456789abcdef''"

text \<open>The first character of an encoded string, and the rest.\<close>

definition json_read :: "string \<Rightarrow> char \<times> string" where
  "json_read s = (let c = s ! 0; d = s ! 1; n = (of_char c :: nat) in
     if c = CHR 0x5C then
       (if d = CHR ''n'' then (char_of (10 :: nat), drop 2 s) else if d = CHR ''r'' then (char_of (13 :: nat), drop 2 s)
        else if d = CHR ''t'' then (char_of (9 :: nat), drop 2 s) else if d = CHR ''f'' then (char_of (12 :: nat), drop 2 s)
        else if d = CHR ''b'' then (char_of (8 :: nat), drop 2 s)
        else if d = CHR ''u'' then (char_of (hex_value (s ! 4) * 16 + hex_value (s ! 5)), drop 6 s)
        else (d, drop 2 s))
     else if n < 128 then (c, drop 1 s)
     else (char_of ((n - 192) * 64 + ((of_char d :: nat) - 128)), drop 2 s))"

lemma hex_value: "n < 16 \<Longrightarrow> hex_value (hex_digit n) = n"
  unfolding hex_value_def hex_digit_def by (intro index_of_nth) simp_all

lemma json_read_char: "json_read (json_char c @ x) = (c, x)"
proof -
  define n where "n = (of_char c :: nat)"
  have n: "n < 256" unfolding n_def by simp
  have cn: "char_of n = c" unfolding n_def by (rule char_of_char)
  have "n = of_char x \<longleftrightarrow> c = x" for x by (simp add: n_def)
  from this [of "CHR 0x22"] this [of "CHR 0x5C"] have sp: "n = 34 \<longleftrightarrow> c = CHR 0x22" "n = 92 \<longleftrightarrow> c = CHR 0x5C"
    by simp_all
  consider "c = CHR 0x22" | "c = CHR 0x5C" | "n \<in> {10, 13, 9, 12, 8}"
    | "n < 32" "n \<notin> {10, 13, 9, 12, 8}" | "32 \<le> n" "n < 128" "c \<noteq> CHR 0x22" "c \<noteq> CHR 0x5C" | "128 \<le> n" by fastforce
  then show ?thesis
  proof cases
    case 3
    have "c \<noteq> CHR 0x22" "c \<noteq> CHR 0x5C" using 3 sp by auto
    with 3 cn show ?thesis by (elim insertE) (simp_all add: json_char_def json_read_def Let_def flip: n_def)
  next
    case 4
    have c: "c \<noteq> CHR 0x22" "c \<noteq> CHR 0x5C" using 4(1) sp by auto
    have "char_of (n div 16 * 16 + n mod 16) = c" using cn by simp
    then show ?thesis using 4 c n
      by (simp add: json_char_def json_read_def Let_def hex_value nth_append flip: n_def)
  next
    case 5
    then show ?thesis by (simp add: json_char_def json_read_def utf8_char_def Let_def flip: n_def)
  next
    case 6
    have c: "c \<noteq> CHR 0x22" "c \<noteq> CHR 0x5C" using 6 sp by auto
    have small: "192 + n div 64 < 256" "128 + n mod 64 < 256" using n by simp_all
    have codes: "(of_char (char_of (192 + n div 64) :: char) :: nat) = 192 + n div 64"
      "(of_char (char_of (128 + n mod 64) :: char) :: nat) = 128 + n mod 64"
      using small by (simp_all only: of_char_of) simp_all
    have "char_of (192 + n div 64) \<noteq> CHR 0x5C"
    proof
      assume "(char_of (192 + n div 64) :: char) = CHR 0x5C"
      then have "(of_char (char_of (192 + n div 64) :: char) :: nat) = 92" by simp
      then show False using codes(1) by simp
    qed
    moreover have "char_of (n div 64 * 64 + n mod 64) = c" using cn by simp
    ultimately show ?thesis using 6 c codes
      by (simp add: json_char_def json_read_def utf8_char_def Let_def flip: n_def)
  qed (simp_all add: json_char_def json_read_def)
qed

lemma json_char_inj: "json_char c @ x = json_char d @ y \<longleftrightarrow> c = d \<and> x = y"
  by (metis json_read_char prod.inject)

lemma json_char_quote: "json_char c @ x \<noteq> CHR 0x22 # y"
proof
  assume "json_char c @ x = CHR 0x22 # y"
  then have "json_read (CHR 0x22 # y) = (c, x)" using json_read_char [of c x] by simp
  then have "c = CHR 0x22" by (simp add: json_read_def)
  with \<open>json_char c @ x = CHR 0x22 # y\<close> show False by (simp add: json_char_def)
qed

lemma json_chars_inj:
  "concat (map json_char s) @ CHR 0x22 # x = concat (map json_char t) @ CHR 0x22 # y \<longleftrightarrow> s = t \<and> x = y"
proof (induction s arbitrary: t)
  case Nil
  then show ?case using json_char_quote by (cases t) (auto dest: sym)
next
  case (Cons c s)
  then show ?case using json_char_quote by (cases t) (auto simp: json_char_inj)
qed

lemma json_string_inj: "json_string s @ x = json_string t @ y \<longleftrightarrow> s = t \<and> x = y"
  by (simp add: json_string_def json_chars_inj)

lemma opt_text_inj: "canonical_bytes pf (jopt JStr a) @ x = canonical_bytes pf (jopt JStr b) @ y \<Longrightarrow> x = y"
  by (cases a; cases b) (simp_all add: json_string_inj, simp_all add: json_string_def)

lemma event_fields_sorted:
  "sort_key fst (map (\<lambda>(k, v). (k, canonical_bytes pf v)) (event_to_dict e)) =
     [(''actorId'', json_string (ev_actor_id e)),
      (''causationId'', canonical_bytes pf (jopt JStr (ev_causation_id e))),
      (''correlationId'', canonical_bytes pf (jopt JStr (ev_correlation_id e))),
      (''eventId'', json_string (ev_event_id e)), (''eventType'', json_string (ev_event_type e)),
      (''idempotencyKey'', canonical_bytes pf (jopt JStr (ev_idempotency_key e))),
      (''payload'', canonical_bytes pf (ev_payload e)), (''streamId'', json_string (ev_stream_id e)),
      (''timestamp'', json_string (ev_timestamp e))]"
  by (simp add: event_to_dict_def)

lemma canonical_event_id:
  assumes "canonical_event cf a = canonical_event cf b"
  shows "ev_event_id a = ev_event_id b"
proof -
  let ?pf = "cf_platform cf"
  have "\<exists>r. canonical_event cf e = [CHR 0x7B] @ json_string ''actorId'' @ '':'' @ json_string (ev_actor_id e) @ '',''
      @ json_string ''causationId'' @ '':'' @ canonical_bytes ?pf (jopt JStr (ev_causation_id e)) @ '',''
      @ json_string ''correlationId'' @ '':'' @ canonical_bytes ?pf (jopt JStr (ev_correlation_id e)) @ '',''
      @ json_string ''eventId'' @ '':'' @ json_string (ev_event_id e) @ r" for e
    by (simp add: canonical_event_def event_fields_sorted)
  from this [of a] this [of b] assms show ?thesis
    by (auto simp: json_string_inj dest!: opt_text_inj)
qed

section \<open>Reconciliation\<close>

lemma sequence_nth:
  assumes "log_inv rows" "i < length (stream_of t rows)"
  shows "se_sequence (stream_of t rows ! i) = int i + 1"
proof -
  have "map se_sequence (stream_of t rows) = map int [1..<Suc (length (stream_of t rows))]"
    using assms(1) by (simp add: log_inv_def numbered_def)
  then have "map se_sequence (stream_of t rows) ! i = map int [1..<Suc (length (stream_of t rows))] ! i" by simp
  then show ?thesis using assms(2) by (simp del: upt_Suc)
qed

lemma stream_rows_after:
  assumes "log_inv rows"
  shows "stream_rows t (int n) rows = drop n (stream_of t rows)"
proof -
  let ?s = "stream_of t rows"
  have all: "se_sequence (?s ! i) = int i + 1" if "i < length ?s" for i using sequence_nth [OF assms that] .
  have "filter (\<lambda>r. in_stream t r \<and> int n < se_sequence r) rows = filter (\<lambda>r. int n < se_sequence r) ?s"
    by (auto simp: stream_of_def intro: filter_cong)
  also have "\<dots> = filter (\<lambda>r. int n < se_sequence r) (take n ?s) @ filter (\<lambda>r. int n < se_sequence r) (drop n ?s)"
    by (simp flip: filter_append)
  also have "filter (\<lambda>r. int n < se_sequence r) (take n ?s) = []"
    by (auto simp: filter_empty_conv in_set_conv_nth all)
  also have "filter (\<lambda>r. int n < se_sequence r) (drop n ?s) = drop n ?s"
    by (auto simp: filter_id_conv in_set_conv_nth all)
  finally have "filter (\<lambda>r. in_stream t r \<and> int n < se_sequence r) rows = drop n ?s" by simp
  moreover have "sorted (map se_sequence (drop n ?s))"
    using all by (auto simp: sorted_iff_nth_mono)
  ultimately show ?thesis by (simp add: stream_rows_def sort_key_id_if_sorted)
qed

lemma stream_page_Inr:
  assumes "read_stream_page cf t a n rows = Inr page"
  shows "page = take (nat n) (stream_rows t a rows)"
  using assms by (auto simp: read_stream_page_def check_cursor_def check_row_integer_def check_limit_def
      split: if_splits dest: map_res_row_id)

lemma reconcile_loop_sound:
  "reconcile_loop cf t a events rows = Some ss \<Longrightarrow>
     set ss \<subseteq> set rows \<and> map (\<lambda>s. canonical_event cf (se_event s)) ss = map (canonical_event cf) events"
proof (induction cf t a events rows arbitrary: ss rule: reconcile_loop.induct)
  case (1 cf t a events rows)
  show ?case
  proof (cases "events = []")
    case True
    then show ?thesis using "1.prems" by (simp add: reconcile_loop.simps)
  next
    case False
    define n where "n = min 1000 (length events)"
    obtain page after' rest where page: "read_stream_page cf t a (int n) rows = Inr page" "length page = n"
      "check_recovery_page t a n page = Inr after'"
      "map (\<lambda>s. canonical_event cf (se_event s)) page = map (canonical_event cf) (take n events)"
      "reconcile_loop cf t after' (drop n events) rows = Some rest" "ss = page @ rest"
      using "1.prems" False
      by (subst (asm) reconcile_loop.simps) (auto simp: Let_def split: sum.splits if_splits simp flip: n_def)
    have "set page \<subseteq> set rows"
      using stream_page_Inr [OF page(1)] set_take_subset by (fastforce simp: stream_rows_def)
    moreover have "set rest \<subseteq> set rows
        \<and> map (\<lambda>s. canonical_event cf (se_event s)) rest = map (canonical_event cf) (drop n events)"
      using "1.IH" [OF False n_def page(1)] page by simp
    ultimately show ?thesis
      using page(4,6) by simp (metis append_take_drop_id map_append)
  qed
qed

lemma check_sequence_block:
  assumes "log_inv rows" "n + length page \<le> length (stream_of t rows)"
    "page = take (length page) (drop n (stream_of t rows))"
  shows "check_sequence t (int n + 1) page = Inr (int (n + length page))"
  using assms(2,3)
proof (induction page arbitrary: n)
  case (Cons s page)
  then have n: "n < length (stream_of t rows)" by simp
  have "s # page = take (Suc (length page)) (drop n (stream_of t rows))" using Cons.prems(2) by simp
  also have "\<dots> = stream_of t rows ! n # take (length page) (drop (Suc n) (stream_of t rows))"
    using Cons_nth_drop_Suc [OF n, symmetric] by simp
  finally have s: "s = stream_of t rows ! n" "n < length (stream_of t rows)"
    "page = take (length page) (drop (Suc n) (stream_of t rows))"
    using n by simp_all
  have "s \<in> set (stream_of t rows)" using s by simp
  then have "ev_stream_id (se_event s) = t" by (simp add: stream_of_def in_stream_def)
  moreover have "se_sequence s = int n + 1" using sequence_nth [OF assms(1) s(2)] s(1) by simp
  moreover have "check_sequence t (int (Suc n) + 1) page = Inr (int (Suc n + length page))"
    using Cons.IH [of "Suc n"] Cons.prems s(3) by simp
  ultimately show ?case by (simp add: algebra_simps)
qed simp

lemma page_of_stream:
  assumes "log_inv rows" "\<not> blank t" "int n \<le> max_row_integer" "1 \<le> k" "k \<le> 1000"
    "\<forall>s \<in> set (take k (drop n (stream_of t rows))). row_to_event cf s = Inr s"
  shows "read_stream_page cf t (int n) (int k) rows = Inr (take k (drop n (stream_of t rows)))"
proof -
  have "map_res (row_to_event cf) (map id (take k (drop n (stream_of t rows)))) = Inr (take k (drop n (stream_of t rows)))"
    using assms(6) by (intro map_res_roundtrip) simp
  then show ?thesis using assms(2-5)
    by (simp add: read_stream_page_def check_cursor_def check_row_integer_def check_limit_def
        stream_rows_after [OF assms(1)] max_row_integer_def)
qed

lemma readable_sequence: "row_to_event cf s = Inr s \<Longrightarrow> se_sequence s \<le> max_row_integer"
  by (auto simp: row_to_event_def Let_def res_simps split: if_splits)

lemma reconcile_loop_exact:
  assumes "log_inv rows" "\<not> blank t" "n + length events \<le> length (stream_of t rows)"
    and "\<forall>s \<in> set (take (length events) (drop n (stream_of t rows))). row_to_event cf s = Inr s"
    and "map (\<lambda>s. canonical_event cf (se_event s)) (take (length events) (drop n (stream_of t rows)))
      = map (canonical_event cf) events"
  shows "reconcile_loop cf t (int n) events rows = Some (take (length events) (drop n (stream_of t rows)))"
  using assms(3-5)
proof (induction "length events" arbitrary: events n rule: less_induct)
  case less
  let ?s = "stream_of t rows"
  show ?case
  proof (cases "events = []")
    case True
    then show ?thesis by (simp add: reconcile_loop.simps)
  next
    case False
    define k where "k = min 1000 (length events)"
    have k: "1 \<le> k" "k \<le> 1000" "k \<le> length events" using False by (simp_all add: k_def Suc_le_eq)
    define page where "page = take k (drop n ?s)"
    have split: "take (length events) (drop n ?s) = page @ take (length events - k) (drop (n + k) ?s)"
      unfolding page_def using k(3) by (metis add.commute drop_drop le_add_diff_inverse take_add)
    have len: "length page = k" using less.prems(1) k(3) by (simp add: page_def)
    have n: "n < length ?s" using less.prems(1) False by (cases events) simp_all
    have "?s ! n \<in> set (take (length events) (drop n ?s))"
      using Cons_nth_drop_Suc [OF n, symmetric] False by (cases events) simp_all
    then have "row_to_event cf (?s ! n) = Inr (?s ! n)" using less.prems(2) by blast
    then have small: "int n \<le> max_row_integer"
      using readable_sequence sequence_nth [OF assms(1) n] by fastforce
    have read: "read_stream_page cf t (int n) (int k) rows = Inr page"
      unfolding page_def using less.prems(2) split page_def
      by (intro page_of_stream [OF assms(1,2) small k(1,2)]) simp
    have check: "check_recovery_page t (int n) k page = Inr (int (n + k))"
      using check_sequence_block [OF assms(1), of n page t] less.prems(1) k(3) len
      by (simp add: check_recovery_page_def page_def)
    have same: "map (\<lambda>s. canonical_event cf (se_event s)) page = map (canonical_event cf) (take k events)"
    proof -
      have "take k (map (\<lambda>s. canonical_event cf (se_event s)) (take (length events) (drop n ?s)))
          = take k (map (canonical_event cf) events)" by (simp only: less.prems(3))
      then show ?thesis by (simp add: split take_map len)
    qed
    have rest: "map (\<lambda>s. canonical_event cf (se_event s)) (take (length events - k) (drop (n + k) ?s))
        = map (canonical_event cf) (drop k events)"
    proof -
      have "drop k (map (\<lambda>s. canonical_event cf (se_event s)) (take (length events) (drop n ?s)))
          = drop k (map (canonical_event cf) events)" by (simp only: less.prems(3))
      then show ?thesis by (simp add: split drop_map len)
    qed
    have "length (drop k events) < length events" using k(1) False by simp
    then have "reconcile_loop cf t (int (n + k)) (drop k events) rows
        = Some (take (length (drop k events)) (drop (n + k) ?s))"
      using less.prems(1,2) k(3) rest by (intro less.hyps) (auto simp: split)
    then show ?thesis
      using False read check same len split
      by (subst reconcile_loop.simps) (simp add: Let_def flip: k_def)
  qed
qed

section \<open>Commits among other connections\<close>

definition state_kinds :: "string list" where
  "state_kinds = [''workflow.plan.created'', ''task.created'', ''task.status.changed'',
     ''approval.requested'', ''approval.decided'']"

text \<open>
  Between two looks at the log it has only grown, and what was added to the stream of the session
  can be read and is no event of its state: those are written by the kernel that runs the session.
\<close>

definition quiet_row :: "event_config \<Rightarrow> string \<Rightarrow> stored_event \<Rightarrow> bool" where
  "quiet_row cf t r = (in_stream t r \<longrightarrow> ev_event_type (se_event r) \<notin> set state_kinds \<and> row_to_event cf r = Inr r)"

definition calm :: "event_config \<Rightarrow> string \<Rightarrow> stored_event list \<Rightarrow> stored_event list \<Rightarrow> bool" where
  "calm cf t rows rows' = ((log_step cf)\<^sup>*\<^sup>* rows rows'
     \<and> (\<forall>r \<in> set (drop (length rows) rows'). quiet_row cf t r))"

lemma calm_refl [simp]: "calm cf t rows rows"
  by (simp add: calm_def)

lemma calm_inv: "calm cf t rows rows' \<Longrightarrow> log_inv rows \<Longrightarrow> log_inv rows'"
  by (auto simp: calm_def intro: event_log.steps_inv)

lemma calm_more:
  assumes "calm cf t rows rows'" "log_inv rows"
  obtains more where "rows' = rows @ more" "\<forall>r \<in> set more. quiet_row cf t r"
  using assms log_steps_prefix [of cf rows rows'] by (auto simp: calm_def prefix_def)

lemma calm_trans:
  assumes "calm cf t a b" "calm cf t b c" "log_inv a"
  shows "calm cf t a c"
proof -
  obtain m where m: "b = a @ m" "\<forall>r \<in> set m. quiet_row cf t r" using assms(1,3) by (rule calm_more)
  obtain n where n: "c = b @ n" "\<forall>r \<in> set n. quiet_row cf t r"
    using assms(2) calm_inv [OF assms(1,3)] by (rule calm_more)
  from assms(1,2) have "(log_step cf)\<^sup>*\<^sup>* a c" unfolding calm_def by (meson rtranclp_trans)
  then show ?thesis using m n by (auto simp: calm_def)
qed

definition event_ids :: "stored_event list \<Rightarrow> string set" where
  "event_ids rows = (\<lambda>r. ev_event_id (se_event r)) ` set rows"

text \<open>
  Other connections only append, and never an event with an id that this commit draws; a polite
  environment moreover leaves the state of the session to its kernel.
\<close>

definition others_append :: "event_config \<Rightarrow> commit_env \<Rightarrow> bool" where
  "others_append cf env = (\<forall>f \<in> {ce_before env, ce_after env}. \<forall>rows. (log_step cf)\<^sup>*\<^sup>* rows (f rows)
     \<and> (\<forall>i. fe_id (ce_fresh env i) \<in> event_ids (f rows) \<longrightarrow> fe_id (ce_fresh env i) \<in> event_ids rows))"

definition polite :: "event_config \<Rightarrow> string \<Rightarrow> commit_env \<Rightarrow> bool" where
  "polite cf t env = (\<forall>f \<in> {ce_before env, ce_after env}. \<forall>rows. calm cf t rows (f rows)
     \<and> (\<forall>i. fe_id (ce_fresh env i) \<in> event_ids (f rows) \<longrightarrow> fe_id (ce_fresh env i) \<in> event_ids rows))"

lemma polite_others: "polite cf t env \<Longrightarrow> others_append cf env"
  unfolding polite_def others_append_def calm_def by blast

lemma others_append_event:
  assumes "others_append cf env"
  shows "(log_step cf)\<^sup>*\<^sup>* rows (ce_before env rows)" "(log_step cf)\<^sup>*\<^sup>* rows (ce_after env rows)"
    "fe_id (ce_fresh env i) \<in> event_ids (ce_before env rows) \<Longrightarrow> fe_id (ce_fresh env i) \<in> event_ids rows"
    "fe_id (ce_fresh env i) \<in> event_ids (ce_after env rows) \<Longrightarrow> fe_id (ce_fresh env i) \<in> event_ids rows"
  using assms unfolding others_append_def by blast+

lemma log_steps_more:
  assumes "(log_step cf)\<^sup>*\<^sup>* rows rows'" "log_inv rows"
  obtains more where "rows' = rows @ more" "log_inv rows'"
  using assms log_steps_prefix [of cf rows rows'] event_log.steps_inv by (auto simp: prefix_def)

definition drawn :: "event_config \<Rightarrow> string \<Rightarrow> commit_env \<Rightarrow> stored_event list \<Rightarrow> domain_event \<Rightarrow> bool" where
  "drawn cf t env rows e = (ev_stream_id e = t \<and> readable cf e \<and> ev_event_id e \<notin> event_ids rows
     \<and> (\<exists>i. ev_event_id e = fe_id (ce_fresh env i)))"

definition stored_form :: "domain_event \<Rightarrow> domain_event" where
  "stored_form e = e\<lparr>ev_payload := sort_json (ev_payload e)\<rparr>"

lemma insert_batch_rows:
  assumes "log_inv rows" "map_res (snapshot_event cf) es0 = Inr es" "\<forall>e \<in> set es0. ev_stream_id e = t \<and> readable cf e"
    "insert_batch es (version_of t rows) rows = Inr (ss, rows')"
  shows "map se_event ss = es \<and> (\<forall>s \<in> set ss. row_to_event cf s = Inr s)"
  using assms
proof (induction es arbitrary: es0 rows ss)
  case Nil
  then show ?case by simp
next
  case (Cons e es)
  obtain e0 es0' where e0: "es0 = e0 # es0'" "snapshot_event cf e0 = Inr e" "map_res (snapshot_event cf) es0' = Inr es"
    using Cons.prems(2) by (cases es0) (auto simp: res_simps)
  have t: "ev_stream_id e = t" using snapshot_event_Inr(1) [OF e0(2)] Cons.prems(3) e0(1) by simp
  obtain s ss' where s: "insert_event e (version_of t rows + 1) rows = Inr s"
    "insert_batch es (version_of t rows + 1) (rows @ [s]) = Inr (ss', rows')" "ss = s # ss'"
    using Cons.prems(4) by (auto simp: res_simps)
  have inv: "log_inv (rows @ [s])" using insert_event_inv [OF Cons.prems(1), of e s] s(1) t by simp
  have "se_event s = e" using insert_event_Inr(1) [OF s(1)] by simp
  moreover have "row_to_event cf s = Inr s"
    using written_row [OF Cons.prems(1) e0(2)] Cons.prems(3) e0(1) s(1) t by simp
  moreover have "map se_event ss' = es \<and> (\<forall>s \<in> set ss'. row_to_event cf s = Inr s)"
    using Cons.IH [OF inv e0(3)] Cons.prems(3) e0(1) s(2) version_snoc [OF Cons.prems(1) inv, of t] t
      \<open>se_event s = e\<close> by simp
  ultimately show ?case using s(3) by simp
qed

lemma map_res_stored:
  assumes "map_res (snapshot_event cf) es0 = Inr es"
  shows "es = map stored_form es0"
  using assms by (induction es0 arbitrary: es) (auto simp: res_simps stored_form_def dest: snapshot_event_eq)

lemma append_many_rows:
  assumes "log_inv rows" "\<forall>e \<in> set es. ev_stream_id e = t \<and> readable cf e" "es \<noteq> []"
    "append_many cf t es (Some v) rows = Inr (ss, rows')"
  shows "rows' = rows @ ss" "log_inv rows'" "map se_event ss = map stored_form es"
    "\<forall>s \<in> set ss. row_to_event cf s = Inr s" "v = version_of t rows"
    "map_res (snapshot_event cf) es = Inr (map stored_form es)"
proof -
  show "rows' = rows @ ss" "log_inv rows'" using append_many_Inr [OF assms(1,4)] by simp_all
  obtain batch where b: "map_res (snapshot_event cf) es = Inr batch" using assms(4) by (auto simp: append_many_def res_simps)
  note stored = map_res_stored [OF b]
  have "insert_batch batch (version_of t rows) rows = Inr (ss, rows') \<and> v = version_of t rows"
    using assms(3,4) stored
    by (auto simp: append_many_def b check_option_def check_row_integer_def split: if_splits)
  with insert_batch_rows [OF assms(1) b assms(2)] stored b
  show "map se_event ss = map stored_form es" "\<forall>s \<in> set ss. row_to_event cf s = Inr s" "v = version_of t rows"
    "map_res (snapshot_event cf) es = Inr (map stored_form es)" by simp_all
qed

lemma canonical_stored [simp]: "canonical_event cf (stored_form e) = canonical_event cf e"
  by (simp add: canonical_event_def event_fields_sorted stored_form_def canonical_sorted)

text \<open>A batch that was committed: between the old rows and it, and after it, others have added quiet rows.\<close>

definition committed ::
  "event_config \<Rightarrow> string \<Rightarrow> domain_event list \<Rightarrow> stored_event list \<Rightarrow> stored_event list \<Rightarrow> stored_event list \<Rightarrow> bool" where
  "committed cf t es rows ss rows' = (\<exists>mid. calm cf t rows mid \<and> log_inv (mid @ ss) \<and> calm cf t (mid @ ss) rows'
     \<and> map se_event ss = map stored_form es \<and> (\<forall>s \<in> set ss. row_to_event cf s = Inr s)
     \<and> map_res (snapshot_event cf) es = Inr (map stored_form es))"

lemma committed_inv: "committed cf t es rows ss rows' \<Longrightarrow> log_inv rows'"
  by (auto simp: committed_def intro: calm_inv)

lemma committed_events: "committed cf t es rows ss rows' \<Longrightarrow> map se_event ss = map stored_form es"
  by (auto simp: committed_def)

lemma committed_steps:
  assumes "committed cf t es rows ss rows'" "log_inv rows"
  obtains mid more where "rows' = mid @ ss @ more" "calm cf t rows mid" "log_inv (mid @ ss)"
    "\<forall>r \<in> set more. quiet_row cf t r" "map se_event ss = map stored_form es"
    "\<forall>s \<in> set ss. row_to_event cf s = Inr s"
proof -
  obtain mid where mid: "calm cf t rows mid" "log_inv (mid @ ss)" "calm cf t (mid @ ss) rows'"
    "map se_event ss = map stored_form es" "\<forall>s \<in> set ss. row_to_event cf s = Inr s"
    using assms(1) by (auto simp: committed_def)
  show ?thesis by (rule calm_more [OF mid(3,2)]) (rule that, use mid in auto)
qed

text \<open>The events of a batch in the stream, and their sequence numbers.\<close>

lemma batch_in_stream:
  assumes "map se_event ss = map stored_form es" "\<forall>e \<in> set es. ev_stream_id e = t"
  shows "stream_of t ss = ss"
proof -
  have "\<forall>x \<in> set (map se_event ss). ev_stream_id x = t" unfolding assms(1) using assms(2) by (auto simp: stored_form_def)
  then show ?thesis by (auto simp: stream_of_def in_stream_def filter_id_conv)
qed

text \<open>
  What a reconciled append does, exactly: on an error the log is what the others made of it and holds
  none of the events; otherwise it holds them as one block after what the others had added before,
  also when the acknowledgement was lost.
\<close>

lemma append_reconciled_exact:
  assumes inv: "log_inv rows" and others: "others_append cf env" and t: "\<not> blank t" and es: "es \<noteq> []"
    and new: "\<forall>e \<in> set es. drawn cf t env rows e"
    and run: "append_reconciled cf env t es (version_of t rows) rows = (out, rows')"
  shows "case out of
      Inl x \<Rightarrow> rows' = ce_after env (ce_before env rows) \<and> (\<forall>e \<in> set es. ev_event_id e \<notin> event_ids rows')
    | Inr ss \<Rightarrow> map se_event ss = map stored_form es \<and> (\<forall>s \<in> set ss. row_to_event cf s = Inr s)
        \<and> map_res (snapshot_event cf) es = Inr (map stored_form es) \<and> log_inv (ce_before env rows @ ss)
        \<and> rows' = (if ce_ack env then ce_before env rows @ ss else ce_after env (ce_before env rows @ ss))"
proof -
  define rows1 where "rows1 = ce_before env rows"
  note step = others_append_event [OF others]
  have inv1: "log_inv rows1" unfolding rows1_def using step(1) inv by (rule log_steps_more)
  have ids: "ev_event_id e \<notin> event_ids (ce_after env rows1)" if "e \<in> set es" for e
  proof -
    obtain i where i: "ev_event_id e = fe_id (ce_fresh env i)" "ev_event_id e \<notin> event_ids rows"
      using new \<open>e \<in> set es\<close> by (auto simp: drawn_def)
    then show ?thesis using step(3) [of i rows] step(4) [of i rows1] by (auto simp: rows1_def)
  qed
  have good: "\<forall>e \<in> set es. ev_stream_id e = t \<and> readable cf e" using new by (simp add: drawn_def)
  show ?thesis
  proof (cases "append_many cf t es (Some (version_of t rows)) rows1")
    case (Inl x)
    define rows3 where "rows3 = ce_after env rows1"
    have "reconcile_batch cf t es (version_of t rows) rows3 = None"
    proof (rule ccontr)
      assume "\<not> ?thesis"
      then obtain ss where ss: "reconcile_loop cf t (version_of t rows) es rows3 = Some ss"
        using es by (auto simp: reconcile_batch_def)
      note sound = reconcile_loop_sound [OF ss]
      obtain e es' where e: "es = e # es'" using es by (cases es) auto
      obtain s ss' where s: "ss = s # ss'" using sound e by (cases ss) auto
      have "ev_event_id (se_event s) = ev_event_id e" using sound e s by (auto dest: canonical_event_id)
      moreover have "s \<in> set rows3" using sound s by simp
      ultimately have "ev_event_id e \<in> event_ids rows3" by (force simp: event_ids_def)
      then show False using ids [of e] e by (simp add: rows3_def)
    qed
    then have "out = Inl (KeStore x) \<and> rows' = rows3"
      using run Inl by (simp add: append_reconciled_def rows3_def flip: rows1_def)
    then show ?thesis using ids by (simp add: rows3_def flip: rows1_def)
  next
    case (Inr r)
    obtain ss rows2 where r: "r = (ss, rows2)" by (cases r)
    note ap = append_many_rows [OF inv1 good es Inr [unfolded r]]
    have batch: "stream_of t ss = ss" using batch_in_stream [OF ap(3)] good by blast
    have len: "length ss = length es" using ap(3) by (metis length_map)
    show ?thesis
    proof (cases "ce_ack env")
      case True
      then have "out = Inr ss \<and> rows' = rows1 @ ss"
        using run Inr r ap(1) by (simp add: append_reconciled_def flip: rows1_def)
      then show ?thesis using True ap by (simp flip: rows1_def)
    next
      case False
      define rows3 where "rows3 = ce_after env rows2"
      obtain more where more: "rows3 = (rows1 @ ss) @ more" and inv3: "log_inv rows3"
        unfolding rows3_def using step(2) [of rows2] ap(1,2) by (auto elim: log_steps_more)
      define n where "n = length (stream_of t rows1)"
      have version: "version_of t rows = int n"
        using ap(5) version_numbered [of t rows1] inv1 by (simp add: n_def log_inv_def)
      have stream: "stream_of t rows3 = stream_of t rows1 @ ss @ stream_of t more"
        using batch by (simp add: more stream_of_def)
      then have mine: "take (length es) (drop n (stream_of t rows3)) = ss" using len by (simp add: n_def)
      have "map (canonical_event cf) (map se_event ss) = map (canonical_event cf) es"
        unfolding ap(3) by simp
      then have "reconcile_loop cf t (int n) es rows3 = Some ss"
        using reconcile_loop_exact [OF inv3 t, of n es cf] ap(4) stream len
        by (simp add: mine n_def comp_def)
      then have "out = Inr ss \<and> rows' = rows3"
        using run Inr r False es version
        by (simp add: append_reconciled_def reconcile_batch_def rows3_def flip: rows1_def)
      then show ?thesis using False ap by (simp add: rows3_def flip: rows1_def)
    qed
  qed
qed

lemma append_reconciled_cases:
  assumes inv: "log_inv rows" and pol: "polite cf t env" and t: "\<not> blank t" and es: "es \<noteq> []"
    and new: "\<forall>e \<in> set es. drawn cf t env rows e"
    and run: "append_reconciled cf env t es (version_of t rows) rows = (out, rows')"
  shows "(\<exists>e. out = Inl e) \<and> calm cf t rows rows' \<or> (\<exists>ss. out = Inr ss \<and> committed cf t es rows ss rows')"
proof -
  note exact = append_reconciled_exact [OF inv polite_others [OF pol] t es new run]
  have before: "calm cf t rows (ce_before env rows)" and after: "calm cf t r (ce_after env r)" for r
    using pol by (simp_all add: polite_def)
  show ?thesis
  proof (cases out)
    case (Inl x)
    then show ?thesis using exact calm_trans [OF before after inv] by simp
  next
    case (Inr ss)
    then have "calm cf t (ce_before env rows @ ss) rows'" using exact after by simp
    then show ?thesis using Inr exact before by (auto simp: committed_def)
  qed
qed

lemma check_events_id: "map_res check_event es = Inr es' \<Longrightarrow> es' = es"
proof (induction es arbitrary: es')
  case (Cons e es)
  then show ?case by (auto simp: res_simps check_event_def split: if_splits)
qed simp

text \<open>A commit puts all of its events into the stream, or none, and says which.\<close>

lemma commit_events_cases:
  assumes inv: "log_inv rows" and pol: "polite (kc_events kc) t env" and t: "\<not> blank t" and es: "es \<noteq> []"
    and new: "\<forall>e \<in> set es. drawn (kc_events kc) t env rows e"
    and run: "commit_events kc env t es rows = (out, rows')"
  shows "(\<exists>e. out = Inl e) \<and> calm (kc_events kc) t rows rows'
    \<or> (\<exists>ss. out = Inr ss \<and> committed (kc_events kc) t es rows ss rows')"
proof (cases "map_res check_event es")
  case (Inl e)
  then show ?thesis using run by (auto simp: commit_events_def)
next
  case (Inr es')
  then have "es' = es" by (rule check_events_id)
  then show ?thesis using append_reconciled_cases [OF inv pol t es new] run Inr by (simp add: commit_events_def)
qed

end
