(* ===== verification/Kernel_Replay.thy ===== *)
theory Kernel_Replay
  imports Kernel_Commit Scheduler_Run
begin

text \<open>
  Replaying what the kernel writes: each kind of commit, as the log stores it, is accepted by
  \<open>_recover_session\<close> and changes the state of the recovery the way the commit changed the memory.
\<close>

section \<open>The replay as one pass\<close>

fun replay_session ::
  "kernel_config \<Rightarrow> workflow_plan \<Rightarrow> stored_event list \<Rightarrow> recovery \<Rightarrow> kernel_error + recovery" where
  "replay_session kc p [] rc = Inr rc"
| "replay_session kc p (s # ss) rc = bind_res (recover_event kc p s rc) (replay_session kc p ss)"

lemma replay_session_append:
  "replay_session kc p (xs @ ys) rc = bind_res (replay_session kc p xs rc) (replay_session kc p ys)"
proof (induction xs arbitrary: rc)
  case (Cons x xs)
  then show ?case by (cases "recover_event kc p x rc") simp_all
qed simp

lemma replay_quiet:
  "\<forall>r \<in> set xs. ev_event_type (se_event r) \<notin> set state_kinds \<Longrightarrow> replay_session kc p xs rc = Inr rc"
  by (induction xs) (auto simp: recover_event_def Let_def state_kinds_def)

section \<open>Stored fields\<close>

lemma field_stored: "field (sorted_fields d) k = (case map_of d k of None \<Rightarrow> JNull | Some v \<Rightarrow> sort_json v)"
  by (simp add: field_def sorted_fields_def map_of_sorted split: option.splits)

lemma stored_object: "sort_json (JObj d) = JObj (sorted_fields d)"
  by (simp add: sorted_fields_def)

lemma stored_keys [simp]: "fst ` set (sorted_fields d) = fst ` set d"
  by (simp add: sorted_fields_def image_image case_prod_unfold)

lemma canonical_stored_object: "canonical_json kc (JObj (sorted_fields d)) = canonical_json kc (JObj d)"
  by (simp add: canonical_json_def canonical_sorted flip: stored_object del: sort_json.simps)

lemma stored_text [simp]: "sort_json (jopt JStr x) = jopt JStr x"
  by (cases x) simp_all

lemma option_text [simp]: "option_of (jopt JStr x) = x"
  by (cases x) (simp_all add: option_of_def)

lemma optional_text_iff [simp]:
  "optional_recovery_text (jopt JStr x) \<longleftrightarrow> pred_option (\<lambda>s. length s \<le> 65536) x"
  by (cases x) (simp_all add: optional_recovery_text_def)

lemma status_text [simp]: "task_status_of (task_status_value s) = Some s"
  by (simp add: task_status_of_def)

text \<open>What the store accepted has texts within its limit.\<close>

definition payload_fits :: "domain_event \<Rightarrow> bool" where
  "payload_fits e = json_fits 0 (ev_payload e)"

lemma snapshot_fits:
  assumes "map_res (snapshot_event cf) es = Inr es'" "e \<in> set es"
  shows "payload_fits e"
  using assms
proof (induction es arbitrary: es')
  case (Cons x es)
  then show ?case
    by (auto simp: res_simps snapshot_event_def snapshot_json_def payload_fits_def copy_json_iff split: if_splits)
qed simp

lemma fits_field:
  "json_fits n (JObj d) \<Longrightarrow> map_of d k = Some v \<Longrightarrow> json_fits (n + 1) v"
  by (auto simp: list_all_iff dest!: map_of_SomeD)

lemma fits_text: "json_fits n (JStr s) \<Longrightarrow> length s \<le> 65536" "json_fits n (jopt JStr x) \<Longrightarrow> pred_option (\<lambda>s. length s \<le> 65536) x"
  by (simp, cases x) simp_all

section \<open>A recovered session\<close>

definition inbox_of :: "approval_request list \<Rightarrow> inbox" where
  "inbox_of rs = map (\<lambda>r. (rq_request_id r, r)) rs"

lemma inbox_of_simps [simp]:
  "dict_keys (inbox_of rs) = map rq_request_id rs" "dict_values (inbox_of rs) = rs"
  by (simp_all add: inbox_of_def comp_def)

text \<open>
  The state of a recovery between two commits: the plan, the graph and the requests, and no open
  obligation.
\<close>

definition rebuilt :: "workflow_plan \<Rightarrow> task_graph \<Rightarrow> approval_request list \<Rightarrow> recovery \<Rightarrow> bool" where
  "rebuilt p g rs rc = (rc_created rc \<and> rc_plan rc = Some p \<and> rc_graph rc = Some g
     \<and> rc_task_ids rc = plan_task_ids p \<and> rc_waiting rc = [] \<and> rc_decided rc = []
     \<and> rc_requests rc = inbox_of rs \<and> set (dict_keys (rc_by_task rc)) = rq_task_id ` set rs)"

section \<open>Transitions\<close>

definition sound_transition :: "task_transition \<Rightarrow> bool" where
  "sound_transition tr = (tt_task_id tr \<noteq> [] \<and> length (tt_task_id tr) \<le> 65536
     \<and> pred_option (\<lambda>s. length s \<le> 65536) (tt_reason tr) \<and> 0 \<le> tt_revision tr)"

lemma transition_fits: "payload_fits (transition_event t tr c u f) \<Longrightarrow> tt_task_id tr \<noteq> [] \<Longrightarrow> 0 \<le> tt_revision tr \<Longrightarrow> sound_transition tr"
  by (auto simp: payload_fits_def transition_event_def kernel_event_def transition_payload_def sound_transition_def
      dest: fits_text(2))

definition transition_dict :: "task_transition \<Rightarrow> (string, json) dict" where
  "transition_dict tr = [(''taskId'', JStr (tt_task_id tr)), (''previous'', JStr (task_status_value (tt_previous tr))),
      (''current'', JStr (task_status_value (tt_current tr))), (''reason'', jopt JStr (tt_reason tr)),
      (''revision'', JInt (tt_revision tr))]"

lemma transition_payload_dict: "transition_payload tr = JObj (transition_dict tr)"
  by (simp add: transition_payload_def transition_dict_def)

lemma transition_field [simp]:
  "field (sorted_fields (transition_dict tr)) ''taskId'' = JStr (tt_task_id tr)"
  "field (sorted_fields (transition_dict tr)) ''previous'' = JStr (task_status_value (tt_previous tr))"
  "field (sorted_fields (transition_dict tr)) ''current'' = JStr (task_status_value (tt_current tr))"
  "field (sorted_fields (transition_dict tr)) ''reason'' = jopt JStr (tt_reason tr)"
  "field (sorted_fields (transition_dict tr)) ''revision'' = JInt (tt_revision tr)"
  by (simp_all add: field_stored transition_dict_def)

lemma transition_keys [simp]: "fst ` set (transition_dict tr) = set transition_fields"
  by (simp add: transition_dict_def transition_fields_def)

lemma text_JStr [simp]: "text_of (JStr s) = s" "recovery_text (JStr s) \<longleftrightarrow> s \<noteq> [] \<and> length s \<le> 65536"
  by (simp_all add: text_of_def recovery_text_def)

lemma transition_start:
  assumes "transition g (tt_task_id tr) (tt_current tr) (tt_reason tr) = Inr (tr, g')"
  shows "map_of (tg_statuses g) (tt_task_id tr) = Some (tt_previous tr)"
    "\<exists>n. map_of (tg_revisions g) (tt_task_id tr) = Some n
      \<and> tt_revision tr = (if tt_current tr = tt_previous tr then n else n + 1)"
  using assms by (auto simp: transition_Inr preview_transition_Inr) (metis task_transition.select_convs)+

lemma apply_recovered_exact:
  assumes step: "transition g (tt_task_id tr) (tt_current tr) (tt_reason tr) = Inr (tr, g')"
    and ev: "se_event s = stored_form (transition_event session tr c u f)"
    and ok: "sound_transition tr" and env: "(c, u) \<in> allowed_envelopes p (tt_previous tr) request"
  shows "apply_recovered_transition g s p request = Inr (tr, g')"
proof -
  obtain n where at: "map_of (tg_statuses g) (tt_task_id tr) = Some (tt_previous tr)"
    "map_of (tg_revisions g) (tt_task_id tr) = Some n"
    "tt_revision tr = (if tt_current tr = tt_previous tr then n else n + 1)"
    using transition_start [OF step] by blast
  have e: "ev_payload (se_event s) = JObj (sorted_fields (transition_dict tr))"
    "ev_actor_id (se_event s) = system_actor" "ev_correlation_id (se_event s) = c" "ev_causation_id (se_event s) = u"
    "ev_idempotency_key (se_event s) = Some (status_key (tt_task_id tr) (tt_revision tr))"
    by (simp_all only: ev stored_form_def transition_event_def kernel_event_def transition_payload_dict stored_object
        domain_event.simps)
  show ?thesis
    using ok env step at
    by (simp add: apply_recovered_transition_def e sound_transition_def Let_def)
qed

lemma transition_event_kind: "se_event s = stored_form (transition_event session tr c u f)
    \<Longrightarrow> ev_event_type (se_event s) = ''task.status.changed'' \<and> ev_payload (se_event s) = JObj (sorted_fields (transition_dict tr))"
  by (simp add: stored_form_def transition_event_def kernel_event_def transition_payload_dict sorted_fields_def)

lemma recover_event_transition:
  assumes "rebuilt p g rs rc" "se_event s = stored_form (transition_event session tr c u f)"
  shows "recover_event kc p s rc = recover_transition s p g rc"
  using assms transition_event_kind [OF assms(2)] by (simp add: recover_event_def rebuilt_def Let_def)

text \<open>A plan may hold a task without a name; recovery refuses every transition of it.\<close>

lemma empty_task_id_refused:
  assumes "rebuilt p g rs rc" and ev: "se_event s = stored_form (transition_event session tr c u f)"
    and "tt_task_id tr = []"
  shows "\<exists>e. recover_event kc p s rc = Inl e"
  unfolding recover_event_transition [OF assms(1) ev] using transition_event_kind [OF ev] assms(3)
  by (simp add: recover_transition_def apply_recovered_transition_def bad_def Let_def)

lemma pending_decision_transition:
  assumes "se_event s = stored_form (transition_event session tr c u f)"
  shows "pending_decision s rc = (if tt_previous tr = TS_WAITING_APPROVAL
    then map_option fst (map_of (rc_decided rc) (tt_task_id tr)) else None)"
proof -
  have "task_status_value a = task_status_value b \<longleftrightarrow> a = b" for a b
    using task_status_enum.val_inj by blast
  then show ?thesis using transition_event_kind [OF assms]
    by (simp add: pending_decision_def del: task_status_value.simps)
qed

text \<open>A transition that neither starts nor ends the wait for an approval.\<close>

lemma recover_plain:
  assumes rc: "rebuilt p g rs rc"
    and step: "transition g (tt_task_id tr) (tt_current tr) (tt_reason tr) = Inr (tr, g')"
    and ev: "se_event s = stored_form (transition_event session tr c u f)"
    and ok: "sound_transition tr" and env: "(c, u) \<in> allowed_envelopes p (tt_previous tr) None"
    and plain: "tt_previous tr \<noteq> TS_WAITING_APPROVAL" "tt_current tr \<noteq> TS_WAITING_APPROVAL"
  shows "\<exists>rc'. recover_event kc p s rc = Inr rc' \<and> rebuilt p g' rs rc'"
proof -
  have "apply_recovered_transition g s p (pending_decision s (rc\<lparr>rc_saw_transition := True\<rparr>)) = Inr (tr, g')"
    using apply_recovered_exact [OF step ev ok env] plain(1) by (simp add: pending_decision_transition [OF ev])
  then have "recover_transition s p g rc = Inr (rc\<lparr>rc_saw_transition := True, rc_graph := Some g'\<rparr>)"
    using rc plain by (simp add: recover_transition_def rebuilt_def leave_waiting_def enter_waiting_def)
  then show ?thesis using rc by (simp add: recover_event_transition [OF rc ev] rebuilt_def)
qed

lemma apply_committed_Cons:
  "apply_committed g (tr # trs) = (h, None) \<longleftrightarrow>
     (\<exists>g'. transition g (tt_task_id tr) (tt_current tr) (tt_reason tr) = Inr (tr, g') \<and> apply_committed g' trs = (h, None))"
  by (auto split: sum.splits if_splits)

lemma replay_transitions:
  assumes "rebuilt p g rs rc" "apply_committed g trs = (h, None)"
    and "map se_event ss = map stored_form (transition_events session c u fresh i trs)"
    and "\<forall>tr \<in> set trs. sound_transition tr \<and> (c, u) \<in> allowed_envelopes p (tt_previous tr) None
      \<and> tt_previous tr \<noteq> TS_WAITING_APPROVAL \<and> tt_current tr \<noteq> TS_WAITING_APPROVAL"
  shows "\<exists>rc'. replay_session kc p ss rc = Inr rc' \<and> rebuilt p h rs rc'"
  using assms
proof (induction trs arbitrary: g rc ss i)
  case (Cons tr trs)
  obtain g' where g': "transition g (tt_task_id tr) (tt_current tr) (tt_reason tr) = Inr (tr, g')"
    "apply_committed g' trs = (h, None)" using Cons.prems(2) by (auto simp only: apply_committed_Cons)
  obtain s ss' where ss: "ss = s # ss'" "se_event s = stored_form (transition_event session tr c u (fresh i))"
    "map se_event ss' = map stored_form (transition_events session c u fresh (Suc i) trs)"
    using Cons.prems(3) by (auto simp: map_eq_Cons_conv)
  obtain rc' where rc': "recover_event kc p s rc = Inr rc'" "rebuilt p g' rs rc'"
    using recover_plain [OF Cons.prems(1) g'(1) ss(2)] Cons.prems(4) by auto
  from Cons.IH [OF rc'(2) g'(2) ss(3)] Cons.prems(4) rc'(1) ss(1) show ?case by simp
qed simp

section \<open>Approvals\<close>

lemma item_stored:
  "item (sort_json (JObj d)) k = (case map_of d k of None \<Rightarrow> Inl (KeyError k) | Some v \<Rightarrow> Inr (sort_json v))"
  "item_or (sort_json (JObj d)) k v = Inr (case map_of d k of None \<Rightarrow> v | Some w \<Rightarrow> sort_json w)"
  by (simp_all add: map_of_sorted split: option.splits)

lemma jstrs_stored [simp]: "sort_json (jstrs xs) = jstrs xs"
  by (simp add: comp_def)

lemma intent_stored [simp]: "action_intent_from_dict c (sort_json (action_intent_to_dict i)) = Inr i"
  unfolding action_intent_to_dict_def action_intent_from_dict_def item_stored
  by (simp del: sort_json.simps(1))

definition approval_dict :: "approval_request \<Rightarrow> (string, json) dict" where
  "approval_dict r =
     [(''requestId'', JStr (rq_request_id r)), (''sessionId'', JStr (rq_session_id r)),
      (''taskId'', JStr (rq_task_id r)), (''intent'', action_intent_to_dict (rq_intent r)),
      (''reason'', JStr (rq_reason r)), (''createdAt'', JStr (rq_created_at r)),
      (''decision'', jopt (JStr \<circ> approval_decision_value) (rq_decision r)),
      (''decidedBy'', jopt JStr (rq_decided_by r)), (''comment'', jopt JStr (rq_comment r))]"

lemma approval_to_dict: "approval_to_dict r = JObj (approval_dict r)"
  by (simp add: approval_to_dict_def approval_dict_def)

lemma decision_stored [simp]: "sort_json (jopt (JStr \<circ> approval_decision_value) x) = jopt (JStr \<circ> approval_decision_value) x"
  by (cases x) simp_all

lemma approval_field [simp]:
  "field (sorted_fields (approval_dict r)) ''requestId'' = JStr (rq_request_id r)"
  "field (sorted_fields (approval_dict r)) ''sessionId'' = JStr (rq_session_id r)"
  "field (sorted_fields (approval_dict r)) ''taskId'' = JStr (rq_task_id r)"
  "field (sorted_fields (approval_dict r)) ''intent'' = sort_json (action_intent_to_dict (rq_intent r))"
  "field (sorted_fields (approval_dict r)) ''reason'' = JStr (rq_reason r)"
  "field (sorted_fields (approval_dict r)) ''createdAt'' = JStr (rq_created_at r)"
  "field (sorted_fields (approval_dict r)) ''decision'' = jopt (JStr \<circ> approval_decision_value) (rq_decision r)"
  "field (sorted_fields (approval_dict r)) ''decidedBy'' = jopt JStr (rq_decided_by r)"
  "field (sorted_fields (approval_dict r)) ''comment'' = jopt JStr (rq_comment r)"
  by (simp_all add: field_stored approval_dict_def)

lemma approval_keys [simp]: "fst ` set (approval_dict r) = set approval_fields"
  by (simp add: approval_dict_def approval_fields_def)

text \<open>A request, open or decided, whose texts the recovery accepts.\<close>

definition sound_request :: "approval_request \<Rightarrow> bool" where
  "sound_request r = (list_all (\<lambda>s. s \<noteq> [] \<and> length s \<le> 65536)
       [rq_request_id r, rq_session_id r, rq_task_id r, rq_reason r, rq_created_at r]
     \<and> (case rq_decision r of None \<Rightarrow> rq_decided_by r = None \<and> rq_comment r = None
        | Some d \<Rightarrow> \<exists>a. rq_decided_by r = Some a \<and> a \<noteq> [] \<and> length a \<le> 65536)
     \<and> pred_option (\<lambda>s. length s \<le> 65536) (rq_comment r))"

lemma recovered_decision_exact:
  "sound_request r \<Longrightarrow> recovered_decision (rq_decision r \<noteq> None) (sorted_fields (approval_dict r)) = Inr (rq_decision r)"
  by (cases "rq_decision r") (auto simp: sound_request_def recovered_decision_def)

lemma intent_object: "\<exists>d. sort_json (action_intent_to_dict i) = JObj d"
  by (simp add: action_intent_to_dict_def)

lemma decode_approval_exact:
  assumes ev: "ev_payload (se_event s) = sort_json (approval_to_dict r)" and ok: "sound_request r"
    and time: "check_created_at kc (rq_created_at r) (ev_timestamp (se_event s)) = Inr ()"
    and chk: "check_approval s p g (rq_decision r \<noteq> None) r = Inr r"
  shows "decode_recovered_approval kc s p g (rq_decision r \<noteq> None) = Inr r"
proof -
  obtain d where d: "sort_json (action_intent_to_dict (rq_intent r)) = JObj d" using intent_object by blast
  have i: "action_intent_from_dict (kc_conv kc) (JObj d) = Inr (rq_intent r)" using intent_stored by (metis d)
  have pl: "ev_payload (se_event s) = JObj (sorted_fields (approval_dict r))"
    by (simp only: ev approval_to_dict stored_object)
  have texts: "list_all (\<lambda>k. recovery_text (field (sorted_fields (approval_dict r)) k))
      [''requestId'', ''sessionId'', ''taskId'', ''reason'', ''createdAt'']"
    "pred_option (\<lambda>s. length s \<le> 65536) (rq_comment r)" using ok by (simp_all add: sound_request_def)
  define r' where "r' = \<lparr>rq_session_id = rq_session_id r, rq_task_id = rq_task_id r, rq_intent = rq_intent r,
    rq_reason = rq_reason r, rq_request_id = rq_request_id r, rq_created_at = rq_created_at r,
    rq_decision = rq_decision r, rq_decided_by = rq_decided_by r, rq_comment = rq_comment r\<rparr>"
  have r': "r' = r" by (simp add: r'_def)
  show ?thesis
    unfolding decode_recovered_approval_def Let_def pl
    using texts recovered_decision_exact [OF ok] time i chk
    by (simp add: d wrap_python_def canonical_stored_object approval_to_dict r'[unfolded r'_def])
qed

definition request_fits :: "workflow_plan \<Rightarrow> task_graph \<Rightarrow> approval_request \<Rightarrow> bool" where
  "request_fits p g r = (rq_session_id r = wp_session_id p
     \<and> (\<exists>task. map_of (tg_tasks g) (rq_task_id r) = Some task \<and> rq_intent r = tk_action task))"

definition replace_request :: "approval_request \<Rightarrow> approval_request list \<Rightarrow> approval_request list" where
  "replace_request r rs = map (\<lambda>x. if rq_request_id x = rq_request_id r then r else x) rs"

lemma inbox_of_append: "rq_request_id r \<notin> rq_request_id ` set rs \<Longrightarrow> dict_set (rq_request_id r) r (inbox_of rs) = inbox_of (rs @ [r])"
  by (subst dict_set_fresh) (auto simp: inbox_of_def)

lemma inbox_of_replace:
  "distinct (map rq_request_id rs) \<Longrightarrow> rq_request_id r \<in> rq_request_id ` set rs
    \<Longrightarrow> dict_set (rq_request_id r) r (inbox_of rs) = inbox_of (replace_request r rs)"
proof (induction rs)
  case (Cons x rs)
  show ?case
  proof (cases "rq_request_id x = rq_request_id r")
    case True
    then have "rq_request_id r \<notin> rq_request_id ` set rs" using Cons.prems(1) by simp
    then have "map (\<lambda>x. if rq_request_id x = rq_request_id r then r else x) rs = rs"
      by (intro map_idI) (auto simp: image_iff)
    with True show ?thesis by (simp add: inbox_of_def replace_request_def)
  next
    case False
    then show ?thesis using Cons by (auto simp: inbox_of_def replace_request_def)
  qed
qed simp

lemma inbox_of_get: "distinct (map rq_request_id rs) \<Longrightarrow> r \<in> set rs \<Longrightarrow> map_of (inbox_of rs) (rq_request_id r) = Some r"
  by (auto simp: inbox_of_def comp_def intro!: map_of_is_SomeI)

lemma replace_request_keys:
  assumes "distinct (map rq_request_id rs)" "r0 \<in> set rs" "rq_request_id r0 = rq_request_id r"
  shows "map rq_request_id (replace_request r rs) = map rq_request_id rs"
    "rq_task_id r0 = rq_task_id r \<Longrightarrow> map rq_task_id (replace_request r rs) = map rq_task_id rs"
  using key_inj [OF assms(1) _ assms(2)] assms(3) by (auto simp: replace_request_def)

lemma keys_set: "fst ` set (dict_set k v d) = insert k (fst ` set d)"
proof -
  have "set (dict_keys (dict_set k v d)) = insert k (set (dict_keys d))" by (auto simp: dict_keys_set)
  then show ?thesis by simp
qed

text \<open>The wait for an approval begins: the transition, then the request right after it.\<close>

lemma recover_wait:
  assumes rc: "rebuilt p g rs rc"
    and step: "transition g (tt_task_id tr) (tt_current tr) (tt_reason tr) = Inr (tr, g')"
    and ev: "se_event s = stored_form (transition_event session tr c u f)"
    and ok: "sound_transition tr" and env: "(c, u) \<in> allowed_envelopes p (tt_previous tr) None"
    and wait: "tt_previous tr \<noteq> TS_WAITING_APPROVAL" "tt_current tr = TS_WAITING_APPROVAL" "tt_reason tr = Some (rq_reason r)"
    and ev2: "se_event s2 = stored_form (request_event p r f2)" "se_sequence s2 = se_sequence s + 1"
    and r: "rq_task_id r = tt_task_id tr" "request_fits p g r" "sound_request r" "rq_decision r = None"
    and new: "rq_task_id r \<notin> rq_task_id ` set rs" "rq_request_id r \<notin> rq_request_id ` set rs"
    and time: "check_created_at kc (rq_created_at r) (fe_timestamp f2) = Inr ()"
  shows "\<exists>rc'. replay_session kc p [s, s2] rc = Inr rc' \<and> rebuilt p g' (rs @ [r]) rc'"
proof -
  let ?t = "tt_task_id tr"
  define rc1 where "rc1 = rc\<lparr>rc_saw_transition := True, rc_graph := Some g', rc_waiting := [(?t, se_sequence s)]\<rparr>"
  have t_new: "?t \<notin> fst ` set (rc_by_task rc)" using rc new(1) r(1) by (simp add: rebuilt_def)
  have "apply_recovered_transition g s p (pending_decision s (rc\<lparr>rc_saw_transition := True\<rparr>)) = Inr (tr, g')"
    using apply_recovered_exact [OF step ev ok env] wait(1) by (simp add: pending_decision_transition [OF ev])
  then have first: "recover_event kc p s rc = Inr rc1"
    using rc wait t_new unfolding recover_event_transition [OF rc ev]
    by (simp add: recover_transition_def rebuilt_def leave_waiting_def enter_waiting_def rc1_def)
  have e2: "ev_event_type (se_event s2) = ''approval.requested''" "ev_payload (se_event s2) = sort_json (approval_to_dict r)"
    "ev_actor_id (se_event s2) = system_actor" "ev_correlation_id (se_event s2) = plan_correlation p"
    "ev_causation_id (se_event s2) = Some (rq_task_id r)" "ev_timestamp (se_event s2) = fe_timestamp f2"
    "ev_idempotency_key (se_event s2) = Some (''approval-request:'' @ rq_task_id r)"
    by (simp_all add: ev2 stored_form_def request_event_def kernel_event_def del: sort_json.simps)
  note g' = transition_status [OF step]
  have "check_approval s2 p g' False r = Inr r"
    using r(2) by (auto simp: check_approval_def request_fits_def e2 g'(2) Let_def)
  then have dec: "decode_recovered_approval kc s2 p g' False = Inr r"
    using decode_approval_exact [OF e2(2) r(3), of kc p g'] time r(4) by (simp add: e2)
  have reason: "map_of (tg_reasons g') ?t = Some (rq_reason r)"
    using step wait(1-3) r(3) by (auto simp: transition_Inr preview_transition_Inr set_reason_def sound_request_def dict_simps)
  have "recover_request kc s2 p g' rc1 = Inr (rc1\<lparr>rc_waiting := [],
      rc_requests := inbox_of (rs @ [r]), rc_by_task := dict_set ?t (rq_request_id r) (rc_by_task rc)\<rparr>)"
    using rc new t_new reason wait(2) r(1) ev2(2) g'(1)
    by (simp add: recover_request_def dec rc1_def rebuilt_def inbox_of_append)
  then have second: "recover_event kc p s2 rc1 = Inr (rc1\<lparr>rc_waiting := [],
      rc_requests := inbox_of (rs @ [r]), rc_by_task := dict_set ?t (rq_request_id r) (rc_by_task rc)\<rparr>)"
    using rc by (simp add: recover_event_def e2 rc1_def rebuilt_def)
  show ?thesis using first second rc r(1) by (simp add: rebuilt_def rc1_def keys_set)
qed

text \<open>The wait ends: the decision, then the transition right after it.\<close>

lemma recover_decided:
  assumes rc: "rebuilt p g rs rc"
    and step: "transition g (tt_task_id tr) (tt_current tr) (tt_reason tr) = Inr (tr, g')"
    and ev: "se_event s = stored_form (decision_event p r actor f)"
    and ev2: "se_event s2 = stored_form (transition_event session tr (plan_correlation p) (Some (rq_request_id r)) f2)"
      "se_sequence s2 = se_sequence s + 1"
    and ok: "sound_transition tr"
    and r: "rq_task_id r = tt_task_id tr" "request_fits p g r" "sound_request r" "rq_decision r = Some d" "rq_decided_by r = Some actor"
    and tr: "tt_previous tr = TS_WAITING_APPROVAL" "tt_current tr = approval_target d" "tt_reason tr = rq_comment r"
    and old: "distinct (map rq_request_id rs)" "r0 \<in> set rs" "rq_pending r0" "same_approval r0 r"
    and time: "check_created_at kc (rq_created_at r) (fe_timestamp f) = Inr ()"
  shows "\<exists>rc'. replay_session kc p [s, s2] rc = Inr rc' \<and> rebuilt p g' (replace_request r rs) rc'"
proof -
  let ?t = "tt_task_id tr"
  define rc1 where "rc1 = rc\<lparr>rc_requests := inbox_of (replace_request r rs),
    rc_decided := [(?t, rq_request_id r, approval_target d, rq_comment r, se_sequence s)]\<rparr>"
  have e1: "ev_event_type (se_event s) = ''approval.decided''" "ev_payload (se_event s) = sort_json (approval_to_dict r)"
    "ev_actor_id (se_event s) = actor" "ev_correlation_id (se_event s) = plan_correlation p"
    "ev_causation_id (se_event s) = Some (rq_request_id r)" "ev_timestamp (se_event s) = fe_timestamp f"
    "ev_idempotency_key (se_event s) = Some (''approval-decision:'' @ rq_request_id r)"
    by (simp_all add: ev stored_form_def decision_event_def kernel_event_def del: sort_json.simps)
  have "check_approval s p g True r = Inr r"
    using r(2,5) by (auto simp: check_approval_def request_fits_def e1 Let_def)
  then have dec: "decode_recovered_approval kc s p g True = Inr r"
    using decode_approval_exact [OF e1(2) r(3), of kc p g] time r(4) by (simp add: e1)
  have ids: "rq_request_id r0 = rq_request_id r" "rq_task_id r0 = rq_task_id r" using old(4) by (simp_all add: same_approval_def)
  then have got: "map_of (inbox_of rs) (rq_request_id r) = Some r0" using inbox_of_get [OF old(1,2)] by simp
  have put: "dict_set (rq_request_id r) r (inbox_of rs) = inbox_of (replace_request r rs)"
    using old(2) ids(1) by (intro inbox_of_replace [OF old(1)]) (metis image_eqI)
  have status: "map_of (tg_statuses g) ?t = Some TS_WAITING_APPROVAL"
    using transition_start(1) [OF step] tr(1) by simp
  have "recover_decision kc s p g rc = Inr rc1"
    using rc r(1,4) old(3,4) status by (simp add: recover_decision_def dec rebuilt_def got put rc1_def)
  then have first: "recover_event kc p s rc = Inr rc1"
    using rc by (simp add: recover_event_def e1 rebuilt_def)
  have pend: "pending_decision s2 (rc1\<lparr>rc_saw_transition := True\<rparr>) = Some (rq_request_id r)"
    by (simp add: pending_decision_transition [OF ev2(1)] tr(1) rc1_def)
  have "apply_recovered_transition g s2 p (Some (rq_request_id r)) = Inr (tr, g')"
    by (rule apply_recovered_exact [OF step ev2(1) ok]) (simp add: allowed_envelopes_def)
  moreover have "tt_current tr \<noteq> TS_WAITING_APPROVAL" by (cases d) (simp_all add: tr(2) approval_target_def)
  ultimately have "recover_transition s2 p g rc1 = Inr (rc1\<lparr>rc_saw_transition := True, rc_graph := Some g', rc_decided := []\<rparr>)"
    using rc tr ev2(2) pend
    by (simp add: recover_transition_def rc1_def rebuilt_def leave_waiting_def enter_waiting_def)
  moreover have "recover_event kc p s2 rc1 = recover_transition s2 p g rc1"
    using rc transition_event_kind [OF ev2(1)] by (simp add: recover_event_def rc1_def rebuilt_def Let_def)
  moreover have "rq_task_id ` set (replace_request r rs) = rq_task_id ` set rs"
    using replace_request_keys [OF old(1,2)] ids by (metis set_map)
  ultimately show ?thesis using first rc by (simp add: rebuilt_def rc1_def)
qed

section \<open>The start of a session\<close>

text \<open>
  A plan that its stored form, with sorted keys, decodes to: a plan whose identifiers and texts pass
  its own checks and whose free-form fields are sorted.
\<close>

definition stable_plan :: "kernel_config \<Rightarrow> workflow_plan \<Rightarrow> bool" where
  "stable_plan kc p = (plan_from_dict (kc_conv kc) (sort_json (plan_to_dict p)) = Inr p)"

lemma recover_plan_exact:
  assumes ev: "se_event s = stored_form (plan_event p f)" and p: "stable_plan kc p" and g: "graph_init (wp_tasks p) = Inr g"
  shows "recover_event kc p s new_recovery = Inr (new_recovery\<lparr>rc_created := True, rc_plan := Some p, rc_graph := Some g\<rparr>)"
proof -
  have e: "ev_event_type (se_event s) = ''workflow.plan.created''" "ev_payload (se_event s) = sort_json (plan_to_dict p)"
    "ev_actor_id (se_event s) = wp_initiated_by p" "ev_correlation_id (se_event s) = plan_correlation p"
    "ev_causation_id (se_event s) = None" "ev_idempotency_key (se_event s) = Some (''plan:'' @ wp_plan_id p)"
    by (simp_all add: ev stored_form_def plan_event_def kernel_event_def del: sort_json.simps)
  obtain d where d: "plan_to_dict p = JObj d" by (simp add: plan_to_dict_def)
  have pl: "ev_payload (se_event s) = JObj (sorted_fields d)" by (simp only: e d stored_object)
  have "plan_from_dict (kc_conv kc) (JObj (sorted_fields d)) = Inr p"
    using p by (simp only: stable_plan_def d stored_object)
  then have "decode_recovered_plan kc s = Inr p"
    by (simp add: decode_recovered_plan_def pl e(3-) wrap_python_def canonical_stored_object d)
  then show ?thesis
    by (simp add: recover_event_def e(1) recover_plan_def new_recovery_def same_plan_def g)
qed

lemma filter_task:
  "distinct (map tk_task_id ts) \<Longrightarrow> t \<in> set ts \<Longrightarrow> filter (\<lambda>x. tk_task_id x = tk_task_id t) (rev ts) = [t]"
  by (rule filter_key [where key = tk_task_id]) (auto simp: rev_map [symmetric])

lemma recover_task_exact:
  assumes ev: "se_event s = stored_form (task_event p t f)" and t: "t \<in> set (wp_tasks p)" "distinct (map tk_task_id (wp_tasks p))"
    and rc: "rc_plan rc = Some p" "\<not> rc_saw_transition rc"
  shows "recover_event kc p s rc = Inr (rc\<lparr>rc_task_ids := rc_task_ids rc @ [tk_task_id t]\<rparr>)"
proof -
  have e: "ev_event_type (se_event s) = ''task.created''" "ev_payload (se_event s) = sort_json (task_spec_to_dict t)"
    "ev_actor_id (se_event s) = wp_initiated_by p" "ev_correlation_id (se_event s) = plan_correlation p"
    "ev_causation_id (se_event s) = None" "ev_idempotency_key (se_event s) = Some (''task-created:'' @ tk_task_id t)"
    by (simp_all add: ev stored_form_def task_event_def kernel_event_def del: sort_json.simps)
  obtain d where d: "task_spec_to_dict t = JObj d" "map_of d ''taskId'' = Some (JStr (tk_task_id t))"
    by (simp add: task_spec_to_dict_def)
  have pl: "ev_payload (se_event s) = JObj (sorted_fields d)" by (simp only: e d stored_object)
  have "decode_recovered_task kc s p = Inr (tk_task_id t)"
    by (simp add: decode_recovered_task_def pl e(3-) canonical_stored_object d field_stored filter_task [OF t(2,1)])
  then show ?thesis using rc by (simp add: recover_event_def e(1) recover_task_def)
qed

lemma replay_tasks:
  assumes "map se_event ss = map stored_form (task_events p fresh i ts)" "set ts \<subseteq> set (wp_tasks p)"
    "distinct (map tk_task_id (wp_tasks p))" "rc_plan rc = Some p" "\<not> rc_saw_transition rc"
  shows "replay_session kc p ss rc = Inr (rc\<lparr>rc_task_ids := rc_task_ids rc @ map tk_task_id ts\<rparr>)"
  using assms
proof (induction ts arbitrary: rc ss i)
  case (Cons t ts)
  obtain s ss' where ss: "ss = s # ss'" "se_event s = stored_form (task_event p t (fresh i))"
    "map se_event ss' = map stored_form (task_events p fresh (Suc i) ts)"
    using Cons.prems(1) by (auto simp: map_eq_Cons_conv)
  have "recover_event kc p s rc = Inr (rc\<lparr>rc_task_ids := rc_task_ids rc @ [tk_task_id t]\<rparr>)"
    using Cons.prems by (intro recover_task_exact [OF ss(2)]) auto
  then show ?case
    using Cons.IH [OF ss(3), of "rc\<lparr>rc_task_ids := rc_task_ids rc @ [tk_task_id t]\<rparr>"] Cons.prems ss(1) by simp
qed simp

lemma replay_plan:
  assumes g0: "graph_init (wp_tasks p) = Inr g0" and p: "stable_plan kc p"
    and ss: "map se_event ss = map stored_form (plan_events p trs fresh)" and trs: "apply_committed g0 trs = (g, None)"
    and ok: "\<forall>tr \<in> set trs. sound_transition tr \<and> tt_previous tr = TS_PENDING \<and> tt_current tr \<noteq> TS_WAITING_APPROVAL"
  shows "\<exists>rc. replay_session kc p ss new_recovery = Inr rc \<and> rebuilt p g [] rc"
proof -
  obtain s s1 s2 where s: "ss = s # s1 @ s2" "se_event s = stored_form (plan_event p (fresh 0))"
    "map se_event s1 = map stored_form (task_events p fresh 1 (wp_tasks p))"
    "map se_event s2 = map stored_form (transition_events (wp_session_id p) (wp_correlation_id p) None fresh
       (1 + length (wp_tasks p)) trs)"
    using ss by (auto simp: plan_events_def map_eq_Cons_conv map_eq_append_conv)
  define rc0 where "rc0 = new_recovery\<lparr>rc_created := True, rc_plan := Some p, rc_graph := Some g0\<rparr>"
  define rc1 where "rc1 = rc0\<lparr>rc_task_ids := plan_task_ids p\<rparr>"
  have "distinct (map tk_task_id (wp_tasks p))" using g0 by (simp add: graph_init_Inr well_formed_workflow_def)
  then have tasks: "replay_session kc p s1 rc0 = Inr rc1"
    using replay_tasks [OF s(3), of rc0 kc] by (simp add: rc0_def rc1_def new_recovery_def plan_task_ids_def)
  have "rebuilt p g0 [] rc1" by (simp add: rebuilt_def rc1_def rc0_def new_recovery_def inbox_of_def)
  then obtain rc where "replay_session kc p s2 rc1 = Inr rc" "rebuilt p g [] rc"
    using replay_transitions [OF _ trs s(4), of p "[]" rc1 kc] ok by (auto simp: allowed_envelopes_def)
  then show ?thesis
    using recover_plan_exact [OF s(2) p g0] tasks by (simp add: s(1) replay_session_append rc0_def)
qed

end
