(* ===== verification/Kernel_Sessions.thy ===== *)
theory Kernel_Sessions
  imports Kernel_Replay
begin

text \<open>
  A running session: its memory, its stream in the log, and the commits that interleave. The
  invariant says that replaying the stream gives what the kernel holds.
\<close>

section \<open>The invariant\<close>

definition session_requests :: "string \<Rightarrow> kernel \<Rightarrow> approval_request list" where
  "session_requests session kn = filter (\<lambda>r. rq_session_id r = session) (dict_values (kn_inbox kn))"

definition keyed_inbox :: "kernel \<Rightarrow> bool" where
  "keyed_inbox kn = (kn_inbox kn = inbox_of (dict_values (kn_inbox kn))
     \<and> distinct (map rq_request_id (dict_values (kn_inbox kn))))"

text \<open>What the status of a task says about its request, and the approved tasks about theirs.\<close>

definition request_status :: "workflow_plan \<Rightarrow> task_graph \<Rightarrow> kernel \<Rightarrow> approval_request \<Rightarrow> bool" where
  "request_status p g kn r = (let st = map_of (tg_statuses g) (rq_task_id r); k = (wp_session_id p, rq_task_id r) in
     case rq_decision r of
       None \<Rightarrow> st = Some TS_WAITING_APPROVAL
     | Some AD_APPROVE \<Rightarrow> k \<in> kn_approved kn \<and> st \<noteq> Some TS_WAITING_APPROVAL
     | Some _ \<Rightarrow> k \<notin> kn_approved kn \<and> st \<in> {Some TS_WAITING_INPUT, Some TS_CANCELED})"

definition sound_graph :: "workflow_plan \<Rightarrow> task_graph \<Rightarrow> bool" where
  "sound_graph p g = (graph_inv g \<and> tg_tasks g = tasks_of (wp_tasks p)
     \<and> (\<forall>t n. map_of (tg_revisions g) t = Some n \<longrightarrow> 0 \<le> n))"

definition sound_session :: "workflow_plan \<Rightarrow> task_graph \<Rightarrow> kernel \<Rightarrow> bool" where
  "sound_session p g kn = (let rs = session_requests (wp_session_id p) kn in
     sound_graph p g \<and> keyed_inbox kn \<and> distinct (map rq_task_id rs)
     \<and> (\<forall>r \<in> set rs. request_fits p g r \<and> sound_request r \<and> request_status p g kn r)
     \<and> (\<forall>t. (wp_session_id p, t) \<in> kn_approved kn \<longrightarrow> (\<exists>r \<in> set rs. rq_task_id r = t \<and> rq_decision r = Some AD_APPROVE)))"

text \<open>A task runs, and has run, only if the policy lets it or a human has approved it.\<close>

definition may_run :: "kernel_config \<Rightarrow> workflow_plan \<Rightarrow> kernel \<Rightarrow> task_spec \<Rightarrow> bool" where
  "may_run kc p kn t = (pd_outcome (evaluate (kc_forbidden kc) (tk_action t) (hc_authority (tk_handoff t))) = PO_ALLOW
     \<or> (wp_session_id p, tk_task_id t) \<in> kn_approved kn)"

definition permitted :: "kernel_config \<Rightarrow> workflow_plan \<Rightarrow> task_graph \<Rightarrow> kernel \<Rightarrow> bool" where
  "permitted kc p g kn = (\<forall>t \<in> set (wp_tasks p).
     map_of (tg_statuses g) (tk_task_id t) \<in> {Some TS_RUNNING, Some TS_COMPLETED} \<longrightarrow> may_run kc p kn t)"

definition plan_stream :: "workflow_plan \<Rightarrow> string" where
  "plan_stream p = session_stream (wp_session_id p)"

definition replays_to :: "kernel_config \<Rightarrow> workflow_plan \<Rightarrow> stored_event list \<Rightarrow> recovery \<Rightarrow> bool" where
  "replays_to kc p rows rc = (log_inv rows \<and> replay_session kc p (stream_of (plan_stream p) rows) new_recovery = Inr rc
     \<and> (\<forall>r \<in> set (stream_of (plan_stream p) rows). row_to_event (kc_events kc) r = Inr r))"

definition coherent_session :: "kernel_config \<Rightarrow> workflow_plan \<Rightarrow> kernel \<Rightarrow> stored_event list \<Rightarrow> bool" where
  "coherent_session kc p kn rows = (map_of (kn_plans kn) (wp_session_id p) = Some p
     \<and> (\<exists>g rc. map_of (kn_graphs kn) (wp_session_id p) = Some g \<and> sound_session p g kn \<and> permitted kc p g kn
        \<and> replays_to kc p rows rc \<and> rebuilt p g (session_requests (wp_session_id p) kn) rc))"

section \<open>Other connections\<close>

lemma stream_of_split: "stream_of t (xs @ ys) = stream_of t xs @ stream_of t ys"
  by (simp add: stream_of_def)

lemma quiet_stream:
  assumes "\<forall>r \<in> set xs. quiet_row cf t r"
  shows "\<forall>r \<in> set (stream_of t xs). ev_event_type (se_event r) \<notin> set state_kinds \<and> row_to_event cf r = Inr r"
  using assms by (auto simp: stream_of_def quiet_row_def)

lemma replays_calm:
  assumes "replays_to kc p rows rc" "calm (kc_events kc) (plan_stream p) rows rows'"
  shows "replays_to kc p rows' rc"
proof -
  have inv: "log_inv rows" using assms(1) by (simp add: replays_to_def)
  obtain more where more: "rows' = rows @ more" "\<forall>r \<in> set more. quiet_row (kc_events kc) (plan_stream p) r"
    using assms(2) inv by (rule calm_more)
  note quiet = quiet_stream [OF more(2)]
  have "replay_session kc p (stream_of (plan_stream p) more) rc = Inr rc" using quiet by (intro replay_quiet) simp
  then show ?thesis using assms(1) quiet calm_inv [OF assms(2) inv]
    by (auto simp: replays_to_def more(1) stream_of_split replay_session_append)
qed

text \<open>A commit whose events the replay accepts.\<close>

lemma replays_commit:
  assumes "replays_to kc p rows rc" "committed (kc_events kc) (plan_stream p) es rows ss rows'"
    and "\<forall>e \<in> set es. ev_stream_id e = plan_stream p" and "replay_session kc p ss rc = Inr rc'"
  shows "replays_to kc p rows' rc'"
proof -
  let ?t = "plan_stream p"
  have inv: "log_inv rows" using assms(1) by (simp add: replays_to_def)
  obtain mid more where com: "rows' = mid @ ss @ more" "calm (kc_events kc) ?t rows mid"
    "\<forall>r \<in> set more. quiet_row (kc_events kc) ?t r" "map se_event ss = map stored_form es"
    "\<forall>s \<in> set ss. row_to_event (kc_events kc) s = Inr s"
    by (rule committed_steps [OF assms(2) inv])
  have mid: "replays_to kc p mid rc" by (rule replays_calm [OF assms(1) com(2)])
  note quiet = quiet_stream [OF com(3)]
  have "replay_session kc p (stream_of ?t more) rc' = Inr rc'" using quiet by (intro replay_quiet) simp
  moreover have "stream_of ?t ss = ss" by (rule batch_in_stream [OF com(4) assms(3)])
  ultimately show ?thesis
    using mid com(5) quiet assms(4) committed_inv [OF assms(2)]
    by (auto simp: replays_to_def com(1) stream_of_split replay_session_append)
qed

lemma committed_sequence:
  assumes "committed cf t es rows ss rows'" "log_inv rows" "\<forall>e \<in> set es. ev_stream_id e = t" "Suc i < length ss"
  shows "se_sequence (ss ! Suc i) = se_sequence (ss ! i) + 1"
proof -
  obtain mid where mid: "log_inv (mid @ ss)" "map se_event ss = map stored_form es"
    using assms(1) by (auto simp: committed_def)
  have "stream_of t ss = ss" by (rule batch_in_stream [OF mid(2) assms(3)])
  then have st: "stream_of t (mid @ ss) = stream_of t mid @ ss" by (simp add: stream_of_split)
  let ?n = "length (stream_of t mid)"
  have "se_sequence (ss ! j) = int (?n + j) + 1" if "j < length ss" for j
    using sequence_nth [OF mid(1), of "?n + j" t] that by (simp add: st nth_append)
  from this [of i] this [of "Suc i"] assms(4) show ?thesis by simp
qed

lemma committed_fits:
  assumes "committed cf t es rows ss rows'" "e \<in> set es"
  shows "payload_fits e"
  using assms snapshot_fits [of cf es "map stored_form es" e] by (auto simp: committed_def)

section \<open>The environment of a commit\<close>

definition fresh_env :: "kernel_config \<Rightarrow> workflow_plan \<Rightarrow> commit_env \<Rightarrow> stored_event list \<Rightarrow> bool" where
  "fresh_env kc p env rows = (polite (kc_events kc) (plan_stream p) env
     \<and> (\<forall>i. \<not> blank (fe_id (ce_fresh env i)) \<and> \<not> blank (fe_timestamp (ce_fresh env i))
          \<and> cal_norm (cf_calendar (kc_events kc)) (fe_timestamp (ce_fresh env i)) \<noteq> None
          \<and> fe_id (ce_fresh env i) \<notin> event_ids rows))"

lemma drawn_event:
  "fresh_env kc p env rows \<Longrightarrow>
     drawn (kc_events kc) (plan_stream p) env rows (kernel_event (wp_session_id p) kind actor c u key payload (ce_fresh env i))"
  by (auto simp: fresh_env_def drawn_def kernel_event_def plan_stream_def readable_def)

lemma transition_drawn:
  "fresh_env kc p env rows \<Longrightarrow>
     drawn (kc_events kc) (plan_stream p) env rows (transition_event (wp_session_id p) tr c u (ce_fresh env i))"
  by (simp add: transition_event_def drawn_event)

lemma stream_not_blank: "\<not> blank (plan_stream p)"
  by (auto simp: plan_stream_def session_stream_def blank_iff py_space_def)

lemma transitions_drawn:
  assumes "fresh_env kc p env rows"
  shows "\<forall>e \<in> set (transition_events (wp_session_id p) c u (ce_fresh env) i trs).
    drawn (kc_events kc) (plan_stream p) env rows e"
  by (induction trs arbitrary: i) (auto intro: transition_drawn [OF assms])

lemma tasks_drawn:
  assumes "fresh_env kc p env rows"
  shows "\<forall>e \<in> set (task_events p (ce_fresh env) i ts). drawn (kc_events kc) (plan_stream p) env rows e"
  by (induction ts arbitrary: i) (auto simp: task_event_def intro: drawn_event [OF assms])

lemma drawn_stream: "\<forall>e \<in> set es. drawn cf t env rows e \<Longrightarrow> \<forall>e \<in> set es. ev_stream_id e = t"
  by (simp add: drawn_def)

section \<open>Plain transitions\<close>

definition named_tasks :: "workflow_plan \<Rightarrow> bool" where
  "named_tasks p = (\<forall>t \<in> set (wp_tasks p). tk_task_id t \<noteq> [])"

text \<open>A transition of a task that has no open or refused request, and does not open one.\<close>

definition plain_move :: "task_transition \<Rightarrow> bool" where
  "plain_move tr = (tt_previous tr \<in> {TS_PENDING, TS_READY, TS_RUNNING} \<and> tt_current tr \<noteq> TS_WAITING_APPROVAL)"

lemma sound_graph_step:
  assumes "sound_graph p g" "transition g (tt_task_id tr) (tt_current tr) (tt_reason tr) = Inr (tr, g')"
  shows "sound_graph p g'" "0 \<le> tt_revision tr" "named_tasks p \<Longrightarrow> tt_task_id tr \<noteq> []"
proof -
  note st = transition_status [OF assms(2)] and start = transition_start [OF assms(2)]
  have rev: "\<forall>t n. map_of (tg_revisions g) t = Some n \<longrightarrow> 0 \<le> n" using assms(1) by (simp add: sound_graph_def)
  show nonneg: "0 \<le> tt_revision tr" using start(2) rev by auto
  show "sound_graph p g'"
    using assms(1) transition_inv [OF _ assms(2)] rev nonneg by (auto simp: sound_graph_def st)
  have "tt_task_id tr \<in> fst ` set (tasks_of (wp_tasks p))"
    using status_known [OF _ start(1)] assms(1) by (simp add: sound_graph_def)
  then show "tt_task_id tr \<noteq> []" if "named_tasks p" using that by (auto simp: tasks_of_def named_tasks_def)
qed

lemma sound_step:
  assumes "sound_session p g kn" "transition g (tt_task_id tr) (tt_current tr) (tt_reason tr) = Inr (tr, g')" "plain_move tr"
  shows "sound_session p g' kn"
proof -
  note st = transition_status [OF assms(2)] and start = transition_start [OF assms(2)]
  have "request_fits p g' r" if "request_fits p g r" for r using that by (simp add: request_fits_def st)
  moreover have "request_status p g' kn r" if "request_status p g kn r" for r
    using that assms(3) start(1)
    by (cases "rq_decision r"; cases "rq_task_id r = tt_task_id tr")
       (auto simp: request_status_def plain_move_def st Let_def split: approval_decision.splits)
  ultimately show ?thesis
    using assms(1) sound_graph_step(1) [OF _ assms(2), of p] by (simp add: sound_session_def Let_def)
qed

lemma sound_steps:
  assumes "sound_session p g kn" "apply_committed g trs = (h, None)" "\<forall>tr \<in> set trs. plain_move tr"
  shows "sound_session p h kn \<and> (\<forall>tr \<in> set trs. 0 \<le> tt_revision tr \<and> (named_tasks p \<longrightarrow> tt_task_id tr \<noteq> []))"
  using assms
proof (induction trs arbitrary: g)
  case (Cons tr trs)
  obtain g' where g': "transition g (tt_task_id tr) (tt_current tr) (tt_reason tr) = Inr (tr, g')"
    "apply_committed g' trs = (h, None)" using Cons.prems(2) by (auto simp only: apply_committed_Cons)
  have "sound_graph p g" using Cons.prems(1) by (simp add: sound_session_def Let_def)
  from sound_graph_step [OF this g'(1)] sound_step [OF Cons.prems(1) g'(1)] Cons.IH [OF _ g'(2)] Cons.prems(3)
  show ?case by simp
qed simp

lemma commit_planned_cases:
  assumes "log_inv rows" "fresh_env kc p env rows" "apply_committed g trs = (h, None)"
    and run: "commit_planned kc env (wp_session_id p) trs c u g rows = (out, g', rows')"
  shows "(\<exists>e. out = Inl e) \<and> g' = g \<and> calm (kc_events kc) (plan_stream p) rows rows'
    \<or> out = Inr () \<and> trs = [] \<and> g' = g \<and> rows' = rows
    \<or> out = Inr () \<and> g' = h \<and> (\<exists>ss. committed (kc_events kc) (plan_stream p)
        (transition_events (wp_session_id p) c u (ce_fresh env) 0 trs) rows ss rows')"
proof (cases "trs = []")
  case True
  then show ?thesis using run by (simp add: commit_planned_def)
next
  case False
  let ?es = "transition_events (wp_session_id p) c u (ce_fresh env) 0 trs"
  obtain o1 rows1 where c: "commit_events kc env (session_stream (wp_session_id p)) ?es rows = (o1, rows1)"
    by fastforce
  have "?es \<noteq> []" using False by (cases trs) simp_all
  then have "(\<exists>e. o1 = Inl e) \<and> calm (kc_events kc) (plan_stream p) rows rows1
      \<or> (\<exists>ss. o1 = Inr ss \<and> committed (kc_events kc) (plan_stream p) ?es rows ss rows1)"
    using commit_events_cases [OF assms(1) _ stream_not_blank _ transitions_drawn [OF assms(2)]] c assms(2)
    unfolding plan_stream_def fresh_env_def by blast
  then show ?thesis using run False assms(3) c
    by (auto simp: commit_planned_def)
qed

lemma graph_set [simp]:
  "map_of (kn_graphs (set_graph s g kn)) = (map_of (kn_graphs kn))(s \<mapsto> g)" "kn_plans (set_graph s g kn) = kn_plans kn"
  "kn_inbox (set_graph s g kn) = kn_inbox kn" "kn_approved (set_graph s g kn) = kn_approved kn"
  by (simp_all add: set_graph_def dict_simps)

lemma requests_set_graph [simp]: "session_requests s (set_graph s' g kn) = session_requests s kn"
  by (simp add: session_requests_def)

lemma sound_set_graph [simp]: "sound_session p g (set_graph s h kn) = sound_session p g kn"
  unfolding sound_session_def keyed_inbox_def request_status_def graph_set requests_set_graph ..

lemma transition_event_in:
  "tr \<in> set trs \<Longrightarrow> \<exists>f. transition_event s tr c u f \<in> set (transition_events s c u fresh i trs)"
proof (induction trs arbitrary: i)
  case (Cons x trs)
  then have "tr = x \<or> (\<exists>f. transition_event s tr c u f \<in> set (transition_events s c u fresh (Suc i) trs))" by auto
  then show ?case by auto
qed simp

lemma permitted_update:
  assumes "permitted kc p g kn" "map_of (tg_statuses h) = (map_of (tg_statuses g))(t0 \<mapsto> st)"
    and "st \<in> {TS_RUNNING, TS_COMPLETED} \<Longrightarrow> \<forall>t \<in> set (wp_tasks p). tk_task_id t = t0 \<longrightarrow> may_run kc p kn t"
  shows "permitted kc p h kn"
  using assms unfolding permitted_def by auto

lemma permitted_steps:
  assumes "permitted kc p g kn" "apply_committed g trs = (h, None)" "\<forall>tr \<in> set trs. tt_current tr \<notin> {TS_RUNNING, TS_COMPLETED}"
  shows "permitted kc p h kn"
  using assms
proof (induction trs arbitrary: g)
  case (Cons tr trs)
  obtain g' where g': "transition g (tt_task_id tr) (tt_current tr) (tt_reason tr) = Inr (tr, g')"
    "apply_committed g' trs = (h, None)" using Cons.prems(2) by (auto simp only: apply_committed_Cons)
  have "permitted kc p g' kn"
    by (rule permitted_update [OF Cons.prems(1) transition_status(1) [OF g'(1)]]) (use Cons.prems(3) in auto)
  then show ?case using Cons.IH g'(2) Cons.prems(3) by simp
qed simp

lemma permitted_kernel [simp]:
  "permitted kc p g (set_graph s h kn) = permitted kc p g kn" "permitted kc p g (kn\<lparr>kn_inbox := q\<rparr>) = permitted kc p g kn"
  unfolding permitted_def may_run_def by simp_all

text \<open>A batch of plain transitions keeps memory and log together.\<close>

lemma plain_commit:
  assumes co: "coherent_session kc p kn rows" and g: "map_of (kn_graphs kn) (wp_session_id p) = Some g"
    and names: "named_tasks p" and env: "fresh_env kc p env rows" and ap: "apply_committed g trs = (h, None)"
    and trs: "\<forall>tr \<in> set trs. plain_move tr \<and> (c, u) \<in> allowed_envelopes p (tt_previous tr) None"
    and may: "permitted kc p h kn"
    and run: "commit_planned kc env (wp_session_id p) trs c u g rows = (out, g', rows')"
  shows "coherent_session kc p (set_graph (wp_session_id p) g' kn) rows'"
proof -
  let ?rs = "session_requests (wp_session_id p) kn"
  obtain rc where rc: "sound_session p g kn" "replays_to kc p rows rc" "rebuilt p g ?rs rc"
    "map_of (kn_plans kn) (wp_session_id p) = Some p" "permitted kc p g kn"
    using co g by (auto simp: coherent_session_def)
  have inv: "log_inv rows" using rc(2) by (simp add: replays_to_def)
  note sound = sound_steps [OF rc(1) ap] 
  consider "g' = g" "calm (kc_events kc) (plan_stream p) rows rows'" | ss where "g' = h"
      "committed (kc_events kc) (plan_stream p) (transition_events (wp_session_id p) c u (ce_fresh env) 0 trs) rows ss rows'"
    using commit_planned_cases [OF inv env ap run] calm_refl by blast
  then show ?thesis
  proof cases
    case 1
    then show ?thesis using rc replays_calm [OF rc(2) 1(2)] by (auto simp: coherent_session_def)
  next
    case (2 ss)
    let ?es = "transition_events (wp_session_id p) c u (ce_fresh env) 0 trs"
    have fits: "payload_fits (transition_event (wp_session_id p) tr c u f)" if "tr \<in> set trs" for tr f
    proof -
      obtain f' where "transition_event (wp_session_id p) tr c u f' \<in> set ?es"
        using transition_event_in [OF \<open>tr \<in> set trs\<close>] by blast
      from committed_fits [OF 2(2) this] show ?thesis
        by (simp add: payload_fits_def transition_event_def kernel_event_def)
    qed
    have ok: "\<forall>tr \<in> set trs. sound_transition tr \<and> (c, u) \<in> allowed_envelopes p (tt_previous tr) None
        \<and> tt_previous tr \<noteq> TS_WAITING_APPROVAL \<and> tt_current tr \<noteq> TS_WAITING_APPROVAL"
    proof
      fix tr assume tr: "tr \<in> set trs"
      have "sound_transition tr" using transition_fits [OF fits [OF tr]] sound trs names tr by blast
      then show "sound_transition tr \<and> (c, u) \<in> allowed_envelopes p (tt_previous tr) None
        \<and> tt_previous tr \<noteq> TS_WAITING_APPROVAL \<and> tt_current tr \<noteq> TS_WAITING_APPROVAL"
        using trs tr by (auto simp: plain_move_def)
    qed
    have ev: "map se_event ss = map stored_form ?es" using 2(2) by (auto simp: committed_def)
    obtain rc' where rc': "replay_session kc p ss rc = Inr rc'" "rebuilt p h ?rs rc'"
      using replay_transitions [OF rc(3) ap ev ok] by blast
    have "replays_to kc p rows' rc'"
      by (rule replays_commit [OF rc(2) 2(2) drawn_stream [OF transitions_drawn [OF env]] rc'(1)])
    then show ?thesis using rc' rc(4) sound trs 2(1) may by (auto simp: coherent_session_def)
  qed
qed

end
