(* ===== verification/Kernel_Steps.thy ===== *)
theory Kernel_Steps
  imports Kernel_Sessions
begin

text \<open>
  The operations of the kernel on a session: each keeps what the kernel holds and what its log
  replays to together, whether it succeeds or fails.
\<close>

section \<open>Refresh and settlement\<close>

lemma apply_planned_committed: "apply_planned g ps = Inr h \<Longrightarrow> apply_committed g ps = (h, None)"
proof (induction ps arbitrary: g)
  case (Cons p ps)
  then obtain g' where "transition g (tt_task_id p) (tt_current p) (tt_reason p) = Inr (p, g')" "apply_planned g' ps = Inr h"
    by (auto simp: res_simps split: if_splits)
  then show ?case using Cons.IH by (simp only: apply_committed_Cons) blast
qed simp

lemma refresh_moves:
  assumes "graph_inv g"
  shows "\<exists>ps h. preview_refresh g = Inr ps \<and> apply_planned g ps = Inr h
    \<and> (\<forall>tr \<in> set ps. tt_previous tr = TS_PENDING \<and> tt_current tr \<in> {TS_READY, TS_BLOCKED})"
proof -
  obtain ps where ps: "preview_refresh g = Inr ps" "fits g ps"
    using plan_refresh_total [OF assms _ order_refl] assms by (auto simp: preview_refresh_def graph_inv_def)
  from apply_planned_total [OF ps(2)] ps show ?thesis by (auto simp: fits_def)
qed

lemma session_coherentE:
  assumes "coherent_session kc p kn rows"
  obtains g rc where "map_of (kn_graphs kn) (wp_session_id p) = Some g" "sound_session p g kn" "graph_inv g"
    "replays_to kc p rows rc" "rebuilt p g (session_requests (wp_session_id p) kn) rc" "log_inv rows"
    "map_of (kn_plans kn) (wp_session_id p) = Some p" "sound_graph p g" "permitted kc p g kn"
  using assms by (auto simp: coherent_session_def sound_session_def sound_graph_def replays_to_def Let_def)

lemma refresh_coherent:
  assumes co: "coherent_session kc p kn rows" and names: "named_tasks p" and env: "fresh_env kc p env rows"
    and run: "commit_refresh kc env p kn rows = (out, kn', rows')"
  shows "coherent_session kc p kn' rows'"
proof -
  obtain g rc where g: "map_of (kn_graphs kn) (wp_session_id p) = Some g" "graph_inv g" "permitted kc p g kn"
    using co by (rule session_coherentE)
  obtain ps h where ps: "preview_refresh g = Inr ps" "apply_planned g ps = Inr h"
    "\<forall>tr \<in> set ps. tt_previous tr = TS_PENDING \<and> tt_current tr \<in> {TS_READY, TS_BLOCKED}"
    using refresh_moves [OF g(2)] by blast
  obtain o1 g' rows1 where c: "commit_planned kc env (wp_session_id p) ps (wp_correlation_id p) None g rows = (o1, g', rows1)"
    by (rule prod_cases3)
  have "permitted kc p h kn"
    by (rule permitted_steps [OF g(3) apply_planned_committed [OF ps(2)]]) (use ps(3) in auto)
  then have "coherent_session kc p (set_graph (wp_session_id p) g' kn) rows1"
    by (intro plain_commit [OF co g(1) names env apply_planned_committed [OF ps(2)] _ _ c])
      (use ps(3) in \<open>auto simp: plain_move_def allowed_envelopes_def\<close>)
  then show ?thesis using run by (simp add: commit_refresh_def g(1) ps(1) c)
qed

lemma same_graph_coherent:
  assumes "coherent_session kc p kn rows" "map_of (kn_graphs kn) (wp_session_id p) = Some g"
  shows "coherent_session kc p (set_graph (wp_session_id p) g kn) rows"
  using assms by (auto simp: coherent_session_def)

text \<open>A single transition of a task that is ready or running.\<close>

lemma transition_coherent:
  assumes co: "coherent_session kc p kn rows" and g: "map_of (kn_graphs kn) (wp_session_id p) = Some g"
    and names: "named_tasks p" and env: "fresh_env kc p env rows"
    and st: "map_of (tg_statuses g) t \<in> {Some TS_READY, Some TS_RUNNING}" "target \<noteq> TS_WAITING_APPROVAL"
    and may: "target \<in> {TS_RUNNING, TS_COMPLETED} \<Longrightarrow> \<forall>x \<in> set (wp_tasks p). tk_task_id x = t \<longrightarrow> may_run kc p kn x"
    and run: "commit_transition kc env (wp_session_id p) t target (plan_correlation p) reason g rows = (out, g', rows')"
  shows "coherent_session kc p (set_graph (wp_session_id p) g' kn) rows'"
proof (cases "preview_transition g t target reason")
  case (Inl e)
  then show ?thesis using run same_graph_coherent [OF co g] by (simp add: commit_transition_def)
next
  case (Inr tr)
  then have tr: "tt_task_id tr = t" "tt_current tr = target" "tt_reason tr = reason" "tt_previous tr \<in> {TS_READY, TS_RUNNING}"
    using st(1) by (auto simp: preview_transition_Inr)
  then obtain h where "transition g (tt_task_id tr) (tt_current tr) (tt_reason tr) = Inr (tr, h)"
    using Inr by (simp add: transition_Inr)
  then have ap: "apply_committed g [tr] = (h, None)" by simp
  have c: "commit_planned kc env (wp_session_id p) [tr] (plan_correlation p) None g rows = (out, g', rows')"
    using run Inr by (simp add: commit_transition_def)
  have "map_of (tg_statuses h) = (map_of (tg_statuses g))(t \<mapsto> target)"
    using transition_status(1) \<open>transition g _ _ _ = _\<close> tr(1,2) by metis
  from permitted_update [OF _ this] have "permitted kc p h kn"
    using may co g by (auto simp: coherent_session_def)
  then show ?thesis
    by (intro plain_commit [OF co g names env ap _ _ c]) (use tr st(2) in \<open>auto simp: plain_move_def allowed_envelopes_def\<close>)
qed

lemma settle_coherent:
  assumes co: "coherent_session kc p kn rows" and names: "named_tasks p" and env: "fresh_env kc p env rows"
    and st: "map_option (\<lambda>g. map_of (tg_statuses g) t) (map_of (kn_graphs kn) (wp_session_id p)) = Some (Some TS_RUNNING)"
      "target \<noteq> TS_WAITING_APPROVAL"
    and run: "settle_task kc env p t target reason kn rows = (out, kn', rows')"
  shows "coherent_session kc p kn' rows'"
proof -
  obtain g rc where g: "map_of (kn_graphs kn) (wp_session_id p) = Some g" "permitted kc p g kn" using co by (rule session_coherentE)
  obtain o1 g' rows1 where c: "commit_transition kc env (wp_session_id p) t target (plan_correlation p) reason g rows = (o1, g', rows1)"
    by (rule prod_cases3)
  have "coherent_session kc p (set_graph (wp_session_id p) g' kn) rows1"
    by (rule transition_coherent [OF co g(1) names env _ st(2) _ c]) (use st(1) g in \<open>auto simp: permitted_def\<close>)
  then show ?thesis using run by (simp add: settle_task_def g(1) c Let_def)
qed

section \<open>Dispatch\<close>

text \<open>Two transitions in one commit: the task is started and leaves the running state again.\<close>

lemma start_and_leave:
  assumes "map_of (tg_statuses g) t = Some TS_READY" "map_of (tg_revisions g) t = Some n" "moves_task TS_RUNNING target"
  shows "\<exists>g1 h. transition g t TS_RUNNING None = Inr (step_transition t TS_READY TS_RUNNING None (n + 1), g1)
    \<and> transition g1 t target reason = Inr (step_transition t TS_RUNNING target reason (n + 2), h)"
proof -
  obtain g1 where g1: "transition g t TS_RUNNING None = Inr (step_transition t TS_READY TS_RUNNING None (n + 1), g1)"
    using assms by (auto simp: transition_Inr preview_transition_Inr step_transition_def moves_task_def)
  note st = transition_status [OF g1]
  have "target \<noteq> TS_RUNNING" using assms(3) by (auto simp: moves_task_def)
  then have "\<exists>h. transition g1 t target reason = Inr (step_transition t TS_RUNNING target reason (n + 2), h)"
    using st assms(3) by (auto simp: transition_Inr preview_transition_Inr step_transition_def)
  with g1 show ?thesis by blast
qed

lemma apply_two:
  assumes "transition g t a x = Inr (step_transition t b a x m, g1)" "transition g1 t c y = Inr (step_transition t a c y n, h)"
  shows "apply_committed g [step_transition t b a x m, step_transition t a c y n] = (h, None)"
  using assms by (simp add: step_transition_def)

lemma deny_coherent:
  assumes co: "coherent_session kc p kn rows" and g: "map_of (kn_graphs kn) (wp_session_id p) = Some g"
    and names: "named_tasks p" and env: "fresh_env kc p env rows" and st: "map_of (tg_statuses g) (tk_task_id t) = Some TS_READY"
    and run: "deny_task kc env p t reason g rows = (out, g', rows')"
  shows "coherent_session kc p (set_graph (wp_session_id p) g' kn) rows'"
proof -
  obtain n where n: "map_of (tg_revisions g) (tk_task_id t) = Some n"
    using co by (rule session_coherentE) (metis g option.inject revision_total st status_known)
  obtain g1 h where two: "transition g (tk_task_id t) TS_RUNNING None = Inr (step_transition (tk_task_id t) TS_READY TS_RUNNING None (n + 1), g1)"
    "transition g1 (tk_task_id t) TS_FAILED (Some reason)
      = Inr (step_transition (tk_task_id t) TS_RUNNING TS_FAILED (Some reason) (n + 2), h)"
    using start_and_leave [OF st n, of TS_FAILED "Some reason"] by (auto simp: moves_task_def)
  have pv: "preview_transition g (tk_task_id t) TS_RUNNING None = Inr (step_transition (tk_task_id t) TS_READY TS_RUNNING None (n + 1))"
    using two(1) by (simp add: transition_Inr)
  have c: "commit_planned kc env (wp_session_id p) [step_transition (tk_task_id t) TS_READY TS_RUNNING None (n + 1),
      step_transition (tk_task_id t) TS_RUNNING TS_FAILED (Some reason) (n + 2)] (plan_correlation p) None g rows = (out, g', rows')"
    using run by (simp add: deny_task_def pv) (simp add: step_transition_def add.commute)
  have "map_of (tg_statuses h) = (map_of (tg_statuses g))(tk_task_id t \<mapsto> TS_FAILED)"
    using transition_status(1) [OF two(1)] transition_status(1) [OF two(2)] by simp
  from permitted_update [OF _ this] have "permitted kc p h kn" using co g by (auto simp: coherent_session_def)
  then show ?thesis
    by (intro plain_commit [OF co g names env apply_two [OF two] _ _ c])
      (auto simp: plain_move_def allowed_envelopes_def step_transition_def)
qed

section \<open>Approval requests\<close>

text \<open>The id of a new request is unused, its time is canonical and not after the events of the commit.\<close>

definition dated :: "kernel_config \<Rightarrow> string \<Rightarrow> commit_env \<Rightarrow> bool" where
  "dated kc created env = (utc_shape created \<and> (\<exists>a. kc_instant kc created = Some (Some a)
     \<and> (\<forall>i. \<exists>b. kc_instant kc (fe_timestamp (ce_fresh env i)) = Some (Some b) \<and> a \<le> b)))"

lemma dated_check: "dated kc created env \<Longrightarrow> check_created_at kc created (fe_timestamp (ce_fresh env i)) = Inr ()"
proof -
  assume d: "dated kc created env"
  then obtain a where a: "utc_shape created" "kc_instant kc created = Some (Some a)"
    "\<forall>i. \<exists>b. kc_instant kc (fe_timestamp (ce_fresh env i)) = Some (Some b) \<and> a \<le> b" by (auto simp: dated_def)
  from a(3) obtain b where "kc_instant kc (fe_timestamp (ce_fresh env i)) = Some (Some b)" "a \<le> b" by blast
  with a(1,2) show ?thesis by (simp add: check_created_at_def)
qed

definition new_request :: "kernel_config \<Rightarrow> kernel \<Rightarrow> string \<times> string \<Rightarrow> commit_env \<Rightarrow> bool" where
  "new_request kc kn ids env = (fst ids \<noteq> [] \<and> fst ids \<notin> set (dict_keys (kn_inbox kn)) \<and> snd ids \<noteq> [] \<and> dated kc (snd ids) env)"

lemma approval_needed:
  assumes "pd_outcome (task_decision kc p t kn) = PO_NEEDS_APPROVAL"
  shows "pd_reason (task_decision kc p t kn) \<noteq> []" "(wp_session_id p, tk_task_id t) \<notin> kn_approved kn"
  using assms by (auto simp: task_decision_def evaluate_def Let_def split: if_splits)

lemma ready_without_request:
  assumes "sound_session p g kn" "map_of (tg_statuses g) t = Some TS_READY" "(wp_session_id p, t) \<notin> kn_approved kn"
  shows "t \<notin> rq_task_id ` set (session_requests (wp_session_id p) kn)"
proof
  assume "t \<in> rq_task_id ` set (session_requests (wp_session_id p) kn)"
  then obtain r where r: "r \<in> set (session_requests (wp_session_id p) kn)" "rq_task_id r = t" by blast
  then have "request_status p g kn r" using assms(1) by (simp add: sound_session_def Let_def)
  then show False using assms(2,3) r(2)
    by (auto simp: request_status_def Let_def split: option.splits approval_decision.splits)
qed

lemma plan_task:
  assumes "sound_graph p g" "t \<in> set (wp_tasks p)"
  shows "map_of (tg_tasks g) (tk_task_id t) = Some t"
proof -
  have "tg_tasks g = tasks_of (wp_tasks p)" "distinct (dict_keys (tg_tasks g))"
    using assms(1) unfolding sound_graph_def graph_inv_def by blast+
  then show ?thesis using assms(2) by (auto simp: tasks_of_def intro!: map_of_is_SomeI)
qed

lemma request_dict_fits:
  assumes "payload_fits (request_event p r f)"
  shows "list_all (\<lambda>s. length s \<le> 65536) [rq_request_id r, rq_session_id r, rq_task_id r, rq_reason r, rq_created_at r]"
proof -
  have "json_fits 0 (JObj (approval_dict r))"
    using assms by (simp add: payload_fits_def request_event_def kernel_event_def approval_to_dict)
  then show ?thesis by (auto simp: approval_dict_def)
qed

lemma keyed_inboxE:
  assumes "keyed_inbox kn"
  obtains vs where "kn_inbox kn = inbox_of vs" "distinct (map rq_request_id vs)"
    "\<And>s. session_requests s kn = filter (\<lambda>r. rq_session_id r = s) vs"
  using assms by (auto simp: keyed_inbox_def session_requests_def)

text \<open>A graph step on a task without a request leaves what is said of the requests.\<close>

lemma status_elsewhere:
  assumes "map_of (tg_statuses g') = (map_of (tg_statuses g))(t \<mapsto> st)" "rq_task_id r \<noteq> t"
  shows "request_status p g' kn r = request_status p g kn r"
  using assms by (simp add: request_status_def)

lemma inbox_create_new:
  assumes "keyed_inbox kn" "rq_request_id r \<notin> set (dict_keys (kn_inbox kn))"
    "\<not> list_ex (\<lambda>x. rq_task_id x = rq_task_id r) (inbox_pending (kn_inbox kn) (Some (rq_session_id r)))"
  shows "inbox_create (kn_inbox kn) r = (r, inbox_of (dict_values (kn_inbox kn) @ [r]))"
proof -
  obtain vs where vs: "kn_inbox kn = inbox_of vs" using assms(1) by (rule keyed_inboxE)
  have "filter (\<lambda>x. same_task x r \<and> rq_pending x) vs = []"
    using assms(3) by (auto simp: filter_empty_conv vs inbox_pending_def list_ex_iff same_task_def)
  then show ?thesis using assms(2) by (simp add: inbox_create_def vs inbox_of_append)
qed

lemma request_status_kernel:
  "kn_approved kn' = kn_approved kn \<Longrightarrow> request_status p g kn' r = request_status p g kn r"
  unfolding request_status_def by (simp only:)

lemma inbox_set [simp]:
  "kn_plans (kn\<lparr>kn_inbox := q\<rparr>) = kn_plans kn" "kn_graphs (kn\<lparr>kn_inbox := q\<rparr>) = kn_graphs kn"
  "session_requests s (kn\<lparr>kn_inbox := inbox_of vs\<rparr>) = filter (\<lambda>r. rq_session_id r = s) vs"
  by (simp_all add: session_requests_def)

text \<open>The committed request: the log replays to the waiting task and its request, and so does the memory.\<close>

lemma request_committed:
  fixes s w r
  assumes sound: "sound_session p g kn" "permitted kc p g kn" and rep: "replays_to kc p rows rc" "rebuilt p g (session_requests (wp_session_id p) kn) rc"
    and plan: "map_of (kn_plans kn) (wp_session_id p) = Some p" and names: "named_tasks p" "wp_session_id p \<noteq> []"
    and env: "fresh_env kc p env rows" and t: "t \<in> set (wp_tasks p)" and st: "map_of (tg_statuses g) (tk_task_id t) = Some TS_READY"
    and need: "reason \<noteq> []" "(wp_session_id p, tk_task_id t) \<notin> kn_approved kn"
    and n: "map_of (tg_revisions g) (tk_task_id t) = Some n"
    and two: "transition g (tk_task_id t) TS_RUNNING None = Inr (s, g1)"
      "transition g1 (tk_task_id t) TS_WAITING_APPROVAL (Some reason) = Inr (w, h)"
    and s: "s = step_transition (tk_task_id t) TS_READY TS_RUNNING None (n + 1)"
    and w: "w = step_transition (tk_task_id t) TS_RUNNING TS_WAITING_APPROVAL (Some reason) (n + 2)"
    and r: "r = \<lparr>rq_session_id = wp_session_id p, rq_task_id = tk_task_id t, rq_intent = tk_action t, rq_reason = reason,
      rq_request_id = fst ids, rq_created_at = snd ids, rq_decision = None, rq_decided_by = None, rq_comment = None\<rparr>"
    and ids: "new_request kc kn ids env"
    and com: "committed (kc_events kc) (plan_stream p) (transition_events (wp_session_id p) (plan_correlation p) None
      (ce_fresh env) 0 [s, w] @ [request_event p r (ce_fresh env 2)]) rows ss rows'"
  shows "coherent_session kc p ((set_graph (wp_session_id p) h kn)\<lparr>kn_inbox := inbox_of (dict_values (kn_inbox kn) @ [r])\<rparr>) rows'"
proof -
  let ?c = "plan_correlation p" and ?s = "wp_session_id p" and ?rs = "session_requests (wp_session_id p) kn"
  define es where "es = transition_events ?s ?c None (ce_fresh env) 0 [s, w] @ [request_event p r (ce_fresh env 2)]"
  note com = com [folded es_def]
  have inv: "log_inv rows" using rep(1) by (simp add: replays_to_def)
  have sg: "sound_graph p g" using sound(1) by (simp add: sound_session_def Let_def)
  have fields: "tt_task_id s = tk_task_id t" "tt_current s = TS_RUNNING" "tt_reason s = None" "tt_previous s = TS_READY"
    "tt_task_id w = tk_task_id t" "tt_current w = TS_WAITING_APPROVAL" "tt_reason w = Some reason" "tt_previous w = TS_RUNNING"
    by (simp_all add: s w step_transition_def)
  have step_s: "transition g (tt_task_id s) (tt_current s) (tt_reason s) = Inr (s, g1)" using two(1) by (simp add: fields)
  have step_w: "transition g1 (tt_task_id w) (tt_current w) (tt_reason w) = Inr (w, h)" using two(2) by (simp add: fields)
  note sg1 = sound_graph_step [OF sg step_s] and st1 = transition_status [OF step_s]
  note sg2 = sound_graph_step [OF sg1(1) step_w] and st2 = transition_status [OF step_w]
  have es: "es = [transition_event ?s s ?c None (ce_fresh env 0), transition_event ?s w ?c None (ce_fresh env 1),
      request_event p r (ce_fresh env 2)]" by (simp add: es_def)
  have drawn_es: "\<forall>e \<in> set es. drawn (kc_events kc) (plan_stream p) env rows e"
    using transition_drawn [OF env] drawn_event [OF env] by (simp add: es request_event_def)
  note ev = committed_events [OF com]
  obtain x1 x2 x3 where ss: "ss = [x1, x2, x3]" "se_event x1 = stored_form (transition_event ?s s ?c None (ce_fresh env 0))"
    "se_event x2 = stored_form (transition_event ?s w ?c None (ce_fresh env 1))" "se_event x3 = stored_form (request_event p r (ce_fresh env 2))"
    using ev by (auto simp: es map_eq_Cons_conv)
  have seq: "se_sequence x3 = se_sequence x2 + 1"
    using committed_sequence [OF com inv drawn_stream [OF drawn_es], of 1] by (simp add: ss(1))
  have fits: "payload_fits e" if "e \<in> set es" for e using committed_fits [OF com that] .
  have ok: "sound_transition s" "sound_transition w"
    using transition_fits [OF fits, of ?s s ?c None "ce_fresh env 0"] transition_fits [OF fits, of ?s w ?c None "ce_fresh env 1"]
      sg1(2,3) sg2(2,3) names(1) by (simp_all add: es)
  have "payload_fits (request_event p r (ce_fresh env 2))" by (rule fits) (simp add: es)
  from request_dict_fits [OF this] have sound_r: "sound_request r"
    using names(2) need(1) ids sg1(3) names(1) fields(1) by (simp add: sound_request_def r new_request_def)
  have fits_r: "request_fits p g r" "request_fits p g1 r" "request_fits p h r"
    using plan_task [OF sg t] by (simp_all add: request_fits_def r st1(2) st2(2))
  have new: "rq_task_id r \<notin> rq_task_id ` set ?rs"
    using ready_without_request [OF sound(1) st need(2)] by (simp add: r)
  have keyed: "keyed_inbox kn" using sound(1) by (simp add: sound_session_def Let_def)
  obtain vs where vs: "kn_inbox kn = inbox_of vs" "distinct (map rq_request_id vs)" "?rs = filter (\<lambda>r. rq_session_id r = ?s) vs"
    using keyed_inboxE [OF keyed] by metis
  have new_id: "rq_request_id r \<notin> rq_request_id ` set vs" using ids by (simp add: new_request_def vs(1) r)
  obtain rc1 where rc1: "recover_event kc p x1 rc = Inr rc1" "rebuilt p g1 ?rs rc1"
    using recover_plain [OF rep(2) step_s ss(2) ok(1)] by (auto simp: fields allowed_envelopes_def)
  have sides: "(?c, None) \<in> allowed_envelopes p (tt_previous w) None" "tt_previous w \<noteq> TS_WAITING_APPROVAL"
    "tt_reason w = Some (rq_reason r)" "rq_task_id r = tt_task_id w" "rq_decision r = None"
    by (simp_all add: fields r allowed_envelopes_def)
  have "rq_request_id r \<notin> rq_request_id ` set ?rs" using new_id vs(3) by auto
  moreover have "check_created_at kc (rq_created_at r) (fe_timestamp (ce_fresh env 2)) = Inr ()"
    using ids by (simp add: r new_request_def dated_check)
  ultimately obtain rc2 where rc2: "replay_session kc p [x2, x3] rc1 = Inr rc2" "rebuilt p h (?rs @ [r]) rc2"
    using recover_wait [OF rc1(2) step_w ss(3) ok(2) sides(1,2) fields(6) sides(3) ss(4) seq sides(4) fits_r(2) sound_r
      sides(5) new] by blast
  have "replay_session kc p ss rc = Inr rc2" using rc1(1) rc2(1) by (simp add: ss(1))
  then have log: "replays_to kc p rows' rc2" by (rule replays_commit [OF rep(1) com drawn_stream [OF drawn_es]])
  let ?kn = "(set_graph ?s h kn)\<lparr>kn_inbox := inbox_of (vs @ [r])\<rparr>"
  have rs': "session_requests ?s ?kn = ?rs @ [r]" by (simp add: vs(3) r)
  have others: "request_status p h ?kn x" if x: "x \<in> set ?rs" for x
  proof -
    have "rq_task_id x \<noteq> tk_task_id t" using new x by (force simp: r)
    moreover have "request_status p g kn x" using sound(1) x by (simp add: sound_session_def Let_def)
    moreover have "request_status p h ?kn x = request_status p h kn x" by (rule request_status_kernel) simp
    ultimately show ?thesis
      using status_elsewhere [OF st1(1), of x p kn] status_elsewhere [OF st2(1), of x p kn] by (simp add: fields)
  qed
  have "request_status p h ?kn r" using st2(1) by (simp add: request_status_def r fields)
  moreover have "keyed_inbox ?kn" using vs(2) new_id by (simp add: keyed_inbox_def)
  moreover have "request_fits p h x" if "request_fits p g x" for x using that by (simp add: request_fits_def st1(2) st2(2))
  ultimately have "sound_session p h ?kn"
    using sound(1) others new sound_r fits_r(3) sg2(1) unfolding sound_session_def Let_def rs' by auto
  moreover have "map_of (tg_statuses h) = (map_of (tg_statuses g))(tk_task_id t \<mapsto> TS_WAITING_APPROVAL)"
    using st1(1) st2(1) by (simp add: fields)
  from permitted_update [OF sound(2) this] have "permitted kc p h ?kn" by simp
  ultimately show ?thesis using log rc2(2) plan rs' by (auto simp: coherent_session_def vs(1))
qed

lemma request_coherent:
  assumes co: "coherent_session kc p kn rows" and g: "map_of (kn_graphs kn) (wp_session_id p) = Some g"
    and names: "named_tasks p" "wp_session_id p \<noteq> []" and env: "fresh_env kc p env rows" and t: "t \<in> set (wp_tasks p)"
    and st: "map_of (tg_statuses g) (tk_task_id t) = Some TS_READY"
    and need: "reason \<noteq> []" "(wp_session_id p, tk_task_id t) \<notin> kn_approved kn" and ids: "new_request kc kn ids env"
    and run: "request_approval kc env p t reason ids g kn rows = (out, kn', rows')"
  shows "coherent_session kc p kn' rows'"
proof -
  let ?s = "wp_session_id p" and ?t = "tk_task_id t" and ?rs = "session_requests (wp_session_id p) kn"
  obtain rc where rc: "sound_session p g kn" "replays_to kc p rows rc" "rebuilt p g ?rs rc"
    "map_of (kn_plans kn) ?s = Some p" "log_inv rows" "sound_graph p g" "graph_inv g" "permitted kc p g kn"
    using co g by (auto elim: session_coherentE)
  obtain n where n: "map_of (tg_revisions g) ?t = Some n" using revision_total [OF rc(7) status_known [OF rc(7) st]] by blast
  define r where "r = \<lparr>rq_session_id = ?s, rq_task_id = ?t, rq_intent = tk_action t, rq_reason = reason,
    rq_request_id = fst ids, rq_created_at = snd ids, rq_decision = None, rq_decided_by = None, rq_comment = None\<rparr>"
  define w where "w = step_transition ?t TS_RUNNING TS_WAITING_APPROVAL (Some reason) (n + 2)"
  define s where "s = step_transition ?t TS_READY TS_RUNNING None (n + 1)"
  obtain g1 h where two: "transition g ?t TS_RUNNING None = Inr (s, g1)" "transition g1 ?t TS_WAITING_APPROVAL (Some reason) = Inr (w, h)"
    using start_and_leave [OF st n, of TS_WAITING_APPROVAL "Some reason"] by (auto simp: moves_task_def s_def w_def)
  have ap: "apply_committed g [s, w] = (h, None)" using two unfolding s_def w_def by (rule apply_two)
  define es where "es = transition_events ?s (plan_correlation p) None (ce_fresh env) 0 [s, w] @ [request_event p r (ce_fresh env 2)]"
  have drawn_es: "\<forall>e \<in> set es. drawn (kc_events kc) (plan_stream p) env rows e"
    using transition_drawn [OF env] drawn_event [OF env] by (simp add: es_def request_event_def)
  show ?thesis
  proof (cases "list_ex (\<lambda>x. rq_task_id x = ?t) (inbox_pending (kn_inbox kn) (Some ?s))")
    case True
    then show ?thesis using run co by (simp add: request_approval_def Let_def)
  next
    case none: False
    obtain o1 rows1 where c: "commit_events kc env (plan_stream p) es rows = (o1, rows1)" by fastforce
    have created: "inbox_create (kn_inbox kn) r = (r, inbox_of (dict_values (kn_inbox kn) @ [r]))"
      using rc(1) ids none by (intro inbox_create_new) (simp_all add: sound_session_def new_request_def r_def Let_def)
    have run': "request_approval kc env p t reason ids g kn rows = (case o1 of Inl e \<Rightarrow> (Inl e, kn, rows1)
      | Inr ss \<Rightarrow> (let (created, q) = inbox_create (kn_inbox kn) r; kn1 = (set_graph ?s h kn)\<lparr>kn_inbox := q\<rparr> in
          if approval_to_dict created \<noteq> approval_to_dict r
            then (Inl (KeRuntime ''persisted approval request differs from memory''), kn1, rows1) else (Inr (), kn1, rows1)))"
      using none n c ap unfolding request_approval_def Let_def es_def plan_stream_def s_def w_def r_def
      by (simp del: apply_committed.simps transition_events.simps split: sum.splits prod.splits)
    have "(\<exists>e. o1 = Inl e) \<and> calm (kc_events kc) (plan_stream p) rows rows1
      \<or> (\<exists>ss. o1 = Inr ss \<and> committed (kc_events kc) (plan_stream p) es rows ss rows1)"
      using env by (intro commit_events_cases [OF rc(5) _ stream_not_blank _ drawn_es c]) (auto simp: fresh_env_def es_def)
    then consider e where "o1 = Inl e" "calm (kc_events kc) (plan_stream p) rows rows1"
      | ss where "o1 = Inr ss" "committed (kc_events kc) (plan_stream p) es rows ss rows1" by blast
    then show ?thesis
    proof cases
      case 1
      then have "kn' = kn \<and> rows' = rows1" using run run' by simp
      then show ?thesis using co replays_calm [OF _ 1(2)] by (auto simp: coherent_session_def)
    next
      case (2 ss)
      have "kn' = (set_graph ?s h kn)\<lparr>kn_inbox := inbox_of (dict_values (kn_inbox kn) @ [r])\<rparr> \<and> rows' = rows1"
        using run run' 2(1) created by simp
      then show ?thesis using request_committed [OF rc(1,8,2-4) names env t st need n two [unfolded s_def w_def]] ids 2(2)
        by (simp add: es_def s_def w_def r_def)
    qed
  qed
qed

lemma dispatch_coherent:
  assumes co: "coherent_session kc p kn rows" and names: "named_tasks p" "wp_session_id p \<noteq> []"
    and env: "fresh_env kc p env rows" and t: "t \<in> set (wp_tasks p)"
    and st: "map_option (\<lambda>g. map_of (tg_statuses g) (tk_task_id t)) (map_of (kn_graphs kn) (wp_session_id p)) = Some (Some TS_READY)"
    and ids: "new_request kc kn ids env"
    and run: "dispatch_task kc env ids p t kn rows = (out, kn', rows')"
  shows "coherent_session kc p kn' rows'"
proof -
  let ?d = "task_decision kc p t kn"
  obtain g rc where g: "map_of (kn_graphs kn) (wp_session_id p) = Some g" using co by (rule session_coherentE)
  have ready: "map_of (tg_statuses g) (tk_task_id t) = Some TS_READY" using st g by simp
  show ?thesis
  proof (cases "pd_outcome ?d")
    case PO_ALLOW
    obtain g1 rc1 where "map_of (kn_graphs kn) (wp_session_id p) = Some g1" "sound_graph p g1" using co by (rule session_coherentE)
    then have "x = t" if "x \<in> set (wp_tasks p)" "tk_task_id x = tk_task_id t" for x using plan_task t that by (metis option.inject)
    then have may: "\<forall>x \<in> set (wp_tasks p). tk_task_id x = tk_task_id t \<longrightarrow> may_run kc p kn x"
      using PO_ALLOW by (auto simp: may_run_def task_decision_def Let_def split: if_splits)
    obtain o1 g' rows1 where c: "commit_transition kc env (wp_session_id p) (tk_task_id t) TS_RUNNING (plan_correlation p) None g rows
        = (o1, g', rows1)" by (rule prod_cases3)
    have "coherent_session kc p (set_graph (wp_session_id p) g' kn) rows1"
      by (rule transition_coherent [OF co g names(1) env _ _ _ c]) (use ready may in auto)
    then show ?thesis using run by (simp add: dispatch_task_def g c PO_ALLOW Let_def)
  next
    case PO_NEEDS_APPROVAL
    obtain o1 kn1 rows1 where c: "request_approval kc env p t (pd_reason ?d) ids g kn rows = (o1, kn1, rows1)"
      by (rule prod_cases3)
    have "coherent_session kc p kn1 rows1"
      by (rule request_coherent [OF co g names env t ready approval_needed [OF PO_NEEDS_APPROVAL] ids c])
    then show ?thesis using run by (simp add: dispatch_task_def g c PO_NEEDS_APPROVAL Let_def)
  next
    case PO_DENY
    obtain o1 g' rows1 where c: "deny_task kc env p t (pd_reason ?d) g rows = (o1, g', rows1)"
      by (rule prod_cases3)
    have "coherent_session kc p (set_graph (wp_session_id p) g' kn) rows1"
      by (rule deny_coherent [OF co g names(1) env ready c])
    then show ?thesis using run by (simp add: dispatch_task_def g c PO_DENY Let_def)
  qed
qed

section \<open>Decisions\<close>

definition decided_by :: "approval_request \<Rightarrow> approval_decision \<Rightarrow> string \<Rightarrow> string option \<Rightarrow> approval_request" where
  "decided_by r d actor comment = r\<lparr>rq_decision := Some d, rq_decided_by := Some actor, rq_comment := comment\<rparr>"

definition approve :: "string \<Rightarrow> approval_request \<Rightarrow> approval_decision \<Rightarrow> (string \<times> string) set \<Rightarrow> (string \<times> string) set" where
  "approve session r d A = (if d = AD_APPROVE then insert (session, rq_task_id r) A else A - {(session, rq_task_id r)})"

lemma decided_fields [simp]:
  "rq_session_id (decided_by r d a c) = rq_session_id r" "rq_task_id (decided_by r d a c) = rq_task_id r"
  "rq_request_id (decided_by r d a c) = rq_request_id r" "rq_decision (decided_by r d a c) = Some d"
  "rq_decided_by (decided_by r d a c) = Some a" "rq_comment (decided_by r d a c) = c"
  "rq_created_at (decided_by r d a c) = rq_created_at r" "rq_reason (decided_by r d a c) = rq_reason r"
  "rq_intent (decided_by r d a c) = rq_intent r" "same_approval r (decided_by r d a c)"
  "request_fits p g (decided_by r d a c) = request_fits p g r"
  by (simp_all add: decided_by_def same_approval_def request_fits_def)

lemma replace_session:
  assumes "distinct (map rq_request_id vs)" "r0 \<in> set vs" "rq_request_id r0 = rq_request_id r" "rq_session_id r0 = rq_session_id r"
  shows "filter (\<lambda>x. rq_session_id x = s) (replace_request r vs) = replace_request r (filter (\<lambda>x. rq_session_id x = s) vs)"
proof -
  have "rq_session_id (if rq_request_id x = rq_request_id r then r else x) = rq_session_id x" if "x \<in> set vs" for x
    using key_inj [OF assms(1) that assms(2)] assms(3,4) by auto
  then show ?thesis by (simp add: replace_request_def filter_map comp_def cong: filter_cong)
qed

lemma in_replace_request: "x \<in> set (replace_request r rs) \<Longrightarrow> x = r \<or> (x \<in> set rs \<and> rq_request_id x \<noteq> rq_request_id r)"
  by (auto simp: replace_request_def)

lemma kept_in_replace: "x \<in> set rs \<Longrightarrow> rq_request_id x \<noteq> rq_request_id r \<Longrightarrow> x \<in> set (replace_request r rs)"
  by (force simp: replace_request_def)

text \<open>The memory after a decision.\<close>

lemma sound_decided:
  assumes sound: "sound_session p g kn" and r: "r \<in> set (session_requests (wp_session_id p) kn)" "rq_pending r"
    and h: "sound_graph p h" "map_of (tg_statuses h) = (map_of (tg_statuses g))(rq_task_id r \<mapsto> approval_target d)"
    and fine: "actor \<noteq> []" "length actor \<le> 65536" "pred_option (\<lambda>c. length c \<le> 65536) comment"
    and kn': "kn_inbox kn' = inbox_of (replace_request (decided_by r d actor comment) (dict_values (kn_inbox kn)))"
      "kn_approved kn' = approve (wp_session_id p) r d (kn_approved kn)"
  shows "session_requests (wp_session_id p) kn' = replace_request (decided_by r d actor comment) (session_requests (wp_session_id p) kn)"
    "sound_session p h kn'"
proof -
  let ?s = "wp_session_id p" and ?r = "decided_by r d actor comment"
  let ?rs = "session_requests ?s kn"
  have keyed: "keyed_inbox kn" using sound by (simp add: sound_session_def Let_def)
  obtain vs where vs: "kn_inbox kn = inbox_of vs" "distinct (map rq_request_id vs)" "?rs = filter (\<lambda>r. rq_session_id r = ?s) vs"
    using keyed_inboxE [OF keyed] by metis
  have rv: "r \<in> set vs" "rq_session_id r = ?s" using r(1) vs(3) by auto
  have drs: "distinct (map rq_request_id ?rs)" using vs(2,3) distinct_map_filter by metis
  have dts: "distinct (map rq_task_id ?rs)" and all: "\<forall>x \<in> set ?rs. request_fits p g x \<and> sound_request x \<and> request_status p g kn x"
    and app: "\<And>t. (?s, t) \<in> kn_approved kn \<Longrightarrow> \<exists>x \<in> set ?rs. rq_task_id x = t \<and> rq_decision x = Some AD_APPROVE"
    using sound by (simp_all add: sound_session_def Let_def)
  show rs': "session_requests ?s kn' = replace_request ?r ?rs"
    using replace_session [OF vs(2) rv(1), of ?r ?s] by (simp add: session_requests_def kn'(1) vs(1,3) rv(2) vs(3) [unfolded session_requests_def])
  have keys: "map rq_request_id (replace_request ?r vs) = map rq_request_id vs"
    "map rq_task_id (replace_request ?r ?rs) = map rq_task_id ?rs"
    using replace_request_keys [OF vs(2) rv(1), of ?r] replace_request_keys(2) [OF drs r(1), of ?r] by simp_all
  have tasks: "tg_tasks h = tg_tasks g" using h(1) sound by (simp add: sound_graph_def sound_session_def Let_def)
  have "keyed_inbox kn'" using vs(2) keys(1) by (simp add: keyed_inbox_def kn'(1) vs(1))
  moreover have "request_fits p h x \<and> sound_request x \<and> request_status p h kn' x" if x: "x \<in> set (replace_request ?r ?rs)" for x
  proof -
    consider "x = ?r" | "x \<in> set ?rs" "rq_request_id x \<noteq> rq_request_id r" using in_replace_request [OF x] by auto
    then show ?thesis
    proof cases
      case 1
      have "sound_request r" "request_fits p g r" using all r(1) by blast+
      then have "sound_request ?r" "request_fits p h ?r"
        using fine by (simp_all add: sound_request_def request_fits_def tasks)
      moreover have "request_status p h kn' ?r"
        using h(2) by (cases d) (simp_all add: request_status_def kn'(2) approve_def approval_target_def)
      ultimately show ?thesis using 1 by simp
    next
      case 2
      then have other: "rq_task_id x \<noteq> rq_task_id r" using key_inj [OF dts 2(1) r(1)] by auto
      then have "request_status p h kn' x = request_status p g kn x"
        by (auto simp: request_status_def kn'(2) approve_def h(2) Let_def split: option.splits approval_decision.splits)
      then show ?thesis using all 2(1) by (simp add: request_fits_def tasks)
    qed
  qed
  moreover have "\<exists>x \<in> set (replace_request ?r ?rs). rq_task_id x = t \<and> rq_decision x = Some AD_APPROVE"
    if t: "(?s, t) \<in> kn_approved kn'" for t
  proof (cases "t = rq_task_id r")
    case True
    then have "d = AD_APPROVE" using t by (auto simp: kn'(2) approve_def split: if_splits)
    moreover have "?r \<in> set (replace_request ?r ?rs)" using r(1) by (force simp: replace_request_def)
    ultimately show ?thesis using True by (intro bexI [of _ ?r]) simp_all
  next
    case False
    then have "(?s, t) \<in> kn_approved kn" using t by (auto simp: kn'(2) approve_def split: if_splits)
    then obtain x where x: "x \<in> set ?rs" "rq_task_id x = t" "rq_decision x = Some AD_APPROVE" using app by blast
    then have "rq_request_id x \<noteq> rq_request_id r" using key_inj [OF drs x(1) r(1)] False by auto
    then show ?thesis using x kept_in_replace [OF x(1), of ?r] by auto
  qed
  ultimately show "sound_session p h kn'"
    using h(1) dts keys(2) unfolding sound_session_def Let_def rs' by simp
qed

lemma decide_committed:
  assumes sound: "sound_session p g kn" "permitted kc p g kn" and rep: "replays_to kc p rows rc" "rebuilt p g (session_requests (wp_session_id p) kn) rc"
    and plan: "map_of (kn_plans kn) (wp_session_id p) = Some p" and names: "named_tasks p"
    and env: "fresh_env kc p env rows"
    and r: "r \<in> set (session_requests (wp_session_id p) kn)" "rq_pending r"
    and fine: "actor \<noteq> []" "length actor \<le> 65536" "pred_option (\<lambda>c. length c \<le> 65536) comment"
    and time: "dated kc (rq_created_at r) env"
    and tr: "tr = step_transition (rq_task_id r) TS_WAITING_APPROVAL (approval_target d) comment n"
    and step: "transition g (rq_task_id r) (approval_target d) comment = Inr (tr, h)"
    and com: "committed (kc_events kc) (plan_stream p) (decision_event p (decided_by r d actor comment) actor (ce_fresh env 0)
      # transition_events (wp_session_id p) (plan_correlation p) (Some (rq_request_id r)) (ce_fresh env) 1 [tr]) rows ss rows'"
    and kn': "kn_plans kn' = kn_plans kn" "kn_graphs kn' = dict_set (wp_session_id p) h (kn_graphs kn)"
      "kn_inbox kn' = inbox_of (replace_request (decided_by r d actor comment) (dict_values (kn_inbox kn)))"
      "kn_approved kn' = approve (wp_session_id p) r d (kn_approved kn)"
  shows "coherent_session kc p kn' rows'"
proof -
  let ?s = "wp_session_id p" and ?c = "plan_correlation p" and ?r = "decided_by r d actor comment"
  let ?rs = "session_requests ?s kn" and ?e = "decision_event p (decided_by r d actor comment) actor (ce_fresh env 0)"
  define es where "es = [?e, transition_event ?s tr ?c (Some (rq_request_id r)) (ce_fresh env 1)]"
  have com: "committed (kc_events kc) (plan_stream p) es rows ss rows'" using com by (simp add: es_def)
  have inv: "log_inv rows" using rep(1) by (simp add: replays_to_def)
  have sg: "sound_graph p g" using sound(1) by (simp add: sound_session_def Let_def)
  have r_s: "rq_session_id r = ?s" using r(1) by (simp add: session_requests_def)
  have fields: "tt_task_id tr = rq_task_id r" "tt_current tr = approval_target d" "tt_reason tr = comment"
    "tt_previous tr = TS_WAITING_APPROVAL" by (simp_all add: tr step_transition_def)
  have step': "transition g (tt_task_id tr) (tt_current tr) (tt_reason tr) = Inr (tr, h)" using step by (simp add: fields)
  note sg' = sound_graph_step [OF sg step'] and st = transition_status [OF step']
  have drawn_es: "\<forall>e \<in> set es. drawn (kc_events kc) (plan_stream p) env rows e"
    using transition_drawn [OF env] drawn_event [OF env] r_s by (simp add: es_def decision_event_def)
  obtain x1 x2 where ss: "ss = [x1, x2]" "se_event x1 = stored_form ?e"
    "se_event x2 = stored_form (transition_event ?s tr ?c (Some (rq_request_id ?r)) (ce_fresh env 1))"
    using committed_events [OF com] by (auto simp: es_def map_eq_Cons_conv)
  have seq: "se_sequence x2 = se_sequence x1 + 1"
    using committed_sequence [OF com inv drawn_stream [OF drawn_es], of 0] by (simp add: ss(1))
  have ok: "sound_transition tr"
    using transition_fits [OF committed_fits [OF com], of ?s tr ?c "Some (rq_request_id r)" "ce_fresh env 1"]
      sg'(2,3) names by (simp add: es_def)
  have st_h: "map_of (tg_statuses h) = (map_of (tg_statuses g))(rq_task_id r \<mapsto> approval_target d)" using st(1) by (simp add: fields)
  note mem = sound_decided [OF sound(1) r sg'(1) st_h fine kn'(3,4)]
  have "permitted kc p h kn'"
    using sound(2) by (cases d) (auto simp: permitted_def may_run_def st_h kn'(4) approve_def approval_target_def)
  have in_r: "?r \<in> set (session_requests ?s kn')" using r(1) unfolding mem(1) by (force simp: replace_request_def)
  from this have fit_r: "request_fits p h ?r" "sound_request ?r" using mem(2) unfolding sound_session_def Let_def by blast+
  have fit_g: "request_fits p g ?r" using fit_r(1) by (simp add: request_fits_def st(2))
  have drs: "distinct (map rq_request_id ?rs)"
    using sound(1) distinct_map_filter unfolding sound_session_def Let_def keyed_inbox_def session_requests_def by blast
  have sides: "rq_task_id ?r = tt_task_id tr" "tt_reason tr = rq_comment ?r" by (simp_all add: fields)
  have time': "check_created_at kc (rq_created_at ?r) (fe_timestamp (ce_fresh env 0)) = Inr ()"
    using dated_check [OF time] by simp
  obtain rc' where rc': "replay_session kc p [x1, x2] rc = Inr rc'" "rebuilt p h (replace_request ?r ?rs) rc'"
    using recover_decided [OF rep(2) step' ss(2,3) seq ok sides(1) fit_g fit_r(2) _ _ fields(4,2) sides(2) drs r _ time'] by auto
  have "replays_to kc p rows' rc'"
    by (rule replays_commit [OF rep(1) com drawn_stream [OF drawn_es]]) (simp only: ss(1) rc'(1))
  then show ?thesis
    using rc'(2) mem plan kn'(1,2) \<open>permitted kc p h kn'\<close> by (auto simp: coherent_session_def dict_simps)
qed

lemma decide_coherent:
  assumes co: "coherent_session kc p kn rows" and names: "named_tasks p" and env: "fresh_env kc p env rows"
    and r: "map_of (kn_inbox kn) rid = Some r" "rq_session_id r = wp_session_id p" and time: "dated kc (rq_created_at r) env"
    and run: "decide_request kc env rid d actor comment kn rows = (out, kn', rows')"
  shows "coherent_session kc p kn' rows'"
proof -
  let ?s = "wp_session_id p" and ?r = "decided_by r d actor comment"
  obtain g rc where g: "map_of (kn_graphs kn) ?s = Some g" "sound_session p g kn" "graph_inv g" "replays_to kc p rows rc"
    "rebuilt p g (session_requests ?s kn) rc" "log_inv rows" "map_of (kn_plans kn) ?s = Some p" "sound_graph p g" "permitted kc p g kn"
    using co by (rule session_coherentE)
  have keyed: "keyed_inbox kn" using g(2) by (simp add: sound_session_def Let_def)
  obtain vs where vs: "kn_inbox kn = inbox_of vs" "distinct (map rq_request_id vs)" using keyed_inboxE [OF keyed] by metis
  have rv: "r \<in> set vs" "rq_request_id r = rid" using r(1) by (auto simp: vs(1) inbox_of_def dest: map_of_SomeD)
  have in_rs: "r \<in> set (session_requests ?s kn)" using rv(1) r(2) by (simp add: session_requests_def vs(1))
  show ?thesis
  proof (cases "shut kn \<or> actor = [] \<or> length actor > 65536 \<or> \<not> pred_option (\<lambda>c. length c \<le> 65536) comment \<or> \<not> rq_pending r")
    case True
    then have "kn' = kn \<and> rows' = rows"
      using run r(1) by (auto simp: decide_request_def inbox_get_def inbox_decide_def split: if_splits)
    then show ?thesis using co by simp
  next
    case False
    then have fine: "actor \<noteq> []" "length actor \<le> 65536" "pred_option (\<lambda>c. length c \<le> 65536) comment" and pend: "rq_pending r"
      and open_kn: "\<not> shut kn" by auto
    have "request_status p g kn r" using g(2) in_rs by (simp add: sound_session_def Let_def)
    then have st: "map_of (tg_statuses g) (rq_task_id r) = Some TS_WAITING_APPROVAL"
      using pend by (simp add: request_status_def rq_pending_def)
    obtain n where n: "map_of (tg_revisions g) (rq_task_id r) = Some n"
      using revision_total [OF g(3) status_known [OF g(3) st]] by blast
    define tr where "tr = step_transition (rq_task_id r) TS_WAITING_APPROVAL (approval_target d) comment (n + 1)"
    obtain h where h: "transition g (rq_task_id r) (approval_target d) comment = Inr (tr, h)"
      using st n by (cases d) (auto simp: transition_Inr preview_transition_Inr tr_def step_transition_def approval_target_def moves_task_def)
    then have ap: "apply_committed g [tr] = (h, None)" by (simp add: tr_def step_transition_def)
    define es where "es = decision_event p ?r actor (ce_fresh env 0)
      # transition_events ?s (plan_correlation p) (Some (rq_request_id r)) (ce_fresh env) 1 [tr]"
    obtain o1 rows1 where c: "commit_events kc env (plan_stream p) es rows = (o1, rows1)" by fastforce
    define kn1 where "kn1 = (set_graph ?s h (kn\<lparr>kn_inbox := inbox_of (replace_request ?r vs)\<rparr>))\<lparr>kn_approved :=
      (if d = AD_APPROVE then insert (?s, rq_task_id r) (kn_approved kn) else kn_approved kn - {(?s, rq_task_id r)})\<rparr>"
    have put: "dict_set rid ?r (inbox_of vs) = inbox_of (replace_request ?r vs)"
      using inbox_of_replace [OF vs(2), of ?r] rv by (force simp: image_iff)
    have dec: "inbox_decide (kn_inbox kn) rid d actor comment = Inr (?r, inbox_of (replace_request ?r vs))"
      using r(1) pend put by (simp add: inbox_decide_def vs(1) decided_by_def Let_def)
    have run': "decide_request kc env rid d actor comment kn rows
        = (case o1 of Inl e \<Rightarrow> (Inl e, kn, rows1) | Inr ss \<Rightarrow> (Inr ?r, kn1, rows1))"
      using open_kn fine pend r st n g(1,7) c dec ap
      unfolding decide_request_def inbox_get_def kn1_def es_def plan_stream_def tr_def decided_by_def Let_def
      by (cases d; cases o1) (simp_all del: apply_committed.simps transition_events.simps)
    have drawn_es: "\<forall>e \<in> set es. drawn (kc_events kc) (plan_stream p) env rows e"
      using transition_drawn [OF env] drawn_event [OF env] r(2) by (simp add: es_def decision_event_def)
    have "(\<exists>e. o1 = Inl e) \<and> calm (kc_events kc) (plan_stream p) rows rows1
      \<or> (\<exists>ss. o1 = Inr ss \<and> committed (kc_events kc) (plan_stream p) es rows ss rows1)"
      using env by (intro commit_events_cases [OF g(6) _ stream_not_blank _ drawn_es c]) (auto simp: fresh_env_def es_def)
    then consider e where "o1 = Inl e" "calm (kc_events kc) (plan_stream p) rows rows1"
      | ss where "o1 = Inr ss" "committed (kc_events kc) (plan_stream p) es rows ss rows1" by blast
    then show ?thesis
    proof cases
      case 1
      then have "kn' = kn \<and> rows' = rows1" using run run' by simp
      then show ?thesis using co replays_calm [OF _ 1(2)] by (auto simp: coherent_session_def)
    next
      case (2 ss)
      have "coherent_session kc p kn1 rows1"
        by (rule decide_committed [OF g(2,9,4,5,7) names env in_rs pend fine time tr_def h 2(2) [unfolded es_def]])
          (simp_all add: kn1_def set_graph_def vs(1) approve_def)
      then show ?thesis using run run' 2(1) by simp
    qed
  qed
qed

end
