(* ===== verification/Kernel_Reach.thy ===== *)
theory Kernel_Reach
  imports Kernel_Steps
begin

text \<open>
  The sessions a kernel can reach, started, worked on, interleaved with other sessions and other
  connections, and restarted from the log.
\<close>

section \<open>Recovery, exactly\<close>

definition session_bytes :: "kernel_config \<Rightarrow> stored_event list \<Rightarrow> nat" where
  "session_bytes kc ss = sum_list (map (\<lambda>s. fst (measure_event kc s)) ss)"

definition session_nodes :: "kernel_config \<Rightarrow> stored_event list \<Rightarrow> nat" where
  "session_nodes kc ss = sum_list (map (\<lambda>s. snd (measure_event kc s)) ss)"

text \<open>A history that recovery reads to its end.\<close>

definition within_limits :: "kernel_config \<Rightarrow> stored_event list \<Rightarrow> bool" where
  "within_limits kc ss = (length ss \<le> max_recovery_events \<and> session_bytes kc ss \<le> 256 * 1024 * 1024
     \<and> session_nodes kc ss \<le> 5000000)"

lemma recover_page_iff:
  assumes "b \<le> 256 * 1024 * 1024" "n \<le> 5000000"
  shows "recover_page kc p b n rc page = Inr (b', n', rc') \<longleftrightarrow> replay_session kc p page rc = Inr rc'
    \<and> b' = b + session_bytes kc page \<and> n' = n + session_nodes kc page \<and> b' \<le> 256 * 1024 * 1024 \<and> n' \<le> 5000000"
  using assms
proof (induction page arbitrary: b n rc)
  case Nil
  then show ?case by (auto simp: session_bytes_def session_nodes_def)
next
  case (Cons s page)
  obtain x y where m: "measure_event kc s = (x, y)" by fastforce
  have sums: "session_bytes kc (s # page) = x + session_bytes kc page" "session_nodes kc (s # page) = y + session_nodes kc page"
    by (simp_all add: session_bytes_def session_nodes_def m)
  show ?case
  proof (cases "b + x \<le> 256 * 1024 * 1024 \<and> n + y \<le> 5000000")
    case True
    then have "\<not> x > 256 * 1024 * 1024 - b" "\<not> y > 5000000 - n" using Cons.prems by linarith+
    then show ?thesis
      using Cons.IH [of "b + x" "n + y"] True by (auto simp: m sums res_simps add.assoc bad_def)
  next
    case False
    then show ?thesis using Cons.prems by (auto simp: m sums res_simps bad_def)
  qed
qed

lemma stream_small:
  assumes "log_inv rows" "\<forall>r \<in> set (stream_of t rows). row_to_event cf r = Inr r" "n \<le> length (stream_of t rows)"
  shows "int n \<le> max_row_integer"
proof (cases n)
  case (Suc m)
  then have m: "m < length (stream_of t rows)" using assms(3) by simp
  then have "row_to_event cf (stream_of t rows ! m) = Inr (stream_of t rows ! m)" using assms(2) by simp
  then show ?thesis using readable_sequence sequence_nth [OF assms(1) m] Suc by fastforce
qed (simp add: max_row_integer_def)

text \<open>The loop over the pages is one pass over the stream.\<close>

lemma recover_loop_iff:
  assumes inv: "log_inv rows" and ok: "\<forall>r \<in> set (stream_of (plan_stream p) rows). row_to_event (kc_events kc) r = Inr r"
    and "n \<le> length (stream_of (plan_stream p) rows)" "n \<le> max_recovery_events" "b \<le> 256 * 1024 * 1024" "m \<le> 5000000"
  shows "recover_loop kc p (int n) n b m rc rows = Inr rc' \<longleftrightarrow>
    (let rest = drop n (stream_of (plan_stream p) rows) in replay_session kc p rest rc = Inr rc'
      \<and> n + length rest \<le> max_recovery_events \<and> b + session_bytes kc rest \<le> 256 * 1024 * 1024
      \<and> m + session_nodes kc rest \<le> 5000000)"
  using assms(3-)
proof (induction "max_recovery_events - n" arbitrary: n b m rc rule: less_induct)
  case less
  let ?t = "plan_stream p" and ?s = "stream_of (plan_stream p) rows"
  note small = stream_small [OF inv ok less.prems(1)]
  have page: "read_stream_page (kc_events kc) ?t (int n) (int k) rows = Inr (take k (drop n ?s))" if "1 \<le> k" "k \<le> 1000" for k
    using that ok in_set_dropD in_set_takeD by (intro page_of_stream [OF inv stream_not_blank small]) fast+
  have check: "check_recovery_page ?t (int n) k (take k (drop n ?s)) = Inr (int (n + length (take k (drop n ?s))))" for k
  proof -
    define q where "q = take k (drop n ?s)"
    have q: "q = take (length q) (drop n ?s)" "n + length q \<le> length ?s" "length q \<le> k"
      using less.prems(1) by (auto simp: q_def min_def)
    from check_sequence_block [OF inv q(2,1)] q(3) show ?thesis
      unfolding q_def [symmetric] by (simp add: check_recovery_page_def)
  qed
  note unfold = recover_loop.simps [of kc p "int n" n b m rc rows, folded plan_stream_def]
  show ?case
  proof (cases "n < max_recovery_events")
    case False
    then have n: "n = max_recovery_events" using less.prems(2) by simp
    have pg: "read_stream_page (kc_events kc) ?t (int n) 1 rows = Inr (take 1 (drop n ?s))" using page [of 1] by simp
    have ck: "check_recovery_page ?t (int n) 1 (take 1 (drop n ?s)) = Inr (int (n + length (take 1 (drop n ?s))))" by (rule check)
    have "recover_loop kc p (int n) n b m rc rows = (if take 1 (drop n ?s) \<noteq> []
        then bad ''session recovery exceeds the event safety limit'' else Inr rc)"
      using False pg ck by (simp add: unfold Let_def from_events_def)
    then show ?thesis
      using n less.prems by (cases "drop n ?s") (auto simp: bad_def session_bytes_def session_nodes_def Let_def)
  next
    case True
    define k where "k = min 1000 (max_recovery_events - n)"
    have k: "1 \<le> k" "k \<le> 1000" "k \<le> max_recovery_events - n" using True by (simp_all add: k_def)
    define pg where "pg = take k (drop n ?s)"
    have split: "drop n ?s = pg @ drop (n + k) ?s" unfolding pg_def by (metis add.commute append_take_drop_id drop_drop)
    have body: "recover_loop kc p (int n) n b m rc rows = (if pg = [] then Inr rc
        else bind_res (recover_page kc p b m rc pg) (\<lambda>(b', m', rc').
          if length pg < k then Inr rc' else recover_loop kc p (int n + int (length pg)) (n + length pg) b' m' rc' rows))"
      using True page [OF k(1,2)] check [of k] by (simp add: unfold Let_def from_events_def flip: k_def pg_def)
    note page_iff = recover_page_iff [OF less.prems(3,4), of kc p rc pg]
    show ?thesis
    proof (cases "length pg < k")
      case short: True
      then have rest: "drop n ?s = pg" by (auto simp: pg_def)
      show ?thesis
      proof (cases "pg = []")
        case True
        then show ?thesis using rest less.prems body by (auto simp: session_bytes_def session_nodes_def)
      next
        case False
        then have "recover_loop kc p (int n) n b m rc rows = Inr rc' \<longleftrightarrow> (\<exists>b' m'. recover_page kc p b m rc pg = Inr (b', m', rc'))"
          using body short by (auto simp: res_simps)
        then show ?thesis using short k(3) unfolding page_iff rest by (auto simp: Let_def)
      qed
    next
      case False
      then have len: "length pg = k" by (simp add: pg_def)
      then have "pg \<noteq> []" using k(1) by auto
      then have loop: "recover_loop kc p (int n) n b m rc rows = Inr rc' \<longleftrightarrow> (\<exists>b' m' rc1. recover_page kc p b m rc pg = Inr (b', m', rc1)
          \<and> recover_loop kc p (int (n + k)) (n + k) b' m' rc1 rows = Inr rc')"
        using body len by (auto simp: res_simps)
      have nk: "n + k \<le> length ?s" using len less.prems(1) by (auto simp: pg_def min_def split: if_splits)
      have IH: "recover_loop kc p (int (n + k)) (n + k) b' m' rc1 rows = Inr rc' \<longleftrightarrow>
          replay_session kc p (drop (n + k) ?s) rc1 = Inr rc' \<and> n + k + length (drop (n + k) ?s) \<le> max_recovery_events
          \<and> b' + session_bytes kc (drop (n + k) ?s) \<le> 256 * 1024 * 1024 \<and> m' + session_nodes kc (drop (n + k) ?s) \<le> 5000000"
        if "b' \<le> 256 * 1024 * 1024" "m' \<le> 5000000" for b' m' rc1
        using less.hyps [of "n + k" b' m' rc1] that nk k True by (simp add: Let_def)
      have sums: "session_bytes kc (drop n ?s) = session_bytes kc pg + session_bytes kc (drop (n + k) ?s)"
        "session_nodes kc (drop n ?s) = session_nodes kc pg + session_nodes kc (drop (n + k) ?s)"
        "length (drop n ?s) = k + length (drop (n + k) ?s)"
        by (simp_all add: split session_bytes_def session_nodes_def len)
      show ?thesis
        unfolding loop page_iff Let_def sums using IH
        by (simp only: split replay_session_append) (auto simp: res_simps)
    qed
  qed
qed

lemma recovery_iff:
  assumes "replays_to kc p rows rc0"
  shows "recover_loop kc p 0 0 0 0 new_recovery rows = Inr rc \<longleftrightarrow>
    rc = rc0 \<and> within_limits kc (stream_of (plan_stream p) rows)"
  using recover_loop_iff [of rows p kc 0 0 0 new_recovery rc] assms
  by (auto simp: replays_to_def within_limits_def Let_def)

section \<open>What a restarted kernel holds\<close>

lemma restore_requests_new:
  "distinct (map rq_request_id (vs @ rs)) \<Longrightarrow> restore_requests rs (inbox_of vs) = inbox_of (vs @ rs)"
proof (induction rs arbitrary: vs)
  case (Cons r rs)
  then have "restore_requests (r # rs) (inbox_of vs) = restore_requests rs (inbox_of (vs @ [r]))"
    by (simp add: restore_requests_def inbox_restore_def inbox_of_append)
  with Cons show ?case by simp
qed (simp add: restore_requests_def)

definition restarted :: "ledger \<Rightarrow> (context_item list, kernel_error) plugins \<Rightarrow> workflow_plan \<Rightarrow> task_graph \<Rightarrow> approval_request list \<Rightarrow> kernel" where
  "restarted lg ps p g rs = (new_kernel lg ps)\<lparr>kn_plans := [(wp_session_id p, p)], kn_graphs := [(wp_session_id p, g)],
     kn_inbox := inbox_of rs, kn_approved := approved_by rs, kn_task_artifacts := restore_artifacts lg p []\<rparr>"

lemma finish_iff:
  assumes "rebuilt p g rs rc" "\<forall>r \<in> set rs. rq_pending r \<longrightarrow> map_of (tg_statuses g) (rq_task_id r) = Some TS_WAITING_APPROVAL"
  shows "finish_recovery rc = (if no_running g then Inr (Some (p, g)) else bad ''session contains a durably RUNNING task'')"
proof -
  have "\<not> list_ex (\<lambda>r. rq_pending r \<and> map_of (tg_statuses g) (rq_task_id r) \<noteq> Some TS_WAITING_APPROVAL) rs"
    using assms(2) by (auto simp: list_ex_iff)
  then show ?thesis using assms(1) by (simp add: finish_recovery_def rebuilt_def)
qed

lemma requests_distinct: "keyed_inbox kn \<Longrightarrow> distinct (map rq_request_id (session_requests s kn))"
  unfolding keyed_inbox_def session_requests_def by (blast intro: distinct_map_filter)

lemma restart_iff:
  assumes co: "coherent_session kc p kn rows" and g: "map_of (kn_graphs kn) (wp_session_id p) = Some g"
  shows "recover_session kc p (new_kernel lg ps) rows = Inr kn' \<longleftrightarrow>
    within_limits kc (stream_of (plan_stream p) rows) \<and> no_running g
    \<and> kn' = restarted lg ps p g (session_requests (wp_session_id p) kn)"
proof -
  let ?rs = "session_requests (wp_session_id p) kn"
  obtain rc where rc: "sound_session p g kn" "replays_to kc p rows rc" "rebuilt p g ?rs rc"
    using co g by (auto simp: coherent_session_def)
  have sound: "keyed_inbox kn" "\<forall>r \<in> set ?rs. request_status p g kn r"
    using rc(1) unfolding sound_session_def Let_def by blast+
  have "\<forall>r \<in> set ?rs. rq_pending r \<longrightarrow> map_of (tg_statuses g) (rq_task_id r) = Some TS_WAITING_APPROVAL"
    using sound(2) by (auto simp: request_status_def rq_pending_def)
  note fin = finish_iff [OF rc(3) this]
  have req: "restore_requests ?rs [] = inbox_of ?rs"
    using restore_requests_new [of "[]" ?rs] requests_distinct [OF sound(1)] by (simp add: inbox_of_def)
  have rqs: "dict_values (rc_requests rc) = ?rs" using rc(3) by (simp add: rebuilt_def)
  have "(case r of None \<Rightarrow> Inr (new_kernel lg ps) | Some (p, g) \<Rightarrow> Inr (f p g)) = Inr kn' \<longleftrightarrow> kn' = f p g"
    if "r = Some (p, g)" for r and f :: "workflow_plan \<Rightarrow> task_graph \<Rightarrow> kernel" using that by auto
  have "recover_session kc p (new_kernel lg ps) rows = Inr kn' \<longleftrightarrow> (\<exists>rc'. recover_loop kc p 0 0 0 0 new_recovery rows = Inr rc'
      \<and> no_running g \<and> rc' = rc \<and> kn' = restarted lg ps p g ?rs)"
    using recovery_iff [OF rc(2)] fin
    by (cases "no_running g") (auto simp: recover_session_def new_kernel_def res_simps rqs req restarted_def Let_def bad_def)
  then show ?thesis unfolding recovery_iff [OF rc(2)] by blast
qed

section \<open>The start of a session\<close>

text \<open>A session that no one has started: nothing of it in the kernel, no state event in its stream.\<close>

definition untouched :: "kernel_config \<Rightarrow> workflow_plan \<Rightarrow> kernel \<Rightarrow> stored_event list \<Rightarrow> bool" where
  "untouched kc p kn rows = (log_inv rows \<and> map_of (kn_plans kn) (wp_session_id p) = None
     \<and> session_requests (wp_session_id p) kn = [] \<and> keyed_inbox kn \<and> (\<forall>t. (wp_session_id p, t) \<notin> kn_approved kn)
     \<and> (\<forall>r \<in> set rows. quiet_row (kc_events kc) (plan_stream p) r))"

definition session_plan :: "kernel_config \<Rightarrow> workflow_plan \<Rightarrow> bool" where
  "session_plan kc p = (stable_plan kc p \<and> named_tasks p)"

lemma stable_session: "stable_plan kc p \<Longrightarrow> wp_session_id p \<noteq> []"
  by (auto simp: stable_plan_def plan_from_dict_def res_simps check_plan_def split: if_splits)

lemma unstarted_replay: "untouched kc p kn rows \<Longrightarrow> replays_to kc p rows new_recovery"
  using quiet_stream [of rows "kc_events kc" "plan_stream p"] replay_quiet [of "stream_of (plan_stream p) rows" kc p new_recovery]
  by (auto simp: untouched_def replays_to_def)

lemma recover_unstarted:
  assumes "untouched kc p kn rows" "recover_session kc p kn rows = Inr kn'"
  shows "kn' = kn"
proof -
  have "wp_session_id p \<notin> set (dict_keys (kn_plans kn))"
    using assms(1) by (simp add: untouched_def map_of_eq_None_iff)
  then show ?thesis using assms(2) recovery_iff [OF unstarted_replay [OF assms(1)]]
    by (auto simp: recover_session_def res_simps finish_recovery_def new_recovery_def)
qed

lemma initial_graph:
  assumes "graph_init (wp_tasks p) = Inr g0"
  shows "sound_graph p g0" "\<And>kn. permitted kc p g0 kn"
proof -
  have wf: "distinct (map tk_task_id (wp_tasks p))" and g0: "g0 = \<lparr>tg_tasks = tasks_of (wp_tasks p),
      tg_statuses = map (\<lambda>t. (tk_task_id t, TS_PENDING)) (wp_tasks p), tg_reasons = [],
      tg_revisions = map (\<lambda>t. (tk_task_id t, 0)) (wp_tasks p)\<rparr>"
    using assms by (auto simp: graph_init_Inr well_formed_workflow_def)
  have "\<forall>t n. map_of (tg_revisions g0) t = Some n \<longrightarrow> 0 \<le> n" by (auto simp: g0 dest!: map_of_SomeD)
  then show "sound_graph p g0" using graph_init_inv [OF assms] by (simp add: sound_graph_def g0)
  show "permitted kc p g0 kn" for kn by (auto simp: permitted_def g0 dest!: map_of_SomeD)
qed

lemma initialize_coherent:
  assumes un: "untouched kc p kn rows" and p: "session_plan kc p" and env: "fresh_env kc p env rows"
    and run: "initialize_plan kc env p kn rows = (out, kn', rows')"
    and won: "out = Inr ()"
  shows "coherent_session kc p kn' rows'"
proof -
  have inv: "log_inv rows" and none: "map_of (kn_plans kn) (wp_session_id p) = None" using un by (simp_all add: untouched_def)
  obtain g0 trs g where g: "graph_init (wp_tasks p) = Inr g0" "refresh g0 = Inr (trs, g)"
    using run none won by (auto simp: initialize_plan_def Let_def res_simps split: sum.splits prod.splits)
  define es where "es = plan_events p trs (ce_fresh env)"
  obtain o1 rows1 where c: "commit_events kc env (plan_stream p) es rows = (o1, rows1)" by fastforce
  have run': "initialize_plan kc env p kn rows = (case o1 of Inl e \<Rightarrow> (Inl e, kn, rows1)
      | Inr ss \<Rightarrow> (Inr (), kn\<lparr>kn_plans := dict_set (wp_session_id p) p (kn_plans kn),
          kn_graphs := dict_set (wp_session_id p) g (kn_graphs kn)\<rparr>, rows1))"
    using none g c unfolding plan_stream_def es_def by (simp add: initialize_plan_def Let_def split: sum.splits)
  obtain ps h where ps: "preview_refresh g0 = Inr ps" "apply_planned g0 ps = Inr h"
    "\<forall>tr \<in> set ps. tt_previous tr = TS_PENDING \<and> tt_current tr \<in> {TS_READY, TS_BLOCKED}"
    using refresh_moves [OF graph_init_inv [OF g(1)]] by blast
  then have "ps = trs" "h = g" using g(2) by (auto simp: refresh_def res_simps)
  then have ap: "apply_committed g0 trs = (g, None)" and moves: "\<forall>tr \<in> set trs. tt_previous tr = TS_PENDING \<and> tt_current tr \<in> {TS_READY, TS_BLOCKED}"
    using ps by (auto intro: apply_planned_committed)
  have drawn_es: "\<forall>e \<in> set es. drawn (kc_events kc) (plan_stream p) env rows e"
    using tasks_drawn [OF env] transitions_drawn [OF env] drawn_event [OF env]
    by (auto simp: es_def plan_events_def plan_event_def)
  obtain ss where ss: "committed (kc_events kc) (plan_stream p) es rows ss rows1" "o1 = Inr ss"
    using commit_events_cases [OF inv _ stream_not_blank _ drawn_es c] run run' won env
    by (auto simp: fresh_env_def es_def plan_events_def)
  then have kn': "kn' = kn\<lparr>kn_plans := dict_set (wp_session_id p) p (kn_plans kn),
      kn_graphs := dict_set (wp_session_id p) g (kn_graphs kn)\<rparr>" "rows' = rows1" using run run' by simp_all
  have empty: "session_requests (wp_session_id p) kn = []" "keyed_inbox kn" "\<And>t. (wp_session_id p, t) \<notin> kn_approved kn"
    using un by (simp_all add: untouched_def)
  then have empty': "session_requests (wp_session_id p) kn' = []" "keyed_inbox kn'" "\<And>t. (wp_session_id p, t) \<notin> kn_approved kn'"
    by (simp_all add: kn'(1) session_requests_def keyed_inbox_def)
  have "sound_session p g0 kn'"
    using initial_graph(1) [OF g(1)] empty' by (simp add: sound_session_def)
  moreover have "\<forall>tr \<in> set trs. plain_move tr" using moves by (auto simp: plain_move_def)
  ultimately have sound: "sound_session p g kn'" "\<forall>tr \<in> set trs. 0 \<le> tt_revision tr \<and> tt_task_id tr \<noteq> []"
    using sound_steps [OF _ ap] p unfolding session_plan_def by blast+
  have ok: "\<forall>tr \<in> set trs. sound_transition tr \<and> tt_previous tr = TS_PENDING \<and> tt_current tr \<noteq> TS_WAITING_APPROVAL"
  proof
    fix tr assume tr: "tr \<in> set trs"
    obtain f where "transition_event (wp_session_id p) tr (wp_correlation_id p) None f \<in> set es"
      using transition_event_in [OF tr] by (fastforce simp: es_def plan_events_def)
    from transition_fits [OF committed_fits [OF ss(1) this]] sound(2) moves tr
    show "sound_transition tr \<and> tt_previous tr = TS_PENDING \<and> tt_current tr \<noteq> TS_WAITING_APPROVAL" by auto
  qed
  obtain rc where rc: "replay_session kc p ss new_recovery = Inr rc" "rebuilt p g [] rc"
    using replay_plan [OF g(1) _ committed_events [OF ss(1), unfolded es_def] ap ok] p by (auto simp: session_plan_def)
  have log: "replays_to kc p rows' rc"
    unfolding kn'(2) by (rule replays_commit [OF unstarted_replay [OF un] ss(1) drawn_stream [OF drawn_es] rc(1)])
  have "permitted kc p g kn'"
    by (rule permitted_steps [OF initial_graph(2) [OF g(1)] ap]) (use moves in auto)
  then show ?thesis using log rc(2) sound(1) empty'(1) by (auto simp: coherent_session_def kn'(1) dict_simps)
qed

lemma initialize_failed:
  assumes un: "untouched kc p kn rows" and env: "fresh_env kc p env rows"
    and run: "initialize_plan kc env p kn rows = (Inl e, kn', rows')"
  shows "untouched kc p kn' rows'"
proof (cases "bind_res (graph_init (wp_tasks p)) refresh")
  case (Inl x)
  then show ?thesis using run un by (auto simp: initialize_plan_def untouched_def)
next
  case (Inr r)
  obtain trs g where r: "r = (trs, g)" by (cases r)
  have inv: "log_inv rows" using un by (simp add: untouched_def)
  define es where "es = plan_events p trs (ce_fresh env)"
  obtain o1 rows1 where c: "commit_events kc env (plan_stream p) es rows = (o1, rows1)" by fastforce
  have drawn_es: "\<forall>e \<in> set es. drawn (kc_events kc) (plan_stream p) env rows e"
    using tasks_drawn [OF env] transitions_drawn [OF env] drawn_event [OF env]
    by (auto simp: es_def plan_events_def plan_event_def)
  have "kn' = kn \<and> rows' = rows1 \<and> (\<exists>x. o1 = Inl x)"
    using run un Inr r c unfolding untouched_def plan_stream_def es_def
    by (auto simp: initialize_plan_def Let_def split: sum.splits)
  moreover from this have "calm (kc_events kc) (plan_stream p) rows rows1"
    using commit_events_cases [OF inv _ stream_not_blank _ drawn_es c] env
    by (auto simp: fresh_env_def es_def plan_events_def)
  moreover from this obtain more where "rows1 = rows @ more" "\<forall>r \<in> set more. quiet_row (kc_events kc) (plan_stream p) r"
    using inv by (blast elim: calm_more)
  ultimately show ?thesis using un calm_inv [OF _ inv] by (auto simp: untouched_def)
qed

section \<open>Reachable sessions\<close>

text \<open>What other sessions, other connections and the rest of the kernel may change.\<close>

definition same_session :: "string \<Rightarrow> kernel \<Rightarrow> kernel \<Rightarrow> bool" where
  "same_session s kn kn' = (map_of (kn_plans kn') s = map_of (kn_plans kn) s
     \<and> map_of (kn_graphs kn') s = map_of (kn_graphs kn) s \<and> session_requests s kn' = session_requests s kn
     \<and> (\<forall>t. ((s, t) \<in> kn_approved kn') = ((s, t) \<in> kn_approved kn)) \<and> keyed_inbox kn')"

lemma coherent_same:
  assumes co: "coherent_session kc p kn rows" and kn: "same_session (wp_session_id p) kn kn'"
    and rows: "calm (kc_events kc) (plan_stream p) rows rows'"
  shows "coherent_session kc p kn' rows'"
proof -
  let ?s = "wp_session_id p"
  have same: "map_of (kn_plans kn') ?s = map_of (kn_plans kn) ?s" "map_of (kn_graphs kn') ?s = map_of (kn_graphs kn) ?s"
    "session_requests ?s kn' = session_requests ?s kn" "\<And>t. ((?s, t) \<in> kn_approved kn') = ((?s, t) \<in> kn_approved kn)"
    "keyed_inbox kn'" using kn by (simp_all add: same_session_def)
  have "sound_session p g kn'" if "sound_session p g kn" for g
    using that same(5) unfolding sound_session_def request_status_def same(3,4) Let_def by blast
  moreover have "permitted kc p g kn'" if "permitted kc p g kn" for g
    using that unfolding permitted_def may_run_def same(4) .
  ultimately show ?thesis using co replays_calm rows by (fastforce simp: coherent_session_def same(1-3))
qed

lemma restarted_coherent:
  assumes co: "coherent_session kc p kn rows" and g: "map_of (kn_graphs kn) (wp_session_id p) = Some g"
  shows "coherent_session kc p (restarted lg ps p g (session_requests (wp_session_id p) kn)) rows"
proof -
  let ?s = "wp_session_id p"
  define rs where "rs = session_requests ?s kn"
  define kn' where "kn' = restarted lg ps p g rs"
  obtain rc where rc: "sound_session p g kn" "replays_to kc p rows rc" "rebuilt p g rs rc" "permitted kc p g kn"
    using co g by (auto simp: coherent_session_def rs_def)
  have sess: "\<forall>r \<in> set rs. rq_session_id r = ?s" by (simp add: rs_def session_requests_def)
  have vals: "dict_values (inbox_of rs) = rs" by (simp add: inbox_of_def comp_def)
  have reqs: "session_requests ?s kn' = rs"
    using sess by (simp add: kn'_def restarted_def session_requests_def vals)
  have sound: "sound_graph p g" "distinct (map rq_task_id rs)" "keyed_inbox kn"
      "\<forall>r \<in> set rs. request_fits p g r \<and> sound_request r \<and> request_status p g kn r"
      "\<forall>t. (?s, t) \<in> kn_approved kn \<longrightarrow> (\<exists>r \<in> set rs. rq_task_id r = t \<and> rq_decision r = Some AD_APPROVE)"
    using rc(1) unfolding sound_session_def Let_def rs_def by blast+
  have keyed: "keyed_inbox kn'"
    using requests_distinct [OF sound(3), of ?s] by (simp add: keyed_inbox_def kn'_def restarted_def vals flip: rs_def)
  have appr: "(?s, t) \<in> kn_approved kn' \<longleftrightarrow> (\<exists>r \<in> set rs. rq_task_id r = t \<and> rq_decision r = Some AD_APPROVE)" for t
    using sess by (auto simp: kn'_def restarted_def approved_by_def)
  have same: "(?s, t) \<in> kn_approved kn' \<longleftrightarrow> (?s, t) \<in> kn_approved kn" for t
  proof
    assume "(?s, t) \<in> kn_approved kn'"
    then obtain r where "r \<in> set rs" "rq_task_id r = t" "rq_decision r = Some AD_APPROVE" unfolding appr by blast
    then show "(?s, t) \<in> kn_approved kn" using sound(4) by (fastforce simp: request_status_def)
  qed (use sound(5) appr in blast)
  have "sound_session p g kn'"
    using rc(1) keyed unfolding sound_session_def request_status_def same reqs Let_def rs_def by blast
  moreover have "permitted kc p g kn'" using rc(4) unfolding permitted_def may_run_def same .
  moreover have "map_of (kn_plans kn') ?s = Some p" "map_of (kn_graphs kn') ?s = Some g" by (simp_all add: kn'_def restarted_def)
  ultimately show ?thesis using rc(2,3) unfolding coherent_session_def rs_def [symmetric] kn'_def [symmetric] reqs by blast
qed

text \<open>
  A session starts in a kernel that has never seen it, with \<open>open_session\<close> succeeding.
\<close>

definition session_start :: "kernel_config \<Rightarrow> workflow_plan \<Rightarrow> kernel \<times> stored_event list \<Rightarrow> bool" where
  "session_start kc p w = (session_plan kc p \<and> (\<exists>env kn rows. untouched kc p kn rows \<and> fresh_env kc p env rows
     \<and> open_session kc env p kn rows = (Inr p, w)))"

definition status_at :: "kernel \<Rightarrow> workflow_plan \<Rightarrow> string \<Rightarrow> task_status option" where
  "status_at kn p t = (case map_of (kn_graphs kn) (wp_session_id p) of None \<Rightarrow> None | Some g \<Rightarrow> map_of (tg_statuses g) t)"

text \<open>
  The steps of a session, each with any environment: the commit may fail, lose its acknowledgement
  or be preceded and followed by commits of others, and then the outcome is an error.
\<close>

inductive session_step :: "kernel_config \<Rightarrow> workflow_plan \<Rightarrow> kernel \<times> stored_event list \<Rightarrow> kernel \<times> stored_event list \<Rightarrow> bool"
  for kc p where
  step_others: "same_session (wp_session_id p) kn kn' \<Longrightarrow> calm (kc_events kc) (plan_stream p) rows rows'
     \<Longrightarrow> session_step kc p (kn, rows) (kn', rows')"
| step_refresh: "fresh_env kc p env rows \<Longrightarrow> commit_refresh kc env p kn rows = (out, kn', rows')
     \<Longrightarrow> session_step kc p (kn, rows) (kn', rows')"
| step_dispatch: "fresh_env kc p env rows \<Longrightarrow> t \<in> set (wp_tasks p) \<Longrightarrow> status_at kn p (tk_task_id t) = Some TS_READY
     \<Longrightarrow> new_request kc kn ids env \<Longrightarrow> dispatch_task kc env ids p t kn rows = (out, kn', rows')
     \<Longrightarrow> session_step kc p (kn, rows) (kn', rows')"
| step_settle: "fresh_env kc p env rows \<Longrightarrow> status_at kn p t = Some TS_RUNNING \<Longrightarrow> target \<in> {TS_COMPLETED, TS_FAILED}
     \<Longrightarrow> settle_task kc env p t target reason kn rows = (out, kn', rows')
     \<Longrightarrow> session_step kc p (kn, rows) (kn', rows')"
| step_decide: "fresh_env kc p env rows \<Longrightarrow> map_of (kn_inbox kn) rid = Some r \<Longrightarrow> rq_session_id r = wp_session_id p
     \<Longrightarrow> dated kc (rq_created_at r) env \<Longrightarrow> decide_request kc env rid d actor comment kn rows = (out, kn', rows')
     \<Longrightarrow> session_step kc p (kn, rows) (kn', rows')"
| step_restart: "recover_session kc p (new_kernel lg ps) rows = Inr kn' \<Longrightarrow> session_step kc p (kn, rows) (kn', rows)"

inductive_cases session_stepE: "session_step kc p (kn, rows) w'"

definition session_inv :: "kernel_config \<Rightarrow> workflow_plan \<Rightarrow> kernel \<times> stored_event list \<Rightarrow> bool" where
  "session_inv kc p w = (session_plan kc p \<and> coherent_session kc p (fst w) (snd w))"

lemma start_coherent:
  assumes "session_start kc p w"
  shows "session_inv kc p w"
proof -
  obtain env kn rows where w: "session_plan kc p" "untouched kc p kn rows" "fresh_env kc p env rows"
    "open_session kc env p kn rows = (Inr p, w)" using assms by (auto simp: session_start_def)
  obtain kn1 where kn1: "recover_session kc p kn rows = Inr kn1" using w(4) by (auto simp: open_session_def split: sum.splits)
  then have kn1': "recover_session kc p kn rows = Inr kn" using recover_unstarted [OF w(2)] by simp
  obtain o1 kn2 rows2 where i: "initialize_plan kc env p kn rows = (o1, kn2, rows2)" by (rule prod_cases3)
  have "o1 = Inr () \<and> w = (kn2, rows2)"
    using w(4) kn1' i by (auto simp: open_session_def split: if_splits sum.splits option.splits)
  then show ?thesis using initialize_coherent [OF w(2,1,3) i] w(1) by (simp add: session_inv_def)
qed

lemma step_coherent:
  assumes "session_inv kc p w" "session_step kc p w w'"
  shows "session_inv kc p w'"
proof -
  obtain kn rows where w: "w = (kn, rows)" by (cases w)
  have p: "session_plan kc p" "named_tasks p" "wp_session_id p \<noteq> []" and co: "coherent_session kc p kn rows"
    using assms(1) stable_session [of kc p] by (auto simp: session_inv_def w session_plan_def)
  obtain g where g: "map_of (kn_graphs kn) (wp_session_id p) = Some g" using co by (auto simp: coherent_session_def)
  have st: "map_option (\<lambda>g. map_of (tg_statuses g) t) (map_of (kn_graphs kn) (wp_session_id p)) = Some (status_at kn p t)" for t
    by (simp add: status_at_def g)
  from assms(2) have "coherent_session kc p (fst w') (snd w')"
    unfolding w
  proof (rule session_stepE)
    fix kn' rows' assume "w' = (kn', rows')" "same_session (wp_session_id p) kn kn'" "calm (kc_events kc) (plan_stream p) rows rows'"
    then show ?thesis using coherent_same [OF co] by simp
  next
    fix env out kn' rows' assume "w' = (kn', rows')" "fresh_env kc p env rows" "commit_refresh kc env p kn rows = (out, kn', rows')"
    then show ?thesis using refresh_coherent [OF co p(2)] by simp
  next
    fix env t ids out kn' rows'
    assume *: "w' = (kn', rows')" "fresh_env kc p env rows" "t \<in> set (wp_tasks p)" "status_at kn p (tk_task_id t) = Some TS_READY"
      "new_request kc kn ids env" "dispatch_task kc env ids p t kn rows = (out, kn', rows')"
    then show ?thesis using dispatch_coherent [OF co p(2,3) *(2,3) _ *(5,6)] st [of "tk_task_id t"] by simp
  next
    fix env t target reason out kn' rows'
    assume *: "w' = (kn', rows')" "fresh_env kc p env rows" "status_at kn p t = Some TS_RUNNING"
      "target = TS_COMPLETED \<or> target = TS_FAILED" "settle_task kc env p t target reason kn rows = (out, kn', rows')"
    then have "target \<noteq> TS_WAITING_APPROVAL" by auto
    then show ?thesis using settle_coherent [OF co p(2) *(2) _ _ *(5)] * st [of t] by simp
  next
    fix env rid r d actor comment out kn' rows'
    assume "w' = (kn', rows')" "fresh_env kc p env rows" "map_of (kn_inbox kn) rid = Some r" "rq_session_id r = wp_session_id p"
      "dated kc (rq_created_at r) env" "decide_request kc env rid d actor comment kn rows = (out, kn', rows')"
    then show ?thesis using decide_coherent [OF co p(2)] by simp
  next
    fix lg ps kn' assume "w' = (kn', rows)" "recover_session kc p (new_kernel lg ps) rows = Inr kn'"
    then show ?thesis using restart_iff [OF co g] restarted_coherent [OF co g] by simp
  qed
  then show ?thesis using p(1) by (simp add: session_inv_def)
qed

interpretation session: invariant_system "session_start kc p" "session_step kc p" "session_inv kc p" for kc p
  by unfold_locales (auto intro: start_coherent step_coherent)

abbreviation session_reachable :: "kernel_config \<Rightarrow> workflow_plan \<Rightarrow> kernel \<times> stored_event list \<Rightarrow> bool" where
  "session_reachable kc p \<equiv> reach (session_start kc p) (session_step kc p)"

lemma reachable_coherent: "session_reachable kc p (kn, rows) \<Longrightarrow> session_plan kc p \<and> coherent_session kc p kn rows"
  using session.reach_inv [of kc p "(kn, rows)"] by (simp add: session_inv_def)

end
