(* ===== verification/Kernel_Progress.thy ===== *)
theory Kernel_Progress
  imports Kernel_Run Kernel_Reach
begin

text \<open>
  The rounds of \<open>run\<close> end: a task that is dispatched leaves the tasks still to start, and no
  operation of a run puts one back.
\<close>

section \<open>Tasks still to start\<close>

definition unopened :: "task_status set" where
  "unopened = {TS_PENDING, TS_READY}"

definition open_tasks :: "task_graph \<Rightarrow> string set" where
  "open_tasks g = {t. \<exists>s \<in> unopened. map_of (tg_statuses g) t = Some s}"

lemma open_tasks_finite: "finite (open_tasks g)" "card (open_tasks g) \<le> length (tg_statuses g)"
proof -
  have sub: "open_tasks g \<subseteq> set (dict_keys (tg_statuses g))" by (force simp: open_tasks_def dest: map_of_SomeD)
  then show "finite (open_tasks g)" using finite_subset by blast
  from card_mono [OF _ sub] have "card (open_tasks g) \<le> card (set (dict_keys (tg_statuses g)))" by simp
  also have "\<dots> \<le> length (tg_statuses g)" using card_length [of "dict_keys (tg_statuses g)"] by simp
  finally show "card (open_tasks g) \<le> length (tg_statuses g)" .
qed

text \<open>\<open>settles S g h\<close>: the graph \<open>h\<close> follows \<open>g\<close>, and the tasks of \<open>S\<close> are started or settled in it.\<close>

definition settles :: "string set \<Rightarrow> task_graph \<Rightarrow> task_graph \<Rightarrow> bool" where
  "settles S g h = (graph_inv h \<and> tg_tasks h = tg_tasks g \<and> open_tasks h \<subseteq> open_tasks g - S)"

lemma settles_refl: "graph_inv g \<Longrightarrow> settles {} g g"
  by (simp add: settles_def)

lemma settles_trans: "settles S g h \<Longrightarrow> settles T h k \<Longrightarrow> settles (S \<union> T) g k"
  by (auto simp: settles_def)

lemma settles_weak: "settles S g h \<Longrightarrow> T \<subseteq> S \<Longrightarrow> settles T g h"
  by (auto simp: settles_def)

lemma apply_settles:
  assumes "apply_committed g trs = (h, None)" "graph_inv g"
    and "\<forall>tr \<in> set trs. tt_current tr \<in> unopened \<longrightarrow> tt_previous tr \<in> unopened"
  shows "settles (tt_task_id ` {tr \<in> set trs. tt_current tr \<notin> unopened}) g h"
  using assms
proof (induction trs arbitrary: g)
  case (Cons tr trs)
  obtain g' where g': "transition g (tt_task_id tr) (tt_current tr) (tt_reason tr) = Inr (tr, g')"
    "apply_committed g' trs = (h, None)" using Cons.prems(1) by (auto simp only: apply_committed_Cons)
  let ?S = "\<lambda>trs. tt_task_id ` {tr \<in> set trs. tt_current tr \<notin> unopened}"
  let ?T = "if tt_current tr \<in> unopened then {} else {tt_task_id tr}"
  have st: "map_of (tg_statuses g') = (map_of (tg_statuses g))(tt_task_id tr \<mapsto> tt_current tr)"
    "map_of (tg_statuses g) (tt_task_id tr) = Some (tt_previous tr)"
    using transition_status(1) [OF g'(1)] transition_start(1) [OF g'(1)] by simp_all
  have "open_tasks g' \<subseteq> open_tasks g - ?T"
  proof
    fix t assume t: "t \<in> open_tasks g'"
    show "t \<in> open_tasks g - ?T"
    proof (cases "t = tt_task_id tr")
      case True
      then have "tt_current tr \<in> unopened" using t by (simp add: open_tasks_def st(1))
      moreover from this have "tt_previous tr \<in> unopened" using Cons.prems(3) by simp
      ultimately show ?thesis using True by (simp add: open_tasks_def st(2))
    next
      case False
      then show ?thesis using t by (simp add: open_tasks_def st(1))
    qed
  qed
  then have one: "settles ?T g g'" using transition_inv [OF Cons.prems(2) g'(1)] transition_status(2) [OF g'(1)] by (simp add: settles_def)
  then have rest: "settles (?S trs) g' h" using Cons.IH [OF g'(2)] Cons.prems(3) by (simp add: settles_def)
  have "?S (tr # trs) = ?T \<union> ?S trs" by auto
  then show ?case using settles_trans [OF one rest] by (simp only:)
qed (simp add: settles_refl)

lemma commit_planned_settles:
  assumes "commit_planned kc env s trs c u g rows = (Inr (), h, rows')" "graph_inv g"
    and "\<forall>tr \<in> set trs. tt_current tr \<in> unopened \<longrightarrow> tt_previous tr \<in> unopened"
  shows "settles (tt_task_id ` {tr \<in> set trs. tt_current tr \<notin> unopened}) g h"
proof (cases "trs = []")
  case True
  then show ?thesis using assms(1,2) by (simp add: commit_planned_def settles_refl)
next
  case False
  then have "apply_committed g trs = (h, None)"
    using assms(1) by (auto simp: commit_planned_def split: sum.splits prod.splits option.splits)
  then show ?thesis by (rule apply_settles [OF _ assms(2,3)])
qed

lemma commit_transition_settles:
  assumes "commit_transition kc env s t target c reason g rows = (Inr (), h, rows')" "graph_inv g" "target \<notin> unopened"
  shows "settles {t} g h"
proof -
  obtain tr where tr: "preview_transition g t target reason = Inr tr"
    "commit_planned kc env s [tr] c None g rows = (Inr (), h, rows')"
    using assms(1) by (auto simp: commit_transition_def split: sum.splits)
  then have "tt_task_id tr = t" "tt_current tr = target" by (auto simp: preview_transition_Inr)
  moreover from this have "{x. x = tr \<and> tt_current x \<notin> unopened} = {tr}" using assms(3) by auto
  ultimately show ?thesis using commit_planned_settles [OF tr(2) assms(2)] assms(3) by simp
qed

section \<open>The kernel's graph\<close>

definition graph_settles :: "workflow_plan \<Rightarrow> string set \<Rightarrow> kernel \<Rightarrow> kernel \<Rightarrow> bool" where
  "graph_settles p S kn kn' = (\<forall>g. map_of (kn_graphs kn) (wp_session_id p) = Some g \<longrightarrow> graph_inv g
     \<longrightarrow> (\<exists>h. map_of (kn_graphs kn') (wp_session_id p) = Some h \<and> settles S g h))"

lemma graph_settles_trans: "graph_settles p S a b \<Longrightarrow> graph_settles p T b c \<Longrightarrow> graph_settles p (S \<union> T) a c"
  unfolding graph_settles_def by (metis settles_def settles_trans)

lemma graph_settles_weak: "graph_settles p S a b \<Longrightarrow> T \<subseteq> S \<Longrightarrow> graph_settles p T a b"
  unfolding graph_settles_def by (meson settles_weak)

lemma refresh_settles:
  assumes "commit_refresh kc env p kn rows = (Inr (), kn', rows')"
  shows "graph_settles p {} kn kn'"
  unfolding graph_settles_def
proof (intro allI impI)
  fix g assume g: "map_of (kn_graphs kn) (wp_session_id p) = Some g" "graph_inv g"
  obtain ps where ps: "preview_refresh g = Inr ps"
    "\<forall>tr \<in> set ps. tt_previous tr = TS_PENDING \<and> tt_current tr \<in> {TS_READY, TS_BLOCKED}"
    using refresh_moves [OF g(2)] by blast
  obtain h where h: "commit_planned kc env (wp_session_id p) ps (wp_correlation_id p) None g rows = (Inr (), h, rows')"
    "kn' = set_graph (wp_session_id p) h kn"
    using assms by (auto simp: commit_refresh_def g(1) ps(1) split: prod.splits)
  have "\<forall>tr \<in> set ps. tt_current tr \<in> unopened \<longrightarrow> tt_previous tr \<in> unopened" using ps(2) by (auto simp: unopened_def)
  then show "\<exists>h. map_of (kn_graphs kn') (wp_session_id p) = Some h \<and> settles {} g h"
    using settles_weak [OF commit_planned_settles [OF h(1) g(2)]] by (simp add: h(2))
qed

lemma settle_settles:
  assumes "settle_task kc env p t target reason kn rows = (Inr (), kn', rows')" "target \<notin> unopened"
  shows "graph_settles p {t} kn kn'"
  unfolding graph_settles_def
proof (intro allI impI)
  fix g assume g: "map_of (kn_graphs kn) (wp_session_id p) = Some g" "graph_inv g"
  obtain h where "commit_transition kc env (wp_session_id p) t target (plan_correlation p) reason g rows = (Inr (), h, rows')"
    "kn' = set_graph (wp_session_id p) h kn"
    using assms(1) by (auto simp: settle_task_def g(1) Let_def split: prod.splits)
  then show "\<exists>h. map_of (kn_graphs kn') (wp_session_id p) = Some h \<and> settles {t} g h"
    using commit_transition_settles [OF _ g(2) assms(2)] by simp
qed

lemma deny_settles:
  assumes "deny_task kc env p t reason g rows = (Inr (), h, rows')" "graph_inv g"
  shows "settles {tk_task_id t} g h"
proof -
  obtain tr where tr: "preview_transition g (tk_task_id t) TS_RUNNING None = Inr tr"
    "commit_planned kc env (wp_session_id p) [tr, step_transition (tk_task_id t) TS_RUNNING TS_FAILED (Some reason) (tt_revision tr + 1)]
       (plan_correlation p) None g rows = (Inr (), h, rows')"
    using assms(1) by (auto simp: deny_task_def split: sum.splits)
  have cur: "tt_current tr = TS_RUNNING" "tt_task_id tr = tk_task_id t" using tr(1) by (auto simp: preview_transition_Inr)
  show ?thesis
    by (rule settles_weak [OF commit_planned_settles [OF tr(2) assms(2)]])
       (auto simp: cur unopened_def step_transition_def intro!: image_eqI [of _ _ tr])
qed

lemma request_settles:
  assumes "request_approval kc env p t reason ids g kn rows = (Inr (), kn', rows')" "graph_inv g"
  shows "\<exists>h. map_of (kn_graphs kn') (wp_session_id p) = Some h \<and> settles {tk_task_id t} g h"
proof -
  obtain n h where n: "apply_committed g [step_transition (tk_task_id t) TS_READY TS_RUNNING None (n + 1),
      step_transition (tk_task_id t) TS_RUNNING TS_WAITING_APPROVAL (Some reason) (n + 2)] = (h, None)"
    "map_of (kn_graphs kn') (wp_session_id p) = Some h"
    using assms(1) by (auto simp: request_approval_def Let_def simp del: apply_committed.simps intro: that
        split: if_splits option.splits sum.splits prod.splits)
  have "settles {tk_task_id t} g h"
    by (rule settles_weak [OF apply_settles [OF n(1) assms(2)]])
       (auto simp: unopened_def step_transition_def image_iff intro!: exI [of _ "step_transition (tk_task_id t) TS_READY TS_RUNNING None (n + 1)"])
  then show ?thesis using n(2) by simp
qed

lemma dispatch_settles:
  assumes "dispatch_task kc env ids p t kn rows = (Inr b, kn', rows')"
  shows "graph_settles p {tk_task_id t} kn kn'"
  unfolding graph_settles_def
proof (intro allI impI)
  fix g assume g: "map_of (kn_graphs kn) (wp_session_id p) = Some g" "graph_inv g"
  let ?d = "task_decision kc p t kn"
  have run: "TS_RUNNING \<notin> unopened" by (simp add: unopened_def)
  show "\<exists>h. map_of (kn_graphs kn') (wp_session_id p) = Some h \<and> settles {tk_task_id t} g h"
  proof (cases "pd_outcome ?d")
    case PO_ALLOW
    obtain o1 h rows1 where c: "commit_transition kc env (wp_session_id p) (tk_task_id t) TS_RUNNING (plan_correlation p) None g rows = (o1, h, rows1)"
      by (rule prod_cases3)
    then have "o1 = Inr ()" "kn' = set_graph (wp_session_id p) h kn" "rows1 = rows'"
      using assms PO_ALLOW g(1) by (cases o1; simp add: dispatch_task_def Let_def)+
    then show ?thesis using commit_transition_settles [OF _ g(2) run] c by simp
  next
    case PO_DENY
    obtain o1 h rows1 where c: "deny_task kc env p t (pd_reason ?d) g rows = (o1, h, rows1)" by (rule prod_cases3)
    then have "o1 = Inr ()" "kn' = set_graph (wp_session_id p) h kn" "rows1 = rows'"
      using assms PO_DENY g(1) by (cases o1; simp add: dispatch_task_def Let_def)+
    then show ?thesis using deny_settles [OF _ g(2)] c by simp
  next
    case PO_NEEDS_APPROVAL
    obtain o1 k rows1 where c: "request_approval kc env p t (pd_reason ?d) ids g kn rows = (o1, k, rows1)" by (rule prod_cases3)
    then have "o1 = Inr ()" "kn' = k" "rows1 = rows'"
      using assms PO_NEEDS_APPROVAL g(1) by (cases o1; simp add: dispatch_task_def Let_def)+
    then show ?thesis using request_settles [OF _ g(2)] c by simp
  qed
qed

section \<open>One task, one batch, one run\<close>

lemma publish_settles:
  assumes "publish_result kc te p t a kn rows = (Inr (), kn', rows')"
  shows "graph_settles p {tk_task_id t} kn kn'"
proof -
  obtain kn1 rows1 where k: "kn_graphs kn1 = kn_graphs kn"
    "settle_task kc (te_commits te 4) p (tk_task_id t) TS_COMPLETED None kn1 rows1 = (Inr (), kn', rows')"
    using assms by (auto simp: publish_result_def Let_def intro: that [rotated] split: sum.splits prod.splits)
  have "graph_settles p {tk_task_id t} kn1 kn'" by (rule settle_settles [OF k(2)]) (simp add: unopened_def)
  then show ?thesis by (simp add: graph_settles_def k(1))
qed

lemma run_task_settles:
  assumes "run_task kc te p t kn rows = (Inr (), kn', rows')"
  shows "graph_settles p {tk_task_id t} kn kn'"
proof -
  obtain b kn1 rows1 where d: "dispatch_task kc (te_commits te 0) (te_request te) p t kn rows = (Inr b, kn1, rows1)"
    using assms by (auto simp: run_task_def split: sum.splits prod.splits)
  note start = dispatch_settles [OF d]
  show ?thesis
  proof (cases b)
    case False
    then show ?thesis using assms start d by (auto simp: run_task_def split: sum.splits)
  next
    case True
    obtain r rows2 where i: "invoke_agent kc te p t kn1 rows1 = (r, rows2)" by fastforce
    have failed: "TS_FAILED \<notin> unopened" by (simp add: unopened_def)
    have "graph_settles p {tk_task_id t} kn1 kn'"
    proof (cases r)
      case (Inl e)
      then have "settle_task kc (te_commits te 4) p (tk_task_id t) TS_FAILED (Some (te_text te e)) kn1 rows2 = (Inr (), kn', rows')"
        using assms d i True by (auto simp: run_task_def split: sum.splits prod.splits)
      then show ?thesis by (rule settle_settles [OF _ failed])
    next
      case (Inr a)
      then have "publish_result kc te p t a kn1 rows2 = (Inr (), kn', rows')"
        using assms d i True by (auto simp: run_task_def split: sum.splits prod.splits)
      then show ?thesis by (rule publish_settles)
    qed
    then show ?thesis using graph_settles_trans [OF start] by fastforce
  qed
qed

lemma run_batch_settles:
  "run_batch kc te p ts kn rows = (Inr (), kn', rows') \<Longrightarrow> graph_settles p (tk_task_id ` set ts) kn kn'"
proof (induction ts arbitrary: kn rows)
  case (Cons t ts)
  obtain kn1 rows1 where "run_task kc (te t) p t kn rows = (Inr (), kn1, rows1)" "run_batch kc te p ts kn1 rows1 = (Inr (), kn', rows')"
    using Cons.prems by (auto simp: res_simps split: prod.splits)
  then have "graph_settles p ({tk_task_id t} \<union> tk_task_id ` set ts) kn kn'"
    using Cons.IH run_task_settles graph_settles_trans by blast
  then show ?case by simp
qed (simp add: graph_settles_def settles_refl)

text \<open>The ready tasks of a keyed graph are among its tasks to start.\<close>

definition keyed_graph :: "task_graph \<Rightarrow> bool" where
  "keyed_graph g = (\<forall>(k, t) \<in> set (tg_tasks g). tk_task_id t = k)"

lemma ready_open:
  assumes "ready g None = Inr ts" "keyed_graph g" "t \<in> set ts"
  shows "tk_task_id t \<in> open_tasks g"
proof -
  obtain k where k: "(k, t) \<in> set (tg_tasks g)" "map_of (tg_statuses g) k = Some TS_READY"
    using assms(1,3) by (auto simp: ready_def Let_def split: sum.splits)
  then have "tk_task_id t = k" using assms(2) by (auto simp: keyed_graph_def)
  then show ?thesis using k(2) by (simp add: open_tasks_def unopened_def)
qed

lemma settles_fewer: "settles S g h \<Longrightarrow> card (open_tasks h) \<le> card (open_tasks g)"
  unfolding settles_def by (blast intro: card_mono [OF open_tasks_finite(1)])

lemma settles_less: "settles S g h \<Longrightarrow> t \<in> S \<Longrightarrow> t \<in> open_tasks g \<Longrightarrow> card (open_tasks h) < card (open_tasks g)"
  unfolding settles_def by (blast intro: psubset_card_mono [OF open_tasks_finite(1)])

text \<open>A round that goes on has started a task.\<close>

lemma rounds_end:
  assumes "\<forall>g. map_of (kn_graphs kn) (wp_session_id p) = Some g \<longrightarrow> graph_inv g \<and> keyed_graph g \<and> card (open_tasks g) < n"
    and "0 < n"
  shows "\<exists>r. run_rounds n i kc re p kn rows = Some r"
  using assms
proof (induction n arbitrary: i kn rows)
  case (Suc n)
  obtain o1 kn1 rows1 where f: "commit_refresh kc (re_refresh re i) p kn rows = (o1, kn1, rows1)" by (rule prod_cases3)
  show ?case
  proof (cases "\<exists>g ts. o1 = Inr () \<and> map_of (kn_graphs kn1) (wp_session_id p) = Some g \<and> ready g None = Inr ts \<and> ts \<noteq> []")
    case False
    then show ?thesis using f by (auto split: sum.splits option.splits list.splits)
  next
    case True
    then obtain g1 ts where g1: "o1 = Inr ()" "map_of (kn_graphs kn1) (wp_session_id p) = Some g1" "ready g1 None = Inr ts" "ts \<noteq> []"
      by blast
    obtain g where g: "map_of (kn_graphs kn) (wp_session_id p) = Some g"
      using f g1(1) by (auto simp: commit_refresh_def split: option.splits)
    then have good: "graph_inv g" "keyed_graph g" "card (open_tasks g) \<le> n" using Suc.prems(1) by auto
    have one: "settles {} g g1" using refresh_settles [of kc _ p kn rows kn1 rows1] f g1(1,2) g good(1) by (auto simp: graph_settles_def)
    then have g1': "graph_inv g1" "keyed_graph g1" using good(2) by (simp_all add: settles_def keyed_graph_def)
    obtain o2 kn2 rows2 where b: "run_batch kc (re_task re i) p ts kn1 rows1 = (o2, kn2, rows2)" by (rule prod_cases3)
    show ?thesis
    proof (cases o2)
      case (Inl e)
      then show ?thesis using f g1 b by (auto split: list.splits)
    next
      case (Inr u)
      then obtain h where h: "map_of (kn_graphs kn2) (wp_session_id p) = Some h" "settles (tk_task_id ` set ts) g1 h"
        using run_batch_settles [of kc _ p ts kn1 rows1 kn2 rows2] b g1(2) g1'(1) by (auto simp: graph_settles_def)
      have "hd ts \<in> set ts" using g1(4) by simp
      then have "card (open_tasks h) < card (open_tasks g1)" using settles_less [OF h(2)] ready_open [OF g1(3) g1'(2)] by blast
      then have "card (open_tasks h) < n" using settles_fewer [OF one] good(3) by linarith
      moreover have "graph_inv h" "keyed_graph h" using h(2) g1'(2) by (simp_all add: settles_def keyed_graph_def)
      ultimately have "\<exists>r. run_rounds n (Suc i) kc re p kn2 rows2 = Some r" by (intro Suc.IH) (auto simp: h(1))
      then show ?thesis using f g1 b Inr by (auto split: list.splits)
    qed
  qed
qed simp

lemma rounds_quiet:
  "run_rounds n i kc re p kn rows = Some (Inr (), kn', rows') \<Longrightarrow>
     \<exists>g. map_of (kn_graphs kn') (wp_session_id p) = Some g \<and> ready g None = Inr []"
  by (induction n arbitrary: i kn rows) (auto split: sum.splits option.splits list.splits prod.splits)

lemma sound_keyed: "sound_graph p g \<Longrightarrow> graph_inv g \<and> keyed_graph g \<and> length (tg_statuses g) = length (wp_tasks p)"
proof -
  assume s: "sound_graph p g"
  then have "length (dict_keys (tg_statuses g)) = length (dict_keys (tasks_of (wp_tasks p)))" by (simp add: sound_graph_def graph_inv_def)
  then show ?thesis using s by (auto simp: sound_graph_def keyed_graph_def tasks_of_def)
qed

end
