(* ===== verification/Chat_Router.thy ===== *)
theory Chat_Router
  imports Protocol
begin

text \<open>
  \<open>chat.py\<close>: the inbound chat message and the router that sends it to the mentioned agents or to
  the planner. The fresh message id and the clock of \<open>CoordinationEnvelope.create\<close> are arguments.
\<close>

datatype chat_route = CR_DIRECT | CR_PLANNER

definition chat_route_value :: "chat_route \<Rightarrow> string" where
  "chat_route_value r = (case r of CR_DIRECT \<Rightarrow> ''direct'' | CR_PLANNER \<Rightarrow> ''planner'')"

record inbound_message =
  im_provider :: string
  im_external_id :: string
  im_session_id :: string
  im_thread_id :: string
  im_sender :: actor_ref
  im_text :: string
  im_mentioned :: "string list"

definition check_inbound :: "inbound_message \<Rightarrow> py_error + inbound_message" where
  "check_inbound m =
     (if list_ex blank [im_provider m, im_external_id m, im_session_id m, im_thread_id m, im_text m]
        then Inl (ValueError ''chat provider, ids, and text are required'') else Inr m)"

record routed_message =
  rm_route :: chat_route
  rm_envelope :: envelope
  rm_direct :: "actor_ref list"

record router =
  ro_roster :: "(string, actor_ref) dict"
  ro_planner :: actor_ref

definition new_router :: "(string, actor_ref) dict \<Rightarrow> actor_ref \<Rightarrow> py_error + router" where
  "new_router roster planner =
     (if ar_kind planner \<notin> {AK_AGENT, AK_SYSTEM} then Inl (ValueError ''planner must be an agent or system actor'')
      else Inr \<lparr>ro_roster = roster, ro_planner = planner\<rparr>)"

definition direct_agents :: "router \<Rightarrow> inbound_message \<Rightarrow> actor_ref list" where
  "direct_agents ro m = filter (\<lambda>a. ar_kind a = AK_AGENT)
     (concat (map (\<lambda>i. case map_of (ro_roster ro) i of None \<Rightarrow> [] | Some a \<Rightarrow> [a]) (im_mentioned m)))"

definition chat_payload :: "inbound_message \<Rightarrow> chat_route \<Rightarrow> (string, json) dict" where
  "chat_payload m r = [(''text'', JStr (im_text m)), (''route'', JStr (chat_route_value r)),
     (''provider'', JStr (im_provider m)), (''externalMessageId'', JStr (im_external_id m)),
     (''mentionedActorIds'', jstrs (im_mentioned m))]"

definition chat_key :: "inbound_message \<Rightarrow> string" where
  "chat_key m = ''chat:'' @ im_provider m @ '':'' @ im_external_id m"

definition route_message :: "string \<Rightarrow> string \<Rightarrow> router \<Rightarrow> inbound_message \<Rightarrow> py_error + routed_message" where
  "route_message message_id now ro m =
     (if list_ex (\<lambda>i. i \<notin> set (dict_keys (ro_roster ro))) (im_mentioned m)
        then Inl (KeyError ''mentioned actors are not in the session roster'')
      else let direct = direct_agents ro m;
               route = (if direct \<noteq> [] then CR_DIRECT else CR_PLANNER);
               recipients = (if direct \<noteq> [] then direct else [ro_planner ro]) in
        bind_res (create_envelope message_id now (im_session_id m) (im_thread_id m) (im_sender m) recipients
            EK_CHAT (chat_payload m route) None (JStr (im_external_id m)) (Some (chat_key m)) None) (\<lambda>e.
          Inr \<lparr>rm_route = route, rm_envelope = e, rm_direct = direct\<rparr>))"

definition dispatch_message ::
  "string \<Rightarrow> string \<Rightarrow> router \<Rightarrow> (routed_message \<Rightarrow> 'r) \<Rightarrow> (routed_message \<Rightarrow> 'r) \<Rightarrow> inbound_message \<Rightarrow> py_error + 'r" where
  "dispatch_message message_id now ro direct_handler planner_handler m =
     bind_res (route_message message_id now ro m) (\<lambda>routed.
       Inr (if rm_route routed = CR_DIRECT then direct_handler routed else planner_handler routed))"

text \<open>
  Routing is exact: a well-formed message whose mentions are all in the roster is always routed,
  to the mentioned agents if there is one and otherwise to the planner alone; a mention of a human
  or of a system actor never becomes a recipient; and a message with an unknown mention is refused.
\<close>

theorem route_exact:
  assumes "new_router roster planner = Inr ro" and "check_inbound m = Inr m" and "\<not> blank message_id"
  shows "case route_message message_id now ro m of
      Inl e \<Rightarrow> \<exists>i \<in> set (im_mentioned m). map_of roster i = None
    | Inr r \<Rightarrow> (\<forall>i \<in> set (im_mentioned m). map_of roster i \<noteq> None)
        \<and> set (rm_direct r) = {a. ar_kind a = AK_AGENT \<and> (\<exists>i \<in> set (im_mentioned m). map_of roster i = Some a)}
        \<and> en_recipients (rm_envelope r) = (if rm_direct r = [] then [planner] else rm_direct r)
        \<and> (rm_route r = CR_DIRECT \<longleftrightarrow> rm_direct r \<noteq> [])
        \<and> en_idempotency_key (rm_envelope r) = chat_key m"
proof -
  have ro: "ro_roster ro = roster" "ro_planner ro = planner"
    using assms(1) by (auto simp: new_router_def split: if_splits)
  have known: "list_ex (\<lambda>i. i \<notin> set (dict_keys roster)) (im_mentioned m)
      \<longleftrightarrow> (\<exists>i \<in> set (im_mentioned m). map_of roster i = None)"
    by (simp add: list_ex_iff map_of_eq_None_iff)
  have direct: "set (direct_agents ro m) = {a. ar_kind a = AK_AGENT \<and> (\<exists>i \<in> set (im_mentioned m). map_of roster i = Some a)}"
    by (auto simp: direct_agents_def ro split: option.splits) force
  have key: "\<not> blank (chat_key m)" by (simp add: chat_key_def blank_iff py_space_def)
  then have "chat_key m \<noteq> []" by auto
  then have "or_str (Some (chat_key m)) message_id = chat_key m" by (simp add: or_str_def)
  then show ?thesis
    using assms(2,3) key direct unfolding route_message_def ro known create_envelope_def check_envelope_def
    by (auto simp: Let_def current_schema_def check_inbound_def split: if_splits)
qed

end
