(* ===== verification/Kernel_Props.thy ===== *)
theory Kernel_Props
  imports Kernel_Progress Artifact_Props Scheduler_Run Chat_Router
begin

text \<open>The properties of the orchestrator kernel, over every reachable session.\<close>

text \<open>
  C1. The log is the session, for a plan that recovery can read: one that decoding its stored, sorted JSON
  gives back, and whose task ids are not empty (\<open>session_plan\<close>; the kernel also starts plans with an
  empty task id, whose transitions recovery refuses: \<open>empty_task_id_refused\<close>). Such a plan is started
  in a kernel that does not know the session, on a log without state events of it, and goes through any
  sequence of refreshes, dispatches, settlements, decisions and restarts, each of which may fail, lose
  its acknowledgement or be preceded and followed by the commits of other connections. The events of a
  commit carry new, non-blank ids and valid times, an approval request a new id and a time not after the
  events that record it and its decision; the other connections only append, and to this stream only
  readable events that are no state of the session. Then a new kernel that recovers the session from the
  log gets exactly the plan, the graph with every status and revision, the approval requests with their
  decisions and the approved tasks that the running kernel holds. It is refused exactly when a task
  is RUNNING or when the stream is over the limits of a recovery.
\<close>

theorem recovery_rebuilds_session:
  assumes "session_reachable kc p (kn, rows)"
  shows "\<exists>g. map_of (kn_plans kn) (wp_session_id p) = Some p \<and> map_of (kn_graphs kn) (wp_session_id p) = Some g
    \<and> (case recover_session kc p (new_kernel lg ps) rows of
         Inl e \<Rightarrow> \<not> (within_limits kc (stream_of (session_stream (wp_session_id p)) rows) \<and> no_running g)
       | Inr kn' \<Rightarrow> within_limits kc (stream_of (session_stream (wp_session_id p)) rows) \<and> no_running g
           \<and> map_of (kn_plans kn') (wp_session_id p) = Some p \<and> map_of (kn_graphs kn') (wp_session_id p) = Some g
           \<and> session_requests (wp_session_id p) kn' = session_requests (wp_session_id p) kn
           \<and> (\<forall>t. ((wp_session_id p, t) \<in> kn_approved kn') = ((wp_session_id p, t) \<in> kn_approved kn)))"
proof -
  let ?s = "wp_session_id p"
  have co: "coherent_session kc p kn rows" using reachable_coherent [OF assms] by blast
  obtain g where g: "map_of (kn_graphs kn) ?s = Some g" "map_of (kn_plans kn) ?s = Some p" "sound_session p g kn"
    using co by (rule session_coherentE)
  note iff = restart_iff [OF co g(1), of lg ps, unfolded plan_stream_def]
  show ?thesis
  proof (cases "recover_session kc p (new_kernel lg ps) rows")
    case (Inl e)
    then show ?thesis using iff g by (auto intro!: exI [of _ g])
  next
    case (Inr kn')
    then have r: "within_limits kc (stream_of (session_stream ?s) rows)" "no_running g"
      "kn' = restarted lg ps p g (session_requests ?s kn)" using iff by blast+
    have "coherent_session kc p kn' rows" unfolding r(3) by (rule restarted_coherent [OF co g(1)])
    then obtain g' where g': "map_of (kn_graphs kn') ?s = Some g'" "map_of (kn_plans kn') ?s = Some p" "sound_session p g' kn'"
      by (rule session_coherentE)
    have reqs: "session_requests ?s kn' = session_requests ?s kn"
      by (simp add: r(3) restarted_def session_requests_def inbox_of_def comp_def)
    have appr: "(?s, t) \<in> kn_approved k \<longleftrightarrow> (\<exists>r \<in> set (session_requests ?s k). rq_task_id r = t \<and> rq_decision r = Some AD_APPROVE)"
      if "sound_session p h k" for h k t
      using that unfolding sound_session_def request_status_def Let_def by (fastforce split: option.splits)
    have "map_of (kn_graphs kn') ?s = Some g" by (simp add: r(3) restarted_def)
    then show ?thesis using Inr r(1,2) g g'(2) reqs appr [OF g(3)] appr [OF g'(3)] by simp
  qed
qed

text \<open>
  C2. Nothing runs without leave: a task of a session that runs or has completed is one whose action the
  policy allows on its own, or one for which a human decided APPROVE on a request that named exactly
  this task and this action.
\<close>

theorem nothing_runs_unapproved:
  assumes "session_reachable kc p (kn, rows)" and "t \<in> set (wp_tasks p)"
    and "status_at kn p (tk_task_id t) \<in> {Some TS_RUNNING, Some TS_COMPLETED}"
  shows "pd_outcome (evaluate (kc_forbidden kc) (tk_action t) (hc_authority (tk_handoff t))) = PO_ALLOW
    \<or> (\<exists>r \<in> set (dict_values (kn_inbox kn)). rq_session_id r = wp_session_id p \<and> rq_task_id r = tk_task_id t
        \<and> rq_intent r = tk_action t \<and> rq_decision r = Some AD_APPROVE \<and> (\<exists>a. rq_decided_by r = Some a \<and> a \<noteq> []))"
proof -
  let ?s = "wp_session_id p"
  have co: "coherent_session kc p kn rows" using reachable_coherent [OF assms(1)] by blast
  obtain g where g: "map_of (kn_graphs kn) ?s = Some g" "sound_session p g kn" "permitted kc p g kn" "sound_graph p g" "graph_inv g"
    using co by (rule session_coherentE)
  have "may_run kc p kn t" using assms(2,3) g(1,3) by (auto simp: permitted_def status_at_def)
  then consider "pd_outcome (evaluate (kc_forbidden kc) (tk_action t) (hc_authority (tk_handoff t))) = PO_ALLOW"
    | r where "r \<in> set (session_requests ?s kn)" "rq_task_id r = tk_task_id t" "rq_decision r = Some AD_APPROVE"
    using g(2) unfolding may_run_def sound_session_def Let_def by blast
  then show ?thesis
  proof cases
    case (2 r)
    then have r: "request_fits p g r" "sound_request r" using g(2) unfolding sound_session_def Let_def by blast+
    have "map_of (tg_tasks g) (tk_task_id t) = Some t"
      using assms(2) g(4,5) by (auto simp: sound_graph_def graph_inv_def tasks_of_def)
    then have "rq_intent r = tk_action t" using r(1) 2(2) by (auto simp: request_fits_def)
    moreover have "\<exists>a. rq_decided_by r = Some a \<and> a \<noteq> []" using r(2) 2(3) by (auto simp: sound_request_def)
    ultimately show ?thesis using 2 by (auto simp: session_requests_def)
  qed simp
qed

text \<open>
  C26. A run ends: with one round more than the plan has tasks, the loop of \<open>run\<close> has returned, whatever
  the agents reply, the hooks raise and the log refuses; and a run that returns without an error
  leaves no task that is ready to start.
\<close>

theorem run_ends:
  assumes "session_reachable kc p (kn, rows)"
  shows "\<exists>out kn' rows'. run_rounds (Suc (length (wp_tasks p))) i kc re p kn rows = Some (out, kn', rows')
    \<and> (out = Inr () \<longrightarrow> (\<exists>g. map_of (kn_graphs kn') (wp_session_id p) = Some g \<and> ready g None = Inr []))"
proof -
  have co: "coherent_session kc p kn rows" using reachable_coherent [OF assms] by blast
  obtain g where g: "map_of (kn_graphs kn) (wp_session_id p) = Some g" "sound_graph p g" using co by (rule session_coherentE)
  have "graph_inv g \<and> keyed_graph g \<and> card (open_tasks g) < Suc (length (wp_tasks p))"
    using sound_keyed [OF g(2)] open_tasks_finite(2) [of g] by linarith
  then have "\<exists>r. run_rounds (Suc (length (wp_tasks p))) i kc re p kn rows = Some r" by (intro rounds_end) (auto simp: g(1))
  then show ?thesis using rounds_quiet by fastforce
qed

text \<open>
  C18. A commit is all or nothing, also when its acknowledgement is lost. Let the events of a non-empty
  batch belong to one non-blank stream, be readable, and carry ids drawn for this commit, which no other
  connection uses; the others may append whatever else they like before and after it. If the commit
  returns an error, the log is exactly what the others made of it and holds none of the events. If it
  returns, its events are in the log as one block, in order, right behind what the others had appended
  before, and with only their later events behind it: nothing when the commit was acknowledged.
\<close>

theorem commit_all_or_nothing:
  assumes "log_inv rows" and "others_append (kc_events kc) env" and "\<not> blank stream" and "es \<noteq> []"
    and "\<forall>e \<in> set es. drawn (kc_events kc) stream env rows e"
    and "commit_events kc env stream es rows = (out, rows')"
  shows "case out of
      Inl x \<Rightarrow> rows' \<in> {rows, ce_after env (ce_before env rows)} \<and> (\<forall>e \<in> set es. ev_event_id e \<notin> event_ids rows')
    | Inr ss \<Rightarrow> map se_event ss = map stored_form es
        \<and> rows' = (if ce_ack env then ce_before env rows @ ss else ce_after env (ce_before env rows @ ss))
        \<and> (\<exists>before after. rows' = rows @ before @ ss @ after)"
proof (cases "map_res check_event es")
  case (Inl e)
  then show ?thesis using assms(5,6) by (auto simp: commit_events_def drawn_def)
next
  case (Inr es')
  then have "es' = es" by (rule check_events_id)
  then have ap: "append_reconciled (kc_events kc) env stream es (version_of stream rows) rows = (out, rows')"
    using assms(6) Inr by (simp add: commit_events_def)
  note exact = append_reconciled_exact [OF assms(1-5) ap]
  show ?thesis
  proof (cases out)
    case (Inl x)
    show ?thesis using exact unfolding Inl sum.case by blast
  next
    case out: (Inr ss)
    note step = others_append_event [OF assms(2)]
    obtain before where b: "ce_before env rows = rows @ before" using step(1) assms(1) by (rule log_steps_more)
    obtain after where "ce_after env (ce_before env rows @ ss) = (ce_before env rows @ ss) @ after"
      using log_steps_more [OF step(2) [of "ce_before env rows @ ss"]] exact unfolding out sum.case by metis
    then have "rows' = rows @ before @ ss @ (if ce_ack env then [] else after)"
      using exact [unfolded out] b by simp
    then show ?thesis using exact unfolding out sum.case by blast
  qed
qed

text \<open>A session of one task, started on an empty log and dispatched.\<close>

definition demo_kernel_config :: kernel_config where
  "demo_kernel_config = \<lparr>kc_events = ledger_config, kc_conv = no_conv, kc_instant = (\<lambda>t. Some (Some 0)),
     kc_digest = (\<lambda>v. ''d''), kc_forbidden = [], kc_context_budget = 8000\<rparr>"

definition demo_task :: task_spec where
  "demo_task = sample_task ''a'' []"

definition demo_workflow :: workflow_plan where
  "demo_workflow = \<lparr>wp_session_id = ''s'', wp_goal = ''g'', wp_initiated_by = ''u'', wp_tasks = [demo_task],
     wp_plan_id = ''p'', wp_correlation_id = None\<rparr>"

definition demo_graph :: "task_status \<Rightarrow> int \<Rightarrow> task_graph" where
  "demo_graph st n = \<lparr>tg_tasks = [(''a'', demo_task)], tg_statuses = [(''a'', st)], tg_reasons = [], tg_revisions = [(''a'', n)]\<rparr>"

lemma demo_graph_init: "graph_init (wp_tasks demo_workflow) = Inr (demo_graph TS_PENDING 0)"
  by (simp add: demo_workflow_def graph_init_def validate_acyclic_def visit.simps demo_task_def sample_task_def demo_graph_def)

lemma demo_fields: "wp_session_id demo_workflow = ''s''" "wp_plan_id demo_workflow = ''p''" "wp_tasks demo_workflow = [demo_task]"
  "wp_correlation_id demo_workflow = None" "wp_initiated_by demo_workflow = ''u''" "tk_task_id demo_task = ''a''"
  by (simp_all add: demo_workflow_def demo_task_def sample_task_def)

lemma demo_stable: "stable_plan demo_kernel_config demo_workflow"
  unfolding stable_plan_def
  by (simp add: plan_to_dict_def demo_workflow_def demo_task_def sample_task_def task_spec_to_dict_def handoff_to_dict_def
      sample_handoff_def action_intent_to_dict_def authority_to_dict_def default_authority_def jopt_def)
    (simp add: plan_from_dict_def check_plan_def task_spec_from_dict_def check_task_spec_def handoff_from_dict_def
      check_handoff_def action_intent_from_dict_def authority_from_dict_def not_blank str_tuple_def
      enum_of_def risk_levels_def)

section \<open>Commits\<close>

definition demo_env :: "string \<Rightarrow> commit_env" where
  "demo_env s = \<lparr>ce_before = id, ce_after = id, ce_ack = True,
     ce_fresh = (\<lambda>i. \<lparr>fe_id = s @ replicate i (CHR ''x''), fe_timestamp = ''2026-01-01T00:00:00Z''\<rparr>)\<rparr>"

lemma demo_env: "ce_before (demo_env s) = id" "ce_after (demo_env s) = id" "ce_ack (demo_env s)"
  "fe_id (ce_fresh (demo_env s) i) = s @ replicate i (CHR ''x'')" "fe_timestamp (ce_fresh (demo_env s) i) = ''2026-01-01T00:00:00Z''"
  by (simp_all add: demo_env_def)

lemma demo_fresh:
  assumes "\<not> blank s" "\<forall>i. s @ replicate i (CHR ''x'') \<notin> event_ids rows"
  shows "fresh_env demo_kernel_config p (demo_env s) rows"
  using assms by (auto simp: fresh_env_def polite_def demo_env demo_kernel_config_def ledger_calendar blank_iff py_space_def)

lemma snapshot_small:
  assumes "ev_payload e = JObj d" "json_fits 0 (JObj d)" "json_nodes (JObj d) \<le> 10000"
    and "json_bulk (cf_platform cf) (JObj d) \<le> cf_max_json_bytes cf" "check_event e = Inr e"
  shows "snapshot_event cf e = Inr (stored_form e)"
proof -
  have "length (canonical_bytes (cf_platform cf) (JObj d)) \<le> cf_max_json_bytes cf"
    using json_bulk [of "cf_platform cf" "JObj d"] assms(4) by linarith
  moreover have "copy_json 0 0 (JObj d) = Inr (json_nodes (JObj d))" unfolding copy_json_iff using assms(2,3) by simp
  ultimately have "snapshot_json cf (JObj d) = Inr (sort_json (JObj d))"
    by (simp add: snapshot_json_def del: sort_json.simps canonical_bytes.simps json_nodes.simps)
  then show ?thesis using assms(1,5)
    by (auto simp: snapshot_event_def check_event_def stored_form_def split: if_splits simp del: sort_json.simps)
qed

text \<open>The events of the start.\<close>

definition demo_ready :: task_transition where
  "demo_ready = step_transition ''a'' TS_PENDING TS_READY None 1"

definition demo_running :: task_transition where
  "demo_running = step_transition ''a'' TS_READY TS_RUNNING None 2"

lemma demo_refresh: "refresh (demo_graph TS_PENDING 0) = Inr ([demo_ready], demo_graph TS_READY 1)"
  by (simp add: refresh_def preview_refresh_def plan_one_def preview_transition_def transition_def set_reason_def Let_def
      status_sets demo_graph_def demo_task_def sample_task_def demo_ready_def step_transition_def)

definition demo_plan_event :: domain_event where
  "demo_plan_event = plan_event demo_workflow (ce_fresh (demo_env ''e'') 0)"

definition demo_task_event :: domain_event where
  "demo_task_event = task_event demo_workflow demo_task (ce_fresh (demo_env ''e'') 1)"

definition demo_ready_event :: domain_event where
  "demo_ready_event = transition_event ''s'' demo_ready None None (ce_fresh (demo_env ''e'') 2)"

definition demo_running_event :: domain_event where
  "demo_running_event = transition_event ''s'' demo_running (Some ''p'') None (ce_fresh (demo_env ''f'') 0)"

lemma demo_events: "plan_events demo_workflow [demo_ready] (ce_fresh (demo_env ''e'')) = [demo_plan_event, demo_task_event, demo_ready_event]"
  by (simp add: plan_events_def demo_fields eval_nat_numeral demo_plan_event_def demo_task_event_def demo_ready_event_def)

lemmas demo_event_defs = demo_plan_event_def demo_task_event_def demo_ready_event_def demo_running_event_def plan_event_def task_event_def transition_event_def kernel_event_def check_event_def
  plan_to_dict_def demo_workflow_def demo_task_def sample_task_def task_spec_to_dict_def handoff_to_dict_def
  sample_handoff_def action_intent_to_dict_def authority_to_dict_def default_authority_def jopt_def ledger_config_def
  blank_iff py_space_def session_stream_def transition_payload_def demo_ready_def demo_running_def step_transition_def
  system_actor_def int_text_def digits.simps

lemma demo_snapshots: "snapshot_event ledger_config demo_plan_event = Inr (stored_form demo_plan_event)"
  "snapshot_event ledger_config demo_task_event = Inr (stored_form demo_task_event)"
  "snapshot_event ledger_config demo_ready_event = Inr (stored_form demo_ready_event)"
  "snapshot_event ledger_config demo_running_event = Inr (stored_form demo_running_event)"
  by (rule snapshot_small, simp add: demo_event_defs; simp add: demo_event_defs)+

text \<open>The rows of the log after the start and after the dispatch.\<close>

definition demo_rows :: "domain_event list \<Rightarrow> stored_event list" where
  "demo_rows es = map (\<lambda>(i, e). \<lparr>se_event = stored_form e, se_sequence = int i + 1, se_global_position = int i + 1\<rparr>) (enumerate 0 es)"

lemma demo_ids: "ev_event_id demo_plan_event = ''e''" "ev_event_id demo_task_event = ''ex''" "ev_event_id demo_ready_event = ''exx''"
  "ev_event_id demo_running_event = ''f''"
  by (simp_all add: demo_event_defs demo_env eval_nat_numeral)

lemma demo_streams: "ev_stream_id demo_plan_event = ''session:s''" "ev_stream_id demo_task_event = ''session:s''"
  "ev_stream_id demo_ready_event = ''session:s''" "ev_stream_id demo_running_event = ''session:s''"
  by (simp_all add: demo_event_defs)

lemma demo_keys: "ev_idempotency_key demo_plan_event = Some ''plan:p''" "ev_idempotency_key demo_task_event = Some ''task-created:a''"
  "ev_idempotency_key demo_ready_event = Some ''task-status:a:1''" "ev_idempotency_key demo_running_event = Some ''task-status:a:2''"
proof -
  have "status_key ''a'' 1 = ''task-status:a:1''" "status_key ''a'' 2 = ''task-status:a:2''" by code_simp+
  then show "ev_idempotency_key demo_plan_event = Some ''plan:p''" "ev_idempotency_key demo_task_event = Some ''task-created:a''"
    "ev_idempotency_key demo_ready_event = Some ''task-status:a:1''" "ev_idempotency_key demo_running_event = Some ''task-status:a:2''"
    by (simp_all add: demo_event_defs)
qed

lemma stored_form_fields: "ev_event_id (stored_form e) = ev_event_id e" "ev_stream_id (stored_form e) = ev_stream_id e"
  "ev_idempotency_key (stored_form e) = ev_idempotency_key e"
  by (simp_all add: stored_form_def)

lemmas demo_insert = insert_event_def last_position_def version_of_def in_stream_def same_key_event_def demo_ids demo_streams
  demo_keys stored_form_fields max_row_integer_def check_option_def check_row_integer_def demo_rows_def

lemma demo_append:
  "append_many ledger_config ''session:s'' [demo_plan_event, demo_task_event, demo_ready_event] (Some 0) []
     = Inr (demo_rows [demo_plan_event, demo_task_event, demo_ready_event], demo_rows [demo_plan_event, demo_task_event, demo_ready_event])"
  by (simp add: append_many_def demo_snapshots demo_insert)

lemma demo_append_running:
  "append_many ledger_config ''session:s'' [demo_running_event] (Some 3) (demo_rows [demo_plan_event, demo_task_event, demo_ready_event])
     = Inr ([\<lparr>se_event = stored_form demo_running_event, se_sequence = 4, se_global_position = 4\<rparr>],
         demo_rows [demo_plan_event, demo_task_event, demo_ready_event, demo_running_event])"
  by (simp add: append_many_def demo_snapshots demo_insert)

lemma demo_checks: "check_event demo_plan_event = Inr demo_plan_event" "check_event demo_task_event = Inr demo_task_event"
  "check_event demo_ready_event = Inr demo_ready_event" "check_event demo_running_event = Inr demo_running_event"
  by (simp_all add: demo_event_defs)

section \<open>The session\<close>

definition demo_kernel :: "task_status \<Rightarrow> int \<Rightarrow> kernel" where
  "demo_kernel st n = (new_kernel new_ledger [])\<lparr>kn_plans := [(''s'', demo_workflow)], kn_graphs := [(''s'', demo_graph st n)]\<rparr>"

abbreviation demo_start_rows :: "stored_event list" where
  "demo_start_rows \<equiv> demo_rows [demo_plan_event, demo_task_event, demo_ready_event]"

abbreviation demo_run_rows :: "stored_event list" where
  "demo_run_rows \<equiv> demo_rows [demo_plan_event, demo_task_event, demo_ready_event, demo_running_event]"

lemma demo_config: "kc_events demo_kernel_config = ledger_config"
  by (simp add: demo_kernel_config_def)

lemma demo_unstarted: "untouched demo_kernel_config demo_workflow (new_kernel new_ledger []) []"
  using event_log.reach_inv [OF first_reachable(1)]
  by (simp add: untouched_def new_kernel_def session_requests_def keyed_inbox_def inbox_of_def)

lemma demo_recovered: "recover_session demo_kernel_config demo_workflow (new_kernel new_ledger []) [] = Inr (new_kernel new_ledger [])"
proof -
  have "within_limits demo_kernel_config []" by (simp add: within_limits_def session_bytes_def session_nodes_def)
  then have "recover_loop demo_kernel_config demo_workflow 0 0 0 0 new_recovery [] = Inr new_recovery"
    using recovery_iff [OF unstarted_replay [OF demo_unstarted], of new_recovery] by (simp add: stream_of_def)
  then show ?thesis by (simp add: recover_session_def finish_recovery_def new_recovery_def new_kernel_def)
qed

lemma demo_initialized:
  "initialize_plan demo_kernel_config (demo_env ''e'') demo_workflow (new_kernel new_ledger []) []
     = (Inr (), demo_kernel TS_READY 1, demo_start_rows)"
proof -
  have "commit_events demo_kernel_config (demo_env ''e'') (session_stream ''s'') [demo_plan_event, demo_task_event, demo_ready_event] []
      = (Inr demo_start_rows, demo_start_rows)"
    using demo_append by (simp add: commit_events_def append_reconciled_def demo_checks demo_env demo_config version_of_def session_stream_def)
  moreover have "kn_plans (new_kernel new_ledger []) = []" by (simp add: new_kernel_def)
  ultimately show ?thesis
    by (simp add: initialize_plan_def demo_fields demo_graph_init [unfolded demo_fields] demo_refresh demo_events Let_def)
      (simp add: demo_kernel_def new_kernel_def)
qed

lemma demo_start: "session_reachable demo_kernel_config demo_workflow (demo_kernel TS_READY 1, demo_start_rows)"
proof (rule reach_init)
  have "open_session demo_kernel_config (demo_env ''e'') demo_workflow (new_kernel new_ledger []) []
      = (Inr demo_workflow, demo_kernel TS_READY 1, demo_start_rows)"
    using demo_initialized by (simp add: open_session_def demo_recovered)
      (simp add: demo_kernel_def demo_fields new_kernel_def)
  moreover have "session_plan demo_kernel_config demo_workflow"
    using demo_stable by (simp add: session_plan_def named_tasks_def demo_fields)
  moreover have "fresh_env demo_kernel_config demo_workflow (demo_env ''e'') []"
    by (rule demo_fresh) (simp_all add: blank_iff py_space_def event_ids_def)
  ultimately show "session_start demo_kernel_config demo_workflow (demo_kernel TS_READY 1, demo_start_rows)"
    using demo_unstarted unfolding session_start_def by blast
qed

lemma demo_dispatched:
  "dispatch_task demo_kernel_config (demo_env ''f'') (''r'', ''2026-01-01T00:00:00Z'') demo_workflow demo_task (demo_kernel TS_READY 1) demo_start_rows
     = (Inr True, demo_kernel TS_RUNNING 2, demo_run_rows)"
proof -
  have ver: "version_of ''session:s'' demo_start_rows = 3" by (simp add: demo_insert)
  have c: "commit_events demo_kernel_config (demo_env ''f'') (session_stream ''s'') [demo_running_event] demo_start_rows
      = (Inr [\<lparr>se_event = stored_form demo_running_event, se_sequence = 4, se_global_position = 4\<rparr>], demo_run_rows)"
    using demo_append_running
    by (simp add: commit_events_def append_reconciled_def demo_checks demo_env demo_config session_stream_def ver)
  have pv: "preview_transition (demo_graph TS_READY 1) ''a'' TS_RUNNING None = Inr demo_running"
    by (simp add: preview_transition_def demo_graph_def demo_running_def step_transition_def)
  have ap: "apply_committed (demo_graph TS_READY 1) [demo_running] = (demo_graph TS_RUNNING 2, None)"
    by (simp add: transition_def pv demo_running_def step_transition_def) (simp add: demo_graph_def set_reason_def)
  have cp: "plan_correlation demo_workflow = Some ''p''" by (simp add: plan_correlation_def demo_fields or_str_def)
  have g: "map_of (kn_graphs (demo_kernel TS_READY 1)) ''s'' = Some (demo_graph TS_READY 1)" by (simp add: demo_kernel_def)
  have "commit_transition demo_kernel_config (demo_env ''f'') ''s'' ''a'' TS_RUNNING (Some ''p'') None (demo_graph TS_READY 1) demo_start_rows
      = (Inr (), demo_graph TS_RUNNING 2, demo_run_rows)"
    using c ap by (simp add: commit_transition_def pv commit_planned_def flip: demo_running_event_def)
  moreover have "pd_outcome (task_decision demo_kernel_config demo_workflow demo_task (demo_kernel TS_READY 1)) = PO_ALLOW"
    by (simp add: task_decision_def evaluate_def demo_task_def sample_task_def safe_read_actions_def demo_kernel_config_def)
  ultimately show ?thesis
    by (simp add: dispatch_task_def demo_fields g cp Let_def) (simp add: set_graph_def demo_kernel_def)
qed

lemma demo_run: "session_reachable demo_kernel_config demo_workflow (demo_kernel TS_RUNNING 2, demo_run_rows)"
proof (rule reach_step [OF demo_start])
  have "fresh_env demo_kernel_config demo_workflow (demo_env ''f'') demo_start_rows"
    by (rule demo_fresh) (auto simp: blank_iff py_space_def event_ids_def demo_rows_def demo_ids stored_form_fields)
  then show "session_step demo_kernel_config demo_workflow (demo_kernel TS_READY 1, demo_start_rows) (demo_kernel TS_RUNNING 2, demo_run_rows)"
  proof (rule step_dispatch [OF _ _ _ _ demo_dispatched])
    show "demo_task \<in> set (wp_tasks demo_workflow)" by (simp add: demo_fields)
    show "status_at (demo_kernel TS_READY 1) demo_workflow (tk_task_id demo_task) = Some TS_READY"
      by (simp add: status_at_def demo_kernel_def demo_fields demo_graph_def)
    show "new_request demo_kernel_config (demo_kernel TS_READY 1) (''r'', ''2026-01-01T00:00:00Z'') (demo_env ''f'')"
      by (simp add: new_request_def dated_def demo_kernel_config_def demo_kernel_def new_kernel_def utc_shape_def)
  qed
qed

lemma recovery_rebuilds_session_witness:
  "\<exists>e. recover_session demo_kernel_config demo_workflow (new_kernel new_ledger []) demo_run_rows = Inl e"
  using recovery_rebuilds_session [OF demo_run, of new_ledger "[]"]
  by (auto simp: demo_kernel_def demo_fields demo_graph_def no_running_def split: sum.splits)

lemma nothing_runs_unapproved_witness:
  "pd_outcome (evaluate [] (tk_action demo_task) (hc_authority (tk_handoff demo_task))) = PO_ALLOW"
  using nothing_runs_unapproved [OF demo_run, of demo_task]
  by (simp add: demo_kernel_def demo_fields demo_graph_def status_at_def demo_kernel_config_def new_kernel_def)

text \<open>An agent that answers every task.\<close>

definition demo_task_env :: task_env where
  "demo_task_env = \<lparr>te_commits = (\<lambda>i. demo_env (''g'' @ replicate i (CHR ''y''))), te_request = (''r'', ''2026-01-01T00:00:00Z''),
     te_message = (''m'', ''2026-01-01T00:00:00Z''),
     te_reply = (\<lambda>t en b. Inr \<lparr>ag_narration = ''done'', ag_artifacts = [], ag_metadata = []\<rparr>),
     te_worlds = (\<lambda>i. calm_world), te_text = (\<lambda>e. ''failed'')\<rparr>"

definition demo_run_env :: run_env where
  "demo_run_env = \<lparr>re_init = demo_env ''e'', re_refresh = (\<lambda>i. demo_env ''r''), re_task = (\<lambda>i t. demo_task_env)\<rparr>"

lemma run_ends_witness:
  "\<exists>r. run_rounds 2 0 demo_kernel_config demo_run_env demo_workflow (demo_kernel TS_READY 1) demo_start_rows = Some r"
  using run_ends [OF demo_start, of 0 demo_run_env] by (auto simp: demo_fields eval_nat_numeral)

text \<open>The start of the session as one commit.\<close>

lemma demo_commit:
  "commit_events demo_kernel_config (demo_env ''e'') ''session:s'' [demo_plan_event, demo_task_event, demo_ready_event] []
     = (Inr demo_start_rows, demo_start_rows)"
  using demo_append by (simp add: commit_events_def append_reconciled_def demo_checks demo_env demo_config version_of_def)

lemma commit_all_or_nothing_witness: "map se_event demo_start_rows = map stored_form [demo_plan_event, demo_task_event, demo_ready_event]"
proof -
  have env: "others_append (kc_events demo_kernel_config) (demo_env ''e'')" by (simp add: others_append_def demo_env)
  have "fe_id (ce_fresh (demo_env ''e'') 0) = ''e''" "fe_id (ce_fresh (demo_env ''e'') 1) = ''ex''" "fe_id (ce_fresh (demo_env ''e'') 2) = ''exx''"
    by (simp_all add: demo_env eval_nat_numeral)
  then have ids: "\<exists>i. ''e'' = fe_id (ce_fresh (demo_env ''e'') i)" "\<exists>i. ''ex'' = fe_id (ce_fresh (demo_env ''e'') i)"
    "\<exists>i. ''exx'' = fe_id (ce_fresh (demo_env ''e'') i)" by metis+
  have "readable ledger_config demo_plan_event" "readable ledger_config demo_task_event" "readable ledger_config demo_ready_event"
    by (simp_all add: readable_def demo_event_defs demo_env)
  then have drawn: "\<forall>e \<in> set [demo_plan_event, demo_task_event, demo_ready_event].
      drawn (kc_events demo_kernel_config) ''session:s'' (demo_env ''e'') [] e"
    using ids by (simp add: drawn_def demo_streams demo_ids demo_config event_ids_def)
  show ?thesis
    using commit_all_or_nothing [OF event_log.reach_inv [OF first_reachable(1)] env _ _ drawn demo_commit]
    by (auto simp: blank_iff py_space_def)
qed

section \<open>Plugins and chat\<close>

definition demo_plugin :: "string \<Rightarrow> int \<Rightarrow> (int, unit) plugin" where
  "demo_plugin n k = \<lparr>pl_name = n, pl_hooks = (\<lambda>p. Some (\<lambda>c. Inr (10 * c + k))), pl_priority = k\<rparr>"

lemma emit_order_independent_witness:
  "emit HP_PLAN_CREATED [(''a'', demo_plugin ''a'' 2), (''b'', demo_plugin ''b'' 1)] 0
     = emit HP_PLAN_CREATED [(''b'', demo_plugin ''b'' 1), (''a'', demo_plugin ''a'' 2)] 0"
proof -
  have none: "reachable_plugins []" by (rule reach_init) simp
  have a: "install_plugin (demo_plugin ''a'' 2) [] = Inr [(''a'', demo_plugin ''a'' 2)]"
    "install_plugin (demo_plugin ''b'' 1) [(''a'', demo_plugin ''a'' 2)] = Inr [(''a'', demo_plugin ''a'' 2), (''b'', demo_plugin ''b'' 1)]"
    by (simp_all add: install_plugin_def demo_plugin_def)
  have b: "install_plugin (demo_plugin ''b'' 1) [] = Inr [(''b'', demo_plugin ''b'' 1)]"
    "install_plugin (demo_plugin ''a'' 2) [(''b'', demo_plugin ''b'' 1)] = Inr [(''b'', demo_plugin ''b'' 1), (''a'', demo_plugin ''a'' 2)]"
    by (simp_all add: install_plugin_def demo_plugin_def)
  have "reachable_plugins [(''a'', demo_plugin ''a'' 2)]" "reachable_plugins [(''b'', demo_plugin ''b'' 1)]"
    by (rule reach_step [OF none], rule step_install, rule a b)+
  then have "reachable_plugins [(''a'', demo_plugin ''a'' 2), (''b'', demo_plugin ''b'' 1)]"
    "reachable_plugins [(''b'', demo_plugin ''b'' 1), (''a'', demo_plugin ''a'' 2)]"
    by (blast intro: reach_step step_install a b)+
  then show ?thesis by (rule emit_order_independent) auto
qed

definition demo_actor :: "string \<Rightarrow> actor_kind \<Rightarrow> actor_ref" where
  "demo_actor i k = \<lparr>ar_actor_id = i, ar_name = i, ar_kind = k, ar_role = JNull\<rparr>"

definition demo_roster :: "(string, actor_ref) dict" where
  "demo_roster = [(''x'', demo_actor ''x'' AK_AGENT), (''h'', demo_actor ''h'' AK_HUMAN)]"

definition demo_message :: inbound_message where
  "demo_message = \<lparr>im_provider = ''p'', im_external_id = ''1'', im_session_id = ''s'', im_thread_id = ''t'',
     im_sender = demo_actor ''h'' AK_HUMAN, im_text = ''hello'', im_mentioned = [''h'', ''x'']\<rparr>"

lemma route_exact_witness:
  "\<exists>r. route_message ''m'' ''now'' \<lparr>ro_roster = demo_roster, ro_planner = demo_actor ''o'' AK_SYSTEM\<rparr> demo_message = Inr r
     \<and> set (rm_direct r) = {demo_actor ''x'' AK_AGENT}"
proof -
  have "new_router demo_roster (demo_actor ''o'' AK_SYSTEM) = Inr \<lparr>ro_roster = demo_roster, ro_planner = demo_actor ''o'' AK_SYSTEM\<rparr>"
    "check_inbound demo_message = Inr demo_message" "\<not> blank ''m''"
    by (simp_all add: new_router_def demo_actor_def check_inbound_def demo_message_def blank_iff py_space_def)
  note exact = route_exact [OF this, of "''now''"]
  let ?r = "route_message ''m'' ''now'' \<lparr>ro_roster = demo_roster, ro_planner = demo_actor ''o'' AK_SYSTEM\<rparr> demo_message"
  have m: "set (im_mentioned demo_message) = {''h'', ''x''}" "map_of demo_roster ''h'' = Some (demo_actor ''h'' AK_HUMAN)"
    "map_of demo_roster ''x'' = Some (demo_actor ''x'' AK_AGENT)"
    by (simp_all add: demo_message_def demo_roster_def)
  have k: "ar_kind (demo_actor i kind) = kind" for i kind by (simp add: demo_actor_def)
  show ?thesis
  proof (cases ?r)
    case (Inl e)
    then show ?thesis using exact m by simp
  next
    case (Inr r)
    then have "set (rm_direct r) = {a. ar_kind a = AK_AGENT \<and> (\<exists>i \<in> {''h'', ''x''}. map_of demo_roster i = Some a)}"
      using exact m(1) by simp
    also have "\<dots> = {demo_actor ''x'' AK_AGENT}" using m(2,3) k by auto
    finally show ?thesis using Inr by simp
  qed
qed

end
