(* ===== verification/Invocation_Recovery.thy ===== *)
theory Invocation_Recovery
  imports Attempts_Props Protocol
begin

text \<open>
  \<open>invocation_recovery.py\<close>: the read-only decision about a workflow task that was RUNNING when the
  process stopped, from the committed binding of its invocation, one snapshot of the attempt store,
  and an optional result receipt. A validator is the list of its checks in the order of the code,
  each the condition that raises with its message; the first one that holds is raised.
  Timestamps are instants, as in the attempt store.
\<close>

datatype recovery_error = RecoveryIntegrity string | RecoveryClosed string | RecoveryStore store_error
  | RecoveryValue string | RecoveryRuntime string

type_synonym checks = "(bool \<times> string) list"

fun first_raised :: "checks \<Rightarrow> recovery_error + unit" where
  "first_raised [] = Inr ()"
| "first_raised ((bad, message) # cs) =
     (if bad then Inl (RecoveryIntegrity message) else first_raised cs)"

definition passes :: "checks \<Rightarrow> bool" where
  "passes cs = list_all (\<lambda>(bad, _). \<not> bad) cs"

lemma first_raised_iff: "first_raised cs = Inr u \<longleftrightarrow> passes cs"
  by (induction cs rule: first_raised.induct) (auto simp: passes_def)

lemma first_raised_Inr: "passes cs \<Longrightarrow> first_raised cs = Inr ()"
  by (simp add: first_raised_iff)

lemma first_raised_Inl: "\<not> passes cs \<Longrightarrow> \<exists>m. first_raised cs = Inl (RecoveryIntegrity m)"
  by (induction cs rule: first_raised.induct) (auto simp: passes_def)

lemma passes_simps [simp]:
  "passes []" "passes ((bad, m) # cs) \<longleftrightarrow> \<not> bad \<and> passes cs" "passes (cs @ ds) \<longleftrightarrow> passes cs \<and> passes ds"
  by (auto simp: passes_def)

section \<open>Field checks\<close>

definition text_checks :: "string \<Rightarrow> nat \<Rightarrow> string \<Rightarrow> checks" where
  "text_checks field maximum_bytes v =
     [(blank v, field @ '' must be non-blank text''),
      (maximum_bytes < utf8_len v, field @ '' exceeds its byte limit''),
      (list_ex (\<lambda>c. (of_char c :: nat) < 32 \<or> (of_char c :: nat) = 127) v,
       field @ '' contains a control character'')]"

fun optional_checks :: "('a \<Rightarrow> checks) \<Rightarrow> 'a option \<Rightarrow> checks" where
  "optional_checks f None = []"
| "optional_checks f (Some v) = f v"

definition digest_checks :: "string \<Rightarrow> string \<Rightarrow> checks" where
  "digest_checks field v =
     text_checks field 64 v @ [(\<not> sha256_text v, field @ '' must be canonical SHA-256'')]"

definition integer_checks :: "string \<Rightarrow> int \<Rightarrow> int \<Rightarrow> int \<Rightarrow> checks" where
  "integer_checks field minimum maximum v =
     [(\<not> (minimum \<le> v \<and> v \<le> maximum), field @ '' is outside its supported integer range'')]"

lemma passes_text [simp]: "passes (text_checks field n v) \<longleftrightarrow> required_text v n"
  by (auto simp: text_checks_def required_text_def list_ex_iff list_all_iff not_less not_le)

lemma passes_optional [simp]: "passes (optional_checks f v) \<longleftrightarrow> pred_option (\<lambda>x. passes (f x)) v"
  by (cases v) auto

lemma hex_text: "list_all is_hex s \<Longrightarrow> s \<noteq> [] \<Longrightarrow> required_text s (length s)"
proof -
  assume hex: "list_all is_hex s" and ne: "s \<noteq> []"
  have c: "\<not> py_space c \<and> (of_char c :: nat) < 128 \<and> (32 :: nat) \<le> of_char c \<and> (of_char c :: nat) \<noteq> 127"
    if "c \<in> set s" for c
    using hex that by (auto simp: list_all_iff is_hex_def is_digit_def code_in_def py_space_def)
  have "utf8_len s = length s" using c by (simp add: utf8_len_def cong: map_cong) (simp add: sum_list_triv)
  moreover have "\<not> blank s" using c ne by (cases s) (auto simp: blank_iff)
  ultimately show ?thesis using c by (auto simp: required_text_def list_all_iff)
qed

lemma passes_digest [simp]: "passes (digest_checks field v) \<longleftrightarrow> sha256_text v"
proof -
  have "sha256_text v \<Longrightarrow> required_text v 64"
    using hex_text [of v] by (cases v) (auto simp: sha256_text_def)
  then show ?thesis by (auto simp: digest_checks_def)
qed

lemma passes_integer [simp]: "passes (integer_checks field lo hi v) \<longleftrightarrow> lo \<le> v \<and> v \<le> hi"
  by (simp add: integer_checks_def)

section \<open>The binding and the receipt\<close>

record invocation_binding =
  bi_invocation_id :: string
  bi_session_id :: string
  bi_plan_id :: string
  bi_task_id :: string
  bi_agent_id :: string
  bi_idempotency_key :: string
  bi_payload_digest :: string

definition binding_checks :: "string \<Rightarrow> invocation_binding \<Rightarrow> checks" where
  "binding_checks label b =
     text_checks (label @ '' invocation_id'') 4096 (bi_invocation_id b)
     @ text_checks (label @ '' session_id'') 4096 (bi_session_id b)
     @ text_checks (label @ '' plan_id'') 4096 (bi_plan_id b)
     @ text_checks (label @ '' task_id'') 4096 (bi_task_id b)
     @ text_checks (label @ '' agent_id'') 4096 (bi_agent_id b)
     @ text_checks (label @ '' idempotency_key'') 4096 (bi_idempotency_key b)
     @ digest_checks (label @ '' payload_digest'') (bi_payload_digest b)"

definition validate_binding :: "string \<Rightarrow> invocation_binding \<Rightarrow> recovery_error + unit" where
  "validate_binding label b = first_raised (binding_checks label b)"

record result_receipt =
  rr_binding :: invocation_binding
  rr_attempt_id :: string
  rr_attempt_number :: int
  rr_lease_epoch :: int
  rr_lease_token_digest :: string
  rr_result_ref :: string
  rr_manifest_digest :: string
  rr_receipt_id :: string
  rr_stream_id :: string
  rr_stream_sequence :: int

definition receipt_checks :: "result_receipt \<Rightarrow> checks" where
  "receipt_checks r =
     binding_checks ''receipt binding'' (rr_binding r)
     @ text_checks ''receipt attempt_id'' 4096 (rr_attempt_id r)
     @ integer_checks ''receipt attempt_number'' 1 max_sqlite_integer (rr_attempt_number r)
     @ integer_checks ''receipt lease_epoch'' 1 max_sqlite_integer (rr_lease_epoch r)
     @ digest_checks ''receipt lease_token_digest'' (rr_lease_token_digest r)
     @ text_checks ''receipt result_ref'' 16384 (rr_result_ref r)
     @ digest_checks ''receipt manifest_digest'' (rr_manifest_digest r)
     @ text_checks ''receipt receipt_id'' 4096 (rr_receipt_id r)
     @ text_checks ''receipt stream_id'' (4096 + length ''session:'') (rr_stream_id r)
     @ [(rr_stream_id r \<noteq> ''session:'' @ bi_session_id (rr_binding r),
         ''receipt stream_id differs from its session'')]
     @ integer_checks ''receipt stream_sequence'' 1 max_sqlite_integer (rr_stream_sequence r)"

definition validate_receipt_shape :: "result_receipt \<Rightarrow> recovery_error + unit" where
  "validate_receipt_shape r = first_raised (receipt_checks r)"

section \<open>The job and the attempt\<close>

text \<open>The fields of a job, then its causality, then its lease; \<open>validate_job\<close> is the three in order.\<close>

definition job_field_checks :: "job \<Rightarrow> checks" where
  "job_field_checks j =
     text_checks ''job invocation_id'' 4096 (jb_invocation_id j)
     @ text_checks ''job session_id'' 4096 (jb_session_id j)
     @ text_checks ''job plan_id'' 4096 (jb_plan_id j)
     @ text_checks ''job task_id'' 4096 (jb_task_id j)
     @ text_checks ''job agent_id'' 4096 (jb_agent_id j)
     @ text_checks ''job idempotency_key'' 4096 (jb_idempotency_key j)
     @ digest_checks ''job payload_digest'' (jb_payload_digest j)
     @ integer_checks ''job priority'' 0 100 (jb_priority j)
     @ integer_checks ''job max_attempts'' 1 max_sqlite_integer (jb_max_attempts j)
     @ integer_checks ''job attempts_started'' 0 (jb_max_attempts j) (jb_attempts_started j)
     @ integer_checks ''job lease_epoch'' 0 max_sqlite_integer (jb_lease_epoch j)
     @ [(jb_lease_epoch j < jb_attempts_started j
           \<or> (jb_attempts_started j = 0 \<and> jb_lease_epoch j \<noteq> 0),
         ''job lease_epoch contradicts attempts_started''),
        (jb_status j = IS_FAILED \<and> jb_attempts_started j \<noteq> jb_max_attempts j,
         ''failed job has remaining attempt budget''),
        (jb_status j = IS_QUEUED \<and> 0 < jb_attempts_started j
           \<and> jb_max_attempts j \<le> jb_attempts_started j,
         ''queued job exhausted its attempt budget'')]
     @ optional_checks (text_checks ''job lease_owner'' 4096) (jb_lease_owner j)
     @ optional_checks (digest_checks ''job lease_token_digest'') (jb_lease_token_digest j)
     @ optional_checks (text_checks ''job result_ref'' 16384) (jb_result_ref j)
     @ optional_checks (text_checks ''job last_error'' 16384) (jb_last_error j)
     @ [(\<not> pred_option (\<lambda>e. length e \<le> 4096) (jb_last_error j),
         ''job last_error exceeds its supported length'')]"

definition job_causality_checks :: "job \<Rightarrow> checks" where
  "job_causality_checks j =
     [(jb_updated_at j < jb_created_at j, ''job updated_at precedes creation''),
      (jb_attempts_started j = 0 \<and> jb_last_error j \<noteq> None, ''zero-attempt job carries a last_error''),
      ((jb_status j = IS_FAILED \<or> jb_status j = IS_QUEUED \<and> 0 < jb_attempts_started j)
         \<and> jb_last_error j = None,
       ''failed job state lacks a last_error''),
      ((jb_status j \<in> {IS_SUCCEEDED, IS_FAILED, IS_CANCELED}) \<noteq> (jb_finished_at j \<noteq> None),
       ''job finished_at contradicts its status''),
      (\<not> pred_option (\<lambda>f. jb_created_at j \<le> f) (jb_finished_at j),
       ''job finished_at precedes creation''),
      (\<not> pred_option (\<lambda>f. f \<le> jb_updated_at j) (jb_finished_at j),
       ''job updated_at precedes finish'')]"

definition lease_time_checks :: "job \<Rightarrow> int \<Rightarrow> int \<Rightarrow> checks" where
  "lease_time_checks j beat expires =
     [(beat < jb_created_at j, ''job heartbeat_at precedes creation''),
      (jb_updated_at j < beat, ''job updated_at precedes heartbeat''),
      (expires \<le> beat \<or> expires \<le> jb_updated_at j,
       ''job lease deadline does not follow activity'')]"

definition job_lease_checks :: "job \<Rightarrow> checks" where
  "job_lease_checks j =
     (if jb_status j = IS_RUNNING
      then (jb_lease_owner j = None \<or> jb_lease_token_digest j = None \<or> jb_lease_expires_at j = None
              \<or> jb_heartbeat_at j = None \<or> jb_attempts_started j = 0,
            ''running job has incomplete lease ownership'')
        # (case (jb_heartbeat_at j, jb_lease_expires_at j) of
             (Some h, Some x) \<Rightarrow> lease_time_checks j h x
           | _ \<Rightarrow> [(True, ''running job has incomplete lease timestamps'')])
      else [(\<not> (jb_lease_owner j = None \<and> jb_lease_token_digest j = None
               \<and> jb_lease_expires_at j = None \<and> jb_heartbeat_at j = None),
             ''non-running job retains lease ownership'')])
     @ [(jb_status j \<in> {IS_SUCCEEDED, IS_FAILED} \<and> jb_attempts_started j = 0,
         ''terminal job has no started attempt''),
        (jb_result_ref j \<noteq> None \<and> jb_status j \<noteq> IS_SUCCEEDED,
         ''only a succeeded job may carry a result_ref'')]"

definition validate_job :: "job \<Rightarrow> recovery_error + unit" where
  "validate_job j =
     first_raised (job_field_checks j @ job_causality_checks j @ job_lease_checks j)"

definition attempt_checks :: "attempt \<Rightarrow> checks" where
  "attempt_checks a =
     text_checks ''attempt attempt_id'' 4096 (at_attempt_id a)
     @ text_checks ''attempt invocation_id'' 4096 (at_invocation_id a)
     @ text_checks ''attempt worker_id'' 4096 (at_worker_id a)
     @ integer_checks ''attempt number'' 1 max_sqlite_integer (at_attempt_number a)
     @ integer_checks ''attempt lease_epoch'' 1 max_sqlite_integer (at_lease_epoch a)
     @ digest_checks ''attempt lease_token_digest'' (at_lease_token_digest a)
     @ optional_checks (text_checks ''attempt error'' 16384) (at_error a)
     @ [(\<not> pred_option (\<lambda>e. length e \<le> 4096) (at_error a),
         ''attempt error exceeds its supported length'')]
     @ optional_checks (text_checks ''attempt result_ref'' 16384) (at_result_ref a)
     @ [(at_heartbeat_at a < at_started_at a, ''attempt timestamps violate start causality''),
        (at_lease_expires_at a \<le> at_heartbeat_at a,
         ''attempt lease deadline does not follow heartbeat''),
        ((at_status a = AT_RUNNING) \<noteq> (at_finished_at a = None),
         ''attempt finished_at contradicts its status''),
        (at_status a \<in> {AT_RUNNING, AT_SUCCEEDED} \<and> at_error a \<noteq> None,
         ''active/succeeded attempt carries an error''),
        (at_status a \<in> {AT_FAILED, AT_EXPIRED} \<and> at_error a = None,
         ''failed/expired attempt lacks an error''),
        (\<not> pred_option (\<lambda>f. at_started_at a \<le> f) (at_finished_at a),
         ''attempt finished_at precedes its start''),
        (\<not> pred_option (\<lambda>f. at_heartbeat_at a \<le> f) (at_finished_at a),
         ''attempt finished_at precedes its heartbeat''),
        (at_status a \<in> {AT_SUCCEEDED, AT_FAILED}
           \<and> \<not> pred_option (\<lambda>f. f < at_lease_expires_at a) (at_finished_at a),
         ''owned attempt finished outside its lease''),
        (at_status a = AT_EXPIRED \<and> \<not> pred_option (\<lambda>f. at_lease_expires_at a \<le> f) (at_finished_at a),
         ''expired attempt finished before lease expiry''),
        (at_result_ref a \<noteq> None \<and> at_status a \<noteq> AT_SUCCEEDED,
         ''only a succeeded attempt may carry a result_ref'')]"

definition validate_attempt :: "attempt \<Rightarrow> recovery_error + unit" where
  "validate_attempt a = first_raised (attempt_checks a)"

section \<open>The snapshot\<close>

type_synonym recovery_view = "job option \<times> attempt option \<times> int"

definition status_checks :: "job \<Rightarrow> attempt \<Rightarrow> checks" where
  "status_checks j a =
     (if jb_status j = IS_RUNNING
      then [(at_status a \<noteq> AT_RUNNING \<or> Some (at_worker_id a) \<noteq> jb_lease_owner j
               \<or> Some (at_lease_token_digest a) \<noteq> jb_lease_token_digest j
               \<or> Some (at_heartbeat_at a) \<noteq> jb_heartbeat_at j
               \<or> Some (at_lease_expires_at a) \<noteq> jb_lease_expires_at j,
             ''running job ownership differs from its current attempt'')]
      else if at_status a = AT_RUNNING
      then [(True, ''non-running job has a running current attempt'')]
      else case jb_status j of
        IS_QUEUED \<Rightarrow>
          [(at_status a \<notin> {AT_FAILED, AT_EXPIRED}, ''queued job has an incompatible prior attempt''),
           (at_error a \<noteq> jb_last_error j, ''queued job error differs from its attempt'')]
      | IS_SUCCEEDED \<Rightarrow>
          [(at_status a \<noteq> AT_SUCCEEDED \<or> at_result_ref a \<noteq> jb_result_ref j,
            ''succeeded job differs from its current attempt'')]
      | IS_FAILED \<Rightarrow>
          [(at_status a \<notin> {AT_FAILED, AT_EXPIRED}, ''failed job has an incompatible attempt''),
           (at_error a \<noteq> jb_last_error j, ''failed job error differs from its attempt'')]
      | IS_CANCELED \<Rightarrow>
          [(at_status a \<noteq> AT_CANCELED, ''canceled job has an incompatible attempt'')]
      | IS_RUNNING \<Rightarrow> [])"

definition pair_checks :: "job \<Rightarrow> attempt \<Rightarrow> checks" where
  "pair_checks j a =
     [(at_invocation_id a \<noteq> jb_invocation_id j \<or> at_attempt_number a \<noteq> jb_attempts_started j
         \<or> at_lease_epoch a \<noteq> jb_lease_epoch j,
       ''current attempt identity differs from the job''),
      (at_started_at a < jb_created_at j, ''current attempt starts before its job''),
      (\<not> pred_option (\<lambda>f. f \<le> jb_updated_at j) (at_finished_at a),
       ''job update precedes its current attempt''),
      (jb_finished_at j \<noteq> None \<and> jb_finished_at j \<noteq> at_finished_at a,
       ''job finish differs from its current attempt'')]
     @ status_checks j a"

definition validate_recovery_snapshot :: "recovery_view \<Rightarrow> recovery_error + job option" where
  "validate_recovery_snapshot s = (case s of (job, current, count) \<Rightarrow>
     bind_res (first_raised (integer_checks ''snapshot attempt_count'' 0 max_sqlite_integer count)) (\<lambda>_.
     case job of
       None \<Rightarrow>
         (if current \<noteq> None \<or> count \<noteq> 0
          then Inl (RecoveryIntegrity ''missing job has attached attempt state'') else Inr None)
     | Some j \<Rightarrow>
         bind_res (validate_job j) (\<lambda>_.
         if count \<noteq> jb_attempts_started j
           then Inl (RecoveryIntegrity ''snapshot attempt_count differs from the job'')
         else if count = 0
           then (if current \<noteq> None
                 then Inl (RecoveryIntegrity ''zero-attempt job has a current attempt'')
                 else Inr (Some j))
         else (case current of
             None \<Rightarrow> Inl (RecoveryIntegrity ''attempted job has no current attempt'')
           | Some a \<Rightarrow>
               bind_res (validate_attempt a) (\<lambda>_.
               bind_res (first_raised (pair_checks j a)) (\<lambda>_. Inr (Some j)))))))"

section \<open>The decision\<close>

definition binding_of :: "job \<Rightarrow> invocation_binding" where
  "binding_of j = \<lparr>bi_invocation_id = jb_invocation_id j, bi_session_id = jb_session_id j,
     bi_plan_id = jb_plan_id j, bi_task_id = jb_task_id j, bi_agent_id = jb_agent_id j,
     bi_idempotency_key = jb_idempotency_key j, bi_payload_digest = jb_payload_digest j\<rparr>"

definition binding_mismatches :: "invocation_binding \<Rightarrow> job \<Rightarrow> string list" where
  "binding_mismatches b j = map fst (filter snd
     [(''invocation_id'', bi_invocation_id b \<noteq> jb_invocation_id j),
      (''session_id'', bi_session_id b \<noteq> jb_session_id j),
      (''plan_id'', bi_plan_id b \<noteq> jb_plan_id j),
      (''task_id'', bi_task_id b \<noteq> jb_task_id j),
      (''agent_id'', bi_agent_id b \<noteq> jb_agent_id j),
      (''idempotency_key'', bi_idempotency_key b \<noteq> jb_idempotency_key j),
      (''payload_digest'', bi_payload_digest b \<noteq> jb_payload_digest j)])"

definition validate_binding_match :: "invocation_binding \<Rightarrow> job \<Rightarrow> recovery_error + unit" where
  "validate_binding_match b j = (let mismatches = binding_mismatches b j in
     if mismatches \<noteq> []
     then Inl (RecoveryIntegrity
       (''invocation job does not match committed binding: '' @ py_join '', '' mismatches))
     else Inr ())"

definition receipt_mismatches :: "result_receipt \<Rightarrow> attempt \<Rightarrow> string list" where
  "receipt_mismatches r a = map fst (filter snd
     [(''attempt_id'', rr_attempt_id r \<noteq> at_attempt_id a),
      (''attempt_number'', rr_attempt_number r \<noteq> at_attempt_number a),
      (''lease_epoch'', rr_lease_epoch r \<noteq> at_lease_epoch a),
      (''lease_token_digest'', rr_lease_token_digest r \<noteq> at_lease_token_digest a)])"

definition validate_receipt_match ::
  "invocation_binding \<Rightarrow> recovery_view \<Rightarrow> result_receipt \<Rightarrow> recovery_error + unit" where
  "validate_receipt_match b s r =
     bind_res (validate_receipt_shape r) (\<lambda>_.
     if rr_binding r \<noteq> b
       then Inl (RecoveryIntegrity ''result receipt binding does not match invocation'')
     else (case fst (snd s) of
         None \<Rightarrow> Inl (RecoveryIntegrity ''result receipt has no owning attempt'')
       | Some a \<Rightarrow> (let mismatches = receipt_mismatches r a in
           if mismatches \<noteq> []
           then Inl (RecoveryIntegrity
             (''result receipt does not match current attempt: '' @ py_join '', '' mismatches))
           else Inr ())))"

datatype recovery_decision = BLOCKED_MISSING_JOB | FIRST_CLAIM_READY | BLOCKED_EFFECT_UNKNOWN
  | WAITING_ACTIVE_LEASE | BLOCKED_RECEIPT_UNVERIFIED | BLOCKED_RESULT_UNCOMMITTED
  | TERMINAL_FAILURE_EFFECT_UNKNOWN

definition assess_invocation_recovery ::
  "task_status \<Rightarrow> invocation_binding \<Rightarrow> recovery_view \<Rightarrow> result_receipt option
   \<Rightarrow> recovery_error + recovery_decision" where
  "assess_invocation_recovery status b s receipt =
     (if status \<noteq> TS_RUNNING
        then Inl (RecoveryIntegrity ''invocation recovery requires a RUNNING task'')
      else bind_res (validate_binding ''binding'' b) (\<lambda>_.
        bind_res (validate_recovery_snapshot s) (\<lambda>job. case job of
          None \<Rightarrow> (case receipt of
              None \<Rightarrow> Inr BLOCKED_MISSING_JOB
            | Some r \<Rightarrow> bind_res (validate_receipt_shape r) (\<lambda>_.
                Inl (RecoveryIntegrity ''result receipt exists without invocation job'')))
        | Some j \<Rightarrow> bind_res (validate_binding_match b j) (\<lambda>_.
            if jb_status j = IS_CANCELED
              then Inl (RecoveryIntegrity
                ''canceled invocation recovery requires an authorized cancellation receipt'')
            else (case receipt of
                Some r \<Rightarrow> bind_res (validate_receipt_match b s r) (\<lambda>_.
                  if jb_status j = IS_SUCCEEDED \<and> jb_result_ref j \<noteq> None
                       \<and> jb_result_ref j \<noteq> Some (rr_result_ref r)
                  then Inl (RecoveryIntegrity
                    ''succeeded invocation result_ref differs from its receipt'')
                  else Inr BLOCKED_RECEIPT_UNVERIFIED)
              | None \<Rightarrow> (case jb_status j of
                  IS_QUEUED \<Rightarrow> Inr (if jb_attempts_started j = 0 then FIRST_CLAIM_READY
                                 else BLOCKED_EFFECT_UNKNOWN)
                | IS_RUNNING \<Rightarrow> Inr WAITING_ACTIVE_LEASE
                | IS_SUCCEEDED \<Rightarrow> Inr BLOCKED_RESULT_UNCOMMITTED
                | IS_FAILED \<Rightarrow> Inr TERMINAL_FAILURE_EFFECT_UNKNOWN
                | IS_CANCELED \<Rightarrow>
                    Inl (RecoveryIntegrity ''invocation job status is unsupported'')))))))"

section \<open>The coordinator\<close>

text \<open>
  The store the coordinator reads is given to \<open>assess\<close> as the function from session and task to
  the snapshot; whether closing an owned store raises is an argument of \<open>close\<close>.
\<close>

record recovery_coordinator =
  rc_has_store :: bool
  rc_owns_store :: bool
  rc_closed :: bool
  rc_cleanup_complete :: bool

definition new_coordinator :: "bool \<Rightarrow> bool \<Rightarrow> recovery_error + recovery_coordinator" where
  "new_coordinator has_store owns_store =
     (if owns_store \<and> \<not> has_store
        then Inl (RecoveryValue ''owns_store requires an invocation recovery store'')
      else Inr \<lparr>rc_has_store = has_store, rc_owns_store = owns_store, rc_closed = False,
        rc_cleanup_complete = (\<not> owns_store)\<rparr>)"

definition require_open :: "recovery_coordinator \<Rightarrow> recovery_error + unit" where
  "require_open c = (if rc_closed c
     then Inl (RecoveryClosed ''invocation recovery coordinator is closed'') else Inr ())"

definition assess ::
  "(string \<Rightarrow> string \<Rightarrow> store_error + recovery_view) \<Rightarrow> recovery_coordinator \<Rightarrow> task_status
   \<Rightarrow> invocation_binding \<Rightarrow> result_receipt option \<Rightarrow> recovery_error + recovery_decision" where
  "assess read c status b receipt =
     bind_res (require_open c) (\<lambda>_.
     if status \<noteq> TS_RUNNING
       then Inl (RecoveryIntegrity ''invocation recovery requires a RUNNING task'')
     else bind_res (validate_binding ''binding'' b) (\<lambda>_.
       bind_res (case receipt of None \<Rightarrow> Inr () | Some r \<Rightarrow> validate_receipt_shape r) (\<lambda>_.
       if \<not> rc_has_store c then assess_invocation_recovery status b (None, None, 0) receipt
       else (case read (bi_session_id b) (bi_task_id b) of
           Inl e \<Rightarrow> Inl (RecoveryStore e)
         | Inr s \<Rightarrow> assess_invocation_recovery status b s receipt))))"

definition close_coordinator ::
  "bool \<Rightarrow> recovery_coordinator \<Rightarrow> (recovery_error + unit) \<times> recovery_coordinator" where
  "close_coordinator store_close_fails c = (let c' = c\<lparr>rc_closed := True\<rparr> in
     if rc_cleanup_complete c' then (Inr (), c')
     else if \<not> rc_owns_store c' \<or> \<not> rc_has_store c'
       then (Inl (RecoveryRuntime ''owned recovery store cleanup invariant failed''), c')
     else if store_close_fails then (Inl (RecoveryRuntime ''store.close''), c')
     else (Inr (), c'\<lparr>rc_cleanup_complete := True\<rparr>))"

text \<open>
  What the restart decisions promise: the validator of the recovery accepts exactly what the attempt
  store vouches for, the decision on a reachable store is a function of the job alone, and a first
  claim is offered only while no attempt has ever started.
\<close>

section \<open>Two validators that agree\<close>

lemma validate_job_iff: "validate_job j = Inr u \<longleftrightarrow> job_ok j"
proof -
  have fields: "passes (job_field_checks j) \<longleftrightarrow> job_fields_ok j \<and> jb_attempts_started j \<le> jb_lease_epoch j
      \<and> (jb_attempts_started j = 0 \<longrightarrow> jb_lease_epoch j = 0)
      \<and> (jb_status j = IS_FAILED \<longrightarrow> jb_attempts_started j = jb_max_attempts j)
      \<and> (jb_status j = IS_QUEUED \<and> 0 < jb_attempts_started j \<longrightarrow>
           jb_attempts_started j < jb_max_attempts j)"
    unfolding job_field_checks_def job_fields_ok_def
    by (cases "jb_last_error j") (simp; auto simp: not_less not_le)+
  have causality: "passes (job_causality_checks j) \<longleftrightarrow> jb_created_at j \<le> jb_updated_at j
      \<and> (jb_attempts_started j = 0 \<longrightarrow> jb_last_error j = None)
      \<and> (jb_status j = IS_FAILED \<or> jb_status j = IS_QUEUED \<and> 0 < jb_attempts_started j \<longrightarrow>
           jb_last_error j \<noteq> None)
      \<and> (terminal_job j \<longleftrightarrow> jb_finished_at j \<noteq> None)
      \<and> pred_option (\<lambda>f. jb_created_at j \<le> f \<and> f \<le> jb_updated_at j) (jb_finished_at j)"
    unfolding job_causality_checks_def terminal_job_def
    by (cases "jb_finished_at j") (simp; auto simp: not_less not_le)+
  have lease: "passes (job_lease_checks j) \<longleftrightarrow> lease_shape_ok j
      \<and> (jb_status j = IS_RUNNING \<longrightarrow> jb_attempts_started j \<noteq> 0
           \<and> (\<exists>h \<in> set_option (jb_heartbeat_at j). \<exists>x \<in> set_option (jb_lease_expires_at j).
              jb_created_at j \<le> h \<and> h \<le> jb_updated_at j \<and> h < x \<and> jb_updated_at j < x))
      \<and> (jb_status j \<in> {IS_SUCCEEDED, IS_FAILED} \<longrightarrow> jb_attempts_started j \<noteq> 0)
      \<and> (jb_result_ref j \<noteq> None \<longrightarrow> jb_status j = IS_SUCCEEDED)"
    unfolding job_lease_checks_def lease_shape_ok_def
    by (cases "jb_status j = IS_RUNNING"; cases "jb_heartbeat_at j"; cases "jb_lease_expires_at j")
      (auto simp: lease_time_checks_def)
  show ?thesis
    unfolding validate_job_def first_raised_iff passes_simps fields causality lease job_ok_def
      job_times_ok_def by blast
qed

lemma validate_attempt_iff:
  "at_attempt_number a \<le> at_lease_epoch a \<Longrightarrow> validate_attempt a = Inr u \<longleftrightarrow> attempt_ok a"
  unfolding validate_attempt_def first_raised_iff attempt_checks_def attempt_ok_def
  by (cases "at_finished_at a"; cases "at_error a") (simp; auto simp: not_less not_le)+

lemma pair_checks_iff:
  "0 < jb_attempts_started j \<Longrightarrow>
   passes (pair_checks j a) \<longleftrightarrow> recovery_pair_ok j (Some a) (jb_attempts_started j)"
  unfolding pair_checks_def recovery_pair_ok_def status_checks_def
  by (cases "jb_status j"; cases "at_status a") (auto simp: not_less not_le)

text \<open>What the attempt store vouches for when it hands out a snapshot with a job.\<close>

definition vouched :: "job \<Rightarrow> attempt option \<Rightarrow> int \<Rightarrow> bool" where
  "vouched j current count = (job_ok j \<and> recovery_pair_ok j current count \<and> pred_option attempt_ok current)"

lemma job_ok_counts: "job_ok j \<Longrightarrow> 0 \<le> jb_attempts_started j \<and> jb_attempts_started j \<le> max_sqlite_integer
    \<and> jb_attempts_started j \<le> jb_lease_epoch j \<and> (jb_attempts_started j = 0 \<longrightarrow> jb_lease_epoch j = 0)"
  by (auto simp: job_ok_def job_fields_ok_def)

lemma validate_recovery_snapshot_Some:
  "validate_recovery_snapshot (Some j, current, count) = Inr (Some j) \<longleftrightarrow> vouched j current count"
proof (cases "job_ok j \<and> count = jb_attempts_started j")
  case True
  note n = job_ok_counts [OF True [THEN conjunct1]]
  have job: "validate_job j = Inr ()" using True by (simp add: validate_job_iff)
  have count: "first_raised (integer_checks ''snapshot attempt_count'' 0 max_sqlite_integer count) = Inr ()"
    using True n by (simp add: first_raised_iff)
  show ?thesis
  proof (cases "count = 0")
    case z: True
    then show ?thesis using True n
      by (cases current) (auto simp: validate_recovery_snapshot_def job count [unfolded z] vouched_def recovery_pair_ok_def)
  next
    case nz: False
    show ?thesis
    proof (cases current)
      case None
      with True nz show ?thesis
        by (auto simp: validate_recovery_snapshot_def job vouched_def recovery_pair_ok_def res_simps)
    next
      case (Some a)
      have pos: "0 < jb_attempts_started j" using True n nz by auto
      have "validate_recovery_snapshot (Some j, current, count) = Inr (Some j) \<longleftrightarrow>
          validate_attempt a = Inr () \<and> passes (pair_checks j a)"
        using True nz Some n by (simp add: validate_recovery_snapshot_def job res_simps first_raised_iff)
      also have "\<dots> \<longleftrightarrow> attempt_ok a \<and> passes (pair_checks j a)"
        using n validate_attempt_iff [of a "()"] by (auto simp: pair_checks_def)
      also have "\<dots> \<longleftrightarrow> vouched j current count"
        using True Some pos by (auto simp: vouched_def pair_checks_iff)
      finally show ?thesis .
    qed
  qed
next
  case False
  then show ?thesis
    by (auto simp: validate_recovery_snapshot_def vouched_def res_simps validate_job_iff
        recovery_pair_ok_def split: if_splits)
qed


lemma validate_recovery_snapshot_cases:
  assumes "case job of None \<Rightarrow> current = None \<and> count = 0 | Some j \<Rightarrow> vouched j current count"
  shows "validate_recovery_snapshot (job, current, count) = Inr job"
proof (cases job)
  case None
  then show ?thesis using assms
    by (simp add: validate_recovery_snapshot_def first_raised_iff max_sqlite_integer_def first_raised_Inr)
next
  case (Some j)
  then show ?thesis using assms validate_recovery_snapshot_Some by simp
qed

section \<open>The decision over a store that vouches\<close>

text \<open>
  The table of decisions without a receipt, as a function of the binding and the job of the task.
\<close>

definition decision_for :: "invocation_binding \<Rightarrow> job option \<Rightarrow> recovery_error + recovery_decision" where
  "decision_for b job = (case job of
       None \<Rightarrow> Inr BLOCKED_MISSING_JOB
     | Some j \<Rightarrow>
         if binding_of j \<noteq> b
           then Inl (RecoveryIntegrity (''invocation job does not match committed binding: ''
                  @ py_join '', '' (binding_mismatches b j)))
         else (case jb_status j of
             IS_QUEUED \<Rightarrow> Inr (if jb_attempts_started j = 0 then FIRST_CLAIM_READY
                            else BLOCKED_EFFECT_UNKNOWN)
           | IS_RUNNING \<Rightarrow> Inr WAITING_ACTIVE_LEASE
           | IS_SUCCEEDED \<Rightarrow> Inr BLOCKED_RESULT_UNCOMMITTED
           | IS_FAILED \<Rightarrow> Inr TERMINAL_FAILURE_EFFECT_UNKNOWN
           | IS_CANCELED \<Rightarrow> Inl (RecoveryIntegrity
               ''canceled invocation recovery requires an authorized cancellation receipt'')))"

lemma no_mismatch_iff: "binding_mismatches b j = [] \<longleftrightarrow> binding_of j = b"
  by (cases b) (auto simp: binding_mismatches_def binding_of_def)

lemma binding_match_iff: "validate_binding_match b j = (if binding_of j = b then Inr ()
    else Inl (RecoveryIntegrity (''invocation job does not match committed binding: ''
                  @ py_join '', '' (binding_mismatches b j))))"
  by (simp add: validate_binding_match_def Let_def no_mismatch_iff)

text \<open>The recovery's side of the store interface: what a store must give for a snapshot.\<close>

locale recovery_source =
  fixes good :: "'st \<Rightarrow> bool"
    and read :: "'st \<Rightarrow> string \<Rightarrow> string \<Rightarrow> store_error + recovery_view"
    and job_for :: "'st \<Rightarrow> string \<Rightarrow> string \<Rightarrow> job option"
  assumes read_vouched: "good st \<Longrightarrow> identity_text s \<Longrightarrow> identity_text t \<Longrightarrow>
      \<exists>current count. read st s t = Inr (job_for st s t, current, count)
        \<and> (case job_for st s t of None \<Rightarrow> current = None \<and> count = 0 | Some j \<Rightarrow> vouched j current count)"
begin

lemma assess_decides:
  assumes good: "good st" and c: "\<not> rc_closed c" "rc_has_store c"
    and b: "passes (binding_checks ''binding'' b)"
  shows "assess (read st) c TS_RUNNING b None = decision_for b (job_for st (bi_session_id b) (bi_task_id b))"
proof -
  have "identity_text (bi_session_id b)" "identity_text (bi_task_id b)"
    using b by (simp_all add: binding_checks_def)
  from read_vouched [OF good this] obtain current count where
    snap: "read st (bi_session_id b) (bi_task_id b)
             = Inr (job_for st (bi_session_id b) (bi_task_id b), current, count)"
    and vouched: "case job_for st (bi_session_id b) (bi_task_id b) of
             None \<Rightarrow> current = None \<and> count = 0 | Some j \<Rightarrow> vouched j current count" by blast
  have bind: "validate_binding ''binding'' b = Inr ()"
    using b by (simp add: validate_binding_def first_raised_Inr)
  note valid = validate_recovery_snapshot_cases [OF vouched]
  show ?thesis
    unfolding assess_def require_open_def assess_invocation_recovery_def decision_for_def
    using c by (auto simp: snap bind valid binding_match_iff split: option.splits invocation_status.splits)
qed

end

section \<open>The attempt store as the source\<close>

definition task_job :: "job_store \<Rightarrow> string \<Rightarrow> string \<Rightarrow> job option" where
  "task_job st session task = List.find (\<lambda>j. jb_session_id j = session \<and> jb_task_id j = task) (js_jobs st)"

lemma find_filter: "List.find P xs = (case filter P xs of [] \<Rightarrow> None | x # _ \<Rightarrow> Some x)"
  by (induction xs) auto

lemma scan_attempts_ok:
  "scan_attempts j n e f c rows = Inr (a, m) \<Longrightarrow> pred_option attempt_ok c \<Longrightarrow> pred_option attempt_ok a"
  by (induction j n e f c rows rule: scan_attempts.induct)
    (auto simp: res_simps row_to_attempt_def split: if_splits)

interpretation queue_source: recovery_source store_inv "\<lambda>st s t. recovery_snapshot s t st" task_job
proof
  fix st s t
  assume inv: "store_inv st" and ids: "identity_text s" "identity_text t"
  have dist: "distinct (map (\<lambda>j. (jb_session_id j, jb_task_id j)) (js_jobs st))"
    using inv by (simp add: store_inv_def)
  let ?rows = "filter (\<lambda>j. jb_session_id j = s \<and> jb_task_id j = t) (js_jobs st)"
  from unique_row [OF dist, of "(s, t)"]
  consider "?rows = []" | j where "j \<in> set (js_jobs st)" "?rows = [j]" by auto
  then show "\<exists>current count. recovery_snapshot s t st = Inr (task_job st s t, current, count)
      \<and> (case task_job st s t of None \<Rightarrow> current = None \<and> count = 0 | Some j \<Rightarrow> vouched j current count)"
  proof cases
    case 1
    then show ?thesis by (simp add: recovery_snapshot_def ids task_job_def find_filter)
  next
    case (2 j)
    then have ok: "job_ok j" using inv_job [OF inv] by (simp add: job_state_ok_def)
    from snapshot_of_job [OF inv 2(1)] obtain a n where
      scan: "scan_attempts j 0 0 None None (take 1001 (attempts_of (jb_invocation_id j) st)) = Inr (a, n)"
      and pair: "recovery_pair_ok j a n" by blast
    have "pred_option attempt_ok a" by (rule scan_attempts_ok [OF scan]) simp
    with 2 ok scan pair show ?thesis
      by (simp add: recovery_snapshot_def ids task_job_def find_filter row_to_job_def vouched_def)
  qed
qed

section \<open>Promises\<close>

text \<open>
  C22. The recovery and the attempt store agree on what is sound. The fail-closed validator of the
  recovery, written apart from the row checks of the store, accepts a snapshot with a job exactly if
  the row checks accept the job and its attempt and the store would hand them out together.
\<close>

theorem recovery_validator_agrees:
  "validate_recovery_snapshot (Some j, current, count) = Inr (Some j) \<longleftrightarrow>
     row_to_job j = Inr j \<and> recovery_pair_ok j current count
       \<and> map_res row_to_attempt (case current of None \<Rightarrow> [] | Some a \<Rightarrow> [a])
           = Inr (case current of None \<Rightarrow> [] | Some a \<Rightarrow> [a])"
  unfolding validate_recovery_snapshot_Some vouched_def
  by (cases current) (auto simp: row_to_job_def row_to_attempt_def)

text \<open>
  A restart decision is a function of the job alone. On every store the queue can reach, an open
  coordinator that is asked about a running task with a well-formed binding never meets an integrity
  error of the snapshot: without a job it is blocked, a job of other work is refused, and otherwise
  the status of the job and whether an attempt was started decide.
\<close>

theorem recovery_decision_exact:
  assumes "reachable_store sha st" and "new_coordinator True owns = Inr c"
    and "validate_binding ''binding'' b = Inr ()"
  shows "assess (\<lambda>s t. recovery_snapshot s t st) c TS_RUNNING b None
    = decision_for b (task_job st (bi_session_id b) (bi_task_id b))"
  using assms(2,3) queue_source.assess_decides [OF queue.reach_inv [OF assms(1)], of c b]
  by (auto simp: new_coordinator_def validate_binding_def first_raised_iff split: if_splits)

definition sample_binding :: invocation_binding where
  "sample_binding = binding_of sample_job"

definition sample_coordinator :: recovery_coordinator where
  "sample_coordinator = \<lparr>rc_has_store = True, rc_owns_store = False, rc_closed = False,
     rc_cleanup_complete = True\<rparr>"

lemma sample_coordinator_new: "new_coordinator True False = Inr sample_coordinator"
  by (simp add: new_coordinator_def sample_coordinator_def)

lemma sample_binding_valid: "validate_binding ''binding'' sample_binding = Inr ()"
proof -
  have "passes (binding_checks ''binding'' sample_binding)"
    unfolding binding_checks_def sample_binding_def binding_of_def
    by (simp add: new_job_def sample_spec_def sample_names sample_digest)
  then show ?thesis by (simp add: validate_binding_def first_raised_Inr)
qed

lemma sample_task_job: "task_job sample_queued (bi_session_id sample_binding) (bi_task_id sample_binding)
    = Some sample_job"
  by (simp add: task_job_def sample_binding_def binding_of_def sample_job_facts)

lemma sample_decision: "decision_for sample_binding
    (task_job sample_queued (bi_session_id sample_binding) (bi_task_id sample_binding)) = Inr FIRST_CLAIM_READY"
  unfolding sample_task_job by (simp add: decision_for_def sample_binding_def sample_job_facts)

lemma recovery_decision_exact_witness:
  "assess (\<lambda>s t. recovery_snapshot s t sample_queued) sample_coordinator TS_RUNNING sample_binding None
     = Inr FIRST_CLAIM_READY"
  unfolding recovery_decision_exact [OF sample_steps(2) sample_coordinator_new sample_binding_valid]
  by (rule sample_decision)

lemma first_claim_job:
  assumes "decision_for b (task_job st s t) = Inr FIRST_CLAIM_READY"
  obtains j where "j \<in> set (js_jobs st)" "binding_of j = b" "jb_attempts_started j = 0"
proof (cases "task_job st s t")
  case None
  with assms show thesis by (simp add: decision_for_def)
next
  case (Some j)
  then have "j \<in> set (js_jobs st)" by (auto simp: task_job_def find_filter split: list.splits dest: filter_eq_ConsD)
  moreover have "binding_of j = b" "jb_attempts_started j = 0"
    using assms Some by (auto simp: decision_for_def split: if_splits invocation_status.splits)
  ultimately show thesis by (rule that)
qed

lemma started_job:
  assumes "store_inv st" and a: "a \<in> set (js_attempts st)"
  shows "\<exists>j \<in> set (js_jobs st). jb_invocation_id j = at_invocation_id a \<and> 0 < jb_attempts_started j"
proof -
  from assms obtain j where j: "j \<in> set (js_jobs st)" "jb_invocation_id j = at_invocation_id a"
    unfolding store_inv_def by (metis (no_types, lifting) image_iff subset_iff)
  have row: "row_of at_invocation_id (jb_invocation_id j) (js_attempts st) = Some a"
    using row_of_in [OF inv_keys(2) [OF assms(1)] a] j(2) by simp
  have "job_state_ok (js_attempts st) j" by (rule inv_job [OF assms(1) j(1)])
  then have "recovery_pair_ok j (Some a) 1" by (simp add: job_state_ok_def row paired_def)
  then have "1 = jb_attempts_started j" by (simp add: recovery_pair_ok_def)
  with j show ?thesis by auto
qed

text \<open>
  C9. An effect that may have happened is never run again as if it were new. When the coordinator
  offers a first claim of an invocation, no attempt of it exists, and none existed in any earlier
  state of the store.
\<close>

theorem first_claim_never_started:
  assumes "reachable_store sha st" and "(queue_step sha)\<^sup>*\<^sup>* st st'"
    and "new_coordinator True owns = Inr c" and "validate_binding ''binding'' b = Inr ()"
    and "assess (\<lambda>s t. recovery_snapshot s t st') c TS_RUNNING b None = Inr FIRST_CLAIM_READY"
  shows "\<forall>a \<in> set (js_attempts st) \<union> set (js_attempts st'). at_invocation_id a \<noteq> bi_invocation_id b"
proof -
  have inv: "store_inv st" by (rule queue.reach_inv [OF assms(1)])
  have inv': "store_inv st'" by (rule queue.steps_inv [OF assms(2) inv])
  have "decision_for b (task_job st' (bi_session_id b) (bi_task_id b)) = Inr FIRST_CLAIM_READY"
    using assms(3-5) queue_source.assess_decides [OF inv', of c b]
    by (auto simp: new_coordinator_def validate_binding_def first_raised_iff split: if_splits)
  then obtain j where j: "j \<in> set (js_jobs st')" "binding_of j = b" "jb_attempts_started j = 0"
    by (rule first_claim_job)
  have id: "jb_invocation_id j = bi_invocation_id b" using j(2) by (auto simp: binding_of_def)
  have none: "\<not> 0 < jb_attempts_started x" if "x \<in> set (js_jobs st')" "jb_invocation_id x = bi_invocation_id b" for x
    using key_inj [OF inv_keys(1) [OF inv'] that(1) j(1)] that(2) id j(3) by simp
  have "at_invocation_id a \<noteq> bi_invocation_id b" if "a \<in> set (js_attempts st')" for a
    using started_job [OF inv' that] none by auto
  moreover have "at_invocation_id a \<noteq> bi_invocation_id b" if "a \<in> set (js_attempts st)" for a
  proof
    assume "at_invocation_id a = bi_invocation_id b"
    with started_job [OF inv that] obtain x where x: "x \<in> set (js_jobs st)"
      "jb_invocation_id x = bi_invocation_id b" "0 < jb_attempts_started x" by auto
    with steps_evolve [OF inv assms(2)] obtain y where "y \<in> set (js_jobs st')" "evolves x y"
      by (auto simp: jobs_evolve_def)
    with x none [of y] show False by (auto simp: evolves_def same_work_def same_key_def)
  qed
  ultimately show ?thesis by blast
qed

lemma not_in_image: "\<forall>a \<in> A \<union> B. f a \<noteq> x \<Longrightarrow> x \<notin> f ` A"
  by blast

lemma first_claim_never_started_witness:
  "bi_invocation_id sample_binding \<notin> at_invocation_id ` set (js_attempts sample_queued)"
proof -
  have c: "\<not> rc_closed sample_coordinator" "rc_has_store sample_coordinator"
    by (simp_all add: sample_coordinator_def)
  have b: "passes (binding_checks ''binding'' sample_binding)"
    using sample_binding_valid by (simp only: validate_binding_def first_raised_iff)
  have offered: "assess (\<lambda>s t. recovery_snapshot s t sample_queued) sample_coordinator TS_RUNNING
      sample_binding None = Inr FIRST_CLAIM_READY"
    by (rule trans [OF queue_source.assess_decides [OF queue.reach_inv [OF sample_steps(2)] c b] sample_decision])
  note r = first_claim_never_started [of sample_sha sample_queued sample_queued False sample_coordinator
      sample_binding, OF sample_steps(2) rtranclp.rtrancl_refl sample_coordinator_new
      sample_binding_valid offered]
  show ?thesis by (rule not_in_image [OF r])
qed

text \<open>A closed coordinator answers nothing, and closing is repeated until the owned store is closed.\<close>

lemma closed_coordinator:
  "close_coordinator fails c = (r, c') \<Longrightarrow> assess read c' status b receipt
     = Inl (RecoveryClosed ''invocation recovery coordinator is closed'')"
  by (auto simp: close_coordinator_def Let_def assess_def require_open_def split: if_splits)

lemma close_until_clean:
  assumes "new_coordinator has owns = Inr c"
  shows "close_coordinator fails c = (r, c') \<Longrightarrow> r = Inr () \<longleftrightarrow> rc_cleanup_complete c'"
    and "close_coordinator True c = (r, c') \<Longrightarrow> \<exists>c''. close_coordinator False c' = (Inr (), c'')"
  using assms by (auto simp: new_coordinator_def close_coordinator_def Let_def split: if_splits)

end
