(* ===== verification/Floats.thy ===== *)
theory Floats
  imports Prelude "HOL-Library.Log_Nat"
begin

text \<open>
  Python's \<open>float\<close> as far as the program computes with it: the rounding of a number to the nearest
  double, ties to even, and division. A finite double is the rational it denotes; \<open>None\<close> is an
  infinity. The rounding is executable: the exponent of a quotient comes from the bit lengths of its
  numerator and denominator. The lemmas: rounding never crosses a power of two, its relative error is at
  most \<open>2^-53\<close>, and scaling a double up by a power of two is exact.
\<close>

section \<open>Rounding\<close>

definition binexp :: "rat \<Rightarrow> int" where
  "binexp q = (let (a, b) = quotient_of q; k = bitlen a - bitlen b in if 2 powi k \<le> q then k else k - 1)"

definition half_even :: "rat \<Rightarrow> int" where
  "half_even x = (let n = \<lfloor>x\<rfloor>; rest = x - of_int n in
     if rest < 1 / 2 \<or> rest = 1 / 2 \<and> even n then n else n + 1)"

text \<open>The unit of the last of 53 bits, never below that of the subnormal numbers.\<close>

definition ulp_exponent :: "rat \<Rightarrow> int" where
  "ulp_exponent q = max (- 1074) (binexp q - 52)"

definition round_pos :: "rat \<Rightarrow> rat" where
  "round_pos q = (let unit = 2 powi ulp_exponent q in of_int (half_even (q / unit)) * unit)"

definition to_double :: "rat \<Rightarrow> rat" where
  "to_double q = (if q = 0 then 0 else if q < 0 then - round_pos (- q) else round_pos q)"

definition finite_double :: "rat \<Rightarrow> bool" where
  "finite_double q = (\<bar>q\<bar> < 2 ^ 1024)"

text \<open>\<open>a / b\<close> of two doubles, the divisor not zero.\<close>

definition float_div :: "rat \<Rightarrow> rat \<Rightarrow> rat option" where
  "float_div a b = (let q = to_double (a / b) in if finite_double q then Some q else None)"

section \<open>Bounds\<close>

lemma two_powi_less: "(2 :: rat) powi i < 2 powi j \<longleftrightarrow> i < j"
  by (meson linorder_not_le not_less_iff_gr_or_eq one_less_numeral_iff power_int_strict_increasing
      power_int_increasing semiring_norm(76) less_imp_le)

lemma two_powi_le: "(2 :: rat) powi i \<le> 2 powi j \<longleftrightarrow> i \<le> j"
  by (simp add: two_powi_less flip: linorder_not_less)

lemma bitlen_le: "0 < a \<Longrightarrow> (2 :: rat) powi (bitlen a - 1) \<le> of_int a"
proof -
  assume a: "0 < a"
  have "(2 :: int) ^ nat (bitlen a - 1) \<le> a" using bitlen_bounds [OF a] by simp
  then have "(of_int (2 ^ nat (bitlen a - 1)) :: rat) \<le> of_int a" by (simp only: of_int_le_iff)
  moreover have "bitlen a - 1 \<ge> 0" using bitlen_bounds [OF a] by (cases "bitlen a = 0") (use a bitlen_nonneg [of a] in \<open>auto simp: bitlen_def\<close>)
  ultimately show ?thesis by (simp add: power_int_def)
qed

lemma bitlen_less: "0 < a \<Longrightarrow> of_int a < (2 :: rat) powi bitlen a"
proof -
  assume a: "0 < a"
  have "a < (2 :: int) ^ nat (bitlen a)" using bitlen_bounds [OF a] by simp
  then have "(of_int a :: rat) < of_int (2 ^ nat (bitlen a))" by (simp only: of_int_less_iff)
  then show ?thesis by (simp add: power_int_def bitlen_nonneg)
qed

lemma binexp_bounds:
  assumes "0 < q"
  shows "2 powi binexp q \<le> q" "q < 2 powi (binexp q + 1)"
proof -
  obtain a b where ab: "quotient_of q = (a, b)" by fastforce
  then have b: "0 < b" and q: "q = of_int a / of_int b"
    using quotient_of_denom_pos quotient_of_div by blast+
  then have a: "0 < a" using assms by (simp add: zero_less_divide_iff)
  define k where "k = bitlen a - bitlen b"
  have lower: "(2 :: rat) powi (k - 1) \<le> q"
  proof -
    have "(2 :: rat) powi (k - 1) * of_int b \<le> 2 powi (k - 1) * 2 powi bitlen b"
      using bitlen_less [OF b] by (simp add: less_imp_le)
    also have "\<dots> = 2 powi (bitlen a - 1)" by (simp add: k_def flip: power_int_add)
    also have "\<dots> \<le> of_int a" by (rule bitlen_le [OF a])
    finally show ?thesis using b by (simp add: q field_simps)
  qed
  have upper: "q < (2 :: rat) powi (k + 1)"
  proof -
    have "of_int a < (2 :: rat) powi bitlen a" by (rule bitlen_less [OF a])
    also have "\<dots> = 2 powi (k + 1) * 2 powi (bitlen b - 1)" by (simp add: k_def flip: power_int_add)
    also have "\<dots> \<le> 2 powi (k + 1) * of_int b" using bitlen_le [OF b] by simp
    finally show ?thesis using b by (simp add: q field_simps)
  qed
  show "2 powi binexp q \<le> q" "q < 2 powi (binexp q + 1)"
    using lower upper by (auto simp: binexp_def ab k_def Let_def)
qed

lemma half_even_error: "\<bar>of_int (half_even x) - x\<bar> \<le> 1 / 2"
proof -
  have "of_int \<lfloor>x\<rfloor> \<le> x" "x < of_int \<lfloor>x\<rfloor> + 1" by linarith+
  moreover have "x = of_int \<lfloor>x\<rfloor> \<or> of_int \<lfloor>x\<rfloor> < x" by linarith
  ultimately show ?thesis by (auto simp: half_even_def Let_def abs_if)
qed

lemma half_even_le: "x \<le> of_int n \<Longrightarrow> half_even x \<le> n"
  unfolding half_even_def Let_def by (auto simp: floor_le_iff)

lemma half_even_ge: "of_int n \<le> x \<Longrightarrow> n \<le> half_even x"
  unfolding half_even_def Let_def by (auto simp: le_floor_iff intro: add_increasing2)

lemma powi_split:
  assumes "e \<le> k"
  shows "(2 :: rat) powi k = of_int (2 ^ nat (k - e)) * 2 powi e"
proof -
  have "(2 :: rat) powi k = 2 powi (k - e) * 2 powi e" by (simp flip: power_int_add)
  also have "(2 :: rat) powi (k - e) = of_int (2 ^ nat (k - e))" using assms by (simp add: power_int_def)
  finally show ?thesis .
qed

text \<open>Rounding respects every multiple of the unit, and the powers of two above it.\<close>

lemma round_pos_le:
  assumes q: "0 < q" and le: "q \<le> 2 powi k" and k: "- 1074 \<le> k"
  shows "round_pos q \<le> 2 powi k"
proof -
  let ?e = "ulp_exponent q"
  have "(2 :: rat) powi binexp q \<le> 2 powi k" using binexp_bounds(1) [OF q] le by linarith
  then have "binexp q \<le> k" by (simp add: two_powi_le)
  then have e: "?e \<le> k" using k by (simp add: ulp_exponent_def)
  then have split: "(2 :: rat) powi k = of_int (2 ^ nat (k - ?e)) * 2 powi ?e"
    by (rule powi_split)
  have "q / 2 powi ?e \<le> of_int (2 ^ nat (k - ?e))"
    using le by (simp add: split divide_le_eq)
  then have "of_int (half_even (q / 2 powi ?e)) \<le> (of_int (2 ^ nat (k - ?e)) :: rat)"
    using half_even_le of_int_le_iff by blast
  then show ?thesis by (simp add: round_pos_def Let_def split)
qed

lemma round_pos_ge:
  assumes q: "0 < q" and ge: "2 powi k \<le> q" and k: "- 1074 \<le> k"
  shows "2 powi k \<le> round_pos q"
proof -
  let ?e = "ulp_exponent q"
  have "(2 :: rat) powi k < 2 powi (binexp q + 1)" using binexp_bounds(2) [OF q] ge by linarith
  then have below: "k \<le> binexp q" by (simp add: two_powi_less)
  obtain j where j: "?e \<le> j" "k \<le> j" "2 powi j \<le> q"
  proof (cases "?e \<le> k")
    case False
    then have "?e = binexp q - 52" using k by (simp add: ulp_exponent_def split: if_splits)
    then show ?thesis using that [of "binexp q"] below binexp_bounds(1) [OF q] by simp
  qed (use ge that in blast)
  have split: "(2 :: rat) powi j = of_int (2 ^ nat (j - ?e)) * 2 powi ?e"
    using j(1) by (rule powi_split)
  have "of_int (2 ^ nat (j - ?e)) \<le> q / 2 powi ?e"
    using j(3) by (simp add: split le_divide_eq)
  then have "(of_int (2 ^ nat (j - ?e)) :: rat) \<le> of_int (half_even (q / 2 powi ?e))"
    using half_even_ge of_int_le_iff by blast
  then have "2 powi j \<le> round_pos q" by (simp add: round_pos_def Let_def split)
  moreover have "(2 :: rat) powi k \<le> 2 powi j" using j(2) by (simp add: two_powi_le)
  ultimately show ?thesis by linarith
qed

lemma to_double_le: "q \<le> 2 ^ k \<Longrightarrow> 0 < q \<Longrightarrow> to_double q \<le> 2 ^ k"
  using round_pos_le [of q "int k"] by (simp add: to_double_def)

lemma to_double_ge: "2 ^ k \<le> q \<Longrightarrow> 2 ^ k \<le> to_double q"
  using round_pos_ge [of q "int k"] less_le_trans [of 0 "2 ^ k" q] by (auto simp: to_double_def)

text \<open>The relative error of a number that is not subnormal.\<close>

lemma round_pos_error:
  assumes q: "2 powi (- 1022) \<le> q"
  shows "\<bar>round_pos q - q\<bar> \<le> q / 2 ^ 53"
proof -
  have pos: "0 < q" using q less_le_trans zero_less_power_int [of "2 :: rat" "- 1022"] by auto
  let ?e = "ulp_exponent q"
  have "(2 :: rat) powi (- 1022) < 2 powi (binexp q + 1)" using binexp_bounds(2) [OF pos] q by linarith
  then have "- 1022 < binexp q + 1" by (simp only: two_powi_less)
  then have e: "?e = binexp q - 52" by (simp add: ulp_exponent_def)
  have "round_pos q - q = (of_int (half_even (q / 2 powi ?e)) - q / 2 powi ?e) * 2 powi ?e"
    by (simp add: round_pos_def Let_def left_diff_distrib)
  then have "\<bar>round_pos q - q\<bar> \<le> 1 / 2 * 2 powi ?e"
    using half_even_error [of "q / 2 powi ?e"] by (simp add: abs_mult)
  also have "\<dots> = 2 powi binexp q / 2 ^ 53" by (simp add: e power_int_diff)
  also have "\<dots> \<le> q / 2 ^ 53" using binexp_bounds(1) [OF pos] by (simp add: divide_right_mono)
  finally show ?thesis .
qed

lemma to_double_error: "2 powi (- 1022) \<le> q \<Longrightarrow> \<bar>to_double q - q\<bar> \<le> q / 2 ^ 53"
  using round_pos_error [of q] less_le_trans [OF zero_less_power_int [of "2 :: rat" "- 1022"], of q]
  by (auto simp: to_double_def)

text \<open>Scaling a double up by a power of two is exact.\<close>

lemma to_double_scaled:
  assumes q: "0 < q" and double: "to_double q = q"
  shows "to_double (q * 2 ^ k) = q * 2 ^ k"
proof -
  define e where "e = ulp_exponent q"
  define f where "f = ulp_exponent (q * 2 ^ k)"
  define m where "m = half_even (q / 2 powi e)"
  have m: "q = of_int m * 2 powi e"
    using double q by (simp add: to_double_def round_pos_def Let_def e_def m_def)
  have up: "(2 :: rat) powi i * 2 ^ k = 2 powi (i + int k)" for i by (simp add: power_int_add)
  have "(2 :: rat) powi binexp (q * 2 ^ k) \<le> q * 2 ^ k" using binexp_bounds(1) [of "q * 2 ^ k"] q by simp
  also have "q * 2 ^ k < 2 powi (binexp q + 1) * 2 ^ k" using binexp_bounds(2) [OF q] by simp
  finally have "binexp (q * 2 ^ k) < binexp q + 1 + int k" by (simp only: up two_powi_less)
  then have f: "f \<le> e + int k" by (auto simp: e_def f_def ulp_exponent_def)
  let ?n = "m * 2 ^ nat (e + int k - f)"
  have "q * 2 ^ k = of_int m * 2 powi (e + int k)" by (simp add: m up [symmetric])
  also have "\<dots> = of_int ?n * 2 powi f" by (simp add: powi_split [OF f])
  finally have n: "q * 2 ^ k = of_int ?n * 2 powi f" .
  have "half_even (of_int ?n) = ?n" by (simp only: half_even_def Let_def floor_of_int) simp
  then have "round_pos (q * 2 ^ k) = q * 2 ^ k" by (simp add: round_pos_def flip: f_def) (simp add: n)
  moreover have "\<not> q * 2 ^ k < 0" using q by (simp add: not_less)
  ultimately show ?thesis by (simp add: to_double_def)
qed

end
