(* ===== verification/Publisher.thy ===== *)
theory Publisher
  imports Outbox_Delivery Floats
begin

text \<open>
  \<open>OutboxPublisher\<close> of \<open>publisher.py\<close>: what it is configured with, the request and the receipt of a
  connector, retry delays, and the publication of one claimed message with every way it can end.

  The clock, the connector, the jitter, the error classifier and the store's answers are the
  environment of an attempt. \<open>pt_parse\<close>, \<open>pt_text\<close> and \<open>pt_add\<close> are what \<open>datetime\<close> makes of a
  text, an instant and a number of seconds, \<open>pt_log2\<close> is \<open>math.log2\<close>. A number of seconds is the
  rational its float denotes; \<open>None\<close> is a float that is not finite. Event loops, threads and log records have no counterpart.
\<close>

datatype publisher_error = PbValue string | PbType string | PbClosed string | PbRuntime string

record publisher_times =
  pt_parse :: "string \<Rightarrow> int option"
  pt_text :: "int \<Rightarrow> string"
  pt_add :: "int \<Rightarrow> rat \<Rightarrow> int option"
  pt_log2 :: "rat \<Rightarrow> rat"

datatype clock_reading = Clock_Raises | Clock_Naive | Clock_Aware int

text \<open>\<open>_timestamp\<close> of a reading; \<open>None\<close> is the exception.\<close>

definition safe_clock_timestamp :: "publisher_times \<Rightarrow> clock_reading \<Rightarrow> string option" where
  "safe_clock_timestamp tm reading =
     (case reading of Clock_Aware now \<Rightarrow> Some (pt_text tm now) | _ \<Rightarrow> None)"

section \<open>Configuration\<close>

definition lower_char :: "char \<Rightarrow> bool" where
  "lower_char c = (97 \<le> (of_char c :: nat) \<and> (of_char c :: nat) \<le> 122)"

definition digit_char :: "char \<Rightarrow> bool" where
  "digit_char c = (48 \<le> (of_char c :: nat) \<and> (of_char c :: nat) \<le> 57)"

definition error_code :: "string \<Rightarrow> bool" where
  "error_code s = (case s of [] \<Rightarrow> False
     | c # cs \<Rightarrow> lower_char c \<and> length cs \<le> 63
         \<and> list_all (\<lambda>x. lower_char x \<or> digit_char x \<or> x = CHR ''_'') cs)"

definition builtin_error_codes :: "string list" where
  "builtin_error_codes = [''connector_cancelled'', ''connector_failure'', ''connector_input_rejected'',
     ''connector_rejected'', ''invalid_publish_receipt'', ''lease_budget_exhausted'',
     ''transport_unavailable'']"

record publisher_args =
  pa_worker_id :: string
  pa_batch_size :: int
  pa_lease_seconds :: "rat option"
  pa_publish_timeout :: "rat option"
  pa_poll_interval :: "rat option"
  pa_max_attempts :: int
  pa_max_callback_tasks :: int
  pa_base_retry_delay :: "rat option"
  pa_max_retry_delay :: "rat option"
  pa_async_callable :: bool
  pa_error_codes :: "string list"

record publisher_config =
  pub_worker_id :: string
  pub_batch_size :: int
  pub_lease_seconds :: rat
  pub_publish_timeout :: rat
  pub_poll_interval :: rat
  pub_max_attempts :: int
  pub_max_callback_tasks :: int
  pub_base_retry_delay :: rat
  pub_max_retry_delay :: rat
  pub_allowed_error_codes :: "string list"

definition require_positive :: "string \<Rightarrow> rat option \<Rightarrow> publisher_error + rat" where
  "require_positive name v = (case v of
     None \<Rightarrow> Inl (PbValue (name @ '' must be a finite number greater than zero''))
   | Some x \<Rightarrow> if x \<le> 0 then Inl (PbValue (name @ '' must be a finite number greater than zero''))
       else Inr x)"

definition require_nonnegative :: "string \<Rightarrow> rat option \<Rightarrow> publisher_error + rat" where
  "require_nonnegative name v = (case v of
     None \<Rightarrow> Inl (PbValue (name @ '' must be a finite non-negative number''))
   | Some x \<Rightarrow> if x < 0 then Inl (PbValue (name @ '' must be a finite non-negative number''))
       else Inr x)"

definition new_publisher :: "publisher_args \<Rightarrow> publisher_error + publisher_config" where
  "new_publisher a =
     (if blank (pa_worker_id a) then Inl (PbValue ''worker_id is required'')
      else if pa_batch_size a \<le> 0 then Inl (PbValue ''batch_size must be greater than zero'')
      else bind_res (require_positive ''lease_seconds'' (pa_lease_seconds a)) (\<lambda>lease.
        bind_res (require_positive ''publish_timeout'' (pa_publish_timeout a)) (\<lambda>timeout.
        if lease \<le> timeout then Inl (PbValue ''lease_seconds must be greater than publish_timeout'')
        else bind_res (require_nonnegative ''poll_interval'' (pa_poll_interval a)) (\<lambda>poll.
        if pa_max_attempts a \<le> 0 then Inl (PbValue ''max_attempts must be greater than zero'')
        else if pa_max_callback_tasks a \<le> 0
          then Inl (PbValue ''max_callback_tasks must be greater than zero'')
        else bind_res (require_nonnegative ''base_retry_delay'' (pa_base_retry_delay a)) (\<lambda>base.
          bind_res (require_nonnegative ''max_retry_delay'' (pa_max_retry_delay a)) (\<lambda>longest.
          if longest < base then Inl (PbValue ''max_retry_delay must be at least base_retry_delay'')
          else if \<not> pa_async_callable a then Inl (PbType ''publish must be a native async callable'')
          else if 64 < length (pa_error_codes a)
            then Inl (PbType ''error_code_allowlist must be a bounded tuple'')
          else if \<not> list_all error_code (pa_error_codes a)
            then Inl (PbValue ''error_code_allowlist contains an invalid code'')
          else if \<not> distinct (pa_error_codes a)
            then Inl (PbValue ''error_code_allowlist contains a duplicate code'')
          else Inr \<lparr>pub_worker_id = pa_worker_id a, pub_batch_size = pa_batch_size a,
            pub_lease_seconds = lease, pub_publish_timeout = timeout, pub_poll_interval = poll,
            pub_max_attempts = pa_max_attempts a, pub_max_callback_tasks = pa_max_callback_tasks a,
            pub_base_retry_delay = base, pub_max_retry_delay = longest,
            pub_allowed_error_codes = builtin_error_codes @ pa_error_codes a\<rparr>))))))"

section \<open>Requests and receipts\<close>

record publish_request =
  prq_message_id :: string
  prq_idempotency_key :: string
  prq_destination :: string
  prq_payload :: json
  prq_headers :: json
  prq_attempt_count :: int
  prq_triggering_event_id :: string
  prq_triggering_position :: int
  prq_lease_deadline :: "string option"

definition request_from_stored :: "stored_outbox \<Rightarrow> publish_request" where
  "request_from_stored s = (let m = so_message s in
     \<lparr>prq_message_id = om_message_id m,
      prq_idempotency_key = (if om_idempotency_key m = [] then om_message_id m else om_idempotency_key m),
      prq_destination = om_destination m, prq_payload = om_payload m, prq_headers = om_headers m,
      prq_attempt_count = so_attempt_count s, prq_triggering_event_id = so_triggering_event_id s,
      prq_triggering_position = so_triggering_position s,
      prq_lease_deadline = so_lease_expires_at s\<rparr>)"

definition request_to_dict :: "publish_request \<Rightarrow> (string, json) dict" where
  "request_to_dict r =
     [(''messageId'', JStr (prq_message_id r)), (''idempotencyKey'', JStr (prq_idempotency_key r)),
      (''destination'', JStr (prq_destination r)), (''payload'', prq_payload r),
      (''headers'', prq_headers r), (''attemptCount'', JInt (prq_attempt_count r)),
      (''triggeringEventId'', JStr (prq_triggering_event_id r)),
      (''triggeringGlobalPosition'', JInt (prq_triggering_position r)),
      (''leaseDeadline'', jopt JStr (prq_lease_deadline r))]"

datatype publish_verdict = PR_ACCEPTED | PR_REJECTED

fun publish_verdict_value :: "publish_verdict \<Rightarrow> string" where
  "publish_verdict_value PR_ACCEPTED = ''accepted''"
| "publish_verdict_value PR_REJECTED = ''rejected''"

record publish_receipt =
  prc_result :: publish_verdict
  prc_receipt_id :: "string option"
  prc_reason_code :: "string option"

text \<open>
  The receipt's constructor on arbitrary values: the first argument is \<open>None\<close> for a result that is
  not a \<open>PublishResult\<close>, \<open>JNull\<close> is \<open>None\<close>, and what is not a string is any other document.
\<close>

definition check_receipt ::
  "publish_verdict option \<Rightarrow> json \<Rightarrow> json \<Rightarrow> publisher_error + publish_receipt" where
  "check_receipt result receipt_id reason = (case result of
     None \<Rightarrow> Inl (PbType ''publish receipt result must be a PublishResult'')
   | Some PR_ACCEPTED \<Rightarrow> (case receipt_id of
         JStr r \<Rightarrow>
           if blank r then Inl (PbValue ''accepted publish receipt requires receipt_id'')
           else if reason \<noteq> JNull
             then Inl (PbValue ''accepted publish receipt cannot include reason_code'')
           else Inr \<lparr>prc_result = PR_ACCEPTED, prc_receipt_id = Some r, prc_reason_code = None\<rparr>
       | _ \<Rightarrow> Inl (PbValue ''accepted publish receipt requires receipt_id''))
   | Some PR_REJECTED \<Rightarrow> (case reason of
         JStr r \<Rightarrow>
           if blank r then Inl (PbValue ''rejected publish receipt requires reason_code'')
           else if receipt_id \<noteq> JNull
             then Inl (PbValue ''rejected publish receipt cannot include receipt_id'')
           else Inr \<lparr>prc_result = PR_REJECTED, prc_receipt_id = None, prc_reason_code = Some r\<rparr>
       | _ \<Rightarrow> Inl (PbValue ''rejected publish receipt requires reason_code'')))"

definition receipt_to_dict :: "publish_receipt \<Rightarrow> (string, json) dict" where
  "receipt_to_dict r =
     [(''result'', JStr (publish_verdict_value (prc_result r))),
      (''receiptId'', jopt JStr (prc_receipt_id r)), (''reasonCode'', jopt JStr (prc_reason_code r))]"

section \<open>Calling the connector\<close>

text \<open>The classes of exception that the default classifier tells apart.\<close>

datatype connector_error = CE_InvalidReceipt | CE_Rejected | CE_LeaseBudget | CE_Transport
  | CE_Input | CE_Cancelled | CE_Other

text \<open>
  How a call of the connector ends: past the deadline, the caller cancelled, it raised, it returned
  something else than a \<open>PublishReceipt\<close> (or one that lacks an attribute), or a receipt with whatever
  its attributes hold.
\<close>

datatype connector_outcome = CO_Timeout | CO_Cancelled | CO_Raised connector_error | CO_Other
  | CO_Receipt "publish_verdict option" json json

datatype invocation_result = Call_Timeout | Call_Cancelled | Call_Failed connector_error
  | Call_Accepted publish_receipt

definition invoke_with_hard_deadline :: "connector_outcome \<Rightarrow> invocation_result" where
  "invoke_with_hard_deadline out = (case out of
     CO_Timeout \<Rightarrow> Call_Timeout
   | CO_Cancelled \<Rightarrow> Call_Cancelled
   | CO_Raised e \<Rightarrow> Call_Failed e
   | CO_Other \<Rightarrow> Call_Failed CE_InvalidReceipt
   | CO_Receipt result receipt_id reason \<Rightarrow> (case check_receipt result receipt_id reason of
         Inl e \<Rightarrow> Call_Failed CE_InvalidReceipt
       | Inr r \<Rightarrow> if prc_result r = PR_REJECTED then Call_Failed CE_Rejected
           else if prc_result r \<noteq> PR_ACCEPTED then Call_Failed CE_InvalidReceipt
           else Call_Accepted r))"

section \<open>Deadlines\<close>

text \<open>\<open>timedelta.total_seconds()\<close> of a number of microseconds.\<close>

definition total_seconds :: "int \<Rightarrow> rat" where
  "total_seconds d = to_double (of_int d / 10 ^ 6)"

definition lease_budget_timestamp ::
  "publisher_times \<Rightarrow> publisher_config \<Rightarrow> publish_request \<Rightarrow> clock_reading \<Rightarrow> string option" where
  "lease_budget_timestamp tm pb request reading = (case prq_lease_deadline request of
     None \<Rightarrow> None
   | Some text \<Rightarrow>
       if text = [] then None
       else case reading of
         Clock_Raises \<Rightarrow> None
       | Clock_Naive \<Rightarrow> None
       | Clock_Aware now \<Rightarrow> (case pt_parse tm text of
             None \<Rightarrow> None
           | Some deadline \<Rightarrow>
               if total_seconds (deadline - now) < pub_publish_timeout pb then None
               else Some (pt_text tm now)))"

definition valid_ack_timestamp ::
  "publisher_times \<Rightarrow> publish_request \<Rightarrow> clock_reading \<Rightarrow> string option" where
  "valid_ack_timestamp tm request reading = (case prq_lease_deadline request of
     None \<Rightarrow> None
   | Some text \<Rightarrow>
       if text = [] then None
       else case reading of
         Clock_Raises \<Rightarrow> None
       | Clock_Naive \<Rightarrow> None
       | Clock_Aware now \<Rightarrow> (case pt_parse tm text of
             None \<Rightarrow> None
           | Some deadline \<Rightarrow> if deadline \<le> now then None else Some (pt_text tm now)))"

section \<open>Retries\<close>

text \<open>
  \<open>None\<close> is the \<open>OverflowError\<close> of \<open>math.ceil\<close> for an infinite quotient, and of \<open>2.0**exponent\<close>.
\<close>

definition retry_cap :: "publisher_times \<Rightarrow> publisher_config \<Rightarrow> int \<Rightarrow> rat option" where
  "retry_cap tm pb attempt_count =
     (let exponent = nat (attempt_count - 1);
          base = pub_base_retry_delay pb; longest = pub_max_retry_delay pb in
      if base = 0 \<or> longest = 0 then Some 0
      else if longest \<le> base then Some longest
      else case float_div longest base of
          None \<Rightarrow> None
        | Some ratio \<Rightarrow>
            if \<lceil>pt_log2 tm ratio\<rceil> \<le> int exponent then Some longest
            else if 1024 \<le> exponent then None
            else Some (to_double (base * 2 ^ exponent)))"

datatype jitter_result = Jitter_Raises | Jitter_Not_Finite | Jitter rat

definition retry_delay ::
  "publisher_times \<Rightarrow> publisher_config \<Rightarrow> (rat \<Rightarrow> jitter_result) \<Rightarrow> int \<Rightarrow> rat option" where
  "retry_delay tm pb jitter attempt_count = map_option (\<lambda>capped. case jitter capped of
        Jitter_Raises \<Rightarrow> capped
      | Jitter_Not_Finite \<Rightarrow> capped
      | Jitter d \<Rightarrow> if d < 0 then capped else min capped d) (retry_cap tm pb attempt_count)"

definition retry_timestamp ::
  "publisher_times \<Rightarrow> publisher_config \<Rightarrow> (rat \<Rightarrow> jitter_result) \<Rightarrow> clock_reading \<Rightarrow> int
   \<Rightarrow> string option" where
  "retry_timestamp tm pb jitter reading attempt_count = (case reading of
     Clock_Aware now \<Rightarrow> Option.bind (retry_delay tm pb jitter attempt_count) (\<lambda>delay.
       map_option (pt_text tm) (pt_add tm now delay))
   | _ \<Rightarrow> None)"

section \<open>Error codes\<close>

fun default_error_formatter :: "connector_error \<Rightarrow> string" where
  "default_error_formatter CE_InvalidReceipt = ''invalid_publish_receipt''"
| "default_error_formatter CE_Rejected = ''connector_rejected''"
| "default_error_formatter CE_LeaseBudget = ''lease_budget_exhausted''"
| "default_error_formatter CE_Transport = ''transport_unavailable''"
| "default_error_formatter CE_Input = ''connector_input_rejected''"
| "default_error_formatter CE_Cancelled = ''connector_cancelled''"
| "default_error_formatter CE_Other = ''connector_failure''"

text \<open>A classifier returns a text, or something else (also by raising): \<open>None\<close>.\<close>

definition format_error_safely ::
  "publisher_config \<Rightarrow> (connector_error \<Rightarrow> string option) \<Rightarrow> connector_error \<Rightarrow> string" where
  "format_error_safely pb formatter e = (case formatter e of
     None \<Rightarrow> ''connector_failure''
   | Some code \<Rightarrow> if code \<in> set (pub_allowed_error_codes pb) then code else ''connector_failure'')"

end
