(* ===== verification/Publisher_Attempt.thy ===== *)
theory Publisher_Attempt
  imports Publisher
begin

text \<open>
  One attempt of the publisher and one batch: \<open>_publish_one\<close>, the store calls it makes, and
  \<open>run_once\<close> with its statistics. Each call of the store is one transaction; what others commit
  before it is \<open>sc_world\<close>. The calls of the attempts of a batch interleave in any order.
\<close>

section \<open>Tallies\<close>

text \<open>
  The outcome of an attempt; the statistics of a batch and the counters of the publisher carry
  the same fields and more.
\<close>

record tally =
  ta_published :: nat
  ta_publish_failures :: nat
  ta_timed_out :: nat
  ta_retried :: nat
  ta_dead_lettered :: nat
  ta_lease_conflicts :: nat
  ta_store_errors :: nat
  ta_accepted_unconfirmed :: nat
  ta_ack_failed :: nat
  ta_lease_expired :: nat
  ta_abandoned_callbacks :: nat
  ta_ambiguity_persisted :: nat
  ta_reconciliation_failed :: nat
  ta_lease_budget_rejected :: nat

record batch_stats = tally +
  bs_claimed :: nat
  bs_admission_rejected :: nat

definition no_tally :: tally where
  "no_tally = \<lparr>ta_published = 0, ta_publish_failures = 0, ta_timed_out = 0, ta_retried = 0,
     ta_dead_lettered = 0, ta_lease_conflicts = 0, ta_store_errors = 0, ta_accepted_unconfirmed = 0,
     ta_ack_failed = 0, ta_lease_expired = 0, ta_abandoned_callbacks = 0, ta_ambiguity_persisted = 0,
     ta_reconciliation_failed = 0, ta_lease_budget_rejected = 0\<rparr>"

definition empty_batch :: batch_stats where
  "empty_batch = tally.extend no_tally (batch_stats.fields 0 0)"

definition add_tally :: "'a tally_scheme \<Rightarrow> 'b tally_scheme \<Rightarrow> 'b tally_scheme" where
  "add_tally a t = t
     \<lparr>ta_published := ta_published t + ta_published a,
      ta_publish_failures := ta_publish_failures t + ta_publish_failures a,
      ta_timed_out := ta_timed_out t + ta_timed_out a,
      ta_retried := ta_retried t + ta_retried a,
      ta_dead_lettered := ta_dead_lettered t + ta_dead_lettered a,
      ta_lease_conflicts := ta_lease_conflicts t + ta_lease_conflicts a,
      ta_store_errors := ta_store_errors t + ta_store_errors a,
      ta_accepted_unconfirmed := ta_accepted_unconfirmed t + ta_accepted_unconfirmed a,
      ta_ack_failed := ta_ack_failed t + ta_ack_failed a,
      ta_lease_expired := ta_lease_expired t + ta_lease_expired a,
      ta_abandoned_callbacks := ta_abandoned_callbacks t + ta_abandoned_callbacks a,
      ta_ambiguity_persisted := ta_ambiguity_persisted t + ta_ambiguity_persisted a,
      ta_reconciliation_failed := ta_reconciliation_failed t + ta_reconciliation_failed a,
      ta_lease_budget_rejected := ta_lease_budget_rejected t + ta_lease_budget_rejected a\<rparr>"

section \<open>Calls of the store\<close>

text \<open>
  A call runs its transaction, or raises before or after it took effect (a COMMIT whose answer is
  lost), or the caller is cancelled meanwhile: the transaction still runs to its end, and then the
  cancellation is raised.
\<close>

datatype store_fault = Call_Fine | Call_Lost_Before | Call_Lost_After | Call_Interrupted

record store_env =
  sc_world :: "event_store \<Rightarrow> event_store"
  sc_clock :: string
  sc_fault :: store_fault

datatype 'a answer = Answer 'a | Raised | Interrupted

definition store_call ::
  "store_env \<Rightarrow> (string \<Rightarrow> event_store \<Rightarrow> event_error + 'a \<times> event_store) \<Rightarrow> event_store
   \<Rightarrow> 'a answer \<times> event_store" where
  "store_call c operation st =
     (let before = sc_world c st;
          (result, after) = (case operation (sc_clock c) before of
             Inl e \<Rightarrow> (Raised, before) | Inr (x, st') \<Rightarrow> (Answer x, st')) in
      case sc_fault c of
        Call_Fine \<Rightarrow> (result, after)
      | Call_Lost_Before \<Rightarrow> (Raised, before)
      | Call_Lost_After \<Rightarrow> (Raised, after)
      | Call_Interrupted \<Rightarrow> (Interrupted, after))"

record attempt_env =
  ae_budget_clock :: clock_reading
  ae_connector :: "publish_request \<Rightarrow> connector_outcome"
  ae_ack_clock :: clock_reading
  ae_mark_clock :: clock_reading
  ae_retry_clock :: clock_reading
  ae_jitter :: "rat \<Rightarrow> jitter_result"
  ae_formatter :: "connector_error \<Rightarrow> string option"
  ae_first :: store_env
  ae_second :: store_env

definition held_token :: "stored_outbox \<Rightarrow> string" where
  "held_token s = (case so_lease_token s of None \<Rightarrow> [] | Some t \<Rightarrow> t)"

section \<open>One attempt\<close>

definition persist_ambiguity ::
  "event_config \<Rightarrow> publisher_times \<Rightarrow> clock_reading \<Rightarrow> store_env \<Rightarrow> stored_outbox \<Rightarrow> string
   \<Rightarrow> event_store \<Rightarrow> bool answer \<times> event_store" where
  "persist_ambiguity cf tm reading c s reason st =
     (let (r, st') = store_call c (\<lambda>clock. mark_outbox_ambiguous cf (om_message_id (so_message s))
            (held_token s) reason
            (case safe_clock_timestamp tm reading of None \<Rightarrow> clock | Some t \<Rightarrow> t)) st
      in (case r of Answer b \<Rightarrow> Answer b | Raised \<Rightarrow> Answer False | Interrupted \<Rightarrow> Interrupted, st'))"

text \<open>
  The quarantine that a cancelled attempt finishes first: a task of its own, shielded from further
  cancellations; a failure of that task counts as not persisted.
\<close>

definition persist_before_cancel ::
  "event_config \<Rightarrow> publisher_times \<Rightarrow> clock_reading \<Rightarrow> store_env \<Rightarrow> stored_outbox \<Rightarrow> string
   \<Rightarrow> event_store \<Rightarrow> bool \<times> event_store" where
  "persist_before_cancel cf tm reading c s reason st =
     (let (r, st') = persist_ambiguity cf tm reading c s reason st
      in (case r of Answer b \<Rightarrow> b | _ \<Rightarrow> False, st'))"

text \<open>
  An attempt ends with its outcome, or cancelled, with what it has added to the counters by then.
\<close>

datatype attempt_result = Finished tally | Cancelled tally

fun result_tally :: "attempt_result \<Rightarrow> tally" where
  "result_tally (Finished t) = t"
| "result_tally (Cancelled t) = t"

definition unconfirmed :: "bool \<Rightarrow> tally" where
  "unconfirmed persisted = no_tally\<lparr>ta_accepted_unconfirmed := 1,
     ta_ambiguity_persisted := of_bool persisted, ta_reconciliation_failed := of_bool (\<not> persisted)\<rparr>"

definition cancelled_attempt :: "bool \<Rightarrow> tally" where
  "cancelled_attempt persisted = (unconfirmed persisted)\<lparr>ta_abandoned_callbacks := 1\<rparr>"

definition reject_failed ::
  "event_config \<Rightarrow> publisher_times \<Rightarrow> publisher_config \<Rightarrow> attempt_env \<Rightarrow> stored_outbox
   \<Rightarrow> connector_error \<Rightarrow> event_store \<Rightarrow> attempt_result \<times> event_store" where
  "reject_failed cf tm pb ae s e st =
     (let dead = (pub_max_attempts pb \<le> so_attempt_count s);
          retry_at = (if dead then None
            else retry_timestamp tm pb (ae_jitter ae) (ae_retry_clock ae) (so_attempt_count s));
          (r, st') = store_call (ae_first ae) (\<lambda>clock. reject_outbox cf (om_message_id (so_message s))
            (held_token s) (format_error_safely pb (ae_formatter ae) e) retry_at dead clock) st
      in (case r of
          Raised \<Rightarrow> Finished (no_tally\<lparr>ta_publish_failures := 1, ta_store_errors := 1\<rparr>)
        | Interrupted \<Rightarrow> Cancelled no_tally
        | Answer rejected \<Rightarrow>
            if \<not> rejected then Finished (no_tally\<lparr>ta_publish_failures := 1, ta_lease_conflicts := 1\<rparr>)
            else Finished (no_tally\<lparr>ta_publish_failures := 1, ta_retried := of_bool (\<not> dead),
              ta_dead_lettered := of_bool dead\<rparr>), st'))"

definition quarantined ::
  "bool answer \<times> event_store \<Rightarrow> (tally \<Rightarrow> tally) \<Rightarrow> attempt_result \<times> event_store" where
  "quarantined p f = (case p of
     (Answer persisted, st') \<Rightarrow> (Finished (f (unconfirmed persisted)), st')
   | (_, st') \<Rightarrow> (Cancelled no_tally, st'))"

text \<open>
  The stages of an attempt after its first call of the store: it has ended, or the acknowledgement
  was not confirmed and the delivery has to be quarantined by a second call.
\<close>

datatype attempt_stage = Ended attempt_result | Unacknowledged "bool answer"

definition call_acknowledge ::
  "event_config \<Rightarrow> attempt_env \<Rightarrow> stored_outbox \<Rightarrow> publish_request \<Rightarrow> string
   \<Rightarrow> event_store \<Rightarrow> attempt_stage \<times> event_store" where
  "call_acknowledge cf ae s request published_at st =
     (let (r, st') = store_call (ae_first ae) (\<lambda>clock. acknowledge_outbox cf (prq_message_id request)
            (held_token s) (Some published_at) clock) st
      in (if r = Answer True then Ended (Finished (no_tally\<lparr>ta_published := 1\<rparr>)) else Unacknowledged r, st'))"

definition end_attempt ::
  "event_config \<Rightarrow> publisher_times \<Rightarrow> attempt_env \<Rightarrow> stored_outbox \<Rightarrow> attempt_stage
   \<Rightarrow> event_store \<Rightarrow> attempt_result \<times> event_store" where
  "end_attempt cf tm ae s stage st =
     (let persist = (\<lambda>reason. persist_ambiguity cf tm (ae_mark_clock ae) (ae_second ae) s reason st) in
      case stage of
          Ended r \<Rightarrow> (r, st)
        | Unacknowledged Interrupted \<Rightarrow>
            (let (persisted, st') = persist_before_cancel cf tm (ae_mark_clock ae) (ae_second ae) s
                   ''caller_cancelled'' st
             in (Cancelled (cancelled_attempt persisted), st'))
        | Unacknowledged Raised \<Rightarrow>
            quarantined (persist ''ack_failed'') (\<lambda>t. t\<lparr>ta_store_errors := 1, ta_ack_failed := 1\<rparr>)
        | Unacknowledged (Answer _) \<Rightarrow>
            quarantined (persist ''ack_failed'') (\<lambda>t. t\<lparr>ta_lease_conflicts := 1, ta_ack_failed := 1\<rparr>))"

definition acknowledge_accepted ::
  "event_config \<Rightarrow> publisher_times \<Rightarrow> attempt_env \<Rightarrow> stored_outbox \<Rightarrow> publish_request \<Rightarrow> string
   \<Rightarrow> event_store \<Rightarrow> attempt_result \<times> event_store" where
  "acknowledge_accepted cf tm ae s request published_at st =
     (let (stage, st') = call_acknowledge cf ae s request published_at st
      in end_attempt cf tm ae s stage st')"

text \<open>An attempt up to its first call of the store, that call included.\<close>

definition begin_attempt ::
  "event_config \<Rightarrow> publisher_times \<Rightarrow> publisher_config \<Rightarrow> attempt_env \<Rightarrow> stored_outbox \<Rightarrow> event_store
   \<Rightarrow> attempt_stage \<times> event_store" where
  "begin_attempt cf tm pb ae s st =
     (let request = request_from_stored s in
      case lease_budget_timestamp tm pb request (ae_budget_clock ae) of
        None \<Rightarrow>
          (case reject_failed cf tm pb ae s CE_LeaseBudget st of
             (Finished t, st') \<Rightarrow> (Ended (Finished (t\<lparr>ta_lease_budget_rejected := 1\<rparr>)), st')
           | (Cancelled t, st') \<Rightarrow> (Ended (Cancelled t), st'))
      | Some _ \<Rightarrow>
          (case invoke_with_hard_deadline (ae_connector ae request) of
             Call_Cancelled \<Rightarrow>
               (let (persisted, st') = persist_before_cancel cf tm (ae_mark_clock ae) (ae_first ae) s
                      ''caller_cancelled'' st
                in (Ended (Cancelled (cancelled_attempt persisted)), st'))
           | Call_Timeout \<Rightarrow>
               apfst Ended (quarantined (persist_ambiguity cf tm (ae_mark_clock ae) (ae_first ae) s
                 ''callback_timeout'' st) (\<lambda>t. t\<lparr>ta_timed_out := 1, ta_abandoned_callbacks := 1\<rparr>))
           | Call_Failed e \<Rightarrow> apfst Ended (reject_failed cf tm pb ae s e st)
           | Call_Accepted receipt \<Rightarrow>
               (case valid_ack_timestamp tm request (ae_ack_clock ae) of
                  None \<Rightarrow>
                    apfst Ended (quarantined (persist_ambiguity cf tm (ae_mark_clock ae) (ae_first ae) s
                      ''lease_expired_after_accept'' st) (\<lambda>t. t\<lparr>ta_lease_expired := 1\<rparr>))
                | Some published_at \<Rightarrow> call_acknowledge cf ae s request published_at st)))"

definition publish_one ::
  "event_config \<Rightarrow> publisher_times \<Rightarrow> publisher_config \<Rightarrow> attempt_env \<Rightarrow> stored_outbox \<Rightarrow> event_store
   \<Rightarrow> attempt_result \<times> event_store" where
  "publish_one cf tm pb ae s st =
     (let (stage, st') = begin_attempt cf tm pb ae s st in end_attempt cf tm ae s stage st')"

section \<open>One batch\<close>

text \<open>
  The attempts of a batch run concurrently. Between two calls of the store an attempt touches nothing
  that another one reads, so an interleaving is an order of the calls: a schedule names, call by call,
  the attempt that makes its next one, and \<open>gather\<close> then waits for the rest. What other connections
  commit before a call is \<open>sc_world\<close>. When an attempt is cancelled, the caller of the batch was: the
  batch is cancelled, and what its attempts added to the counters stays.
\<close>

type_synonym attempt_task = "stored_outbox \<times> attempt_stage option"

fun next_call ::
  "event_config \<Rightarrow> publisher_times \<Rightarrow> publisher_config \<Rightarrow> (stored_outbox \<Rightarrow> attempt_env)
   \<Rightarrow> attempt_task \<Rightarrow> event_store \<Rightarrow> attempt_task \<times> event_store" where
  "next_call cf tm pb env (s, None) st =
     (let (stage, st') = begin_attempt cf tm pb (env s) s st in ((s, Some stage), st'))"
| "next_call cf tm pb env (s, Some stage) st =
     (let (r, st') = end_attempt cf tm (env s) s stage st in ((s, Some (Ended r)), st'))"

fun run_schedule ::
  "event_config \<Rightarrow> publisher_times \<Rightarrow> publisher_config \<Rightarrow> (stored_outbox \<Rightarrow> attempt_env) \<Rightarrow> nat list
   \<Rightarrow> attempt_task list \<Rightarrow> event_store \<Rightarrow> attempt_task list \<times> event_store" where
  "run_schedule cf tm pb env [] tasks st = (tasks, st)"
| "run_schedule cf tm pb env (i # order) tasks st =
     (if i < length tasks
      then let (task, st') = next_call cf tm pb env (tasks ! i) st
           in run_schedule cf tm pb env order (tasks[i := task]) st'
      else run_schedule cf tm pb env order tasks st)"

definition finish_task ::
  "event_config \<Rightarrow> publisher_times \<Rightarrow> publisher_config \<Rightarrow> (stored_outbox \<Rightarrow> attempt_env)
   \<Rightarrow> attempt_task \<Rightarrow> event_store \<Rightarrow> attempt_result \<times> event_store" where
  "finish_task cf tm pb env task st = (case task of
     (s, None) \<Rightarrow> publish_one cf tm pb (env s) s st
   | (s, Some stage) \<Rightarrow> end_attempt cf tm (env s) s stage st)"

fun finish_tasks ::
  "event_config \<Rightarrow> publisher_times \<Rightarrow> publisher_config \<Rightarrow> (stored_outbox \<Rightarrow> attempt_env)
   \<Rightarrow> attempt_task list \<Rightarrow> event_store \<Rightarrow> attempt_result list \<times> event_store" where
  "finish_tasks cf tm pb env [] st = ([], st)"
| "finish_tasks cf tm pb env (task # tasks) st =
     (let (r, st1) = finish_task cf tm pb env task st; (rs, st2) = finish_tasks cf tm pb env tasks st1
      in (r # rs, st2))"

definition publish_all ::
  "event_config \<Rightarrow> publisher_times \<Rightarrow> publisher_config \<Rightarrow> (stored_outbox \<Rightarrow> attempt_env) \<Rightarrow> nat list
   \<Rightarrow> stored_outbox list \<Rightarrow> event_store \<Rightarrow> attempt_result list \<times> event_store" where
  "publish_all cf tm pb env order records st =
     (let (tasks, st') = run_schedule cf tm pb env order (map (\<lambda>s. (s, None)) records) st
      in finish_tasks cf tm pb env tasks st')"

definition sum_tallies :: "tally list \<Rightarrow> tally" where
  "sum_tallies ts = foldr add_tally ts no_tally"

definition finished_batch :: "nat \<Rightarrow> tally list \<Rightarrow> batch_stats" where
  "finished_batch claimed ts = tally.extend (sum_tallies ts) (batch_stats.fields claimed 0)"

fun is_cancelled :: "attempt_result \<Rightarrow> bool" where
  "is_cancelled (Cancelled _) = True"
| "is_cancelled (Finished _) = False"

text \<open>What a cycle leaves: the statistics of the batch, or the additions of a cancelled one.\<close>

datatype cycle_result = Batch batch_stats | Cycle_Cancelled "tally list"

record batch_env =
  be_active_callbacks :: int
  be_claim :: store_env
  be_lease_ids :: "string list"
  be_attempts :: "stored_outbox \<Rightarrow> attempt_env"
  be_schedule :: "nat list"

definition run_batch_once ::
  "event_config \<Rightarrow> publisher_times \<Rightarrow> publisher_config \<Rightarrow> batch_env \<Rightarrow> event_store
   \<Rightarrow> cycle_result \<times> event_store" where
  "run_batch_once cf tm pb be st =
     (let available_slots = pub_max_callback_tasks pb - be_active_callbacks be in
      if available_slots \<le> 0 then (Batch (empty_batch\<lparr>bs_admission_rejected := 1\<rparr>), st)
      else (let (r, st1) = store_call (be_claim be) (\<lambda>clock. claim_outbox cf (pub_worker_id pb)
                  (min (pub_batch_size pb) available_slots) (pub_lease_seconds pb) clock
                  (be_lease_ids be)) st
            in case r of
              Raised \<Rightarrow> (Batch (empty_batch\<lparr>ta_store_errors := 1\<rparr>), st1)
            | Interrupted \<Rightarrow> (Cycle_Cancelled [], st1)
            | Answer records \<Rightarrow>
                if records = [] then (Batch empty_batch, st1)
                else (let (outcomes, st2) = publish_all cf tm pb (be_attempts be)
                    (be_schedule be) records st1 in
                  (if list_ex is_cancelled outcomes
                   then Cycle_Cancelled (map result_tally (filter is_cancelled outcomes))
                   else Batch (finished_batch (length records) (map result_tally outcomes)), st2))))"

end
