(* ===== verification/Publisher_Life.thy ===== *)
theory Publisher_Life
  imports Publisher_Attempt
begin

text \<open>
  The life of a publisher: its counters, the cycles it has accepted, the connectors that still run,
  and the closing that waits for both. Between two suspensions of the event loop nothing else runs,
  so each operation is one step. The futures of connectors are numbers; the events that a
  waiter waits for are the conditions under which its step is enabled.
\<close>

section \<open>Counters\<close>

record counters = tally +
  cn_cycles :: nat
  cn_empty_polls :: nat
  cn_claimed :: nat
  cn_admission_rejected :: nat
  cn_cancelled_cycles :: nat

definition zero_counters :: counters where
  "zero_counters = tally.extend no_tally (counters.fields 0 0 0 0 0)"

definition record_batch :: "batch_stats \<Rightarrow> counters \<Rightarrow> counters" where
  "record_batch b c = (add_tally b c)
     \<lparr>cn_cycles := cn_cycles c + 1,
      cn_empty_polls := cn_empty_polls c + of_bool (bs_claimed b = 0 \<and> ta_store_errors b = 0),
      cn_claimed := cn_claimed c + bs_claimed b,
      cn_admission_rejected := cn_admission_rejected c + bs_admission_rejected b\<rparr>"

text \<open>What a cancelled attempt adds by \<open>_record_cancelled_attempt\<close>, if it gets so far.\<close>

definition record_cancelled_attempts :: "tally list \<Rightarrow> counters \<Rightarrow> counters" where
  "record_cancelled_attempts ts c = foldr add_tally ts c"

section \<open>State\<close>

record abandoned_callback =
  ab_message_id :: string
  ab_idempotency_key :: string
  ab_task_name :: string
  ab_lease_deadline :: "string option"
  ab_abandoned_at :: "string option"

definition abandoned_to_dict :: "abandoned_callback \<Rightarrow> (string, json) dict" where
  "abandoned_to_dict a =
     [(''messageId'', JStr (ab_message_id a)), (''idempotencyKey'', JStr (ab_idempotency_key a)),
      (''taskName'', JStr (ab_task_name a)), (''leaseDeadline'', jopt JStr (ab_lease_deadline a)),
      (''abandonedAt'', jopt JStr (ab_abandoned_at a))]"

record publisher_state =
  pst_counters :: counters
  pst_callbacks :: "(nat, string) dict"
  pst_abandoned :: "(nat, abandoned_callback) dict"
  pst_db_tasks :: nat
  pst_active_cycles :: nat
  pst_run_task :: bool
  pst_running :: bool
  pst_closing :: bool
  pst_closed :: bool
  pst_stop_requested :: bool
  pst_started_at :: "string option"
  pst_stopped_at :: "string option"

definition fresh_publisher :: publisher_state where
  "fresh_publisher = \<lparr>pst_counters = zero_counters, pst_callbacks = [], pst_abandoned = [],
     pst_db_tasks = 0, pst_active_cycles = 0, pst_run_task = False, pst_running = False,
     pst_closing = False, pst_closed = False, pst_stop_requested = False, pst_started_at = None,
     pst_stopped_at = None\<rparr>"

definition lifecycle_state :: "publisher_state \<Rightarrow> string" where
  "lifecycle_state p =
     (if pst_closed p then
        (if pst_abandoned p \<noteq> [] then ''closed_with_abandoned_callbacks''
         else if ta_accepted_unconfirmed (pst_counters p) \<noteq> 0 \<or> cn_cancelled_cycles (pst_counters p) \<noteq> 0
           then ''closed_unconfirmed''
         else ''closed'')
      else if pst_closing p then ''closing''
      else if pst_running p then ''running''
      else ''idle'')"

definition shutdown_clean :: "publisher_state \<Rightarrow> bool" where
  "shutdown_clean p = (pst_closed p \<and> ta_accepted_unconfirmed (pst_counters p) = 0
     \<and> cn_cancelled_cycles (pst_counters p) = 0 \<and> pst_abandoned p = [] \<and> pst_db_tasks p = 0)"

text \<open>\<open>PublisherStats.to_dict\<close> of the \<open>stats\<close> property.\<close>

definition stats_to_dict :: "publisher_config \<Rightarrow> publisher_state \<Rightarrow> (string, json) dict" where
  "stats_to_dict pb p = (let c = pst_counters p; n = (\<lambda>x. JInt (int x)) in
     [(''workerId'', JStr (pub_worker_id pb)), (''running'', JBool (pst_running p)),
      (''cycles'', n (cn_cycles c)), (''emptyPolls'', n (cn_empty_polls c)),
      (''claimed'', n (cn_claimed c)), (''published'', n (ta_published c)),
      (''publishFailures'', n (ta_publish_failures c)), (''timedOut'', n (ta_timed_out c)),
      (''retried'', n (ta_retried c)), (''deadLettered'', n (ta_dead_lettered c)),
      (''leaseConflicts'', n (ta_lease_conflicts c)), (''storeErrors'', n (ta_store_errors c)),
      (''acceptedUnconfirmed'', n (ta_accepted_unconfirmed c)), (''ackFailed'', n (ta_ack_failed c)),
      (''leaseExpired'', n (ta_lease_expired c)),
      (''abandonedCallbacks'', n (ta_abandoned_callbacks c)),
      (''ambiguityPersisted'', n (ta_ambiguity_persisted c)),
      (''reconciliationFailed'', n (ta_reconciliation_failed c)),
      (''admissionRejected'', n (cn_admission_rejected c)),
      (''leaseBudgetRejected'', n (ta_lease_budget_rejected c)),
      (''cancelledCycles'', n (cn_cancelled_cycles c)), (''activeCycles'', n (pst_active_cycles p)),
      (''activeCallbacks'', n (length (pst_callbacks p))),
      (''leakedCallbacks'', n (length (pst_abandoned p))), (''activeDbTasks'', n (pst_db_tasks p)),
      (''lifecycleState'', JStr (lifecycle_state p)), (''shutdownClean'', JBool (shutdown_clean p)),
      (''startedAt'', jopt JStr (pst_started_at p)), (''stoppedAt'', jopt JStr (pst_stopped_at p))])"

section \<open>Opening and closing\<close>

definition closed_error :: publisher_error where
  "closed_error = PbClosed ''outbox publisher is closing or closed''"

definition start_publisher ::
  "publisher_times \<Rightarrow> clock_reading \<Rightarrow> publisher_state \<Rightarrow> publisher_error + publisher_state" where
  "start_publisher tm reading p =
     (if pst_closing p \<or> pst_closed p then Inl closed_error
      else if pst_running p \<or> pst_run_task p then Inl (PbRuntime ''outbox publisher is already running'')
      else Inr (p\<lparr>pst_stop_requested := False, pst_started_at := safe_clock_timestamp tm reading,
        pst_stopped_at := None, pst_running := True, pst_run_task := True\<rparr>))"

text \<open>
  The entry of \<open>run\<close>, called by the task that \<open>start\<close> made (\<open>mine\<close>) or by another one.
\<close>

definition enter_run ::
  "publisher_times \<Rightarrow> clock_reading \<Rightarrow> bool \<Rightarrow> publisher_state \<Rightarrow> publisher_error + publisher_state" where
  "enter_run tm reading mine p =
     (if pst_closed p \<or> (pst_closing p \<and> \<not> (pst_running p \<and> pst_run_task p \<and> mine)) then Inl closed_error
      else if pst_running p then
        (if \<not> (pst_run_task p \<and> mine) then Inl (PbRuntime ''outbox publisher is already running'')
         else Inr p)
      else Inr (p\<lparr>pst_stop_requested := False, pst_started_at := safe_clock_timestamp tm reading,
        pst_stopped_at := None, pst_running := True, pst_run_task := True\<rparr>))"

definition begin_closing :: "publisher_state \<Rightarrow> publisher_state" where
  "begin_closing p = p\<lparr>pst_closing := (if pst_closed p then pst_closing p else True),
     pst_stop_requested := True\<rparr>"

definition mark_closed :: "publisher_times \<Rightarrow> clock_reading \<Rightarrow> publisher_state \<Rightarrow> publisher_state" where
  "mark_closed tm reading p =
     (if pst_active_cycles p \<noteq> 0 then p
      else p\<lparr>pst_running := False, pst_closing := False, pst_closed := True,
        pst_stopped_at := (case pst_stopped_at p of None \<Rightarrow> safe_clock_timestamp tm reading
          | Some t \<Rightarrow> Some t)\<rparr>)"

definition drained :: "publisher_state \<Rightarrow> bool" where
  "drained p = (pst_active_cycles p = 0 \<and> pst_db_tasks p = 0)"

text \<open>The end of \<open>run\<close>, after the waits of its \<open>finally\<close>, and the end of \<open>stop\<close> after its own.\<close>

definition leave_run :: "publisher_times \<Rightarrow> clock_reading \<Rightarrow> publisher_state \<Rightarrow> publisher_state" where
  "leave_run tm reading p = (mark_closed tm reading (p\<lparr>pst_running := False\<rparr>))\<lparr>pst_run_task := False\<rparr>"

definition finish_stop :: "publisher_times \<Rightarrow> clock_reading \<Rightarrow> publisher_state \<Rightarrow> publisher_state" where
  "finish_stop tm reading p = (if pst_closed p then p else mark_closed tm reading p)"

section \<open>Cycles and connectors\<close>

definition accept_cycle :: "publisher_state \<Rightarrow> publisher_error + publisher_state" where
  "accept_cycle p =
     (if pst_closing p \<or> pst_closed p then Inl closed_error
      else Inr (p\<lparr>pst_active_cycles := pst_active_cycles p + 1\<rparr>))"

definition release_cycle :: "publisher_state \<Rightarrow> publisher_state" where
  "release_cycle p = p\<lparr>pst_active_cycles := pst_active_cycles p - 1\<rparr>"

text \<open>The two ways \<open>run_once\<close> ends after its acceptance.\<close>

fun end_cycle :: "cycle_result \<Rightarrow> publisher_state \<Rightarrow> publisher_state" where
  "end_cycle (Batch b) p =
     release_cycle (p\<lparr>pst_counters := record_batch b (pst_counters p)\<rparr>)"
| "end_cycle (Cycle_Cancelled ts) p =
     release_cycle (p\<lparr>pst_counters := (record_cancelled_attempts ts (pst_counters p))
       \<lparr>cn_cancelled_cycles := cn_cancelled_cycles (pst_counters p) + 1\<rparr>\<rparr>)"

definition start_connector :: "nat \<Rightarrow> string \<Rightarrow> publisher_state \<Rightarrow> publisher_state" where
  "start_connector future name p = p\<lparr>pst_callbacks := dict_set future name (pst_callbacks p)\<rparr>"

definition mark_callback_abandoned ::
  "publisher_times \<Rightarrow> clock_reading \<Rightarrow> nat \<Rightarrow> bool \<Rightarrow> publish_request \<Rightarrow> publisher_state
   \<Rightarrow> publisher_state" where
  "mark_callback_abandoned tm reading future is_done request p =
     (if future \<in> set (dict_keys (pst_abandoned p)) then p
      else if is_done then p
      else p\<lparr>pst_abandoned := dict_set future
        \<lparr>ab_message_id = prq_message_id request, ab_idempotency_key = prq_idempotency_key request,
         ab_task_name = (case map_of (pst_callbacks p) future of None \<Rightarrow> ''outbox-connector''
           | Some name \<Rightarrow> name),
         ab_lease_deadline = prq_lease_deadline request,
         ab_abandoned_at = safe_clock_timestamp tm reading\<rparr> (pst_abandoned p)\<rparr>)"

definition callback_done :: "nat \<Rightarrow> publisher_state \<Rightarrow> publisher_state" where
  "callback_done future p = p\<lparr>pst_callbacks := AList.delete future (pst_callbacks p),
     pst_abandoned := AList.delete future (pst_abandoned p)\<rparr>"

section \<open>Steps\<close>

text \<open>
  A store task starts and ends within a cycle. \<open>may_end r\<close> says that a cycle of this publisher can
  end with \<open>r\<close>.
\<close>

inductive publisher_step ::
  "publisher_times \<Rightarrow> (cycle_result \<Rightarrow> bool) \<Rightarrow> publisher_state \<Rightarrow> publisher_state \<Rightarrow> bool"
  for tm may_end where
  pub_start: "start_publisher tm reading p = Inr p' \<Longrightarrow> publisher_step tm may_end p p'"
| pub_enter: "enter_run tm reading mine p = Inr p' \<Longrightarrow> publisher_step tm may_end p p'"
| pub_request_stop: "publisher_step tm may_end p (begin_closing p)"
| pub_leave: "pst_run_task p \<Longrightarrow> pst_closing p \<or> pst_closed p \<Longrightarrow> drained p
     \<Longrightarrow> publisher_step tm may_end p (leave_run tm reading p)"
| pub_stop: "\<not> pst_run_task p \<Longrightarrow> pst_closing p \<or> pst_closed p \<Longrightarrow> drained p
     \<Longrightarrow> publisher_step tm may_end p (finish_stop tm reading p)"
| pub_accept: "accept_cycle p = Inr p' \<Longrightarrow> publisher_step tm may_end p p'"
| pub_end: "0 < pst_active_cycles p \<Longrightarrow> may_end r \<Longrightarrow> publisher_step tm may_end p (end_cycle r p)"
| pub_connect: "0 < pst_active_cycles p \<Longrightarrow> future \<notin> set (dict_keys (pst_callbacks p))
     \<Longrightarrow> publisher_step tm may_end p (start_connector future name p)"
| pub_abandon: "0 < pst_active_cycles p \<Longrightarrow> is_done \<or> future \<in> set (dict_keys (pst_callbacks p))
     \<Longrightarrow> publisher_step tm may_end p (mark_callback_abandoned tm reading future is_done request p)"
| pub_done: "publisher_step tm may_end p (callback_done future p)"
| pub_db_start: "0 < pst_active_cycles p \<Longrightarrow> publisher_step tm may_end p (p\<lparr>pst_db_tasks := pst_db_tasks p + 1\<rparr>)"
| pub_db_end: "publisher_step tm may_end p (p\<lparr>pst_db_tasks := pst_db_tasks p - 1\<rparr>)"

end
