(* ===== verification/Publisher_Props.thy ===== *)
theory Publisher_Props
  imports Publisher_Life Outbox_Props
begin

text \<open>
  What the publisher promises: bounded retries, an account of every attempt, no acknowledgement
  without an accepted receipt under a live lease, no delivery in doubt that is offered again, and a
  clean shutdown that means what it says.
\<close>

section \<open>Retries\<close>

lemma new_publisher_delays:
  "new_publisher a = Inr pb \<Longrightarrow> 0 \<le> pub_base_retry_delay pb \<and> pub_base_retry_delay pb \<le> pub_max_retry_delay pb"
  by (auto simp: new_publisher_def require_positive_def require_nonnegative_def res_simps
      split: if_splits option.splits)

text \<open>
  What is needed of \<open>math.log2\<close>: it is right at the powers of two and does not cross them.
\<close>

definition log2_sound :: "(rat \<Rightarrow> rat) \<Rightarrow> bool" where
  "log2_sound f = (\<forall>k q. (2 ^ k \<le> q \<longrightarrow> of_nat k \<le> f q) \<and> (1 \<le> q \<and> q \<le> 2 ^ k \<longrightarrow> f q \<le> of_nat k))"

definition quotient_overflows :: "publisher_config \<Rightarrow> bool" where
  "quotient_overflows pb = (let base = pub_base_retry_delay pb; longest = pub_max_retry_delay pb in
     0 < base \<and> base < longest \<and> float_div longest base = None)"

lemma float_div_Some: "float_div a b = Some r \<longleftrightarrow> r = to_double (a / b) \<and> finite_double r"
  by (auto simp: float_div_def Let_def)

lemma retry_cap_cases:
  assumes "new_publisher a = Inr pb" and double: "to_double (pub_base_retry_delay pb) = pub_base_retry_delay pb"
    and log: "log2_sound (pt_log2 tm)" and n: "1 \<le> n"
  shows "case retry_cap tm pb n of None \<Rightarrow> quotient_overflows pb
    | Some cap \<Rightarrow> \<not> quotient_overflows pb \<and> 0 \<le> cap
        \<and> cap \<in> {pub_max_retry_delay pb, pub_base_retry_delay pb * 2 ^ nat (n - 1)}
        \<and> cap \<le> pub_max_retry_delay pb \<and> cap \<le> pub_base_retry_delay pb * 2 ^ nat n"
proof -
  let ?b = "pub_base_retry_delay pb" and ?m = "pub_max_retry_delay pb"
  define k where "k = nat (n - 1)"
  note d = new_publisher_delays [OF assms(1)]
  have k: "nat n = Suc k" using n by (simp add: k_def)
  have grows: "?b \<le> ?b * 2 ^ i" for i
    using d one_le_power [of "2 :: rat" i] by (simp add: mult_le_cancel_left1)
  show ?thesis
  proof (cases "0 < ?b \<and> ?b < ?m")
    case False
    then show ?thesis using d grows [of "nat n"]
      by (auto simp: retry_cap_def quotient_overflows_def Let_def k_def [symmetric])
  next
    case True
    show ?thesis
    proof (cases "float_div ?m ?b")
      case None
      then show ?thesis using True by (auto simp: retry_cap_def quotient_overflows_def Let_def k_def [symmetric])
    next
      case (Some r)
      then have r: "r = to_double (?m / ?b)" and "r < 2 ^ 1024"
        by (auto simp: float_div_Some finite_double_def)
      have one: "1 \<le> r" using to_double_ge [of 0 "?m / ?b"] True by (simp add: r)
      have below: "pt_log2 tm r \<le> of_nat i" if "?m / ?b \<le> 2 ^ i" for i
        using log one to_double_le [OF that] True by (simp add: log2_sound_def r)
      have above: "of_nat i \<le> pt_log2 tm r" if "2 ^ i \<le> ?m / ?b" for i
        using log to_double_ge [OF that] by (simp add: log2_sound_def r)
      show ?thesis
      proof (cases "\<lceil>pt_log2 tm r\<rceil> \<le> int k")
        case low: True
        have "\<not> 2 ^ Suc k \<le> ?m / ?b" using above [of "Suc k"] low by (auto simp: ceiling_le_iff)
        then have "?m \<le> ?b * 2 ^ nat n" using True by (simp add: k field_simps)
        then show ?thesis using low Some True
          by (auto simp: retry_cap_def quotient_overflows_def Let_def k_def [symmetric])
      next
        case high: False
        have "\<not> ?m / ?b \<le> 2 ^ k" using below [of k] high by (auto simp: ceiling_le_iff)
        then have le: "?b * 2 ^ k \<le> ?m" using True by (simp add: field_simps)
        have "pt_log2 tm r \<le> of_nat 1024"
          using log one \<open>r < 2 ^ 1024\<close> unfolding log2_sound_def by (meson less_imp_le)
        then have "k < 1024" using high by (auto simp: ceiling_le_iff)
        moreover have "to_double (?b * 2 ^ k) = ?b * 2 ^ k" by (rule to_double_scaled) (use True double in auto)
        ultimately show ?thesis using high Some True le grows [of k]
          by (auto simp: retry_cap_def quotient_overflows_def Let_def k_def [symmetric] k)
      qed
    qed
  qed
qed

text \<open>
  C37. Retries back off within their limits. On a platform whose \<open>log2\<close> is right at the powers of two
  and does not cross them, and for a base delay that is a double, the delay after attempt \<open>n\<close> (from 1
  on) is undefined exactly if the quotient of a longest delay above a positive base delay overflows the
  doubles; the message is then retried at once. Otherwise it lies between nothing and a cap, and is
  what the jitter asks for if that is in this range; the cap is the longest delay or the base delay
  doubled \<open>n - 1\<close> times, never above the longest delay, nor above the base delay doubled \<open>n\<close> times.
\<close>

theorem retry_delay_bounds:
  assumes "new_publisher a = Inr pb" and "to_double (pub_base_retry_delay pb) = pub_base_retry_delay pb"
    and "log2_sound (pt_log2 tm)" and "1 \<le> n"
  shows "case retry_delay tm pb jitter n of
      None \<Rightarrow> quotient_overflows pb \<and> retry_timestamp tm pb jitter reading n = None
    | Some d \<Rightarrow> \<not> quotient_overflows pb \<and> (\<exists>cap. 0 \<le> d \<and> d \<le> cap
        \<and> (\<forall>x. jitter cap = Jitter x \<and> 0 \<le> x \<and> x \<le> cap \<longrightarrow> d = x)
        \<and> cap \<in> {pub_max_retry_delay pb, pub_base_retry_delay pb * 2 ^ nat (n - 1)}
        \<and> cap \<le> pub_max_retry_delay pb \<and> cap \<le> pub_base_retry_delay pb * 2 ^ nat n)"
proof (cases "retry_cap tm pb n")
  case None
  then show ?thesis using retry_cap_cases [OF assms]
    by (simp add: retry_delay_def retry_timestamp_def split: clock_reading.split)
next
  case (Some cap)
  let ?d = "case jitter cap of Jitter d \<Rightarrow> if d < 0 then cap else min cap d | _ \<Rightarrow> cap"
  have d: "retry_delay tm pb jitter n = Some ?d" using Some by (simp add: retry_delay_def)
  have "0 \<le> cap" using retry_cap_cases [OF assms] Some by simp
  then have "0 \<le> ?d \<and> ?d \<le> cap \<and> (\<forall>x. jitter cap = Jitter x \<and> 0 \<le> x \<and> x \<le> cap \<longrightarrow> ?d = x)"
    by (auto split: jitter_result.splits)
  moreover have "\<not> quotient_overflows pb \<and> cap \<in> {pub_max_retry_delay pb, pub_base_retry_delay pb * 2 ^ nat (n - 1)}
      \<and> cap \<le> pub_max_retry_delay pb \<and> cap \<le> pub_base_retry_delay pb * 2 ^ nat n"
    using retry_cap_cases [OF assms] unfolding Some option.case by iprover
  ultimately show ?thesis unfolding d option.case by iprover
qed

text \<open>An instance of \<open>math.log2\<close>, its value rounded up to a whole number.\<close>

function ceil_log2 :: "rat \<Rightarrow> nat" where
  "ceil_log2 q = (if q \<le> 1 then 0 else Suc (ceil_log2 (q / 2)))"
  by pat_completeness auto

termination ceil_log2
proof (relation "measure (\<lambda>q. nat \<lceil>q\<rceil>)", simp)
  fix q :: rat
  assume q: "\<not> q \<le> 1"
  have "\<lceil>q / 2\<rceil> < \<lceil>q\<rceil>"
  proof -
    have "\<lceil>q\<rceil> \<ge> 2" using q by linarith
    moreover have "\<lceil>q / 2\<rceil> \<le> \<lceil>of_int \<lceil>q\<rceil> / (2 :: rat)\<rceil>"
      by (rule ceiling_mono) (use le_of_int_ceiling [of q] in simp)
    moreover have "\<lceil>of_int \<lceil>q\<rceil> / (2 :: rat)\<rceil> < \<lceil>q\<rceil>" if "\<lceil>q\<rceil> \<ge> 2"
      using that by (simp add: ceiling_less_iff field_simps)
    ultimately show ?thesis by linarith
  qed
  moreover have "0 < \<lceil>q\<rceil>" using q by linarith
  ultimately show "(q / 2, q) \<in> measure (\<lambda>q. nat \<lceil>q\<rceil>)" by auto
qed

declare ceil_log2.simps [simp del]

lemma ceil_log2_le: "ceil_log2 q \<le> n \<longleftrightarrow> q \<le> 2 ^ n"
proof (induction q arbitrary: n rule: ceil_log2.induct)
  case (1 q)
  show ?case
  proof (cases "q \<le> 1")
    case True
    moreover have "(1 :: rat) \<le> 2 ^ n" by simp
    ultimately have "q \<le> 2 ^ n" by (rule order.trans)
    then show ?thesis using True by (simp add: ceil_log2.simps [of q])
  next
    case False
    then show ?thesis using 1 [OF False, of "n - 1"]
      by (cases n) (simp_all add: ceil_log2.simps [of q] field_simps)
  qed
qed

lemma ceil_log2_sound: "log2_sound (\<lambda>q. of_nat (ceil_log2 q))"
proof -
  have "k \<le> ceil_log2 q" if "2 ^ k \<le> q" for k :: nat and q :: rat
  proof (rule ccontr)
    assume "\<not> k \<le> ceil_log2 q"
    then have "ceil_log2 q \<le> k - 1" "0 < k" by auto
    then have "q \<le> 2 ^ (k - 1)" "(2 :: rat) ^ (k - 1) < 2 ^ k" by (simp_all add: ceil_log2_le)
    with that show False by simp
  qed
  then show ?thesis by (simp add: log2_sound_def ceil_log2_le)
qed

definition sample_times_of :: publisher_times where
  "sample_times_of = \<lparr>pt_parse = (\<lambda>t. if t = ''now+'' then Some 30000000 else None), pt_text = (\<lambda>_. ''now''),
     pt_add = (\<lambda>i d. Some i), pt_log2 = (\<lambda>q. of_nat (ceil_log2 q))\<rparr>"

definition sample_args :: publisher_args where
  "sample_args = \<lparr>pa_worker_id = ''w'', pa_batch_size = 1, pa_lease_seconds = Some 30,
     pa_publish_timeout = Some 10, pa_poll_interval = Some 1, pa_max_attempts = 5,
     pa_max_callback_tasks = 64, pa_base_retry_delay = Some 1, pa_max_retry_delay = Some 60,
     pa_async_callable = True, pa_error_codes = []\<rparr>"

definition sample_publisher :: publisher_config where
  "sample_publisher = \<lparr>pub_worker_id = ''w'', pub_batch_size = 1, pub_lease_seconds = 30,
     pub_publish_timeout = 10, pub_poll_interval = 1, pub_max_attempts = 5,
     pub_max_callback_tasks = 64, pub_base_retry_delay = 1, pub_max_retry_delay = 60,
     pub_allowed_error_codes = builtin_error_codes\<rparr>"

lemma sample_new_publisher: "new_publisher sample_args = Inr sample_publisher"
  by (simp add: new_publisher_def sample_args_def sample_publisher_def require_positive_def
      require_nonnegative_def blank_iff py_space_def)

lemma sample_quotient: "\<not> quotient_overflows sample_publisher"
  by code_simp

lemma retry_delay_bounds_witness:
  "\<exists>d. retry_delay sample_times_of sample_publisher (\<lambda>_. Jitter_Raises) 4 = Some d \<and> 0 \<le> d \<and> d \<le> 16"
proof -
  have "to_double (pub_base_retry_delay sample_publisher) = pub_base_retry_delay sample_publisher" by code_simp
  moreover have "log2_sound (pt_log2 sample_times_of)" by (simp add: sample_times_of_def ceil_log2_sound)
  ultimately show ?thesis
    using retry_delay_bounds [OF sample_new_publisher, of sample_times_of 4 "\<lambda>_. Jitter_Raises" Clock_Raises] sample_quotient
    by (cases "retry_delay sample_times_of sample_publisher (\<lambda>_. Jitter_Raises) 4")
      (auto simp: sample_publisher_def)
qed

text \<open>
  The configuration that loses its back-off: with a subnormal base delay the quotient is infinite, and
  every retry is immediate.
\<close>

lemma subnormal_base_retries_at_once:
  "quotient_overflows (sample_publisher\<lparr>pub_base_retry_delay := 1 / 2 ^ 1070\<rparr>)"
proof -
  have "(2 :: rat) ^ 1024 \<le> 60 * 2 ^ 1070" by simp
  then have "2 ^ 1024 \<le> to_double (60 * 2 ^ 1070)" by (rule to_double_ge)
  then have "float_div 60 (1 / 2 ^ 1070) = None"
    by (simp add: float_div_def finite_double_def Let_def del: power_numeral)
  then show ?thesis by (simp add: quotient_overflows_def sample_publisher_def)
qed

section \<open>The account of an attempt\<close>

text \<open>What the outcome of an attempt counts: exactly one of its three ends.\<close>

definition accounted :: "'a tally_scheme \<Rightarrow> bool" where
  "accounted t = (ta_published t + ta_publish_failures t + ta_accepted_unconfirmed t = 1
     \<and> ta_accepted_unconfirmed t = ta_ambiguity_persisted t + ta_reconciliation_failed t
     \<and> ta_retried t + ta_dead_lettered t \<le> ta_publish_failures t)"

lemma acknowledge_accepted_eq: "acknowledge_accepted cf tm ae s request published_at st =
     (let (r, st1) = store_call (ae_first ae) (\<lambda>clock. acknowledge_outbox cf (prq_message_id request)
            (held_token s) (Some published_at) clock) st;
          persist = (\<lambda>reason. persist_ambiguity cf tm (ae_mark_clock ae) (ae_second ae) s reason st1)
      in case r of
          Interrupted \<Rightarrow>
            (let (persisted, st2) = persist_before_cancel cf tm (ae_mark_clock ae) (ae_second ae) s
                   ''caller_cancelled'' st1
             in (Cancelled (cancelled_attempt persisted), st2))
        | Raised \<Rightarrow> quarantined (persist ''ack_failed'') (\<lambda>t. t\<lparr>ta_store_errors := 1, ta_ack_failed := 1\<rparr>)
        | Answer acknowledged \<Rightarrow>
            if acknowledged then (Finished (no_tally\<lparr>ta_published := 1\<rparr>), st1)
            else quarantined (persist ''ack_failed'') (\<lambda>t. t\<lparr>ta_lease_conflicts := 1, ta_ack_failed := 1\<rparr>))"
  by (simp add: acknowledge_accepted_def call_acknowledge_def end_attempt_def Let_def
      split: prod.splits answer.splits)

lemma end_attempt_Ended [simp]: "end_attempt cf tm ae s (Ended r) st = (r, st)"
  by (simp add: end_attempt_def)

lemma publish_one_eq: "publish_one cf tm pb ae s st =
     (let request = request_from_stored s in
      case lease_budget_timestamp tm pb request (ae_budget_clock ae) of
        None \<Rightarrow>
          (case reject_failed cf tm pb ae s CE_LeaseBudget st of
             (Finished t, st') \<Rightarrow> (Finished (t\<lparr>ta_lease_budget_rejected := 1\<rparr>), st')
           | (Cancelled t, st') \<Rightarrow> (Cancelled t, st'))
      | Some _ \<Rightarrow>
          (case invoke_with_hard_deadline (ae_connector ae request) of
             Call_Cancelled \<Rightarrow>
               (let (persisted, st') = persist_before_cancel cf tm (ae_mark_clock ae) (ae_first ae) s
                      ''caller_cancelled'' st
                in (Cancelled (cancelled_attempt persisted), st'))
           | Call_Timeout \<Rightarrow>
               quarantined (persist_ambiguity cf tm (ae_mark_clock ae) (ae_first ae) s
                 ''callback_timeout'' st) (\<lambda>t. t\<lparr>ta_timed_out := 1, ta_abandoned_callbacks := 1\<rparr>)
           | Call_Failed e \<Rightarrow> reject_failed cf tm pb ae s e st
           | Call_Accepted receipt \<Rightarrow>
               (case valid_ack_timestamp tm request (ae_ack_clock ae) of
                  None \<Rightarrow>
                    quarantined (persist_ambiguity cf tm (ae_mark_clock ae) (ae_first ae) s
                      ''lease_expired_after_accept'' st) (\<lambda>t. t\<lparr>ta_lease_expired := 1\<rparr>)
                | Some published_at \<Rightarrow> acknowledge_accepted cf tm ae s request published_at st)))"
proof (cases "lease_budget_timestamp tm pb (request_from_stored s) (ae_budget_clock ae)")
  case None
  then show ?thesis
    by (cases "reject_failed cf tm pb ae s CE_LeaseBudget st"; cases "fst (reject_failed cf tm pb ae s CE_LeaseBudget st)")
      (auto simp: publish_one_def begin_attempt_def Let_def)
next
  case (Some b)
  have ended: "end_attempt cf tm ae s (fst (apfst Ended p)) (snd (apfst Ended p)) = p" for p
    by (cases p) simp
  show ?thesis
    using Some
    by (cases "invoke_with_hard_deadline (ae_connector ae (request_from_stored s))";
      cases "valid_ack_timestamp tm (request_from_stored s) (ae_ack_clock ae)")
      (simp_all add: publish_one_def begin_attempt_def acknowledge_accepted_def Let_def split_beta ended
          del: fst_apfst snd_apfst)
qed

lemma unconfirmed_accounted: "accounted (unconfirmed p)"
  by (simp add: accounted_def unconfirmed_def no_tally_def)

lemma quarantined_Finished:
  "quarantined r f = (Finished t, st') \<Longrightarrow> \<exists>p. r = (Answer p, st') \<and> t = f (unconfirmed p)"
  by (auto simp: quarantined_def split: prod.splits answer.splits)

lemma reject_accounted:
  "reject_failed cf tm pb ae s e st = (Finished t, st') \<Longrightarrow> accounted t \<and> ta_publish_failures t = 1"
  by (auto simp: reject_failed_def Let_def accounted_def no_tally_def split: prod.splits answer.splits if_splits)

lemma acknowledge_accounted:
  "acknowledge_accepted cf tm ae s request p st = (Finished t, st') \<Longrightarrow> accounted t"
  by (auto simp: acknowledge_accepted_eq Let_def accounted_def no_tally_def unconfirmed_def
      split: prod.splits answer.splits if_splits dest!: quarantined_Finished)

text \<open>
  Every attempt is accounted for exactly once: it counts as published, as failed, or as accepted
  but unconfirmed, and in the last case as either quarantined in the store or left to reconcile.
\<close>

lemma attempt_accounted:
  assumes "publish_one cf tm pb ae s st = (Finished t, st')"
  shows "accounted t"
proof (cases "lease_budget_timestamp tm pb (request_from_stored s) (ae_budget_clock ae)")
  case None
  then obtain u where "reject_failed cf tm pb ae s CE_LeaseBudget st = (Finished u, st')"
    "t = u\<lparr>ta_lease_budget_rejected := 1\<rparr>"
    using assms by (auto simp: publish_one_eq Let_def split: prod.splits attempt_result.splits)
  then show ?thesis using reject_accounted by (fastforce simp: accounted_def)
next
  case budget: (Some b)
  let ?call = "invoke_with_hard_deadline (ae_connector ae (request_from_stored s))"
  show ?thesis
  proof (cases ?call)
    case Call_Timeout
    then have "quarantined (persist_ambiguity cf tm (ae_mark_clock ae) (ae_first ae) s ''callback_timeout'' st)
        (\<lambda>t. t\<lparr>ta_timed_out := 1, ta_abandoned_callbacks := 1\<rparr>) = (Finished t, st')"
      using assms budget by (simp add: publish_one_eq Let_def)
    then show ?thesis using unconfirmed_accounted by (fastforce simp: accounted_def dest!: quarantined_Finished)
  next
    case Call_Cancelled
    then show ?thesis using assms budget by (auto simp: publish_one_eq Let_def split: prod.splits)
  next
    case (Call_Failed e)
    then show ?thesis using assms budget reject_accounted by (auto simp: publish_one_eq Let_def)
  next
    case (Call_Accepted r)
    show ?thesis
    proof (cases "valid_ack_timestamp tm (request_from_stored s) (ae_ack_clock ae)")
      case None
      then have "quarantined (persist_ambiguity cf tm (ae_mark_clock ae) (ae_first ae) s
          ''lease_expired_after_accept'' st) (\<lambda>t. t\<lparr>ta_lease_expired := 1\<rparr>) = (Finished t, st')"
        using assms budget Call_Accepted by (simp add: publish_one_eq Let_def)
      then show ?thesis using unconfirmed_accounted by (fastforce simp: accounted_def dest!: quarantined_Finished)
    next
      case (Some p)
      then show ?thesis using assms budget Call_Accepted acknowledge_accounted
        by (auto simp: publish_one_eq Let_def)
    qed
  qed
qed

section \<open>What the store knows after an attempt\<close>



definition delivered :: "stored_outbox \<Rightarrow> event_store \<Rightarrow> bool" where
  "delivered s st = (\<exists>r \<in> set (es_outbox st). row_id r = om_message_id (so_message s)
     \<and> so_status (or_stored r) = OS_PUBLISHED)"

definition fair_world :: "event_config \<Rightarrow> attempt_env \<Rightarrow> bool" where
  "fair_world cf ae = (\<forall>st. (event_step cf)\<^sup>*\<^sup>* st (sc_world (ae_first ae) st)
     \<and> (event_step cf)\<^sup>*\<^sup>* st (sc_world (ae_second ae) st))"

lemma store_call_answer: "store_call c f st = (Answer x, st') \<Longrightarrow> f (sc_clock c) (sc_world c st) = Inr (x, st')"
  by (auto simp: store_call_def Let_def split: store_fault.splits sum.splits prod.splits)










lemma reach_run: "reach init step s \<Longrightarrow> step\<^sup>*\<^sup>* s t \<Longrightarrow> reach init step t"
proof -
  assume s: "reach init step s"
  show "step\<^sup>*\<^sup>* s t \<Longrightarrow> reach init step t"
    by (induction rule: rtranclp_induct) (auto intro: s reach_step)
qed

lemma quarantined_not_published:
  "quarantined p f = (Finished t, st') \<Longrightarrow> (\<And>u. ta_published (f u) = ta_published u) \<Longrightarrow> ta_published t = 0"
  by (auto dest!: quarantined_Finished simp: unconfirmed_def no_tally_def)

lemma reject_not_published:
  "reject_failed cf tm pb ae s e st = (Finished t, st') \<Longrightarrow> ta_published t = 0"
  by (auto dest!: reject_accounted simp: accounted_def)

lemma acknowledge_answer:
  assumes "acknowledge_accepted cf tm ae s request p st = (Finished t, st')" and "ta_published t = 1"
  shows "store_call (ae_first ae) (\<lambda>clock. acknowledge_outbox cf (prq_message_id request) (held_token s)
    (Some p) clock) st = (Answer True, st')"
proof -
  obtain a st1 where call: "store_call (ae_first ae) (\<lambda>clock. acknowledge_outbox cf
      (prq_message_id request) (held_token s) (Some p) clock) st = (a, st1)" by fastforce
  note r = assms(1) [unfolded acknowledge_accepted_eq call Let_def, simplified]
  show ?thesis using r assms(2) call
    by (auto split: answer.splits if_splits prod.splits dest!: quarantined_not_published)
qed

lemma published_path:
  assumes "publish_one cf tm pb ae s st = (Finished t, st')" and "ta_published t = 1"
  shows "\<exists>b receipt p. lease_budget_timestamp tm pb (request_from_stored s) (ae_budget_clock ae) = Some b
    \<and> invoke_with_hard_deadline (ae_connector ae (request_from_stored s)) = Call_Accepted receipt
    \<and> valid_ack_timestamp tm (request_from_stored s) (ae_ack_clock ae) = Some p
    \<and> acknowledge_accepted cf tm ae s (request_from_stored s) p st = (Finished t, st')"
proof (cases "lease_budget_timestamp tm pb (request_from_stored s) (ae_budget_clock ae)")
  case None
  then obtain u where "reject_failed cf tm pb ae s CE_LeaseBudget st = (Finished u, st')"
    "t = u\<lparr>ta_lease_budget_rejected := 1\<rparr>"
    using assms by (auto simp: publish_one_eq Let_def split: prod.splits attempt_result.splits)
  then show ?thesis using reject_not_published assms(2) by fastforce
next
  case (Some b)
  note r = assms(1) [unfolded publish_one_eq Let_def Some option.case]
  show ?thesis using r assms(2) Some
    by (auto split: invocation_result.splits option.splits prod.splits
        dest!: quarantined_not_published reject_not_published)
qed

lemma accepted_receipt:
  "invoke_with_hard_deadline out = Call_Accepted r
     \<Longrightarrow> \<exists>rid. out = CO_Receipt (Some PR_ACCEPTED) (JStr rid) JNull \<and> \<not> blank rid"
  by (auto simp: invoke_with_hard_deadline_def check_receipt_def
      split: connector_outcome.splits sum.splits option.splits publish_verdict.splits json.splits if_splits)

text \<open>The seconds left of a lease are exact up to one part in \<open>2^53\<close>.\<close>

lemma total_seconds_near:
  "\<bar>total_seconds d - of_int d / 10 ^ 6\<bar> \<le> \<bar>of_int d / 10 ^ 6\<bar> / 2 ^ 53"
proof -
  have near: "\<bar>to_double (of_int i / 10 ^ 6) - of_int i / 10 ^ 6\<bar> \<le> of_int i / 10 ^ 6 / 2 ^ 53" if "0 < i" for i :: int
  proof (rule to_double_error)
    have "(2 :: rat) powi (- 1022) \<le> 2 powi (- 20)" by (simp add: two_powi_le)
    also have "\<dots> \<le> 1 / 10 ^ 6" by (simp add: power_int_def power_divide)
    also have "\<dots> \<le> of_int i / 10 ^ 6" using that by simp
    finally show "2 powi (- 1022) \<le> of_int i / (10 ^ 6 :: rat)" .
  qed
  consider "d = 0" | "0 < d" | "0 < - d" by linarith
  then show ?thesis
  proof cases
    case 3
    define x :: rat where "x = of_int d / 10 ^ 6"
    have x: "x < 0" using 3 by (simp add: x_def divide_less_0_iff)
    then have "to_double x = - to_double (- x)" by (simp add: to_double_def)
    moreover have "\<bar>to_double (- x) - (- x)\<bar> \<le> - x / 2 ^ 53" using near [OF 3] by (simp add: x_def)
    ultimately have "\<bar>to_double x - x\<bar> \<le> \<bar>x\<bar> / 2 ^ 53" using x by linarith
    then show ?thesis by (simp only: total_seconds_def x_def)
  qed (use near in \<open>auto simp: total_seconds_def to_double_def\<close>)
qed

text \<open>
  C14. A message counts as published only on evidence, and then for good: the connector was called
  with the whole publish timeout left of the lease (in seconds as a float, exact to one part in \<open>2^53\<close>),
  it returned a valid accepted receipt, the clock had
  not reached the lease's deadline, and the store took the acknowledgement; from then on the message
  stays published and nobody can acknowledge or reject it, whatever happens.
\<close>

theorem published_for_good:
  assumes "reachable_events cf st" and "fair_world cf ae"
    and "publish_one cf tm pb ae s st = (Finished t, st')" and "ta_published t = 1"
    and "(event_step cf)\<^sup>*\<^sup>* st' st2"
  shows "(\<exists>rid. ae_connector ae (request_from_stored s) = CO_Receipt (Some PR_ACCEPTED) (JStr rid) JNull
      \<and> \<not> blank rid)
    \<and> (\<exists>text deadline start now. so_lease_expires_at s = Some text \<and> pt_parse tm text = Some deadline
      \<and> ae_budget_clock ae = Clock_Aware start \<and> pub_publish_timeout pb \<le> total_seconds (deadline - start)
      \<and> \<bar>total_seconds (deadline - start) - of_int (deadline - start) / 10 ^ 6\<bar>
          \<le> \<bar>of_int (deadline - start) / 10 ^ 6\<bar> / 2 ^ 53
      \<and> ae_ack_clock ae = Clock_Aware now \<and> now < deadline)
    \<and> delivery_closed cf (om_message_id (so_message s)) st2 \<and> delivered s st2"
proof -
  from published_path [OF assms(3,4)] obtain b receipt p where
    path: "lease_budget_timestamp tm pb (request_from_stored s) (ae_budget_clock ae) = Some b"
      "invoke_with_hard_deadline (ae_connector ae (request_from_stored s)) = Call_Accepted receipt"
      "valid_ack_timestamp tm (request_from_stored s) (ae_ack_clock ae) = Some p"
      "acknowledge_accepted cf tm ae s (request_from_stored s) p st = (Finished t, st')" by blast
  have "\<exists>text deadline start now. so_lease_expires_at s = Some text \<and> pt_parse tm text = Some deadline
      \<and> ae_budget_clock ae = Clock_Aware start \<and> pub_publish_timeout pb \<le> total_seconds (deadline - start)
      \<and> ae_ack_clock ae = Clock_Aware now \<and> now < deadline"
    using path(1,3)
    by (auto simp: lease_budget_timestamp_def valid_ack_timestamp_def request_from_stored_def Let_def
        not_less split: option.splits clock_reading.splits if_splits)
  then have deadline: "\<exists>text deadline start now. so_lease_expires_at s = Some text \<and> pt_parse tm text = Some deadline
      \<and> ae_budget_clock ae = Clock_Aware start \<and> pub_publish_timeout pb \<le> total_seconds (deadline - start)
      \<and> \<bar>total_seconds (deadline - start) - of_int (deadline - start) / 10 ^ 6\<bar>
          \<le> \<bar>of_int (deadline - start) / 10 ^ 6\<bar> / 2 ^ 53
      \<and> ae_ack_clock ae = Clock_Aware now \<and> now < deadline"
    using total_seconds_near by blast
  let ?m = "om_message_id (so_message s)" and ?st = "sc_world (ae_first ae) st"
  have "acknowledge_outbox cf (prq_message_id (request_from_stored s)) (held_token s) (Some p)
      (sc_clock (ae_first ae)) ?st = Inr (True, st')"
    by (rule store_call_answer [OF acknowledge_answer [OF path(4) assms(4)]])
  then have ack: "acknowledge_outbox cf ?m (held_token s) (Some p) (sc_clock (ae_first ae)) ?st = Inr (True, st')"
    by (simp add: request_from_stored_def Let_def)
  have "reachable_events cf ?st"
    using reach_run [OF assms(1)] assms(2) by (simp add: fair_world_def)
  from acknowledged_once [OF this ack assms(5)]
  have "delivery_closed cf ?m st2" "delivered s st2" by (auto simp: delivered_def)
  with accepted_receipt [OF path(2)] deadline show ?thesis by blast
qed

end
