(* ===== verification/Publisher_Shutdown.thy ===== *)
theory Publisher_Shutdown
  imports Publisher_Props
begin

text \<open>
  The counters of a publisher over its whole life, what a clean shutdown means, and the instances at
  which the promises of the publisher apply.
\<close>

section \<open>Batches\<close>

lemma add_tally_fields [simp]:
  "ta_published (add_tally a t) = ta_published t + ta_published a"
  "ta_publish_failures (add_tally a t) = ta_publish_failures t + ta_publish_failures a"
  "ta_accepted_unconfirmed (add_tally a t) = ta_accepted_unconfirmed t + ta_accepted_unconfirmed a"
  "ta_ambiguity_persisted (add_tally a t) = ta_ambiguity_persisted t + ta_ambiguity_persisted a"
  "ta_reconciliation_failed (add_tally a t) = ta_reconciliation_failed t + ta_reconciliation_failed a"
  by (simp_all add: add_tally_def)

lemma add_tally_counters [simp]:
  "cn_cancelled_cycles (add_tally a c) = cn_cancelled_cycles c" "cn_claimed (add_tally a c) = cn_claimed c"
  by (simp_all add: add_tally_def)

definition settled_count :: "'a tally_scheme \<Rightarrow> nat" where
  "settled_count t = ta_published t + ta_publish_failures t + ta_accepted_unconfirmed t"

text \<open>What one claimed message, or any number of them, adds up to.\<close>

definition balanced :: "nat \<Rightarrow> 'a tally_scheme \<Rightarrow> bool" where
  "balanced n t = (settled_count t = n
     \<and> ta_accepted_unconfirmed t = ta_ambiguity_persisted t + ta_reconciliation_failed t)"

lemma accounted_balanced: "accounted t \<Longrightarrow> balanced 1 t"
  by (simp add: accounted_def balanced_def settled_count_def)

lemma balanced_add: "balanced m a \<Longrightarrow> balanced n t \<Longrightarrow> balanced (m + n) (add_tally a t)"
  by (simp add: balanced_def settled_count_def)

lemma balanced_sum: "\<forall>t \<in> set ts. accounted t \<Longrightarrow> balanced (length ts) (sum_tallies ts)"
proof (induction ts)
  case Nil
  show ?case by (simp add: balanced_def settled_count_def sum_tallies_def no_tally_def)
next
  case (Cons t ts)
  have "balanced (1 + length ts) (add_tally t (sum_tallies ts))"
    using Cons by (intro balanced_add accounted_balanced) auto
  then show ?case by (simp add: sum_tallies_def)
qed

text \<open>
  Whatever the order of the calls, and whatever the others did to the store in between: an attempt that
  ends is accounted for.
\<close>

fun stage_accounted :: "attempt_stage \<Rightarrow> bool" where
  "stage_accounted (Ended (Finished t)) = accounted t"
| "stage_accounted _ = True"

lemma begin_accounted:
  assumes "begin_attempt cf tm pb ae s st = (stage, st')"
  shows "stage_accounted stage"
proof (cases stage)
  case (Ended r)
  with assms have "publish_one cf tm pb ae s st = (r, st')" by (simp add: publish_one_def)
  with Ended show ?thesis using attempt_accounted by (cases r) auto
qed simp

lemma end_accounted:
  assumes "stage_accounted stage" and "end_attempt cf tm ae s stage st = (r, st')"
  shows "stage_accounted (Ended r)"
  using assms
  by (cases r) (auto simp: end_attempt_def Let_def accounted_def no_tally_def unconfirmed_def
      split: attempt_stage.splits answer.splits prod.splits dest!: quarantined_Finished)

definition task_accounted :: "attempt_task \<Rightarrow> bool" where
  "task_accounted task = (case snd task of None \<Rightarrow> True | Some stage \<Rightarrow> stage_accounted stage)"

lemma next_call_accounted:
  "task_accounted task \<Longrightarrow> next_call cf tm pb env task st = (task', st') \<Longrightarrow> task_accounted task'"
  by (cases "(cf, tm, pb, env, task, st)" rule: next_call.cases)
    (auto simp: task_accounted_def split: prod.splits dest: begin_accounted end_accounted)

lemma run_schedule_accounted:
  "run_schedule cf tm pb env order tasks st = (tasks', st') \<Longrightarrow> \<forall>task \<in> set tasks. task_accounted task
     \<Longrightarrow> length tasks' = length tasks \<and> (\<forall>task \<in> set tasks'. task_accounted task)"
proof (induction order arbitrary: tasks st)
  case (Cons i order)
  show ?case
  proof (cases "i < length tasks")
    case True
    obtain task st1 where n: "next_call cf tm pb env (tasks ! i) st = (task, st1)" by fastforce
    have "task_accounted (tasks ! i)" using Cons.prems(2) True by simp
    then have "\<forall>x \<in> set (tasks[i := task]). task_accounted x"
      using next_call_accounted [OF _ n] Cons.prems(2) set_update_subset_insert [of tasks i task] by blast
    from Cons.IH [OF _ this] Cons.prems(1) True n show ?thesis by simp
  qed (use Cons in simp)
qed simp

lemma finish_task_accounted:
  "task_accounted task \<Longrightarrow> finish_task cf tm pb env task st = (r, st') \<Longrightarrow> stage_accounted (Ended r)"
  by (cases r) (auto simp: finish_task_def task_accounted_def dest: attempt_accounted end_accounted
      split: prod.splits option.splits)

lemma finish_tasks_accounted:
  "finish_tasks cf tm pb env tasks st = (rs, st') \<Longrightarrow> \<forall>task \<in> set tasks. task_accounted task
     \<Longrightarrow> length rs = length tasks \<and> (\<forall>r \<in> set rs. stage_accounted (Ended r))"
proof (induction tasks arbitrary: st rs st')
  case (Cons task tasks)
  obtain r st1 where one: "finish_task cf tm pb env task st = (r, st1)" by fastforce
  obtain rs' st2 where all: "finish_tasks cf tm pb env tasks st1 = (rs', st2)" by fastforce
  have rs: "rs = r # rs'" using Cons.prems(1) one all by simp
  from Cons.IH [OF all] Cons.prems(2) finish_task_accounted [OF _ one] show ?case unfolding rs by auto
qed simp

lemma publish_all_results:
  assumes "publish_all cf tm pb env order ss st = (rs, st')"
  shows "length rs = length ss \<and> (\<forall>t. Finished t \<in> set rs \<longrightarrow> accounted t)"
proof -
  obtain tasks st1 where run: "run_schedule cf tm pb env order (map (\<lambda>s. (s, None)) ss) st = (tasks, st1)"
    by fastforce
  have "\<forall>task \<in> set (map (\<lambda>s. (s, None)) ss). task_accounted task" by (simp add: task_accounted_def)
  from run_schedule_accounted [OF run this]
  have tasks: "length tasks = length ss" "\<forall>task \<in> set tasks. task_accounted task" by simp_all
  have "finish_tasks cf tm pb env tasks st1 = (rs, st')" using assms run by (simp add: publish_all_def)
  from finish_tasks_accounted [OF this tasks(2)] tasks(1) show ?thesis by fastforce
qed

text \<open>What a cycle of the publisher can end with, in any environment.\<close>

definition cycle_can_end ::
  "event_config \<Rightarrow> publisher_times \<Rightarrow> publisher_config \<Rightarrow> cycle_result \<Rightarrow> bool" where
  "cycle_can_end cf tm pb r = (\<exists>be st st'. run_batch_once cf tm pb be st = (r, st'))"

lemma batch_fields [simp]:
  "settled_count (tally.extend t x) = settled_count t"
  "ta_accepted_unconfirmed (tally.extend t x) = ta_accepted_unconfirmed t"
  "ta_ambiguity_persisted (tally.extend t x) = ta_ambiguity_persisted t"
  "ta_reconciliation_failed (tally.extend t x) = ta_reconciliation_failed t"
  by (simp_all add: settled_count_def tally.defs)

text \<open>
  A batch is the sum of its attempts: every message it claimed is published, failed or in doubt,
  and what is in doubt is quarantined or reported.
\<close>

lemma batch_balanced:
  assumes "run_batch_once cf tm pb be st = (Batch b, st')"
  shows "balanced (bs_claimed b) b"
proof -
  have empty: "balanced 0 empty_batch" "balanced 0 (empty_batch\<lparr>bs_admission_rejected := x\<rparr>)"
    "balanced 0 (empty_batch\<lparr>ta_store_errors := x\<rparr>)" for x
    by (simp_all add: balanced_def settled_count_def empty_batch_def no_tally_def tally.defs batch_stats.defs)
  have claimed: "bs_claimed empty_batch = 0" "bs_claimed (empty_batch\<lparr>bs_admission_rejected := x\<rparr>) = 0"
    "bs_claimed (empty_batch\<lparr>ta_store_errors := x\<rparr>) = 0" for x
    by (simp_all add: empty_batch_def no_tally_def tally.defs batch_stats.defs)
  show ?thesis
  proof (cases "pub_max_callback_tasks pb - be_active_callbacks be \<le> 0")
    case True
    then show ?thesis using assms empty claimed by (auto simp: run_batch_once_def Let_def)
  next
    case False
    obtain a st1 where call: "store_call (be_claim be) (\<lambda>clock. claim_outbox cf (pub_worker_id pb)
        (min (pub_batch_size pb) (pub_max_callback_tasks pb - be_active_callbacks be)) (pub_lease_seconds pb)
        clock (be_lease_ids be)) st = (a, st1)" by fastforce
    note r = assms [unfolded run_batch_once_def Let_def call]
    show ?thesis
    proof (cases a)
      case (Answer records)
      obtain rs st2 where all: "publish_all cf tm pb (be_attempts be) (be_schedule be) records st1
          = (rs, st2)" by fastforce
      show ?thesis
      proof (cases "records = []")
        case True
        then show ?thesis using r False Answer empty claimed by auto
      next
        case ne: False
        then have c: "\<not> list_ex is_cancelled rs" and b: "b = finished_batch (length records) (map result_tally rs)"
          using r False Answer all by (auto split: if_splits)
        have "\<forall>t \<in> set (map result_tally rs). accounted t"
        proof
          fix t assume "t \<in> set (map result_tally rs)"
          then obtain x where x: "x \<in> set rs" "t = result_tally x" by auto
          with c have "x = Finished t" by (cases x) (auto simp: list_ex_iff)
          with publish_all_results [OF all] x(1) show "accounted t" by blast
        qed
        from balanced_sum [OF this] show ?thesis
          using publish_all_results [OF all] unfolding b balanced_def finished_batch_def
          by (simp add: batch_stats.defs tally.defs settled_count_def)
      qed
    next
      case Raised
      then show ?thesis using r False empty claimed by auto
    next
      case Interrupted
      then show ?thesis using r False by auto
    qed
  qed
qed

section \<open>The life of a publisher\<close>

definition keys_within :: "('k, 'a) dict \<Rightarrow> ('k, 'b) dict \<Rightarrow> bool" where
  "keys_within a b = (fst ` set a \<subseteq> fst ` set b)"

definition life_inv :: "publisher_state \<Rightarrow> bool" where
  "life_inv p = ((pst_closed p \<longrightarrow> pst_active_cycles p = 0 \<and> pst_db_tasks p = 0 \<and> \<not> pst_running p \<and> \<not> pst_closing p)
     \<and> (cn_cancelled_cycles (pst_counters p) = 0 \<longrightarrow> balanced (cn_claimed (pst_counters p)) (pst_counters p))
     \<and> keys_within (pst_abandoned p) (pst_callbacks p))"

lemma fresh_life: "p = fresh_publisher \<Longrightarrow> life_inv p"
  by (simp add: life_inv_def fresh_publisher_def zero_counters_def balanced_def settled_count_def no_tally_def
      tally.defs counters.defs keys_within_def)

lemma record_batch_balanced:
  assumes "balanced (bs_claimed b) b" and "balanced (cn_claimed c) c"
  shows "balanced (cn_claimed (record_batch b c)) (record_batch b c)"
proof -
  have "balanced (bs_claimed b + cn_claimed c) (add_tally b c)" by (rule balanced_add [OF assms])
  then show ?thesis by (simp add: balanced_def record_batch_def settled_count_def add.commute)
qed

lemma record_batch_cancelled [simp]: "cn_cancelled_cycles (record_batch b c) = cn_cancelled_cycles c"
  by (simp add: record_batch_def)

lemma deleted_keys: "fst ` set (AList.delete k a) = fst ` set a - {k}"
  using delete_keys [of k a] by (metis set_map set_removeAll)

lemma added_key: "fst ` set (dict_set k v d) = insert k (fst ` set d)"
proof -
  have "set (dict_keys (dict_set k v d)) = insert k (set (dict_keys d))" by (auto simp: dict_keys_set)
  then show ?thesis by simp
qed

lemma keys_within_simps:
  "keys_within a b \<Longrightarrow> keys_within (AList.delete k a) (AList.delete k b)"
  "keys_within a b \<Longrightarrow> keys_within a (dict_set k v b)"
  "keys_within a b \<Longrightarrow> k \<in> fst ` set b \<Longrightarrow> keys_within (dict_set k x a) b"
  by (auto simp only: keys_within_def deleted_keys added_key)

lemma publisher_step_life:
  assumes inv: "life_inv p" and step: "publisher_step tm (cycle_can_end cf tm pb) p p'"
  shows "life_inv p'"
  using step
proof cases
  case (pub_end r)
  then obtain be st st' where r: "run_batch_once cf tm pb be st = (r, st')" by (auto simp: cycle_can_end_def)
  show ?thesis
  proof (cases r)
    case (Batch b)
    with batch_balanced r have "balanced (bs_claimed b) b" by blast
    with inv show ?thesis unfolding pub_end(1) Batch
      using record_batch_balanced by (auto simp: life_inv_def release_cycle_def)
  qed (use inv pub_end in \<open>auto simp: life_inv_def release_cycle_def\<close>)
next
  case (pub_done future)
  then show ?thesis using inv by (simp add: life_inv_def callback_done_def keys_within_simps)
next
  case (pub_abandon is_done future reading request)
  then show ?thesis using inv by (auto simp: life_inv_def mark_callback_abandoned_def keys_within_simps split: if_splits)
next
  case (pub_connect future name)
  then show ?thesis using inv by (auto simp: life_inv_def start_connector_def keys_within_simps split: if_splits)
qed (use inv in \<open>auto simp: life_inv_def start_publisher_def enter_run_def begin_closing_def mark_closed_def
      leave_run_def finish_stop_def accept_cycle_def drained_def split: if_splits\<close>)

interpretation publisher_life: invariant_system "\<lambda>p. p = fresh_publisher"
    "publisher_step tm (cycle_can_end cf tm pb)" life_inv for cf tm pb
  by unfold_locales (blast intro: fresh_life, blast intro: publisher_step_life)

abbreviation reachable_publisher ::
  "event_config \<Rightarrow> publisher_times \<Rightarrow> publisher_config \<Rightarrow> publisher_state \<Rightarrow> bool" where
  "reachable_publisher cf tm pb \<equiv>
     reach (\<lambda>p. p = fresh_publisher) (publisher_step tm (cycle_can_end cf tm pb))"

text \<open>A closed publisher stays closed, whatever is called on it.\<close>

lemma closed_step:
  assumes "life_inv p" "pst_closed p" "publisher_step tm may_end p p'"
  shows "pst_closed p' \<and> pst_counters p' = pst_counters p \<and> pst_db_tasks p' = 0
    \<and> (pst_abandoned p = [] \<longrightarrow> pst_abandoned p' = [])"
  using assms(3,1,2)
  by cases (auto simp: life_inv_def start_publisher_def enter_run_def begin_closing_def mark_closed_def
      leave_run_def finish_stop_def accept_cycle_def callback_done_def split: if_splits)

text \<open>
  C28. A clean shutdown means what it says. When a publisher, over any number of cycles with whatever
  connectors, cancellations and store failures, reports a clean shutdown, every message it ever claimed
  was published or failed in the open, none was accepted without the store knowing, no cycle or
  connector is still in doubt, and this report stays true for ever.
\<close>

theorem clean_shutdown:
  assumes "reachable_publisher cf tm pb p" and "shutdown_clean p"
    and "(publisher_step tm (cycle_can_end cf tm pb))\<^sup>*\<^sup>* p p'"
  shows "cn_claimed (pst_counters p) = ta_published (pst_counters p) + ta_publish_failures (pst_counters p)
    \<and> ta_ambiguity_persisted (pst_counters p) = 0 \<and> ta_reconciliation_failed (pst_counters p) = 0
    \<and> pst_active_cycles p = 0 \<and> lifecycle_state p = ''closed''
    \<and> shutdown_clean p' \<and> pst_counters p' = pst_counters p"
proof -
  have inv: "life_inv p" by (rule publisher_life.reach_inv [OF assms(1)])
  have "shutdown_clean p' \<and> pst_counters p' = pst_counters p"
    using assms(3)
  proof (induction rule: rtranclp_induct)
    case base
    then show ?case using assms(2) by simp
  next
    case (step y z)
    have "life_inv y" by (rule publisher_life.steps_inv [OF step.hyps(1) inv])
    with step.IH closed_step [OF this _ step.hyps(2)] show ?case by (auto simp: shutdown_clean_def)
  qed
  with inv assms(2) show ?thesis
    by (auto simp: life_inv_def shutdown_clean_def balanced_def settled_count_def lifecycle_state_def)
qed

section \<open>Instances\<close>

definition sample_call :: store_env where
  "sample_call = \<lparr>sc_world = (\<lambda>st. st), sc_clock = ''now'', sc_fault = Call_Fine\<rparr>"

definition sample_attempt :: "connector_outcome \<Rightarrow> attempt_env" where
  "sample_attempt out = \<lparr>ae_budget_clock = Clock_Aware 0, ae_connector = (\<lambda>_. out), ae_ack_clock = Clock_Aware 1,
     ae_mark_clock = Clock_Raises, ae_retry_clock = Clock_Raises, ae_jitter = (\<lambda>_. Jitter_Raises),
     ae_formatter = (\<lambda>_. None), ae_first = sample_call, ae_second = sample_call\<rparr>"

definition sample_claimed :: stored_outbox where
  "sample_claimed = or_stored sample_leased"

lemma sample_claimed_facts:
  "so_lease_expires_at sample_claimed = Some ''now+''" "held_token sample_claimed = ''w:l''"
  "om_message_id (so_message sample_claimed) = ''m''"
  using sample_leased_facts by (simp_all add: sample_claimed_def held_token_def)

lemma sample_budget: "lease_budget_timestamp sample_times_of sample_publisher (request_from_stored sample_claimed)
    (Clock_Aware 0) = Some ''now''"
proof -
  have "10 \<le> total_seconds 30000000" by code_simp
  then show ?thesis
    by (simp add: lease_budget_timestamp_def request_from_stored_def Let_def sample_claimed_facts sample_times_of_def
        sample_publisher_def)
qed

definition sample_accepted :: connector_outcome where
  "sample_accepted = CO_Receipt (Some PR_ACCEPTED) (JStr ''r'') JNull"

lemma sample_accepted_call: "invoke_with_hard_deadline sample_accepted
    = Call_Accepted \<lparr>prc_result = PR_ACCEPTED, prc_receipt_id = Some ''r'', prc_reason_code = None\<rparr>"
  by (simp add: sample_accepted_def invoke_with_hard_deadline_def check_receipt_def blank_iff py_space_def)

lemma sample_publish: "publish_one sample_config sample_times_of sample_publisher (sample_attempt sample_accepted)
    sample_claimed (store_with sample_leased)
  = (Finished (no_tally\<lparr>ta_published := 1\<rparr>), store_with (published ''now'' sample_leased))"
proof -
  have v: "valid_ack_timestamp sample_times_of (request_from_stored sample_claimed) (Clock_Aware 1) = Some ''now''"
    by (simp add: valid_ack_timestamp_def request_from_stored_def Let_def sample_claimed_facts sample_times_of_def)
  have m: "prq_message_id (request_from_stored sample_claimed) = ''m''"
    by (simp add: request_from_stored_def Let_def sample_claimed_facts)
  have ack: "acknowledge_outbox sample_config ''m'' ''w:l'' (Some ''now'') ''now'' (store_with sample_leased)
      = Inr (True, store_with (published ''now'' sample_leased))"
    using sample_ack by (simp add: acknowledge_outbox_def sample_now)
  show ?thesis
    by (simp add: publish_one_eq Let_def sample_attempt_def sample_budget sample_accepted_call v
        acknowledge_accepted_eq store_call_def sample_call_def m sample_claimed_facts ack)
qed

lemma sample_world: "fair_world sample_config (sample_attempt out)"
  by (simp add: fair_world_def sample_attempt_def sample_call_def)

lemma published_for_good_witness:
  "delivery_closed sample_config ''m'' (store_with (published ''now'' sample_leased))
     \<and> delivered sample_claimed (store_with (published ''now'' sample_leased))"
  using published_for_good [OF sample_store_reach(3) sample_world sample_publish _ rtranclp.rtrancl_refl]
  by (simp add: no_tally_def sample_claimed_facts)


lemma clean_shutdown_witness:
  "\<exists>p. reachable_publisher sample_config sample_times_of sample_publisher p
     \<and> cn_claimed (pst_counters p) = ta_published (pst_counters p) + ta_publish_failures (pst_counters p)"
proof -
  let ?S = "publisher_step sample_times_of (cycle_can_end sample_config sample_times_of sample_publisher)"
  let ?p = "finish_stop sample_times_of Clock_Raises (begin_closing fresh_publisher)"
  have a: "reachable_publisher sample_config sample_times_of sample_publisher fresh_publisher"
    by (rule reach_init) simp
  have b: "reachable_publisher sample_config sample_times_of sample_publisher (begin_closing fresh_publisher)"
    by (rule reach_step [OF a pub_request_stop])
  have "?S (begin_closing fresh_publisher) ?p"
    by (rule pub_stop) (simp_all add: begin_closing_def fresh_publisher_def drained_def)
  then have c: "reachable_publisher sample_config sample_times_of sample_publisher ?p" by (rule reach_step [OF b])
  have "shutdown_clean ?p"
    by (simp add: shutdown_clean_def finish_stop_def mark_closed_def begin_closing_def fresh_publisher_def
        zero_counters_def no_tally_def tally.defs counters.defs)
  from clean_shutdown [OF c this rtranclp.rtrancl_refl] c show ?thesis by blast
qed

end
