(* ===== verification/Invocation_Codec.thy ===== *)
theory Invocation_Codec
  imports Canonical Tenancy_Grants Scheduler
begin

text \<open>
  The strict wire values of \<open>invocation_execution.py\<close>: the validators, and the execution manifests of
  schema 1 and 2. A constructor is given the values of its fields as documents (\<open>raw\<close>), because it
  has to check that they have the right type; \<open>to_dict\<close> runs the same checks on the fields of the
  object. On texts of code points up to 255 every text is in normal form NFC.
\<close>

datatype exec_error = ExType string | ExValue string

section \<open>Validators\<close>

definition exact_dict :: "json \<Rightarrow> string list \<Rightarrow> string \<Rightarrow> exec_error + (string, json) dict" where
  "exact_dict v keys label = (case v of
     JObj d \<Rightarrow> if set (dict_keys d) \<noteq> set keys
       then Inl (ExValue (label @ '' fields do not match its exact schema version'')) else Inr d
   | _ \<Rightarrow> Inl (ExType (label @ '' must be a plain dictionary'')))"

definition dict_get :: "(string, json) dict \<Rightarrow> string \<Rightarrow> json" where
  "dict_get d k = (case map_of d k of None \<Rightarrow> JNull | Some v \<Rightarrow> v)"

definition schema_version :: "json \<Rightarrow> int \<Rightarrow> string \<Rightarrow> exec_error + int" where
  "schema_version v expected label = (case v of
     JInt n \<Rightarrow> if n \<noteq> expected then Inl (ExValue (label @ '' is unsupported'')) else Inr n
   | _ \<Rightarrow> Inl (ExType (label @ '' must be an exact integer'')))"

definition integer_in_range :: "json \<Rightarrow> string \<Rightarrow> int \<Rightarrow> int \<Rightarrow> exec_error + int" where
  "integer_in_range v label minimum maximum = (case v of
     JInt n \<Rightarrow> if n < minimum \<or> maximum < n
       then Inl (ExValue (label @ '' is outside its supported range'')) else Inr n
   | _ \<Rightarrow> Inl (ExType (label @ '' must be an exact integer'')))"

definition sqlite_positive :: "json \<Rightarrow> string \<Rightarrow> exec_error + int" where
  "sqlite_positive v label = integer_in_range v label 1 (2 ^ 63 - 1)"

definition control_char :: "char \<Rightarrow> bool" where
  "control_char c = ((of_char c :: nat) < 32 \<or> (of_char c :: nat) = 127)"

definition bounded_text :: "json \<Rightarrow> string \<Rightarrow> nat \<Rightarrow> exec_error + string" where
  "bounded_text v label maximum_bytes = (case v of
     JStr s \<Rightarrow>
       if s = [] \<or> s \<noteq> py_strip s
         then Inl (ExValue (label @ '' must be non-empty without surrounding whitespace''))
       else if maximum_bytes < utf8_len s
         then Inl (ExValue (label @ '' exceeds its UTF-8 byte limit''))
       else if list_ex control_char s
         then Inl (ExValue (label @ '' contains a C0 or DEL control character''))
       else Inr s
   | _ \<Rightarrow> Inl (ExType (label @ '' must be a plain string'')))"

abbreviation exec_text :: "json \<Rightarrow> string \<Rightarrow> exec_error + string" where
  "exec_text v label \<equiv> bounded_text v label 4096"

definition exec_digest :: "json \<Rightarrow> string \<Rightarrow> exec_error + string" where
  "exec_digest v label = bind_res (bounded_text v label 64) (\<lambda>s.
     if \<not> sha256_text s then Inl (ExValue (label @ '' must be canonical lowercase SHA-256''))
     else Inr s)"

text \<open>
  A canonical UTC text, \<open>YYYY-MM-DDThh:mm:ss.uuuuuuZ\<close>, that names a moment of the calendar;
  \<open>isoformat\<close> of that moment is the text again.
\<close>

definition utc_pattern :: "string \<Rightarrow> bool" where
  "utc_pattern s =
     (length s = 27
      \<and> list_all (\<lambda>i. is_digit (s ! i)) [0, 1, 2, 3, 5, 6, 8, 9, 11, 12, 14, 15, 17, 18, 20, 21, 22, 23, 24, 25]
      \<and> s ! 4 = CHR ''-'' \<and> s ! 7 = CHR ''-'' \<and> s ! 10 = CHR ''T'' \<and> s ! 13 = CHR '':''
      \<and> s ! 16 = CHR '':'' \<and> s ! 19 = CHR ''.'' \<and> s ! 26 = CHR ''Z'')"

definition digits_at :: "string \<Rightarrow> nat \<Rightarrow> nat \<Rightarrow> nat" where
  "digits_at s i n = foldl (\<lambda>a c. 10 * a + (of_char c - 48)) 0 (take n (drop i s))"

definition leap_year :: "nat \<Rightarrow> bool" where
  "leap_year y = (y mod 4 = 0 \<and> (y mod 100 \<noteq> 0 \<or> y mod 400 = 0))"

definition month_days :: "nat \<Rightarrow> nat \<Rightarrow> nat" where
  "month_days y m = (if m = 2 then (if leap_year y then 29 else 28)
     else if m \<in> set [4, 6, 9, 11] then 30 else 31)"

definition utc_moment :: "string \<Rightarrow> bool" where
  "utc_moment s =
     (let y = digits_at s 0 4; m = digits_at s 5 2; d = digits_at s 8 2 in
      1 \<le> y \<and> 1 \<le> m \<and> m \<le> 12 \<and> 1 \<le> d \<and> d \<le> month_days y m
      \<and> digits_at s 11 2 \<le> 23 \<and> digits_at s 14 2 \<le> 59 \<and> digits_at s 17 2 \<le> 59)"

definition exec_timestamp :: "json \<Rightarrow> string \<Rightarrow> exec_error + string" where
  "exec_timestamp v label = bind_res (bounded_text v label 27) (\<lambda>s.
     if \<not> utc_pattern s then Inl (ExValue (label @ '' must be canonical UTC with microseconds''))
     else if \<not> utc_moment s then Inl (ExValue (label @ '' must be a valid UTC timestamp''))
     else Inr s)"

datatype effect_class = EC_PURE | EC_IDEMPOTENT | EC_RECEIPT_RECONCILED | EC_NON_RETRIABLE

fun effect_class_value :: "effect_class \<Rightarrow> string" where
  "effect_class_value EC_PURE = ''pure''"
| "effect_class_value EC_IDEMPOTENT = ''idempotent''"
| "effect_class_value EC_RECEIPT_RECONCILED = ''receipt_reconciled''"
| "effect_class_value EC_NON_RETRIABLE = ''non_retriable''"

datatype retry_class = RC_NEVER

fun retry_class_value :: "retry_class \<Rightarrow> string" where
  "retry_class_value RC_NEVER = ''never''"

definition parse_effect_class :: "json \<Rightarrow> exec_error + effect_class" where
  "parse_effect_class v = (case v of
     JStr s \<Rightarrow> (case List.find (\<lambda>e. effect_class_value e = s)
           [EC_PURE, EC_IDEMPOTENT, EC_RECEIPT_RECONCILED, EC_NON_RETRIABLE] of
         None \<Rightarrow> Inl (ExValue ''effectClass is unsupported'') | Some e \<Rightarrow> Inr e)
   | _ \<Rightarrow> Inl (ExType ''effectClass must be a plain string''))"

definition parse_retry_class :: "json \<Rightarrow> exec_error + retry_class" where
  "parse_retry_class v = (case v of
     JStr s \<Rightarrow> if s = retry_class_value RC_NEVER then Inr RC_NEVER
       else Inl (ExValue ''retryClass is unsupported'')
   | _ \<Rightarrow> Inl (ExType ''retryClass must be a plain string''))"

definition event_type_is :: "string \<Rightarrow> string \<Rightarrow> exec_error + string" where
  "event_type_is v expected =
     (if v \<noteq> expected then Inl (ExValue (''event type must be exactly '' @ expected)) else Inr v)"

text \<open>The values of fields that have passed their check.\<close>

fun str_of :: "json \<Rightarrow> string" where
  "str_of (JStr s) = s"
| "str_of _ = []"

fun int_of :: "json \<Rightarrow> int" where
  "int_of (JInt n) = n"
| "int_of _ = 0"

text \<open>The loop over the text fields of an object.\<close>

definition exec_texts :: "(string \<Rightarrow> json) \<Rightarrow> string list \<Rightarrow> exec_error + string list" where
  "exec_texts raw labels = map_res (\<lambda>k. exec_text (raw k) k) labels"

section \<open>The manifest of schema 1\<close>

record manifest =
  mf_schema_version :: int
  mf_invocation_id :: string
  mf_session_id :: string
  mf_plan_id :: string
  mf_task_id :: string
  mf_agent_id :: string
  mf_job_idempotency_key :: string
  mf_task_revision :: int
  mf_correlation_id :: string
  mf_causation_id :: string
  mf_envelope_digest :: string
  mf_context_digest :: string
  mf_authorization_digest :: string
  mf_runtime_revision :: string
  mf_effect_class :: effect_class
  mf_retry_class :: retry_class

definition manifest_fields :: "string list" where
  "manifest_fields = [''schemaVersion'', ''invocationId'', ''sessionId'', ''planId'', ''taskId'',
     ''agentId'', ''jobIdempotencyKey'', ''taskRevision'', ''correlationId'', ''causationId'',
     ''envelopeDigest'', ''contextDigest'', ''authorizationDigest'', ''runtimeRevision'',
     ''effectClass'', ''retryClass'']"

definition manifest_wire :: "manifest \<Rightarrow> (string, json) dict" where
  "manifest_wire m =
     [(''schemaVersion'', JInt (mf_schema_version m)), (''invocationId'', JStr (mf_invocation_id m)),
      (''sessionId'', JStr (mf_session_id m)), (''planId'', JStr (mf_plan_id m)),
      (''taskId'', JStr (mf_task_id m)), (''agentId'', JStr (mf_agent_id m)),
      (''jobIdempotencyKey'', JStr (mf_job_idempotency_key m)),
      (''taskRevision'', JInt (mf_task_revision m)),
      (''correlationId'', JStr (mf_correlation_id m)), (''causationId'', JStr (mf_causation_id m)),
      (''envelopeDigest'', JStr (mf_envelope_digest m)),
      (''contextDigest'', JStr (mf_context_digest m)),
      (''authorizationDigest'', JStr (mf_authorization_digest m)),
      (''runtimeRevision'', JStr (mf_runtime_revision m)),
      (''effectClass'', JStr (effect_class_value (mf_effect_class m))),
      (''retryClass'', JStr (retry_class_value (mf_retry_class m)))]"

definition manifest_init ::
  "(string \<Rightarrow> json) \<Rightarrow> effect_class \<Rightarrow> retry_class \<Rightarrow> exec_error + manifest" where
  "manifest_init raw effect retry =
     bind_res (schema_version (raw ''schemaVersion'') 1 ''schemaVersion'') (\<lambda>version.
     bind_res (exec_texts raw [''invocationId'', ''sessionId'', ''planId'', ''taskId'', ''agentId'',
       ''jobIdempotencyKey'', ''correlationId'', ''causationId'', ''runtimeRevision'']) (\<lambda>_.
     bind_res (sqlite_positive (raw ''taskRevision'') ''taskRevision'') (\<lambda>revision.
     bind_res (exec_digest (raw ''envelopeDigest'') ''envelopeDigest'') (\<lambda>envelope.
     bind_res (exec_digest (raw ''contextDigest'') ''contextDigest'') (\<lambda>context.
     bind_res (exec_digest (raw ''authorizationDigest'') ''authorizationDigest'') (\<lambda>authorization.
     if raw ''causationId'' \<noteq> raw ''taskId'' then Inl (ExValue ''causationId must equal taskId'')
     else Inr \<lparr>mf_schema_version = version, mf_invocation_id = str_of (raw ''invocationId''),
       mf_session_id = str_of (raw ''sessionId''), mf_plan_id = str_of (raw ''planId''),
       mf_task_id = str_of (raw ''taskId''), mf_agent_id = str_of (raw ''agentId''),
       mf_job_idempotency_key = str_of (raw ''jobIdempotencyKey''), mf_task_revision = revision,
       mf_correlation_id = str_of (raw ''correlationId''),
       mf_causation_id = str_of (raw ''causationId''), mf_envelope_digest = envelope,
       mf_context_digest = context, mf_authorization_digest = authorization,
       mf_runtime_revision = str_of (raw ''runtimeRevision''), mf_effect_class = effect,
       mf_retry_class = retry\<rparr>))))))"

definition check_manifest :: "manifest \<Rightarrow> exec_error + manifest" where
  "check_manifest m = manifest_init (dict_get (manifest_wire m)) (mf_effect_class m) (mf_retry_class m)"

definition manifest_to_dict :: "manifest \<Rightarrow> exec_error + json" where
  "manifest_to_dict m = bind_res (check_manifest m) (\<lambda>_. Inr (JObj (manifest_wire m)))"

definition manifest_from_raw :: "(string \<Rightarrow> json) \<Rightarrow> exec_error + manifest" where
  "manifest_from_raw raw =
     bind_res (parse_effect_class (raw ''effectClass'')) (\<lambda>effect.
     bind_res (parse_retry_class (raw ''retryClass'')) (\<lambda>retry. manifest_init raw effect retry))"

definition manifest_from_dict :: "json \<Rightarrow> exec_error + manifest" where
  "manifest_from_dict v = bind_res (exact_dict v manifest_fields ''invocation execution manifest'')
     (\<lambda>d. manifest_from_raw (dict_get d))"

definition manifest_from_event :: "string \<Rightarrow> json \<Rightarrow> exec_error + manifest" where
  "manifest_from_event event_type payload =
     bind_res (event_type_is event_type ''task.execution.requested'') (\<lambda>_. manifest_from_dict payload)"

definition manifest_digest :: "platform \<Rightarrow> manifest \<Rightarrow> exec_error + string" where
  "manifest_digest pf m = bind_res (manifest_to_dict m) (\<lambda>doc.
     Inr (pf_sha256 pf (''quantum-entanglement.invocation-execution-manifest/1'' @ [CHR 0x0A]
       @ canonical_bytes pf doc)))"

section \<open>The scoped manifest of schema 2\<close>

record scoped_manifest = manifest +
  mf_tenant_id :: string
  mf_workspace_id :: string

definition scoped_manifest_fields :: "string list" where
  "scoped_manifest_fields = [''schemaVersion'', ''tenantId'', ''workspaceId'', ''invocationId'',
     ''sessionId'', ''planId'', ''taskId'', ''agentId'', ''jobIdempotencyKey'', ''taskRevision'',
     ''correlationId'', ''causationId'', ''envelopeDigest'', ''contextDigest'',
     ''authorizationDigest'', ''runtimeRevision'', ''effectClass'', ''retryClass'']"

definition scoped_manifest_wire :: "scoped_manifest \<Rightarrow> (string, json) dict" where
  "scoped_manifest_wire m =
     [(''schemaVersion'', JInt (mf_schema_version m)), (''tenantId'', JStr (mf_tenant_id m)),
      (''workspaceId'', JStr (mf_workspace_id m)), (''invocationId'', JStr (mf_invocation_id m)),
      (''sessionId'', JStr (mf_session_id m)), (''planId'', JStr (mf_plan_id m)),
      (''taskId'', JStr (mf_task_id m)), (''agentId'', JStr (mf_agent_id m)),
      (''jobIdempotencyKey'', JStr (mf_job_idempotency_key m)),
      (''taskRevision'', JInt (mf_task_revision m)),
      (''correlationId'', JStr (mf_correlation_id m)), (''causationId'', JStr (mf_causation_id m)),
      (''envelopeDigest'', JStr (mf_envelope_digest m)),
      (''contextDigest'', JStr (mf_context_digest m)),
      (''authorizationDigest'', JStr (mf_authorization_digest m)),
      (''runtimeRevision'', JStr (mf_runtime_revision m)),
      (''effectClass'', JStr (effect_class_value (mf_effect_class m))),
      (''retryClass'', JStr (retry_class_value (mf_retry_class m)))]"

definition scoped_manifest_init ::
  "(string \<Rightarrow> json) \<Rightarrow> effect_class \<Rightarrow> retry_class \<Rightarrow> exec_error + scoped_manifest" where
  "scoped_manifest_init raw effect retry =
     bind_res (schema_version (raw ''schemaVersion'') 2 ''schemaVersion'') (\<lambda>version.
     bind_res (exec_texts raw [''tenantId'', ''workspaceId'', ''invocationId'', ''sessionId'', ''planId'',
       ''taskId'', ''agentId'', ''jobIdempotencyKey'', ''correlationId'', ''causationId'',
       ''runtimeRevision'']) (\<lambda>_.
     bind_res (sqlite_positive (raw ''taskRevision'') ''taskRevision'') (\<lambda>revision.
     bind_res (exec_digest (raw ''envelopeDigest'') ''envelopeDigest'') (\<lambda>envelope.
     bind_res (exec_digest (raw ''contextDigest'') ''contextDigest'') (\<lambda>context.
     bind_res (exec_digest (raw ''authorizationDigest'') ''authorizationDigest'') (\<lambda>authorization.
     if raw ''causationId'' \<noteq> raw ''taskId'' then Inl (ExValue ''causationId must equal taskId'')
     else Inr \<lparr>mf_schema_version = version, mf_invocation_id = str_of (raw ''invocationId''),
       mf_session_id = str_of (raw ''sessionId''), mf_plan_id = str_of (raw ''planId''),
       mf_task_id = str_of (raw ''taskId''), mf_agent_id = str_of (raw ''agentId''),
       mf_job_idempotency_key = str_of (raw ''jobIdempotencyKey''), mf_task_revision = revision,
       mf_correlation_id = str_of (raw ''correlationId''),
       mf_causation_id = str_of (raw ''causationId''), mf_envelope_digest = envelope,
       mf_context_digest = context, mf_authorization_digest = authorization,
       mf_runtime_revision = str_of (raw ''runtimeRevision''), mf_effect_class = effect,
       mf_retry_class = retry, mf_tenant_id = str_of (raw ''tenantId''),
       mf_workspace_id = str_of (raw ''workspaceId'')\<rparr>))))))"

definition check_scoped_manifest :: "scoped_manifest \<Rightarrow> exec_error + scoped_manifest" where
  "check_scoped_manifest m =
     scoped_manifest_init (dict_get (scoped_manifest_wire m)) (mf_effect_class m) (mf_retry_class m)"

definition scoped_manifest_to_dict :: "scoped_manifest \<Rightarrow> exec_error + json" where
  "scoped_manifest_to_dict m =
     bind_res (check_scoped_manifest m) (\<lambda>_. Inr (JObj (scoped_manifest_wire m)))"

definition scoped_manifest_from_raw :: "(string \<Rightarrow> json) \<Rightarrow> exec_error + scoped_manifest" where
  "scoped_manifest_from_raw raw =
     bind_res (parse_effect_class (raw ''effectClass'')) (\<lambda>effect.
     bind_res (parse_retry_class (raw ''retryClass'')) (\<lambda>retry. scoped_manifest_init raw effect retry))"

definition scoped_manifest_from_dict :: "json \<Rightarrow> exec_error + scoped_manifest" where
  "scoped_manifest_from_dict v =
     bind_res (exact_dict v scoped_manifest_fields ''scoped invocation execution manifest'')
       (\<lambda>d. scoped_manifest_from_raw (dict_get d))"

definition scoped_manifest_from_event :: "string \<Rightarrow> json \<Rightarrow> exec_error + scoped_manifest" where
  "scoped_manifest_from_event event_type payload =
     bind_res (event_type_is event_type ''task.execution.requested'')
       (\<lambda>_. scoped_manifest_from_dict payload)"

definition scoped_manifest_digest :: "platform \<Rightarrow> scoped_manifest \<Rightarrow> exec_error + string" where
  "scoped_manifest_digest pf m = bind_res (scoped_manifest_to_dict m) (\<lambda>doc.
     Inr (pf_sha256 pf (''quantum-entanglement.invocation-execution-manifest/2'' @ [CHR 0x0A]
       @ canonical_bytes pf doc)))"

end
