(* ===== verification/Invocation_Start.thy ===== *)
theory Invocation_Start
  imports Invocation_Codec
begin

text \<open>
  The evidence that an invocation was started (\<open>invocation_execution.py\<close>): schema 2 and the scoped
  schema 3, the receipt of the event that carries it, and the lease that only the first caller gets.
\<close>

section \<open>Start evidence\<close>

record start_evidence =
  st_schema_version :: int
  st_invocation_id :: string
  st_session_id :: string
  st_plan_id :: string
  st_task_id :: string
  st_agent_id :: string
  st_job_idempotency_key :: string
  st_attempt_id :: string
  st_attempt_number :: int
  st_lease_epoch :: int
  st_worker_id :: string
  st_lease_token_digest :: string
  st_claimed_at :: string
  st_lease_expires_at :: string
  st_manifest_digest :: string
  st_envelope_digest :: string
  st_context_digest :: string
  st_authorization_digest :: string
  st_runtime_revision :: string
  st_correlation_id :: string
  st_causation_id :: string

definition start_evidence_fields :: "string list" where
  "start_evidence_fields = [
     ''schemaVersion'', ''invocationId'', ''sessionId'', ''planId'', ''taskId'', ''agentId'',
     ''jobIdempotencyKey'', ''attemptId'', ''attemptNumber'', ''leaseEpoch'', ''workerId'',
     ''leaseTokenDigest'', ''claimedAt'', ''leaseExpiresAt'', ''manifestDigest'',
     ''envelopeDigest'', ''contextDigest'', ''authorizationDigest'', ''runtimeRevision'',
     ''correlationId'', ''causationId'']"

definition start_evidence_wire :: "start_evidence \<Rightarrow> (string, json) dict" where
  "start_evidence_wire e = [
     (''schemaVersion'', JInt (st_schema_version e)),
     (''invocationId'', JStr (st_invocation_id e)), (''sessionId'', JStr (st_session_id e)),
     (''planId'', JStr (st_plan_id e)), (''taskId'', JStr (st_task_id e)),
     (''agentId'', JStr (st_agent_id e)), (''jobIdempotencyKey'', JStr (st_job_idempotency_key e)),
     (''attemptId'', JStr (st_attempt_id e)), (''attemptNumber'', JInt (st_attempt_number e)),
     (''leaseEpoch'', JInt (st_lease_epoch e)), (''workerId'', JStr (st_worker_id e)),
     (''leaseTokenDigest'', JStr (st_lease_token_digest e)),
     (''claimedAt'', JStr (st_claimed_at e)), (''leaseExpiresAt'', JStr (st_lease_expires_at e)),
     (''manifestDigest'', JStr (st_manifest_digest e)),
     (''envelopeDigest'', JStr (st_envelope_digest e)),
     (''contextDigest'', JStr (st_context_digest e)),
     (''authorizationDigest'', JStr (st_authorization_digest e)),
     (''runtimeRevision'', JStr (st_runtime_revision e)),
     (''correlationId'', JStr (st_correlation_id e)), (''causationId'', JStr (st_causation_id e))]"

definition start_evidence_init :: "(string \<Rightarrow> json) \<Rightarrow> exec_error + start_evidence" where
  "start_evidence_init raw =
     bind_res (schema_version (raw ''schemaVersion'') 2 ''schemaVersion'') (\<lambda>version.
     bind_res (exec_texts raw [
       ''invocationId'', ''sessionId'', ''planId'', ''taskId'', ''agentId'', ''jobIdempotencyKey'',
       ''attemptId'', ''workerId'', ''runtimeRevision'', ''correlationId'', ''causationId'']) (\<lambda>_.
     bind_res (sqlite_positive (raw ''attemptNumber'') ''attemptNumber'') (\<lambda>number.
     bind_res (sqlite_positive (raw ''leaseEpoch'') ''leaseEpoch'') (\<lambda>epoch.
     bind_res (exec_digest (raw ''leaseTokenDigest'') ''leaseTokenDigest'') (\<lambda>token.
     bind_res (exec_timestamp (raw ''claimedAt'') ''claimedAt'') (\<lambda>claimed.
     bind_res (exec_timestamp (raw ''leaseExpiresAt'') ''leaseExpiresAt'') (\<lambda>expires.
     if expires \<le> claimed then Inl (ExValue ''leaseExpiresAt must follow claimedAt'')
     else
     bind_res (exec_digest (raw ''manifestDigest'') ''manifestDigest'') (\<lambda>manifest.
     bind_res (exec_digest (raw ''envelopeDigest'') ''envelopeDigest'') (\<lambda>envelope.
     bind_res (exec_digest (raw ''contextDigest'') ''contextDigest'') (\<lambda>context.
     bind_res (exec_digest (raw ''authorizationDigest'') ''authorizationDigest'') (\<lambda>authorization.
     if raw ''causationId'' \<noteq> raw ''taskId'' then Inl (ExValue ''causationId must equal taskId'')
     else Inr \<lparr>
       st_schema_version = version, st_invocation_id = str_of (raw ''invocationId''),
       st_session_id = str_of (raw ''sessionId''), st_plan_id = str_of (raw ''planId''),
       st_task_id = str_of (raw ''taskId''), st_agent_id = str_of (raw ''agentId''),
       st_job_idempotency_key = str_of (raw ''jobIdempotencyKey''),
       st_attempt_id = str_of (raw ''attemptId''), st_attempt_number = number,
       st_lease_epoch = epoch, st_worker_id = str_of (raw ''workerId''),
       st_lease_token_digest = token, st_claimed_at = claimed, st_lease_expires_at = expires,
       st_manifest_digest = manifest, st_envelope_digest = envelope, st_context_digest = context,
       st_authorization_digest = authorization,
       st_runtime_revision = str_of (raw ''runtimeRevision''),
       st_correlation_id = str_of (raw ''correlationId''),
       st_causation_id = str_of (raw ''causationId'')\<rparr>)))))))))))"

definition check_start_evidence :: "start_evidence \<Rightarrow> exec_error + start_evidence" where
  "check_start_evidence e = start_evidence_init (dict_get (start_evidence_wire e))"

definition start_evidence_to_dict :: "start_evidence \<Rightarrow> exec_error + json" where
  "start_evidence_to_dict e = bind_res (check_start_evidence e) (\<lambda>_. Inr (JObj (start_evidence_wire e)))"

definition start_evidence_from_dict :: "json \<Rightarrow> exec_error + start_evidence" where
  "start_evidence_from_dict v = bind_res (exact_dict v start_evidence_fields ''invocation start evidence'')
     (\<lambda>d. start_evidence_init (dict_get d))"

definition start_evidence_from_event :: "string \<Rightarrow> json \<Rightarrow> exec_error + start_evidence" where
  "start_evidence_from_event event_type payload =
     bind_res (event_type_is event_type ''task.invocation.started'') (\<lambda>_. start_evidence_from_dict payload)"

section \<open>Scoped start evidence\<close>

record scoped_evidence = start_evidence +
  st_tenant_id :: string
  st_workspace_id :: string

definition scoped_evidence_fields :: "string list" where
  "scoped_evidence_fields = [
     ''schemaVersion'', ''tenantId'', ''workspaceId'', ''invocationId'', ''sessionId'', ''planId'',
     ''taskId'', ''agentId'', ''jobIdempotencyKey'', ''attemptId'', ''attemptNumber'',
     ''leaseEpoch'', ''workerId'', ''leaseTokenDigest'', ''claimedAt'', ''leaseExpiresAt'',
     ''manifestDigest'', ''envelopeDigest'', ''contextDigest'', ''authorizationDigest'',
     ''runtimeRevision'', ''correlationId'', ''causationId'']"

definition scoped_evidence_wire :: "scoped_evidence \<Rightarrow> (string, json) dict" where
  "scoped_evidence_wire e = [
     (''schemaVersion'', JInt (st_schema_version e)), (''tenantId'', JStr (st_tenant_id e)),
     (''workspaceId'', JStr (st_workspace_id e)), (''invocationId'', JStr (st_invocation_id e)),
     (''sessionId'', JStr (st_session_id e)), (''planId'', JStr (st_plan_id e)),
     (''taskId'', JStr (st_task_id e)), (''agentId'', JStr (st_agent_id e)),
     (''jobIdempotencyKey'', JStr (st_job_idempotency_key e)),
     (''attemptId'', JStr (st_attempt_id e)), (''attemptNumber'', JInt (st_attempt_number e)),
     (''leaseEpoch'', JInt (st_lease_epoch e)), (''workerId'', JStr (st_worker_id e)),
     (''leaseTokenDigest'', JStr (st_lease_token_digest e)),
     (''claimedAt'', JStr (st_claimed_at e)), (''leaseExpiresAt'', JStr (st_lease_expires_at e)),
     (''manifestDigest'', JStr (st_manifest_digest e)),
     (''envelopeDigest'', JStr (st_envelope_digest e)),
     (''contextDigest'', JStr (st_context_digest e)),
     (''authorizationDigest'', JStr (st_authorization_digest e)),
     (''runtimeRevision'', JStr (st_runtime_revision e)),
     (''correlationId'', JStr (st_correlation_id e)), (''causationId'', JStr (st_causation_id e))]"

definition scoped_evidence_init :: "(string \<Rightarrow> json) \<Rightarrow> exec_error + scoped_evidence" where
  "scoped_evidence_init raw =
     bind_res (schema_version (raw ''schemaVersion'') 3 ''schemaVersion'') (\<lambda>version.
     bind_res (exec_texts raw [
       ''tenantId'', ''workspaceId'', ''invocationId'', ''sessionId'', ''planId'', ''taskId'',
       ''agentId'', ''jobIdempotencyKey'', ''attemptId'', ''workerId'', ''runtimeRevision'',
       ''correlationId'', ''causationId'']) (\<lambda>_.
     bind_res (sqlite_positive (raw ''attemptNumber'') ''attemptNumber'') (\<lambda>number.
     bind_res (sqlite_positive (raw ''leaseEpoch'') ''leaseEpoch'') (\<lambda>epoch.
     bind_res (exec_digest (raw ''leaseTokenDigest'') ''leaseTokenDigest'') (\<lambda>token.
     bind_res (exec_timestamp (raw ''claimedAt'') ''claimedAt'') (\<lambda>claimed.
     bind_res (exec_timestamp (raw ''leaseExpiresAt'') ''leaseExpiresAt'') (\<lambda>expires.
     if expires \<le> claimed then Inl (ExValue ''leaseExpiresAt must follow claimedAt'')
     else
     bind_res (exec_digest (raw ''manifestDigest'') ''manifestDigest'') (\<lambda>manifest.
     bind_res (exec_digest (raw ''envelopeDigest'') ''envelopeDigest'') (\<lambda>envelope.
     bind_res (exec_digest (raw ''contextDigest'') ''contextDigest'') (\<lambda>context.
     bind_res (exec_digest (raw ''authorizationDigest'') ''authorizationDigest'') (\<lambda>authorization.
     if raw ''causationId'' \<noteq> raw ''taskId'' then Inl (ExValue ''causationId must equal taskId'')
     else Inr \<lparr>
       st_schema_version = version, st_invocation_id = str_of (raw ''invocationId''),
       st_session_id = str_of (raw ''sessionId''), st_plan_id = str_of (raw ''planId''),
       st_task_id = str_of (raw ''taskId''), st_agent_id = str_of (raw ''agentId''),
       st_job_idempotency_key = str_of (raw ''jobIdempotencyKey''),
       st_attempt_id = str_of (raw ''attemptId''), st_attempt_number = number,
       st_lease_epoch = epoch, st_worker_id = str_of (raw ''workerId''),
       st_lease_token_digest = token, st_claimed_at = claimed, st_lease_expires_at = expires,
       st_manifest_digest = manifest, st_envelope_digest = envelope, st_context_digest = context,
       st_authorization_digest = authorization,
       st_runtime_revision = str_of (raw ''runtimeRevision''),
       st_correlation_id = str_of (raw ''correlationId''),
       st_causation_id = str_of (raw ''causationId''), st_tenant_id = str_of (raw ''tenantId''),
       st_workspace_id = str_of (raw ''workspaceId'')\<rparr>)))))))))))"

definition check_scoped_evidence :: "scoped_evidence \<Rightarrow> exec_error + scoped_evidence" where
  "check_scoped_evidence e = scoped_evidence_init (dict_get (scoped_evidence_wire e))"

definition scoped_evidence_to_dict :: "scoped_evidence \<Rightarrow> exec_error + json" where
  "scoped_evidence_to_dict e = bind_res (check_scoped_evidence e) (\<lambda>_. Inr (JObj (scoped_evidence_wire e)))"

definition scoped_evidence_from_dict :: "json \<Rightarrow> exec_error + scoped_evidence" where
  "scoped_evidence_from_dict v = bind_res (exact_dict v scoped_evidence_fields ''scoped invocation start evidence'')
     (\<lambda>d. scoped_evidence_init (dict_get d))"

definition scoped_evidence_from_event :: "string \<Rightarrow> json \<Rightarrow> exec_error + scoped_evidence" where
  "scoped_evidence_from_event event_type payload =
     bind_res (event_type_is event_type ''task.invocation.started'') (\<lambda>_. scoped_evidence_from_dict payload)"

section \<open>Receipts\<close>

record 'e start_receipt =
  rv_event_id :: string
  rv_stream_id :: string
  rv_sequence :: int
  rv_global_position :: int
  rv_evidence :: 'e

definition start_receipt_fields :: "string list" where
  "start_receipt_fields = [''eventId'', ''streamId'', ''sequence'', ''globalPosition'', ''evidence'']"

definition start_receipt_init :: "(string \<Rightarrow> json) \<Rightarrow> start_evidence \<Rightarrow> exec_error + start_evidence start_receipt" where
  "start_receipt_init raw evidence =
     bind_res (exec_text (raw ''eventId'') ''start receipt eventId'') (\<lambda>event_id.
     bind_res (exec_text (raw ''streamId'') ''start receipt streamId'') (\<lambda>stream_id.
     bind_res (sqlite_positive (raw ''sequence'') ''start receipt sequence'') (\<lambda>sequence.
     bind_res (sqlite_positive (raw ''globalPosition'') ''start receipt globalPosition'') (\<lambda>position.
     if position < sequence
       then Inl (ExValue ''start receipt globalPosition must not precede its stream sequence'')
     else bind_res (start_evidence_to_dict evidence) (\<lambda>doc.
       bind_res (start_evidence_from_dict doc) (\<lambda>evidence'.
       if stream_id \<noteq> ''session:'' @ st_session_id evidence'
         then Inl (ExValue ''start receipt streamId does not match its evidence sessionId'')
       else Inr \<lparr>rv_event_id = event_id, rv_stream_id = stream_id, rv_sequence = sequence,
         rv_global_position = position, rv_evidence = evidence'\<rparr>))))))"

definition start_receipt_wire :: "start_evidence start_receipt \<Rightarrow> (string, json) dict" where
  "start_receipt_wire r =
     [(''eventId'', JStr (rv_event_id r)), (''streamId'', JStr (rv_stream_id r)),
      (''sequence'', JInt (rv_sequence r)), (''globalPosition'', JInt (rv_global_position r)),
      (''evidence'', JObj (start_evidence_wire (rv_evidence r)))]"

definition check_start_receipt :: "start_evidence start_receipt \<Rightarrow> exec_error + start_evidence start_receipt" where
  "check_start_receipt r = start_receipt_init (dict_get (start_receipt_wire r)) (rv_evidence r)"

definition start_receipt_to_dict :: "start_evidence start_receipt \<Rightarrow> exec_error + json" where
  "start_receipt_to_dict r = bind_res (check_start_receipt r) (\<lambda>_.
     bind_res (start_evidence_to_dict (rv_evidence r)) (\<lambda>_. Inr (JObj (start_receipt_wire r))))"

definition start_receipt_from_raw :: "(string \<Rightarrow> json) \<Rightarrow> exec_error + start_evidence start_receipt" where
  "start_receipt_from_raw raw =
     bind_res (start_evidence_from_dict (raw ''evidence'')) (\<lambda>evidence. start_receipt_init raw evidence)"

definition start_receipt_from_dict :: "json \<Rightarrow> exec_error + start_evidence start_receipt" where
  "start_receipt_from_dict v = bind_res (exact_dict v start_receipt_fields ''invocation start receipt'')
     (\<lambda>d. start_receipt_from_raw (dict_get d))"

definition start_receipt_snapshot :: "start_evidence start_receipt \<Rightarrow> exec_error + start_evidence start_receipt" where
  "start_receipt_snapshot r = bind_res (start_receipt_to_dict r) start_receipt_from_dict"

definition scoped_receipt_init :: "(string \<Rightarrow> json) \<Rightarrow> scoped_evidence \<Rightarrow> exec_error + scoped_evidence start_receipt" where
  "scoped_receipt_init raw evidence =
     bind_res (exec_text (raw ''eventId'') ''scoped start receipt eventId'') (\<lambda>event_id.
     bind_res (exec_text (raw ''streamId'') ''scoped start receipt streamId'') (\<lambda>stream_id.
     bind_res (sqlite_positive (raw ''sequence'') ''scoped start receipt sequence'') (\<lambda>sequence.
     bind_res (sqlite_positive (raw ''globalPosition'') ''scoped start receipt globalPosition'') (\<lambda>position.
     if position < sequence
       then Inl (ExValue ''scoped start receipt globalPosition must not precede its stream sequence'')
     else bind_res (scoped_evidence_to_dict evidence) (\<lambda>doc.
       bind_res (scoped_evidence_from_dict doc) (\<lambda>evidence'.
       if stream_id \<noteq> ''session:'' @ st_session_id evidence'
         then Inl (ExValue ''scoped start receipt streamId does not match its evidence sessionId'')
       else Inr \<lparr>rv_event_id = event_id, rv_stream_id = stream_id, rv_sequence = sequence,
         rv_global_position = position, rv_evidence = evidence'\<rparr>))))))"

definition scoped_receipt_wire :: "scoped_evidence start_receipt \<Rightarrow> (string, json) dict" where
  "scoped_receipt_wire r =
     [(''eventId'', JStr (rv_event_id r)), (''streamId'', JStr (rv_stream_id r)),
      (''sequence'', JInt (rv_sequence r)), (''globalPosition'', JInt (rv_global_position r)),
      (''evidence'', JObj (scoped_evidence_wire (rv_evidence r)))]"

definition check_scoped_receipt :: "scoped_evidence start_receipt \<Rightarrow> exec_error + scoped_evidence start_receipt" where
  "check_scoped_receipt r = scoped_receipt_init (dict_get (scoped_receipt_wire r)) (rv_evidence r)"

definition scoped_receipt_to_dict :: "scoped_evidence start_receipt \<Rightarrow> exec_error + json" where
  "scoped_receipt_to_dict r = bind_res (check_scoped_receipt r) (\<lambda>_.
     bind_res (scoped_evidence_to_dict (rv_evidence r)) (\<lambda>_. Inr (JObj (scoped_receipt_wire r))))"

definition scoped_receipt_from_raw :: "(string \<Rightarrow> json) \<Rightarrow> exec_error + scoped_evidence start_receipt" where
  "scoped_receipt_from_raw raw =
     bind_res (scoped_evidence_from_dict (raw ''evidence'')) (\<lambda>evidence. scoped_receipt_init raw evidence)"

definition scoped_receipt_from_dict :: "json \<Rightarrow> exec_error + scoped_evidence start_receipt" where
  "scoped_receipt_from_dict v = bind_res (exact_dict v start_receipt_fields ''scoped invocation start receipt'')
     (\<lambda>d. scoped_receipt_from_raw (dict_get d))"

definition scoped_receipt_snapshot :: "scoped_evidence start_receipt \<Rightarrow> exec_error + scoped_evidence start_receipt" where
  "scoped_receipt_snapshot r = bind_res (scoped_receipt_to_dict r) scoped_receipt_from_dict"

section \<open>Leases\<close>

record worker_lease =
  wl_invocation_id :: string
  wl_session_id :: string
  wl_plan_id :: string
  wl_task_id :: string
  wl_agent_id :: string
  wl_idempotency_key :: string
  wl_payload_digest :: string
  wl_attempt_id :: string
  wl_attempt_number :: int
  wl_max_attempts :: int
  wl_lease_epoch :: int
  wl_worker_id :: string
  wl_lease_token :: string
  wl_claimed_at :: string
  wl_lease_expires_at :: string

definition lease_snapshot :: "worker_lease \<Rightarrow> exec_error + worker_lease" where
  "lease_snapshot l =
     bind_res (exec_text (JStr (wl_invocation_id l)) ''lease invocationId'') (\<lambda>_.
     bind_res (exec_text (JStr (wl_session_id l)) ''lease sessionId'') (\<lambda>_.
     bind_res (exec_text (JStr (wl_plan_id l)) ''lease planId'') (\<lambda>_.
     bind_res (exec_text (JStr (wl_task_id l)) ''lease taskId'') (\<lambda>_.
     bind_res (exec_text (JStr (wl_agent_id l)) ''lease agentId'') (\<lambda>_.
     bind_res (exec_text (JStr (wl_idempotency_key l)) ''lease idempotencyKey'') (\<lambda>_.
     bind_res (exec_digest (JStr (wl_payload_digest l)) ''lease payloadDigest'') (\<lambda>_.
     bind_res (exec_text (JStr (wl_attempt_id l)) ''lease attemptId'') (\<lambda>_.
     bind_res (sqlite_positive (JInt (wl_attempt_number l)) ''lease attemptNumber'') (\<lambda>_.
     bind_res (sqlite_positive (JInt (wl_max_attempts l)) ''lease maxAttempts'') (\<lambda>_.
     bind_res (sqlite_positive (JInt (wl_lease_epoch l)) ''lease epoch'') (\<lambda>_.
     bind_res (exec_text (JStr (wl_worker_id l)) ''lease workerId'') (\<lambda>_.
     bind_res (exec_text (JStr (wl_lease_token l)) ''lease token'') (\<lambda>_.
     bind_res (exec_timestamp (JStr (wl_claimed_at l)) ''lease claimedAt'') (\<lambda>_.
     bind_res (exec_timestamp (JStr (wl_lease_expires_at l)) ''lease leaseExpiresAt'') (\<lambda>_.
     if wl_lease_expires_at l \<le> wl_claimed_at l
       then Inl (ExValue ''lease leaseExpiresAt must follow claimedAt'') else Inr l)))))))))))))))"

definition token_digest_of :: "platform \<Rightarrow> string \<Rightarrow> string" where
  "token_digest_of pf token = pf_sha256 pf (concat (map utf8_char token))"

definition validate_start_lease_binding ::
  "platform \<Rightarrow> start_evidence start_receipt \<Rightarrow> worker_lease \<Rightarrow> exec_error + unit" where
  "validate_start_lease_binding pf r l = (let e = rv_evidence r in
     if wl_invocation_id l \<noteq> st_invocation_id e \<or> wl_session_id l \<noteq> st_session_id e
        \<or> wl_plan_id l \<noteq> st_plan_id e \<or> wl_task_id l \<noteq> st_task_id e
        \<or> wl_agent_id l \<noteq> st_agent_id e \<or> wl_idempotency_key l \<noteq> st_job_idempotency_key e
        \<or> wl_payload_digest l \<noteq> st_manifest_digest e \<or> wl_attempt_id l \<noteq> st_attempt_id e
        \<or> wl_attempt_number l \<noteq> st_attempt_number e \<or> wl_lease_epoch l \<noteq> st_lease_epoch e
        \<or> wl_worker_id l \<noteq> st_worker_id e \<or> wl_claimed_at l \<noteq> st_claimed_at e
        \<or> wl_lease_expires_at l \<noteq> st_lease_expires_at e
       then Inl (ExValue ''claimed lease does not match its invocation-start evidence'')
     else if wl_max_attempts l \<noteq> 1
       then Inl (ExValue ''claimed lease must preserve the canonical single-attempt policy'')
     else if token_digest_of pf (wl_lease_token l) \<noteq> st_lease_token_digest e
       then Inl (ExValue ''claimed lease token does not match its evidence digest'')
     else Inr ())"

definition validate_scoped_start_lease_binding ::
  "platform \<Rightarrow> scoped_evidence start_receipt \<Rightarrow> worker_lease \<Rightarrow> exec_error + unit" where
  "validate_scoped_start_lease_binding pf r l = (let e = rv_evidence r in
     if wl_invocation_id l \<noteq> st_invocation_id e \<or> wl_session_id l \<noteq> st_session_id e
        \<or> wl_plan_id l \<noteq> st_plan_id e \<or> wl_task_id l \<noteq> st_task_id e
        \<or> wl_agent_id l \<noteq> st_agent_id e \<or> wl_idempotency_key l \<noteq> st_job_idempotency_key e
        \<or> wl_payload_digest l \<noteq> st_manifest_digest e \<or> wl_attempt_id l \<noteq> st_attempt_id e
        \<or> wl_attempt_number l \<noteq> st_attempt_number e \<or> wl_lease_epoch l \<noteq> st_lease_epoch e
        \<or> wl_worker_id l \<noteq> st_worker_id e \<or> wl_claimed_at l \<noteq> st_claimed_at e
        \<or> wl_lease_expires_at l \<noteq> st_lease_expires_at e
       then Inl (ExValue ''claimed lease does not match its scoped invocation-start evidence'')
     else if wl_max_attempts l \<noteq> 1
       then Inl (ExValue ''scoped claimed lease must preserve the single-attempt policy'')
     else if token_digest_of pf (wl_lease_token l) \<noteq> st_lease_token_digest e
       then Inl (ExValue ''claimed lease token does not match its scoped evidence digest'')
     else Inr ())"

section \<open>Results of a start\<close>

text \<open>The first caller gets the lease with the receipt; a replay observes the receipt only.\<close>

record 'e start_claimed =
  sc_receipt :: "'e start_receipt"
  sc_lease :: worker_lease

definition check_claimed ::
  "platform \<Rightarrow> start_evidence start_claimed \<Rightarrow> exec_error + start_evidence start_claimed" where
  "check_claimed pf c =
     bind_res (start_receipt_snapshot (sc_receipt c)) (\<lambda>receipt.
     bind_res (lease_snapshot (sc_lease c)) (\<lambda>lease.
     bind_res (validate_start_lease_binding pf receipt lease) (\<lambda>_. Inr \<lparr>sc_receipt = receipt, sc_lease = lease\<rparr>)))"

definition check_scoped_claimed ::
  "platform \<Rightarrow> scoped_evidence start_claimed \<Rightarrow> exec_error + scoped_evidence start_claimed" where
  "check_scoped_claimed pf c =
     bind_res (scoped_receipt_snapshot (sc_receipt c)) (\<lambda>receipt.
     bind_res (lease_snapshot (sc_lease c)) (\<lambda>lease.
     bind_res (validate_scoped_start_lease_binding pf receipt lease) (\<lambda>_. Inr \<lparr>sc_receipt = receipt, sc_lease = lease\<rparr>)))"

definition check_observed :: "start_evidence start_receipt \<Rightarrow> exec_error + start_evidence start_receipt" where
  "check_observed receipt = start_receipt_snapshot receipt"

definition observed_to_dict :: "start_evidence start_receipt \<Rightarrow> exec_error + json" where
  "observed_to_dict receipt = bind_res (check_observed receipt) (\<lambda>_.
     bind_res (start_receipt_to_dict receipt) (\<lambda>doc. Inr (JObj [(''receipt'', doc)])))"

definition observed_from_dict :: "json \<Rightarrow> exec_error + start_evidence start_receipt" where
  "observed_from_dict v = bind_res (exact_dict v [''receipt''] ''invocation start observation'') (\<lambda>d.
     bind_res (start_receipt_from_dict (dict_get d ''receipt'')) check_observed)"

definition check_scoped_observed :: "scoped_evidence start_receipt \<Rightarrow> exec_error + scoped_evidence start_receipt" where
  "check_scoped_observed receipt = scoped_receipt_snapshot receipt"

definition scoped_observed_to_dict :: "scoped_evidence start_receipt \<Rightarrow> exec_error + json" where
  "scoped_observed_to_dict receipt = bind_res (check_scoped_observed receipt) (\<lambda>_.
     bind_res (scoped_receipt_to_dict receipt) (\<lambda>doc. Inr (JObj [(''receipt'', doc)])))"

definition scoped_observed_from_dict :: "json \<Rightarrow> exec_error + scoped_evidence start_receipt" where
  "scoped_observed_from_dict v = bind_res (exact_dict v [''receipt''] ''scoped invocation start observation'') (\<lambda>d.
     bind_res (scoped_receipt_from_dict (dict_get d ''receipt'')) check_scoped_observed)"

end
