(* ===== verification/Invocation_Wire.thy ===== *)
theory Invocation_Wire
  imports Invocation_Start
begin

text \<open>
  The wire contract that the manifests and the start evidence share: a fixed list of fields, a
  constructor that looks at these fields only and keeps what it was given, and a wire form that
  names the value. What follows from it is proved once: encoding is accepted by decoding, and
  decoding accepts exactly the documents that are an encoding up to the order of their keys.
\<close>

section \<open>What the validators accept\<close>

definition ok_text :: "string \<Rightarrow> bool" where
  "ok_text s = (s \<noteq> [] \<and> s = py_strip s \<and> utf8_len s \<le> 4096 \<and> \<not> list_ex control_char s)"

lemma exec_text_iff: "exec_text v label = Inr s \<longleftrightarrow> v = JStr s \<and> ok_text s"
  by (auto simp: bounded_text_def ok_text_def split: json.splits if_splits)

lemma bounded_text_JStr: "bounded_text v label n = Inr s \<Longrightarrow> v = JStr s"
  by (auto simp: bounded_text_def split: json.splits if_splits)

lemma exec_digest_JStr: "exec_digest v label = Inr s \<Longrightarrow> v = JStr s"
  by (auto simp: exec_digest_def res_simps dest: bounded_text_JStr split: if_splits)

lemma exec_timestamp_JStr: "exec_timestamp v label = Inr s \<Longrightarrow> v = JStr s"
  by (auto simp: exec_timestamp_def res_simps dest: bounded_text_JStr split: if_splits)

lemma schema_version_JInt: "schema_version v n label = Inr k \<Longrightarrow> v = JInt k"
  by (auto simp: schema_version_def split: json.splits if_splits)

lemma sqlite_positive_iff:
  "sqlite_positive v label = Inr k \<longleftrightarrow> v = JInt k \<and> 1 \<le> k \<and> k \<le> 2 ^ 63 - 1"
  by (auto simp: sqlite_positive_def integer_in_range_def split: json.splits if_splits)

lemma sqlite_positive_JInt: "sqlite_positive v label = Inr k \<Longrightarrow> v = JInt k"
  by (simp add: sqlite_positive_iff)

lemma exec_texts_Nil [simp]: "exec_texts raw [] = Inr []"
  by (simp add: exec_texts_def)

lemma exec_texts_Cons [simp]: "exec_texts raw (k # ks) =
    bind_res (exec_text (raw k) k) (\<lambda>s. bind_res (exec_texts raw ks) (\<lambda>ss. Inr (s # ss)))"
  by (simp add: exec_texts_def)

lemma str_of_text: "exec_text v label = Inr s \<Longrightarrow> JStr (str_of v) = v"
  by (auto dest: bounded_text_JStr)

lemma parse_effect_class_JStr: "parse_effect_class v = Inr e \<Longrightarrow> v = JStr (effect_class_value e)"
  by (auto simp: parse_effect_class_def find_Some_iff split: json.splits option.splits if_splits)

lemma parse_retry_class_JStr: "parse_retry_class v = Inr e \<Longrightarrow> v = JStr (retry_class_value e)"
  by (auto simp: parse_retry_class_def split: json.splits if_splits)

lemma parse_effect_class_value [simp]: "parse_effect_class (JStr (effect_class_value e)) = Inr e"
  by (cases e) (simp_all add: parse_effect_class_def)

lemma parse_retry_class_value [simp]: "parse_retry_class (JStr (retry_class_value e)) = Inr e"
  by (cases e) (simp add: parse_retry_class_def)

lemma effect_class_value_inj [simp]: "effect_class_value e = effect_class_value e' \<longleftrightarrow> e = e'"
  by (metis Inr_inject parse_effect_class_value)

lemma retry_class_single [simp]: "(e :: retry_class) = e' \<longleftrightarrow> True"
  by (cases e; cases e') simp

lemmas wire_values = bounded_text_JStr exec_digest_JStr exec_timestamp_JStr schema_version_JInt
  sqlite_positive_JInt parse_effect_class_JStr parse_retry_class_JStr

section \<open>The contract\<close>

definition only :: "string list \<Rightarrow> (string \<Rightarrow> json) \<Rightarrow> string \<Rightarrow> json" where
  "only keys raw = (\<lambda>k. if k \<in> set keys then raw k else JNull)"

lemma only_in: "k \<in> set keys \<Longrightarrow> only keys raw k = raw k"
  by (simp add: only_def)

definition wire_document :: "string list \<Rightarrow> (string, json) dict \<Rightarrow> (string, json) dict" where
  "wire_document keys d = map (\<lambda>k. (k, dict_get d k)) keys"

locale wire_codec =
  fixes keys :: "string list"
    and label :: string
    and wire :: "'m \<Rightarrow> (string, json) dict"
    and make :: "(string \<Rightarrow> json) \<Rightarrow> exec_error + 'm"
  assumes keys_distinct: "distinct keys"
    and wire_keys: "map fst (wire m) = keys"
    and wire_determines: "wire m = wire m' \<Longrightarrow> m = m'"
    and make_keeps: "make raw = Inr m \<Longrightarrow> wire m = map (\<lambda>k. (k, raw k)) keys"
    and make_local: "make (only keys raw) = make raw"
begin

definition encode :: "'m \<Rightarrow> exec_error + json" where
  "encode m = bind_res (make (dict_get (wire m))) (\<lambda>_. Inr (JObj (wire m)))"

definition decode :: "json \<Rightarrow> exec_error + 'm" where
  "decode v = bind_res (exact_dict v keys label) (\<lambda>d. make (dict_get d))"

lemma wire_own: "wire m = map (\<lambda>k. (k, dict_get (wire m) k)) keys"
proof -
  have "distinct (map fst (wire m))"
    by (simp add: wire_keys keys_distinct)
  then have "map (\<lambda>p. (fst p, dict_get (wire m) (fst p))) (wire m) = wire m"
    by (intro map_idI) (auto simp: dict_get_def)
  then show ?thesis
    using wire_keys [of m] by (metis (mono_tags, lifting) map_map comp_def map_cong)
qed

lemma make_own: "make (dict_get (wire m)) = Inr m' \<Longrightarrow> m' = m"
  using make_keeps wire_own wire_determines by metis

lemma encode_iff: "encode m = Inr v \<longleftrightarrow> make (dict_get (wire m)) = Inr m \<and> v = JObj (wire m)"
  by (auto simp: encode_def res_simps dest: make_own)

lemma encoded_decodes: "encode m = Inr v \<Longrightarrow> decode v = Inr m"
  by (auto simp: encode_iff decode_def exact_dict_def wire_keys)

lemma make_cong:
  assumes "\<And>k. k \<in> set keys \<Longrightarrow> raw k = raw' k"
  shows "make raw = make raw'"
proof -
  have "only keys raw = only keys raw'"
    using assms by (auto simp: only_def)
  then show ?thesis
    by (metis make_local)
qed

lemma dict_get_document: "k \<in> set keys \<Longrightarrow> dict_get (wire_document keys d) k = dict_get d k"
  by (simp add: wire_document_def dict_get_def map_of_map_keys map_of_map_restrict)

lemma decode_iff: "decode v = Inr m \<longleftrightarrow> (\<exists>d. v = JObj d \<and> set (dict_keys d) = set keys
    \<and> encode m = Inr (JObj (wire_document keys d)))"
proof -
  have "make (dict_get d) = Inr m \<longleftrightarrow> encode m = Inr (JObj (wire_document keys d))" for d
  proof
    assume made: "make (dict_get d) = Inr m"
    from make_keeps [OF this] have w: "wire m = wire_document keys d"
      by (simp add: wire_document_def)
    then have "make (dict_get (wire m)) = make (dict_get d)"
      by (intro make_cong) (simp add: dict_get_document)
    then show "encode m = Inr (JObj (wire_document keys d))"
      using made w by (simp add: encode_iff)
  next
    assume "encode m = Inr (JObj (wire_document keys d))"
    then have made: "make (dict_get (wire m)) = Inr m" and w: "wire m = wire_document keys d"
      by (auto simp: encode_iff)
    have "make (dict_get (wire m)) = make (dict_get d)"
      unfolding w by (intro make_cong) (simp add: dict_get_document)
    with made show "make (dict_get d) = Inr m"
      by simp
  qed
  then show ?thesis
    by (auto simp: decode_def exact_dict_def res_simps split: json.splits if_splits)
qed

end

section \<open>The four values that have it\<close>

text \<open>Each constructor keeps what it was given, looks at its own fields only, and its wire form names it.\<close>

lemma manifest_keeps: "manifest_from_raw raw = Inr m \<Longrightarrow> manifest_wire m = map (\<lambda>k. (k, raw k)) manifest_fields"
  by (auto simp: manifest_from_raw_def manifest_init_def manifest_wire_def manifest_fields_def res_simps str_of_text
      split: if_splits dest!: wire_values)

lemma manifest_init_local: "manifest_init (only manifest_fields raw) = manifest_init raw"
  by (intro ext) (simp add: manifest_init_def only_def manifest_fields_def)

lemma manifest_local: "manifest_from_raw (only manifest_fields raw) = manifest_from_raw raw"
  unfolding manifest_from_raw_def manifest_init_local by (simp add: only_def manifest_fields_def)

lemma manifest_determines: "manifest_wire m = manifest_wire m' \<Longrightarrow> m = m'"
  by (cases m; cases m') (simp add: manifest_wire_def)

interpretation manifest_codec: wire_codec manifest_fields "''invocation execution manifest''" manifest_wire manifest_from_raw
proof unfold_locales
  show "distinct manifest_fields"
    by (simp add: manifest_fields_def)
  show "map fst (manifest_wire m) = manifest_fields" for m
    by (simp add: manifest_fields_def manifest_wire_def)
qed (fact manifest_determines manifest_keeps manifest_local)+

lemma scoped_manifest_keeps: "scoped_manifest_from_raw raw = Inr m \<Longrightarrow> scoped_manifest_wire m = map (\<lambda>k. (k, raw k)) scoped_manifest_fields"
  by (auto simp: scoped_manifest_from_raw_def scoped_manifest_init_def scoped_manifest_wire_def scoped_manifest_fields_def res_simps str_of_text
      split: if_splits dest!: wire_values)

lemma scoped_manifest_init_local: "scoped_manifest_init (only scoped_manifest_fields raw) = scoped_manifest_init raw"
  by (intro ext) (simp add: scoped_manifest_init_def only_def scoped_manifest_fields_def)

lemma scoped_manifest_local: "scoped_manifest_from_raw (only scoped_manifest_fields raw) = scoped_manifest_from_raw raw"
  unfolding scoped_manifest_from_raw_def scoped_manifest_init_local by (simp add: only_def scoped_manifest_fields_def)

lemma scoped_manifest_determines: "scoped_manifest_wire m = scoped_manifest_wire m' \<Longrightarrow> m = m'"
  by (cases m; cases m') (simp add: scoped_manifest_wire_def)

interpretation scoped_manifest_codec: wire_codec scoped_manifest_fields "''scoped invocation execution manifest''" scoped_manifest_wire scoped_manifest_from_raw
proof unfold_locales
  show "distinct scoped_manifest_fields"
    by (simp add: scoped_manifest_fields_def)
  show "map fst (scoped_manifest_wire m) = scoped_manifest_fields" for m
    by (simp add: scoped_manifest_fields_def scoped_manifest_wire_def)
qed (fact scoped_manifest_determines scoped_manifest_keeps scoped_manifest_local)+

lemma start_evidence_keeps: "start_evidence_init raw = Inr m \<Longrightarrow> start_evidence_wire m = map (\<lambda>k. (k, raw k)) start_evidence_fields"
  by (auto simp: start_evidence_init_def start_evidence_wire_def start_evidence_fields_def res_simps str_of_text
      split: if_splits dest!: wire_values)

lemma start_evidence_members: "list_all (\<lambda>k. k \<in> set start_evidence_fields) [
      ''schemaVersion'', ''invocationId'', ''sessionId'', ''planId'', ''taskId'',
      ''agentId'', ''jobIdempotencyKey'', ''attemptId'', ''attemptNumber'', ''leaseEpoch'',
      ''workerId'', ''leaseTokenDigest'', ''claimedAt'', ''leaseExpiresAt'',
      ''manifestDigest'', ''envelopeDigest'', ''contextDigest'', ''authorizationDigest'',
      ''runtimeRevision'', ''correlationId'', ''causationId'']"
  by (simp add: start_evidence_fields_def)

lemma start_evidence_local: "start_evidence_init (only start_evidence_fields raw) = start_evidence_init raw"
  using start_evidence_members by (simp add: start_evidence_init_def only_in cong: if_cong)

lemma start_evidence_determines: "start_evidence_wire m = start_evidence_wire m' \<Longrightarrow> m = m'"
  by (cases m; cases m') (simp add: start_evidence_wire_def)

interpretation start_evidence_codec: wire_codec start_evidence_fields "''invocation start evidence''" start_evidence_wire start_evidence_init
proof unfold_locales
  show "distinct start_evidence_fields"
    by (simp add: start_evidence_fields_def)
  show "map fst (start_evidence_wire m) = start_evidence_fields" for m
    by (simp add: start_evidence_fields_def start_evidence_wire_def)
qed (fact start_evidence_determines start_evidence_keeps start_evidence_local)+

lemma scoped_evidence_keeps: "scoped_evidence_init raw = Inr m \<Longrightarrow> scoped_evidence_wire m = map (\<lambda>k. (k, raw k)) scoped_evidence_fields"
  by (auto simp: scoped_evidence_init_def scoped_evidence_wire_def scoped_evidence_fields_def res_simps str_of_text
      split: if_splits dest!: wire_values)

lemma scoped_evidence_members: "list_all (\<lambda>k. k \<in> set scoped_evidence_fields) [
      ''schemaVersion'', ''tenantId'', ''workspaceId'', ''invocationId'', ''sessionId'',
      ''planId'', ''taskId'', ''agentId'', ''jobIdempotencyKey'', ''attemptId'',
      ''attemptNumber'', ''leaseEpoch'', ''workerId'', ''leaseTokenDigest'', ''claimedAt'',
      ''leaseExpiresAt'', ''manifestDigest'', ''envelopeDigest'', ''contextDigest'',
      ''authorizationDigest'', ''runtimeRevision'', ''correlationId'', ''causationId'']"
  by (simp add: scoped_evidence_fields_def)

lemma scoped_evidence_local: "scoped_evidence_init (only scoped_evidence_fields raw) = scoped_evidence_init raw"
  using scoped_evidence_members by (simp add: scoped_evidence_init_def only_in cong: if_cong)

lemma scoped_evidence_determines: "scoped_evidence_wire m = scoped_evidence_wire m' \<Longrightarrow> m = m'"
  by (cases m; cases m') (simp add: scoped_evidence_wire_def)

interpretation scoped_evidence_codec: wire_codec scoped_evidence_fields "''scoped invocation start evidence''" scoped_evidence_wire scoped_evidence_init
proof unfold_locales
  show "distinct scoped_evidence_fields"
    by (simp add: scoped_evidence_fields_def)
  show "map fst (scoped_evidence_wire m) = scoped_evidence_fields" for m
    by (simp add: scoped_evidence_fields_def scoped_evidence_wire_def)
qed (fact scoped_evidence_determines scoped_evidence_keeps scoped_evidence_local)+

end
