(* ===== verification/Invocation_Admission.thy ===== *)
theory Invocation_Admission
  imports Invocation_Start Event_Log Attempts
begin

text \<open>
  The canonical admission of an execution (\<open>invocation_execution.py\<close>): the two events and the job
  that a request stands for, and the decoder that accepts exactly these. The last check of a job
  specification, that its \<open>available_at\<close> is a time, is always made on a canonical time, so it has no
  counterpart.
\<close>

section \<open>Transitions\<close>

definition exec_transition_payload :: "task_transition \<Rightarrow> exec_error + json" where
  "exec_transition_payload t =
     bind_res (exec_text (JStr (tt_task_id t)) ''transition taskId'') (\<lambda>task_id.
     if tt_previous t \<noteq> TS_READY \<or> tt_current t \<noteq> TS_RUNNING
       then Inl (ExValue ''transition must be exactly READY to RUNNING'')
     else bind_res (case tt_reason t of None \<Rightarrow> Inr None
         | Some s \<Rightarrow> bind_res (exec_text (JStr s) ''transition reason'') (\<lambda>x. Inr (Some x))) (\<lambda>reason.
       bind_res (sqlite_positive (JInt (tt_revision t)) ''transition revision'') (\<lambda>revision.
         Inr (JObj [(''taskId'', JStr task_id), (''previous'', JStr (task_status_value TS_READY)),
           (''current'', JStr (task_status_value TS_RUNNING)), (''reason'', jopt JStr reason),
           (''revision'', JInt revision)]))))"

definition exec_transition_fields :: "string list" where
  "exec_transition_fields = [''taskId'', ''previous'', ''current'', ''reason'', ''revision'']"

definition exec_transition_from_payload :: "json \<Rightarrow> exec_error + task_transition" where
  "exec_transition_from_payload v =
     bind_res (exact_dict v exec_transition_fields ''task transition'') (\<lambda>d.
     bind_res (exec_text (dict_get d ''taskId'') ''transition taskId'') (\<lambda>task_id.
     (case (dict_get d ''previous'', dict_get d ''current'') of
       (JStr previous, JStr current) \<Rightarrow>
         if previous \<noteq> task_status_value TS_READY \<or> current \<noteq> task_status_value TS_RUNNING
           then Inl (ExValue ''transition must be exactly READY to RUNNING'')
         else bind_res (case dict_get d ''reason'' of JNull \<Rightarrow> Inr None
             | s \<Rightarrow> bind_res (exec_text s ''transition reason'') (\<lambda>x. Inr (Some x))) (\<lambda>reason.
           bind_res (sqlite_positive (dict_get d ''revision'') ''transition revision'') (\<lambda>revision.
             Inr \<lparr>tt_task_id = task_id, tt_previous = TS_READY, tt_current = TS_RUNNING,
               tt_reason = reason, tt_revision = revision\<rparr>))
     | _ \<Rightarrow> Inl (ExType ''transition statuses must be plain strings''))))"

section \<open>Job specifications\<close>

text \<open>\<open>InvocationJobSpec\<close> with its time as the text it holds.\<close>

record request_job_spec =
  rs_session_id :: string
  rs_plan_id :: string
  rs_task_id :: string
  rs_agent_id :: string
  rs_idempotency_key :: string
  rs_payload_digest :: string
  rs_invocation_id :: string
  rs_priority :: int
  rs_max_attempts :: int
  rs_available_at :: "string option"

text \<open>The instant of a canonical time, in microseconds since 1970, as the attempt store keeps it.\<close>

definition days_before_month :: "nat \<Rightarrow> nat \<Rightarrow> nat" where
  "days_before_month y m = sum_list (map (month_days y) [1..<m])"

definition utc_instant :: "string \<Rightarrow> int" where
  "utc_instant s =
     (let y = digits_at s 0 4; p = y - 1;
          days = int (365 * p + p div 4 - p div 100 + p div 400
            + days_before_month y (digits_at s 5 2) + (digits_at s 8 2 - 1)) - 719162;
          seconds = int (3600 * digits_at s 11 2 + 60 * digits_at s 14 2 + digits_at s 17 2)
      in (86400 * days + seconds) * 10 ^ 6 + int (digits_at s 20 6))"

definition store_spec :: "request_job_spec \<Rightarrow> job_spec" where
  "store_spec s = \<lparr>sp_session_id = rs_session_id s, sp_plan_id = rs_plan_id s,
     sp_task_id = rs_task_id s, sp_agent_id = rs_agent_id s,
     sp_idempotency_key = rs_idempotency_key s, sp_payload_digest = rs_payload_digest s,
     sp_invocation_id = rs_invocation_id s, sp_priority = rs_priority s,
     sp_max_attempts = rs_max_attempts s, sp_available_at = map_option utc_instant (rs_available_at s)\<rparr>"

definition check_request_spec :: "request_job_spec \<Rightarrow> exec_error + request_job_spec" where
  "check_request_spec s = (case check_job_spec (store_spec s) of
     Inl _ \<Rightarrow> Inl (ExValue ''invocation job'') | Inr _ \<Rightarrow> Inr s)"

definition optional_timestamp :: "string option \<Rightarrow> string \<Rightarrow> exec_error + string option" where
  "optional_timestamp t label = (case t of None \<Rightarrow> Inr None
     | Some s \<Rightarrow> bind_res (exec_timestamp (JStr s) label) (\<lambda>x. Inr (Some x)))"

definition job_spec_snapshot :: "request_job_spec \<Rightarrow> exec_error + request_job_spec" where
  "job_spec_snapshot s =
     bind_res (exec_text (JStr (rs_session_id s)) ''job sessionId'') (\<lambda>_.
     bind_res (exec_text (JStr (rs_plan_id s)) ''job planId'') (\<lambda>_.
     bind_res (exec_text (JStr (rs_task_id s)) ''job taskId'') (\<lambda>_.
     bind_res (exec_text (JStr (rs_agent_id s)) ''job agentId'') (\<lambda>_.
     bind_res (exec_text (JStr (rs_idempotency_key s)) ''job idempotencyKey'') (\<lambda>_.
     bind_res (exec_text (JStr (rs_invocation_id s)) ''job invocationId'') (\<lambda>_.
     bind_res (exec_digest (JStr (rs_payload_digest s)) ''job payloadDigest'') (\<lambda>_.
     bind_res (integer_in_range (JInt (rs_priority s)) ''job priority'' 0 100) (\<lambda>_.
     bind_res (sqlite_positive (JInt (rs_max_attempts s)) ''job maxAttempts'') (\<lambda>_.
     bind_res (optional_timestamp (rs_available_at s) ''job availableAt'') (\<lambda>_.
       check_request_spec s))))))))))"

section \<open>Requests\<close>

record 'm admission_request =
  adm_manifest :: 'm
  adm_transition :: task_transition
  adm_requested_event_id :: string
  adm_requested_timestamp :: string
  adm_running_event_id :: string
  adm_running_timestamp :: string
  adm_job_priority :: int
  adm_job_available_at :: "string option"

definition running_key :: "string \<Rightarrow> int \<Rightarrow> string" where
  "running_key task revision = ''task-running:'' @ task @ '':'' @ int_text revision"

definition check_event_identities :: "'m admission_request \<Rightarrow> exec_error + unit" where
  "check_event_identities r =
     bind_res (exec_text (JStr (adm_requested_event_id r)) ''execution-request eventId'') (\<lambda>_.
     bind_res (exec_text (JStr (adm_running_event_id r)) ''task-running eventId'') (\<lambda>_.
     if adm_requested_event_id r = adm_running_event_id r
       then Inl (ExValue ''canonical admission event IDs must be distinct'')
     else bind_res (exec_timestamp (JStr (adm_requested_timestamp r)) ''execution-request timestamp'') (\<lambda>_.
       bind_res (exec_timestamp (JStr (adm_running_timestamp r)) ''task-running timestamp'') (\<lambda>_.
       if adm_running_timestamp r < adm_requested_timestamp r
         then Inl (ExValue ''task-running timestamp must not precede execution-request timestamp'')
       else Inr ()))))"

definition request_spec :: "manifest \<Rightarrow> string \<Rightarrow> 'm admission_request \<Rightarrow> request_job_spec" where
  "request_spec m digest r = \<lparr>rs_session_id = mf_session_id m, rs_plan_id = mf_plan_id m,
     rs_task_id = mf_task_id m, rs_agent_id = mf_agent_id m,
     rs_idempotency_key = mf_job_idempotency_key m, rs_payload_digest = digest,
     rs_invocation_id = mf_invocation_id m, rs_priority = adm_job_priority r, rs_max_attempts = 1,
     rs_available_at = adm_job_available_at r\<rparr>"

definition requested_event :: "manifest \<Rightarrow> json \<Rightarrow> 'm admission_request \<Rightarrow> domain_event" where
  "requested_event m payload r = \<lparr>ev_stream_id = ''session:'' @ mf_session_id m,
     ev_event_type = ''task.execution.requested'', ev_payload = payload,
     ev_actor_id = ''orchestrator'', ev_event_id = adm_requested_event_id r,
     ev_timestamp = adm_requested_timestamp r, ev_correlation_id = Some (mf_correlation_id m),
     ev_causation_id = Some (mf_causation_id m),
     ev_idempotency_key = Some (''execution-request:'' @ mf_invocation_id m)\<rparr>"

definition running_event :: "manifest \<Rightarrow> json \<Rightarrow> 'm admission_request \<Rightarrow> domain_event" where
  "running_event m payload r = \<lparr>ev_stream_id = ''session:'' @ mf_session_id m,
     ev_event_type = ''task.status.changed'', ev_payload = payload,
     ev_actor_id = ''orchestrator'', ev_event_id = adm_running_event_id r,
     ev_timestamp = adm_running_timestamp r, ev_correlation_id = Some (mf_correlation_id m),
     ev_causation_id = Some (mf_causation_id m),
     ev_idempotency_key = Some (running_key (mf_task_id m) (mf_task_revision m))\<rparr>"

definition admission_event_pair ::
  "domain_event list \<Rightarrow> exec_error + domain_event \<times> domain_event" where
  "admission_event_pair events = (case events of [a, b] \<Rightarrow> Inr (a, b)
     | _ \<Rightarrow> Inl (ExValue ''canonical admission requires exactly two events''))"

text \<open>The comparison of an event with the one expected in its place, field by field.\<close>

definition envelope_fields :: "domain_event \<Rightarrow> (string \<times> json) list" where
  "envelope_fields e =
     [(''stream_id'', JStr (ev_stream_id e)), (''event_type'', JStr (ev_event_type e)),
      (''actor_id'', JStr (ev_actor_id e)), (''event_id'', JStr (ev_event_id e)),
      (''correlation_id'', jopt JStr (ev_correlation_id e)),
      (''causation_id'', jopt JStr (ev_causation_id e)),
      (''idempotency_key'', jopt JStr (ev_idempotency_key e))]"

fun compare_fields :: "string \<Rightarrow> string \<Rightarrow> ((string \<times> json) \<times> string \<times> json) list \<Rightarrow> exec_error + unit" where
  "compare_fields mismatch spot [] = Inr ()"
| "compare_fields mismatch spot (((name, actual), _, expected) # rest) =
     bind_res (exec_text actual (spot @ name)) (\<lambda>_.
     if actual \<noteq> expected then Inl (ExValue mismatch) else compare_fields mismatch spot rest)"

fun compare_events ::
  "string \<Rightarrow> string \<Rightarrow> nat \<Rightarrow> (domain_event \<times> domain_event) list \<Rightarrow> exec_error + unit" where
  "compare_events mismatch late i [] = Inr ()"
| "compare_events mismatch late i ((actual, expected) # rest) =
     (let spot = ''canonical event '' @ int_text (int i) @ '' '' in
      bind_res (compare_fields mismatch spot (zip (envelope_fields actual) (envelope_fields expected))) (\<lambda>_.
      bind_res (exec_timestamp (JStr (ev_timestamp actual)) (spot @ ''timestamp'')) (\<lambda>_.
      if ev_timestamp actual \<noteq> ev_timestamp expected then Inl (ExValue late)
      else compare_events mismatch late (i + 1) rest)))"

section \<open>The admission of schema 1\<close>

definition admission_init ::
  "platform \<Rightarrow> manifest admission_request \<Rightarrow> exec_error + manifest admission_request" where
  "admission_init pf r =
     bind_res (manifest_to_dict (adm_manifest r)) (\<lambda>doc.
     bind_res (manifest_from_dict doc) (\<lambda>m.
     bind_res (exec_transition_payload (adm_transition r)) (\<lambda>_.
     if tt_task_id (adm_transition r) \<noteq> mf_task_id m \<or> tt_revision (adm_transition r) \<noteq> mf_task_revision m
       then Inl (ExValue ''transition identity and revision must equal the manifest'')
     else bind_res (check_event_identities r) (\<lambda>_.
       bind_res (exec_text (JStr (''session:'' @ mf_session_id m)) ''canonical admission streamId'') (\<lambda>_.
       bind_res (exec_text (JStr (''execution-request:'' @ mf_invocation_id m))
         ''execution-request idempotencyKey'') (\<lambda>_.
       bind_res (exec_text (JStr (running_key (mf_task_id m) (mf_task_revision m)))
         ''task-running idempotencyKey'') (\<lambda>_.
       bind_res (integer_in_range (JInt (adm_job_priority r)) ''job priority'' 0 100) (\<lambda>_.
       bind_res (optional_timestamp (adm_job_available_at r) ''job availableAt'') (\<lambda>_.
       bind_res (manifest_digest pf m) (\<lambda>digest.
       bind_res (check_request_spec (request_spec m digest r)) (\<lambda>_.
         Inr (r\<lparr>adm_manifest := m\<rparr>))))))))))))"

definition admission_job_spec ::
  "platform \<Rightarrow> manifest admission_request \<Rightarrow> exec_error + request_job_spec" where
  "admission_job_spec pf r =
     bind_res (admission_init pf r) (\<lambda>r'.
     bind_res (manifest_digest pf (adm_manifest r')) (\<lambda>digest.
       check_request_spec (request_spec (adm_manifest r') digest r')))"

definition admission_events ::
  "platform \<Rightarrow> manifest admission_request \<Rightarrow> exec_error + domain_event list" where
  "admission_events pf r =
     bind_res (admission_init pf r) (\<lambda>r'.
     bind_res (manifest_to_dict (adm_manifest r')) (\<lambda>payload.
     bind_res (exec_transition_payload (adm_transition r')) (\<lambda>transition.
       Inr [requested_event (adm_manifest r') payload r',
            running_event (adm_manifest r') transition r'])))"

definition admission_components ::
  "platform \<Rightarrow> manifest admission_request \<Rightarrow> exec_error + domain_event list \<times> request_job_spec" where
  "admission_components pf r =
     bind_res (admission_events pf r) (\<lambda>events.
     bind_res (admission_job_spec pf r) (\<lambda>spec. Inr (events, spec)))"

definition admission_validate ::
  "platform \<Rightarrow> manifest admission_request \<Rightarrow> domain_event list \<Rightarrow> request_job_spec \<Rightarrow> exec_error + unit" where
  "admission_validate pf r events spec =
     bind_res (admission_init pf r) (\<lambda>r'.
     bind_res (admission_event_pair events) (\<lambda>(requested, running).
     bind_res (manifest_from_event (ev_event_type requested) (ev_payload requested)) (\<lambda>m.
     bind_res (exec_transition_from_payload (ev_payload running)) (\<lambda>transition.
     bind_res (event_type_is (ev_event_type running) ''task.status.changed'') (\<lambda>_.
     if m \<noteq> adm_manifest r' then Inl (ExValue ''execution-request manifest does not match the request'')
     else if transition \<noteq> adm_transition r' then Inl (ExValue ''task-running transition does not match the request'')
     else bind_res (admission_events pf r') (\<lambda>expected.
       bind_res (compare_events ''canonical admission event envelope does not match'' ''canonical admission event timestamp does not match'' 0 (zip [requested, running] expected)) (\<lambda>_.
       bind_res (job_spec_snapshot spec) (\<lambda>snapshot.
       bind_res (admission_job_spec pf r') (\<lambda>own.
         if snapshot \<noteq> own then Inl (ExValue ''invocation job does not match the canonical manifest binding'') else Inr ())))))))))"

definition admission_from_components ::
  "platform \<Rightarrow> domain_event list \<Rightarrow> request_job_spec \<Rightarrow> exec_error + manifest admission_request" where
  "admission_from_components pf events spec =
     bind_res (admission_event_pair events) (\<lambda>(requested, running).
     bind_res (manifest_from_event (ev_event_type requested) (ev_payload requested)) (\<lambda>m.
     bind_res (event_type_is (ev_event_type running) ''task.status.changed'') (\<lambda>_.
     bind_res (exec_transition_from_payload (ev_payload running)) (\<lambda>transition.
     bind_res (job_spec_snapshot spec) (\<lambda>snapshot.
     bind_res (exec_text (JStr (ev_event_id requested)) ''execution-request eventId'') (\<lambda>_.
     bind_res (exec_timestamp (JStr (ev_timestamp requested)) ''execution-request timestamp'') (\<lambda>_.
     bind_res (exec_text (JStr (ev_event_id running)) ''task-running eventId'') (\<lambda>_.
     bind_res (exec_timestamp (JStr (ev_timestamp running)) ''task-running timestamp'') (\<lambda>_.
     bind_res (admission_init pf \<lparr>adm_manifest = m, adm_transition = transition,
         adm_requested_event_id = ev_event_id requested, adm_requested_timestamp = ev_timestamp requested,
         adm_running_event_id = ev_event_id running, adm_running_timestamp = ev_timestamp running,
         adm_job_priority = rs_priority snapshot, adm_job_available_at = rs_available_at snapshot\<rparr>)
       (\<lambda>r.
     bind_res (admission_validate pf r events spec) (\<lambda>_. Inr r)))))))))))"

section \<open>The scoped admission of schema 2\<close>

definition scoped_admission_init ::
  "platform \<Rightarrow> scoped_manifest admission_request \<Rightarrow> exec_error + scoped_manifest admission_request" where
  "scoped_admission_init pf r =
     bind_res (scoped_manifest_to_dict (adm_manifest r)) (\<lambda>doc.
     bind_res (scoped_manifest_from_dict doc) (\<lambda>m.
     bind_res (exec_transition_payload (adm_transition r)) (\<lambda>_.
     if tt_task_id (adm_transition r) \<noteq> mf_task_id m \<or> tt_revision (adm_transition r) \<noteq> mf_task_revision m
       then Inl (ExValue ''transition identity and revision must equal the scoped manifest'')
     else bind_res (check_event_identities r) (\<lambda>_.
       bind_res (exec_text (JStr (''session:'' @ mf_session_id m)) ''canonical admission streamId'') (\<lambda>_.
       bind_res (exec_text (JStr (''execution-request:'' @ mf_invocation_id m))
         ''execution-request idempotencyKey'') (\<lambda>_.
       bind_res (exec_text (JStr (running_key (mf_task_id m) (mf_task_revision m)))
         ''task-running idempotencyKey'') (\<lambda>_.
       bind_res (integer_in_range (JInt (adm_job_priority r)) ''job priority'' 0 100) (\<lambda>_.
       bind_res (optional_timestamp (adm_job_available_at r) ''job availableAt'') (\<lambda>_.
       bind_res (scoped_manifest_digest pf m) (\<lambda>digest.
       bind_res (check_request_spec (request_spec (manifest.truncate m) digest r)) (\<lambda>_.
         Inr (r\<lparr>adm_manifest := m\<rparr>))))))))))))"

definition scoped_admission_job_spec ::
  "platform \<Rightarrow> scoped_manifest admission_request \<Rightarrow> exec_error + request_job_spec" where
  "scoped_admission_job_spec pf r =
     bind_res (scoped_admission_init pf r) (\<lambda>r'.
     bind_res (scoped_manifest_digest pf (adm_manifest r')) (\<lambda>digest.
       check_request_spec (request_spec (manifest.truncate (adm_manifest r')) digest r')))"

definition scoped_admission_events ::
  "platform \<Rightarrow> scoped_manifest admission_request \<Rightarrow> exec_error + domain_event list" where
  "scoped_admission_events pf r =
     bind_res (scoped_admission_init pf r) (\<lambda>r'.
     bind_res (scoped_manifest_to_dict (adm_manifest r')) (\<lambda>payload.
     bind_res (exec_transition_payload (adm_transition r')) (\<lambda>transition.
       Inr [requested_event (manifest.truncate (adm_manifest r')) payload r',
            running_event (manifest.truncate (adm_manifest r')) transition r'])))"

definition scoped_admission_components ::
  "platform \<Rightarrow> scoped_manifest admission_request \<Rightarrow> exec_error + domain_event list \<times> request_job_spec" where
  "scoped_admission_components pf r =
     bind_res (scoped_admission_events pf r) (\<lambda>events.
     bind_res (scoped_admission_job_spec pf r) (\<lambda>spec. Inr (events, spec)))"

definition scoped_admission_validate ::
  "platform \<Rightarrow> scoped_manifest admission_request \<Rightarrow> domain_event list \<Rightarrow> request_job_spec \<Rightarrow> exec_error + unit" where
  "scoped_admission_validate pf r events spec =
     bind_res (scoped_admission_init pf r) (\<lambda>r'.
     bind_res (admission_event_pair events) (\<lambda>(requested, running).
     bind_res (scoped_manifest_from_event (ev_event_type requested) (ev_payload requested)) (\<lambda>m.
     bind_res (exec_transition_from_payload (ev_payload running)) (\<lambda>transition.
     bind_res (event_type_is (ev_event_type running) ''task.status.changed'') (\<lambda>_.
     if m \<noteq> adm_manifest r' then Inl (ExValue ''scoped execution-request manifest does not match the request'')
     else if transition \<noteq> adm_transition r' then Inl (ExValue ''task-running transition does not match the scoped request'')
     else bind_res (scoped_admission_events pf r') (\<lambda>expected.
       bind_res (compare_events ''scoped admission event envelope does not match'' ''scoped admission event timestamp does not match'' 0 (zip [requested, running] expected)) (\<lambda>_.
       bind_res (job_spec_snapshot spec) (\<lambda>snapshot.
       bind_res (scoped_admission_job_spec pf r') (\<lambda>own.
         if snapshot \<noteq> own then Inl (ExValue ''invocation job does not match the scoped manifest binding'') else Inr ())))))))))"

definition scoped_admission_from_components ::
  "platform \<Rightarrow> domain_event list \<Rightarrow> request_job_spec \<Rightarrow> exec_error + scoped_manifest admission_request" where
  "scoped_admission_from_components pf events spec =
     bind_res (admission_event_pair events) (\<lambda>(requested, running).
     bind_res (scoped_manifest_from_event (ev_event_type requested) (ev_payload requested)) (\<lambda>m.
     bind_res (event_type_is (ev_event_type running) ''task.status.changed'') (\<lambda>_.
     bind_res (exec_transition_from_payload (ev_payload running)) (\<lambda>transition.
     bind_res (job_spec_snapshot spec) (\<lambda>snapshot.
     bind_res (exec_text (JStr (ev_event_id requested)) ''execution-request eventId'') (\<lambda>_.
     bind_res (exec_timestamp (JStr (ev_timestamp requested)) ''execution-request timestamp'') (\<lambda>_.
     bind_res (exec_text (JStr (ev_event_id running)) ''task-running eventId'') (\<lambda>_.
     bind_res (exec_timestamp (JStr (ev_timestamp running)) ''task-running timestamp'') (\<lambda>_.
     bind_res (scoped_admission_init pf \<lparr>adm_manifest = m, adm_transition = transition,
         adm_requested_event_id = ev_event_id requested, adm_requested_timestamp = ev_timestamp requested,
         adm_running_event_id = ev_event_id running, adm_running_timestamp = ev_timestamp running,
         adm_job_priority = rs_priority snapshot, adm_job_available_at = rs_available_at snapshot\<rparr>)
       (\<lambda>r.
     bind_res (scoped_admission_validate pf r events spec) (\<lambda>_. Inr r)))))))))))"

end
