(* ===== verification/Admission_Props.thy ===== *)
theory Admission_Props
  imports Invocation_Wire Invocation_Admission
begin

text \<open>
  What the wire values and the canonical admission promise: decoding a scoped manifest or scoped
  start evidence is the inverse of encoding it, up to the order of keys; the two events and the job
  of an admission determine the request, and no others are accepted for it.
\<close>

lemma scoped_manifest_encode: "scoped_manifest_to_dict m = scoped_manifest_codec.encode m"
  by (simp add: scoped_manifest_to_dict_def check_scoped_manifest_def scoped_manifest_codec.encode_def
      scoped_manifest_from_raw_def dict_get_def scoped_manifest_wire_def)

lemma scoped_manifest_decode: "scoped_manifest_from_dict v = scoped_manifest_codec.decode v"
  by (simp add: scoped_manifest_from_dict_def scoped_manifest_codec.decode_def)

lemma scoped_evidence_encode: "scoped_evidence_to_dict e = scoped_evidence_codec.encode e"
  by (simp add: scoped_evidence_to_dict_def check_scoped_evidence_def scoped_evidence_codec.encode_def)

lemma scoped_evidence_decode: "scoped_evidence_from_dict v = scoped_evidence_codec.decode v"
  by (simp add: scoped_evidence_from_dict_def scoped_evidence_codec.decode_def)

text \<open>C17. A document decodes to a scoped manifest exactly when it has the keys of the schema and, in the
  order of the schema, is what the manifest encodes to; and the same of scoped start evidence. So
  decoding undoes encoding, no two values share a document, and nothing outside the image of the
  encoder is accepted.\<close>

theorem scoped_values_decode_exact:
  "(scoped_manifest_from_dict v = Inr m \<longleftrightarrow> (\<exists>d. v = JObj d
      \<and> set (dict_keys d) = set scoped_manifest_fields
      \<and> scoped_manifest_to_dict m = Inr (JObj (wire_document scoped_manifest_fields d))))
   \<and> (scoped_evidence_from_dict w = Inr e \<longleftrightarrow> (\<exists>d. w = JObj d
      \<and> set (dict_keys d) = set scoped_evidence_fields
      \<and> scoped_evidence_to_dict e = Inr (JObj (wire_document scoped_evidence_fields d))))"
  unfolding scoped_manifest_encode scoped_manifest_decode scoped_evidence_encode scoped_evidence_decode
  by (simp only: scoped_manifest_codec.decode_iff scoped_evidence_codec.decode_iff)

section \<open>Requests\<close>

text \<open>The constructor checks a request and leaves it as it is.\<close>

lemma scoped_admission_init_same:
  assumes "scoped_admission_init pf r = Inr r'"
  shows "r' = r"
proof -
  obtain doc m where "scoped_manifest_to_dict (adm_manifest r) = Inr doc"
    "scoped_manifest_from_dict doc = Inr m" "r' = r\<lparr>adm_manifest := m\<rparr>"
    using assms by (auto simp: scoped_admission_init_def res_simps split: if_splits)
  then show ?thesis
    using scoped_manifest_codec.encoded_decodes
    by (auto simp: scoped_manifest_encode scoped_manifest_decode)
qed

lemma transition_round_trip:
  assumes "exec_transition_payload t = Inr v"
  shows "exec_transition_from_payload v = Inr t"
  using assms
  by (cases t; cases "tt_reason t")
     (auto simp: exec_transition_payload_def exec_transition_from_payload_def exact_dict_def
        exec_transition_fields_def dict_get_def res_simps exec_text_iff sqlite_positive_iff split: if_splits)

lemma job_spec_snapshot_same: "job_spec_snapshot s = Inr s' \<Longrightarrow> s' = s"
  by (auto simp: job_spec_snapshot_def check_request_spec_def res_simps split: sum.splits)

section \<open>Comparison of events\<close>

definition event_body :: "domain_event \<Rightarrow> domain_event" where
  "event_body e = e\<lparr>ev_payload := JNull\<rparr>"

text \<open>An event whose texts and time the decoder can read.\<close>

definition readable_event :: "domain_event \<Rightarrow> bool" where
  "readable_event e = (list_all (\<lambda>p. \<exists>s. snd p = JStr s \<and> ok_text s) (envelope_fields e)
     \<and> (\<exists>s. exec_timestamp (JStr (ev_timestamp e)) [] = Inr s))"

lemma exec_timestamp_relabel: "exec_timestamp v label = Inr s \<Longrightarrow> exec_timestamp v label' = Inr s"
  by (auto simp: exec_timestamp_def bounded_text_def res_simps split: json.splits if_splits)

lemma compare_fields_iff:
  "length xs = length ys \<Longrightarrow> compare_fields mismatch spot (zip xs ys) = Inr () \<longleftrightarrow>
     map snd xs = map snd ys \<and> list_all (\<lambda>p. \<exists>s. snd p = JStr s \<and> ok_text s) xs"
proof (induction xs ys rule: list_induct2)
  case (Cons x xs y ys)
  obtain n a where x: "x = (n, a)" by (cases x)
  obtain n' b where y: "y = (n', b)" by (cases y)
  show ?case
    using Cons by (auto simp: x y res_simps exec_text_iff)
qed simp

lemma compare_events_iff:
  "compare_events mismatch late i [(a, a'), (b, b')] = Inr () \<longleftrightarrow>
     event_body a = event_body a' \<and> event_body b = event_body b' \<and> readable_event a \<and> readable_event b"
proof -
  have one: "compare_events mismatch late i ((a, a') # rest) = Inr () \<longleftrightarrow>
     event_body a = event_body a' \<and> readable_event a \<and> compare_events mismatch late (i + 1) rest = Inr ()"
    for a a' i rest
  proof -
    have same: "event_body a = event_body a' \<longleftrightarrow>
        map snd (envelope_fields a) = map snd (envelope_fields a') \<and> ev_timestamp a = ev_timestamp a'"
      by (cases a; cases a') (auto simp: event_body_def envelope_fields_def jopt_def split: option.splits)
    have len: "length (envelope_fields a) = length (envelope_fields a')"
      by (simp add: envelope_fields_def)
    show ?thesis
      by (auto simp: Let_def res_simps compare_fields_iff [OF len] readable_event_def same)
         (blast dest: exec_timestamp_relabel)+
  qed
  show ?thesis
    by (simp only: one) auto
qed

section \<open>Canonical components\<close>

lemma scoped_manifest_texts:
  assumes "scoped_manifest_to_dict m = Inr v"
  shows "list_all ok_text [mf_invocation_id m, mf_session_id m, mf_plan_id m, mf_task_id m,
    mf_agent_id m, mf_job_idempotency_key m, mf_correlation_id m, mf_causation_id m]"
  using assms
  by (auto simp: scoped_manifest_to_dict_def check_scoped_manifest_def scoped_manifest_init_def
      scoped_manifest_wire_def dict_get_def res_simps exec_text_iff)

lemma check_request_spec_iff: "check_request_spec s = Inr s' \<longleftrightarrow>
    s' = s \<and> check_job_spec (store_spec s) = Inr (store_spec s)"
  by (auto simp: check_request_spec_def check_job_spec_def split: sum.splits if_splits)

lemma scoped_admission_init_iff:
  "scoped_admission_init pf r = Inr r' \<longleftrightarrow> r' = r \<and> (let m = adm_manifest r in
     (\<exists>doc. scoped_manifest_to_dict m = Inr doc)
     \<and> (\<exists>doc. exec_transition_payload (adm_transition r) = Inr doc)
     \<and> tt_task_id (adm_transition r) = mf_task_id m \<and> tt_revision (adm_transition r) = mf_task_revision m
     \<and> check_event_identities r = Inr ()
     \<and> ok_text (''session:'' @ mf_session_id m) \<and> ok_text (''execution-request:'' @ mf_invocation_id m)
     \<and> ok_text (running_key (mf_task_id m) (mf_task_revision m))
     \<and> 0 \<le> adm_job_priority r \<and> adm_job_priority r \<le> 100
     \<and> (\<exists>t. optional_timestamp (adm_job_available_at r) ''job availableAt'' = Inr t)
     \<and> (\<exists>digest. scoped_manifest_digest pf m = Inr digest \<and>
          check_job_spec (store_spec (request_spec (manifest.truncate m) digest r))
          = Inr (store_spec (request_spec (manifest.truncate m) digest r))))"
proof (cases "scoped_manifest_to_dict (adm_manifest r)")
  case (Inr doc)
  then have "scoped_manifest_from_dict doc = Inr (adm_manifest r)"
    using scoped_manifest_codec.encoded_decodes by (simp add: scoped_manifest_encode scoped_manifest_decode)
  with Inr show ?thesis
    unfolding scoped_admission_init_def Let_def
    by (simp add: res_simps exec_text_iff integer_in_range_def check_request_spec_iff) blast
qed (simp add: scoped_admission_init_def Let_def)

lemma scoped_admission_components_iff:
  "scoped_admission_components pf r = Inr (events, spec) \<longleftrightarrow>
     scoped_admission_init pf r = Inr r \<and> (\<exists>payload transition digest.
       scoped_manifest_to_dict (adm_manifest r) = Inr payload
       \<and> exec_transition_payload (adm_transition r) = Inr transition
       \<and> scoped_manifest_digest pf (adm_manifest r) = Inr digest
       \<and> events = [requested_event (manifest.truncate (adm_manifest r)) payload r,
            running_event (manifest.truncate (adm_manifest r)) transition r]
       \<and> spec = request_spec (manifest.truncate (adm_manifest r)) digest r)"
proof (cases "scoped_admission_init pf r")
  case (Inr r')
  then have r': "r' = r"
    by (rule scoped_admission_init_same)
  obtain digest where "scoped_manifest_digest pf (adm_manifest r) = Inr digest"
    "check_job_spec (store_spec (request_spec (manifest.truncate (adm_manifest r)) digest r))
       = Inr (store_spec (request_spec (manifest.truncate (adm_manifest r)) digest r))"
    using Inr by (auto simp: scoped_admission_init_iff Let_def)
  then show ?thesis
    using Inr by (auto simp: r' scoped_admission_components_def scoped_admission_events_def
        scoped_admission_job_spec_def check_request_spec_iff res_simps)
qed (simp add: scoped_admission_components_def scoped_admission_events_def)

lemma ok_literals: "ok_text ''orchestrator'' \<and> ok_text ''task.execution.requested'' \<and> ok_text ''task.status.changed''"
  by code_simp

lemma admitted_events_readable:
  assumes "scoped_admission_components pf r = Inr ([a, b], spec)"
  shows "readable_event a \<and> readable_event b"
proof -
  let ?m = "adm_manifest r"
  obtain payload transition where a: "a = requested_event (manifest.truncate ?m) payload r"
    and b: "b = running_event (manifest.truncate ?m) transition r"
    and m: "scoped_manifest_to_dict ?m = Inr payload" and i: "scoped_admission_init pf r = Inr r"
    using assms by (auto simp: scoped_admission_components_iff)
  have ids: "ok_text (adm_requested_event_id r)" "ok_text (adm_running_event_id r)"
    and times: "\<exists>s. exec_timestamp (JStr (adm_requested_timestamp r)) [] = Inr s"
      "\<exists>s. exec_timestamp (JStr (adm_running_timestamp r)) [] = Inr s"
    using i exec_timestamp_relabel [where label' = "[]"]
    by (auto simp: scoped_admission_init_iff Let_def check_event_identities_def res_simps exec_text_iff
        split: if_splits)
  show ?thesis
    using ok_literals scoped_manifest_texts [OF m] i ids times
    by (simp add: a b readable_event_def envelope_fields_def requested_event_def running_event_def
        jopt_def scoped_admission_init_iff Let_def manifest.truncate_def)
qed

lemma py_strip_plain: "list_all (\<lambda>c. \<not> py_space c) s \<Longrightarrow> py_strip s = s"
proof -
  have keep: "list_all (\<lambda>c. \<not> py_space c) s \<Longrightarrow> dropWhile py_space s = s" for s
    by (cases s) auto
  assume "list_all (\<lambda>c. \<not> py_space c) s"
  then show ?thesis
    by (simp add: py_strip_def keep)
qed

lemma utf8_len_plain: "list_all (\<lambda>c. (of_char c :: nat) < 128) s \<Longrightarrow> utf8_len s = length s"
  by (induction s) (auto simp: utf8_len_def)

lemma sha256_digest:
  assumes "sha256_text s"
  shows "exec_digest (JStr s) label = Inr s"
proof -
  have hex: "list_all is_hex s" and len: "length s = 64"
    using assms by (auto simp: sha256_text_def)
  have "\<not> py_space c \<and> \<not> control_char c \<and> (of_char c :: nat) < 128" if "is_hex c" for c
    using that by (auto simp: is_hex_def is_digit_def code_in_def py_space_def control_char_def)
  with hex have "list_all (\<lambda>c. \<not> py_space c) s" "list_all (\<lambda>c. \<not> control_char c) s"
    "list_all (\<lambda>c. (of_char c :: nat) < 128) s"
    by (auto simp: list_all_iff)
  then show ?thesis
    using assms len by (auto simp: exec_digest_def bounded_text_def py_strip_plain utf8_len_plain
        list_all_iff list_ex_iff)
qed

lemma own_spec_snapshot:
  assumes "scoped_admission_components pf r = Inr (events, spec)"
  shows "job_spec_snapshot spec = Inr spec"
proof -
  let ?m = "adm_manifest r"
  obtain payload digest where m: "scoped_manifest_to_dict ?m = Inr payload"
    and spec: "spec = request_spec (manifest.truncate ?m) digest r"
    and d: "scoped_manifest_digest pf ?m = Inr digest" and i: "scoped_admission_init pf r = Inr r"
    using assms by (auto simp: scoped_admission_components_iff)
  have store: "check_job_spec (store_spec spec) = Inr (store_spec spec)"
    using i d by (auto simp: scoped_admission_init_iff Let_def spec)
  then have sha: "sha256_text digest"
    by (auto simp: check_job_spec_def store_spec_def spec request_spec_def split: if_splits)
  obtain t where t: "optional_timestamp (adm_job_available_at r) ''job availableAt'' = Inr t"
    using i by (auto simp: scoped_admission_init_iff Let_def)
  have "exec_text (JStr x) label = Inr x" if "ok_text x" for x label
    using that by (simp add: exec_text_iff)
  moreover have "sqlite_positive (JInt 1) label = Inr 1" for label
    by (simp add: sqlite_positive_iff)
  ultimately show ?thesis
    using scoped_manifest_texts [OF m] i store
    by (simp add: job_spec_snapshot_def spec request_spec_def manifest.truncate_def sha256_digest [OF sha] t
        integer_in_range_def scoped_admission_init_iff Let_def check_request_spec_iff)
qed

text \<open>
  What a caller may hand in for a request: the two events of the request, their payloads being any
  documents that decode to its manifest and its transition.
\<close>

definition presents :: "scoped_manifest admission_request \<Rightarrow> domain_event list \<Rightarrow> domain_event list \<Rightarrow> bool" where
  "presents r own events = (case (own, events) of
     ([a', b'], [a, b]) \<Rightarrow> event_body a = event_body a' \<and> event_body b = event_body b'
       \<and> scoped_manifest_from_dict (ev_payload a) = Inr (adm_manifest r)
       \<and> exec_transition_from_payload (ev_payload b) = Inr (adm_transition r)
   | _ \<Rightarrow> False)"

lemma same_body: "event_body e = event_body e' \<longleftrightarrow> ev_stream_id e = ev_stream_id e'
    \<and> ev_event_type e = ev_event_type e' \<and> ev_actor_id e = ev_actor_id e' \<and> ev_event_id e = ev_event_id e'
    \<and> ev_timestamp e = ev_timestamp e' \<and> ev_correlation_id e = ev_correlation_id e'
    \<and> ev_causation_id e = ev_causation_id e' \<and> ev_idempotency_key e = ev_idempotency_key e'"
  by (cases e; cases e') (auto simp: event_body_def)

lemma readable_body: "event_body e = event_body e' \<Longrightarrow> readable_event e' \<Longrightarrow> readable_event e"
  by (simp add: same_body readable_event_def envelope_fields_def)

lemma components_parts:
  assumes "scoped_admission_components pf r = Inr (own, ospec)"
  shows "scoped_admission_events pf r = Inr own" "scoped_admission_job_spec pf r = Inr ospec"
  using assms by (auto simp: scoped_admission_components_def res_simps)

lemma scoped_validate_iff:
  assumes own: "scoped_admission_components pf r = Inr (own, ospec)"
  shows "scoped_admission_validate pf r events spec = Inr () \<longleftrightarrow> presents r own events \<and> spec = ospec"
proof -
  obtain p t where own_is: "own = [requested_event (manifest.truncate (adm_manifest r)) p r,
      running_event (manifest.truncate (adm_manifest r)) t r]" and i: "scoped_admission_init pf r = Inr r"
    using own by (auto simp: scoped_admission_components_iff)
  define a' b' where ab': "a' = requested_event (manifest.truncate (adm_manifest r)) p r"
    "b' = running_event (manifest.truncate (adm_manifest r)) t r"
  have own_ab: "own = [a', b']" and types: "ev_event_type a' = ''task.execution.requested''"
      "ev_event_type b' = ''task.status.changed''"
    by (simp_all add: own_is ab' requested_event_def running_event_def)
  have rd: "readable_event a'" "readable_event b'"
    using admitted_events_readable own by (auto simp: own_ab)
  note parts = components_parts [OF own]
  show ?thesis
  proof (cases "\<exists>a b. events = [a, b]")
    case True
    then obtain a b where ev: "events = [a, b]" by blast
    have compare: "compare_events mismatch late 0 (zip [a, b] own) = Inr () \<longleftrightarrow>
        event_body a = event_body a' \<and> event_body b = event_body b'" for mismatch late
      using rd readable_body by (auto simp: own_ab compare_events_iff simp del: compare_events.simps)
    have spec: "job_spec_snapshot spec = Inr ospec \<longleftrightarrow> spec = ospec"
      using own_spec_snapshot [OF own] job_spec_snapshot_same by auto
    have "scoped_admission_validate pf r events spec = Inr () \<longleftrightarrow>
        scoped_manifest_from_event (ev_event_type a) (ev_payload a) = Inr (adm_manifest r)
        \<and> exec_transition_from_payload (ev_payload b) = Inr (adm_transition r)
        \<and> ev_event_type b = ''task.status.changed''
        \<and> event_body a = event_body a' \<and> event_body b = event_body b' \<and> spec = ospec"
      by (auto simp: scoped_admission_validate_def i ev admission_event_pair_def parts compare
          spec event_type_is_def res_simps split: if_splits)
    then show ?thesis
      by (auto simp: presents_def own_ab ev scoped_manifest_from_event_def event_type_is_def same_body types)
  next
    case False
    then have "admission_event_pair events = Inl (ExValue ''canonical admission requires exactly two events'')"
      and "\<not> presents r own events"
      by (auto simp: admission_event_pair_def presents_def own_ab split: list.splits)
    then show ?thesis
      by (simp add: scoped_admission_validate_def i)
  qed
qed

lemma scoped_from_components_inits:
  assumes "scoped_admission_from_components pf events spec = Inr r"
  shows "scoped_admission_init pf r = Inr r" "scoped_admission_validate pf r events spec = Inr ()"
  using assms scoped_admission_init_same
  by (auto simp: scoped_admission_from_components_def res_simps)

lemma presented_accepted:
  assumes own: "scoped_admission_components pf r = Inr (own, spec)" and pr: "presents r own events"
  shows "scoped_admission_from_components pf events spec = Inr r"
proof -
  let ?m = "manifest.truncate (adm_manifest r)"
  obtain p t digest where own_is: "own = [requested_event ?m p r, running_event ?m t r]"
    and spec: "spec = request_spec ?m digest r" and i: "scoped_admission_init pf r = Inr r"
    using own by (auto simp: scoped_admission_components_iff)
  obtain a b where ev: "events = [a, b]" and ab: "event_body a = event_body (requested_event ?m p r)"
      "event_body b = event_body (running_event ?m t r)"
    and docs: "scoped_manifest_from_dict (ev_payload a) = Inr (adm_manifest r)"
      "exec_transition_from_payload (ev_payload b) = Inr (adm_transition r)"
    using pr by (auto simp: presents_def own_is split: list.splits)
  have a: "ev_event_type a = ''task.execution.requested''" "ev_event_id a = adm_requested_event_id r"
      "ev_timestamp a = adm_requested_timestamp r"
    and b: "ev_event_type b = ''task.status.changed''" "ev_event_id b = adm_running_event_id r"
      "ev_timestamp b = adm_running_timestamp r"
    using ab by (simp_all add: same_body requested_event_def running_event_def)
  have ids: "ok_text (adm_requested_event_id r)" "ok_text (adm_running_event_id r)"
    and times: "exec_timestamp (JStr (adm_requested_timestamp r)) ''execution-request timestamp''
        = Inr (adm_requested_timestamp r)"
      "exec_timestamp (JStr (adm_running_timestamp r)) ''task-running timestamp'' = Inr (adm_running_timestamp r)"
    using i exec_timestamp_JStr
    by (auto simp: scoped_admission_init_iff Let_def check_event_identities_def res_simps exec_text_iff
        split: if_splits)
  have r: "\<lparr>adm_manifest = adm_manifest r, adm_transition = adm_transition r,
      adm_requested_event_id = adm_requested_event_id r, adm_requested_timestamp = adm_requested_timestamp r,
      adm_running_event_id = adm_running_event_id r, adm_running_timestamp = adm_running_timestamp r,
      adm_job_priority = rs_priority spec, adm_job_available_at = rs_available_at spec\<rparr> = r"
    by (simp add: spec request_spec_def)
  have plain: "exec_text (JStr x) label = Inr x" if "ok_text x" for x label
    using that by (simp add: exec_text_iff)
  have "scoped_admission_validate pf r [a, b] spec = Inr ()"
    using scoped_validate_iff [OF own, of events spec] pr by (simp add: ev)
  then show ?thesis
    using own_spec_snapshot [OF own]
    by (simp add: scoped_admission_from_components_def ev admission_event_pair_def a b
        scoped_manifest_from_event_def event_type_is_def docs plain ids times r i)
qed

text \<open>C15. The decoder of canonical admissions accepts two events and a job for a request exactly when they
  are the components of that request: the job is its job specification, and the events are its events
  in order, with payloads that decode to its manifest and its READY to RUNNING transition. So a request
  is read back from its own components, one set of components stands for one request, and a changed
  identity, time, key, digest, priority or order is refused.\<close>

theorem scoped_admission_exact:
  "scoped_admission_from_components pf events spec = Inr r \<longleftrightarrow>
     (\<exists>own. scoped_admission_components pf r = Inr (own, spec) \<and> presents r own events)"
proof
  assume "scoped_admission_from_components pf events spec = Inr r"
  note ok = scoped_from_components_inits [OF this]
  obtain own ospec where own: "scoped_admission_components pf r = Inr (own, ospec)"
    using ok(1) by (auto simp: scoped_admission_components_iff scoped_admission_init_iff Let_def)
  then show "\<exists>own. scoped_admission_components pf r = Inr (own, spec) \<and> presents r own events"
    using ok(2) by (auto simp: scoped_validate_iff [OF own])
qed (auto intro: presented_accepted)

end
