(* ===== verification/Invocation_Worker.thy ===== *)
theory Invocation_Worker
  imports Admission_Props Floats
begin

text \<open>
  The admission of a worker (\<open>invocation_worker.py\<close>): the timing policy, the binding of a manifest to
  the authority of a started invocation, and the gate, whose dispatch is always refused.
  A duration is given as a Python number and kept as the rational its double denotes; the quotient and
  the difference that the configuration compares with are rounded to doubles.
\<close>

section \<open>Configuration\<close>

text \<open>An exact built-in number: an \<open>int\<close>, a finite \<open>float\<close>, or an infinity or NaN.\<close>

datatype py_number = PyInt int | PyFloat rat | PyNonFinite

definition duration :: "py_number \<Rightarrow> string \<Rightarrow> exec_error + rat" where
  "duration v label =
     bind_res (case v of
         PyInt i \<Rightarrow> (let q = to_double (of_int i) in
           if finite_double q then Inr (Some q)
           else Inl (ExValue (label @ '' is outside the supported finite range'')))
       | PyFloat q \<Rightarrow> Inr (Some q)
       | PyNonFinite \<Rightarrow> Inr None) (\<lambda>normalized.
     case normalized of
       None \<Rightarrow> Inl (ExValue (label @ '' must be finite and greater than zero''))
     | Some q \<Rightarrow> if q \<le> 0 then Inl (ExValue (label @ '' must be finite and greater than zero''))
         else Inr q)"

definition worker_revision :: "string \<Rightarrow> exec_error + string" where
  "worker_revision s =
     (if s = [] \<or> s \<noteq> py_strip s
        then Inl (ExValue ''handler_revision must be non-empty without surrounding whitespace'')
      else if 4096 < utf8_len s
        then Inl (ExValue ''handler_revision exceeds its UTF-8 byte limit'')
      else if list_ex control_char s
        then Inl (ExValue ''handler_revision contains a C0 or DEL control character'')
      else Inr s)"

record worker_arguments =
  wa_lease_seconds :: py_number
  wa_heartbeat_interval_seconds :: py_number
  wa_handler_timeout_seconds :: py_number
  wa_drain_timeout_seconds :: py_number

record worker_configuration =
  wc_lease_seconds :: rat
  wc_heartbeat_interval_seconds :: rat
  wc_handler_timeout_seconds :: rat
  wc_drain_timeout_seconds :: rat

definition worker_configuration_init :: "worker_arguments \<Rightarrow> exec_error + worker_configuration" where
  "worker_configuration_init a =
     bind_res (duration (wa_lease_seconds a) ''lease_seconds'') (\<lambda>lease.
     bind_res (duration (wa_heartbeat_interval_seconds a) ''heartbeat_interval_seconds'') (\<lambda>interval.
     bind_res (duration (wa_handler_timeout_seconds a) ''handler_timeout_seconds'') (\<lambda>handler.
     bind_res (duration (wa_drain_timeout_seconds a) ''drain_timeout_seconds'') (\<lambda>drain.
     if to_double (lease / 3) < interval
       then Inl (ExValue ''heartbeat interval must not exceed one third of the lease'')
     else if lease \<le> handler
       then Inl (ExValue ''handler timeout must be shorter than the lease'')
     else if to_double (lease - handler) < drain
       then Inl (ExValue ''drain timeout exceeds the lease time remaining after handler timeout'')
     else Inr \<lparr>wc_lease_seconds = lease, wc_heartbeat_interval_seconds = interval,
       wc_handler_timeout_seconds = handler, wc_drain_timeout_seconds = drain\<rparr>))))"

definition configuration_snapshot :: "worker_configuration \<Rightarrow> exec_error + worker_configuration" where
  "configuration_snapshot c = worker_configuration_init
     \<lparr>wa_lease_seconds = PyFloat (wc_lease_seconds c),
      wa_heartbeat_interval_seconds = PyFloat (wc_heartbeat_interval_seconds c),
      wa_handler_timeout_seconds = PyFloat (wc_handler_timeout_seconds c),
      wa_drain_timeout_seconds = PyFloat (wc_drain_timeout_seconds c)\<rparr>"

section \<open>Admission under schema 1\<close>

definition manifest_snapshot :: "manifest \<Rightarrow> exec_error + manifest" where
  "manifest_snapshot m = bind_res (manifest_to_dict m) manifest_from_dict"

definition validate_manifest_start_binding ::
  "platform \<Rightarrow> manifest \<Rightarrow> start_evidence start_claimed \<Rightarrow> exec_error + unit" where
  "validate_manifest_start_binding pf m c = (let e = rv_evidence (sc_receipt c) in
     if mf_invocation_id m \<noteq> st_invocation_id e \<or> mf_session_id m \<noteq> st_session_id e
        \<or> mf_plan_id m \<noteq> st_plan_id e \<or> mf_task_id m \<noteq> st_task_id e \<or> mf_agent_id m \<noteq> st_agent_id e
        \<or> mf_job_idempotency_key m \<noteq> st_job_idempotency_key e
        \<or> mf_envelope_digest m \<noteq> st_envelope_digest e \<or> mf_context_digest m \<noteq> st_context_digest e
        \<or> mf_authorization_digest m \<noteq> st_authorization_digest e
        \<or> mf_runtime_revision m \<noteq> st_runtime_revision e
        \<or> mf_correlation_id m \<noteq> st_correlation_id e \<or> mf_causation_id m \<noteq> st_causation_id e
       then Inl (ExValue ''manifest does not match invocation-start evidence'')
     else bind_res (manifest_digest pf m) (\<lambda>digest.
       if digest \<noteq> st_manifest_digest e \<or> digest \<noteq> wl_payload_digest (sc_lease c)
         then Inl (ExValue ''manifest digest does not match invocation-start authority'')
       else if mf_effect_class m \<noteq> EC_PURE
         then Inl (ExValue ''heartbeat worker accepts only effectClass=pure'')
       else if mf_retry_class m \<noteq> RC_NEVER
         then Inl (ExValue ''heartbeat worker accepts only retryClass=never'')
       else if st_attempt_number e \<noteq> 1 \<or> st_lease_epoch e \<noteq> 1 \<or> wl_max_attempts (sc_lease c) \<noteq> 1
         then Inl (ExValue ''heartbeat worker accepts only canonical first-attempt authority'')
       else Inr ()))"

record ('e, 'm) worker_admission =
  wd_claim :: "'e start_claimed"
  wd_manifest :: 'm
  wd_configuration :: worker_configuration
  wd_handler_revision :: string

definition worker_admission_init ::
  "platform \<Rightarrow> (start_evidence, manifest) worker_admission
     \<Rightarrow> exec_error + (start_evidence, manifest) worker_admission" where
  "worker_admission_init pf w =
     bind_res (check_claimed pf (wd_claim w)) (\<lambda>claim.
     bind_res (manifest_snapshot (wd_manifest w)) (\<lambda>m.
     bind_res (configuration_snapshot (wd_configuration w)) (\<lambda>conf.
     bind_res (worker_revision (wd_handler_revision w)) (\<lambda>revision.
     bind_res (validate_manifest_start_binding pf m claim) (\<lambda>_.
     if revision \<noteq> mf_runtime_revision m
       then Inl (ExValue ''handler revision does not match the admitted runtime revision'')
     else Inr \<lparr>wd_claim = claim, wd_manifest = m, wd_configuration = conf,
       wd_handler_revision = revision\<rparr>)))))"

section \<open>Admission under schema 3\<close>

definition scoped_manifest_snapshot :: "scoped_manifest \<Rightarrow> exec_error + scoped_manifest" where
  "scoped_manifest_snapshot m = bind_res (scoped_manifest_to_dict m) scoped_manifest_from_dict"

definition validate_scoped_manifest_start_binding ::
  "platform \<Rightarrow> scoped_manifest \<Rightarrow> scoped_evidence start_claimed \<Rightarrow> exec_error + unit" where
  "validate_scoped_manifest_start_binding pf m c = (let e = rv_evidence (sc_receipt c) in
     if mf_tenant_id m \<noteq> st_tenant_id e \<or> mf_workspace_id m \<noteq> st_workspace_id e
        \<or> mf_invocation_id m \<noteq> st_invocation_id e \<or> mf_session_id m \<noteq> st_session_id e
        \<or> mf_plan_id m \<noteq> st_plan_id e \<or> mf_task_id m \<noteq> st_task_id e \<or> mf_agent_id m \<noteq> st_agent_id e
        \<or> mf_job_idempotency_key m \<noteq> st_job_idempotency_key e
        \<or> mf_envelope_digest m \<noteq> st_envelope_digest e \<or> mf_context_digest m \<noteq> st_context_digest e
        \<or> mf_authorization_digest m \<noteq> st_authorization_digest e
        \<or> mf_runtime_revision m \<noteq> st_runtime_revision e
        \<or> mf_correlation_id m \<noteq> st_correlation_id e \<or> mf_causation_id m \<noteq> st_causation_id e
       then Inl (ExValue ''scoped manifest does not match schema-3 start evidence'')
     else bind_res (scoped_manifest_digest pf m) (\<lambda>digest.
       if digest \<noteq> st_manifest_digest e \<or> digest \<noteq> wl_payload_digest (sc_lease c)
         then Inl (ExValue ''scoped manifest digest does not match schema-3 start authority'')
       else if mf_effect_class m \<noteq> EC_PURE
         then Inl (ExValue ''scoped heartbeat worker accepts only effectClass=pure'')
       else if mf_retry_class m \<noteq> RC_NEVER
         then Inl (ExValue ''scoped heartbeat worker accepts only retryClass=never'')
       else if st_attempt_number e \<noteq> 1 \<or> st_lease_epoch e \<noteq> 1 \<or> wl_max_attempts (sc_lease c) \<noteq> 1
         then Inl (ExValue ''scoped heartbeat worker accepts only first-attempt authority'')
       else Inr ()))"

definition scoped_worker_admission_init ::
  "platform \<Rightarrow> (scoped_evidence, scoped_manifest) worker_admission
     \<Rightarrow> exec_error + (scoped_evidence, scoped_manifest) worker_admission" where
  "scoped_worker_admission_init pf w =
     bind_res (check_scoped_claimed pf (wd_claim w)) (\<lambda>claim.
     bind_res (scoped_manifest_snapshot (wd_manifest w)) (\<lambda>m.
     bind_res (configuration_snapshot (wd_configuration w)) (\<lambda>conf.
     bind_res (worker_revision (wd_handler_revision w)) (\<lambda>revision.
     bind_res (validate_scoped_manifest_start_binding pf m claim) (\<lambda>_.
     if revision \<noteq> mf_runtime_revision m
       then Inl (ExValue ''handler revision does not match the scoped runtime revision'')
     else Inr \<lparr>wd_claim = claim, wd_manifest = m, wd_configuration = conf,
       wd_handler_revision = revision\<rparr>)))))"

section \<open>The gate\<close>

datatype worker_dispatch = Worker_Disabled

definition dispatch_enabled :: bool where
  "dispatch_enabled = False"

definition gate_dispatch :: "'a \<Rightarrow> 'b \<Rightarrow> worker_dispatch" where
  "gate_dispatch admission handler = Worker_Disabled"

definition gate_prepare ::
  "platform \<Rightarrow> start_evidence start_claimed \<Rightarrow> manifest \<Rightarrow> worker_configuration \<Rightarrow> string
     \<Rightarrow> exec_error + (start_evidence, manifest) worker_admission" where
  "gate_prepare pf claim m conf revision = worker_admission_init pf
     \<lparr>wd_claim = claim, wd_manifest = m, wd_configuration = conf, wd_handler_revision = revision\<rparr>"

definition gate_prepare_scoped ::
  "platform \<Rightarrow> scoped_evidence start_claimed \<Rightarrow> scoped_manifest \<Rightarrow> worker_configuration \<Rightarrow> string
     \<Rightarrow> exec_error + (scoped_evidence, scoped_manifest) worker_admission" where
  "gate_prepare_scoped pf claim m conf revision = scoped_worker_admission_init pf
     \<lparr>wd_claim = claim, wd_manifest = m, wd_configuration = conf, wd_handler_revision = revision\<rparr>"

text \<open>
  What the gate admits: exactly a scoped manifest and a claimed start that agree in every identity and
  digest, for pure work that is never retried, on its first attempt, with a timing policy under which
  the handler and the drain end within the lease and three heartbeats fit in it.
\<close>

lemma scoped_receipt_init_same:
  assumes "scoped_receipt_init (dict_get (scoped_receipt_wire r)) (rv_evidence r) = Inr r'"
  shows "r' = r"
  using assms scoped_evidence_codec.encoded_decodes
  by (cases r) (auto simp: scoped_receipt_init_def scoped_receipt_wire_def dict_get_def res_simps exec_text_iff
      sqlite_positive_iff scoped_evidence_encode scoped_evidence_decode split: if_splits)

lemma scoped_receipt_decode_wire:
  assumes "scoped_receipt_to_dict r = Inr v"
  shows "scoped_receipt_from_dict v = Inr r"
proof -
  have v: "v = JObj (scoped_receipt_wire r)" and e: "scoped_evidence_to_dict (rv_evidence r) = Inr (JObj (scoped_evidence_wire (rv_evidence r)))"
    and made: "scoped_receipt_init (dict_get (scoped_receipt_wire r)) (rv_evidence r) = Inr r"
    using assms scoped_receipt_init_same
    by (auto simp: scoped_receipt_to_dict_def check_scoped_receipt_def scoped_evidence_to_dict_def res_simps)
  have "scoped_evidence_from_dict (dict_get (scoped_receipt_wire r) ''evidence'') = Inr (rv_evidence r)"
    using e scoped_evidence_codec.encoded_decodes
    by (auto simp: scoped_receipt_wire_def dict_get_def scoped_evidence_encode scoped_evidence_decode)
  moreover have "map fst (scoped_receipt_wire r) = start_receipt_fields"
    by (simp add: scoped_receipt_wire_def start_receipt_fields_def)
  ultimately show ?thesis
    using made by (simp add: v scoped_receipt_from_dict_def exact_dict_def scoped_receipt_from_raw_def)
qed

lemma scoped_receipt_snapshot_same: "scoped_receipt_snapshot r = Inr r' \<Longrightarrow> r' = r"
  using scoped_receipt_decode_wire by (auto simp: scoped_receipt_snapshot_def res_simps)

lemma lease_snapshot_same: "lease_snapshot l = Inr l' \<Longrightarrow> l' = l"
  by (auto simp: lease_snapshot_def res_simps split: if_splits)

lemma check_scoped_claimed_same: "check_scoped_claimed pf c = Inr c' \<Longrightarrow> c' = c"
  by (cases c) (auto simp: check_scoped_claimed_def res_simps
      dest!: scoped_receipt_snapshot_same lease_snapshot_same)

lemma scoped_manifest_snapshot_iff: "scoped_manifest_snapshot m = Inr m' \<longleftrightarrow>
    m' = m \<and> (\<exists>v. scoped_manifest_to_dict m = Inr v)"
  using scoped_manifest_codec.encoded_decodes
  by (auto simp: scoped_manifest_snapshot_def res_simps scoped_manifest_encode scoped_manifest_decode)

lemma duration_iff: "duration (PyFloat q) label = Inr q' \<longleftrightarrow> q' = q \<and> 0 < q"
  by (auto simp: duration_def)

definition timing_fits :: "worker_configuration \<Rightarrow> bool" where
  "timing_fits c = (0 < wc_heartbeat_interval_seconds c \<and> 0 < wc_handler_timeout_seconds c
     \<and> 0 < wc_drain_timeout_seconds c
     \<and> wc_heartbeat_interval_seconds c \<le> to_double (wc_lease_seconds c / 3)
     \<and> wc_handler_timeout_seconds c < wc_lease_seconds c
     \<and> wc_drain_timeout_seconds c \<le> to_double (wc_lease_seconds c - wc_handler_timeout_seconds c))"

lemma configuration_snapshot_iff: "configuration_snapshot c = Inr c' \<longleftrightarrow> c' = c \<and> timing_fits c"
  by (cases c) (auto simp: configuration_snapshot_def worker_configuration_init_def duration_iff res_simps
      timing_fits_def not_less not_le split: if_splits)

lemma worker_revision_iff: "worker_revision s = Inr s' \<longleftrightarrow> s' = s \<and> ok_text s"
  by (auto simp: worker_revision_def ok_text_def split: if_splits)

lemma manifest_revision_ok: "scoped_manifest_to_dict m = Inr v \<Longrightarrow> ok_text (mf_runtime_revision m)"
  by (auto simp: scoped_manifest_to_dict_def check_scoped_manifest_def scoped_manifest_init_def
      scoped_manifest_wire_def dict_get_def res_simps exec_text_iff)

definition describes :: "scoped_manifest \<Rightarrow> scoped_evidence \<Rightarrow> bool" where
  "describes m e =
     (map (\<lambda>f. f m) [mf_tenant_id, mf_workspace_id, mf_invocation_id, mf_session_id, mf_plan_id, mf_task_id,
        mf_agent_id, mf_job_idempotency_key, mf_envelope_digest, mf_context_digest,
        mf_authorization_digest, mf_runtime_revision, mf_correlation_id, mf_causation_id]
      = map (\<lambda>f. f e) [st_tenant_id, st_workspace_id, st_invocation_id, st_session_id, st_plan_id, st_task_id,
        st_agent_id, st_job_idempotency_key, st_envelope_digest, st_context_digest,
        st_authorization_digest, st_runtime_revision, st_correlation_id, st_causation_id])"

lemma retry_class_never: "(r :: retry_class) = RC_NEVER"
  by (cases r)

text \<open>C19. The gate prepares a scoped start exactly when the claim is valid, the manifest is valid and
  describes the same work in all fourteen identities and digests, its digest is the one in the start
  evidence, the effect is pure, this is attempt 1 of lease epoch 1, the handler runs the revision that
  was admitted, and the timings fit: they are positive, the heartbeat interval is at most the double
  nearest to a third of the lease, the handler timeout is below the lease and the drain timeout at most
  the double nearest to what is left of it (the comparisons are those of the code's floats). What is
  prepared is what was given.\<close>

theorem gate_admits_exactly:
  "gate_prepare_scoped pf claim m conf revision = Inr w \<longleftrightarrow>
     w = \<lparr>wd_claim = claim, wd_manifest = m, wd_configuration = conf, wd_handler_revision = revision\<rparr>
     \<and> (let e = rv_evidence (sc_receipt claim) in
      (\<exists>c. check_scoped_claimed pf claim = Inr c) \<and> (\<exists>v. scoped_manifest_to_dict m = Inr v) \<and> describes m e
      \<and> scoped_manifest_digest pf m = Inr (st_manifest_digest e) \<and> mf_effect_class m = EC_PURE
      \<and> st_attempt_number e = 1 \<and> st_lease_epoch e = 1
      \<and> revision = mf_runtime_revision m \<and> timing_fits conf)"
proof (cases "(\<exists>c. check_scoped_claimed pf claim = Inr c) \<and> (\<exists>v. scoped_manifest_to_dict m = Inr v)")
  case True
  then obtain v where c: "check_scoped_claimed pf claim = Inr claim" and v: "scoped_manifest_to_dict m = Inr v"
    using check_scoped_claimed_same by blast
  have lease: "wl_payload_digest (sc_lease claim) = st_manifest_digest (rv_evidence (sc_receipt claim))"
    "wl_max_attempts (sc_lease claim) = 1"
    using c by (auto simp: check_scoped_claimed_def validate_scoped_start_lease_binding_def Let_def res_simps
        dest!: scoped_receipt_snapshot_same lease_snapshot_same split: if_splits)
  show ?thesis
    using c v lease manifest_revision_ok [OF v]
    by (auto simp: gate_prepare_scoped_def scoped_worker_admission_init_def Let_def res_simps
        scoped_manifest_snapshot_iff configuration_snapshot_iff worker_revision_iff describes_def
        validate_scoped_manifest_start_binding_def retry_class_never split: if_splits)
next
  case False
  then show ?thesis
    by (auto simp: gate_prepare_scoped_def scoped_worker_admission_init_def Let_def res_simps
        scoped_manifest_snapshot_iff)
qed

end
