(* ===== verification/Canonical_Admission.thy ===== *)
theory Canonical_Admission
  imports Event_Log Attempt_Leases Invocation_Admission
begin

text \<open>
  The atomic admission of an invocation in \<open>store.py\<close>: one transaction that appends the events of a
  request, enqueues its job and writes the receipt that binds the two; a retry is answered from the
  receipt. The three tables share a database, so the state is the record of the three.

  An instant of the queue is an \<open>int\<close>, the text that \<open>isoformat\<close> gives it is \<open>pf_time_text\<close>. A row of
  \<open>invocation_admissions\<close> keeps the list that \<open>event_ids_json\<close> denotes.
\<close>

datatype ledger_error = Lg_Conflict string | Lg_Start_Conflict | Lg_Integrity string
  | Lg_Concurrency string | Lg_Value string | Lg_Runtime string | Lg_Event event_error
  | Lg_Queue store_error | Lg_Transaction | Lg_Ambiguous | Lg_Poisoned

record admission_row =
  ar_format :: string
  ar_invocation_id :: string
  ar_session_id :: string
  ar_task_id :: string
  ar_stream_id :: string
  ar_job_idempotency_key :: string
  ar_original_version :: int
  ar_event_count :: int
  ar_event_ids :: "string list"
  ar_first_sequence :: int
  ar_last_sequence :: int
  ar_first_global_position :: int
  ar_last_global_position :: int
  ar_event_manifest_sha256 :: string
  ar_job_binding_sha256 :: string
  ar_admitted_at :: int

record canonical_db =
  cd_events :: "stored_event list"
  cd_queue :: job_store
  cd_admissions :: "admission_row list"

text \<open>Errors of the two lower layers, raised as they are; an error of SQLite ends the transaction.\<close>

definition raise_event :: "event_error \<Rightarrow> ledger_error" where
  "raise_event e = (case e of EvUnique s \<Rightarrow> Lg_Transaction | EvFull \<Rightarrow> Lg_Transaction
     | EvConcurrency s \<Rightarrow> Lg_Concurrency s | EvIntegrity s \<Rightarrow> Lg_Integrity s | _ \<Rightarrow> Lg_Event e)"

definition raise_queue :: "store_error \<Rightarrow> ledger_error" where
  "raise_queue e = (case e of StoreUnique s \<Rightarrow> Lg_Transaction | _ \<Rightarrow> Lg_Queue e)"

definition map_err :: "('e \<Rightarrow> 'f) \<Rightarrow> 'e + 'a \<Rightarrow> 'f + 'a" where
  "map_err f r = (case r of Inl e \<Rightarrow> Inl (f e) | Inr a \<Rightarrow> Inr a)"

section \<open>What a receipt binds\<close>

text \<open>The text of UTF-8 bytes, for the stored JSON text of a payload.\<close>

fun utf8_decode :: "string \<Rightarrow> string" where
  "utf8_decode [] = []"
| "utf8_decode [c] = [c]"
| "utf8_decode (c # d # s) =
     (if (of_char c :: nat) < 128 then c # utf8_decode (d # s)
      else char_of ((of_char c - 192) * 64 + (of_char d - 128) :: nat) # utf8_decode s)"

definition payload_text :: "platform \<Rightarrow> json \<Rightarrow> string" where
  "payload_text pf v = utf8_decode (canonical_bytes pf v)"

definition event_manifest_sha256 :: "platform \<Rightarrow> domain_event list \<Rightarrow> string" where
  "event_manifest_sha256 pf batch = canonical_digest pf (JArr (map (\<lambda>e. JArr
     [JStr (ev_stream_id e), JStr (ev_event_type e), JStr (ev_actor_id e), JStr (ev_event_id e),
      JStr (ev_timestamp e), jopt JStr (ev_correlation_id e), jopt JStr (ev_causation_id e),
      jopt JStr (ev_idempotency_key e), JStr (payload_text pf (ev_payload e))]) batch))"

definition job_binding_sha256 :: "platform \<Rightarrow> job_spec \<Rightarrow> string" where
  "job_binding_sha256 pf s = canonical_digest pf (JArr
     [JStr (sp_invocation_id s), JStr (sp_session_id s), JStr (sp_plan_id s), JStr (sp_task_id s),
      JStr (sp_agent_id s), JStr (sp_idempotency_key s), JStr (sp_payload_digest s),
      JInt (sp_priority s), JInt (sp_max_attempts s),
      jopt (\<lambda>t. JStr (pf_time_text pf t)) (sp_available_at s)])"

definition spec_from_job :: "job \<Rightarrow> job_spec" where
  "spec_from_job j = \<lparr>sp_session_id = jb_session_id j, sp_plan_id = jb_plan_id j,
     sp_task_id = jb_task_id j, sp_agent_id = jb_agent_id j,
     sp_idempotency_key = jb_idempotency_key j, sp_payload_digest = jb_payload_digest j,
     sp_invocation_id = jb_invocation_id j, sp_priority = jb_priority j,
     sp_max_attempts = jb_max_attempts j, sp_available_at = jb_requested_available_at j\<rparr>"

definition admission_format :: string where
  "admission_format = ''qe.invocation-admission-receipt/1''"

definition persisted_count :: "int \<Rightarrow> int \<Rightarrow> bool" where
  "persisted_count minimum n = (minimum \<le> n \<and> n \<le> max_row_integer)"

definition admission_row_ok :: "admission_row \<Rightarrow> bool" where
  "admission_row_ok r =
     (ar_format r = admission_format
      \<and> list_all (\<lambda>s. \<not> blank s) [ar_invocation_id r, ar_session_id r, ar_task_id r, ar_stream_id r,
          ar_job_idempotency_key r]
      \<and> persisted_count 0 (ar_original_version r) \<and> persisted_count 1 (ar_event_count r)
      \<and> int (length (ar_event_ids r)) = ar_event_count r
      \<and> list_all (\<lambda>s. \<not> blank s) (ar_event_ids r) \<and> distinct (ar_event_ids r)
      \<and> list_all (persisted_count 1) [ar_first_sequence r, ar_last_sequence r,
          ar_first_global_position r, ar_last_global_position r]
      \<and> sha256_text (ar_event_manifest_sha256 r) \<and> sha256_text (ar_job_binding_sha256 r)
      \<and> ar_stream_id r = ''session:'' @ ar_session_id r
      \<and> ar_first_sequence r = ar_original_version r + 1
      \<and> ar_last_sequence r = ar_original_version r + ar_event_count r
      \<and> ar_last_global_position r = ar_first_global_position r + ar_event_count r - 1)"

definition row_to_admission :: "admission_row \<Rightarrow> ledger_error + admission_row" where
  "row_to_admission r = (if admission_row_ok r then Inr r
     else Inl (Lg_Integrity ''persisted invocation admission receipt is malformed''))"

section \<open>Validation of a receipt\<close>

fun bound_events ::
  "event_config \<Rightarrow> admission_row \<Rightarrow> int \<Rightarrow> stored_event list \<Rightarrow> string list
   \<Rightarrow> ledger_error + (stored_event \<times> domain_event) list" where
  "bound_events cf receipt offset rows [] = Inr []"
| "bound_events cf receipt offset rows (event_id # ids) =
     (case filter (\<lambda>r. ev_event_id (se_event r) = event_id) rows of
        [] \<Rightarrow> Inl (Lg_Integrity ''invocation admission receipt refers to a missing event'')
      | r # _ \<Rightarrow>
          bind_res (map_err raise_event (row_to_event cf r)) (\<lambda>stored.
          bind_res (map_err (\<lambda>_. Lg_Integrity ''invocation admission receipt refers to a malformed event'')
            (snapshot_event cf (se_event stored))) (\<lambda>snapshot.
          if ev_stream_id (se_event stored) \<noteq> ar_stream_id receipt
             \<or> se_sequence stored \<noteq> ar_first_sequence receipt + offset
             \<or> se_global_position stored \<noteq> ar_first_global_position receipt + offset
            then Inl (Lg_Integrity ''invocation admission receipt event range is inconsistent'')
          else bind_res (bound_events cf receipt (offset + 1) rows ids)
            (\<lambda>rest. Inr ((stored, snapshot) # rest)))))"

definition validate_admission ::
  "event_config \<Rightarrow> canonical_db \<Rightarrow> admission_row
   \<Rightarrow> ledger_error + admission_row \<times> stored_event list \<times> job" where
  "validate_admission cf db row =
     (let pf = cf_platform cf in
      bind_res (row_to_admission row) (\<lambda>receipt.
      case row_of jb_invocation_id (ar_invocation_id receipt) (js_jobs (cd_queue db)) of
        None \<Rightarrow> Inl (Lg_Integrity ''invocation admission receipt refers to a missing job'')
      | Some job_row \<Rightarrow>
          bind_res (map_err (\<lambda>_. Lg_Integrity ''invocation admission receipt refers to a malformed job'')
            (bind_res (row_to_job job_row) (\<lambda>j. bind_res (check_job_spec (spec_from_job j)) (\<lambda>_. Inr j))))
            (\<lambda>j.
          if jb_session_id j \<noteq> ar_session_id receipt \<or> jb_task_id j \<noteq> ar_task_id receipt
             \<or> jb_idempotency_key j \<noteq> ar_job_idempotency_key receipt
             \<or> jb_created_at j \<noteq> ar_admitted_at receipt
             \<or> job_binding_sha256 pf (spec_from_job j) \<noteq> ar_job_binding_sha256 receipt
            then Inl (Lg_Integrity ''invocation admission receipt job binding is inconsistent'')
          else bind_res (bound_events cf receipt 0 (cd_events db) (ar_event_ids receipt)) (\<lambda>pairs.
            if se_sequence (fst (List.last pairs)) \<noteq> ar_last_sequence receipt
               \<or> se_global_position (fst (List.last pairs)) \<noteq> ar_last_global_position receipt
               \<or> event_manifest_sha256 pf (map snd pairs) \<noteq> ar_event_manifest_sha256 receipt
              then Inl (Lg_Integrity ''invocation admission receipt event manifest is inconsistent'')
            else Inr (receipt, map fst pairs, j)))))"

section \<open>The admission\<close>

fun check_event_batch :: "string list \<Rightarrow> string list \<Rightarrow> domain_event list \<Rightarrow> ledger_error + unit" where
  "check_event_batch ids keys [] = Inr ()"
| "check_event_batch ids keys (e # es) =
     (if ev_event_id e \<in> set ids
        then Inl (Lg_Conflict ''invocation admission repeats an event_id'')
      else case ev_idempotency_key e of
        None \<Rightarrow> check_event_batch (ev_event_id e # ids) keys es
      | Some k \<Rightarrow>
          if k \<in> set keys
            then Inl (Lg_Conflict ''invocation admission repeats an event idempotency_key'')
          else check_event_batch (ev_event_id e # ids) (k # keys) es)"

definition same_admission :: "job_spec \<Rightarrow> admission_row \<Rightarrow> bool" where
  "same_admission s r =
     (ar_invocation_id r = sp_invocation_id s
      \<or> (ar_session_id r = sp_session_id s \<and> ar_task_id r = sp_task_id s)
      \<or> (ar_session_id r = sp_session_id s \<and> ar_job_idempotency_key r = sp_idempotency_key s))"

definition unproven_event :: "domain_event \<Rightarrow> stored_event \<Rightarrow> bool" where
  "unproven_event e r = (ev_event_id (se_event r) = ev_event_id e \<or> same_key_event e r)"

fun append_batch ::
  "event_config \<Rightarrow> domain_event list \<Rightarrow> int \<Rightarrow> stored_event list
   \<Rightarrow> ledger_error + stored_event list \<times> stored_event list" where
  "append_batch cf [] version rows = Inr ([], rows)"
| "append_batch cf (e # es) version rows =
     bind_res (map_err raise_event (append_tx cf e (Some version) None rows)) (\<lambda>((s, inserted), rows').
     if \<not> inserted
       then Inl (Lg_Conflict ''invocation admission event appeared during its transaction'')
     else bind_res (append_batch cf es (version + 1) rows') (\<lambda>(ss, rows''). Inr (s # ss, rows'')))"

definition new_admission ::
  "platform \<Rightarrow> job_spec \<Rightarrow> domain_event list \<Rightarrow> int \<Rightarrow> stored_event list \<Rightarrow> int \<Rightarrow> admission_row" where
  "new_admission pf s batch version stored now = \<lparr>ar_format = admission_format,
     ar_invocation_id = sp_invocation_id s, ar_session_id = sp_session_id s, ar_task_id = sp_task_id s,
     ar_stream_id = ''session:'' @ sp_session_id s, ar_job_idempotency_key = sp_idempotency_key s,
     ar_original_version = version, ar_event_count = int (length stored),
     ar_event_ids = map ev_event_id batch,
     ar_first_sequence = se_sequence (hd stored), ar_last_sequence = se_sequence (List.last stored),
     ar_first_global_position = se_global_position (hd stored),
     ar_last_global_position = se_global_position (List.last stored),
     ar_event_manifest_sha256 = event_manifest_sha256 pf batch,
     ar_job_binding_sha256 = job_binding_sha256 pf s, ar_admitted_at = now\<rparr>"

text \<open>The \<open>CHECK\<close> constraints of the table that the inserted values do not meet by construction.\<close>

definition insert_admission :: "admission_row \<Rightarrow> admission_row list \<Rightarrow> ledger_error + admission_row list" where
  "insert_admission r rows =
     (if \<not> sha256_text (ar_event_manifest_sha256 r) \<or> \<not> sha256_text (ar_job_binding_sha256 r)
        then Inl Lg_Transaction else Inr (rows @ [r]))"

type_synonym admission_result = "stored_event list \<times> job"

definition retry_admission ::
  "event_config \<Rightarrow> canonical_db \<Rightarrow> admission_row \<Rightarrow> domain_event list \<Rightarrow> job_spec \<Rightarrow> int option
   \<Rightarrow> ledger_error + admission_result" where
  "retry_admission cf db row batch s expected =
     (let pf = cf_platform cf in
      if ar_invocation_id row \<noteq> sp_invocation_id s
        then Inl (Lg_Conflict ''invocation admission identity is already bound differently'')
      else bind_res (validate_admission cf db row) (\<lambda>(receipt, existing, j).
        if ar_session_id receipt \<noteq> sp_session_id s \<or> ar_task_id receipt \<noteq> sp_task_id s
           \<or> ar_stream_id receipt \<noteq> ''session:'' @ sp_session_id s
           \<or> ar_job_idempotency_key receipt \<noteq> sp_idempotency_key s
           \<or> ar_event_ids receipt \<noteq> map ev_event_id batch
           \<or> ar_event_manifest_sha256 receipt \<noteq> event_manifest_sha256 pf batch
           \<or> ar_job_binding_sha256 receipt \<noteq> job_binding_sha256 pf s
           \<or> map (\<lambda>x. (se_event x)\<lparr>ev_payload := py_value (ev_payload (se_event x))\<rparr>) existing
             \<noteq> map (\<lambda>e. e\<lparr>ev_payload := py_value (ev_payload e)\<rparr>) batch
          then Inl (Lg_Conflict ''invocation admission receipt is bound to different work'')
        else if \<not> pred_option (\<lambda>v. v = ar_original_version receipt) expected
          then Inl (Lg_Concurrency ''stream expected version but admission began at another'')
        else Inr (existing, j)))"

definition first_admission ::
  "event_config \<Rightarrow> canonical_db \<Rightarrow> domain_event list \<Rightarrow> job_spec \<Rightarrow> int option \<Rightarrow> int
   \<Rightarrow> ledger_error + admission_result \<times> canonical_db" where
  "first_admission cf db batch s expected now =
     (let stream = ''session:'' @ sp_session_id s; version = version_of stream (cd_events db) in
      if list_ex (\<lambda>e. list_ex (unproven_event e) (cd_events db)) batch
        then Inl (Lg_Conflict ''partial or unproven events without a durable receipt'')
      else if list_ex (same_identity s) (js_jobs (cd_queue db))
        then Inl (Lg_Conflict ''partial or unproven job without a durable receipt'')
      else if \<not> pred_option (\<lambda>v. v = version) expected
        then Inl (Lg_Concurrency ''stream expected version'')
      else bind_res (append_batch cf batch version (cd_events db)) (\<lambda>(stored, rows).
        if map se_global_position stored
             \<noteq> map (\<lambda>i. se_global_position (hd stored) + int i) [0..<length stored]
          then Inl (Lg_Integrity ''invocation admission events did not receive a contiguous range'')
        else bind_res (map_err raise_queue (enqueue s now (cd_queue db))) (\<lambda>(_, queue).
          let receipt = new_admission (cf_platform cf) s batch version stored now in
          bind_res (insert_admission receipt (cd_admissions db)) (\<lambda>admissions.
          let db' = \<lparr>cd_events = rows, cd_queue = queue, cd_admissions = admissions\<rparr> in
          bind_res (validate_admission cf db' receipt) (\<lambda>(_, verified, j). Inr ((verified, j), db'))))))"

text \<open>What is refused before the transaction, and the transaction itself.\<close>

definition check_admission ::
  "event_config \<Rightarrow> domain_event list \<Rightarrow> job_spec \<Rightarrow> int option
   \<Rightarrow> ledger_error + domain_event list \<times> job_spec \<times> int option" where
  "check_admission cf events s expected =
     bind_res (map_err raise_event (map_res (snapshot_event cf) events)) (\<lambda>batch.
     bind_res (map_err raise_queue (check_job_spec s)) (\<lambda>s.
     bind_res (map_err raise_event (check_option check_row_integer expected)) (\<lambda>expected.
     if batch = [] then Inl (Lg_Value ''invocation admission requires at least one event'')
     else if list_ex (\<lambda>e. ev_stream_id e \<noteq> ''session:'' @ sp_session_id s) batch
       then Inl (Lg_Value ''all admission events must use session:<spec.session_id> as stream_id'')
     else bind_res (check_event_batch [] [] batch) (\<lambda>_. Inr (batch, s, expected)))))"

definition admission_tx ::
  "event_config \<Rightarrow> domain_event list \<Rightarrow> job_spec \<Rightarrow> int option \<Rightarrow> int \<Rightarrow> canonical_db
   \<Rightarrow> ledger_error + admission_result \<times> canonical_db" where
  "admission_tx cf batch s expected now db =
     (case filter (same_admission s) (cd_admissions db) of
        [] \<Rightarrow> first_admission cf db batch s expected now
      | [row] \<Rightarrow> bind_res (retry_admission cf db row batch s expected) (\<lambda>result. Inr (result, db))
      | _ \<Rightarrow> Inl (Lg_Conflict ''invocation admission identities are bound to different receipts''))"

definition append_invocation_admission ::
  "event_config \<Rightarrow> domain_event list \<Rightarrow> job_spec \<Rightarrow> int option \<Rightarrow> int \<Rightarrow> canonical_db
   \<Rightarrow> ledger_error + admission_result \<times> canonical_db" where
  "append_invocation_admission cf events s expected now db =
     bind_res (check_admission cf events s expected) (\<lambda>(batch, s, expected).
       admission_tx cf batch s expected now db)"

text \<open>The canonical entry points: the components of a request, through the same boundary.\<close>

definition append_task_invocation_admission ::
  "event_config \<Rightarrow> manifest admission_request \<Rightarrow> int \<Rightarrow> int \<Rightarrow> canonical_db
   \<Rightarrow> ledger_error + admission_result \<times> canonical_db" where
  "append_task_invocation_admission cf request expected now db =
     bind_res (map_err raise_event (check_cursor expected)) (\<lambda>expected.
     bind_res (map_err (\<lambda>_. Lg_Value ''request'') (admission_components (cf_platform cf) request)) (\<lambda>(events, spec).
     bind_res (map_err (\<lambda>_. Lg_Value ''request'') (admission_validate (cf_platform cf) request events spec)) (\<lambda>_.
       append_invocation_admission cf events (store_spec spec) (Some expected) now db)))"

definition append_scoped_task_invocation_admission ::
  "event_config \<Rightarrow> scoped_manifest admission_request \<Rightarrow> int \<Rightarrow> int \<Rightarrow> canonical_db
   \<Rightarrow> ledger_error + admission_result \<times> canonical_db" where
  "append_scoped_task_invocation_admission cf request expected now db =
     bind_res (map_err raise_event (check_cursor expected)) (\<lambda>expected.
     bind_res (map_err (\<lambda>_. Lg_Value ''request'') (scoped_admission_components (cf_platform cf) request)) (\<lambda>(events, spec).
     bind_res (map_err (\<lambda>_. Lg_Value ''request'') (scoped_admission_validate (cf_platform cf) request events spec)) (\<lambda>_.
       append_invocation_admission cf events (store_spec spec) (Some expected) now db)))"

end
