(* ===== verification/Canonical_Start.thy ===== *)
theory Canonical_Start
  imports Canonical_Admission
begin

text \<open>
  The first start of an admitted invocation in \<open>store.py\<close>: under one transaction the claim takes the
  lease of the queue, appends the start event and reads both back; a start that is already there is
  only observed. The code has the same steps twice, for the schema without scope and the scoped one:
  they are written once over the operations of a schema (\<open>start_schema\<close>) and instantiated twice.

  The lease of the queue has instants, its wire form their texts. The outcome of \<open>BEGIN\<close>,
  \<open>COMMIT\<close> and \<open>ROLLBACK\<close> is an argument; control signals and the guards of a forked process have no
  counterpart.
\<close>

record ('x, 'y) start_schema =
  ss_from_components :: "domain_event list \<Rightarrow> request_job_spec \<Rightarrow> exec_error + 'x manifest_scheme admission_request"
  ss_digest :: "'x manifest_scheme \<Rightarrow> exec_error + string"
  ss_decode :: "string \<Rightarrow> json \<Rightarrow> exec_error + 'y start_evidence_scheme"
  ss_encode :: "'y start_evidence_scheme \<Rightarrow> exec_error + json"
  ss_version :: int
  ss_same_scope :: "'x manifest_scheme \<Rightarrow> 'y start_evidence_scheme \<Rightarrow> bool"
  ss_scoped :: "'x manifest_scheme \<Rightarrow> start_evidence \<Rightarrow> 'y start_evidence_scheme"
  ss_evidence :: "'y start_evidence_scheme \<Rightarrow> exec_error + 'y start_evidence_scheme"
  ss_receipt :: "'y start_evidence_scheme start_receipt \<Rightarrow> exec_error + 'y start_evidence_scheme start_receipt"
  ss_claimed :: "'y start_evidence_scheme start_claimed \<Rightarrow> exec_error + 'y start_evidence_scheme start_claimed"
  ss_observed :: "'y start_evidence_scheme start_receipt \<Rightarrow> exec_error + 'y start_evidence_scheme start_receipt"

definition plain_schema :: "platform \<Rightarrow> (unit, unit) start_schema" where
  "plain_schema pf = \<lparr>ss_from_components = admission_from_components pf, ss_digest = manifest_digest pf,
     ss_decode = start_evidence_from_event, ss_encode = start_evidence_to_dict, ss_version = 2,
     ss_same_scope = (\<lambda>m e. True), ss_scoped = (\<lambda>m e. e), ss_evidence = check_start_evidence,
     ss_receipt = check_start_receipt, ss_claimed = check_claimed pf, ss_observed = check_observed\<rparr>"

definition scoped_schema :: "platform \<Rightarrow> (\<lparr>mf_tenant_id :: string, mf_workspace_id :: string\<rparr>,
    \<lparr>st_tenant_id :: string, st_workspace_id :: string\<rparr>) start_schema" where
  "scoped_schema pf = \<lparr>ss_from_components = scoped_admission_from_components pf,
     ss_digest = scoped_manifest_digest pf, ss_decode = scoped_evidence_from_event,
     ss_encode = scoped_evidence_to_dict, ss_version = 3,
     ss_same_scope = (\<lambda>m e. st_tenant_id e = mf_tenant_id m \<and> st_workspace_id e = mf_workspace_id m),
     ss_scoped = (\<lambda>m e. start_evidence.extend e
        (scoped_evidence.fields (mf_tenant_id m) (mf_workspace_id m))),
     ss_evidence = check_scoped_evidence, ss_receipt = check_scoped_receipt,
     ss_claimed = check_scoped_claimed pf, ss_observed = check_scoped_observed\<rparr>"

section \<open>Loading a start\<close>

text \<open>Every defect of the durable state on this path is one conflict.\<close>

definition or_conflict :: "'e + 'a \<Rightarrow> ledger_error + 'a" where
  "or_conflict r = map_err (\<lambda>_. Lg_Start_Conflict) r"

definition request_spec_from_job :: "platform \<Rightarrow> job \<Rightarrow> request_job_spec" where
  "request_spec_from_job pf j = \<lparr>rs_session_id = jb_session_id j, rs_plan_id = jb_plan_id j,
     rs_task_id = jb_task_id j, rs_agent_id = jb_agent_id j,
     rs_idempotency_key = jb_idempotency_key j, rs_payload_digest = jb_payload_digest j,
     rs_invocation_id = jb_invocation_id j, rs_priority = jb_priority j,
     rs_max_attempts = jb_max_attempts j,
     rs_available_at = map_option (pf_time_text pf) (jb_requested_available_at j)\<rparr>"

definition canonical_admission ::
  "('x, 'y) start_schema \<Rightarrow> event_config \<Rightarrow> canonical_db \<Rightarrow> admission_row \<Rightarrow> string
   \<Rightarrow> ledger_error + admission_row \<times> 'x manifest_scheme admission_request \<times> job" where
  "canonical_admission ss cf db row invocation =
     bind_res (or_conflict (validate_admission cf db row)) (\<lambda>(receipt, stored, j).
     if ar_invocation_id receipt \<noteq> invocation then Inl Lg_Start_Conflict
     else bind_res (or_conflict (ss_from_components ss (map se_event stored)
            (request_spec_from_job (cf_platform cf) j))) (\<lambda>request.
       if mf_invocation_id (adm_manifest request) \<noteq> invocation then Inl Lg_Start_Conflict
       else bind_res (or_conflict (ss_digest ss (adm_manifest request))) (\<lambda>digest.
         if digest \<noteq> jb_payload_digest j then Inl Lg_Start_Conflict
         else Inr (receipt, request, j))))"

definition start_key :: "string \<Rightarrow> string" where
  "start_key invocation = ''invocation-start:'' @ invocation @ '':1''"

definition legacy_start_key :: "string \<Rightarrow> string" where
  "legacy_start_key task = ''invocation-started:'' @ task"

definition start_row :: "string \<Rightarrow> string \<Rightarrow> stored_event \<Rightarrow> bool" where
  "start_row invocation task r =
     (ev_event_type (se_event r) = ''task.invocation.started''
      \<or> ev_idempotency_key (se_event r) = Some (start_key invocation)
      \<or> ev_idempotency_key (se_event r) = Some (legacy_start_key task))"

definition payload_is :: "json \<Rightarrow> string \<Rightarrow> string \<Rightarrow> bool" where
  "payload_is v key expected = (case v of JObj d \<Rightarrow> map_of d key = Some (JStr expected) | _ \<Rightarrow> False)"

definition relevant_start :: "string \<Rightarrow> string \<Rightarrow> stored_event \<Rightarrow> bool" where
  "relevant_start invocation task s =
     (let e = se_event s in
      ev_idempotency_key e = Some (start_key invocation) \<or> ev_idempotency_key e = Some (legacy_start_key task)
      \<or> payload_is (ev_payload e) ''invocationId'' invocation
      \<or> payload_is (ev_payload e) ''invocation_id'' invocation
      \<or> payload_is (ev_payload e) ''taskId'' task \<or> payload_is (ev_payload e) ''task_id'' task)"

definition start_candidates ::
  "event_config \<Rightarrow> canonical_db \<Rightarrow> string \<Rightarrow> string \<Rightarrow> ledger_error + stored_event list" where
  "start_candidates cf db invocation task =
     bind_res (or_conflict (map_res (row_to_event cf)
       (sort_key se_global_position (filter (start_row invocation task) (cd_events db))))) (\<lambda>stored.
     let relevant = filter (relevant_start invocation task) stored in
     if length relevant > 1 then Inl Lg_Start_Conflict else Inr relevant)"

definition validate_unstarted :: "canonical_db \<Rightarrow> job \<Rightarrow> ledger_error + unit" where
  "validate_unstarted db j =
     (let rows = take 2 (attempts_of (jb_invocation_id j) (cd_queue db)) in
      if \<not> recovery_pair_ok j None (int (length rows)) then Inl Lg_Start_Conflict
      else if rows \<noteq> [] \<or> jb_status j \<noteq> IS_QUEUED \<or> jb_max_attempts j \<noteq> 1
         \<or> jb_attempts_started j \<noteq> 0 \<or> jb_lease_epoch j \<noteq> 0 \<or> jb_lease_owner j \<noteq> None
         \<or> jb_lease_token_digest j \<noteq> None \<or> jb_lease_expires_at j \<noteq> None \<or> jb_heartbeat_at j \<noteq> None
         \<or> jb_result_ref j \<noteq> None \<or> jb_last_error j \<noteq> None \<or> jb_finished_at j \<noteq> None
        then Inl Lg_Start_Conflict
      else Inr ())"

record ('x, 'y) start_readback =
  sr_admission :: admission_row
  sr_request :: "'x manifest_scheme admission_request"
  sr_job :: job
  sr_attempt :: attempt
  sr_event :: stored_event
  sr_receipt :: "'y start_evidence_scheme start_receipt"

text \<open>The four groups of comparisons of a readback, in the order of the code.\<close>

definition envelope_consistent ::
  "admission_row \<Rightarrow> 'x manifest_scheme \<Rightarrow> stored_event \<Rightarrow> 'y start_evidence_scheme \<Rightarrow> bool" where
  "envelope_consistent a m stored e =
     (let v = se_event stored in
      ev_stream_id v = ar_stream_id a \<and> ev_actor_id v = ''orchestrator''
      \<and> ev_idempotency_key v = Some (start_key (mf_invocation_id m))
      \<and> ev_timestamp v = st_claimed_at e \<and> ev_correlation_id v = Some (mf_correlation_id m)
      \<and> ev_causation_id v = Some (mf_causation_id m)
      \<and> ar_last_sequence a < se_sequence stored
      \<and> ar_last_global_position a < se_global_position stored)"

definition evidence_consistent ::
  "('x, 'y) start_schema \<Rightarrow> 'x manifest_scheme \<Rightarrow> string \<Rightarrow> job \<Rightarrow> 'y start_evidence_scheme \<Rightarrow> bool" where
  "evidence_consistent ss m digest j e =
     (st_schema_version e = ss_version ss \<and> ss_same_scope ss m e
      \<and> st_invocation_id e = mf_invocation_id m \<and> st_session_id e = mf_session_id m
      \<and> st_plan_id e = mf_plan_id m \<and> st_task_id e = mf_task_id m \<and> st_agent_id e = mf_agent_id m
      \<and> st_job_idempotency_key e = mf_job_idempotency_key m
      \<and> st_attempt_number e = 1 \<and> st_lease_epoch e = 1
      \<and> st_manifest_digest e = digest \<and> st_manifest_digest e = jb_payload_digest j
      \<and> st_envelope_digest e = mf_envelope_digest m \<and> st_context_digest e = mf_context_digest m
      \<and> st_authorization_digest e = mf_authorization_digest m
      \<and> st_runtime_revision e = mf_runtime_revision m
      \<and> st_correlation_id e = mf_correlation_id m \<and> st_causation_id e = mf_causation_id m)"

definition attempt_consistent ::
  "platform \<Rightarrow> job \<Rightarrow> attempt \<Rightarrow> 'y start_evidence_scheme \<Rightarrow> bool" where
  "attempt_consistent pf j a e =
     (jb_max_attempts j = 1 \<and> jb_attempts_started j = 1 \<and> jb_lease_epoch j = 1
      \<and> at_attempt_id a = st_attempt_id e \<and> at_invocation_id a = st_invocation_id e
      \<and> at_attempt_number a = st_attempt_number e \<and> at_lease_epoch a = st_lease_epoch e
      \<and> at_worker_id a = st_worker_id e \<and> at_lease_token_digest a = st_lease_token_digest e
      \<and> pf_time_text pf (at_started_at a) = st_claimed_at e
      \<and> st_claimed_at e \<le> pf_time_text pf (at_heartbeat_at a)
      \<and> st_lease_expires_at e \<le> pf_time_text pf (at_lease_expires_at a)
      \<and> st_claimed_at e \<le> pf_time_text pf (jb_updated_at j))"

definition freshly_owned :: "platform \<Rightarrow> job \<Rightarrow> attempt \<Rightarrow> 'y start_evidence_scheme \<Rightarrow> bool" where
  "freshly_owned pf j a e =
     (jb_status j = IS_RUNNING \<and> at_status a = AT_RUNNING
      \<and> jb_lease_owner j = Some (st_worker_id e)
      \<and> jb_lease_token_digest j = Some (st_lease_token_digest e)
      \<and> map_option (pf_time_text pf) (jb_heartbeat_at j) = Some (st_claimed_at e)
      \<and> map_option (pf_time_text pf) (jb_lease_expires_at j) = Some (st_lease_expires_at e)
      \<and> pf_time_text pf (jb_updated_at j) = st_claimed_at e
      \<and> pf_time_text pf (at_heartbeat_at a) = st_claimed_at e
      \<and> pf_time_text pf (at_lease_expires_at a) = st_lease_expires_at e)"

definition validate_start_readback ::
  "('x, 'y) start_schema \<Rightarrow> event_config \<Rightarrow> canonical_db \<Rightarrow> admission_row
   \<Rightarrow> 'x manifest_scheme admission_request \<Rightarrow> job \<Rightarrow> stored_event \<Rightarrow> bool
   \<Rightarrow> ledger_error + ('x, 'y) start_readback" where
  "validate_start_readback ss cf db admission request j stored fresh =
     (let m = adm_manifest request; pf = cf_platform cf; v = se_event stored in
      bind_res (or_conflict (ss_decode ss (ev_event_type v) (ev_payload v))) (\<lambda>e.
      if \<not> envelope_consistent admission m stored e then Inl Lg_Start_Conflict
      else bind_res (or_conflict (ss_digest ss m)) (\<lambda>digest.
        if \<not> evidence_consistent ss m digest j e then Inl Lg_Start_Conflict
        else (case take 2 (attempts_of (mf_invocation_id m) (cd_queue db)) of
            [row] \<Rightarrow> bind_res (or_conflict (row_to_attempt row)) (\<lambda>a.
              if \<not> recovery_pair_ok j (Some a) 1 then Inl Lg_Start_Conflict
              else if \<not> attempt_consistent pf j a e then Inl Lg_Start_Conflict
              else if fresh \<and> \<not> freshly_owned pf j a e then Inl Lg_Start_Conflict
              else bind_res (or_conflict (ss_receipt ss \<lparr>rv_event_id = ev_event_id v,
                  rv_stream_id = ev_stream_id v, rv_sequence = se_sequence stored,
                  rv_global_position = se_global_position stored, rv_evidence = e\<rparr>)) (\<lambda>receipt.
                Inr \<lparr>sr_admission = admission, sr_request = request, sr_job = j, sr_attempt = a,
                  sr_event = stored, sr_receipt = receipt\<rparr>))
          | _ \<Rightarrow> Inl Lg_Start_Conflict))))"

datatype ('x, 'y) start_state =
    Unstarted admission_row "'x manifest_scheme admission_request" job
  | Started "('x, 'y) start_readback"

definition load_start ::
  "('x, 'y) start_schema \<Rightarrow> event_config \<Rightarrow> canonical_db \<Rightarrow> string \<Rightarrow> bool
   \<Rightarrow> ledger_error + ('x, 'y) start_state option" where
  "load_start ss cf db invocation fresh =
     (case filter (\<lambda>r. ar_invocation_id r = invocation) (cd_admissions db) of
        [] \<Rightarrow>
          if list_ex (\<lambda>j. jb_invocation_id j = invocation) (js_jobs (cd_queue db))
             \<or> list_ex (\<lambda>r. ev_idempotency_key (se_event r) = Some (''execution-request:'' @ invocation)
                  \<or> ev_idempotency_key (se_event r) = Some (start_key invocation)) (cd_events db)
            then Inl Lg_Start_Conflict else Inr None
      | [row] \<Rightarrow>
          bind_res (canonical_admission ss cf db row invocation) (\<lambda>(admission, request, j).
          bind_res (start_candidates cf db (mf_invocation_id (adm_manifest request))
              (mf_task_id (adm_manifest request))) (\<lambda>candidates.
          (case candidates of
             [] \<Rightarrow> bind_res (validate_unstarted db j) (\<lambda>_. Inr (Some (Unstarted admission request j)))
           | stored # _ \<Rightarrow> bind_res (validate_start_readback ss cf db admission request j stored fresh)
               (\<lambda>r. Inr (Some (Started r))))))
      | _ \<Rightarrow> Inl Lg_Start_Conflict)"

definition read_start_tx ::
  "('x, 'y) start_schema \<Rightarrow> event_config \<Rightarrow> canonical_db \<Rightarrow> string \<Rightarrow> bool
   \<Rightarrow> ledger_error + ('x, 'y) start_readback option" where
  "read_start_tx ss cf db invocation fresh =
     bind_res (load_start ss cf db invocation fresh) (\<lambda>state.
       Inr (case state of Some (Started r) \<Rightarrow> Some r | _ \<Rightarrow> None))"

section \<open>Minting a start\<close>

record start_fresh =
  fr_now :: int
  fr_attempt_id :: string
  fr_event_id :: string
  fr_lease_token :: string

datatype 'e start_result = Claimed "'e start_claimed" | Observed "'e start_receipt"

definition caller_identity :: "string \<Rightarrow> bool" where
  "caller_identity s =
     (\<not> blank s \<and> s = py_strip s \<and> utf8_len s \<le> 4096 \<and> \<not> list_ex control_char s)"

definition wire_lease :: "platform \<Rightarrow> lease \<Rightarrow> worker_lease" where
  "wire_lease pf l = \<lparr>wl_invocation_id = ls_invocation_id l, wl_session_id = ls_session_id l,
     wl_plan_id = ls_plan_id l, wl_task_id = ls_task_id l, wl_agent_id = ls_agent_id l,
     wl_idempotency_key = ls_idempotency_key l, wl_payload_digest = ls_payload_digest l,
     wl_attempt_id = ls_attempt_id l, wl_attempt_number = ls_attempt_number l,
     wl_max_attempts = ls_max_attempts l, wl_lease_epoch = ls_lease_epoch l,
     wl_worker_id = ls_worker_id l, wl_lease_token = ls_lease_token l,
     wl_claimed_at = pf_time_text pf (ls_claimed_at l),
     wl_lease_expires_at = pf_time_text pf (ls_lease_expires_at l)\<rparr>"

definition first_lease_of :: "job \<Rightarrow> string \<Rightarrow> int \<Rightarrow> start_fresh \<Rightarrow> lease \<Rightarrow> bool" where
  "first_lease_of j worker deadline fresh l =
     (ls_invocation_id l = jb_invocation_id j \<and> ls_session_id l = jb_session_id j
      \<and> ls_plan_id l = jb_plan_id j \<and> ls_task_id l = jb_task_id j \<and> ls_agent_id l = jb_agent_id j
      \<and> ls_idempotency_key l = jb_idempotency_key j \<and> ls_payload_digest l = jb_payload_digest j
      \<and> ls_attempt_id l = fr_attempt_id fresh \<and> ls_attempt_number l = 1 \<and> ls_max_attempts l = 1
      \<and> ls_lease_epoch l = 1 \<and> ls_worker_id l = worker \<and> ls_lease_token l = fr_lease_token fresh
      \<and> ls_claimed_at l = fr_now fresh \<and> ls_lease_expires_at l = deadline)"

definition start_evidence_for ::
  "('x, 'y) start_schema \<Rightarrow> platform \<Rightarrow> 'x manifest_scheme \<Rightarrow> string \<Rightarrow> lease \<Rightarrow> 'y start_evidence_scheme" where
  "start_evidence_for ss pf m digest l = ss_scoped ss m \<lparr>st_schema_version = ss_version ss,
     st_invocation_id = mf_invocation_id m, st_session_id = mf_session_id m, st_plan_id = mf_plan_id m,
     st_task_id = mf_task_id m, st_agent_id = mf_agent_id m,
     st_job_idempotency_key = mf_job_idempotency_key m, st_attempt_id = ls_attempt_id l,
     st_attempt_number = ls_attempt_number l, st_lease_epoch = ls_lease_epoch l,
     st_worker_id = ls_worker_id l, st_lease_token_digest = token_digest_of pf (ls_lease_token l),
     st_claimed_at = pf_time_text pf (ls_claimed_at l),
     st_lease_expires_at = pf_time_text pf (ls_lease_expires_at l), st_manifest_digest = digest,
     st_envelope_digest = mf_envelope_digest m, st_context_digest = mf_context_digest m,
     st_authorization_digest = mf_authorization_digest m,
     st_runtime_revision = mf_runtime_revision m, st_correlation_id = mf_correlation_id m,
     st_causation_id = mf_causation_id m\<rparr>"

definition start_event ::
  "admission_row \<Rightarrow> 'x manifest_scheme \<Rightarrow> json \<Rightarrow> string \<Rightarrow> string \<Rightarrow> string \<Rightarrow> domain_event" where
  "start_event a m payload event_id claimed_at invocation = \<lparr>ev_stream_id = ar_stream_id a,
     ev_event_type = ''task.invocation.started'', ev_payload = payload, ev_actor_id = ''orchestrator'',
     ev_event_id = event_id, ev_timestamp = claimed_at, ev_correlation_id = Some (mf_correlation_id m),
     ev_causation_id = Some (mf_causation_id m), ev_idempotency_key = Some (start_key invocation)\<rparr>"

text \<open>
  What is raised while minting is published as a conflict, except errors of SQLite and errors of
  no expected class, which are published as a failed transaction.
\<close>

definition mint_queue_error :: "store_error \<Rightarrow> ledger_error" where
  "mint_queue_error e = (case e of StoreUnique s \<Rightarrow> Lg_Transaction | StoreRuntime s \<Rightarrow> Lg_Transaction
     | StoreConflict s \<Rightarrow> Lg_Transaction | _ \<Rightarrow> Lg_Start_Conflict)"

definition mint_event_error :: "event_error \<Rightarrow> ledger_error" where
  "mint_event_error e = (case e of EvUnique s \<Rightarrow> Lg_Transaction | EvFull \<Rightarrow> Lg_Transaction
     | EvRuntime s \<Rightarrow> Lg_Transaction | _ \<Rightarrow> Lg_Start_Conflict)"

text \<open>The scope a caller names, as tests of a manifest and of the evidence read back.\<close>

record ('x, 'y) start_scope =
  sx_manifest :: "'x manifest_scheme \<Rightarrow> bool"
  sx_evidence :: "'y start_evidence_scheme \<Rightarrow> bool"

text \<open>The readback inside the transaction, before anything is returned.\<close>

definition confirm_start ::
  "('x, 'y) start_schema \<Rightarrow> event_config \<Rightarrow> ('x, 'y) start_scope \<Rightarrow> string \<Rightarrow> string \<Rightarrow> lease
   \<Rightarrow> stored_event \<Rightarrow> canonical_db \<Rightarrow> ledger_error + 'y start_evidence_scheme start_result \<times> canonical_db" where
  "confirm_start ss cf scope invocation token l stored db =
     bind_res (or_conflict (read_start_tx ss cf db invocation True)) (\<lambda>readback.
     (case readback of None \<Rightarrow> Inl Lg_Start_Conflict | Some r \<Rightarrow>
        let seen = rv_evidence (sr_receipt r) in
        if sr_event r \<noteq> stored \<or> \<not> sx_evidence scope seen
           \<or> st_lease_token_digest seen \<noteq> token_digest_of (cf_platform cf) token
          then Inl Lg_Start_Conflict
        else bind_res (or_conflict (ss_claimed ss
            \<lparr>sc_receipt = sr_receipt r, sc_lease = wire_lease (cf_platform cf) l\<rparr>))
          (\<lambda>c. Inr (Claimed c, db))))"

definition mint_start ::
  "('x, 'y) start_schema \<Rightarrow> event_config \<Rightarrow> ('x, 'y) start_scope \<Rightarrow> canonical_db \<Rightarrow> admission_row
   \<Rightarrow> 'x manifest_scheme \<Rightarrow> job \<Rightarrow> string \<Rightarrow> string \<Rightarrow> int \<Rightarrow> int \<Rightarrow> start_fresh
   \<Rightarrow> ledger_error + 'y start_evidence_scheme start_result \<times> canonical_db" where
  "mint_start ss cf scope db admission m j invocation worker deadline expected fresh =
     (let pf = cf_platform cf in
      if \<not> caller_identity (fr_attempt_id fresh) \<or> fr_attempt_id fresh \<in> at_attempt_id ` set (js_attempts (cd_queue db))
        then Inl Lg_Start_Conflict
      else if \<not> caller_identity (fr_event_id fresh)
         \<or> fr_event_id fresh \<in> (\<lambda>r. ev_event_id (se_event r)) ` set (cd_events db)
        then Inl Lg_Start_Conflict
      else if \<not> caller_identity (fr_lease_token fresh) then Inl Lg_Start_Conflict
      else bind_res (map_err mint_queue_error (claim_first (token_digest_of pf) worker (Some invocation)
          (fr_now fresh) deadline (fr_attempt_id fresh) (fr_lease_token fresh) (cd_queue db)))
        (\<lambda>(leased, queue).
        (case leased of None \<Rightarrow> Inl Lg_Start_Conflict | Some l \<Rightarrow>
          if \<not> first_lease_of j worker deadline fresh l then Inl Lg_Start_Conflict
          else
          bind_res (or_conflict (ss_digest ss m)) (\<lambda>digest.
          bind_res (or_conflict (ss_evidence ss (start_evidence_for ss pf m digest l))) (\<lambda>e.
          bind_res (or_conflict (ss_encode ss e)) (\<lambda>payload.
          bind_res (map_err mint_event_error (snapshot_event cf
            (start_event admission m payload (fr_event_id fresh) (pf_time_text pf (ls_claimed_at l)) invocation)))
            (\<lambda>event.
          bind_res (map_err mint_event_error (append_tx cf event (Some expected) None (cd_events db)))
            (\<lambda>((stored, inserted), rows).
          if \<not> inserted \<or> se_sequence stored \<noteq> expected + 1 then Inl Lg_Start_Conflict
          else confirm_start ss cf scope invocation (fr_lease_token fresh) l stored
            (db\<lparr>cd_events := rows, cd_queue := queue\<rparr>)))))))))"

definition claim_start_tx ::
  "('x, 'y) start_schema \<Rightarrow> event_config \<Rightarrow> ('x, 'y) start_scope \<Rightarrow> string \<Rightarrow> string \<Rightarrow> int \<Rightarrow> int
   \<Rightarrow> start_fresh \<Rightarrow> canonical_db \<Rightarrow> ledger_error + 'y start_evidence_scheme start_result \<times> canonical_db" where
  "claim_start_tx ss cf scope invocation worker lease expected fresh db =
     bind_res (load_start ss cf db invocation False) (\<lambda>state.
     (case state of
        None \<Rightarrow> Inl Lg_Start_Conflict
      | Some (Started r) \<Rightarrow>
          if \<not> sx_manifest scope (adm_manifest (sr_request r)) then Inl Lg_Start_Conflict
          else if expected \<noteq> se_sequence (sr_event r) - 1
            then Inl (Lg_Concurrency ''invocation start expected another stream version'')
          else bind_res (map_err (\<lambda>_. Lg_Value ''observation'') (ss_observed ss (sr_receipt r)))
            (\<lambda>receipt. Inr (Observed receipt, db))
      | Some (Unstarted admission request j) \<Rightarrow>
          if \<not> sx_manifest scope (adm_manifest request) then Inl Lg_Start_Conflict
          else if version_of (ar_stream_id admission) (cd_events db) \<noteq> expected
            then Inl (Lg_Concurrency ''stream expected version'')
          else bind_res (map_err raise_queue (lease_deadline (fr_now fresh) lease)) (\<lambda>deadline.
          bind_res (map_err (\<lambda>e. case e of StoreIntegrity s \<Rightarrow> Lg_Start_Conflict
              | StoreClock s \<Rightarrow> Lg_Start_Conflict | _ \<Rightarrow> raise_queue e)
            (select_candidate (fr_now fresh) (Some invocation) (cd_queue db))) (\<lambda>candidate.
          if candidate \<noteq> Some j then Inl Lg_Start_Conflict
          else mint_start ss cf scope db admission (adm_manifest request) j invocation worker deadline
            expected fresh))))"

definition unscoped :: "(unit, unit) start_scope" where
  "unscoped = \<lparr>sx_manifest = (\<lambda>_. True), sx_evidence = (\<lambda>_. True)\<rparr>"

definition in_scope :: "string \<Rightarrow> string \<Rightarrow> (\<lparr>mf_tenant_id :: string, mf_workspace_id :: string\<rparr>,
    \<lparr>st_tenant_id :: string, st_workspace_id :: string\<rparr>) start_scope" where
  "in_scope tenant workspace =
     \<lparr>sx_manifest = (\<lambda>m. mf_tenant_id m = tenant \<and> mf_workspace_id m = workspace),
      sx_evidence = (\<lambda>e. st_tenant_id e = tenant \<and> st_workspace_id e = workspace)\<rparr>"

text \<open>The steps of the scoped schema, which the code has as functions of their own.\<close>

definition canonical_scoped_admission where
  "canonical_scoped_admission cf = canonical_admission (scoped_schema (cf_platform cf)) cf"

definition validate_scoped_start_readback where
  "validate_scoped_start_readback cf = validate_start_readback (scoped_schema (cf_platform cf)) cf"

definition load_scoped_start where
  "load_scoped_start cf = load_start (scoped_schema (cf_platform cf)) cf"

definition read_scoped_start_tx where
  "read_scoped_start_tx cf = read_start_tx (scoped_schema (cf_platform cf)) cf"

definition claim_scoped_start_tx where
  "claim_scoped_start_tx cf tenant workspace =
     claim_start_tx (scoped_schema (cf_platform cf)) cf (in_scope tenant workspace)"

declare claim_scoped_start_tx_def [simp]

section \<open>Transactions\<close>

text \<open>
  \<open>_transaction_inner\<close> with classification. An instance whose last transaction has no known outcome is
  poisoned for good: the row may or may not be durable, and only a new instance may look.
\<close>

record ledger_store =
  lg_db :: canonical_db
  lg_poisoned :: bool

datatype tx_fate = Acknowledged | Begin_Fails bool | Rollback_Fails | Exit_Rolled_Back | Exit_Unknown bool

definition poison :: "ledger_store \<Rightarrow> ledger_store" where
  "poison s = s\<lparr>lg_poisoned := True\<rparr>"

definition transact ::
  "tx_fate \<Rightarrow> (canonical_db \<Rightarrow> ledger_error + 'a \<times> canonical_db) \<Rightarrow> ledger_store
   \<Rightarrow> (ledger_error + 'a) \<times> ledger_store" where
  "transact fate body s =
     (if lg_poisoned s then (Inl Lg_Poisoned, s)
      else case fate of
        Begin_Fails confirmed \<Rightarrow> if confirmed then (Inl Lg_Transaction, s) else (Inl Lg_Ambiguous, poison s)
      | _ \<Rightarrow> (case body (lg_db s) of
          Inl e \<Rightarrow> if fate = Rollback_Fails then (Inl Lg_Ambiguous, poison s) else (Inl e, s)
        | Inr (a, db') \<Rightarrow> (case fate of
            Exit_Rolled_Back \<Rightarrow> (Inl Lg_Transaction, s)
          | Exit_Unknown durable \<Rightarrow>
              (Inl Lg_Ambiguous, poison (if durable then s\<lparr>lg_db := db'\<rparr> else s))
          | _ \<Rightarrow> (Inr a, s\<lparr>lg_db := db'\<rparr>))))"

text \<open>The public operations: a poisoned instance answers nothing, arguments are checked before \<open>BEGIN\<close>.\<close>

definition admit_invocation ::
  "event_config \<Rightarrow> domain_event list \<Rightarrow> job_spec \<Rightarrow> int option \<Rightarrow> int \<Rightarrow> tx_fate \<Rightarrow> ledger_store
   \<Rightarrow> (ledger_error + admission_result) \<times> ledger_store" where
  "admit_invocation cf events sp expected now fate s =
     (if lg_poisoned s then (Inl Lg_Poisoned, s)
      else case check_admission cf events sp expected of
        Inl e \<Rightarrow> (Inl e, s)
      | Inr (batch, sp, expected) \<Rightarrow> transact fate (admission_tx cf batch sp expected now) s)"

definition check_claim_arguments :: "string list \<Rightarrow> int \<Rightarrow> int \<Rightarrow> ledger_error + unit" where
  "check_claim_arguments identities lease expected =
     (if \<not> list_all caller_identity identities then Inl (Lg_Value ''identity'')
      else if lease < 0 then Inl (Lg_Value ''lease_seconds must be greater than zero'')
      else bind_res (map_err raise_event (check_cursor expected)) (\<lambda>_. Inr ()))"

definition claim_invocation_start ::
  "event_config \<Rightarrow> string \<Rightarrow> string \<Rightarrow> int \<Rightarrow> int \<Rightarrow> start_fresh \<Rightarrow> tx_fate \<Rightarrow> ledger_store
   \<Rightarrow> (ledger_error + start_evidence start_result) \<times> ledger_store" where
  "claim_invocation_start cf invocation worker lease expected fresh fate s =
     (if lg_poisoned s then (Inl Lg_Poisoned, s)
      else case check_claim_arguments [invocation, worker] lease expected of
        Inl e \<Rightarrow> (Inl e, s)
      | Inr _ \<Rightarrow> transact fate (claim_start_tx (plain_schema (cf_platform cf)) cf unscoped invocation worker
          lease expected fresh) s)"

definition claim_scoped_invocation_start ::
  "event_config \<Rightarrow> string \<Rightarrow> string \<Rightarrow> string \<Rightarrow> string \<Rightarrow> int \<Rightarrow> int \<Rightarrow> start_fresh \<Rightarrow> tx_fate
   \<Rightarrow> ledger_store \<Rightarrow> (ledger_error + scoped_evidence start_result) \<times> ledger_store" where
  "claim_scoped_invocation_start cf tenant workspace invocation worker lease expected fresh fate s =
     (if lg_poisoned s then (Inl Lg_Poisoned, s)
      else case check_claim_arguments [tenant, workspace, invocation, worker] lease expected of
        Inl e \<Rightarrow> (Inl e, s)
      | Inr _ \<Rightarrow> transact fate (claim_scoped_start_tx cf tenant workspace invocation worker lease expected
          fresh) s)"

definition observe_start ::
  "('x, 'y) start_schema \<Rightarrow> event_config \<Rightarrow> ('x, 'y) start_scope \<Rightarrow> string \<Rightarrow> canonical_db
   \<Rightarrow> ledger_error + 'y start_evidence_scheme start_receipt option \<times> canonical_db" where
  "observe_start ss cf scope invocation db =
     bind_res (read_start_tx ss cf db invocation False) (\<lambda>readback.
     (case readback of
        Some r \<Rightarrow> if sx_manifest scope (adm_manifest (sr_request r))
          then bind_res (or_conflict (ss_observed ss (sr_receipt r))) (\<lambda>receipt. Inr (Some receipt, db))
          else Inr (None, db)
      | None \<Rightarrow> Inr (None, db)))"

definition read_invocation_start ::
  "event_config \<Rightarrow> string \<Rightarrow> tx_fate \<Rightarrow> ledger_store
   \<Rightarrow> (ledger_error + start_evidence start_receipt option) \<times> ledger_store" where
  "read_invocation_start cf invocation fate s =
     (if lg_poisoned s then (Inl Lg_Poisoned, s)
      else if \<not> caller_identity invocation then (Inl (Lg_Value ''invocation_id''), s)
      else transact fate (observe_start (plain_schema (cf_platform cf)) cf unscoped invocation) s)"

definition read_scoped_invocation_start ::
  "event_config \<Rightarrow> string \<Rightarrow> string \<Rightarrow> string \<Rightarrow> tx_fate \<Rightarrow> ledger_store
   \<Rightarrow> (ledger_error + scoped_evidence start_receipt option) \<times> ledger_store" where
  "read_scoped_invocation_start cf tenant workspace invocation fate s =
     (if lg_poisoned s then (Inl Lg_Poisoned, s)
      else if \<not> list_all caller_identity [tenant, workspace, invocation] then (Inl (Lg_Value ''identity''), s)
      else transact fate (observe_start (scoped_schema (cf_platform cf)) cf (in_scope tenant workspace) invocation) s)"

end
