(* ===== verification/Canonical_Props.thy ===== *)
theory Canonical_Props
  imports Canonical_Start Event_Log_Props Invocation_Worker
begin

text \<open>
  What canonical starts promise: the authority to run an invocation is handed out once, whatever
  happens to the acknowledgements; after that a claim sees the evidence of the first; and an
  admission that is retried finds its own events and job.
\<close>

lemma map_err_Inr [simp]: "map_err f r = Inr a \<longleftrightarrow> r = Inr a"
  by (cases r) (simp_all add: map_err_def)

lemma or_conflict_Inr [simp]: "or_conflict r = Inr a \<longleftrightarrow> r = Inr a"
  by (simp add: or_conflict_def)

section \<open>Rows and keys\<close>

definition keyed :: "string \<Rightarrow> stored_event list \<Rightarrow> bool" where
  "keyed key rows = list_ex (\<lambda>r. ev_idempotency_key (se_event r) = Some key) rows"

lemma keyed_append [simp]: "keyed key (rows @ rows') \<longleftrightarrow> keyed key rows \<or> keyed key rows'"
  by (simp add: keyed_def)

lemma map_res_row_same: "map_res (row_to_event cf) rows = Inr ss \<Longrightarrow> ss = rows"
  by (induction rows arbitrary: ss) (auto simp: res_simps dest: row_to_event_id)

lemma append_tx_inserted:
  assumes "append_tx cf e v g rows = Inr ((s, True), rows')"
  shows "rows' = rows @ [s]" "se_event s = e" "ev_event_id e \<notin> (\<lambda>r. ev_event_id (se_event r)) ` set rows"
  using assms by (auto simp: append_tx_def insert_event_def Let_def res_simps split: list.splits if_splits)

lemma snapshot_event_fields:
  assumes "snapshot_event cf e = Inr e'"
  shows "ev_idempotency_key e' = ev_idempotency_key e" "ev_event_id e' = ev_event_id e"
    "ev_stream_id e' = ev_stream_id e"
  using assms by (auto simp: snapshot_event_def check_event_def res_simps split: if_splits)

lemma no_candidates:
  assumes "start_candidates cf db invocation task = Inr []"
  shows "\<not> keyed (start_key invocation) (cd_events db)"
proof
  let ?rows = "sort_key se_global_position (filter (start_row invocation task) (cd_events db))"
  assume "keyed (start_key invocation) (cd_events db)"
  then obtain r where r: "r \<in> set (cd_events db)" "ev_idempotency_key (se_event r) = Some (start_key invocation)"
    by (auto simp: keyed_def list_ex_iff)
  have "filter (relevant_start invocation task) ?rows = []"
    using assms by (auto simp: start_candidates_def Let_def res_simps dest: map_res_row_same split: if_splits)
  then show False
    using r by (auto simp: filter_empty_conv relevant_start_def start_row_def Let_def)
qed

section \<open>A claim\<close>

lemma loaded_unstarted:
  assumes "load_start ss cf db invocation False = Inr (Some (Unstarted a request j))"
  shows "\<not> keyed (start_key invocation) (cd_events db)" "mf_invocation_id (adm_manifest request) = invocation"
proof -
  obtain row receipt where c: "canonical_admission ss cf db row invocation = Inr (receipt, request, j)"
    and n: "start_candidates cf db (mf_invocation_id (adm_manifest request)) (mf_task_id (adm_manifest request)) = Inr []"
    using assms by (auto simp: load_start_def res_simps split: list.splits if_splits) (metis list.exhaust)+
  show m: "mf_invocation_id (adm_manifest request) = invocation"
    using c by (auto simp: canonical_admission_def res_simps split: if_splits)
  show "\<not> keyed (start_key invocation) (cd_events db)"
    using no_candidates [OF n] by (simp add: m)
qed

lemma mint_effect:
  assumes "mint_start ss cf scope db a m j invocation worker deadline expected fresh = Inr (res, db')"
  shows "\<exists>c s r l. res = Claimed c \<and> cd_events db' = cd_events db @ [s]
    \<and> ev_idempotency_key (se_event s) = Some (start_key invocation) \<and> se_sequence s = expected + 1
    \<and> read_start_tx ss cf db' invocation True = Inr (Some r) \<and> sr_event r = s
    \<and> sx_evidence scope (rv_evidence (sr_receipt r))
    \<and> ss_claimed ss \<lparr>sc_receipt = sr_receipt r, sc_lease = l\<rparr> = Inr c"
proof -
  let ?pf = "cf_platform cf"
  obtain leased queue where lq: "claim_first (token_digest_of ?pf) worker (Some invocation) (fr_now fresh) deadline
      (fr_attempt_id fresh) (fr_lease_token fresh) (cd_queue db) = Inr (leased, queue)"
    using assms by (auto simp: mint_start_def Let_def res_simps split: if_splits)
  obtain l where l: "leased = Some l"
    using assms lq by (cases leased) (auto simp: mint_start_def Let_def map_err_def split: if_splits)
  obtain digest e payload event stored inserted rows where
    ev: "snapshot_event cf (start_event a m payload (fr_event_id fresh) (pf_time_text ?pf (ls_claimed_at l)) invocation)
      = Inr event"
    and ap: "append_tx cf event (Some expected) None (cd_events db) = Inr ((stored, inserted), rows)"
    and ins: "inserted" "se_sequence stored = expected + 1"
    and tail: "confirm_start ss cf scope invocation (fr_lease_token fresh) l stored
      (db\<lparr>cd_events := rows, cd_queue := queue\<rparr>) = Inr (res, db')"
    using assms by (auto simp: mint_start_def Let_def map_err_def lq l res_simps split: if_splits sum.splits)
  obtain r c where "read_start_tx ss cf (db\<lparr>cd_events := rows, cd_queue := queue\<rparr>) invocation True = Inr (Some r)"
    "sr_event r = stored" "sx_evidence scope (rv_evidence (sr_receipt r))" "ss_claimed ss \<lparr>sc_receipt = sr_receipt r, sc_lease = wire_lease ?pf l\<rparr> = Inr c"
    "res = Claimed c" "db' = db\<lparr>cd_events := rows, cd_queue := queue\<rparr>"
    using tail by (auto simp: confirm_start_def res_simps Let_def split: option.splits if_splits)
  moreover have "ev_idempotency_key event = Some (start_key invocation)"
    using snapshot_event_fields(1) [OF ev] by (simp add: start_event_def)
  ultimately show ?thesis
    using append_tx_inserted [of cf event] ap ins by auto
qed

lemma single_row: "(case xs of [] \<Rightarrow> Inl e | [x] \<Rightarrow> f x | x # y # zs \<Rightarrow> Inl e') = Inr r \<longleftrightarrow> (\<exists>x. xs = [x] \<and> f x = Inr r)"
  by (cases xs; cases "tl xs") auto

lemma readback_fresh:
  "validate_start_readback ss cf db a req j s True = Inr r \<Longrightarrow> validate_start_readback ss cf db a req j s False = Inr r"
  by (auto simp: validate_start_readback_def Let_def res_simps single_row split: if_splits)

lemma load_fresh:
  assumes "load_start ss cf db invocation True = Inr (Some (Started r))"
  shows "load_start ss cf db invocation False = Inr (Some (Started r))"
proof -
  obtain row where row: "filter (\<lambda>r. ar_invocation_id r = invocation) (cd_admissions db) = [row]"
    using assms by (auto simp: load_start_def split: list.splits if_splits)
  obtain a req j where can: "canonical_admission ss cf db row invocation = Inr (a, req, j)"
    using assms by (auto simp: load_start_def row res_simps)
  obtain cs where cs: "start_candidates cf db (mf_invocation_id (adm_manifest req)) (mf_task_id (adm_manifest req)) = Inr cs"
    using assms by (auto simp: load_start_def row can res_simps)
  show ?thesis
    using assms by (cases cs) (auto simp: load_start_def row can cs res_simps intro: readback_fresh)
qed

lemma read_start_Some: "read_start_tx ss cf db invocation fresh = Inr (Some r) \<longleftrightarrow>
    load_start ss cf db invocation fresh = Inr (Some (Started r))"
proof (cases "load_start ss cf db invocation fresh")
  case (Inr state)
  then show ?thesis
    by (cases state; cases "the state") (auto simp: read_start_tx_def)
qed (simp add: read_start_tx_def)

text \<open>A claim that returns has either seen a start or minted one.\<close>

lemma claim_tx_cases:
  assumes "claim_start_tx ss cf scope invocation worker lease expected fresh db = Inr (res, db')"
  shows "(\<exists>r receipt. load_start ss cf db invocation False = Inr (Some (Started r)) \<and> res = Observed receipt \<and> db' = db)
    \<or> (\<exists>a request j deadline. load_start ss cf db invocation False = Inr (Some (Unstarted a request j))
        \<and> mint_start ss cf scope db a (adm_manifest request) j invocation worker deadline expected fresh = Inr (res, db'))"
proof -
  obtain state where state: "load_start ss cf db invocation False = Inr state"
    using assms by (auto simp: claim_start_tx_def res_simps)
  then obtain st where st: "state = Some st"
    using assms by (cases state) (auto simp: claim_start_tx_def)
  show ?thesis
    using assms by (cases st) (auto simp: claim_start_tx_def state st res_simps split: if_splits)
qed

lemma claim_tx_claimed:
  assumes "claim_start_tx ss cf scope invocation worker lease expected fresh db = Inr (Claimed c, db')"
  shows "\<not> keyed (start_key invocation) (cd_events db)"
    and "\<exists>s r l. cd_events db' = cd_events db @ [s] \<and> ev_idempotency_key (se_event s) = Some (start_key invocation)
      \<and> se_sequence s = expected + 1 \<and> load_start ss cf db' invocation False = Inr (Some (Started r))
      \<and> sr_event r = s \<and> sx_evidence scope (rv_evidence (sr_receipt r)) \<and> ss_claimed ss \<lparr>sc_receipt = sr_receipt r, sc_lease = l\<rparr> = Inr c"
proof -
  obtain a request j deadline where st: "load_start ss cf db invocation False = Inr (Some (Unstarted a request j))"
    and mint: "mint_start ss cf scope db a (adm_manifest request) j invocation worker deadline expected fresh
      = Inr (Claimed c, db')"
    using claim_tx_cases [OF assms] by auto
  show "\<not> keyed (start_key invocation) (cd_events db)"
    using loaded_unstarted [OF st] by simp
  show "\<exists>s r l. cd_events db' = cd_events db @ [s] \<and> ev_idempotency_key (se_event s) = Some (start_key invocation)
      \<and> se_sequence s = expected + 1 \<and> load_start ss cf db' invocation False = Inr (Some (Started r))
      \<and> sr_event r = s \<and> sx_evidence scope (rv_evidence (sr_receipt r)) \<and> ss_claimed ss \<lparr>sc_receipt = sr_receipt r, sc_lease = l\<rparr> = Inr c"
    using mint_effect [OF mint] by (auto simp: read_start_Some) (blast dest: load_fresh)
qed

lemma claim_tx_events:
  assumes "claim_start_tx ss cf scope invocation worker lease expected fresh db = Inr (res, db')"
  shows "\<exists>more. cd_events db' = cd_events db @ more"
proof (cases res)
  case (Claimed c)
  then show ?thesis
    using claim_tx_claimed(2) assms by blast
next
  case (Observed r)
  then have "db' = db"
    using claim_tx_cases [OF assms] by (auto dest!: mint_effect)
  then show ?thesis
    by simp
qed

section \<open>Admissions keep the log\<close>

lemma append_batch_rows:
  assumes "append_batch cf batch version rows = Inr (stored, rows')"
  shows "rows' = rows @ stored \<and> map se_event stored = batch"
  using assms
proof (induction batch arbitrary: version rows stored rows')
  case (Cons e es)
  then obtain s rows1 ss where "append_tx cf e (Some version) None rows = Inr ((s, True), rows1)"
    "append_batch cf es (version + 1) rows1 = Inr (ss, rows')" "stored = s # ss"
    by (auto simp: res_simps split: if_splits)
  with Cons.IH [of "version + 1" rows1 ss rows'] append_tx_inserted [of cf e "Some version" None rows s rows1]
  show ?case
    by simp
qed simp

lemma at_most_one_row: "(case xs of [] \<Rightarrow> a | [x] \<Rightarrow> f x | x # y # zs \<Rightarrow> Inl e) = Inr r \<longleftrightarrow>
    xs = [] \<and> a = Inr r \<or> (\<exists>x. xs = [x] \<and> f x = Inr r)"
  by (cases xs; cases "tl xs") auto

definition admissible ::
  "event_config \<Rightarrow> domain_event list \<Rightarrow> job_spec \<Rightarrow> int option \<Rightarrow> domain_event list \<Rightarrow> bool" where
  "admissible cf events sp expected batch =
     (map_res (snapshot_event cf) events = Inr batch \<and> check_job_spec sp = Inr sp
      \<and> check_option check_row_integer expected = Inr expected \<and> batch \<noteq> []
      \<and> \<not> list_ex (\<lambda>e. ev_stream_id e \<noteq> ''session:'' @ sp_session_id sp) batch
      \<and> check_event_batch [] [] batch = Inr ())"

lemma admission_iff:
  "append_invocation_admission cf events sp expected now db = Inr (res, db') \<longleftrightarrow>
     (\<exists>batch. admissible cf events sp expected batch \<and>
       (filter (same_admission sp) (cd_admissions db) = [] \<and>
          first_admission cf db batch sp expected now = Inr (res, db')
        \<or> (\<exists>row. filter (same_admission sp) (cd_admissions db) = [row] \<and>
          retry_admission cf db row batch sp expected = Inr res \<and> db' = db)))"
proof -
  have spec: "check_job_spec sp = Inr sp' \<Longrightarrow> sp' = sp" for sp'
    by (auto simp: check_job_spec_def split: if_splits)
  have version: "check_option check_row_integer expected = Inr v \<Longrightarrow> v = expected" for v
    by (auto simp: check_option_def check_row_integer_def split: option.splits if_splits)
  show ?thesis
  proof (cases "map_res (snapshot_event cf) events")
    case (Inr batch)
    note m = this
    show ?thesis
    proof (cases "check_job_spec sp")
      case (Inr sp')
      then have sp: "check_job_spec sp = Inr sp" using spec by blast
      show ?thesis
      proof (cases "check_option check_row_integer expected")
        case (Inr v)
        then have v: "check_option check_row_integer expected = Inr expected" using version by blast
        show ?thesis
          by (cases "check_event_batch [] [] batch"; cases res)
             (auto simp: append_invocation_admission_def check_admission_def admission_tx_def admissible_def m sp v map_err_def
               at_most_one_row res_simps)
      qed (simp add: append_invocation_admission_def check_admission_def admissible_def m sp map_err_def)
    qed (simp add: append_invocation_admission_def check_admission_def admissible_def m map_err_def)
  qed (simp add: append_invocation_admission_def check_admission_def admissible_def map_err_def)
qed

lemma validated_bound:
  assumes "validate_admission cf db row = Inr (receipt, verified, j)"
  shows "receipt = row \<and> (\<exists>pairs. bound_events cf row 0 (cd_events db) (ar_event_ids row) = Inr pairs
    \<and> verified = map fst pairs)"
proof -
  have ok: "row_to_admission row = Inr row"
    using assms by (cases "admission_row_ok row") (simp_all add: validate_admission_def row_to_admission_def Let_def)
  obtain job_row where jr: "row_of jb_invocation_id (ar_invocation_id row) (js_jobs (cd_queue db)) = Some job_row"
    using assms by (cases "row_of jb_invocation_id (ar_invocation_id row) (js_jobs (cd_queue db))")
      (simp_all add: validate_admission_def Let_def ok)
  define found where "found = map_err (\<lambda>_. Lg_Integrity ''invocation admission receipt refers to a malformed job'')
    (bind_res (row_to_job job_row) (\<lambda>j. bind_res (check_job_spec (spec_from_job j)) (\<lambda>_. Inr j)))"
  obtain j' where j': "found = Inr j'"
    using assms unfolding validate_admission_def Let_def ok bind_res.simps jr option.case found_def [symmetric]
    by (cases found) simp_all
  obtain pairs where pairs: "bound_events cf row 0 (cd_events db) (ar_event_ids row) = Inr pairs"
    using assms unfolding validate_admission_def Let_def ok bind_res.simps jr option.case found_def [symmetric] j'
    by (cases "bound_events cf row 0 (cd_events db) (ar_event_ids row)") (simp_all split: if_split_asm)
  show ?thesis
    using assms unfolding validate_admission_def Let_def ok bind_res.simps jr option.case found_def [symmetric] j' pairs
    by (simp split: if_split_asm)
qed

lemma first_admission_parts:
  assumes "first_admission cf db batch sp expected now = Inr (res, db')"
  shows "\<exists>stored queue receipt verified j.
    append_batch cf batch (version_of (''session:'' @ sp_session_id sp) (cd_events db)) (cd_events db)
      = Inr (stored, cd_events db @ stored)
    \<and> enqueue sp now (cd_queue db) = Inr (queue, cd_queue db')
    \<and> receipt = new_admission (cf_platform cf) sp batch
        (version_of (''session:'' @ sp_session_id sp) (cd_events db)) stored now
    \<and> cd_events db' = cd_events db @ stored \<and> cd_admissions db' = cd_admissions db @ [receipt]
    \<and> validate_admission cf db' receipt = Inr (receipt, verified, j) \<and> res = (verified, j)
    \<and> pred_option (\<lambda>v. v = ar_original_version receipt) expected"
proof -
  let ?version = "version_of (''session:'' @ sp_session_id sp) (cd_events db)"
  have v: "pred_option (\<lambda>v. v = ?version) expected"
    using assms by (auto simp: first_admission_def Let_def split: if_splits)
  obtain stored rows where ap: "append_batch cf batch ?version (cd_events db) = Inr (stored, rows)"
    using assms by (auto simp: first_admission_def Let_def res_simps split: if_splits)
  obtain j0 queue where q: "enqueue sp now (cd_queue db) = Inr (j0, queue)"
    using assms by (auto simp: first_admission_def Let_def ap res_simps split: if_splits)
  define receipt where "receipt = new_admission (cf_platform cf) sp batch ?version stored now"
  define db1 where "db1 = \<lparr>cd_events = rows, cd_queue = queue, cd_admissions = cd_admissions db @ [receipt]\<rparr>"
  have ins: "insert_admission receipt (cd_admissions db) = Inr (cd_admissions db @ [receipt])"
    using assms ap q by (auto simp: first_admission_def Let_def insert_admission_def receipt_def map_err_def
        split: if_splits)
  have tail: "bind_res (validate_admission cf db1 receipt) (\<lambda>(_, verified, j). Inr ((verified, j), db1)) = Inr (res, db')"
    using assms ap q ins by (auto simp: first_admission_def Let_def map_err_def receipt_def db1_def
        split: if_splits)
  then obtain r verified j where va: "validate_admission cf db1 receipt = Inr (r, verified, j)"
    and res: "res = (verified, j)" "db' = db1"
    by (auto simp: res_simps)
  have "r = receipt"
    using validated_bound [OF va] by simp
  then show ?thesis
    using v ap q va res append_batch_rows [OF ap] by (auto simp: db1_def receipt_def new_admission_def)
qed

lemma admission_grows:
  assumes "append_invocation_admission cf events sp expected now db = Inr (res, db')"
  shows "\<exists>more. cd_events db' = cd_events db @ more"
  using assms by (auto simp: admission_iff dest: first_admission_parts)

abbreviation row_event_id :: "stored_event \<Rightarrow> string" where
  "row_event_id r \<equiv> ev_event_id (se_event r)"

lemma append_batch_distinct:
  assumes "append_batch cf batch version rows = Inr (stored, rows')"
  shows "distinct (map row_event_id stored) \<and> row_event_id ` set stored \<inter> row_event_id ` set rows = {}"
  using assms
proof (induction batch arbitrary: version rows stored rows')
  case (Cons e es)
  then obtain s rows1 ss where s: "append_tx cf e (Some version) None rows = Inr ((s, True), rows1)"
    and "append_batch cf es (version + 1) rows1 = Inr (ss, rows')" "stored = s # ss"
    by (auto simp: res_simps split: if_splits)
  with Cons.IH [of "version + 1" rows1 ss rows'] append_tx_inserted [OF s]
  show ?case
    by auto
qed simp

lemma filter_one: "distinct (map f xs) \<Longrightarrow> x \<in> set xs \<Longrightarrow> filter (\<lambda>y. f y = f x) xs = [x]"
proof (induction xs)
  case (Cons z zs)
  show ?case
  proof (cases "x = z")
    case True
    with Cons.prems show ?thesis
      by (auto simp: filter_empty_conv) (metis imageI)
  next
    case False
    with Cons show ?thesis
      by auto
  qed
qed simp

lemma bound_events_first:
  assumes "bound_events cf receipt offset rows event_ids = Inr pairs"
  shows "list_all2 (\<lambda>i p. \<exists>rest. filter (\<lambda>r. row_event_id r = i) rows = fst p # rest) event_ids pairs"
  using assms
proof (induction event_ids arbitrary: offset pairs)
  case (Cons i others)
  then obtain r rest where r: "filter (\<lambda>r. row_event_id r = i) rows = r # rest"
    by (auto split: list.splits)
  with Cons show ?case
    by (auto simp: res_simps split: if_splits dest: row_to_event_id)
qed simp

lemma verified_are_stored:
  assumes ap: "append_batch cf batch version rows = Inr (stored, rows @ stored)"
    and va: "validate_admission cf db (new_admission pf sp batch v stored now) = Inr (receipt, verified, j)"
    and db: "cd_events db = rows @ stored"
  shows "verified = stored"
proof -
  let ?ids = "map ev_event_id batch"
  have ids: "?ids = map row_event_id stored"
    using append_batch_rows [OF ap] by (auto simp: comp_def)
  have own: "ar_event_ids (new_admission pf sp batch v stored now) = ?ids"
    by (simp add: new_admission_def)
  obtain pairs where "bound_events cf (new_admission pf sp batch v stored now) 0 (rows @ stored) ?ids = Inr pairs"
    and v: "verified = map fst pairs"
    using validated_bound [OF va] unfolding db own by blast
  from bound_events_first [OF this(1)]
  have "list_all2 (\<lambda>s p. \<exists>rest. filter (\<lambda>r. row_event_id r = row_event_id s) (rows @ stored) = fst p # rest) stored pairs"
    by (simp add: ids list_all2_map1)
  moreover have "filter (\<lambda>r. row_event_id r = row_event_id s) (rows @ stored) = [s]" if "s \<in> set stored" for s
  proof -
    have "filter (\<lambda>r. row_event_id r = row_event_id s) rows = []"
      using append_batch_distinct [OF ap] that by (auto simp: filter_empty_conv)
    moreover have "filter (\<lambda>r. row_event_id r = row_event_id s) stored = [s]"
      using append_batch_distinct [OF ap] that by (intro filter_one) auto
    ultimately show ?thesis
      by simp
  qed
  ultimately have "list_all2 (\<lambda>s p. s = fst p) stored pairs"
    by (auto elim!: list.rel_mono_strong)
  then show ?thesis
    by (auto simp: v list_all2_conv_all_nth intro: nth_equalityI)
qed

lemma admission_retry:
  assumes "append_invocation_admission cf events sp expected now db = Inr (res, db')"
  shows "append_invocation_admission cf events sp expected later db' = Inr (res, db')"
proof -
  obtain batch where ok: "admissible cf events sp expected batch" and
    "filter (same_admission sp) (cd_admissions db) = [] \<and> first_admission cf db batch sp expected now = Inr (res, db')
     \<or> (\<exists>row. filter (same_admission sp) (cd_admissions db) = [row] \<and> retry_admission cf db row batch sp expected = Inr res
        \<and> db' = db)"
    using assms by (auto simp: admission_iff)
  then consider (first) "filter (same_admission sp) (cd_admissions db) = []"
      "first_admission cf db batch sp expected now = Inr (res, db')"
    | (again) row where "filter (same_admission sp) (cd_admissions db) = [row]"
      "retry_admission cf db row batch sp expected = Inr res" "db' = db"
    by blast
  then show ?thesis
  proof cases
    case first
    obtain stored queue receipt verified j where
      ap: "append_batch cf batch (version_of (''session:'' @ sp_session_id sp) (cd_events db)) (cd_events db)
        = Inr (stored, cd_events db @ stored)"
      and r: "receipt = new_admission (cf_platform cf) sp batch
        (version_of (''session:'' @ sp_session_id sp) (cd_events db)) stored now"
      and db': "cd_events db' = cd_events db @ stored" "cd_admissions db' = cd_admissions db @ [receipt]"
      and va: "validate_admission cf db' receipt = Inr (receipt, verified, j)" and res: "res = (verified, j)"
      and v: "pred_option (\<lambda>v. v = ar_original_version receipt) expected"
      using first_admission_parts [OF first(2)] by blast
    have "verified = stored"
      using verified_are_stored [OF ap va [unfolded r] db'(1)] .
    then have "retry_admission cf db' receipt batch sp expected = Inr res"
      using va v append_batch_rows [OF ap] unfolding retry_admission_def Let_def
      by (auto simp: res r new_admission_def comp_def)
    moreover have "filter (same_admission sp) (cd_admissions db') = [receipt]"
      using first(1) by (simp add: db' same_admission_def r new_admission_def)
    ultimately show ?thesis
      using ok by (auto simp: admission_iff)
  next
    case again
    then show ?thesis
      using ok by (auto simp: admission_iff)
  qed
qed

section \<open>Runs of a store\<close>

text \<open>
  A store with everything the callers of its instances were handed: claims of both schemas and
  admissions whose transactions end in any way, a new instance on the same file, and the other
  operations of the database, of which it is only assumed that they keep the rows of the log.
\<close>

definition reopen :: "ledger_store \<Rightarrow> ledger_store" where
  "reopen s = s\<lparr>lg_poisoned := False\<rparr>"

definition new_lease_for :: "string \<Rightarrow> ledger_error + 'e start_result \<Rightarrow> string list" where
  "new_lease_for invocation answer = (case answer of Inr (Claimed c) \<Rightarrow> [invocation] | _ \<Rightarrow> [])"

inductive start_step :: "event_config \<Rightarrow> ledger_store \<times> string list \<Rightarrow> ledger_store \<times> string list \<Rightarrow> bool"
  for cf where
  admits: "admit_invocation cf events sp expected now fate s = (answer, s')
    \<Longrightarrow> start_step cf (s, handed) (s', handed)"
| claims: "claim_invocation_start cf invocation worker lease expected fresh fate s = (answer, s')
    \<Longrightarrow> start_step cf (s, handed) (s', new_lease_for invocation answer @ handed)"
| claims_scoped:
    "claim_scoped_invocation_start cf tenant workspace invocation worker lease expected fresh fate s = (answer', s')
    \<Longrightarrow> start_step cf (s, handed) (s', new_lease_for invocation answer' @ handed)"
| reopens: "start_step cf (s, handed) (reopen s, handed)"
| others: "cd_events (lg_db s') = cd_events (lg_db s) @ rows \<Longrightarrow> start_step cf (s, handed) (s', handed)"

definition start_inv :: "ledger_store \<times> string list \<Rightarrow> bool" where
  "start_inv w = (distinct (snd w) \<and> (\<forall>i \<in> set (snd w). keyed (start_key i) (cd_events (lg_db (fst w)))))"

lemma transact_cases:
  assumes "transact fate body s = (answer, s')"
  shows "lg_db s' = lg_db s \<and> (\<exists>e. answer = Inl e)
    \<or> (\<exists>a. body (lg_db s) = Inr (a, lg_db s') \<and> (answer = Inr a \<or> (\<exists>e. answer = Inl e)))"
  using assms
  by (auto simp: transact_def poison_def split: if_splits tx_fate.splits sum.splits prod.splits)

lemma claim_keeps_start_inv:
  assumes "start_inv (s, handed)"
    and run: "transact fate (claim_start_tx ss cf scope invocation worker lease expected fresh) s = (answer, s')"
  shows "start_inv (s', new_lease_for invocation answer @ handed)"
  using transact_cases [OF run]
proof (elim disjE conjE exE)
  fix e
  assume "lg_db s' = lg_db s" "answer = Inl e"
  then show ?thesis
    using assms(1) by (simp add: start_inv_def new_lease_for_def)
next
  fix a
  assume body: "claim_start_tx ss cf scope invocation worker lease expected fresh (lg_db s) = Inr (a, lg_db s')"
    and answer: "answer = Inr a"
  obtain more where more: "cd_events (lg_db s') = cd_events (lg_db s) @ more"
    using claim_tx_events [OF body] by blast
  show ?thesis
  proof (cases a)
    case (Claimed c)
    then show ?thesis
      using claim_tx_claimed [OF body [unfolded Claimed]] assms(1)
      by (auto simp: start_inv_def new_lease_for_def answer keyed_def)
  next
    case (Observed r)
    then show ?thesis
      using assms(1) more by (simp add: start_inv_def new_lease_for_def answer)
  qed
next
  fix a e
  assume "claim_start_tx ss cf scope invocation worker lease expected fresh (lg_db s) = Inr (a, lg_db s')"
    and "answer = Inl e"
  then show ?thesis
    using claim_tx_events assms(1) by (fastforce simp: start_inv_def new_lease_for_def)
qed

lemma admit_cases:
  assumes "admit_invocation cf events sp expected now fate s = (answer, s')"
  shows "s' = s \<or> transact fate (append_invocation_admission cf events sp expected now) s = (answer, s')"
proof (cases "check_admission cf events sp expected")
  case (Inr c)
  obtain batch sp' expected' where c: "c = (batch, sp', expected')"
    by (cases c)
  have "append_invocation_admission cf events sp expected now = admission_tx cf batch sp' expected' now"
    by (rule ext) (simp add: append_invocation_admission_def Inr c)
  then show ?thesis
    using assms by (auto simp: admit_invocation_def Inr c split: if_splits)
next
  case (Inl e)
  then show ?thesis
    using assms by (auto simp: admit_invocation_def split: if_splits)
qed

lemma start_step_inv: "start_inv w \<Longrightarrow> start_step cf w w' \<Longrightarrow> start_inv w'"
proof (erule start_step.cases)
  fix events sp expected now fate s answer s' handed
  assume "start_inv w" "w = (s, handed)" "w' = (s', handed)"
    and run: "admit_invocation cf events sp expected now fate s = (answer, s')"
  moreover have "\<exists>more. cd_events (lg_db s') = cd_events (lg_db s) @ more"
    using admit_cases [OF run]
  proof
    assume "transact fate (append_invocation_admission cf events sp expected now) s = (answer, s')"
    then show ?thesis
      using transact_cases admission_grows by (metis append_Nil2)
  qed simp
  ultimately show ?thesis
    by (auto simp: start_inv_def)
next
  fix invocation worker lease expected fresh fate s answer s' handed
  assume "start_inv w" "w = (s, handed)" "w' = (s', new_lease_for invocation answer @ handed)"
    "claim_invocation_start cf invocation worker lease expected fresh fate s = (answer, s')"
  then show ?thesis
    by (auto simp: claim_invocation_start_def split: if_splits sum.splits intro: claim_keeps_start_inv)
       (simp_all add: start_inv_def new_lease_for_def)
next
  fix tenant workspace invocation worker lease expected fresh fate s answer s' handed
  assume "start_inv w" "w = (s, handed)" "w' = (s', new_lease_for invocation answer @ handed)"
    "claim_scoped_invocation_start cf tenant workspace invocation worker lease expected fresh fate s = (answer, s')"
  then show ?thesis
    by (auto simp: claim_scoped_invocation_start_def split: if_splits sum.splits intro: claim_keeps_start_inv)
       (simp_all add: start_inv_def new_lease_for_def)
qed (auto simp: start_inv_def reopen_def)

definition nothing_handed :: "ledger_store \<times> string list \<Rightarrow> bool" where
  "nothing_handed w = (snd w = [])"

interpretation start_run: invariant_system nothing_handed "start_step cf" start_inv for cf
proof unfold_locales
  show "nothing_handed w \<Longrightarrow> start_inv w" for w
    by (simp add: nothing_handed_def start_inv_def)
qed (fact start_step_inv)

lemma handed_once:
  assumes "reach nothing_handed (start_step cf) (s, handed)"
  shows "distinct handed \<and> (\<forall>i \<in> set handed. keyed (start_key i) (cd_events (lg_db s)))"
  using start_run.reach_inv [OF assms] by (simp add: start_inv_def)

section \<open>After a start\<close>

lemma started_scope:
  assumes "load_start (scoped_schema pf) cf db invocation fresh = Inr (Some (Started r))"
  shows "st_tenant_id (rv_evidence (sr_receipt r)) = mf_tenant_id (adm_manifest (sr_request r))
    \<and> st_workspace_id (rv_evidence (sr_receipt r)) = mf_workspace_id (adm_manifest (sr_request r))
    \<and> st_invocation_id (rv_evidence (sr_receipt r)) = invocation"
proof -
  have same: "check_scoped_receipt x = Inr y \<Longrightarrow> y = x" for x y
    unfolding check_scoped_receipt_def by (rule scoped_receipt_init_same)
  have readback: "validate_start_readback (scoped_schema pf) cf db a req j s fresh = Inr r \<Longrightarrow>
      st_tenant_id (rv_evidence (sr_receipt r)) = mf_tenant_id (adm_manifest (sr_request r))
      \<and> st_workspace_id (rv_evidence (sr_receipt r)) = mf_workspace_id (adm_manifest (sr_request r))
      \<and> st_invocation_id (rv_evidence (sr_receipt r)) = mf_invocation_id (adm_manifest req)" for a req j s
    by (auto simp: validate_start_readback_def Let_def res_simps single_row scoped_schema_def
        evidence_consistent_def dest!: same split: if_splits)
  obtain row where row: "filter (\<lambda>r. ar_invocation_id r = invocation) (cd_admissions db) = [row]"
    using assms by (auto simp: load_start_def split: list.splits if_splits)
  obtain a req j where can: "canonical_admission (scoped_schema pf) cf db row invocation = Inr (a, req, j)"
    using assms by (auto simp: load_start_def row res_simps)
  have own: "mf_invocation_id (adm_manifest req) = invocation"
    using can by (auto simp: canonical_admission_def res_simps split: if_splits)
  obtain cs where cs: "start_candidates cf db (mf_invocation_id (adm_manifest req)) (mf_task_id (adm_manifest req)) = Inr cs"
    using assms by (auto simp: load_start_def row can res_simps)
  obtain stored where "validate_start_readback (scoped_schema pf) cf db a req j stored fresh = Inr r"
    using assms by (cases cs) (auto simp: load_start_def row can cs res_simps)
  from readback [OF this] show ?thesis
    by (simp only: own)
qed

lemma observed_same: "ss_observed (scoped_schema pf) r = Inr r' \<Longrightarrow> r' = r"
  using scoped_receipt_snapshot_same by (simp add: scoped_schema_def check_scoped_observed_def)

definition evidence_for :: "string \<Rightarrow> string \<Rightarrow> string \<Rightarrow> scoped_evidence \<Rightarrow> bool" where
  "evidence_for tenant workspace invocation e =
     (st_tenant_id e = tenant \<and> st_workspace_id e = workspace \<and> st_invocation_id e = invocation)"

definition evidence_of :: "'e start_result \<Rightarrow> 'e" where
  "evidence_of res = (case res of Claimed c \<Rightarrow> rv_evidence (sc_receipt c) | Observed r \<Rightarrow> rv_evidence r)"

lemma scoped_claim_evidence:
  assumes "claim_start_tx (scoped_schema pf) cf (in_scope tenant workspace) invocation worker lease expected fresh db
    = Inr (res, db')"
  shows "evidence_for tenant workspace invocation (evidence_of res)"
proof (cases res)
  case (Claimed c)
  obtain r l where st: "load_start (scoped_schema pf) cf db' invocation False = Inr (Some (Started r))"
    and sx: "sx_evidence (in_scope tenant workspace) (rv_evidence (sr_receipt r))"
    and c: "ss_claimed (scoped_schema pf) \<lparr>sc_receipt = sr_receipt r, sc_lease = l\<rparr> = Inr c"
    using claim_tx_claimed(2) [OF assms [unfolded Claimed]] by blast
  have "c = \<lparr>sc_receipt = sr_receipt r, sc_lease = l\<rparr>"
    using c by (simp add: scoped_schema_def check_scoped_claimed_same)
  then show ?thesis
    using started_scope [OF st] sx by (simp add: Claimed evidence_of_def evidence_for_def in_scope_def)
next
  case (Observed receipt)
  obtain state where state: "load_start (scoped_schema pf) cf db invocation False = Inr (Some state)"
    using assms by (auto simp: claim_start_tx_def res_simps split: option.splits)
  show ?thesis
  proof (cases state)
    case (Started r)
    then show ?thesis
      using assms started_scope [OF state [unfolded Started]] observed_same
      by (auto simp: claim_start_tx_def state in_scope_def res_simps Observed evidence_of_def evidence_for_def
          split: if_splits)
  next
    case (Unstarted a req j)
    then show ?thesis
      using assms mint_effect by (fastforce simp: claim_start_tx_def state Observed res_simps split: if_splits)
  qed
qed

lemma scoped_observation:
  assumes "observe_start (scoped_schema pf) cf (in_scope tenant workspace) invocation db = Inr (Some receipt, db')"
  shows "evidence_for tenant workspace invocation (rv_evidence receipt)"
proof -
  obtain r where r: "load_start (scoped_schema pf) cf db invocation False = Inr (Some (Started r))"
    and s: "sx_manifest (in_scope tenant workspace) (adm_manifest (sr_request r))"
    and seen: "ss_observed (scoped_schema pf) (sr_receipt r) = Inr receipt"
    using assms by (auto simp: observe_start_def res_simps read_start_Some split: option.splits if_splits)
  show ?thesis
    using started_scope [OF r] s observed_same [OF seen] by (simp add: evidence_for_def in_scope_def)
qed

lemma scoped_claim_observed:
  assumes "claim_start_tx (scoped_schema pf) cf (in_scope tenant workspace) invocation worker lease expected fresh db
    = Inr (Claimed c, db')"
  shows "claim_start_tx (scoped_schema pf) cf (in_scope tenant' workspace') invocation worker' lease' expected' fresh' db'
      = (if (tenant', workspace') \<noteq> (tenant, workspace) then Inl Lg_Start_Conflict
         else if expected' \<noteq> expected then Inl (Lg_Concurrency ''invocation start expected another stream version'')
         else Inr (Observed (sc_receipt c), db'))"
    and "observe_start (scoped_schema pf) cf (in_scope tenant workspace) invocation db' = Inr (Some (sc_receipt c), db')"
proof -
  obtain s r l where st: "load_start (scoped_schema pf) cf db' invocation False = Inr (Some (Started r))"
    and r: "sr_event r = s" "se_sequence s = expected + 1"
    and scope: "st_tenant_id (rv_evidence (sr_receipt r)) = tenant" "st_workspace_id (rv_evidence (sr_receipt r)) = workspace"
    and c: "check_scoped_claimed pf \<lparr>sc_receipt = sr_receipt r, sc_lease = l\<rparr> = Inr c"
    using claim_tx_claimed(2) [OF assms] by (auto simp: in_scope_def scoped_schema_def)
  have rc: "sc_receipt c = sr_receipt r"
    using check_scoped_claimed_same [OF c] by simp
  obtain x where "scoped_receipt_snapshot (sr_receipt r) = Inr x"
    using c by (auto simp: check_scoped_claimed_def res_simps)
  then have obs: "ss_observed (scoped_schema pf) (sr_receipt r) = Inr (sr_receipt r)"
    using scoped_receipt_snapshot_same by (auto simp: scoped_schema_def check_scoped_observed_def)
  have sx: "sx_manifest (in_scope tenant' workspace') (adm_manifest (sr_request r))
      \<longleftrightarrow> (tenant', workspace') = (tenant, workspace)" for tenant' workspace'
    using started_scope [OF st] scope by (auto simp: in_scope_def)
  show "claim_start_tx (scoped_schema pf) cf (in_scope tenant' workspace') invocation worker' lease' expected' fresh' db'
      = (if (tenant', workspace') \<noteq> (tenant, workspace) then Inl Lg_Start_Conflict
         else if expected' \<noteq> expected then Inl (Lg_Concurrency ''invocation start expected another stream version'')
         else Inr (Observed (sc_receipt c), db'))"
    by (simp add: claim_start_tx_def st sx obs r rc map_err_def)
  show "observe_start (scoped_schema pf) cf (in_scope tenant workspace) invocation db' = Inr (Some (sc_receipt c), db')"
    by (simp add: observe_start_def read_start_tx_def st sx obs rc or_conflict_def map_err_def)
qed

end
