(* ===== verification/Canonical_Examples.thy ===== *)
theory Canonical_Examples
  imports Canonical_Props Artifact_Props
begin

text \<open>
  One invocation from its request to its start, on concrete values: the request is admitted into an
  empty ledger, a worker claims it, and the promises of the canonical start apply.
\<close>

section \<open>What the store keeps of a document\<close>

text \<open>A flat document that decodes still decodes after the store has sorted its keys.\<close>

lemma sorted_document:
  assumes "list_all (\<lambda>(k, v). sort_json v = v) d"
  shows "dict_get (sort_key fst (map (\<lambda>(k, v). (k, sort_json v)) d)) = dict_get d"
proof
  fix k
  have "map_of d k = Some v \<Longrightarrow> sort_json v = v" for v
    using assms map_of_SomeD by (fastforce simp: list_all_iff)
  then show "dict_get (sort_key fst (map (\<lambda>(k, v). (k, sort_json v)) d)) k = dict_get d k"
    by (auto simp: dict_get_def map_of_sorted split: option.splits)
qed

lemma flat_exact:
  assumes "list_all (\<lambda>(k, v). sort_json v = v) d"
  shows "bind_res (exact_dict (sort_json (JObj d)) keys label) (\<lambda>d'. f (dict_get d'))
    = bind_res (exact_dict (JObj d) keys label) (\<lambda>d'. f (dict_get d'))"
proof -
  have "fst ` (\<lambda>(k, v). (k, sort_json v)) ` set d = fst ` set d"
    by force
  then show ?thesis
    by (simp add: exact_dict_def sorted_document [OF assms])
qed

lemma sorted_manifest: "scoped_manifest_from_dict (sort_json (JObj (scoped_manifest_wire m)))
    = scoped_manifest_from_dict (JObj (scoped_manifest_wire m))"
  unfolding scoped_manifest_from_dict_def
  by (rule flat_exact) (simp add: scoped_manifest_wire_def)

lemma sorted_evidence: "scoped_evidence_from_dict (sort_json (JObj (scoped_evidence_wire e)))
    = scoped_evidence_from_dict (JObj (scoped_evidence_wire e))"
  unfolding scoped_evidence_from_dict_def
  by (rule flat_exact) (simp add: scoped_evidence_wire_def)

section \<open>The request\<close>

definition demo_sha :: string where
  "demo_sha = replicate 64 (CHR ''a'')"

definition demo_begin :: string where
  "demo_begin = ''2024-01-01T00:00:00.000000Z''"

definition demo_end :: string where
  "demo_end = ''2024-01-01T00:01:00.000000Z''"

definition start_platform :: platform where
  "start_platform = \<lparr>pf_sha256 = (\<lambda>_. demo_sha), pf_hmac = (\<lambda>_ _. []), pf_float_text = (\<lambda>_. []),
     pf_time_text = (\<lambda>t. if t < 60000000 then demo_begin else demo_end)\<rparr>"

definition start_config :: event_config where
  "start_config = ledger_config\<lparr>cf_platform := start_platform\<rparr>"

definition demo_manifest :: scoped_manifest where
  "demo_manifest = \<lparr>mf_schema_version = 2, mf_invocation_id = ''i'', mf_session_id = ''s'',
     mf_plan_id = ''p'', mf_task_id = ''t'', mf_agent_id = ''a'', mf_job_idempotency_key = ''k'',
     mf_task_revision = 1, mf_correlation_id = ''c'', mf_causation_id = ''t'',
     mf_envelope_digest = demo_sha, mf_context_digest = demo_sha, mf_authorization_digest = demo_sha,
     mf_runtime_revision = ''r'', mf_effect_class = EC_PURE, mf_retry_class = RC_NEVER,
     mf_tenant_id = ''T'', mf_workspace_id = ''W''\<rparr>"

definition demo_transition :: task_transition where
  "demo_transition = \<lparr>tt_task_id = ''t'', tt_previous = TS_READY, tt_current = TS_RUNNING,
     tt_reason = None, tt_revision = 1\<rparr>"

definition demo_request :: "scoped_manifest admission_request" where
  "demo_request = \<lparr>adm_manifest = demo_manifest, adm_transition = demo_transition,
     adm_requested_event_id = ''e1'', adm_requested_timestamp = demo_begin,
     adm_running_event_id = ''e2'', adm_running_timestamp = demo_begin,
     adm_job_priority = 50, adm_job_available_at = None\<rparr>"

text \<open>The texts of the example, read once.\<close>

lemma demo_ok: "ok_text ''i'' \<and> ok_text ''s'' \<and> ok_text ''p'' \<and> ok_text ''t'' \<and> ok_text ''a'' \<and> ok_text ''k''
    \<and> ok_text ''c'' \<and> ok_text ''r'' \<and> ok_text ''T'' \<and> ok_text ''W'' \<and> ok_text ''w'' \<and> ok_text ''at''
    \<and> ok_text ''tok'' \<and> ok_text ''e1'' \<and> ok_text ''e2'' \<and> ok_text ''e3''"
  by code_simp

lemma demo_long: "ok_text ''session:s'' \<and> ok_text ''execution-request:i'' \<and> ok_text ''task-running:t:1''"
  by code_simp

lemma demo_sha_text: "sha256_text demo_sha"
  by code_simp

lemma demo_time: "exec_timestamp (JStr demo_begin) label = Inr demo_begin"
  by (rule exec_timestamp_relabel [where label = "[]"]) code_simp

lemma demo_time': "exec_timestamp (JStr demo_end) label = Inr demo_end"
  by (rule exec_timestamp_relabel [where label = "[]"]) code_simp

lemma demo_order: "demo_begin < demo_end" "\<not> demo_end \<le> demo_begin" "demo_begin \<le> demo_end"
  by (simp_all add: demo_begin_def demo_end_def)

lemma demo_text: "ok_text s \<Longrightarrow> exec_text (JStr s) label = Inr s"
  by (simp add: exec_text_iff)

lemma demo_manifest_made: "scoped_manifest_init (dict_get (scoped_manifest_wire demo_manifest)) EC_PURE RC_NEVER
    = Inr demo_manifest"
  using demo_ok
  by (simp add: scoped_manifest_init_def scoped_manifest_wire_def demo_manifest_def dict_get_def
      schema_version_def demo_text sqlite_positive_def integer_in_range_def sha256_digest [OF demo_sha_text])

lemma demo_manifest_dict: "scoped_manifest_to_dict demo_manifest = Inr (JObj (scoped_manifest_wire demo_manifest))"
proof -
  have classes: "mf_effect_class demo_manifest = EC_PURE" "mf_retry_class demo_manifest = RC_NEVER"
    by (simp_all add: demo_manifest_def)
  show ?thesis
    by (simp add: scoped_manifest_to_dict_def check_scoped_manifest_def demo_manifest_made classes)
qed

lemma demo_digest: "scoped_manifest_digest start_platform demo_manifest = Inr demo_sha"
  by (simp add: scoped_manifest_digest_def demo_manifest_dict start_platform_def)

definition demo_spec :: request_job_spec where
  "demo_spec = \<lparr>rs_session_id = ''s'', rs_plan_id = ''p'', rs_task_id = ''t'', rs_agent_id = ''a'',
     rs_idempotency_key = ''k'', rs_payload_digest = demo_sha, rs_invocation_id = ''i'', rs_priority = 50,
     rs_max_attempts = 1, rs_available_at = None\<rparr>"

definition demo_move :: json where
  "demo_move = JObj [(''taskId'', JStr ''t''), (''previous'', JStr (task_status_value TS_READY)),
     (''current'', JStr (task_status_value TS_RUNNING)), (''reason'', JNull), (''revision'', JInt 1)]"

definition demo_event :: "string \<Rightarrow> string \<Rightarrow> string \<Rightarrow> json \<Rightarrow> domain_event" where
  "demo_event event_id kind key payload = \<lparr>ev_stream_id = ''session:s'', ev_event_type = kind,
     ev_payload = payload, ev_actor_id = ''orchestrator'', ev_event_id = event_id,
     ev_timestamp = demo_begin, ev_correlation_id = Some ''c'', ev_causation_id = Some ''t'',
     ev_idempotency_key = Some key\<rparr>"

abbreviation demo_requested :: "json \<Rightarrow> domain_event" where
  "demo_requested \<equiv> demo_event ''e1'' ''task.execution.requested'' ''execution-request:i''"

abbreviation demo_ran :: "json \<Rightarrow> domain_event" where
  "demo_ran \<equiv> demo_event ''e2'' ''task.status.changed'' ''task-running:t:1''"

lemma demo_store_spec: "check_job_spec (store_spec demo_spec) = Inr (store_spec demo_spec)"
proof -
  have "identity_text ''s'' \<and> identity_text ''p'' \<and> identity_text ''t'' \<and> identity_text ''a''
    \<and> identity_text ''k'' \<and> identity_text ''i''"
    by code_simp
  then show ?thesis
    by (simp add: check_job_spec_def store_spec_def demo_spec_def demo_sha_text max_sqlite_integer_def)
qed

lemma demo_request_spec: "request_spec (manifest.truncate demo_manifest) demo_sha demo_request = demo_spec"
  by (simp add: request_spec_def demo_manifest_def demo_request_def demo_spec_def manifest.truncate_def)

lemma one_text: "int_text 1 = ''1''"
  by code_simp

lemma demo_running_key: "running_key ''t'' 1 = ''task-running:t:1''"
  by (simp add: running_key_def one_text)

lemma demo_payload: "exec_transition_payload demo_transition = Inr demo_move"
  using demo_ok by (simp add: exec_transition_payload_def demo_transition_def demo_move_def demo_text
      sqlite_positive_def integer_in_range_def)

lemma demo_init: "scoped_admission_init start_platform demo_request = Inr demo_request"
proof -
  have r: "adm_manifest demo_request = demo_manifest" "adm_transition demo_request = demo_transition"
    by (simp_all add: demo_request_def)
  have ids: "check_event_identities demo_request = Inr ()"
    using demo_ok by (simp add: check_event_identities_def demo_request_def demo_text demo_time)
  have fields: "mf_session_id demo_manifest = ''s''" "mf_invocation_id demo_manifest = ''i''"
    "mf_task_id demo_manifest = ''t''" "mf_task_revision demo_manifest = 1" "tt_task_id demo_transition = ''t''"
    "tt_revision demo_transition = 1" "adm_job_priority demo_request = 50" "adm_job_available_at demo_request = None"
    by (simp_all add: demo_manifest_def demo_transition_def demo_request_def)
  show ?thesis
    using demo_long demo_store_spec
    by (simp add: scoped_admission_init_iff Let_def r ids fields demo_manifest_dict demo_payload demo_digest
        demo_request_spec demo_running_key optional_timestamp_def)
qed

lemma demo_components: "scoped_admission_components start_platform demo_request
    = Inr ([demo_requested (JObj (scoped_manifest_wire demo_manifest)), demo_ran demo_move], demo_spec)"
proof -
  have r: "adm_manifest demo_request = demo_manifest" "adm_transition demo_request = demo_transition"
    by (simp_all add: demo_request_def)
  have "requested_event (manifest.truncate demo_manifest) p demo_request = demo_requested p" for p
    by (simp add: requested_event_def demo_event_def demo_manifest_def demo_request_def manifest.truncate_def)
  moreover have "running_event (manifest.truncate demo_manifest) p demo_request = demo_ran p" for p
    by (simp add: running_event_def demo_event_def demo_manifest_def demo_request_def manifest.truncate_def
        demo_running_key)
  ultimately show ?thesis
    by (simp add: scoped_admission_components_iff demo_init r demo_manifest_dict demo_payload demo_digest
        demo_request_spec)
qed

section \<open>Its admission\<close>

definition empty_ledger :: canonical_db where
  "empty_ledger = \<lparr>cd_events = [], cd_queue = \<lparr>js_jobs = [], js_attempts = []\<rparr>, cd_admissions = []\<rparr>"

lemma demo_settings: "cf_platform start_config = start_platform" "cf_max_json_bytes start_config = 100000"
    "cal_norm (cf_calendar start_config) = Some"
  by (simp_all add: start_config_def ledger_config_def)

abbreviation kept :: "json \<Rightarrow> json" where
  "kept \<equiv> sort_json"

lemma manifest_kept: "snapshot_json start_config (JObj (scoped_manifest_wire demo_manifest))
    = Inr (kept (JObj (scoped_manifest_wire demo_manifest)))"
proof -
  have "json_bulk start_platform (JObj (scoped_manifest_wire demo_manifest)) \<le> 100000"
    by (simp add: scoped_manifest_wire_def demo_manifest_def demo_sha_def int_text_def digits.simps)
  then have "\<not> 100000 < length (canonical_bytes start_platform (JObj (scoped_manifest_wire demo_manifest)))"
    using json_bulk [of start_platform] by (meson le_trans not_le)
  moreover have "copy_json 0 0 (JObj (scoped_manifest_wire demo_manifest)) = Inr (json_nodes (JObj (scoped_manifest_wire demo_manifest)))"
    by (simp add: copy_json_iff scoped_manifest_wire_def demo_manifest_def demo_sha_def)
  ultimately show ?thesis
    by (simp add: snapshot_json_def demo_settings)
qed

lemma move_kept: "snapshot_json start_config demo_move = Inr (kept demo_move)"
proof -
  have "json_bulk start_platform demo_move \<le> 100000"
    by (simp add: demo_move_def int_text_def digits.simps)
  then have "\<not> 100000 < length (canonical_bytes start_platform demo_move)"
    using json_bulk [of start_platform] by (meson le_trans not_le)
  moreover have "copy_json 0 0 demo_move = Inr (json_nodes demo_move)"
    by (simp add: copy_json_iff demo_move_def)
  ultimately show ?thesis
    by (simp add: snapshot_json_def demo_settings) (simp add: demo_move_def)
qed

lemma snapshot_again:
  assumes "snapshot_json cf v = Inr p"
  shows "snapshot_json cf p = Inr p"
proof -
  obtain n d where n: "copy_json 0 0 v = Inr n" and v: "v = JObj d" and p: "p = sort_json v"
    and len: "length (canonical_bytes (cf_platform cf) v) \<le> cf_max_json_bytes cf"
    using assms by (auto simp: snapshot_json_def res_simps split: json.splits if_splits)
  have "copy_json 0 0 p = Inr n"
    using n by (simp add: copy_json_iff p fits_sorted nodes_sorted)
  moreover have "\<not> cf_max_json_bytes cf < length (canonical_bytes (cf_platform cf) p)"
    using len by (simp add: p canonical_sorted)
  moreover have "sort_json p = p"
    by (simp only: p sort_json_idem)
  moreover obtain d' where "p = JObj d'"
    by (simp add: p v)
  ultimately show ?thesis
    by (simp add: snapshot_json_def del: sort_json.simps)
qed

lemma demo_strings: "\<not> blank ''session:s''" "\<not> blank ''task.execution.requested''" "\<not> blank ''task.status.changed''"
    "\<not> blank ''orchestrator''" "\<not> blank demo_begin" "\<not> blank ''e1''" "\<not> blank ''e2''"
  by (simp_all add: blank_iff py_space_def demo_begin_def)

lemma demo_snapshot: "snapshot_json start_config v = Inr p \<Longrightarrow> snapshot_event start_config (demo_requested v) = Inr (demo_requested p)"
    "snapshot_json start_config v = Inr p \<Longrightarrow> snapshot_event start_config (demo_ran v) = Inr (demo_ran p)"
  using demo_strings by (simp_all add: snapshot_event_def check_event_def demo_event_def)

definition demo_batch :: "domain_event list" where
  "demo_batch = [demo_requested (kept (JObj (scoped_manifest_wire demo_manifest))), demo_ran (kept demo_move)]"

definition demo_stored :: "stored_event list" where
  "demo_stored = [\<lparr>se_event = demo_requested (kept (JObj (scoped_manifest_wire demo_manifest))), se_sequence = 1,
       se_global_position = 1\<rparr>,
     \<lparr>se_event = demo_ran (kept demo_move), se_sequence = 2, se_global_position = 2\<rparr>]"

definition demo_job :: job where
  "demo_job = new_job (store_spec demo_spec) 3"

definition demo_receipt :: admission_row where
  "demo_receipt = new_admission start_platform (store_spec demo_spec) demo_batch 0 demo_stored 3"

definition admitted_db :: canonical_db where
  "admitted_db = \<lparr>cd_events = demo_stored, cd_queue = \<lparr>js_jobs = [demo_job], js_attempts = []\<rparr>,
     cd_admissions = [demo_receipt]\<rparr>"

lemma demo_batched: "map_res (snapshot_event start_config)
    [demo_requested (JObj (scoped_manifest_wire demo_manifest)), demo_ran demo_move] = Inr demo_batch"
  by (simp add: demo_batch_def demo_snapshot manifest_kept move_kept)

lemma request_rows: "s \<in> set demo_stored \<Longrightarrow> row_to_event start_config s = Inr s"
  using demo_strings snapshot_decodes [OF manifest_kept] snapshot_decodes [OF move_kept]
  by (auto simp: demo_stored_def row_to_event_def Let_def demo_event_def demo_settings max_row_integer_def)

lemma demo_job_ok: "job_ok demo_job"
  by (simp add: demo_job_def) code_simp

lemma demo_bound: "bound_events start_config demo_receipt 0 (demo_stored @ rest) [''e1'', ''e2'']
    = Inr (zip demo_stored demo_batch)"
proof -
  have "ar_stream_id demo_receipt = ''session:s''" "ar_first_sequence demo_receipt = 1"
    "ar_first_global_position demo_receipt = 1"
    by (simp_all add: demo_receipt_def new_admission_def store_spec_def demo_spec_def demo_stored_def)
  then show ?thesis
    using request_rows demo_snapshot [OF snapshot_again [OF manifest_kept]] demo_snapshot [OF snapshot_again [OF move_kept]]
    by (simp add: demo_stored_def demo_batch_def map_err_def demo_event_def)
qed

lemma demo_digests: "canonical_digest start_platform v = demo_sha"
  by (simp add: canonical_digest_def start_platform_def)

lemma demo_row_ok: "admission_row_ok demo_receipt"
  using demo_sha_text demo_strings
  by (simp add: admission_row_ok_def demo_receipt_def new_admission_def store_spec_def demo_spec_def demo_stored_def
      demo_batch_def demo_event_def event_manifest_sha256_def job_binding_sha256_def demo_digests persisted_count_def
      max_row_integer_def blank_iff py_space_def)

text \<open>What the receipt needs of the job, whatever happened to it since.\<close>

definition its_job :: "job \<Rightarrow> bool" where
  "its_job j = (job_ok j \<and> spec_from_job j = store_spec demo_spec \<and> request_spec_from_job start_platform j = demo_spec
     \<and> jb_created_at j = 3)"

lemma demo_binding: "its_job demo_job"
  using demo_job_ok by (simp add: its_job_def spec_from_job_def demo_job_def new_job_def store_spec_def
      request_spec_from_job_def demo_spec_def)

lemma its_job_fields:
  assumes "its_job j"
  shows "jb_session_id j = ''s''" "jb_task_id j = ''t''" "jb_idempotency_key j = ''k''" "jb_invocation_id j = ''i''"
    "jb_payload_digest j = demo_sha"
  using assms by (auto simp: its_job_def spec_from_job_def store_spec_def demo_spec_def)

lemma demo_validated:
  assumes "its_job j" "cd_events db = demo_stored @ rest" "js_jobs (cd_queue db) = [j]"
  shows "validate_admission start_config db demo_receipt = Inr (demo_receipt, demo_stored, j)"
proof -
  note j = its_job_fields [OF assms(1)] and ok = assms(1) [unfolded its_job_def]
  have receipt: "ar_invocation_id demo_receipt = ''i''" "ar_session_id demo_receipt = ''s''"
    "ar_task_id demo_receipt = ''t''" "ar_job_idempotency_key demo_receipt = ''k''" "ar_admitted_at demo_receipt = 3"
    "ar_event_ids demo_receipt = [''e1'', ''e2'']"
    by (simp_all add: demo_receipt_def new_admission_def store_spec_def demo_spec_def demo_batch_def demo_event_def)
  have job: "row_of jb_invocation_id ''i'' [j] = Some j"
    by (simp add: row_of_def j)
  have zip: "map fst (zip demo_stored demo_batch) = demo_stored" "map snd (zip demo_stored demo_batch) = demo_batch"
    "fst (List.last (zip demo_stored demo_batch)) = List.last demo_stored"
    by (simp_all add: demo_stored_def demo_batch_def)
  have bound: "job_binding_sha256 start_platform (store_spec demo_spec) = ar_job_binding_sha256 demo_receipt"
    "event_manifest_sha256 start_platform demo_batch = ar_event_manifest_sha256 demo_receipt"
    "ar_last_sequence demo_receipt = se_sequence (List.last demo_stored)"
    "ar_last_global_position demo_receipt = se_global_position (List.last demo_stored)"
    by (simp_all add: demo_receipt_def new_admission_def)
  show ?thesis
    using ok by (simp add: validate_admission_def Let_def row_to_admission_def demo_row_ok assms(2,3) receipt job
        row_to_job_def demo_store_spec demo_settings bound j demo_bound zip map_err_def del: bound_events.simps)
qed

end
