(* ===== verification/Canonical_Run.thy ===== *)
theory Canonical_Run
  imports Canonical_Examples
begin

text \<open>
  The canonical start from the outside: the example of \<open>Canonical_Examples\<close> is admitted and claimed,
  and what every run of the store promises its callers is stated over such runs.
\<close>

section \<open>The example, admitted\<close>

lemma demo_spec_fields: "sp_session_id (store_spec demo_spec) = ''s''" "sp_task_id (store_spec demo_spec) = ''t''"
    "sp_invocation_id (store_spec demo_spec) = ''i''" "sp_idempotency_key (store_spec demo_spec) = ''k''"
  by (simp_all add: store_spec_def demo_spec_def)

lemma demo_appended: "append_batch start_config demo_batch 0 [] = Inr (demo_stored, demo_stored)"
  by (simp add: demo_batch_def demo_stored_def append_tx_def insert_event_def version_of_def last_position_def
      in_stream_def same_key_event_def demo_event_def max_row_integer_def map_err_def)

lemma demo_enqueued: "enqueue (store_spec demo_spec) 3 \<lparr>js_jobs = [], js_attempts = []\<rparr>
    = Inr (demo_job, \<lparr>js_jobs = [demo_job], js_attempts = []\<rparr>)"
  using demo_job_ok by (simp add: enqueue_def demo_job_def row_to_job_def)

lemma demo_first: "first_admission start_config empty_ledger demo_batch (store_spec demo_spec) (Some 0) 3
    = Inr ((demo_stored, demo_job), admitted_db)"
proof -
  have "insert_admission demo_receipt [] = Inr [demo_receipt]"
    using demo_sha_text by (simp add: insert_admission_def demo_receipt_def new_admission_def event_manifest_sha256_def
        job_binding_sha256_def demo_digests)
  moreover have "map se_global_position demo_stored = map (\<lambda>i. se_global_position (hd demo_stored) + int i) [0..<length demo_stored]"
    by (simp add: demo_stored_def)
  moreover have "version_of x [] = 0" for x
    by (simp add: version_of_def)
  moreover have "validate_admission start_config admitted_db demo_receipt = Inr (demo_receipt, demo_stored, demo_job)"
    by (rule demo_validated [OF demo_binding, where rest = "[]"]) (simp_all add: admitted_db_def)
  ultimately show ?thesis
    by (simp add: first_admission_def Let_def empty_ledger_def demo_appended demo_enqueued demo_settings map_err_def
        demo_receipt_def [symmetric] admitted_db_def list_ex_iff)
qed

lemma demo_admitted: "append_invocation_admission start_config
    [demo_requested (JObj (scoped_manifest_wire demo_manifest)), demo_ran demo_move] (store_spec demo_spec) (Some 0) 3
    empty_ledger = Inr ((demo_stored, demo_job), admitted_db)"
proof -
  have "admissible start_config [demo_requested (JObj (scoped_manifest_wire demo_manifest)), demo_ran demo_move]
      (store_spec demo_spec) (Some 0) demo_batch"
    unfolding admissible_def demo_batched
    by (simp add: demo_store_spec demo_spec_fields)
       (simp add: demo_batch_def demo_event_def check_row_integer_def check_option_def max_row_integer_def)
  then show ?thesis
    unfolding admission_iff using demo_first by (auto simp: empty_ledger_def)
qed

lemma sorted_move: "exec_transition_from_payload (sort_json demo_move) = exec_transition_from_payload demo_move"
  unfolding exec_transition_from_payload_def demo_move_def by (rule flat_exact) simp

lemma demo_presented: "presents demo_request [demo_requested (JObj (scoped_manifest_wire demo_manifest)), demo_ran demo_move]
    (map se_event demo_stored)"
proof -
  have "scoped_manifest_from_dict (kept (JObj (scoped_manifest_wire demo_manifest))) = Inr demo_manifest"
    using demo_manifest_dict unfolding sorted_manifest
    by (simp only: scoped_manifest_encode scoped_manifest_decode scoped_manifest_codec.encoded_decodes)
  moreover have "exec_transition_from_payload (kept demo_move) = Inr demo_transition"
    unfolding sorted_move by (rule transition_round_trip [OF demo_payload])
  ultimately show ?thesis
    by (simp add: presents_def demo_stored_def event_body_def demo_event_def demo_request_def del: sort_json.simps)
qed

lemma demo_request_recovered: "scoped_admission_from_components start_platform (map se_event demo_stored) demo_spec = Inr demo_request"
  by (rule presented_accepted [OF demo_components demo_presented])

definition demo_schema where
  "demo_schema = scoped_schema start_platform"

lemma demo_canonical:
  assumes "its_job j" "cd_events db = demo_stored @ rest" "js_jobs (cd_queue db) = [j]"
  shows "canonical_admission demo_schema start_config db demo_receipt ''i'' = Inr (demo_receipt, demo_request, j)"
proof -
  have "request_spec_from_job start_platform j = demo_spec"
    using assms(1) by (simp add: its_job_def)
  moreover have "ar_invocation_id demo_receipt = ''i''"
    "mf_invocation_id (adm_manifest demo_request) = ''i''" "adm_manifest demo_request = demo_manifest"
    by (simp_all add: demo_receipt_def new_admission_def store_spec_def demo_spec_def demo_request_def demo_manifest_def)
  ultimately show ?thesis
    by (simp add: canonical_admission_def demo_validated [OF assms] its_job_fields [OF assms(1)] or_conflict_def
        map_err_def demo_settings demo_schema_def scoped_schema_def demo_request_recovered demo_digest)
qed

lemma demo_no_start: "start_candidates start_config admitted_db ''i'' ''t'' = Inr []"
proof -
  have "filter (start_row ''i'' ''t'') demo_stored = []"
    by (simp add: demo_stored_def start_row_def demo_event_def start_key_def legacy_start_key_def)
  then show ?thesis
    by (simp add: start_candidates_def admitted_db_def or_conflict_def map_err_def)
qed

lemma demo_loaded: "load_start demo_schema start_config admitted_db ''i'' False
    = Inr (Some (Unstarted demo_receipt demo_request demo_job))"
proof -
  have rows: "filter (\<lambda>r. ar_invocation_id r = ''i'') (cd_admissions admitted_db) = [demo_receipt]"
    by (simp add: admitted_db_def demo_receipt_def new_admission_def demo_spec_fields)
  have "mf_invocation_id (adm_manifest demo_request) = ''i''" "mf_task_id (adm_manifest demo_request) = ''t''"
    by (simp_all add: demo_request_def demo_manifest_def)
  moreover have "validate_unstarted admitted_db demo_job = Inr ()"
    by (simp add: validate_unstarted_def admitted_db_def attempts_of_def recovery_pair_ok_def demo_job_def new_job_def
        store_spec_def demo_spec_def)
  moreover have "canonical_admission demo_schema start_config admitted_db demo_receipt ''i'' = Inr (demo_receipt, demo_request, demo_job)"
    by (rule demo_canonical [OF demo_binding, where rest = "[]"]) (simp_all add: admitted_db_def)
  ultimately show ?thesis
    by (simp add: load_start_def rows demo_no_start)
qed

section \<open>The example, claimed\<close>

definition first_draw :: start_fresh where
  "first_draw = \<lparr>fr_now = 5, fr_attempt_id = ''at'', fr_event_id = ''e3'', fr_lease_token = ''tok''\<rparr>"

definition running_job :: job where
  "running_job = claimed_job ''w'' demo_sha 5 60000005 demo_job"

definition demo_attempt :: attempt where
  "demo_attempt = new_attempt ''at'' ''w'' demo_sha 5 60000005 demo_job"

definition demo_lease :: lease where
  "demo_lease = new_lease ''at'' ''w'' ''tok'' 5 60000005 demo_job"

definition demo_evidence :: scoped_evidence where
  "demo_evidence = \<lparr>st_schema_version = 3, st_invocation_id = ''i'', st_session_id = ''s'', st_plan_id = ''p'',
     st_task_id = ''t'', st_agent_id = ''a'', st_job_idempotency_key = ''k'', st_attempt_id = ''at'',
     st_attempt_number = 1, st_lease_epoch = 1, st_worker_id = ''w'', st_lease_token_digest = demo_sha,
     st_claimed_at = demo_begin, st_lease_expires_at = demo_end, st_manifest_digest = demo_sha,
     st_envelope_digest = demo_sha, st_context_digest = demo_sha, st_authorization_digest = demo_sha,
     st_runtime_revision = ''r'', st_correlation_id = ''c'', st_causation_id = ''t'', st_tenant_id = ''T'',
     st_workspace_id = ''W''\<rparr>"

definition started_envelope :: "json \<Rightarrow> domain_event" where
  "started_envelope payload = \<lparr>ev_stream_id = ''session:s'', ev_event_type = ''task.invocation.started'',
     ev_payload = payload, ev_actor_id = ''orchestrator'', ev_event_id = ''e3'', ev_timestamp = demo_begin,
     ev_correlation_id = Some ''c'', ev_causation_id = Some ''t'', ev_idempotency_key = Some (start_key ''i'')\<rparr>"

definition started :: stored_event where
  "started = \<lparr>se_event = started_envelope (kept (JObj (scoped_evidence_wire demo_evidence))), se_sequence = 3,
     se_global_position = 3\<rparr>"

definition claimed_db :: canonical_db where
  "claimed_db = \<lparr>cd_events = demo_stored @ [started], cd_queue = \<lparr>js_jobs = [running_job], js_attempts = [demo_attempt]\<rparr>,
     cd_admissions = [demo_receipt]\<rparr>"

lemma demo_times: "pf_time_text start_platform 5 = demo_begin" "pf_time_text start_platform 60000005 = demo_end"
    "pf_sha256 start_platform x = demo_sha"
  by (simp_all add: start_platform_def)

lemma demo_evidence_for: "start_evidence_for demo_schema start_platform demo_manifest demo_sha demo_lease = demo_evidence"
  by (simp add: start_evidence_for_def demo_schema_def scoped_schema_def demo_manifest_def demo_lease_def new_lease_def
      demo_evidence_def demo_job_def new_job_def store_spec_def demo_spec_def demo_times token_digest_of_def
      start_evidence.extend_def scoped_evidence.fields_def)

lemma demo_evidence_made: "check_scoped_evidence demo_evidence = Inr demo_evidence"
  using demo_ok
  by (simp add: check_scoped_evidence_def scoped_evidence_init_def scoped_evidence_wire_def demo_evidence_def dict_get_def
      schema_version_def demo_text sqlite_positive_def integer_in_range_def sha256_digest [OF demo_sha_text]
      demo_time demo_time' demo_order)

lemma demo_evidence_dict: "scoped_evidence_to_dict demo_evidence = Inr (JObj (scoped_evidence_wire demo_evidence))"
  by (simp add: scoped_evidence_to_dict_def demo_evidence_made)

lemma demo_evidence_back: "scoped_evidence_from_dict (JObj (scoped_evidence_wire demo_evidence)) = Inr demo_evidence"
  using demo_evidence_dict
  by (simp only: scoped_evidence_encode scoped_evidence_decode scoped_evidence_codec.encoded_decodes)

lemma demo_claim_candidate: "select_candidate 5 (Some ''i'') \<lparr>js_jobs = [demo_job], js_attempts = []\<rparr>
    = Inr (Some demo_job)"
proof -
  have "jb_status demo_job = IS_QUEUED" "jb_attempts_started demo_job = 0" "jb_available_at demo_job = 3"
    "jb_invocation_id demo_job = ''i''" "jb_lease_epoch demo_job = 0" "jb_result_ref demo_job = None"
    "jb_last_error demo_job = None" "jb_created_at demo_job = 3" "jb_updated_at demo_job = 3" "jb_max_attempts demo_job = 1"
    by (simp_all add: demo_job_def new_job_def store_spec_def demo_spec_def)
  then show ?thesis
    using demo_job_ok by (simp add: select_candidate_def claimable_def row_to_job_def fresh_columns_def
        clock_behind_def max_sqlite_integer_def first_by_def)
qed

lemma demo_claim_first: "claim_first (token_digest_of start_platform) ''w'' (Some ''i'') 5 60000005 ''at'' ''tok''
    \<lparr>js_jobs = [demo_job], js_attempts = []\<rparr> = Inr (Some demo_lease, \<lparr>js_jobs = [running_job], js_attempts = [demo_attempt]\<rparr>)"
proof -
  have texts: "identity_text ''w''" "identity_text ''at''" "identity_text ''tok''"
    by code_simp+
  have j: "jb_status demo_job = IS_QUEUED" "jb_attempts_started demo_job = 0" "jb_available_at demo_job = 3"
    "jb_invocation_id demo_job = ''i''" "jb_lease_epoch demo_job = 0" "jb_result_ref demo_job = None"
    "jb_last_error demo_job = None" "jb_lease_token_digest demo_job = None"
    by (simp_all add: demo_job_def new_job_def store_spec_def demo_spec_def)
  show ?thesis
    by (simp add: claim_first_def texts demo_claim_candidate Let_def update_where_def j fresh_columns_def token_digest_of_def
        demo_times running_job_def demo_attempt_def demo_lease_def)
qed

lemma running_job_ok: "job_ok running_job"
  by (simp add: running_job_def demo_job_def claimed_job_def demo_sha_def) code_simp

lemma running_job_its: "its_job running_job"
  using running_job_ok demo_binding
  by (simp add: its_job_def spec_from_job_def running_job_def claimed_job_def request_spec_from_job_def)

lemma demo_attempt_ok: "row_to_attempt demo_attempt = Inr demo_attempt"
proof -
  have "attempt_ok demo_attempt"
    by (simp add: demo_attempt_def demo_job_def new_attempt_def demo_sha_def) code_simp
  then show ?thesis
    by (simp add: row_to_attempt_def)
qed

lemma evidence_kept: "snapshot_json start_config (JObj (scoped_evidence_wire demo_evidence))
    = Inr (kept (JObj (scoped_evidence_wire demo_evidence)))"
proof -
  have "json_bulk start_platform (JObj (scoped_evidence_wire demo_evidence)) \<le> 100000"
    by (simp add: scoped_evidence_wire_def demo_evidence_def demo_sha_def demo_begin_def demo_end_def int_text_def digits.simps)
  then have "\<not> 100000 < length (canonical_bytes start_platform (JObj (scoped_evidence_wire demo_evidence)))"
    using json_bulk [of start_platform] by (meson le_trans not_le)
  moreover have "copy_json 0 0 (JObj (scoped_evidence_wire demo_evidence)) = Inr (json_nodes (JObj (scoped_evidence_wire demo_evidence)))"
    by (simp add: copy_json_iff scoped_evidence_wire_def demo_evidence_def demo_sha_def demo_begin_def demo_end_def)
  ultimately show ?thesis
    by (simp add: snapshot_json_def demo_settings)
qed

lemma demo_start_snapshot: "snapshot_event start_config (started_envelope (JObj (scoped_evidence_wire demo_evidence)))
    = Inr (started_envelope (kept (JObj (scoped_evidence_wire demo_evidence))))"
proof -
  have "\<not> blank ''task.invocation.started''"
    by (simp add: blank_iff py_space_def)
  then show ?thesis
    using demo_strings by (simp add: snapshot_event_def check_event_def started_envelope_def evidence_kept)
qed

lemma demo_start_row: "row_to_event start_config started = Inr started"
proof -
  have "\<not> blank ''task.invocation.started''" "\<not> blank ''e3''"
    by (simp_all add: blank_iff py_space_def)
  then show ?thesis
    using demo_strings snapshot_decodes [OF evidence_kept]
    by (simp add: started_def row_to_event_def Let_def started_envelope_def demo_settings max_row_integer_def)
qed

lemma demo_candidates: "start_candidates start_config claimed_db ''i'' ''t'' = Inr [started]"
proof -
  have "filter (start_row ''i'' ''t'') (demo_stored @ [started]) = [started]"
    by (simp add: demo_stored_def started_def start_row_def demo_event_def start_key_def legacy_start_key_def started_envelope_def)
  moreover have "relevant_start ''i'' ''t'' started"
    by (simp add: relevant_start_def started_def started_envelope_def Let_def)
  ultimately show ?thesis
    by (simp add: start_candidates_def claimed_db_def or_conflict_def map_err_def demo_start_row)
qed

definition seen_start :: "scoped_evidence start_receipt" where
  "seen_start = \<lparr>rv_event_id = ''e3'', rv_stream_id = ''session:s'', rv_sequence = 3, rv_global_position = 3,
     rv_evidence = demo_evidence\<rparr>"

definition demo_claimed :: "scoped_evidence start_claimed" where
  "demo_claimed = \<lparr>sc_receipt = seen_start, sc_lease = wire_lease start_platform demo_lease\<rparr>"

lemma seen_made: "check_scoped_receipt seen_start = Inr seen_start"
  using demo_ok demo_long
  by (simp add: check_scoped_receipt_def scoped_receipt_init_def scoped_receipt_wire_def seen_start_def dict_get_def
      demo_text sqlite_positive_def integer_in_range_def demo_evidence_dict demo_evidence_back)
     (simp add: demo_evidence_def)

lemma seen_snapshot: "scoped_receipt_snapshot seen_start = Inr seen_start"
proof -
  have doc: "scoped_receipt_to_dict seen_start = Inr (JObj (scoped_receipt_wire seen_start))"
    by (simp add: scoped_receipt_to_dict_def seen_made) (simp add: seen_start_def demo_evidence_dict)
  then show ?thesis
    using scoped_receipt_decode_wire [OF doc] by (simp add: scoped_receipt_snapshot_def)
qed

lemma demo_lease_kept: "lease_snapshot (wire_lease start_platform demo_lease) = Inr (wire_lease start_platform demo_lease)"
  using demo_ok
  by (simp add: lease_snapshot_def wire_lease_def demo_lease_def new_lease_def demo_job_def new_job_def store_spec_def
      demo_spec_def demo_times demo_text demo_time demo_time' demo_order sqlite_positive_def integer_in_range_def
      sha256_digest [OF demo_sha_text])

lemma demo_claimed_made: "check_scoped_claimed start_platform demo_claimed = Inr demo_claimed"
proof -
  have "validate_scoped_start_lease_binding start_platform seen_start (wire_lease start_platform demo_lease) = Inr ()"
    by (simp add: validate_scoped_start_lease_binding_def Let_def seen_start_def demo_evidence_def wire_lease_def
        demo_lease_def new_lease_def demo_job_def new_job_def store_spec_def demo_spec_def demo_times token_digest_of_def)
  then show ?thesis
    by (simp add: check_scoped_claimed_def demo_claimed_def seen_snapshot demo_lease_kept)
qed

definition demo_readback where
  "demo_readback = \<lparr>sr_admission = demo_receipt, sr_request = demo_request, sr_job = running_job,
     sr_attempt = demo_attempt, sr_event = started, sr_receipt = seen_start\<rparr>"

lemma demo_readback_valid: "validate_start_readback demo_schema start_config claimed_db demo_receipt demo_request
    running_job started True = Inr demo_readback"
proof -
  let ?m = "adm_manifest demo_request"
  have m: "?m = demo_manifest"
    by (simp add: demo_request_def)
  have event: "ev_event_type (se_event started) = ''task.invocation.started''" "ev_event_id (se_event started) = ''e3''"
    "ev_payload (se_event started) = kept (JObj (scoped_evidence_wire demo_evidence))"
    "ev_stream_id (se_event started) = ''session:s''" "se_sequence started = 3" "se_global_position started = 3"
    by (simp_all add: started_def started_envelope_def)
  have decoded: "scoped_evidence_from_event ''task.invocation.started'' (kept (JObj (scoped_evidence_wire demo_evidence)))
      = Inr demo_evidence"
    unfolding scoped_evidence_from_event_def sorted_evidence by (simp add: event_type_is_def demo_evidence_back)
  have envelope: "envelope_consistent demo_receipt demo_manifest started demo_evidence"
    by (simp add: envelope_consistent_def Let_def started_def started_envelope_def demo_receipt_def new_admission_def
        demo_evidence_def demo_manifest_def demo_spec_fields demo_stored_def)
  have job: "jb_payload_digest running_job = demo_sha" "jb_max_attempts running_job = 1"
    "jb_attempts_started running_job = 1" "jb_lease_epoch running_job = 1" "jb_status running_job = IS_RUNNING"
    "jb_lease_owner running_job = Some ''w''" "jb_lease_token_digest running_job = Some demo_sha"
    "jb_heartbeat_at running_job = Some 5" "jb_lease_expires_at running_job = Some 60000005"
    "jb_updated_at running_job = 5" "jb_created_at running_job = 3" "jb_finished_at running_job = None"
    "jb_invocation_id running_job = ''i''"
    by (simp_all add: running_job_def claimed_job_def demo_job_def new_job_def store_spec_def demo_spec_def)
  have evidence: "evidence_consistent demo_schema demo_manifest demo_sha running_job demo_evidence"
    by (simp add: evidence_consistent_def demo_schema_def scoped_schema_def demo_manifest_def demo_evidence_def job)
  have attempt: "demo_attempt = \<lparr>at_attempt_id = ''at'', at_invocation_id = ''i'', at_attempt_number = 1,
      at_lease_epoch = 1, at_worker_id = ''w'', at_lease_token_digest = demo_sha, at_status = AT_RUNNING,
      at_started_at = 5, at_heartbeat_at = 5, at_lease_expires_at = 60000005, at_finished_at = None, at_error = None,
      at_result_ref = None\<rparr>"
    by (simp add: demo_attempt_def new_attempt_def demo_job_def new_job_def store_spec_def demo_spec_def)
  have attempts: "take 2 (attempts_of ''i'' (cd_queue claimed_db)) = [demo_attempt]"
    by (simp add: attempts_of_def claimed_db_def attempt)
  have pair: "recovery_pair_ok running_job (Some demo_attempt) 1"
    by (simp add: recovery_pair_ok_def job attempt)
  have consistent: "attempt_consistent start_platform running_job demo_attempt demo_evidence"
    by (simp add: attempt_consistent_def job attempt demo_evidence_def demo_times)
  have owned: "freshly_owned start_platform running_job demo_attempt demo_evidence"
    by (simp add: freshly_owned_def job attempt demo_evidence_def demo_times)
  have i: "mf_invocation_id demo_manifest = ''i''"
    by (simp add: demo_manifest_def)
  show ?thesis
    using seen_made
    by (simp add: validate_start_readback_def Let_def demo_settings m event demo_schema_def scoped_schema_def decoded
        or_conflict_def map_err_def demo_digest envelope evidence [unfolded demo_schema_def scoped_schema_def]
        i attempts demo_attempt_ok pair consistent owned seen_start_def demo_readback_def del: sort_json.simps)
qed

lemma demo_read_back: "read_start_tx demo_schema start_config claimed_db ''i'' True = Inr (Some demo_readback)"
proof -
  have rows: "filter (\<lambda>r. ar_invocation_id r = ''i'') (cd_admissions claimed_db) = [demo_receipt]"
    by (simp add: claimed_db_def demo_receipt_def new_admission_def demo_spec_fields)
  have "mf_invocation_id (adm_manifest demo_request) = ''i''" "mf_task_id (adm_manifest demo_request) = ''t''"
    by (simp_all add: demo_request_def demo_manifest_def)
  moreover have "canonical_admission demo_schema start_config claimed_db demo_receipt ''i''
      = Inr (demo_receipt, demo_request, running_job)"
    by (rule demo_canonical [OF running_job_its, where rest = "[started]"]) (simp_all add: claimed_db_def)
  ultimately show ?thesis
    by (simp add: read_start_tx_def load_start_def rows demo_candidates demo_readback_valid)
qed

lemma demo_version: "version_of ''session:s'' demo_stored = 2" "last_position demo_stored = 2"
  by (simp_all add: version_of_def last_position_def in_stream_def demo_stored_def demo_event_def)

lemma demo_start_appended: "append_tx start_config (started_envelope (kept (JObj (scoped_evidence_wire demo_evidence))))
    (Some 2) None demo_stored = Inr ((started, True), demo_stored @ [started])"
proof -
  have fields: "ev_stream_id (started_envelope p) = ''session:s''" "ev_event_id (started_envelope p) = ''e3''"
    "ev_idempotency_key (started_envelope p) = Some (start_key ''i'')" for p
    by (simp_all add: started_envelope_def)
  have "filter (same_key_event (started_envelope p)) demo_stored = []" for p
    by (simp add: same_key_event_def fields demo_stored_def demo_event_def start_key_def)
  moreover have "\<not> list_ex (same_key_event (started_envelope p)) demo_stored" for p
    by (simp add: same_key_event_def fields demo_stored_def demo_event_def start_key_def)
  moreover have "''e3'' \<notin> row_event_id ` set demo_stored"
    by (simp add: demo_stored_def demo_event_def)
  moreover have "\<not> list_ex (\<lambda>r. in_stream ''session:s'' r \<and> se_sequence r = 3) demo_stored"
    by (simp add: demo_stored_def)
  ultimately show ?thesis
    by (simp add: append_tx_def insert_event_def fields demo_version max_row_integer_def started_def del: sort_json.simps)
qed

lemma demo_minted: "mint_start demo_schema start_config (in_scope ''T'' ''W'') admitted_db demo_receipt demo_manifest demo_job
    ''i'' ''w'' 60000005 2 first_draw = Inr (Claimed demo_claimed, claimed_db)"
proof -
  have ids: "caller_identity ''at''" "caller_identity ''e3''" "caller_identity ''tok''"
    by code_simp+
  have new: "''e3'' \<notin> row_event_id ` set demo_stored"
    by (simp add: demo_stored_def demo_event_def)
  have first: "first_lease_of demo_job ''w'' 60000005 first_draw demo_lease"
    by (simp add: first_lease_of_def demo_lease_def new_lease_def demo_job_def new_job_def store_spec_def demo_spec_def
        first_draw_def)
  have event: "start_event demo_receipt demo_manifest p ''e3'' demo_begin ''i'' = started_envelope p" for p
    by (simp add: start_event_def started_envelope_def demo_receipt_def new_admission_def demo_spec_fields demo_manifest_def)
  have claimed_at: "pf_time_text start_platform (ls_claimed_at demo_lease) = demo_begin"
    by (simp add: demo_lease_def new_lease_def demo_times)
  have db: "admitted_db\<lparr>cd_events := demo_stored @ [started], cd_queue := \<lparr>js_jobs = [running_job], js_attempts = [demo_attempt]\<rparr>\<rparr>
      = claimed_db"
    by (simp add: admitted_db_def claimed_db_def)
  have seen: "sr_event demo_readback = started" "rv_evidence seen_start = demo_evidence"
    "sr_receipt demo_readback = seen_start"
    by (simp_all add: demo_readback_def seen_start_def)
  have scope: "sx_evidence (in_scope ''T'' ''W'') demo_evidence" "st_lease_token_digest demo_evidence = demo_sha"
    by (simp_all add: in_scope_def demo_evidence_def)
  have ss: "ss_digest demo_schema demo_manifest = Inr demo_sha" "ss_evidence demo_schema demo_evidence = Inr demo_evidence"
    "ss_encode demo_schema demo_evidence = Inr (JObj (scoped_evidence_wire demo_evidence))"
    "ss_claimed demo_schema \<lparr>sc_receipt = seen_start, sc_lease = wire_lease start_platform demo_lease\<rparr> = Inr demo_claimed"
    using demo_claimed_made [unfolded demo_claimed_def]
    by (simp_all add: demo_schema_def scoped_schema_def demo_digest demo_evidence_made demo_evidence_dict demo_claimed_def)
  have confirmed: "confirm_start demo_schema start_config (in_scope ''T'' ''W'') ''i'' ''tok'' demo_lease started claimed_db
      = Inr (Claimed demo_claimed, claimed_db)"
    by (simp add: confirm_start_def demo_read_back or_conflict_def map_err_def Let_def seen scope token_digest_of_def
        demo_settings demo_times ss)
  have queue: "cd_queue admitted_db = \<lparr>js_jobs = [demo_job], js_attempts = []\<rparr>" "cd_events admitted_db = demo_stored"
    by (simp_all add: admitted_db_def)
  have fresh: "fr_now first_draw = 5" "fr_attempt_id first_draw = ''at''" "fr_event_id first_draw = ''e3''"
    "fr_lease_token first_draw = ''tok''"
    by (simp_all add: first_draw_def)
  have "se_sequence started = 3"
    by (simp add: started_def)
  then show ?thesis
    by (simp add: mint_start_def Let_def ids queue fresh new demo_settings demo_claim_first map_err_def first or_conflict_def
        ss demo_evidence_for claimed_at event demo_start_snapshot demo_start_appended db confirmed del: sort_json.simps)
qed

lemma demo_claim: "claim_start_tx demo_schema start_config (in_scope ''T'' ''W'') ''i'' ''w'' 60000000 2 first_draw admitted_db
    = Inr (Claimed demo_claimed, claimed_db)"
proof -
  have scope: "sx_manifest (in_scope ''T'' ''W'') demo_manifest" "adm_manifest demo_request = demo_manifest"
    by (simp_all add: in_scope_def demo_manifest_def demo_request_def)
  have version: "version_of (ar_stream_id demo_receipt) (cd_events admitted_db) = 2"
    by (simp add: demo_receipt_def new_admission_def demo_spec_fields admitted_db_def demo_version)
  have deadline: "lease_deadline (fr_now first_draw) 60000000 = Inr 60000005"
    by (simp add: lease_deadline_def first_draw_def max_instant_def)
  have candidate: "select_candidate (fr_now first_draw) (Some ''i'') (cd_queue admitted_db) = Inr (Some demo_job)"
    using demo_claim_candidate by (simp add: admitted_db_def first_draw_def)
  show ?thesis
    by (simp add: claim_start_tx_def demo_loaded scope version deadline candidate map_err_def demo_minted)
qed

section \<open>What a store promises\<close>

abbreviation claim_as where
  "claim_as cf tenant workspace invocation worker lease expected fresh fate \<equiv>
     claim_scoped_invocation_start cf tenant workspace invocation worker lease expected fresh fate"

lemma transact_acknowledged:
  "transact Acknowledged body s = (Inr a, s') \<longleftrightarrow>
     \<not> lg_poisoned s \<and> body (lg_db s) = Inr (a, lg_db s') \<and> s' = s\<lparr>lg_db := lg_db s'\<rparr>"
  by (cases s; cases s'; cases "body (lg_db s)") (auto simp: transact_def)

lemma claim_as_body:
  "claim_as cf tenant workspace invocation worker lease expected fresh Acknowledged s = (Inr res, s') \<longleftrightarrow>
     check_claim_arguments [tenant, workspace, invocation, worker] lease expected = Inr () \<and>
     transact Acknowledged (claim_start_tx (scoped_schema (cf_platform cf)) cf (in_scope tenant workspace)
       invocation worker lease expected fresh) s = (Inr res, s')"
  by (auto simp: claim_scoped_invocation_start_def transact_acknowledged split: sum.splits)

lemma admit_body:
  "admit_invocation cf events sp expected now Acknowledged s = (Inr res, s') \<longleftrightarrow>
     transact Acknowledged (append_invocation_admission cf events sp expected now) s = (Inr res, s')"
proof (cases "check_admission cf events sp expected")
  case (Inr c)
  then show ?thesis
    by (cases c) (auto simp: admit_invocation_def append_invocation_admission_def transact_acknowledged)
qed (auto simp: admit_invocation_def append_invocation_admission_def transact_acknowledged)

lemma lost_commit:
  assumes "transact Acknowledged body s = (Inr a, s1)"
  shows "transact (Exit_Unknown durable) body s = (Inl Lg_Ambiguous, poison (if durable then s1 else s))"
    and "reopen (poison (if durable then s1 else s)) = (if durable then s1 else s)"
proof -
  have ok: "\<not> lg_poisoned s" and body: "body (lg_db s) = Inr (a, lg_db s1)" and s1: "s1 = s\<lparr>lg_db := lg_db s1\<rparr>"
    using assms by (simp_all add: transact_acknowledged)
  show "transact (Exit_Unknown durable) body s = (Inl Lg_Ambiguous, poison (if durable then s1 else s))"
    using s1 by (simp add: transact_def ok body)
  have "\<not> lg_poisoned s1"
    using ok by (subst s1) simp
  then show "reopen (poison (if durable then s1 else s)) = (if durable then s1 else s)"
    using ok by (cases s; cases s1) (simp add: reopen_def poison_def)
qed

lemma demo_reach:
  assumes "admit_invocation start_config [demo_requested (JObj (scoped_manifest_wire demo_manifest)), demo_ran demo_move]
      (store_spec demo_spec) (Some 0) 3 Acknowledged \<lparr>lg_db = empty_ledger, lg_poisoned = False\<rparr> = (a, s1)"
    and "claim_as start_config ''T'' ''W'' ''i'' ''w'' 60000000 2 first_draw Acknowledged s1 = (Inr (Claimed c), s2)"
  shows "reach nothing_handed (start_step start_config) (s2, [''i''])"
proof -
  have "reach nothing_handed (start_step start_config) (\<lparr>lg_db = empty_ledger, lg_poisoned = False\<rparr>, [])"
    by (rule reach_init) (simp add: nothing_handed_def)
  then have "reach nothing_handed (start_step start_config) (s1, [])"
    by (rule reach_step) (rule admits [OF assms(1)])
  from reach_step [OF this claims_scoped [OF assms(2)]] show ?thesis
    by (simp add: new_lease_for_def)
qed

text \<open>The example as a run of a store.\<close>

definition first_store :: ledger_store where
  "first_store = \<lparr>lg_db = empty_ledger, lg_poisoned = False\<rparr>"

definition request_events :: "domain_event list" where
  "request_events = [demo_requested (JObj (scoped_manifest_wire demo_manifest)), demo_ran demo_move]"

lemma demo_admits: "admit_invocation start_config request_events (store_spec demo_spec) (Some 0) 3 Acknowledged first_store
    = (Inr (demo_stored, demo_job), \<lparr>lg_db = admitted_db, lg_poisoned = False\<rparr>)"
  using demo_admitted by (simp add: admit_body transact_acknowledged request_events_def first_store_def)

lemma demo_callers: "caller_identity ''T'' \<and> caller_identity ''W'' \<and> caller_identity ''i'' \<and> caller_identity ''w''
    \<and> caller_identity ''x''"
  by code_simp

lemma demo_claims: "claim_as start_config ''T'' ''W'' ''i'' ''w'' 60000000 2 first_draw Acknowledged
    \<lparr>lg_db = admitted_db, lg_poisoned = False\<rparr> = (Inr (Claimed demo_claimed), \<lparr>lg_db = claimed_db, lg_poisoned = False\<rparr>)"
  using demo_claim demo_callers
  by (simp add: claim_as_body transact_acknowledged check_claim_arguments_def check_cursor_def check_row_integer_def
      max_row_integer_def map_err_def demo_settings demo_schema_def)

text \<open>C3. Whatever the transactions of a store end in, however often its instances are replaced, and whatever
  admissions and claims of either schema run in between, no two callers are handed the lease of one
  invocation by a start claim.\<close>

theorem start_minted_once:
  assumes "reach nothing_handed (start_step cf) (s, handed)"
  shows "distinct handed"
  using handed_once [OF assms] by simp

lemma start_minted_once_witness: "reach nothing_handed (start_step start_config)
    (\<lparr>lg_db = claimed_db, lg_poisoned = False\<rparr>, [''i'']) \<and> distinct [''i'']"
proof -
  have "reach nothing_handed (start_step start_config) (\<lparr>lg_db = claimed_db, lg_poisoned = False\<rparr>, [''i''])"
    by (rule demo_reach [OF demo_admits [unfolded request_events_def first_store_def] demo_claims])
  with start_minted_once [OF this] show ?thesis
    by simp
qed

text \<open>C10. A start that was claimed is observed, not claimed again. In the store that the claim left, a claim of
  the same invocation with valid arguments, by any worker and with any fresh identifiers, changes nothing
  and hands out no lease: in another scope it is a conflict, with another expected version than the first
  it is a concurrency error, and in the same scope with the same expected version it gets the receipt of
  the first; a reader in the scope gets that receipt. When the COMMIT of the claim has no known outcome
  its caller gets no lease and the instance is poisoned, and a new instance finds the start as if it had
  been acknowledged, if the COMMIT was durable, or a store in which nothing happened.\<close>

theorem start_observed_after_claim:
  assumes "claim_scoped_invocation_start cf tenant workspace invocation worker lease expected fresh Acknowledged s
      = (Inr (Claimed c), s1)"
    and "list_all caller_identity [tenant', workspace', worker']" "0 \<le> lease'"
    and "0 \<le> expected'" "expected' \<le> max_row_integer"
  shows "claim_scoped_invocation_start cf tenant' workspace' invocation worker' lease' expected' fresh' Acknowledged s1
      = (if (tenant', workspace') \<noteq> (tenant, workspace) then Inl Lg_Start_Conflict
         else if expected' \<noteq> expected then Inl (Lg_Concurrency ''invocation start expected another stream version'')
         else Inr (Observed (sc_receipt c)), s1)
    \<and> read_scoped_invocation_start cf tenant workspace invocation Acknowledged s1 = (Inr (Some (sc_receipt c)), s1)
    \<and> (\<exists>lost. claim_scoped_invocation_start cf tenant workspace invocation worker lease expected fresh
        (Exit_Unknown durable) s = (Inl Lg_Ambiguous, lost)
      \<and> (\<forall>fate body. transact fate body lost = (Inl Lg_Poisoned :: ledger_error + unit, lost))
      \<and> reopen lost = (if durable then s1 else s))"
proof (intro conjI)
  let ?body = "claim_start_tx (scoped_schema (cf_platform cf)) cf (in_scope tenant workspace) invocation"
  have args: "check_claim_arguments [tenant, workspace, invocation, worker] lease expected = Inr ()"
    and run: "transact Acknowledged (?body worker lease expected fresh) s = (Inr (Claimed c), s1)"
    using assms(1) by (simp_all add: claim_as_body)
  have body: "?body worker lease expected fresh (lg_db s) = Inr (Claimed c, lg_db s1)" and "\<not> lg_poisoned s"
    and s1: "s1 = s\<lparr>lg_db := lg_db s1\<rparr>"
    using run by (simp_all add: transact_acknowledged)
  have sane: "\<not> lg_poisoned s1"
    using \<open>\<not> lg_poisoned s\<close> by (subst s1) simp
  have keep: "s1\<lparr>lg_db := lg_db s1\<rparr> = s1"
    by simp
  have args': "check_claim_arguments [tenant', workspace', invocation, worker'] lease' expected' = Inr ()"
    and ids: "list_all caller_identity [tenant, workspace, invocation]"
    using args assms(2-5)
    by (auto simp: check_claim_arguments_def check_cursor_def check_row_integer_def max_row_integer_def map_err_def
        split: if_splits)
  show "claim_scoped_invocation_start cf tenant' workspace' invocation worker' lease' expected' fresh' Acknowledged s1
      = (if (tenant', workspace') \<noteq> (tenant, workspace) then Inl Lg_Start_Conflict
         else if expected' \<noteq> expected then Inl (Lg_Concurrency ''invocation start expected another stream version'')
         else Inr (Observed (sc_receipt c)), s1)"
    using scoped_claim_observed(1) [OF body, of tenant' workspace' worker' lease' expected' fresh'] sane args'
    by (simp add: claim_scoped_invocation_start_def transact_def)
  have "transact Acknowledged (observe_start (scoped_schema (cf_platform cf)) cf (in_scope tenant workspace) invocation) s1
      = (Inr (Some (sc_receipt c)), s1)"
    unfolding transact_acknowledged keep using scoped_claim_observed(2) [OF body] sane by simp
  then show "read_scoped_invocation_start cf tenant workspace invocation Acknowledged s1 = (Inr (Some (sc_receipt c)), s1)"
    using ids sane by (simp add: read_scoped_invocation_start_def)
  show "\<exists>lost. claim_scoped_invocation_start cf tenant workspace invocation worker lease expected fresh
        (Exit_Unknown durable) s = (Inl Lg_Ambiguous, lost)
      \<and> (\<forall>fate body. transact fate body lost = (Inl Lg_Poisoned :: ledger_error + unit, lost))
      \<and> reopen lost = (if durable then s1 else s)"
  proof (intro exI conjI allI)
    let ?lost = "poison (if durable then s1 else s)"
    show "claim_scoped_invocation_start cf tenant workspace invocation worker lease expected fresh (Exit_Unknown durable) s
        = (Inl Lg_Ambiguous, ?lost)"
      using \<open>\<not> lg_poisoned s\<close> lost_commit(1) [OF run, of durable]
      by (simp only: claim_scoped_invocation_start_def claim_scoped_start_tx_def args sum.case if_False)
    show "reopen ?lost = (if durable then s1 else s)"
      by (rule lost_commit(2) [OF run])
    show "transact fate body ?lost = (Inl Lg_Poisoned, ?lost)" for fate and body :: "canonical_db \<Rightarrow> ledger_error + unit \<times> canonical_db"
      by (simp add: transact_def poison_def)
  qed
qed

lemma start_observed_after_claim_witness: "fst (claim_scoped_invocation_start start_config ''T'' ''W'' ''i'' ''x'' 1 2
    first_draw Acknowledged \<lparr>lg_db = claimed_db, lg_poisoned = False\<rparr>) = Inr (Observed seen_start)"
  using start_observed_after_claim [OF demo_claims, of "''T''" "''W''" "''x''" 1 2 first_draw True] demo_callers
  by (simp add: demo_claimed_def max_row_integer_def)



text \<open>C11. What a scoped caller is told of a start, as the one that starts it, as one that finds it started or as a
  reader, is evidence of the invocation it named in the tenant and workspace it named; however the
  transaction ends, nothing of another scope leaves the store.\<close>

theorem start_told_in_scope:
  assumes "claim_scoped_invocation_start cf tenant workspace invocation worker lease expected fresh fate s = (Inr res, s1)
    \<or> read_scoped_invocation_start cf tenant workspace invocation fate s = (Inr (Some receipt), s1) \<and> res = Observed receipt"
  shows "st_tenant_id (evidence_of res) = tenant \<and> st_workspace_id (evidence_of res) = workspace
    \<and> st_invocation_id (evidence_of res) = invocation"
  using assms
proof (elim disjE conjE)
  let ?body = "claim_start_tx (scoped_schema (cf_platform cf)) cf (in_scope tenant workspace) invocation worker lease
    expected fresh"
  assume "claim_scoped_invocation_start cf tenant workspace invocation worker lease expected fresh fate s = (Inr res, s1)"
  then have run: "transact fate ?body s = (Inr res, s1)"
    by (auto simp: claim_scoped_invocation_start_def split: if_splits sum.splits)
  have "?body (lg_db s) = Inr (res, lg_db s1)"
    using transact_cases [OF run] by auto
  then show ?thesis
    using scoped_claim_evidence unfolding evidence_for_def by blast
next
  let ?body = "observe_start (scoped_schema (cf_platform cf)) cf (in_scope tenant workspace) invocation"
  assume read: "read_scoped_invocation_start cf tenant workspace invocation fate s = (Inr (Some receipt), s1)"
    and res: "res = Observed receipt"
  have run: "transact fate ?body s = (Inr (Some receipt), s1)"
    using read by (auto simp: read_scoped_invocation_start_def split: if_splits)
  have "?body (lg_db s) = Inr (Some receipt, lg_db s1)"
    using transact_cases [OF run] by auto
  then show ?thesis
    using scoped_observation unfolding evidence_for_def res by (simp add: evidence_of_def)
qed

lemma start_told_in_scope_witness: "st_tenant_id (evidence_of (Claimed demo_claimed)) = ''T''
    \<and> st_workspace_id (evidence_of (Claimed demo_claimed)) = ''W''
    \<and> st_invocation_id (evidence_of (Claimed demo_claimed)) = ''i''"
  by (rule start_told_in_scope [OF disjI1 [OF demo_claims]])

end
