(* ===== verification/Spec2Isabelle.thy ===== *)
theory Spec2Isabelle
  imports Policy Scheduler_Run Context_Compiler Tenancy_Signing Tenancy_Examples Attempts_Props Event_Log_Props
    Outbox_Props Projection_Progress Artifact_Props Kernel_Props Invocation_Recovery
    Publisher_Shutdown Invocation_Worker Canonical_Run
begin

text \<open>
  Verification library of the coordination runtime in \<open>src/quantum_entanglement\<close> (paths below are
  relative to it).

  \<^bold>\<open>The program.\<close> A group-chat coordination runtime for software agents. A message is routed to an
  agent or to a planner (\<open>chat.py\<close>), a plan is a graph of tasks (\<open>scheduler.py\<close>), the orchestrator kernel
  (\<open>runtime.py\<close>) dispatches ready tasks to agents under a policy with a human inbox (\<open>policy.py\<close>), gives
  them a budgeted context (\<open>context.py\<close>), and writes everything it does to an append-only event log
  (\<open>store.py\<close>, \<open>events.py\<close>), from which it recovers a session after a restart. Around the log stand
  the transactional outbox and inbox (\<open>store.py\<close>, \<open>delivery.py\<close>) with the publisher that empties the
  outbox into a transport (\<open>publisher.py\<close>), the projections with leased, fenced owners
  (\<open>projections.py\<close>), the artifact ledger replayed from the log (\<open>artifacts.py\<close>), and the durable
  queue of agent invocations with leases (\<open>attempts.py\<close>), its restart decisions
  (\<open>invocation_recovery.py\<close>) and its wire values (\<open>invocation_execution.py\<close>). An invocation is
  admitted with its events in one transaction and started once (\<open>store.py\<close>). Tenancy (\<open>tenancy.py\<close>)
  decides who may do what, by role bindings or signed, delegated capabilities.

  \<^bold>\<open>Theories and code.\<close> A definition bears the name of the function it models, as far as the logic
  permits.
    \<^item> \<open>Prelude\<close>, \<open>Json\<close>, \<open>Canonical\<close>, \<open>Tables\<close>: Python strings and dicts, results with exceptions,
      reachability and the interface locales; JSON documents; canonical bytes; SQLite tables as lists of
      rows with \<open>UPDATE\<close>, \<open>ORDER BY\<close> and unique keys. \<open>Floats\<close>: the rounding and the division of Python's
      floats, as the publisher and the worker gate compute with them.
    \<^item> \<open>Protocol\<close> (\<open>protocol.py\<close>), \<open>Policy\<close> (\<open>policy.py\<close>), \<open>Context_Compiler\<close> (\<open>context.py\<close>),
      \<open>Plugins\<close> (\<open>plugins.py\<close>), \<open>Chat_Router\<close> (\<open>chat.py\<close>).
    \<^item> \<open>Scheduler\<close>, \<open>Scheduler_Acyclic\<close>, \<open>Scheduler_Run\<close>: \<open>TaskGraph\<close> is the record \<open>task_graph\<close> of
      its dicts; the depth-first search of the constructor; runs of a graph.
    \<^item> \<open>Tenancy_Grants\<close>, \<open>Tenancy_Scope\<close>, \<open>Tenancy_Capability\<close>, \<open>Tenancy_Keys\<close>, \<open>Tenancy_Signing\<close>,
      \<open>Tenancy_Revocation\<close>, \<open>Tenancy_Authorizer\<close>: the parts of \<open>tenancy.py\<close>, in its order.
    \<^item> \<open>Attempts\<close>, \<open>Attempt_Leases\<close>: \<open>DurableAttemptStore\<close>, the two tables and each operation as the
      body of its transaction. \<open>Attempts_Inv\<close>, \<open>Attempts_Steps\<close>, \<open>Attempts_Claims\<close>, \<open>Attempts_Reach\<close>:
      the invariant of the tables, one lemma per operation, the step relation. \<open>Attempts_Props\<close>: promises.
    \<^item> \<open>Event_Log\<close>, \<open>Event_History\<close>: the events table of \<open>SQLiteEventStore\<close>.
      \<open>Outbox\<close>, \<open>Outbox_Delivery\<close>: its outbox, ambiguity, inbox and snapshot tables. \<open>Outbox_Inv\<close>,
      \<open>Outbox_Steps\<close>, \<open>Outbox_Reach\<close>, \<open>Outbox_Props\<close>: invariant, steps and promises.
    \<^item> \<open>Projection_Schema\<close>, \<open>Projection_Store\<close>, \<open>Projector\<close>: \<open>projections.py\<close>; the other
      \<open>Projection_\<close> theories hold the registry's life, the fencing, the history invariant and progress.
    \<^item> \<open>Artifact_Codec\<close>, \<open>Artifact_Ledger\<close>: \<open>artifacts.py\<close>; \<open>Artifact_Replay\<close>, \<open>Artifact_Coherence\<close>,
      \<open>Artifact_Props\<close>: its invariant, the cache against the log, its promises.
    \<^item> \<open>Kernel_Events\<close>, \<open>Kernel_Recovery\<close>, \<open>Kernel\<close>, \<open>Kernel_Run\<close>: \<open>runtime.py\<close> and the runtime
      registry of \<open>agent_runtime.py\<close>. \<open>Kernel_Commit\<close>, \<open>Kernel_Replay\<close>, \<open>Kernel_Sessions\<close>,
      \<open>Kernel_Steps\<close>, \<open>Kernel_Reach\<close>, \<open>Kernel_Progress\<close>, \<open>Kernel_Props\<close>: what a commit leaves in the
      log, that its replay is the memory, sessions as steps, promises.
    \<^item> \<open>Invocation_Recovery\<close>: the assessment of \<open>invocation_recovery.py\<close>
      and its source, the snapshot of the attempt store.
    \<^item> \<open>Publisher\<close>, \<open>Publisher_Attempt\<close>, \<open>Publisher_Life\<close>: \<open>publisher.py\<close>; \<open>Publisher_Props\<close>,
      \<open>Publisher_Shutdown\<close>: one attempt against the outbox, and the life of a publisher.
    \<^item> \<open>Invocation_Codec\<close>, \<open>Invocation_Start\<close>, \<open>Invocation_Admission\<close>: \<open>invocation_execution.py\<close>;
      \<open>Invocation_Worker\<close>: \<open>invocation_worker.py\<close>. \<open>Invocation_Wire\<close>: the contract of wire values,
      interpreted for four of them; \<open>Admission_Props\<close>: what is decoded and admitted.
    \<^item> \<open>Canonical_Admission\<close>, \<open>Canonical_Start\<close>: the atomic admission of an invocation and its first
      start in \<open>store.py\<close>, with the transactions whose outcome may be unknown; \<open>Canonical_Props\<close>: the runs
      of such a store; \<open>Canonical_Examples\<close>, \<open>Canonical_Run\<close>: one invocation from its request to its start,
      and what the store promises its callers.
    \<^item> The promises of a component are run on concrete inputs at the end of its last theory, for tenancy in
      \<open>Tenancy_Examples\<close>.

  \<^bold>\<open>How state and effects are modelled.\<close> An object is a record of its fields, a SQLite table a list of
  rows, a transaction a function from the tables to an error (rolled back) or to the answer with the new
  tables. A raise is a value of an error type. What is not decided by the code is an argument: clock
  readings, fresh ids, the replies of agents, handlers and transports, and what other connections commit
  between two transactions of an operation, including an acknowledgement that gets lost after a
  COMMIT. A lock that serialises operations makes each one step; concurrency is the interleaving of such
  steps in the step relations; the attempts of a batch of the publisher run under a schedule of their
  store calls. Instants are integers, microseconds since the epoch. A float is the rational it denotes,
  and the results of float arithmetic are rounded to doubles.

  \<^bold>\<open>Parameters and hypotheses.\<close> SHA-256, HMAC-SHA256, the texts of floats and instants, the
  calendar (\<open>datetime.fromisoformat\<close>, SQLite's \<open>julianday\<close>) and the built-in conversions of values of
  a wrong type are parameters, and so is \<open>math.log2\<close>. Theorems that need more of them say so: signatures
  of different payloads differ, an instant reads back from its text, \<open>log2\<close> is right at powers of two.

  \<^bold>\<open>Loops, bounds and fuel.\<close> Loops that the code bounds recurse on that bound: the eight admission
  attempts of a record, the pages of a replay or a recovery (whose limits are those of the code). The
  search of \<open>_validate_acyclic\<close> and the traversals of JSON are total by a measure. The rounds of
  \<open>OrchestratorKernel.run\<close> are counted by fuel, and \<open>run_ends\<close> shows that one round more than the plan
  has tasks is enough.

  \<^bold>\<open>Lemma groups.\<close> Every stateful component has an invariant with one preservation lemma per
  operation, a step relation, and promises on every reachable state. Optimised or incremental code is
  compared with a reference: paged replay with one pass, the depth-first search with acyclicity, the
  durable revision guard with the one in memory, the session with its log. Codecs have round trips,
  validators exact acceptance conditions.

  \<^bold>\<open>Not modelled\<close>, because it is input and output, host-object defence, or text processing without a
  contract in the program: connections, process binding and control signals of the stores; migrations
  and schema comparison (\<open>migrations/\<close>, \<open>domain_migrations.py\<close>); backups (\<open>backup*.py\<close>, files and
  SQLite's backup API); the blob store on disk (\<open>artifact_store.py\<close>); the HTTP adapters and the
  service shell (\<open>adapters/\<close>, \<open>service/\<close>, \<open>cli.py\<close>, \<open>admin_cli.py\<close>, \<open>product_trial.py\<close>); release and
  report scripts. Guards against subclasses of built-in types, locks and freezing of values have no
  counterpart in a logic whose values are immutable.
\<close>

end
